(* ===== verification/Abex_Prelude.thy ===== *)
theory Abex_Prelude
  imports Main "HOL-Library.Word" "HOL-Library.AList" "HOL-Library.Signed_Division"
begin

text \<open>
  Shared vocabulary of the ABEX development.

  \<^item> the C++ exceptions the sources throw, as values of a sum type, with the sequencing
    operator \<open>rbind\<close> that stops at the first throw;
  \<^item> the 64-bit integer ranges the sources use (\<open>std::int64_t\<close>, \<open>std::uint64_t\<close>);
  \<^item> the pieces of the C++ standard library the sources call on text:
    \<open>std::to_string\<close>, \<open>std::to_chars\<close>, \<open>std::from_chars\<close>, \<open>std::toupper\<close>,
    \<open>std::string::find\<close>;
  \<^item> generic lemmas on digits, association lists and sums that the components share.
\<close>

named_theorems result_simps \<open>equations for sequenced results\<close>
named_theorems in_range \<open>introduction rules for 64-bit ranges\<close>
named_theorems frame_simps \<open>fields an operation leaves unchanged\<close>

section \<open>Exceptions as values\<close>

datatype exn =
    Invalid_argument string
  | Overflow_error string
  | Domain_error string
  | Length_error string
  | Out_of_range string
  | Logic_error string
  | Runtime_error string
  | Json_exception string

type_synonym 'a result = "exn + 'a"

definition rbind :: "'a result \<Rightarrow> ('a \<Rightarrow> 'b result) \<Rightarrow> 'b result" where
  "rbind m f = (case m of Inl e \<Rightarrow> Inl e | Inr a \<Rightarrow> f a)"

fun what :: "exn \<Rightarrow> string" where
  "what (Invalid_argument s) = s"
| "what (Overflow_error s) = s"
| "what (Domain_error s) = s"
| "what (Length_error s) = s"
| "what (Out_of_range s) = s"
| "what (Logic_error s) = s"
| "what (Runtime_error s) = s"
| "what (Json_exception s) = s"

section \<open>Fixed-width integers\<close>

type_synonym u64 = "64 word"

definition int64_min :: int where "int64_min = - 9223372036854775808"
definition int64_max :: int where "int64_max = 9223372036854775807"
definition uint64_max :: int where "uint64_max = 18446744073709551615"

definition in_int64 :: "int \<Rightarrow> bool" where
  "in_int64 i \<longleftrightarrow> int64_min \<le> i \<and> i \<le> int64_max"

section \<open>Text\<close>

definition digit_char :: "nat \<Rightarrow> char" where
  "digit_char d = char_of (48 + d)"

definition is_digit :: "char \<Rightarrow> bool" where
  "is_digit c \<longleftrightarrow> 48 \<le> (of_char c :: nat) \<and> (of_char c :: nat) \<le> 57"

definition digit_value :: "char \<Rightarrow> nat" where
  "digit_value c = of_char c - 48"

fun nat_to_string :: "nat \<Rightarrow> string" where
  "nat_to_string n =
     (if n < 10 then [digit_char n] else nat_to_string (n div 10) @ [digit_char (n mod 10)])"

declare nat_to_string.simps [simp del]

definition int_to_string :: "int \<Rightarrow> string" where
  "int_to_string i = (if i < 0 then CHR ''-'' # nat_to_string (nat (- i)) else nat_to_string (nat i))"

definition u64_to_string :: "u64 \<Rightarrow> string" where
  "u64_to_string w = nat_to_string (unat w)"

definition digits_value :: "string \<Rightarrow> nat" where
  "digits_value s = foldl (\<lambda>acc c. 10 * acc + digit_value c) 0 s"

text \<open>
  \<open>std::from_chars\<close> reads the longest run of digits, after an optional minus sign for a
  signed type (no plus sign, no white space). It fails when there is no digit and when the value
  does not fit; otherwise it returns the value and what follows the digits.
\<close>

definition from_chars_u64 :: "string \<Rightarrow> (int \<times> string) option" where
  "from_chars_u64 s =
     (let ds = takeWhile is_digit s; v = int (digits_value ds)
      in if ds = [] \<or> v > uint64_max then None else Some (v, dropWhile is_digit s))"

definition from_chars_i64 :: "string \<Rightarrow> (int \<times> string) option" where
  "from_chars_i64 s =
     (let neg = (s \<noteq> [] \<and> hd s = CHR ''-'');
          body = (if neg then tl s else s);
          ds = takeWhile is_digit body;
          v = (if neg then - int (digits_value ds) else int (digits_value ds))
      in if ds = [] \<or> \<not> in_int64 v then None else Some (v, dropWhile is_digit body))"

definition to_upper :: "char \<Rightarrow> char" where
  "to_upper c = (if 97 \<le> (of_char c :: nat) \<and> (of_char c :: nat) \<le> 122
                 then char_of ((of_char c :: nat) - 32) else c)"

definition starts_with :: "string \<Rightarrow> string \<Rightarrow> bool" where
  "starts_with s p \<longleftrightarrow> take (length p) s = p"

text \<open>\<open>std::string::find\<close> of one character from the start: the text before the first
  occurrence and the text after it, or nothing.\<close>

definition split_first :: "char \<Rightarrow> string \<Rightarrow> (string \<times> string) option" where
  "split_first c s =
     (if c \<in> set s then Some (takeWhile (\<lambda>x. x \<noteq> c) s, tl (dropWhile (\<lambda>x. x \<noteq> c) s)) else None)"

section \<open>Shared lemmas\<close>

subsection \<open>Results\<close>

lemma rbind_Inl [simp, result_simps]: "rbind (Inl e) f = Inl e"
  and rbind_Inr [simp, result_simps]: "rbind (Inr a) f = f a"
  by (simp_all add: rbind_def)

lemma rbind_eq_Inr_iff: "rbind m f = Inr b \<longleftrightarrow> (\<exists>a. m = Inr a \<and> f a = Inr b)"
  by (cases m) auto

lemma rbind_eq_Inl_iff: "rbind m f = Inl e \<longleftrightarrow> m = Inl e \<or> (\<exists>a. m = Inr a \<and> f a = Inl e)"
  by (cases m) auto

lemma rbind_InrE [elim?]:
  assumes "rbind m f = Inr b"
  obtains a where "m = Inr a" and "f a = Inr b"
  using assms by (auto simp: rbind_eq_Inr_iff)

subsection \<open>Ranges\<close>

lemmas int64_bounds = int64_min_def int64_max_def

lemma in_int64_iff: "in_int64 i \<longleftrightarrow> - 9223372036854775808 \<le> i \<and> i \<le> 9223372036854775807"
  by (simp add: in_int64_def int64_bounds)

lemma in_int64_0 [simp, in_range]: "in_int64 0"
  by (simp add: in_int64_iff)

lemma in_int64_uminus [in_range]: "in_int64 i \<Longrightarrow> i \<noteq> int64_min \<Longrightarrow> in_int64 (- i)"
  by (auto simp: in_int64_def int64_bounds)

subsection \<open>Digits\<close>

lemma of_char_digit_char [simp]: "d < 10 \<Longrightarrow> (of_char (digit_char d) :: nat) = 48 + d"
  by (simp add: digit_char_def)

lemma is_digit_digit_char [simp]: "d < 10 \<Longrightarrow> is_digit (digit_char d)"
  by (simp add: is_digit_def)

lemma digit_value_digit_char [simp]: "d < 10 \<Longrightarrow> digit_value (digit_char d) = d"
  by (simp add: digit_value_def)

lemma digit_value_less: "is_digit c \<Longrightarrow> digit_value c < 10"
  by (auto simp: is_digit_def digit_value_def)

lemma digit_char_digit_value: "is_digit c \<Longrightarrow> digit_char (digit_value c) = c"
  by (simp add: is_digit_def digit_value_def digit_char_def)

lemma not_is_digit_misc [simp]:
  "\<not> is_digit (CHR ''.'')" "\<not> is_digit (CHR ''-'')" "\<not> is_digit (CHR ''+'')"
  "\<not> is_digit (CHR '':'')" "\<not> is_digit (CHR ''|'')"
  by (simp_all add: is_digit_def)

lemma digits_value_Nil [simp]: "digits_value [] = 0"
  by (simp add: digits_value_def)

lemma digits_value_snoc [simp]: "digits_value (s @ [c]) = 10 * digits_value s + digit_value c"
  by (simp add: digits_value_def)

lemma digits_value_append:
  "digits_value (s @ t) = digits_value s * 10 ^ length t + digits_value t"
proof (induction t rule: rev_induct)
  case (snoc c t)
  have "digits_value (s @ t @ [c]) = 10 * digits_value (s @ t) + digit_value c"
    using digits_value_snoc [of "s @ t" c] by simp
  with snoc.IH show ?case by simp
qed simp

lemma digits_value_Cons: "digits_value (c # s) = digit_value c * 10 ^ length s + digits_value s"
  using digits_value_append [of "[c]" s] by (simp add: digits_value_def)

lemma digits_value_zeros [simp]: "digits_value (replicate n (CHR ''0'')) = 0"
  by (induction n) (simp_all add: digits_value_Cons digit_value_def)

lemma digits_value_less: "\<forall>c \<in> set s. is_digit c \<Longrightarrow> digits_value s < 10 ^ length s"
proof (induction s rule: rev_induct)
  case (snoc c s)
  then have "digits_value s < 10 ^ length s" and "digit_value c < 10"
    by (simp_all add: digit_value_less)
  then have "10 * digits_value s + digit_value c < 10 * 10 ^ length s" by linarith
  then show ?case by simp
qed simp

lemma nat_to_string_digits [simp]: "c \<in> set (nat_to_string n) \<Longrightarrow> is_digit c"
proof (induction n arbitrary: c rule: nat_to_string.induct)
  case (1 n)
  show ?case
  proof (cases "n < 10")
    case True
    with "1.prems" show ?thesis by (simp add: nat_to_string.simps [of n])
  next
    case False
    with "1" show ?thesis by (auto simp: nat_to_string.simps [of n])
  qed
qed

lemma nat_to_string_nonempty [simp]: "nat_to_string n \<noteq> []"
  by (subst nat_to_string.simps) simp

lemma digits_value_nat_to_string [simp]: "digits_value (nat_to_string n) = n"
proof (induction n rule: nat_to_string.induct)
  case (1 n)
  show ?case
  proof (cases "n < 10")
    case True
    then show ?thesis by (simp add: nat_to_string.simps [of n] digits_value_def)
  next
    case False
    with "1.IH" show ?thesis by (simp add: nat_to_string.simps [of n])
  qed
qed

lemma nat_to_string_inject [simp]: "nat_to_string m = nat_to_string n \<longleftrightarrow> m = n"
  by (metis digits_value_nat_to_string)

lemma length_nat_to_string: "0 < k \<Longrightarrow> n < 10 ^ k \<Longrightarrow> length (nat_to_string n) \<le> k"
proof (induction n arbitrary: k rule: nat_to_string.induct)
  case (1 n)
  show ?case
  proof (cases "n < 10")
    case True
    with "1.prems" show ?thesis by (simp add: nat_to_string.simps [of n])
  next
    case False
    with "1.prems" obtain j where k: "k = Suc j" and "0 < j"
      by (cases k; cases "k - 1") auto
    from "1.prems" k have "n div 10 < 10 ^ j"
      by (simp add: less_mult_imp_div_less mult.commute)
    with "1.IH" False \<open>0 < j\<close> k show ?thesis by (simp add: nat_to_string.simps [of n])
  qed
qed

lemma takeWhile_digits_nat_to_string [simp]:
  "takeWhile is_digit (nat_to_string n) = nat_to_string n"
  "dropWhile is_digit (nat_to_string n) = []"
  by (simp_all add: takeWhile_eq_all_conv dropWhile_eq_Nil_conv)

lemma hd_nat_to_string_digit: "is_digit (hd (nat_to_string n))"
  using nat_to_string_digits [OF hd_in_set [OF nat_to_string_nonempty]] .

lemma hd_nat_to_string_neq [simp]:
  "hd (nat_to_string n) \<noteq> CHR ''-''" "hd (nat_to_string n) \<noteq> CHR ''+''"
  using hd_nat_to_string_digit [of n] by (auto simp del: nat_to_string_digits)

lemma int_to_string_inject [simp]: "int_to_string i = int_to_string j \<longleftrightarrow> i = j"
proof
  assume eq: "int_to_string i = int_to_string j"
  have hd: "hd (int_to_string k) = CHR ''-'' \<longleftrightarrow> k < 0" for k
    by (simp add: int_to_string_def)
  from eq have "i < 0 \<longleftrightarrow> j < 0" using hd by metis
  with eq show "i = j" by (auto simp: int_to_string_def split: if_splits)
qed simp

lemma int_to_string_chars: "c \<in> set (int_to_string i) \<Longrightarrow> is_digit c \<or> c = CHR ''-''"
  by (auto simp: int_to_string_def split: if_splits)

lemma split_first_append:
  assumes "c \<notin> set s"
  shows "split_first c (s @ c # t) = Some (s, t)"
proof -
  have "takeWhile (\<lambda>x. x \<noteq> c) (s @ c # t) = s" and "dropWhile (\<lambda>x. x \<noteq> c) (s @ c # t) = c # t"
    using assms by (auto simp: takeWhile_append dropWhile_append)
  then show ?thesis by (simp add: split_first_def)
qed

lemma split_first_None: "c \<notin> set s \<Longrightarrow> split_first c s = None"
  by (simp add: split_first_def)

lemma delimited_unique:
  fixes c :: char
  assumes "c \<notin> set xs" and "c \<notin> set ys"
  shows "xs @ c # s = ys @ c # t \<longleftrightarrow> xs = ys \<and> s = t"
proof
  assume eq: "xs @ c # s = ys @ c # t"
  then have "split_first c (xs @ c # s) = split_first c (ys @ c # t)" by simp
  then show "xs = ys \<and> s = t" using assms by (simp add: split_first_append)
qed simp

lemma starts_with_Cons [simp]: "starts_with (c # s) (d # p) \<longleftrightarrow> c = d \<and> starts_with s p"
  and starts_with_Nil [simp]: "starts_with s []" "starts_with [] (d # p) \<longleftrightarrow> False"
  by (auto simp: starts_with_def)

lemma starts_with_append [simp]: "starts_with (p @ s) p"
  by (simp add: starts_with_def)

lemma sep_notin_int_to_string [simp]: "CHR ''|'' \<notin> set (int_to_string i)" "CHR '':'' \<notin> set (int_to_string i)"
  using int_to_string_chars [of _ i] not_is_digit_misc(4,5) by force+

lemma sep_notin_nat_to_string [simp]: "CHR '':'' \<notin> set (nat_to_string n)" "CHR ''|'' \<notin> set (nat_to_string n)"
  using nat_to_string_digits [of _ n] not_is_digit_misc(4,5) by blast+

subsection \<open>Association lists and sums\<close>

lemma map_of_AList_update [simp]: "map_of (AList.update k v al) = (map_of al)(k \<mapsto> v)"
  by (simp add: update_conv')

lemma distinct_keys_update: "distinct (map fst al) \<Longrightarrow> distinct (map fst (AList.update k v al))"
  by (rule distinct_update)

lemma sum_list_AList_update:
  fixes f :: "'k \<times> 'v \<Rightarrow> int"
  assumes "distinct (map fst al)"
  shows "sum_list (map f (AList.update k v al)) =
           sum_list (map f al) + f (k, v) - (case map_of al k of None \<Rightarrow> 0 | Some w \<Rightarrow> f (k, w))"
  using assms
proof (induction al)
  case (Cons p al)
  show ?case
  proof (cases "fst p = k")
    case True
    with Cons.prems have "map_of al k = None" by (auto simp: map_of_eq_None_iff)
    with True show ?thesis by (cases p) simp
  next
    case False
    with Cons show ?thesis by (cases p) simp
  qed
qed simp

lemma Max_insert_max:
  "finite A \<Longrightarrow> Max (insert (max a b) A) = Max (insert a (insert b A))"
  by (cases "A = {}") (simp_all add: max.assoc)

subsection \<open>64-bit counters\<close>

lemma u64_to_string_inject [simp]: "u64_to_string m = u64_to_string n \<longleftrightarrow> m = n"
  by (simp add: u64_to_string_def word_unat_eq_iff)

lemma u64_less_Suc: "(n :: u64) \<noteq> - 1 \<Longrightarrow> m < n \<or> m = n \<Longrightarrow> m < n + 1"
proof -
  assume n: "n \<noteq> - 1" and m: "m < n \<or> m = n"
  have "1 + n \<noteq> 0" using n by (metis add_eq_0_iff)
  then have "unat (n + 1) = Suc (unat n)" using unatSuc [of n] by (simp add: add.commute)
  then show "m < n + 1" using m by (auto simp: word_less_nat_alt)
qed

end
