(* ===== verification/Abex_Decimal.thy ===== *)
theory Abex_Decimal
  imports Abex_Prelude
begin

text \<open>
  The fixed-point monetary value \<open>abex::Decimal\<close>
  (\<open>include/abex/domain/decimal.hpp\<close>, \<open>src/domain/decimal.cpp\<close>).

  A \<open>decimal\<close> holds the raw 64-bit integer, eight fractional digits. Arithmetic goes through a
  128-bit intermediate, which never overflows for 64-bit operands, and \<open>checked_from_wide\<close>
  rejects a result that does not fit 64 bits. Values are ordered by their raw integer.
  The theorems give the range invariant of every operation, exactness or truncation of the
  arithmetic, the text round trip and the formatter's size bound.
\<close>

section \<open>Values\<close>

datatype decimal = Decimal (raw: int)

instantiation decimal :: linorder
begin

definition less_eq_decimal :: "decimal \<Rightarrow> decimal \<Rightarrow> bool" where
  "less_eq_decimal a b \<longleftrightarrow> raw a \<le> raw b"

definition less_decimal :: "decimal \<Rightarrow> decimal \<Rightarrow> bool" where
  "less_decimal a b \<longleftrightarrow> raw a < raw b"

instance
  by standard (auto simp: less_eq_decimal_def less_decimal_def intro: decimal.expand)

end

instantiation decimal :: zero
begin

definition zero_decimal :: decimal where
  "zero_decimal = Decimal 0"

instance ..

end

definition scale :: int where "scale = 100000000"
definition precision :: nat where "precision = 8"
definition maximum_formatted_size :: nat where "maximum_formatted_size = 32"

text \<open>The invariant of the C++ representation: the raw value is a 64-bit integer.\<close>

definition wf_decimal :: "decimal \<Rightarrow> bool" where
  "wf_decimal d \<longleftrightarrow> in_int64 (raw d)"

definition from_raw :: "int \<Rightarrow> decimal" where
  "from_raw r = Decimal r"

definition checked_from_wide :: "int \<Rightarrow> int result" where
  "checked_from_wide v =
     (if v > int64_max \<or> v < int64_min then Inl (Overflow_error ''decimal arithmetic overflow'')
      else Inr v)"

definition from_integer :: "int \<Rightarrow> decimal result" where
  "from_integer v =
     (if v > int64_max sdiv scale \<or> v < int64_min sdiv scale
      then Inl (Overflow_error ''decimal integer conversion overflow'')
      else Inr (Decimal (v * scale)))"

definition is_zero :: "decimal \<Rightarrow> bool" where
  "is_zero d \<longleftrightarrow> raw d = 0"

definition is_positive :: "decimal \<Rightarrow> bool" where
  "is_positive d \<longleftrightarrow> raw d > 0"

section \<open>Arithmetic\<close>

definition decimal_abs :: "decimal \<Rightarrow> decimal result" where
  "decimal_abs d =
     (if raw d = int64_min then Inl (Overflow_error ''decimal absolute value overflow'')
      else Inr (from_raw (if raw d < 0 then - raw d else raw d)))"

definition decimal_neg :: "decimal \<Rightarrow> decimal result" where
  "decimal_neg d =
     (if raw d = int64_min then Inl (Overflow_error ''decimal negation overflow'')
      else Inr (from_raw (- raw d)))"

definition decimal_add :: "decimal \<Rightarrow> decimal \<Rightarrow> decimal result" where
  "decimal_add a b = rbind (checked_from_wide (raw a + raw b)) (\<lambda>r. Inr (from_raw r))"

definition decimal_sub :: "decimal \<Rightarrow> decimal \<Rightarrow> decimal result" where
  "decimal_sub a b = rbind (checked_from_wide (raw a - raw b)) (\<lambda>r. Inr (from_raw r))"

definition decimal_mult :: "decimal \<Rightarrow> decimal \<Rightarrow> decimal result" where
  "decimal_mult a b =
     rbind (checked_from_wide ((raw a * raw b) sdiv scale)) (\<lambda>r. Inr (from_raw r))"

definition decimal_div :: "decimal \<Rightarrow> decimal \<Rightarrow> decimal result" where
  "decimal_div a b =
     (if raw b = 0 then Inl (Domain_error ''decimal division by zero'')
      else rbind (checked_from_wide ((raw a * scale) sdiv raw b)) (\<lambda>r. Inr (from_raw r)))"

section \<open>Text\<close>

text \<open>The lambda \<open>parse_digits\<close> inside \<open>Decimal::parse\<close>.\<close>

definition parse_digits :: "string \<Rightarrow> int result" where
  "parse_digits s =
     (if s = [] then Inr 0
      else (case from_chars_i64 s of
              Some (v, []) \<Rightarrow> Inr v
            | _ \<Rightarrow> Inl (Invalid_argument ''decimal contains invalid characters'')))"

text \<open>The text around the decimal point, and whether the fraction holds another point.\<close>

definition decimal_parts :: "string \<Rightarrow> string \<times> string \<times> bool" where
  "decimal_parts body =
     (case split_first (CHR ''.'') body of
        None \<Rightarrow> (body, [], False)
      | Some (w, f) \<Rightarrow> (w, f, CHR ''.'' \<in> set f))"

definition parse_parts :: "bool \<Rightarrow> string \<times> string \<times> bool \<Rightarrow> decimal result" where
  "parse_parts negative parts =
     (case parts of (whole_text, fraction_text, dots) \<Rightarrow>
        if dots then Inl (Invalid_argument ''decimal value has multiple decimal points'')
        else if whole_text = [] \<and> fraction_text = []
          then Inl (Invalid_argument ''decimal value has no digits'')
        else if length fraction_text > precision
          then Inl (Invalid_argument ''decimal supports at most 8 fractional digits'')
        else
          rbind (parse_digits whole_text) (\<lambda>whole.
          rbind (parse_digits fraction_text) (\<lambda>fraction.
            let fraction_scale = 10 ^ (precision - length fraction_text);
                r = whole * scale + fraction * fraction_scale
            in rbind (checked_from_wide (if negative then - r else r)) (\<lambda>v. Inr (from_raw v)))))"

definition parse :: "string \<Rightarrow> decimal result" where
  "parse text =
     (if text = [] then Inl (Invalid_argument ''decimal value is empty'')
      else
        let body = (if hd text = CHR ''+'' \<or> hd text = CHR ''-'' then tl text else text)
        in if body = [] then Inl (Invalid_argument ''decimal value has no digits'')
           else parse_parts (hd text = CHR ''-'') (decimal_parts body))"

text \<open>The digit loop of \<open>format_to\<close>: \<open>n\<close> digits, the divisor shrinking tenfold.\<close>

fun format_fraction :: "nat \<Rightarrow> nat \<Rightarrow> nat \<Rightarrow> string" where
  "format_fraction 0 fraction divisor = []"
| "format_fraction (Suc n) fraction divisor =
     digit_char ((fraction div divisor) mod 10) # format_fraction n fraction (divisor div 10)"

text \<open>\<open>while (output[-1] == '0') --output\<close>\<close>

definition strip_zeros :: "string \<Rightarrow> string" where
  "strip_zeros s = rev (dropWhile (\<lambda>c. c = CHR ''0'') (rev s))"

definition to_string :: "decimal \<Rightarrow> string" where
  "to_string d =
     (let negative = (raw d < 0);
          magnitude = nat \<bar>raw d\<bar>;
          whole = magnitude div nat scale;
          fraction = magnitude mod nat scale;
          prefix = (if negative then ''-'' else []) @ nat_to_string whole
      in if fraction = 0 then prefix
         else strip_zeros (prefix @ CHR ''.'' # format_fraction precision fraction (nat scale div 10)))"

definition format_to :: "nat \<Rightarrow> decimal \<Rightarrow> string result" where
  "format_to buffer_size d =
     (if buffer_size < maximum_formatted_size
      then Inl (Length_error ''decimal formatting buffer is too small'')
      else Inr (to_string d))"

definition append_to :: "decimal \<Rightarrow> string \<Rightarrow> string" where
  "append_to d destination = destination @ to_string d"

section \<open>The compile-time parser \<open>Decimal::literal\<close>\<close>

record literal_state =
  lit_whole :: int
  lit_fraction :: int
  lit_fraction_digits :: nat
  lit_point :: bool
  lit_any_digit :: bool

text \<open>One round of its character loop; a thrown string literal (a compilation error) is \<open>Inl\<close>.\<close>

definition literal_step :: "int \<Rightarrow> literal_state \<Rightarrow> char \<Rightarrow> string + literal_state" where
  "literal_step raw_limit st c =
     (if c = CHR ''.'' then
        (if lit_point st then Inl ''decimal literal has multiple decimal points''
         else Inr (st\<lparr>lit_point := True\<rparr>))
      else if \<not> is_digit c then Inl ''decimal literal contains invalid characters''
      else if lit_point st then
        (if Suc (lit_fraction_digits st) > precision then Inl ''decimal literal has excess precision''
         else Inr (st\<lparr>lit_any_digit := True, lit_fraction_digits := Suc (lit_fraction_digits st),
                      lit_fraction := lit_fraction st * 10 + int (digit_value c)\<rparr>))
      else
        (let digit = int (digit_value c)
         in if lit_whole st > (raw_limit - digit) div 10 then Inl ''decimal literal is out of range''
            else Inr (st\<lparr>lit_any_digit := True, lit_whole := lit_whole st * 10 + digit\<rparr>)))"

fun literal_loop :: "int \<Rightarrow> literal_state \<Rightarrow> string \<Rightarrow> string + literal_state" where
  "literal_loop raw_limit st [] = Inr st"
| "literal_loop raw_limit st (c # cs) =
     (case literal_step raw_limit st c of
        Inl e \<Rightarrow> Inl e
      | Inr st' \<Rightarrow> literal_loop raw_limit st' cs)"

definition literal :: "string \<Rightarrow> string + decimal" where
  "literal text =
     (if text = [] then Inl ''decimal literal is empty''
      else
        let negative = (hd text = CHR ''-'');
            body = (if hd text = CHR ''+'' \<or> hd text = CHR ''-'' then tl text else text);
            raw_limit = (if negative then int64_max + 1 else int64_max)
        in if body = [] then Inl ''decimal literal has no digits''
        else case literal_loop raw_limit
               \<lparr>lit_whole = 0, lit_fraction = 0, lit_fraction_digits = 0,
                lit_point = False, lit_any_digit = False\<rparr> body of
          Inl e \<Rightarrow> Inl e
        | Inr st \<Rightarrow>
            if \<not> lit_any_digit st then Inl ''decimal literal has no digits''
            else
              let fraction = lit_fraction st * 10 ^ (precision - lit_fraction_digits st)
              in if lit_whole st > raw_limit div scale then Inl ''decimal literal is out of range''
              else if fraction > raw_limit - lit_whole st * scale
                then Inl ''decimal literal is out of range''
              else
                let r = lit_whole st * scale + fraction
                in Inr (from_raw (if negative then - r else r)))"

section \<open>Lemmas\<close>

lemmas decimal_ops = decimal_add_def decimal_sub_def decimal_mult_def decimal_div_def
  decimal_neg_def decimal_abs_def checked_from_wide_def from_raw_def

lemma scale_pos [simp]: "0 < scale" "scale \<noteq> 0" "nat scale = 100000000"
  by (simp_all add: scale_def)

lemma raw_0 [simp]: "raw 0 = 0"
  by (simp add: zero_decimal_def)

lemma le_decimal_iff: "a \<le> b \<longleftrightarrow> raw a \<le> raw b"
  and less_decimal_iff: "a < b \<longleftrightarrow> raw a < raw b"
  by (simp_all add: less_eq_decimal_def less_decimal_def)

lemma decimal_eq_iff: "a = b \<longleftrightarrow> raw a = raw b"
  by (cases a, cases b) simp

lemma raw_max: "raw (max a b) = max (raw a) (raw b)"
  by (simp add: max_def le_decimal_iff)

lemma wf_decimal_0 [simp, in_range]: "wf_decimal 0"
  by (simp add: wf_decimal_def)

lemma wf_decimal_max [in_range]: "wf_decimal a \<Longrightarrow> wf_decimal b \<Longrightarrow> wf_decimal (max a b)"
  by (simp add: max_def)

lemma checked_from_wide_eq:
  "checked_from_wide v =
     (if in_int64 v then Inr v else Inl (Overflow_error ''decimal arithmetic overflow''))"
  by (auto simp: checked_from_wide_def in_int64_def)

lemma decimal_add_eq_Inr_iff:
  "decimal_add a b = Inr c \<longleftrightarrow> raw c = raw a + raw b \<and> in_int64 (raw c)"
  by (auto simp: decimal_add_def checked_from_wide_eq from_raw_def decimal_eq_iff)

lemma decimal_sub_eq_Inr_iff:
  "decimal_sub a b = Inr c \<longleftrightarrow> raw c = raw a - raw b \<and> in_int64 (raw c)"
  by (auto simp: decimal_sub_def checked_from_wide_eq from_raw_def decimal_eq_iff)

lemma decimal_mult_eq_Inr_iff:
  "decimal_mult a b = Inr c \<longleftrightarrow> raw c = (raw a * raw b) sdiv scale \<and> in_int64 (raw c)"
  by (auto simp: decimal_mult_def checked_from_wide_eq from_raw_def decimal_eq_iff)

lemma decimal_div_eq_Inr_iff:
  "decimal_div a b = Inr c \<longleftrightarrow>
     raw b \<noteq> 0 \<and> raw c = (raw a * scale) sdiv raw b \<and> in_int64 (raw c)"
  by (auto simp: decimal_div_def checked_from_wide_eq from_raw_def decimal_eq_iff)

lemma decimal_neg_eq_Inr_iff: "decimal_neg a = Inr c \<longleftrightarrow> raw a \<noteq> int64_min \<and> raw c = - raw a"
  by (auto simp: decimal_neg_def from_raw_def decimal_eq_iff)

lemma decimal_abs_eq_Inr_iff: "decimal_abs a = Inr c \<longleftrightarrow> raw a \<noteq> int64_min \<and> raw c = \<bar>raw a\<bar>"
  by (auto simp: decimal_abs_def from_raw_def decimal_eq_iff)

lemmas decimal_Inr_iffs = decimal_add_eq_Inr_iff decimal_sub_eq_Inr_iff decimal_mult_eq_Inr_iff
  decimal_div_eq_Inr_iff decimal_neg_eq_Inr_iff decimal_abs_eq_Inr_iff

text \<open>A sum that fits is computed.\<close>

lemma decimal_add_fits: "in_int64 (raw a + raw b) \<Longrightarrow> decimal_add a b = Inr (Decimal (raw a + raw b))"
  by (simp add: decimal_add_eq_Inr_iff)

lemma decimal_sub_fits: "in_int64 (raw a - raw b) \<Longrightarrow> decimal_sub a b = Inr (Decimal (raw a - raw b))"
  by (simp add: decimal_sub_eq_Inr_iff)

lemma decimal_sub_0 [simp]: "wf_decimal a \<Longrightarrow> decimal_sub a 0 = Inr a"
  by (simp add: decimal_sub_eq_Inr_iff wf_decimal_def)

lemma decimal_add_0 [simp]: "wf_decimal a \<Longrightarrow> decimal_add 0 a = Inr a"
  "wf_decimal a \<Longrightarrow> decimal_add a 0 = Inr a"
  by (simp_all add: decimal_add_eq_Inr_iff wf_decimal_def)

lemma sdiv_trunc:
  fixes x k :: int
  assumes "0 < k"
  shows "\<bar>x - (x sdiv k) * k\<bar> < k" and "\<bar>(x sdiv k) * k\<bar> \<le> \<bar>x\<bar>" and "0 \<le> x \<Longrightarrow> x sdiv k = x div k"
proof -
  have eq: "x sdiv k = sgn x * (\<bar>x\<bar> div k)"
    using assms by (simp add: signed_divide_int_def)
  define y where "y = \<bar>x\<bar>"
  have "y div k * k + y mod k = y" "y mod k < k" "0 \<le> y mod k" and q0: "0 \<le> y div k * k"
    using assms by (simp_all add: pos_imp_zdiv_nonneg_iff y_def)
  then have q: "y div k * k \<le> y" "y - y div k * k < k" by linarith+
  show "\<bar>x - (x sdiv k) * k\<bar> < k" and "\<bar>(x sdiv k) * k\<bar> \<le> \<bar>x\<bar>"
    using q q0 assms unfolding eq
    by (cases x "0 :: int" rule: linorder_cases; simp add: y_def)+
  show "0 \<le> x \<Longrightarrow> x sdiv k = x div k"
    by (cases "x = 0") (simp_all add: eq)
qed

subsection \<open>Formatting\<close>

lemma length_format_fraction [simp]: "length (format_fraction n f d) = n"
  by (induction n arbitrary: d) simp_all

lemma format_fraction_digits: "c \<in> set (format_fraction n f d) \<Longrightarrow> is_digit c"
  by (induction n arbitrary: d) auto

lemma digits_value_format_fraction:
  "digits_value (format_fraction n f (10 ^ (n - 1))) = f mod 10 ^ n"
proof (induction n)
  case (Suc n)
  have step: "digits_value (format_fraction (Suc n) f (10 ^ n)) =
      (f div 10 ^ n mod 10) * 10 ^ n + digits_value (format_fraction n f (10 ^ n div 10))"
    by (simp add: digits_value_Cons)
  have tail: "format_fraction n f (10 ^ n div 10) = format_fraction n f (10 ^ (n - 1))"
    by (cases n) simp_all
  have "f mod 10 ^ Suc n = 10 ^ n * (f div 10 ^ n mod 10) + f mod 10 ^ n"
    by (simp only: power_Suc2 mod_mult2_eq)
  with step tail Suc.IH show ?case by (simp add: mult.commute)
qed simp

lemma strip_zeros_split: "\<exists>k. s = strip_zeros s @ replicate k (CHR ''0'')"
proof -
  let ?z = "takeWhile (\<lambda>c. c = CHR ''0'') (rev s)"
  have "?z = replicate (length ?z) (CHR ''0'')"
    by (rule replicate_eqI) (auto dest: set_takeWhileD)
  moreover have "s = strip_zeros s @ rev ?z"
    unfolding strip_zeros_def by (metis rev_append rev_rev_ident takeWhile_dropWhile_id)
  ultimately have "s = strip_zeros s @ replicate (length ?z) (CHR ''0'')"
    by (metis rev_replicate)
  then show ?thesis by blast
qed

lemma strip_zeros_append:
  assumes "\<exists>c \<in> set t. c \<noteq> CHR ''0''"
  shows "strip_zeros (s @ t) = s @ strip_zeros t"
  using assms by (auto simp: strip_zeros_def dropWhile_append1)

lemma nonzero_digit:
  assumes "digits_value s \<noteq> 0"
  shows "\<exists>c \<in> set s. c \<noteq> CHR ''0''"
proof (rule ccontr)
  assume "\<not> ?thesis"
  then have "s = replicate (length s) (CHR ''0'')"
    by (intro replicate_eqI) auto
  then show False using assms by (metis digits_value_zeros)
qed

text \<open>The fraction text, trailing zeros removed, still denotes the fraction.\<close>

lemma fraction_text:
  fixes f :: nat
  assumes "0 < f" and "f < 10 ^ 8"
  obtains t where "strip_zeros (s @ CHR ''.'' # format_fraction precision f (nat scale div 10)) = s @ CHR ''.'' # t"
    and "t \<noteq> []" and "length t \<le> 8" and "\<forall>c \<in> set t. is_digit c"
    and "digits_value t * 10 ^ (8 - length t) = f"
proof -
  let ?d = "format_fraction precision f (nat scale div 10)"
  have d: "?d = format_fraction 8 f (10 ^ (8 - 1))" by (simp add: precision_def)
  have val: "digits_value ?d = f"
    unfolding d digits_value_format_fraction using assms(2) by simp
  then have nz: "\<exists>c \<in> set ?d. c \<noteq> CHR ''0''"
    using assms(1) by (intro nonzero_digit) simp
  obtain k where k: "?d = strip_zeros ?d @ replicate k (CHR ''0'')"
    using strip_zeros_split by blast
  let ?t = "strip_zeros ?d"
  have len: "length ?t + k = 8"
    using arg_cong [OF k, of length] by (simp add: precision_def)
  have "digits_value ?t * 10 ^ k = f"
    using arg_cong [OF k, of digits_value] val by (simp add: digits_value_append)
  moreover from len have "8 - length ?t = k" by simp
  moreover have "?t \<noteq> []" using calculation(1) assms(1) by (auto simp: digits_value_def)
  moreover have "\<forall>c \<in> set ?t. is_digit c"
    using k format_fraction_digits by (metis UnCI set_append)
  moreover have "strip_zeros (s @ CHR ''.'' # ?d) = s @ CHR ''.'' # ?t"
    using strip_zeros_append [of ?d "s @ ''.''"] nz by simp
  ultimately show thesis using that len by auto
qed

lemma parse_digits_of_digits:
  assumes "\<forall>c \<in> set s. is_digit c" and "in_int64 (int (digits_value s))"
  shows "parse_digits s = Inr (int (digits_value s))"
proof (cases s)
  case (Cons c cs)
  then have "hd s \<noteq> CHR ''-''" using assms(1) by auto
  moreover have "takeWhile is_digit s = s" "dropWhile is_digit s = []"
    using assms(1) by (simp_all add: takeWhile_eq_all_conv dropWhile_eq_Nil_conv)
  ultimately show ?thesis
    using assms(2) Cons by (simp add: parse_digits_def from_chars_i64_def Let_def)
qed (simp add: parse_digits_def)

lemma digit_texts:
  assumes "\<forall>c \<in> set s. is_digit c"
  shows "CHR ''.'' \<notin> set s" and "s \<noteq> [] \<Longrightarrow> hd s \<noteq> CHR ''-'' \<and> hd s \<noteq> CHR ''+''"
  using assms by (cases s; auto)+

text \<open>Parsing a sign, whole digits and optionally a point with up to eight fraction digits.\<close>

lemma parse_of_digits:
  assumes w: "\<forall>c \<in> set w. is_digit c" "w \<noteq> []" "in_int64 (int (digits_value w))"
    and f: "\<forall>c \<in> set f. is_digit c" "length f \<le> 8"
    and sgn: "sg = [] \<and> \<not> neg \<or> sg = ''-'' \<and> neg"
    and v: "v = int (digits_value w) * scale + int (digits_value f) * 10 ^ (8 - length f)"
    and fit: "in_int64 (if neg then - v else v)"
  shows "parse (sg @ w @ (if f = [] then [] else CHR ''.'' # f)) = Inr (Decimal (if neg then - v else v))"
proof -
  let ?body = "w @ (if f = [] then [] else CHR ''.'' # f)"
  have hd_w: "hd w \<noteq> CHR ''-''" "hd w \<noteq> CHR ''+''" using digit_texts(2) [OF w(1)] w(2) by auto
  have "digits_value f < 10 ^ length f" using f(1) by (rule digits_value_less)
  also have "(10 :: nat) ^ length f \<le> 10 ^ 8" using f(2) by (intro power_increasing) simp_all
  finally have "in_int64 (int (digits_value f))" by (simp add: in_int64_iff)
  then have pf: "parse_digits f = Inr (int (digits_value f))" using f(1) by (rule parse_digits_of_digits [rotated])
  have pw: "parse_digits w = Inr (int (digits_value w))" using w by (intro parse_digits_of_digits)
  have sp: "split_first (CHR ''.'') ?body = (if f = [] then None else Some (w, f))"
    using digit_texts(1) [OF w(1)] by (simp add: split_first_append split_first_None)
  have core: "decimal_parts ?body = (w, f, False)"
    using digit_texts(1) [OF f(1)] by (simp add: sp decimal_parts_def)
  have parts: "parse_parts neg (w, f, False) = Inr (Decimal (if neg then - v else v))"
    using w(2) f(2) pw pf fit
    by (simp add: parse_parts_def Let_def precision_def checked_from_wide_eq from_raw_def
      split: if_splits flip: v)
  have "parse (sg @ ?body) = parse_parts neg (decimal_parts ?body)"
    using sgn hd_w w(2) by (auto simp: parse_def)
  with core parts show ?thesis by simp
qed

lemma to_string_cases:
  assumes "wf_decimal d"
  obtains sg w f where "to_string d = sg @ nat_to_string w @ (if f = [] then [] else CHR ''.'' # f)"
    and "sg = [] \<and> \<not> raw d < 0 \<or> sg = ''-'' \<and> raw d < 0"
    and "\<forall>c \<in> set f. is_digit c" and "length f \<le> 8" and "w < 10 ^ 11"
    and "\<bar>raw d\<bar> = int w * scale + int (digits_value f) * 10 ^ (8 - length f)"
proof -
  define m where "m = nat \<bar>raw d\<bar>"
  define sg where "sg = (if raw d < 0 then ''-'' else [])"
  have sg: "sg = [] \<and> \<not> raw d < 0 \<or> sg = ''-'' \<and> raw d < 0" by (simp add: sg_def)
  have "m \<le> 9223372036854775808" using assms by (auto simp: m_def wf_decimal_def in_int64_iff)
  then have w: "m div 100000000 < 10 ^ 11" by simp
  have "\<bar>raw d\<bar> = int m" by (simp add: m_def)
  then have m: "\<bar>raw d\<bar> = int (m div 100000000) * scale + int (m mod 100000000)"
    unfolding scale_def by (simp add: zdiv_int zmod_int)
  show thesis
  proof (cases "m mod 100000000 = 0")
    case True
    then have "to_string d = sg @ nat_to_string (m div 100000000)"
      by (simp add: to_string_def Let_def m_def sg_def)
    then show thesis using that [of sg "m div 100000000" "[]"] sg w m True by simp
  next
    case False
    then have lt: "0 < m mod 100000000" "m mod 100000000 < 10 ^ 8" by simp_all
    obtain t where t: "strip_zeros ((sg @ nat_to_string (m div 100000000)) @ CHR ''.'' #
          format_fraction precision (m mod 100000000) (nat scale div 10))
        = (sg @ nat_to_string (m div 100000000)) @ CHR ''.'' # t"
      and t': "t \<noteq> []" "length t \<le> 8" "\<forall>c \<in> set t. is_digit c"
        "digits_value t * 10 ^ (8 - length t) = m mod 100000000"
      using fraction_text [OF lt, of "sg @ nat_to_string (m div 100000000)"] by blast
    have "to_string d = sg @ nat_to_string (m div 100000000) @ CHR ''.'' # t"
      using t False by (simp add: to_string_def Let_def m_def sg_def)
    moreover have "int (m mod 100000000) = int (digits_value t) * 10 ^ (8 - length t)"
      using t'(4) by (metis of_nat_mult of_nat_numeral of_nat_power)
    ultimately show thesis using that [of sg "m div 100000000" t] sg w m t' by simp
  qed
qed

lemma in_int64_whole:
  assumes "w < 10 ^ 11"
  shows "in_int64 (int w)"
  using assms by (simp add: in_int64_iff)

section \<open>Properties\<close>

lemma parse_formatted: "wf_decimal d \<Longrightarrow> parse (to_string d) = Inr d"
proof -
  assume wf: "wf_decimal d"
  obtain sg w f where eq: "to_string d = sg @ nat_to_string w @ (if f = [] then [] else CHR ''.'' # f)"
    and sg: "sg = [] \<and> \<not> raw d < 0 \<or> sg = ''-'' \<and> raw d < 0"
    and f: "\<forall>c \<in> set f. is_digit c" "length f \<le> 8" and w: "w < 10 ^ 11"
    and v: "\<bar>raw d\<bar> = int w * scale + int (digits_value f) * 10 ^ (8 - length f)"
    by (rule to_string_cases [OF wf])
  have fit: "in_int64 (if raw d < 0 then - \<bar>raw d\<bar> else \<bar>raw d\<bar>)"
    using wf by (simp add: wf_decimal_def)
  have "parse (to_string d) = Inr (Decimal (if raw d < 0 then - \<bar>raw d\<bar> else \<bar>raw d\<bar>))"
    unfolding eq by (rule parse_of_digits [OF _ _ _ f sg _ fit]) (use w v in_int64_whole in auto)
  then show ?thesis by simp
qed

text \<open>Formatting a decimal and parsing the text gives the same decimal back, for every value
  a 64-bit raw integer can hold, the two limits included.\<close>

theorem parse_to_string: "wf_decimal d \<Longrightarrow> parse (to_string d) = Inr d"
  by (rule parse_formatted)

theorem parse_to_string_witness:
  "wf_decimal (Decimal int64_min) \<and> parse (to_string (Decimal int64_min)) = Inr (Decimal int64_min)"
proof -
  have wf: "wf_decimal (Decimal int64_min)"
    by (simp add: wf_decimal_def in_int64_def int64_bounds)
  show ?thesis using wf parse_to_string [OF wf] by simp
qed

text \<open>The formatted text of any 64-bit decimal has at most 21 characters, so the 32-byte
  buffer \<open>format_to\<close> insists on is never overrun, and with such a buffer it never throws.\<close>

theorem format_to_fits:
  "wf_decimal d \<Longrightarrow> maximum_formatted_size \<le> n \<Longrightarrow>
     format_to n d = Inr (to_string d) \<and> length (to_string d) \<le> 21 \<and> 21 < n"
proof -
  assume wf: "wf_decimal d" and n: "maximum_formatted_size \<le> n"
  obtain sg w f where eq: "to_string d = sg @ nat_to_string w @ (if f = [] then [] else CHR ''.'' # f)"
    and sg: "sg = [] \<and> \<not> raw d < 0 \<or> sg = ''-'' \<and> raw d < 0"
    and f: "length f \<le> 8" and w: "w < 10 ^ 11"
    by (rule to_string_cases [OF wf])
  have "length (nat_to_string w) \<le> 11" using w by (intro length_nat_to_string) simp_all
  with eq sg f have "length (to_string d) \<le> 21" by (auto split: if_splits)
  with n show ?thesis by (simp add: format_to_def maximum_formatted_size_def)
qed

theorem format_to_fits_witness:
  "wf_decimal (Decimal int64_min) \<and> maximum_formatted_size \<le> 32 \<and>
   format_to 32 (Decimal int64_min) = Inr (to_string (Decimal int64_min)) \<and>
   length (to_string (Decimal int64_min)) \<le> 21"
proof -
  have wf: "wf_decimal (Decimal int64_min)"
    by (simp add: wf_decimal_def in_int64_def int64_bounds)
  have n: "maximum_formatted_size \<le> 32" by (simp add: maximum_formatted_size_def)
  show ?thesis using wf n format_to_fits [OF wf n] by simp
qed

text \<open>Decimal arithmetic is exact or refuses: whatever an operation returns is a 64-bit value;
  a sum or difference is returned exactly when the mathematical result fits and is then that
  result; a product or quotient is the mathematical one cut towards zero at the eighth
  fractional digit.\<close>

theorem decimal_arithmetic:
  "(decimal_add a b = Inr c \<longleftrightarrow> raw c = raw a + raw b \<and> wf_decimal c) \<and>
   (decimal_sub a b = Inr c \<longleftrightarrow> raw c = raw a - raw b \<and> wf_decimal c) \<and>
   (decimal_mult a b = Inr c \<longrightarrow> wf_decimal c \<and> \<bar>raw a * raw b - raw c * scale\<bar> < scale \<and>
      \<bar>raw c * scale\<bar> \<le> \<bar>raw a * raw b\<bar>) \<and>
   (0 < raw b \<and> decimal_div a b = Inr c \<longrightarrow> wf_decimal c \<and>
      \<bar>raw a * scale - raw c * raw b\<bar> < raw b \<and> \<bar>raw c * raw b\<bar> \<le> \<bar>raw a * scale\<bar>)"
  using sdiv_trunc(1,2) [of scale "raw a * raw b"] sdiv_trunc(1,2) [of "raw b" "raw a * scale"]
  by (auto simp: decimal_Inr_iffs wf_decimal_def)

theorem decimal_arithmetic_witness:
  "decimal_mult (Decimal 150000000) (Decimal 33333333) = Inr (Decimal 49999999) \<and>
   wf_decimal (Decimal 49999999) \<and>
   decimal_div (Decimal 100000000) (Decimal 300000000) = Inr (Decimal 33333333) \<and>
   \<bar>100000000 * scale - 33333333 * 300000000\<bar> < 300000000"
proof -
  have m: "decimal_mult (Decimal 150000000) (Decimal 33333333) = Inr (Decimal 49999999)"
    by (simp add: decimal_mult_eq_Inr_iff scale_def in_int64_iff)
  have d: "decimal_div (Decimal 100000000) (Decimal 300000000) = Inr (Decimal 33333333)"
    by (simp add: decimal_div_eq_Inr_iff scale_def in_int64_iff)
  show ?thesis
    using m d decimal_arithmetic [of "Decimal 150000000" "Decimal 33333333" "Decimal 49999999"]
      decimal_arithmetic [of "Decimal 100000000" "Decimal 300000000" "Decimal 33333333"]
    by simp
qed

end
