(* ===== verification/Abex_Order.thy ===== *)
theory Abex_Order
  imports Abex_Decimal
begin

text \<open>
  The canonical order model (\<open>include/abex/domain/order.hpp\<close>, \<open>src/domain/order.cpp\<close>,
  \<open>include/abex/domain/operational_event.hpp\<close>): the enumerations with their text forms, the
  request and order structures, order construction and the request fingerprints that decide
  idempotent replay.

  \<open>StringMap\<close> is a partial function, \<open>StringSet\<close> a set; versions and sequences are 64-bit
  words; millisecond times are integers. The clock (\<open>unix_time_ms\<close>) and the third-party JSON
  printer behind the legacy fingerprints are arguments.
\<close>

section \<open>Enumerations\<close>

datatype venue = Okx | Binance
datatype side = Buy | Sell
datatype order_type = Market | Limit
datatype time_in_force = Gtc | Ioc | Fok
datatype order_status = Live | PartiallyFilled | Filled | Canceled | Rejected | Unknown
datatype pending_action = NoAction | NewAction | CancelAction | AmendAction | ReconcileAction
datatype operational_severity = Info | Warning | Critical

fun venue_to_string :: "venue \<Rightarrow> string" where
  "venue_to_string Okx = ''OKX''"
| "venue_to_string Binance = ''BINANCE''"

fun side_to_string :: "side \<Rightarrow> string" where
  "side_to_string Buy = ''BUY''"
| "side_to_string Sell = ''SELL''"

fun order_type_to_string :: "order_type \<Rightarrow> string" where
  "order_type_to_string Market = ''MARKET''"
| "order_type_to_string Limit = ''LIMIT''"

fun time_in_force_to_string :: "time_in_force \<Rightarrow> string" where
  "time_in_force_to_string Gtc = ''GTC''"
| "time_in_force_to_string Ioc = ''IOC''"
| "time_in_force_to_string Fok = ''FOK''"

fun order_status_to_string :: "order_status \<Rightarrow> string" where
  "order_status_to_string Live = ''LIVE''"
| "order_status_to_string PartiallyFilled = ''PARTIALLY_FILLED''"
| "order_status_to_string Filled = ''FILLED''"
| "order_status_to_string Canceled = ''CANCELED''"
| "order_status_to_string Rejected = ''REJECTED''"
| "order_status_to_string Unknown = ''UNKNOWN''"

fun pending_action_to_string :: "pending_action \<Rightarrow> string" where
  "pending_action_to_string NoAction = ''NONE''"
| "pending_action_to_string NewAction = ''NEW''"
| "pending_action_to_string CancelAction = ''CANCEL''"
| "pending_action_to_string AmendAction = ''AMEND''"
| "pending_action_to_string ReconcileAction = ''RECONCILE''"

fun severity_to_string :: "operational_severity \<Rightarrow> string" where
  "severity_to_string Info = ''INFO''"
| "severity_to_string Warning = ''WARNING''"
| "severity_to_string Critical = ''CRITICAL''"

definition ascii_iequals :: "string \<Rightarrow> string \<Rightarrow> bool" where
  "ascii_iequals lhs rhs \<longleftrightarrow> length lhs = length rhs \<and> map to_upper lhs = map to_upper rhs"

definition invalid_enum :: "string \<Rightarrow> string \<Rightarrow> 'a result" where
  "invalid_enum name v = Inl (Invalid_argument (''invalid '' @ name @ '': '' @ v))"

definition venue_from_string :: "string \<Rightarrow> venue result" where
  "venue_from_string v =
     (if ascii_iequals v ''OKX'' then Inr Okx
      else if ascii_iequals v ''BINANCE'' then Inr Binance
      else invalid_enum ''venue'' v)"

definition side_from_string :: "string \<Rightarrow> side result" where
  "side_from_string v =
     (if ascii_iequals v ''BUY'' then Inr Buy
      else if ascii_iequals v ''SELL'' then Inr Sell
      else invalid_enum ''side'' v)"

definition order_type_from_string :: "string \<Rightarrow> order_type result" where
  "order_type_from_string v =
     (if ascii_iequals v ''MARKET'' then Inr Market
      else if ascii_iequals v ''LIMIT'' then Inr Limit
      else invalid_enum ''order type'' v)"

definition time_in_force_from_string :: "string \<Rightarrow> time_in_force result" where
  "time_in_force_from_string v =
     (if ascii_iequals v ''GTC'' then Inr Gtc
      else if ascii_iequals v ''IOC'' then Inr Ioc
      else if ascii_iequals v ''FOK'' then Inr Fok
      else invalid_enum ''time in force'' v)"

definition order_status_from_string :: "string \<Rightarrow> order_status result" where
  "order_status_from_string v =
     (if ascii_iequals v ''NEW'' \<or> ascii_iequals v ''LIVE'' then Inr Live
      else if ascii_iequals v ''PARTIALLY_FILLED'' \<or> ascii_iequals v ''PARTIALLY FILLED''
        then Inr PartiallyFilled
      else if ascii_iequals v ''FILLED'' then Inr Filled
      else if ascii_iequals v ''CANCELED'' \<or> ascii_iequals v ''CANCELLED'' \<or> ascii_iequals v ''EXPIRED''
        then Inr Canceled
      else if ascii_iequals v ''REJECTED'' then Inr Rejected
      else if ascii_iequals v ''UNKNOWN'' then Inr Unknown
      else invalid_enum ''order status'' v)"

definition pending_action_from_string :: "string \<Rightarrow> pending_action result" where
  "pending_action_from_string v =
     (if ascii_iequals v ''NONE'' then Inr NoAction
      else if ascii_iequals v ''NEW'' then Inr NewAction
      else if ascii_iequals v ''CANCEL'' then Inr CancelAction
      else if ascii_iequals v ''AMEND'' then Inr AmendAction
      else if ascii_iequals v ''RECONCILE'' then Inr ReconcileAction
      else invalid_enum ''pending action'' v)"

definition operational_severity_from_string :: "string \<Rightarrow> operational_severity result" where
  "operational_severity_from_string v =
     (if ascii_iequals v ''INFO'' then Inr Info
      else if ascii_iequals v ''WARNING'' then Inr Warning
      else if ascii_iequals v ''CRITICAL'' then Inr Critical
      else Inl (Invalid_argument (''invalid operational severity: '' @ v)))"

definition is_terminal :: "order_status \<Rightarrow> bool" where
  "is_terminal s \<longleftrightarrow> s = Filled \<or> s = Canceled \<or> s = Rejected"

definition is_open :: "order_status \<Rightarrow> bool" where
  "is_open s \<longleftrightarrow> s = Live \<or> s = PartiallyFilled \<or> s = Unknown"

section \<open>Requests, orders, execution reports, events\<close>

record order_request =
  rq_client_order_id :: string
  rq_venue :: venue
  rq_symbol :: string
  rq_side :: side
  rq_type :: order_type
  rq_price :: "decimal option"
  rq_quantity :: decimal
  rq_time_in_force :: time_in_force

record amend_request =
  am_client_order_id :: string
  am_request_id :: string
  am_new_price :: "decimal option"
  am_new_quantity :: "decimal option"

record cancel_request =
  cx_client_order_id :: string
  cx_request_id :: string

record order =
  client_order_id :: string
  exchange_order_id :: string
  exchange_client_id_aliases :: "string set"
  exchange_order_id_aliases :: "string set"
  exchange_fill_offsets :: "string \<rightharpoonup> decimal"
  exchange_quote_offsets :: "string \<rightharpoonup> decimal"
  venue :: venue
  symbol :: string
  side :: side
  type :: order_type
  price :: "decimal option"
  quantity :: decimal
  time_in_force :: time_in_force
  status :: order_status
  pending_action :: pending_action
  pending_amend_price :: "decimal option"
  pending_amend_quantity :: "decimal option"
  filled_quantity :: decimal
  cumulative_quote :: decimal
  average_fill_price :: "decimal option"
  rejection_reason :: string
  version :: u64
  last_sequence :: "u64 option"
  created_at_ms :: int
  updated_at_ms :: int
  create_fingerprint :: string
  processed_requests :: "string \<rightharpoonup> string"
  processed_request_outcomes :: "string \<rightharpoonup> string"
  processed_event_ids :: "string set"

record execution_report =
  rp_event_id :: string
  rp_client_order_id :: string
  rp_exchange_order_id :: string
  rp_status :: order_status
  rp_cumulative_filled :: decimal
  rp_cumulative_quote :: "decimal option"
  rp_last_fill_price :: "decimal option"
  rp_order_price :: "decimal option"
  rp_order_quantity :: "decimal option"
  rp_sequence :: "u64 option"
  rp_event_time_ms :: int
  rp_reason :: string

record order_event_context =
  ctx_exchange_order_id :: string
  ctx_symbol :: string
  ctx_side :: side
  ctx_type :: order_type
  ctx_price :: "decimal option"
  ctx_average_fill_price :: "decimal option"
  ctx_quantity :: decimal
  ctx_filled_quantity :: decimal
  ctx_status :: order_status
  ctx_pending_action :: pending_action
  ctx_rejection_reason :: string
  ctx_version :: u64
  ctx_venue_sequence :: "u64 option"
  ctx_exchange_time_ms :: int

record operational_event =
  ev_sequence :: u64
  ev_occurred_at_ms :: int
  ev_severity :: operational_severity
  ev_category :: string
  ev_code :: string
  ev_message :: string
  ev_instance_id :: string
  ev_venue :: "venue option"
  ev_client_order_id :: string
  ev_request_id :: string
  ev_order :: "order_event_context option"

section \<open>Fingerprints\<close>

text \<open>\<open>append_text\<close>: length, colon, bytes, bar; \<open>append_number\<close>: decimal digits, bar.\<close>

definition append_text :: "string \<Rightarrow> string" where
  "append_text v = nat_to_string (length v) @ '':'' @ v @ ''|''"

definition append_number :: "int \<Rightarrow> string" where
  "append_number v = int_to_string v @ ''|''"

fun venue_index :: "venue \<Rightarrow> int" where
  "venue_index Okx = 0"
| "venue_index Binance = 1"

fun side_index :: "side \<Rightarrow> int" where
  "side_index Buy = 0"
| "side_index Sell = 1"

fun order_type_index :: "order_type \<Rightarrow> int" where
  "order_type_index Market = 0"
| "order_type_index Limit = 1"

fun time_in_force_index :: "time_in_force \<Rightarrow> int" where
  "time_in_force_index Gtc = 0"
| "time_in_force_index Ioc = 1"
| "time_in_force_index Fok = 2"

definition optional_raw :: "decimal option \<Rightarrow> int" where
  "optional_raw p = (case p of Some d \<Rightarrow> raw d | None \<Rightarrow> int64_min)"

definition fingerprint :: "order_request \<Rightarrow> string" where
  "fingerprint r =
     ''v2|CREATE|'' @ append_text (rq_client_order_id r) @ append_number (venue_index (rq_venue r)) @
     append_text (rq_symbol r) @ append_number (side_index (rq_side r)) @
     append_number (order_type_index (rq_type r)) @ append_number (optional_raw (rq_price r)) @
     append_number (raw (rq_quantity r)) @ append_number (time_in_force_index (rq_time_in_force r))"

definition amend_fingerprint :: "amend_request \<Rightarrow> string" where
  "amend_fingerprint r =
     ''v2|AMEND|'' @ append_text (am_client_order_id r) @
     int_to_string (optional_raw (am_new_price r)) @ ''|'' @
     int_to_string (optional_raw (am_new_quantity r))"

definition cancel_fingerprint :: "cancel_request \<Rightarrow> string" where
  "cancel_fingerprint r = ''v2|CANCEL|'' @ cx_client_order_id r"

text \<open>
  The legacy fingerprints print an ordered JSON object; the printer belongs to the JSON library
  and is the argument \<open>dump\<close>, over the fields in order.
\<close>

type_synonym json_dump = "(string \<times> string) list \<Rightarrow> string"

definition optional_text :: "decimal option \<Rightarrow> string" where
  "optional_text p = (case p of Some d \<Rightarrow> to_string d | None \<Rightarrow> [])"

definition legacy_fingerprint :: "json_dump \<Rightarrow> order_request \<Rightarrow> string" where
  "legacy_fingerprint dump r = dump
     [(''clientOrderId'', rq_client_order_id r), (''venue'', venue_to_string (rq_venue r)),
      (''symbol'', rq_symbol r), (''side'', side_to_string (rq_side r)),
      (''type'', order_type_to_string (rq_type r)), (''price'', optional_text (rq_price r)),
      (''quantity'', to_string (rq_quantity r)),
      (''timeInForce'', time_in_force_to_string (rq_time_in_force r))]"

definition legacy_amend_fingerprint :: "json_dump \<Rightarrow> amend_request \<Rightarrow> string" where
  "legacy_amend_fingerprint dump r = dump
     [(''clientOrderId'', am_client_order_id r), (''newPrice'', optional_text (am_new_price r)),
      (''newQuantity'', optional_text (am_new_quantity r))]"

definition fingerprint_matches :: "json_dump \<Rightarrow> string \<Rightarrow> order_request \<Rightarrow> bool" where
  "fingerprint_matches dump stored r \<longleftrightarrow>
     stored = fingerprint r \<or> (starts_with stored ''{'' \<and> stored = legacy_fingerprint dump r)"

definition amend_fingerprint_matches :: "json_dump \<Rightarrow> string \<Rightarrow> amend_request \<Rightarrow> bool" where
  "amend_fingerprint_matches dump stored r \<longleftrightarrow>
     stored = amend_fingerprint r \<or>
     (starts_with stored ''{'' \<and> stored = legacy_amend_fingerprint dump r)"

definition cancel_fingerprint_matches :: "string \<Rightarrow> cancel_request \<Rightarrow> bool" where
  "cancel_fingerprint_matches stored r \<longleftrightarrow>
     stored = cancel_fingerprint r \<or> stored = ''cancel:'' @ cx_client_order_id r"

definition make_order :: "int \<Rightarrow> order_request \<Rightarrow> string \<Rightarrow> int \<Rightarrow> order" where
  "make_order unix_time_ms r create_fp now_ms =
     (let now = (if now_ms = 0 then unix_time_ms else now_ms);
          fp = (if create_fp = [] then fingerprint r else create_fp)
      in \<lparr>client_order_id = rq_client_order_id r, exchange_order_id = [],
          exchange_client_id_aliases = {}, exchange_order_id_aliases = {},
          exchange_fill_offsets = Map.empty, exchange_quote_offsets = Map.empty,
          venue = rq_venue r, symbol = rq_symbol r, side = rq_side r, type = rq_type r,
          price = rq_price r, quantity = rq_quantity r, time_in_force = rq_time_in_force r,
          status = Unknown, pending_action = NewAction,
          pending_amend_price = None, pending_amend_quantity = None,
          filled_quantity = 0, cumulative_quote = 0, average_fill_price = None,
          rejection_reason = [], version = 1, last_sequence = None,
          created_at_ms = now, updated_at_ms = now, create_fingerprint = fp,
          processed_requests = Map.empty, processed_request_outcomes = Map.empty,
          processed_event_ids = {}\<rparr>)"

section \<open>Lemmas\<close>

lemma is_terminal_simps [simp]:
  "is_terminal Filled" "is_terminal Canceled" "is_terminal Rejected"
  "\<not> is_terminal Live" "\<not> is_terminal PartiallyFilled" "\<not> is_terminal Unknown"
  by (simp_all add: is_terminal_def)

lemma is_open_iff: "is_open s \<longleftrightarrow> \<not> is_terminal s"
  by (cases s) (simp_all add: is_open_def)

lemma append_text_unique: "append_text a @ s = append_text b @ t \<longleftrightarrow> a = b \<and> s = t"
proof
  assume "append_text a @ s = append_text b @ t"
  then have "nat_to_string (length a) @ CHR '':'' # a @ ''|'' @ s =
      nat_to_string (length b) @ CHR '':'' # b @ ''|'' @ t"
    by (simp add: append_text_def)
  then have "length a = length b" and "a @ ''|'' @ s = b @ ''|'' @ t"
    by (simp_all add: delimited_unique)
  then show "a = b \<and> s = t" by simp
qed simp

lemma append_number_unique: "append_number a @ s = append_number b @ t \<longleftrightarrow> a = b \<and> s = t"
  using delimited_unique [of "CHR ''|''" "int_to_string a" "int_to_string b" s t]
  by (simp add: append_number_def)

lemma append_number_inject [simp]: "append_number a = append_number b \<longleftrightarrow> a = b"
  using append_number_unique [of a "[]" b "[]"] by simp

lemma venue_index_inject [simp]: "venue_index v = venue_index v' \<longleftrightarrow> v = v'"
  by (cases v; cases v') simp_all

lemma side_index_inject [simp]: "side_index s = side_index s' \<longleftrightarrow> s = s'"
  by (cases s; cases s') simp_all

lemma order_type_index_inject [simp]: "order_type_index ty = order_type_index ty' \<longleftrightarrow> ty = ty'"
  by (cases ty; cases ty') simp_all

lemma time_in_force_index_inject [simp]: "time_in_force_index f = time_in_force_index f' \<longleftrightarrow> f = f'"
  by (cases f; cases f') simp_all

lemma optional_raw_inject:
  "p \<noteq> Some (Decimal int64_min) \<Longrightarrow> q \<noteq> Some (Decimal int64_min) \<Longrightarrow>
     optional_raw p = optional_raw q \<longleftrightarrow> p = q"
  by (auto simp: optional_raw_def decimal_eq_iff split: option.splits)

lemma fingerprint_nonempty [simp]: "fingerprint r \<noteq> []" "\<not> starts_with (fingerprint r) ''{''"
  by (simp_all add: fingerprint_def)

lemma amend_fingerprint_start [simp]: "\<not> starts_with (amend_fingerprint r) ''{''"
  by (simp add: amend_fingerprint_def)

lemma make_order_fields [simp]:
  "client_order_id (make_order t r fp n) = rq_client_order_id r"
  "symbol (make_order t r fp n) = rq_symbol r"
  "side (make_order t r fp n) = rq_side r"
  "venue (make_order t r fp n) = rq_venue r"
  "type (make_order t r fp n) = rq_type r"
  "price (make_order t r fp n) = rq_price r"
  "quantity (make_order t r fp n) = rq_quantity r"
  "status (make_order t r fp n) = Unknown"
  "pending_action (make_order t r fp n) = NewAction"
  "filled_quantity (make_order t r fp n) = 0"
  "cumulative_quote (make_order t r fp n) = 0"
  "exchange_order_id (make_order t r fp n) = []"
  "exchange_order_id_aliases (make_order t r fp n) = {}"
  "exchange_client_id_aliases (make_order t r fp n) = {}"
  "create_fingerprint (make_order t r fp n) = (if fp = [] then fingerprint r else fp)"
  by (simp_all add: make_order_def Let_def)

text \<open>Every enumeration value is read back from the text it is written as.\<close>

lemma enum_text_roundtrip [simp]:
  "venue_from_string (venue_to_string v) = Inr v"
  "side_from_string (side_to_string s) = Inr s"
  "order_type_from_string (order_type_to_string ty) = Inr ty"
  "time_in_force_from_string (time_in_force_to_string f) = Inr f"
  "order_status_from_string (order_status_to_string st) = Inr st"
  "pending_action_from_string (pending_action_to_string pa) = Inr pa"
  "operational_severity_from_string (severity_to_string sev) = Inr sev"
        apply (cases v; simp add: venue_from_string_def ascii_iequals_def to_upper_def)
       apply (cases s; simp add: side_from_string_def ascii_iequals_def to_upper_def)
      apply (cases ty; simp add: order_type_from_string_def ascii_iequals_def to_upper_def)
     apply (cases f; simp add: time_in_force_from_string_def ascii_iequals_def to_upper_def)
    apply (cases st; simp add: order_status_from_string_def ascii_iequals_def to_upper_def)
   apply (cases pa; simp add: pending_action_from_string_def ascii_iequals_def to_upper_def)
  apply (cases sev; simp add: operational_severity_from_string_def ascii_iequals_def to_upper_def)
  done

section \<open>Properties\<close>

text \<open>Idempotency keys decide equality of payloads: a stored create fingerprint matches a
  later create request exactly when the two requests are the same, except that a price equal to
  the smallest 64-bit value is written like a missing price. The same holds for amend
  fingerprints over order id, price and quantity.\<close>

theorem fingerprint_decides_equality:
  "(rq_price r \<noteq> Some (Decimal int64_min) \<and> rq_price r' \<noteq> Some (Decimal int64_min) \<longrightarrow>
      (fingerprint_matches dump (fingerprint r) r' \<longleftrightarrow> r = r')) \<and>
   (am_new_price a \<noteq> Some (Decimal int64_min) \<and> am_new_price a' \<noteq> Some (Decimal int64_min) \<and>
    am_new_quantity a \<noteq> Some (Decimal int64_min) \<and> am_new_quantity a' \<noteq> Some (Decimal int64_min) \<longrightarrow>
      (amend_fingerprint_matches dump (amend_fingerprint a) a' \<longleftrightarrow>
         am_client_order_id a = am_client_order_id a' \<and> am_new_price a = am_new_price a' \<and>
         am_new_quantity a = am_new_quantity a'))"
proof (intro conjI impI)
  assume p: "rq_price r \<noteq> Some (Decimal int64_min) \<and> rq_price r' \<noteq> Some (Decimal int64_min)"
  have "fingerprint r = fingerprint r' \<longleftrightarrow> r = r'"
  proof
    assume "fingerprint r = fingerprint r'"
    then show "r = r'"
      using p unfolding fingerprint_def append.append_Cons
      by (intro order_request.equality)
        (simp_all add: append_text_unique append_number_unique optional_raw_inject flip: decimal_eq_iff)
  qed simp
  then show "fingerprint_matches dump (fingerprint r) r' \<longleftrightarrow> r = r'"
    by (auto simp: fingerprint_matches_def)
next
  assume p: "am_new_price a \<noteq> Some (Decimal int64_min) \<and> am_new_price a' \<noteq> Some (Decimal int64_min) \<and>
    am_new_quantity a \<noteq> Some (Decimal int64_min) \<and> am_new_quantity a' \<noteq> Some (Decimal int64_min)"
  have "amend_fingerprint a = amend_fingerprint a' \<longleftrightarrow>
      am_client_order_id a = am_client_order_id a' \<and> am_new_price a = am_new_price a' \<and>
      am_new_quantity a = am_new_quantity a'"
    using p by (simp add: amend_fingerprint_def append_text_unique delimited_unique optional_raw_inject)
  then show "amend_fingerprint_matches dump (amend_fingerprint a) a' \<longleftrightarrow>
      am_client_order_id a = am_client_order_id a' \<and> am_new_price a = am_new_price a' \<and>
      am_new_quantity a = am_new_quantity a'"
    by (auto simp: amend_fingerprint_matches_def)
qed

theorem fingerprint_decides_equality_witness:
  "fingerprint_matches (\<lambda>_. [])
     (fingerprint \<lparr>rq_client_order_id = ''a|b'', rq_venue = Okx, rq_symbol = ''BTC-USDT'', rq_side = Buy,
        rq_type = Limit, rq_price = Some (Decimal 5), rq_quantity = Decimal 7, rq_time_in_force = Gtc\<rparr>)
     \<lparr>rq_client_order_id = ''a|b'', rq_venue = Okx, rq_symbol = ''BTC-USDT'', rq_side = Buy,
        rq_type = Limit, rq_price = Some (Decimal 5), rq_quantity = Decimal 8, rq_time_in_force = Gtc\<rparr>
     \<longleftrightarrow> False"
  using fingerprint_decides_equality [THEN conjunct1, of
      "\<lparr>rq_client_order_id = ''a|b'', rq_venue = Okx, rq_symbol = ''BTC-USDT'', rq_side = Buy,
        rq_type = Limit, rq_price = Some (Decimal 5), rq_quantity = Decimal 7, rq_time_in_force = Gtc\<rparr>"
      "\<lparr>rq_client_order_id = ''a|b'', rq_venue = Okx, rq_symbol = ''BTC-USDT'', rq_side = Buy,
        rq_type = Limit, rq_price = Some (Decimal 5), rq_quantity = Decimal 8, rq_time_in_force = Gtc\<rparr>"
      "\<lambda>_. []"]
  by (simp add: int64_min_def)

end
