(* ===== verification/Abex_State_Machine.thy ===== *)
theory Abex_State_Machine
  imports Abex_Order "HOL-Library.Multiset"
begin

text \<open>
  \<open>OrderStateMachine::apply\<close> (\<open>include/abex/domain/order_state_machine.hpp\<close>): how an execution
  report of a venue changes an order.

  The C++ function mutates the order in place and can throw from its decimal arithmetic after it
  has already replaced price and quantity, so the model returns the order together with the
  outcome: an exception leaves the order as far as it had been changed. The clock reading is an
  argument.
\<close>

datatype apply_disposition = Applied | Duplicate | Stale | Invalid

record apply_result =
  disposition :: apply_disposition
  state_changed :: bool
  reason :: string

section \<open>Helpers of the namespace \<open>detail\<close>\<close>

definition stale_sequence :: "order \<Rightarrow> execution_report \<Rightarrow> bool" where
  "stale_sequence ord rep =
     (case (last_sequence ord, rp_sequence rep) of
        (Some l, Some s) \<Rightarrow> s \<le> l
      | _ \<Rightarrow> False)"

definition offset_for :: "(string \<rightharpoonup> decimal) \<Rightarrow> string \<Rightarrow> decimal" where
  "offset_for offsets eid =
     (if eid = [] then 0 else (case offsets eid of None \<Rightarrow> 0 | Some d \<Rightarrow> d))"

definition is_historical_generation :: "order \<Rightarrow> execution_report \<Rightarrow> bool" where
  "is_historical_generation ord rep \<longleftrightarrow>
     rp_exchange_order_id rep \<noteq> [] \<and> exchange_order_id ord \<noteq> [] \<and>
     rp_exchange_order_id rep \<noteq> exchange_order_id ord \<and>
     rp_exchange_order_id rep \<in> exchange_order_id_aliases ord"

definition derive_status ::
    "order \<Rightarrow> execution_report \<Rightarrow> decimal \<Rightarrow> bool \<Rightarrow> bool \<Rightarrow> order_status" where
  "derive_status ord rep aggregate_filled historical stale =
     (if aggregate_filled \<ge> quantity ord then Filled
      else if status ord = Filled then Filled
      else if historical then
        (if is_terminal (status ord) then status ord
         else if aggregate_filled > 0 then PartiallyFilled else status ord)
      else if is_terminal (status ord) then status ord
      else if stale then (if aggregate_filled > 0 then PartiallyFilled else status ord)
      else if rp_status rep = Canceled \<or> rp_status rep = Rejected then rp_status rep
      else if aggregate_filled > 0 \<or> rp_status rep = PartiallyFilled then PartiallyFilled
      else if rp_status rep = Live then Live
      else status ord)"

definition amendment_confirmed :: "order \<Rightarrow> execution_report \<Rightarrow> bool" where
  "amendment_confirmed ord rep \<longleftrightarrow>
     (case pending_amend_price ord of
        None \<Rightarrow> True
      | Some p \<Rightarrow> rp_order_price rep \<noteq> None \<and> price ord = Some p) \<and>
     (case pending_amend_quantity ord of
        None \<Rightarrow> True
      | Some q \<Rightarrow> rp_order_quantity rep \<noteq> None \<and> quantity ord = q)"

section \<open>The steps of \<open>apply\<close>\<close>

text \<open>Authoritative terms of the venue, current generation only.\<close>

definition merge_terms :: "order \<Rightarrow> execution_report \<Rightarrow> bool \<Rightarrow> decimal option \<Rightarrow> order" where
  "merge_terms ord rep historical observed_quantity =
     (if historical then ord
      else ord\<lparr>price := (case rp_order_price rep of None \<Rightarrow> price ord | Some p \<Rightarrow> Some p),
               quantity := (case observed_quantity of None \<Rightarrow> quantity ord | Some q \<Rightarrow> q)\<rparr>)"

definition merge_quote :: "order \<Rightarrow> execution_report \<Rightarrow> decimal \<Rightarrow> decimal \<Rightarrow> decimal result" where
  "merge_quote ord rep quote_offset merged_filled =
     (case rp_cumulative_quote rep of
        Some q \<Rightarrow>
          rbind (decimal_add quote_offset q) (\<lambda>aggregate_quote.
            Inr (if aggregate_quote \<ge> cumulative_quote ord then aggregate_quote
                 else cumulative_quote ord))
      | None \<Rightarrow>
          (case rp_last_fill_price rep of
             Some p \<Rightarrow>
               if merged_filled > filled_quantity ord then
                 rbind (decimal_sub merged_filled (filled_quantity ord)) (\<lambda>delta.
                 rbind (decimal_mult delta p) (\<lambda>notional.
                   decimal_add (cumulative_quote ord) notional))
               else Inr (cumulative_quote ord)
           | None \<Rightarrow> Inr (cumulative_quote ord)))"

definition merge_average :: "order \<Rightarrow> decimal option result" where
  "merge_average ord =
     (if filled_quantity ord > 0 \<and> cumulative_quote ord > 0
      then rbind (decimal_div (cumulative_quote ord) (filled_quantity ord)) (\<lambda>a. Inr (Some a))
      else Inr (average_fill_price ord))"

definition clear_pending :: "order \<Rightarrow> execution_report \<Rightarrow> bool \<Rightarrow> bool" where
  "clear_pending ord rep historical =
     (case pending_action ord of
        NoAction \<Rightarrow> False
      | NewAction \<Rightarrow> \<not> historical \<and> rp_status rep \<noteq> Unknown
      | CancelAction \<Rightarrow> \<not> historical \<and> is_terminal (status ord)
      | AmendAction \<Rightarrow> \<not> historical \<and> (is_terminal (status ord) \<or> amendment_confirmed ord rep)
      | ReconcileAction \<Rightarrow> \<not> historical \<and> rp_status rep \<noteq> Unknown)"

text \<open>Everything after the arithmetic, up to the version counter: nothing in it throws.\<close>

definition settle :: "int \<Rightarrow> order \<Rightarrow> execution_report \<Rightarrow> decimal \<Rightarrow> bool \<Rightarrow> bool \<Rightarrow> order" where
  "settle now ord rep aggregate_filled historical stale =
     (let st = derive_status ord rep aggregate_filled historical stale;
          o1 = ord\<lparr>status := st,
                   filled_quantity := (if st = Filled then quantity ord else filled_quantity ord),
                   rejection_reason := (if st = Rejected \<and> rp_reason rep \<noteq> [] then rp_reason rep
                                        else rejection_reason ord),
                   exchange_order_id := (if \<not> historical \<and> rp_exchange_order_id rep \<noteq> []
                                         then rp_exchange_order_id rep else exchange_order_id ord),
                   last_sequence :=
                     (case rp_sequence rep of
                        None \<Rightarrow> last_sequence ord
                      | Some s \<Rightarrow> (case last_sequence ord of
                                     None \<Rightarrow> Some s
                                   | Some l \<Rightarrow> if s > l then Some s else Some l)),
                   processed_event_ids := (if rp_event_id rep \<noteq> []
                                           then insert (rp_event_id rep) (processed_event_ids ord)
                                           else processed_event_ids ord)\<rparr>;
          o2 = (if clear_pending o1 rep historical
                then o1\<lparr>pending_action := NoAction, pending_amend_price := None,
                        pending_amend_quantity := None\<rparr>
                else o1)
      in o2\<lparr>updated_at_ms := max now (rp_event_time_ms rep)\<rparr>)"

definition observably_changed :: "order \<Rightarrow> order \<Rightarrow> bool \<Rightarrow> bool" where
  "observably_changed old new exchange_id_will_change \<longleftrightarrow>
     status old \<noteq> status new \<or> filled_quantity old \<noteq> filled_quantity new \<or>
     cumulative_quote old \<noteq> cumulative_quote new \<or> exchange_id_will_change \<or>
     price old \<noteq> price new \<or> quantity old \<noteq> quantity new \<or>
     pending_action old \<noteq> pending_action new"

definition apply_accepted ::
    "int \<Rightarrow> order \<Rightarrow> execution_report \<Rightarrow> bool \<Rightarrow> decimal \<Rightarrow> decimal option \<Rightarrow> order \<times> apply_result result" where
  "apply_accepted now ord rep historical aggregate_filled observed_quantity =
     (let stale = stale_sequence ord rep;
          quote_offset = offset_for (exchange_quote_offsets ord) (rp_exchange_order_id rep);
          exchange_id_will_change = (\<not> historical \<and> rp_exchange_order_id rep \<noteq> [] \<and>
                                     rp_exchange_order_id rep \<noteq> exchange_order_id ord);
          o1 = merge_terms ord rep historical observed_quantity;
          merged_filled = max (filled_quantity o1) aggregate_filled
      in case merge_quote o1 rep quote_offset merged_filled of
           Inl e \<Rightarrow> (o1, Inl e)
         | Inr q \<Rightarrow>
             let o2 = o1\<lparr>cumulative_quote := q, filled_quantity := merged_filled\<rparr>
             in case merge_average o2 of
                  Inl e \<Rightarrow> (o2, Inl e)
                | Inr avg \<Rightarrow>
                    let o3 = settle now (o2\<lparr>average_fill_price := avg\<rparr>) rep aggregate_filled historical stale;
                        changed = observably_changed ord o3 exchange_id_will_change
                    in (if changed then o3\<lparr>version := version o3 + 1\<rparr> else o3,
                        Inr \<lparr>disposition = (if stale then Stale else Applied),
                             state_changed = changed,
                             reason = (if stale then ''stale sequence merged without status regression''
                                       else [])\<rparr>))"

definition refused :: "apply_disposition \<Rightarrow> string \<Rightarrow> apply_result result" where
  "refused d why = Inr \<lparr>disposition = d, state_changed = False, reason = why\<rparr>"

definition apply_report :: "int \<Rightarrow> order \<Rightarrow> execution_report \<Rightarrow> order \<times> apply_result result" where
  "apply_report now ord rep =
     (if rp_event_id rep \<noteq> [] \<and> rp_event_id rep \<in> processed_event_ids ord
        then (ord, refused Duplicate ''duplicate event id'')
      else if rp_client_order_id rep \<noteq> [] \<and> rp_client_order_id rep \<noteq> client_order_id ord \<and>
              rp_client_order_id rep \<notin> exchange_client_id_aliases ord
        then (ord, refused Invalid ''execution report client order id does not match'')
      else
        let historical = is_historical_generation ord rep;
            fill_offset = offset_for (exchange_fill_offsets ord) (rp_exchange_order_id rep)
        in if rp_exchange_order_id rep \<noteq> [] \<and> exchange_order_id ord \<noteq> [] \<and>
              rp_exchange_order_id rep \<noteq> exchange_order_id ord \<and> \<not> historical
             then (ord, refused Invalid ''execution report contains an unexpected exchange order id'')
           else
             case decimal_add fill_offset (rp_cumulative_filled rep) of
               Inl e \<Rightarrow> (ord, Inl e)
             | Inr aggregate_filled \<Rightarrow>
                 case (case rp_order_quantity rep of
                         None \<Rightarrow> Inr None
                       | Some q \<Rightarrow> rbind (decimal_add fill_offset q) (\<lambda>x. Inr (Some x))) of
                   Inl e \<Rightarrow> (ord, Inl e)
                 | Inr observed_quantity \<Rightarrow>
                     let effective_quantity =
                           (case observed_quantity of
                              Some q \<Rightarrow> if historical then quantity ord else q
                            | None \<Rightarrow> quantity ord)
                     in if rp_cumulative_filled rep < 0 \<or> aggregate_filled > effective_quantity
                        then (ord, refused Invalid
                                ''cumulative fill is outside the canonical order quantity'')
                        else apply_accepted now ord rep historical aggregate_filled observed_quantity)"

section \<open>Lemmas\<close>

lemma merge_terms_fields [simp]:
  "quantity (merge_terms ord rep h obs) =
     (if h then quantity ord else case obs of None \<Rightarrow> quantity ord | Some q \<Rightarrow> q)"
  "price (merge_terms ord rep h obs) =
     (if h then price ord else case rp_order_price rep of None \<Rightarrow> price ord | Some p \<Rightarrow> Some p)"
  "status (merge_terms ord rep h obs) = status ord"
  "filled_quantity (merge_terms ord rep h obs) = filled_quantity ord"
  "cumulative_quote (merge_terms ord rep h obs) = cumulative_quote ord"
  "pending_action (merge_terms ord rep h obs) = pending_action ord"
  "exchange_order_id (merge_terms ord rep h obs) = exchange_order_id ord"
  "processed_event_ids (merge_terms ord rep h obs) = processed_event_ids ord"
  "last_sequence (merge_terms ord rep h obs) = last_sequence ord"
  "version (merge_terms ord rep h obs) = version ord"
  by (simp_all add: merge_terms_def)

lemma settle_fields [simp]:
  "status (settle now ord rep a h st) = derive_status ord rep a h st"
  "quantity (settle now ord rep a h st) = quantity ord"
  "price (settle now ord rep a h st) = price ord"
  "filled_quantity (settle now ord rep a h st) =
     (if derive_status ord rep a h st = Filled then quantity ord else filled_quantity ord)"
  "cumulative_quote (settle now ord rep a h st) = cumulative_quote ord"
  "version (settle now ord rep a h st) = version ord"
  "exchange_order_id (settle now ord rep a h st) =
     (if \<not> h \<and> rp_exchange_order_id rep \<noteq> [] then rp_exchange_order_id rep else exchange_order_id ord)"
  "processed_event_ids (settle now ord rep a h st) =
     (if rp_event_id rep \<noteq> [] then insert (rp_event_id rep) (processed_event_ids ord)
      else processed_event_ids ord)"
  by (simp_all add: settle_def Let_def)

text \<open>What identifies an order, and the gateway's own bookkeeping on it, is never touched.\<close>

definition order_identity :: "order \<Rightarrow> string \<times> venue \<times> string \<times> side \<times> order_type \<times> time_in_force" where
  "order_identity ord =
     (client_order_id ord, venue ord, symbol ord, side ord, type ord, time_in_force ord)"

definition order_ledger :: "order \<Rightarrow> string \<times> (string \<rightharpoonup> string) \<times> (string \<rightharpoonup> string) \<times>
    (string \<rightharpoonup> decimal) \<times> (string \<rightharpoonup> decimal) \<times> string set \<times> string set" where
  "order_ledger ord =
     (create_fingerprint ord, processed_requests ord, processed_request_outcomes ord,
      exchange_fill_offsets ord, exchange_quote_offsets ord,
      exchange_client_id_aliases ord, exchange_order_id_aliases ord)"

lemma merge_terms_frame [frame_simps]:
  "order_identity (merge_terms ord rep h obs) = order_identity ord"
  "order_ledger (merge_terms ord rep h obs) = order_ledger ord"
  by (simp_all add: merge_terms_def order_identity_def order_ledger_def)

lemma settle_frame [frame_simps]:
  "order_identity (settle now ord rep a h st) = order_identity ord"
  "order_ledger (settle now ord rep a h st) = order_ledger ord"
  by (simp_all add: settle_def Let_def order_identity_def order_ledger_def)

lemma field_update_frame [frame_simps]:
  "order_identity (ord\<lparr>cumulative_quote := q\<rparr>) = order_identity ord"
  "order_identity (ord\<lparr>filled_quantity := f\<rparr>) = order_identity ord"
  "order_identity (ord\<lparr>average_fill_price := v\<rparr>) = order_identity ord"
  "order_identity (ord\<lparr>version := n\<rparr>) = order_identity ord"
  "order_ledger (ord\<lparr>cumulative_quote := q\<rparr>) = order_ledger ord"
  "order_ledger (ord\<lparr>filled_quantity := f\<rparr>) = order_ledger ord"
  "order_ledger (ord\<lparr>average_fill_price := v\<rparr>) = order_ledger ord"
  "order_ledger (ord\<lparr>version := n\<rparr>) = order_ledger ord"
  by (simp_all add: order_identity_def order_ledger_def)

text \<open>
  The three ways \<open>apply_accepted\<close> ends: an exception before the quote, one before the average,
  or the settled order, with its version advanced exactly when something observable changed.
\<close>

lemma apply_accepted_cases:
  assumes "apply_accepted now ord rep h agg obs = (ord', res)"
  obtains (quote_exn) e where "res = Inl e" and "ord' = merge_terms ord rep h obs"
  | (average_exn) e q where "res = Inl e" and
      "ord' = (merge_terms ord rep h obs)\<lparr>cumulative_quote := q, filled_quantity := max (filled_quantity ord) agg\<rparr>"
  | (settled) q avg o3 changed where
      "o3 = settle now ((merge_terms ord rep h obs)\<lparr>cumulative_quote := q,
              filled_quantity := max (filled_quantity ord) agg, average_fill_price := avg\<rparr>)
            rep agg h (stale_sequence ord rep)"
      and "changed = observably_changed ord o3 (\<not> h \<and> rp_exchange_order_id rep \<noteq> [] \<and>
                       rp_exchange_order_id rep \<noteq> exchange_order_id ord)"
      and "ord' = (if changed then o3\<lparr>version := version o3 + 1\<rparr> else o3)"
      and "res = Inr \<lparr>disposition = (if stale_sequence ord rep then Stale else Applied),
                     state_changed = changed,
                     reason = (if stale_sequence ord rep
                               then ''stale sequence merged without status regression'' else [])\<rparr>"
proof -
  let ?o1 = "merge_terms ord rep h obs"
  let ?m = "max (filled_quantity ord) agg"
  let ?mq = "merge_quote ?o1 rep (offset_for (exchange_quote_offsets ord) (rp_exchange_order_id rep)) ?m"
  show thesis
  proof (cases ?mq)
    case (Inl e)
    with assms show thesis by (intro quote_exn [of e]) (simp_all add: apply_accepted_def Let_def)
  next
    case q: (Inr q)
    let ?o2 = "?o1\<lparr>cumulative_quote := q, filled_quantity := ?m\<rparr>"
    show thesis
    proof (cases "merge_average ?o2")
      case (Inl e)
      with assms q show thesis by (intro average_exn [of e q]) (simp_all add: apply_accepted_def Let_def)
    next
      case (Inr avg)
      with assms q show thesis
        by (intro settled [where q = q and avg = avg, OF refl refl]) (simp_all add: apply_accepted_def Let_def)
    qed
  qed
qed

lemma apply_report_cases:
  assumes "apply_report now ord rep = (ord', res)"
  obtains (unchanged) "ord' = ord"
      and "(\<exists>e. res = Inl e) \<or> (\<exists>d why. res = refused d why \<and> (d = Duplicate \<or> d = Invalid))"
  | (accepted) agg obs where
      "apply_accepted now ord rep (is_historical_generation ord rep) agg obs = (ord', res)"
      and "\<not> (rp_event_id rep \<noteq> [] \<and> rp_event_id rep \<in> processed_event_ids ord)"
      and "0 \<le> rp_cumulative_filled rep"
      and "agg \<le> (if is_historical_generation ord rep then quantity ord
                  else case obs of None \<Rightarrow> quantity ord | Some q \<Rightarrow> q)"
      and "decimal_add (offset_for (exchange_fill_offsets ord) (rp_exchange_order_id rep))
             (rp_cumulative_filled rep) = Inr agg"
      and "case rp_order_quantity rep of
             None \<Rightarrow> obs = None
           | Some q \<Rightarrow> \<exists>x. obs = Some x \<and>
               decimal_add (offset_for (exchange_fill_offsets ord) (rp_exchange_order_id rep)) q = Inr x"
proof -
  let ?off = "offset_for (exchange_fill_offsets ord) (rp_exchange_order_id rep)"
  let ?h = "is_historical_generation ord rep"
  show thesis
  proof (cases "(rp_event_id rep \<noteq> [] \<and> rp_event_id rep \<in> processed_event_ids ord) \<or>
      (rp_client_order_id rep \<noteq> [] \<and> rp_client_order_id rep \<noteq> client_order_id ord \<and>
       rp_client_order_id rep \<notin> exchange_client_id_aliases ord) \<or>
      (rp_exchange_order_id rep \<noteq> [] \<and> exchange_order_id ord \<noteq> [] \<and>
       rp_exchange_order_id rep \<noteq> exchange_order_id ord \<and> \<not> ?h)")
    case True
    with assms have "ord' = ord \<and> (\<exists>d why. res = refused d why \<and> (d = Duplicate \<or> d = Invalid))"
      by (auto simp: apply_report_def Let_def split: if_splits)
    then show thesis by (intro unchanged) auto
  next
    case False
    let ?obs = "case rp_order_quantity rep of None \<Rightarrow> Inr None
                | Some q \<Rightarrow> rbind (decimal_add ?off q) (\<lambda>x. Inr (Some x))"
    let ?eff = "\<lambda>obs. case obs of Some q \<Rightarrow> if ?h then quantity ord else q | None \<Rightarrow> quantity ord"
    from False assms have app: "(case decimal_add ?off (rp_cumulative_filled rep) of
        Inl e \<Rightarrow> (ord, Inl e)
      | Inr agg \<Rightarrow> (case ?obs of
          Inl e \<Rightarrow> (ord, Inl e)
        | Inr obs \<Rightarrow> if rp_cumulative_filled rep < 0 \<or> agg > ?eff obs
            then (ord, refused Invalid ''cumulative fill is outside the canonical order quantity'')
            else apply_accepted now ord rep ?h agg obs)) = (ord', res)"
      unfolding apply_report_def Let_def de_Morgan_disj by (simp only: if_False split: if_split)
    show thesis
    proof (cases "decimal_add ?off (rp_cumulative_filled rep)")
      case (Inl e)
      with app show thesis by (intro unchanged) auto
    next
      case agg: (Inr agg)
      show thesis
      proof (cases ?obs)
        case (Inl e)
        with app agg show thesis by (intro unchanged) auto
      next
        case obs: (Inr obs)
        show thesis
        proof (cases "rp_cumulative_filled rep < 0 \<or> agg > ?eff obs")
          case True
          with app agg obs show thesis by (intro unchanged) (auto simp: refused_def)
        next
          case ok: False
          have "apply_accepted now ord rep ?h agg obs = (ord', res)"
            using app agg obs ok by simp
          moreover have "agg \<le> (if ?h then quantity ord else case obs of None \<Rightarrow> quantity ord | Some q \<Rightarrow> q)"
            using ok by (auto split: option.splits)
          moreover have "case rp_order_quantity rep of None \<Rightarrow> obs = None
              | Some q \<Rightarrow> \<exists>x. obs = Some x \<and> decimal_add ?off q = Inr x"
            using obs by (auto simp: rbind_eq_Inr_iff split: option.splits)
          ultimately show thesis using agg ok False by (intro accepted) auto
        qed
      qed
    qed
  qed
qed

lemma apply_report_frame:
  assumes "apply_report now ord rep = (ord', res)"
  shows "order_identity ord' = order_identity ord" and "order_ledger ord' = order_ledger ord"
proof -
  have "order_identity ord' = order_identity ord \<and> order_ledger ord' = order_ledger ord"
    using assms
  proof (cases rule: apply_report_cases)
    case (accepted agg obs)
    from accepted(1) show ?thesis
      by (cases rule: apply_accepted_cases) (simp_all add: frame_simps)
  qed simp
  then show "order_identity ord' = order_identity ord" and "order_ledger ord' = order_ledger ord"
    by simp_all
qed

lemma apply_accepted_disposition:
  "apply_accepted now ord rep h agg obs = (ord', Inr r) \<Longrightarrow>
     disposition r = Stale \<and> stale_sequence ord rep \<or> disposition r = Applied \<and> \<not> stale_sequence ord rep"
  by (erule apply_accepted_cases) (auto split: if_splits)

lemma apply_accepted_event_recorded:
  assumes "apply_accepted now ord rep h agg obs = (ord', res)"
  shows "processed_event_ids ord \<subseteq> processed_event_ids ord'"
    and "res = Inr r \<Longrightarrow> rp_event_id rep \<noteq> [] \<Longrightarrow> rp_event_id rep \<in> processed_event_ids ord'"
  using assms by (auto elim!: apply_accepted_cases split: if_splits)

lemma apply_report_events_mono:
  assumes "apply_report now ord rep = (ord', res)"
  shows "processed_event_ids ord \<subseteq> processed_event_ids ord'"
  using assms by (cases rule: apply_report_cases) (auto dest: apply_accepted_event_recorded(1))

lemma apply_report_duplicate:
  "rp_event_id rep \<noteq> [] \<Longrightarrow> rp_event_id rep \<in> processed_event_ids ord \<Longrightarrow>
     apply_report now ord rep = (ord, refused Duplicate ''duplicate event id'')"
  by (simp add: apply_report_def)

lemma derive_status_Filled:
  "status ord = Filled \<Longrightarrow> derive_status ord rep a h st = Filled"
  by (simp add: derive_status_def)

lemma derive_status_terminal:
  "is_terminal (status ord) \<Longrightarrow> derive_status ord rep a h st \<in> {status ord, Filled}"
  by (simp add: derive_status_def)

lemma derive_status_behind:
  "h \<or> st \<Longrightarrow> derive_status ord rep a h st \<in> {status ord, PartiallyFilled, Filled}"
  by (auto simp: derive_status_def)

lemma report_unchanged_Invalid:
  assumes "apply_report now ord rep = (ord', Inr r)" and "disposition r = Invalid"
  shows "ord' = ord"
  using assms(1)
proof (cases rule: apply_report_cases)
  case (accepted agg obs)
  from apply_accepted_disposition [OF accepted(1)] assms(2) show ?thesis by simp
qed

subsection \<open>Streams of reports\<close>

text \<open>A venue's report stream, each report with the clock reading at which it is applied; the
  caller catches exceptions and goes on with the order as it was left.\<close>

fun apply_stream :: "order \<Rightarrow> (int \<times> execution_report) list \<Rightarrow> order" where
  "apply_stream ord [] = ord"
| "apply_stream ord ((now, rep) # xs) = apply_stream (fst (apply_report now ord rep)) xs"

lemma apply_stream_append: "apply_stream ord (xs @ ys) = apply_stream (apply_stream ord xs) ys"
  by (induction ord xs rule: apply_stream.induct) simp_all

lemma apply_stream_events_mono: "processed_event_ids ord \<subseteq> processed_event_ids (apply_stream ord xs)"
proof (induction ord xs rule: apply_stream.induct)
  case (2 ord now rep xs)
  have "processed_event_ids ord \<subseteq> processed_event_ids (fst (apply_report now ord rep))"
    by (rule apply_report_events_mono) (rule surjective_pairing)
  with 2 show ?case by simp
qed simp

subsection \<open>Fills\<close>

definition fills_ok :: "order \<Rightarrow> bool" where
  "fills_ok ord \<longleftrightarrow> 0 \<le> filled_quantity ord \<and> filled_quantity ord \<le> quantity ord"

text \<open>A report that states an order quantity states one that covers the fills already seen.\<close>

definition covers_fills :: "order \<Rightarrow> execution_report \<Rightarrow> bool" where
  "covers_fills ord rep =
     (case rp_order_quantity rep of
        None \<Rightarrow> True
      | Some q \<Rightarrow> is_historical_generation ord rep \<or>
          raw (filled_quantity ord) \<le>
            raw (offset_for (exchange_fill_offsets ord) (rp_exchange_order_id rep)) + raw q)"

lemma accepted_fill_bounds:
  assumes "apply_accepted now ord rep h agg obs = (ord', res)"
    and "agg \<le> q" and "filled_quantity ord \<le> q"
    and q: "q = (if h then quantity ord else case obs of None \<Rightarrow> quantity ord | Some x \<Rightarrow> x)"
  shows "filled_quantity ord \<le> filled_quantity ord'" and "filled_quantity ord' \<le> quantity ord'"
    and "res = Inr r \<Longrightarrow> status ord' = Filled \<Longrightarrow> filled_quantity ord' = quantity ord'"
    and "quantity ord' = q"
  using assms(1)
  by (cases rule: apply_accepted_cases; use assms(2,3) q in \<open>simp split: if_splits\<close>)+

subsection \<open>Reports in any order\<close>

text \<open>Reports on the current venue order that state no quantity, or the quantity the order has (the venue counts
  it from the fills of earlier venue orders on): what each of them contributes to the fill depends on the
  order's quantity and offset only.\<close>

definition report_aggregate :: "order \<Rightarrow> execution_report \<Rightarrow> decimal" where
  "report_aggregate ord rep =
     Decimal (raw (offset_for (exchange_fill_offsets ord) (exchange_order_id ord)) + raw (rp_cumulative_filled rep))"

definition report_counts :: "order \<Rightarrow> execution_report \<Rightarrow> bool" where
  "report_counts ord rep \<longleftrightarrow> 0 \<le> rp_cumulative_filled rep \<and> report_aggregate ord rep \<le> quantity ord"

definition plain_report :: "order \<Rightarrow> execution_report \<Rightarrow> bool" where
  "plain_report ord rep \<longleftrightarrow>
     exchange_order_id ord \<noteq> [] \<and> rp_exchange_order_id rep = exchange_order_id ord \<and>
     rp_client_order_id rep \<in> insert [] (insert (client_order_id ord) (exchange_client_id_aliases ord)) \<and>
     (\<forall>q. rp_order_quantity rep = Some q \<longrightarrow>
        raw (offset_for (exchange_fill_offsets ord) (exchange_order_id ord)) + raw q = raw (quantity ord))"

text \<open>Every report of the stream returns (no arithmetic exception on the way).\<close>

fun stream_returns :: "order \<Rightarrow> (int \<times> execution_report) list \<Rightarrow> bool" where
  "stream_returns ord [] = True"
| "stream_returns ord ((now, rep) # xs) =
     ((case snd (apply_report now ord rep) of Inl _ \<Rightarrow> False | Inr _ \<Rightarrow> True) \<and>
      stream_returns (fst (apply_report now ord rep)) xs)"

definition fresh_events :: "order \<Rightarrow> (int \<times> execution_report) list \<Rightarrow> bool" where
  "fresh_events ord xs \<longleftrightarrow> distinct (map (rp_event_id \<circ> snd) xs) \<and>
     (\<forall>x \<in> set xs. rp_event_id (snd x) \<notin> processed_event_ids ord)"

definition filled_full :: "order \<Rightarrow> bool" where
  "filled_full ord \<longleftrightarrow> fills_ok ord \<and> (status ord = Filled \<longrightarrow> filled_quantity ord = quantity ord)"

lemma plain_report_not_historical: "plain_report ord rep \<Longrightarrow> \<not> is_historical_generation ord rep"
  by (simp add: plain_report_def is_historical_generation_def)

lemma accepted_plain_fill:
  assumes "apply_accepted now ord rep False agg obs = (ord', Inr r)" and "obs \<in> {None, Some (quantity ord)}"
    and "agg \<le> quantity ord" and "filled_full ord"
  shows "filled_quantity ord' = max (filled_quantity ord) agg" and "quantity ord' = quantity ord"
    and "filled_full ord'"
proof -
  have b: "agg \<le> quantity ord" "filled_quantity ord \<le> quantity ord" "0 \<le> filled_quantity ord"
    "status ord = Filled \<longrightarrow> filled_quantity ord = quantity ord"
    using assms by (simp_all add: filled_full_def fills_ok_def)
  have same: "(case obs of None \<Rightarrow> quantity ord | Some q \<Rightarrow> q) = quantity ord" using assms(2) by auto
  from assms(1) show "filled_quantity ord' = max (filled_quantity ord) agg"
  proof (cases rule: apply_accepted_cases)
    case (settled q avg o3 changed)
    have "filled_quantity ord' = filled_quantity o3" using settled(3) by simp
    also have "\<dots> = max (filled_quantity ord) agg"
      unfolding settled(1) using b same by (auto simp: derive_status_def split: if_splits)
    finally show ?thesis .
  qed simp_all
  note bounds = accepted_fill_bounds [OF assms(1), of "quantity ord"]
  show "quantity ord' = quantity ord" using bounds(4) b same by simp
  show "filled_full ord'" using bounds b same by (auto simp: filled_full_def fills_ok_def)
qed

lemma plain_report_step:
  assumes "apply_report now ord rep = (ord', Inr r)" and "plain_report ord rep" and "filled_full ord"
    and "rp_event_id rep \<notin> processed_event_ids ord"
  shows "filled_quantity ord' =
      (if report_counts ord rep then max (filled_quantity ord) (report_aggregate ord rep)
       else filled_quantity ord)"
    and "quantity ord' = quantity ord" and "filled_full ord'"
    and "exchange_order_id ord' = exchange_order_id ord"
proof -
  let ?off = "offset_for (exchange_fill_offsets ord) (exchange_order_id ord)"
  define obs where "obs = map_option (\<lambda>_. quantity ord) (rp_order_quantity rep)"
  have obs: "obs \<in> {None, Some (quantity ord)}" by (auto simp: obs_def)
  have quantities: "(case rp_order_quantity rep of None \<Rightarrow> Inr None
      | Some q \<Rightarrow> rbind (decimal_add ?off q) (\<lambda>x. Inr (Some x))) \<in> {Inr obs} \<union> range Inl"
    using assms(2) by (auto simp: plain_report_def obs_def decimal_add_def checked_from_wide_eq from_raw_def decimal_eq_iff split: option.split)
  have r: "apply_report now ord rep =
      (case decimal_add ?off (rp_cumulative_filled rep) of
         Inl e \<Rightarrow> (ord, Inl e)
       | Inr agg \<Rightarrow>
           if rp_cumulative_filled rep < 0 \<or> agg > quantity ord
           then (ord, refused Invalid ''cumulative fill is outside the canonical order quantity'')
           else apply_accepted now ord rep False agg obs)"
    using assms(1,2,4) plain_report_not_historical [OF assms(2)] quantities obs
    by (cases "rp_client_order_id rep = []"; cases "decimal_add ?off (rp_cumulative_filled rep)")
      (auto simp: apply_report_def Let_def plain_report_def split: if_splits)
  then obtain agg where add: "decimal_add (offset_for (exchange_fill_offsets ord) (exchange_order_id ord))
      (rp_cumulative_filled rep) = Inr agg"
    using assms(1) by (auto split: sum.splits)
  then have agg: "agg = report_aggregate ord rep"
    by (simp add: report_aggregate_def decimal_Inr_iffs decimal_eq_iff)
  have "filled_quantity ord' =
      (if report_counts ord rep then max (filled_quantity ord) agg else filled_quantity ord) \<and>
    quantity ord' = quantity ord \<and> filled_full ord' \<and> exchange_order_id ord' = exchange_order_id ord"
  proof (cases "report_counts ord rep")
    case True
    then have app: "apply_accepted now ord rep False agg obs = (ord', Inr r)" and "agg \<le> quantity ord"
      using assms(1) r add agg by (auto simp: report_counts_def split: if_splits)
    moreover have "exchange_order_id ord' = exchange_order_id ord"
      using app by (cases rule: apply_accepted_cases) (use assms(2) in \<open>simp_all add: plain_report_def\<close>)
    ultimately show ?thesis using True accepted_plain_fill [OF app obs] assms(3) by simp
  next
    case False
    then have "ord' = ord" using assms(1) r add agg by (auto simp: report_counts_def split: if_splits)
    with False assms(3) show ?thesis by simp
  qed
  then show "filled_quantity ord' =
      (if report_counts ord rep then max (filled_quantity ord) (report_aggregate ord rep)
       else filled_quantity ord)"
    and "quantity ord' = quantity ord" and "filled_full ord'"
    and "exchange_order_id ord' = exchange_order_id ord"
    using agg by simp_all
qed

lemma apply_report_event_ids:
  assumes "apply_report now ord rep = (ord', res)"
  shows "processed_event_ids ord' \<subseteq> insert (rp_event_id rep) (processed_event_ids ord)"
  using assms
proof (cases rule: apply_report_cases)
  case (accepted agg obs)
  from accepted(1) show ?thesis by (cases rule: apply_accepted_cases) (auto split: if_splits)
qed auto

lemma stream_fill:
  assumes "stream_returns ord xs" and "\<forall>x \<in> set xs. plain_report ord (snd x)"
    and "fresh_events ord xs" and "filled_full ord"
  shows "filled_quantity (apply_stream ord xs) =
    Max (insert (filled_quantity ord) (report_aggregate ord ` {rep \<in> snd ` set xs. report_counts ord rep}))"
  using assms
proof (induction xs arbitrary: ord)
  case (Cons x xs)
  obtain now rep where x: "x = (now, rep)" by fastforce
  obtain ord' r where app: "apply_report now ord rep = (ord', Inr r)" and ret: "stream_returns ord' xs"
    using Cons.prems(1) x by (cases "apply_report now ord rep") (auto split: sum.splits)
  have plain: "plain_report ord rep" and fresh: "rp_event_id rep \<notin> processed_event_ids ord"
    using Cons.prems(2,3) x by (simp_all add: fresh_events_def)
  note step = plain_report_step [OF app plain Cons.prems(4) fresh]
  have "client_order_id ord' = client_order_id ord" "exchange_fill_offsets ord' = exchange_fill_offsets ord"
      "exchange_client_id_aliases ord' = exchange_client_id_aliases ord"
    using apply_report_frame [OF app] by (simp_all add: order_identity_def order_ledger_def)
  with step have same: "plain_report ord' = plain_report ord" "report_aggregate ord' = report_aggregate ord"
      "report_counts ord' = report_counts ord"
    by (auto simp: plain_report_def report_aggregate_def report_counts_def intro!: ext)
  have "fresh_events ord' xs"
    using Cons.prems(3) x apply_report_event_ids [OF app]
    by (fastforce simp: fresh_events_def image_iff)
  with Cons.IH [OF ret] Cons.prems(2) same step(3)
  have "filled_quantity (apply_stream ord' xs) =
      Max (insert (filled_quantity ord') (report_aggregate ord ` {rep \<in> snd ` set xs. report_counts ord rep}))"
    by simp
  moreover have "{p \<in> snd ` set (x # xs). report_counts ord p} =
      (if report_counts ord rep then insert rep {p \<in> snd ` set xs. report_counts ord p}
       else {p \<in> snd ` set xs. report_counts ord p})"
    using x by auto
  moreover have "finite {p \<in> snd ` set xs. report_counts ord p}" by simp
  ultimately show ?case
    using app x step(1) by (simp add: Max_insert_max insert_commute split: if_splits)
qed simp

section \<open>Sample values\<close>

text \<open>A live order of ten units with two filled, and reports on it, for the concrete instances.\<close>

definition sample_request :: order_request where
  "sample_request = \<lparr>rq_client_order_id = ''c1'', rq_venue = Okx, rq_symbol = ''BTC-USDT'', rq_side = Buy,
     rq_type = Limit, rq_price = Some (Decimal 100000000), rq_quantity = Decimal 1000000000,
     rq_time_in_force = Gtc\<rparr>"

definition sample_order :: order where
  "sample_order = (make_order 5 sample_request [] 0)\<lparr>status := PartiallyFilled, pending_action := NoAction,
     exchange_order_id := ''e1'', filled_quantity := Decimal 200000000, last_sequence := Some 4\<rparr>"

definition sample_report :: execution_report where
  "sample_report = \<lparr>rp_event_id = ''ev1'', rp_client_order_id = ''c1'', rp_exchange_order_id = ''e1'',
     rp_status = PartiallyFilled, rp_cumulative_filled = Decimal 500000000, rp_cumulative_quote = None,
     rp_last_fill_price = None, rp_order_price = None, rp_order_quantity = None,
     rp_sequence = Some 5, rp_event_time_ms = 7, rp_reason = []\<rparr>"

lemmas sample_defs = sample_request_def sample_order_def sample_report_def
lemmas apply_eval = apply_report_def apply_accepted_def Let_def is_historical_generation_def
  offset_for_def stale_sequence_def merge_terms_def merge_quote_def merge_average_def settle_def
  derive_status_def clear_pending_def observably_changed_def refused_def make_order_def
  decimal_add_def decimal_sub_def decimal_mult_def decimal_div_def checked_from_wide_def
  from_raw_def in_int64_iff int64_bounds less_decimal_iff le_decimal_iff zero_decimal_def max_def

section \<open>Properties\<close>

text \<open>C7. Terminal states are absorbing. Whatever report arrives, however it is refused, merged or
  aborted by an arithmetic exception, a filled order stays filled, and an order that is canceled or
  rejected stays as it is or becomes filled.\<close>

theorem terminal_absorbing:
  assumes "apply_report now ord rep = (ord', res)" and "is_terminal (status ord)"
  shows "status ord' \<in> {status ord, Filled} \<and> is_terminal (status ord')"
  using assms(1)
proof (cases rule: apply_report_cases)
  case (accepted agg obs)
  note step = derive_status_terminal
  from accepted(1) have "status ord' \<in> {status ord, Filled}"
  proof (cases rule: apply_accepted_cases)
    case (settled q avg o3 changed)
    then have "status ord' = status o3" by simp
    with settled(1) show ?thesis
      using assms(2) by (simp add: derive_status_def)
  qed simp_all
  with assms(2) show ?thesis by auto
qed (use assms(2) in auto)

theorem terminal_absorbing_witness:
  "is_terminal (status (fst (apply_report 9 (sample_order\<lparr>status := Canceled\<rparr>) sample_report)))"
  using terminal_absorbing [of 9 "sample_order\<lparr>status := Canceled\<rparr>" sample_report, OF surjective_pairing]
  by simp

text \<open>C6. Fills are monotone and bounded. An order whose fill lies between zero and its quantity
  keeps that property, its fill never decreases, and when the report is accepted and leaves the
  order filled then all of its quantity is filled; the venue may restate the order quantity as long
  as it covers the fills already seen.\<close>

theorem fills_monotone:
  assumes "apply_report now ord rep = (ord', res)" and "fills_ok ord" and "covers_fills ord rep"
  shows "filled_quantity ord \<le> filled_quantity ord' \<and> fills_ok ord' \<and>
    (\<forall>r. res = Inr r \<and> disposition r \<in> {Applied, Stale} \<and> status ord' = Filled \<longrightarrow>
       filled_quantity ord' = quantity ord')"
  using assms(1)
proof (cases rule: apply_report_cases)
  case unchanged
  with assms(2) show ?thesis by (auto simp: refused_def)
next
  case (accepted agg obs)
  let ?q = "if is_historical_generation ord rep then quantity ord
            else case obs of None \<Rightarrow> quantity ord | Some x \<Rightarrow> x"
  have "filled_quantity ord \<le> ?q"
    using assms(2,3) accepted(6)
    by (auto simp: fills_ok_def covers_fills_def le_decimal_iff decimal_Inr_iffs split: option.splits)
  note bounds = accepted_fill_bounds [OF accepted(1,4) this refl]
  show ?thesis using assms(2) bounds by (auto simp: fills_ok_def)
qed

theorem fills_monotone_witness:
  "filled_quantity sample_order \<le> filled_quantity (fst (apply_report 9 sample_order sample_report)) \<and>
   fills_ok (fst (apply_report 9 sample_order sample_report))"
proof -
  have "fills_ok sample_order" and "covers_fills sample_order sample_report"
    by (simp_all add: fills_ok_def covers_fills_def sample_defs le_decimal_iff zero_decimal_def)
  then show ?thesis
    using fills_monotone [of 9 sample_order sample_report, OF surjective_pairing] by simp
qed

text \<open>C8. Redelivery is harmless. Once a report carrying an event id has been applied (or merged as
  stale), delivering it again at any later point of the stream changes nothing: the order after
  the stream with the redelivery is the order after the stream without it, and the redelivery
  itself is answered as a duplicate.\<close>

theorem redelivery_ignored:
  assumes "rp_event_id rep \<noteq> []"
    and "apply_report now (apply_stream ord xs) rep = (ord', Inr r)"
    and "disposition r \<in> {Applied, Stale}"
  shows "apply_stream ord (xs @ (now, rep) # ys @ (later, rep) # zs) =
           apply_stream ord (xs @ (now, rep) # ys @ zs) \<and>
         apply_report later (apply_stream ord (xs @ (now, rep) # ys)) rep =
           (apply_stream ord (xs @ (now, rep) # ys), refused Duplicate ''duplicate event id'')"
proof -
  have "rp_event_id rep \<in> processed_event_ids ord'"
    using assms(2)
  proof (cases rule: apply_report_cases)
    case unchanged
    with assms(3) show ?thesis by (auto simp: refused_def)
  next
    case (accepted agg obs)
    with assms(1) show ?thesis by (auto dest: apply_accepted_event_recorded(2))
  qed
  then have "rp_event_id rep \<in> processed_event_ids (apply_stream ord' ys)"
    using apply_stream_events_mono by blast
  with assms(1) have "apply_report later (apply_stream ord' ys) rep =
      (apply_stream ord' ys, refused Duplicate ''duplicate event id'')"
    by (rule apply_report_duplicate)
  with assms(2) show ?thesis by (simp add: apply_stream_append)
qed

theorem redelivery_ignored_witness:
  "apply_stream sample_order [(9, sample_report), (10, sample_report)] =
     apply_stream sample_order [(9, sample_report)]"
proof -
  obtain ord' r where "apply_report 9 (apply_stream sample_order []) sample_report = (ord', Inr r)"
    and "disposition r = Applied"
    by (simp add: sample_defs apply_eval)
  then show ?thesis
    using redelivery_ignored [of sample_report 9 sample_order "[]" ord' r "[]" 10 "[]"]
    by (simp add: sample_defs)
qed

text \<open>C12. A report that is behind the order cannot push it forward in anything but its fills. A
  report of a superseded venue order id leaves price, quantity, venue order id and the pending
  command alone; that report and one with an old sequence number leave the status or move it to
  partially filled or filled, so they never cancel or reject, and a terminal order keeps its status or becomes filled, so
  they never reopen; an old sequence number leaves the last sequence where it was.\<close>

theorem behind_reports_only_fill:
  assumes "apply_report now ord rep = (ord', res)"
  shows "(is_historical_generation ord rep \<longrightarrow>
            price ord' = price ord \<and> quantity ord' = quantity ord \<and>
            exchange_order_id ord' = exchange_order_id ord \<and>
            pending_action ord' = pending_action ord) \<and>
         (is_historical_generation ord rep \<or> stale_sequence ord rep \<longrightarrow>
            status ord' \<in> {status ord, PartiallyFilled, Filled} \<and>
            (is_terminal (status ord) \<longrightarrow> status ord' \<in> {status ord, Filled})) \<and>
         (stale_sequence ord rep \<longrightarrow> last_sequence ord' = last_sequence ord)"
  using assms
proof (cases rule: apply_report_cases)
  case (accepted agg obs)
  from accepted(1) show ?thesis
  proof (cases rule: apply_accepted_cases)
    case (settled q avg o3 changed)
    have "stale_sequence ord rep \<Longrightarrow> last_sequence o3 = last_sequence ord"
      unfolding settled(1)
      by (auto simp: settle_def Let_def stale_sequence_def split: option.splits)
    moreover have "is_historical_generation ord rep \<Longrightarrow> pending_action o3 = pending_action ord"
      unfolding settled(1)
      by (auto simp: settle_def Let_def clear_pending_def split: pending_action.splits)
    moreover have "is_historical_generation ord rep \<or> stale_sequence ord rep \<Longrightarrow>
        status o3 \<in> {status ord, PartiallyFilled, Filled} \<and> (is_terminal (status ord) \<longrightarrow> status o3 \<in> {status ord, Filled})"
      unfolding settled(1) by (auto simp: derive_status_def)
    ultimately show ?thesis using settled(3) by (auto simp: settled(1))
  qed simp_all
qed simp

theorem behind_reports_only_fill_witness:
  "status (fst (apply_report 9 sample_order (sample_report\<lparr>rp_sequence := Some 3, rp_status := Canceled\<rparr>)))
     \<in> {PartiallyFilled, Filled} \<and>
   status (fst (apply_report 9 (sample_order\<lparr>status := Canceled\<rparr>) (sample_report\<lparr>rp_sequence := Some 3\<rparr>))) \<in> {Canceled, Filled}"
proof (rule conjI)
  have "stale_sequence (sample_order\<lparr>status := Canceled\<rparr>) (sample_report\<lparr>rp_sequence := Some 3\<rparr>)"
    by (simp add: stale_sequence_def sample_defs)
  then show "status (fst (apply_report 9 (sample_order\<lparr>status := Canceled\<rparr>) (sample_report\<lparr>rp_sequence := Some 3\<rparr>))) \<in> {Canceled, Filled}"
    using behind_reports_only_fill [of 9 "sample_order\<lparr>status := Canceled\<rparr>" "sample_report\<lparr>rp_sequence := Some 3\<rparr>", OF surjective_pairing]
    by (simp add: is_terminal_def)
  have "stale_sequence sample_order (sample_report\<lparr>rp_sequence := Some 3, rp_status := Canceled\<rparr>)"
    by (simp add: stale_sequence_def sample_defs)
  moreover have "status sample_order = PartiallyFilled" by (simp add: sample_defs)
  ultimately show "status (fst (apply_report 9 sample_order (sample_report\<lparr>rp_sequence := Some 3, rp_status := Canceled\<rparr>)))
     \<in> {PartiallyFilled, Filled}"
    using behind_reports_only_fill [of 9 sample_order
        "sample_report\<lparr>rp_sequence := Some 3, rp_status := Canceled\<rparr>", OF surjective_pairing]
    by simp
qed

text \<open>Reports are accounted for. An accepted report never moves the last sequence backwards,
  leaves identity and request ledger untouched, and advances the 64-bit version by one (modulo wrap)
  exactly when status, fill, quote, venue order id, terms or pending command changed; a refused
  report leaves the whole order untouched.\<close>

theorem report_accounting:
  assumes "apply_report now ord rep = (ord', Inr r)"
  shows "(disposition r \<in> {Duplicate, Invalid} \<longrightarrow> ord' = ord \<and> \<not> state_changed r) \<and>
    (disposition r \<in> {Applied, Stale} \<longrightarrow>
       (case last_sequence ord of None \<Rightarrow> True
        | Some l \<Rightarrow> \<exists>l'. last_sequence ord' = Some l' \<and> l \<le> l') \<and>
       order_identity ord' = order_identity ord \<and> order_ledger ord' = order_ledger ord \<and>
       version ord' = (if state_changed r then version ord + 1 else version ord) \<and>
       (state_changed r \<longleftrightarrow>
          status ord' \<noteq> status ord \<or> filled_quantity ord' \<noteq> filled_quantity ord \<or>
          cumulative_quote ord' \<noteq> cumulative_quote ord \<or>
          exchange_order_id ord' \<noteq> exchange_order_id ord \<or> price ord' \<noteq> price ord \<or>
          quantity ord' \<noteq> quantity ord \<or> pending_action ord' \<noteq> pending_action ord))"
  using assms
proof (cases rule: apply_report_cases)
  case unchanged
  then show ?thesis by (auto simp: refused_def)
next
  case (accepted agg obs)
  note frame = apply_report_frame [OF assms]
  from accepted(1) show ?thesis
  proof (cases rule: apply_accepted_cases)
    case (settled q avg o3 changed)
    let ?e = "\<not> is_historical_generation ord rep \<and> rp_exchange_order_id rep \<noteq> [] \<and>
        rp_exchange_order_id rep \<noteq> exchange_order_id ord"
    have "case last_sequence ord of None \<Rightarrow> True | Some l \<Rightarrow> \<exists>l'. last_sequence o3 = Some l' \<and> l \<le> l'"
      unfolding settled(1) by (auto simp: settle_def Let_def split: option.splits)
    then have seq: "case last_sequence ord of None \<Rightarrow> True | Some l \<Rightarrow> \<exists>l'. last_sequence ord' = Some l' \<and> l \<le> l'"
      using settled(3) by (simp split: option.splits)
    have ver: "version o3 = version ord" and eid: "exchange_order_id o3 \<noteq> exchange_order_id ord \<longleftrightarrow> ?e"
      unfolding settled(1) by auto
    have "changed \<longleftrightarrow> observably_changed ord o3 (exchange_order_id o3 \<noteq> exchange_order_id ord)"
      using settled(2) eid by simp
    then have obs: "changed \<longleftrightarrow> observably_changed ord ord' (exchange_order_id ord' \<noteq> exchange_order_id ord)"
      using settled(3) by (simp add: observably_changed_def)
    have "state_changed r = changed" and "disposition r \<notin> {Duplicate, Invalid}"
      using settled(4) by auto
    moreover have "version ord' = (if changed then version ord + 1 else version ord)"
      using settled(3) ver by simp
    ultimately show ?thesis
      using seq frame obs unfolding observably_changed_def by (simp add: eq_commute [of "_ ord" "_ ord'"])
  qed simp_all
qed

theorem report_accounting_witness:
  "version (fst (apply_report 9 sample_order sample_report)) = 2"
proof -
  obtain ord' r where *: "apply_report 9 sample_order sample_report = (ord', Inr r)"
    and "disposition r = Applied" and "state_changed r"
    by (simp add: sample_defs apply_eval)
  with report_accounting [OF *] have "version ord' = version sample_order + 1" by simp
  with * show ?thesis by (simp add: sample_defs make_order_def Let_def)
qed

text \<open>C9. Delivery order does not matter to the fill while the quantity stands. Reports that name the
  current venue order, state no quantity or the quantity the order has, and carry distinct new event ids, delivered in
  any order in which none of them throws, leave an order whose fill is within its quantity (and is all of it when
  the order is filled) with the same filled quantity: the largest cumulative
  fill among the admissible reports and what was known before.\<close>

theorem fill_order_independent:
  assumes "mset xs = mset ys"
    and "stream_returns ord xs" and "stream_returns ord ys"
    and "\<forall>x \<in> set xs. plain_report ord (snd x)" and "fresh_events ord xs" and "filled_full ord"
  shows "filled_quantity (apply_stream ord xs) = filled_quantity (apply_stream ord ys) \<and>
    filled_quantity (apply_stream ord xs) =
      Max (insert (filled_quantity ord)
        (report_aggregate ord ` {rep \<in> snd ` set xs. report_counts ord rep}))"
proof -
  have "set xs = set ys" and "mset (map (rp_event_id \<circ> snd) xs) = mset (map (rp_event_id \<circ> snd) ys)"
    using mset_eq_setD [OF assms(1)] assms(1) by simp_all
  then have "fresh_events ord ys"
    using assms(5) mset_eq_imp_distinct_iff unfolding fresh_events_def by metis
  with assms \<open>set xs = set ys\<close> show ?thesis by (simp add: stream_fill)
qed

theorem fill_order_independent_witness:
  "filled_quantity (apply_stream sample_order [(9, sample_report), (9, sample_report\<lparr>rp_event_id := ''ev0'',
     rp_cumulative_filled := Decimal 300000000, rp_order_quantity := Some (Decimal 1000000000), rp_sequence := None\<rparr>)]) = Decimal 500000000"
proof -
  let ?a = "(9 :: int, sample_report)"
  let ?b = "(9 :: int, sample_report\<lparr>rp_event_id := ''ev0'', rp_cumulative_filled := Decimal 300000000,
     rp_order_quantity := Some (Decimal 1000000000), rp_sequence := None\<rparr>)"
  have "stream_returns sample_order [?a, ?b]" and "stream_returns sample_order [?b, ?a]"
    by (simp_all add: sample_defs apply_eval)
  moreover have "\<forall>x \<in> set [?a, ?b]. plain_report sample_order (snd x)"
    and "fresh_events sample_order [?a, ?b]" and "filled_full sample_order"
    by (simp_all add: sample_defs plain_report_def fresh_events_def filled_full_def fills_ok_def
        make_order_def Let_def le_decimal_iff offset_for_def)
  ultimately have "filled_quantity (apply_stream sample_order [?a, ?b]) =
      filled_quantity (apply_stream sample_order [?b, ?a])"
    using fill_order_independent [of "[?a, ?b]" "[?b, ?a]" sample_order] by (simp add: add_mset_commute)
  also have "\<dots> = Decimal 500000000"
    by (simp add: sample_defs apply_eval)
  finally show ?thesis .
qed

text \<open>A report whose stated order quantity does not cover the fills breaks the bound: the fill of
  a filled order is cut to the smaller quantity, and an open order ends up filled beyond its quantity
  until it is marked filled. Even a stale report does so, since terms are merged before staleness is
  considered.\<close>

theorem restated_quantity_cuts_fill:
  "\<exists>now ord rep ord' r. apply_report now ord rep = (ord', Inr r) \<and> disposition r = Stale \<and>
     fills_ok ord \<and> status ord = Filled \<and> status ord' = Filled \<and>
     filled_quantity ord' < filled_quantity ord"
proof -
  let ?ord = "sample_order\<lparr>status := Filled, filled_quantity := Decimal 1000000000\<rparr>"
  let ?rep = "sample_report\<lparr>rp_sequence := Some 1, rp_order_quantity := Some (Decimal 600000000)\<rparr>"
  obtain ord' r where "apply_report 9 ?ord ?rep = (ord', Inr r)" and "disposition r = Stale"
    and "status ord' = Filled" and "filled_quantity ord' = Decimal 600000000"
    by (simp add: sample_defs apply_eval)
  moreover have "fills_ok ?ord" and "status ?ord = Filled" and "filled_quantity ?ord = Decimal 1000000000"
    by (simp_all add: sample_defs fills_ok_def make_order_def Let_def le_decimal_iff)
  ultimately show ?thesis
    by (intro exI [of _ 9] exI [of _ ?ord] exI [of _ ?rep] exI [of _ ord'] exI [of _ r]) (simp add: less_decimal_iff)
qed

end
