(* ===== verification/Abex_Risk.thy ===== *)
theory Abex_Risk
  imports Abex_State_Machine
begin

text \<open>
  Pre-trade risk (\<open>include/abex/application/risk_manager.hpp\<close>,
  \<open>src/application/risk_manager.cpp\<close>): order size, notional and net position limits per symbol.

  The member \<open>limits_\<close> is an argument of every operation. A decision is a value; what throws is
  the decimal arithmetic, so every check returns a result. The parser of the limits file
  (\<open>from_json\<close>) is left out: it only walks a JSON object of the JSON library.
\<close>

record instrument_risk_limits =
  max_order_size :: decimal
  max_notional :: decimal
  position_limit :: decimal
  market_reference_price :: "decimal option"

record risk_decision =
  rd_accepted :: bool
  rd_code :: string
  rd_reason :: string

type_synonym risk_limits = "string \<rightharpoonup> instrument_risk_limits"

definition risk_accept :: risk_decision where
  "risk_accept = \<lparr>rd_accepted = True, rd_code = [], rd_reason = []\<rparr>"

definition risk_reject :: "string \<Rightarrow> string \<Rightarrow> risk_decision" where
  "risk_reject code why = \<lparr>rd_accepted = False, rd_code = code, rd_reason = why\<rparr>"

definition signed_quantity :: "side \<Rightarrow> decimal \<Rightarrow> decimal result" where
  "signed_quantity sd q = (if sd = Buy then Inr q else decimal_neg q)"

definition conservative_exposure :: "order \<Rightarrow> decimal" where
  "conservative_exposure ord = (if is_terminal (status ord) then filled_quantity ord else quantity ord)"

definition validate ::
    "risk_limits \<Rightarrow> string \<Rightarrow> side \<Rightarrow> order_type \<Rightarrow> decimal option \<Rightarrow> decimal \<Rightarrow> decimal \<Rightarrow>
     decimal option \<Rightarrow> risk_decision result" where
  "validate lims smb sd ty prc qty conservative_position market_price =
     (case lims smb of
        None \<Rightarrow> Inr (risk_reject ''RISK_CONFIG_MISSING'' (''no risk limits configured for '' @ smb))
      | Some limits \<Rightarrow>
          if \<not> is_positive qty then Inr (risk_reject ''INVALID_ORDER'' ''quantity must be positive'')
          else if qty > max_order_size limits then
            Inr (risk_reject ''MAX_ORDER_SIZE''
                   (''quantity '' @ to_string qty @ '' exceeds max order size '' @
                    to_string (max_order_size limits)))
          else
            (case (if ty = Market
                   then (case market_price of Some p \<Rightarrow> Some p | None \<Rightarrow> market_reference_price limits)
                   else prc) of
               None \<Rightarrow> Inr (risk_reject ''REFERENCE_PRICE_MISSING''
                              ''MARKET order requires a configured reference price for notional risk'')
             | Some notional_price \<Rightarrow>
                 rbind (decimal_mult qty notional_price) (\<lambda>notional.
                   if notional > max_notional limits then
                     Inr (risk_reject ''MAX_NOTIONAL''
                            (''notional '' @ to_string notional @ '' exceeds max notional '' @
                             to_string (max_notional limits)))
                   else
                     rbind (signed_quantity sd qty) (\<lambda>signed.
                     rbind (decimal_add conservative_position signed) (\<lambda>projected.
                     rbind (decimal_abs projected) (\<lambda>magnitude.
                       if magnitude > position_limit limits then
                         Inr (risk_reject ''POSITION_LIMIT''
                                (''worst-case position '' @ to_string projected @
                                 '' exceeds absolute limit '' @ to_string (position_limit limits)))
                       else Inr risk_accept))))))"

definition check_new_with_position ::
    "risk_limits \<Rightarrow> order_request \<Rightarrow> decimal \<Rightarrow> decimal option \<Rightarrow> risk_decision result" where
  "check_new_with_position lims request conservative_position market_price =
     (if rq_client_order_id request = [] then Inr (risk_reject ''INVALID_ORDER'' ''clientOrderId is required'')
      else if rq_symbol request = [] then Inr (risk_reject ''INVALID_ORDER'' ''symbol is required'')
      else if rq_type request = Limit \<and> rq_price request = None
        then Inr (risk_reject ''INVALID_ORDER'' ''LIMIT orders require price'')
      else if rq_type request = Market \<and> rq_price request \<noteq> None
        then Inr (risk_reject ''INVALID_ORDER'' ''MARKET orders must not specify price'')
      else if (case rq_price request of None \<Rightarrow> False | Some p \<Rightarrow> \<not> is_positive p)
        then Inr (risk_reject ''INVALID_ORDER'' ''price must be positive'')
      else validate lims (rq_symbol request) (rq_side request) (rq_type request) (rq_price request)
             (rq_quantity request) conservative_position market_price)"

definition check_amend_with_position ::
    "risk_limits \<Rightarrow> order \<Rightarrow> decimal option \<Rightarrow> decimal option \<Rightarrow> decimal \<Rightarrow> risk_decision result" where
  "check_amend_with_position lims ord new_price new_quantity position_excluding_order =
     (if new_price = None \<and> new_quantity = None
        then Inr (risk_reject ''INVALID_AMEND'' ''newPrice or newQuantity is required'')
      else if is_terminal (status ord)
        then Inr (risk_reject ''ORDER_TERMINAL'' ''terminal orders cannot be amended'')
      else if status ord = Unknown
        then Inr (risk_reject ''ORDER_STATE_UNKNOWN'' ''reconcile an UNKNOWN order before amending it'')
      else if type ord = Market
        then Inr (risk_reject ''INVALID_AMEND'' ''MARKET orders cannot be amended'')
      else
        let prc = (case new_price of Some p \<Rightarrow> Some p | None \<Rightarrow> price ord);
            qty = (case new_quantity of Some q \<Rightarrow> q | None \<Rightarrow> quantity ord)
        in if qty < filled_quantity ord
             then Inr (risk_reject ''INVALID_AMEND'' ''new quantity cannot be below already filled quantity'')
           else if (case new_price of None \<Rightarrow> False | Some p \<Rightarrow> \<not> is_positive p)
             then Inr (risk_reject ''INVALID_AMEND'' ''new price must be positive'')
           else if pending_action ord \<noteq> NoAction
             then Inr (risk_reject ''OPERATION_PENDING'' ''another order operation is still pending'')
           else validate lims (symbol ord) (side ord) (type ord) prc qty position_excluding_order None)"

text \<open>The loops that add up exposures: \<open>position += signed_quantity(...)\<close> over a vector.\<close>

fun add_exposures :: "(order \<Rightarrow> bool) \<Rightarrow> decimal \<Rightarrow> order list \<Rightarrow> decimal result" where
  "add_exposures keep position [] = Inr position"
| "add_exposures keep position (ord # orders) =
     (if keep ord
      then rbind (signed_quantity (side ord) (conservative_exposure ord)) (\<lambda>signed.
           rbind (decimal_add position signed) (\<lambda>position. add_exposures keep position orders))
      else add_exposures keep position orders)"

definition check_new ::
    "risk_limits \<Rightarrow> order_request \<Rightarrow> order list \<Rightarrow> decimal option \<Rightarrow> risk_decision result" where
  "check_new lims request current_orders market_price =
     rbind (add_exposures (\<lambda>ord. symbol ord = rq_symbol request) 0 current_orders) (\<lambda>position.
       check_new_with_position lims request position market_price)"

definition check_amend ::
    "risk_limits \<Rightarrow> order \<Rightarrow> decimal option \<Rightarrow> decimal option \<Rightarrow> order list \<Rightarrow> risk_decision result" where
  "check_amend lims ord new_price new_quantity current_orders =
     rbind (add_exposures (\<lambda>current. symbol current = symbol ord \<and>
                client_order_id current \<noteq> client_order_id ord) 0 current_orders) (\<lambda>position.
       check_amend_with_position lims ord new_price new_quantity position)"

text \<open>\<open>positions[symbol]\<close> of a missing symbol creates it with the value zero.\<close>

fun conservative_positions_from :: "(string \<rightharpoonup> decimal) \<Rightarrow> order list \<Rightarrow> (string \<rightharpoonup> decimal) result" where
  "conservative_positions_from positions [] = Inr positions"
| "conservative_positions_from positions (ord # orders) =
     rbind (signed_quantity (side ord) (conservative_exposure ord)) (\<lambda>signed.
     rbind (decimal_add (case positions (symbol ord) of None \<Rightarrow> 0 | Some p \<Rightarrow> p) signed) (\<lambda>p.
       conservative_positions_from (positions(symbol ord \<mapsto> p)) orders))"

definition conservative_positions :: "order list \<Rightarrow> (string \<rightharpoonup> decimal) result" where
  "conservative_positions orders = conservative_positions_from Map.empty orders"

section \<open>Lemmas\<close>

text \<open>The exposure of an order as a mathematical integer, in raw units.\<close>

definition signed_raw :: "side \<Rightarrow> decimal \<Rightarrow> int" where
  "signed_raw sd q = (if sd = Buy then raw q else - raw q)"

definition exposure :: "order \<Rightarrow> int" where
  "exposure ord = signed_raw (side ord) (conservative_exposure ord)"

lemma signed_quantity_eq_Inr_iff:
  "signed_quantity sd q = Inr d \<longleftrightarrow> raw d = signed_raw sd q \<and> (sd = Buy \<or> raw q \<noteq> int64_min)"
  by (auto simp: signed_quantity_def signed_raw_def decimal_Inr_iffs decimal_eq_iff)

lemma risk_accept_simps [simp]:
  "rd_accepted risk_accept" "\<not> rd_accepted (risk_reject c w)" "rd_code (risk_reject c w) = c"
  "risk_reject c w \<noteq> risk_accept" "risk_accept \<noteq> risk_reject c w"
  by (simp_all add: risk_accept_def risk_reject_def)

lemma position_check_iff:
  "rbind (signed_quantity sd qty) (\<lambda>signed. rbind (decimal_add pos signed) (\<lambda>projected.
     rbind (decimal_abs projected) (\<lambda>magnitude.
       if magnitude > lim then Inr (risk_reject c (w projected)) else Inr risk_accept))) = Inr risk_accept \<longleftrightarrow>
   (sd = Buy \<or> raw qty \<noteq> int64_min) \<and> in_int64 (raw pos + signed_raw sd qty) \<and>
   raw pos + signed_raw sd qty \<noteq> int64_min \<and> \<bar>raw pos + signed_raw sd qty\<bar> \<le> raw lim"
  (is "?lhs = Inr risk_accept \<longleftrightarrow> ?rhs")
proof
  assume "?lhs = Inr risk_accept"
  then obtain signed projected magnitude where "signed_quantity sd qty = Inr signed"
    and "decimal_add pos signed = Inr projected" and "decimal_abs projected = Inr magnitude"
    and "\<not> magnitude > lim"
    by (fastforce simp: rbind_eq_Inr_iff split: if_splits)
  then show ?rhs
    by (auto simp: signed_quantity_eq_Inr_iff decimal_Inr_iffs less_decimal_iff)
next
  assume rhs: ?rhs
  let ?r = "raw pos + signed_raw sd qty"
  have "signed_quantity sd qty = Inr (Decimal (signed_raw sd qty))"
    using rhs by (simp add: signed_quantity_eq_Inr_iff)
  moreover have "decimal_add pos (Decimal (signed_raw sd qty)) = Inr (Decimal ?r)"
    and "decimal_abs (Decimal ?r) = Inr (Decimal \<bar>?r\<bar>)"
    using rhs by (simp_all add: decimal_Inr_iffs)
  ultimately show "?lhs = Inr risk_accept" using rhs by (simp add: less_decimal_iff)
qed

definition notional_price_of ::
    "order_type \<Rightarrow> decimal option \<Rightarrow> decimal option \<Rightarrow> instrument_risk_limits \<Rightarrow> decimal option" where
  "notional_price_of ty prc market_price limits =
     (if ty = Market then (case market_price of Some p \<Rightarrow> Some p | None \<Rightarrow> market_reference_price limits)
      else prc)"

text \<open>What it takes to pass: the abstract admission rule.\<close>

definition admissible ::
    "risk_limits \<Rightarrow> string \<Rightarrow> side \<Rightarrow> order_type \<Rightarrow> decimal option \<Rightarrow> decimal \<Rightarrow> int \<Rightarrow> decimal option \<Rightarrow> bool" where
  "admissible lims smb sd ty prc qty pos market_price \<longleftrightarrow>
     (\<exists>limits p notional. lims smb = Some limits \<and> 0 < raw qty \<and> qty \<le> max_order_size limits \<and>
        notional_price_of ty prc market_price limits = Some p \<and>
        decimal_mult qty p = Inr notional \<and> notional \<le> max_notional limits \<and>
        in_int64 (pos + signed_raw sd qty) \<and> pos + signed_raw sd qty \<noteq> int64_min \<and>
        \<bar>pos + signed_raw sd qty\<bar> \<le> raw (position_limit limits))"

lemma validate_accept_iff:
  "validate lims smb sd ty prc qty pos mp = Inr risk_accept \<longleftrightarrow>
     admissible lims smb sd ty prc qty (raw pos) mp"
proof (cases "lims smb")
  case None
  then show ?thesis by (simp add: validate_def admissible_def)
next
  case (Some limits)
  show ?thesis
  proof (cases "0 < raw qty \<and> qty \<le> max_order_size limits")
    case False
    with Some show ?thesis by (auto simp: validate_def admissible_def is_positive_def)
  next
    case True
    then have pos: "raw qty \<noteq> int64_min" by (auto simp: int64_min_def)
    show ?thesis
    proof (cases "notional_price_of ty prc mp limits")
      case None
      with Some True show ?thesis
        by (simp add: validate_def admissible_def is_positive_def notional_price_of_def del: if_split split: option.splits)
    next
      case p: (Some p)
      then show ?thesis
        using Some True pos
        by (cases "decimal_mult qty p")
          (auto simp: validate_def admissible_def is_positive_def position_check_iff not_less
            simp flip: notional_price_of_def split: if_splits)
    qed
  qed
qed

lemma add_exposures_sum:
  "add_exposures keep pos orders = Inr net \<Longrightarrow>
     raw net = raw pos + sum_list (map exposure (filter keep orders))"
  by (induction keep pos orders rule: add_exposures.induct)
    (auto simp: rbind_eq_Inr_iff signed_quantity_eq_Inr_iff decimal_Inr_iffs exposure_def split: if_splits)

lemma conservative_positions_from_lookup:
  "conservative_positions_from positions orders = Inr m \<Longrightarrow>
     add_exposures (\<lambda>ord. symbol ord = smb) (case positions smb of None \<Rightarrow> 0 | Some p \<Rightarrow> p) orders =
       Inr (case m smb of None \<Rightarrow> 0 | Some p \<Rightarrow> p)"
proof (induction positions orders rule: conservative_positions_from.induct)
  case (2 positions ord orders)
  then obtain signed p where "signed_quantity (side ord) (conservative_exposure ord) = Inr signed"
    and "decimal_add (case positions (symbol ord) of None \<Rightarrow> 0 | Some p \<Rightarrow> p) signed = Inr p"
    and "conservative_positions_from (positions(symbol ord \<mapsto> p)) orders = Inr m"
    by (auto simp: rbind_eq_Inr_iff)
  with "2.IH" [of p] show ?case by (cases "symbol ord = smb") (auto simp: fun_upd_def)
qed simp

lemma add_exposures_append:
  "add_exposures keep pos (xs @ ys) = rbind (add_exposures keep pos xs) (\<lambda>p. add_exposures keep p ys)"
  by (induction keep pos xs rule: add_exposures.induct) (auto simp: rbind_def split: sum.splits)

text \<open>Every decision that is returned is the plain acceptance or a rejection.\<close>

definition decided :: "risk_decision result \<Rightarrow> bool" where
  "decided x \<longleftrightarrow> (case x of Inl _ \<Rightarrow> True | Inr d \<Rightarrow> d = risk_accept \<or> \<not> rd_accepted d)"

lemma decided_basic [simp]: "decided (Inr (risk_reject c w))" "decided (Inr risk_accept)"
  by (simp_all add: decided_def)

lemma decided_rbind: "(\<And>a. decided (f a)) \<Longrightarrow> decided (rbind m f)"
  by (cases m) (simp_all add: decided_def)

lemma decidedD: "decided (Inr d) \<Longrightarrow> rd_accepted d \<Longrightarrow> d = risk_accept"
  by (simp add: decided_def)

lemma decided_validate: "decided (validate lims smb sd ty prc qty pos mp)"
  unfolding validate_def by (simp add: decided_rbind split: option.split)

lemma decided_check_new: "decided (check_new_with_position lims r pos mp)"
  unfolding check_new_with_position_def by (simp add: decided_validate)

lemma decided_check_amend: "decided (check_amend_with_position lims ord np nq pos)"
  unfolding check_amend_with_position_def by (simp add: decided_validate Let_def)

lemma check_new_with_position_accept_iff:
  "check_new_with_position lims r pos mp = Inr risk_accept \<longleftrightarrow>
     rq_client_order_id r \<noteq> [] \<and> rq_symbol r \<noteq> [] \<and>
     (case rq_price r of None \<Rightarrow> rq_type r = Market | Some p \<Rightarrow> rq_type r = Limit \<and> 0 < raw p) \<and>
     admissible lims (rq_symbol r) (rq_side r) (rq_type r) (rq_price r) (rq_quantity r) (raw pos) mp"
  unfolding check_new_with_position_def
  by (cases "rq_type r") (auto simp: validate_accept_iff is_positive_def split: option.splits)

lemma admissible_limit:
  "admissible lims smb sd ty prc qty pos mp \<Longrightarrow>
     \<exists>limits. lims smb = Some limits \<and> \<bar>pos + signed_raw sd qty\<bar> \<le> raw (position_limit limits)"
  by (auto simp: admissible_def)

definition sample_limits :: risk_limits where
  "sample_limits = [''BTC-USDT'' \<mapsto> \<lparr>max_order_size = Decimal 2000000000, max_notional = Decimal 5000000000,
     position_limit = Decimal 2500000000, market_reference_price = None\<rparr>]"

lemma sample_accept: "check_new sample_limits sample_request [sample_order] None = Inr risk_accept"
  and sample_amend_accept: "check_amend sample_limits sample_order None (Some (Decimal 1200000000)) [sample_order]
    = Inr risk_accept"
  by (simp_all add: check_new_def check_amend_def check_new_with_position_def check_amend_with_position_def
      sample_limits_def sample_defs validate_def signed_quantity_def conservative_exposure_def is_positive_def
      scale_def apply_eval decimal_abs_def)

section \<open>Properties\<close>

text \<open>The admission rule of a new order, completely: it is accepted exactly when it names an
  order and a symbol with configured limits, has a positive price if and only if it is a limit order,
  a positive quantity within the order size, a notional (at its price, the market price or the
  reference price) within the notional limit, and a resulting net position that can be represented
  and lies within the position limit.\<close>

theorem check_new_accepts_iff:
  "check_new_with_position lims r pos mp = Inr risk_accept \<longleftrightarrow>
     rq_client_order_id r \<noteq> [] \<and> rq_symbol r \<noteq> [] \<and>
     (case rq_price r of None \<Rightarrow> rq_type r = Market | Some p \<Rightarrow> rq_type r = Limit \<and> 0 < raw p) \<and>
     (\<exists>limits p notional. lims (rq_symbol r) = Some limits \<and>
        0 < raw (rq_quantity r) \<and> rq_quantity r \<le> max_order_size limits \<and>
        (if rq_type r = Market
         then (case mp of Some x \<Rightarrow> Some x | None \<Rightarrow> market_reference_price limits) else rq_price r) = Some p \<and>
        decimal_mult (rq_quantity r) p = Inr notional \<and> notional \<le> max_notional limits \<and>
        in_int64 (raw pos + signed_raw (rq_side r) (rq_quantity r)) \<and>
        raw pos + signed_raw (rq_side r) (rq_quantity r) \<noteq> int64_min \<and>
        \<bar>raw pos + signed_raw (rq_side r) (rq_quantity r)\<bar> \<le> raw (position_limit limits))"
  unfolding check_new_with_position_accept_iff admissible_def notional_price_of_def ..

text \<open>An accepted new order keeps the book within the position limit: with the order created from
  the request added to the orders checked against, the net exposure of its symbol (filled quantity of
  the finished orders, full quantity of the open ones, sells negative) is at most the limit.\<close>

theorem accepted_new_within_limit:
  assumes "check_new lims r orders mp = Inr d" and "rd_accepted d"
  shows "\<exists>limits. lims (rq_symbol r) = Some limits \<and>
    \<bar>sum_list (map exposure (filter (\<lambda>ord. symbol ord = rq_symbol r) (make_order clock r fp now # orders)))\<bar>
      \<le> raw (position_limit limits)"
proof -
  obtain pos where sum: "add_exposures (\<lambda>ord. symbol ord = rq_symbol r) 0 orders = Inr pos"
    and chk: "check_new_with_position lims r pos mp = Inr d"
    using assms(1) by (auto simp: check_new_def elim: rbind_InrE)
  have "d = risk_accept"
    using decided_check_new [of lims r pos mp] chk assms(2) by (simp add: decidedD)
  with chk obtain limits where "lims (rq_symbol r) = Some limits"
    and "\<bar>raw pos + signed_raw (rq_side r) (rq_quantity r)\<bar> \<le> raw (position_limit limits)"
    by (auto simp: check_new_with_position_accept_iff dest: admissible_limit)
  moreover have "exposure (make_order clock r fp now) = signed_raw (rq_side r) (rq_quantity r)"
    by (simp add: exposure_def conservative_exposure_def)
  moreover have "raw pos = sum_list (map exposure (filter (\<lambda>ord. symbol ord = rq_symbol r) orders))"
    using add_exposures_sum [OF sum] by simp
  ultimately show ?thesis by (simp add: add.commute)
qed

theorem accepted_new_within_limit_witness:
  "\<exists>limits. sample_limits (rq_symbol sample_request) = Some limits \<and>
    \<bar>sum_list (map exposure (filter (\<lambda>ord. symbol ord = rq_symbol sample_request)
       (make_order 1 sample_request [] 2 # [sample_order])))\<bar> \<le> raw (position_limit limits)"
  using accepted_new_within_limit [OF sample_accept risk_accept_simps(1)] .

text \<open>The incremental check agrees with the check over all orders: if the per-symbol positions of
  a list of orders can be computed, checking a request against the position of its symbol gives the
  same decision as checking it against the list.\<close>

theorem check_new_by_positions:
  assumes "conservative_positions orders = Inr m"
  shows "check_new lims r orders mp =
    check_new_with_position lims r (case m (rq_symbol r) of None \<Rightarrow> 0 | Some p \<Rightarrow> p) mp"
  using conservative_positions_from_lookup [of Map.empty orders m "rq_symbol r"] assms
  by (simp add: check_new_def conservative_positions_def)

theorem check_new_by_positions_witness:
  "check_new sample_limits sample_request [sample_order] None =
     check_new_with_position sample_limits sample_request (Decimal 1000000000) None"
proof -
  have "conservative_positions [sample_order] = Inr [''BTC-USDT'' \<mapsto> Decimal 1000000000]"
    by (simp add: conservative_positions_def sample_defs signed_quantity_def conservative_exposure_def
        apply_eval)
  from check_new_by_positions [OF this, of sample_limits sample_request None]
  show ?thesis by (simp add: sample_request_def)
qed

text \<open>An accepted amendment is of an open limit order with no command in flight, does not go below
  the fills, and keeps the net exposure of the symbol within the limit when the order's exposure is
  replaced by the amended quantity.\<close>

theorem accepted_amend_within_limit:
  assumes "check_amend lims ord np nq orders = Inr d" and "rd_accepted d"
  shows "status ord \<in> {Live, PartiallyFilled} \<and> type ord = Limit \<and> pending_action ord = NoAction \<and>
    filled_quantity ord \<le> (case nq of Some q \<Rightarrow> q | None \<Rightarrow> quantity ord) \<and>
    (\<exists>limits. lims (symbol ord) = Some limits \<and>
      \<bar>sum_list (map exposure (filter (\<lambda>c. symbol c = symbol ord \<and> client_order_id c \<noteq> client_order_id ord) orders)) +
       signed_raw (side ord) (case nq of Some q \<Rightarrow> q | None \<Rightarrow> quantity ord)\<bar> \<le> raw (position_limit limits))"
proof -
  let ?qty = "case nq of Some q \<Rightarrow> q | None \<Rightarrow> quantity ord"
  let ?prc = "case np of Some p \<Rightarrow> Some p | None \<Rightarrow> price ord"
  obtain pos where sum: "add_exposures (\<lambda>c. symbol c = symbol ord \<and> client_order_id c \<noteq> client_order_id ord) 0 orders = Inr pos"
    and chk: "check_amend_with_position lims ord np nq pos = Inr d"
    using assms(1) by (auto simp: check_amend_def elim: rbind_InrE)
  have guards: "\<not> is_terminal (status ord)" "status ord \<noteq> Unknown" "type ord \<noteq> Market"
      "\<not> ?qty < filled_quantity ord" "pending_action ord = NoAction"
    and val: "validate lims (symbol ord) (side ord) (type ord) ?prc ?qty pos None = Inr d"
    using chk assms(2) by (auto simp: check_amend_with_position_def Let_def split: if_splits)
  from val assms(2) have "validate lims (symbol ord) (side ord) (type ord) ?prc ?qty pos None = Inr risk_accept"
    using decided_validate decidedD by metis
  then obtain limits where "lims (symbol ord) = Some limits"
    and "\<bar>raw pos + signed_raw (side ord) ?qty\<bar> \<le> raw (position_limit limits)"
    by (auto simp: validate_accept_iff dest: admissible_limit)
  moreover have "status ord \<in> {Live, PartiallyFilled}" "type ord = Limit"
    using guards by (cases "status ord"; cases "type ord"; simp)+
  ultimately show ?thesis using guards add_exposures_sum [OF sum] by simp
qed

theorem accepted_amend_within_limit_witness:
  "filled_quantity sample_order \<le> Decimal 1200000000 \<and> pending_action sample_order = NoAction"
  using accepted_amend_within_limit [OF sample_amend_accept risk_accept_simps(1)] by simp

text \<open>The limit is on the net position. An accepted order can leave a book whose buys alone exceed
  the limit, because open sells are counted as if they filled: if only the buys fill, the position
  goes beyond the limit that the rejection text calls worst-case.\<close>

theorem net_limit_ignores_one_sided_fills:
  "\<exists>lims r orders limits. check_new lims r orders None = Inr risk_accept \<and>
     lims (rq_symbol r) = Some limits \<and>
     sum_list (map exposure (filter (\<lambda>ord. side ord = Buy) (make_order 1 r [] 2 # orders)))
       > raw (position_limit limits)"
proof -
  let ?r = "sample_request\<lparr>rq_quantity := Decimal 2000000000\<rparr>"
  let ?orders = "[sample_order, sample_order\<lparr>client_order_id := ''c2'', side := Sell\<rparr>]"
  let ?l = "\<lparr>max_order_size = Decimal 2000000000, max_notional = Decimal 5000000000,
     position_limit = Decimal 2500000000, market_reference_price = None\<rparr>"
  have "check_new sample_limits ?r ?orders None = Inr risk_accept"
    by (simp add: check_new_def check_new_with_position_def decimal_neg_def
        sample_limits_def sample_defs validate_def signed_quantity_def conservative_exposure_def
        is_positive_def scale_def apply_eval decimal_abs_def)
  moreover have "sample_limits (rq_symbol ?r) = Some ?l" by (simp add: sample_limits_def sample_request_def)
  moreover have "sum_list (map exposure (filter (\<lambda>ord. side ord = Buy) (make_order 1 ?r [] 2 # ?orders)))
      > raw (position_limit ?l)"
    by (simp add: sample_defs exposure_def signed_raw_def conservative_exposure_def make_order_def Let_def)
  ultimately show ?thesis by blast
qed

end
