(* ===== verification/Abex_Sequencing.thy ===== *)
theory Abex_Sequencing
  imports Abex_Order
begin

text \<open>
  Per-venue sequence observation (\<open>include/abex/application/sequence_tracker.hpp\<close>) and the symbol
  registry that turns a symbol into an array slot (\<open>include/abex/application/symbol_index.hpp\<close>).
  Sequence numbers are 64-bit words and \<open>last + 1\<close> wraps as in the code.
\<close>

section \<open>Sequence tracker\<close>

datatype sequence_observation = SeqFirst | SeqContiguous | SeqDuplicate | SeqStale | SeqGap

record sequence_result =
  sq_observation :: sequence_observation
  sq_expected :: "u64 option"
  sq_received :: u64

record sequence_tracker =
  st_last :: "u64 option"
  st_gap_detected :: bool

definition new_tracker :: sequence_tracker where
  "new_tracker = \<lparr>st_last = None, st_gap_detected = False\<rparr>"

definition observe :: "sequence_tracker \<Rightarrow> u64 \<Rightarrow> sequence_tracker \<times> sequence_result" where
  "observe t s =
     (case st_last t of
        None \<Rightarrow> (t\<lparr>st_last := Some s\<rparr>, \<lparr>sq_observation = SeqFirst, sq_expected = None, sq_received = s\<rparr>)
      | Some l \<Rightarrow>
          if s = l then (t, \<lparr>sq_observation = SeqDuplicate, sq_expected = Some (l + 1), sq_received = s\<rparr>)
          else if s < l then (t, \<lparr>sq_observation = SeqStale, sq_expected = Some (l + 1), sq_received = s\<rparr>)
          else
            let expected = l + 1; gap = s > expected
            in (t\<lparr>st_last := Some s, st_gap_detected := st_gap_detected t \<or> gap\<rparr>,
                \<lparr>sq_observation = (if gap then SeqGap else SeqContiguous), sq_expected = Some expected,
                 sq_received = s\<rparr>))"

definition reset_tracker :: "sequence_tracker \<Rightarrow> u64 option \<Rightarrow> sequence_tracker" where
  "reset_tracker t l = t\<lparr>st_last := l, st_gap_detected := False\<rparr>"

definition clear_gap :: "sequence_tracker \<Rightarrow> sequence_tracker" where
  "clear_gap t = t\<lparr>st_gap_detected := False\<rparr>"

fun observe_all :: "sequence_tracker \<Rightarrow> u64 list \<Rightarrow> sequence_tracker" where
  "observe_all t [] = t"
| "observe_all t (s # ss) = observe_all (fst (observe t s)) ss"

section \<open>Symbol registry\<close>

datatype symbol_id = BtcUsdt | EthUsdt | UnknownSymbol

definition kSymbolCount :: nat where "kSymbolCount = 2"

definition kSymbolNames :: "string list" where
  "kSymbolNames = [''BTC-USDT'', ''ETH-USDT'']"

fun to_slot :: "symbol_id \<Rightarrow> nat" where
  "to_slot BtcUsdt = 0"
| "to_slot EthUsdt = 1"
| "to_slot UnknownSymbol = 255"

text \<open>The scan over the name table; the cast back from the index.\<close>

fun slot_to_symbol :: "nat \<Rightarrow> symbol_id" where
  "slot_to_symbol 0 = BtcUsdt"
| "slot_to_symbol (Suc 0) = EthUsdt"
| "slot_to_symbol _ = UnknownSymbol"

fun scan_symbols :: "nat \<Rightarrow> string list \<Rightarrow> string \<Rightarrow> symbol_id" where
  "scan_symbols i [] s = UnknownSymbol"
| "scan_symbols i (n # ns) s = (if n = s then slot_to_symbol i else scan_symbols (Suc i) ns s)"

definition symbol_id_rt :: "string \<Rightarrow> symbol_id" where
  "symbol_id_rt s = scan_symbols 0 kSymbolNames s"

section \<open>Lemmas\<close>

lemma observe_last:
  "st_last (fst (observe t s)) = Some (case st_last t of None \<Rightarrow> s | Some l \<Rightarrow> max l s)"
  by (auto simp: observe_def Let_def max_def split: option.splits)

lemma word_succ_gap:
  fixes l s :: u64
  assumes "l < s"
  shows "s > l + 1 \<longleftrightarrow> unat s \<noteq> unat l + 1" and "unat (l + 1) = unat l + 1"
proof -
  have "unat l < unat s" using assms by (simp add: word_less_nat_alt)
  moreover have "unat s < 2 ^ 64" using unsigned_less [of s] by simp
  ultimately have "unat l + 1 < 2 ^ 64" by linarith
  then show succ: "unat (l + 1) = unat l + 1"
    using unat_add_lem [of l 1] by simp
  show "s > l + 1 \<longleftrightarrow> unat s \<noteq> unat l + 1"
    using \<open>unat l < unat s\<close> succ by (auto simp: word_less_nat_alt)
qed

lemma symbol_id_rt_simps [simp]:
  "symbol_id_rt ''BTC-USDT'' = BtcUsdt" "symbol_id_rt ''ETH-USDT'' = EthUsdt"
  by (simp_all add: symbol_id_rt_def kSymbolNames_def)

lemma symbol_id_rt_cases:
  "symbol_id_rt s = BtcUsdt \<longleftrightarrow> s = ''BTC-USDT''"
  "symbol_id_rt s = EthUsdt \<longleftrightarrow> s = ''ETH-USDT''"
  by (auto simp: symbol_id_rt_def kSymbolNames_def split: if_splits)

lemma to_slot_bound: "i \<noteq> UnknownSymbol \<Longrightarrow> to_slot i < kSymbolCount"
  by (cases i) (simp_all add: kSymbolCount_def)

lemma symbol_slot_inject:
  "symbol_id_rt s \<noteq> UnknownSymbol \<Longrightarrow> symbol_id_rt s = symbol_id_rt s' \<longleftrightarrow> s = s'"
  using symbol_id_rt_cases [of s] symbol_id_rt_cases [of s'] by (cases "symbol_id_rt s") auto

section \<open>Properties\<close>

text \<open>The tracker keeps the largest sequence number seen and reports a gap exactly when numbers
  were skipped: after any stream the last number is the maximum, and observing a number reports a gap
  (and raises the flag) if and only if it is at least two above the last one; otherwise the flag keeps
  its value.\<close>

theorem tracker_detects_gaps:
  "(sq_observation (snd (observe t s)) = SeqGap \<longleftrightarrow>
      (case st_last t of None \<Rightarrow> False | Some l \<Rightarrow> unat s > unat l + 1)) \<and>
   st_gap_detected (fst (observe t s)) =
      (st_gap_detected t \<or> (case st_last t of None \<Rightarrow> False | Some l \<Rightarrow> unat s > unat l + 1)) \<and>
   st_last (observe_all t (s # ss)) =
      Some (case st_last t of None \<Rightarrow> Max (set (s # ss)) | Some l \<Rightarrow> Max (insert l (set (s # ss))))"
proof -
  have gap: "unat s > unat l + 1 \<longleftrightarrow> l < s \<and> s > l + 1" for l
  proof (cases "l < s")
    case True
    then have "unat l < unat s" by (simp add: word_less_nat_alt)
    with word_succ_gap(1) [OF True] True show ?thesis by auto
  qed (auto simp: word_less_nat_alt)
  have last: "st_last (observe_all t (s # ss)) =
      Some (case st_last t of None \<Rightarrow> Max (set (s # ss)) | Some l \<Rightarrow> Max (insert l (set (s # ss))))" for t s ss
  proof (induction ss arbitrary: t s)
    case Nil
    show ?case by (auto simp: observe_last split: option.splits)
  next
    case (Cons a ss)
    show ?case
      using Cons.IH [of "fst (observe t s)" a]
      by (auto simp: observe_last Max_insert_max insert_commute max.commute max.left_commute split: option.splits)
  qed
  show ?thesis
    unfolding gap last by (auto simp: observe_def Let_def split: option.splits)
qed

end
