(* ===== verification/Abex_Market_Data.thy ===== *)
theory Abex_Market_Data
  imports Abex_Sequencing
begin

text \<open>
  The quote book (\<open>include/abex/domain/market_data.hpp\<close>,
  \<open>include/abex/application/market_data_book.hpp\<close>, \<open>src/application/market_data_book.cpp\<close>).

  A slot is written under its writer flag with the version counter odd in between, and read by
  retrying until the same even version is seen before and after. \<open>publish\<close> and \<open>read_slot\<close> are
  modelled on whole slots; the word-by-word protocol that makes a read atomic is the step relation
  \<open>seqlock_step\<close> below, with its own consistency theorem. Observers, callbacks of the caller, are
  left out. Clock readings are arguments.
\<close>

record market_quote =
  mq_venue :: venue
  mq_symbol :: string
  mq_bid_price :: decimal
  mq_ask_price :: decimal
  mq_source_time_ms :: int
  mq_published_at_ms :: int
  mq_sequence :: u64

definition valid_quote :: "market_quote \<Rightarrow> bool" where
  "valid_quote q \<longleftrightarrow> mq_symbol q \<noteq> [] \<and> is_positive (mq_bid_price q) \<and> is_positive (mq_ask_price q) \<and>
     mq_bid_price q \<le> mq_ask_price q"

definition executable_price :: "market_quote \<Rightarrow> side \<Rightarrow> decimal" where
  "executable_price q sd = (if sd = Buy then mq_ask_price q else mq_bid_price q)"

record quote_slot =
  qs_version :: u64
  qs_bid_raw :: int
  qs_ask_raw :: int
  qs_source_time_ms :: int
  qs_published_at_ms :: int
  qs_sequence :: u64

record market_data_status =
  ms_ring_mapped :: bool
  ms_ring_connected :: bool
  ms_generation :: u64
  ms_last_sequence :: u64
  ms_last_update_ms :: int
  ms_last_error :: string
  ms_transport :: string

record market_data_book =
  bk_maximum_age :: int
  bk_quotes :: "quote_slot list"
  bk_status :: market_data_status

definition empty_slot :: quote_slot where
  "empty_slot = \<lparr>qs_version = 0, qs_bid_raw = 0, qs_ask_raw = 0, qs_source_time_ms = 0,
     qs_published_at_ms = 0, qs_sequence = 0\<rparr>"

definition new_book :: "int \<Rightarrow> market_data_book result" where
  "new_book maximum_age =
     (if maximum_age \<le> 0 then Inl (Invalid_argument ''market-data maximum age must be positive'')
      else Inr \<lparr>bk_maximum_age = maximum_age, bk_quotes = replicate 4 empty_slot,
        bk_status = \<lparr>ms_ring_mapped = False, ms_ring_connected = False, ms_generation = 0,
          ms_last_sequence = 0, ms_last_update_ms = 0, ms_last_error = [],
          ms_transport = ''PUBLIC_REST''\<rparr>\<rparr>)"

definition slot_index :: "venue \<Rightarrow> string \<Rightarrow> nat option" where
  "slot_index v smb =
     (let venue_offset = (if v = Okx then 0 else 2)
      in if smb = ''BTC-USDT'' then Some venue_offset
         else if smb = ''ETH-USDT'' then Some (venue_offset + 1)
         else None)"

definition slot_symbol :: "nat \<Rightarrow> string" where
  "slot_symbol index = (if index mod 2 = 0 then ''BTC-USDT'' else ''ETH-USDT'')"

definition write_slot :: "quote_slot \<Rightarrow> market_quote \<Rightarrow> quote_slot" where
  "write_slot slot q =
     slot\<lparr>qs_version := qs_version slot + 2, qs_bid_raw := raw (mq_bid_price q),
          qs_ask_raw := raw (mq_ask_price q), qs_source_time_ms := mq_source_time_ms q,
          qs_published_at_ms := mq_published_at_ms q, qs_sequence := mq_sequence q\<rparr>"

definition publish :: "int \<Rightarrow> market_data_book \<Rightarrow> market_quote \<Rightarrow> market_data_book result" where
  "publish unix_time_ms book quote0 =
     (if \<not> valid_quote quote0 then Inl (Invalid_argument ''invalid market quote'')
      else
        let q = (if mq_published_at_ms quote0 = 0 then quote0\<lparr>mq_published_at_ms := unix_time_ms\<rparr> else quote0)
        in case slot_index (mq_venue q) (mq_symbol q) of
             None \<Rightarrow> Inl (Invalid_argument ''unsupported market-data symbol'')
           | Some index \<Rightarrow>
               let slot = bk_quotes book ! index
               in if qs_sequence slot > mq_sequence q \<and> mq_sequence q \<noteq> 0 then Inr book
                  else Inr (book\<lparr>
                    bk_quotes := (bk_quotes book)[index := write_slot slot q],
                    bk_status := (bk_status book)\<lparr>
                      ms_last_update_ms := max (ms_last_update_ms (bk_status book)) (mq_published_at_ms q),
                      ms_last_sequence := max (ms_last_sequence (bk_status book)) (mq_sequence q)\<rparr>\<rparr>))"

definition read_slot :: "market_data_book \<Rightarrow> nat \<Rightarrow> market_quote option" where
  "read_slot book index =
     (let slot = bk_quotes book ! index
      in if qs_published_at_ms slot = 0 then None
         else Some \<lparr>mq_venue = (if index < 2 then Okx else Binance), mq_symbol = slot_symbol index,
                    mq_bid_price = from_raw (qs_bid_raw slot), mq_ask_price = from_raw (qs_ask_raw slot),
                    mq_source_time_ms = qs_source_time_ms slot,
                    mq_published_at_ms = qs_published_at_ms slot, mq_sequence = qs_sequence slot\<rparr>)"

definition latest :: "market_data_book \<Rightarrow> venue \<Rightarrow> string \<Rightarrow> market_quote option" where
  "latest book v smb = (case slot_index v smb of None \<Rightarrow> None | Some index \<Rightarrow> read_slot book index)"

definition fresh :: "market_data_book \<Rightarrow> market_quote \<Rightarrow> int \<Rightarrow> bool" where
  "fresh book q now_ms \<longleftrightarrow>
     (let age = now_ms - mq_published_at_ms q in age \<ge> 0 \<and> age \<le> bk_maximum_age book)"

definition market_price :: "int \<Rightarrow> market_data_book \<Rightarrow> venue \<Rightarrow> string \<Rightarrow> side \<Rightarrow> decimal option" where
  "market_price unix_time_ms book v smb sd =
     (case latest book v smb of
        None \<Rightarrow> None
      | Some q \<Rightarrow> if fresh book q unix_time_ms then Some (executable_price q sd) else None)"

definition clear_slots :: "quote_slot list \<Rightarrow> quote_slot list" where
  "clear_slots slots =
     map (\<lambda>slot. slot\<lparr>qs_version := qs_version slot + 2, qs_published_at_ms := 0, qs_sequence := 0\<rparr>) slots"

definition set_ring_status ::
    "market_data_book \<Rightarrow> bool \<Rightarrow> u64 \<Rightarrow> u64 \<Rightarrow> string \<Rightarrow> string \<Rightarrow> market_data_book" where
  "set_ring_status book mapped generation last_seq err transport =
     (let st = bk_status book;
          restarted = (generation \<noteq> 0 \<and> ms_generation st \<noteq> 0 \<and> generation \<noteq> ms_generation st);
          st1 = (if restarted then st\<lparr>ms_last_sequence := 0, ms_last_update_ms := 0\<rparr> else st)
      in book\<lparr>bk_quotes := (if restarted then clear_slots (bk_quotes book) else bk_quotes book),
              bk_status := st1\<lparr>ms_ring_mapped := mapped, ms_generation := generation,
                ms_last_sequence := last_seq, ms_last_error := err,
                ms_transport := (if transport \<noteq> [] then transport else ms_transport st1)\<rparr>\<rparr>)"

definition book_status :: "int \<Rightarrow> market_data_book \<Rightarrow> market_data_status" where
  "book_status unix_time_ms book =
     (let st = bk_status book;
          age = unix_time_ms - ms_last_update_ms st;
          connected = (ms_ring_mapped st \<and> ms_last_update_ms st \<noteq> 0 \<and> age \<ge> 0 \<and> age \<le> bk_maximum_age book)
      in st\<lparr>ms_ring_connected := connected,
            ms_last_error :=
              (if ms_ring_mapped st \<and> \<not> connected \<and> ms_last_error st = []
               then (if ms_last_update_ms st = 0 then ''waiting for the first publisher update''
                     else ''market-data publisher updates are stale'')
               else ms_last_error st)\<rparr>)"

section \<open>Lemmas\<close>

definition wf_book :: "market_data_book \<Rightarrow> bool" where
  "wf_book book \<longleftrightarrow> length (bk_quotes book) = 4 \<and> 0 < bk_maximum_age book \<and>
     (\<forall>slot \<in> set (bk_quotes book).
        if qs_published_at_ms slot = 0 then qs_sequence slot = 0
        else 0 < qs_bid_raw slot \<and> qs_bid_raw slot \<le> qs_ask_raw slot)"

lemma slot_index_bound: "slot_index v smb = Some i \<Longrightarrow> i < 4"
  by (auto simp: slot_index_def Let_def split: if_splits)

lemma slot_index_inverse:
  "slot_index v smb = Some i \<Longrightarrow> (if i < 2 then Okx else Binance) = v \<and> slot_symbol i = smb"
  by (cases v) (auto simp: slot_index_def slot_symbol_def Let_def split: if_splits)

lemma slot_index_inject: "slot_index v smb = Some i \<Longrightarrow> slot_index v' smb' = Some i \<Longrightarrow> v = v' \<and> smb = smb'"
  using slot_index_inverse by metis

lemma new_book_wf: "new_book age = Inr book \<Longrightarrow> wf_book book"
  by (auto simp: new_book_def wf_book_def empty_slot_def split: if_splits)

lemma publish_wf:
  assumes "wf_book book" and "publish now book q = Inr book'" and "now \<noteq> 0"
  shows "wf_book book'"
proof -
  obtain i where i: "slot_index (mq_venue q) (mq_symbol q) = Some i"
    using assms(2) by (cases "slot_index (mq_venue q) (mq_symbol q)") (auto simp: publish_def Let_def split: if_splits)
  show ?thesis
    using assms i slot_index_bound [OF i]
    by (auto simp: publish_def wf_book_def Let_def valid_quote_def is_positive_def le_decimal_iff write_slot_def
        dest!: set_update_subset_insert [THEN subsetD] split: if_splits)
qed

lemma set_ring_status_wf: "wf_book book \<Longrightarrow> wf_book (set_ring_status book mapped gen sq err tr)"
  by (auto simp: wf_book_def set_ring_status_def clear_slots_def Let_def)

section \<open>The versioned slot under concurrency\<close>

text \<open>
  One atomic access per step, sequentially consistent. The writer flag admits one writer at a time,
  which makes the version odd, stores its words one by one and makes the version even again; a
  reader notes an even version, loads the words one by one and accepts them if the version is still
  the same. The version counter is a natural number here: a reader would have to be suspended for
  \<open>2 ^ 63\<close> publications to see the 64-bit counter come round. The history of completed writes is a
  ghost component.
\<close>

datatype slot_word = WBid | WAsk | WSource | WPublished | WSequence

type_synonym slot_words = "slot_word \<Rightarrow> int"

record seqlock =
  sl_version :: nat
  sl_words :: slot_words
  sl_writer :: "(slot_word \<times> int) list option"
  sl_reader :: "(nat \<times> slot_words \<times> slot_word list) option"
  sl_history :: "slot_words list"

definition slot_word_order :: "slot_word list" where
  "slot_word_order = [WBid, WAsk, WSource, WPublished, WSequence]"

definition publish_stores :: "market_quote \<Rightarrow> (slot_word \<times> int) list" where
  "publish_stores q = [(WBid, raw (mq_bid_price q)), (WAsk, raw (mq_ask_price q)),
     (WSource, mq_source_time_ms q), (WPublished, mq_published_at_ms q), (WSequence, uint (mq_sequence q))]"

definition clear_stores :: "(slot_word \<times> int) list" where
  "clear_stores = [(WPublished, 0), (WSequence, 0)]"

definition slot_words_of :: "quote_slot \<Rightarrow> slot_words" where
  "slot_words_of slot w = (case w of WBid \<Rightarrow> qs_bid_raw slot | WAsk \<Rightarrow> qs_ask_raw slot
     | WSource \<Rightarrow> qs_source_time_ms slot | WPublished \<Rightarrow> qs_published_at_ms slot
     | WSequence \<Rightarrow> uint (qs_sequence slot))"

inductive seqlock_step :: "seqlock \<Rightarrow> seqlock \<Rightarrow> bool" where
  write_begin: "sl_writer s = None \<Longrightarrow> stores = publish_stores q \<or> stores = clear_stores \<Longrightarrow>
    seqlock_step s (s\<lparr>sl_version := sl_version s + 1, sl_writer := Some stores\<rparr>)"
| write_word: "sl_writer s = Some ((w, x) # stores) \<Longrightarrow>
    seqlock_step s (s\<lparr>sl_words := (sl_words s)(w := x), sl_writer := Some stores\<rparr>)"
| write_end: "sl_writer s = Some [] \<Longrightarrow>
    seqlock_step s (s\<lparr>sl_version := sl_version s + 1, sl_writer := None,
                     sl_history := sl_history s @ [sl_words s]\<rparr>)"
| read_begin: "sl_reader s = None \<Longrightarrow> even (sl_version s) \<Longrightarrow>
    seqlock_step s (s\<lparr>sl_reader := Some (sl_version s, \<lambda>_. 0, slot_word_order)\<rparr>)"
| read_word: "sl_reader s = Some (before, got, w # ws) \<Longrightarrow>
    seqlock_step s (s\<lparr>sl_reader := Some (before, got(w := sl_words s w), ws)\<rparr>)"
| read_accept: "sl_reader s = Some (before, got, []) \<Longrightarrow> sl_version s = before \<Longrightarrow>
    seqlock_step s (s\<lparr>sl_reader := None\<rparr>)"
| read_retry: "sl_reader s = Some (before, got, []) \<Longrightarrow> sl_version s \<noteq> before \<Longrightarrow>
    seqlock_step s (s\<lparr>sl_reader := None\<rparr>)"

inductive_cases seqlock_stepE: "seqlock_step s s'"

definition seqlock_init :: "slot_words \<Rightarrow> seqlock" where
  "seqlock_init ws = \<lparr>sl_version = 0, sl_words = ws, sl_writer = None, sl_reader = None, sl_history = [ws]\<rparr>"

definition seqlock_inv :: "seqlock \<Rightarrow> bool" where
  "seqlock_inv s \<longleftrightarrow>
     (even (sl_version s) \<longleftrightarrow> sl_writer s = None) \<and>
     (sl_writer s = None \<longrightarrow> sl_history s \<noteq> [] \<and> last (sl_history s) = sl_words s) \<and>
     (case sl_reader s of
        None \<Rightarrow> True
      | Some (before, got, ws) \<Rightarrow> even before \<and> before \<le> sl_version s \<and>
          (\<exists>seen. slot_word_order = seen @ ws \<and>
             (before = sl_version s \<longrightarrow> (\<forall>w \<in> set seen. got w = sl_words s w))))"

lemma seqlock_inv_init: "seqlock_inv (seqlock_init ws)"
  by (simp add: seqlock_inv_def seqlock_init_def)

lemma seqlock_inv_step:
  assumes "seqlock_step s s'" and inv: "seqlock_inv s"
  shows "seqlock_inv s'"
  using assms(1)
proof cases
  case (read_word before got w ws)
  with inv obtain seen where "slot_word_order = seen @ w # ws" "even before" "before \<le> sl_version s"
    "before = sl_version s \<longrightarrow> (\<forall>w \<in> set seen. got w = sl_words s w)"
    by (auto simp: seqlock_inv_def)
  then have "\<exists>seen'. slot_word_order = seen' @ ws \<and>
      (before = sl_version s \<longrightarrow> (\<forall>v \<in> set seen'. (got(w := sl_words s w)) v = sl_words s v))"
    by (intro exI [of _ "seen @ [w]"]) auto
  with read_word inv \<open>even before\<close> \<open>before \<le> sl_version s\<close> show ?thesis
    by (simp add: seqlock_inv_def)
qed (use inv in \<open>auto simp: seqlock_inv_def split: option.splits\<close>)

lemma seqlock_inv_reachable: "seqlock_step\<^sup>*\<^sup>* (seqlock_init ws) s \<Longrightarrow> seqlock_inv s"
  by (induction rule: rtranclp_induct) (auto intro: seqlock_inv_init seqlock_inv_step)

lemma slot_word_order_complete: "w \<in> set slot_word_order"
  by (cases w) (simp_all add: slot_word_order_def)

lemma fold_publish_stores:
  "fold (\<lambda>(w, x) ws. ws(w := x)) (publish_stores q) (slot_words_of slot) = slot_words_of (write_slot slot q)"
  by (rule ext) (auto simp: publish_stores_def slot_words_of_def write_slot_def split: slot_word.splits)

definition sample_book :: market_data_book where
  "sample_book = \<lparr>bk_maximum_age = 5000, bk_quotes = replicate 4 empty_slot,
     bk_status = \<lparr>ms_ring_mapped = False, ms_ring_connected = False, ms_generation = 0, ms_last_sequence = 0,
       ms_last_update_ms = 0, ms_last_error = [], ms_transport = ''PUBLIC_REST''\<rparr>\<rparr>"

definition sample_quote :: market_quote where
  "sample_quote = \<lparr>mq_venue = Binance, mq_symbol = ''ETH-USDT'', mq_bid_price = Decimal 10, mq_ask_price = Decimal 12,
     mq_source_time_ms = 1, mq_published_at_ms = 0, mq_sequence = 3\<rparr>"

lemma sample_book_wf: "wf_book sample_book"
  by (rule new_book_wf [of 5000]) (simp add: new_book_def sample_book_def)

lemma sample_publish: "\<exists>book'. publish 7 sample_book sample_quote = Inr book'"
  by (simp add: publish_def sample_book_def sample_quote_def valid_quote_def is_positive_def slot_index_def
      empty_slot_def le_decimal_iff Let_def eval_nat_numeral)

section \<open>Properties\<close>

text \<open>The book returns what was last published. A quote that is not older (by sequence) than the
  one in its slot is returned by the next lookup of that venue and symbol, with the publication time
  filled in when it was missing; lookups of every other venue or symbol are unaffected; an older quote
  changes nothing.\<close>

theorem publish_latest:
  assumes "wf_book book" and "publish now book q = Inr book'" and "now \<noteq> 0"
  shows "latest book' (mq_venue q) (mq_symbol q) =
      (case latest book (mq_venue q) (mq_symbol q) of
         Some old \<Rightarrow> if mq_sequence old > mq_sequence q \<and> mq_sequence q \<noteq> 0 then Some old
                     else Some (if mq_published_at_ms q = 0 then q\<lparr>mq_published_at_ms := now\<rparr> else q)
       | None \<Rightarrow> Some (if mq_published_at_ms q = 0 then q\<lparr>mq_published_at_ms := now\<rparr> else q)) \<and>
    ((v, smb) \<noteq> (mq_venue q, mq_symbol q) \<longrightarrow> latest book' v smb = latest book v smb)"
proof -
  obtain i where i: "slot_index (mq_venue q) (mq_symbol q) = Some i"
    using assms(2) by (cases "slot_index (mq_venue q) (mq_symbol q)") (auto simp: publish_def Let_def split: if_splits)
  note b = slot_index_bound [OF i] and inv = slot_index_inverse [OF i]
  have len: "length (bk_quotes book) = 4" using assms(1) by (simp add: wf_book_def)
  let ?q = "if mq_published_at_ms q = 0 then q\<lparr>mq_published_at_ms := now\<rparr> else q"
  let ?slot = "bk_quotes book ! i"
  have upd: "bk_quotes book' = (if qs_sequence ?slot > mq_sequence q \<and> mq_sequence q \<noteq> 0 then bk_quotes book
      else (bk_quotes book)[i := write_slot ?slot ?q])"
    using assms(2) i by (auto simp: publish_def Let_def split: if_splits)
  have new: "read_slot (book'\<lparr>bk_quotes := (bk_quotes book)[i := write_slot ?slot ?q]\<rparr>) i = Some ?q"
    using b len inv assms(3) by (auto simp: read_slot_def write_slot_def Let_def from_raw_def)
  have same: "latest book' v smb = latest book v smb" if "(v, smb) \<noteq> (mq_venue q, mq_symbol q)"
  proof (cases "slot_index v smb")
    case (Some j)
    then have "j \<noteq> i" using slot_index_inject [OF _ i] that by auto
    then show ?thesis using Some upd by (simp add: latest_def read_slot_def)
  qed (simp add: latest_def)
  have empty: "qs_published_at_ms ?slot = 0 \<Longrightarrow> qs_sequence ?slot = 0"
    using assms(1) b len by (auto simp: wf_book_def dest: nth_mem split: if_splits)
  show ?thesis
    using upd new i same empty by (auto simp: latest_def read_slot_def Let_def split: option.splits if_splits)
qed

theorem publish_latest_witness:
  "\<exists>book'. publish 7 sample_book sample_quote = Inr book' \<and>
     latest book' Binance ''ETH-USDT'' = Some (sample_quote\<lparr>mq_published_at_ms := 7\<rparr>)"
proof -
  obtain book' where p: "publish 7 sample_book sample_quote = Inr book'" using sample_publish by blast
  have "latest sample_book Binance ''ETH-USDT'' = None"
    by (simp add: latest_def slot_index_def read_slot_def sample_book_def empty_slot_def)
  with publish_latest [OF sample_book_wf p, of Okx "''BTC-USDT''"]
  have "latest book' Binance ''ETH-USDT'' = Some (sample_quote\<lparr>mq_published_at_ms := 7\<rparr>)"
    by (simp add: sample_quote_def)
  with p show ?thesis by blast
qed

text \<open>A price the book hands out is safe to trade on: it comes from a quote of that venue and symbol
  published at most the maximum age ago and not in the future, it is positive, and buying is never
  cheaper than selling at the same moment.\<close>

theorem market_price_fresh:
  assumes "wf_book book" and "market_price now book v smb sd = Some p"
  shows "0 < raw p \<and>
    (\<exists>q. latest book v smb = Some q \<and> mq_venue q = v \<and> mq_symbol q = smb \<and>
       0 \<le> now - mq_published_at_ms q \<and> now - mq_published_at_ms q \<le> bk_maximum_age book) \<and>
    (case (market_price now book v smb Buy, market_price now book v smb Sell) of
       (Some ask, Some bid) \<Rightarrow> bid \<le> ask | _ \<Rightarrow> False)"
proof -
  obtain q where q: "latest book v smb = Some q" and fr: "fresh book q now" and p: "p = executable_price q sd"
    using assms(2) by (auto simp: market_price_def split: option.splits if_splits)
  obtain i where i: "slot_index v smb = Some i" and rd: "read_slot book i = Some q"
    using q by (auto simp: latest_def split: option.splits)
  have slot: "bk_quotes book ! i \<in> set (bk_quotes book)"
    using slot_index_bound [OF i] assms(1) by (simp add: wf_book_def)
  have "0 < raw (mq_bid_price q)" "raw (mq_bid_price q) \<le> raw (mq_ask_price q)" "mq_venue q = v" "mq_symbol q = smb"
    using rd slot assms(1) slot_index_inverse [OF i]
    by (auto simp: read_slot_def wf_book_def Let_def from_raw_def split: if_splits)
  then show ?thesis
    using q fr p by (auto simp: market_price_def executable_price_def fresh_def Let_def le_decimal_iff)
qed

theorem market_price_fresh_witness:
  "\<exists>book'. publish 7 sample_book sample_quote = Inr book' \<and>
     market_price 9 book' Binance ''ETH-USDT'' Buy = Some (Decimal 12) \<and> 0 < raw (Decimal 12)"
proof -
  obtain book' where p: "publish 7 sample_book sample_quote = Inr book'" using sample_publish by blast
  have wf: "wf_book book'" by (rule publish_wf [OF sample_book_wf p]) simp
  have "market_price 9 book' Binance ''ETH-USDT'' Buy = Some (Decimal 12)"
    using p by (auto simp: publish_def sample_book_def sample_quote_def valid_quote_def is_positive_def slot_index_def
        empty_slot_def le_decimal_iff Let_def market_price_def latest_def read_slot_def write_slot_def
        fresh_def executable_price_def from_raw_def)
  with market_price_fresh [OF wf this] p show ?thesis by blast
qed

text \<open>No torn quotes. In every interleaving of one writer and a reader on a slot, when the reader
  accepts (same version before and after) no write is in progress, and the five words it has loaded
  are the words of the last completed write, all of them.\<close>

theorem seqlock_no_torn_read:
  assumes "seqlock_step\<^sup>*\<^sup>* (seqlock_init ws) s"
    and "sl_reader s = Some (before, got, [])" and "sl_version s = before"
  shows "sl_writer s = None \<and> got = sl_words s \<and> got = last (sl_history s)"
proof -
  have inv: "seqlock_inv s" using assms(1) by (rule seqlock_inv_reachable)
  then have "even before" and "\<forall>w \<in> set slot_word_order. got w = sl_words s w"
    using assms(2,3) by (auto simp: seqlock_inv_def)
  then have "got = sl_words s" and "sl_writer s = None"
    using slot_word_order_complete inv assms(3) by (auto simp: seqlock_inv_def)
  with inv show ?thesis by (simp add: seqlock_inv_def)
qed

theorem seqlock_no_torn_read_witness:
  "\<exists>s got. seqlock_step\<^sup>*\<^sup>* (seqlock_init (\<lambda>_. 4)) s \<and> sl_reader s = Some (0, got, []) \<and> got = (\<lambda>_. 4)"
proof -
  let ?s = "\<lambda>got ws. (seqlock_init (\<lambda>_. 4))\<lparr>sl_reader := Some (0, got, ws)\<rparr>"
  have read: "seqlock_step (?s got (w # ws)) (?s (got(w := 4)) ws)" for got w ws
    using seqlock_step.read_word [of "?s got (w # ws)" 0 got w ws] by (simp add: seqlock_init_def)
  have "seqlock_step (seqlock_init (\<lambda>_. 4)) (?s (\<lambda>_. 0) slot_word_order)"
    using seqlock_step.read_begin [of "seqlock_init (\<lambda>_. 4)"] by (simp add: seqlock_init_def)
  moreover have "seqlock_step\<^sup>*\<^sup>* (?s got ws) (?s (\<lambda>v. if v \<in> set ws then 4 else got v) [])" for got ws
  proof (induction ws arbitrary: got)
    case (Cons w ws)
    have eq: "(\<lambda>v. if v \<in> set (w # ws) then 4 else got v) = (\<lambda>v. if v \<in> set ws then 4 else (got(w := 4)) v)"
      by auto
    show ?case unfolding eq by (rule converse_rtranclp_into_rtranclp [OF read Cons.IH])
  qed simp
  ultimately have run: "seqlock_step\<^sup>*\<^sup>* (seqlock_init (\<lambda>_. 4))
      (?s (\<lambda>v. if v \<in> set slot_word_order then 4 else 0) [])"
    by (rule converse_rtranclp_into_rtranclp)
  from seqlock_no_torn_read [OF run] have "(\<lambda>v. if v \<in> set slot_word_order then 4 else (0 :: int)) = (\<lambda>_. 4)"
    by (simp add: seqlock_init_def)
  with run have "seqlock_step\<^sup>*\<^sup>* (seqlock_init (\<lambda>_. 4)) (?s (\<lambda>_. 4) [])" by (simp only:)
  then show ?thesis by (intro exI [of _ "?s (\<lambda>_. 4) []"] exI [of _ "\<lambda>_. 4"]) simp
qed

end
