(* ===== verification/Abex_Preflight.thy ===== *)
theory Abex_Preflight
  imports Abex_Risk Abex_Market_Data
begin

text \<open>
  What the gateway decides before and around venue calls without touching its state: the data that
  crosses the adapter port (\<open>include/abex/ports/exchange_adapter.hpp\<close>), and the file-local helpers of
  \<open>src/application/order_gateway.cpp\<close>: funding and instrument-rule checks, stored request outcomes and
  their replay, the request-id hash.
\<close>

unbundle bit_operations_syntax

section \<open>Adapter port data\<close>

record adapter_result =
  ar_accepted :: bool
  ar_outcome_uncertain :: bool
  ar_replacement :: bool
  ar_original_order_canceled :: bool
  ar_exchange_order_id :: string
  ar_exchange_client_order_id :: string
  ar_code :: string
  ar_message :: string
  ar_authoritative_reports :: "execution_report list"

record account_balance =
  ab_currency :: string
  ab_total :: string
  ab_available :: string
  ab_frozen :: string
  ab_order_frozen :: string

record account_balance_snapshot =
  bs_venue :: venue
  bs_account_id :: string
  bs_main_account_id :: string
  bs_observed_at_ms :: int
  bs_balances :: "account_balance list"

record balance_query_result =
  bq_ok :: bool
  bq_code :: string
  bq_message :: string
  bq_snapshot :: account_balance_snapshot

record instrument_rules =
  ir_venue :: venue
  ir_symbol :: string
  ir_status :: string
  ir_trading :: bool
  ir_minimum_price :: "decimal option"
  ir_maximum_price :: "decimal option"
  ir_price_tick :: "decimal option"
  ir_minimum_quantity :: "decimal option"
  ir_maximum_quantity :: "decimal option"
  ir_quantity_step :: "decimal option"
  ir_market_minimum_quantity :: "decimal option"
  ir_market_maximum_quantity :: "decimal option"
  ir_market_quantity_step :: "decimal option"
  ir_minimum_notional :: "decimal option"
  ir_maximum_notional :: "decimal option"
  ir_market_minimum_notional :: "decimal option"
  ir_market_maximum_notional :: "decimal option"
  ir_observed_at_ms :: int

record instrument_rules_query_result =
  iq_ok :: bool
  iq_code :: string
  iq_message :: string
  iq_rules :: instrument_rules

record operation_result =
  op_ok :: bool
  op_idempotent_replay :: bool
  op_code :: string
  op_message :: string
  op_order :: "order option"

definition op_failure :: "string \<Rightarrow> string \<Rightarrow> order option \<Rightarrow> operation_result" where
  "op_failure code message ord =
     \<lparr>op_ok = False, op_idempotent_replay = False, op_code = code, op_message = message, op_order = ord\<rparr>"

definition op_success :: "order \<Rightarrow> bool \<Rightarrow> operation_result" where
  "op_success ord replay =
     \<lparr>op_ok = True, op_idempotent_replay = replay, op_code = [], op_message = [], op_order = Some ord\<rparr>"

section \<open>Funding\<close>

record funding_requirement =
  fr_currency :: string
  fr_amount :: decimal

definition funding_requirement_of ::
    "order_request \<Rightarrow> decimal option \<Rightarrow> funding_requirement option result" where
  "funding_requirement_of request mprice =
     (case split_first (CHR ''-'') (rq_symbol request) of
        None \<Rightarrow> Inr None
      | Some (base, quote) \<Rightarrow>
          if base = [] \<or> quote = [] then Inr None
          else if rq_side request = Sell
            then Inr (Some \<lparr>fr_currency = map to_upper base, fr_amount = rq_quantity request\<rparr>)
          else
            (case (if rq_type request = Market then mprice else rq_price request) of
               None \<Rightarrow> Inr None
             | Some p \<Rightarrow> rbind (decimal_mult (rq_quantity request) p) (\<lambda>amount.
                 Inr (Some \<lparr>fr_currency = map to_upper quote, fr_amount = amount\<rparr>))))"

text \<open>\<open>text.resize(dot + 1 + precision)\<close> when the text is longer than that.\<close>

definition truncate_fraction :: "string \<Rightarrow> string" where
  "truncate_fraction text =
     (case split_first (CHR ''.'') text of
        None \<Rightarrow> text
      | Some (w, f) \<Rightarrow>
          let maximum_size = length w + 1 + precision
          in if length text > maximum_size then take maximum_size text else text)"

definition balance_decimal_floor :: "string \<Rightarrow> decimal result" where
  "balance_decimal_floor text =
     (if CHR ''e'' \<in> set text \<or> CHR ''E'' \<in> set text
      then Inl (Invalid_argument ''scientific notation is not supported for balances'')
      else
        let cut = truncate_fraction text
        in parse (if cut = [] then ''0'' else cut))"

definition funding_decision ::
    "order_request \<Rightarrow> funding_requirement \<Rightarrow> balance_query_result \<Rightarrow> risk_decision" where
  "funding_decision request requirement balances =
     (if \<not> bq_ok balances then
        let detail = (if bq_message balances = [] then bq_code balances else bq_message balances)
        in risk_reject ''BALANCE_UNAVAILABLE''
             (venue_to_string (rq_venue request) @ '' available balance could not be verified'' @
              (if detail = [] then [] else '': '' @ detail))
      else
        let found = find (\<lambda>b. ab_currency b = fr_currency requirement) (bs_balances (bq_snapshot balances))
        in case (case found of None \<Rightarrow> Inr 0 | Some b \<Rightarrow> balance_decimal_floor (ab_available b)) of
             Inl e \<Rightarrow>
               risk_reject ''BALANCE_UNAVAILABLE''
                 (venue_to_string (rq_venue request) @ '' returned an invalid '' @ fr_currency requirement @
                  '' available balance: '' @ what e)
           | Inr available \<Rightarrow>
               if available \<ge> fr_amount requirement then risk_accept
               else
                 let frozen = (case found of None \<Rightarrow> ''0'' | Some b \<Rightarrow> ab_frozen b);
                     account = bs_account_id (bq_snapshot balances)
                 in risk_reject ''INSUFFICIENT_AVAILABLE_BALANCE''
                      (venue_to_string (rq_venue request) @ '' available '' @ fr_currency requirement @
                       '' balance '' @ to_string available @ '' is below required '' @
                       to_string (fr_amount requirement) @ '' '' @ fr_currency requirement @
                       '' (frozen '' @ frozen @ '')'' @
                       (if account \<noteq> [] then '' on account '' @ account else [])))"

section \<open>Instrument rules\<close>

definition violates_step :: "decimal \<Rightarrow> decimal option \<Rightarrow> bool" where
  "violates_step d step =
     (case step of None \<Rightarrow> False | Some s \<Rightarrow> is_positive s \<and> raw d smod raw s \<noteq> 0)"

definition below :: "decimal \<Rightarrow> decimal option \<Rightarrow> bool" where
  "below d minimum = (case minimum of None \<Rightarrow> False | Some x \<Rightarrow> d < x)"

definition above :: "decimal \<Rightarrow> decimal option \<Rightarrow> bool" where
  "above d maximum = (case maximum of None \<Rightarrow> False | Some x \<Rightarrow> d > x)"

definition check_quantity_range ::
    "order_request \<Rightarrow> decimal option \<Rightarrow> decimal option \<Rightarrow> decimal option \<Rightarrow> string \<Rightarrow> risk_decision option" where
  "check_quantity_range request minimum maximum step scope =
     (let qty = rq_quantity request; subject = rq_symbol request @ '' '' @ scope @ '' quantity '' @ to_string qty
      in if below qty minimum then
           Some (risk_reject ''MIN_ORDER_QUANTITY''
             (subject @ '' is below the venue minimum '' @ to_string (the minimum)))
         else if above qty maximum then
           Some (risk_reject ''MAX_VENUE_ORDER_QUANTITY''
             (subject @ '' exceeds the venue maximum '' @ to_string (the maximum)))
         else if violates_step qty step then
           Some (risk_reject ''INVALID_QUANTITY_STEP''
             (subject @ '' must be an exact multiple of '' @ to_string (the step)))
         else None)"

definition check_price_range :: "order_request \<Rightarrow> instrument_rules \<Rightarrow> risk_decision option" where
  "check_price_range request rules =
     (case rq_price request of
        None \<Rightarrow> None
      | Some p \<Rightarrow>
          if rq_type request \<noteq> Limit then None
          else
            let subject = rq_symbol request @ '' price '' @ to_string p
            in if below p (ir_minimum_price rules) then
                 Some (risk_reject ''PRICE_OUT_OF_RANGE''
                   (subject @ '' is below the venue minimum '' @ to_string (the (ir_minimum_price rules))))
               else if above p (ir_maximum_price rules) then
                 Some (risk_reject ''PRICE_OUT_OF_RANGE''
                   (subject @ '' exceeds the venue maximum '' @ to_string (the (ir_maximum_price rules))))
               else if violates_step p (ir_price_tick rules) then
                 Some (risk_reject ''INVALID_PRICE_TICK''
                   (subject @ '' must be an exact multiple of tick size '' @ to_string (the (ir_price_tick rules))))
               else None)"

definition check_notional_range ::
    "order_request \<Rightarrow> decimal option \<Rightarrow> instrument_rules \<Rightarrow> risk_decision result" where
  "check_notional_range request eprice rules =
     (case (if rq_type request = Limit then rq_price request else eprice) of
        None \<Rightarrow> Inr risk_accept
      | Some p \<Rightarrow>
          rbind (decimal_mult (rq_quantity request) p) (\<lambda>notional.
            let minimum = (if rq_type request = Market then ir_market_minimum_notional rules
                           else ir_minimum_notional rules);
                maximum = (if rq_type request = Market then ir_market_maximum_notional rules
                           else ir_maximum_notional rules);
                subject = rq_symbol request @ '' estimated notional '' @ to_string notional
            in if below notional minimum then
                 Inr (risk_reject ''MIN_ORDER_NOTIONAL''
                   (subject @ '' is below the venue minimum '' @ to_string (the minimum)))
               else if above notional maximum then
                 Inr (risk_reject ''MAX_VENUE_ORDER_NOTIONAL''
                   (subject @ '' exceeds the venue maximum '' @ to_string (the maximum)))
               else Inr risk_accept))"

definition instrument_rules_decision ::
    "order_request \<Rightarrow> decimal option \<Rightarrow> instrument_rules_query_result \<Rightarrow> risk_decision result" where
  "instrument_rules_decision request eprice query =
     (if \<not> iq_ok query then
        let detail = (if iq_message query = [] then iq_code query else iq_message query)
        in Inr (risk_reject ''INSTRUMENT_RULES_UNAVAILABLE''
             (venue_to_string (rq_venue request) @ '' trading rules for '' @ rq_symbol request @
              '' could not be verified'' @ (if detail = [] then [] else '': '' @ detail)))
      else
        let rules = iq_rules query
        in if ir_symbol rules \<noteq> rq_symbol request then
             Inr (risk_reject ''INSTRUMENT_RULES_UNAVAILABLE''
               (venue_to_string (rq_venue request) @ '' returned rules for '' @ ir_symbol rules @
                '' while '' @ rq_symbol request @ '' was requested''))
           else if \<not> ir_trading rules then
             Inr (risk_reject ''INSTRUMENT_NOT_TRADING''
               (rq_symbol request @ '' is not tradable on '' @ venue_to_string (rq_venue request) @
                '' (venue status '' @ ir_status rules @ '')''))
           else
             (case check_quantity_range request (ir_minimum_quantity rules) (ir_maximum_quantity rules)
                     (ir_quantity_step rules) ''order'' of
                Some violation \<Rightarrow> Inr violation
              | None \<Rightarrow>
                  (case (if rq_type request = Market
                         then check_quantity_range request (ir_market_minimum_quantity rules)
                                (ir_market_maximum_quantity rules) (ir_market_quantity_step rules) ''market-order''
                         else None) of
                     Some violation \<Rightarrow> Inr violation
                   | None \<Rightarrow>
                       (case check_price_range request rules of
                          Some violation \<Rightarrow> Inr violation
                        | None \<Rightarrow> check_notional_range request eprice rules))))"

section \<open>Stored outcomes and request ids\<close>

definition outcome_separator :: char where "outcome_separator = CHR 0x1F"

definition failed_outcome :: "string \<Rightarrow> string \<Rightarrow> string" where
  "failed_outcome code message = ''ERROR'' @ outcome_separator # code @ outcome_separator # message"

definition pending_outcome :: "string \<Rightarrow> string \<Rightarrow> string" where
  "pending_outcome code message = ''PENDING'' @ outcome_separator # code @ outcome_separator # message"

definition place_rejection_event_id :: "string \<Rightarrow> u64 \<Rightarrow> string" where
  "place_rejection_event_id cid v = ''place-reject-'' @ cid @ ''-'' @ u64_to_string v"

text \<open>The code and message between the first two separators, with the defaults of a branch.\<close>

definition replay_failure :: "order \<Rightarrow> string \<Rightarrow> string \<Rightarrow> string \<Rightarrow> operation_result" where
  "replay_failure ord outcome default_code default_message =
     (case split_first outcome_separator outcome of
        None \<Rightarrow> \<lparr>op_ok = False, op_idempotent_replay = True, op_code = default_code,
                 op_message = default_message, op_order = Some ord\<rparr>
      | Some (_, rest) \<Rightarrow>
          (case split_first outcome_separator rest of
             None \<Rightarrow> \<lparr>op_ok = False, op_idempotent_replay = True, op_code = rest,
                      op_message = default_message, op_order = Some ord\<rparr>
           | Some (code, message) \<Rightarrow> \<lparr>op_ok = False, op_idempotent_replay = True, op_code = code,
                      op_message = message, op_order = Some ord\<rparr>))"

definition replay_operation :: "order \<Rightarrow> string \<Rightarrow> operation_result" where
  "replay_operation ord outcome =
     (if outcome = ''OK'' then op_success ord True
      else if starts_with outcome ''PENDING'' then
        replay_failure ord outcome ''OUTCOME_UNKNOWN'' ''the original operation requires reconciliation''
      else if starts_with outcome ''ERROR'' then
        replay_failure ord outcome ''PREVIOUS_REQUEST_FAILED'' ''the original operation failed''
      else op_success ord True)"

definition fnv_offset :: u64 where "fnv_offset = 14695981039346656037"
definition fnv_prime :: u64 where "fnv_prime = 1099511628211"

fun fnv_from :: "u64 \<Rightarrow> string \<Rightarrow> u64" where
  "fnv_from h [] = h"
| "fnv_from h (c # s) = fnv_from ((h XOR of_char c) * fnv_prime) s"

definition stable_hash :: "string \<Rightarrow> u64" where
  "stable_hash s = fnv_from fnv_offset s"

fun venue_slot :: "venue \<Rightarrow> nat" where
  "venue_slot Okx = 0"
| "venue_slot Binance = 1"

definition gateway_instance_id :: "nat \<Rightarrow> int \<Rightarrow> string" where
  "gateway_instance_id pid started_at_ms =
     ''gateway-'' @ nat_to_string pid @ ''-'' @ int_to_string started_at_ms"

section \<open>Lemmas\<close>

lemma check_quantity_range_None_iff:
  "check_quantity_range request mn mx st sc = None \<longleftrightarrow>
     \<not> below (rq_quantity request) mn \<and> \<not> above (rq_quantity request) mx \<and>
     \<not> violates_step (rq_quantity request) st"
  by (simp add: check_quantity_range_def Let_def)

lemma check_quantity_range_Some: "check_quantity_range request mn mx st sc = Some d \<Longrightarrow> \<not> rd_accepted d"
  by (auto simp: check_quantity_range_def Let_def split: if_splits)

lemma check_price_range_None_iff:
  "check_price_range request rules = None \<longleftrightarrow>
     (case rq_price request of None \<Rightarrow> True
      | Some p \<Rightarrow> rq_type request \<noteq> Limit \<or> \<not> below p (ir_minimum_price rules) \<and>
          \<not> above p (ir_maximum_price rules) \<and> \<not> violates_step p (ir_price_tick rules))"
  by (simp add: check_price_range_def Let_def split: option.splits)

lemma check_price_range_Some: "check_price_range request rules = Some d \<Longrightarrow> \<not> rd_accepted d"
  by (auto simp: check_price_range_def Let_def split: if_splits option.splits)

lemma violates_step_iff:
  "violates_step d st \<longleftrightarrow> (case st of None \<Rightarrow> False | Some s \<Rightarrow> 0 < raw s \<and> \<not> raw s dvd raw d)"
  by (auto simp: violates_step_def is_positive_def smod_int_alt_def sgn_eq_0_iff
      simp flip: dvd_eq_mod_eq_0 split: option.splits)

lemma check_notional_accept_iff:
  "check_notional_range request ep rules = Inr risk_accept \<longleftrightarrow>
     (case (if rq_type request = Limit then rq_price request else ep) of
        None \<Rightarrow> True
      | Some p \<Rightarrow> \<exists>notional. decimal_mult (rq_quantity request) p = Inr notional \<and>
          \<not> below notional (if rq_type request = Market then ir_market_minimum_notional rules
                             else ir_minimum_notional rules) \<and>
          \<not> above notional (if rq_type request = Market then ir_market_maximum_notional rules
                             else ir_maximum_notional rules))"
  by (auto simp: check_notional_range_def Let_def rbind_eq_Inr_iff split: option.split)

lemma decided_instrument_rules: "decided (instrument_rules_decision request ep query)"
  unfolding instrument_rules_decision_def Let_def check_notional_range_def
  by (auto simp: decided_def decided_rbind [unfolded decided_def] rbind_def
      dest: check_quantity_range_Some check_price_range_Some split: option.split sum.split)

lemma instrument_rules_accept_iff:
  "instrument_rules_decision request ep query = Inr risk_accept \<longleftrightarrow>
     iq_ok query \<and> ir_symbol (iq_rules query) = rq_symbol request \<and> ir_trading (iq_rules query) \<and>
     check_quantity_range request (ir_minimum_quantity (iq_rules query))
       (ir_maximum_quantity (iq_rules query)) (ir_quantity_step (iq_rules query)) ''order'' = None \<and>
     (if rq_type request = Market
      then check_quantity_range request (ir_market_minimum_quantity (iq_rules query))
             (ir_market_maximum_quantity (iq_rules query)) (ir_market_quantity_step (iq_rules query)) ''market-order'' = None
      else True) \<and>
     check_price_range request (iq_rules query) = None \<and>
     check_notional_range request ep (iq_rules query) = Inr risk_accept"
  unfolding instrument_rules_decision_def Let_def
  by (auto dest: check_quantity_range_Some check_price_range_Some split: option.split)

lemma replay_failure_separated:
  assumes "outcome_separator \<notin> set tag" and "outcome_separator \<notin> set code"
  shows "replay_failure ord (tag @ outcome_separator # code @ outcome_separator # message) dc dm =
    \<lparr>op_ok = False, op_idempotent_replay = True, op_code = code, op_message = message, op_order = Some ord\<rparr>"
  using assms by (simp add: replay_failure_def split_first_append)

lemma truncate_fraction_digits:
  assumes "CHR ''.'' \<notin> set w"
  shows "truncate_fraction (w @ CHR ''.'' # f) = w @ CHR ''.'' # take 8 f"
  using assms by (simp add: truncate_fraction_def split_first_append precision_def)

lemma truncated_value_bounds:
  fixes w :: nat
  assumes "\<forall>c \<in> set f. is_digit c"
  defines "v \<equiv> w * 10 ^ 8 + digits_value (take 8 f) * 10 ^ (8 - length (take 8 f))"
  shows "v * 10 ^ length f \<le> (w * 10 ^ length f + digits_value f) * 10 ^ 8"
    and "(w * 10 ^ length f + digits_value f) * 10 ^ 8 < (v + 1) * 10 ^ length f"
proof -
  let ?t = "digits_value (take 8 f)" and ?d = "digits_value (drop 8 f)"
  have f: "digits_value f = ?t * 10 ^ length (drop 8 f) + ?d"
    using digits_value_append [of "take 8 f" "drop 8 f"] by simp
  have d: "?d < 10 ^ length (drop 8 f)"
    using assms(1) by (intro digits_value_less) (auto dest: in_set_dropD)
  show "v * 10 ^ length f \<le> (w * 10 ^ length f + digits_value f) * 10 ^ 8"
    and "(w * 10 ^ length f + digits_value f) * 10 ^ 8 < (v + 1) * 10 ^ length f"
  proof (atomize (full), cases "length f \<le> 8")
    case True
    then have "10 ^ (8 - length f) * 10 ^ length f = (10 :: nat) ^ 8"
      by (simp flip: power_add)
    then have "v * 10 ^ length f = (w * 10 ^ length f + digits_value f) * 10 ^ 8"
      using True by (simp add: v_def algebra_simps)
    then show "v * 10 ^ length f \<le> (w * 10 ^ length f + digits_value f) * 10 ^ 8 \<and>
        (w * 10 ^ length f + digits_value f) * 10 ^ 8 < (v + 1) * 10 ^ length f"
      by simp
  next
    case False
    then obtain k where k: "length f = 8 + k" by (metis le_add_diff_inverse nat_le_linear)
    then have "v * 10 ^ length f + ?d * 10 ^ 8 = (w * 10 ^ length f + digits_value f) * 10 ^ 8"
      using f by (simp add: v_def algebra_simps power_add)
    moreover have "?d * 10 ^ 8 < 10 ^ length f" using d k by (simp add: power_add)
    ultimately show "v * 10 ^ length f \<le> (w * 10 ^ length f + digits_value f) * 10 ^ 8 \<and>
        (w * 10 ^ length f + digits_value f) * 10 ^ 8 < (v + 1) * 10 ^ length f"
      by (simp add: algebra_simps)
  qed
qed

section \<open>Properties\<close>

text \<open>The venue's instrument rules are enforced completely: the check accepts exactly when the rules
  are available for the requested symbol, the symbol trades, the quantity (for market orders also against
  the market limits) and the limit price are within range and exact multiples of their positive steps, and
  the estimated notional, where a price is known, is computable and within its range.\<close>

theorem instrument_rules_enforced:
  "instrument_rules_decision request ep query = Inr risk_accept \<longleftrightarrow>
     (let rules = iq_rules query; qty = rq_quantity request;
          step_ok = (\<lambda>d st. case st of None \<Rightarrow> True | Some s \<Rightarrow> raw s \<le> 0 \<or> raw s dvd raw d);
          market = (rq_type request = Market)
      in iq_ok query \<and> ir_symbol rules = rq_symbol request \<and> ir_trading rules \<and>
         \<not> below qty (ir_minimum_quantity rules) \<and> \<not> above qty (ir_maximum_quantity rules) \<and>
         step_ok qty (ir_quantity_step rules) \<and>
         (if market then \<not> below qty (ir_market_minimum_quantity rules) \<and>
            \<not> above qty (ir_market_maximum_quantity rules) \<and> step_ok qty (ir_market_quantity_step rules)
          else True) \<and>
         (case rq_price request of None \<Rightarrow> True
          | Some p \<Rightarrow> if market then True
              else \<not> below p (ir_minimum_price rules) \<and> \<not> above p (ir_maximum_price rules) \<and>
                step_ok p (ir_price_tick rules)) \<and>
         (case (if market then ep else rq_price request) of None \<Rightarrow> True
          | Some p \<Rightarrow> \<exists>notional. decimal_mult qty p = Inr notional \<and>
              \<not> below notional (if market then ir_market_minimum_notional rules else ir_minimum_notional rules) \<and>
              \<not> above notional (if market then ir_market_maximum_notional rules else ir_maximum_notional rules)))"
  unfolding instrument_rules_accept_iff check_quantity_range_None_iff check_price_range_None_iff
    check_notional_accept_iff violates_step_iff Let_def
  by (cases "rq_type request"; cases "rq_price request"; cases ep) (auto split: option.splits)

text \<open>Balances are never overstated: a plain decimal balance text, with however many fraction digits,
  is read as the largest eight-digit decimal not above it.\<close>

theorem balance_floor_sound:
  assumes "\<forall>c \<in> set w. is_digit c" and "w \<noteq> []" and "\<forall>c \<in> set f. is_digit c" and "f \<noteq> []"
    and "digits_value w < 92233720368"
  shows "\<exists>d. balance_decimal_floor (w @ CHR ''.'' # f) = Inr d \<and> wf_decimal d \<and> 0 \<le> raw d \<and>
    raw d * 10 ^ length f \<le> int (digits_value w * 10 ^ length f + digits_value f) * scale \<and>
    int (digits_value w * 10 ^ length f + digits_value f) * scale < (raw d + 1) * 10 ^ length f"
proof -
  let ?v = "digits_value w * 10 ^ 8 + digits_value (take 8 f) * 10 ^ (8 - length (take 8 f))"
  have dot: "CHR ''.'' \<notin> set w" using assms(1) by auto
  have no_e: "CHR ''e'' \<notin> set (w @ CHR ''.'' # f)" "CHR ''E'' \<notin> set (w @ CHR ''.'' # f)"
    using assms(1,3) by (auto simp: is_digit_def)
  have tk: "\<forall>c \<in> set (take 8 f). is_digit c" using assms(3) by (auto dest: in_set_takeD)
  have "digits_value (take 8 f) < 10 ^ length (take 8 f)" using tk by (rule digits_value_less)
  then have "digits_value (take 8 f) * 10 ^ (8 - length (take 8 f)) < 10 ^ length (take 8 f) * 10 ^ (8 - length (take 8 f))"
    by simp
  also have "\<dots> = 10 ^ 8" by (simp flip: power_add)
  finally have small: "?v < (digits_value w + 1) * 10 ^ 8" by simp
  note small
  also have "(digits_value w + 1) * 10 ^ 8 \<le> 92233720368 * 10 ^ 8"
    using assms(5) by (intro mult_right_mono) simp_all
  also have "92233720368 * 10 ^ 8 = (9223372036800000000 :: nat)" by simp
  finally have fit: "in_int64 (int ?v)" unfolding in_int64_iff by linarith
  have fw: "in_int64 (int (digits_value w))" using assms(5) unfolding in_int64_iff by linarith
  have "parse ([] @ w @ (if take 8 f = [] then [] else CHR ''.'' # take 8 f)) =
      Inr (Decimal (if False then - int ?v else int ?v))"
    using assms(2) fw fit tk by (intro parse_of_digits) (simp_all add: assms(1) scale_def)
  then have "balance_decimal_floor (w @ CHR ''.'' # f) = Inr (Decimal (int ?v))"
    using no_e assms(4) truncate_fraction_digits [OF dot, of f]
    by (simp add: balance_decimal_floor_def Let_def)
  moreover have "int (?v * 10 ^ length f) \<le> int ((digits_value w * 10 ^ length f + digits_value f) * 10 ^ 8)"
    and "int ((digits_value w * 10 ^ length f + digits_value f) * 10 ^ 8) < int ((?v + 1) * 10 ^ length f)"
    using truncated_value_bounds [OF assms(3), of "digits_value w"] by (simp_all only: of_nat_le_iff of_nat_less_iff)
  then have "int ?v * 10 ^ length f \<le> int (digits_value w * 10 ^ length f + digits_value f) * scale"
    and "int (digits_value w * 10 ^ length f + digits_value f) * scale < (int ?v + 1) * 10 ^ length f"
    by (simp_all add: scale_def algebra_simps)
  ultimately show ?thesis
    using fit by (intro exI [of _ "Decimal (int ?v)"]) (simp add: wf_decimal_def)
qed

theorem balance_floor_sound_witness:
  "\<exists>d. balance_decimal_floor ''12.1234567899'' = Inr d \<and> raw d * 10 ^ 10 \<le> 121234567899 * scale"
proof -
  have "\<forall>c \<in> set ''12''. is_digit c" "\<forall>c \<in> set ''1234567899''. is_digit c"
    by (simp_all add: is_digit_def)
  then show ?thesis
    using balance_floor_sound [of "''12''" "''1234567899''"]
    by (auto simp: digits_value_def digit_value_def)
qed

lemma replay_outcomes:
  assumes "outcome_separator \<notin> set code"
  shows "replay_operation ord (failed_outcome code message) =
      \<lparr>op_ok = False, op_idempotent_replay = True, op_code = code, op_message = message, op_order = Some ord\<rparr> \<and>
    replay_operation ord (pending_outcome code message) =
      \<lparr>op_ok = False, op_idempotent_replay = True, op_code = code, op_message = message, op_order = Some ord\<rparr> \<and>
    replay_operation ord ''OK'' = op_success ord True \<and>
    \<not> op_ok (replay_operation ord ''PENDING'')"
proof -
  have "outcome_separator \<notin> set ''ERROR''" "outcome_separator \<notin> set ''PENDING''"
    by (simp_all add: outcome_separator_def)
  note sep = this [THEN replay_failure_separated, OF assms]
  show ?thesis
    unfolding replay_operation_def failed_outcome_def pending_outcome_def
    using sep(1,2) by (simp add: replay_failure_def split_first_def outcome_separator_def)
qed

text \<open>Replaying a finished request reproduces its stored outcome: the code and message of a failed or
  pending operation come back unchanged from the stored text as long as the code does not contain the
  separator, and a success comes back as a success; nothing is ever turned into the other.\<close>

theorem replay_reproduces_outcome:
  assumes "outcome_separator \<notin> set code"
  shows "replay_operation ord (failed_outcome code message) =
      \<lparr>op_ok = False, op_idempotent_replay = True, op_code = code, op_message = message, op_order = Some ord\<rparr> \<and>
    replay_operation ord (pending_outcome code message) =
      \<lparr>op_ok = False, op_idempotent_replay = True, op_code = code, op_message = message, op_order = Some ord\<rparr> \<and>
    replay_operation ord ''OK'' = op_success ord True \<and>
    \<not> op_ok (replay_operation ord ''PENDING'')"
  by (rule replay_outcomes [OF assms])

theorem replay_reproduces_outcome_witness:
  "replay_operation sample_order (failed_outcome ''VENUE_BUSY'' ''try again'') =
     \<lparr>op_ok = False, op_idempotent_replay = True, op_code = ''VENUE_BUSY'', op_message = ''try again'',
      op_order = Some sample_order\<rparr>"
proof -
  have "outcome_separator \<notin> set ''VENUE_BUSY''" by (simp add: outcome_separator_def)
  from replay_reproduces_outcome [OF this] show ?thesis by blast
qed

end
