(* ===== verification/Abex_Gateway.thy ===== *)
theory Abex_Gateway
  imports Abex_Preflight
begin

text \<open>
  The order gateway (\<open>include/abex/application/order_gateway.hpp\<close>,
  \<open>src/application/order_gateway.cpp\<close>).

  All mutable order state sits under one mutex. Each critical section of the code is one function
  here, from taking the lock to releasing it; what a command does between two critical sections
  (journal write, venue call, notification, event) is recorded in the trace \<open>gw_trace\<close>. A command is
  the composition of its sections, as in the code; \<open>Abex_Gateway_Runs\<close> interleaves the sections of
  concurrent commands.

  \<^item> \<open>orders_\<close> is an association list with the client order id as key (the iteration order of the
    hash map is that of the list); \<open>conservative_positions_\<close> is a list of \<open>kSymbolCount\<close> decimals.
  \<^item> A section that can throw returns the state it leaves behind together with the exception.
  \<^item> The store's sequence counter is \<open>gw_next_sequence\<close>; a journal write appears in the trace with the
    snapshot it writes. Whether a write fails is an input.
  \<^item> The adapter, the clock and the caches are inputs: a venue call shows in the trace with the order
    it is made for, and its result is an argument of the section that follows.
  \<^item> Events are recorded as they are submitted; the event writer thread and the observer queue only
    consume them.
\<close>

section \<open>State\<close>

record venue_health =
  vh_connected :: bool
  vh_ever_connected :: bool
  vh_reconciliation_required :: bool
  vh_sequence_gaps :: u64
  vh_dropped_events :: u64

datatype effect =
    Journaled order bool u64
  | VenuePlace order
  | VenueCancel order
  | VenueAmend order "decimal option" "decimal option"
  | Notified order
  | Recorded operational_severity string string string "venue option" string string
      "order_event_context option"

record gateway =
  gw_orders :: "(string \<times> order) list"
  gw_exchange_id_index :: "string \<rightharpoonup> string"
  gw_exchange_client_id_index :: "string \<rightharpoonup> string"
  gw_positions :: "decimal list"
  gw_positions_dirty :: bool
  gw_positions_snap :: "decimal list"
  gw_health_errors :: "venue \<Rightarrow> string"
  gw_deferred_amend_reports :: "string \<rightharpoonup> execution_report list"
  gw_active_operations :: "string set"
  gw_sequence_trackers :: "venue \<Rightarrow> sequence_tracker"
  gw_health :: "venue \<Rightarrow> venue_health"
  gw_reconciliation_pending :: "venue set"
  gw_started :: bool
  gw_next_sequence :: u64
  gw_trace :: "effect list"

text \<open>What does not change after construction: the risk limits, whether a quote book is attached,
  the JSON printer of the legacy fingerprints, the reconnect option.\<close>

record gateway_config =
  cf_limits :: risk_limits
  cf_has_market_data :: bool
  cf_dump :: json_dump
  cf_reconcile_on_reconnect :: bool

record persist_ticket =
  pt_order :: order
  pt_intent_only :: bool
  pt_sequence :: u64

section \<open>Helpers under the lock\<close>

definition order_at :: "gateway \<Rightarrow> string \<Rightarrow> order option" where
  "order_at g cid = map_of (gw_orders g) cid"

definition put_order :: "string \<Rightarrow> order \<Rightarrow> gateway \<Rightarrow> gateway" where
  "put_order cid ord g = g\<lparr>gw_orders := AList.update cid ord (gw_orders g)\<rparr>"

definition emit :: "effect \<Rightarrow> gateway \<Rightarrow> gateway" where
  "emit e g = g\<lparr>gw_trace := gw_trace g @ [e]\<rparr>"

definition record_event ::
    "operational_severity \<Rightarrow> string \<Rightarrow> string \<Rightarrow> string \<Rightarrow> venue option \<Rightarrow> string \<Rightarrow> string \<Rightarrow>
     order_event_context option \<Rightarrow> gateway \<Rightarrow> gateway" where
  "record_event sev cat code msg v cid rid ctx g = emit (Recorded sev cat code msg v cid rid ctx) g"

definition order_event_context_of :: "order \<Rightarrow> u64 option \<Rightarrow> int \<Rightarrow> order_event_context" where
  "order_event_context_of ord venue_sequence exchange_time_ms =
     \<lparr>ctx_exchange_order_id = exchange_order_id ord, ctx_symbol = symbol ord, ctx_side = side ord,
      ctx_type = type ord, ctx_price = price ord, ctx_average_fill_price = average_fill_price ord,
      ctx_quantity = quantity ord, ctx_filled_quantity = filled_quantity ord, ctx_status = status ord,
      ctx_pending_action = pending_action ord, ctx_rejection_reason = rejection_reason ord,
      ctx_version = version ord, ctx_venue_sequence = venue_sequence,
      ctx_exchange_time_ms = exchange_time_ms\<rparr>"

abbreviation context_of :: "order \<Rightarrow> order_event_context option" where
  "context_of ord \<equiv> Some (order_event_context_of ord None 0)"

definition position_contribution :: "order \<Rightarrow> decimal result" where
  "position_contribution ord =
     (let x = (if is_terminal (status ord) then filled_quantity ord else quantity ord)
      in if side ord = Buy then Inr x else decimal_neg x)"

definition conservative_position_locked :: "gateway \<Rightarrow> string \<Rightarrow> string \<Rightarrow> decimal result" where
  "conservative_position_locked g smb excluded =
     (let sid = symbol_id_rt smb;
          held = (if sid \<noteq> UnknownSymbol then gw_positions g ! to_slot sid else 0)
      in if excluded \<noteq> [] then
           (case order_at g excluded of
              Some ord \<Rightarrow>
                if symbol ord = smb
                then rbind (position_contribution ord) (\<lambda>c. decimal_sub held c)
                else Inr held
            | None \<Rightarrow> Inr held)
         else Inr held)"

definition adjust_position_locked :: "string \<Rightarrow> decimal \<Rightarrow> decimal \<Rightarrow> gateway \<Rightarrow> gateway result" where
  "adjust_position_locked smb previous current g =
     (let sid = symbol_id_rt smb
      in if sid \<noteq> UnknownSymbol then
           rbind (decimal_sub current previous) (\<lambda>delta.
           rbind (decimal_add (gw_positions g ! to_slot sid) delta) (\<lambda>p.
             Inr (g\<lparr>gw_positions := (gw_positions g)[to_slot sid := p], gw_positions_dirty := True\<rparr>)))
         else Inr (g\<lparr>gw_positions_dirty := True\<rparr>))"

definition publish_positions_if_dirty_locked :: "gateway \<Rightarrow> gateway" where
  "publish_positions_if_dirty_locked g =
     (if gw_positions_dirty g
      then g\<lparr>gw_positions_dirty := False, gw_positions_snap := gw_positions g\<rparr> else g)"

definition publish_health_error_locked :: "venue \<Rightarrow> string \<Rightarrow> gateway \<Rightarrow> gateway" where
  "publish_health_error_locked v err g = g\<lparr>gw_health_errors := (gw_health_errors g)(v := err)\<rparr>"

definition update_health :: "venue \<Rightarrow> (venue_health \<Rightarrow> venue_health) \<Rightarrow> gateway \<Rightarrow> gateway" where
  "update_health v f g = g\<lparr>gw_health := (gw_health g)(v := f (gw_health g v))\<rparr>"

abbreviation require_reconciliation :: "venue \<Rightarrow> gateway \<Rightarrow> gateway" where
  "require_reconciliation v \<equiv> update_health v (\<lambda>h. h\<lparr>vh_reconciliation_required := True\<rparr>)"

definition prepare_persist :: "order \<Rightarrow> bool \<Rightarrow> gateway \<Rightarrow> persist_ticket \<times> gateway" where
  "prepare_persist ord intent_only g =
     (\<lparr>pt_order = ord, pt_intent_only = intent_only, pt_sequence = gw_next_sequence g\<rparr>,
      g\<lparr>gw_next_sequence := gw_next_sequence g + 1\<rparr>)"

text \<open>\<open>commit_persist\<close>: the store may throw, in which case nothing is written.\<close>

definition commit_persist :: "exn option \<Rightarrow> persist_ticket \<Rightarrow> gateway \<Rightarrow> gateway \<times> unit result" where
  "commit_persist store_error t g =
     (case store_error of
        Some e \<Rightarrow> (g, Inl e)
      | None \<Rightarrow> (emit (Journaled (pt_order t) (pt_intent_only t) (pt_sequence t)) g, Inr ()))"

definition index_exchange_id :: "string \<Rightarrow> string \<Rightarrow> gateway \<Rightarrow> gateway" where
  "index_exchange_id eid cid g =
     g\<lparr>gw_exchange_id_index := (gw_exchange_id_index g)(eid \<mapsto> cid)\<rparr>"

definition index_exchange_client_id :: "string \<Rightarrow> string \<Rightarrow> gateway \<Rightarrow> gateway" where
  "index_exchange_client_id alias cid g =
     g\<lparr>gw_exchange_client_id_index := (gw_exchange_client_id_index g)(alias \<mapsto> cid)\<rparr>"

text \<open>\<open>locate_order_locked\<close>: the key of the order a report is about. \<open>orders_.at\<close> throws on an index
  entry without order.\<close>

definition owned_by_venue :: "venue \<Rightarrow> gateway \<Rightarrow> string \<Rightarrow> string option result" where
  "owned_by_venue v g key =
     (case order_at g key of
        None \<Rightarrow> Inl (Out_of_range ''unordered_map::at'')
      | Some ord \<Rightarrow> Inr (if venue ord = v then Some key else None))"

definition locate_direct :: "venue \<Rightarrow> execution_report \<Rightarrow> gateway \<Rightarrow> string option" where
  "locate_direct v rep g =
     (if rp_client_order_id rep = [] then None
      else (case order_at g (rp_client_order_id rep) of
              Some ord \<Rightarrow> if venue ord = v then Some (rp_client_order_id rep) else None
            | None \<Rightarrow> None))"

definition locate_by_alias :: "venue \<Rightarrow> execution_report \<Rightarrow> gateway \<Rightarrow> string option result" where
  "locate_by_alias v rep g =
     (if rp_client_order_id rep = [] then Inr None
      else (case gw_exchange_client_id_index g (rp_client_order_id rep) of
              Some key \<Rightarrow> owned_by_venue v g key
            | None \<Rightarrow> Inr None))"

definition locate_by_exchange_id :: "venue \<Rightarrow> execution_report \<Rightarrow> gateway \<Rightarrow> string option result" where
  "locate_by_exchange_id v rep g =
     (if rp_exchange_order_id rep = [] then Inr None
      else (case gw_exchange_id_index g (rp_exchange_order_id rep) of
              Some key \<Rightarrow> owned_by_venue v g key
            | None \<Rightarrow> Inr None))"

definition locate_order_locked :: "venue \<Rightarrow> execution_report \<Rightarrow> gateway \<Rightarrow> string option result" where
  "locate_order_locked v rep g =
     (case locate_direct v rep g of
        Some key \<Rightarrow> Inr (Some key)
      | None \<Rightarrow>
          rbind (locate_by_alias v rep g) (\<lambda>found.
            case found of
              Some key \<Rightarrow> Inr (Some key)
            | None \<Rightarrow> locate_by_exchange_id v rep g))"

section \<open>Execution reports\<close>

definition observe_sequence :: "venue \<Rightarrow> execution_report \<Rightarrow> gateway \<Rightarrow> gateway" where
  "observe_sequence v rep g =
     (case rp_sequence rep of
        None \<Rightarrow> g
      | Some s \<Rightarrow>
          (case observe (gw_sequence_trackers g v) s of (t, seen) \<Rightarrow>
             let g1 = g\<lparr>gw_sequence_trackers := (gw_sequence_trackers g)(v := t)\<rparr>
             in if sq_observation seen = SeqGap then
                  let gap_error = ''execution sequence gap: expected '' @
                        u64_to_string (the (sq_expected seen)) @ '', received '' @ u64_to_string (sq_received seen)
                  in record_event Critical ''SEQUENCING'' ''EXECUTION_SEQUENCE_GAP'' gap_error (Some v)
                       (rp_client_order_id rep) [] None
                     (publish_health_error_locked v gap_error
                     (update_health v (\<lambda>h. h\<lparr>vh_sequence_gaps := vh_sequence_gaps h + 1,
                        vh_reconciliation_required := True\<rparr>) g1))
                else g1))"

definition unexpected_generation :: "order \<Rightarrow> execution_report \<Rightarrow> bool" where
  "unexpected_generation ord rep \<longleftrightarrow>
     rp_exchange_order_id rep \<noteq> [] \<and> exchange_order_id ord \<noteq> [] \<and>
     rp_exchange_order_id rep \<noteq> exchange_order_id ord \<and>
     rp_exchange_order_id rep \<notin> exchange_order_id_aliases ord"

definition canceling_generation :: "order \<Rightarrow> execution_report \<Rightarrow> bool" where
  "canceling_generation ord rep \<longleftrightarrow>
     rp_status rep = Canceled \<and> rp_exchange_order_id rep = exchange_order_id ord"

definition defer_report :: "venue \<Rightarrow> string \<Rightarrow> execution_report \<Rightarrow> gateway \<Rightarrow> gateway" where
  "defer_report v cid rep g =
     record_event Info ''PIPELINE'' ''AMEND_REPORT_DEFERRED''
       ''Binance cancel-replace report was held until the compound response established the active generation''
       (Some v) cid [] None
     (g\<lparr>gw_deferred_amend_reports := (gw_deferred_amend_reports g)(cid \<mapsto>
          (case gw_deferred_amend_reports g cid of None \<Rightarrow> [] | Some rs \<Rightarrow> rs) @ [rep])\<rparr>)"

definition execution_event_code :: "apply_result \<Rightarrow> pending_action \<Rightarrow> order \<Rightarrow> string" where
  "execution_event_code r previous_pending ord =
     (if disposition r = Stale then ''STALE_EXECUTION_MERGED''
      else if status ord = Filled then ''ORDER_FILLED''
      else if status ord = Canceled then ''ORDER_CANCELED''
      else if status ord = Rejected then ''VENUE_ORDER_REJECTED''
      else if previous_pending = AmendAction \<and> pending_action ord = NoAction then ''AMEND_CONFIRMED''
      else if status ord = PartiallyFilled then ''ORDER_PARTIALLY_FILLED''
      else if status ord = Live then ''NEW_ORDER_CONFIRMED''
      else ''ORDER_EXECUTION_UPDATED'')"

definition execution_event_message :: "execution_report \<Rightarrow> order \<Rightarrow> string" where
  "execution_event_message rep ord =
     (if rp_reason rep = []
      then ''Venue execution update: '' @ order_status_to_string (status ord) @ '', filled '' @
           to_string (filled_quantity ord) @ ''/'' @ to_string (quantity ord)
      else rp_reason rep)"

record execution_notice =
  en_ticket :: persist_ticket
  en_severity :: operational_severity
  en_code :: string
  en_message :: string
  en_key :: string

text \<open>After the state machine has accepted a report: indexes, aliases, position, persistence.\<close>

definition settle_execution ::
    "venue \<Rightarrow> string \<Rightarrow> execution_report \<Rightarrow> pending_action \<Rightarrow> decimal \<Rightarrow> apply_result \<Rightarrow> order \<Rightarrow>
     gateway \<Rightarrow> gateway \<times> execution_notice option result" where
  "settle_execution v key rep previous_pending previous_position r ord g0 =
     (let g1 = (if exchange_order_id ord \<noteq> [] then index_exchange_id (exchange_order_id ord) (client_order_id ord) g0
                else g0);
          foreign = (rp_client_order_id rep \<noteq> [] \<and> rp_client_order_id rep \<noteq> client_order_id ord);
          ord2 = (if foreign then ord\<lparr>exchange_client_id_aliases :=
                     insert (rp_client_order_id rep) (exchange_client_id_aliases ord)\<rparr> else ord);
          g2 = (if foreign then index_exchange_client_id (rp_client_order_id rep) (client_order_id ord)
                                  (put_order key ord2 g1) else g1)
      in case rbind (position_contribution ord2) (\<lambda>c.
                adjust_position_locked (symbol ord2) previous_position c g2) of
           Inl e \<Rightarrow> (g2, Inl e)
         | Inr g3 \<Rightarrow>
             if disposition r \<noteq> Duplicate \<and> (state_changed r \<or> rp_event_id rep \<noteq> []) then
               (case prepare_persist ord2 False (publish_positions_if_dirty_locked g3) of (t, g4) \<Rightarrow>
                  (g4, Inr (Some \<lparr>en_ticket = t,
                    en_severity = (if status ord2 = Rejected then Warning else Info),
                    en_code = execution_event_code r previous_pending ord2,
                    en_message = execution_event_message rep ord2, en_key = key\<rparr>)))
             else (g3, Inr None))"

definition apply_execution_locked ::
    "int \<Rightarrow> venue \<Rightarrow> execution_report \<Rightarrow> gateway \<Rightarrow> gateway \<times> execution_notice option result" where
  "apply_execution_locked now v rep g =
     (case locate_order_locked v rep g of
        Inl e \<Rightarrow> (g, Inl e)
      | Inr None \<Rightarrow> (g, Inr None)
      | Inr (Some key) \<Rightarrow>
          let ord = the (order_at g key); g1 = observe_sequence v rep g
          in if v = Binance \<and> pending_action ord = AmendAction \<and>
                (unexpected_generation ord rep \<or> canceling_generation ord rep)
             then (defer_report v (client_order_id ord) rep g1, Inr None)
             else
               (case position_contribution ord of
                  Inl e \<Rightarrow> (g1, Inl e)
                | Inr previous_position \<Rightarrow>
                    (case apply_report now ord rep of
                       (ord1, Inl e) \<Rightarrow> (put_order key ord1 g1, Inl e)
                     | (ord1, Inr r) \<Rightarrow>
                         let g2 = put_order key ord1 g1
                         in if disposition r = Invalid then
                              (record_event Critical ''ORDER'' ''INVALID_EXECUTION_TRANSITION'' (reason r)
                                 (Some v) (client_order_id ord1) [] None
                               (publish_health_error_locked v (reason r) (require_reconciliation v g2)),
                               Inr None)
                            else settle_execution v key rep (pending_action ord) previous_position r ord1 g2)))"

text \<open>What follows the critical section: journal, observers, event. The order read for the event is the
  shared object, hence its current value.\<close>

definition finish_execution ::
    "venue \<Rightarrow> execution_report \<Rightarrow> exn option \<Rightarrow> execution_notice \<Rightarrow> gateway \<Rightarrow> gateway \<times> unit result" where
  "finish_execution v rep store_error n g =
     (case commit_persist store_error (en_ticket n) g of
        (g1, Inl e) \<Rightarrow> (g1, Inl e)
      | (g1, Inr _) \<Rightarrow>
          let ord = the (order_at g1 (en_key n))
          in (record_event (en_severity n) ''PIPELINE'' (en_code n) (en_message n) (Some v)
                (client_order_id ord) []
                (Some (order_event_context_of ord (rp_sequence rep) (rp_event_time_ms rep)))
              (emit (Notified ord) g1), Inr ()))"

definition apply_execution ::
    "int \<Rightarrow> exn option \<Rightarrow> venue \<Rightarrow> execution_report \<Rightarrow> gateway \<Rightarrow> gateway \<times> unit result" where
  "apply_execution now store_error v rep g =
     (case apply_execution_locked now v rep g of
        (g1, Inl e) \<Rightarrow> (g1, Inl e)
      | (g1, Inr None) \<Rightarrow> (g1, Inr ())
      | (g1, Inr (Some n)) \<Rightarrow> finish_execution v rep store_error n g1)"

fun apply_executions ::
    "int \<Rightarrow> exn option \<Rightarrow> venue \<Rightarrow> execution_report list \<Rightarrow> gateway \<Rightarrow> gateway \<times> unit result" where
  "apply_executions now store_error v [] g = (g, Inr ())"
| "apply_executions now store_error v (rep # reps) g =
     (case apply_execution now store_error v rep g of
        (g1, Inl e) \<Rightarrow> (g1, Inl e)
      | (g1, Inr _) \<Rightarrow> apply_executions now store_error v reps g1)"

end
