(* ===== verification/Abex_Gateway_Commands.thy ===== *)
theory Abex_Gateway_Commands
  imports Abex_Gateway
begin

text \<open>
  The commands of the gateway: \<open>place\<close>, \<open>cancel\<close> and \<open>amend\<close>, each as its critical sections
  (\<open>..._begin\<close>, \<open>..._finish\<close>) and as the composition of them, with everything the command learns
  from outside (quotes, rules, balances, clock, store, venue) as arguments.
\<close>

section \<open>Place\<close>

definition replay_if_present ::
    "gateway_config \<Rightarrow> order_request \<Rightarrow> gateway \<Rightarrow> (gateway \<times> operation_result) option" where
  "replay_if_present cf request g =
     (case order_at g (rq_client_order_id request) of
        None \<Rightarrow> None
      | Some ord \<Rightarrow>
          let event = (\<lambda>sev code msg. record_event sev ''RETRY'' code msg (Some (rq_venue request))
                         (rq_client_order_id request) [] (context_of ord) g)
          in if create_fingerprint ord = fingerprint request \<or>
                fingerprint_matches (cf_dump cf) (create_fingerprint ord) request
             then
               if status ord = Rejected then
                 Some (event Info ''IDEMPOTENT_REPLAY'' ''Repeated create returned the persisted rejection'',
                       \<lparr>op_ok = False, op_idempotent_replay = True, op_code = ''ORDER_REJECTED'',
                        op_message = rejection_reason ord, op_order = Some ord\<rparr>)
               else if status ord = Unknown \<and> pending_action ord = ReconcileAction then
                 Some (event Warning ''IDEMPOTENT_REPLAY''
                         ''Repeated create returned the persisted unknown outcome'',
                       \<lparr>op_ok = False, op_idempotent_replay = True, op_code = ''OUTCOME_UNKNOWN'',
                        op_message = rejection_reason ord, op_order = Some ord\<rparr>)
               else
                 Some (event Info ''IDEMPOTENT_REPLAY''
                         ''Repeated create returned the existing order without venue I/O'',
                       op_success ord True)
             else
               Some (event Warning ''IDEMPOTENCY_CONFLICT''
                       ''clientOrderId was reused with a different order payload'',
                     op_failure ''IDEMPOTENCY_CONFLICT''
                       ''clientOrderId already exists with a different request'' (Some ord)))"

definition place_decision ::
    "gateway_config \<Rightarrow> order_request \<Rightarrow> decimal option \<Rightarrow> risk_decision \<Rightarrow> risk_decision option \<Rightarrow>
     gateway \<Rightarrow> risk_decision result" where
  "place_decision cf request mprice instrument_check balance_check g =
     rbind (if rq_type request = Market \<and> cf_has_market_data cf \<and> mprice = None
            then Inr (risk_reject ''MARKET_DATA_UNAVAILABLE'' ''MARKET order requires a fresh executable quote'')
            else rbind (conservative_position_locked g (rq_symbol request) [])
                   (\<lambda>position. check_new_with_position (cf_limits cf) request position mprice))
       (\<lambda>d0.
          let d1 = (if rd_accepted d0 \<and> \<not> rd_accepted instrument_check then instrument_check else d0);
              d2 = (case balance_check of
                      Some b \<Rightarrow> if rd_accepted d1 \<and> \<not> rd_accepted b then b else d1
                    | None \<Rightarrow> d1)
          in Inr d2)"

text \<open>What a critical section hands to the code after it: an early answer, or the work to go on with.\<close>

datatype 'a outcome = Done operation_result | Continue 'a

record place_ticket =
  pl_ticket :: persist_ticket
  pl_rejection :: "risk_decision option"

definition place_begin ::
    "gateway_config \<Rightarrow> int \<Rightarrow> int \<Rightarrow> order_request \<Rightarrow> decimal option \<Rightarrow> risk_decision \<Rightarrow>
     risk_decision option \<Rightarrow> gateway \<Rightarrow> gateway \<times> place_ticket outcome result" where
  "place_begin cf clock now request mprice instrument_check balance_check g =
     (case replay_if_present cf request g of
        Some (g1, answer) \<Rightarrow> (g1, Inr (Done answer))
      | None \<Rightarrow>
          (case place_decision cf request mprice instrument_check balance_check g of
             Inl e \<Rightarrow> (g, Inl e)
           | Inr decision \<Rightarrow>
               let ord0 = make_order clock request (fingerprint request) now;
                   ord = (if rd_accepted decision then ord0
                          else ord0\<lparr>status := Rejected, pending_action := NoAction,
                                    rejection_reason := rd_code decision @ '': '' @ rd_reason decision,
                                    version := version ord0 + 1\<rparr>);
                   g1 = (if rd_accepted decision
                         then g\<lparr>gw_active_operations := insert (client_order_id ord) (gw_active_operations g)\<rparr>
                         else g)
               in (case rbind (position_contribution ord) (\<lambda>c. adjust_position_locked (symbol ord) 0 c g1) of
                     Inl e \<Rightarrow> (g1, Inl e)
                   | Inr g2 \<Rightarrow>
                       (case prepare_persist ord (rd_accepted decision)
                               (publish_positions_if_dirty_locked (put_order (client_order_id ord) ord g2)) of
                          (t, g3) \<Rightarrow>
                            (g3, Inr (Continue \<lparr>pl_ticket = t,
                               pl_rejection = (if rd_accepted decision then None else Some decision)\<rparr>))))))"

text \<open>Journal, observers, events; then either the answer to a local rejection or the venue call. The
  order handed to the adapter is the shared object, hence its current value.\<close>

definition place_route ::
    "exn option \<Rightarrow> order_request \<Rightarrow> place_ticket \<Rightarrow> gateway \<Rightarrow> gateway \<times> order outcome result" where
  "place_route store_error request p g =
     (case commit_persist store_error (pl_ticket p) g of
        (g1, Inl e) \<Rightarrow> (g1, Inl e)
      | (g1, Inr _) \<Rightarrow>
          let ord = the (order_at g1 (rq_client_order_id request)); g2 = emit (Notified ord) g1
          in (case pl_rejection p of
                Some d \<Rightarrow>
                  (record_event Warning ''RISK'' ''ORDER_REJECTED'' (rd_code d @ '': '' @ rd_reason d)
                     (Some (rq_venue request)) (rq_client_order_id request) [] (context_of ord) g2,
                   Inr (Done (op_failure (rd_code d) (rd_reason d) (Some ord))))
              | None \<Rightarrow>
                  (emit (VenuePlace ord)
                   (record_event Info ''PIPELINE'' ''ORDER_SENT_TO_EXCHANGE''
                      ''Persisted new order was sent to the venue adapter'' (Some (rq_venue request))
                      (rq_client_order_id request) [] (context_of ord)
                    (record_event Info ''PERSISTENCE'' ''ORDER_INTENT_PERSISTED''
                      ''New-order intent was durably journaled before venue I/O'' (Some (rq_venue request))
                      (rq_client_order_id request) [] (context_of ord) g2)),
                   Inr (Continue ord))))"

text \<open>An exception of the adapter is turned into an uncertain result.\<close>

definition adapter_exception :: "exn \<Rightarrow> adapter_result" where
  "adapter_exception e =
     \<lparr>ar_accepted = False, ar_outcome_uncertain = True, ar_replacement = False,
      ar_original_order_canceled = False, ar_exchange_order_id = [], ar_exchange_client_order_id = [],
      ar_code = ''ADAPTER_EXCEPTION'', ar_message = what e, ar_authoritative_reports = []\<rparr>"

definition adapter_outcome :: "adapter_result result \<Rightarrow> adapter_result" where
  "adapter_outcome r = (case r of Inl e \<Rightarrow> adapter_exception e | Inr a \<Rightarrow> a)"

record command_notice =
  cn_ticket :: persist_ticket
  cn_severity :: operational_severity
  cn_code :: string
  cn_message :: string
  cn_response :: operation_result
  cn_reports :: "execution_report list"
  cn_warning :: string

definition place_accepted :: "int \<Rightarrow> adapter_result \<Rightarrow> order \<Rightarrow> order" where
  "place_accepted now a ord =
     ord\<lparr>exchange_order_id := (if ar_exchange_order_id a \<noteq> [] then ar_exchange_order_id a else exchange_order_id ord),
         exchange_client_id_aliases :=
           (if ar_exchange_client_order_id a \<noteq> []
            then insert (ar_exchange_client_order_id a) (exchange_client_id_aliases ord)
            else exchange_client_id_aliases ord),
         status := (if status ord = Unknown then Live else status ord),
         pending_action := NoAction, updated_at_ms := now, version := version ord + 1\<rparr>"

definition place_uncertain :: "adapter_result \<Rightarrow> order \<Rightarrow> order" where
  "place_uncertain a ord =
     ord\<lparr>status := Unknown, pending_action := ReconcileAction, rejection_reason := ar_message a,
         version := version ord + 1\<rparr>"

definition place_rejection_report :: "int \<Rightarrow> adapter_result \<Rightarrow> order \<Rightarrow> execution_report" where
  "place_rejection_report now a ord =
     \<lparr>rp_event_id = place_rejection_event_id (client_order_id ord) (version ord),
      rp_client_order_id = client_order_id ord, rp_exchange_order_id = ar_exchange_order_id a,
      rp_status = Rejected, rp_cumulative_filled = filled_quantity ord, rp_cumulative_quote = None,
      rp_last_fill_price = None, rp_order_price = None, rp_order_quantity = None, rp_sequence = None,
      rp_event_time_ms = now, rp_reason = ar_code a @ '': '' @ ar_message a\<rparr>"

text \<open>The order and the other state a place answer changes, with the answer's event.\<close>

definition place_outcome ::
    "int \<Rightarrow> int \<Rightarrow> adapter_result \<Rightarrow> order \<Rightarrow> gateway \<Rightarrow>
     order \<times> gateway \<times> (operational_severity \<times> string \<times> string \<times> operation_result) result" where
  "place_outcome clock now a ord g =
     (if ar_accepted a then
        let ord1 = place_accepted now a ord;
            g1 = (if ar_exchange_order_id a \<noteq> []
                  then index_exchange_id (ar_exchange_order_id a) (client_order_id ord) g else g);
            g2 = (if ar_exchange_client_order_id a \<noteq> []
                  then index_exchange_client_id (ar_exchange_client_order_id a) (client_order_id ord) g1 else g1)
        in (ord1, g2, Inr (Info, ''ORDER_ACKNOWLEDGED'',
              ''Venue acknowledged the persisted new-order intent'', op_success ord1 False))
      else if ar_outcome_uncertain a then
        let ord1 = place_uncertain a ord
        in (ord1,
            publish_health_error_locked (venue ord) (ar_message a) (require_reconciliation (venue ord) g),
            Inr (Critical, ''ORDER_OUTCOME_UNKNOWN'', ar_message a,
              op_failure (if ar_code a = [] then ''OUTCOME_UNKNOWN'' else ar_code a) (ar_message a) (Some ord1)))
      else
        (case apply_report clock ord (place_rejection_report now a ord) of
           (ord1, Inl e) \<Rightarrow> (ord1, g, Inl e)
         | (ord1, Inr _) \<Rightarrow>
             (ord1, g, Inr (Warning, ''VENUE_ORDER_REJECTED'', ar_code a @ '': '' @ ar_message a,
                op_failure (ar_code a) (ar_message a) (Some ord1)))))"

definition place_finish ::
    "int \<Rightarrow> int \<Rightarrow> order_request \<Rightarrow> adapter_result \<Rightarrow> gateway \<Rightarrow> gateway \<times> command_notice result" where
  "place_finish clock now request a g =
     (let cid = rq_client_order_id request
      in case order_at g cid of
           None \<Rightarrow> (g, Inl (Out_of_range ''unordered_map::at''))
         | Some ord \<Rightarrow>
             (case position_contribution ord of
                Inl e \<Rightarrow> (g, Inl e)
              | Inr previous_position \<Rightarrow>
                  let g0 = g\<lparr>gw_active_operations := gw_active_operations g - {cid}\<rparr>
                  in (case place_outcome clock now a ord g0 of
                        (ord1, g1, Inl e) \<Rightarrow> (put_order cid ord1 g1, Inl e)
                      | (ord1, g1, Inr (sev, code, msg, response)) \<Rightarrow>
                          let g2 = put_order cid ord1 g1
                          in (case rbind (position_contribution ord1) (\<lambda>c.
                                     adjust_position_locked (symbol ord1) previous_position c g2) of
                                Inl e \<Rightarrow> (g2, Inl e)
                              | Inr g3 \<Rightarrow>
                                  (case prepare_persist ord1 False (publish_positions_if_dirty_locked g3) of
                                     (t, g4) \<Rightarrow>
                                       (g4, Inr \<lparr>cn_ticket = t, cn_severity = sev, cn_code = code,
                                          cn_message = msg, cn_response = response,
                                          cn_reports = ar_authoritative_reports a, cn_warning = []\<rparr>))))))"

text \<open>The code after the last critical section of a command: journal, observers, event.\<close>

definition finish_command ::
    "exn option \<Rightarrow> string \<Rightarrow> string \<Rightarrow> command_notice \<Rightarrow> gateway \<Rightarrow> gateway \<times> unit result" where
  "finish_command store_error cid rid n g =
     (case commit_persist store_error (cn_ticket n) g of
        (g1, Inl e) \<Rightarrow> (g1, Inl e)
      | (g1, Inr _) \<Rightarrow>
          let ord = the (order_at g1 cid);
              g2 = emit (Notified ord) g1;
              g3 = (if cn_warning n \<noteq> []
                    then record_event Critical ''ORDER'' ''REPLACEMENT_QUANTITY_DRIFT'' (cn_warning n)
                           (Some (venue ord)) (client_order_id ord) rid (context_of ord) g2
                    else g2)
          in (record_event (cn_severity n) ''ORDER'' (cn_code n) (cn_message n) (Some (venue ord))
                (client_order_id ord) rid (context_of ord) g3, Inr ()))"

text \<open>What a command learns from outside, in one record.\<close>

record command_input =
  ci_clock :: int
  ci_mprice :: "decimal option"
  ci_rules :: "instrument_rules_query_result result"
  ci_balances :: "string \<Rightarrow> balance_query_result result"
  ci_store_begin :: "exn option"
  ci_store_finish :: "exn option"
  ci_store_reports :: "exn option"
  ci_adapter :: "order \<Rightarrow> adapter_result result"

definition balance_check_of ::
    "order_request \<Rightarrow> decimal option \<Rightarrow> risk_decision \<Rightarrow> (string \<Rightarrow> balance_query_result result) \<Rightarrow>
     risk_decision option result" where
  "balance_check_of request mprice instrument_check balances =
     (if rd_accepted instrument_check then
        rbind (funding_requirement_of request mprice) (\<lambda>requirement.
          case requirement of
            None \<Rightarrow> Inr None
          | Some r \<Rightarrow> rbind (balances (fr_currency r)) (\<lambda>b. Inr (Some (funding_decision request r b))))
      else Inr None)"

definition place :: "gateway_config \<Rightarrow> command_input \<Rightarrow> order_request \<Rightarrow> gateway \<Rightarrow>
    gateway \<times> operation_result result" where
  "place cf ci request g =
     (case replay_if_present cf request g of
        Some (g1, answer) \<Rightarrow> (g1, Inr answer)
      | None \<Rightarrow>
          (case rbind (ci_rules ci) (instrument_rules_decision request (ci_mprice ci)) of
             Inl e \<Rightarrow> (g, Inl e)
           | Inr instrument_check \<Rightarrow>
               (case balance_check_of request (ci_mprice ci) instrument_check (ci_balances ci) of
                  Inl e \<Rightarrow> (g, Inl e)
                | Inr balance_check \<Rightarrow>
                    (case place_begin cf (ci_clock ci) (ci_clock ci) request (ci_mprice ci)
                            instrument_check balance_check g of
                       (g1, Inl e) \<Rightarrow> (g1, Inl e)
                     | (g1, Inr (Done answer)) \<Rightarrow> (g1, Inr answer)
                     | (g1, Inr (Continue p)) \<Rightarrow>
                         (case place_route (ci_store_begin ci) request p g1 of
                            (g2, Inl e) \<Rightarrow> (g2, Inl e)
                          | (g2, Inr (Done answer)) \<Rightarrow> (g2, Inr answer)
                          | (g2, Inr (Continue ord)) \<Rightarrow>
                              (case place_finish (ci_clock ci) (ci_clock ci) request
                                      (adapter_outcome (ci_adapter ci ord)) g2 of
                                 (g3, Inl e) \<Rightarrow> (g3, Inl e)
                               | (g3, Inr n) \<Rightarrow>
                                   (case finish_command (ci_store_finish ci) (rq_client_order_id request) [] n g3 of
                                      (g4, Inl e) \<Rightarrow> (g4, Inl e)
                                    | (g4, Inr _) \<Rightarrow>
                                        (case apply_executions (ci_clock ci) (ci_store_reports ci)
                                                (rq_venue request) (cn_reports n) g4 of
                                           (g5, Inl e) \<Rightarrow> (g5, Inl e)
                                         | (g5, Inr _) \<Rightarrow>
                                             (g5, Inr (if cn_reports n = [] then cn_response n
                                                       else (case order_at g5 (rq_client_order_id request) of
                                                               None \<Rightarrow> cn_response n
                                                             | Some cur \<Rightarrow> (cn_response n)\<lparr>op_order := Some cur\<rparr>)))))))))))"

section \<open>Cancel\<close>

definition cancel_request_id :: "cancel_request \<Rightarrow> string" where
  "cancel_request_id request =
     (if cx_request_id request = [] then ''cancel:'' @ cx_client_order_id request else cx_request_id request)"

definition cancel_key :: "cancel_request \<Rightarrow> string" where
  "cancel_key request = ''CANCEL:'' @ cancel_request_id request"

definition stored_outcome :: "order \<Rightarrow> string \<Rightarrow> string" where
  "stored_outcome ord key = (case processed_request_outcomes ord key of None \<Rightarrow> [] | Some t \<Rightarrow> t)"

definition cancel_begin ::
    "int \<Rightarrow> cancel_request \<Rightarrow> gateway \<Rightarrow> gateway \<times> persist_ticket outcome" where
  "cancel_begin now request g =
     (let cid = cx_client_order_id request; rid = cancel_request_id request; key = cancel_key request;
          fp = cancel_fingerprint request
      in case order_at g cid of
           None \<Rightarrow>
             (record_event Warning ''REQUEST'' ''ORDER_NOT_FOUND''
                ''Cancel referenced an unknown clientOrderId'' None cid rid None g,
              Done (op_failure ''ORDER_NOT_FOUND'' ''order does not exist'' None))
         | Some ord \<Rightarrow>
             let event = (\<lambda>sev cat code msg. record_event sev cat code msg (Some (venue ord))
                            (client_order_id ord) rid (context_of ord) g)
             in (case processed_requests ord key of
                   Some stored \<Rightarrow>
                     if stored \<noteq> fp \<and> \<not> cancel_fingerprint_matches stored request then
                       (event Warning ''RETRY'' ''IDEMPOTENCY_CONFLICT''
                          ''requestId was reused with a different cancel payload'',
                        Done (op_failure ''IDEMPOTENCY_CONFLICT''
                          ''requestId was reused with a different cancel request'' (Some ord)))
                     else
                       (event Info ''RETRY'' ''IDEMPOTENT_REPLAY''
                          ''Repeated cancel returned its persisted outcome without venue I/O'',
                        Done (replay_operation ord (stored_outcome ord key)))
                 | None \<Rightarrow>
                     if status ord = Canceled then
                       (event Info ''RETRY'' ''IDEMPOTENT_REPLAY'' ''Cancel replay found the order already canceled'',
                        Done (op_success ord True))
                     else if is_terminal (status ord) then
                       (event Warning ''ORDER'' ''CANCEL_REJECTED'' ''terminal order cannot be canceled'',
                        Done (op_failure ''ORDER_TERMINAL'' ''terminal order cannot be canceled'' (Some ord)))
                     else if client_order_id ord \<in> gw_active_operations g \<or> pending_action ord \<noteq> NoAction then
                       (g, Done (op_failure ''OPERATION_PENDING'' ''another order operation is still pending''
                              (Some ord)))
                     else
                       let ord1 = ord\<lparr>processed_requests := (processed_requests ord)(key \<mapsto> fp),
                                processed_request_outcomes := (processed_request_outcomes ord)(key \<mapsto> ''PENDING''),
                                pending_action := CancelAction, updated_at_ms := now,
                                version := version ord + 1\<rparr>;
                           g1 = put_order cid ord1
                                  (g\<lparr>gw_active_operations := insert (client_order_id ord) (gw_active_operations g)\<rparr>)
                       in (case prepare_persist ord1 False (publish_positions_if_dirty_locked g1) of
                             (t, g2) \<Rightarrow> (g2, Continue t))))"

definition cancel_route ::
    "exn option \<Rightarrow> cancel_request \<Rightarrow> persist_ticket \<Rightarrow> gateway \<Rightarrow> gateway \<times> order result" where
  "cancel_route store_error request t g =
     (case commit_persist store_error t g of
        (g1, Inl e) \<Rightarrow> (g1, Inl e)
      | (g1, Inr _) \<Rightarrow>
          let ord = the (order_at g1 (cx_client_order_id request)); rid = cancel_request_id request
          in (emit (VenueCancel ord)
              (record_event Info ''PIPELINE'' ''CANCEL_SENT_TO_EXCHANGE''
                 ''Persisted cancel request was sent to the venue adapter'' (Some (venue ord))
                 (client_order_id ord) rid None
              (record_event Info ''PERSISTENCE'' ''CANCEL_INTENT_PERSISTED''
                 ''Cancel intent and requestId were durably journaled before venue I/O'' (Some (venue ord))
                 (client_order_id ord) rid None
              (emit (Notified ord) g1))), Inr ord))"

definition cancel_outcome ::
    "string \<Rightarrow> adapter_result \<Rightarrow> order \<Rightarrow> gateway \<Rightarrow>
     order \<times> gateway \<times> operational_severity \<times> string \<times> string \<times> operation_result" where
  "cancel_outcome key a ord g =
     (if ar_accepted a then
        let ord1 = ord\<lparr>processed_request_outcomes := (processed_request_outcomes ord)(key \<mapsto> ''OK''),
                       rejection_reason := [], version := version ord + 1\<rparr>
        in (ord1, g, Info, ''CANCEL_ACKNOWLEDGED'', ''Venue acknowledged the persisted cancel request'',
            op_success ord1 False)
      else
        let uncertain = ar_outcome_uncertain a;
            ord1 = ord\<lparr>pending_action := (if uncertain then CancelAction else NoAction),
                       status := (if uncertain then Unknown else status ord),
                       rejection_reason := ar_message a,
                       processed_request_outcomes := (processed_request_outcomes ord)(key \<mapsto>
                         (if uncertain then pending_outcome (ar_code a) (ar_message a)
                          else failed_outcome (ar_code a) (ar_message a))),
                       version := version ord + 1\<rparr>
        in (ord1, if uncertain then require_reconciliation (venue ord) g else g,
            if uncertain then Critical else Warning,
            if uncertain then ''CANCEL_OUTCOME_UNKNOWN'' else ''CANCEL_REJECTED'', ar_message a,
            op_failure (ar_code a) (ar_message a) (Some ord1)))"

definition cancel_finish ::
    "cancel_request \<Rightarrow> adapter_result \<Rightarrow> gateway \<Rightarrow> gateway \<times> command_notice result" where
  "cancel_finish request a g =
     (let cid = cx_client_order_id request
      in case order_at g cid of
           None \<Rightarrow> (g, Inl (Out_of_range ''unordered_map::at''))
         | Some ord \<Rightarrow>
             (case position_contribution ord of
                Inl e \<Rightarrow> (g, Inl e)
              | Inr previous_position \<Rightarrow>
                  (case cancel_outcome (cancel_key request) a ord
                          (g\<lparr>gw_active_operations := gw_active_operations g - {cid}\<rparr>) of
                     (ord1, g1, sev, code, msg, response) \<Rightarrow>
                       let g2 = put_order cid ord1 g1
                       in (case rbind (position_contribution ord1) (\<lambda>c.
                                  adjust_position_locked (symbol ord1) previous_position c g2) of
                             Inl e \<Rightarrow> (g2, Inl e)
                           | Inr g3 \<Rightarrow>
                               (case prepare_persist ord1 False (publish_positions_if_dirty_locked g3) of
                                  (t, g4) \<Rightarrow>
                                    (g4, Inr \<lparr>cn_ticket = t, cn_severity = sev, cn_code = code,
                                       cn_message = msg, cn_response = response, cn_reports = [],
                                       cn_warning = []\<rparr>))))))"

definition cancel :: "command_input \<Rightarrow> cancel_request \<Rightarrow> gateway \<Rightarrow> gateway \<times> operation_result result" where
  "cancel ci request g =
     (case cancel_begin (ci_clock ci) request g of
        (g1, Done answer) \<Rightarrow> (g1, Inr answer)
      | (g1, Continue t) \<Rightarrow>
          (case cancel_route (ci_store_begin ci) request t g1 of
             (g2, Inl e) \<Rightarrow> (g2, Inl e)
           | (g2, Inr ord) \<Rightarrow>
               (case cancel_finish request (adapter_outcome (ci_adapter ci ord)) g2 of
                  (g3, Inl e) \<Rightarrow> (g3, Inl e)
                | (g3, Inr n) \<Rightarrow>
                    (case finish_command (ci_store_finish ci) (cx_client_order_id request)
                            (cancel_request_id request) n g3 of
                       (g4, Inl e) \<Rightarrow> (g4, Inl e)
                     | (g4, Inr _) \<Rightarrow> (g4, Inr (cn_response n))))))"

section \<open>Amend\<close>

definition amend_request_id :: "amend_request \<Rightarrow> string" where
  "amend_request_id request =
     (if am_request_id request = [] then ''amend:'' @ u64_to_string (stable_hash (amend_fingerprint request))
      else am_request_id request)"

definition amend_key :: "amend_request \<Rightarrow> string" where
  "amend_key request = ''AMEND:'' @ amend_request_id request"

definition amend_begin ::
    "gateway_config \<Rightarrow> int \<Rightarrow> amend_request \<Rightarrow> gateway \<Rightarrow> gateway \<times> persist_ticket outcome result" where
  "amend_begin cf now request g =
     (let cid = am_client_order_id request; rid = amend_request_id request; key = amend_key request;
          fp = amend_fingerprint request
      in case order_at g cid of
           None \<Rightarrow>
             (record_event Warning ''REQUEST'' ''ORDER_NOT_FOUND''
                ''Amend referenced an unknown clientOrderId'' None cid rid None g,
              Inr (Done (op_failure ''ORDER_NOT_FOUND'' ''order does not exist'' None)))
         | Some ord \<Rightarrow>
             let event = (\<lambda>sev cat code msg. record_event sev cat code msg (Some (venue ord))
                            (client_order_id ord) rid (context_of ord) g)
             in (case processed_requests ord key of
                   Some stored \<Rightarrow>
                     if stored \<noteq> fp \<and> \<not> amend_fingerprint_matches (cf_dump cf) stored request then
                       (event Warning ''RETRY'' ''IDEMPOTENCY_CONFLICT''
                          ''requestId was reused with a different amend payload'',
                        Inr (Done (op_failure ''IDEMPOTENCY_CONFLICT''
                          ''requestId was reused with a different amend request'' (Some ord))))
                     else
                       (event Info ''RETRY'' ''IDEMPOTENT_REPLAY''
                          ''Repeated amend returned its persisted outcome without venue I/O'',
                        Inr (Done (replay_operation ord (stored_outcome ord key))))
                 | None \<Rightarrow>
                     if client_order_id ord \<in> gw_active_operations g then
                       (g, Inr (Done (op_failure ''OPERATION_PENDING''
                              ''another order operation is still in venue I/O'' (Some ord))))
                     else
                       (case rbind (conservative_position_locked g (symbol ord) (client_order_id ord)) (\<lambda>position.
                               check_amend_with_position (cf_limits cf) ord (am_new_price request)
                                 (am_new_quantity request) position) of
                          Inl e \<Rightarrow> (g, Inl e)
                        | Inr decision \<Rightarrow>
                            if \<not> rd_accepted decision then
                              (event Warning ''RISK'' ''AMEND_REJECTED'' (rd_code decision @ '': '' @ rd_reason decision),
                               Inr (Done (op_failure (rd_code decision) (rd_reason decision) (Some ord))))
                            else
                              let ord1 = ord\<lparr>processed_requests := (processed_requests ord)(key \<mapsto> fp),
                                    processed_request_outcomes := (processed_request_outcomes ord)(key \<mapsto> ''PENDING''),
                                    pending_action := AmendAction, pending_amend_price := am_new_price request,
                                    pending_amend_quantity := am_new_quantity request, updated_at_ms := now,
                                    version := version ord + 1\<rparr>;
                                  g1 = put_order cid ord1
                                    (g\<lparr>gw_active_operations := insert (client_order_id ord) (gw_active_operations g)\<rparr>)
                              in (case prepare_persist ord1 False (publish_positions_if_dirty_locked g1) of
                                    (t, g2) \<Rightarrow> (g2, Inr (Continue t))))))"

definition amend_route ::
    "exn option \<Rightarrow> amend_request \<Rightarrow> persist_ticket \<Rightarrow> gateway \<Rightarrow> gateway \<times> order result" where
  "amend_route store_error request t g =
     (case commit_persist store_error t g of
        (g1, Inl e) \<Rightarrow> (g1, Inl e)
      | (g1, Inr _) \<Rightarrow>
          let ord = the (order_at g1 (am_client_order_id request)); rid = amend_request_id request
          in (emit (VenueAmend ord (am_new_price request) (am_new_quantity request))
              (record_event Info ''PIPELINE'' ''AMEND_SENT_TO_EXCHANGE''
                 ''Persisted amend request was sent to the venue adapter'' (Some (venue ord))
                 (client_order_id ord) rid None
              (record_event Info ''PERSISTENCE'' ''AMEND_INTENT_PERSISTED''
                 ''Amend intent and requestId were durably journaled before venue I/O'' (Some (venue ord))
                 (client_order_id ord) rid None
              (emit (Notified ord) g1))), Inr ord))"

text \<open>What the original venue order had filled when it was replaced.\<close>

fun final_old_fills ::
    "string \<Rightarrow> decimal \<Rightarrow> decimal \<Rightarrow> execution_report list \<Rightarrow> decimal \<Rightarrow> decimal \<Rightarrow> (decimal \<times> decimal) result" where
  "final_old_fills old_id fill_offset quote_offset [] fill quote = Inr (fill, quote)"
| "final_old_fills old_id fill_offset quote_offset (rep # reps) fill quote =
     (if rp_exchange_order_id rep \<noteq> old_id
      then final_old_fills old_id fill_offset quote_offset reps fill quote
      else
        rbind (decimal_add fill_offset (rp_cumulative_filled rep)) (\<lambda>f.
          case rp_cumulative_quote rep of
            None \<Rightarrow> final_old_fills old_id fill_offset quote_offset reps (max fill f) quote
          | Some q \<Rightarrow>
              rbind (decimal_add quote_offset q) (\<lambda>x.
                final_old_fills old_id fill_offset quote_offset reps (max fill f) (max quote x))))"

text \<open>The quantity that is really live after the replacement, with the warning when it drifted.\<close>

fun replacement_quantity ::
    "string \<Rightarrow> decimal \<Rightarrow> decimal \<Rightarrow> execution_report list \<Rightarrow> decimal option \<Rightarrow> string \<Rightarrow>
     decimal option \<times> string result" where
  "replacement_quantity new_id final_fill requested [] paq warning = (paq, Inr warning)"
| "replacement_quantity new_id final_fill requested (rep # reps) paq warning =
     (case rp_order_quantity rep of
        Some q \<Rightarrow>
          if rp_exchange_order_id rep = new_id \<and> rp_status rep \<noteq> Canceled then
            (case decimal_add final_fill q of
               Inl e \<Rightarrow> (paq, Inl e)
             | Inr actual \<Rightarrow>
                 replacement_quantity new_id final_fill requested reps (Some actual)
                   (if actual \<noteq> requested
                    then ''old order filled during cancel-replace; authoritative total quantity is '' @
                         to_string actual @ '' instead of requested '' @ to_string requested
                    else warning))
          else replacement_quantity new_id final_fill requested reps paq warning
      | None \<Rightarrow> replacement_quantity new_id final_fill requested reps paq warning)"

definition try_emplace :: "'k \<Rightarrow> 'v \<Rightarrow> ('k \<rightharpoonup> 'v) \<Rightarrow> 'k \<rightharpoonup> 'v" where
  "try_emplace k v m = (case m k of None \<Rightarrow> m(k \<mapsto> v) | Some _ \<Rightarrow> m)"

definition switch_generation :: "string \<Rightarrow> decimal \<Rightarrow> decimal \<Rightarrow> decimal \<Rightarrow> decimal \<Rightarrow> order \<Rightarrow> order" where
  "switch_generation new_id fill_offset quote_offset final_fill final_quote ord =
     (let old_id = exchange_order_id ord;
          fo1 = (if old_id \<noteq> [] then try_emplace old_id fill_offset (exchange_fill_offsets ord)
                 else exchange_fill_offsets ord);
          qo1 = (if old_id \<noteq> [] then try_emplace old_id quote_offset (exchange_quote_offsets ord)
                 else exchange_quote_offsets ord)
      in ord\<lparr>exchange_order_id_aliases := (if old_id \<noteq> [] then insert old_id (exchange_order_id_aliases ord)
                                           else exchange_order_id_aliases ord),
             exchange_fill_offsets := (if new_id \<noteq> [] then fo1(new_id \<mapsto> final_fill) else fo1),
             exchange_quote_offsets := (if new_id \<noteq> [] then qo1(new_id \<mapsto> final_quote) else qo1),
             filled_quantity := final_fill, cumulative_quote := final_quote, exchange_order_id := new_id,
             status := (if final_fill > 0 then PartiallyFilled else Live)\<rparr>)"

definition apply_replacement ::
    "amend_request \<Rightarrow> adapter_result \<Rightarrow> order \<Rightarrow> gateway \<Rightarrow> order \<times> gateway \<times> string result" where
  "apply_replacement request a ord g =
     (let old_id = exchange_order_id ord; new_id = ar_exchange_order_id a;
          fill_offset = (case exchange_fill_offsets ord old_id of None \<Rightarrow> 0 | Some d \<Rightarrow> d);
          quote_offset = (case exchange_quote_offsets ord old_id of None \<Rightarrow> 0 | Some d \<Rightarrow> d)
      in case final_old_fills old_id fill_offset quote_offset (ar_authoritative_reports a)
                (filled_quantity ord) (cumulative_quote ord) of
           Inl e \<Rightarrow> (ord, g, Inl e)
         | Inr (final_fill, final_quote) \<Rightarrow>
             let ord1 = switch_generation new_id fill_offset quote_offset final_fill final_quote ord;
                 g1 = (if old_id \<noteq> [] then index_exchange_id old_id (client_order_id ord) g else g);
                 g2 = (if new_id \<noteq> [] then index_exchange_id new_id (client_order_id ord) g1 else g1)
             in (case replacement_quantity new_id final_fill
                        (case am_new_quantity request of Some q \<Rightarrow> q | None \<Rightarrow> quantity ord)
                        (ar_authoritative_reports a) (pending_amend_quantity ord1) [] of
                   (paq, w) \<Rightarrow> (ord1\<lparr>pending_amend_quantity := paq\<rparr>, g2, w)))"

definition amend_accepted ::
    "amend_request \<Rightarrow> adapter_result \<Rightarrow> order \<Rightarrow> gateway \<Rightarrow>
     order \<times> gateway \<times> (operational_severity \<times> string \<times> string \<times> operation_result \<times> string) result" where
  "amend_accepted request a ord g =
     (case (if ar_replacement a then apply_replacement request a ord g else (ord, g, Inr [])) of
        (ord1, g1, Inl e) \<Rightarrow> (ord1, g1, Inl e)
      | (ord1, g1, Inr warning) \<Rightarrow>
          let alias = ar_exchange_client_order_id a;
              ord2 = ord1\<lparr>exchange_client_id_aliases :=
                       (if alias \<noteq> [] then insert alias (exchange_client_id_aliases ord1)
                        else exchange_client_id_aliases ord1),
                     processed_request_outcomes := (processed_request_outcomes ord1)(amend_key request \<mapsto> ''OK''),
                     rejection_reason := warning, version := version ord1 + 1\<rparr>;
              g2 = (if alias \<noteq> [] then index_exchange_client_id alias (client_order_id ord1) g1 else g1)
          in (ord2, g2, Inr (Info, ''AMEND_ACKNOWLEDGED'',
                (if ar_replacement a
                 then ''Venue accepted cancel-replace; authoritative generation reports are being merged''
                 else ''Venue accepted the amend request; final terms await the order stream or query''),
                op_success ord2 False, warning)))"

definition amend_refused ::
    "amend_request \<Rightarrow> adapter_result \<Rightarrow> order \<Rightarrow> gateway \<Rightarrow>
     order \<times> gateway \<times> (operational_severity \<times> string \<times> string \<times> operation_result \<times> string) result" where
  "amend_refused request a ord g =
     (let uncertain = ar_outcome_uncertain a;
          ord1 = ord\<lparr>pending_action := (if uncertain then AmendAction else NoAction),
                     status := (if uncertain then Unknown else status ord),
                     processed_request_outcomes := (processed_request_outcomes ord)(amend_key request \<mapsto>
                       (if uncertain then pending_outcome (ar_code a) (ar_message a)
                        else failed_outcome (ar_code a) (ar_message a))),
                     pending_amend_price := (if uncertain then pending_amend_price ord else None),
                     pending_amend_quantity := (if uncertain then pending_amend_quantity ord else None),
                     rejection_reason := ar_message a, version := version ord + 1\<rparr>
      in (ord1, if uncertain then require_reconciliation (venue ord) g else g,
          Inr (if uncertain then Critical else Warning,
               if uncertain then ''AMEND_OUTCOME_UNKNOWN'' else ''AMEND_REJECTED'', ar_message a,
               op_failure (ar_code a) (ar_message a) (Some ord1), [])))"

definition take_deferred :: "string \<Rightarrow> gateway \<Rightarrow> execution_report list \<times> gateway" where
  "take_deferred cid g =
     (case gw_deferred_amend_reports g cid of
        None \<Rightarrow> ([], g)
      | Some reps \<Rightarrow> (reps, g\<lparr>gw_deferred_amend_reports := (gw_deferred_amend_reports g)(cid := None)\<rparr>))"

definition amend_finish ::
    "amend_request \<Rightarrow> adapter_result \<Rightarrow> gateway \<Rightarrow> gateway \<times> command_notice result" where
  "amend_finish request a g =
     (let cid = am_client_order_id request
      in case order_at g cid of
           None \<Rightarrow> (g, Inl (Out_of_range ''unordered_map::at''))
         | Some ord \<Rightarrow>
             (case position_contribution ord of
                Inl e \<Rightarrow> (g, Inl e)
              | Inr previous_position \<Rightarrow>
                  let g0 = g\<lparr>gw_active_operations := gw_active_operations g - {cid}\<rparr>
                  in (case (if ar_accepted a then amend_accepted request a ord g0
                            else amend_refused request a ord g0) of
                        (ord1, g1, Inl e) \<Rightarrow> (put_order cid ord1 g1, Inl e)
                      | (ord1, g1, Inr (sev, code, msg, response, warning)) \<Rightarrow>
                          (case take_deferred (client_order_id ord1) (put_order cid ord1 g1) of
                             (deferred, g2) \<Rightarrow>
                               (case rbind (position_contribution ord1) (\<lambda>c.
                                       adjust_position_locked (symbol ord1) previous_position c g2) of
                                  Inl e \<Rightarrow> (g2, Inl e)
                                | Inr g3 \<Rightarrow>
                                    (case prepare_persist ord1 False (publish_positions_if_dirty_locked g3) of
                                       (t, g4) \<Rightarrow>
                                         (g4, Inr \<lparr>cn_ticket = t, cn_severity = sev, cn_code = code,
                                            cn_message = msg, cn_response = response,
                                            cn_reports = ar_authoritative_reports a @ deferred,
                                            cn_warning = warning\<rparr>)))))))"

definition amend :: "gateway_config \<Rightarrow> command_input \<Rightarrow> amend_request \<Rightarrow> gateway \<Rightarrow>
    gateway \<times> operation_result result" where
  "amend cf ci request g =
     (case amend_begin cf (ci_clock ci) request g of
        (g1, Inl e) \<Rightarrow> (g1, Inl e)
      | (g1, Inr (Done answer)) \<Rightarrow> (g1, Inr answer)
      | (g1, Inr (Continue t)) \<Rightarrow>
          (case amend_route (ci_store_begin ci) request t g1 of
             (g2, Inl e) \<Rightarrow> (g2, Inl e)
           | (g2, Inr ord) \<Rightarrow>
               (case amend_finish request (adapter_outcome (ci_adapter ci ord)) g2 of
                  (g3, Inl e) \<Rightarrow> (g3, Inl e)
                | (g3, Inr n) \<Rightarrow>
                    (case finish_command (ci_store_finish ci) (am_client_order_id request)
                            (amend_request_id request) n g3 of
                       (g4, Inl e) \<Rightarrow> (g4, Inl e)
                     | (g4, Inr _) \<Rightarrow>
                         (case apply_executions (ci_clock ci) (ci_store_reports ci) (venue ord) (cn_reports n) g4 of
                            (g5, Inl e) \<Rightarrow> (g5, Inl e)
                          | (g5, Inr _) \<Rightarrow>
                              (g5, Inr (case order_at g5 (am_client_order_id request) of
                                          None \<Rightarrow> cn_response n
                                        | Some cur \<Rightarrow> (cn_response n)\<lparr>op_order := Some cur\<rparr>)))))))"

end
