(* ===== verification/Abex_Gateway_Admin.thy ===== *)
theory Abex_Gateway_Admin
  imports Abex_Gateway_Commands
begin

text \<open>
  The rest of the gateway: construction and recovery, reconciliation with a venue, connection changes,
  dropped execution events, the reconciliation schedule and the read-only queries
  (\<open>src/application/order_gateway.cpp\<close>). The journal's recovered orders, the venue's answers, the clock
  and store failures are arguments. What the worker threads run is here; starting and stopping them is in \<open>Abex_Lifecycle\<close>.
\<close>

section \<open>Construction and recovery\<close>

definition index_aliases :: "string set \<Rightarrow> string \<Rightarrow> (string \<rightharpoonup> string) \<Rightarrow> string \<rightharpoonup> string" where
  "index_aliases aliases cid m = (\<lambda>k. if k \<in> aliases then Some cid else m k)"

fun rebuild_indexes :: "(string \<times> order) list \<Rightarrow> gateway \<Rightarrow> gateway result" where
  "rebuild_indexes [] g = Inr g"
| "rebuild_indexes ((cid, ord) # rest) g =
     (let ex = gw_exchange_id_index g;
          ex1 = (if exchange_order_id ord \<noteq> [] then ex(exchange_order_id ord \<mapsto> cid) else ex);
          ex2 = index_aliases (exchange_order_id_aliases ord) cid ex1;
          cl = index_aliases (exchange_client_id_aliases ord) cid ((gw_exchange_client_id_index g)(cid \<mapsto> cid));
          g1 = g\<lparr>gw_exchange_id_index := ex2, gw_exchange_client_id_index := cl\<rparr>;
          sid = symbol_id_rt (symbol ord)
      in if sid \<noteq> UnknownSymbol then
           rbind (position_contribution ord) (\<lambda>c.
           rbind (decimal_add (gw_positions g1 ! to_slot sid) c) (\<lambda>p.
             rebuild_indexes rest (g1\<lparr>gw_positions := (gw_positions g1)[to_slot sid := p]\<rparr>)))
         else rebuild_indexes rest g1)"

definition rebuild_indexes_locked :: "gateway \<Rightarrow> gateway result" where
  "rebuild_indexes_locked g =
     rbind (rebuild_indexes (gw_orders g)
              (g\<lparr>gw_exchange_id_index := Map.empty, gw_exchange_client_id_index := Map.empty,
                 gw_positions := replicate kSymbolCount 0\<rparr>))
       (\<lambda>g1. Inr (publish_positions_if_dirty_locked (g1\<lparr>gw_positions_dirty := True\<rparr>)))"

definition no_health :: venue_health where
  "no_health = \<lparr>vh_connected = False, vh_ever_connected = False, vh_reconciliation_required = False,
     vh_sequence_gaps = 0, vh_dropped_events = 0\<rparr>"

definition empty_gateway :: "u64 \<Rightarrow> gateway" where
  "empty_gateway next_sequence =
     \<lparr>gw_orders = [], gw_exchange_id_index = Map.empty, gw_exchange_client_id_index = Map.empty,
      gw_positions = replicate kSymbolCount 0, gw_positions_dirty = False,
      gw_positions_snap = replicate kSymbolCount 0, gw_health_errors = (\<lambda>_. []),
      gw_deferred_amend_reports = Map.empty, gw_active_operations = {},
      gw_sequence_trackers = (\<lambda>_. new_tracker), gw_health = (\<lambda>_. no_health),
      gw_reconciliation_pending = {}, gw_started = False, gw_next_sequence = next_sequence, gw_trace = []\<rparr>"

fun load_orders :: "order list \<Rightarrow> gateway \<Rightarrow> gateway" where
  "load_orders [] g = g"
| "load_orders (ord # rest) g = load_orders rest (put_order (client_order_id ord) ord g)"

definition construct :: "u64 \<Rightarrow> order list \<Rightarrow> gateway result" where
  "construct next_sequence recovered =
     rebuild_indexes_locked (load_orders recovered (empty_gateway next_sequence))"

section \<open>Reconciliation\<close>

record reconciliation =
  rc_gateway :: gateway
  rc_reconciled :: nat
  rc_unresolved :: nat
  rc_observed :: "string set"

definition count_result :: "string \<Rightarrow> reconciliation \<Rightarrow> reconciliation" where
  "count_result cid rc =
     (case order_at (rc_gateway rc) cid of
        Some cur \<Rightarrow>
          if pending_action cur \<noteq> NoAction then rc\<lparr>rc_unresolved := rc_unresolved rc + 1\<rparr>
          else rc\<lparr>rc_reconciled := rc_reconciled rc + 1\<rparr>
      | None \<Rightarrow> rc\<lparr>rc_reconciled := rc_reconciled rc + 1\<rparr>)"

definition reconcile_open_report ::
    "int \<Rightarrow> exn option \<Rightarrow> venue \<Rightarrow> execution_report \<Rightarrow> reconciliation \<Rightarrow> reconciliation \<times> unit result" where
  "reconcile_open_report now store_error v rep rc =
     (case locate_order_locked v rep (rc_gateway rc) of
        Inl e \<Rightarrow> (rc, Inl e)
      | Inr None \<Rightarrow> (rc, Inr ())
      | Inr (Some key) \<Rightarrow>
          let ord = the (order_at (rc_gateway rc) key); cid = client_order_id ord
          in if cid = [] then (rc, Inr ())
             else if is_terminal (status ord) then
               (rc\<lparr>rc_unresolved := rc_unresolved rc + 1,
                   rc_gateway := record_event Critical ''RECONCILIATION'' ''TERMINAL_ORDER_STILL_OPEN''
                     ''Venue reports an order open while the journal records a terminal state''
                     (Some v) cid [] None (rc_gateway rc)\<rparr>, Inr ())
             else
               let rc1 = rc\<lparr>rc_observed := insert cid (rc_observed rc)\<rparr>
               in (case apply_execution now store_error v (rep\<lparr>rp_client_order_id := cid\<rparr>) (rc_gateway rc1) of
                     (g1, Inl e) \<Rightarrow> (rc1\<lparr>rc_gateway := g1\<rparr>, Inl e)
                   | (g1, Inr _) \<Rightarrow> (count_result cid (rc1\<lparr>rc_gateway := g1\<rparr>), Inr ())))"

fun reconcile_open_reports ::
    "int \<Rightarrow> exn option \<Rightarrow> venue \<Rightarrow> execution_report list \<Rightarrow> reconciliation \<Rightarrow> reconciliation \<times> unit result" where
  "reconcile_open_reports now store_error v [] rc = (rc, Inr ())"
| "reconcile_open_reports now store_error v (rep # reps) rc =
     (case reconcile_open_report now store_error v rep rc of
        (rc1, Inl e) \<Rightarrow> (rc1, Inl e)
      | (rc1, Inr _) \<Rightarrow> reconcile_open_reports now store_error v reps rc1)"

text \<open>The critical section for an order the venue does not know.\<close>

definition mark_unknown :: "string \<Rightarrow> gateway \<Rightarrow> gateway \<times> persist_ticket result" where
  "mark_unknown cid g =
     (case order_at g cid of
        None \<Rightarrow> (g, Inl (Out_of_range ''unordered_map::at''))
      | Some cur \<Rightarrow>
          let ord = cur\<lparr>status := Unknown, pending_action := ReconcileAction, version := version cur + 1\<rparr>
          in (case prepare_persist ord False (put_order cid ord g) of (t, g1) \<Rightarrow> (g1, Inr t)))"

definition candidate_failed :: "venue \<Rightarrow> exn \<Rightarrow> reconciliation \<Rightarrow> reconciliation" where
  "candidate_failed v e rc =
     rc\<lparr>rc_gateway := publish_health_error_locked v (what e) (rc_gateway rc),
        rc_unresolved := rc_unresolved rc + 1\<rparr>"

definition reconcile_missing :: "exn option \<Rightarrow> venue \<Rightarrow> string \<Rightarrow> reconciliation \<Rightarrow> reconciliation" where
  "reconcile_missing store_error v cid rc =
     (case mark_unknown cid (rc_gateway rc) of
        (g1, Inl e) \<Rightarrow> candidate_failed v e (rc\<lparr>rc_gateway := g1\<rparr>)
      | (g1, Inr t) \<Rightarrow>
          (case commit_persist store_error t g1 of
             (g2, Inl e) \<Rightarrow> candidate_failed v e (rc\<lparr>rc_gateway := g2\<rparr>)
           | (g2, Inr _) \<Rightarrow>
               rc\<lparr>rc_gateway := emit (Notified (the (order_at g2 cid))) g2,
                  rc_unresolved := rc_unresolved rc + 1\<rparr>))"

definition reconcile_candidate ::
    "int \<Rightarrow> exn option \<Rightarrow> venue \<Rightarrow> (order \<Rightarrow> execution_report option result) \<Rightarrow> string \<Rightarrow>
     reconciliation \<Rightarrow> reconciliation" where
  "reconcile_candidate now store_error v query cid rc =
     (if cid \<in> rc_observed rc then rc
      else
        (case order_at (rc_gateway rc) cid of
           None \<Rightarrow> rc
         | Some ord \<Rightarrow>
             if cid \<in> gw_active_operations (rc_gateway rc) \<or> is_terminal (status ord) then rc
             else
               (case query ord of
                  Inl e \<Rightarrow> candidate_failed v e rc
                | Inr (Some rep) \<Rightarrow>
                    (case apply_execution now store_error v rep (rc_gateway rc) of
                       (g1, Inl e) \<Rightarrow> candidate_failed v e (rc\<lparr>rc_gateway := g1\<rparr>)
                     | (g1, Inr _) \<Rightarrow> count_result (client_order_id ord) (rc\<lparr>rc_gateway := g1\<rparr>))
                | Inr None \<Rightarrow> reconcile_missing store_error v cid rc)))"

fun reconcile_candidates ::
    "int \<Rightarrow> exn option \<Rightarrow> venue \<Rightarrow> (order \<Rightarrow> execution_report option result) \<Rightarrow> string list \<Rightarrow>
     reconciliation \<Rightarrow> reconciliation" where
  "reconcile_candidates now store_error v query [] rc = rc"
| "reconcile_candidates now store_error v query (cid # cids) rc =
     reconcile_candidates now store_error v query cids (reconcile_candidate now store_error v query cid rc)"

definition candidate_ids :: "venue \<Rightarrow> gateway \<Rightarrow> string list" where
  "candidate_ids v g = map fst (filter (\<lambda>(cid, ord). venue ord = v) (gw_orders g))"

definition reconcile_summary :: "reconciliation \<Rightarrow> string" where
  "reconcile_summary rc =
     nat_to_string (rc_reconciled rc) @ '' reconciled, '' @ nat_to_string (rc_unresolved rc) @ '' unresolved''"

definition reconcile ::
    "int \<Rightarrow> exn option \<Rightarrow> venue \<Rightarrow> execution_report list option result \<Rightarrow>
     (order \<Rightarrow> execution_report option result) \<Rightarrow> gateway \<Rightarrow> gateway \<times> operation_result" where
  "reconcile now store_error v open_orders query g =
     (let g0 = record_event Info ''RECONCILIATION'' ''RECONCILIATION_STARTED'' ''Venue reconciliation started''
                 (Some v) [] [] None g;
          cids = candidate_ids v g0;
          rc0 = \<lparr>rc_gateway = g0, rc_reconciled = 0, rc_unresolved = 0, rc_observed = {}\<rparr>;
          rc1 = (case open_orders of
                   Inl e \<Rightarrow> candidate_failed v e rc0
                 | Inr None \<Rightarrow>
                     rc0\<lparr>rc_unresolved := 1,
                        rc_gateway := record_event Warning ''RECONCILIATION'' ''OPEN_ORDER_SNAPSHOT_UNAVAILABLE''
                          ''Venue did not provide an authoritative open-order snapshot'' (Some v) [] [] None g0\<rparr>
                 | Inr (Some reps) \<Rightarrow>
                     (case reconcile_open_reports now store_error v reps rc0 of
                        (rc, Inl e) \<Rightarrow> candidate_failed v e rc
                      | (rc, Inr _) \<Rightarrow> rc));
          rc2 = reconcile_candidates now store_error v query cids rc1;
          g1 = update_health v (\<lambda>h. h\<lparr>vh_reconciliation_required := (rc_unresolved rc2 \<noteq> 0)\<rparr>) (rc_gateway rc2)
      in if rc_unresolved rc2 \<noteq> 0 then
           (record_event Warning ''RECONCILIATION'' ''RECONCILIATION_INCOMPLETE'' (reconcile_summary rc2)
              (Some v) [] [] None g1,
            op_failure ''RECONCILIATION_INCOMPLETE'' (reconcile_summary rc2) None)
         else
           let msg = nat_to_string (rc_reconciled rc2) @ '' orders reconciled against venue state''
           in (record_event Info ''RECONCILIATION'' ''RECONCILIATION_SUCCEEDED'' msg (Some v) [] [] None
                 (g1\<lparr>gw_sequence_trackers := (gw_sequence_trackers g1)(v := clear_gap (gw_sequence_trackers g1 v))\<rparr>),
               \<lparr>op_ok = True, op_idempotent_replay = False, op_code = [], op_message = msg, op_order = None\<rparr>))"

section \<open>Connections, dropped events, schedule\<close>

definition schedule_reconciliation :: "venue \<Rightarrow> gateway \<Rightarrow> gateway" where
  "schedule_reconciliation v g = g\<lparr>gw_reconciliation_pending := insert v (gw_reconciliation_pending g)\<rparr>"

text \<open>One turn of \<open>run_reconciliation_worker\<close>: the periodic deadline schedules both venues when nothing
  is pending; OKX is taken before Binance.\<close>

definition reconciliation_turn :: "bool \<Rightarrow> gateway \<Rightarrow> gateway \<times> venue option" where
  "reconciliation_turn periodic_due g =
     (let pending = (if gw_reconciliation_pending g = {} \<and> periodic_due then {Okx, Binance}
                     else gw_reconciliation_pending g)
      in if pending = {} then (g, None)
         else
           let v = (if Okx \<in> pending then Okx else Binance)
           in (g\<lparr>gw_reconciliation_pending := pending - {v}\<rparr>, if gw_started g then Some v else None))"

definition connection_changed :: "gateway_config \<Rightarrow> venue \<Rightarrow> bool \<Rightarrow> string \<Rightarrow> gateway \<Rightarrow> gateway" where
  "connection_changed cf v connected why g =
     (let h = gw_health g v;
          reconnect = (connected \<and> \<not> vh_connected h \<and> vh_ever_connected h);
          g1 = update_health v (\<lambda>h. h\<lparr>vh_connected := connected,
                 vh_reconciliation_required := (vh_reconciliation_required h \<or> \<not> connected \<or> reconnect),
                 vh_ever_connected := (vh_ever_connected h \<or> connected)\<rparr>) g;
          g2 = (if connected then
                  record_event (if reconnect then Warning else Info) ''CONNECTIVITY''
                    (if reconnect then ''VENUE_RECONNECTED'' else ''VENUE_CONNECTED'')
                    (if reconnect then ''Venue connection recovered; reconciliation was scheduled''
                     else ''Venue connection established'') (Some v) [] [] None
                    (publish_health_error_locked v [] g1)
                else if vh_connected h \<or> gw_health_errors g1 v = [] then
                  let msg = (if why = [] then ''venue connection disconnected'' else why)
                  in record_event (if gw_started g then Critical else Info) ''CONNECTIVITY''
                       (if gw_started g then ''VENUE_DISCONNECTED'' else ''VENUE_STOPPED'') msg (Some v) [] [] None
                       (publish_health_error_locked v msg g1)
                else g1)
      in if reconnect \<and> cf_reconcile_on_reconnect cf then schedule_reconciliation v g2 else g2)"

text \<open>\<open>receive_execution\<close> when the venue's lane refuses a report.\<close>

definition execution_dropped :: "venue \<Rightarrow> bool \<Rightarrow> gateway \<Rightarrow> gateway" where
  "execution_dropped v producer_violation g =
     (let err = (if producer_violation then ''adapter violated its serialized execution-callback contract''
                 else ''venue execution lane remained full'')
      in record_event Critical ''BACKPRESSURE'' ''EXECUTION_EVENT_DROPPED'' err (Some v) [] [] None
         (publish_health_error_locked v err
         (update_health v (\<lambda>h. h\<lparr>vh_dropped_events := vh_dropped_events h + 1,
            vh_reconciliation_required := True\<rparr>) g)))"

section \<open>Queries\<close>

definition get_order :: "gateway \<Rightarrow> string \<Rightarrow> order option" where
  "get_order g cid = order_at g cid"

record order_snapshot =
  os_client_order_id :: string
  os_exchange_order_id :: string
  os_venue :: venue
  os_symbol :: string
  os_side :: side
  os_type :: order_type
  os_price :: "decimal option"
  os_quantity :: decimal
  os_time_in_force :: time_in_force
  os_status :: order_status
  os_pending_action :: pending_action
  os_pending_amend_price :: "decimal option"
  os_pending_amend_quantity :: "decimal option"
  os_filled_quantity :: decimal
  os_average_fill_price :: "decimal option"
  os_rejection_reason :: string
  os_version :: u64
  os_last_sequence :: "u64 option"
  os_created_at_ms :: int
  os_updated_at_ms :: int

definition snapshot_of :: "order \<Rightarrow> order_snapshot" where
  "snapshot_of ord =
     \<lparr>os_client_order_id = client_order_id ord, os_exchange_order_id = exchange_order_id ord,
      os_venue = venue ord, os_symbol = symbol ord, os_side = side ord, os_type = type ord,
      os_price = price ord, os_quantity = quantity ord, os_time_in_force = time_in_force ord,
      os_status = status ord, os_pending_action = pending_action ord,
      os_pending_amend_price = pending_amend_price ord, os_pending_amend_quantity = pending_amend_quantity ord,
      os_filled_quantity = filled_quantity ord, os_average_fill_price = average_fill_price ord,
      os_rejection_reason = rejection_reason ord, os_version = version ord,
      os_last_sequence = last_sequence ord, os_created_at_ms = created_at_ms ord,
      os_updated_at_ms = updated_at_ms ord\<rparr>"

definition get_snapshot :: "gateway \<Rightarrow> string \<Rightarrow> order_snapshot option" where
  "get_snapshot g cid = map_option snapshot_of (order_at g cid)"

text \<open>The order of listings: creation time, then client order id by bytes.\<close>

fun string_less :: "string \<Rightarrow> string \<Rightarrow> bool" where
  "string_less [] [] = False"
| "string_less [] (_ # _) = True"
| "string_less (_ # _) [] = False"
| "string_less (a # s) (b # t) =
     ((of_char a :: nat) < of_char b \<or> (of_char a :: nat) = of_char b \<and> string_less s t)"

definition listing_le :: "order \<Rightarrow> order \<Rightarrow> bool" where
  "listing_le a b \<longleftrightarrow>
     (if created_at_ms a \<noteq> created_at_ms b then created_at_ms a < created_at_ms b
      else \<not> string_less (client_order_id b) (client_order_id a))"

fun insert_listing :: "order \<Rightarrow> order list \<Rightarrow> order list" where
  "insert_listing x [] = [x]"
| "insert_listing x (y # ys) = (if listing_le x y then x # y # ys else y # insert_listing x ys)"

definition list_orders :: "gateway \<Rightarrow> venue option \<Rightarrow> order_status option \<Rightarrow> order list" where
  "list_orders g v st =
     foldr insert_listing
       (filter (\<lambda>ord. (case v of None \<Rightarrow> True | Some x \<Rightarrow> venue ord = x) \<and>
                      (case st of None \<Rightarrow> True | Some s \<Rightarrow> status ord = s)) (map snd (gw_orders g))) []"

definition list_snapshots :: "gateway \<Rightarrow> venue option \<Rightarrow> order_status option \<Rightarrow> order_snapshot list" where
  "list_snapshots g v st = map snapshot_of (list_orders g v st)"

definition positions_snapshot :: "gateway \<Rightarrow> decimal list" where
  "positions_snapshot g = gw_positions_snap g"

record venue_health_view =
  hv_health :: venue_health
  hv_last_error :: string

definition health_view :: "gateway \<Rightarrow> venue \<Rightarrow> venue_health_view" where
  "health_view g v = \<lparr>hv_health = gw_health g v, hv_last_error = gw_health_errors g v\<rparr>"

end
