(* ===== verification/Abex_Gateway_Inv.thy ===== *)
theory Abex_Gateway_Inv
  imports Abex_Gateway_Admin
begin

text \<open>
  Invariants of the gateway and their preservation by every critical section.

  \<^item> \<open>gw_wf\<close>: keys are the orders' client ids and occur once, both id indexes point to existing orders
    (so \<open>orders_.at\<close> never throws), there is one position per registered symbol. It survives every
    section, also one that ends in an exception.
  \<^item> \<open>positions_exact\<close>: the position of a symbol is the sum of the exposures of its orders. It survives
    every section that returns.
\<close>

section \<open>Definitions\<close>

definition book_exposure :: "gateway \<Rightarrow> string \<Rightarrow> int" where
  "book_exposure g smb = sum_list (map (\<lambda>(k, ord). if symbol ord = smb then exposure ord else 0) (gw_orders g))"

definition gw_wf :: "gateway \<Rightarrow> bool" where
  "gw_wf g \<longleftrightarrow> distinct (map fst (gw_orders g)) \<and>
     (\<forall>(k, ord) \<in> set (gw_orders g). client_order_id ord = k) \<and>
     ran (gw_exchange_id_index g) \<subseteq> fst ` set (gw_orders g) \<and>
     ran (gw_exchange_client_id_index g) \<subseteq> fst ` set (gw_orders g) \<and>
     length (gw_positions g) = kSymbolCount"

text \<open>The position of \<open>smb\<close> is off by \<open>d\<close>, every other one is exact.\<close>

definition positions_off :: "string \<Rightarrow> int \<Rightarrow> gateway \<Rightarrow> bool" where
  "positions_off smb d g \<longleftrightarrow>
     (\<forall>s. symbol_id_rt s \<noteq> UnknownSymbol \<longrightarrow>
        raw (gw_positions g ! to_slot (symbol_id_rt s)) = book_exposure g s + (if s = smb then d else 0))"

definition positions_exact :: "gateway \<Rightarrow> bool" where
  "positions_exact g \<longleftrightarrow>
     (\<forall>s. symbol_id_rt s \<noteq> UnknownSymbol \<longrightarrow>
        raw (gw_positions g ! to_slot (symbol_id_rt s)) = book_exposure g s)"

text \<open>The part of the trace that leaves the process: journal writes and venue calls.\<close>

fun is_io :: "effect \<Rightarrow> bool" where
  "is_io (Journaled _ _ _) = True"
| "is_io (VenuePlace _) = True"
| "is_io (VenueCancel _) = True"
| "is_io (VenueAmend _ _ _) = True"
| "is_io (Notified _) = False"
| "is_io (Recorded _ _ _ _ _ _ _ _) = False"

text \<open>The calls of the venues and the order records of the journal. Operational events, which the code appends to the same file, are left out:
  they are \<open>Recorded\<close> effects of the whole trace \<open>gw_trace\<close>.\<close>

definition io_trace :: "gateway \<Rightarrow> effect list" where
  "io_trace g = filter is_io (gw_trace g)"

section \<open>Frames of the helpers\<close>

lemma put_order_frame [simp]:
  "gw_orders (put_order k ord g) = AList.update k ord (gw_orders g)"
  "gw_positions (put_order k ord g) = gw_positions g"
  "gw_exchange_id_index (put_order k ord g) = gw_exchange_id_index g"
  "gw_exchange_client_id_index (put_order k ord g) = gw_exchange_client_id_index g"
  "gw_active_operations (put_order k ord g) = gw_active_operations g"
  "gw_trace (put_order k ord g) = gw_trace g"
  "order_at (put_order k ord g) c = (if c = k then Some ord else order_at g c)"
  by (simp_all add: put_order_def order_at_def)

lemma emit_frame [simp]:
  "gw_orders (emit e g) = gw_orders g" "gw_positions (emit e g) = gw_positions g"
  "gw_exchange_id_index (emit e g) = gw_exchange_id_index g"
  "gw_exchange_client_id_index (emit e g) = gw_exchange_client_id_index g"
  "gw_active_operations (emit e g) = gw_active_operations g"
  "gw_trace (emit e g) = gw_trace g @ [e]" "order_at (emit e g) = order_at g"
  by (simp_all add: emit_def order_at_def fun_eq_iff)

lemma record_event_frame [simp]:
  "gw_orders (record_event sv ct cd ms v ci ri cx g) = gw_orders g"
  "gw_positions (record_event sv ct cd ms v ci ri cx g) = gw_positions g"
  "gw_exchange_id_index (record_event sv ct cd ms v ci ri cx g) = gw_exchange_id_index g"
  "gw_exchange_client_id_index (record_event sv ct cd ms v ci ri cx g) = gw_exchange_client_id_index g"
  "gw_active_operations (record_event sv ct cd ms v ci ri cx g) = gw_active_operations g"
  "io_trace (record_event sv ct cd ms v ci ri cx g) = io_trace g"
  "order_at (record_event sv ct cd ms v ci ri cx g) = order_at g"
  by (simp_all add: record_event_def io_trace_def)

lemma health_frame [simp]:
  "gw_orders (publish_health_error_locked v e g) = gw_orders g"
  "gw_positions (publish_health_error_locked v e g) = gw_positions g"
  "gw_exchange_id_index (publish_health_error_locked v e g) = gw_exchange_id_index g"
  "gw_exchange_client_id_index (publish_health_error_locked v e g) = gw_exchange_client_id_index g"
  "gw_active_operations (publish_health_error_locked v e g) = gw_active_operations g"
  "gw_trace (publish_health_error_locked v e g) = gw_trace g"
  "order_at (publish_health_error_locked v e g) = order_at g"
  "gw_orders (update_health v f g) = gw_orders g"
  "gw_positions (update_health v f g) = gw_positions g"
  "gw_exchange_id_index (update_health v f g) = gw_exchange_id_index g"
  "gw_exchange_client_id_index (update_health v f g) = gw_exchange_client_id_index g"
  "gw_active_operations (update_health v f g) = gw_active_operations g"
  "gw_trace (update_health v f g) = gw_trace g"
  "order_at (update_health v f g) = order_at g"
  by (simp_all add: publish_health_error_locked_def update_health_def order_at_def fun_eq_iff)

lemma publish_positions_frame [simp]:
  "gw_orders (publish_positions_if_dirty_locked g) = gw_orders g"
  "gw_positions (publish_positions_if_dirty_locked g) = gw_positions g"
  "gw_exchange_id_index (publish_positions_if_dirty_locked g) = gw_exchange_id_index g"
  "gw_exchange_client_id_index (publish_positions_if_dirty_locked g) = gw_exchange_client_id_index g"
  "gw_active_operations (publish_positions_if_dirty_locked g) = gw_active_operations g"
  "gw_trace (publish_positions_if_dirty_locked g) = gw_trace g"
  "order_at (publish_positions_if_dirty_locked g) = order_at g"
  by (simp_all add: publish_positions_if_dirty_locked_def order_at_def fun_eq_iff)

lemma index_frame [simp]:
  "gw_orders (index_exchange_id e c g) = gw_orders g"
  "gw_positions (index_exchange_id e c g) = gw_positions g"
  "gw_exchange_id_index (index_exchange_id e c g) = (gw_exchange_id_index g)(e \<mapsto> c)"
  "gw_exchange_client_id_index (index_exchange_id e c g) = gw_exchange_client_id_index g"
  "gw_active_operations (index_exchange_id e c g) = gw_active_operations g"
  "gw_trace (index_exchange_id e c g) = gw_trace g"
  "order_at (index_exchange_id e c g) = order_at g"
  "gw_orders (index_exchange_client_id e c g) = gw_orders g"
  "gw_positions (index_exchange_client_id e c g) = gw_positions g"
  "gw_exchange_id_index (index_exchange_client_id e c g) = gw_exchange_id_index g"
  "gw_exchange_client_id_index (index_exchange_client_id e c g) = (gw_exchange_client_id_index g)(e \<mapsto> c)"
  "gw_active_operations (index_exchange_client_id e c g) = gw_active_operations g"
  "gw_trace (index_exchange_client_id e c g) = gw_trace g"
  "order_at (index_exchange_client_id e c g) = order_at g"
  by (simp_all add: index_exchange_id_def index_exchange_client_id_def order_at_def fun_eq_iff)

lemma observe_sequence_frame [simp]:
  "gw_orders (observe_sequence v rep g) = gw_orders g"
  "gw_positions (observe_sequence v rep g) = gw_positions g"
  "gw_exchange_id_index (observe_sequence v rep g) = gw_exchange_id_index g"
  "gw_exchange_client_id_index (observe_sequence v rep g) = gw_exchange_client_id_index g"
  "gw_active_operations (observe_sequence v rep g) = gw_active_operations g"
  "io_trace (observe_sequence v rep g) = io_trace g"
  "order_at (observe_sequence v rep g) = order_at g"
  by (auto simp: observe_sequence_def order_at_def io_trace_def fun_eq_iff Let_def record_event_def
      split: option.splits prod.splits)

lemma defer_report_frame [simp]:
  "gw_orders (defer_report v c rep g) = gw_orders g"
  "gw_positions (defer_report v c rep g) = gw_positions g"
  "gw_exchange_id_index (defer_report v c rep g) = gw_exchange_id_index g"
  "gw_exchange_client_id_index (defer_report v c rep g) = gw_exchange_client_id_index g"
  "gw_active_operations (defer_report v c rep g) = gw_active_operations g"
  "io_trace (defer_report v c rep g) = io_trace g"
  "order_at (defer_report v c rep g) = order_at g"
  by (simp_all add: defer_report_def order_at_def io_trace_def record_event_def fun_eq_iff)

lemma prepare_persist_frame:
  assumes "prepare_persist ord io g = (t, g')"
  shows "gw_orders g' = gw_orders g" "gw_positions g' = gw_positions g"
    "gw_exchange_id_index g' = gw_exchange_id_index g"
    "gw_exchange_client_id_index g' = gw_exchange_client_id_index g"
    "gw_active_operations g' = gw_active_operations g" "gw_trace g' = gw_trace g"
    "order_at g' = order_at g" "pt_order t = ord" "pt_intent_only t = io"
  using assms by (auto simp: prepare_persist_def order_at_def fun_eq_iff)

lemma io_trace_cong: "gw_trace g = gw_trace g' \<Longrightarrow> io_trace g = io_trace g'"
  by (simp add: io_trace_def)

lemma io_trace_frame [simp]:
  "io_trace (put_order k ord g) = io_trace g" "io_trace (publish_health_error_locked v e g) = io_trace g"
  "io_trace (update_health v f g) = io_trace g" "io_trace (publish_positions_if_dirty_locked g) = io_trace g"
  "io_trace (index_exchange_id e' c g) = io_trace g" "io_trace (index_exchange_client_id e' c g) = io_trace g"
  "io_trace (emit eff g) = io_trace g @ (if is_io eff then [eff] else [])"
  by (simp_all add: io_trace_def)

section \<open>Positions\<close>

lemma position_contribution_eq_Inr_iff:
  "position_contribution ord = Inr c \<longleftrightarrow>
     raw c = exposure ord \<and> (side ord = Buy \<or> raw (conservative_exposure ord) \<noteq> int64_min)"
  by (auto simp: position_contribution_def exposure_def conservative_exposure_def signed_raw_def Let_def
      decimal_Inr_iffs decimal_eq_iff)

lemma position_contribution_signed: "position_contribution ord = signed_quantity (side ord) (conservative_exposure ord)"
  by (simp add: position_contribution_def signed_quantity_def conservative_exposure_def Let_def)

lemma positions_exact_off: "positions_exact g \<longleftrightarrow> positions_off smb 0 g"
  by (simp add: positions_exact_def positions_off_def)

lemma book_exposure_cong: "gw_orders g = gw_orders g' \<Longrightarrow> book_exposure g smb = book_exposure g' smb"
  by (simp add: book_exposure_def)

lemma positions_off_cong:
  "gw_orders g = gw_orders g' \<Longrightarrow> gw_positions g = gw_positions g' \<Longrightarrow>
     positions_off smb d g \<longleftrightarrow> positions_off smb d g'"
  by (simp add: positions_off_def book_exposure_def)

lemma positions_exact_cong:
  "gw_orders g = gw_orders g' \<Longrightarrow> gw_positions g = gw_positions g' \<Longrightarrow>
     positions_exact g \<longleftrightarrow> positions_exact g'"
  by (simp add: positions_exact_def book_exposure_def)

lemma book_exposure_put_order:
  assumes "distinct (map fst (gw_orders g))"
  shows "book_exposure (put_order k ord g) s =
    book_exposure g s + (if symbol ord = s then exposure ord else 0) -
    (case order_at g k of None \<Rightarrow> 0 | Some old \<Rightarrow> if symbol old = s then exposure old else 0)"
  using sum_list_AList_update [OF assms, of "\<lambda>(k, ord). if symbol ord = s then exposure ord else 0" k ord]
  by (simp add: book_exposure_def order_at_def split: option.splits)

lemma put_order_off:
  assumes "gw_wf g" and "positions_exact g" and "order_at g k = Some old" and "symbol ord = symbol old"
  shows "positions_off (symbol ord) (exposure old - exposure ord) (put_order k ord g)"
  using assms by (auto simp: positions_off_def positions_exact_def book_exposure_put_order gw_wf_def)

lemma put_new_order_off:
  assumes "gw_wf g" and "positions_exact g" and "order_at g k = None"
  shows "positions_off (symbol ord) (- exposure ord) (put_order k ord g)"
  using assms by (auto simp: positions_off_def positions_exact_def book_exposure_put_order gw_wf_def)

lemma adjust_position_frame:
  assumes "adjust_position_locked smb p c g = Inr g'"
  shows "gw_orders g' = gw_orders g" "gw_exchange_id_index g' = gw_exchange_id_index g"
    "gw_exchange_client_id_index g' = gw_exchange_client_id_index g"
    "gw_active_operations g' = gw_active_operations g" "gw_trace g' = gw_trace g"
    "length (gw_positions g') = length (gw_positions g)" "order_at g' = order_at g"
  using assms by (auto simp: adjust_position_locked_def Let_def rbind_eq_Inr_iff order_at_def fun_eq_iff
      split: if_splits)

lemma to_slot_inject: "i \<noteq> UnknownSymbol \<Longrightarrow> j \<noteq> UnknownSymbol \<Longrightarrow> to_slot i = to_slot j \<longleftrightarrow> i = j"
  by (cases i; cases j) simp_all

lemma adjust_position_off:
  assumes adj: "adjust_position_locked smb p c g = Inr g'" and "positions_off smb d g"
    and len: "length (gw_positions g) = kSymbolCount"
  shows "positions_off smb (d + raw c - raw p) g'"
proof -
  have pos: "raw (gw_positions g' ! to_slot (symbol_id_rt s)) =
      raw (gw_positions g ! to_slot (symbol_id_rt s)) + (if s = smb then raw c - raw p else 0)"
    if "symbol_id_rt s \<noteq> UnknownSymbol" for s
  proof (cases "symbol_id_rt smb = UnknownSymbol")
    case True
    with adj that show ?thesis by (auto simp: adjust_position_locked_def)
  next
    case False
    then have slot: "to_slot (symbol_id_rt smb) < length (gw_positions g)"
      using to_slot_bound len by simp
    have eq: "to_slot (symbol_id_rt s) = to_slot (symbol_id_rt smb) \<longleftrightarrow> s = smb"
      using that False to_slot_inject symbol_slot_inject by blast
    from adj False show ?thesis
      using slot eq by (auto simp: adjust_position_locked_def Let_def rbind_eq_Inr_iff decimal_Inr_iffs
          nth_list_update)
  qed
  then show ?thesis
    using assms(2) adjust_position_frame(1) [OF adj]
    by (auto simp: positions_off_def book_exposure_def)
qed

text \<open>The pattern of every section that changes an order: replace it, then move the position by the
  difference of the contributions.\<close>

lemma replace_order_exact:
  assumes "gw_wf g" and "positions_exact g" and "order_at g k = Some old"
    and "symbol ord = symbol old" and "position_contribution old = Inr p"
    and "gw_orders g1 = AList.update k ord (gw_orders g)" and "gw_positions g1 = gw_positions g"
    and "rbind (position_contribution ord) (\<lambda>c. adjust_position_locked (symbol ord) p c g1) = Inr g2"
  shows "positions_exact g2"
proof -
  obtain c where c: "position_contribution ord = Inr c" and adj: "adjust_position_locked (symbol ord) p c g1 = Inr g2"
    using assms(8) by (auto simp: rbind_eq_Inr_iff)
  have "positions_off (symbol ord) (exposure old - exposure ord) g1"
    using put_order_off [OF assms(1-4)] assms(6,7) positions_off_cong [of "put_order k ord g" g1] by simp
  moreover have "length (gw_positions g1) = kSymbolCount" using assms(1,7) by (simp add: gw_wf_def)
  ultimately have "positions_off (symbol ord) (exposure old - exposure ord + raw c - raw p) g2"
    using adj adjust_position_off by blast
  then show ?thesis
    using c assms(5) by (simp add: position_contribution_eq_Inr_iff positions_exact_off [of _ "symbol ord"])
qed

lemma insert_order_exact:
  assumes "gw_wf g" and "positions_exact g" and "order_at g k = None"
    and "gw_orders g1 = gw_orders g" and "gw_positions g1 = gw_positions g"
    and "rbind (position_contribution ord) (\<lambda>c. adjust_position_locked (symbol ord) 0 c g1) = Inr g2"
  shows "positions_exact (put_order k ord g2)"
proof -
  obtain c where c: "position_contribution ord = Inr c" and adj: "adjust_position_locked (symbol ord) 0 c g1 = Inr g2"
    using assms(6) by (auto simp: rbind_eq_Inr_iff)
  have "positions_exact g1" using assms(2,4,5) positions_exact_cong [of g g1] by simp
  then have "positions_off (symbol ord) 0 g1" by (rule iffD1 [OF positions_exact_off])
  then have off: "positions_off (symbol ord) (raw c) g2"
    using adjust_position_off [OF adj, of 0] assms(1,5) by (simp add: gw_wf_def)
  have "gw_orders g2 = gw_orders g" using adjust_position_frame(1) [OF adj] assms(4) by simp
  then have "distinct (map fst (gw_orders g2))" and "order_at g2 k = None"
    using assms(1,3) by (simp_all add: gw_wf_def order_at_def)
  note new = book_exposure_put_order [OF this(1), of k ord] this(2)
  have "raw c = exposure ord" using c by (simp add: position_contribution_eq_Inr_iff)
  with off show ?thesis
    unfolding positions_off_def positions_exact_def new(1) by (simp add: new(2) eq_commute [of "symbol ord"])
qed

section \<open>Well-formedness\<close>

lemma gw_wf_put:
  assumes "gw_wf g" and "client_order_id ord = k" and "gw_orders g' = AList.update k ord (gw_orders g)"
    and "ran (gw_exchange_id_index g') \<subseteq> insert k (fst ` set (gw_orders g))"
    and "ran (gw_exchange_client_id_index g') \<subseteq> insert k (fst ` set (gw_orders g))"
    and "length (gw_positions g') = kSymbolCount"
  shows "gw_wf g'"
proof -
  let ?al = "AList.update k ord (gw_orders g)"
  have dist: "distinct (map fst ?al)" using assms(1) by (simp add: gw_wf_def distinct_update)
  have "client_order_id x = c" if "(c, x) \<in> set ?al" for c x
  proof -
    have "map_of ?al c = Some x" by (rule map_of_is_SomeI [OF dist that])
    then show ?thesis
      using assms(1,2) map_of_SomeD [of "gw_orders g" c x] by (auto simp: gw_wf_def split: if_splits)
  qed
  then have "\<forall>(c, x) \<in> set ?al. client_order_id x = c" by blast
  with dist show ?thesis
    using assms(3-6) dom_update [of k ord "gw_orders g"] by (simp add: gw_wf_def)
qed

lemma gw_wf_cong:
  "gw_orders g = gw_orders g' \<Longrightarrow> gw_exchange_id_index g = gw_exchange_id_index g' \<Longrightarrow>
   gw_exchange_client_id_index g = gw_exchange_client_id_index g' \<Longrightarrow>
   length (gw_positions g) = length (gw_positions g') \<Longrightarrow> gw_wf g \<longleftrightarrow> gw_wf g'"
  by (simp add: gw_wf_def)

lemma order_at_Some_mem:
  assumes "gw_wf g" and "order_at g k = Some ord"
  shows "(k, ord) \<in> set (gw_orders g)" and "client_order_id ord = k" and "k \<in> fst ` set (gw_orders g)"
proof -
  show mem: "(k, ord) \<in> set (gw_orders g)" using assms(2) map_of_SomeD by (simp add: order_at_def)
  then show "client_order_id ord = k" using assms(1) by (auto simp: gw_wf_def)
  show "k \<in> fst ` set (gw_orders g)" using mem by force
qed

lemma order_at_of_dom: "k \<in> fst ` set (gw_orders g) \<Longrightarrow> \<exists>ord. order_at g k = Some ord"
  unfolding order_at_def using map_of_eq_None_iff [of "gw_orders g" k] by (cases "map_of (gw_orders g) k") auto

lemma order_at_cong: "gw_orders g = gw_orders g' \<Longrightarrow> order_at g = order_at g'"
  by (simp add: order_at_def fun_eq_iff)

section \<open>Locating orders\<close>

lemma owned_by_venue_total:
  assumes "gw_wf g" and "key \<in> ran (gw_exchange_id_index g) \<union> ran (gw_exchange_client_id_index g)"
  shows "\<exists>ord. order_at g key = Some ord \<and>
    owned_by_venue v g key = Inr (if venue ord = v then Some key else None)"
proof -
  have "key \<in> fst ` set (gw_orders g)" using assms by (auto simp: gw_wf_def)
  then obtain ord where "order_at g key = Some ord" using order_at_of_dom by blast
  then show ?thesis by (simp add: owned_by_venue_def)
qed

lemma locate_order_total:
  assumes "gw_wf g"
  obtains (missing) "locate_order_locked v rep g = Inr None"
  | (found) key ord where "locate_order_locked v rep g = Inr (Some key)"
      and "order_at g key = Some ord" and "venue ord = v"
proof -
  have idx: "owned_by_venue v g key = Inr None \<or>
      (\<exists>ord. owned_by_venue v g key = Inr (Some key) \<and> order_at g key = Some ord \<and> venue ord = v)"
    if "key \<in> ran (gw_exchange_id_index g) \<union> ran (gw_exchange_client_id_index g)" for key
    using owned_by_venue_total [OF assms that, of v] by (auto split: if_splits)
  have by_alias: "locate_by_alias v rep g = Inr None \<or>
      (\<exists>key ord. locate_by_alias v rep g = Inr (Some key) \<and> order_at g key = Some ord \<and> venue ord = v)"
    using idx by (cases "gw_exchange_client_id_index g (rp_client_order_id rep)")
      (auto simp: locate_by_alias_def dest: ranI)
  have exch: "locate_by_exchange_id v rep g = Inr None \<or>
      (\<exists>key ord. locate_by_exchange_id v rep g = Inr (Some key) \<and> order_at g key = Some ord \<and> venue ord = v)"
    using idx by (cases "gw_exchange_id_index g (rp_exchange_order_id rep)")
      (auto simp: locate_by_exchange_id_def dest: ranI)
  have direct: "locate_direct v rep g = Some key \<Longrightarrow> \<exists>ord. order_at g key = Some ord \<and> venue ord = v" for key
    by (auto simp: locate_direct_def split: option.splits if_splits)
  show thesis
  proof (cases "locate_direct v rep g")
    case (Some key)
    with direct [OF Some] show thesis by (auto simp: locate_order_locked_def intro: found)
  next
    case None
    with by_alias exch show thesis by (auto simp: locate_order_locked_def intro: missing found)
  qed
qed

section \<open>The core of the state\<close>

definition core_same :: "gateway \<Rightarrow> gateway \<Rightarrow> bool" where
  "core_same g g' \<longleftrightarrow> gw_orders g' = gw_orders g \<and> gw_positions g' = gw_positions g \<and>
     gw_exchange_id_index g' = gw_exchange_id_index g \<and>
     gw_exchange_client_id_index g' = gw_exchange_client_id_index g"

lemma core_same_inv:
  assumes "core_same g g'"
  shows "gw_wf g' \<longleftrightarrow> gw_wf g" and "positions_exact g' \<longleftrightarrow> positions_exact g" and "order_at g' = order_at g"
  using assms gw_wf_cong [of g' g] positions_exact_cong [of g' g] order_at_cong [of g' g]
  by (simp_all add: core_same_def)

lemma core_same_refl [simp]: "core_same g g"
  by (simp add: core_same_def)

lemma core_same_trans: "core_same a b \<Longrightarrow> core_same b c \<Longrightarrow> core_same a c"
  by (simp add: core_same_def)

text \<open>One order, present under its key, is replaced by one with the same client id and symbol; both
  indexes may get entries that point to it.\<close>

definition order_replaced :: "string \<Rightarrow> order \<Rightarrow> gateway \<Rightarrow> gateway \<Rightarrow> bool" where
  "order_replaced key ord g g' \<longleftrightarrow>
     gw_orders g' = AList.update key ord (gw_orders g) \<and> length (gw_positions g') = length (gw_positions g) \<and>
     ran (gw_exchange_id_index g') \<subseteq> insert key (ran (gw_exchange_id_index g)) \<and>
     ran (gw_exchange_client_id_index g') \<subseteq> insert key (ran (gw_exchange_client_id_index g))"

lemma order_replaced_wf:
  "order_replaced key ord g g' \<Longrightarrow> gw_wf g \<Longrightarrow> client_order_id ord = key \<Longrightarrow> gw_wf g'"
  by (rule gw_wf_put [of g ord key]) (auto simp: order_replaced_def gw_wf_def)

lemma order_replaced_order_at:
  "order_replaced key ord g g' \<Longrightarrow> order_at g' c = (if c = key then Some ord else order_at g c)"
  by (simp add: order_replaced_def order_at_def)

lemma ran_upd_subset: "ran (m(a \<mapsto> b)) \<subseteq> insert b (ran m)"
  by (auto simp: ran_def)

lemma identity_fields:
  assumes "order_identity ord' = order_identity ord"
  shows "client_order_id ord' = client_order_id ord" "venue ord' = venue ord" "symbol ord' = symbol ord"
    "side ord' = side ord" "type ord' = type ord" "time_in_force ord' = time_in_force ord"
  using assms by (simp_all add: order_identity_def)

section \<open>Execution reports\<close>

lemma settle_execution_cases:
  assumes run: "settle_execution v key rep pp prev r ord g0 = (g', res)"
    and base: "gw_orders g0 = AList.update key ord (gw_orders g)" "gw_positions g0 = gw_positions g"
      "gw_exchange_id_index g0 = gw_exchange_id_index g"
      "gw_exchange_client_id_index g0 = gw_exchange_client_id_index g"
    and wf: "gw_wf g" and old: "order_at g key = Some old" and cid: "client_order_id ord = key"
    and smb: "symbol ord = symbol old" and p: "position_contribution old = Inr prev"
  obtains ord2 where "order_replaced key ord2 g g'" and "client_order_id ord2 = key"
    and "order_identity ord2 = order_identity ord"
    and "exposure ord2 = exposure ord"
    and "positions_exact g \<longrightarrow> (\<exists>x. res = Inr x) \<longrightarrow> positions_exact g'"
    and "gw_active_operations g' = gw_active_operations g0" and "io_trace g' = io_trace g0"
    and "\<forall>en. res = Inr (Some en) \<longrightarrow> pt_order (en_ticket en) = ord2 \<and> en_key en = key \<and>
          \<not> pt_intent_only (en_ticket en)"
proof -
  define foreign where "foreign = (rp_client_order_id rep \<noteq> [] \<and> rp_client_order_id rep \<noteq> client_order_id ord)"
  define ord2 where "ord2 = (if foreign then ord\<lparr>exchange_client_id_aliases :=
      insert (rp_client_order_id rep) (exchange_client_id_aliases ord)\<rparr> else ord)"
  define g1 where "g1 = (if exchange_order_id ord \<noteq> []
      then index_exchange_id (exchange_order_id ord) (client_order_id ord) g0 else g0)"
  define g2 where "g2 = (if foreign then index_exchange_client_id (rp_client_order_id rep) (client_order_id ord)
      (put_order key ord2 g1) else g1)"
  note defs = foreign_def ord2_def g1_def g2_def
  have fields: "client_order_id ord2 = key" "symbol ord2 = symbol ord" "exposure ord2 = exposure ord"
    "order_identity ord2 = order_identity ord"
    using cid by (simp_all add: ord2_def exposure_def conservative_exposure_def order_identity_def)
  have orders2: "gw_orders g2 = AList.update key ord2 (gw_orders g)"
    using base(1) by (simp add: g2_def g1_def ord2_def)
  have rest2: "gw_positions g2 = gw_positions g" "gw_active_operations g2 = gw_active_operations g0"
    "io_trace g2 = io_trace g0"
    using base(2) by (simp_all add: g2_def g1_def)
  have rep2: "order_replaced key ord2 g g2"
    using orders2 rest2(1) base(3,4) cid ran_upd_subset
    by (auto simp: order_replaced_def g2_def g1_def split: if_splits dest: ran_upd_subset [THEN subsetD])
  let ?adj = "rbind (position_contribution ord2) (\<lambda>c. adjust_position_locked (symbol ord2) prev c g2)"
  have eq: "settle_execution v key rep pp prev r ord g0 =
      (case ?adj of Inl e \<Rightarrow> (g2, Inl e)
       | Inr g3 \<Rightarrow>
           if disposition r \<noteq> Duplicate \<and> (state_changed r \<or> rp_event_id rep \<noteq> []) then
             (case prepare_persist ord2 False (publish_positions_if_dirty_locked g3) of (t, g4) \<Rightarrow>
                (g4, Inr (Some \<lparr>en_ticket = t,
                  en_severity = (if status ord2 = Rejected then Warning else Info),
                  en_code = execution_event_code r pp ord2,
                  en_message = execution_event_message rep ord2, en_key = key\<rparr>)))
           else (g3, Inr None))"
    unfolding settle_execution_def defs Let_def ..
  show thesis
  proof (cases ?adj)
    case (Inl e)
    with run eq have "g' = g2" and "res = Inl e" by simp_all
    with rep2 fields rest2 show thesis by (intro that [of ord2]) simp_all
  next
    case (Inr g3)
    note frame3 = adjust_position_frame [of "symbol ord2" prev _ g2 g3]
    obtain c where adj: "adjust_position_locked (symbol ord2) prev c g2 = Inr g3"
      using Inr by (auto simp: rbind_eq_Inr_iff)
    note fr = adjust_position_frame [OF adj]
    have rep3: "order_replaced key ord2 g g3" using rep2 fr by (simp add: order_replaced_def)
    have ex3: "positions_exact g \<Longrightarrow> positions_exact g3"
      using replace_order_exact [OF wf _ old _ p orders2 rest2(1) Inr] fields(2) smb by simp
    show thesis
    proof (cases "disposition r \<noteq> Duplicate \<and> (state_changed r \<or> rp_event_id rep \<noteq> [])")
      case True
      obtain t g4 where pp4: "prepare_persist ord2 False (publish_positions_if_dirty_locked g3) = (t, g4)"
        by fastforce
      note fr4 = prepare_persist_frame [OF pp4]
      have g': "g' = g4" and res: "res = Inr (Some \<lparr>en_ticket = t,
                  en_severity = (if status ord2 = Rejected then Warning else Info),
                  en_code = execution_event_code r pp ord2,
                  en_message = execution_event_message rep ord2, en_key = key\<rparr>)"
        using run eq Inr True pp4 by simp_all
      have "order_replaced key ord2 g g4" using rep3 fr4 by (simp add: order_replaced_def)
      moreover have "positions_exact g4 \<longleftrightarrow> positions_exact g3"
        using fr4 by (intro positions_exact_cong) simp_all
      moreover have "io_trace g4 = io_trace g3" using fr4(6) by (simp add: io_trace_def)
      moreover have "io_trace g3 = io_trace g2" using fr(5) by (simp add: io_trace_def)
      ultimately show thesis
        using g' res fields ex3 fr fr4 rest2 by (intro that [of ord2]) auto
    next
      case False
      then have g': "g' = g3" and res: "res = Inr None" using run eq Inr by (auto split: if_splits)
      have "io_trace g3 = io_trace g2" using fr(5) by (simp add: io_trace_def)
      then show thesis using g' res rep3 fields ex3 fr rest2 by (intro that [of ord2]) auto
    qed
  qed
qed

text \<open>What one report does to the state: nothing to the core, or one order replaced.\<close>

lemma apply_execution_locked_cases:
  assumes run: "apply_execution_locked now v rep g = (g', res)" and wf: "gw_wf g"
  obtains (same) "core_same g g'" and "gw_active_operations g' = gw_active_operations g"
      and "io_trace g' = io_trace g" and "res = Inr None \<or> (\<exists>e. res = Inl e)"
  | (replaced) key old ord where "order_at g key = Some old" and "venue old = v"
      and "order_replaced key ord g g'" and "order_identity ord = order_identity old"
      and "client_order_id ord = key"
      and "positions_exact g \<longrightarrow> (\<exists>x. res = Inr x) \<longrightarrow> positions_exact g'"
      and "gw_active_operations g' = gw_active_operations g" and "io_trace g' = io_trace g"
      and "\<forall>en. res = Inr (Some en) \<longrightarrow> pt_order (en_ticket en) = ord \<and> en_key en = key \<and>
            \<not> pt_intent_only (en_ticket en)"
  using wf
proof (cases rule: locate_order_total [where v = v and rep = rep])
  case missing
  with run show thesis by (intro same) (simp_all add: apply_execution_locked_def)
next
  case (found key old)
  note cid = order_at_Some_mem(2) [OF wf found(2)]
  let ?g1 = "observe_sequence v rep g"
  have s1: "core_same g ?g1" by (simp add: core_same_def)
  consider (deferred) "v = Binance \<and> pending_action old = AmendAction \<and>
        (unexpected_generation old rep \<or> canceling_generation old rep)"
    | (noposition) e where "\<not> (v = Binance \<and> pending_action old = AmendAction \<and>
        (unexpected_generation old rep \<or> canceling_generation old rep))" "position_contribution old = Inl e"
    | (go) prev where "\<not> (v = Binance \<and> pending_action old = AmendAction \<and>
        (unexpected_generation old rep \<or> canceling_generation old rep))" "position_contribution old = Inr prev"
    by (cases "position_contribution old") blast+
  then show thesis
  proof cases
    case deferred
    then have "g' = defer_report v (client_order_id old) rep ?g1" and "res = Inr None"
      using run found by (auto simp: apply_execution_locked_def Let_def)
    then show thesis by (intro same) (simp_all add: core_same_def)
  next
    case noposition
    then have "g' = ?g1" and "res = Inl e"
      using run found by (auto simp: apply_execution_locked_def Let_def)
    then show thesis by (intro same) (simp_all add: core_same_def)
  next
    case go
    obtain ord1 r1 where app: "apply_report now old rep = (ord1, r1)" by fastforce
    note ident = apply_report_frame(1) [OF app]
    note idf = identity_fields [OF ident]
    show thesis
    proof (cases r1)
      case (Inl e)
      then have "g' = put_order key ord1 ?g1" and "res = Inl e"
        using run found go app by (auto simp: apply_execution_locked_def Let_def)
      then show thesis
        using found ident cid idf(1) by (intro replaced [of key old ord1]) (auto simp: order_replaced_def)
    next
      case (Inr r)
      show thesis
      proof (cases "disposition r = Invalid")
        case True
        have ord1: "ord1 = old" using report_unchanged_Invalid [OF app [unfolded Inr] True] .
        have "g' = record_event Critical ''ORDER'' ''INVALID_EXECUTION_TRANSITION'' (reason r)
                     (Some v) (client_order_id ord1) [] None
                   (publish_health_error_locked v (reason r) (require_reconciliation v (put_order key ord1 ?g1)))"
          and "res = Inr None"
          using run found go app Inr True by (auto simp: apply_execution_locked_def Let_def)
        moreover have "AList.update key old (gw_orders g) = gw_orders g"
          using found(2) by (simp add: order_at_def update_triv)
        ultimately show thesis using ord1 by (intro same) (simp_all add: core_same_def)
      next
        case False
        have st: "settle_execution v key rep (pending_action old) prev r ord1 (put_order key ord1 ?g1) = (g', res)"
          using run found go app Inr False by (auto simp: apply_execution_locked_def Let_def)
        let ?g2 = "put_order key ord1 ?g1"
        have cid1: "client_order_id ord1 = key" using idf(1) cid by simp
        have b: "gw_orders ?g2 = AList.update key ord1 (gw_orders g)" "gw_positions ?g2 = gw_positions g"
          "gw_exchange_id_index ?g2 = gw_exchange_id_index g"
          "gw_exchange_client_id_index ?g2 = gw_exchange_client_id_index g"
          by simp_all
        obtain ord2 where "order_replaced key ord2 g g'" "client_order_id ord2 = key"
          "order_identity ord2 = order_identity ord1"
          "positions_exact g \<longrightarrow> (\<exists>x. res = Inr x) \<longrightarrow> positions_exact g'"
          "gw_active_operations g' = gw_active_operations ?g2" "io_trace g' = io_trace ?g2"
          "\<forall>en. res = Inr (Some en) \<longrightarrow> pt_order (en_ticket en) = ord2 \<and> en_key en = key \<and>
             \<not> pt_intent_only (en_ticket en)"
          by (rule settle_execution_cases [OF st b wf found(2) cid1 idf(3) go(2)])
        then show thesis using found ident by (intro replaced [of key old ord2]) simp_all
      qed
    qed
  qed
qed

end
