(* ===== verification/Abex_Gateway_Sections.thy ===== *)
theory Abex_Gateway_Sections
  imports Abex_Gateway_Inv
begin

text \<open>
  What each critical section of the commands does to the core of the gateway state, as elimination
  rules: the section answers at once and changes nothing that matters, it fails, or it goes on with
  exactly one order inserted or replaced.
\<close>

section \<open>Place\<close>

lemma replay_if_present_None_iff: "replay_if_present cf request g = None \<longleftrightarrow> order_at g (rq_client_order_id request) = None"
  by (auto simp: replay_if_present_def Let_def split: option.splits)

lemma replay_if_present_frame:
  assumes "replay_if_present cf request g = Some (g', answer)"
  shows "core_same g g'" "gw_active_operations g' = gw_active_operations g" "io_trace g' = io_trace g"
    "\<exists>ord. order_at g (rq_client_order_id request) = Some ord \<and> op_order answer = Some ord"
  using assms by (auto simp: replay_if_present_def Let_def core_same_def op_success_def op_failure_def
      split: option.splits if_splits)

definition placed_order :: "int \<Rightarrow> int \<Rightarrow> order_request \<Rightarrow> risk_decision \<Rightarrow> order" where
  "placed_order clock now request decision =
     (let ord0 = make_order clock request (fingerprint request) now
      in if rd_accepted decision then ord0
         else ord0\<lparr>status := Rejected, pending_action := NoAction,
                   rejection_reason := rd_code decision @ '': '' @ rd_reason decision,
                   version := version ord0 + 1\<rparr>)"

lemma placed_order_fields [simp]:
  "client_order_id (placed_order clock now request d) = rq_client_order_id request"
  "symbol (placed_order clock now request d) = rq_symbol request"
  "venue (placed_order clock now request d) = rq_venue request"
  "side (placed_order clock now request d) = rq_side request"
  "status (placed_order clock now request d) = (if rd_accepted d then Unknown else Rejected)"
  "pending_action (placed_order clock now request d) = (if rd_accepted d then NewAction else NoAction)"
  "create_fingerprint (placed_order clock now request d) = fingerprint request"
  "filled_quantity (placed_order clock now request d) = 0"
  "quantity (placed_order clock now request d) = rq_quantity request"
  by (simp_all add: placed_order_def Let_def)

lemma place_begin_cases:
  assumes run: "place_begin cf clock now request mp ic bc g = (g', res)" and wf: "gw_wf g"
  obtains (answered) answer where "res = Inr (Done answer)" and "core_same g g'"
      and "gw_active_operations g' = gw_active_operations g" and "io_trace g' = io_trace g"
      and "order_at g (rq_client_order_id request) \<noteq> None"
  | (failed) e where "res = Inl e" and "core_same g g'" and "io_trace g' = io_trace g"
      and "gw_active_operations g \<subseteq> gw_active_operations g'"
  | (admitted) p ord decision where "res = Inr (Continue p)" and "order_at g (rq_client_order_id request) = None"
      and "place_decision cf request mp ic bc g = Inr decision"
      and "ord = placed_order clock now request decision"
      and "order_replaced (rq_client_order_id request) ord g g'"
      and "positions_exact g \<longrightarrow> positions_exact g'" and "io_trace g' = io_trace g"
      and "pt_order (pl_ticket p) = ord" and "pt_intent_only (pl_ticket p) = rd_accepted decision"
      and "pl_rejection p = (if rd_accepted decision then None else Some decision)"
      and "gw_active_operations g' =
        (if rd_accepted decision then insert (rq_client_order_id request) (gw_active_operations g)
         else gw_active_operations g)"
proof (cases "replay_if_present cf request g")
  case (Some x)
  obtain g1 answer where "x = (g1, answer)" by fastforce
  with Some run show thesis
    using replay_if_present_frame [of cf request g g1 answer] replay_if_present_None_iff [of cf request g]
    by (intro answered [of answer]) (simp_all add: place_begin_def)
next
  case None
  note fresh = replay_if_present_None_iff [THEN iffD1, OF None]
  show thesis
  proof (cases "place_decision cf request mp ic bc g")
    case (Inl e)
    with run None show thesis by (intro failed [of e]) (simp_all add: place_begin_def)
  next
    case (Inr decision)
    define ord where "ord = placed_order clock now request decision"
    define g1 where "g1 = (if rd_accepted decision
        then g\<lparr>gw_active_operations := insert (client_order_id ord) (gw_active_operations g)\<rparr> else g)"
    have g1: "gw_orders g1 = gw_orders g" "gw_positions g1 = gw_positions g" "core_same g g1"
      "io_trace g1 = io_trace g" "gw_active_operations g \<subseteq> gw_active_operations g1"
      by (auto simp: g1_def core_same_def io_trace_def)
    let ?adj = "rbind (position_contribution ord) (\<lambda>c. adjust_position_locked (symbol ord) 0 c g1)"
    have eq: "place_begin cf clock now request mp ic bc g =
        (case ?adj of Inl e \<Rightarrow> (g1, Inl e)
         | Inr g2 \<Rightarrow>
             (case prepare_persist ord (rd_accepted decision)
                     (publish_positions_if_dirty_locked (put_order (client_order_id ord) ord g2)) of
                (t, g3) \<Rightarrow>
                  (g3, Inr (Continue \<lparr>pl_ticket = t,
                     pl_rejection = (if rd_accepted decision then None else Some decision)\<rparr>))))"
      unfolding place_begin_def None Inr option.case sum.case ord_def placed_order_def g1_def Let_def ..
    show thesis
    proof (cases ?adj)
      case (Inl e)
      with run eq g1 show thesis by (intro failed [of e]) simp_all
    next
      case adj: (Inr g2)
      obtain c where c: "adjust_position_locked (symbol ord) 0 c g1 = Inr g2"
        using adj by (auto simp: rbind_eq_Inr_iff)
      note fr = adjust_position_frame [OF c]
      obtain t g3 where pp: "prepare_persist ord (rd_accepted decision)
          (publish_positions_if_dirty_locked (put_order (client_order_id ord) ord g2)) = (t, g3)"
        by fastforce
      note fr3 = prepare_persist_frame [OF pp]
      have g': "g' = g3" and res: "res = Inr (Continue \<lparr>pl_ticket = t,
          pl_rejection = (if rd_accepted decision then None else Some decision)\<rparr>)"
        using run eq adj pp by simp_all
      have cid: "client_order_id ord = rq_client_order_id request" by (simp add: ord_def)
      have "positions_exact g \<longrightarrow> positions_exact g3"
        using insert_order_exact [OF wf _ fresh g1(1,2) adj] cid fr3
          positions_exact_cong [of g3 "put_order (client_order_id ord) ord g2"] by simp
      moreover have "order_replaced (rq_client_order_id request) ord g g3"
        using fr3 fr g1 cid by (auto simp: order_replaced_def core_same_def)
      moreover have "io_trace g3 = io_trace g"
        using fr3(6) fr(5) g1(4) by (simp add: io_trace_def)
      moreover have "gw_active_operations g3 = (if rd_accepted decision
          then insert (rq_client_order_id request) (gw_active_operations g) else gw_active_operations g)"
        using fr3(5) fr(4) cid by (simp add: g1_def)
      ultimately show thesis
        using fresh Inr g' res fr3(8,9)
        by (intro admitted [where ord = ord and decision = decision and p = "\<lparr>pl_ticket = t,
              pl_rejection = (if rd_accepted decision then None else Some decision)\<rparr>"])
          (simp_all add: ord_def)
    qed
  qed
qed

lemma place_route_cases:
  assumes run: "place_route se request p g = (g', res)"
  obtains (failed) e where "res = Inl e" and "g' = g"
  | (answered) answer where "res = Inr (Done answer)" and "pl_rejection p \<noteq> None" and "core_same g g'"
      and "gw_active_operations g' = gw_active_operations g"
      and "io_trace g' = io_trace g @ [Journaled (pt_order (pl_ticket p)) (pt_intent_only (pl_ticket p)) (pt_sequence (pl_ticket p))]"
  | (routed) ord where "res = Inr (Continue ord)" and "pl_rejection p = None" and "core_same g g'"
      and "gw_active_operations g' = gw_active_operations g"
      and "ord = the (order_at g (rq_client_order_id request))"
      and "io_trace g' = io_trace g @ [Journaled (pt_order (pl_ticket p)) (pt_intent_only (pl_ticket p)) (pt_sequence (pl_ticket p)),
             VenuePlace ord]"
proof (cases se)
  case (Some e)
  with run show thesis by (intro failed [of e]) (simp_all add: place_route_def commit_persist_def)
next
  case None
  show thesis
  proof (cases "pl_rejection p")
    case (Some d)
    with None run show thesis
      by (intro answered [of "op_failure (rd_code d) (rd_reason d)
          (Some (the (order_at g (rq_client_order_id request))))"])
        (auto simp: place_route_def commit_persist_def Let_def core_same_def)
  next
    case rejection: None
    with None run show thesis
      by (intro routed [of "the (order_at g (rq_client_order_id request))"])
        (auto simp: place_route_def commit_persist_def Let_def core_same_def)
  qed
qed

text \<open>The three ways a place answer changes the order keep its identity.\<close>

lemma place_outcome_frame:
  assumes "place_outcome clock now a ord g = (ord1, g1, res)"
  shows "order_identity ord1 = order_identity ord"
    and "gw_orders g1 = gw_orders g" and "gw_positions g1 = gw_positions g"
    and "gw_active_operations g1 = gw_active_operations g" and "io_trace g1 = io_trace g"
    and "ran (gw_exchange_id_index g1) \<subseteq> insert (client_order_id ord) (ran (gw_exchange_id_index g))"
    and "ran (gw_exchange_client_id_index g1) \<subseteq> insert (client_order_id ord) (ran (gw_exchange_client_id_index g))"
proof -
  have *: "order_identity ord1 = order_identity ord \<and> gw_orders g1 = gw_orders g \<and> gw_positions g1 = gw_positions g \<and>
    gw_active_operations g1 = gw_active_operations g \<and> io_trace g1 = io_trace g \<and>
    ran (gw_exchange_id_index g1) \<subseteq> insert (client_order_id ord) (ran (gw_exchange_id_index g)) \<and>
    ran (gw_exchange_client_id_index g1) \<subseteq> insert (client_order_id ord) (ran (gw_exchange_client_id_index g))"
  proof (cases "ar_accepted a \<or> ar_outcome_uncertain a")
    case True
    with assms show ?thesis
      using ran_upd_subset [of "gw_exchange_id_index g" "ar_exchange_order_id a" "client_order_id ord"]
        ran_upd_subset [of "gw_exchange_client_id_index g" "ar_exchange_client_order_id a" "client_order_id ord"]
      by (auto simp: place_outcome_def Let_def place_accepted_def place_uncertain_def order_identity_def
          split: if_splits)
  next
    case False
    obtain o2 r where ap: "apply_report clock ord (place_rejection_report now a ord) = (o2, r)" by fastforce
    with False assms apply_report_frame(1) [OF ap] show ?thesis
      by (cases r) (auto simp: place_outcome_def)
  qed
  then show "order_identity ord1 = order_identity ord" "gw_orders g1 = gw_orders g" "gw_positions g1 = gw_positions g"
    "gw_active_operations g1 = gw_active_operations g" "io_trace g1 = io_trace g"
    "ran (gw_exchange_id_index g1) \<subseteq> insert (client_order_id ord) (ran (gw_exchange_id_index g))"
    "ran (gw_exchange_client_id_index g1) \<subseteq> insert (client_order_id ord) (ran (gw_exchange_client_id_index g))"
    by blast+
qed

section \<open>The end of every command\<close>

text \<open>All three commands end the same way: the order under the key is replaced, its position adjusted,
  a ticket prepared.\<close>

lemma command_tail:
  assumes wf: "gw_wf g" and old: "order_at g key = Some old" and p: "position_contribution old = Inr prev"
    and ident: "order_identity ord = order_identity old"
    and base: "gw_orders g2 = AList.update key ord (gw_orders g)" "gw_positions g2 = gw_positions g"
    and idx: "ran (gw_exchange_id_index g2) \<subseteq> insert key (ran (gw_exchange_id_index g))"
      "ran (gw_exchange_client_id_index g2) \<subseteq> insert key (ran (gw_exchange_client_id_index g))"
    and adj: "rbind (position_contribution ord) (\<lambda>c. adjust_position_locked (symbol ord) prev c g2) = Inr g3"
    and pp: "prepare_persist ord False (publish_positions_if_dirty_locked g3) = (t, g4)"
  shows "order_replaced key ord g g4" and "client_order_id ord = key"
    and "positions_exact g \<longrightarrow> positions_exact g4"
    and "gw_active_operations g4 = gw_active_operations g2" and "io_trace g4 = io_trace g2"
    and "pt_order t = ord" and "\<not> pt_intent_only t"
proof -
  note idf = identity_fields [OF ident]
  obtain c where c: "adjust_position_locked (symbol ord) prev c g2 = Inr g3"
    using adj by (auto simp: rbind_eq_Inr_iff)
  note fr = adjust_position_frame [OF c] and fr4 = prepare_persist_frame [OF pp]
  show "order_replaced key ord g g4" using base idx fr fr4 by (simp add: order_replaced_def)
  show "client_order_id ord = key" using idf(1) order_at_Some_mem(2) [OF wf old] by simp
  show "positions_exact g \<longrightarrow> positions_exact g4"
    using replace_order_exact [OF wf _ old idf(3) p base adj] fr4 positions_exact_cong [of g4 g3] by simp
  show "gw_active_operations g4 = gw_active_operations g2" using fr fr4 by simp
  show "io_trace g4 = io_trace g2" using fr(5) fr4(6) by (simp add: io_trace_def)
  show "pt_order t = ord" and "\<not> pt_intent_only t" using fr4 by simp_all
qed

lemma core_replaced:
  assumes "order_at g key = Some old" and "gw_orders g2 = AList.update key ord (gw_orders g)"
    and "gw_positions g2 = gw_positions g"
    and "ran (gw_exchange_id_index g2) \<subseteq> insert key (ran (gw_exchange_id_index g))"
    and "ran (gw_exchange_client_id_index g2) \<subseteq> insert key (ran (gw_exchange_client_id_index g))"
  shows "order_replaced key ord g g2"
  using assms by (simp add: order_replaced_def)

text \<open>The shape of \<open>place_finish\<close>, \<open>cancel_finish\<close> and \<open>amend_finish\<close>.\<close>

definition finish_shape :: "string \<Rightarrow> gateway \<Rightarrow> gateway \<Rightarrow> command_notice result \<Rightarrow> bool" where
  "finish_shape cid g g' res \<longleftrightarrow>
     (core_same g g' \<and> (\<exists>e. res = Inl e) \<and> gw_active_operations g' \<subseteq> gw_active_operations g \<and>
        gw_active_operations g - {cid} \<subseteq> gw_active_operations g' \<and> io_trace g' = io_trace g) \<or>
     (\<exists>old ord. order_at g cid = Some old \<and> order_replaced cid ord g g' \<and> order_identity ord = order_identity old \<and>
        client_order_id ord = cid \<and> gw_active_operations g' = gw_active_operations g - {cid} \<and>
        io_trace g' = io_trace g \<and>
        ((\<exists>n. res = Inr n) \<longrightarrow> positions_exact g \<longrightarrow> positions_exact g') \<and>
        (\<forall>n. res = Inr n \<longrightarrow> pt_order (cn_ticket n) = ord \<and> \<not> pt_intent_only (cn_ticket n)))"

lemma place_finish_shape:
  assumes run: "place_finish clock now request a g = (g', res)" and wf: "gw_wf g"
  shows "finish_shape (rq_client_order_id request) g g' res"
proof (cases "order_at g (rq_client_order_id request)")
  case None
  with run show ?thesis by (auto simp: place_finish_def finish_shape_def)
next
  case (Some old)
  let ?cid = "rq_client_order_id request"
  let ?g0 = "g\<lparr>gw_active_operations := gw_active_operations g - {?cid}\<rparr>"
  have cid: "client_order_id old = ?cid" using order_at_Some_mem(2) [OF wf Some] .
  show ?thesis
  proof (cases "position_contribution old")
    case (Inl e)
    with run Some show ?thesis by (auto simp: place_finish_def finish_shape_def)
  next
    case p: (Inr prev)
    obtain ord1 g1 r where out: "place_outcome clock now a old ?g0 = (ord1, g1, r)" using prod_cases3 by blast
    note fr = place_outcome_frame [OF out]
    let ?g2 = "put_order ?cid ord1 g1"
    have base: "gw_orders ?g2 = AList.update ?cid ord1 (gw_orders g)" "gw_positions ?g2 = gw_positions g"
      "ran (gw_exchange_id_index ?g2) \<subseteq> insert ?cid (ran (gw_exchange_id_index g))"
      "ran (gw_exchange_client_id_index ?g2) \<subseteq> insert ?cid (ran (gw_exchange_client_id_index g))"
      "gw_active_operations ?g2 = gw_active_operations g - {?cid}" "io_trace ?g2 = io_trace g"
      using fr cid by (simp_all add: io_trace_def)
    note rep2 = core_replaced [OF Some base(1-4)]
    have cid1: "client_order_id ord1 = ?cid" using identity_fields(1) [OF fr(1)] cid by simp
    have fail: ?thesis if "g' = ?g2" "res = Inl e" for e
      using that rep2 base fr(1) cid1 Some by (auto simp: finish_shape_def)
    show ?thesis
    proof (cases r)
      case (Inl e)
      with run Some p out have "g' = ?g2" "res = Inl e" by (simp_all add: place_finish_def Let_def)
      then show ?thesis by (rule fail)
    next
      case r: (Inr x)
      obtain sev code msg response where x: "x = (sev, code, msg, response)" using prod_cases4 by blast
      let ?adj = "rbind (position_contribution ord1) (\<lambda>c. adjust_position_locked (symbol ord1) prev c ?g2)"
      show ?thesis
      proof (cases ?adj)
        case (Inl e)
        with run Some p out r x have "g' = ?g2" "res = Inl e" by (simp_all add: place_finish_def Let_def)
        then show ?thesis by (rule fail)
      next
        case adj: (Inr g3)
        obtain t g4 where pp: "prepare_persist ord1 False (publish_positions_if_dirty_locked g3) = (t, g4)"
          by fastforce
        note tail = command_tail [OF wf Some p fr(1) base(1-4) adj pp]
        have "g' = g4" and "res = Inr \<lparr>cn_ticket = t, cn_severity = sev, cn_code = code, cn_message = msg,
            cn_response = response, cn_reports = ar_authoritative_reports a, cn_warning = []\<rparr>"
          using run Some p out r x adj pp by (simp_all add: place_finish_def Let_def)
        then show ?thesis using tail base(5,6) fr(1) Some by (auto simp: finish_shape_def)
      qed
    qed
  qed
qed

section \<open>Cancel and amend: beginning\<close>

definition begin_shape ::
    "string \<Rightarrow> string \<Rightarrow> string \<Rightarrow> pending_action \<Rightarrow> gateway \<Rightarrow> gateway \<Rightarrow> persist_ticket outcome result \<Rightarrow> bool" where
  "begin_shape cid key fp act g g' res \<longleftrightarrow>
     (core_same g g' \<and> gw_active_operations g' = gw_active_operations g \<and> io_trace g' = io_trace g \<and>
        ((\<exists>e. res = Inl e) \<or> (\<exists>answer. res = Inr (Done answer)))) \<or>
     (\<exists>old ord t. order_at g cid = Some old \<and> processed_requests old key = None \<and>
        \<not> is_terminal (status old) \<and> pending_action old = NoAction \<and> cid \<notin> gw_active_operations g \<and>
        order_replaced cid ord g g' \<and> order_identity ord = order_identity old \<and> client_order_id ord = cid \<and>
        (positions_exact g \<longrightarrow> positions_exact g') \<and>
        gw_active_operations g' = insert cid (gw_active_operations g) \<and> io_trace g' = io_trace g \<and>
        res = Inr (Continue t) \<and> pt_order t = ord \<and> \<not> pt_intent_only t \<and> pending_action ord = act \<and>
        processed_requests ord key = Some fp \<and> processed_request_outcomes ord key = Some ''PENDING'')"

lemma begin_go:
  assumes wf: "gw_wf g" and old: "order_at g cid = Some old" and "processed_requests old key = None"
    and "\<not> is_terminal (status old)" and "pending_action old = NoAction" and "cid \<notin> gw_active_operations g"
    and ident: "order_identity ord = order_identity old" and ex: "exposure ord = exposure old"
    and "pending_action ord = act" and "processed_requests ord key = Some fp"
    and "processed_request_outcomes ord key = Some ''PENDING''"
    and pp: "prepare_persist ord False (publish_positions_if_dirty_locked (put_order cid ord
        (g\<lparr>gw_active_operations := insert (client_order_id old) (gw_active_operations g)\<rparr>))) = (t, g')"
    and res: "res = Inr (Continue t)"
  shows "begin_shape cid key fp act g g' res"
proof -
  note idf = identity_fields [OF ident] and fr = prepare_persist_frame [OF pp]
  have cid: "client_order_id old = cid" using order_at_Some_mem(2) [OF wf old] .
  have "positions_exact (put_order cid ord g)" if "positions_exact g"
    using put_order_off [OF wf that old idf(3)] ex positions_exact_off by simp
  then have "positions_exact g \<longrightarrow> positions_exact g'"
    using fr positions_exact_cong [of g' "put_order cid ord g"] by simp
  moreover have "order_replaced cid ord g g'" using fr by (simp add: order_replaced_def subset_insertI)
  moreover have "io_trace g' = io_trace g" using fr(6) by (simp add: io_trace_def)
  ultimately show ?thesis
    using assms idf(1) cid fr unfolding begin_shape_def by (intro disjI2 exI [of _ old] exI [of _ ord] exI [of _ t]) simp
qed

lemma cancel_begin_shape:
  assumes run: "cancel_begin now request g = (g', out)" and wf: "gw_wf g"
  shows "begin_shape (cx_client_order_id request) (cancel_key request) (cancel_fingerprint request)
    CancelAction g g' (Inr out)"
proof (cases "order_at g (cx_client_order_id request)")
  case None
  with run show ?thesis by (auto simp: cancel_begin_def Let_def begin_shape_def core_same_def)
next
  case (Some old)
  let ?cid = "cx_client_order_id request"
  have cid: "client_order_id old = ?cid" using order_at_Some_mem(2) [OF wf Some] .
  show ?thesis
  proof (cases "processed_requests old (cancel_key request) = None \<and> \<not> is_terminal (status old) \<and>
      ?cid \<notin> gw_active_operations g \<and> pending_action old = NoAction")
    case False
    have "core_same g g' \<and> gw_active_operations g' = gw_active_operations g \<and> io_trace g' = io_trace g \<and>
        (\<exists>answer. out = Done answer)"
    proof (cases "processed_requests old (cancel_key request)")
      case (Some stored)
      with run \<open>order_at g ?cid = Some old\<close> show ?thesis
        by (cases "stored \<noteq> cancel_fingerprint request \<and> \<not> cancel_fingerprint_matches stored request")
          (auto simp: cancel_begin_def Let_def core_same_def)
    next
      case None
      with run \<open>order_at g ?cid = Some old\<close> False cid show ?thesis
        by (cases "status old = Canceled"; cases "is_terminal (status old)")
          (auto simp: cancel_begin_def Let_def core_same_def)
    qed
    then show ?thesis by (auto simp: begin_shape_def)
  next
    case True
    define ord where "ord = old\<lparr>processed_requests := (processed_requests old)(cancel_key request \<mapsto> cancel_fingerprint request),
      processed_request_outcomes := (processed_request_outcomes old)(cancel_key request \<mapsto> ''PENDING''),
      pending_action := CancelAction, updated_at_ms := now, version := version old + 1\<rparr>"
    obtain t g2 where pp: "prepare_persist ord False (publish_positions_if_dirty_locked (put_order ?cid ord
        (g\<lparr>gw_active_operations := insert (client_order_id old) (gw_active_operations g)\<rparr>))) = (t, g2)"
      by fastforce
    have "status old \<noteq> Canceled" using True by auto
    then have "g' = g2" and "out = Continue t"
      using run Some True cid pp by (simp_all add: cancel_begin_def Let_def ord_def)
    then show ?thesis
      using begin_go [OF wf Some _ _ _ _ _ _ _ _ _ pp refl] True
      by (simp add: ord_def order_identity_def exposure_def conservative_exposure_def)
  qed
qed

lemma amend_begin_shape:
  assumes run: "amend_begin cf now request g = (g', res)" and wf: "gw_wf g"
  shows "begin_shape (am_client_order_id request) (amend_key request) (amend_fingerprint request)
    AmendAction g g' res"
proof (cases "order_at g (am_client_order_id request)")
  case None
  with run show ?thesis by (auto simp: amend_begin_def Let_def begin_shape_def core_same_def)
next
  case (Some old)
  let ?cid = "am_client_order_id request"
  let ?check = "rbind (conservative_position_locked g (symbol old) (client_order_id old)) (\<lambda>position.
      check_amend_with_position (cf_limits cf) old (am_new_price request) (am_new_quantity request) position)"
  have cid: "client_order_id old = ?cid" using order_at_Some_mem(2) [OF wf Some] .
  show ?thesis
  proof (cases "processed_requests old (amend_key request) = None \<and> ?cid \<notin> gw_active_operations g \<and>
      (\<exists>d. ?check = Inr d \<and> rd_accepted d)")
    case False
    with run Some cid show ?thesis
      by (auto simp: amend_begin_def Let_def begin_shape_def core_same_def
          split: option.splits if_splits sum.splits)
  next
    case True
    then obtain d where d: "?check = Inr d" "rd_accepted d" by blast
    then obtain pos where "check_amend_with_position (cf_limits cf) old (am_new_price request)
        (am_new_quantity request) pos = Inr d"
      by (auto simp: rbind_eq_Inr_iff)
    then have ok: "\<not> is_terminal (status old)" "pending_action old = NoAction"
      using d(2) by (auto simp: check_amend_with_position_def Let_def split: if_splits)
    define ord where "ord = old\<lparr>processed_requests := (processed_requests old)(amend_key request \<mapsto> amend_fingerprint request),
      processed_request_outcomes := (processed_request_outcomes old)(amend_key request \<mapsto> ''PENDING''),
      pending_action := AmendAction, pending_amend_price := am_new_price request,
      pending_amend_quantity := am_new_quantity request, updated_at_ms := now, version := version old + 1\<rparr>"
    obtain t g2 where pp: "prepare_persist ord False (publish_positions_if_dirty_locked (put_order ?cid ord
        (g\<lparr>gw_active_operations := insert (client_order_id old) (gw_active_operations g)\<rparr>))) = (t, g2)"
      by fastforce
    have "g' = g2" and "res = Inr (Continue t)"
      using run Some True cid d pp by (simp_all add: amend_begin_def Let_def ord_def)
    then show ?thesis
      using begin_go [OF wf Some _ _ _ _ _ _ _ _ _ pp refl] True ok
      by (simp add: ord_def order_identity_def exposure_def conservative_exposure_def)
  qed
qed

section \<open>Cancel and amend: routing\<close>

lemma cancel_route_cases:
  assumes "cancel_route se request t g = (g', res)"
  obtains (failed) e where "res = Inl e" and "g' = g"
  | (routed) ord where "res = Inr ord" and "core_same g g'"
      and "gw_active_operations g' = gw_active_operations g"
      and "ord = the (order_at g (cx_client_order_id request))"
      and "io_trace g' = io_trace g @ [Journaled (pt_order t) (pt_intent_only t) (pt_sequence t), VenueCancel ord]"
proof (cases se)
  case (Some e)
  with assms show thesis by (intro failed [of e]) (simp_all add: cancel_route_def commit_persist_def)
next
  case None
  with assms show thesis
    by (intro routed [of "the (order_at g (cx_client_order_id request))"])
      (auto simp: cancel_route_def commit_persist_def Let_def core_same_def)
qed

lemma amend_route_cases:
  assumes "amend_route se request t g = (g', res)"
  obtains (failed) e where "res = Inl e" and "g' = g"
  | (routed) ord where "res = Inr ord" and "core_same g g'"
      and "gw_active_operations g' = gw_active_operations g"
      and "ord = the (order_at g (am_client_order_id request))"
      and "io_trace g' = io_trace g @ [Journaled (pt_order t) (pt_intent_only t) (pt_sequence t),
             VenueAmend ord (am_new_price request) (am_new_quantity request)]"
proof (cases se)
  case (Some e)
  with assms show thesis by (intro failed [of e]) (simp_all add: amend_route_def commit_persist_def)
next
  case None
  with assms show thesis
    by (intro routed [of "the (order_at g (am_client_order_id request))"])
      (auto simp: amend_route_def commit_persist_def Let_def core_same_def)
qed

section \<open>Cancel and amend: finishing\<close>

lemma cancel_outcome_frame:
  assumes "cancel_outcome key a ord g = (ord1, g1, rest)"
  shows "order_identity ord1 = order_identity ord" "core_same g g1"
    "gw_active_operations g1 = gw_active_operations g" "io_trace g1 = io_trace g"
  using assms by (auto simp: cancel_outcome_def Let_def order_identity_def core_same_def split: if_splits)

lemma cancel_finish_shape:
  assumes run: "cancel_finish request a g = (g', res)" and wf: "gw_wf g"
  shows "finish_shape (cx_client_order_id request) g g' res"
proof (cases "order_at g (cx_client_order_id request)")
  case None
  with run show ?thesis by (auto simp: cancel_finish_def finish_shape_def)
next
  case (Some old)
  let ?cid = "cx_client_order_id request"
  let ?g0 = "g\<lparr>gw_active_operations := gw_active_operations g - {?cid}\<rparr>"
  have cid: "client_order_id old = ?cid" using order_at_Some_mem(2) [OF wf Some] .
  show ?thesis
  proof (cases "position_contribution old")
    case (Inl e)
    with run Some show ?thesis by (auto simp: cancel_finish_def finish_shape_def)
  next
    case p: (Inr prev)
    obtain ord1 g1 sev code msg response
      where out: "cancel_outcome (cancel_key request) a old ?g0 = (ord1, g1, sev, code, msg, response)"
      using prod_cases6 by blast
    note fr = cancel_outcome_frame [OF out]
    let ?g2 = "put_order ?cid ord1 g1"
    have base: "gw_orders ?g2 = AList.update ?cid ord1 (gw_orders g)" "gw_positions ?g2 = gw_positions g"
      "ran (gw_exchange_id_index ?g2) \<subseteq> insert ?cid (ran (gw_exchange_id_index g))"
      "ran (gw_exchange_client_id_index ?g2) \<subseteq> insert ?cid (ran (gw_exchange_client_id_index g))"
      "gw_active_operations ?g2 = gw_active_operations g - {?cid}" "io_trace ?g2 = io_trace g"
      using fr cid by (auto simp: core_same_def io_trace_def)
    note rep2 = core_replaced [OF Some base(1-4)]
    have cid1: "client_order_id ord1 = ?cid" using identity_fields(1) [OF fr(1)] cid by simp
    let ?adj = "rbind (position_contribution ord1) (\<lambda>c. adjust_position_locked (symbol ord1) prev c ?g2)"
    show ?thesis
    proof (cases ?adj)
      case (Inl e)
      with run Some p out have "g' = ?g2" "res = Inl e" by (simp_all add: cancel_finish_def Let_def)
      then show ?thesis using rep2 base fr(1) cid1 Some by (auto simp: finish_shape_def)
    next
      case adj: (Inr g3)
      obtain t g4 where pp: "prepare_persist ord1 False (publish_positions_if_dirty_locked g3) = (t, g4)"
        by fastforce
      note tail = command_tail [OF wf Some p fr(1) base(1-4) adj pp]
      have "g' = g4" and "res = Inr \<lparr>cn_ticket = t, cn_severity = sev, cn_code = code, cn_message = msg,
          cn_response = response, cn_reports = [], cn_warning = []\<rparr>"
        using run Some p out adj pp by (simp_all add: cancel_finish_def Let_def)
      then show ?thesis using tail base(5,6) fr(1) Some by (auto simp: finish_shape_def)
    qed
  qed
qed

text \<open>What both answers to an amendment keep.\<close>

definition amend_frame :: "order \<Rightarrow> gateway \<Rightarrow> order \<Rightarrow> gateway \<Rightarrow> bool" where
  "amend_frame ord g ord1 g1 \<longleftrightarrow> order_identity ord1 = order_identity ord \<and>
     gw_orders g1 = gw_orders g \<and> gw_positions g1 = gw_positions g \<and>
     gw_active_operations g1 = gw_active_operations g \<and> io_trace g1 = io_trace g \<and>
     ran (gw_exchange_id_index g1) \<subseteq> insert (client_order_id ord) (ran (gw_exchange_id_index g)) \<and>
     ran (gw_exchange_client_id_index g1) \<subseteq> insert (client_order_id ord) (ran (gw_exchange_client_id_index g))"

lemma amend_frame_refl [simp]: "amend_frame ord g ord g"
  by (auto simp: amend_frame_def)

lemma switch_generation_identity [simp]:
  "order_identity (switch_generation new_id fo qo ff fq ord) = order_identity ord"
  by (simp add: switch_generation_def Let_def order_identity_def)

lemma paq_identity [simp]: "order_identity (ord\<lparr>pending_amend_quantity := q\<rparr>) = order_identity ord"
  by (simp add: order_identity_def)

lemma apply_replacement_frame:
  assumes "apply_replacement request a ord g = (ord1, g1, res)"
  shows "amend_frame ord g ord1 g1"
proof -
  let ?cid = "client_order_id ord" and ?old = "exchange_order_id ord" and ?new = "ar_exchange_order_id a"
  define ga where "ga = (if ?old \<noteq> [] then index_exchange_id ?old ?cid g else g)"
  define gb where "gb = (if ?new \<noteq> [] then index_exchange_id ?new ?cid ga else ga)"
  have "ran (gw_exchange_id_index ga) \<subseteq> insert ?cid (ran (gw_exchange_id_index g))"
    using ran_upd_subset [of "gw_exchange_id_index g" ?old ?cid] by (auto simp: ga_def)
  then have "ran (gw_exchange_id_index gb) \<subseteq> insert ?cid (ran (gw_exchange_id_index g))"
    using ran_upd_subset [of "gw_exchange_id_index ga" ?new ?cid] by (auto simp: gb_def)
  then have gb: "amend_frame ord g x gb" if "order_identity x = order_identity ord" for x
    using that by (auto simp: amend_frame_def gb_def ga_def)
  show ?thesis
  proof (cases "final_old_fills ?old (case exchange_fill_offsets ord ?old of None \<Rightarrow> 0 | Some d \<Rightarrow> d)
      (case exchange_quote_offsets ord ?old of None \<Rightarrow> 0 | Some d \<Rightarrow> d) (ar_authoritative_reports a)
      (filled_quantity ord) (cumulative_quote ord)")
    case (Inl e)
    with assms show ?thesis by (simp add: apply_replacement_def Let_def)
  next
    case (Inr ff)
    obtain fill quote where ff: "ff = (fill, quote)" by fastforce
    have "g1 = gb" and "order_identity ord1 = order_identity ord"
      using assms Inr ff by (simp_all add: apply_replacement_def Let_def ga_def gb_def split: prod.splits) force+
    then show ?thesis using gb by simp
  qed
qed

lemma amend_accepted_frame:
  assumes "amend_accepted request a ord g = (ord1, g1, res)"
  shows "amend_frame ord g ord1 g1"
proof -
  obtain o2 g2 w where r: "(if ar_replacement a then apply_replacement request a ord g else (ord, g, Inr [])) = (o2, g2, w)"
    using prod_cases3 by blast
  have fr: "amend_frame ord g o2 g2"
    using r apply_replacement_frame by (cases "ar_replacement a") auto
  then have cid: "client_order_id o2 = client_order_id ord" by (simp add: amend_frame_def order_identity_def)
  let ?al = "ar_exchange_client_order_id a"
  define g3 where "g3 = (if ?al \<noteq> [] then index_exchange_client_id ?al (client_order_id o2) g2 else g2)"
  have g3: "amend_frame ord g x g3" if "order_identity x = order_identity o2" for x
    using fr that cid ran_upd_subset [of "gw_exchange_client_id_index g2" ?al "client_order_id ord"]
    by (auto simp: amend_frame_def g3_def)
  show ?thesis
  proof (cases w)
    case (Inl e)
    with assms fr show ?thesis unfolding amend_accepted_def r by simp
  next
    case (Inr warning)
    with assms have "g1 = g3" and "order_identity ord1 = order_identity o2"
      unfolding amend_accepted_def r by (auto simp: Let_def g3_def order_identity_def)
    then show ?thesis using g3 by simp
  qed
qed

lemma amend_refused_frame:
  assumes "amend_refused request a ord g = (ord1, g1, res)"
  shows "amend_frame ord g ord1 g1"
  using assms by (auto simp: amend_refused_def Let_def amend_frame_def order_identity_def split: if_splits)

lemma take_deferred_frame:
  assumes "take_deferred c g = (rs, g')"
  shows "core_same g g'" "gw_active_operations g' = gw_active_operations g" "io_trace g' = io_trace g"
  using assms by (auto simp: take_deferred_def core_same_def io_trace_def split: option.splits)

lemma amend_finish_shape:
  assumes run: "amend_finish request a g = (g', res)" and wf: "gw_wf g"
  shows "finish_shape (am_client_order_id request) g g' res"
proof (cases "order_at g (am_client_order_id request)")
  case None
  with run show ?thesis by (auto simp: amend_finish_def finish_shape_def)
next
  case (Some old)
  let ?cid = "am_client_order_id request"
  let ?g0 = "g\<lparr>gw_active_operations := gw_active_operations g - {?cid}\<rparr>"
  have cid: "client_order_id old = ?cid" using order_at_Some_mem(2) [OF wf Some] .
  show ?thesis
  proof (cases "position_contribution old")
    case (Inl e)
    with run Some show ?thesis by (auto simp: amend_finish_def finish_shape_def)
  next
    case p: (Inr prev)
    obtain ord1 g1 r where out: "(if ar_accepted a then amend_accepted request a old ?g0
        else amend_refused request a old ?g0) = (ord1, g1, r)" using prod_cases3 by blast
    have fr: "amend_frame old ?g0 ord1 g1"
      using out amend_accepted_frame amend_refused_frame by (cases "ar_accepted a") auto
    have ident: "order_identity ord1 = order_identity old" using fr by (simp add: amend_frame_def)
    have cid1: "client_order_id ord1 = ?cid" using identity_fields(1) [OF ident] cid by simp
    obtain rs g2 where td: "take_deferred (client_order_id ord1) (put_order ?cid ord1 g1) = (rs, g2)" by fastforce
    note fr2 = take_deferred_frame [OF td]
    have put: "order_replaced ?cid ord1 g (put_order ?cid ord1 g1)"
      using fr cid by (simp add: amend_frame_def order_replaced_def)
    have base: "gw_orders g2 = AList.update ?cid ord1 (gw_orders g)" "gw_positions g2 = gw_positions g"
      "ran (gw_exchange_id_index g2) \<subseteq> insert ?cid (ran (gw_exchange_id_index g))"
      "ran (gw_exchange_client_id_index g2) \<subseteq> insert ?cid (ran (gw_exchange_client_id_index g))"
      "gw_active_operations g2 = gw_active_operations g - {?cid}" "io_trace g2 = io_trace g"
      using fr fr2 cid by (simp_all add: amend_frame_def core_same_def io_trace_def)
    show ?thesis
    proof (cases r)
      case (Inl e)
      with run Some p out have "g' = put_order ?cid ord1 g1" "res = Inl e"
        by (simp_all add: amend_finish_def Let_def)
      moreover have "gw_active_operations (put_order ?cid ord1 g1) = gw_active_operations g - {?cid}"
        "io_trace (put_order ?cid ord1 g1) = io_trace g"
        using fr by (simp_all add: amend_frame_def io_trace_def)
      ultimately show ?thesis using put ident cid1 Some by (auto simp: finish_shape_def)
    next
      case r: (Inr x)
      obtain sev code msg response warning where x: "x = (sev, code, msg, response, warning)"
        using prod_cases5 by blast
      let ?adj = "rbind (position_contribution ord1) (\<lambda>c. adjust_position_locked (symbol ord1) prev c g2)"
      show ?thesis
      proof (cases ?adj)
        case (Inl e)
        with run Some p out r x td have "g' = g2" "res = Inl e" by (simp_all add: amend_finish_def Let_def)
        then show ?thesis using core_replaced [OF Some base(1-4)] base ident cid1 Some by (auto simp: finish_shape_def)
      next
        case adj: (Inr g3)
        obtain t g4 where pp: "prepare_persist ord1 False (publish_positions_if_dirty_locked g3) = (t, g4)"
          by fastforce
        note tail = command_tail [OF wf Some p ident base(1-4) adj pp]
        have "g' = g4" and "res = Inr \<lparr>cn_ticket = t, cn_severity = sev, cn_code = code, cn_message = msg,
            cn_response = response, cn_reports = ar_authoritative_reports a @ rs, cn_warning = warning\<rparr>"
          using run Some p out r x adj pp td by (simp_all add: amend_finish_def Let_def)
        then show ?thesis using tail base(5,6) ident Some by (auto simp: finish_shape_def)
      qed
    qed
  qed
qed

section \<open>Marking unknown, and the code after a critical section\<close>

lemma mark_unknown_cases:
  assumes "mark_unknown cid g = (g', res)" and wf: "gw_wf g"
  obtains (missing) "g' = g" and "order_at g cid = None" and "\<exists>e. res = Inl e"
  | (marked) old ord t where "order_at g cid = Some old" and "res = Inr t" and "pt_order t = ord"
      and "\<not> pt_intent_only t"
      and "order_replaced cid ord g g'" and "order_identity ord = order_identity old" and "client_order_id ord = cid"
      and "\<not> is_terminal (status old) \<longrightarrow> positions_exact g \<longrightarrow> positions_exact g'"
      and "gw_active_operations g' = gw_active_operations g" and "io_trace g' = io_trace g"
proof (cases "order_at g cid")
  case None
  with assms show thesis by (intro missing) (auto simp: mark_unknown_def)
next
  case (Some old)
  define ord where "ord = old\<lparr>status := Unknown, pending_action := ReconcileAction, version := version old + 1\<rparr>"
  obtain t g1 where pp: "prepare_persist ord False (put_order cid ord g) = (t, g1)" by fastforce
  note fr = prepare_persist_frame [OF pp]
  have g': "g' = g1" and res: "res = Inr t" using assms(1) Some pp by (simp_all add: mark_unknown_def Let_def ord_def)
  have ident: "order_identity ord = order_identity old" by (simp add: ord_def order_identity_def)
  have cid: "client_order_id ord = cid"
    using identity_fields(1) [OF ident] order_at_Some_mem(2) [OF wf Some] by simp
  have "exposure ord = exposure old" if "\<not> is_terminal (status old)"
    using that by (simp add: ord_def exposure_def conservative_exposure_def)
  then have "positions_exact g1" if "\<not> is_terminal (status old)" "positions_exact g"
    using put_order_off [OF wf that(2) Some identity_fields(3) [OF ident]] that(1) fr
      positions_exact_cong [of g1 "put_order cid ord g"] positions_exact_off by simp
  moreover have "io_trace g1 = io_trace g" using fr(6) by (simp add: io_trace_def)
  ultimately show thesis
    using g' res fr ident cid Some by (intro marked [of old t ord]) (simp_all add: order_replaced_def subset_insertI)
qed

lemma finish_execution_frame:
  assumes "finish_execution v rep se n g = (g', res)"
  shows "core_same g g'" "gw_active_operations g' = gw_active_operations g"
    "io_trace g' = io_trace g @ (if res = Inr () then
       [Journaled (pt_order (en_ticket n)) (pt_intent_only (en_ticket n)) (pt_sequence (en_ticket n))] else [])"
  using assms by (auto simp: finish_execution_def commit_persist_def Let_def core_same_def split: option.splits)

lemma finish_command_frame:
  assumes "finish_command se cid rid n g = (g', res)"
  shows "core_same g g'" "gw_active_operations g' = gw_active_operations g"
    "io_trace g' = io_trace g @ (if res = Inr () then
       [Journaled (pt_order (cn_ticket n)) (pt_intent_only (cn_ticket n)) (pt_sequence (cn_ticket n))] else [])"
  using assms by (cases "cn_warning n = []";
      auto simp: finish_command_def commit_persist_def Let_def core_same_def split: option.splits)+

end
