(* ===== verification/Abex_Transitions.thy ===== *)
theory Abex_Transitions
  imports Main
begin

text \<open>
  Contracts of step relations, as locales: an invariant that every step keeps, and a preorder that
  every step follows. What they give for all reachable states is proved here once and reused by the
  step relations of the development.
\<close>

locale invariant_system =
  fixes step :: "'s \<Rightarrow> 's \<Rightarrow> bool" and inv :: "'s \<Rightarrow> bool"
  assumes inv_step: "inv s \<Longrightarrow> step s s' \<Longrightarrow> inv s'"
begin

lemma reachable_inv: "step\<^sup>*\<^sup>* s s' \<Longrightarrow> inv s \<Longrightarrow> inv s'"
  by (induction rule: rtranclp_induct) (auto intro: inv_step)

lemma reachable_inv_step: "step\<^sup>*\<^sup>* s s' \<Longrightarrow> step s' s'' \<Longrightarrow> inv s \<Longrightarrow> inv s''"
  by (meson inv_step reachable_inv)

end

locale evolving_system = invariant_system +
  fixes grows :: "'s \<Rightarrow> 's \<Rightarrow> bool"
  assumes grows_refl: "grows s s"
    and grows_trans: "grows s s' \<Longrightarrow> grows s' s'' \<Longrightarrow> grows s s''"
    and grows_step: "inv s \<Longrightarrow> step s s' \<Longrightarrow> grows s s'"
begin

lemma reachable_grows: "step\<^sup>*\<^sup>* s s' \<Longrightarrow> inv s \<Longrightarrow> grows s s'"
  by (induction rule: rtranclp_induct) (auto intro: grows_refl grows_trans grows_step reachable_inv)

end

text \<open>A concrete step relation follows an abstract one through an abstraction function, up to steps
  that the abstraction does not see.\<close>

locale simulation = invariant_system cstep inv
  for cstep :: "'c \<Rightarrow> 'c \<Rightarrow> bool" and inv :: "'c \<Rightarrow> bool" +
  fixes astep :: "'a \<Rightarrow> 'a \<Rightarrow> bool" and abs :: "'c \<Rightarrow> 'a"
  assumes sim_step: "inv c \<Longrightarrow> cstep c c' \<Longrightarrow> abs c' = abs c \<or> astep (abs c) (abs c')"
begin

lemma refines: "cstep\<^sup>*\<^sup>* c c' \<Longrightarrow> inv c \<Longrightarrow> astep\<^sup>*\<^sup>* (abs c) (abs c')"
proof (induction rule: rtranclp_induct)
  case (step y z)
  then have "abs z = abs y \<or> astep (abs y) (abs z)" using sim_step reachable_inv by blast
  with step show ?case by (metis rtranclp.rtrancl_into_rtrancl)
qed simp

end

section \<open>Bounded queues\<close>

text \<open>A bounded queue and what has been handed on from it: the specification of the queues between threads.\<close>

inductive fifo_step :: "nat \<Rightarrow> 'a list \<times> 'a list \<Rightarrow> 'a list \<times> 'a list \<Rightarrow> bool" for n where
  enqueue: "length q < n + 1 \<Longrightarrow> fifo_step n (q, d) (q @ [r], d)"
| dequeue: "fifo_step n (r # q, d) (q, d @ [r])"

text \<open>Positions less than a ring apart have different slots.\<close>

lemma mod_window:
  fixes i j c :: nat
  assumes "i < j" "j < i + c"
  shows "i mod c \<noteq> j mod c"
proof
  assume "i mod c = j mod c"
  then have "c dvd j - i" using assms(1) by (metis mod_eq_dvd_iff_nat less_imp_le)
  then show False using assms by (auto dest: dvd_imp_le)
qed

lemma mod_window_inj:
  fixes i j c h :: nat
  assumes "h \<le> i" "i < h + c" "h \<le> j" "j < h + c"
  shows "i mod c = j mod c \<longleftrightarrow> i = j"
  using mod_window [of i j c] mod_window [of j i c] assms by (cases i j rule: linorder_cases) auto

end
