(* ===== verification/Abex_Gateway_Runs.thy ===== *)
theory Abex_Gateway_Runs
  imports Abex_Gateway_Sections Abex_Transitions "HOL-Library.Multiset"
begin

text \<open>
  Concurrent runs of the gateway. The threads of the program (command callers, the two venue lanes,
  the reconciliation worker) are tasks; a task stands between two critical sections and carries what
  the code has in local variables there. One step runs one task up to the end of its next critical
  section, or through the code between two of them; any task may run next, and new tasks may arrive at
  any time with any argument.

  A run also carries a flag that is true as long as no critical section has thrown and reconciliation
  has not marked a terminal order unknown (\<open>mark_unknown\<close> does not look at the status and does not adjust the
  position, see \<open>mark_unknown_breaks_position\<close>): each of the two makes the flag false for the rest of the run.
\<close>

section \<open>Tasks\<close>

datatype task =
    PlaceStart order_request "decimal option" risk_decision "risk_decision option"
  | PlaceJournal order_request place_ticket
  | PlaceVenue order_request order
  | PlaceEnd order_request command_notice
  | CancelStart cancel_request
  | CancelJournal cancel_request persist_ticket
  | CancelVenue cancel_request order
  | CancelEnd cancel_request command_notice
  | AmendStart amend_request
  | AmendJournal amend_request persist_ticket
  | AmendVenue amend_request order
  | AmendEnd amend_request venue command_notice
  | Reports venue "execution_report list"
  | ReportEnd venue execution_report execution_notice "execution_report list"
  | MarkStart string
  | MarkEnd string persist_ticket

record step_input =
  si_clock :: int
  si_now :: int
  si_store :: "exn option"
  si_adapter :: "order \<Rightarrow> adapter_result result"

text \<open>The result of a critical section as what the task becomes; a throw ends it.\<close>

definition continue :: "('a \<Rightarrow> task list) \<Rightarrow> gateway \<times> 'a result \<Rightarrow> gateway \<times> task list \<times> bool" where
  "continue f r = (case r of (g, Inl e) \<Rightarrow> (g, [], False) | (g, Inr x) \<Rightarrow> (g, f x, True))"

text \<open>The same for the code outside the critical sections, which changes no order.\<close>

definition proceed :: "('a \<Rightarrow> task list) \<Rightarrow> gateway \<times> 'a result \<Rightarrow> gateway \<times> task list \<times> bool" where
  "proceed f r = (case r of (g, Inl e) \<Rightarrow> (g, [], True) | (g, Inr x) \<Rightarrow> (g, f x, True))"

definition continuation :: "('a \<Rightarrow> task) \<Rightarrow> 'a outcome \<Rightarrow> task list" where
  "continuation f out = (case out of Done answer \<Rightarrow> [] | Continue x \<Rightarrow> [f x])"

fun advance :: "gateway_config \<Rightarrow> step_input \<Rightarrow> task \<Rightarrow> gateway \<Rightarrow> gateway \<times> task list \<times> bool" where
  "advance cf si (PlaceStart rq mp ic bc) g =
     continue (continuation (PlaceJournal rq)) (place_begin cf (si_clock si) (si_now si) rq mp ic bc g)"
| "advance cf si (PlaceJournal rq p) g = proceed (continuation (PlaceVenue rq)) (place_route (si_store si) rq p g)"
| "advance cf si (PlaceVenue rq ord) g =
     continue (\<lambda>n. [PlaceEnd rq n])
       (place_finish (si_clock si) (si_now si) rq (adapter_outcome (si_adapter si ord)) g)"
| "advance cf si (PlaceEnd rq n) g =
     proceed (\<lambda>_. [Reports (rq_venue rq) (cn_reports n)])
       (finish_command (si_store si) (rq_client_order_id rq) [] n g)"
| "advance cf si (CancelStart rq) g =
     (case cancel_begin (si_now si) rq g of (g', out) \<Rightarrow> continue (continuation (CancelJournal rq)) (g', Inr out))"
| "advance cf si (CancelJournal rq t) g = proceed (\<lambda>ord. [CancelVenue rq ord]) (cancel_route (si_store si) rq t g)"
| "advance cf si (CancelVenue rq ord) g =
     continue (\<lambda>n. [CancelEnd rq n]) (cancel_finish rq (adapter_outcome (si_adapter si ord)) g)"
| "advance cf si (CancelEnd rq n) g =
     proceed (\<lambda>_. []) (finish_command (si_store si) (cx_client_order_id rq) (cancel_request_id rq) n g)"
| "advance cf si (AmendStart rq) g = continue (continuation (AmendJournal rq)) (amend_begin cf (si_now si) rq g)"
| "advance cf si (AmendJournal rq t) g = proceed (\<lambda>ord. [AmendVenue rq ord]) (amend_route (si_store si) rq t g)"
| "advance cf si (AmendVenue rq ord) g =
     continue (\<lambda>n. [AmendEnd rq (venue ord) n]) (amend_finish rq (adapter_outcome (si_adapter si ord)) g)"
| "advance cf si (AmendEnd rq v n) g =
     proceed (\<lambda>_. [Reports v (cn_reports n)])
       (finish_command (si_store si) (am_client_order_id rq) (amend_request_id rq) n g)"
| "advance cf si (Reports v []) g = (g, [], True)"
| "advance cf si (Reports v (rep # reps)) g =
     continue (\<lambda>out. case out of None \<Rightarrow> [Reports v reps] | Some n \<Rightarrow> [ReportEnd v rep n reps])
       (apply_execution_locked (si_now si) v rep g)"
| "advance cf si (ReportEnd v rep n reps) g =
     proceed (\<lambda>_. [Reports v reps]) (finish_execution v rep (si_store si) n g)"
| "advance cf si (MarkStart cid) g =
     (case mark_unknown cid g of
        (g', Inl e) \<Rightarrow> (g', [], True)
      | (g', Inr t) \<Rightarrow>
          (g', [MarkEnd cid t], case order_at g cid of None \<Rightarrow> True | Some ord \<Rightarrow> \<not> is_terminal (status ord)))"
| "advance cf si (MarkEnd cid t) g =
     (case commit_persist (si_store si) t g of
        (g', Inl e) \<Rightarrow> (g', [], True)
      | (g', Inr _) \<Rightarrow> (emit (Notified (the (order_at g' cid))) g', [], True))"

fun arrival :: "task \<Rightarrow> bool" where
  "arrival (PlaceStart _ _ _ _) = True"
| "arrival (CancelStart _) = True"
| "arrival (AmendStart _) = True"
| "arrival (Reports _ _) = True"
| "arrival (MarkStart _) = True"
| "arrival _ = False"

section \<open>Runs\<close>

type_synonym run = "gateway \<times> task multiset \<times> bool"

inductive gw_step :: "gateway_config \<Rightarrow> run \<Rightarrow> run \<Rightarrow> bool" for cf :: gateway_config where
  arrive: "arrival t \<Longrightarrow> gw_step cf (g, T, c) (g, add_mset t T, c)"
| work: "advance cf si t g = (g', ts, ok) \<Longrightarrow> gw_step cf (g, add_mset t T, c) (g', T + mset ts, c \<and> ok)"
| connection: "gw_step cf (g, T, c) (connection_changed cf v up why g, T, c)"
| dropped: "gw_step cf (g, T, c) (execution_dropped v violation g, T, c)"
| turn: "gw_step cf (g, T, c) (fst (reconciliation_turn due g), T, c)"

inductive_cases gw_stepE: "gw_step cf (g, T, c) s'"

abbreviation reachable_from :: "gateway_config \<Rightarrow> run \<Rightarrow> run \<Rightarrow> bool" where
  "reachable_from cf \<equiv> (gw_step cf)\<^sup>*\<^sup>*"

section \<open>What a task holds\<close>

text \<open>The client order id whose entry in \<open>active_operations_\<close> the task owns.\<close>

fun holder :: "task \<Rightarrow> string option" where
  "holder (PlaceJournal rq p) = (if pl_rejection p = None then Some (rq_client_order_id rq) else None)"
| "holder (PlaceVenue rq _) = Some (rq_client_order_id rq)"
| "holder (CancelJournal rq _) = Some (cx_client_order_id rq)"
| "holder (CancelVenue rq _) = Some (cx_client_order_id rq)"
| "holder (AmendJournal rq _) = Some (am_client_order_id rq)"
| "holder (AmendVenue rq _) = Some (am_client_order_id rq)"
| "holder _ = None"

definition in_flight :: "task multiset \<Rightarrow> string \<Rightarrow> nat" where
  "in_flight T cid = size (filter_mset (\<lambda>t. holder t = Some cid) T)"

text \<open>A place that has been admitted and not yet been sent to the venue.\<close>

fun placing :: "string \<Rightarrow> task \<Rightarrow> bool" where
  "placing cid (PlaceJournal rq p) \<longleftrightarrow> pl_rejection p = None \<and> rq_client_order_id rq = cid"
| "placing cid _ \<longleftrightarrow> False"

fun places :: "string \<Rightarrow> effect \<Rightarrow> bool" where
  "places cid (VenuePlace ord) \<longleftrightarrow> client_order_id ord = cid"
| "places cid _ \<longleftrightarrow> False"

definition placements :: "gateway \<Rightarrow> task multiset \<Rightarrow> string \<Rightarrow> nat" where
  "placements g T cid = length (filter (places cid) (io_trace g)) + size (filter_mset (placing cid) T)"

text \<open>The journal entry that covers a venue call: the same order, with the command as its pending
  action; a new order is written with the intent flag.\<close>

fun intent_for :: "effect \<Rightarrow> effect \<Rightarrow> bool" where
  "intent_for (Journaled o1 intent sq) (VenuePlace ord) \<longleftrightarrow>
     intent \<and> client_order_id o1 = client_order_id ord \<and> pending_action o1 = NewAction"
| "intent_for (Journaled o1 intent sq) (VenueCancel ord) \<longleftrightarrow>
     client_order_id o1 = client_order_id ord \<and> pending_action o1 = CancelAction"
| "intent_for (Journaled o1 intent sq) (VenueAmend ord np nq) \<longleftrightarrow>
     client_order_id o1 = client_order_id ord \<and> pending_action o1 = AmendAction"
| "intent_for _ _ \<longleftrightarrow> False"

fun is_venue_call :: "effect \<Rightarrow> bool" where
  "is_venue_call (VenuePlace _) = True"
| "is_venue_call (VenueCancel _) = True"
| "is_venue_call (VenueAmend _ _ _) = True"
| "is_venue_call _ = False"

definition write_ahead :: "effect list \<Rightarrow> bool" where
  "write_ahead tr \<longleftrightarrow>
     (\<forall>i < length tr. is_venue_call (tr ! i) \<longrightarrow> (\<exists>j \<in> set (take i tr). intent_for j (tr ! i)))"

text \<open>What a task knows about the order it works on.\<close>

fun task_ok :: "gateway \<Rightarrow> task \<Rightarrow> bool" where
  "task_ok g (PlaceJournal rq p) \<longleftrightarrow> order_at g (rq_client_order_id rq) \<noteq> None \<and>
     (pl_rejection p = None \<longrightarrow> client_order_id (pt_order (pl_ticket p)) = rq_client_order_id rq \<and>
        pending_action (pt_order (pl_ticket p)) = NewAction \<and> pt_intent_only (pl_ticket p))"
| "task_ok g (PlaceVenue rq _) \<longleftrightarrow> order_at g (rq_client_order_id rq) \<noteq> None"
| "task_ok g (CancelJournal rq t) \<longleftrightarrow> order_at g (cx_client_order_id rq) \<noteq> None \<and>
     client_order_id (pt_order t) = cx_client_order_id rq \<and> pending_action (pt_order t) = CancelAction"
| "task_ok g (CancelVenue rq _) \<longleftrightarrow> order_at g (cx_client_order_id rq) \<noteq> None"
| "task_ok g (AmendJournal rq t) \<longleftrightarrow> order_at g (am_client_order_id rq) \<noteq> None \<and>
     client_order_id (pt_order t) = am_client_order_id rq \<and> pending_action (pt_order t) = AmendAction"
| "task_ok g (AmendVenue rq _) \<longleftrightarrow> order_at g (am_client_order_id rq) \<noteq> None"
| "task_ok g _ \<longleftrightarrow> True"

text \<open>Orders stay, with their identity.\<close>

definition book_extends :: "gateway \<Rightarrow> gateway \<Rightarrow> bool" where
  "book_extends g g' \<longleftrightarrow> (\<forall>cid old. order_at g cid = Some old \<longrightarrow>
     (\<exists>ord. order_at g' cid = Some ord \<and> order_identity ord = order_identity old))"

definition run_inv :: "run \<Rightarrow> bool" where
  "run_inv s \<longleftrightarrow> (case s of (g, T, c) \<Rightarrow>
     gw_wf g \<and> (c \<longrightarrow> positions_exact g) \<and> (\<forall>t \<in># T. task_ok g t) \<and>
     (\<forall>cid. in_flight T cid \<le> 1 \<and> (0 < in_flight T cid \<longrightarrow> cid \<in> gw_active_operations g)) \<and>
     (\<forall>cid. placements g T cid \<le> 1 \<and> (0 < placements g T cid \<longrightarrow> order_at g cid \<noteq> None)) \<and>
     write_ahead (io_trace g))"

section \<open>Lemmas on traces and books\<close>

lemma write_ahead_Nil [simp]: "write_ahead []"
  by (simp add: write_ahead_def)

lemma write_ahead_snoc:
  "write_ahead (tr @ [e]) \<longleftrightarrow> write_ahead tr \<and> (is_venue_call e \<longrightarrow> (\<exists>j \<in> set tr. intent_for j e))"
  by (auto simp: write_ahead_def nth_append less_Suc_eq)

lemma book_extends_refl [simp]: "book_extends g g"
  by (simp add: book_extends_def)

lemma book_extends_trans: "book_extends g g' \<Longrightarrow> book_extends g' g'' \<Longrightarrow> book_extends g g''"
  unfolding book_extends_def by metis

lemma book_extends_dom: "book_extends g g' \<Longrightarrow> order_at g cid \<noteq> None \<Longrightarrow> order_at g' cid \<noteq> None"
  unfolding book_extends_def by (metis not_None_eq)

lemma task_ok_mono: "book_extends g g' \<Longrightarrow> task_ok g t \<Longrightarrow> task_ok g' t"
  using book_extends_dom by (cases t) auto

lemma book_extends_same: "core_same g g' \<Longrightarrow> book_extends g g'"
  using core_same_inv(3) by (simp add: book_extends_def)

lemma book_extends_replaced:
  assumes "order_replaced cid ord g g'"
    and "order_at g cid = None \<or> (\<exists>old. order_at g cid = Some old \<and> order_identity ord = order_identity old)"
  shows "book_extends g g'"
  using assms order_replaced_order_at [OF assms(1)] by (auto simp: book_extends_def)

section \<open>One step\<close>

text \<open>What a step keeps: the book, the positions while nothing throws, the ids in flight and the order
  of journal and venue.\<close>

definition core_step :: "gateway \<Rightarrow> gateway \<Rightarrow> bool \<Rightarrow> bool" where
  "core_step g g' ok \<longleftrightarrow> gw_wf g' \<and> book_extends g g' \<and> (ok \<longrightarrow> positions_exact g \<longrightarrow> positions_exact g')"

definition claims_step :: "task \<Rightarrow> gateway \<Rightarrow> gateway \<Rightarrow> task list \<Rightarrow> bool" where
  "claims_step t g g' ts \<longleftrightarrow> (\<forall>t' \<in> set ts. task_ok g' t') \<and>
     (\<forall>cid. in_flight (mset ts) cid \<le> in_flight {#t#} cid \<or>
        in_flight (mset ts) cid = 1 \<and> (order_at g cid = None \<or> cid \<notin> gw_active_operations g)) \<and>
     (\<forall>cid \<in> gw_active_operations g. holder t \<noteq> Some cid \<longrightarrow> cid \<in> gw_active_operations g') \<and>
     (\<forall>cid. 0 < in_flight (mset ts) cid \<longrightarrow> cid \<in> gw_active_operations g')"

definition io_step :: "task \<Rightarrow> gateway \<Rightarrow> gateway \<Rightarrow> task list \<Rightarrow> bool" where
  "io_step t g g' ts \<longleftrightarrow> (\<exists>es. io_trace g' = io_trace g @ es \<and>
     (write_ahead (io_trace g) \<longrightarrow> write_ahead (io_trace g @ es)) \<and>
     (\<forall>cid. let n = length (filter (places cid) es) + size (filter_mset (placing cid) (mset ts))
            in n \<le> size (filter_mset (placing cid) {#t#}) \<or> n = 1 \<and> order_at g cid = None \<and> order_at g' cid \<noteq> None))"

definition sound_step :: "task \<Rightarrow> gateway \<Rightarrow> gateway \<times> task list \<times> bool \<Rightarrow> bool" where
  "sound_step t g r \<longleftrightarrow> (case r of (g', ts, ok) \<Rightarrow>
     core_step g g' ok \<and> claims_step t g g' ts \<and> io_step t g g' ts)"

lemma core_step_same: "gw_wf g \<Longrightarrow> core_same g g' \<Longrightarrow> core_step g g' ok"
  by (simp add: core_step_def book_extends_same core_same_inv)

lemma core_step_replaced:
  assumes "gw_wf g" "order_replaced cid ord g g'" "client_order_id ord = cid"
    and "order_at g cid = None \<or> (\<exists>old. order_at g cid = Some old \<and> order_identity ord = order_identity old)"
    and "ok \<Longrightarrow> positions_exact g \<Longrightarrow> positions_exact g'"
  shows "core_step g g' ok"
  using assms order_replaced_wf book_extends_replaced by (auto simp: core_step_def)

lemma claims_step_idle:
  assumes "gw_active_operations g \<subseteq> insert c (gw_active_operations g')"
    and "holder t = Some c \<or> gw_active_operations g \<subseteq> gw_active_operations g'"
    and "\<forall>t' \<in> set ts. holder t' = None \<and> task_ok g' t'"
  shows "claims_step t g g' ts"
proof -
  have z: "in_flight (mset ts) cid = 0" for cid
    using assms(3) by (auto simp: in_flight_def filter_mset_eq_conv)
  from assms show ?thesis unfolding claims_step_def z by auto
qed

lemma claims_step_stop: "gw_active_operations g \<subseteq> gw_active_operations g' \<Longrightarrow> claims_step t g g' []"
  by (rule claims_step_idle) auto

lemma claims_step_hand_over:
  assumes "holder t = Some c" "holder t' = Some c" "task_ok g' t'"
    and "gw_active_operations g' = gw_active_operations g" "c \<in> gw_active_operations g"
  shows "claims_step t g g' [t']"
  using assms by (auto simp: claims_step_def in_flight_def)

lemma claims_step_claim:
  assumes "holder t' = Some c" "task_ok g' t'" "order_at g c = None \<or> c \<notin> gw_active_operations g"
    and "gw_active_operations g' = insert c (gw_active_operations g)"
  shows "claims_step t g g' [t']"
  using assms by (auto simp: claims_step_def in_flight_def)

lemma io_step_silent:
  assumes "io_trace g' = io_trace g" and "\<forall>t' \<in> set ts. \<forall>c. \<not> placing c t'"
  shows "io_step t g g' ts"
proof -
  have *: "filter_mset (placing c) (mset ts) = {#}" for c using assms(2) by (auto simp: filter_mset_eq_conv)
  show ?thesis unfolding io_step_def Let_def * by (rule exI [of _ "[]"]) (simp add: assms(1))
qed

lemma io_step_journal:
  assumes "io_trace g' = io_trace g @ (if b then [Journaled o1 i s] else [])"
    and "\<forall>t' \<in> set ts. \<forall>c. \<not> placing c t'"
  shows "io_step t g g' ts"
proof -
  have *: "filter_mset (placing c) (mset ts) = {#}" for c using assms(2) by (auto simp: filter_mset_eq_conv)
  show ?thesis
    unfolding io_step_def Let_def *
    by (rule exI [of _ "if b then [Journaled o1 i s] else []"]) (simp add: assms(1) write_ahead_snoc)
qed

lemma io_step_call:
  assumes "io_trace g' = io_trace g @ [Journaled o1 i s, call]"
    and "intent_for (Journaled o1 i s) call" and "\<forall>c. places c call \<longrightarrow> placing c t"
    and "\<forall>t' \<in> set ts. \<forall>c. \<not> placing c t'"
  shows "io_step t g g' ts"
proof -
  have *: "filter_mset (placing c) (mset ts) = {#}" for c using assms(4) by (auto simp: filter_mset_eq_conv)
  have "write_ahead (io_trace g @ [Journaled o1 i s, call])" if "write_ahead (io_trace g)"
    using that assms(2) write_ahead_snoc [of "io_trace g @ [Journaled o1 i s]" call]
    by (simp add: write_ahead_snoc)
  then show ?thesis
    unfolding io_step_def Let_def *
    by (intro exI [of _ "[Journaled o1 i s, call]"]) (auto simp: assms(1,3))
qed

lemma io_step_admit:
  assumes "io_trace g' = io_trace g" and "order_at g cid = None" "order_at g' cid \<noteq> None"
    and "\<And>c. placing c t' \<Longrightarrow> c = cid"
  shows "io_step t g g' [t']"
  using assms(2-) by (auto simp: io_step_def assms(1) intro!: exI [of _ "[]"])

subsection \<open>Place\<close>

lemma sound_place_start:
  assumes wf: "gw_wf g"
  shows "sound_step (PlaceStart rq mp ic bc) g (advance cf si (PlaceStart rq mp ic bc) g)"
proof -
  obtain g' res where run: "place_begin cf (si_clock si) (si_now si) rq mp ic bc g = (g', res)" by fastforce
  from run wf show ?thesis
  proof (cases rule: place_begin_cases)
    case (answered answer)
    with run wf show ?thesis
      by (simp add: sound_step_def continue_def continuation_def core_step_same claims_step_stop io_step_silent)
  next
    case (failed e)
    with run wf show ?thesis
      by (simp add: sound_step_def continue_def continuation_def core_step_same claims_step_stop io_step_silent)
  next
    case (admitted p ord decision)
    let ?cid = "rq_client_order_id rq"
    have here: "order_at g' ?cid = Some ord" using order_replaced_order_at [OF admitted(5)] by simp
    have "core_step g g' True"
      using wf admitted by (intro core_step_replaced [OF wf admitted(5)]) auto
    moreover have "claims_step (PlaceStart rq mp ic bc) g g' [PlaceJournal rq p]"
    proof (cases "rd_accepted decision")
      case True
      with admitted here show ?thesis by (intro claims_step_claim [where c = ?cid]) auto
    next
      case False
      with admitted here show ?thesis by (intro claims_step_idle) auto
    qed
    moreover have "io_step (PlaceStart rq mp ic bc) g g' [PlaceJournal rq p]"
      using admitted here by (intro io_step_admit [of _ _ ?cid]) auto
    ultimately show ?thesis
      using run admitted(1) by (simp add: sound_step_def continue_def continuation_def)
  qed
qed

lemma sound_place_journal:
  assumes wf: "gw_wf g" and ok: "task_ok g (PlaceJournal rq p)"
    and act: "\<And>c. holder (PlaceJournal rq p) = Some c \<Longrightarrow> c \<in> gw_active_operations g"
  shows "sound_step (PlaceJournal rq p) g (advance cf si (PlaceJournal rq p) g)"
proof -
  obtain g' res where run: "place_route (si_store si) rq p g = (g', res)" by fastforce
  then show ?thesis
  proof (cases rule: place_route_cases)
    case (failed e)
    with run wf show ?thesis
      by (simp add: sound_step_def proceed_def core_step_same claims_step_stop io_step_silent)
  next
    case (answered answer)
    have "io_step (PlaceJournal rq p) g g' []"
      by (rule io_step_journal [where b = True]) (use answered in simp_all)
    with answered run wf show ?thesis
      by (simp add: sound_step_def proceed_def continuation_def core_step_same claims_step_stop)
  next
    case (routed ord)
    let ?cid = "rq_client_order_id rq"
    have ord: "order_at g ?cid = Some ord" using ok routed(5) by auto
    then have cid: "client_order_id ord = ?cid" using order_at_Some_mem(2) [OF wf] by simp
    have "claims_step (PlaceJournal rq p) g g' [PlaceVenue rq ord]"
      using routed ok act core_same_inv(3) [OF routed(3)]
      by (intro claims_step_hand_over [where c = ?cid]) auto
    moreover have "io_step (PlaceJournal rq p) g g' [PlaceVenue rq ord]"
      using routed(2) ok cid by (intro io_step_call [OF routed(6)]) auto
    ultimately show ?thesis
      using routed run wf by (simp add: sound_step_def proceed_def continuation_def core_step_same)
  qed
qed

subsection \<open>The end of every command\<close>

lemma sound_finish:
  assumes wf: "gw_wf g" and shape: "finish_shape cid g g' res" and "holder t = Some cid"
    and f: "\<And>n t'. t' \<in> set (f n) \<Longrightarrow> holder t' = None \<and> (\<forall>c. \<not> placing c t') \<and> task_ok g' t'"
  shows "sound_step t g (continue f (g', res))"
proof (cases res)
  case (Inl e)
  with shape consider (same) "core_same g g'" "gw_active_operations g' \<subseteq> gw_active_operations g"
      "gw_active_operations g - {cid} \<subseteq> gw_active_operations g'" "io_trace g' = io_trace g"
    | (changed) old ord where "order_at g cid = Some old" "order_replaced cid ord g g'"
      "order_identity ord = order_identity old" "client_order_id ord = cid"
      "gw_active_operations g' = gw_active_operations g - {cid}" "io_trace g' = io_trace g"
    unfolding finish_shape_def by auto
  then show ?thesis
  proof cases
    case same
    have "claims_step t g g' []" by (rule claims_step_idle [where c = cid]) (use same assms(3) in auto)
    with same Inl wf show ?thesis by (simp add: sound_step_def continue_def core_step_same io_step_silent)
  next
    case changed
    have "claims_step t g g' []" by (rule claims_step_idle [where c = cid]) (use changed assms(3) in auto)
    moreover have "core_step g g' False" using changed by (intro core_step_replaced [OF wf changed(2)]) auto
    ultimately show ?thesis using changed Inl by (simp add: sound_step_def continue_def io_step_silent)
  qed
next
  case (Inr n)
  with shape obtain old ord where changed: "order_at g cid = Some old" "order_replaced cid ord g g'"
      "order_identity ord = order_identity old" "client_order_id ord = cid"
      "gw_active_operations g' = gw_active_operations g - {cid}" "io_trace g' = io_trace g"
      "positions_exact g \<longrightarrow> positions_exact g'"
    unfolding finish_shape_def by auto
  have "claims_step t g g' (f n)" by (rule claims_step_idle [where c = cid]) (use changed assms(3) f in auto)
  moreover have "core_step g g' True" using changed by (intro core_step_replaced [OF wf changed(2)]) auto
  moreover have "io_step t g g' (f n)" using changed f by (intro io_step_silent) blast+
  ultimately show ?thesis using Inr by (simp add: sound_step_def continue_def)
qed

lemma sound_commit:
  assumes wf: "gw_wf g" and fr: "core_same g g'" "gw_active_operations g' = gw_active_operations g"
      "io_trace g' = io_trace g @ (if b then [Journaled o1 i s] else [])"
    and f: "\<And>n t'. t' \<in> set (f n) \<Longrightarrow> holder t' = None \<and> (\<forall>c. \<not> placing c t') \<and> task_ok g' t'"
  shows "sound_step t g (proceed f (g', res))"
proof -
  have step: "sound_step t g (g', ts, True)"
    if "\<And>t'. t' \<in> set ts \<Longrightarrow> holder t' = None \<and> (\<forall>c. \<not> placing c t') \<and> task_ok g' t'" for ts
    unfolding sound_step_def prod.case
    by (intro conjI core_step_same [OF wf fr(1)] claims_step_idle [where c = "[]"] io_step_journal [OF fr(3)])
      (use that fr(2) in auto)
  show ?thesis using step [of "[]"] step f by (cases res) (auto simp: proceed_def)
qed

subsection \<open>Cancel and amend\<close>

lemma sound_begin:
  assumes wf: "gw_wf g" and shape: "begin_shape cid key fp act g g' res"
    and f: "\<And>x. holder (f x) = Some cid \<and> (\<forall>c. \<not> placing c (f x))"
    and ok: "\<And>x h. order_at h cid \<noteq> None \<Longrightarrow> client_order_id (pt_order x) = cid \<Longrightarrow>
        pending_action (pt_order x) = act \<Longrightarrow> task_ok h (f x)"
  shows "sound_step t g (continue (continuation f) (g', res))"
  using shape unfolding begin_shape_def
proof (elim disjE exE conjE)
  fix e assume *: "core_same g g'" "gw_active_operations g' = gw_active_operations g" "io_trace g' = io_trace g"
    "res = Inl e"
  then show ?thesis
    using wf by (simp add: sound_step_def continue_def core_step_same claims_step_stop io_step_silent)
next
  fix answer assume *: "core_same g g'" "gw_active_operations g' = gw_active_operations g"
    "io_trace g' = io_trace g" "res = Inr (Done answer)"
  then show ?thesis
    using wf by (simp add: sound_step_def continue_def continuation_def core_step_same claims_step_stop io_step_silent)
next
  fix old ord t'
  assume *: "order_at g cid = Some old" "cid \<notin> gw_active_operations g" "order_replaced cid ord g g'"
    "order_identity ord = order_identity old" "client_order_id ord = cid"
    "positions_exact g \<longrightarrow> positions_exact g'" "gw_active_operations g' = insert cid (gw_active_operations g)"
    "io_trace g' = io_trace g" "res = Inr (Continue t')" "pt_order t' = ord" "pending_action ord = act"
  have here: "order_at g' cid \<noteq> None" using order_replaced_order_at [OF *(3)] by simp
  have "core_step g g' True" using * by (intro core_step_replaced [OF wf *(3)]) auto
  moreover have "claims_step t g g' [f t']"
    using * f here by (intro claims_step_claim [where c = cid] ok) auto
  moreover have "io_step t g g' [f t']" using * f by (intro io_step_silent) auto
  ultimately show ?thesis using *(9) by (simp add: sound_step_def continue_def continuation_def)
qed

lemma sound_route:
  assumes wf: "gw_wf g" and "core_same g g'" "gw_active_operations g' = gw_active_operations g"
    and io: "io_trace g' = io_trace g @ [Journaled o1 i s, call]" and "intent_for (Journaled o1 i s) call"
    and "\<forall>c. \<not> places c call" "\<forall>c. \<not> placing c t'"
    and "holder t = Some cid" "holder t' = Some cid" "task_ok g' t'" "cid \<in> gw_active_operations g"
  shows "sound_step t g (g', [t'], True)"
proof -
  have "io_step t g g' [t']" using assms by (intro io_step_call [OF io]) auto
  moreover have "claims_step t g g' [t']" using assms by (intro claims_step_hand_over [where c = cid]) auto
  ultimately show ?thesis using assms by (simp add: sound_step_def core_step_same)
qed

lemma sound_cancel_journal:
  assumes wf: "gw_wf g" and ok: "task_ok g (CancelJournal rq t)"
    and act: "cx_client_order_id rq \<in> gw_active_operations g"
  shows "sound_step (CancelJournal rq t) g (advance cf si (CancelJournal rq t) g)"
proof -
  obtain g' res where run: "cancel_route (si_store si) rq t g = (g', res)" by fastforce
  then show ?thesis
  proof (cases rule: cancel_route_cases)
    case (failed e)
    with run wf show ?thesis
      by (simp add: sound_step_def proceed_def core_step_same claims_step_stop io_step_silent)
  next
    case (routed ord)
    have "order_at g (cx_client_order_id rq) = Some ord" using ok routed(4) by auto
    then have "client_order_id ord = cx_client_order_id rq" using order_at_Some_mem(2) [OF wf] by simp
    with run routed ok act core_same_inv(3) [OF routed(2)] show ?thesis
      by (simp add: proceed_def sound_route [OF wf routed(2,3,5), where cid = "cx_client_order_id rq"])
  qed
qed

lemma sound_amend_journal:
  assumes wf: "gw_wf g" and ok: "task_ok g (AmendJournal rq t)"
    and act: "am_client_order_id rq \<in> gw_active_operations g"
  shows "sound_step (AmendJournal rq t) g (advance cf si (AmendJournal rq t) g)"
proof -
  obtain g' res where run: "amend_route (si_store si) rq t g = (g', res)" by fastforce
  then show ?thesis
  proof (cases rule: amend_route_cases)
    case (failed e)
    with run wf show ?thesis
      by (simp add: sound_step_def proceed_def core_step_same claims_step_stop io_step_silent)
  next
    case (routed ord)
    have "order_at g (am_client_order_id rq) = Some ord" using ok routed(4) by auto
    then have "client_order_id ord = am_client_order_id rq" using order_at_Some_mem(2) [OF wf] by simp
    with run routed ok act core_same_inv(3) [OF routed(2)] show ?thesis
      by (simp add: proceed_def sound_route [OF wf routed(2,3,5), where cid = "am_client_order_id rq"])
  qed
qed

subsection \<open>Reports and reconciliation\<close>

lemma sound_report:
  assumes wf: "gw_wf g"
  shows "sound_step (Reports v (rep # reps)) g (advance cf si (Reports v (rep # reps)) g)"
proof -
  obtain g' res where run: "apply_execution_locked (si_now si) v rep g = (g', res)" by fastforce
  let ?f = "\<lambda>out. case out of None \<Rightarrow> [Reports v reps] | Some n \<Rightarrow> [ReportEnd v rep n reps]"
  have claims: "claims_step (Reports v (rep # reps)) g g' []" "claims_step (Reports v (rep # reps)) g g' (?f out)"
    if "gw_active_operations g' = gw_active_operations g" for out
    using that by (auto intro!: claims_step_idle split: option.splits)
  have io: "io_step (Reports v (rep # reps)) g g' []" "io_step (Reports v (rep # reps)) g g' (?f out)"
    if "io_trace g' = io_trace g" for out
    using that by (auto intro!: io_step_silent split: option.splits)
  have "core_step g g' (\<exists>x. res = Inr x) \<and> gw_active_operations g' = gw_active_operations g \<and> io_trace g' = io_trace g"
    using run wf
  proof (cases rule: apply_execution_locked_cases)
    case same
    with wf show ?thesis by (simp add: core_step_same)
  next
    case (replaced key old ord)
    then show ?thesis by (auto intro: core_step_replaced [OF wf])
  qed
  then show ?thesis using run claims io by (cases res) (simp_all add: sound_step_def continue_def)
qed

lemma sound_mark:
  assumes wf: "gw_wf g"
  shows "sound_step (MarkStart cid) g (advance cf si (MarkStart cid) g)"
proof -
  obtain g' res where run: "mark_unknown cid g = (g', res)" by fastforce
  from this wf show ?thesis
  proof (cases rule: mark_unknown_cases)
    case missing
    with run wf show ?thesis
      by (auto simp: sound_step_def intro: core_step_same claims_step_stop io_step_silent)
  next
    case (marked old ord t)
    have "claims_step (MarkStart cid) g g' [MarkEnd cid t]"
      using marked by (intro claims_step_idle) auto
    moreover have "core_step g g' (\<not> is_terminal (status old))"
      using marked by (intro core_step_replaced [OF wf marked(5)]) auto
    ultimately show ?thesis
      using run marked by (simp add: sound_step_def io_step_silent)
  qed
qed

lemma sound_mark_end:
  assumes wf: "gw_wf g"
  shows "sound_step (MarkEnd cid t) g (advance cf si (MarkEnd cid t) g)"
proof (cases "si_store si")
  case None
  have "io_step (MarkEnd cid t) g (emit (Notified (the (order_at g cid)))
      (emit (Journaled (pt_order t) (pt_intent_only t) (pt_sequence t)) g)) []"
    by (rule io_step_journal [where b = True]) simp_all
  with None wf show ?thesis
    by (simp add: sound_step_def commit_persist_def core_step_same core_same_def claims_step_stop)
next
  case (Some e)
  with wf show ?thesis
    by (simp add: sound_step_def commit_persist_def core_step_same claims_step_stop io_step_silent)
qed

lemma advance_sound:
  assumes wf: "gw_wf g" and ok: "task_ok g t" and act: "\<And>c. holder t = Some c \<Longrightarrow> c \<in> gw_active_operations g"
  shows "sound_step t g (advance cf si t g)"
proof (cases t)
  case (PlaceStart rq mp ic bc)
  with sound_place_start [OF wf] show ?thesis by blast
next
  case (PlaceJournal rq p)
  with sound_place_journal [OF wf] ok act show ?thesis by blast
next
  case t: (PlaceVenue rq ord)
  obtain g' res where run: "place_finish (si_clock si) (si_now si) rq (adapter_outcome (si_adapter si ord)) g = (g', res)"
    by fastforce
  show ?thesis unfolding t advance.simps run
    by (rule sound_finish [OF wf place_finish_shape [OF run wf]]) auto
next
  case t: (PlaceEnd rq n)
  obtain g' res where run: "finish_command (si_store si) (rq_client_order_id rq) [] n g = (g', res)" by fastforce
  show ?thesis unfolding t advance.simps run
    by (rule sound_commit [OF wf finish_command_frame [OF run]]) auto
next
  case t: (CancelStart rq)
  obtain g' out where run: "cancel_begin (si_now si) rq g = (g', out)" by fastforce
  show ?thesis unfolding t advance.simps run prod.case
    by (rule sound_begin [OF wf cancel_begin_shape [OF run wf]]) auto
next
  case (CancelJournal rq t)
  with sound_cancel_journal [OF wf] ok act show ?thesis by simp
next
  case t: (CancelVenue rq ord)
  obtain g' res where run: "cancel_finish rq (adapter_outcome (si_adapter si ord)) g = (g', res)" by fastforce
  show ?thesis unfolding t advance.simps run
    by (rule sound_finish [OF wf cancel_finish_shape [OF run wf]]) auto
next
  case t: (CancelEnd rq n)
  obtain g' res where run: "finish_command (si_store si) (cx_client_order_id rq) (cancel_request_id rq) n g = (g', res)"
    by fastforce
  show ?thesis unfolding t advance.simps run
    by (rule sound_commit [OF wf finish_command_frame [OF run]]) auto
next
  case t: (AmendStart rq)
  obtain g' res where run: "amend_begin cf (si_now si) rq g = (g', res)" by fastforce
  show ?thesis unfolding t advance.simps run
    by (rule sound_begin [OF wf amend_begin_shape [OF run wf]]) auto
next
  case (AmendJournal rq t)
  with sound_amend_journal [OF wf] ok act show ?thesis by simp
next
  case t: (AmendVenue rq ord)
  obtain g' res where run: "amend_finish rq (adapter_outcome (si_adapter si ord)) g = (g', res)" by fastforce
  show ?thesis unfolding t advance.simps run
    by (rule sound_finish [OF wf amend_finish_shape [OF run wf]]) auto
next
  case t: (AmendEnd rq v n)
  obtain g' res where run: "finish_command (si_store si) (am_client_order_id rq) (amend_request_id rq) n g = (g', res)"
    by fastforce
  show ?thesis unfolding t advance.simps run
    by (rule sound_commit [OF wf finish_command_frame [OF run]]) auto
next
  case (Reports v reps)
  with sound_report [OF wf] wf show ?thesis
    by (cases reps) (simp_all add: sound_step_def core_step_same claims_step_stop io_step_silent)
next
  case t: (ReportEnd v rep n reps)
  obtain g' res where run: "finish_execution v rep (si_store si) n g = (g', res)" by fastforce
  show ?thesis unfolding t advance.simps run
    by (rule sound_commit [OF wf finish_execution_frame [OF run]]) auto
next
  case (MarkStart cid)
  with sound_mark [OF wf] show ?thesis by blast
next
  case (MarkEnd cid t)
  with sound_mark_end [OF wf] show ?thesis by blast
qed

section \<open>The invariant of runs\<close>

lemma in_flight_simps:
  "in_flight {#} c = 0" "in_flight (add_mset t T) c = in_flight {#t#} c + in_flight T c"
  "in_flight (T + U) c = in_flight T c + in_flight U c"
  by (simp_all add: in_flight_def)

lemma in_flight_pos: "0 < in_flight T c \<longleftrightarrow> (\<exists>t \<in># T. holder t = Some c)"
  by (simp add: in_flight_def nonempty_has_size [symmetric]) blast

lemma task_ok_holder: "task_ok g t \<Longrightarrow> holder t = Some c \<Longrightarrow> order_at g c \<noteq> None"
  by (cases t) (auto split: if_splits)

lemma run_inv_work:
  assumes inv: "run_inv (g, add_mset t T, c)" and adv: "advance cf si t g = (g', ts, ok)"
  shows "run_inv (g', T + mset ts, c \<and> ok)" and "book_extends g g'"
proof -
  note all = inv [unfolded run_inv_def prod.case in_flight_simps(2) [of t T]]
  note wf = all [THEN conjunct1] and pos = all [THEN conjunct2, THEN conjunct1]
    and tok = all [THEN conjunct2, THEN conjunct2, THEN conjunct1]
  note counts = all [THEN conjunct2, THEN conjunct2, THEN conjunct2]
  note flight_all = counts [THEN conjunct1, THEN spec] and wa = counts [THEN conjunct2, THEN conjunct2]
    and place_all = counts [THEN conjunct2, THEN conjunct1, THEN spec]
  note fl = flight_all [THEN conjunct1] and act = flight_all [THEN conjunct2, rule_format]
    and pl = place_all [THEN conjunct1] and pld = place_all [THEN conjunct2, rule_format]
  have "\<And>cid. holder t = Some cid \<Longrightarrow> cid \<in> gw_active_operations g"
    using act by (simp add: in_flight_def)
  with wf tok have sound: "core_step g g' ok" "claims_step t g g' ts" "io_step t g g' ts"
    using advance_sound [of g t cf si] adv by (simp_all add: sound_step_def)
  show ext: "book_extends g g'" using sound(1) by (simp add: core_step_def)
  have flight: "in_flight (T + mset ts) cid \<le> 1 \<and>
      (0 < in_flight (T + mset ts) cid \<longrightarrow> cid \<in> gw_active_operations g')" for cid
  proof -
    have none: "order_at g cid \<noteq> None \<and> cid \<in> gw_active_operations g" if "0 < in_flight T cid"
      using that act [of cid] tok task_ok_holder by (auto simp: in_flight_pos)
    have stay: "cid \<in> gw_active_operations g'" if "0 < in_flight T cid"
    proof -
      have "in_flight {#t#} cid = 0" using that fl [of cid] by linarith
      then have "holder t \<noteq> Some cid" by (auto simp: in_flight_def)
      then show ?thesis using none [OF that] sound(2) by (simp add: claims_step_def)
    qed
    have "in_flight (mset ts) cid \<le> in_flight {#t#} cid \<or>
        in_flight (mset ts) cid = 1 \<and> (order_at g cid = None \<or> cid \<notin> gw_active_operations g)"
      and new: "0 < in_flight (mset ts) cid \<Longrightarrow> cid \<in> gw_active_operations g'"
      using sound(2) by (simp_all add: claims_step_def)
    then have "in_flight T cid + in_flight (mset ts) cid \<le> 1" using none fl [of cid] by fastforce
    then show ?thesis using stay new by (auto simp: in_flight_simps(3))
  qed
  obtain es where es: "io_trace g' = io_trace g @ es" "write_ahead (io_trace g @ es)"
    and cnt: "\<And>cid. let n = length (filter (places cid) es) + size (filter_mset (placing cid) (mset ts))
        in n \<le> size (filter_mset (placing cid) {#t#}) \<or> n = 1 \<and> order_at g cid = None \<and> order_at g' cid \<noteq> None"
    using sound(3) wa unfolding io_step_def by blast
  have placed: "placements g' (T + mset ts) cid \<le> 1 \<and>
      (0 < placements g' (T + mset ts) cid \<longrightarrow> order_at g' cid \<noteq> None)" for cid
  proof -
    define n where "n = length (filter (places cid) es) + size (filter_mset (placing cid) (mset ts))"
    define m where "m = length (filter (places cid) (io_trace g)) + size (filter_mset (placing cid) T)"
    have new: "placements g' (T + mset ts) cid = m + n" by (simp add: placements_def es(1) n_def m_def)
    have old: "placements g (add_mset t T) cid = m + size (filter_mset (placing cid) {#t#})"
      by (simp add: placements_def m_def)
    have "n \<le> size (filter_mset (placing cid) {#t#}) \<or> n = 1 \<and> order_at g cid = None \<and> order_at g' cid \<noteq> None"
      using cnt [of cid] by (simp only: Let_def n_def)
    then show ?thesis
    proof
      assume "n \<le> size (filter_mset (placing cid) {#t#})"
      then show ?thesis using pl [of cid] pld [of cid] book_extends_dom [OF ext, of cid] unfolding new old by linarith
    next
      assume fresh: "n = 1 \<and> order_at g cid = None \<and> order_at g' cid \<noteq> None"
      then have "placements g (add_mset t T) cid = 0" using pld [of cid] by blast
      then show ?thesis using fresh unfolding new old by simp
    qed
  qed
  have "\<forall>t' \<in># T + mset ts. task_ok g' t'"
    using tok task_ok_mono [OF ext] sound(2) by (auto simp: claims_step_def)
  then show "run_inv (g', T + mset ts, c \<and> ok)"
    using sound(1) pos flight placed es unfolding run_inv_def core_step_def by simp
qed

lemma run_inv_quiet:
  assumes "core_same g g'" "gw_active_operations g' = gw_active_operations g" "io_trace g' = io_trace g"
    and "run_inv (g, T, c)"
  shows "run_inv (g', T, c)" and "book_extends g g'"
proof -
  note same = core_same_inv [OF assms(1)] and ext = book_extends_same [OF assms(1)]
  show "book_extends g g'" by (rule ext)
  have "\<forall>t \<in># T. task_ok g' t" using assms(4) task_ok_mono [OF ext] by (auto simp: run_inv_def)
  then show "run_inv (g', T, c)"
    using assms(4) unfolding run_inv_def prod.case placements_def same assms(2,3) by (elim conjE) (intro conjI)
qed

lemma run_inv_arrive: "arrival t \<Longrightarrow> run_inv (g, T, c) \<Longrightarrow> run_inv (g, add_mset t T, c)"
  by (cases t) (simp_all add: run_inv_def in_flight_def placements_def)

lemma pending_frame [simp]:
  "core_same g (g\<lparr>gw_reconciliation_pending := S\<rparr>)"
  "gw_active_operations (schedule_reconciliation v g) = gw_active_operations g"
  "io_trace (g\<lparr>gw_reconciliation_pending := S\<rparr>) = io_trace g"
  "io_trace (schedule_reconciliation v g) = io_trace g"
  "gw_orders (schedule_reconciliation v g) = gw_orders g"
  "gw_positions (schedule_reconciliation v g) = gw_positions g"
  "gw_exchange_id_index (schedule_reconciliation v g) = gw_exchange_id_index g"
  "gw_exchange_client_id_index (schedule_reconciliation v g) = gw_exchange_client_id_index g"
  by (simp_all add: schedule_reconciliation_def core_same_def io_trace_def)

lemma turn_frame:
  "core_same g (fst (reconciliation_turn due g))"
  "gw_active_operations (fst (reconciliation_turn due g)) = gw_active_operations g"
  "io_trace (fst (reconciliation_turn due g)) = io_trace g"
  by (simp_all add: reconciliation_turn_def Let_def)

lemma dropped_frame:
  "core_same g (execution_dropped v b g)"
  "gw_active_operations (execution_dropped v b g) = gw_active_operations g"
  "io_trace (execution_dropped v b g) = io_trace g"
  by (simp_all add: execution_dropped_def core_same_def Let_def)

lemma connection_frame:
  "core_same g (connection_changed cf v up why g)"
  "gw_active_operations (connection_changed cf v up why g) = gw_active_operations g"
  "io_trace (connection_changed cf v up why g) = io_trace g"
  by (simp_all add: connection_changed_def core_same_def Let_def)

lemma gw_step_inv:
  assumes "gw_step cf s s'" "run_inv s"
  shows "run_inv s'" and "book_extends (fst s) (fst s')"
proof -
  have "run_inv s' \<and> book_extends (fst s) (fst s')"
    using assms
  proof (cases rule: gw_step.cases)
    case (arrive t g T c)
    with assms(2) show ?thesis by (simp add: run_inv_arrive)
  next
    case (work si t g g' ts ok T c)
    with assms(2) run_inv_work [of g t T c cf si g' ts ok] show ?thesis by simp
  next
    case (connection g T c v up why)
    with assms(2) run_inv_quiet [OF connection_frame] show ?thesis by simp
  next
    case (dropped g T c v violation)
    with assms(2) run_inv_quiet [OF dropped_frame] show ?thesis by simp
  next
    case (turn g T c due)
    with assms(2) run_inv_quiet [OF turn_frame] show ?thesis by simp
  qed
  then show "run_inv s'" and "book_extends (fst s) (fst s')" by simp_all
qed

interpretation runs: evolving_system "gw_step cf" run_inv "\<lambda>s s'. book_extends (fst s) (fst s')" for cf
  by unfold_locales (auto intro: gw_step_inv book_extends_trans)

section \<open>Construction\<close>

definition listed_exposure :: "(string \<times> order) list \<Rightarrow> string \<Rightarrow> int" where
  "listed_exposure xs s = sum_list (map (\<lambda>(k, ord). if symbol ord = s then exposure ord else 0) xs)"

lemma load_orders_keys:
  "distinct (map fst (gw_orders g)) \<Longrightarrow> \<forall>(k, ord) \<in> set (gw_orders g). client_order_id ord = k \<Longrightarrow>
   gw_orders (load_orders os g) = gw_orders h \<Longrightarrow>
     distinct (map fst (gw_orders h)) \<and> (\<forall>(k, ord) \<in> set (gw_orders h). client_order_id ord = k)"
proof (induction os arbitrary: g)
  case (Cons ord os)
  let ?g = "put_order (client_order_id ord) ord g"
  have d: "distinct (map fst (gw_orders ?g))" using Cons.prems(1) by (simp add: distinct_update)
  have "client_order_id x = k" if "(k, x) \<in> set (gw_orders ?g)" for k x
    using map_of_is_SomeI [OF d that] Cons.prems(2) map_of_SomeD [of "gw_orders g" k x]
    by (auto split: if_splits)
  then have "\<forall>(k, x) \<in> set (gw_orders ?g). client_order_id x = k" by blast
  from Cons.IH [OF d this] Cons.prems(3) show ?case by simp
qed simp

lemma load_orders_frame:
  "gw_active_operations (load_orders os g) = gw_active_operations g" "gw_trace (load_orders os g) = gw_trace g"
  by (induction os arbitrary: g) auto

lemma index_aliases_ran: "ran (index_aliases S c m) \<subseteq> insert c (ran m)"
  by (auto simp: index_aliases_def ran_def split: if_splits)

lemma rebuild_indexes_spec:
  assumes "rebuild_indexes xs g = Inr g'" and "length (gw_positions g) = kSymbolCount"
  shows "gw_orders g' = gw_orders g \<and> length (gw_positions g') = kSymbolCount \<and>
    ran (gw_exchange_id_index g') \<subseteq> ran (gw_exchange_id_index g) \<union> fst ` set xs \<and>
    ran (gw_exchange_client_id_index g') \<subseteq> ran (gw_exchange_client_id_index g) \<union> fst ` set xs \<and>
    gw_active_operations g' = gw_active_operations g \<and> gw_trace g' = gw_trace g \<and>
    (\<forall>s. symbol_id_rt s \<noteq> UnknownSymbol \<longrightarrow> raw (gw_positions g' ! to_slot (symbol_id_rt s)) =
       raw (gw_positions g ! to_slot (symbol_id_rt s)) + listed_exposure xs s)"
  using assms
proof (induction xs arbitrary: g)
  case Nil
  then show ?case by (simp add: listed_exposure_def)
next
  case (Cons x xs)
  obtain cid ord where x: "x = (cid, ord)" by fastforce
  define ex where "ex = index_aliases (exchange_order_id_aliases ord) cid
      (if exchange_order_id ord \<noteq> [] then (gw_exchange_id_index g)(exchange_order_id ord \<mapsto> cid) else gw_exchange_id_index g)"
  define cl where "cl = index_aliases (exchange_client_id_aliases ord) cid ((gw_exchange_client_id_index g)(cid \<mapsto> cid))"
  define g1 where "g1 = g\<lparr>gw_exchange_id_index := ex, gw_exchange_client_id_index := cl\<rparr>"
  have ran: "ran ex \<subseteq> insert cid (ran (gw_exchange_id_index g))" "ran cl \<subseteq> insert cid (ran (gw_exchange_client_id_index g))"
    using index_aliases_ran ran_upd_subset unfolding ex_def cl_def by (fastforce split: if_splits)+
  let ?sid = "symbol_id_rt (symbol ord)"
  have ex_cons: "listed_exposure ((cid, ord) # xs) s = (if symbol ord = s then exposure ord else 0) + listed_exposure xs s" for s
    by (simp add: listed_exposure_def)
  show ?case
  proof (cases "?sid = UnknownSymbol")
    case True
    then have "rebuild_indexes xs g1 = Inr g'" using Cons.prems(1) x by (simp add: Let_def g1_def ex_def cl_def)
    from Cons.IH [OF this] Cons.prems(2) ran True show ?thesis by (auto simp: g1_def x ex_cons)
  next
    case False
    then obtain c p where c: "position_contribution ord = Inr c"
      and p: "decimal_add (gw_positions g ! to_slot ?sid) c = Inr p"
      and rest: "rebuild_indexes xs (g1\<lparr>gw_positions := (gw_positions g)[to_slot ?sid := p]\<rparr>) = Inr g'"
      using Cons.prems(1) x by (auto simp: Let_def g1_def ex_def cl_def rbind_eq_Inr_iff)
    have slot: "to_slot ?sid < length (gw_positions g)" using to_slot_bound False Cons.prems(2) by simp
    have "to_slot ?sid = to_slot (symbol_id_rt s) \<longleftrightarrow> symbol ord = s" if "symbol_id_rt s \<noteq> UnknownSymbol" for s
      using to_slot_inject [OF False that] symbol_slot_inject [OF False, of s] by simp
    then have pos: "raw ((gw_positions g)[to_slot ?sid := p] ! to_slot (symbol_id_rt s)) =
        raw (gw_positions g ! to_slot (symbol_id_rt s)) + (if symbol ord = s then exposure ord else 0)"
      if "symbol_id_rt s \<noteq> UnknownSymbol" for s
      using that slot c p by (simp add: nth_list_update decimal_Inr_iffs position_contribution_eq_Inr_iff)
    from Cons.IH [OF rest] Cons.prems(2) have
      "ran (gw_exchange_id_index g') \<subseteq> ran ex \<union> fst ` set xs \<and> ran (gw_exchange_client_id_index g') \<subseteq> ran cl \<union> fst ` set xs \<and>
       gw_orders g' = gw_orders g \<and> length (gw_positions g') = kSymbolCount \<and>
       gw_active_operations g' = gw_active_operations g \<and> gw_trace g' = gw_trace g \<and>
       (\<forall>s. symbol_id_rt s \<noteq> UnknownSymbol \<longrightarrow> raw (gw_positions g' ! to_slot (symbol_id_rt s)) =
         raw ((gw_positions g)[to_slot ?sid := p] ! to_slot (symbol_id_rt s)) + listed_exposure xs s)"
      by (simp add: g1_def)
    with ran show ?thesis unfolding x ex_cons by (auto simp: pos)
  qed
qed

lemma construct_spec:
  assumes "construct next_sequence recovered = Inr g"
  shows "gw_wf g" "positions_exact g" "gw_active_operations g = {}" "io_trace g = []"
proof -
  let ?g0 = "load_orders recovered (empty_gateway next_sequence)"
  let ?g1 = "?g0\<lparr>gw_exchange_id_index := Map.empty, gw_exchange_client_id_index := Map.empty,
                 gw_positions := replicate kSymbolCount 0\<rparr>"
  obtain g2 where g2: "rebuild_indexes (gw_orders ?g0) ?g1 = Inr g2"
    and g: "g = publish_positions_if_dirty_locked (g2\<lparr>gw_positions_dirty := True\<rparr>)"
    using assms by (auto simp: construct_def rebuild_indexes_locked_def rbind_eq_Inr_iff)
  note spec = rebuild_indexes_spec [OF g2]
  have keys: "distinct (map fst (gw_orders ?g0)) \<and> (\<forall>(k, ord) \<in> set (gw_orders ?g0). client_order_id ord = k)"
    by (rule load_orders_keys [of "empty_gateway next_sequence" recovered]) (simp_all add: empty_gateway_def)
  show "gw_wf g" using spec keys by (auto simp: g gw_wf_def)
  show "positions_exact g"
    using spec to_slot_bound by (simp add: g positions_exact_def book_exposure_def listed_exposure_def)
  show "gw_active_operations g = {}" "io_trace g = []"
    using spec by (simp_all add: g load_orders_frame empty_gateway_def io_trace_def)
qed

lemma run_inv_initial: "construct next_sequence recovered = Inr g \<Longrightarrow> run_inv (g, {#}, True)"
  using construct_spec by (simp add: run_inv_def in_flight_def placements_def)

lemma reachable_run_inv:
  assumes "construct next_sequence recovered = Inr g0" and "reachable_from cf (g0, {#}, True) s"
  shows "run_inv s"
  using runs.reachable_inv [OF assms(2) run_inv_initial [OF assms(1)]] .

end
