(* ===== verification/Abex_Gateway_Props.thy ===== *)
theory Abex_Gateway_Props
  imports Abex_Gateway_Runs
begin

text \<open>
  Properties of the gateway over all its concurrent runs from a constructed state, and a sample run
  that the instances use.
\<close>

section \<open>A sample run\<close>

text \<open>One recovered order of \<open>10 BTC\<close>; a new order of \<open>10 BTC\<close> under a limit of \<open>25 BTC\<close> is admitted,
  journaled and sent.\<close>

definition sample_config :: gateway_config where
  "sample_config = \<lparr>cf_limits = sample_limits, cf_has_market_data = False, cf_dump = (\<lambda>_. []),
     cf_reconcile_on_reconnect = True\<rparr>"

definition sample_recovered :: "order list" where
  "sample_recovered = [sample_order\<lparr>client_order_id := ''c0''\<rparr>]"

definition sample_answer :: adapter_result where
  "sample_answer = \<lparr>ar_accepted = True, ar_outcome_uncertain = False, ar_replacement = False,
     ar_original_order_canceled = False, ar_exchange_order_id = ''x1'', ar_exchange_client_order_id = [],
     ar_code = [], ar_message = [], ar_authoritative_reports = []\<rparr>"

definition sample_input :: step_input where
  "sample_input = \<lparr>si_clock = 10, si_now = 11, si_store = None, si_adapter = (\<lambda>_. Inr sample_answer)\<rparr>"

definition sample_gateway :: gateway where
  "sample_gateway = (case construct 1 sample_recovered of Inl e \<Rightarrow> empty_gateway 1 | Inr g \<Rightarrow> g)"

lemma sample_book:
  "gw_orders (load_orders sample_recovered (empty_gateway 1)) = [(''c0'', sample_order\<lparr>client_order_id := ''c0''\<rparr>)]"
  by (simp add: sample_recovered_def empty_gateway_def)

lemma sample_constructed: "construct 1 sample_recovered = Inr sample_gateway"
  and sample_orders: "gw_orders sample_gateway = [(''c0'', sample_order\<lparr>client_order_id := ''c0''\<rparr>)]"
proof -
  let ?g = "(load_orders sample_recovered (empty_gateway 1))\<lparr>gw_exchange_id_index := Map.empty,
     gw_exchange_client_id_index := Map.empty, gw_positions := replicate kSymbolCount 0\<rparr>"
  have "\<exists>g. rebuild_indexes (gw_orders (load_orders sample_recovered (empty_gateway 1))) ?g = Inr g"
    unfolding sample_book
    by (simp add: Let_def sample_defs position_contribution_def kSymbolCount_def numeral_2_eq_2 apply_eval)
  then obtain g where g: "rebuild_indexes (gw_orders (load_orders sample_recovered (empty_gateway 1))) ?g = Inr g" ..
  then have *: "construct 1 sample_recovered = Inr (publish_positions_if_dirty_locked (g\<lparr>gw_positions_dirty := True\<rparr>))"
    unfolding construct_def rebuild_indexes_locked_def by (simp only: rbind_Inr)
  then have sg: "sample_gateway = publish_positions_if_dirty_locked (g\<lparr>gw_positions_dirty := True\<rparr>)"
    by (simp add: sample_gateway_def)
  show "construct 1 sample_recovered = Inr sample_gateway" using * sg by simp
  show "gw_orders sample_gateway = [(''c0'', sample_order\<lparr>client_order_id := ''c0''\<rparr>)]"
    using rebuild_indexes_spec [OF g] sample_book by (simp add: sg)
qed

lemma sample_order_at: "order_at sample_gateway c = (if c = ''c0'' then Some (sample_order\<lparr>client_order_id := ''c0''\<rparr>) else None)"
  by (simp add: order_at_def sample_orders)

lemma sample_position: "gw_positions sample_gateway ! 0 = Decimal 1000000000"
proof -
  have "raw (gw_positions sample_gateway ! to_slot (symbol_id_rt ''BTC-USDT'')) = book_exposure sample_gateway ''BTC-USDT''"
    using construct_spec(2) [OF sample_constructed, unfolded positions_exact_def, THEN spec, of "''BTC-USDT''"] by simp
  then show ?thesis
    by (simp add: book_exposure_def sample_orders decimal_eq_iff exposure_def sample_defs
        conservative_exposure_def signed_raw_def make_order_def Let_def)
qed

lemma sample_decision: "place_decision sample_config sample_request None risk_accept None sample_gateway = Inr risk_accept"
  by (simp add: place_decision_def conservative_position_locked_def sample_position check_new_with_position_def
      sample_config_def sample_limits_def sample_defs validate_def signed_quantity_def is_positive_def
      scale_def apply_eval decimal_abs_def)

lemma adjust_position_fits:
  assumes "symbol_id_rt smb = sid" "sid \<noteq> UnknownSymbol" "in_int64 (raw c - raw p)"
    and "in_int64 (raw (gw_positions g ! to_slot sid) + (raw c - raw p))"
  shows "\<exists>g'. adjust_position_locked smb p c g = Inr g'"
  using assms by (simp add: adjust_position_locked_def decimal_sub_fits decimal_add_fits)

lemma place_begin_goes_on:
  assumes "order_at g (rq_client_order_id request) = None" and "place_decision cf request mp ic bc g = Inr d"
    and "position_contribution (placed_order clock now request d) = Inr c"
    and "\<And>h. gw_positions h = gw_positions g \<Longrightarrow> \<exists>h'. adjust_position_locked (rq_symbol request) 0 c h = Inr h'"
  shows "\<exists>g' p. place_begin cf clock now request mp ic bc g = (g', Inr (Continue p))"
proof -
  have replay: "replay_if_present cf request g = None" using assms(1) by (simp add: replay_if_present_None_iff)
  define ord where "ord = placed_order clock now request d"
  define g1 where "g1 = (if rd_accepted d
      then g\<lparr>gw_active_operations := insert (client_order_id ord) (gw_active_operations g)\<rparr> else g)"
  have "gw_positions g1 = gw_positions g" by (simp add: g1_def)
  then obtain g2 where g2: "adjust_position_locked (symbol ord) 0 c g1 = Inr g2"
    using assms(4) [of g1] by (auto simp: ord_def)
  have "place_begin cf clock now request mp ic bc g =
        (case rbind (position_contribution ord) (\<lambda>c. adjust_position_locked (symbol ord) 0 c g1) of Inl e \<Rightarrow> (g1, Inl e)
         | Inr g2 \<Rightarrow>
             (case prepare_persist ord (rd_accepted d)
                     (publish_positions_if_dirty_locked (put_order (client_order_id ord) ord g2)) of
                (t, g3) \<Rightarrow>
                  (g3, Inr (Continue \<lparr>pl_ticket = t, pl_rejection = (if rd_accepted d then None else Some d)\<rparr>))))"
    unfolding place_begin_def replay assms(2) option.case sum.case ord_def placed_order_def g1_def Let_def ..
  then show ?thesis using g2 assms(3) by (simp add: ord_def split: prod.splits)
qed

lemma sample_begin:
  obtains g p where "place_begin sample_config 10 11 sample_request None risk_accept None sample_gateway =
    (g, Inr (Continue p))" "pl_rejection p = None" 
proof -
  have "position_contribution (placed_order 10 11 sample_request risk_accept) = Inr (Decimal 1000000000)"
    by (simp add: position_contribution_def) (simp add: sample_request_def)
  moreover have "order_at sample_gateway (rq_client_order_id sample_request) = None"
    by (simp add: sample_order_at sample_request_def)
  moreover have "\<exists>h'. adjust_position_locked (rq_symbol sample_request) 0 (Decimal 1000000000) h = Inr h'"
    if "gw_positions h = gw_positions sample_gateway" for h
    using that sample_position
    by (intro adjust_position_fits [of _ BtcUsdt]) (simp_all add: sample_request_def in_int64_def int64_min_def int64_max_def)
  ultimately obtain g p where run: "place_begin sample_config 10 11 sample_request None risk_accept None sample_gateway =
    (g, Inr (Continue p))"
    using place_begin_goes_on [OF _ sample_decision] by blast
  from run construct_spec(1) [OF sample_constructed] have "pl_rejection p = None"
    by (cases rule: place_begin_cases) (use sample_decision in simp_all)
  with run that show thesis by blast
qed

lemma sample_admitted:
  obtains g p where "reachable_from sample_config (sample_gateway, {#}, True) (g, {#PlaceJournal sample_request p#}, True)"
    and "pl_rejection p = None"
proof -
  obtain g p where b: "place_begin sample_config 10 11 sample_request None risk_accept None sample_gateway =
    (g, Inr (Continue p))" and r: "pl_rejection p = None"
    by (rule sample_begin)
  let ?start = "PlaceStart sample_request None risk_accept None"
  have w: "advance sample_config sample_input ?start sample_gateway = (g, [PlaceJournal sample_request p], True)"
    using b by (simp add: sample_input_def continue_def continuation_def)
  have "gw_step sample_config (sample_gateway, {#}, True) (sample_gateway, {#?start#}, True)"
    using gw_step.arrive [of ?start sample_config sample_gateway "{#}" True] by simp
  moreover have "gw_step sample_config (sample_gateway, {#?start#}, True) (g, {#PlaceJournal sample_request p#}, True)"
    using gw_step.work [OF w, of "{#}" True] by simp
  ultimately show thesis
    using that [OF _ r] by (meson converse_rtranclp_into_rtranclp rtranclp.rtrancl_refl)
qed

lemma sample_sent:
  obtains g rq ord where "reachable_from sample_config (sample_gateway, {#}, True) (g, {#PlaceVenue rq ord#}, True)"
    and "rq_client_order_id rq = ''c1''" and "io_trace g \<noteq> []"
proof -
  obtain g1 p where reach: "reachable_from sample_config (sample_gateway, {#}, True) (g1, {#PlaceJournal sample_request p#}, True)"
    and r: "pl_rejection p = None" by (rule sample_admitted)
  let ?ord = "the (order_at g1 ''c1'')"
  obtain g2 where route: "place_route None sample_request p g1 = (g2, Inr (Continue ?ord))"
    using r by (simp add: place_route_def commit_persist_def Let_def sample_request_def)
  then have w: "advance sample_config sample_input (PlaceJournal sample_request p) g1 = (g2, [PlaceVenue sample_request ?ord], True)"
    by (simp add: sample_input_def proceed_def continuation_def)
  have "gw_step sample_config (g1, {#PlaceJournal sample_request p#}, True) (g2, {#PlaceVenue sample_request ?ord#}, True)"
    using gw_step.work [OF w, of "{#}" True] by simp
  with reach have "reachable_from sample_config (sample_gateway, {#}, True) (g2, {#PlaceVenue sample_request ?ord#}, True)"
    by (rule rtranclp.rtrancl_into_rtrancl)
  moreover have "io_trace g2 \<noteq> []" using route by (rule place_route_cases) simp_all
  ultimately show thesis using that [of g2 sample_request ?ord] by (simp add: sample_request_def)
qed

section \<open>Properties\<close>

text \<open>C1. The positions the gateway keeps incrementally are exact: in every run of concurrent commands,
  reports and reconciliation in which no critical section throws and reconciliation marks no terminal
  order unknown, the position of every registered symbol is the sum of the exposures of all its orders.\<close>

theorem positions_exact_in_runs:
  assumes "construct next_sequence recovered = Inr g0"
    and "reachable_from cf (g0, {#}, True) (g, T, True)"
    and "symbol_id_rt s \<noteq> UnknownSymbol"
  shows "raw (gw_positions g ! to_slot (symbol_id_rt s)) = book_exposure g s"
  using reachable_run_inv [OF assms(1,2)] assms(3) by (simp add: run_inv_def positions_exact_def)

theorem positions_exact_in_runs_witness:
  "\<exists>g T. T \<noteq> {#} \<and> reachable_from sample_config (sample_gateway, {#}, True) (g, T, True) \<and>
     raw (gw_positions g ! to_slot (symbol_id_rt ''BTC-USDT'')) = book_exposure g ''BTC-USDT''"
proof (rule sample_sent)
  fix g rq ord
  assume reach: "reachable_from sample_config (sample_gateway, {#}, True) (g, {#PlaceVenue rq ord#}, True)"
  from positions_exact_in_runs [OF sample_constructed reach, of "''BTC-USDT''"] reach show ?thesis
    by (intro exI [of _ g] exI [of _ "{#PlaceVenue rq ord#}"]) simp
qed

text \<open>C2. The position limit at admission: when in such a run a new order of a registered symbol is
  admitted, the net exposure of the symbol's orders, the new one included, is within the position
  limit configured for the symbol.\<close>

theorem admission_within_limit:
  assumes "construct next_sequence recovered = Inr g0"
    and "reachable_from cf (g0, {#}, True) (g, T, True)"
    and "place_begin cf clock now request mp ic bc g = (g', Inr (Continue p))" and "pl_rejection p = None"
    and "symbol_id_rt (rq_symbol request) \<noteq> UnknownSymbol"
  shows "\<exists>limits. cf_limits cf (rq_symbol request) = Some limits \<and>
    \<bar>book_exposure g' (rq_symbol request)\<bar> \<le> raw (position_limit limits)"
proof -
  let ?s = "rq_symbol request"
  have wf: "gw_wf g" and exact: "positions_exact g"
    using reachable_run_inv [OF assms(1,2)] by (simp_all add: run_inv_def)
  from assms(3) wf obtain ord d where none: "order_at g (rq_client_order_id request) = None"
      and dec: "place_decision cf request mp ic bc g = Inr d" and acc: "rd_accepted d"
      and ord: "ord = placed_order clock now request d"
      and rep: "order_replaced (rq_client_order_id request) ord g g'"
    by (cases rule: place_begin_cases) (use assms(4) in \<open>auto split: if_splits\<close>)
  have "\<exists>d0. check_new_with_position (cf_limits cf) request (gw_positions g ! to_slot (symbol_id_rt ?s)) mp = Inr d0 \<and> rd_accepted d0"
    using dec acc assms(5)
    by (auto simp: place_decision_def rbind_eq_Inr_iff conservative_position_locked_def Let_def
        split: if_splits option.splits)
  then obtain limits where "cf_limits cf ?s = Some limits"
    and lim: "\<bar>raw (gw_positions g ! to_slot (symbol_id_rt ?s)) + signed_raw (rq_side request) (rq_quantity request)\<bar>
        \<le> raw (position_limit limits)"
    using decided_check_new [of "cf_limits cf" request] decidedD check_new_with_position_accept_iff admissible_limit
    by metis
  moreover have "exposure ord = signed_raw (rq_side request) (rq_quantity request)"
    using acc by (simp add: ord exposure_def conservative_exposure_def)
  then have "book_exposure g' ?s = raw (gw_positions g ! to_slot (symbol_id_rt ?s)) +
      signed_raw (rq_side request) (rq_quantity request)"
    using exact assms(5) none wf book_exposure_put_order [of g "rq_client_order_id request" ord ?s]
      book_exposure_cong [of g' "put_order (rq_client_order_id request) ord g"] rep
    by (simp add: positions_exact_def gw_wf_def order_replaced_def ord)
  ultimately show ?thesis by auto
qed

theorem admission_within_limit_witness:
  "\<exists>g' p limits. place_begin sample_config 10 11 sample_request None risk_accept None sample_gateway =
       (g', Inr (Continue p)) \<and> sample_limits ''BTC-USDT'' = Some limits \<and>
     \<bar>book_exposure g' ''BTC-USDT''\<bar> \<le> raw (position_limit limits)"
proof (rule sample_begin)
  fix g p
  assume begun: "place_begin sample_config 10 11 sample_request None risk_accept None sample_gateway = (g, Inr (Continue p))"
    and "pl_rejection p = None"
  from admission_within_limit [OF sample_constructed rtranclp.rtrancl_refl this]
  have "\<exists>limits. sample_limits ''BTC-USDT'' = Some limits \<and> \<bar>book_exposure g ''BTC-USDT''\<bar> \<le> raw (position_limit limits)"
    by (simp add: sample_request_def sample_config_def)
  with begun show ?thesis by blast
qed

text \<open>C5. Commands on one order exclude each other: in every run, whatever throws, at most one place,
  cancel or amend of a client order id is between its first critical section and the end of its venue
  call, and as long as one is, the id is in \<open>active_operations_\<close>.\<close>

theorem one_command_in_flight:
  assumes "construct next_sequence recovered = Inr g0"
    and "reachable_from cf (g0, {#}, True) (g, T, c)"
  shows "in_flight T cid \<le> 1 \<and> (0 < in_flight T cid \<longrightarrow> cid \<in> gw_active_operations g)"
  using reachable_run_inv [OF assms] unfolding run_inv_def prod.case by blast

theorem one_command_in_flight_witness:
  "\<exists>g T. reachable_from sample_config (sample_gateway, {#}, True) (g, T, True) \<and> in_flight T ''c1'' = 1 \<and>
     ''c1'' \<in> gw_active_operations g"
proof (rule sample_sent)
  fix g rq ord
  assume reach: "reachable_from sample_config (sample_gateway, {#}, True) (g, {#PlaceVenue rq ord#}, True)"
    and "rq_client_order_id rq = ''c1''"
  with one_command_in_flight [OF sample_constructed reach, of "''c1''"] show ?thesis
    by (intro exI [of _ g] exI [of _ "{#PlaceVenue rq ord#}"]) (simp add: in_flight_def)
qed

text \<open>C3. A client order id is placed at the venue at most once, over all retries and interleavings.\<close>

theorem at_most_one_placement:
  assumes "construct next_sequence recovered = Inr g0"
    and "reachable_from cf (g0, {#}, True) (g, T, c)"
  shows "length (filter (places cid) (io_trace g)) \<le> 1"
proof -
  have "placements g T cid \<le> 1"
    using reachable_run_inv [OF assms] unfolding run_inv_def prod.case by blast
  then show ?thesis by (simp add: placements_def)
qed

theorem at_most_one_placement_witness:
  "\<exists>g T. reachable_from sample_config (sample_gateway, {#}, True) (g, T, True) \<and> io_trace g \<noteq> [] \<and>
     length (filter (places ''c1'') (io_trace g)) \<le> 1"
proof (rule sample_sent)
  fix g rq ord
  assume reach: "reachable_from sample_config (sample_gateway, {#}, True) (g, {#PlaceVenue rq ord#}, True)"
    and "io_trace g \<noteq> []"
  with at_most_one_placement [OF sample_constructed reach, of "''c1''"] show ?thesis by blast
qed

text \<open>C4. Write-ahead: in every run, every order, cancel and amendment that goes to a venue has been
  preceded by a journal entry of the same order that carries this command as its pending action; a new
  order's entry is marked as an intent.\<close>

theorem journal_before_venue:
  assumes "construct next_sequence recovered = Inr g0"
    and "reachable_from cf (g0, {#}, True) (g, T, c)"
  shows "write_ahead (io_trace g)"
  using reachable_run_inv [OF assms] unfolding run_inv_def prod.case by blast

theorem journal_before_venue_witness:
  "\<exists>g T. reachable_from sample_config (sample_gateway, {#}, True) (g, T, True) \<and> io_trace g \<noteq> [] \<and>
     write_ahead (io_trace g)"
proof (rule sample_sent)
  fix g rq ord
  assume reach: "reachable_from sample_config (sample_gateway, {#}, True) (g, {#PlaceVenue rq ord#}, True)"
    and "io_trace g \<noteq> []"
  with journal_before_venue [OF sample_constructed reach] show ?thesis by blast
qed

text \<open>C38. Orders are never lost: an order present at some moment of a run is present at every later one
  under the same client order id, with the same venue, symbol, side, type and time in force.\<close>

theorem orders_never_lost:
  assumes "construct next_sequence recovered = Inr g0"
    and "reachable_from cf (g0, {#}, True) (g, T, c)" and "reachable_from cf (g, T, c) (g', T', c')"
    and "order_at g cid = Some old"
  shows "\<exists>ord. order_at g' cid = Some ord \<and> order_identity ord = order_identity old"
  using runs.reachable_grows [OF assms(3) reachable_run_inv [OF assms(1,2)]] assms(4)
  by (simp add: book_extends_def)

theorem orders_never_lost_witness:
  "\<exists>g T ord. T \<noteq> {#} \<and> reachable_from sample_config (sample_gateway, {#}, True) (g, T, True) \<and>
     order_at g ''c0'' = Some ord \<and> client_order_id ord = ''c0'' \<and> symbol ord = ''BTC-USDT''"
proof (rule sample_sent)
  fix g rq ord
  assume reach: "reachable_from sample_config (sample_gateway, {#}, True) (g, {#PlaceVenue rq ord#}, True)"
  have "order_at sample_gateway ''c0'' = Some (sample_order\<lparr>client_order_id := ''c0''\<rparr>)"
    by (simp add: sample_order_at)
  from orders_never_lost [OF sample_constructed rtranclp.rtrancl_refl reach this] obtain x where
    "order_at g ''c0'' = Some x" "order_identity x = order_identity (sample_order\<lparr>client_order_id := ''c0''\<rparr>)" by blast
  with reach show ?thesis
    by (intro exI [of _ g] exI [of _ "{#PlaceVenue rq ord#}"] exI [of _ x]) (simp add: order_identity_def sample_defs make_order_def)
qed

text \<open>A report can always be attributed or discarded: in every run, looking up the order of a report
  does not throw, whatever ids the report carries, and an order it finds exists and belongs to the
  venue the report came from.\<close>

theorem reports_located:
  assumes "construct next_sequence recovered = Inr g0"
    and "reachable_from cf (g0, {#}, True) (g, T, c)"
  shows "\<exists>found. locate_order_locked v rep g = Inr found \<and>
    (\<forall>key. found = Some key \<longrightarrow> (\<exists>ord. order_at g key = Some ord \<and> venue ord = v))"
proof -
  have "gw_wf g" using reachable_run_inv [OF assms] by (simp add: run_inv_def)
  then show ?thesis by (rule locate_order_total [where v = v and rep = rep]) auto
qed

theorem reports_located_witness:
  "locate_order_locked Okx (sample_report\<lparr>rp_client_order_id := ''c0''\<rparr>) sample_gateway = Inr (Some ''c0'') \<and>
   (\<exists>ord. order_at sample_gateway ''c0'' = Some ord \<and> venue ord = Okx)"
proof -
  have *: "locate_order_locked Okx (sample_report\<lparr>rp_client_order_id := ''c0''\<rparr>) sample_gateway = Inr (Some ''c0'')"
    by (simp add: locate_order_locked_def locate_direct_def sample_order_at sample_defs make_order_def)
  from reports_located [OF sample_constructed rtranclp.rtrancl_refl, where v = Okx
      and rep = "sample_report\<lparr>rp_client_order_id := ''c0''\<rparr>"] * show ?thesis by simp
qed

end
