(* ===== verification/Abex_Gateway_Retry.thy ===== *)
theory Abex_Gateway_Retry
  imports Abex_Gateway_Props
begin

text \<open>
  Idempotent retries: a repeated command answers from the stored outcome and leaves the book, the
  journal and the venue alone.
\<close>

section \<open>Cancel\<close>

definition venue_outcome :: "adapter_result \<Rightarrow> string" where
  "venue_outcome a =
     (if ar_accepted a then ''OK''
      else if ar_outcome_uncertain a then pending_outcome (ar_code a) (ar_message a)
      else failed_outcome (ar_code a) (ar_message a))"

definition venue_response :: "adapter_result \<Rightarrow> order \<Rightarrow> operation_result" where
  "venue_response a ord =
     (if ar_accepted a then op_success ord False else op_failure (ar_code a) (ar_message a) (Some ord))"

lemma cancel_finish_outcome:
  assumes run: "cancel_finish rq a g = (g', Inr n)" and old: "order_at g (cx_client_order_id rq) = Some ord"
  shows "\<exists>ord1. order_at g' (cx_client_order_id rq) = Some ord1 \<and> processed_requests ord1 = processed_requests ord \<and>
    processed_request_outcomes ord1 (cancel_key rq) = Some (venue_outcome a) \<and> cn_response n = venue_response a ord1"
proof -
  let ?cid = "cx_client_order_id rq"
  let ?g0 = "g\<lparr>gw_active_operations := gw_active_operations g - {?cid}\<rparr>"
  obtain prev where p: "position_contribution ord = Inr prev"
    using run old by (cases "position_contribution ord") (simp_all add: cancel_finish_def)
  obtain ord1 g1 sev code msg response
    where out: "cancel_outcome (cancel_key rq) a ord ?g0 = (ord1, g1, sev, code, msg, response)"
    using prod_cases6 by blast
  have o1: "processed_requests ord1 = processed_requests ord"
    "processed_request_outcomes ord1 (cancel_key rq) = Some (venue_outcome a)" "response = venue_response a ord1"
    using out by (auto simp: cancel_outcome_def Let_def venue_outcome_def venue_response_def split: if_splits)
  let ?g2 = "put_order ?cid ord1 g1"
  let ?adj = "rbind (position_contribution ord1) (\<lambda>c. adjust_position_locked (symbol ord1) prev c ?g2)"
  obtain g3 where adj: "?adj = Inr g3"
    using run old p out by (cases ?adj) (simp_all add: cancel_finish_def Let_def)
  then obtain c where c: "adjust_position_locked (symbol ord1) prev c ?g2 = Inr g3"
    by (auto simp: rbind_eq_Inr_iff)
  obtain t g4 where pp: "prepare_persist ord1 False (publish_positions_if_dirty_locked g3) = (t, g4)" by fastforce
  have "g' = g4" and "cn_response n = response"
    using run old p out adj pp by (simp_all add: cancel_finish_def Let_def) auto
  then show ?thesis
    using o1 adjust_position_frame(7) [OF c] prepare_persist_frame(7) [OF pp] by simp
qed

lemma replay_venue_outcome:
  assumes "outcome_separator \<notin> set (ar_code a)"
  shows "op_ok (replay_operation ord (venue_outcome a)) = op_ok (venue_response a ord')"
    and "op_code (replay_operation ord (venue_outcome a)) = op_code (venue_response a ord')"
    and "op_message (replay_operation ord (venue_outcome a)) = op_message (venue_response a ord')"
    and "op_idempotent_replay (replay_operation ord (venue_outcome a))"
  using replay_outcomes [OF assms]
  by (simp_all add: venue_outcome_def venue_response_def op_success_def op_failure_def)

lemma cancel_replayed:
  assumes "order_at g (cx_client_order_id rq) = Some ord" and "processed_requests ord (cancel_key rq) = Some (cancel_fingerprint rq)"
  shows "\<exists>g'. cancel ci rq g = (g', Inr (replay_operation ord (stored_outcome ord (cancel_key rq)))) \<and>
    gw_orders g' = gw_orders g \<and> io_trace g' = io_trace g"
  using assms by (simp add: cancel_def cancel_begin_def Let_def)

lemma adjust_position_unchanged:
  assumes "symbol_id_rt smb \<noteq> UnknownSymbol \<longrightarrow> wf_decimal (gw_positions g ! to_slot (symbol_id_rt smb))"
  shows "\<exists>g'. adjust_position_locked smb c c g = Inr g'"
  using assms adjust_position_fits [OF refl, of smb c c g]
  by (cases "symbol_id_rt smb = UnknownSymbol") (auto simp: adjust_position_locked_def wf_decimal_def in_int64_def int64_min_def int64_max_def)

lemma cancel_outcome_contribution:
  assumes "cancel_outcome key a ord g = (ord1, g1, rest)" and "\<not> is_terminal (status ord)"
  shows "position_contribution ord1 = position_contribution ord" "symbol ord1 = symbol ord"
  using assms by (auto simp: cancel_outcome_def Let_def position_contribution_def split: if_splits)

lemma cancel_finish_answers:
  assumes "order_at g (cx_client_order_id rq) = Some ord" "\<not> is_terminal (status ord)"
    and "position_contribution ord = Inr c"
    and "symbol_id_rt (symbol ord) \<noteq> UnknownSymbol \<longrightarrow> wf_decimal (gw_positions g ! to_slot (symbol_id_rt (symbol ord)))"
  shows "\<exists>g' n. cancel_finish rq a g = (g', Inr n)"
proof -
  let ?cid = "cx_client_order_id rq"
  obtain ord1 g1 sev code msg response
    where out: "cancel_outcome (cancel_key rq) a ord (g\<lparr>gw_active_operations := gw_active_operations g - {?cid}\<rparr>) =
      (ord1, g1, sev, code, msg, response)"
    using prod_cases6 by blast
  note same = cancel_outcome_contribution [OF out assms(2)]
  have "gw_positions (put_order ?cid ord1 g1) = gw_positions g"
    using cancel_outcome_frame(2) [OF out] by (simp add: core_same_def)
  then obtain g3 where "adjust_position_locked (symbol ord1) c c (put_order ?cid ord1 g1) = Inr g3"
    using adjust_position_unchanged [of "symbol ord1" "put_order ?cid ord1 g1" c] assms(4) same(2) by auto
  then show ?thesis using assms(1,3) out same(1) by (simp add: cancel_finish_def Let_def split: prod.splits)
qed

lemma cancel_executes:
  assumes "gw_wf g" and "order_at g (cx_client_order_id rq) = Some ord"
    and "processed_requests ord (cancel_key rq) = None"
    and "\<not> is_terminal (status ord)" and "pending_action ord = NoAction"
    and "cx_client_order_id rq \<notin> gw_active_operations g"
    and "position_contribution ord = Inr c"
    and "symbol_id_rt (symbol ord) \<noteq> UnknownSymbol \<longrightarrow> wf_decimal (gw_positions g ! to_slot (symbol_id_rt (symbol ord)))"
    and "ci_store_begin ci = None" "ci_store_finish ci = None"
  shows "\<exists>g1 answer o1 o2 s1 s2. cancel ci rq g = (g1, Inr answer) \<and>
    io_trace g1 = io_trace g @ [Journaled o1 False s1, VenueCancel o1, Journaled o2 False s2] \<and>
    client_order_id o1 = cx_client_order_id rq \<and> pending_action o1 = CancelAction \<and>
    op_ok answer = ar_accepted (adapter_outcome (ci_adapter ci o1))"
proof -
  let ?cid = "cx_client_order_id rq"
  obtain ga out where b: "cancel_begin (ci_clock ci) rq g = (ga, out)" by fastforce
  have cid: "client_order_id ord = ?cid" using order_at_Some_mem(2) [OF assms(1,2)] .
  have "status ord \<noteq> Canceled" using assms(4) by auto
  define o1 where "o1 = ord\<lparr>processed_requests := (processed_requests ord)(cancel_key rq \<mapsto> cancel_fingerprint rq),
      processed_request_outcomes := (processed_request_outcomes ord)(cancel_key rq \<mapsto> ''PENDING''),
      pending_action := CancelAction, updated_at_ms := ci_clock ci, version := version ord + 1\<rparr>"
  obtain t g1 where pp: "prepare_persist o1 False (publish_positions_if_dirty_locked (put_order ?cid o1
      (g\<lparr>gw_active_operations := insert (client_order_id ord) (gw_active_operations g)\<rparr>))) = (t, g1)"
    by fastforce
  note fr = prepare_persist_frame [OF pp]
  have ga: "ga = g1" and out: "out = Continue t"
    using b assms(2-6) cid \<open>status ord \<noteq> Canceled\<close> pp by (simp_all add: cancel_begin_def Let_def o1_def)
  have t: "order_at ga ?cid = Some o1" "pt_order t = o1" "\<not> pt_intent_only t"
      "gw_positions ga = gw_positions g" "io_trace ga = io_trace g"
    using fr by (simp_all add: ga io_trace_def)
  obtain gb where r: "cancel_route (ci_store_begin ci) rq t ga = (gb, Inr o1)"
    using assms(9) t(1) by (simp add: cancel_route_def commit_persist_def Let_def)
  then have gb: "core_same ga gb" "io_trace gb = io_trace ga @ [Journaled o1 False (pt_sequence t), VenueCancel o1]"
    by (cases rule: cancel_route_cases; use t in simp)+
  let ?a = "adapter_outcome (ci_adapter ci o1)"
  have at: "order_at gb ?cid = Some o1" using core_same_inv(3) [OF gb(1)] t(1) by simp
  have pos: "gw_positions gb = gw_positions g" using gb(1) t(4) by (simp add: core_same_def)
  have pc: "position_contribution o1 = Inr c" using assms(4,7) by (simp add: o1_def position_contribution_def Let_def)
  have "\<not> is_terminal (status o1)" "symbol o1 = symbol ord" using assms(4) by (simp_all add: o1_def)
  then obtain gc n where f: "cancel_finish rq ?a gb = (gc, Inr n)"
    using cancel_finish_answers [OF at _ pc, of ?a] assms(8) pos by auto
  have wfb: "gw_wf gb"
    using core_same_inv(1) [OF gb(1)] cancel_begin_shape [OF b assms(1)] order_replaced_wf [OF _ assms(1)] out
    by (auto simp: begin_shape_def)
  have tick: "io_trace gc = io_trace gb" "\<not> pt_intent_only (cn_ticket n)"
    using cancel_finish_shape [OF f wfb] by (auto simp: finish_shape_def)
  obtain o2 where resp: "cn_response n = venue_response ?a o2"
    using cancel_finish_outcome [OF f at] by blast
  obtain gd where d: "finish_command None ?cid (cancel_request_id rq) n gc = (gd, Inr ())"
    by (simp add: finish_command_def commit_persist_def Let_def)
  note fin = finish_command_frame(3) [OF d]
  have "cancel ci rq g = (gd, Inr (cn_response n))"
    using b out r f d assms(10) by (simp add: cancel_def)
  moreover have "io_trace gd = io_trace g @ [Journaled o1 False (pt_sequence t), VenueCancel o1,
      Journaled (pt_order (cn_ticket n)) False (pt_sequence (cn_ticket n))]"
    using fin tick gb(2) t(5) by simp
  moreover have "client_order_id o1 = ?cid" "pending_action o1 = CancelAction" using cid by (simp_all add: o1_def)
  moreover have "op_ok (cn_response n) = ar_accepted ?a" using resp by (simp add: venue_response_def op_success_def op_failure_def)
  ultimately show ?thesis by blast
qed

text \<open>C39. A cancel that is carried out always gets an answer, whatever the venue does (an exception of the adapter included): run on its
  own, for an order of a well-formed book that is not terminal and has no command pending or in flight, with a request id that this order has
  not processed before, with order records that can be written and exposure and position in 64 bits, it sends exactly one cancel to
  the venue, between the order record of the intent and that of the outcome, and its answer is a success exactly when the venue
  accepted. (A request id that was processed before is answered from the stored outcome, see \<open>cancel_retry_same_answer\<close>.)\<close>

theorem cancel_answers:
  assumes "gw_wf g" and "order_at g (cx_client_order_id rq) = Some ord"
    and "processed_requests ord (cancel_key rq) = None"
    and "\<not> is_terminal (status ord)" and "pending_action ord = NoAction"
    and "cx_client_order_id rq \<notin> gw_active_operations g"
    and "position_contribution ord = Inr c"
    and "symbol_id_rt (symbol ord) \<noteq> UnknownSymbol \<longrightarrow> wf_decimal (gw_positions g ! to_slot (symbol_id_rt (symbol ord)))"
    and "ci_store_begin ci = None" "ci_store_finish ci = None"
  shows "\<exists>g1 answer o1 o2 s1 s2. cancel ci rq g = (g1, Inr answer) \<and>
    io_trace g1 = io_trace g @ [Journaled o1 False s1, VenueCancel o1, Journaled o2 False s2] \<and>
    client_order_id o1 = cx_client_order_id rq \<and> pending_action o1 = CancelAction \<and>
    op_ok answer = ar_accepted (adapter_outcome (ci_adapter ci o1))"
  by (rule cancel_executes [OF assms])

text \<open>Cancelling is idempotent: once a cancel has been carried out and answered, repeating the same
  request answers with the same code, message and success from the stored outcome, marked as a replay,
  without venue call, order record or change to any order.\<close>

theorem cancel_retry_same_answer:
  assumes "gw_wf g" and "cancel ci rq g = (g1, Inr answer)"
    and "order_at g (cx_client_order_id rq) = Some ord" and "processed_requests ord (cancel_key rq) = None"
    and "\<not> is_terminal (status ord)" and "pending_action ord = NoAction"
    and "cx_client_order_id rq \<notin> gw_active_operations g"
    and "\<And>x. outcome_separator \<notin> set (ar_code (adapter_outcome (ci_adapter ci x)))"
  shows "\<exists>g2 again. cancel ci' rq g1 = (g2, Inr again) \<and> op_ok again = op_ok answer \<and>
    op_code again = op_code answer \<and> op_message again = op_message answer \<and> op_idempotent_replay again \<and>
    gw_orders g2 = gw_orders g1 \<and> io_trace g2 = io_trace g1"
proof -
  let ?cid = "cx_client_order_id rq"
  obtain ga out where b: "cancel_begin (ci_clock ci) rq g = (ga, out)" by fastforce
  have cid: "client_order_id ord = ?cid" using order_at_Some_mem(2) [OF assms(1,3)] .
  have "status ord \<noteq> Canceled" using assms(5) by auto
  then obtain t where t: "out = Continue t"
    using b assms(3-7) cid by (auto simp: cancel_begin_def Let_def split: prod.splits)
  from cancel_begin_shape [OF b assms(1)] t obtain o1 where
    o1: "order_replaced ?cid o1 g ga" "processed_requests o1 (cancel_key rq) = Some (cancel_fingerprint rq)"
    by (auto simp: begin_shape_def)
  then have ga: "order_at ga ?cid = Some o1" using order_replaced_order_at by simp
  obtain gb res where r: "cancel_route (ci_store_begin ci) rq t ga = (gb, res)" by fastforce
  obtain x where x: "res = Inr x" using assms(2) b t r by (cases res) (simp_all add: cancel_def)
  have gb: "order_at gb ?cid = Some o1"
    using r ga by (cases rule: cancel_route_cases) (use x core_same_inv(3) in auto)
  let ?a = "adapter_outcome (ci_adapter ci x)"
  obtain gc resc where f: "cancel_finish rq ?a gb = (gc, resc)" by fastforce
  obtain n where n: "resc = Inr n" using assms(2) b t r x f by (cases resc) (simp_all add: cancel_def)
  obtain o2 where o2: "order_at gc ?cid = Some o2" "processed_requests o2 = processed_requests o1"
      "processed_request_outcomes o2 (cancel_key rq) = Some (venue_outcome ?a)" "cn_response n = venue_response ?a o2"
    using cancel_finish_outcome [OF f [unfolded n] gb] by blast
  obtain gd resd where c: "finish_command (ci_store_finish ci) ?cid (cancel_request_id rq) n gc = (gd, resd)" by fastforce
  have "gd = g1" and ans: "answer = venue_response ?a o2"
    using assms(2) b t r x f n c o2(4) by (cases resd; simp add: cancel_def)+
  then have "order_at g1 ?cid = Some o2" using core_same_inv(3) [OF finish_command_frame(1) [OF c]] o2(1) by simp
  then obtain g2 where "cancel ci' rq g1 = (g2, Inr (replay_operation o2 (venue_outcome ?a)))"
      "gw_orders g2 = gw_orders g1" "io_trace g2 = io_trace g1"
    using cancel_replayed [of g1 rq o2 ci'] o1(2) o2(2,3) by (auto simp: stored_outcome_def)
  then show ?thesis
    using replay_venue_outcome [OF assms(8) [of x]] ans by blast
qed


section \<open>A sample cancel\<close>

definition sample_cancel :: cancel_request where
  "sample_cancel = \<lparr>cx_client_order_id = ''c0'', cx_request_id = ''r1''\<rparr>"

definition sample_command :: "adapter_result result \<Rightarrow> command_input" where
  "sample_command a = \<lparr>ci_clock = 20, ci_mprice = None, ci_rules = Inl (Logic_error []), ci_balances = (\<lambda>_. Inl (Logic_error [])),
     ci_store_begin = None, ci_store_finish = None, ci_store_reports = None, ci_adapter = (\<lambda>_. a)\<rparr>"

lemma sample_cancel_ready:
  "order_at sample_gateway (cx_client_order_id sample_cancel) = Some (sample_order\<lparr>client_order_id := ''c0''\<rparr>)"
  "processed_requests (sample_order\<lparr>client_order_id := ''c0''\<rparr>) (cancel_key sample_cancel) = None"
  "\<not> is_terminal (status (sample_order\<lparr>client_order_id := ''c0''\<rparr>))"
  "pending_action (sample_order\<lparr>client_order_id := ''c0''\<rparr>) = NoAction"
  "cx_client_order_id sample_cancel \<notin> gw_active_operations sample_gateway"
  "position_contribution (sample_order\<lparr>client_order_id := ''c0''\<rparr>) = Inr (Decimal 1000000000)"
  "symbol_id_rt (symbol (sample_order\<lparr>client_order_id := ''c0''\<rparr>)) \<noteq> UnknownSymbol \<longrightarrow>
     wf_decimal (gw_positions sample_gateway ! to_slot (symbol_id_rt (symbol (sample_order\<lparr>client_order_id := ''c0''\<rparr>))))"
  using sample_position construct_spec(3) [OF sample_constructed]
  by (simp_all add: sample_cancel_def sample_order_at sample_defs make_order_def Let_def position_contribution_def
      wf_decimal_def in_int64_def int64_min_def int64_max_def)

theorem cancel_answers_witness:
  "\<exists>g1 answer o1 o2 s1 s2. cancel (sample_command (Inl (Runtime_error ''timeout''))) sample_cancel sample_gateway = (g1, Inr answer) \<and>
    io_trace g1 = io_trace sample_gateway @ [Journaled o1 False s1, VenueCancel o1, Journaled o2 False s2] \<and>
    \<not> op_ok answer"
proof -
  have "ci_store_begin (sample_command (Inl (Runtime_error ''timeout''))) = None"
    "ci_store_finish (sample_command (Inl (Runtime_error ''timeout''))) = None" by (simp_all add: sample_command_def)
  from cancel_answers [OF construct_spec(1) [OF sample_constructed] sample_cancel_ready this]
  show ?thesis
    by (elim exE conjE) (simp add: sample_command_def adapter_outcome_def adapter_exception_def)
qed

theorem cancel_retry_same_answer_witness:
  "\<exists>g1 answer g2 again. cancel (sample_command (Inl (Runtime_error ''timeout''))) sample_cancel sample_gateway = (g1, Inr answer) \<and>
     cancel (sample_command (Inr sample_answer)) sample_cancel g1 = (g2, Inr again) \<and>
     op_code again = op_code answer \<and> op_idempotent_replay again \<and> io_trace g2 = io_trace g1"
proof -
  let ?ci = "sample_command (Inl (Runtime_error ''timeout''))"
  have st: "ci_store_begin ?ci = None" "ci_store_finish ?ci = None" by (simp_all add: sample_command_def)
  obtain g1 answer where run: "cancel ?ci sample_cancel sample_gateway = (g1, Inr answer)"
    using cancel_executes [OF construct_spec(1) [OF sample_constructed] sample_cancel_ready st] by blast
  have sep: "outcome_separator \<notin> set (ar_code (adapter_outcome (ci_adapter ?ci x)))" for x
    by (simp add: sample_command_def adapter_outcome_def adapter_exception_def outcome_separator_def)
  from cancel_retry_same_answer [OF construct_spec(1) [OF sample_constructed] run sample_cancel_ready(1-5) sep,
      of "sample_command (Inr sample_answer)"] run show ?thesis by blast
qed


section \<open>Place\<close>

text \<open>Placing is idempotent on the client order id: a place for an id that exists never reaches the
  venue, writes no order record and changes no order. With the same payload it answers with the stored order as
  a replay, a success unless the order was rejected or its outcome is unknown; with another payload it
  is refused as a conflict.\<close>

theorem place_existing_id:
  assumes "order_at g (rq_client_order_id request) = Some ord"
  shows "\<exists>g' answer. place cf ci request g = (g', Inr answer) \<and> gw_orders g' = gw_orders g \<and>
    io_trace g' = io_trace g \<and> op_order answer = Some ord \<and>
    (if create_fingerprint ord = fingerprint request \<or> fingerprint_matches (cf_dump cf) (create_fingerprint ord) request
     then op_idempotent_replay answer \<and>
       (op_ok answer \<longleftrightarrow> status ord \<noteq> Rejected \<and> \<not> (status ord = Unknown \<and> pending_action ord = ReconcileAction))
     else op_code answer = ''IDEMPOTENCY_CONFLICT'' \<and> \<not> op_ok answer)"
proof -
  obtain g' answer where r: "replay_if_present cf request g = Some (g', answer)"
    using replay_if_present_None_iff [of cf request g] assms by (cases "replay_if_present cf request g") auto
  have "place cf ci request g = (g', Inr answer)" by (simp add: place_def r)
  moreover have "gw_orders g' = gw_orders g" "io_trace g' = io_trace g" "op_order answer = Some ord"
    using replay_if_present_frame [OF r] assms by (auto simp: core_same_def)
  moreover have "if create_fingerprint ord = fingerprint request \<or> fingerprint_matches (cf_dump cf) (create_fingerprint ord) request
     then op_idempotent_replay answer \<and>
       (op_ok answer \<longleftrightarrow> status ord \<noteq> Rejected \<and> \<not> (status ord = Unknown \<and> pending_action ord = ReconcileAction))
     else op_code answer = ''IDEMPOTENCY_CONFLICT'' \<and> \<not> op_ok answer"
    using r assms by (auto simp: replay_if_present_def Let_def op_success_def op_failure_def split: if_splits)
  ultimately show ?thesis by blast
qed

theorem place_existing_id_witness:
  "\<exists>g' answer. place sample_config (sample_command (Inr sample_answer)) (sample_request\<lparr>rq_client_order_id := ''c0''\<rparr>) sample_gateway =
     (g', Inr answer) \<and> io_trace g' = io_trace sample_gateway \<and> gw_orders g' = gw_orders sample_gateway"
proof -
  have "order_at sample_gateway (rq_client_order_id (sample_request\<lparr>rq_client_order_id := ''c0''\<rparr>)) =
      Some (sample_order\<lparr>client_order_id := ''c0''\<rparr>)" by (simp add: sample_order_at)
  from place_existing_id [OF this] show ?thesis by blast
qed

section \<open>What goes wrong\<close>

text \<open>An answer of a venue whose outcome is uncertain sets the order to \<open>UNKNOWN\<close> whatever its status
  was: an order that a report has already taken to a terminal state while the command was in flight is
  open again, and its whole quantity counts as exposure again.\<close>

theorem uncertain_answer_reopens:
  "let a = sample_answer\<lparr>ar_accepted := False, ar_outcome_uncertain := True\<rparr>
   in is_terminal (status (ord\<lparr>status := Filled\<rparr>)) \<and>
      status (fst (place_outcome clock now a (ord\<lparr>status := Filled\<rparr>) g)) = Unknown \<and>
      status (fst (cancel_outcome key a (ord\<lparr>status := Filled\<rparr>) g)) = Unknown \<and>
      status (fst (amend_refused request a (ord\<lparr>status := Filled\<rparr>) g)) = Unknown"
  by (simp add: Let_def place_outcome_def cancel_outcome_def amend_refused_def place_uncertain_def)

text \<open>An order whose entry in \<open>active_operations_\<close> has no owner any more.\<close>

definition abandoned :: "string \<Rightarrow> run \<Rightarrow> bool" where
  "abandoned cid s \<longleftrightarrow> (case s of (g, T, c) \<Rightarrow>
     run_inv s \<and> order_at g cid \<noteq> None \<and> cid \<in> gw_active_operations g \<and> in_flight T cid = 0)"

lemma abandoned_work:
  assumes "abandoned cid (g, add_mset t T, c)" and adv: "advance cf si t g = (g', ts, ok)"
  shows "abandoned cid (g', T + mset ts, c \<and> ok)"
proof -
  have inv: "run_inv (g, add_mset t T, c)" and here: "order_at g cid \<noteq> None" "cid \<in> gw_active_operations g"
    and fl: "in_flight {#t#} cid = 0" "in_flight T cid = 0"
    using assms(1) by (simp_all add: abandoned_def in_flight_simps(2) [of t T])
  note after = run_inv_work [OF inv adv]
  have cs: "claims_step t g g' ts"
    using advance_sound [of g t cf si] adv inv unfolding run_inv_def prod.case sound_step_def
    by (auto simp: in_flight_simps(2) [of t T] in_flight_pos)
  then have "in_flight (mset ts) cid \<le> in_flight {#t#} cid \<or>
      in_flight (mset ts) cid = 1 \<and> (order_at g cid = None \<or> cid \<notin> gw_active_operations g)"
    unfolding claims_step_def by blast
  then have "in_flight (mset ts) cid = 0" using here fl(1) by auto
  moreover have "holder t \<noteq> Some cid \<longrightarrow> cid \<in> gw_active_operations g'"
    using cs here(2) unfolding claims_step_def by blast
  moreover have "holder t \<noteq> Some cid" using fl(1) by (auto simp: in_flight_def)
  ultimately show ?thesis
    using after here book_extends_dom [OF after(2)] fl by (simp add: abandoned_def in_flight_simps(3))
qed

lemma abandoned_step:
  assumes "abandoned cid s" and "gw_step cf s s'"
  shows "abandoned cid s'"
  using assms(2)
proof (cases rule: gw_step.cases)
  case (arrive t g T c)
  have "holder t = None" using arrive(3) by (cases t) simp_all
  with arrive assms(1) show ?thesis
    by (simp add: abandoned_def run_inv_arrive in_flight_simps(2) [of t T]) (simp add: in_flight_def)
next
  case (work si t g g' ts ok T c)
  with assms(1) abandoned_work [of cid g t T c cf si g' ts ok] show ?thesis by simp
next
  case (connection g T c v up why)
  with assms(1) run_inv_quiet(1) [OF connection_frame] core_same_inv(3) [OF connection_frame(1)] show ?thesis
    by (simp add: abandoned_def connection_frame)
next
  case (dropped g T c v violation)
  with assms(1) run_inv_quiet(1) [OF dropped_frame] core_same_inv(3) [OF dropped_frame(1)] show ?thesis
    by (simp add: abandoned_def dropped_frame)
next
  case (turn g T c due)
  with assms(1) run_inv_quiet(1) [OF turn_frame] core_same_inv(3) [OF turn_frame(1)] show ?thesis
    by (simp add: abandoned_def turn_frame)
qed

interpretation abandonment: invariant_system "gw_step cf" "abandoned cid" for cf cid
  by unfold_locales (rule abandoned_step)

text \<open>A failed journal write blocks the order for good: when writing the intent of a command fails, the
  command ends with the exception but its client order id stays in \<open>active_operations_\<close>. In every later
  state of the run it is still there, and no further command on the order gets past its first critical
  section.\<close>

theorem failed_write_blocks_order:
  assumes "construct next_sequence recovered = Inr g0"
    and "reachable_from cf (g0, {#}, True) (g, add_mset t T, c)"
    and "(\<exists>rq p. t = PlaceJournal rq p) \<or> (\<exists>rq k. t = CancelJournal rq k) \<or> (\<exists>rq k. t = AmendJournal rq k)"
    and "holder t = Some cid" and "si_store si = Some e" and "advance cf si t g = (g', ts, ok)"
    and "reachable_from cf (g', T + mset ts, c \<and> ok) (g2, T2, c2)"
  shows "cid \<in> gw_active_operations g2 \<and> in_flight T2 cid = 0"
proof -
  have inv: "run_inv (g, add_mset t T, c)" using reachable_run_inv [OF assms(1,2)] .
  have failed: "g' = g" "ts = []"
    using assms(3,5,6) by (auto simp: place_route_def cancel_route_def amend_route_def commit_persist_def proceed_def)
  have "in_flight {#t#} cid = 1" using assms(4) by (simp add: in_flight_def)
  moreover have "in_flight (add_mset t T) cid \<le> 1 \<and> (0 < in_flight (add_mset t T) cid \<longrightarrow> cid \<in> gw_active_operations g)"
    using inv unfolding run_inv_def prod.case by blast
  moreover have "order_at g cid \<noteq> None" using inv assms(4) task_ok_holder by (auto simp: run_inv_def)
  ultimately have "abandoned cid (g', T + mset ts, c \<and> ok)"
    using run_inv_work(1) [OF inv assms(6)] failed by (simp add: abandoned_def in_flight_simps(2) [of t T])
  from abandonment.reachable_inv [OF assms(7) this] show ?thesis by (simp add: abandoned_def)
qed

theorem failed_write_blocks_order_witness:
  "\<exists>g. ''c1'' \<in> gw_active_operations g \<and> in_flight {#} ''c1'' = 0 \<and> gw_step sample_config (g, {#}, True) (g, {#CancelStart sample_cancel#}, True)"
proof (rule sample_admitted)
  fix g p
  let ?t = "PlaceJournal sample_request p" and ?si = "sample_input\<lparr>si_store := Some (Runtime_error ''disk full'')\<rparr>"
  assume reach: "reachable_from sample_config (sample_gateway, {#}, True) (g, {#?t#}, True)" and r: "pl_rejection p = None"
  have "advance sample_config ?si ?t g = (g, [], True)"
    by (simp add: place_route_def commit_persist_def proceed_def)
  moreover have "holder ?t = Some ''c1''" using r by (simp add: sample_request_def)
  ultimately show ?thesis
    using failed_write_blocks_order [OF sample_constructed reach, of "''c1''" ?si "Runtime_error ''disk full''" g "[]" True g "{#}" True]
      gw_step.arrive [of "CancelStart sample_cancel" sample_config g "{#}" True] by auto
qed

text \<open>Reconciliation can break a position: marking an order unknown does not look at its status and
  does not adjust the position. For an order that became terminal after the candidates were chosen, the
  stored position no longer equals the exposure of the orders.\<close>

theorem mark_unknown_breaks_position:
  "\<exists>g g' t. gw_wf g \<and> positions_exact g \<and> mark_unknown ''c0'' g = (g', Inr t) \<and> \<not> positions_exact g'"
proof -
  let ?ord = "sample_order\<lparr>client_order_id := ''c0'', status := Canceled\<rparr>"
  let ?new = "?ord\<lparr>status := Unknown, pending_action := ReconcileAction, version := version ?ord + 1\<rparr>"
  define g where "g = (empty_gateway 1)\<lparr>gw_orders := [(''c0'', ?ord)], gw_positions := [Decimal 200000000, 0]\<rparr>"
  have orders: "gw_orders g = [(''c0'', ?ord)]" and pos: "gw_positions g = [Decimal 200000000, 0]"
    by (simp_all add: g_def)
  have wf: "gw_wf g" by (simp add: gw_wf_def g_def empty_gateway_def kSymbolCount_def)
  have sym: "symbol ?ord = ''BTC-USDT''" "exposure ?ord = 200000000" "exposure ?new = 1000000000"
    by (simp_all add: sample_defs make_order_def Let_def exposure_def conservative_exposure_def signed_raw_def)
  have exact: "positions_exact g"
    unfolding positions_exact_def
  proof (intro allI impI)
    fix s assume "symbol_id_rt s \<noteq> UnknownSymbol"
    then consider "s = ''BTC-USDT''" | "s = ''ETH-USDT''"
      using symbol_id_rt_cases [of s] by (cases "symbol_id_rt s") auto
    then show "raw (gw_positions g ! to_slot (symbol_id_rt s)) = book_exposure g s"
      using sym by cases (simp_all add: pos book_exposure_def orders)
  qed
  obtain t g' where pp: "prepare_persist ?new False (put_order ''c0'' ?new g) = (t, g')" by fastforce
  have run: "mark_unknown ''c0'' g = (g', Inr t)"
    using pp by (simp add: mark_unknown_def order_at_def orders Let_def)
  have "gw_orders g' = [(''c0'', ?new)]" "gw_positions g' = gw_positions g"
    using prepare_persist_frame(1,2) [OF pp] by (simp_all add: orders)
  then have "raw (gw_positions g' ! to_slot (symbol_id_rt ''BTC-USDT'')) \<noteq> book_exposure g' ''BTC-USDT''"
    using sym by (simp add: pos book_exposure_def)
  then have "\<not> positions_exact g'" unfolding positions_exact_def by (metis symbol_id.distinct(3) symbol_id_rt_simps(1))
  with wf exact run show ?thesis by blast
qed

end
