(* ===== verification/Abex_Lane.thy ===== *)
theory Abex_Lane
  imports Abex_Order Abex_Transitions
begin

text \<open>
  The execution lane (\<open>include/abex/application/spsc_execution_lane.hpp\<close>): a ring of slots between one
  producer, the callback of an adapter, and one consumer, the worker that feeds \<open>apply_execution\<close>.

  Every atomic operation of \<open>submit\<close>, \<open>push\<close>, \<open>try_pop\<close> and \<open>run\<close> is one step. The program counters of
  producer and consumer say which operation is next; the two semaphores are counters. \<open>ln_sent\<close> and
  \<open>ln_handled\<close> record the reports in the order of the stores to \<open>tail_\<close> and of the calls of the handler.
  The 64-bit positions are natural numbers: a lane would have to carry $2^{64}$ reports to wrap.
\<close>

section \<open>State and operations\<close>

datatype producer =
    PIdle
  | PEntered execution_report
  | PAcquired execution_report
  | PWritten execution_report
  | PCounted execution_report
  | PStored
  | PLeaving

datatype consumer =
    CIdle
  | CAwake
  | CTaken execution_report
  | CReset execution_report
  | CMoved execution_report
  | CReleased execution_report
  | CHandled
  | CStopped

record lane =
  ln_capacity :: nat
  ln_queue :: "execution_report option list"
  ln_head :: nat
  ln_tail :: nat
  ln_pending :: nat
  ln_producer_active :: bool
  ln_violations :: nat
  ln_slots :: nat
  ln_items :: nat
  ln_stop :: bool
  ln_producer :: producer
  ln_consumer :: consumer
  ln_sent :: "execution_report list"
  ln_handled :: "execution_report list"

definition ptrdiff_max :: nat where "ptrdiff_max = 9223372036854775807"

definition checked_capacity :: "nat \<Rightarrow> nat result" where
  "checked_capacity n =
     (if n = 0 \<or> n > ptrdiff_max
      then Inl (Invalid_argument ''execution lane capacity is outside the supported range'') else Inr n)"

definition new_lane :: "nat \<Rightarrow> lane result" where
  "new_lane n =
     rbind (checked_capacity n) (\<lambda>c.
       Inr \<lparr>ln_capacity = c, ln_queue = replicate c None, ln_head = 0, ln_tail = 0, ln_pending = 0,
            ln_producer_active = False, ln_violations = 0, ln_slots = c, ln_items = 0, ln_stop = False,
            ln_producer = PIdle, ln_consumer = CIdle, ln_sent = [], ln_handled = []\<rparr>)"

text \<open>One step of the producer: \<open>acquired\<close> is what the semaphore answers when it has a permit.\<close>

fun producer_turn :: "bool \<Rightarrow> producer \<Rightarrow> lane \<Rightarrow> lane option" where
  "producer_turn acquired PIdle l = None"
| "producer_turn acquired (PEntered r) l =
     Some (if acquired \<and> 0 < ln_slots l
           then l\<lparr>ln_slots := ln_slots l - 1, ln_producer := PAcquired r\<rparr>
           else l\<lparr>ln_producer := PLeaving\<rparr>)"
| "producer_turn acquired (PAcquired r) l =
     Some (l\<lparr>ln_queue := (ln_queue l)[ln_tail l mod ln_capacity l := Some r], ln_producer := PWritten r\<rparr>)"
| "producer_turn acquired (PWritten r) l =
     Some (l\<lparr>ln_pending := ln_pending l + 1, ln_producer := PCounted r\<rparr>)"
| "producer_turn acquired (PCounted r) l =
     Some (l\<lparr>ln_tail := ln_tail l + 1, ln_sent := ln_sent l @ [r], ln_producer := PStored\<rparr>)"
| "producer_turn acquired PStored l = Some (l\<lparr>ln_items := ln_items l + 1, ln_producer := PLeaving\<rparr>)"
| "producer_turn acquired PLeaving l = Some (l\<lparr>ln_producer_active := False, ln_producer := PIdle\<rparr>)"

text \<open>One step of the worker; \<open>None\<close> where it waits, has stopped, or would dereference an empty slot.\<close>

fun consumer_turn :: "consumer \<Rightarrow> lane \<Rightarrow> lane option" where
  "consumer_turn CIdle l =
     (if 0 < ln_items l then Some (l\<lparr>ln_items := ln_items l - 1, ln_consumer := CAwake\<rparr>) else None)"
| "consumer_turn CAwake l =
     (if ln_head l = ln_tail l
      then Some (l\<lparr>ln_consumer := (if ln_stop l then CStopped else CIdle)\<rparr>)
      else case ln_queue l ! (ln_head l mod ln_capacity l) of
             Some r \<Rightarrow> Some (l\<lparr>ln_consumer := CTaken r\<rparr>)
           | None \<Rightarrow> None)"
| "consumer_turn (CTaken r) l =
     Some (l\<lparr>ln_queue := (ln_queue l)[ln_head l mod ln_capacity l := None], ln_consumer := CReset r\<rparr>)"
| "consumer_turn (CReset r) l = Some (l\<lparr>ln_head := ln_head l + 1, ln_consumer := CMoved r\<rparr>)"
| "consumer_turn (CMoved r) l = Some (l\<lparr>ln_slots := ln_slots l + 1, ln_consumer := CReleased r\<rparr>)"
| "consumer_turn (CReleased r) l = Some (l\<lparr>ln_handled := ln_handled l @ [r], ln_consumer := CHandled\<rparr>)"
| "consumer_turn CHandled l = Some (l\<lparr>ln_pending := ln_pending l - 1, ln_consumer := CIdle\<rparr>)"
| "consumer_turn CStopped l = None"

inductive lane_step :: "lane \<Rightarrow> lane \<Rightarrow> bool" where
  submit: "\<not> ln_producer_active l \<Longrightarrow>
     lane_step l (l\<lparr>ln_producer_active := True, ln_producer := PEntered r\<rparr>)"
| violate: "ln_producer_active l \<Longrightarrow> lane_step l (l\<lparr>ln_violations := ln_violations l + 1\<rparr>)"
| produce: "producer_turn acquired (ln_producer l) l = Some l' \<Longrightarrow> lane_step l l'"
| consume: "consumer_turn (ln_consumer l) l = Some l' \<Longrightarrow> lane_step l l'"
| stop: "lane_step l (l\<lparr>ln_stop := True, ln_items := ln_items l + 1\<rparr>)"

definition lane_size :: "lane \<Rightarrow> nat" where
  "lane_size l = ln_tail l - ln_head l"

text \<open>\<open>flush\<close> returns when the pending counter is zero.\<close>

definition flush_returns :: "lane \<Rightarrow> bool" where
  "flush_returns l \<longleftrightarrow> ln_pending l = 0"

section \<open>Abstraction\<close>

definition lane_abs :: "lane \<Rightarrow> execution_report list \<times> execution_report list" where
  "lane_abs l = (drop (length (ln_handled l)) (ln_sent l), ln_handled l)"

section \<open>Invariant\<close>

fun holds_slot :: "producer \<Rightarrow> nat" where
  "holds_slot (PAcquired _) = 1"
| "holds_slot (PWritten _) = 1"
| "holds_slot (PCounted _) = 1"
| "holds_slot _ = 0"

fun counted :: "producer \<Rightarrow> nat" where
  "counted (PCounted _) = 1"
| "counted _ = 0"

fun unannounced :: "producer \<Rightarrow> nat" where
  "unannounced PStored = 1"
| "unannounced _ = 0"

fun owes_slot :: "consumer \<Rightarrow> nat" where
  "owes_slot (CMoved _) = 1"
| "owes_slot _ = 0"

fun unfinished :: "consumer \<Rightarrow> nat" where
  "unfinished (CMoved _) = 1"
| "unfinished (CReleased _) = 1"
| "unfinished CHandled = 1"
| "unfinished _ = 0"

fun unhandled :: "consumer \<Rightarrow> nat" where
  "unhandled (CMoved _) = 1"
| "unhandled (CReleased _) = 1"
| "unhandled _ = 0"

fun has_permit :: "consumer \<Rightarrow> nat" where
  "has_permit CAwake = 1"
| "has_permit (CTaken _) = 1"
| "has_permit (CReset _) = 1"
| "has_permit _ = 0"

fun producer_ok :: "producer \<Rightarrow> lane \<Rightarrow> bool" where
  "producer_ok PIdle l \<longleftrightarrow> \<not> ln_producer_active l"
| "producer_ok (PWritten r) l \<longleftrightarrow> ln_producer_active l \<and> ln_queue l ! (ln_tail l mod ln_capacity l) = Some r"
| "producer_ok (PCounted r) l \<longleftrightarrow> ln_producer_active l \<and> ln_queue l ! (ln_tail l mod ln_capacity l) = Some r"
| "producer_ok _ l \<longleftrightarrow> ln_producer_active l"

fun consumer_ok :: "consumer \<Rightarrow> lane \<Rightarrow> bool" where
  "consumer_ok (CTaken r) l \<longleftrightarrow> ln_head l < ln_tail l \<and> r = ln_sent l ! ln_head l"
| "consumer_ok (CReset r) l \<longleftrightarrow> ln_head l < ln_tail l \<and> r = ln_sent l ! ln_head l"
| "consumer_ok (CMoved r) l \<longleftrightarrow> 0 < ln_head l \<and> r = ln_sent l ! (ln_head l - 1)"
| "consumer_ok (CReleased r) l \<longleftrightarrow> 0 < ln_head l \<and> r = ln_sent l ! (ln_head l - 1)"
| "consumer_ok _ l \<longleftrightarrow> True"

text \<open>The first position whose slot is still filled.\<close>

definition first_full :: "lane \<Rightarrow> nat" where
  "first_full l = (case ln_consumer l of CReset _ \<Rightarrow> ln_head l + 1 | _ \<Rightarrow> ln_head l)"

definition lane_inv :: "lane \<Rightarrow> bool" where
  "lane_inv l \<longleftrightarrow>
     0 < ln_capacity l \<and> length (ln_queue l) = ln_capacity l \<and> length (ln_sent l) = ln_tail l \<and>
     ln_head l \<le> ln_tail l \<and>
     ln_slots l + (ln_tail l - ln_head l) + holds_slot (ln_producer l) + owes_slot (ln_consumer l) = ln_capacity l \<and>
     ln_pending l = (ln_tail l - ln_head l) + counted (ln_producer l) + unfinished (ln_consumer l) \<and>
     ln_tail l - ln_head l \<le> ln_items l + has_permit (ln_consumer l) + unannounced (ln_producer l) \<and>
     (\<forall>i. first_full l \<le> i \<and> i < ln_tail l \<longrightarrow> ln_queue l ! (i mod ln_capacity l) = Some (ln_sent l ! i)) \<and>
     ln_handled l = take (ln_head l - unhandled (ln_consumer l)) (ln_sent l) \<and>
     producer_ok (ln_producer l) l \<and> consumer_ok (ln_consumer l) l"

lemma first_full_simps [simp]:
  "ln_consumer l = CReset r \<Longrightarrow> first_full l = ln_head l + 1"
  "(\<And>r. ln_consumer l \<noteq> CReset r) \<Longrightarrow> first_full l = ln_head l"
  by (auto simp: first_full_def split: consumer.splits)

lemma lane_invD:
  assumes "lane_inv l"
  shows "0 < ln_capacity l" "length (ln_queue l) = ln_capacity l" "length (ln_sent l) = ln_tail l"
    "ln_head l \<le> ln_tail l"
    "ln_slots l + (ln_tail l - ln_head l) + holds_slot (ln_producer l) + owes_slot (ln_consumer l) = ln_capacity l"
    "ln_pending l = (ln_tail l - ln_head l) + counted (ln_producer l) + unfinished (ln_consumer l)"
    "ln_tail l - ln_head l \<le> ln_items l + has_permit (ln_consumer l) + unannounced (ln_producer l)"
    "\<And>i. first_full l \<le> i \<Longrightarrow> i < ln_tail l \<Longrightarrow> ln_queue l ! (i mod ln_capacity l) = Some (ln_sent l ! i)"
    "ln_handled l = take (ln_head l - unhandled (ln_consumer l)) (ln_sent l)"
    "producer_ok (ln_producer l) l" "consumer_ok (ln_consumer l) l"
  using assms unfolding lane_inv_def by blast+

lemma consumer_ok_frame [simp]:
  "consumer_ok c (l\<lparr>ln_queue := x0\<rparr>) = consumer_ok c l"
  "consumer_ok c (l\<lparr>ln_pending := x3\<rparr>) = consumer_ok c l"
  "consumer_ok c (l\<lparr>ln_producer_active := x4\<rparr>) = consumer_ok c l"
  "consumer_ok c (l\<lparr>ln_violations := x5\<rparr>) = consumer_ok c l"
  "consumer_ok c (l\<lparr>ln_slots := x6\<rparr>) = consumer_ok c l"
  "consumer_ok c (l\<lparr>ln_items := x7\<rparr>) = consumer_ok c l"
  "consumer_ok c (l\<lparr>ln_stop := x8\<rparr>) = consumer_ok c l"
  "consumer_ok c (l\<lparr>ln_producer := x9\<rparr>) = consumer_ok c l"
  "consumer_ok c (l\<lparr>ln_consumer := x10\<rparr>) = consumer_ok c l"
  "consumer_ok c (l\<lparr>ln_handled := x12\<rparr>) = consumer_ok c l"
  by (cases c; simp)+

lemma producer_ok_frame [simp]:
  "producer_ok p (l\<lparr>ln_head := x1\<rparr>) = producer_ok p l"
  "producer_ok p (l\<lparr>ln_pending := x3\<rparr>) = producer_ok p l"
  "producer_ok p (l\<lparr>ln_violations := x5\<rparr>) = producer_ok p l"
  "producer_ok p (l\<lparr>ln_slots := x6\<rparr>) = producer_ok p l"
  "producer_ok p (l\<lparr>ln_items := x7\<rparr>) = producer_ok p l"
  "producer_ok p (l\<lparr>ln_stop := x8\<rparr>) = producer_ok p l"
  "producer_ok p (l\<lparr>ln_producer := x9\<rparr>) = producer_ok p l"
  "producer_ok p (l\<lparr>ln_consumer := x10\<rparr>) = producer_ok p l"
  "producer_ok p (l\<lparr>ln_sent := x11\<rparr>) = producer_ok p l"
  "producer_ok p (l\<lparr>ln_handled := x12\<rparr>) = producer_ok p l"
  by (cases p; simp)+

lemma first_full_frame [simp]:
  "first_full (l\<lparr>ln_queue := x0\<rparr>) = first_full l"
  "first_full (l\<lparr>ln_tail := x2\<rparr>) = first_full l"
  "first_full (l\<lparr>ln_pending := x3\<rparr>) = first_full l"
  "first_full (l\<lparr>ln_producer_active := x4\<rparr>) = first_full l"
  "first_full (l\<lparr>ln_violations := x5\<rparr>) = first_full l"
  "first_full (l\<lparr>ln_slots := x6\<rparr>) = first_full l"
  "first_full (l\<lparr>ln_items := x7\<rparr>) = first_full l"
  "first_full (l\<lparr>ln_stop := x8\<rparr>) = first_full l"
  "first_full (l\<lparr>ln_producer := x9\<rparr>) = first_full l"
  "first_full (l\<lparr>ln_sent := x11\<rparr>) = first_full l"
  "first_full (l\<lparr>ln_handled := x12\<rparr>) = first_full l"
  by (cases "ln_consumer l"; simp add: first_full_def)+

lemma first_full_ge: "ln_head l \<le> first_full l"
  by (simp add: first_full_def split: consumer.splits)

lemma consumer_ok_append:
  "length (ln_sent l) = ln_tail l \<Longrightarrow> ln_head l \<le> ln_tail l \<Longrightarrow> consumer_ok c l \<Longrightarrow>
   consumer_ok c (l\<lparr>ln_tail := ln_tail l + 1, ln_sent := ln_sent l @ [r], ln_producer := p\<rparr>)"
  by (cases c) (auto simp: nth_append)

lemma producer_keeps_inv:
  assumes inv: "lane_inv l" and run: "producer_turn acquired (ln_producer l) l = Some l'"
  shows "lane_inv l'"
proof (cases "ln_producer l")
  case PIdle
  with run show ?thesis by simp
next
  case (PEntered r)
  with run inv show ?thesis
    by (auto simp: lane_inv_def split: if_splits)
next
  case (PAcquired r)
  let ?q = "(ln_queue l)[ln_tail l mod ln_capacity l := Some r]"
  note d = lane_invD [OF inv]
  have l': "l' = l\<lparr>ln_queue := ?q, ln_producer := PWritten r\<rparr>" using run PAcquired by simp
  have room: "ln_tail l - ln_head l < ln_capacity l" using d(5) PAcquired by simp
  have "?q ! (i mod ln_capacity l) = Some (ln_sent l ! i)" if "first_full l \<le> i" "i < ln_tail l" for i
  proof -
    have "ln_head l \<le> i" using that(1) first_full_ge [of l] by simp
    then have "i mod ln_capacity l \<noteq> ln_tail l mod ln_capacity l"
      using that(2) room by (intro mod_window) linarith+
    then show ?thesis using d(8) [OF that] by (simp add: nth_list_update_neq)
  qed
  moreover have "first_full l' = first_full l" "consumer_ok (ln_consumer l) l'"
    using d(11) by (simp_all add: l')
  ultimately show ?thesis
    using d PAcquired unfolding lane_inv_def by (simp add: l')
next
  case (PWritten r)
  with run inv show ?thesis
    by (auto simp: lane_inv_def split: if_splits)
next
  case (PCounted r)
  note d = lane_invD [OF inv]
  have l': "l' = l\<lparr>ln_tail := ln_tail l + 1, ln_sent := ln_sent l @ [r], ln_producer := PStored\<rparr>"
    using run PCounted by simp
  have "ln_queue l ! (i mod ln_capacity l) = Some ((ln_sent l @ [r]) ! i)"
    if "first_full l \<le> i" "i < ln_tail l + 1" for i
    using that d(3,8) d(10) PCounted by (cases "i = ln_tail l") (auto simp: nth_append)
  moreover have "first_full l' = first_full l" by (simp add: l')
  moreover have "consumer_ok (ln_consumer l) l'"
    unfolding l' by (rule consumer_ok_append [OF d(3,4,11)])
  ultimately show ?thesis
    using d PCounted unfolding lane_inv_def by (simp add: l') linarith
next
  case PStored
  with run inv show ?thesis
    by (auto simp: lane_inv_def split: if_splits)
next
  case PLeaving
  with run inv show ?thesis
    by (auto simp: lane_inv_def split: if_splits)
qed

lemma producer_ok_reset:
  assumes "producer_ok p l" "ln_head l < ln_tail l" "ln_slots l + (ln_tail l - ln_head l) + holds_slot p \<le> ln_capacity l"
  shows "producer_ok p (l\<lparr>ln_queue := (ln_queue l)[ln_head l mod ln_capacity l := None], ln_consumer := c\<rparr>)"
proof (cases "holds_slot p = 0")
  case True
  with assms(1) show ?thesis by (cases p) simp_all
next
  case False
  then have "ln_head l mod ln_capacity l \<noteq> ln_tail l mod ln_capacity l"
    using assms(2,3) by (intro mod_window) auto
  with assms(1) show ?thesis by (cases p) simp_all
qed

lemma consumer_keeps_inv:
  assumes inv: "lane_inv l" and run: "consumer_turn (ln_consumer l) l = Some l'"
  shows "lane_inv l'"
proof (cases "ln_consumer l")
  case CIdle
  with run inv show ?thesis by (auto simp: lane_inv_def split: if_splits)
next
  case CAwake
  note d = lane_invD [OF inv]
  show ?thesis
  proof (cases "ln_head l = ln_tail l")
    case True
    with run CAwake inv show ?thesis by (auto simp: lane_inv_def)
  next
    case False
    then have lt: "ln_head l < ln_tail l" using d(4) by simp
    have "ln_queue l ! (ln_head l mod ln_capacity l) = Some (ln_sent l ! ln_head l)"
      using d(8) [of "ln_head l"] lt CAwake by simp
    then have "l' = l\<lparr>ln_consumer := CTaken (ln_sent l ! ln_head l)\<rparr>" using run CAwake False by simp
    with inv CAwake lt show ?thesis by (auto simp: lane_inv_def)
  qed
next
  case (CTaken r)
  note d = lane_invD [OF inv]
  let ?q = "(ln_queue l)[ln_head l mod ln_capacity l := None]"
  have l': "l' = l\<lparr>ln_queue := ?q, ln_consumer := CReset r\<rparr>" using run CTaken by simp
  have lt: "ln_head l < ln_tail l" "r = ln_sent l ! ln_head l" using d(11) CTaken by simp_all
  have "?q ! (i mod ln_capacity l) = Some (ln_sent l ! i)" if "ln_head l + 1 \<le> i" "i < ln_tail l" for i
  proof -
    have "ln_head l mod ln_capacity l \<noteq> i mod ln_capacity l"
      using that d(5) by (intro mod_window) linarith+
    then show ?thesis using d(8) [of i] that CTaken by simp
  qed
  moreover have "producer_ok (ln_producer l) l'"
    unfolding l' using d(5) lt(1) CTaken by (intro producer_ok_reset [OF d(10)]) simp_all
  ultimately show ?thesis using d CTaken lt unfolding lane_inv_def by (simp add: l')
next
  case (CReset r)
  note d = lane_invD [OF inv]
  have l': "l' = l\<lparr>ln_head := ln_head l + 1, ln_consumer := CMoved r\<rparr>" using run CReset by simp
  have lt: "ln_head l < ln_tail l" "r = ln_sent l ! ln_head l" using d(11) CReset by simp_all
  then have "ln_tail l - ln_head l = Suc (ln_tail l - Suc (ln_head l))" by simp
  with d CReset lt show ?thesis unfolding lane_inv_def by (simp add: l')
next
  case (CMoved r)
  with run inv show ?thesis by (auto simp: lane_inv_def)
next
  case (CReleased r)
  note d = lane_invD [OF inv]
  have "take (ln_head l - 1) (ln_sent l) @ [ln_sent l ! (ln_head l - 1)] = take (ln_head l) (ln_sent l)"
  proof -
    have "ln_head l - 1 < length (ln_sent l)" "Suc (ln_head l - 1) = ln_head l" using d(3,4,11) CReleased by auto
    then show ?thesis using take_Suc_conv_app_nth [of "ln_head l - 1" "ln_sent l"] by simp
  qed
  with run inv CReleased show ?thesis by (auto simp: lane_inv_def)
next
  case CHandled
  with run inv show ?thesis by (auto simp: lane_inv_def)
next
  case CStopped
  with run show ?thesis by simp
qed

lemma lane_step_inv:
  assumes "lane_inv l" "lane_step l l'"
  shows "lane_inv l'"
  using assms(2)
proof cases
  case (submit r)
  then have "ln_producer l = PIdle" using lane_invD(10) [OF assms(1)] by (cases "ln_producer l") simp_all
  with submit assms(1) show ?thesis by (auto simp: lane_inv_def)
next
  case violate
  with assms(1) show ?thesis by (auto simp: lane_inv_def)
next
  case (produce acquired)
  with assms(1) producer_keeps_inv show ?thesis by blast
next
  case consume
  with assms(1) consumer_keeps_inv show ?thesis by blast
next
  case stop
  with assms(1) show ?thesis by (auto simp: lane_inv_def)
qed

lemma new_lane_inv: "new_lane n = Inr l \<Longrightarrow> lane_inv l"
  by (auto simp: new_lane_def checked_capacity_def lane_inv_def rbind_eq_Inr_iff split: if_splits)

lemma step_capacity:
  assumes "lane_step l l'"
  shows "ln_capacity l' = ln_capacity l"
  using assms
proof cases
  case (produce acquired)
  then show ?thesis by (cases "ln_producer l") (auto split: if_splits)
next
  case consume
  then show ?thesis by (cases "ln_consumer l") (auto split: if_splits option.splits)
qed auto

text \<open>The concrete lane follows the abstract queue: storing \<open>tail_\<close> enqueues, calling the handler dequeues.\<close>

lemma handled_prefix: "lane_inv l \<Longrightarrow> length (ln_handled l) = ln_head l - unhandled (ln_consumer l)"
  using lane_invD(3,4,9) [of l] by simp

lemma lane_abs_step:
  assumes inv: "lane_inv l" and step: "lane_step l l'"
  shows "lane_abs l' = lane_abs l \<or> fifo_step (ln_capacity l) (lane_abs l) (lane_abs l')"
  using step
proof cases
  case (produce acquired)
  note d = lane_invD [OF inv]
  show ?thesis
  proof (cases "ln_producer l")
    case (PCounted r)
    let ?k = "length (ln_handled l)"
    have k: "?k \<le> length (ln_sent l)" using handled_prefix [OF inv] d(3,4) by simp
    have "length (drop ?k (ln_sent l)) < ln_capacity l + 1"
      using handled_prefix [OF inv] d(3,4,5) PCounted by (cases "ln_consumer l") simp_all
    then have "fifo_step (ln_capacity l) (drop ?k (ln_sent l), ln_handled l) (drop ?k (ln_sent l) @ [r], ln_handled l)"
      by (rule fifo_step.enqueue)
    moreover have "l' = l\<lparr>ln_tail := ln_tail l + 1, ln_sent := ln_sent l @ [r], ln_producer := PStored\<rparr>"
      using produce PCounted by simp
    ultimately show ?thesis using k by (simp add: lane_abs_def)
  qed (use produce in \<open>auto simp: lane_abs_def split: if_splits\<close>)
next
  case consume
  note d = lane_invD [OF inv]
  show ?thesis
  proof (cases "ln_consumer l")
    case (CReleased r)
    let ?k = "length (ln_handled l)"
    have k: "?k < length (ln_sent l)" "ln_sent l ! ?k = r"
      using handled_prefix [OF inv] d(3,4,11) CReleased by auto
    then have "drop ?k (ln_sent l) = r # drop (Suc ?k) (ln_sent l)" using Cons_nth_drop_Suc by metis
    moreover have "l' = l\<lparr>ln_handled := ln_handled l @ [r], ln_consumer := CHandled\<rparr>"
      using consume CReleased by simp
    ultimately show ?thesis by (simp add: lane_abs_def fifo_step.dequeue)
  qed (use consume in \<open>auto simp: lane_abs_def split: if_splits option.splits\<close>)
qed (auto simp: lane_abs_def)

definition lane_of :: "nat \<Rightarrow> lane \<Rightarrow> bool" where
  "lane_of n l \<longleftrightarrow> lane_inv l \<and> ln_capacity l = n"

interpretation lane: simulation lane_step "lane_of n" "fifo_step n" lane_abs for n
  by unfold_locales (auto simp: lane_of_def step_capacity intro: lane_step_inv dest: lane_abs_step)

section \<open>A sample run\<close>

definition lane_report :: execution_report where
  "lane_report = \<lparr>rp_event_id = ''ev1'', rp_client_order_id = ''c1'', rp_exchange_order_id = ''e1'',
     rp_status = Live, rp_cumulative_filled = 0, rp_cumulative_quote = None,
     rp_last_fill_price = None, rp_order_price = None, rp_order_quantity = None,
     rp_sequence = Some 5, rp_event_time_ms = 7, rp_reason = []\<rparr>"

definition sample_lane :: "producer \<Rightarrow> nat \<Rightarrow> execution_report option \<Rightarrow> nat \<Rightarrow> nat \<Rightarrow> nat \<Rightarrow> execution_report list \<Rightarrow> lane" where
  "sample_lane p slots slot pending tail items sent =
     \<lparr>ln_capacity = 2, ln_queue = [slot, None], ln_head = 0, ln_tail = tail, ln_pending = pending,
      ln_producer_active = (p \<noteq> PIdle), ln_violations = 0, ln_slots = slots, ln_items = items, ln_stop = False,
      ln_producer = p, ln_consumer = CIdle, ln_sent = sent, ln_handled = []\<rparr>"

lemma sample_lane_new: "new_lane 2 = Inr (sample_lane PIdle 2 None 0 0 0 [])"
  by (simp add: new_lane_def checked_capacity_def ptrdiff_max_def sample_lane_def numeral_2_eq_2)

lemma sample_lane_run:
  "lane_step\<^sup>*\<^sup>* (sample_lane PIdle 2 None 0 0 0 []) (sample_lane PLeaving 1 (Some lane_report) 1 1 1 [lane_report])"
proof -
  let ?r = lane_report
  note extend = rtranclp.rtrancl_into_rtrancl [of lane_step]
  note turn = lane_step.produce [where acquired = True]
  have "lane_step (sample_lane PIdle 2 None 0 0 0 []) (sample_lane (PEntered ?r) 2 None 0 0 0 [])"
    using lane_step.submit [of "sample_lane PIdle 2 None 0 0 0 []" ?r] by (simp add: sample_lane_def)
  then have run: "lane_step\<^sup>*\<^sup>* (sample_lane PIdle 2 None 0 0 0 []) (sample_lane (PEntered ?r) 2 None 0 0 0 [])"
    by (rule r_into_rtranclp)
  have "lane_step (sample_lane (PEntered ?r) 2 None 0 0 0 []) (sample_lane (PAcquired ?r) 1 None 0 0 0 [])"
    by (rule turn) (simp add: sample_lane_def)
  note run = extend [OF run this]
  have "lane_step (sample_lane (PAcquired ?r) 1 None 0 0 0 []) (sample_lane (PWritten ?r) 1 (Some ?r) 0 0 0 [])"
    by (rule turn) (simp add: sample_lane_def)
  note run = extend [OF run this]
  have "lane_step (sample_lane (PWritten ?r) 1 (Some ?r) 0 0 0 []) (sample_lane (PCounted ?r) 1 (Some ?r) 1 0 0 [])"
    by (rule turn) (simp add: sample_lane_def)
  note run = extend [OF run this]
  have "lane_step (sample_lane (PCounted ?r) 1 (Some ?r) 1 0 0 []) (sample_lane PStored 1 (Some ?r) 1 1 0 [?r])"
    by (rule turn) (simp add: sample_lane_def)
  note run = extend [OF run this]
  have "lane_step (sample_lane PStored 1 (Some ?r) 1 1 0 [?r]) (sample_lane PLeaving 1 (Some ?r) 1 1 1 [?r])"
    by (rule turn) (simp add: sample_lane_def)
  from extend [OF run this] show ?thesis .
qed

section \<open>Properties\<close>

text \<open>C11. The execution lane refines a bounded first-in first-out queue: every interleaving of the atomic
  steps of \<open>submit\<close> and of the worker, from a new lane, is a run of a queue that holds at most one report
  more than the capacity; nothing is lost, duplicated or reordered between them.\<close>

theorem lane_refines_fifo:
  assumes "new_lane n = Inr l0" and "lane_step\<^sup>*\<^sup>* l0 l"
  shows "(fifo_step n)\<^sup>*\<^sup>* ([], []) (lane_abs l) \<and> ln_sent l = ln_handled l @ fst (lane_abs l) \<and>
    lane_size l \<le> n"
proof -
  have l0: "lane_of n l0" "lane_abs l0 = ([], [])"
    using assms(1) new_lane_inv [OF assms(1)]
    by (auto simp: lane_of_def lane_abs_def new_lane_def checked_capacity_def rbind_eq_Inr_iff split: if_splits)
  have inv: "lane_inv l" "ln_capacity l = n" using lane.reachable_inv [OF assms(2) l0(1)] by (simp_all add: lane_of_def)
  have "ln_handled l = take (length (ln_handled l)) (ln_sent l)"
    using lane_invD(9) [OF inv(1)] by (metis handled_prefix inv(1))
  then have "ln_sent l = ln_handled l @ drop (length (ln_handled l)) (ln_sent l)"
    by (metis append_take_drop_id)
  moreover have "(fifo_step n)\<^sup>*\<^sup>* ([], []) (lane_abs l)"
    using lane.refines [OF assms(2) l0(1)] unfolding l0(2) .
  ultimately show ?thesis
    using lane_invD(5) [OF inv(1)] inv(2) by (simp add: lane_abs_def lane_size_def)
qed

theorem lane_refines_fifo_witness:
  "(fifo_step 2)\<^sup>*\<^sup>* ([], []) ([lane_report], [])"
  using lane_refines_fifo [OF sample_lane_new sample_lane_run] by (simp add: lane_abs_def sample_lane_def)

text \<open>The lane does not get stuck: in every reachable state the worker can run whenever reports are
  stored and announced, never reads an empty slot, and when \<open>flush\<close> finds no pending report every stored
  report has been handled.\<close>

theorem lane_progress:
  assumes "new_lane n = Inr l0" and "lane_step\<^sup>*\<^sup>* l0 l" and "ln_consumer l \<noteq> CStopped"
  shows "(0 < lane_size l \<and> ln_producer l \<noteq> PStored \<longrightarrow> (\<exists>l'. consumer_turn (ln_consumer l) l = Some l')) \<and>
    (flush_returns l \<longrightarrow> ln_handled l = ln_sent l)"
proof -
  have inv: "lane_inv l"
    using lane.reachable_inv [OF assms(2), of n] new_lane_inv [OF assms(1)] assms(1)
    by (auto simp: lane_of_def new_lane_def checked_capacity_def rbind_eq_Inr_iff split: if_splits)
  note d = lane_invD [OF inv]
  have "\<exists>l'. consumer_turn (ln_consumer l) l = Some l'" if "0 < lane_size l" "ln_producer l \<noteq> PStored"
  proof -
    have "unannounced (ln_producer l) = 0" using that(2) by (cases "ln_producer l") simp_all
    then show ?thesis
      using that(1) d(7) d(8) [of "ln_head l"] assms(3)
      by (cases "ln_consumer l") (auto simp: lane_size_def)
  qed
  moreover have "ln_handled l = ln_sent l" if "flush_returns l"
    using that d(3,4,6,9) by (cases "ln_consumer l") (auto simp: flush_returns_def)
  ultimately show ?thesis by blast
qed

theorem lane_progress_witness:
  "\<exists>l'. consumer_turn CIdle (sample_lane PLeaving 1 (Some lane_report) 1 1 1 [lane_report]) = Some l'"
  using lane_progress [OF sample_lane_new sample_lane_run] by (simp add: sample_lane_def lane_size_def)

end
