(* ===== verification/Abex_Rate_Limiter.thy ===== *)
theory Abex_Rate_Limiter
  imports Abex_Prelude
begin

text \<open>
  The rate limiter (\<open>include/abex/infrastructure/rate_limiter.hpp\<close>): a generic cell rate algorithm on
  64-bit integers, in micro-tokens and nanoseconds.

  The conversions of \<open>double\<close> configuration values (\<open>token_units\<close>, the period) happen before the integer
  core and are arguments here; the clock is an argument too. The compare-and-swap loop takes the values that
  other threads put in the way as a list: the exchange fails once for every element.
\<close>

section \<open>Integer core\<close>

definition units_per_token :: int where "units_per_token = 1000000"

definition scaled_duration :: "int \<Rightarrow> int \<Rightarrow> int" where
  "scaled_duration units period =
     (if units \<le> 0 \<or> period \<le> 0 then 0
      else let whole = units div units_per_token; remainder = units mod units_per_token in
        if whole > int64_max div period then int64_max
        else let base = whole * period;
                 period_whole = period div units_per_token;
                 period_remainder = period mod units_per_token in
          if period_whole \<noteq> 0 \<and> remainder > (int64_max - base) div period_whole then int64_max
          else let partial = remainder * period_whole;
                   tail = remainder * period_remainder div units_per_token in
            if tail > int64_max - base - partial then int64_max else base + partial + tail)"

definition saturated_add :: "int \<Rightarrow> int \<Rightarrow> int" where
  "saturated_add lhs rhs = (if 0 < rhs \<and> lhs > int64_max - rhs then int64_max else lhs + rhs)"

section \<open>The bucket\<close>

record token_bucket =
  capacity_units :: int
  period_ns :: int
  theoretical_arrival_ns :: int

definition configure :: "int \<Rightarrow> int \<Rightarrow> int \<Rightarrow> int \<Rightarrow> token_bucket" where
  "configure now capacity available period =
     \<lparr>capacity_units = capacity, period_ns = period,
      theoretical_arrival_ns = saturated_add now (scaled_duration (max 0 (capacity - available)) period)\<rparr>"

definition new_token_bucket :: "int \<Rightarrow> int \<Rightarrow> int \<Rightarrow> token_bucket" where
  "new_token_bucket now capacity period = configure now capacity capacity period"

text \<open>The loop of \<open>try_acquire\<close>: the value the exchange stores, or \<open>None\<close> where it answers false.\<close>

fun acquire_loop :: "int \<Rightarrow> int \<Rightarrow> int \<Rightarrow> int \<Rightarrow> int list \<Rightarrow> int option" where
  "acquire_loop now increment tolerance observed interference =
     (if observed > saturated_add now tolerance then None
      else case interference of
             [] \<Rightarrow> Some (saturated_add (max observed now) increment)
           | seen # rest \<Rightarrow> acquire_loop now increment tolerance seen rest)"

definition try_acquire :: "int \<Rightarrow> int \<Rightarrow> int list \<Rightarrow> token_bucket \<Rightarrow> bool \<times> token_bucket" where
  "try_acquire now cost interference b =
     (if cost \<le> 0 \<or> cost > capacity_units b \<or> period_ns b \<le> 0 then (False, b)
      else let increment = scaled_duration cost (period_ns b);
               tolerance = scaled_duration (capacity_units b - cost) (period_ns b) in
        case acquire_loop now increment tolerance (theoretical_arrival_ns b) interference of
          None \<Rightarrow> (False, b)
        | Some candidate \<Rightarrow> (True, b\<lparr>theoretical_arrival_ns := candidate\<rparr>))"

text \<open>Without interference, one decision on the stored arrival time.\<close>

definition acquire :: "int \<Rightarrow> int \<Rightarrow> token_bucket \<Rightarrow> bool \<times> token_bucket" where
  "acquire now cost b = try_acquire now cost [] b"

text \<open>\<open>positive\<close> is the test that capacity and rate, as configured, are above zero.\<close>

definition synchronize :: "bool \<Rightarrow> int \<Rightarrow> int \<Rightarrow> int \<Rightarrow> int \<Rightarrow> token_bucket \<Rightarrow> token_bucket" where
  "synchronize positive now capacity available period b =
     (if \<not> positive then b else configure now capacity (max 0 (min available capacity)) period)"

text \<open>A sequence of requests, each a time and a cost: the accepted ones and the bucket after them.\<close>

fun acquire_all :: "(int \<times> int) list \<Rightarrow> token_bucket \<Rightarrow> (int \<times> int) list \<times> token_bucket" where
  "acquire_all [] b = ([], b)"
| "acquire_all ((now, cost) # requests) b =
     (case acquire now cost b of (granted, b') \<Rightarrow>
        case acquire_all requests b' of (accepted, b'') \<Rightarrow>
          (if granted then (now, cost) # accepted else accepted, b''))"

section \<open>Exactness of the scaled duration\<close>

lemma split_product:
  fixes w r p q s U :: int
  assumes "0 < U" "units = w * U + r" "period = q * U + s"
  shows "units * period div U = w * period + r * q + r * s div U"
proof -
  have "units * period = r * s + (w * period + r * q) * U"
    using assms(2,3) by (simp add: algebra_simps)
  then show ?thesis using assms(1) by (simp add: div_mult_self1)
qed

lemma quotient_exceeds:
  fixes a b m :: int
  assumes "0 < b"
  shows "a > m div b \<longleftrightarrow> a * b > m"
proof -
  have m: "m = m div b * b + m mod b" by (rule div_mult_mod_eq [symmetric])
  have r: "0 \<le> m mod b" "m mod b < b" using assms by simp_all
  show ?thesis
  proof
    assume "m div b < a"
    then have "(m div b + 1) * b \<le> a * b" using assms by (intro mult_right_mono) auto
    then show "m < a * b" using m r unfolding distrib_right by linarith
  next
    assume less: "m < a * b"
    show "m div b < a"
    proof (rule ccontr)
      assume "\<not> m div b < a"
      then have "a * b \<le> m div b * b" using assms by (intro mult_right_mono) auto
      then show False using m r less by linarith
    qed
  qed
qed

lemma scaled_duration_min:
  assumes "0 < units" "0 < period"
  shows "scaled_duration units period = min int64_max (units * period div units_per_token)"
proof -
  let ?U = units_per_token
  let ?w = "units div ?U" and ?r = "units mod ?U" and ?q = "period div ?U" and ?s = "period mod ?U"
  have U: "0 < ?U" by (simp add: units_per_token_def)
  have nonneg: "0 \<le> ?w" "0 \<le> ?r" "0 \<le> ?q" "0 \<le> ?s"
    using assms U by (simp_all add: pos_imp_zdiv_nonneg_iff)
  then have parts: "0 \<le> ?r * ?q" "0 \<le> ?r * ?s div ?U" "0 \<le> ?w * period"
    using assms U by (simp_all add: pos_imp_zdiv_nonneg_iff)
  have exact: "units * period div ?U = ?w * period + ?r * ?q + ?r * ?s div ?U"
    by (rule split_product [OF U]) simp_all
  have first: "?w > int64_max div period \<longleftrightarrow> ?w * period > int64_max"
    using assms(2) by (rule quotient_exceeds)
  have second: "?q \<noteq> 0 \<and> ?r > (int64_max - ?w * period) div ?q \<longleftrightarrow> ?r * ?q > int64_max - ?w * period"
    if "\<not> ?w * period > int64_max"
  proof (cases "?q = 0")
    case False
    then have "0 < ?q" using nonneg by simp
    then show ?thesis using quotient_exceeds [of ?q "int64_max - ?w * period" ?r] False by simp
  qed (use that in simp)
  show ?thesis
    unfolding scaled_duration_def Let_def exact
    using assms first second parts by (auto simp: min_def)
qed

lemma scaled_duration_exact_below:
  assumes "0 \<le> units" "0 < period" "units * period div units_per_token \<le> int64_max"
  shows "scaled_duration units period = units * period div units_per_token"
proof (cases "units = 0")
  case True
  then show ?thesis by (simp add: scaled_duration_def)
next
  case False
  then show ?thesis using assms by (simp add: scaled_duration_min)
qed

lemma floor_superadditive:
  fixes a b U :: int
  assumes "0 < U"
  shows "a div U + b div U \<le> (a + b) div U"
  using assms div_add1_eq [of a b U] by (simp add: pos_imp_zdiv_nonneg_iff)

text \<open>The time a full bucket takes to refill.\<close>

definition burst_ns :: "token_bucket \<Rightarrow> int" where
  "burst_ns b = capacity_units b * period_ns b div units_per_token"

lemma durations_within_burst:
  assumes "0 < cost" "cost \<le> capacity_units b" "0 < period_ns b" "burst_ns b \<le> int64_max"
  shows "scaled_duration cost (period_ns b) + scaled_duration (capacity_units b - cost) (period_ns b) \<le> burst_ns b"
    and "0 \<le> scaled_duration cost (period_ns b)"
    and "0 \<le> scaled_duration (capacity_units b - cost) (period_ns b)"
proof -
  let ?U = units_per_token and ?p = "period_ns b" and ?c = "capacity_units b"
  have U: "0 < ?U" by (simp add: units_per_token_def)
  have le: "cost * ?p div ?U \<le> burst_ns b" "(?c - cost) * ?p div ?U \<le> burst_ns b"
    unfolding burst_ns_def using assms U by (auto intro!: zdiv_mono1 mult_right_mono)
  then have eqs: "scaled_duration cost ?p = cost * ?p div ?U"
      "scaled_duration (?c - cost) ?p = (?c - cost) * ?p div ?U"
    using assms by (auto intro!: scaled_duration_exact_below)
  show "scaled_duration cost ?p + scaled_duration (?c - cost) ?p \<le> burst_ns b"
    unfolding eqs burst_ns_def using floor_superadditive [OF U, of "cost * ?p" "(?c - cost) * ?p"]
    by (simp add: algebra_simps)
  show "0 \<le> scaled_duration cost ?p" "0 \<le> scaled_duration (?c - cost) ?p"
    unfolding eqs using assms U by (simp_all add: pos_imp_zdiv_nonneg_iff)
qed

section \<open>What a run of requests consumes\<close>

lemma acquire_cases:
  assumes "acquire now cost b = (granted, b')" "0 < period_ns b" "0 \<le> now" "now + burst_ns b \<le> int64_max"
  shows "capacity_units b' = capacity_units b \<and> period_ns b' = period_ns b \<and>
    (if granted
     then theoretical_arrival_ns b' = max (theoretical_arrival_ns b) now + scaled_duration cost (period_ns b) \<and>
          theoretical_arrival_ns b' \<le> now + burst_ns b
     else b' = b)"
proof (cases "cost \<le> 0 \<or> cost > capacity_units b \<or> period_ns b \<le> 0")
  case True
  then show ?thesis using assms(1) by (auto simp: acquire_def try_acquire_def)
next
  case False
  have "burst_ns b \<le> int64_max" using assms(3,4) by simp
  from durations_within_burst [OF _ _ assms(2) this, of cost] False
  have d: "scaled_duration cost (period_ns b) + scaled_duration (capacity_units b - cost) (period_ns b) \<le> burst_ns b"
    "0 \<le> scaled_duration cost (period_ns b)" "0 \<le> scaled_duration (capacity_units b - cost) (period_ns b)"
    by auto
  with False assms(1,4) show ?thesis
    by (auto simp: acquire_def try_acquire_def saturated_add_def Let_def split: if_splits)
qed

lemma acquire_all_bound:
  assumes "acquire_all requests b = (accepted, b')" "0 < period_ns b" "0 \<le> lo" "hi + burst_ns b \<le> int64_max"
    and "\<forall>(now, cost) \<in> set requests. lo \<le> now \<and> now \<le> hi"
  shows "(accepted = [] \<and> b' = b) \<or>
    (max (theoretical_arrival_ns b) lo + (\<Sum>(now, cost) \<leftarrow> accepted. scaled_duration cost (period_ns b))
       \<le> theoretical_arrival_ns b' \<and> theoretical_arrival_ns b' \<le> hi + burst_ns b)"
  using assms
proof (induction requests b arbitrary: accepted b' rule: acquire_all.induct)
  case (2 now cost requests b)
  obtain granted b1 where one: "acquire now cost b = (granted, b1)" by fastforce
  obtain acc b2 where rest: "acquire_all requests b1 = (acc, b2)" by fastforce
  have now: "lo \<le> now" "now \<le> hi" using "2.prems"(5) by auto
  have step: "capacity_units b1 = capacity_units b" "period_ns b1 = period_ns b"
    "granted \<Longrightarrow> theoretical_arrival_ns b1 = max (theoretical_arrival_ns b) now + scaled_duration cost (period_ns b)"
    "granted \<Longrightarrow> theoretical_arrival_ns b1 \<le> now + burst_ns b" "\<not> granted \<Longrightarrow> b1 = b"
    using acquire_cases [OF one "2.prems"(2)] now "2.prems"(3,4) by (auto split: if_splits)
  have burst: "burst_ns b1 = burst_ns b" using step by (simp add: burst_ns_def)
  have ih: "(acc = [] \<and> b2 = b1) \<or>
      (max (theoretical_arrival_ns b1) lo + (\<Sum>(now, cost) \<leftarrow> acc. scaled_duration cost (period_ns b))
         \<le> theoretical_arrival_ns b2 \<and> theoretical_arrival_ns b2 \<le> hi + burst_ns b)"
    using "2.IH" [OF one [symmetric] rest] "2.prems" step burst by auto
  show ?case
  proof (cases granted)
    case True
    then show ?thesis using ih step now "2.prems"(1) one rest by (auto simp: max_def split: if_splits)
  next
    case False
    then show ?thesis using ih step "2.prems"(1) one rest by auto
  qed
qed simp

section \<open>Properties\<close>

text \<open>The overflow-free computation of a duration (\<open>scaled_duration\<close>) is the exact product of
  micro-tokens and period, divided by the units of a token and rounded down, saturated at the largest
  64-bit integer.\<close>

theorem scaled_duration_exact:
  assumes "0 < units" and "0 < period"
  shows "scaled_duration units period = min int64_max (units * period div units_per_token)"
  using assms by (rule scaled_duration_min)

theorem scaled_duration_exact_witness:
  "scaled_duration 2500000 3 = 7 \<and> scaled_duration 9000000000000000000 9000000000000000000 = int64_max"
  using scaled_duration_exact [of 2500000 3]
    scaled_duration_exact [of 9000000000000000000 9000000000000000000]
  by (simp add: units_per_token_def int64_max_def)

text \<open>The limiter enforces its rate: of any sequence of requests at times between \<open>lo\<close> and \<open>hi\<close>,
  in any order, the accepted ones cost together at most what the length of the interval refills plus one
  full bucket, whatever the state of the bucket before.\<close>

theorem limiter_enforces_rate:
  assumes "acquire_all requests b = (accepted, b')" and "0 < period_ns b" and "0 \<le> lo" and "lo \<le> hi"
    and "hi + burst_ns b \<le> int64_max" and "0 \<le> capacity_units b"
    and "\<forall>(now, cost) \<in> set requests. lo \<le> now \<and> now \<le> hi"
  shows "(\<Sum>(now, cost) \<leftarrow> accepted. scaled_duration cost (period_ns b)) \<le> hi - lo + burst_ns b"
proof -
  have "0 \<le> burst_ns b"
    using assms(2,6) by (simp add: burst_ns_def units_per_token_def pos_imp_zdiv_nonneg_iff)
  then show ?thesis using acquire_all_bound [OF assms(1,2,3,5,7)] assms(4) by auto
qed

definition sample_bucket :: token_bucket where
  "sample_bucket = new_token_bucket 1000 2000000 100"

lemma sample_bucket_run:
  "acquire_all [(1000, 1000000), (1010, 1000000), (1020, 1000000), (1100, 1000000)] sample_bucket =
     ([(1000, 1000000), (1010, 1000000), (1100, 1000000)], sample_bucket\<lparr>theoretical_arrival_ns := 1300\<rparr>)"
  by code_simp

theorem limiter_enforces_rate_witness:
  "(\<Sum>(now, cost) \<leftarrow> [(1000, 1000000), (1010, 1000000), (1100, 1000000)]. scaled_duration cost 100) \<le> (300::int)"
  using limiter_enforces_rate [OF sample_bucket_run, of 1000 1100]
  by (simp add: sample_bucket_def new_token_bucket_def configure_def burst_ns_def units_per_token_def int64_max_def)

end
