(* ===== verification/Abex_Sim_Exchange.thy ===== *)
theory Abex_Sim_Exchange
  imports Abex_Preflight Abex_Rate_Limiter Abex_Transitions "HOL-Library.Char_ord" "HOL-Library.List_Lexorder"
begin

text \<open>
  The simulated venue (\<open>include/abex/infrastructure/simulated_exchange_adapter.hpp\<close>,
  \<open>src/infrastructure/simulated_exchange_adapter.cpp\<close>).

  An operation maps the adapter's state to a result and the state after it; an exception is a result and
  keeps what was changed before it was thrown. Clock readings and the shared quote book are in \<open>sim_env\<close>.
  The hash maps are association lists that grow at their end, which fixes one of the orders in which the
  code may iterate over them. \<open>sim_published\<close> and \<open>sim_connection_events\<close> record the calls of the two
  callbacks.
\<close>

section \<open>State\<close>

record sim_config =
  sc_report_before_ack :: bool
  sc_amend_reports_before_ack :: bool
  sc_fill_before_replace :: bool
  sc_report_terminal_orders_as_open :: bool
  sc_throw_on_place :: bool
  sc_initial_balances :: "(string \<times> decimal) list"

record sim =
  sim_venue :: venue
  sim_config :: sim_config
  sim_limiter :: token_bucket
  sim_initial_balances :: "(string \<times> decimal) list"
  sim_orders :: "(string \<times> order) list"
  sim_buffered_reports :: "execution_report list"
  sim_callbacks :: bool
  sim_connected :: bool
  sim_next_exchange_id :: u64
  sim_next_event_id :: u64
  sim_next_sequence :: u64
  sim_fill_adjustments :: "(string \<times> decimal) list"
  sim_frozen :: "(string \<times> decimal) list"
  sim_published :: "execution_report list"
  sim_connection_events :: "(bool \<times> string) list"

record sim_env =
  se_now_ms :: int
  se_now_ns :: int
  se_market_data :: "market_data_book option"

type_synonym 'a sim_op = "sim \<Rightarrow> 'a result \<times> sim"

definition sret :: "'a \<Rightarrow> 'a sim_op" where
  "sret a s = (Inr a, s)"

definition slift :: "'a result \<Rightarrow> 'a sim_op" where
  "slift r s = (r, s)"

definition smodify :: "(sim \<Rightarrow> sim) \<Rightarrow> unit sim_op" where
  "smodify f s = (Inr (), f s)"

definition sbind :: "'a sim_op \<Rightarrow> ('a \<Rightarrow> 'b sim_op) \<Rightarrow> 'b sim_op" where
  "sbind m f s = (case m s of (Inl e, s') \<Rightarrow> (Inl e, s') | (Inr a, s') \<Rightarrow> f a s')"

definition sget :: "(sim \<Rightarrow> 'a) \<Rightarrow> 'a sim_op" where
  "sget f s = (Inr (f s), s)"

definition default_balances :: "(string \<times> decimal) list" where
  "default_balances = [(''BTC'', Decimal (10 * scale)), (''ETH'', Decimal (100 * scale)),
     (''USDT'', Decimal (1000000 * scale))]"

definition new_sim :: "venue \<Rightarrow> sim_config \<Rightarrow> token_bucket \<Rightarrow> sim" where
  "new_sim v config limiter =
     \<lparr>sim_venue = v, sim_config = config, sim_limiter = limiter,
      sim_initial_balances = (if sc_initial_balances config = [] then default_balances else sc_initial_balances config),
      sim_orders = [], sim_buffered_reports = [], sim_callbacks = False, sim_connected = False,
      sim_next_exchange_id = 1, sim_next_event_id = 1, sim_next_sequence = 1,
      sim_fill_adjustments = [], sim_frozen = [], sim_published = [], sim_connection_events = []\<rparr>"

section \<open>Balances\<close>

definition split_symbol :: "string \<Rightarrow> string \<times> string" where
  "split_symbol smb =
     (case split_first (CHR ''-'') smb of
        None \<Rightarrow> ([], [])
      | Some (base, quote) \<Rightarrow> if base = [] \<or> quote = [] then ([], []) else (base, quote))"

definition try_emplace :: "string \<Rightarrow> decimal \<Rightarrow> (string \<times> decimal) list \<Rightarrow> (string \<times> decimal) list" where
  "try_emplace k d m = (if map_of m k = None then AList.update k d m else m)"

definition entry :: "(string \<times> decimal) list \<Rightarrow> string \<Rightarrow> decimal" where
  "entry m k = (case map_of m k of None \<Rightarrow> 0 | Some d \<Rightarrow> d)"

definition touch_balances :: "string \<Rightarrow> string \<Rightarrow> unit sim_op" where
  "touch_balances base quote = smodify (\<lambda>s.
     s\<lparr>sim_fill_adjustments := try_emplace quote 0 (try_emplace base 0 (sim_fill_adjustments s)),
       sim_frozen := try_emplace quote 0 (try_emplace base 0 (sim_frozen s))\<rparr>)"

definition set_frozen :: "string \<Rightarrow> decimal \<Rightarrow> unit sim_op" where
  "set_frozen k d = smodify (\<lambda>s. s\<lparr>sim_frozen := AList.update k d (sim_frozen s)\<rparr>)"

definition set_adjustment :: "string \<Rightarrow> decimal \<Rightarrow> unit sim_op" where
  "set_adjustment k d = smodify (\<lambda>s. s\<lparr>sim_fill_adjustments := AList.update k d (sim_fill_adjustments s)\<rparr>)"

text \<open>\<open>f += d\<close> and \<open>f = f > d ? f - d : Decimal{}\<close> on an entry of \<open>frozen_\<close>, and \<open>+=\<close>, \<open>-=\<close> on one of
  \<open>fill_adjustments_\<close>.\<close>

definition freeze :: "string \<Rightarrow> decimal \<Rightarrow> unit sim_op" where
  "freeze k d =
     sbind (sget (\<lambda>s. entry (sim_frozen s) k)) (\<lambda>f. sbind (slift (decimal_add f d)) (set_frozen k))"

definition release :: "string \<Rightarrow> decimal \<Rightarrow> unit sim_op" where
  "release k d =
     sbind (sget (\<lambda>s. entry (sim_frozen s) k)) (\<lambda>f.
       sbind (slift (if f > d then decimal_sub f d else Inr 0)) (set_frozen k))"

definition adjust :: "(decimal \<Rightarrow> decimal \<Rightarrow> decimal result) \<Rightarrow> string \<Rightarrow> decimal \<Rightarrow> unit sim_op" where
  "adjust f k d =
     sbind (sget (\<lambda>s. entry (sim_fill_adjustments s) k)) (\<lambda>x. sbind (slift (f x d)) (set_adjustment k))"

definition apply_balance_place_locked :: "order \<Rightarrow> decimal \<Rightarrow> unit sim_op" where
  "apply_balance_place_locked ord execution_price =
     (case split_symbol (symbol ord) of (base, quote) \<Rightarrow>
        if base = [] then sret ()
        else sbind (touch_balances base quote) (\<lambda>_.
          sbind (slift (decimal_sub (quantity ord) (filled_quantity ord))) (\<lambda>remaining.
            if side ord = Buy
            then sbind (slift (decimal_mult remaining execution_price)) (freeze quote)
            else freeze base remaining)))"

definition apply_balance_release_locked :: "order \<Rightarrow> decimal \<Rightarrow> unit sim_op" where
  "apply_balance_release_locked ord execution_price =
     (case split_symbol (symbol ord) of (base, quote) \<Rightarrow>
        if base = [] then sret ()
        else sbind (slift (decimal_sub (quantity ord) (filled_quantity ord))) (\<lambda>remaining.
          if side ord = Buy
          then sbind (slift (decimal_mult remaining execution_price)) (release quote)
          else release base remaining))"

definition apply_balance_fill_locked :: "order \<Rightarrow> decimal \<Rightarrow> decimal \<Rightarrow> unit sim_op" where
  "apply_balance_fill_locked ord delta_filled fill_price =
     (case split_symbol (symbol ord) of (base, quote) \<Rightarrow>
        if base = [] then sret ()
        else sbind (touch_balances base quote) (\<lambda>_.
          sbind (slift (decimal_mult delta_filled fill_price)) (\<lambda>notional.
            if side ord = Buy
            then sbind (adjust decimal_add base delta_filled) (\<lambda>_.
                 sbind (adjust decimal_sub quote notional) (\<lambda>_. release quote notional))
            else sbind (adjust decimal_sub base delta_filled) (\<lambda>_.
                 sbind (adjust decimal_add quote notional) (\<lambda>_. release base delta_filled)))))"

section \<open>Reports\<close>

definition fill_offset :: "order \<Rightarrow> decimal" where
  "fill_offset ord = (case exchange_fill_offsets ord (exchange_order_id ord) of None \<Rightarrow> 0 | Some d \<Rightarrow> d)"

definition sim_event_id :: "sim \<Rightarrow> order \<Rightarrow> order_status \<Rightarrow> decimal \<Rightarrow> string" where
  "sim_event_id s ord st cumulative =
     ''sim-'' @ venue_to_string (sim_venue s) @ ''-'' @ client_order_id ord @ ''-'' @
     order_status_to_string st @ ''-'' @ to_string cumulative @ ''-v'' @ u64_to_string (version ord) @ ''-'' @
     u64_to_string (sim_next_event_id s)"

definition report_for :: "sim_env \<Rightarrow> order \<Rightarrow> order_status \<Rightarrow> decimal \<Rightarrow> decimal option \<Rightarrow> string \<Rightarrow> u64 option \<Rightarrow>
    execution_report sim_op" where
  "report_for env ord st cumulative last_fill_price event_id0 sequence0 s =
     (let event_id = (if event_id0 = [] then sim_event_id s ord st cumulative else event_id0);
          sequence = (case sequence0 of None \<Rightarrow> sim_next_sequence s | Some q \<Rightarrow> q);
          s' = s\<lparr>sim_next_event_id := (if event_id0 = [] then sim_next_event_id s + 1 else sim_next_event_id s),
                 sim_next_sequence := (if sequence0 = None then sim_next_sequence s + 1 else sim_next_sequence s)\<rparr>
      in (rbind (decimal_sub cumulative (fill_offset ord)) (\<lambda>cum.
          rbind (decimal_sub (quantity ord) (fill_offset ord)) (\<lambda>qty.
            Inr \<lparr>rp_event_id = event_id, rp_client_order_id = client_order_id ord,
                 rp_exchange_order_id = exchange_order_id ord, rp_status = st,
                 rp_cumulative_filled = cum, rp_cumulative_quote = None,
                 rp_last_fill_price = last_fill_price, rp_order_price = price ord,
                 rp_order_quantity = Some qty, rp_sequence = Some sequence,
                 rp_event_time_ms = se_now_ms env, rp_reason = []\<rparr>)), s'))"

definition publish_or_buffer :: "execution_report \<Rightarrow> unit sim_op" where
  "publish_or_buffer rp = smodify (\<lambda>s.
     if \<not> sim_connected s then s\<lparr>sim_buffered_reports := sim_buffered_reports s @ [rp]\<rparr>
     else if sim_callbacks s then s\<lparr>sim_published := sim_published s @ [rp]\<rparr> else s)"

fun publish_all :: "execution_report list \<Rightarrow> unit sim_op" where
  "publish_all [] = sret ()"
| "publish_all (rp # rps) = sbind (publish_or_buffer rp) (\<lambda>_. publish_all rps)"

section \<open>Matching\<close>

definition marketable :: "market_quote \<Rightarrow> order \<Rightarrow> bool" where
  "marketable q ord \<longleftrightarrow> type ord = Market \<or>
     (side ord = Buy \<and> (case price ord of None \<Rightarrow> False | Some p \<Rightarrow> p \<ge> mq_ask_price q)) \<or>
     (side ord = Sell \<and> (case price ord of None \<Rightarrow> False | Some p \<Rightarrow> p \<le> mq_bid_price q))"

definition set_order :: "order \<Rightarrow> string \<Rightarrow> unit sim_op" where
  "set_order ord cid = smodify (\<lambda>s. s\<lparr>sim_orders := AList.update cid ord (sim_orders s)\<rparr>)"

definition match_order :: "sim_env \<Rightarrow> market_quote \<Rightarrow> string \<Rightarrow> order \<Rightarrow> execution_report list sim_op" where
  "match_order env q cid ord =
     (if is_terminal (status ord) \<or> symbol ord \<noteq> mq_symbol q \<or> \<not> marketable q ord then sret []
      else let fill_price = executable_price q (side ord);
               ord' = ord\<lparr>status := Filled, filled_quantity := quantity ord, version := version ord + 1\<rparr> in
        sbind (set_order ord' cid) (\<lambda>_.
        sbind (slift (decimal_sub (quantity ord) (filled_quantity ord))) (\<lambda>delta.
        sbind (apply_balance_fill_locked ord' delta fill_price) (\<lambda>_.
        sbind (report_for env ord' Filled (quantity ord) (Some fill_price) [] None) (\<lambda>rp. sret [rp])))))"

fun match_loop :: "sim_env \<Rightarrow> market_quote \<Rightarrow> (string \<times> order) list \<Rightarrow> execution_report list sim_op" where
  "match_loop env q [] = sret []"
| "match_loop env q ((cid, ord) # rest) =
     sbind (match_order env q cid ord) (\<lambda>rps. sbind (match_loop env q rest) (\<lambda>more. sret (rps @ more)))"

definition match_orders :: "sim_env \<Rightarrow> market_quote \<Rightarrow> unit sim_op" where
  "match_orders env q s =
     (if mq_venue q \<noteq> sim_venue s \<or> \<not> sim_connected s then (Inr (), s)
      else sbind (match_loop env q (sim_orders s)) publish_all s)"

definition match_latest :: "sim_env \<Rightarrow> string \<Rightarrow> unit sim_op" where
  "match_latest env smb s =
     (case se_market_data env of
        None \<Rightarrow> (Inr (), s)
      | Some book \<Rightarrow>
          (case latest book (sim_venue s) smb of
             None \<Rightarrow> (Inr (), s)
           | Some q \<Rightarrow> if fresh book q (se_now_ms env) then match_orders env q s else (Inr (), s)))"

section \<open>Commands\<close>

definition plain_result :: adapter_result where
  "plain_result = \<lparr>ar_accepted = False, ar_outcome_uncertain = False, ar_replacement = False,
     ar_original_order_canceled = False, ar_exchange_order_id = [], ar_exchange_client_order_id = [],
     ar_code = [], ar_message = [], ar_authoritative_reports = []\<rparr>"

definition rejected :: "string \<Rightarrow> string \<Rightarrow> adapter_result" where
  "rejected code message = plain_result\<lparr>ar_code := code, ar_message := message\<rparr>"

definition accepted_as :: "string \<Rightarrow> string \<Rightarrow> adapter_result" where
  "accepted_as exchange_id client_id =
     plain_result\<lparr>ar_accepted := True, ar_exchange_order_id := exchange_id, ar_exchange_client_order_id := client_id\<rparr>"

definition disconnected_result :: adapter_result where
  "disconnected_result = plain_result\<lparr>ar_outcome_uncertain := True, ar_code := ''DISCONNECTED'',
     ar_message := ''venue connection is unavailable''\<rparr>"

definition rate_limited_result :: adapter_result where
  "rate_limited_result = rejected ''RATE_LIMITED'' ''simulated venue request rate exceeded''"

definition sim_acquire :: "sim_env \<Rightarrow> bool sim_op" where
  "sim_acquire env s =
     (case acquire (se_now_ns env) units_per_token (sim_limiter s) of
        (granted, b) \<Rightarrow> (Inr granted, s\<lparr>sim_limiter := b\<rparr>))"

definition sim_prefix :: "venue \<Rightarrow> string" where
  "sim_prefix v = (if v = Okx then ''OKX-SIM-'' else ''BINANCE-SIM-'')"

definition next_exchange_id :: "string \<Rightarrow> string sim_op" where
  "next_exchange_id prefix s =
     (Inr (prefix @ u64_to_string (sim_next_exchange_id s)), s\<lparr>sim_next_exchange_id := sim_next_exchange_id s + 1\<rparr>)"

definition placement_price :: "sim_env \<Rightarrow> sim \<Rightarrow> order \<Rightarrow> decimal" where
  "placement_price env s ord =
     (case price ord of
        Some p \<Rightarrow> p
      | None \<Rightarrow>
          (case se_market_data env of
             None \<Rightarrow> 0
           | Some book \<Rightarrow>
               (case latest book (sim_venue s) (symbol ord) of
                  None \<Rightarrow> 0
                | Some q \<Rightarrow> executable_price q (side ord))))"

definition sim_place_new :: "sim_env \<Rightarrow> order \<Rightarrow> adapter_result sim_op" where
  "sim_place_new env ord =
     sbind (sget (\<lambda>s. s)) (\<lambda>s0.
     sbind (next_exchange_id (sim_prefix (sim_venue s0))) (\<lambda>eid.
     let stored = ord\<lparr>exchange_order_id := eid, status := Live, pending_action := NoAction\<rparr> in
     sbind (set_order stored (client_order_id ord)) (\<lambda>_.
     sbind (apply_balance_place_locked stored (placement_price env s0 stored)) (\<lambda>_.
     sbind (if sc_report_before_ack (sim_config s0)
            then sbind (report_for env ord Live 0 None [] None) publish_or_buffer
            else sret ()) (\<lambda>_.
     sbind (match_latest env (symbol ord)) (\<lambda>_.
     sret (accepted_as eid (client_order_id ord))))))))"

definition sim_place :: "sim_env \<Rightarrow> order \<Rightarrow> adapter_result sim_op" where
  "sim_place env ord s =
     (if \<not> sim_connected s then (Inr disconnected_result, s)
      else if sc_throw_on_place (sim_config s) then (Inl (Runtime_error ''injected place failure''), s)
      else sbind (sim_acquire env) (\<lambda>granted.
        if \<not> granted then sret rate_limited_result
        else sbind (sget (\<lambda>s. map_of (sim_orders s) (client_order_id ord))) (\<lambda>found.
          case found of
            Some stored \<Rightarrow> sret (accepted_as (exchange_order_id stored) (client_order_id stored))
          | None \<Rightarrow> sim_place_new env ord)) s)"

definition limit_price :: "order \<Rightarrow> decimal" where
  "limit_price ord = (case price ord of None \<Rightarrow> 0 | Some p \<Rightarrow> p)"

definition sim_cancel_known :: "sim_env \<Rightarrow> order \<Rightarrow> string \<Rightarrow> adapter_result sim_op" where
  "sim_cancel_known env found cid =
     (if status found = Filled then sret (rejected ''ORDER_FILLED'' ''filled order cannot be canceled'')
      else let stored = found\<lparr>status := Canceled, version := version found + 1\<rparr> in
        sbind (apply_balance_release_locked found (limit_price found)) (\<lambda>_.
        sbind (set_order stored cid) (\<lambda>_.
        sbind (report_for env stored Canceled (filled_quantity stored) None [] None) (\<lambda>rp.
        sbind (publish_or_buffer rp) (\<lambda>_.
        sret (accepted_as (exchange_order_id stored) (client_order_id stored)))))))"

definition sim_cancel :: "sim_env \<Rightarrow> order \<Rightarrow> adapter_result sim_op" where
  "sim_cancel env ord s =
     (if \<not> sim_connected s then (Inr disconnected_result, s)
      else sbind (sim_acquire env) (\<lambda>granted.
        if \<not> granted then sret rate_limited_result
        else sbind (sget (\<lambda>s. map_of (sim_orders s) (client_order_id ord))) (\<lambda>found.
          case found of
            None \<Rightarrow> sret (rejected ''UNKNOWN_ORDER'' ''order not found'')
          | Some stored \<Rightarrow> sim_cancel_known env stored (client_order_id ord))) s)"

definition try_offset :: "string \<Rightarrow> (string \<rightharpoonup> decimal) \<Rightarrow> (string \<rightharpoonup> decimal)" where
  "try_offset k m = (if m k = None then m(k \<mapsto> 0) else m)"

text \<open>The generation that replaces \<open>ord\<close> on Binance, under a new exchange id.\<close>

definition replaced_order :: "order \<Rightarrow> decimal \<Rightarrow> string \<Rightarrow> order" where
  "replaced_order ord target eid =
     ord\<lparr>exchange_order_id_aliases := insert (exchange_order_id ord) (exchange_order_id_aliases ord),
         exchange_fill_offsets := (try_offset (exchange_order_id ord) (exchange_fill_offsets ord))(eid \<mapsto> filled_quantity ord),
         exchange_quote_offsets := (try_offset (exchange_order_id ord) (exchange_quote_offsets ord))(eid \<mapsto> cumulative_quote ord),
         exchange_order_id := eid, quantity := target,
         status := (if filled_quantity ord > 0 then PartiallyFilled else Live)\<rparr>"

definition repriced :: "decimal option \<Rightarrow> order \<Rightarrow> order" where
  "repriced new_price ord =
     ord\<lparr>price := (if new_price = None then price ord else new_price), version := version ord + 1\<rparr>"

definition amend_reply :: "order \<Rightarrow> execution_report list \<Rightarrow> adapter_result" where
  "amend_reply stored reports =
     (accepted_as (exchange_order_id stored) (client_order_id stored))
       \<lparr>ar_replacement := True, ar_original_order_canceled := True, ar_authoritative_reports := reports\<rparr>"

definition sim_replace :: "sim_env \<Rightarrow> order \<Rightarrow> string \<Rightarrow> decimal option \<Rightarrow> decimal option \<Rightarrow> adapter_result sim_op" where
  "sim_replace env found cid new_price new_quantity =
     (let target = (case new_quantity of None \<Rightarrow> quantity found | Some q \<Rightarrow> q) in
      sbind (slift (decimal_sub target (filled_quantity found))) (\<lambda>replacement_quantity.
      if replacement_quantity \<le> 0
      then sret (rejected ''INVALID_REPLACEMENT_QUANTITY''
                   ''replacement quantity must exceed the already-filled quantity'')
      else sbind (next_exchange_id ''BINANCE-SIM-'') (\<lambda>eid.
        let stored = repriced new_price (replaced_order found target eid) in
        sbind (set_order stored cid) (\<lambda>_.
        sbind (report_for env found Canceled (filled_quantity found) None [] None) (\<lambda>canceled.
        sbind (report_for env stored (status stored) (filled_quantity stored) None [] None) (\<lambda>replacement0.
        let replacement = replacement0\<lparr>rp_order_quantity := Some replacement_quantity\<rparr> in
        sbind (sget sim_config) (\<lambda>config.
        if sc_amend_reports_before_ack config
        then sbind (publish_all [canceled, replacement]) (\<lambda>_. sret (amend_reply stored []))
        else if sc_fill_before_replace config
        then sbind (slift (decimal_add (filled_quantity found) (Decimal 1000000))) (\<lambda>raced.
             sbind (report_for env found PartiallyFilled raced (Some (Decimal (50000 * scale))) [] None) (\<lambda>race_fill.
             sret (amend_reply stored [race_fill, canceled, replacement])))
        else sret (amend_reply stored [canceled, replacement]))))))))"

definition sim_modify :: "sim_env \<Rightarrow> order \<Rightarrow> string \<Rightarrow> decimal option \<Rightarrow> decimal option \<Rightarrow> adapter_result sim_op" where
  "sim_modify env found cid new_price new_quantity =
     (let stored = repriced new_price
            (found\<lparr>quantity := (case new_quantity of None \<Rightarrow> quantity found | Some q \<Rightarrow> q)\<rparr>) in
      sbind (set_order stored cid) (\<lambda>_.
      sbind (report_for env stored (status stored) (filled_quantity stored) None [] None) (\<lambda>rp.
      sbind (publish_or_buffer rp) (\<lambda>_.
      sbind (match_latest env (symbol stored)) (\<lambda>_.
      sret (accepted_as (exchange_order_id stored) (client_order_id stored)))))))"

definition sim_amend :: "sim_env \<Rightarrow> order \<Rightarrow> decimal option \<Rightarrow> decimal option \<Rightarrow> adapter_result sim_op" where
  "sim_amend env ord new_price new_quantity s =
     (if \<not> sim_connected s then (Inr disconnected_result, s)
      else sbind (sim_acquire env) (\<lambda>granted.
        if \<not> granted then sret rate_limited_result
        else sbind (sget (\<lambda>s. map_of (sim_orders s) (client_order_id ord))) (\<lambda>known.
          case known of
            None \<Rightarrow> sret (rejected ''UNKNOWN_ORDER'' ''order not found'')
          | Some found \<Rightarrow>
              if is_terminal (status found)
              then sret (rejected ''ORDER_TERMINAL'' ''terminal order cannot be amended'')
              else if sim_venue s = Binance
              then sim_replace env found (client_order_id ord) new_price new_quantity
              else sim_modify env found (client_order_id ord) new_price new_quantity)) s)"

section \<open>Queries\<close>

definition query_report :: "sim_env \<Rightarrow> order \<Rightarrow> order_status \<Rightarrow> execution_report result" where
  "query_report env ord st =
     rbind (decimal_sub (filled_quantity ord) (fill_offset ord)) (\<lambda>cum.
     rbind (decimal_sub (quantity ord) (fill_offset ord)) (\<lambda>qty.
       Inr \<lparr>rp_event_id = [], rp_client_order_id = client_order_id ord,
            rp_exchange_order_id = exchange_order_id ord, rp_status = st,
            rp_cumulative_filled = cum, rp_cumulative_quote = None, rp_last_fill_price = None,
            rp_order_price = price ord, rp_order_quantity = Some qty, rp_sequence = None,
            rp_event_time_ms = se_now_ms env, rp_reason = []\<rparr>))"

definition sim_query :: "sim_env \<Rightarrow> order \<Rightarrow> execution_report option sim_op" where
  "sim_query env ord s =
     (if \<not> sim_connected s then (Inr None, s)
      else sbind (sim_acquire env) (\<lambda>granted.
        if \<not> granted then sret None
        else sbind (sget (\<lambda>s. map_of (sim_orders s) (client_order_id ord))) (\<lambda>known.
          case known of
            None \<Rightarrow> sret None
          | Some found \<Rightarrow> slift (rbind (query_report env found (status found)) (\<lambda>rp. Inr (Some rp))))) s)"

fun open_reports :: "sim_env \<Rightarrow> bool \<Rightarrow> order list \<Rightarrow> execution_report list result" where
  "open_reports env terminal_too [] = Inr []"
| "open_reports env terminal_too (ord # ords) =
     (if is_terminal (status ord) \<and> \<not> terminal_too then open_reports env terminal_too ords
      else rbind (query_report env ord (if is_terminal (status ord) then Live else status ord)) (\<lambda>rp.
           rbind (open_reports env terminal_too ords) (\<lambda>rps. Inr (rp # rps))))"

definition sim_query_open_orders :: "sim_env \<Rightarrow> execution_report list option sim_op" where
  "sim_query_open_orders env s =
     (if \<not> sim_connected s then (Inr None, s)
      else sbind (sim_acquire env) (\<lambda>granted.
        if \<not> granted then sret None
        else slift (rbind (open_reports env (sc_report_terminal_orders_as_open (sim_config s))
               (map snd (sim_orders s))) (\<lambda>rps. Inr (Some rps)))) s)"

fun merge_totals :: "(string \<times> decimal) list \<Rightarrow> (string \<times> decimal) list \<Rightarrow> (string \<times> decimal) list result" where
  "merge_totals totals [] = Inr totals"
| "merge_totals totals ((asset, delta) # rest) =
     rbind (decimal_add (entry totals asset) delta) (\<lambda>t. merge_totals (AList.update asset t totals) rest)"

fun balance_rows :: "(string \<times> decimal) list \<Rightarrow> string option \<Rightarrow> (string \<times> decimal) list \<Rightarrow> account_balance list result" where
  "balance_rows frozen currency [] = Inr []"
| "balance_rows frozen currency ((asset, t) # rest) =
     (if currency \<noteq> None \<and> currency \<noteq> Some asset then balance_rows frozen currency rest
      else let reserved = entry frozen asset in
        rbind (if t > reserved then decimal_sub t reserved else Inr 0) (\<lambda>available.
        rbind (balance_rows frozen currency rest) (\<lambda>rows.
          Inr (\<lparr>ab_currency = asset, ab_total = to_string t, ab_available = to_string available,
                ab_frozen = to_string reserved, ab_order_frozen = to_string reserved\<rparr> # rows))))"

definition balance_failure :: "venue \<Rightarrow> string \<Rightarrow> string \<Rightarrow> balance_query_result" where
  "balance_failure v code message =
     \<lparr>bq_ok = False, bq_code = code, bq_message = message,
      bq_snapshot = \<lparr>bs_venue = v, bs_account_id = [], bs_main_account_id = [], bs_observed_at_ms = 0, bs_balances = []\<rparr>\<rparr>"

definition sim_query_balances :: "sim_env \<Rightarrow> string option \<Rightarrow> balance_query_result sim_op" where
  "sim_query_balances env currency0 s =
     (if \<not> sim_connected s
      then (Inr (balance_failure (sim_venue s) ''DISCONNECTED'' ''simulated venue connection is unavailable''), s)
      else sbind (sim_acquire env) (\<lambda>granted.
        if \<not> granted
        then sret (balance_failure (sim_venue s) ''RATE_LIMITED'' ''simulated venue request rate exceeded'')
        else let currency = map_option (map to_upper) currency0;
                 account = ''SIM-'' @ venue_to_string (sim_venue s) in
          slift (rbind (merge_totals (sim_initial_balances s) (sim_fill_adjustments s)) (\<lambda>totals.
                 rbind (balance_rows (sim_frozen s) currency totals) (\<lambda>rows.
                 Inr \<lparr>bq_ok = True, bq_code = [], bq_message = [],
                      bq_snapshot = \<lparr>bs_venue = sim_venue s, bs_account_id = account, bs_main_account_id = account,
                        bs_observed_at_ms = se_now_ms env, bs_balances = sort_key ab_currency rows\<rparr>\<rparr>)))) s)"

definition blank_rules :: "venue \<Rightarrow> string \<Rightarrow> instrument_rules" where
  "blank_rules v smb =
     \<lparr>ir_venue = v, ir_symbol = smb, ir_status = [], ir_trading = False, ir_minimum_price = None,
      ir_maximum_price = None, ir_price_tick = None, ir_minimum_quantity = None, ir_maximum_quantity = None,
      ir_quantity_step = None, ir_market_minimum_quantity = None, ir_market_maximum_quantity = None,
      ir_market_quantity_step = None, ir_minimum_notional = None, ir_maximum_notional = None,
      ir_market_minimum_notional = None, ir_market_maximum_notional = None, ir_observed_at_ms = 0\<rparr>"

definition sim_rules :: "int \<Rightarrow> venue \<Rightarrow> string \<Rightarrow> instrument_rules" where
  "sim_rules now_ms v smb =
     (let btc = (smb = ''BTC-USDT''); okx = (v = Okx) in
      \<lparr>ir_venue = v, ir_symbol = smb, ir_status = (if okx then ''live'' else ''TRADING''), ir_trading = True,
       ir_minimum_price = Some (Decimal 1000000),
       ir_maximum_price = (if okx then None else Some (Decimal (1000000 * scale))),
       ir_price_tick = Some (if okx \<and> btc then Decimal 10000000 else Decimal 1000000),
       ir_minimum_quantity = Some (if btc then Decimal 1000 else Decimal 10000),
       ir_maximum_quantity = (if okx then None else Some (Decimal (9000 * scale))),
       ir_quantity_step = Some (if okx then (if btc then Decimal 1 else Decimal 100)
                                else (if btc then Decimal 1000 else Decimal 10000)),
       ir_market_minimum_quantity = None,
       ir_market_maximum_quantity = (if okx then Some (Decimal (1000000 * scale)) else None),
       ir_market_quantity_step = None,
       ir_minimum_notional = (if okx then None else Some (Decimal (5 * scale))),
       ir_maximum_notional = Some (if okx then Decimal (20000000 * scale) else Decimal (9000000 * scale)),
       ir_market_minimum_notional = (if okx then None else Some (Decimal (5 * scale))),
       ir_market_maximum_notional = (if okx then Some (Decimal (1000000 * scale)) else None),
       ir_observed_at_ms = now_ms\<rparr>)"

definition sim_query_instrument_rules :: "sim_env \<Rightarrow> string \<Rightarrow> sim \<Rightarrow> instrument_rules_query_result" where
  "sim_query_instrument_rules env smb0 s =
     (if \<not> sim_connected s
      then \<lparr>iq_ok = False, iq_code = ''DISCONNECTED'', iq_message = ''simulated venue connection is unavailable'',
            iq_rules = blank_rules (sim_venue s) smb0\<rparr>
      else let smb = map to_upper smb0 in
        if smb \<noteq> ''BTC-USDT'' \<and> smb \<noteq> ''ETH-USDT''
        then \<lparr>iq_ok = False, iq_code = ''INSTRUMENT_NOT_FOUND'',
              iq_message = ''simulator supports BTC-USDT and ETH-USDT'', iq_rules = blank_rules (sim_venue s) smb\<rparr>
        else \<lparr>iq_ok = True, iq_code = [], iq_message = [], iq_rules = sim_rules (se_now_ms env) (sim_venue s) smb\<rparr>)"

section \<open>Test hook, connection and recovery\<close>

definition sim_emit :: "sim_env \<Rightarrow> string \<Rightarrow> order_status \<Rightarrow> decimal \<Rightarrow> decimal option \<Rightarrow> string \<Rightarrow> u64 option \<Rightarrow> bool sim_op" where
  "sim_emit env cid st cumulative last_fill_price event_id sequence s =
     (case map_of (sim_orders s) cid of
        None \<Rightarrow> (Inr False, s)
      | Some found \<Rightarrow>
          let stored = found\<lparr>filled_quantity := max (filled_quantity found) cumulative, status := st,
                             version := version found + 1\<rparr> in
          sbind (set_order stored cid) (\<lambda>_.
          sbind (report_for env stored st cumulative last_fill_price event_id sequence) (\<lambda>rp.
          sbind (publish_or_buffer rp) (\<lambda>_. sret True))) s)"

definition notify_connection :: "bool \<Rightarrow> string \<Rightarrow> sim \<Rightarrow> sim" where
  "notify_connection up message s =
     (if sim_callbacks s then s\<lparr>sim_connection_events := sim_connection_events s @ [(up, message)]\<rparr> else s)"

definition sim_disconnect :: "sim \<Rightarrow> sim" where
  "sim_disconnect s =
     (if sim_connected s
      then notify_connection False ''simulated exchange disconnected'' (s\<lparr>sim_connected := False\<rparr>) else s)"

definition sim_reconnect :: "sim \<Rightarrow> sim" where
  "sim_reconnect s =
     (let s1 = (if sim_connected s then s else notify_connection True [] (s\<lparr>sim_connected := True\<rparr>)) in
      s1\<lparr>sim_buffered_reports := [],
         sim_published := sim_published s1 @ (if sim_callbacks s1 then sim_buffered_reports s1 else [])\<rparr>)"

fun match_all :: "sim_env \<Rightarrow> market_quote list \<Rightarrow> unit sim_op" where
  "match_all env [] = sret ()"
| "match_all env (q # qs) = sbind (match_orders env q) (\<lambda>_. match_all env qs)"

text \<open>Sorted by symbol, then venue: the slots are in the order of the venues and the sort is stable.\<close>

definition book_snapshot :: "market_data_book \<Rightarrow> market_quote list" where
  "book_snapshot book = sort_key mq_symbol (List.map_filter (read_slot book) [0..<length (bk_quotes book)])"

definition sim_start :: "sim_env \<Rightarrow> unit sim_op" where
  "sim_start env s =
     match_all env (case se_market_data env of None \<Rightarrow> [] | Some book \<Rightarrow> book_snapshot book)
       (notify_connection True [] (s\<lparr>sim_callbacks := True, sim_connected := True\<rparr>))"

definition sim_stop :: "sim \<Rightarrow> sim" where
  "sim_stop s = sim_disconnect s"

definition observe_exchange_id :: "venue \<Rightarrow> string \<Rightarrow> u64 \<Rightarrow> u64" where
  "observe_exchange_id v eid next_id =
     (if \<not> starts_with eid (sim_prefix v) then next_id
      else case from_chars_u64 (drop (length (sim_prefix v)) eid) of
             Some (n, []) \<Rightarrow> max next_id (word_of_int n + 1)
           | _ \<Rightarrow> next_id)"

text \<open>\<open>aliases\<close> lists the elements of the alias set in the order of iteration.\<close>

definition restore_ids :: "(order \<Rightarrow> string list) \<Rightarrow> order \<Rightarrow> unit sim_op" where
  "restore_ids aliases ord = smodify (\<lambda>s.
     s\<lparr>sim_next_exchange_id :=
         fold (observe_exchange_id (sim_venue s)) (exchange_order_id ord # aliases ord) (sim_next_exchange_id s),
       sim_next_sequence := (case last_sequence ord of None \<Rightarrow> sim_next_sequence s
                             | Some q \<Rightarrow> max (sim_next_sequence s) (q + 1))\<rparr>)"

definition restore_fills :: "order \<Rightarrow> decimal \<Rightarrow> unit sim_op" where
  "restore_fills ord ep =
     sbind (apply_balance_fill_locked ord (filled_quantity ord)
              (case average_fill_price ord of None \<Rightarrow> ep | Some p \<Rightarrow> p)) (\<lambda>_.
     case split_symbol (symbol ord) of (base, quote) \<Rightarrow>
       if base = [] then sret ()
       else sbind (slift (decimal_sub (quantity ord) (filled_quantity ord))) (\<lambda>remaining.
         if side ord = Buy
         then sbind (slift (decimal_mult (quantity ord) ep)) (\<lambda>whole.
              sbind (release quote whole) (\<lambda>_.
              sbind (slift (decimal_mult remaining ep)) (freeze quote)))
         else sbind (release base (quantity ord)) (\<lambda>_. freeze base remaining)))"

definition restore_order :: "(order \<Rightarrow> string list) \<Rightarrow> order \<Rightarrow> unit sim_op" where
  "restore_order aliases ord s =
     (if venue ord = sim_venue s \<and> \<not> is_terminal (status ord)
      then let ep = (case price ord of Some p \<Rightarrow> p
                     | None \<Rightarrow> case average_fill_price ord of None \<Rightarrow> 0 | Some p \<Rightarrow> p) in
        sbind (set_order ord (client_order_id ord)) (\<lambda>_.
        sbind (restore_ids aliases ord) (\<lambda>_.
        sbind (apply_balance_place_locked ord ep) (\<lambda>_.
        if is_positive (filled_quantity ord) then restore_fills ord ep else sret ()))) s
      else if venue ord = sim_venue s \<and> is_terminal (status ord) \<and> is_positive (filled_quantity ord)
      then apply_balance_fill_locked ord (filled_quantity ord)
             (case average_fill_price ord of Some p \<Rightarrow> p | None \<Rightarrow> case price ord of None \<Rightarrow> 0 | Some p \<Rightarrow> p) s
      else (Inr (), s))"

fun restore_loop :: "(order \<Rightarrow> string list) \<Rightarrow> order list \<Rightarrow> unit sim_op" where
  "restore_loop aliases [] = sret ()"
| "restore_loop aliases (ord # ords) = sbind (restore_order aliases ord) (\<lambda>_. restore_loop aliases ords)"

text \<open>The two counters are stored after the loop, so an exception leaves them as they were.\<close>

definition sim_restore :: "(order \<Rightarrow> string list) \<Rightarrow> order list \<Rightarrow> unit sim_op" where
  "sim_restore aliases ords s =
     (case restore_loop aliases ords s of
        (Inl e, s') \<Rightarrow> (Inl e, s'\<lparr>sim_next_exchange_id := sim_next_exchange_id s,
                                   sim_next_sequence := sim_next_sequence s\<rparr>)
      | (Inr u, s') \<Rightarrow> (Inr u, s'))"

end
