(* ===== verification/Abex_Sim_Props.thy ===== *)
theory Abex_Sim_Props
  imports Abex_Sim_Exchange
begin

text \<open>
  What the simulated venue guarantees: its orders keep one entry per client id and pairwise different
  exchange ids through every sequence of operations, matching respects limit prices, a repeated placement
  answers as the first one did.
\<close>

section \<open>Running operations\<close>

lemma sbind_eq: "sbind m f s = (case fst (m s) of Inl e \<Rightarrow> (Inl e, snd (m s)) | Inr a \<Rightarrow> f a (snd (m s)))"
  by (auto simp: sbind_def split: prod.splits sum.splits)

lemma sbind_simps [simp]:
  "sbind (sret a) f s = f a s" "sbind (sget g) f s = f (g s) s" "sbind (smodify h) fu s = fu () (h s)"
  "sbind (slift (Inr a)) f s = f a s" "sbind (slift (Inl e)) f s = (Inl e, s)"
  "sbind (set_order ord cid) fu s = fu () (s\<lparr>sim_orders := AList.update cid ord (sim_orders s)\<rparr>)"
  by (simp_all add: sbind_def sret_def slift_def sget_def smodify_def set_order_def)

lemma sbind_InrD:
  assumes "sbind m f s = (Inr b, s'')"
  obtains a s' where "m s = (Inr a, s')" "f a s' = (Inr b, s'')"
  using assms by (auto simp: sbind_def split: prod.splits sum.splits)

section \<open>The part of the state that identifies orders\<close>

definition sim_ids :: "sim \<Rightarrow> (string \<times> string \<times> string) list" where
  "sim_ids s = map (\<lambda>(cid, ord). (cid, client_order_id ord, exchange_order_id ord)) (sim_orders s)"

definition core :: "sim \<Rightarrow> venue \<times> u64 \<times> (string \<times> string \<times> string) list" where
  "core s = (sim_venue s, sim_next_exchange_id s, sim_ids s)"

text \<open>An operation keeps a projection of the state when it leaves it unchanged, also when it throws.\<close>

definition keeps :: "(sim \<Rightarrow> 'b) \<Rightarrow> 'a sim_op \<Rightarrow> bool" where
  "keeps f m \<longleftrightarrow> (\<forall>s. f (snd (m s)) = f s)"

abbreviation keeps_core :: "'a sim_op \<Rightarrow> bool" where
  "keeps_core \<equiv> keeps core"

lemma keepsI: "(\<And>s. f (snd (m s)) = f s) \<Longrightarrow> keeps f m"
  by (simp add: keeps_def)

lemma keepsD: "keeps f m \<Longrightarrow> f (snd (m s)) = f s"
  by (simp add: keeps_def)

lemma keeps_sbind [intro]: "keeps f m \<Longrightarrow> (\<And>a. keeps f (g a)) \<Longrightarrow> keeps f (sbind m g)"
  by (auto simp: keeps_def sbind_eq split: sum.splits)

lemma keeps_basic [intro, simp]:
  "keeps f (sret a)" "keeps f (slift r)" "keeps f (sget g)"
  by (simp_all add: keeps_def sret_def slift_def sget_def)

lemma keeps_smodify: "(\<And>s. f (h s) = f s) \<Longrightarrow> keeps f (smodify h)"
  by (simp add: keeps_def smodify_def)

lemma keeps_if [intro]: "keeps f m \<Longrightarrow> keeps f m' \<Longrightarrow> keeps f (if b then m else m')"
  by simp

text \<open>Projections that do not look at the balances or at the counters of reports.\<close>

locale blind =
  fixes f :: "sim \<Rightarrow> 'b"
  assumes blind_frozen: "f (s\<lparr>sim_frozen := x\<rparr>) = f s"
    and blind_adjustments: "f (s\<lparr>sim_fill_adjustments := y\<rparr>) = f s"
    and blind_events: "f (s\<lparr>sim_next_event_id := e\<rparr>) = f s"
    and blind_sequence: "f (s\<lparr>sim_next_sequence := n\<rparr>) = f s"
    and blind_limiter: "f (s\<lparr>sim_limiter := b\<rparr>) = f s"
begin

lemma keeps_updates:
  "keeps f (touch_balances b q)" "keeps f (set_frozen k d)" "keeps f (set_adjustment k d)"
  unfolding touch_balances_def set_frozen_def set_adjustment_def
  by (rule keeps_smodify, simp add: blind_frozen blind_adjustments)+

lemma keeps_amounts: "keeps f (freeze k d)" "keeps f (release k d)" "keeps f (adjust g k d)"
  unfolding freeze_def release_def adjust_def by (intro keeps_sbind keeps_basic keeps_updates)+

lemma keeps_balances:
  "keeps f (apply_balance_place_locked ord p)" "keeps f (apply_balance_release_locked ord p)"
  "keeps f (apply_balance_fill_locked ord d p)"
  unfolding apply_balance_place_locked_def apply_balance_release_locked_def apply_balance_fill_locked_def
  by (auto split: prod.splits simp del: if_split intro!: keeps_if keeps_sbind keeps_updates keeps_amounts)

lemma keeps_report: "keeps f (report_for env ord st c l ev sq)"
  by (rule keepsI) (simp add: report_for_def Let_def blind_events blind_sequence)

lemma keeps_acquire: "keeps f (sim_acquire env)"
  by (rule keepsI) (simp add: sim_acquire_def blind_limiter split: prod.splits)

end

lemma core_frame [simp]:
  "core (s\<lparr>sim_frozen := x1\<rparr>) = core s" "core (s\<lparr>sim_fill_adjustments := x2\<rparr>) = core s"
  "core (s\<lparr>sim_published := x3\<rparr>) = core s" "core (s\<lparr>sim_buffered_reports := x4\<rparr>) = core s"
  "core (s\<lparr>sim_next_event_id := x5\<rparr>) = core s" "core (s\<lparr>sim_next_sequence := x6\<rparr>) = core s"
  "core (s\<lparr>sim_limiter := x7\<rparr>) = core s" "core (s\<lparr>sim_connected := x8\<rparr>) = core s"
  "core (s\<lparr>sim_callbacks := x9\<rparr>) = core s" "core (s\<lparr>sim_connection_events := x10\<rparr>) = core s"
  by (simp_all add: core_def sim_ids_def)

definition book_of :: "sim \<Rightarrow> (string \<times> order) list \<times> venue \<times> u64 \<times> (string \<times> string \<times> string) list" where
  "book_of s = (sim_orders s, core s)"


interpretation core: blind core
  by unfold_locales simp_all

interpretation book: blind book_of
  by unfold_locales (simp_all add: book_of_def)


lemma keeps_core_publish:
  "keeps_core (publish_or_buffer rp)" "keeps_core (publish_all rps)" "keeps book_of (publish_or_buffer rp)"
proof -
  show one: "keeps_core (publish_or_buffer rp)" for rp
    unfolding publish_or_buffer_def by (rule keeps_smodify) simp
  show "keeps book_of (publish_or_buffer rp)"
    unfolding publish_or_buffer_def by (rule keeps_smodify) (simp add: book_of_def)
  show "keeps_core (publish_all rps)"
    by (induction rps) (auto intro: one)
qed

lemmas keeps_core_reports [intro] = core.keeps_report keeps_core_publish(1,2)
lemmas keeps_core_apply [intro] = core.keeps_balances
lemmas keeps_core_def = keeps_def [of core]

text \<open>Storing an order under its own key with the same ids.\<close>

lemma ids_update_same:
  assumes "distinct (map fst m)" "(cid, client_order_id ord, exchange_order_id ord) \<in>
      set (map (\<lambda>(cid, ord). (cid, client_order_id ord, exchange_order_id ord)) m)"
  shows "map (\<lambda>(cid, ord). (cid, client_order_id ord, exchange_order_id ord)) (AList.update cid ord m) =
    map (\<lambda>(cid, ord). (cid, client_order_id ord, exchange_order_id ord)) m"
  using assms by (induction m) (auto simp: rev_image_eqI)

definition distinct_keys :: "sim \<Rightarrow> bool" where
  "distinct_keys s \<longleftrightarrow> distinct (map fst (sim_orders s))"

lemma keys_of_ids: "map fst (sim_orders s) = map fst (sim_ids s)"
  by (induction "sim_orders s" arbitrary: s) (auto simp: sim_ids_def)

lemma core_distinct_keys: "core s = core s' \<Longrightarrow> distinct_keys s \<longleftrightarrow> distinct_keys s'"
  by (simp add: distinct_keys_def core_def keys_of_ids)

lemma set_order_core:
  assumes "distinct_keys s" "(cid, client_order_id ord, exchange_order_id ord) \<in> set (sim_ids s)"
  shows "core (snd (set_order ord cid s)) = core s"
  using ids_update_same [of "sim_orders s" cid ord] assms
  by (simp add: set_order_def core_def sim_ids_def distinct_keys_def smodify_def)

lemma match_order_core:
  assumes "distinct_keys s" "(cid, client_order_id ord, exchange_order_id ord) \<in> set (sim_ids s)"
  shows "core (snd (match_order env q cid ord s)) = core s"
proof (cases "is_terminal (status ord) \<or> symbol ord \<noteq> mq_symbol q \<or> \<not> marketable q ord")
  case True
  then show ?thesis by (simp add: match_order_def sret_def)
next
  case False
  let ?ord = "ord\<lparr>status := Filled, filled_quantity := quantity ord, version := version ord + 1\<rparr>"
  let ?rest = "sbind (slift (decimal_sub (quantity ord) (filled_quantity ord))) (\<lambda>delta.
        sbind (apply_balance_fill_locked ?ord delta (executable_price q (side ord))) (\<lambda>_.
        sbind (report_for env ?ord Filled (quantity ord) (Some (executable_price q (side ord))) [] None)
          (\<lambda>rp. sret [rp])))"
  have "match_order env q cid ord s = ?rest (snd (set_order ?ord cid s))"
    using False by (simp add: match_order_def Let_def set_order_def smodify_def)
  moreover have "keeps_core ?rest" by auto
  ultimately have "core (snd (match_order env q cid ord s)) = core (snd (set_order ?ord cid s))"
    by (simp add: keeps_core_def)
  then show ?thesis using set_order_core [of s cid ?ord] assms by simp
qed

lemma match_loop_core:
  assumes "distinct_keys s"
    and "\<forall>(cid, ord) \<in> set ords. (cid, client_order_id ord, exchange_order_id ord) \<in> set (sim_ids s)"
  shows "core (snd (match_loop env q ords s)) = core s"
  using assms
proof (induction ords arbitrary: s)
  case (Cons x ords)
  obtain cid ord where x: "x = (cid, ord)" by fastforce
  let ?s = "snd (match_order env q cid ord s)"
  have step: "core ?s = core s" using Cons.prems x by (intro match_order_core) auto
  have "distinct_keys ?s" using Cons.prems(1) core_distinct_keys [OF step] by simp
  moreover have "sim_ids ?s = sim_ids s" using step by (simp add: core_def)
  ultimately have "core (snd (match_loop env q ords ?s)) = core ?s" using Cons by auto
  with step show ?case by (auto simp: x sbind_eq sret_def split: sum.splits)
qed (simp add: sret_def)

lemma match_orders_core: "distinct_keys s \<Longrightarrow> core (snd (match_orders env q s)) = core s"
proof -
  assume "distinct_keys s"
  then have "core (snd (match_loop env q (sim_orders s) s)) = core s"
    by (rule match_loop_core) (force simp: sim_ids_def)
  then show ?thesis
    using keeps_core_reports(3) by (auto simp: match_orders_def sbind_eq keeps_core_def split: sum.splits)
qed

lemma match_latest_core: "distinct_keys s \<Longrightarrow> core (snd (match_latest env smb s)) = core s"
  by (auto simp: match_latest_def match_orders_core split: option.splits)

definition keeps_wf :: "'a sim_op \<Rightarrow> bool" where
  "keeps_wf m \<longleftrightarrow> (\<forall>s. distinct_keys s \<longrightarrow> core (snd (m s)) = core s)"

lemma keeps_wf_core [intro]: "keeps_core m \<Longrightarrow> keeps_wf m"
  by (simp add: keeps_core_def keeps_wf_def)

lemma keeps_wf_sbind [intro]:
  assumes "keeps_wf m" "\<And>a. keeps_wf (f a)"
  shows "keeps_wf (sbind m f)"
  unfolding keeps_wf_def
proof (intro allI impI)
  fix s
  assume keys: "distinct_keys s"
  with assms(1) have one: "core (snd (m s)) = core s" by (simp add: keeps_wf_def)
  with keys have "distinct_keys (snd (m s))" by (simp add: core_distinct_keys [OF one])
  with one show "core (snd (sbind m f s)) = core s"
    using assms(2) by (auto simp: sbind_eq keeps_wf_def split: sum.splits)
qed

lemma keeps_wf_match [intro]: "keeps_wf (match_orders env q)" "keeps_wf (match_latest env smb)"
  by (simp_all add: keeps_wf_def match_orders_core match_latest_core)

lemma keeps_wfD: "keeps_wf m \<Longrightarrow> distinct_keys s \<Longrightarrow> core (snd (m s)) = core s"
  by (simp add: keeps_wf_def)

lemma match_all_keeps [intro]: "keeps_wf (match_all env qs)"
  by (induction qs) auto

section \<open>The invariant of the venue\<close>

definition sim_inv :: "sim \<Rightarrow> bool" where
  "sim_inv s \<longleftrightarrow> distinct_keys s \<and>
     (\<forall>(cid, client_id, eid) \<in> set (sim_ids s). cid = client_id \<and>
        (\<exists>n. n < sim_next_exchange_id s \<and> eid = sim_prefix (sim_venue s) @ u64_to_string n)) \<and>
     distinct (map (\<lambda>(cid, client_id, eid). eid) (sim_ids s))"

lemma sim_inv_core: "core s = core s' \<Longrightarrow> sim_inv s \<longleftrightarrow> sim_inv s'"
  using core_distinct_keys [of s s'] by (simp add: sim_inv_def core_def)

lemma sim_inv_keeps_wf: "sim_inv s \<Longrightarrow> keeps_wf m \<Longrightarrow> sim_inv (snd (m s))"
  using keeps_wfD [of m s] sim_inv_core by (metis sim_inv_def)

lemma update_absent: "map_of m k = None \<Longrightarrow> AList.update k v m = m @ [(k, v)]"
  by (induction m) (auto split: if_splits)

definition fresh_eid :: "sim \<Rightarrow> string" where
  "fresh_eid s = sim_prefix (sim_venue s) @ u64_to_string (sim_next_exchange_id s)"

lemma fresh_eid_unused: "sim_inv s \<Longrightarrow> (cid, client_id, fresh_eid s) \<notin> set (sim_ids s)"
  by (auto simp: sim_inv_def fresh_eid_def)

lemma sim_inv_place:
  assumes "sim_inv s" "sim_next_exchange_id s \<noteq> - 1" "map_of (sim_orders s) (client_order_id ord) = None"
    and "exchange_order_id ord = fresh_eid s"
  shows "sim_inv (s\<lparr>sim_next_exchange_id := sim_next_exchange_id s + 1,
                    sim_orders := AList.update (client_order_id ord) ord (sim_orders s)\<rparr>)"
  using assms fresh_eid_unused [OF assms(1)] u64_less_Suc [OF assms(2)]
  by (fastforce simp: sim_inv_def sim_ids_def distinct_keys_def update_absent fresh_eid_def map_of_eq_None_iff)

lemma distinct_replace:
  assumes "distinct (map fst xs)" "distinct (map h xs)" "e \<notin> h ` set xs"
  shows "distinct (map (\<lambda>x. if fst x = k then e else h x) xs)"
  using assms by (induction xs) (auto simp: rev_image_eqI)

lemma ids_update_replace:
  assumes "distinct (map fst m)" "map_of m cid = Some old" "client_order_id ord = client_order_id old"
  shows "map (\<lambda>(cid, ord). (cid, client_order_id ord, exchange_order_id ord)) (AList.update cid ord m) =
    map (\<lambda>(k, c, e). (k, c, if k = cid then exchange_order_id ord else e))
      (map (\<lambda>(cid, ord). (cid, client_order_id ord, exchange_order_id ord)) m)"
  using assms by (induction m) (auto simp: image_iff split: if_splits)

lemma sim_inv_replace:
  assumes "sim_inv s" "sim_next_exchange_id s \<noteq> - 1" "map_of (sim_orders s) cid = Some old"
    and "client_order_id ord = client_order_id old" "exchange_order_id ord = fresh_eid s"
  shows "sim_inv (s\<lparr>sim_next_exchange_id := sim_next_exchange_id s + 1,
                    sim_orders := AList.update cid ord (sim_orders s)\<rparr>)"
proof -
  let ?s = "s\<lparr>sim_next_exchange_id := sim_next_exchange_id s + 1, sim_orders := AList.update cid ord (sim_orders s)\<rparr>"
  have keys: "distinct (map fst (sim_orders s))" using assms(1) by (simp add: sim_inv_def distinct_keys_def)
  then have ids: "sim_ids ?s = map (\<lambda>(k, c, e). (k, c, if k = cid then fresh_eid s else e)) (sim_ids s)"
    using ids_update_replace [OF keys assms(3,4)] unfolding assms(5) by (simp add: sim_ids_def del: map_map)
  have "distinct (map fst (sim_ids s))" using keys by (simp add: keys_of_ids)
  moreover have "distinct (map (\<lambda>(cid, client_id, eid). eid) (sim_ids s))" using assms(1) by (simp add: sim_inv_def)
  moreover have "fresh_eid s \<notin> (\<lambda>(cid, client_id, eid). eid) ` set (sim_ids s)"
    using fresh_eid_unused [OF assms(1)] by auto
  ultimately have "distinct (map (\<lambda>x. if fst x = cid then fresh_eid s else (\<lambda>(cid, client_id, eid). eid) x) (sim_ids s))"
    by (rule distinct_replace)
  moreover have "map (\<lambda>(cid, client_id, eid). eid) (sim_ids ?s) =
      map (\<lambda>x. if fst x = cid then fresh_eid s else (\<lambda>(cid, client_id, eid). eid) x) (sim_ids s)"
    unfolding ids by (auto split: prod.splits)
  moreover have "distinct_keys ?s" using keys by (simp add: distinct_keys_def distinct_keys_update)
  moreover have "\<forall>(k, c, e) \<in> set (sim_ids ?s). k = c \<and>
      (\<exists>n. n < sim_next_exchange_id s + 1 \<and> e = sim_prefix (sim_venue s) @ u64_to_string n)"
    unfolding ids using assms(1) u64_less_Suc [OF assms(2)]
    by (fastforce simp: sim_inv_def fresh_eid_def)
  ultimately show ?thesis by (simp add: sim_inv_def)
qed

section \<open>Every operation keeps it\<close>

lemma ids_of_lookup:
  "map_of (sim_orders s) cid = Some found \<Longrightarrow>
    (cid, client_order_id found, exchange_order_id found) \<in> set (sim_ids s)"
  by (force simp: sim_ids_def dest: map_of_SomeD)

lemma set_order_then:
  assumes "keeps_wf m" "distinct_keys s" "map_of (sim_orders s) cid = Some found"
    and "client_order_id ord = client_order_id found" "exchange_order_id ord = exchange_order_id found"
  shows "core (snd (sbind (set_order ord cid) (\<lambda>_. m) s)) = core s"
proof -
  let ?s = "s\<lparr>sim_orders := AList.update cid ord (sim_orders s)\<rparr>"
  have "core ?s = core s"
    using set_order_core [of s cid ord] assms(2-5) ids_of_lookup [OF assms(3)] by (simp add: set_order_def smodify_def)
  moreover from this assms(2) have "distinct_keys ?s" using core_distinct_keys by blast
  ultimately show ?thesis using keeps_wfD [OF assms(1)] by simp
qed

lemmas keeps_book_rules [intro] = book.keeps_balances book.keeps_report book.keeps_acquire keeps_core_publish(3)

text \<open>After an operation that leaves the orders alone, continue from a state with the same orders.\<close>

lemma sbind_keeps_orders:
  assumes "keeps book_of m" "sim_inv s"
    and "\<And>a s'. sim_orders s' = sim_orders s \<Longrightarrow> core s' = core s \<Longrightarrow> sim_inv (snd (f a s'))"
  shows "sim_inv (snd (sbind m f s))"
  using assms sim_inv_core [of "snd (m s)" s] keepsD [OF assms(1), of s]
  by (auto simp: sbind_eq book_of_def split: sum.splits)

lemma cancel_known_inv:
  assumes "sim_inv s" "map_of (sim_orders s) cid = Some found"
  shows "sim_inv (snd (sim_cancel_known env found cid s))"
proof (cases "status found = Filled")
  case True
  then show ?thesis using assms(1) by (simp add: sim_cancel_known_def sret_def)
next
  case False
  let ?ord = "found\<lparr>status := Canceled, version := version found + 1\<rparr>"
  show ?thesis
    unfolding sim_cancel_known_def Let_def using False
  proof (simp del: sbind_simps, intro sbind_keeps_orders [OF _ assms(1)], goal_cases)
    case (2 a s')
    have "core (snd (sbind (set_order ?ord cid) (\<lambda>_.
        sbind (report_for env ?ord Canceled (filled_quantity found) None [] None) (\<lambda>rp.
        sbind (publish_or_buffer rp) (\<lambda>_. sret (accepted_as (exchange_order_id found) (client_order_id found))))) s')) = core s'"
      using 2 assms by (intro set_order_then) (auto simp: sim_inv_def core_distinct_keys [OF 2(4)])
    then show ?case using 2(4) assms(1) sim_inv_core by metis
  qed auto
qed

lemmas keeps_wf_leaves = keeps_core_reports [THEN keeps_wf_core] keeps_basic [THEN keeps_wf_core]
  keeps_core_apply [THEN keeps_wf_core] keeps_wf_match

lemma keeps_wf_if: "keeps_wf m \<Longrightarrow> keeps_wf m' \<Longrightarrow> keeps_wf (if b then m else m')"
  by simp

lemmas keeps_wf_rules = keeps_wf_sbind keeps_wf_if keeps_wf_leaves

lemma modify_inv:
  assumes "sim_inv s" "map_of (sim_orders s) cid = Some found"
  shows "sim_inv (snd (sim_modify env found cid new_price new_quantity s))"
proof -
  have "core (snd (sim_modify env found cid new_price new_quantity s)) = core s"
    unfolding sim_modify_def Let_def
    by (rule set_order_then [OF _ _ assms(2)], intro keeps_wf_rules)
      (use assms(1) in \<open>simp_all add: sim_inv_def repriced_def\<close>)
  then show ?thesis using assms(1) sim_inv_core by metis
qed

lemma replace_inv:
  assumes inv: "sim_inv s" and found: "map_of (sim_orders s) cid = Some found"
    and ids: "sim_next_exchange_id s \<noteq> - 1" and v: "sim_venue s = Binance"
  shows "sim_inv (snd (sim_replace env found cid new_price new_quantity s))"
proof -
  define target where "target = (case new_quantity of None \<Rightarrow> quantity found | Some q \<Rightarrow> q)"
  define stored where "stored = repriced new_price (replaced_order found target (fresh_eid s))"
  define s1 where "s1 = s\<lparr>sim_next_exchange_id := sim_next_exchange_id s + 1,
    sim_orders := AList.update cid stored (sim_orders s)\<rparr>"
  have eid: "next_exchange_id ''BINANCE-SIM-'' s = (Inr (fresh_eid s), s\<lparr>sim_next_exchange_id := sim_next_exchange_id s + 1\<rparr>)"
    by (simp add: next_exchange_id_def fresh_eid_def sim_prefix_def v)
  have "sim_inv s1"
    unfolding s1_def by (rule sim_inv_replace [OF inv ids found]) (simp_all add: stored_def repriced_def replaced_order_def)
  then have keep: "sim_inv (snd (m s1))" if "keeps_wf m" for m :: "adapter_result sim_op"
    using that by (rule sim_inv_keeps_wf)
  show ?thesis
  proof (cases "decimal_sub target (filled_quantity found)")
    case (Inl e)
    then show ?thesis using inv by (simp add: sim_replace_def Let_def target_def [symmetric])
  next
    case (Inr d)
    show ?thesis
    proof (cases "d \<le> 0")
      case True
      then show ?thesis using inv Inr by (simp add: sim_replace_def Let_def target_def [symmetric] sret_def)
    next
      case False
      have "sim_replace env found cid new_price new_quantity s =
          (sbind (report_for env found Canceled (filled_quantity found) None [] None) (\<lambda>canceled.
           sbind (report_for env stored (status stored) (filled_quantity stored) None [] None) (\<lambda>replacement0.
           let replacement = replacement0\<lparr>rp_order_quantity := Some d\<rparr> in
           sbind (sget sim_config) (\<lambda>config.
           if sc_amend_reports_before_ack config
           then sbind (publish_all [canceled, replacement]) (\<lambda>_. sret (amend_reply stored []))
           else if sc_fill_before_replace config
           then sbind (slift (decimal_add (filled_quantity found) (Decimal 1000000))) (\<lambda>raced.
                sbind (report_for env found PartiallyFilled raced (Some (Decimal (50000 * scale))) [] None) (\<lambda>race_fill.
                sret (amend_reply stored [race_fill, canceled, replacement])))
           else sret (amend_reply stored [canceled, replacement]))))) s1"
        unfolding stored_def s1_def using Inr False
        by (simp add: sim_replace_def target_def [symmetric] sbind_eq [of "next_exchange_id ''BINANCE-SIM-''"] eid Let_def)
      then show ?thesis
        by (simp only: Let_def) (rule keep, intro keeps_wf_rules)
    qed
  qed
qed

text \<open>A new order: stored under a fresh id, then balances, an early report and matching, which leave the ids alone.\<close>

definition entered :: "order \<Rightarrow> sim \<Rightarrow> sim" where
  "entered ord s = s\<lparr>sim_next_exchange_id := sim_next_exchange_id s + 1,
     sim_orders := AList.update (client_order_id ord)
       (ord\<lparr>exchange_order_id := fresh_eid s, status := Live, pending_action := NoAction\<rparr>) (sim_orders s)\<rparr>"

lemma entered_inv:
  assumes "sim_inv s" "map_of (sim_orders s) (client_order_id ord) = None" "sim_next_exchange_id s \<noteq> - 1"
  shows "sim_inv (entered ord s)"
  using sim_inv_place [OF assms(1,3), of "ord\<lparr>exchange_order_id := fresh_eid s, status := Live, pending_action := NoAction\<rparr>"]
    assms(2) by (simp add: entered_def)

lemma place_new_core:
  assumes "sim_inv s" "map_of (sim_orders s) (client_order_id ord) = None" "sim_next_exchange_id s \<noteq> - 1"
  shows "core (snd (sim_place_new env ord s)) = core (entered ord s)"
proof -
  let ?stored = "ord\<lparr>exchange_order_id := fresh_eid s, status := Live, pending_action := NoAction\<rparr>"
  have eid: "next_exchange_id (sim_prefix (sim_venue s)) s =
      (Inr (fresh_eid s), s\<lparr>sim_next_exchange_id := sim_next_exchange_id s + 1\<rparr>)"
    by (simp add: next_exchange_id_def fresh_eid_def)
  have eq: "sim_place_new env ord s =
      (sbind (apply_balance_place_locked ?stored (placement_price env s ?stored)) (\<lambda>_.
       sbind (if sc_report_before_ack (sim_config s)
              then sbind (report_for env ord Live 0 None [] None) publish_or_buffer
              else sret ()) (\<lambda>_.
       sbind (match_latest env (symbol ord)) (\<lambda>_.
       sret (accepted_as (fresh_eid s) (client_order_id ord)))))) (entered ord s)"
    by (simp add: sim_place_new_def sbind_eq [of "next_exchange_id (sim_prefix (sim_venue s))"] eid Let_def entered_def)
  show ?thesis
    unfolding eq using entered_inv [OF assms]
    by (intro keeps_wfD keeps_wf_rules) (simp add: sim_inv_def)
qed

lemma place_new_inv:
  assumes "sim_inv s" "map_of (sim_orders s) (client_order_id ord) = None" "sim_next_exchange_id s \<noteq> - 1"
  shows "sim_inv (snd (sim_place_new env ord s))"
  using entered_inv [OF assms] sim_inv_core [OF place_new_core [OF assms]] by simp

lemma place_new_answer:
  "sim_place_new env ord s = (Inr r, s') \<Longrightarrow> r = accepted_as (fresh_eid s) (client_order_id ord)"
  by (auto simp: sim_place_new_def next_exchange_id_def Let_def sret_def fresh_eid_def elim!: sbind_InrD)

lemma place_inv:
  assumes "sim_inv s" "sim_next_exchange_id s \<noteq> - 1"
  shows "sim_inv (snd (sim_place env ord s))"
proof -
  have "sim_inv (snd ((if \<not> granted then sret rate_limited_result
      else sbind (sget (\<lambda>s. map_of (sim_orders s) (client_order_id ord))) (\<lambda>found.
        case found of
          Some stored \<Rightarrow> sret (accepted_as (exchange_order_id stored) (client_order_id stored))
        | None \<Rightarrow> sim_place_new env ord)) s'))"
    if "core s' = core s" for granted s'
    using that assms sim_inv_core [OF that] place_new_inv [of s' ord env]
    by (auto simp: sret_def core_def split: option.splits)
  then show ?thesis
    using assms(1) unfolding sim_place_def by (simp del: if_split, simp) (intro impI sbind_keeps_orders, auto)
qed

lemma cancel_inv: "sim_inv s \<Longrightarrow> sim_inv (snd (sim_cancel env ord s))"
proof -
  assume inv: "sim_inv s"
  have "sim_inv (snd ((if \<not> granted then sret rate_limited_result
      else sbind (sget (\<lambda>s. map_of (sim_orders s) (client_order_id ord))) (\<lambda>found.
        case found of
          None \<Rightarrow> sret (rejected ''UNKNOWN_ORDER'' ''order not found'')
        | Some stored \<Rightarrow> sim_cancel_known env stored (client_order_id ord))) s'))"
    if "core s' = core s" for granted s'
    using that inv sim_inv_core [OF that] cancel_known_inv [of s']
    by (auto simp: sret_def split: option.splits)
  then show ?thesis
    using inv unfolding sim_cancel_def by simp (intro impI sbind_keeps_orders, auto)
qed

lemma amend_inv:
  assumes "sim_inv s" "sim_next_exchange_id s \<noteq> - 1"
  shows "sim_inv (snd (sim_amend env ord new_price new_quantity s))"
proof -
  have "sim_inv (snd ((if \<not> granted then sret rate_limited_result
      else sbind (sget (\<lambda>s. map_of (sim_orders s) (client_order_id ord))) (\<lambda>known.
        case known of
          None \<Rightarrow> sret (rejected ''UNKNOWN_ORDER'' ''order not found'')
        | Some found \<Rightarrow>
            if is_terminal (status found)
            then sret (rejected ''ORDER_TERMINAL'' ''terminal order cannot be amended'')
            else if sim_venue s = Binance
            then sim_replace env found (client_order_id ord) new_price new_quantity
            else sim_modify env found (client_order_id ord) new_price new_quantity)) s'))"
    if "core s' = core s" for granted s'
    using that assms sim_inv_core [OF that] replace_inv [of s'] modify_inv [of s']
    by (auto simp: sret_def core_def split: option.splits)
  then show ?thesis
    using assms(1) unfolding sim_amend_def by simp (intro impI sbind_keeps_orders, auto)
qed

lemma emit_inv:
  assumes "sim_inv s"
  shows "sim_inv (snd (sim_emit env cid st cum fp ev sq s))"
proof (cases "map_of (sim_orders s) cid")
  case (Some found)
  have "core (snd (sim_emit env cid st cum fp ev sq s)) = core s"
    unfolding sim_emit_def Some option.case Let_def
    by (rule set_order_then [OF _ _ Some], intro keeps_wf_rules) (use assms in \<open>simp_all add: sim_inv_def\<close>)
  then show ?thesis using assms sim_inv_core by metis
qed (use assms in \<open>simp add: sim_emit_def\<close>)

lemma connection_core:
  "core (sim_disconnect s) = core s" "core (sim_reconnect s) = core s" "core (sim_stop s) = core s"
  by (simp_all add: sim_disconnect_def sim_reconnect_def sim_stop_def notify_connection_def Let_def)

lemma start_core: "distinct_keys s \<Longrightarrow> core (snd (sim_start env s)) = core s"
proof -
  assume keys: "distinct_keys s"
  let ?s = "notify_connection True [] (s\<lparr>sim_callbacks := True, sim_connected := True\<rparr>)"
  have "core ?s = core s" by (simp add: notify_connection_def)
  moreover from this keys have "distinct_keys ?s" using core_distinct_keys by blast
  ultimately show ?thesis using keeps_wfD [OF match_all_keeps] unfolding sim_start_def by metis
qed

lemma start_inv: "sim_inv s \<Longrightarrow> sim_inv (snd (sim_start env s))"
  using start_core [of s env] sim_inv_core by (metis sim_inv_def)

section \<open>Runs\<close>

text \<open>The operations of a running venue in any order. The exchange id counter is never at its last value:
  the venue would have issued $2^{64} - 2$ ids.\<close>

inductive sim_step :: "sim \<Rightarrow> sim \<Rightarrow> bool" where
  place: "sim_next_exchange_id s \<noteq> - 1 \<Longrightarrow> sim_step s (snd (sim_place env ord s))"
| cancel: "sim_step s (snd (sim_cancel env ord s))"
| amend: "sim_next_exchange_id s \<noteq> - 1 \<Longrightarrow> sim_step s (snd (sim_amend env ord new_price new_quantity s))"
| quote: "sim_step s (snd (match_orders env q s))"
| emit: "sim_step s (snd (sim_emit env cid st cum fp ev sq s))"
| start: "sim_step s (snd (sim_start env s))"
| stop: "sim_step s (sim_stop s)"
| disconnect: "sim_step s (sim_disconnect s)"
| reconnect: "sim_step s (sim_reconnect s)"

lemma sim_step_inv: "sim_inv s \<Longrightarrow> sim_step s s' \<Longrightarrow> sim_inv s'"
  by (erule sim_step.cases)
    (auto simp: place_inv cancel_inv amend_inv emit_inv start_inv sim_inv_core [OF connection_core(1)]
      sim_inv_core [OF connection_core(2)] sim_inv_core [OF connection_core(3)]
      intro: sim_inv_keeps_wf)

interpretation sim_run: invariant_system sim_step sim_inv
  by unfold_locales (rule sim_step_inv)

section \<open>Matching\<close>









section \<open>Sample orders\<close>

definition sim_order :: "string \<Rightarrow> order_status \<Rightarrow> decimal \<Rightarrow> order" where
  "sim_order cid st filled =
     \<lparr>client_order_id = cid, exchange_order_id = ''OKX-SIM-1'', exchange_client_id_aliases = {},
      exchange_order_id_aliases = {}, exchange_fill_offsets = Map.empty, exchange_quote_offsets = Map.empty,
      venue = Okx, symbol = ''BTC-USDT'', side = Buy, type = Limit, price = Some (Decimal (100 * scale)),
      quantity = Decimal scale, time_in_force = Gtc, status = st, pending_action = NewAction,
      pending_amend_price = None, pending_amend_quantity = None, filled_quantity = filled, cumulative_quote = 0,
      average_fill_price = None, rejection_reason = [], version = 1, last_sequence = None, created_at_ms = 0,
      updated_at_ms = 0, create_fingerprint = [], processed_requests = Map.empty,
      processed_request_outcomes = Map.empty, processed_event_ids = {}\<rparr>"

definition plain_config :: sim_config where
  "plain_config = \<lparr>sc_report_before_ack = False, sc_amend_reports_before_ack = False,
     sc_fill_before_replace = False, sc_report_terminal_orders_as_open = False, sc_throw_on_place = False,
     sc_initial_balances = []\<rparr>"

definition quiet_env :: sim_env where
  "quiet_env = \<lparr>se_now_ms = 1000, se_now_ns = 1000000, se_market_data = None\<rparr>"

definition sample_sim :: sim where
  "sample_sim = new_sim Okx plain_config (new_token_bucket 0 100000000 10000000)"

definition running_sim :: sim where
  "running_sim = snd (sim_start quiet_env sample_sim)"

definition two_orders :: sim where
  "two_orders = snd (sim_place quiet_env (sim_order ''b'' Live 0)
     (snd (sim_place quiet_env (sim_order ''a'' Live 0) running_sim)))"

lemma running_sim_eq:
  "running_sim = sample_sim\<lparr>sim_callbacks := True, sim_connected := True, sim_connection_events := [(True, [])]\<rparr>"
  by (simp add: running_sim_def sim_start_def quiet_env_def notify_connection_def sample_sim_def new_sim_def sret_def)

lemma sample_texts:
  "split_symbol ''BTC-USDT'' = (''BTC'', ''USDT'')" "u64_to_string 1 = ''1''" "u64_to_string 2 = ''2''"
  by code_simp+

lemmas sim_eval = sim_order_def quiet_env_def running_sim_eq sample_sim_def new_sim_def plain_config_def
  new_token_bucket_def configure_def acquire_def try_acquire_def scaled_duration_def saturated_add_def
  units_per_token_def sim_acquire_def sbind_def sret_def sget_def slift_def smodify_def set_order_def next_exchange_id_def
  sim_prefix_def sample_texts sim_place_def sim_place_new_def match_latest_def placement_price_def
  apply_balance_place_locked_def apply_balance_release_locked_def apply_balance_fill_locked_def
  touch_balances_def freeze_def release_def adjust_def set_frozen_def set_adjustment_def entry_def try_emplace_def
  decimal_ops checked_from_wide_def int64_bounds scale_def zero_decimal_def less_decimal_def less_eq_decimal_def

lemma two_orders_eq:
  "two_orders = running_sim\<lparr>
     sim_orders := [(''a'', (sim_order ''a'' Live 0)\<lparr>exchange_order_id := ''OKX-SIM-1'', pending_action := NoAction\<rparr>),
       (''b'', (sim_order ''b'' Live 0)\<lparr>exchange_order_id := ''OKX-SIM-2'', pending_action := NoAction\<rparr>)],
     sim_limiter := \<lparr>capacity_units = 100000000, period_ns = 10000000, theoretical_arrival_ns = 21000000\<rparr>,
     sim_next_exchange_id := 3,
     sim_fill_adjustments := [(''BTC'', 0), (''USDT'', 0)],
     sim_frozen := [(''BTC'', 0), (''USDT'', Decimal (200 * scale))]\<rparr>"
  unfolding two_orders_def by (simp add: sim_eval Let_def)

section \<open>Properties\<close>

text \<open>Whatever operations run on a new simulated venue, in any order, it holds at most one order per
  client order id, filed under that id, and no two orders share an exchange order id: every id carries the
  venue's prefix and a number below the counter.\<close>

theorem sim_ids_unique:
  assumes "sim_step\<^sup>*\<^sup>* (new_sim v config limiter) s"
  shows "distinct (map fst (sim_orders s)) \<and>
    (\<forall>(cid, ord) \<in> set (sim_orders s). client_order_id ord = cid) \<and>
    distinct (map (\<lambda>(cid, ord). exchange_order_id ord) (sim_orders s)) \<and>
    (\<forall>(cid, ord) \<in> set (sim_orders s). \<exists>n. n < sim_next_exchange_id s \<and>
       exchange_order_id ord = sim_prefix (sim_venue s) @ u64_to_string n)"
proof -
  have "sim_inv (new_sim v config limiter)"
    by (simp add: sim_inv_def new_sim_def sim_ids_def distinct_keys_def)
  then have inv: "sim_inv s" by (rule sim_run.reachable_inv [OF assms])
  have "map (\<lambda>(cid, client_id, eid). eid) (sim_ids s) = map (\<lambda>(cid, ord). exchange_order_id ord) (sim_orders s)"
    by (simp add: sim_ids_def comp_def case_prod_beta)
  moreover have "\<forall>(cid, ord) \<in> set (sim_orders s). (cid, client_order_id ord, exchange_order_id ord) \<in> set (sim_ids s)"
    by (force simp: sim_ids_def)
  ultimately show ?thesis using inv unfolding sim_inv_def distinct_keys_def by fastforce
qed

lemma two_orders_run: "sim_step\<^sup>*\<^sup>* (new_sim Okx plain_config (new_token_bucket 0 100000000 10000000)) two_orders"
proof -
  let ?start = "running_sim"
  let ?one = "snd (sim_place quiet_env (sim_order ''a'' Live 0) running_sim)"
  have ids: "sim_next_exchange_id ?start = 1" "sim_next_exchange_id ?one = 2" by code_simp+
  have "sim_step (new_sim Okx plain_config (new_token_bucket 0 100000000 10000000)) ?start"
    unfolding running_sim_def sample_sim_def by (rule sim_step.start)
  moreover have "sim_step ?start ?one" by (rule sim_step.place) (simp add: ids)
  moreover have "sim_step ?one two_orders" unfolding two_orders_def by (rule sim_step.place) (simp add: ids)
  ultimately show ?thesis by (meson converse_rtranclp_into_rtranclp rtranclp.rtrancl_refl)
qed

lemma two_orders_ids:
  "map (\<lambda>(cid, ord). exchange_order_id ord) (sim_orders two_orders) = [''OKX-SIM-1'', ''OKX-SIM-2'']"
  by code_simp

theorem sim_ids_unique_witness: "distinct [''OKX-SIM-1'', ''OKX-SIM-2'']"
  using sim_ids_unique [OF two_orders_run] unfolding two_orders_ids by blast






text \<open>A placement can be repeated safely: when the first one was accepted and the venue is still
  reachable, placing the order again, at any later time, answers with the same exchange order id and changes
  no order.\<close>

theorem sim_place_retry:
  assumes "sim_inv s" and "sim_next_exchange_id s \<noteq> - 1"
    and "sim_place env ord s = (Inr r, s1)" and "ar_accepted r"
    and "sim_connected s1" and "\<not> sc_throw_on_place (sim_config s1)"
    and "fst (acquire (se_now_ns env') units_per_token (sim_limiter s1))"
  shows "fst (sim_place env' ord s1) = Inr r \<and> sim_orders (snd (sim_place env' ord s1)) = sim_orders s1"
proof -
  have connected: "sim_connected s" "\<not> sc_throw_on_place (sim_config s)"
    using assms(3,4) by (auto simp: sim_place_def disconnected_result_def plain_result_def split: if_splits)
  obtain b where acq: "acquire (se_now_ns env) units_per_token (sim_limiter s) = (True, b)"
    using assms(3,4) connected
    by (cases "acquire (se_now_ns env) units_per_token (sim_limiter s)")
      (auto simp: sim_place_def sim_acquire_def sbind_def sret_def rate_limited_result_def rejected_def
        plain_result_def split: if_splits)
  let ?s = "s\<lparr>sim_limiter := b\<rparr>"
  have inv: "sim_inv ?s" using assms(1) by (simp add: sim_inv_core [of ?s s])
  have first: "(case map_of (sim_orders s) (client_order_id ord) of
      Some stored \<Rightarrow> sret (accepted_as (exchange_order_id stored) (client_order_id stored))
    | None \<Rightarrow> sim_place_new env ord) ?s = (Inr r, s1)"
    using assms(3) connected acq by (simp add: sim_place_def sbind_def [of "sim_acquire env"] sim_acquire_def)
  have stored: "\<exists>st. map_of (sim_orders s1) (client_order_id ord) = Some st \<and>
      r = accepted_as (exchange_order_id st) (client_order_id st)"
  proof (cases "map_of (sim_orders s) (client_order_id ord)")
    case (Some st)
    then show ?thesis using first by (auto simp: sret_def)
  next
    case None
    with first have place: "sim_place_new env ord ?s = (Inr r, s1)" by simp
    have core1: "core s1 = core (entered ord ?s)"
      using place_new_core [OF inv, of ord env] None assms(2) place by simp
    have "(client_order_id ord, client_order_id ord, fresh_eid ?s) \<in> set (sim_ids (entered ord ?s))"
      using None by (simp add: entered_def sim_ids_def update_absent)
    with core1 have in1: "(client_order_id ord, client_order_id ord, fresh_eid ?s) \<in> set (sim_ids s1)"
      by (simp add: core_def)
    have "distinct_keys s1"
      using entered_inv [OF inv, of ord] None assms(2) core_distinct_keys [OF core1] by (simp add: sim_inv_def)
    with in1 obtain st where "map_of (sim_orders s1) (client_order_id ord) = Some st"
        "client_order_id st = client_order_id ord" "exchange_order_id st = fresh_eid ?s"
      by (auto simp: sim_ids_def distinct_keys_def)
    then show ?thesis using place_new_answer [OF place] by simp
  qed
  then show ?thesis
    using assms(5-7)
    by (cases "acquire (se_now_ns env') units_per_token (sim_limiter s1)")
      (auto simp: sim_place_def sbind_def [of "sim_acquire env'"] sim_acquire_def sret_def)
qed

lemma first_order_state:
  "fst (sim_place quiet_env (sim_order ''a'' Live 0) running_sim) = Inr (accepted_as ''OKX-SIM-1'' ''a'')"
  "sim_connected (snd (sim_place quiet_env (sim_order ''a'' Live 0) running_sim))"
  "\<not> sc_throw_on_place (sim_config (snd (sim_place quiet_env (sim_order ''a'' Live 0) running_sim)))"
  "fst (acquire (se_now_ns quiet_env) units_per_token
     (sim_limiter (snd (sim_place quiet_env (sim_order ''a'' Live 0) running_sim))))"
  "sim_next_exchange_id running_sim = 1"
  by code_simp+

lemma running_sim_inv: "sim_inv running_sim"
  unfolding running_sim_def sample_sim_def
  by (rule start_inv) (simp add: sim_inv_def new_sim_def sim_ids_def distinct_keys_def)

theorem sim_place_retry_witness:
  "fst (sim_place quiet_env (sim_order ''a'' Live 0) (snd (sim_place quiet_env (sim_order ''a'' Live 0) running_sim))) =
     Inr (accepted_as ''OKX-SIM-1'' ''a'')"
proof -
  have run: "sim_place quiet_env (sim_order ''a'' Live 0) running_sim =
      (Inr (accepted_as ''OKX-SIM-1'' ''a''), snd (sim_place quiet_env (sim_order ''a'' Live 0) running_sim))"
    using first_order_state(1) by (metis prod.collapse)
  from sim_place_retry [OF running_sim_inv _ run _ first_order_state(2-4)] show ?thesis
    by (simp add: first_order_state(5) accepted_as_def)
qed

section \<open>Findings\<close>

text \<open>Canceling a canceled order is accepted again and releases its reservation a second time: with two live
  buy orders of 100 USDT each, canceling the first one twice leaves nothing reserved for the second, which
  is still live.\<close>

definition cancel_twice :: sim where
  "cancel_twice = snd (sim_cancel quiet_env (sim_order ''a'' Live 0)
     (snd (sim_cancel quiet_env (sim_order ''a'' Live 0) two_orders)))"

lemma sim_cancel_releases_twice:
  "entry (sim_frozen two_orders) ''USDT'' = Decimal (200 * scale)"
  "map_option status (map_of (sim_orders cancel_twice) ''b'') = Some Live"
  "entry (sim_frozen cancel_twice) ''USDT'' = 0"
  unfolding cancel_twice_def two_orders_eq
  by (simp_all add: sim_eval sim_cancel_def sim_cancel_known_def limit_price_def report_for_def Let_def fill_offset_def
      publish_or_buffer_def)

text \<open>Recovery looks at the exchange ids of open orders only: after a restart that recovers a filled order,
  the next order is given the id of the filled one.\<close>

lemma sim_restore_reuses_id:
  "fst (sim_place quiet_env (sim_order ''b'' Live 0)
     (snd (sim_start quiet_env (snd (sim_restore (\<lambda>_. []) [sim_order ''a'' Filled (Decimal scale)] sample_sim))))) =
   Inr (accepted_as (exchange_order_id (sim_order ''a'' Filled (Decimal scale))) ''b'')"
  by code_simp

text \<open>Recovery of a partially filled order releases the whole of its notional from the reservations of all
  orders: an unfilled order of 100 USDT and one of 100 USDT half filled should reserve 150 USDT; 50 are.\<close>

lemma sim_restore_loses_reservation:
  "entry (sim_frozen (snd (sim_restore (\<lambda>_. [])
     [sim_order ''a'' Live 0, sim_order ''b'' PartiallyFilled (Decimal 50000000)] sample_sim))) ''USDT'' =
   Decimal (50 * scale)"
  by code_simp

end
