(* ===== verification/Abex_Venue_Cache.thy ===== *)
theory Abex_Venue_Cache
  imports Abex_Preflight Abex_Transitions
begin

text \<open>
  The cache of instrument rules and balances in front of a venue (\<open>include/abex/application/venue_cache.hpp\<close>).

  The snapshots that readers load atomically are maps; a refresh replaces the whole map under the write
  lock. The adapter is a port: what it answers is an argument, and may be an exception. Each operation takes
  the clock readings it makes. The worker thread is one turn of its loop, on the symbols it collected in
  the order in which it visits them; a stop request ends the turn after a prefix of them.
\<close>

section \<open>State and operations\<close>

type_synonym 'r cache_map = "string \<rightharpoonup> 'r \<times> int"

record venue_cache =
  vc_instrument_ttl :: int
  vc_balance_ttl :: int
  vc_instruments :: "instrument_rules_query_result cache_map"
  vc_balances :: "balance_query_result cache_map"
  vc_pending_symbols :: "string set"

definition new_cache :: "int \<Rightarrow> int \<Rightarrow> venue_cache" where
  "new_cache instrument_ttl balance_ttl =
     \<lparr>vc_instrument_ttl = instrument_ttl, vc_balance_ttl = balance_ttl, vc_instruments = Map.empty,
      vc_balances = Map.empty, vc_pending_symbols = {}\<rparr>"

definition expired :: "int \<Rightarrow> int \<Rightarrow> int \<Rightarrow> bool" where
  "expired now fetched_at ttl \<longleftrightarrow> now - fetched_at > ttl"

definition cache_hit :: "'r cache_map \<Rightarrow> int \<Rightarrow> int \<Rightarrow> string \<Rightarrow> 'r option" where
  "cache_hit m ttl now k =
     (case m k of
        None \<Rightarrow> None
      | Some (r, fetched_at) \<Rightarrow> if expired now fetched_at ttl then None else Some r)"

definition refresh_instrument ::
    "instrument_rules_query_result result \<Rightarrow> int \<Rightarrow> string \<Rightarrow> venue_cache \<Rightarrow>
     instrument_rules_query_result result \<times> venue_cache" where
  "refresh_instrument answer stored_at smb c =
     (case answer of
        Inl e \<Rightarrow> (Inl e, c)
      | Inr r \<Rightarrow> (Inr r, if iq_ok r then c\<lparr>vc_instruments := (vc_instruments c)(smb \<mapsto> (r, stored_at))\<rparr> else c))"

definition balance_key :: "string option \<Rightarrow> string" where
  "balance_key currency = (case currency of None \<Rightarrow> ''*'' | Some k \<Rightarrow> k)"

definition refresh_balance ::
    "balance_query_result result \<Rightarrow> int \<Rightarrow> string option \<Rightarrow> venue_cache \<Rightarrow>
     balance_query_result result \<times> venue_cache" where
  "refresh_balance answer stored_at currency c =
     (case answer of
        Inl e \<Rightarrow> (Inl e, c)
      | Inr r \<Rightarrow> (Inr r, if bq_ok r then c\<lparr>vc_balances := (vc_balances c)(balance_key currency \<mapsto> (r, stored_at))\<rparr>
                         else c))"

definition cache_instrument_rules ::
    "instrument_rules_query_result result \<Rightarrow> int \<Rightarrow> int \<Rightarrow> string \<Rightarrow> venue_cache \<Rightarrow>
     instrument_rules_query_result result \<times> venue_cache" where
  "cache_instrument_rules answer now stored_at smb c =
     (case cache_hit (vc_instruments c) (vc_instrument_ttl c) now smb of
        Some r \<Rightarrow> (Inr r, c)
      | None \<Rightarrow> refresh_instrument answer stored_at smb c)"

definition cache_balances ::
    "balance_query_result result \<Rightarrow> int \<Rightarrow> int \<Rightarrow> string option \<Rightarrow> venue_cache \<Rightarrow>
     balance_query_result result \<times> venue_cache" where
  "cache_balances answer now stored_at currency c =
     (case cache_hit (vc_balances c) (vc_balance_ttl c) now (balance_key currency) of
        Some r \<Rightarrow> (Inr r, c)
      | None \<Rightarrow> refresh_balance answer stored_at currency c)"

definition warm :: "string \<Rightarrow> venue_cache \<Rightarrow> venue_cache" where
  "warm smb c = c\<lparr>vc_pending_symbols := insert smb (vc_pending_symbols c)\<rparr>"

text \<open>What the worker sets out to refresh: the pending symbols and the expired entries.\<close>

definition symbols_due :: "int \<Rightarrow> venue_cache \<Rightarrow> string set" where
  "symbols_due now c = vc_pending_symbols c \<union>
     {smb. \<exists>r t. vc_instruments c smb = Some (r, t) \<and> expired now t (vc_instrument_ttl c)}"

definition balance_keys_due :: "int \<Rightarrow> venue_cache \<Rightarrow> string set" where
  "balance_keys_due now c = {k. \<exists>r t. vc_balances c k = Some (r, t) \<and> expired now t (vc_balance_ttl c)}"

text \<open>A failed query, thrown or answered, leaves the entry alone and the loop goes on.\<close>

fun refresh_symbols ::
    "(string \<Rightarrow> instrument_rules_query_result result) \<Rightarrow> int \<Rightarrow> string list \<Rightarrow> venue_cache \<Rightarrow> venue_cache" where
  "refresh_symbols answers stored_at [] c = c"
| "refresh_symbols answers stored_at (smb # smbs) c =
     refresh_symbols answers stored_at smbs (snd (refresh_instrument (answers smb) stored_at smb c))"

definition currency_of_key :: "string \<Rightarrow> string option" where
  "currency_of_key k = (if k = ''*'' then None else Some k)"

fun refresh_balances ::
    "(string option \<Rightarrow> balance_query_result result) \<Rightarrow> int \<Rightarrow> string list \<Rightarrow> venue_cache \<Rightarrow> venue_cache" where
  "refresh_balances answers stored_at [] c = c"
| "refresh_balances answers stored_at (k # ks) c =
     refresh_balances answers stored_at ks
       (snd (refresh_balance (answers (currency_of_key k)) stored_at (currency_of_key k) c))"

definition worker_turn ::
    "(string \<Rightarrow> instrument_rules_query_result result) \<Rightarrow> (string option \<Rightarrow> balance_query_result result) \<Rightarrow>
     int \<Rightarrow> string list \<Rightarrow> string list \<Rightarrow> venue_cache \<Rightarrow> venue_cache" where
  "worker_turn rules balances stored_at smbs ks c =
     refresh_balances balances stored_at ks
       (refresh_symbols rules stored_at smbs (c\<lparr>vc_pending_symbols := {}\<rparr>))"

section \<open>Where cached answers come from\<close>

text \<open>
  A log of what the venue answered, with the time at which it was stored. An entry of the cache is
  backed by the log when it is a successful answer from it.
\<close>

type_synonym venue_log = "(string \<times> instrument_rules_query_result \<times> int) set \<times>
  (string \<times> balance_query_result \<times> int) set"

definition backed :: "venue_cache \<times> venue_log \<Rightarrow> bool" where
  "backed = (\<lambda>(c, rlog, blog).
     (\<forall>smb r t. vc_instruments c smb = Some (r, t) \<longrightarrow> iq_ok r \<and> (smb, r, t) \<in> rlog) \<and>
     (\<forall>k r t. vc_balances c k = Some (r, t) \<longrightarrow> bq_ok r \<and> (k, r, t) \<in> blog))"

text \<open>Every query of the venue is one step, by a caller that missed or by the worker; asking for a warm
  entry and taking the pending symbols are steps too.\<close>

inductive cache_step :: "venue_cache \<times> venue_log \<Rightarrow> venue_cache \<times> venue_log \<Rightarrow> bool" where
  query_rules: "cache_step (c, rlog, blog)
     (snd (refresh_instrument (Inr r) t smb c), insert (smb, r, t) rlog, blog)"
| query_balances: "cache_step (c, rlog, blog)
     (snd (refresh_balance (Inr b) t currency c), rlog, insert (balance_key currency, b, t) blog)"
| warm: "cache_step (c, log) (warm smb c, log)"
| take_pending: "cache_step (c, log) (c\<lparr>vc_pending_symbols := {}\<rparr>, log)"

lemma cache_step_backed: "backed p \<Longrightarrow> cache_step p p' \<Longrightarrow> backed p'"
  by (erule cache_step.cases)
    (auto simp: backed_def refresh_instrument_def refresh_balance_def warm_def split: if_splits)

interpretation venue_cache: invariant_system cache_step backed
  by unfold_locales (rule cache_step_backed)

lemma new_cache_backed [simp]: "backed (new_cache a b, {}, {})"
  by (simp add: backed_def new_cache_def)

lemma ttl_step: "cache_step p p' \<Longrightarrow> vc_instrument_ttl (fst p') = vc_instrument_ttl (fst p) \<and>
    vc_balance_ttl (fst p') = vc_balance_ttl (fst p)"
  by (erule cache_step.cases) (auto simp: refresh_instrument_def refresh_balance_def warm_def)

lemma ttl_run: "cache_step\<^sup>*\<^sup>* p p' \<Longrightarrow> vc_instrument_ttl (fst p') = vc_instrument_ttl (fst p) \<and>
    vc_balance_ttl (fst p') = vc_balance_ttl (fst p)"
  by (induction rule: rtranclp_induct) (auto simp: ttl_step)

lemma cache_hit_Some:
  "cache_hit m ttl now k = Some r \<longleftrightarrow> (\<exists>t. m k = Some (r, t) \<and> now - t \<le> ttl)"
  by (auto simp: cache_hit_def expired_def split: option.splits)

section \<open>What a worker turn achieves\<close>

lemma refresh_symbols_frame [simp]:
  "vc_instrument_ttl (refresh_symbols answers t smbs c) = vc_instrument_ttl c"
  "vc_balance_ttl (refresh_symbols answers t smbs c) = vc_balance_ttl c"
  "vc_balances (refresh_symbols answers t smbs c) = vc_balances c"
  by (induction smbs arbitrary: c) (auto simp: refresh_instrument_def split: sum.splits)

lemma refresh_balances_frame [simp]:
  "vc_instruments (refresh_balances answers t ks c) = vc_instruments c"
  "vc_instrument_ttl (refresh_balances answers t ks c) = vc_instrument_ttl c"
  "vc_balance_ttl (refresh_balances answers t ks c) = vc_balance_ttl c"
  by (induction ks arbitrary: c) (auto simp: refresh_balance_def split: sum.splits)

lemma refresh_symbols_entry:
  "vc_instruments (refresh_symbols answers t smbs c) smb =
     (if smb \<in> set smbs then (case answers smb of Inr r \<Rightarrow> if iq_ok r then Some (r, t) else vc_instruments c smb
                               | Inl e \<Rightarrow> vc_instruments c smb)
      else vc_instruments c smb)"
  by (induction smbs arbitrary: c) (auto simp: refresh_instrument_def split: sum.splits)

lemma currency_key [simp]: "balance_key (currency_of_key k) = k"
  by (simp add: balance_key_def currency_of_key_def)

lemma refresh_balances_entry:
  "vc_balances (refresh_balances answers t ks c) k =
     (if k \<in> set ks then (case answers (currency_of_key k) of
          Inr r \<Rightarrow> if bq_ok r then Some (r, t) else vc_balances c k | Inl e \<Rightarrow> vc_balances c k)
      else vc_balances c k)"
  by (induction ks arbitrary: c) (auto simp: refresh_balance_def split: sum.splits)

section \<open>Properties\<close>

text \<open>The cache never serves a failure or a stale answer: in every reachable state, what a lookup
  returns without a venue call is a successful answer that the venue gave to the same key, stored no longer
  ago than the time to live; this holds for rules and for balances.\<close>

theorem cache_serves_fresh_answers:
  assumes "cache_step\<^sup>*\<^sup>* (new_cache instrument_ttl balance_ttl, {}, {}) (c, rlog, blog)"
  shows "(cache_hit (vc_instruments c) (vc_instrument_ttl c) now smb = Some r \<longrightarrow>
      iq_ok r \<and> (\<exists>t. (smb, r, t) \<in> rlog \<and> now - t \<le> instrument_ttl)) \<and>
    (cache_hit (vc_balances c) (vc_balance_ttl c) now (balance_key currency) = Some b \<longrightarrow>
      bq_ok b \<and> (\<exists>t. (balance_key currency, b, t) \<in> blog \<and> now - t \<le> balance_ttl))"
proof -
  have "backed (c, rlog, blog)" by (rule venue_cache.reachable_inv [OF assms new_cache_backed])
  moreover have "vc_instrument_ttl c = instrument_ttl" "vc_balance_ttl c = balance_ttl"
    using ttl_run [OF assms] by (simp_all add: new_cache_def)
  ultimately show ?thesis unfolding cache_hit_Some backed_def by blast
qed

definition cached_rules :: instrument_rules_query_result where
  "cached_rules = \<lparr>iq_ok = True, iq_code = [], iq_message = [],
     iq_rules = \<lparr>ir_venue = Okx, ir_symbol = ''BTC-USDT'', ir_status = ''live'', ir_trading = True,
       ir_minimum_price = None, ir_maximum_price = None, ir_price_tick = None, ir_minimum_quantity = None,
       ir_maximum_quantity = None, ir_quantity_step = None, ir_market_minimum_quantity = None,
       ir_market_maximum_quantity = None, ir_market_quantity_step = None, ir_minimum_notional = None,
       ir_maximum_notional = None, ir_market_minimum_notional = None, ir_market_maximum_notional = None,
       ir_observed_at_ms = 1000\<rparr>\<rparr>"

lemma cached_rules_run:
  "cache_step\<^sup>*\<^sup>* (new_cache 30000 5000, {}, {})
     (snd (refresh_instrument (Inr cached_rules) 1000 ''BTC-USDT'' (new_cache 30000 5000)),
      insert (''BTC-USDT'', cached_rules, 1000) {}, {})"
  by (rule r_into_rtranclp) (rule cache_step.query_rules)

theorem cache_serves_fresh_answers_witness:
  "\<exists>t. (''BTC-USDT'', cached_rules, t) \<in> {(''BTC-USDT'', cached_rules, 1000)} \<and> 2000 - t \<le> (30000 :: int)"
  using cache_serves_fresh_answers [OF cached_rules_run, of 2000 "''BTC-USDT''" cached_rules]
  by (simp add: cache_hit_Some refresh_instrument_def new_cache_def cached_rules_def)

text \<open>A symbol that was announced with \<open>warm\<close> is served without a venue call once the worker has
  made a turn over what was due and the venue has answered: for the length of the time to live, a lookup
  returns the venue's answer and leaves the cache alone.\<close>

theorem warm_symbol_is_served:
  assumes "symbols_due turn_at (warm smb c) \<subseteq> set smbs"
    and "rules smb = Inr r" and "iq_ok r" and "now - stored_at \<le> vc_instrument_ttl c"
  shows "cache_instrument_rules answer now later smb (worker_turn rules balances stored_at smbs ks (warm smb c)) =
    (Inr r, worker_turn rules balances stored_at smbs ks (warm smb c))"
proof -
  have "smb \<in> set smbs" using assms(1) by (auto simp: symbols_due_def warm_def)
  then have "cache_hit (vc_instruments (worker_turn rules balances stored_at smbs ks (warm smb c)))
      (vc_instrument_ttl (worker_turn rules balances stored_at smbs ks (warm smb c))) now smb = Some r"
    using assms(2-4) by (simp add: cache_hit_Some worker_turn_def refresh_symbols_entry warm_def)
  then show ?thesis by (simp add: cache_instrument_rules_def)
qed

theorem warm_symbol_is_served_witness:
  "fst (cache_instrument_rules (Inl (Runtime_error ''down'')) 2000 2000 ''BTC-USDT''
     (worker_turn (\<lambda>_. Inr cached_rules) (\<lambda>_. Inl (Runtime_error ''down'')) 1000 [''BTC-USDT''] []
        (warm ''BTC-USDT'' (new_cache 30000 5000)))) = Inr cached_rules"
  using warm_symbol_is_served [of 900 "''BTC-USDT''" "new_cache 30000 5000" "[''BTC-USDT'']" "\<lambda>_. Inr cached_rules"
      cached_rules 2000 1000]
  by (simp add: symbols_due_def warm_def new_cache_def cached_rules_def)

end
