(* ===== verification/Abex_Ring.thy ===== *)
theory Abex_Ring
  imports Abex_Order Abex_Transitions "HOL-Library.Multiset"
begin

unbundle bit_operations_syntax

text \<open>
  The ring for several producers and one consumer (\<open>include/abex/application/mpsc_ring.hpp\<close>).

  A call of \<open>try_push\<close>, \<open>pop_item\<close> or \<open>try_pop\<close> is cut at its atomic operations; what stands between two
  of them (the value of a slot, which belongs to the thread that may touch it) goes with the operation
  before it. Any number of pushes are in progress, a multiset of control points; one pop is. The fields
  \<open>rg_sent\<close> and \<open>rg_received\<close> record the values in the order of the positions claimed and of the values
  returned. The 64-bit positions are natural numbers: a ring would have to carry $2^{64}$ values to wrap.
\<close>

section \<open>State and operations\<close>

record 'a mpsc_ring =
  rg_capacity :: nat
  rg_slots :: "(nat \<times> 'a option) list"
  rg_free :: nat
  rg_items :: nat
  rg_tail :: nat
  rg_head :: nat
  rg_sent :: "'a list"
  rg_received :: "'a list"

definition new_ring :: "nat \<Rightarrow> 'a mpsc_ring result" where
  "new_ring n =
     (if n = 0 \<or> n AND (n - 1) \<noteq> 0
      then Inl (Invalid_argument ''MpscRing capacity must be a power of two'')
      else Inr \<lparr>rg_capacity = n, rg_slots = map (\<lambda>i. (i, None)) [0..<n], rg_free = n, rg_items = 0,
                rg_tail = 0, rg_head = 0, rg_sent = [], rg_received = []\<rparr>)"

definition slot_of :: "'a mpsc_ring \<Rightarrow> nat \<Rightarrow> nat" where
  "slot_of r pos = pos AND (rg_capacity r - 1)"

datatype 'a push =
    PushEnter 'a
  | PushClaim 'a
  | PushSpin 'a nat
  | PushStore nat
  | PushAnnounce

text \<open>One turn of \<open>try_push\<close>: the next control point or the answer. \<open>acquired\<close> is what \<open>try_acquire\<close> answers
  when there is a permit, since it may fail spuriously.\<close>

fun push_turn :: "bool \<Rightarrow> 'a push \<Rightarrow> 'a mpsc_ring \<Rightarrow> 'a mpsc_ring \<times> ('a push + bool)" where
  "push_turn acquired (PushEnter v) r =
     (if acquired \<and> 0 < rg_free r then (r\<lparr>rg_free := rg_free r - 1\<rparr>, Inl (PushClaim v)) else (r, Inr False))"
| "push_turn acquired (PushClaim v) r =
     (r\<lparr>rg_tail := rg_tail r + 1, rg_sent := rg_sent r @ [v]\<rparr>, Inl (PushSpin v (rg_tail r)))"
| "push_turn acquired (PushSpin v pos) r =
     (if fst (rg_slots r ! slot_of r pos) \<noteq> pos then (r, Inl (PushSpin v pos))
      else (r\<lparr>rg_slots := (rg_slots r)[slot_of r pos := (pos, Some v)]\<rparr>, Inl (PushStore pos)))"
| "push_turn acquired (PushStore pos) r =
     (r\<lparr>rg_slots := (rg_slots r)[slot_of r pos := (pos + 1, snd (rg_slots r ! slot_of r pos))]\<rparr>, Inl PushAnnounce)"
| "push_turn acquired PushAnnounce r = (r\<lparr>rg_items := rg_items r + 1\<rparr>, Inr True)"

datatype 'a pop =
    PopWait
  | PopLook
  | PopRecycle 'a
  | PopAdvance 'a
  | PopRelease 'a

text \<open>One turn of \<open>pop_item\<close> (\<open>blocking\<close>) or \<open>try_pop\<close>; \<open>Inr None\<close> is the answer false. The whole is \<open>None\<close>
  where the semaphore blocks, and where an empty optional would be dereferenced.\<close>

fun pop_turn :: "bool \<Rightarrow> bool \<Rightarrow> bool \<Rightarrow> 'a pop \<Rightarrow> 'a mpsc_ring \<Rightarrow> ('a mpsc_ring \<times> ('a pop + 'a option)) option" where
  "pop_turn blocking acquired stop PopWait r =
     (if 0 < rg_items r \<and> (blocking \<or> acquired) then Some (r\<lparr>rg_items := rg_items r - 1\<rparr>, Inl PopLook)
      else if blocking then None else Some (r, Inr None))"
| "pop_turn blocking acquired stop PopLook r =
     (case rg_slots r ! slot_of r (rg_head r) of
        (s, v) \<Rightarrow>
          if s = rg_head r + 1 then
            (case v of
               None \<Rightarrow> None
             | Some x \<Rightarrow> Some (r\<lparr>rg_slots := (rg_slots r)[slot_of r (rg_head r) := (s, None)]\<rparr>, Inl (PopRecycle x)))
          else if blocking \<and> \<not> stop then Some (r, Inl PopLook) else Some (r, Inr None))"
| "pop_turn blocking acquired stop (PopRecycle x) r =
     Some (r\<lparr>rg_slots := (rg_slots r)[slot_of r (rg_head r) :=
             (rg_head r + rg_capacity r, snd (rg_slots r ! slot_of r (rg_head r)))]\<rparr>, Inl (PopAdvance x))"
| "pop_turn blocking acquired stop (PopAdvance x) r = Some (r\<lparr>rg_head := rg_head r + 1\<rparr>, Inl (PopRelease x))"
| "pop_turn blocking acquired stop (PopRelease x) r =
     Some (r\<lparr>rg_free := rg_free r + 1, rg_received := rg_received r @ [x]\<rparr>, Inr (Some x))"

definition wake_consumer :: "'a mpsc_ring \<Rightarrow> 'a mpsc_ring" where
  "wake_consumer r = r\<lparr>rg_items := rg_items r + 1\<rparr>"

section \<open>Powers of two\<close>

lemma power_of_two_nat:
  fixes n :: nat
  assumes "0 < n" "n AND (n - 1) = 0"
  shows "\<exists>k. n = 2 ^ k"
  using assms
proof (induction n rule: less_induct)
  case (less n)
  show ?case
  proof (cases "even n")
    case True
    then obtain m where m: "n = 2 * m" by blast
    with less.prems have "0 < m" by simp
    then have "n - 1 = 2 * (m - 1) + 1" using m by simp
    then have "n AND (n - 1) = 2 * (m AND (m - 1))"
      unfolding m by (simp add: and_rec [of "2 * m"])
    with less.IH [of m] \<open>0 < m\<close> less.prems m obtain k where "m = 2 ^ k" by auto
    then show ?thesis using m by (intro exI [of _ "Suc k"]) simp
  next
    case False
    then obtain m where m: "n = 2 * m + 1" by (auto elim: oddE)
    then have "n AND (n - 1) = 2 * m" by (simp add: and_rec [of "Suc (2 * m)"])
    then show ?thesis using less.prems m by (intro exI [of _ 0]) simp
  qed
qed

lemma slot_of_mod: "rg_capacity r = 2 ^ k \<Longrightarrow> slot_of r pos = pos mod rg_capacity r"
  by (simp add: slot_of_def flip: take_bit_eq_mod) (simp add: take_bit_eq_mask mask_eq_exp_minus_1)

section \<open>Invariant\<close>

fun claiming :: "'a push \<Rightarrow> bool" where
  "claiming (PushClaim _) \<longleftrightarrow> True"
| "claiming _ \<longleftrightarrow> False"

text \<open>The position whose slot a push is about to publish.\<close>

fun position :: "'a push \<Rightarrow> nat option" where
  "position (PushSpin _ pos) = Some pos"
| "position (PushStore pos) = Some pos"
| "position _ = None"

fun unannounced_push :: "'a push \<Rightarrow> bool" where
  "unannounced_push (PushSpin _ _) \<longleftrightarrow> True"
| "unannounced_push (PushStore _) \<longleftrightarrow> True"
| "unannounced_push PushAnnounce \<longleftrightarrow> True"
| "unannounced_push _ \<longleftrightarrow> False"

fun owed :: "'a pop \<Rightarrow> nat" where
  "owed (PopRelease _) = 1"
| "owed _ = 0"

fun permit :: "'a pop \<Rightarrow> nat" where
  "permit PopLook = 1"
| "permit (PopRecycle _) = 1"
| "permit (PopAdvance _) = 1"
| "permit _ = 0"

abbreviation number :: "('a push \<Rightarrow> bool) \<Rightarrow> 'a push multiset \<Rightarrow> nat" where
  "number f P \<equiv> size (filter_mset f P)"

abbreviation publishing :: "nat \<Rightarrow> 'a push multiset \<Rightarrow> nat" where
  "publishing pos P \<equiv> number (\<lambda>p. position p = Some pos) P"

fun push_ok :: "'a mpsc_ring \<Rightarrow> 'a push \<Rightarrow> bool" where
  "push_ok r (PushSpin v pos) \<longleftrightarrow> rg_head r \<le> pos \<and> pos < rg_tail r \<and> v = rg_sent r ! pos"
| "push_ok r (PushStore pos) \<longleftrightarrow> rg_head r \<le> pos \<and> pos < rg_tail r"
| "push_ok r _ \<longleftrightarrow> True"

fun pop_ok :: "'a mpsc_ring \<Rightarrow> 'a push multiset \<Rightarrow> 'a pop \<Rightarrow> bool" where
  "pop_ok r P (PopRecycle x) \<longleftrightarrow> rg_head r < rg_tail r \<and> x = rg_sent r ! rg_head r \<and> publishing (rg_head r) P = 0"
| "pop_ok r P (PopAdvance x) \<longleftrightarrow> rg_head r < rg_tail r \<and> x = rg_sent r ! rg_head r \<and> publishing (rg_head r) P = 0"
| "pop_ok r P (PopRelease x) \<longleftrightarrow> 0 < rg_head r \<and> x = rg_sent r ! (rg_head r - 1)"
| "pop_ok r P _ \<longleftrightarrow> True"

text \<open>What the slot of a position of the window holds.\<close>

definition content :: "'a mpsc_ring \<Rightarrow> 'a push multiset \<Rightarrow> 'a pop \<Rightarrow> nat \<Rightarrow> nat \<times> 'a option" where
  "content r P c pos =
     (if pos = rg_head r \<and> (\<exists>x. c = PopRecycle x) then (pos + 1, None)
      else if pos = rg_head r \<and> (\<exists>x. c = PopAdvance x) then (pos + rg_capacity r, None)
      else if rg_tail r \<le> pos \<or> (\<exists>v. PushSpin v pos \<in># P) then (pos, None)
      else if PushStore pos \<in># P then (pos, Some (rg_sent r ! pos))
      else (pos + 1, Some (rg_sent r ! pos)))"

definition ring_inv :: "'a mpsc_ring \<Rightarrow> 'a push multiset \<Rightarrow> 'a pop \<Rightarrow> bool" where
  "ring_inv r P c \<longleftrightarrow>
     (\<exists>k. rg_capacity r = 2 ^ k) \<and> length (rg_slots r) = rg_capacity r \<and> length (rg_sent r) = rg_tail r \<and>
     rg_head r \<le> rg_tail r \<and>
     rg_free r + number claiming P + (rg_tail r - rg_head r) + owed c = rg_capacity r \<and>
     rg_received r = take (rg_head r - owed c) (rg_sent r) \<and>
     (\<forall>p \<in># P. push_ok r p) \<and> pop_ok r P c \<and> (\<forall>pos. publishing pos P \<le> 1) \<and>
     (\<forall>pos. rg_head r \<le> pos \<and> pos < rg_head r + rg_capacity r \<longrightarrow> rg_slots r ! (pos mod rg_capacity r) = content r P c pos)"

text \<open>Every published value is covered by a permit of the consumer, or will be.\<close>

definition covered :: "'a mpsc_ring \<Rightarrow> 'a push multiset \<Rightarrow> 'a pop \<Rightarrow> bool" where
  "covered r P c \<longleftrightarrow> rg_tail r - rg_head r \<le> rg_items r + permit c + number unannounced_push P"

lemma ring_invD:
  assumes "ring_inv r P c"
  shows "\<exists>k. rg_capacity r = 2 ^ k" "length (rg_slots r) = rg_capacity r" "length (rg_sent r) = rg_tail r"
    "rg_head r \<le> rg_tail r"
    "rg_free r + number claiming P + (rg_tail r - rg_head r) + owed c = rg_capacity r"
    "rg_received r = take (rg_head r - owed c) (rg_sent r)"
    "\<And>p. p \<in># P \<Longrightarrow> push_ok r p" "pop_ok r P c" "\<And>pos. publishing pos P \<le> 1"
    "\<And>pos. rg_head r \<le> pos \<Longrightarrow> pos < rg_head r + rg_capacity r \<Longrightarrow>
       rg_slots r ! (pos mod rg_capacity r) = content r P c pos"
    "\<And>pos. slot_of r pos = pos mod rg_capacity r" "0 < rg_capacity r"
  using assms slot_of_mod unfolding ring_inv_def by (blast | fastforce)+

lemma not_publishing:
  assumes "publishing pos P = 0"
  shows "PushSpin v pos \<notin># P" "PushStore pos \<notin># P"
  using assms by (auto simp: size_eq_0_iff_empty filter_mset_eq_mempty_iff)

lemma new_ring_inv: "new_ring n = Inr r \<Longrightarrow> ring_inv r {#} PopWait \<and> covered r {#} PopWait"
  using power_of_two_nat [of n] by (auto simp: new_ring_def ring_inv_def covered_def content_def split: if_splits)

text \<open>The slot of a push in progress is the one its position names, untouched by the consumer.\<close>

lemma push_slot:
  assumes "ring_inv r P c" "p \<in># P" "position p = Some pos"
  shows "rg_head r \<le> pos" "pos < rg_tail r" "pos < rg_head r + rg_capacity r"
    "pos = rg_head r \<Longrightarrow> c \<noteq> PopRecycle x \<and> c \<noteq> PopAdvance x"
    "slot_of r pos < length (rg_slots r)"
proof -
  note d = ring_invD [OF assms(1)]
  show h: "rg_head r \<le> pos" and t: "pos < rg_tail r" using d(7) [OF assms(2)] assms(3) by (cases p; auto)+
  then show "pos < rg_head r + rg_capacity r" using d(5) by linarith
  have "publishing pos P \<noteq> 0" using assms(2,3) by (auto simp: size_eq_0_iff_empty filter_mset_eq_mempty_iff)
  then show "pos = rg_head r \<Longrightarrow> c \<noteq> PopRecycle x \<and> c \<noteq> PopAdvance x" using d(8) by auto
  show "slot_of r pos < length (rg_slots r)" using d(2,11,12) by simp
qed

text \<open>A push never waits for its slot: the permit it holds says that the consumer has recycled it.\<close>

lemma push_slot_ready:
  assumes "ring_inv r P c" "PushSpin v pos \<in># P"
  shows "rg_slots r ! slot_of r pos = (pos, None)"
proof -
  note d = ring_invD [OF assms(1)]
  note s = push_slot [OF assms, of pos, simplified]
  have "rg_slots r ! slot_of r pos = content r P c pos" using d(10) [OF s(1,3)] d(11) by simp
  then show ?thesis using s(4) assms(2) by (auto simp: content_def)
qed


lemma push_ok_frame [simp]:
  "push_ok (r\<lparr>rg_slots := x1\<rparr>) p = push_ok r p"
  "push_ok (r\<lparr>rg_free := x2\<rparr>) p = push_ok r p"
  "push_ok (r\<lparr>rg_items := x3\<rparr>) p = push_ok r p"
  "push_ok (r\<lparr>rg_received := x4\<rparr>) p = push_ok r p"
  by (cases p; simp)+

lemma pop_ok_frame [simp]:
  "pop_ok (r\<lparr>rg_slots := x1\<rparr>) P c = pop_ok r P c"
  "pop_ok (r\<lparr>rg_free := x2\<rparr>) P c = pop_ok r P c"
  "pop_ok (r\<lparr>rg_items := x3\<rparr>) P c = pop_ok r P c"
  "pop_ok (r\<lparr>rg_received := x4\<rparr>) P c = pop_ok r P c"
  by (cases c; simp)+

lemma content_frame [simp]:
  "content (r\<lparr>rg_slots := x1\<rparr>) = content r"
  "content (r\<lparr>rg_free := x2\<rparr>) = content r"
  "content (r\<lparr>rg_items := x3\<rparr>) = content r"
  "content (r\<lparr>rg_received := x4\<rparr>) = content r"
  by (intro ext; auto simp: content_def)+

lemma pop_ok_push:
  assumes "pop_ok r (add_mset p P) c" "position p' = position p"
  shows "pop_ok r (add_mset p' P) c"
  using assms by (cases c) (auto split: if_splits)

lemma pop_ok_less: "pop_ok r (add_mset p P) c \<Longrightarrow> pop_ok r P c"
  by (cases c) (auto split: if_splits)

text \<open>Writing the slot of a position changes the contents of that position only.\<close>

lemma slots_update:
  assumes inv: "ring_inv r P c" and pos: "rg_head r \<le> pos" "pos < rg_head r + rg_capacity r"
    and new: "content r' P' c' pos = y"
    and old: "\<And>q. rg_head r \<le> q \<Longrightarrow> q < rg_head r + rg_capacity r \<Longrightarrow> q \<noteq> pos \<Longrightarrow> content r' P' c' q = content r P c q"
  shows "\<forall>q. rg_head r \<le> q \<and> q < rg_head r + rg_capacity r \<longrightarrow>
    (rg_slots r)[slot_of r pos := y] ! (q mod rg_capacity r) = content r' P' c' q"
proof (intro allI impI)
  fix q
  assume q: "rg_head r \<le> q \<and> q < rg_head r + rg_capacity r"
  note d = ring_invD [OF inv]
  show "(rg_slots r)[slot_of r pos := y] ! (q mod rg_capacity r) = content r' P' c' q"
  proof (cases "q = pos")
    case True
    then show ?thesis using new d(2,11,12) by simp
  next
    case False
    then have "q mod rg_capacity r \<noteq> slot_of r pos"
      using mod_window_inj [of "rg_head r" q "rg_capacity r" pos] q pos d(11) by simp
    then show ?thesis using d(10) [of q] old [of q] q False by simp
  qed
qed

lemma push_enter_inv:
  assumes "ring_inv r (add_mset (PushEnter v) P) c"
  shows "0 < rg_free r \<Longrightarrow> ring_inv (r\<lparr>rg_free := rg_free r - 1\<rparr>) (add_mset (PushClaim v) P) c"
    "ring_inv r P c"
  using assms pop_ok_less [of r "PushEnter v" P c] pop_ok_push [of r "PushEnter v" P c "PushClaim v"]
  unfolding ring_inv_def by (auto simp: content_def)

lemma push_announce_inv:
  assumes "ring_inv r (add_mset PushAnnounce P) c"
  shows "ring_inv (r\<lparr>rg_items := rg_items r + 1\<rparr>) P c"
  using assms pop_ok_less [of r PushAnnounce P c] unfolding ring_inv_def by (auto simp: content_def)


lemma push_claim_inv:
  assumes inv: "ring_inv r (add_mset (PushClaim v) P) c"
  shows "ring_inv (r\<lparr>rg_tail := rg_tail r + 1, rg_sent := rg_sent r @ [v]\<rparr>) (add_mset (PushSpin v (rg_tail r)) P) c"
    (is "ring_inv ?r ?P c")
proof -
  note d = ring_invD [OF inv]
  have ok: "push_ok r p" if "p \<in># P" for p using d(7) that by simp
  have fresh: "publishing (rg_tail r) P = 0" using ok by (fastforce elim: position.elims)
  have "push_ok ?r p" if "p \<in># P" for p using ok [OF that] d(3) by (cases p) (auto simp: nth_append)
  moreover have "pop_ok ?r ?P c"
    using pop_ok_less [OF d(8)] d(3,4) by (cases c) (auto simp: nth_append)
  moreover have "publishing pos ?P \<le> 1" for pos using fresh d(9) [of pos] by (cases "pos = rg_tail r") auto
  moreover have "content ?r ?P c pos = content r (add_mset (PushClaim v) P) c pos" for pos
    using d(3,4,8) by (cases c) (auto simp: content_def nth_append)
  ultimately show ?thesis using d unfolding ring_inv_def by (simp add: Suc_diff_le nth_append)
qed

lemma push_spin_inv:
  assumes inv: "ring_inv r (add_mset (PushSpin v pos) P) c"
  shows "ring_inv (r\<lparr>rg_slots := (rg_slots r)[slot_of r pos := (pos, Some v)]\<rparr>) (add_mset (PushStore pos) P) c"
proof -
  note d = ring_invD [OF inv]
  note s = push_slot [OF inv, of "PushSpin v pos" pos, simplified]
  have alone: "publishing pos P = 0" using d(9) [of pos] by simp
  have v: "v = rg_sent r ! pos" using d(7) [of "PushSpin v pos"] by simp
  have "\<forall>q. rg_head r \<le> q \<and> q < rg_head r + rg_capacity r \<longrightarrow>
    (rg_slots r)[slot_of r pos := (pos, Some v)] ! (q mod rg_capacity r) = content r (add_mset (PushStore pos) P) c q"
    using s(1-4) not_publishing [OF alone] v by (intro slots_update [OF inv]) (auto simp: content_def)
  moreover have "pop_ok r (add_mset (PushStore pos) P) c" by (rule pop_ok_push [OF d(8)]) simp
  moreover have "publishing q (add_mset (PushStore pos) P) \<le> 1" for q using d(9) [of q] by (cases "q = pos") auto
  ultimately show ?thesis using d unfolding ring_inv_def by (simp add: s)
qed

lemma push_store_inv:
  assumes inv: "ring_inv r (add_mset (PushStore pos) P) c"
  shows "ring_inv (r\<lparr>rg_slots := (rg_slots r)[slot_of r pos := (pos + 1, snd (rg_slots r ! slot_of r pos))]\<rparr>)
    (add_mset PushAnnounce P) c"
proof -
  note d = ring_invD [OF inv]
  note s = push_slot [OF inv, of "PushStore pos" pos, simplified]
  have alone: "publishing pos P = 0" using d(9) [of pos] by simp
  have "rg_slots r ! slot_of r pos = content r (add_mset (PushStore pos) P) c pos" using d(10) [OF s(1,3)] d(11) by simp
  then have stored: "snd (rg_slots r ! slot_of r pos) = Some (rg_sent r ! pos)"
    using s(2,4) not_publishing [OF alone] by (auto simp: content_def)
  have "\<forall>q. rg_head r \<le> q \<and> q < rg_head r + rg_capacity r \<longrightarrow>
    (rg_slots r)[slot_of r pos := (pos + 1, Some (rg_sent r ! pos))] ! (q mod rg_capacity r) =
    content r (add_mset PushAnnounce P) c q"
    using s(1-4) not_publishing [OF alone] by (intro slots_update [OF inv]) (auto simp: content_def)
  moreover have "pop_ok r (add_mset PushAnnounce P) c"
    using pop_ok_less [OF d(8)] by (cases c) simp_all
  moreover have "publishing q P \<le> 1" for q by (rule le_trans [OF _ d(9) [of q]]) simp
  ultimately show ?thesis using d unfolding ring_inv_def stored by simp
qed


text \<open>The state of a thread after a turn.\<close>

fun after_push :: "'a push + bool \<Rightarrow> 'a push multiset" where
  "after_push (Inl p) = {#p#}"
| "after_push (Inr _) = {#}"

fun after_pop :: "'a pop + 'a option \<Rightarrow> 'a pop" where
  "after_pop (Inl c) = c"
| "after_pop (Inr _) = PopWait"

lemma push_keeps_inv:
  assumes "ring_inv r (add_mset p P) c" "push_turn acquired p r = (r', y)"
  shows "ring_inv r' (after_push y + P) c"
proof (cases p)
  case (PushEnter v)
  with assms show ?thesis using push_enter_inv [of r v P c] by (auto split: if_splits)
next
  case (PushSpin v pos)
  with assms show ?thesis using push_spin_inv [of r v pos P c] push_slot_ready [of r "add_mset p P" c v pos] by auto
qed (use assms push_claim_inv [of r _ P c] push_store_inv [of r _ P c] push_announce_inv [of r P c] in auto)

lemma push_keeps_covered:
  assumes "ring_inv r (add_mset p P) c" "covered r (add_mset p P) c" "push_turn acquired p r = (r', y)"
  shows "covered r' (after_push y + P) c"
  using assms ring_invD(4) [OF assms(1)] by (cases p) (auto simp: covered_def split: if_splits)

lemma pop_look_inv:
  assumes inv: "ring_inv r P PopLook" and found: "rg_slots r ! slot_of r (rg_head r) = (rg_head r + 1, Some x)"
  shows "ring_inv (r\<lparr>rg_slots := (rg_slots r)[slot_of r (rg_head r) := (rg_head r + 1, None)]\<rparr>) P (PopRecycle x)"
proof -
  note d = ring_invD [OF inv]
  have "content r P PopLook (rg_head r) = (rg_head r + 1, Some x)"
    using found d(10) [of "rg_head r"] d(11,12) by simp
  then have full: "rg_head r < rg_tail r" "x = rg_sent r ! rg_head r" "\<forall>v. PushSpin v (rg_head r) \<notin># P"
      "PushStore (rg_head r) \<notin># P"
    by (auto simp: content_def split: if_splits)
  then have free: "publishing (rg_head r) P = 0" by (auto elim: position.elims)
  have "\<forall>q. rg_head r \<le> q \<and> q < rg_head r + rg_capacity r \<longrightarrow>
    (rg_slots r)[slot_of r (rg_head r) := (rg_head r + 1, None)] ! (q mod rg_capacity r) = content r P (PopRecycle x) q"
    using d(12) by (intro slots_update [OF inv]) (auto simp: content_def)
  then show ?thesis using d full(1,2) free unfolding ring_inv_def by simp
qed

lemma pop_recycle_inv:
  assumes inv: "ring_inv r P (PopRecycle x)"
  shows "ring_inv (r\<lparr>rg_slots := (rg_slots r)[slot_of r (rg_head r) :=
      (rg_head r + rg_capacity r, snd (rg_slots r ! slot_of r (rg_head r)))]\<rparr>) P (PopAdvance x)"
proof -
  note d = ring_invD [OF inv]
  have "rg_slots r ! slot_of r (rg_head r) = (rg_head r + 1, None)"
    using d(10) [of "rg_head r"] d(11,12) by (simp add: content_def)
  moreover have "\<forall>q. rg_head r \<le> q \<and> q < rg_head r + rg_capacity r \<longrightarrow>
    (rg_slots r)[slot_of r (rg_head r) := (rg_head r + rg_capacity r, None)] ! (q mod rg_capacity r) =
    content r P (PopAdvance x) q"
    using d(12) by (intro slots_update [OF inv]) (auto simp: content_def)
  ultimately show ?thesis using d unfolding ring_inv_def by simp
qed

lemma pop_advance_inv:
  assumes inv: "ring_inv r P (PopAdvance x)"
  shows "ring_inv (r\<lparr>rg_head := rg_head r + 1\<rparr>) P (PopRelease x)" (is "ring_inv ?r P _")
proof -
  note d = ring_invD [OF inv]
  have head: "rg_head r < rg_tail r" "x = rg_sent r ! rg_head r" "publishing (rg_head r) P = 0" using d(8) by simp_all
  have "push_ok ?r p" if "p \<in># P" for p
    using d(7) [OF that] head(3) that by (cases p) (auto simp: le_less)
  moreover have "rg_slots r ! (q mod rg_capacity r) = content ?r P (PopRelease x) q"
    if "rg_head r < q" "q \<le> rg_head r + rg_capacity r" for q
  proof (cases "q = rg_head r + rg_capacity r")
    case True
    then have "rg_slots r ! (q mod rg_capacity r) = content r P (PopAdvance x) (rg_head r)"
      using d(10) [of "rg_head r"] d(12) by simp
    moreover have "rg_tail r \<le> q" using True d(5) by linarith
    ultimately show ?thesis using True by (simp add: content_def)
  next
    case False
    then show ?thesis using d(10) [of q] that by (auto simp: content_def)
  qed
  moreover have "rg_tail r - rg_head r = Suc (rg_tail r - Suc (rg_head r))" using head(1) by simp
  ultimately show ?thesis using d head(1,2) unfolding ring_inv_def by simp
qed

lemma pop_release_inv:
  assumes inv: "ring_inv r P (PopRelease x)"
  shows "ring_inv (r\<lparr>rg_free := rg_free r + 1, rg_received := rg_received r @ [x]\<rparr>) P PopWait"
proof -
  note d = ring_invD [OF inv]
  have "0 < rg_head r" "x = rg_sent r ! (rg_head r - 1)" using d(8) by simp_all
  then have "take (rg_head r - 1) (rg_sent r) @ [x] = take (rg_head r) (rg_sent r)"
    using take_Suc_conv_app_nth [of "rg_head r - 1" "rg_sent r"] d(3,4) by simp
  moreover have "content r P PopWait q = content r P (PopRelease x) q" for q by (simp add: content_def)
  ultimately show ?thesis using d unfolding ring_inv_def by simp
qed

lemma pop_idle_inv: "ring_inv r P c \<Longrightarrow> {c, c'} \<subseteq> {PopWait, PopLook} \<Longrightarrow> ring_inv (r\<lparr>rg_items := n\<rparr>) P c'"
  by (auto simp: ring_inv_def content_def)

lemma pop_stay_inv: "ring_inv r P PopLook \<Longrightarrow> ring_inv r P PopWait"
  by (simp add: ring_inv_def content_def)

lemma pop_keeps_inv:
  assumes "ring_inv r P c" "pop_turn blocking acquired stop c r = Some (r', y)"
  shows "ring_inv r' P (after_pop y)"
proof (cases c)
  case PopWait
  with assms show ?thesis using pop_idle_inv [of r P PopWait PopLook] by (auto split: if_splits)
next
  case PopLook
  with assms show ?thesis using pop_look_inv [of r P] pop_stay_inv [of r P]
    by (auto split: prod.splits option.splits if_splits)
qed (use assms pop_recycle_inv [of r P] pop_advance_inv [of r P] pop_release_inv [of r P] in auto)

lemma pop_keeps_covered:
  assumes "covered r P c" "pop_turn True acquired False c r = Some (r', y)"
  shows "covered r' P (after_pop y)"
  using assms by (cases c) (auto simp: covered_def split: if_splits prod.splits option.splits)


end
