(* ===== verification/Abex_Async.thy ===== *)
theory Abex_Async
  imports Abex_Ring
begin

text \<open>
  The worker threads behind the multi-producer ring. \<open>AsyncOrderObserverQueue\<close>, \<open>OperationalEventWriter\<close> and
  \<open>AsyncJournalLane\<close> (\<open>include/abex/application\<close>) share one structure: \<open>post\<close> counts an entry as pending and
  pushes it, taking it back when the ring is full; the worker pops, processes and uncounts; \<open>flush\<close> waits
  until nothing is pending; the destructor flushes, requests the stop and wakes the worker, which drains the
  ring and ends. Here the structure is modelled once, over any kind of entry, with every atomic operation a
  step of its own. What processing does with an entry is the subject of \<open>Abex_Async_Clients\<close>.
\<close>

section \<open>Capacity\<close>

function smear :: "nat \<Rightarrow> u64 \<Rightarrow> u64" where
  "smear i n = (if i = 0 \<or> 64 \<le> i then n else smear (2 * i) (n OR drop_bit i n))"
  by pat_completeness auto
termination by (relation "measure (\<lambda>(i, n). 64 - i)") auto

declare smear.simps [simp del]

definition next_pow2 :: "u64 \<Rightarrow> u64" where
  "next_pow2 n = (if n = 0 then 1 else smear 1 (n - 1) + 1)"

section \<open>State and operations\<close>

datatype 'a post =
    PostCount 'a
  | PostPush "'a push"
  | PostUncount

datatype 'a worker =
    WTest
  | WPop "'a pop"
  | WDrain "'a pop"
  | WProcess bool 'a
  | WUncount bool
  | WStopped

record 'a async_lane =
  al_ring :: "'a mpsc_ring"
  al_pending :: nat
  al_stop :: bool
  al_posts :: "'a post multiset"
  al_worker :: "'a worker"
  al_handled :: "'a list"

definition new_async :: "u64 \<Rightarrow> 'a async_lane result" where
  "new_async capacity =
     rbind (new_ring (unat (next_pow2 capacity))) (\<lambda>r.
       Inr \<lparr>al_ring = r, al_pending = 0, al_stop = False, al_posts = {#}, al_worker = WTest, al_handled = []\<rparr>)"

text \<open>One turn of \<open>post\<close>: its next control point or its answer.\<close>

fun post_turn :: "bool \<Rightarrow> 'a post \<Rightarrow> 'a async_lane \<Rightarrow> 'a async_lane \<times> ('a post + bool)" where
  "post_turn acquired (PostCount v) l = (l\<lparr>al_pending := al_pending l + 1\<rparr>, Inl (PostPush (PushEnter v)))"
| "post_turn acquired (PostPush p) l =
     (case push_turn acquired p (al_ring l) of
        (r, Inl p') \<Rightarrow> (l\<lparr>al_ring := r\<rparr>, Inl (PostPush p'))
      | (r, Inr True) \<Rightarrow> (l\<lparr>al_ring := r\<rparr>, Inr True)
      | (r, Inr False) \<Rightarrow> (l\<lparr>al_ring := r\<rparr>, Inl PostUncount))"
| "post_turn acquired PostUncount l = (l\<lparr>al_pending := al_pending l - 1\<rparr>, Inr False)"

text \<open>One turn of the worker; the flag of \<open>WProcess\<close> and \<open>WUncount\<close> tells the drain from the main loop.\<close>

fun lane_worker_turn :: "bool \<Rightarrow> 'a worker \<Rightarrow> 'a async_lane \<Rightarrow> 'a async_lane option" where
  "lane_worker_turn acquired WTest l =
     Some (l\<lparr>al_worker := (if al_stop l then WDrain PopWait else WPop PopWait)\<rparr>)"
| "lane_worker_turn acquired (WPop c) l =
     (case pop_turn True acquired (al_stop l) c (al_ring l) of
        None \<Rightarrow> None
      | Some (r, y) \<Rightarrow>
          Some (l\<lparr>al_ring := r, al_worker :=
            (case y of Inl c' \<Rightarrow> WPop c' | Inr None \<Rightarrow> WTest | Inr (Some x) \<Rightarrow> WProcess False x)\<rparr>))"
| "lane_worker_turn acquired (WDrain c) l =
     (case pop_turn False acquired (al_stop l) c (al_ring l) of
        None \<Rightarrow> None
      | Some (r, y) \<Rightarrow>
          Some (l\<lparr>al_ring := r, al_worker :=
            (case y of Inl c' \<Rightarrow> WDrain c' | Inr None \<Rightarrow> WStopped | Inr (Some x) \<Rightarrow> WProcess True x)\<rparr>))"
| "lane_worker_turn acquired (WProcess drain x) l =
     Some (l\<lparr>al_handled := al_handled l @ [x], al_worker := WUncount drain\<rparr>)"
| "lane_worker_turn acquired (WUncount drain) l =
     Some (l\<lparr>al_pending := al_pending l - 1, al_worker := (if drain then WDrain PopWait else WTest)\<rparr>)"
| "lane_worker_turn acquired WStopped l = None"

definition async_flush_returns :: "'a async_lane \<Rightarrow> bool" where
  "async_flush_returns l \<longleftrightarrow> al_pending l = 0"

fun after_post :: "'a post + bool \<Rightarrow> 'a post multiset" where
  "after_post (Inl p) = {#p#}"
| "after_post (Inr _) = {#}"

text \<open>Any thread may call \<open>post\<close> and any thread inside may move, until the destructor runs; no call may be in
  progress then.\<close>

inductive async_step :: "'a async_lane \<Rightarrow> 'a async_lane \<Rightarrow> bool" where
  enter: "\<not> al_stop l \<Longrightarrow> async_step l (l\<lparr>al_posts := add_mset (PostCount v) (al_posts l)\<rparr>)"
| post: "al_posts l = add_mset p P \<Longrightarrow> post_turn acquired p l = (l', y) \<Longrightarrow>
     async_step l (l'\<lparr>al_posts := after_post y + P\<rparr>)"
| work: "lane_worker_turn acquired (al_worker l) l = Some l' \<Longrightarrow> async_step l l'"
| destroy: "al_posts l = {#} \<Longrightarrow> async_flush_returns l \<Longrightarrow> \<not> al_stop l \<Longrightarrow> async_step l (l\<lparr>al_stop := True\<rparr>)"
| wake: "al_stop l \<Longrightarrow> async_step l (l\<lparr>al_ring := wake_consumer (al_ring l)\<rparr>)"

abbreviation al_sent :: "'a async_lane \<Rightarrow> 'a list" where
  "al_sent l \<equiv> rg_sent (al_ring l)"

definition async_abs :: "'a async_lane \<Rightarrow> 'a list \<times> 'a list" where
  "async_abs l = (drop (length (al_handled l)) (al_sent l), al_handled l)"

section \<open>Capacity is a power of two\<close>

lemma smear_step:
  fixes x y :: u64
  assumes "\<And>b. bit y b \<longleftrightarrow> (\<exists>d < s. bit x (b + d))"
  shows "bit (y OR drop_bit s y) b \<longleftrightarrow> (\<exists>d < 2 * s. bit x (b + d))"
proof -
  have "bit (drop_bit s y) b \<longleftrightarrow> (\<exists>d < s. bit x (b + (s + d)))"
    using assms [of "s + b"] by (simp add: bit_drop_bit_eq ac_simps)
  also have "\<dots> \<longleftrightarrow> (\<exists>d. s \<le> d \<and> d < 2 * s \<and> bit x (b + d))"
    by (metis add.commute add_less_cancel_left le_add1 le_iff_add mult_2)
  finally have shifted: "bit (drop_bit s y) b \<longleftrightarrow> (\<exists>d. s \<le> d \<and> d < 2 * s \<and> bit x (b + d))" .
  show ?thesis
    unfolding bit_or_iff shifted assms by (metis linorder_not_le mult_2 trans_less_add1)
qed

lemma bit_smear:
  fixes x :: u64
  shows "bit (smear 1 x) b \<longleftrightarrow> (\<exists>d < 64. bit x (b + d))"
proof -
  have s1: "bit x b \<longleftrightarrow> (\<exists>d < 1. bit x (b + d))" for b by simp
  note s2 = smear_step [of x 1 x, OF s1]
  note s3 = smear_step [OF s2]
  note s4 = smear_step [OF s3]
  note s5 = smear_step [OF s4]
  note s6 = smear_step [OF s5]
  note s7 = smear_step [OF s6]
  show ?thesis using s7 by (simp add: smear.simps)
qed

lemma smear_mask:
  fixes x :: u64
  assumes "2 ^ h \<le> unat x" "unat x < 2 ^ Suc h"
  shows "smear 1 x = mask (Suc h)"
proof (rule bit_eqI)
  fix b
  assume "possible_bit TYPE(u64) b"
  then have b: "b < 64" by simp
  have "2 ^ h < (2::nat) ^ 64" using assms(1) unsigned_less [of x, where ?'a = nat] by simp
  then have h: "h < 64" by (rule power_less_imp_less_exp [rotated]) simp
  have nat_bit: "bit x k = bit (unat x) k" for k by (simp add: bit_unsigned_iff)
  have "take_bit (Suc h) (unat x) = unat x" using assms(2) by (simp add: take_bit_nat_eq_self)
  then have above: "bit x k \<Longrightarrow> k \<le> h" for k
    using bit_take_bit_iff [of "Suc h" "unat x" k] by (simp add: nat_bit)
  have "unat x div 2 ^ h = 1" using assms by (intro div_nat_eqI) simp_all
  then have top: "bit x h" unfolding nat_bit by (simp add: bit_iff_odd)
  have "(\<exists>d < 64. bit x (b + d)) \<longleftrightarrow> b \<le> h"
  proof
    assume "\<exists>d < 64. bit x (b + d)"
    then show "b \<le> h" using above by (meson le_trans le_add1)
  next
    assume "b \<le> h"
    then show "\<exists>d < 64. bit x (b + d)" using top h by (intro exI [of _ "h - b"]) simp
  qed
  then show "bit (smear 1 x) b \<longleftrightarrow> bit (mask (Suc h) :: u64) b"
    using b unfolding bit_smear by (simp add: bit_mask_iff less_Suc_eq_le)
qed

lemma next_pow2_one: "next_pow2 1 = 1"
  by (simp add: next_pow2_def smear.simps)

lemma next_pow2_bounds:
  fixes n :: u64
  assumes "1 < n"
  shows "\<exists>h. 2 ^ h < unat n \<and> unat n \<le> 2 ^ Suc h \<and> next_pow2 n = 2 ^ Suc h"
proof -
  have pos: "unat (n - 1) = unat n - 1" "1 < unat n"
    using assms by (auto simp: word_less_nat_alt unat_sub word_le_nat_alt)
  then have "0 < unat (n - 1)" by simp
  from ex_power_ivl1 [of 2 "unat (n - 1)"] this obtain h where h: "2 ^ h \<le> unat (n - 1)" "unat (n - 1) < 2 ^ Suc h"
    by auto
  have "next_pow2 n = mask (Suc h) + 1" using smear_mask [OF h] assms by (auto simp: next_pow2_def)
  also have "\<dots> = 2 ^ Suc h" by (simp add: mask_eq_exp_minus_1)
  finally show ?thesis using h pos by (intro exI [of _ h]) linarith
qed

section \<open>Invariant\<close>

fun push_of :: "'a post \<Rightarrow> 'a push multiset" where
  "push_of (PostPush p) = {#p#}"
| "push_of _ = {#}"

definition pushes :: "'a post multiset \<Rightarrow> 'a push multiset" where
  "pushes P = (\<Sum>p \<in># P. push_of p)"

lemma pushes_simps [simp]:
  "pushes {#} = {#}" "pushes (add_mset p P) = push_of p + pushes P" "pushes (P + Q) = pushes P + pushes Q"
  by (simp_all add: pushes_def)

text \<open>Posts that are counted as pending but have no position in the ring.\<close>

fun early_push :: "'a push \<Rightarrow> nat" where
  "early_push (PushEnter _) = 1"
| "early_push (PushClaim _) = 1"
| "early_push _ = 0"

fun early :: "'a post \<Rightarrow> nat" where
  "early (PostPush p) = early_push p"
| "early PostUncount = 1"
| "early _ = 0"

definition earlies :: "'a post multiset \<Rightarrow> nat" where
  "earlies P = (\<Sum>p \<in># P. early p)"

lemma earlies_simps [simp]:
  "earlies {#} = 0" "earlies (add_mset p P) = early p + earlies P" "earlies (P + Q) = earlies P + earlies Q"
  by (simp_all add: earlies_def)

fun pop_of :: "'a worker \<Rightarrow> 'a pop" where
  "pop_of (WPop c) = c"
| "pop_of (WDrain c) = c"
| "pop_of _ = PopWait"

fun held :: "'a worker \<Rightarrow> 'a list" where
  "held (WProcess _ x) = [x]"
| "held _ = []"

fun uncounting :: "'a worker \<Rightarrow> nat" where
  "uncounting (WUncount _) = 1"
| "uncounting _ = 0"

fun in_main_loop :: "'a worker \<Rightarrow> bool" where
  "in_main_loop (WDrain _) \<longleftrightarrow> False"
| "in_main_loop WStopped \<longleftrightarrow> False"
| "in_main_loop (WProcess drain _) \<longleftrightarrow> \<not> drain"
| "in_main_loop (WUncount drain) \<longleftrightarrow> \<not> drain"
| "in_main_loop _ \<longleftrightarrow> True"

definition async_inv :: "'a async_lane \<Rightarrow> bool" where
  "async_inv l \<longleftrightarrow>
     ring_inv (al_ring l) (pushes (al_posts l)) (pop_of (al_worker l)) \<and>
     rg_received (al_ring l) = al_handled l @ held (al_worker l) \<and>
     al_pending l = earlies (al_posts l) + (rg_tail (al_ring l) - length (al_handled l)) + uncounting (al_worker l) \<and>
     (\<not> al_stop l \<longrightarrow> covered (al_ring l) (pushes (al_posts l)) (pop_of (al_worker l)) \<and> in_main_loop (al_worker l)) \<and>
     (al_stop l \<longrightarrow> al_posts l = {#} \<and> al_pending l = 0)"

lemma async_invD:
  assumes "async_inv l"
  shows "ring_inv (al_ring l) (pushes (al_posts l)) (pop_of (al_worker l))"
    "rg_received (al_ring l) = al_handled l @ held (al_worker l)"
    "al_pending l = earlies (al_posts l) + (rg_tail (al_ring l) - length (al_handled l)) + uncounting (al_worker l)"
    "\<not> al_stop l \<Longrightarrow> covered (al_ring l) (pushes (al_posts l)) (pop_of (al_worker l))"
    "\<not> al_stop l \<Longrightarrow> in_main_loop (al_worker l)"
    "al_stop l \<Longrightarrow> al_posts l = {#}" "al_stop l \<Longrightarrow> al_pending l = 0"
  using assms unfolding async_inv_def by blast+

text \<open>What has been handled is a prefix of what was sent.\<close>

lemma handled_sent:
  assumes "async_inv l"
  shows "al_handled l = take (length (al_handled l)) (al_sent l)"
    "length (al_handled l) + length (held (al_worker l)) + owed (pop_of (al_worker l)) = rg_head (al_ring l)"
    "length (al_handled l) \<le> rg_tail (al_ring l)"
proof -
  note d = async_invD [OF assms] and r = ring_invD [OF async_invD(1) [OF assms]]
  have pre: "al_handled l @ held (al_worker l) = take (rg_head (al_ring l) - owed (pop_of (al_worker l))) (al_sent l)"
    using d(2) r(6) by simp
  then have "take (length (al_handled l)) (al_handled l @ held (al_worker l)) =
      take (length (al_handled l)) (take (rg_head (al_ring l) - owed (pop_of (al_worker l))) (al_sent l))" by simp
  moreover have len: "length (al_handled l) + length (held (al_worker l)) = rg_head (al_ring l) - owed (pop_of (al_worker l))"
    using arg_cong [OF pre, of length] r(3,4) by simp
  ultimately show "al_handled l = take (length (al_handled l)) (al_sent l)" by simp
  have "owed (pop_of (al_worker l)) \<le> rg_head (al_ring l)" using r(8) by (cases "pop_of (al_worker l)") auto
  with len show "length (al_handled l) + length (held (al_worker l)) + owed (pop_of (al_worker l)) = rg_head (al_ring l)"
    by simp
  then show "length (al_handled l) \<le> rg_tail (al_ring l)" using r(4) by linarith
qed

lemma new_async_inv: "new_async n = Inr l \<Longrightarrow> async_inv l"
  using new_ring_inv [of "unat (next_pow2 n)"]
  by (auto simp: new_async_def async_inv_def rbind_eq_Inr_iff new_ring_def split: if_splits)

lemma push_arrives:
  "ring_inv r P c \<Longrightarrow> ring_inv r (add_mset (PushEnter v) P) c"
  "covered r P c \<Longrightarrow> covered r (add_mset (PushEnter v) P) c"
  by (cases c; auto simp: ring_inv_def covered_def content_def)+


lemma push_frame:
  assumes "push_turn acquired p r = (r', y)"
  shows "rg_received r' = rg_received r" "rg_capacity r' = rg_capacity r"
    "(\<And>v. p \<noteq> PushClaim v) \<Longrightarrow> rg_sent r' = rg_sent r"
  using assms by (cases p; auto split: if_splits)+

lemma pop_frame:
  assumes "pop_turn blocking acquired stop c r = Some (r', y)"
  shows "rg_tail r' = rg_tail r" "rg_sent r' = rg_sent r" "rg_capacity r' = rg_capacity r"
    "rg_received r' = rg_received r @ (case y of Inr (Some x) \<Rightarrow> [x] | _ \<Rightarrow> [])"
    "y = Inr (Some x) \<Longrightarrow> c = PopRelease x"
  using assms by (cases c; auto split: if_splits prod.splits option.splits)+


lemma post_keeps_inv:
  assumes inv: "async_inv l" and posts: "al_posts l = add_mset p P" and turn: "post_turn acquired p l = (l', y)"
  shows "async_inv (l'\<lparr>al_posts := after_post y + P\<rparr>)"
proof -
  note d = async_invD [OF inv] and h = handled_sent [OF inv]
  have run: "\<not> al_stop l" using d(6) posts by auto
  show ?thesis
  proof (cases p)
    case (PostCount v)
    with turn posts d run show ?thesis
      using push_arrives [of "al_ring l" "pushes P"] by (auto simp: async_inv_def)
  next
    case (PostPush q)
    obtain r z where z: "push_turn acquired q (al_ring l) = (r, z)" by fastforce
    have ring: "ring_inv r (after_push z + pushes P) (pop_of (al_worker l))"
      using push_keeps_inv [OF _ z] d(1) posts PostPush by simp
    have cov: "covered r (after_push z + pushes P) (pop_of (al_worker l))"
      using push_keeps_covered [OF _ _ z] d(1,4) run posts PostPush by simp
    have "early_push q + rg_tail (al_ring l) = rg_tail r + earlies (after_post y)"
      using turn PostPush z by (cases q) (auto split: if_splits)
    moreover have "rg_tail (al_ring l) \<le> rg_tail r" using z by (cases q) (auto split: if_splits)
    moreover have "al_pending l' = al_pending l" "al_handled l' = al_handled l" "al_stop l' = al_stop l"
        "al_worker l' = al_worker l" "al_ring l' = r" "pushes (after_post y) = after_push z"
      using turn PostPush z by (auto split: sum.splits bool.splits)
    ultimately show ?thesis
      using ring cov d(2,3,5) h(3) run posts PostPush push_frame(1) [OF z] by (simp add: async_inv_def)
  next
    case PostUncount
    with turn posts d run show ?thesis by (auto simp: async_inv_def)
  qed
qed

lemma pop_keeps_async:
  assumes inv: "async_inv l" and worker: "al_worker l = (if blocking then WPop c else WDrain c)"
    and turn: "pop_turn blocking acquired (al_stop l) c (al_ring l) = Some (r, y)"
    and w: "w = (case y of Inl c' \<Rightarrow> if blocking then WPop c' else WDrain c'
                | Inr None \<Rightarrow> if blocking then WTest else WStopped | Inr (Some x) \<Rightarrow> WProcess (\<not> blocking) x)"
  shows "async_inv (l\<lparr>al_ring := r, al_worker := w\<rparr>)"
proof -
  note d = async_invD [OF inv] and f = pop_frame [OF turn]
  have c: "pop_of (al_worker l) = c" "held (al_worker l) = []" "uncounting (al_worker l) = 0"
    using worker by (auto split: if_splits)
  have next_pop: "pop_of w = after_pop y" "uncounting w = 0" "held w = (case y of Inr (Some x) \<Rightarrow> [x] | _ \<Rightarrow> [])"
    using w by (auto split: sum.splits option.splits)
  have "ring_inv r (pushes (al_posts l)) (after_pop y)" using pop_keeps_inv [OF _ turn] d(1) c by simp
  moreover have "covered r (pushes (al_posts l)) (after_pop y) \<and> in_main_loop w" if "\<not> al_stop l"
  proof -
    have "blocking" using d(5) [OF that] worker by (auto split: if_splits)
    then show ?thesis using pop_keeps_covered [of _ _ c] d(4) that turn c w
      by (auto split: sum.splits option.splits)
  qed
  ultimately show ?thesis using d(2,3,6,7) f c next_pop by (simp add: async_inv_def)
qed

lemma worker_keeps_inv:
  assumes inv: "async_inv l" and turn: "lane_worker_turn acquired (al_worker l) l = Some l'"
  shows "async_inv l'"
proof (cases "al_worker l")
  case WTest
  with assms show ?thesis by (auto simp: async_inv_def)
next
  case (WPop c)
  with turn obtain r y where y: "pop_turn True acquired (al_stop l) c (al_ring l) = Some (r, y)" by (auto split: option.splits)
  with WPop turn pop_keeps_async [OF inv, of True c acquired r y] show ?thesis
    by (cases y) (auto split: option.splits)
next
  case (WDrain c)
  with turn obtain r y where y: "pop_turn False acquired (al_stop l) c (al_ring l) = Some (r, y)" by (auto split: option.splits)
  with WDrain turn pop_keeps_async [OF inv, of False c acquired r y] show ?thesis
    by (cases y) (auto split: option.splits)
next
  case (WProcess drain x)
  then have "length (al_handled l) < rg_tail (al_ring l)"
    using handled_sent(2) [OF inv] ring_invD(4) [OF async_invD(1) [OF inv]] by simp
  with WProcess assms show ?thesis by (auto simp: async_inv_def)
next
  case (WUncount drain)
  with assms show ?thesis by (auto simp: async_inv_def)
qed (use turn in simp)

lemma async_step_inv:
  assumes "async_inv l" "async_step l l'"
  shows "async_inv l'"
  using assms(2)
proof cases
  case (enter v)
  then show ?thesis using assms(1) by (simp add: async_inv_def)
next
  case (destroy)
  then show ?thesis using assms(1) by (simp add: async_inv_def async_flush_returns_def)
next
  case wake
  then show ?thesis using assms(1)
    by (auto simp: async_inv_def ring_inv_def wake_consumer_def)
qed (use assms(1) post_keeps_inv worker_keeps_inv in blast)+


section \<open>Refinement\<close>

text \<open>Claiming a position enqueues, processing dequeues.\<close>

lemma async_abs_step:
  assumes inv: "async_inv l" and step: "async_step l l'"
  shows "(async_abs l' = async_abs l \<or> fifo_step (rg_capacity (al_ring l)) (async_abs l) (async_abs l')) \<and>
    rg_capacity (al_ring l') = rg_capacity (al_ring l)"
  using step
proof cases
  case (post p P acquired l1 y)
  note d = async_invD [OF inv] and h = handled_sent [OF inv] and r = ring_invD [OF async_invD(1) [OF inv]]
  show ?thesis
  proof (cases "\<exists>v. p = PostPush (PushClaim v)")
    case True
    then obtain v where v: "p = PostPush (PushClaim v)" by blast
    let ?q = "drop (length (al_handled l)) (al_sent l)"
    have "0 < number claiming (pushes (al_posts l))" using post v by simp
    moreover have "length (held (al_worker l)) \<le> 1" by (cases "al_worker l") simp_all
    ultimately have "length ?q < rg_capacity (al_ring l) + 1" using h(2) r(3,4,5) by simp
    then have "fifo_step (rg_capacity (al_ring l)) (?q, al_handled l) (?q @ [v], al_handled l)" by (rule fifo_step.enqueue)
    then show ?thesis using post v h(3) r(3) by (auto simp: async_abs_def)
  next
    case False
    show ?thesis
    proof (cases p)
      case (PostPush q)
      obtain r z where "push_turn acquired q (al_ring l) = (r, z)" by fastforce
      with post PostPush False push_frame [OF this] show ?thesis
        by (auto simp: async_abs_def split: sum.splits bool.splits)
    qed (use post in \<open>auto simp: async_abs_def\<close>)
  qed
next
  case (work acquired)
  note d = async_invD [OF inv] and h = handled_sent [OF inv] and r = ring_invD [OF async_invD(1) [OF inv]]
  show ?thesis
  proof (cases "al_worker l")
    case (WProcess drain x)
    let ?k = "length (al_handled l)"
    have "al_handled l @ [x] = take (rg_head (al_ring l)) (al_sent l)" using d(2) r(6) WProcess by simp
    moreover have "?k + 1 = rg_head (al_ring l)" using h(2) WProcess by simp
    ultimately have "al_sent l ! ?k = x" "?k < length (al_sent l)"
      using r(3,4) by (metis nth_append_length lessI nth_take Suc_eq_plus1, simp)
    then have "drop ?k (al_sent l) = x # drop (Suc ?k) (al_sent l)" using Cons_nth_drop_Suc by metis
    then show ?thesis using work WProcess by (auto simp: async_abs_def fifo_step.dequeue)
  qed (use work in \<open>auto simp: async_abs_def dest: pop_frame split: option.splits\<close>)
qed (auto simp: async_abs_def wake_consumer_def)

definition async_of :: "nat \<Rightarrow> 'a async_lane \<Rightarrow> bool" where
  "async_of n l \<longleftrightarrow> async_inv l \<and> rg_capacity (al_ring l) = n"

interpretation async_run: simulation async_step "async_of n" "fifo_step n" async_abs for n
  by unfold_locales (auto simp: async_of_def intro: async_step_inv dest: async_abs_step)

lemma new_async_of:
  assumes "new_async n = Inr l"
  shows "async_of (unat (next_pow2 n)) l" "async_abs l = ([], [])"
  using assms new_async_inv [OF assms]
  by (auto simp: new_async_def async_of_def async_abs_def rbind_eq_Inr_iff new_ring_def split: if_splits)

lemmas reachable_async = async_run.reachable_inv [OF _ new_async_of(1), unfolded async_of_def]


section \<open>Progress\<close>

fun publishing_post :: "'a post \<Rightarrow> bool" where
  "publishing_post (PostPush p) \<longleftrightarrow> unannounced_push p"
| "publishing_post _ \<longleftrightarrow> False"

lemma pushes_quiet: "\<forall>p \<in># P. \<not> publishing_post p \<Longrightarrow> q \<in># pushes P \<Longrightarrow> \<not> unannounced_push q"
proof (induction P)
  case (add p P)
  then show ?case by (cases p) auto
qed simp

fun post_rank :: "'a post \<Rightarrow> nat" where
  "post_rank (PostCount _) = 6"
| "post_rank (PostPush (PushEnter _)) = 5"
| "post_rank (PostPush (PushClaim _)) = 4"
| "post_rank (PostPush (PushSpin _ _)) = 3"
| "post_rank (PostPush (PushStore _)) = 2"
| "post_rank (PostPush PushAnnounce) = 1"
| "post_rank PostUncount = 1"

fun pop_stage :: "'a pop \<Rightarrow> nat" where
  "pop_stage PopWait = 6"
| "pop_stage PopLook = 5"
| "pop_stage (PopRecycle _) = 4"
| "pop_stage (PopAdvance _) = 3"
| "pop_stage (PopRelease _) = 2"

fun stage :: "'a worker \<Rightarrow> nat" where
  "stage WTest = 7"
| "stage (WPop c) = pop_stage c"
| "stage (WProcess _ _) = 1"
| "stage (WUncount _) = 8"
| "stage _ = 0"

definition work_left :: "'a async_lane \<Rightarrow> nat" where
  "work_left l = 8 * (rg_tail (al_ring l) - length (al_handled l)) + stage (al_worker l)"

text \<open>With entries left and no push halfway, the next turn of the worker brings it closer to its end.\<close>

lemma worker_moves:
  assumes inv: "async_inv l" and run: "\<not> al_stop l" and quiet: "\<forall>p \<in># al_posts l. \<not> publishing_post p"
    and left: "length (al_handled l) < rg_tail (al_ring l)"
  shows "\<exists>l'. lane_worker_turn acquired (al_worker l) l = Some l' \<and> work_left l' < work_left l \<and>
    al_posts l' = al_posts l \<and> al_stop l' = al_stop l \<and> al_sent l' = al_sent l \<and> rg_tail (al_ring l') = rg_tail (al_ring l)"
proof (cases "al_worker l")
  case (WPop c)
  note d = async_invD [OF inv] and h = handled_sent [OF inv] and r = ring_invD [OF async_invD(1) [OF inv]]
  note silent = pushes_quiet [OF quiet]
  show ?thesis
  proof (cases c)
    case PopWait
    have none: "filter_mset unannounced_push (pushes (al_posts l)) = {#}" using silent by simp
    have "0 < rg_items (al_ring l)"
      using d(4) [OF run] h(2) left WPop PopWait unfolding covered_def none by simp
    then show ?thesis using WPop PopWait by (simp add: work_left_def)
  next
    case PopLook
    let ?h = "rg_head (al_ring l)"
    have "?h < rg_tail (al_ring l)" using h(2) left WPop PopLook by simp
    moreover have "PushSpin v ?h \<notin># pushes (al_posts l)" "PushStore ?h \<notin># pushes (al_posts l)" for v
      using silent by fastforce+
    ultimately have "rg_slots (al_ring l) ! slot_of (al_ring l) ?h = (?h + 1, Some (al_sent l ! ?h))"
      using r(10) [of ?h] r(11,12) WPop PopLook by (simp add: content_def)
    then show ?thesis using WPop PopLook by (simp add: work_left_def)
  qed (use WPop in \<open>simp_all add: work_left_def\<close>)
qed (use async_invD(5) [OF inv run] run left in \<open>auto simp: work_left_def\<close>)

definition worker_alone :: "'a async_lane \<Rightarrow> 'a async_lane \<Rightarrow> bool" where
  "worker_alone l l' \<longleftrightarrow> lane_worker_turn True (al_worker l) l = Some l'"

lemma worker_finishes:
  assumes "async_inv l" "\<not> al_stop l" "\<forall>p \<in># al_posts l. \<not> publishing_post p"
  shows "\<exists>l'. worker_alone\<^sup>*\<^sup>* l l' \<and> al_handled l' = al_sent l \<and> al_posts l' = al_posts l"
  using assms
proof (induction "work_left l" arbitrary: l rule: less_induct)
  case less
  show ?case
  proof (cases "length (al_handled l) < rg_tail (al_ring l)")
    case True
    with worker_moves [OF less.prems, of True] obtain l1 where
      l1: "lane_worker_turn True (al_worker l) l = Some l1" "work_left l1 < work_left l" "al_posts l1 = al_posts l"
        "al_stop l1 = al_stop l" "al_sent l1 = al_sent l" by blast
    have "async_inv l1" using worker_keeps_inv [OF less.prems(1) l1(1)] .
    with less.hyps [OF l1(2)] less.prems l1 obtain l' where
      "worker_alone\<^sup>*\<^sup>* l1 l'" "al_handled l' = al_sent l" "al_posts l' = al_posts l" by auto
    moreover have "worker_alone l l1" using l1(1) by (simp add: worker_alone_def)
    ultimately show ?thesis by (meson converse_rtranclp_into_rtranclp)
  next
    case False
    then have "al_handled l = al_sent l"
      using handled_sent(1,3) [OF less.prems(1)] ring_invD(3) [OF async_invD(1) [OF less.prems(1)]]
      by (metis le_antisym linorder_not_less take_all_iff)
    then show ?thesis by blast
  qed
qed

section \<open>A sample run\<close>

definition sample_async :: "nat post multiset \<Rightarrow> nat \<Rightarrow> nat \<Rightarrow> nat \<Rightarrow> nat list \<Rightarrow> nat async_lane" where
  "sample_async posts pending unused tail sent =
     \<lparr>al_ring = \<lparr>rg_capacity = 2, rg_slots = [(0, None), (1, None)], rg_free = unused, rg_items = 0, rg_tail = tail,
        rg_head = 0, rg_sent = sent, rg_received = []\<rparr>,
      al_pending = pending, al_stop = False, al_posts = posts, al_worker = WTest, al_handled = []\<rparr>"

lemma sample_async_new: "new_async 2 = Inr (sample_async {#} 0 2 0 [])"
  by (simp add: new_async_def next_pow2_def smear.simps new_ring_def sample_async_def upt_rec)

lemma sample_async_run:
  "async_step\<^sup>*\<^sup>* (sample_async {#} 0 2 0 []) (sample_async {#PostPush (PushClaim 7)#} 1 1 0 [])"
  "async_step\<^sup>*\<^sup>* (sample_async {#} 0 2 0 []) (sample_async {#PostPush (PushSpin 7 0)#} 1 1 1 [7])"
proof -
  note extend = rtranclp.rtrancl_into_rtrancl [of async_step]
  have "async_step (sample_async {#} 0 2 0 []) (sample_async {#PostCount 7#} 0 2 0 [])"
    using async_step.enter [of "sample_async {#} 0 2 0 []" 7] by (simp add: sample_async_def)
  note run = extend [OF rtranclp.rtrancl_refl this]
  have "async_step (sample_async {#PostCount 7#} 0 2 0 []) (sample_async {#PostPush (PushEnter 7)#} 1 2 0 [])"
    using async_step.post [of "sample_async {#PostCount 7#} 0 2 0 []" "PostCount 7" "{#}" True] by (simp add: sample_async_def)
  note run = extend [OF run this]
  have "async_step (sample_async {#PostPush (PushEnter 7)#} 1 2 0 []) (sample_async {#PostPush (PushClaim 7)#} 1 1 0 [])"
    using async_step.post [of "sample_async {#PostPush (PushEnter 7)#} 1 2 0 []" "PostPush (PushEnter 7)" "{#}" True]
    by (simp add: sample_async_def)
  note run = extend [OF run this]
  then show "async_step\<^sup>*\<^sup>* (sample_async {#} 0 2 0 []) (sample_async {#PostPush (PushClaim 7)#} 1 1 0 [])" .
  have "async_step (sample_async {#PostPush (PushClaim 7)#} 1 1 0 []) (sample_async {#PostPush (PushSpin 7 0)#} 1 1 1 [7])"
    using async_step.post [of "sample_async {#PostPush (PushClaim 7)#} 1 1 0 []" "PostPush (PushClaim 7)" "{#}" True]
    by (simp add: sample_async_def)
  from extend [OF run this]
  show "async_step\<^sup>*\<^sup>* (sample_async {#} 0 2 0 []) (sample_async {#PostPush (PushSpin 7 0)#} 1 1 1 [7])" .
qed

section \<open>Properties\<close>

text \<open>C13. The asynchronous lanes refine a bounded first-in first-out queue: every interleaving of any number
  of posting threads and the worker, from a new lane, is a run of a queue that holds at most one entry more
  than the capacity of the ring; entries are processed in the order in which their positions were claimed,
  none is lost or duplicated.\<close>

theorem async_refines_fifo:
  assumes "new_async n = Inr l0" and "async_step\<^sup>*\<^sup>* l0 l"
  shows "(fifo_step (unat (next_pow2 n)))\<^sup>*\<^sup>* ([], []) (async_abs l) \<and>
    al_sent l = al_handled l @ fst (async_abs l)"
proof -
  note new = new_async_of [OF assms(1)]
  have "async_inv l" using reachable_async [OF assms(2,1)] by simp
  then have "al_sent l = al_handled l @ drop (length (al_handled l)) (al_sent l)"
    using handled_sent(1) by (metis append_take_drop_id)
  then show ?thesis using async_run.refines [OF assms(2) new(1)] unfolding new(2) by (simp add: async_abs_def)
qed

theorem async_refines_fifo_witness: "(fifo_step 2)\<^sup>*\<^sup>* ([], []) ([7::nat], [])"
  using async_refines_fifo [OF sample_async_new sample_async_run(2)]
  by (simp add: async_abs_def sample_async_def next_pow2_def smear.simps)

text \<open>C14. Posting never waits for another thread: whatever the other threads do, each turn of a call of
  \<open>post\<close> brings it closer to its answer, which it gives after at most six turns; in particular the loop of
  \<open>try_push\<close> that waits for the slot to be recycled never repeats.\<close>

theorem post_never_waits:
  assumes "new_async n = Inr l0" and "async_step\<^sup>*\<^sup>* l0 l" and "p \<in># al_posts l"
  shows "case post_turn acquired p l of (l', Inl p') \<Rightarrow> post_rank p' < post_rank p | (l', Inr answer) \<Rightarrow> post_rank p \<le> 1"
proof -
  have inv: "async_inv l" using reachable_async [OF assms(2,1)] by simp
  obtain P where P: "al_posts l = add_mset p P" using assms(3) by (meson mset_add)
  show ?thesis
  proof (cases p)
    case (PostPush q)
    have "rg_slots (al_ring l) ! slot_of (al_ring l) pos = (pos, None)" if "q = PushSpin v pos" for v pos
      using push_slot_ready [OF async_invD(1) [OF inv], of v pos] P PostPush that by simp
    with PostPush show ?thesis by (cases q) auto
  qed simp_all
qed

theorem post_never_waits_witness:
  "case post_turn True (PostPush (PushSpin 7 0)) (sample_async {#PostPush (PushSpin 7 0)#} 1 1 1 [7]) of
     (l', Inl p') \<Rightarrow> post_rank p' < 3 | (l', Inr answer) \<Rightarrow> False"
  using post_never_waits [OF sample_async_new sample_async_run(2), of "PostPush (PushSpin 7 0)" True]
  by (simp add: sample_async_def split: prod.splits sum.splits)

text \<open>The worker drains the ring: as long as the lane is in use and no push is between its claim and its
  announcement, the worker by itself processes every entry posted, in order; and when \<open>flush\<close> returns or
  the worker has ended, every entry has been processed.\<close>

theorem worker_drains:
  assumes "new_async n = Inr l0" and "async_step\<^sup>*\<^sup>* l0 l"
  shows "(\<not> al_stop l \<and> (\<forall>p \<in># al_posts l. \<not> publishing_post p) \<longrightarrow>
      (\<exists>l'. worker_alone\<^sup>*\<^sup>* l l' \<and> al_handled l' = al_sent l)) \<and>
    (async_flush_returns l \<or> al_worker l = WStopped \<longrightarrow> al_handled l = al_sent l)"
proof -
  have inv: "async_inv l" using reachable_async [OF assms(2,1)] by simp
  note d = async_invD [OF inv]
  have "al_handled l = al_sent l" if "al_pending l = 0"
    using that d(3) handled_sent(1,3) [OF inv] ring_invD(3) [OF d(1)] by simp
  moreover have "al_pending l = 0" if "al_worker l = WStopped" using that d(5,7) by (cases "al_stop l") auto
  ultimately show ?thesis using worker_finishes [OF inv] unfolding async_flush_returns_def by (intro conjI impI) (blast, metis)
qed

theorem worker_drains_witness:
  "\<exists>l'. worker_alone\<^sup>*\<^sup>* (sample_async {#PostPush (PushClaim 7)#} 1 1 0 []) l' \<and> al_handled l' = []"
  using worker_drains [OF sample_async_new sample_async_run(1)] by (simp add: sample_async_def)

text \<open>\<open>next_pow2\<close> gives the smallest power of two that is not below the requested capacity, for every
  request up to $2^{63}$; above, it wraps around to zero and the lane cannot be constructed.\<close>

theorem next_pow2_least:
  assumes "0 < n"
  shows "if n \<le> 2 ^ 63
    then \<exists>k. unat (next_pow2 n) = 2 ^ k \<and> unat n \<le> 2 ^ k \<and> (\<forall>j. unat n \<le> 2 ^ j \<longrightarrow> k \<le> j)
    else new_async n = (Inl (Invalid_argument ''MpscRing capacity must be a power of two'') :: nat async_lane result)"
proof (cases "n = 1")
  case True
  then show ?thesis using next_pow2_one by (auto intro!: exI [of _ 0])
next
  case False
  then have "unat n \<noteq> 1" using word_eq_iff_unsigned [where ?'a = nat, of n 1] by simp
  moreover have "unat n \<noteq> 0" using assms by (simp add: word_less_nat_alt)
  ultimately have "1 < n" by (simp add: word_less_nat_alt)
  from next_pow2_bounds [OF this] obtain h where
    h: "2 ^ h < unat n" "unat n \<le> 2 ^ Suc h" "next_pow2 n = 2 ^ Suc h" by blast
  show ?thesis
  proof (cases "n \<le> 2 ^ 63")
    case True
    then have "unat n \<le> 2 ^ 63" by (simp add: word_le_nat_alt)
    then have "2 ^ h < (2::nat) ^ 63" using h(1) by linarith
    then have "h < 63" by (rule power_less_imp_less_exp [rotated]) simp
    then have "(2::nat) ^ Suc h < 2 ^ 64" by (intro power_strict_increasing) simp_all
    then have "take_bit 64 ((2::nat) ^ Suc h) = 2 ^ Suc h" by (rule take_bit_nat_eq_self)
    then have "unat (next_pow2 n) = 2 ^ Suc h"
      unfolding h(3) using unsigned_of_nat [where ?'b = 64 and ?'a = nat, of "2 ^ Suc h"] by simp
    moreover have "Suc h \<le> j" if "unat n \<le> 2 ^ j" for j
      using power_less_imp_less_exp [of "2::nat" h j] less_le_trans [OF h(1) that] by simp
    ultimately show ?thesis using True h(2) by (auto intro!: exI [of _ "Suc h"])
  next
    case False
    then have "2 ^ 63 < unat n" by (simp add: word_le_nat_alt)
    then have "2 ^ 63 < (2::nat) ^ Suc h" using h(2) by linarith
    then have "63 < Suc h" by (rule power_less_imp_less_exp [rotated]) simp
    then have "next_pow2 n = 0" unfolding h(3) using exp_eq_zero_iff [of "Suc h", where ?'a = 64] by simp
    then show ?thesis using False by (simp add: new_async_def new_ring_def)
  qed
qed

theorem next_pow2_least_witness: "\<exists>k. unat (next_pow2 5) = 2 ^ k \<and> 5 \<le> (2::nat) ^ k \<and> (\<forall>j. 5 \<le> (2::nat) ^ j \<longrightarrow> k \<le> j)"
  using next_pow2_least [of 5] by simp


end
