(* ===== verification/Abex_Json.thy ===== *)
theory Abex_Json
  imports Abex_Order
begin

text \<open>
  The JSON forms of orders, requests and events (\<open>src/domain/order.cpp\<close>,
  \<open>src/domain/operational_event.cpp\<close>).

  The JSON library is a parameter: a record of the operations the sources call on its values, with the
  behaviour they rely on stated by \<open>json_laws\<close>. Sets and maps are written in an order of iteration that
  the hash containers leave open; \<open>iteration\<close> carries one.
\<close>

section \<open>The JSON library\<close>

record 'j json_api =
  j_parse :: "string \<Rightarrow> 'j result"
  j_dump :: "'j \<Rightarrow> string"
  j_object :: "(string \<times> 'j) list \<Rightarrow> 'j"
  j_of_string :: "string \<Rightarrow> 'j"
  j_of_number :: "int \<Rightarrow> 'j"
  j_of_strings :: "string list \<Rightarrow> 'j"
  j_of_string_map :: "(string \<times> string) list \<Rightarrow> 'j"
  j_find :: "'j \<Rightarrow> string \<Rightarrow> 'j option"
  j_missing :: "string \<Rightarrow> exn"
  j_is_null :: "'j \<Rightarrow> bool"
  j_is_string :: "'j \<Rightarrow> bool"
  j_get_string :: "'j \<Rightarrow> string result"
  j_get_integer :: "'j \<Rightarrow> int result"
  j_get_unsigned :: "'j \<Rightarrow> u64 result"
  j_get_strings :: "'j \<Rightarrow> string list result"
  j_get_string_map :: "'j \<Rightarrow> (string \<times> string) list result"

text \<open>What is put into a value is found there and read back as it was.\<close>

definition json_laws :: "'j json_api \<Rightarrow> bool" where
  "json_laws J \<longleftrightarrow>
     (\<forall>kvs k. distinct (map fst kvs) \<longrightarrow> j_find J (j_object J kvs) k = map_of kvs k) \<and>
     (\<forall>s. j_get_string J (j_of_string J s) = Inr s \<and> j_is_string J (j_of_string J s) \<and>
          \<not> j_is_null J (j_of_string J s)) \<and>
     (\<forall>i. in_int64 i \<longrightarrow> j_get_integer J (j_of_number J i) = Inr i) \<and>
     (\<forall>w. j_get_unsigned J (j_of_number J (uint w)) = Inr w) \<and>
     (\<forall>xs. \<exists>ys. j_get_strings J (j_of_strings J xs) = Inr ys \<and> set ys = set xs) \<and>
     (\<forall>m. distinct (map fst m) \<longrightarrow>
        (\<exists>m'. j_get_string_map J (j_of_string_map J m) = Inr m' \<and> distinct (map fst m') \<and> set m' = set m))"

text \<open>\<open>at\<close>, \<open>value\<close> with a default, and the optional fields (\<open>contains\<close>, then \<open>at\<close>).\<close>

definition j_at :: "'j json_api \<Rightarrow> 'j \<Rightarrow> string \<Rightarrow> 'j result" where
  "j_at J j k = (case j_find J j k of None \<Rightarrow> Inl (j_missing J k) | Some v \<Rightarrow> Inr v)"

definition j_field :: "'j json_api \<Rightarrow> ('j \<Rightarrow> 'a result) \<Rightarrow> 'j \<Rightarrow> string \<Rightarrow> 'a result" where
  "j_field J get j k = rbind (j_at J j k) get"

definition j_value :: "'j json_api \<Rightarrow> ('j \<Rightarrow> 'a result) \<Rightarrow> 'j \<Rightarrow> string \<Rightarrow> 'a \<Rightarrow> 'a result" where
  "j_value J get j k d = (case j_find J j k of None \<Rightarrow> Inr d | Some v \<Rightarrow> get v)"

definition j_optional :: "'j json_api \<Rightarrow> ('j \<Rightarrow> 'a result) \<Rightarrow> 'j \<Rightarrow> string \<Rightarrow> 'a option result" where
  "j_optional J get j k =
     (case j_find J j k of None \<Rightarrow> Inr None | Some v \<Rightarrow> rbind (get v) (\<lambda>a. Inr (Some a)))"

section \<open>Decimals and containers\<close>

definition decimal_to_json :: "'j json_api \<Rightarrow> decimal \<Rightarrow> 'j" where
  "decimal_to_json J d = j_of_string J (to_string d)"

definition decimal_from_json :: "'j json_api \<Rightarrow> 'j \<Rightarrow> decimal result" where
  "decimal_from_json J j = rbind (j_get_string J j) parse"

definition decimals_to_json :: "'j json_api \<Rightarrow> (string \<times> decimal) list \<Rightarrow> 'j" where
  "decimals_to_json J m = j_of_string_map J (map (\<lambda>(k, d). (k, to_string d)) m)"

fun parse_entries :: "(string \<times> string) list \<Rightarrow> (string \<times> decimal) list result" where
  "parse_entries [] = Inr []"
| "parse_entries ((k, s) # m) = rbind (parse s) (\<lambda>d. rbind (parse_entries m) (\<lambda>ds. Inr ((k, d) # ds)))"

definition decimals_from_json :: "'j json_api \<Rightarrow> 'j \<Rightarrow> (string \<rightharpoonup> decimal) result" where
  "decimals_from_json J j =
     rbind (j_get_string_map J j) (\<lambda>m. rbind (parse_entries m) (\<lambda>ds. Inr (map_of ds)))"

definition strings_from_json :: "'j json_api \<Rightarrow> 'j \<Rightarrow> string set result" where
  "strings_from_json J j = rbind (j_get_strings J j) (\<lambda>xs. Inr (set xs))"

definition texts_from_json :: "'j json_api \<Rightarrow> 'j \<Rightarrow> (string \<rightharpoonup> string) result" where
  "texts_from_json J j = rbind (j_get_string_map J j) (\<lambda>m. Inr (map_of m))"

definition optional_entry :: "string \<Rightarrow> ('a \<Rightarrow> 'j) \<Rightarrow> 'a option \<Rightarrow> (string \<times> 'j) list" where
  "optional_entry k f v = (case v of None \<Rightarrow> [] | Some a \<Rightarrow> [(k, f a)])"

section \<open>Orders\<close>

record iteration =
  it_exchange_client_id_aliases :: "string list"
  it_exchange_order_id_aliases :: "string list"
  it_exchange_fill_offsets :: "(string \<times> decimal) list"
  it_exchange_quote_offsets :: "(string \<times> decimal) list"
  it_processed_requests :: "(string \<times> string) list"
  it_processed_request_outcomes :: "(string \<times> string) list"
  it_processed_event_ids :: "string list"

definition iterates :: "iteration \<Rightarrow> order \<Rightarrow> bool" where
  "iterates it ord \<longleftrightarrow>
     set (it_exchange_client_id_aliases it) = exchange_client_id_aliases ord \<and>
     set (it_exchange_order_id_aliases it) = exchange_order_id_aliases ord \<and>
     distinct (map fst (it_exchange_fill_offsets it)) \<and>
     map_of (it_exchange_fill_offsets it) = exchange_fill_offsets ord \<and>
     distinct (map fst (it_exchange_quote_offsets it)) \<and>
     map_of (it_exchange_quote_offsets it) = exchange_quote_offsets ord \<and>
     distinct (map fst (it_processed_requests it)) \<and>
     map_of (it_processed_requests it) = processed_requests ord \<and>
     distinct (map fst (it_processed_request_outcomes it)) \<and>
     map_of (it_processed_request_outcomes it) = processed_request_outcomes ord \<and>
     set (it_processed_event_ids it) = processed_event_ids ord"

definition order_to_json :: "'j json_api \<Rightarrow> iteration \<Rightarrow> order \<Rightarrow> 'j" where
  "order_to_json J it ord = j_object J (
     [(''clientOrderId'', j_of_string J (client_order_id ord)),
      (''exchangeOrderId'', j_of_string J (exchange_order_id ord)),
      (''exchangeClientIdAliases'', j_of_strings J (it_exchange_client_id_aliases it)),
      (''exchangeOrderIdAliases'', j_of_strings J (it_exchange_order_id_aliases it)),
      (''exchangeFillOffsets'', decimals_to_json J (it_exchange_fill_offsets it)),
      (''exchangeQuoteOffsets'', decimals_to_json J (it_exchange_quote_offsets it)),
      (''venue'', j_of_string J (venue_to_string (venue ord))),
      (''symbol'', j_of_string J (symbol ord)),
      (''side'', j_of_string J (side_to_string (side ord))),
      (''type'', j_of_string J (order_type_to_string (type ord))),
      (''quantity'', decimal_to_json J (quantity ord)),
      (''timeInForce'', j_of_string J (time_in_force_to_string (time_in_force ord))),
      (''status'', j_of_string J (order_status_to_string (status ord))),
      (''pendingAction'', j_of_string J (pending_action_to_string (pending_action ord))),
      (''filledQuantity'', decimal_to_json J (filled_quantity ord)),
      (''cumulativeQuote'', decimal_to_json J (cumulative_quote ord)),
      (''rejectionReason'', j_of_string J (rejection_reason ord)),
      (''version'', j_of_number J (uint (version ord))),
      (''createdAt'', j_of_number J (created_at_ms ord)),
      (''updatedAt'', j_of_number J (updated_at_ms ord)),
      (''createFingerprint'', j_of_string J (create_fingerprint ord)),
      (''processedRequests'', j_of_string_map J (it_processed_requests it)),
      (''processedRequestOutcomes'', j_of_string_map J (it_processed_request_outcomes it)),
      (''processedEventIds'', j_of_strings J (it_processed_event_ids it))] @
     optional_entry ''price'' (decimal_to_json J) (price ord) @
     optional_entry ''pendingAmendPrice'' (decimal_to_json J) (pending_amend_price ord) @
     optional_entry ''pendingAmendQuantity'' (decimal_to_json J) (pending_amend_quantity ord) @
     optional_entry ''averageFillPrice'' (decimal_to_json J) (average_fill_price ord) @
     optional_entry ''lastSequence'' (\<lambda>w. j_of_number J (uint w)) (last_sequence ord))"

definition order_from_json :: "'j json_api \<Rightarrow> 'j \<Rightarrow> order result" where
  "order_from_json J j =
     rbind (j_field J (j_get_string J) j ''clientOrderId'') (\<lambda>client_id.
     rbind (j_value J (j_get_string J) j ''exchangeOrderId'' []) (\<lambda>exchange_id.
     rbind (j_value J (strings_from_json J) j ''exchangeClientIdAliases'' {}) (\<lambda>client_aliases.
     rbind (j_value J (strings_from_json J) j ''exchangeOrderIdAliases'' {}) (\<lambda>order_aliases.
     rbind (j_value J (decimals_from_json J) j ''exchangeFillOffsets'' Map.empty) (\<lambda>fill_offsets.
     rbind (j_value J (decimals_from_json J) j ''exchangeQuoteOffsets'' Map.empty) (\<lambda>quote_offsets.
     rbind (rbind (j_field J (j_get_string J) j ''venue'') venue_from_string) (\<lambda>v.
     rbind (j_field J (j_get_string J) j ''symbol'') (\<lambda>smb.
     rbind (rbind (j_field J (j_get_string J) j ''side'') side_from_string) (\<lambda>sd.
     rbind (rbind (j_field J (j_get_string J) j ''type'') order_type_from_string) (\<lambda>ty.
     rbind (j_optional J (decimal_from_json J) j ''price'') (\<lambda>p.
     rbind (j_field J (decimal_from_json J) j ''quantity'') (\<lambda>qty.
     rbind (rbind (j_field J (j_get_string J) j ''timeInForce'') time_in_force_from_string) (\<lambda>tif.
     rbind (rbind (j_field J (j_get_string J) j ''status'') order_status_from_string) (\<lambda>st.
     rbind (rbind (j_value J (j_get_string J) j ''pendingAction'' ''NONE'') pending_action_from_string) (\<lambda>pa.
     rbind (j_optional J (decimal_from_json J) j ''pendingAmendPrice'') (\<lambda>pap.
     rbind (j_optional J (decimal_from_json J) j ''pendingAmendQuantity'') (\<lambda>paq.
     rbind (j_value J (decimal_from_json J) j ''filledQuantity'' 0) (\<lambda>filled.
     rbind (j_value J (decimal_from_json J) j ''cumulativeQuote'' 0) (\<lambda>quote.
     rbind (j_optional J (decimal_from_json J) j ''averageFillPrice'') (\<lambda>afp.
     rbind (j_value J (j_get_string J) j ''rejectionReason'' []) (\<lambda>rsn.
     rbind (j_value J (j_get_unsigned J) j ''version'' 1) (\<lambda>ver.
     rbind (j_optional J (j_get_unsigned J) j ''lastSequence'') (\<lambda>lseq.
     rbind (j_value J (j_get_integer J) j ''createdAt'' 0) (\<lambda>created.
     rbind (j_value J (j_get_integer J) j ''updatedAt'' 0) (\<lambda>updated.
     rbind (j_value J (j_get_string J) j ''createFingerprint'' []) (\<lambda>fp.
     rbind (j_value J (texts_from_json J) j ''processedRequests'' Map.empty) (\<lambda>requests.
     rbind (j_value J (texts_from_json J) j ''processedRequestOutcomes'' Map.empty) (\<lambda>outcomes.
     rbind (j_value J (strings_from_json J) j ''processedEventIds'' {}) (\<lambda>events.
     Inr \<lparr>client_order_id = client_id, exchange_order_id = exchange_id,
          exchange_client_id_aliases = client_aliases, exchange_order_id_aliases = order_aliases,
          exchange_fill_offsets = fill_offsets, exchange_quote_offsets = quote_offsets, venue = v, symbol = smb,
          side = sd, type = ty, price = p, quantity = qty, time_in_force = tif, status = st, pending_action = pa,
          pending_amend_price = pap, pending_amend_quantity = paq, filled_quantity = filled,
          cumulative_quote = quote, average_fill_price = afp, rejection_reason = rsn, version = ver,
          last_sequence = lseq, created_at_ms = created, updated_at_ms = updated, create_fingerprint = fp,
          processed_requests = requests, processed_request_outcomes = outcomes,
          processed_event_ids = events\<rparr>)))))))))))))))))))))))))))))"

section \<open>Requests\<close>

definition request_to_json :: "'j json_api \<Rightarrow> order_request \<Rightarrow> 'j" where
  "request_to_json J r = j_object J (
     [(''clientOrderId'', j_of_string J (rq_client_order_id r)),
      (''venue'', j_of_string J (venue_to_string (rq_venue r))),
      (''symbol'', j_of_string J (rq_symbol r)),
      (''side'', j_of_string J (side_to_string (rq_side r))),
      (''type'', j_of_string J (order_type_to_string (rq_type r))),
      (''quantity'', decimal_to_json J (rq_quantity r)),
      (''timeInForce'', j_of_string J (time_in_force_to_string (rq_time_in_force r)))] @
     optional_entry ''price'' (decimal_to_json J) (rq_price r))"

text \<open>Contained and not null.\<close>

definition j_present :: "'j json_api \<Rightarrow> 'j \<Rightarrow> string \<Rightarrow> 'j option" where
  "j_present J j k = (case j_find J j k of None \<Rightarrow> None | Some v \<Rightarrow> if j_is_null J v then None else Some v)"

definition request_from_json :: "'j json_api \<Rightarrow> 'j \<Rightarrow> order_request result" where
  "request_from_json J j =
     rbind (j_field J (j_get_string J) j ''clientOrderId'') (\<lambda>client_id.
     rbind (rbind (j_field J (j_get_string J) j ''venue'') venue_from_string) (\<lambda>v.
     rbind (j_field J (j_get_string J) j ''symbol'') (\<lambda>smb.
     rbind (rbind (j_field J (j_get_string J) j ''side'') side_from_string) (\<lambda>sd.
     rbind (rbind (j_field J (j_get_string J) j ''type'') order_type_from_string) (\<lambda>ty.
     rbind (case j_present J j ''price'' of
              None \<Rightarrow> Inr None | Some v \<Rightarrow> rbind (decimal_from_json J v) (\<lambda>d. Inr (Some d))) (\<lambda>p.
     rbind (j_field J (decimal_from_json J) j ''quantity'') (\<lambda>qty.
     rbind (rbind (j_value J (j_get_string J) j ''timeInForce'' ''GTC'') time_in_force_from_string) (\<lambda>tif.
     Inr \<lparr>rq_client_order_id = client_id, rq_venue = v, rq_symbol = smb, rq_side = sd, rq_type = ty,
          rq_price = p, rq_quantity = qty, rq_time_in_force = tif\<rparr>))))))))"

section \<open>Events\<close>

definition context_to_json :: "'j json_api \<Rightarrow> order_event_context \<Rightarrow> 'j" where
  "context_to_json J c = j_object J (
     [(''exchangeOrderId'', j_of_string J (ctx_exchange_order_id c)),
      (''symbol'', j_of_string J (ctx_symbol c)),
      (''side'', j_of_string J (side_to_string (ctx_side c))),
      (''type'', j_of_string J (order_type_to_string (ctx_type c))),
      (''quantity'', decimal_to_json J (ctx_quantity c)),
      (''filledQuantity'', decimal_to_json J (ctx_filled_quantity c)),
      (''status'', j_of_string J (order_status_to_string (ctx_status c))),
      (''pendingAction'', j_of_string J (pending_action_to_string (ctx_pending_action c))),
      (''rejectionReason'', j_of_string J (ctx_rejection_reason c)),
      (''version'', j_of_number J (uint (ctx_version c))),
      (''exchangeTime'', j_of_number J (ctx_exchange_time_ms c))] @
     optional_entry ''price'' (decimal_to_json J) (ctx_price c) @
     optional_entry ''averageFillPrice'' (decimal_to_json J) (ctx_average_fill_price c) @
     optional_entry ''venueSequence'' (\<lambda>w. j_of_number J (uint w)) (ctx_venue_sequence c))"

text \<open>An empty text stands for no price, and for a zero quantity.\<close>

definition context_price :: "'j json_api \<Rightarrow> 'j \<Rightarrow> string \<Rightarrow> decimal option result" where
  "context_price J j k =
     (case j_present J j k of
        None \<Rightarrow> Inr None
      | Some v \<Rightarrow>
          rbind (if j_is_string J v then j_get_string J v else Inr []) (\<lambda>text.
          if \<not> j_is_string J v \<or> text \<noteq> [] then rbind (decimal_from_json J v) (\<lambda>d. Inr (Some d)) else Inr None))"

definition context_quantity :: "'j json_api \<Rightarrow> 'j \<Rightarrow> string \<Rightarrow> decimal result" where
  "context_quantity J j k =
     (case j_find J j k of
        None \<Rightarrow> Inr 0
      | Some v \<Rightarrow> rbind (j_get_string J v) (\<lambda>text. if text = [] then Inr 0 else decimal_from_json J v))"

definition context_from_json :: "'j json_api \<Rightarrow> 'j \<Rightarrow> order_event_context result" where
  "context_from_json J j =
     rbind (j_value J (j_get_string J) j ''exchangeOrderId'' []) (\<lambda>exchange_id.
     rbind (j_value J (j_get_string J) j ''symbol'' []) (\<lambda>smb.
     rbind (rbind (j_value J (j_get_string J) j ''side'' ''BUY'') side_from_string) (\<lambda>sd.
     rbind (rbind (j_value J (j_get_string J) j ''type'' ''LIMIT'') order_type_from_string) (\<lambda>ty.
     rbind (context_price J j ''price'') (\<lambda>p.
     rbind (context_price J j ''averageFillPrice'') (\<lambda>afp.
     rbind (context_quantity J j ''quantity'') (\<lambda>qty.
     rbind (context_quantity J j ''filledQuantity'') (\<lambda>filled.
     rbind (rbind (j_value J (j_get_string J) j ''status'' ''UNKNOWN'') order_status_from_string) (\<lambda>st.
     rbind (rbind (j_value J (j_get_string J) j ''pendingAction'' ''NONE'') pending_action_from_string) (\<lambda>pa.
     rbind (j_value J (j_get_string J) j ''rejectionReason'' []) (\<lambda>rsn.
     rbind (j_value J (j_get_unsigned J) j ''version'' 0) (\<lambda>ver.
     rbind (j_optional J (j_get_unsigned J) j ''venueSequence'') (\<lambda>vseq.
     rbind (j_value J (j_get_integer J) j ''exchangeTime'' 0) (\<lambda>time.
     Inr \<lparr>ctx_exchange_order_id = exchange_id, ctx_symbol = smb, ctx_side = sd, ctx_type = ty, ctx_price = p,
          ctx_average_fill_price = afp, ctx_quantity = qty, ctx_filled_quantity = filled, ctx_status = st,
          ctx_pending_action = pa, ctx_rejection_reason = rsn, ctx_version = ver, ctx_venue_sequence = vseq,
          ctx_exchange_time_ms = time\<rparr>))))))))))))))"

definition event_to_json :: "'j json_api \<Rightarrow> operational_event \<Rightarrow> 'j" where
  "event_to_json J e = j_object J (
     [(''occurredAt'', j_of_number J (ev_occurred_at_ms e)),
      (''severity'', j_of_string J (severity_to_string (ev_severity e))),
      (''category'', j_of_string J (ev_category e)),
      (''code'', j_of_string J (ev_code e)),
      (''message'', j_of_string J (ev_message e)),
      (''instanceId'', j_of_string J (ev_instance_id e)),
      (''clientOrderId'', j_of_string J (ev_client_order_id e)),
      (''requestId'', j_of_string J (ev_request_id e))] @
     optional_entry ''venue'' (\<lambda>v. j_of_string J (venue_to_string v)) (ev_venue e) @
     optional_entry ''order'' (context_to_json J) (ev_order e))"

text \<open>The sequence of an event is not part of its payload: the journal record carries it.\<close>

definition event_from_json :: "'j json_api \<Rightarrow> 'j \<Rightarrow> operational_event result" where
  "event_from_json J j =
     rbind (j_field J (j_get_integer J) j ''occurredAt'') (\<lambda>time.
     rbind (rbind (j_field J (j_get_string J) j ''severity'') operational_severity_from_string) (\<lambda>sev.
     rbind (j_field J (j_get_string J) j ''category'') (\<lambda>cat.
     rbind (j_field J (j_get_string J) j ''code'') (\<lambda>code.
     rbind (j_field J (j_get_string J) j ''message'') (\<lambda>message.
     rbind (j_value J (j_get_string J) j ''instanceId'' []) (\<lambda>inst.
     rbind (j_value J (j_get_string J) j ''clientOrderId'' []) (\<lambda>client_id.
     rbind (j_value J (j_get_string J) j ''requestId'' []) (\<lambda>request_id.
     rbind (j_optional J (\<lambda>v. rbind (j_get_string J v) venue_from_string) j ''venue'') (\<lambda>v.
     rbind (j_optional J (context_from_json J) j ''order'') (\<lambda>ctx.
     Inr \<lparr>ev_sequence = 0, ev_occurred_at_ms = time, ev_severity = sev, ev_category = cat, ev_code = code,
          ev_message = message, ev_instance_id = inst, ev_venue = v, ev_client_order_id = client_id,
          ev_request_id = request_id, ev_order = ctx\<rparr>))))))))))"

section \<open>Reading back\<close>

lemma json_lawsD:
  assumes "json_laws J"
  shows "distinct (map fst kvs) \<Longrightarrow> j_find J (j_object J kvs) k = map_of kvs k"
    and "j_get_string J (j_of_string J s) = Inr s" and "j_is_string J (j_of_string J s)"
    and "\<not> j_is_null J (j_of_string J s)"
    and "in_int64 i \<Longrightarrow> j_get_integer J (j_of_number J i) = Inr i"
    and "j_get_unsigned J (j_of_number J (uint w)) = Inr w"
  using assms by (simp_all add: json_laws_def)

lemma strings_roundtrip: "json_laws J \<Longrightarrow> strings_from_json J (j_of_strings J xs) = Inr (set xs)"
proof -
  assume "json_laws J"
  then obtain ys where "j_get_strings J (j_of_strings J xs) = Inr ys" "set ys = set xs"
    unfolding json_laws_def by blast
  then show ?thesis by (simp add: strings_from_json_def)
qed

lemma same_map: "distinct (map fst m) \<Longrightarrow> distinct (map fst m') \<Longrightarrow> set m' = set m \<Longrightarrow> map_of m' = map_of m"
proof (rule ext)
  fix k
  assume m: "distinct (map fst m)" "distinct (map fst m')" "set m' = set m"
  show "map_of m' k = map_of m k"
  proof (cases "map_of m k")
    case None
    then show ?thesis using m(3) by (metis map_of_eq_None_iff)
  next
    case (Some v)
    then have "(k, v) \<in> set m'" using m(3) map_of_SomeD by fastforce
    then show ?thesis using Some m(2) by simp
  qed
qed

lemma texts_roundtrip:
  assumes "json_laws J" "distinct (map fst m)"
  shows "texts_from_json J (j_of_string_map J m) = Inr (map_of m)"
proof -
  obtain m' where "j_get_string_map J (j_of_string_map J m) = Inr m'" "distinct (map fst m')" "set m' = set m"
    using assms unfolding json_laws_def by blast
  then show ?thesis using same_map [OF assms(2)] by (simp add: texts_from_json_def)
qed

lemma parse_entries_map:
  assumes "\<forall>(k, s) \<in> set m. \<exists>d. parse s = Inr d"
  shows "parse_entries m = Inr (map (\<lambda>(k, s). (k, projr (parse s))) m)"
  using assms by (induction m) auto

lemma decimals_roundtrip:
  assumes "json_laws J" "distinct (map fst m)" "\<forall>(k, d) \<in> set m. wf_decimal d"
  shows "decimals_from_json J (decimals_to_json J m) = Inr (map_of m)"
proof -
  let ?t = "map (\<lambda>(k, d). (k, to_string d)) m"
  have keys: "distinct (map fst ?t)" using assms(2) by (simp add: case_prod_beta comp_def)
  then obtain m' where m': "j_get_string_map J (j_of_string_map J ?t) = Inr m'" "distinct (map fst m')" "set m' = set ?t"
    using assms(1) unfolding json_laws_def by blast
  let ?p = "\<lambda>(k, s). (k, projr (parse s))"
  have "\<forall>(k, s) \<in> set m'. \<exists>d. parse s = Inr d" using assms(3) parse_formatted unfolding m'(3) by fastforce
  then have "parse_entries m' = Inr (map ?p m')" by (rule parse_entries_map)
  moreover have "map_of (map ?p m') = map_of m"
  proof (rule same_map [OF assms(2)])
    show "distinct (map fst (map ?p m'))" using m'(2) by (simp add: case_prod_beta comp_def)
    have "set (map ?p m') = ?p ` set ?t" by (simp add: m'(3))
    also have "\<dots> = set m" using assms(3) parse_formatted by (force simp: image_iff)
    finally show "set (map ?p m') = set m" .
  qed
  ultimately show ?thesis using m'(1) by (simp add: decimals_from_json_def decimals_to_json_def)
qed

lemma rbind_weak_cong: "m = m' \<Longrightarrow> rbind m f = rbind m' f"
  by simp

lemma optional_entry_simps [simp]:
  "map_of (optional_entry k f v) k' = (if k' = k then map_option f v else None)"
  "distinct (map fst (optional_entry k f v))"
  "k' \<in> fst ` set (optional_entry k f v) \<longleftrightarrow> k' = k \<and> v \<noteq> None"
  by (auto simp: optional_entry_def split: option.splits)

lemma j_field_found: "j_find J j k = Some v \<Longrightarrow> j_field J get j k = get v"
  by (simp add: j_field_def j_at_def)

lemma j_value_found: "j_find J j k = Some v \<Longrightarrow> j_value J get j k d = get v"
  by (simp add: j_value_def)

lemma j_optional_found:
  "j_find J j k = map_option f v \<Longrightarrow> (\<And>a. v = Some a \<Longrightarrow> get (f a) = Inr a) \<Longrightarrow> j_optional J get j k = Inr v"
  by (cases v) (simp_all add: j_optional_def)

lemmas j_found = j_field_found j_value_found

lemma decimal_read:
  "json_laws J \<Longrightarrow> wf_decimal d \<Longrightarrow> decimal_from_json J (decimal_to_json J d) = Inr d"
  by (simp add: decimal_from_json_def decimal_to_json_def json_lawsD parse_formatted)

lemmas json_read = json_lawsD(2-6) strings_roundtrip texts_roundtrip decimals_roundtrip decimal_read

text \<open>The values an order must hold to be written: every decimal and time in its 64-bit range.\<close>

definition serializable :: "order \<Rightarrow> bool" where
  "serializable ord \<longleftrightarrow>
     wf_decimal (quantity ord) \<and> wf_decimal (filled_quantity ord) \<and> wf_decimal (cumulative_quote ord) \<and>
     (\<forall>d. price ord = Some d \<longrightarrow> wf_decimal d) \<and> (\<forall>d. pending_amend_price ord = Some d \<longrightarrow> wf_decimal d) \<and>
     (\<forall>d. pending_amend_quantity ord = Some d \<longrightarrow> wf_decimal d) \<and>
     (\<forall>d. average_fill_price ord = Some d \<longrightarrow> wf_decimal d) \<and>
     (\<forall>d \<in> ran (exchange_fill_offsets ord). wf_decimal d) \<and>
     (\<forall>d \<in> ran (exchange_quote_offsets ord). wf_decimal d) \<and>
     in_int64 (created_at_ms ord) \<and> in_int64 (updated_at_ms ord)"

lemma ran_entries:
  assumes "\<forall>d \<in> ran f. P d" "distinct (map fst m)" "map_of m = f"
  shows "\<forall>(k, d) \<in> set m. P d"
  using assms by (auto simp: ran_def) (metis map_of_is_SomeI)

lemma order_find:
  assumes "json_laws J"
  shows "j_find J (order_to_json J it ord) k = map_of (
     [(''clientOrderId'', j_of_string J (client_order_id ord)),
      (''exchangeOrderId'', j_of_string J (exchange_order_id ord)),
      (''exchangeClientIdAliases'', j_of_strings J (it_exchange_client_id_aliases it)),
      (''exchangeOrderIdAliases'', j_of_strings J (it_exchange_order_id_aliases it)),
      (''exchangeFillOffsets'', decimals_to_json J (it_exchange_fill_offsets it)),
      (''exchangeQuoteOffsets'', decimals_to_json J (it_exchange_quote_offsets it)),
      (''venue'', j_of_string J (venue_to_string (venue ord))),
      (''symbol'', j_of_string J (symbol ord)),
      (''side'', j_of_string J (side_to_string (side ord))),
      (''type'', j_of_string J (order_type_to_string (type ord))),
      (''quantity'', decimal_to_json J (quantity ord)),
      (''timeInForce'', j_of_string J (time_in_force_to_string (time_in_force ord))),
      (''status'', j_of_string J (order_status_to_string (status ord))),
      (''pendingAction'', j_of_string J (pending_action_to_string (pending_action ord))),
      (''filledQuantity'', decimal_to_json J (filled_quantity ord)),
      (''cumulativeQuote'', decimal_to_json J (cumulative_quote ord)),
      (''rejectionReason'', j_of_string J (rejection_reason ord)),
      (''version'', j_of_number J (uint (version ord))),
      (''createdAt'', j_of_number J (created_at_ms ord)),
      (''updatedAt'', j_of_number J (updated_at_ms ord)),
      (''createFingerprint'', j_of_string J (create_fingerprint ord)),
      (''processedRequests'', j_of_string_map J (it_processed_requests it)),
      (''processedRequestOutcomes'', j_of_string_map J (it_processed_request_outcomes it)),
      (''processedEventIds'', j_of_strings J (it_processed_event_ids it))] @
     optional_entry ''price'' (decimal_to_json J) (price ord) @
     optional_entry ''pendingAmendPrice'' (decimal_to_json J) (pending_amend_price ord) @
     optional_entry ''pendingAmendQuantity'' (decimal_to_json J) (pending_amend_quantity ord) @
     optional_entry ''averageFillPrice'' (decimal_to_json J) (average_fill_price ord) @
     optional_entry ''lastSequence'' (\<lambda>w. j_of_number J (uint w)) (last_sequence ord)) k"
  unfolding order_to_json_def by (rule json_lawsD(1) [OF assms]) (simp add: disjoint_iff)

lemma order_finds:
  assumes "json_laws J"
  shows
    "j_find J (order_to_json J it ord) ''clientOrderId'' = Some (j_of_string J (client_order_id ord))"
    "j_find J (order_to_json J it ord) ''exchangeOrderId'' = Some (j_of_string J (exchange_order_id ord))"
    "j_find J (order_to_json J it ord) ''exchangeClientIdAliases'' = Some (j_of_strings J (it_exchange_client_id_aliases it))"
    "j_find J (order_to_json J it ord) ''exchangeOrderIdAliases'' = Some (j_of_strings J (it_exchange_order_id_aliases it))"
    "j_find J (order_to_json J it ord) ''exchangeFillOffsets'' = Some (decimals_to_json J (it_exchange_fill_offsets it))"
    "j_find J (order_to_json J it ord) ''exchangeQuoteOffsets'' = Some (decimals_to_json J (it_exchange_quote_offsets it))"
    "j_find J (order_to_json J it ord) ''venue'' = Some (j_of_string J (venue_to_string (venue ord)))"
    "j_find J (order_to_json J it ord) ''symbol'' = Some (j_of_string J (symbol ord))"
    "j_find J (order_to_json J it ord) ''side'' = Some (j_of_string J (side_to_string (side ord)))"
    "j_find J (order_to_json J it ord) ''type'' = Some (j_of_string J (order_type_to_string (type ord)))"
    "j_find J (order_to_json J it ord) ''quantity'' = Some (decimal_to_json J (quantity ord))"
    "j_find J (order_to_json J it ord) ''timeInForce'' = Some (j_of_string J (time_in_force_to_string (time_in_force ord)))"
    "j_find J (order_to_json J it ord) ''status'' = Some (j_of_string J (order_status_to_string (status ord)))"
    "j_find J (order_to_json J it ord) ''pendingAction'' = Some (j_of_string J (pending_action_to_string (pending_action ord)))"
    "j_find J (order_to_json J it ord) ''filledQuantity'' = Some (decimal_to_json J (filled_quantity ord))"
    "j_find J (order_to_json J it ord) ''cumulativeQuote'' = Some (decimal_to_json J (cumulative_quote ord))"
    "j_find J (order_to_json J it ord) ''rejectionReason'' = Some (j_of_string J (rejection_reason ord))"
    "j_find J (order_to_json J it ord) ''version'' = Some (j_of_number J (uint (version ord)))"
    "j_find J (order_to_json J it ord) ''createdAt'' = Some (j_of_number J (created_at_ms ord))"
    "j_find J (order_to_json J it ord) ''updatedAt'' = Some (j_of_number J (updated_at_ms ord))"
    "j_find J (order_to_json J it ord) ''createFingerprint'' = Some (j_of_string J (create_fingerprint ord))"
    "j_find J (order_to_json J it ord) ''processedRequests'' = Some (j_of_string_map J (it_processed_requests it))"
    "j_find J (order_to_json J it ord) ''processedRequestOutcomes'' = Some (j_of_string_map J (it_processed_request_outcomes it))"
    "j_find J (order_to_json J it ord) ''processedEventIds'' = Some (j_of_strings J (it_processed_event_ids it))"
  by (simp_all add: order_find [OF assms] map_add_Some_iff)

lemma order_finds_optional:
  assumes "json_laws J"
  shows
    "j_find J (order_to_json J it ord) ''price'' = map_option (decimal_to_json J) (price ord)"
    "j_find J (order_to_json J it ord) ''pendingAmendPrice'' = map_option (decimal_to_json J) (pending_amend_price ord)"
    "j_find J (order_to_json J it ord) ''pendingAmendQuantity'' = map_option (decimal_to_json J) (pending_amend_quantity ord)"
    "j_find J (order_to_json J it ord) ''averageFillPrice'' = map_option (decimal_to_json J) (average_fill_price ord)"
    "j_find J (order_to_json J it ord) ''lastSequence'' = map_option (\<lambda>w. j_of_number J (uint w)) (last_sequence ord)"
      apply (cases "price ord"; simp add: order_find [OF assms] map_add_def)
     apply (cases "pending_amend_price ord"; simp add: order_find [OF assms] map_add_def)
    apply (cases "pending_amend_quantity ord"; simp add: order_find [OF assms] map_add_def)
   apply (cases "average_fill_price ord"; simp add: order_find [OF assms] map_add_def)
  apply (cases "last_sequence ord"; simp add: order_find [OF assms] map_add_def)
  done

lemma order_read:
  assumes "json_laws J" "iterates it ord" "serializable ord"
  shows "order_from_json J (order_to_json J it ord) = Inr ord"
proof -
  note it = assms(2) [unfolded iterates_def]
  have fill: "\<forall>(k, d) \<in> set (it_exchange_fill_offsets it). wf_decimal d"
    by (rule ran_entries [of "exchange_fill_offsets ord"]) (use it assms(3) in \<open>simp_all add: serializable_def\<close>)
  have quote: "\<forall>(k, d) \<in> set (it_exchange_quote_offsets it). wf_decimal d"
    by (rule ran_entries [of "exchange_quote_offsets ord"]) (use it assms(3) in \<open>simp_all add: serializable_def\<close>)
  have opts: "j_optional J (decimal_from_json J) (order_to_json J it ord) ''price'' = Inr (price ord)"
    "j_optional J (decimal_from_json J) (order_to_json J it ord) ''pendingAmendPrice'' = Inr (pending_amend_price ord)"
    "j_optional J (decimal_from_json J) (order_to_json J it ord) ''pendingAmendQuantity'' = Inr (pending_amend_quantity ord)"
    "j_optional J (decimal_from_json J) (order_to_json J it ord) ''averageFillPrice'' = Inr (average_fill_price ord)"
    "j_optional J (j_get_unsigned J) (order_to_json J it ord) ''lastSequence'' = Inr (last_sequence ord)"
    using assms(1,3) by (auto intro!: j_optional_found order_finds_optional simp: json_read serializable_def)
  show ?thesis
    unfolding order_from_json_def opts using assms(1,3) it fill quote
    by (simp add: j_found order_finds json_read serializable_def cong: rbind_weak_cong)
qed

lemma request_finds:
  assumes "json_laws J"
  shows
    "j_find J (request_to_json J r) ''clientOrderId'' = Some (j_of_string J (rq_client_order_id r))"
    "j_find J (request_to_json J r) ''venue'' = Some (j_of_string J (venue_to_string (rq_venue r)))"
    "j_find J (request_to_json J r) ''symbol'' = Some (j_of_string J (rq_symbol r))"
    "j_find J (request_to_json J r) ''side'' = Some (j_of_string J (side_to_string (rq_side r)))"
    "j_find J (request_to_json J r) ''type'' = Some (j_of_string J (order_type_to_string (rq_type r)))"
    "j_find J (request_to_json J r) ''quantity'' = Some (decimal_to_json J (rq_quantity r))"
    "j_find J (request_to_json J r) ''timeInForce'' = Some (j_of_string J (time_in_force_to_string (rq_time_in_force r)))"
  unfolding request_to_json_def by (subst json_lawsD(1) [OF assms]; simp add: disjoint_iff map_add_Some_iff)+

lemma request_finds_optional:
  assumes "json_laws J"
  shows
    "j_find J (request_to_json J r) ''price'' = map_option (decimal_to_json J) (rq_price r)"
  unfolding request_to_json_def
  apply (subst json_lawsD(1) [OF assms]; cases "rq_price r"; simp add: disjoint_iff map_add_def)
  done

lemma request_read:
  assumes "json_laws J" "wf_decimal (rq_quantity r)" "\<And>d. rq_price r = Some d \<Longrightarrow> wf_decimal d"
  shows "request_from_json J (request_to_json J r) = Inr r"
proof -
  have "j_present J (request_to_json J r) ''price'' = map_option (decimal_to_json J) (rq_price r)"
    by (cases "rq_price r") (simp_all add: j_present_def request_finds_optional [OF assms(1)] decimal_to_json_def json_lawsD assms(1))
  then have "(case j_present J (request_to_json J r) ''price'' of
      None \<Rightarrow> Inr None | Some v \<Rightarrow> rbind (decimal_from_json J v) (\<lambda>d. Inr (Some d))) = Inr (rq_price r)"
    using assms(1,3) by (cases "rq_price r") (simp_all add: decimal_read)
  then show ?thesis
    unfolding request_from_json_def
    using assms(1,2) by (simp add: j_found request_finds json_read cong: rbind_weak_cong)
qed

lemma context_finds:
  assumes "json_laws J"
  shows
    "j_find J (context_to_json J c) ''exchangeOrderId'' = Some (j_of_string J (ctx_exchange_order_id c))"
    "j_find J (context_to_json J c) ''symbol'' = Some (j_of_string J (ctx_symbol c))"
    "j_find J (context_to_json J c) ''side'' = Some (j_of_string J (side_to_string (ctx_side c)))"
    "j_find J (context_to_json J c) ''type'' = Some (j_of_string J (order_type_to_string (ctx_type c)))"
    "j_find J (context_to_json J c) ''quantity'' = Some (decimal_to_json J (ctx_quantity c))"
    "j_find J (context_to_json J c) ''filledQuantity'' = Some (decimal_to_json J (ctx_filled_quantity c))"
    "j_find J (context_to_json J c) ''status'' = Some (j_of_string J (order_status_to_string (ctx_status c)))"
    "j_find J (context_to_json J c) ''pendingAction'' = Some (j_of_string J (pending_action_to_string (ctx_pending_action c)))"
    "j_find J (context_to_json J c) ''rejectionReason'' = Some (j_of_string J (ctx_rejection_reason c))"
    "j_find J (context_to_json J c) ''version'' = Some (j_of_number J (uint (ctx_version c)))"
    "j_find J (context_to_json J c) ''exchangeTime'' = Some (j_of_number J (ctx_exchange_time_ms c))"
  unfolding context_to_json_def by (subst json_lawsD(1) [OF assms]; simp add: disjoint_iff map_add_Some_iff)+

lemma context_finds_optional:
  assumes "json_laws J"
  shows
    "j_find J (context_to_json J c) ''price'' = map_option (decimal_to_json J) (ctx_price c)"
    "j_find J (context_to_json J c) ''averageFillPrice'' = map_option (decimal_to_json J) (ctx_average_fill_price c)"
    "j_find J (context_to_json J c) ''venueSequence'' = map_option (\<lambda>w. j_of_number J (uint w)) (ctx_venue_sequence c)"
  unfolding context_to_json_def
    apply (subst json_lawsD(1) [OF assms]; cases "ctx_price c"; simp add: disjoint_iff map_add_def)
   apply (subst json_lawsD(1) [OF assms]; cases "ctx_average_fill_price c"; simp add: disjoint_iff map_add_def)
  apply (subst json_lawsD(1) [OF assms]; cases "ctx_venue_sequence c"; simp add: disjoint_iff map_add_def)
  done

definition serializable_context :: "order_event_context \<Rightarrow> bool" where
  "serializable_context c \<longleftrightarrow> wf_decimal (ctx_quantity c) \<and> wf_decimal (ctx_filled_quantity c) \<and>
     (\<forall>d. ctx_price c = Some d \<longrightarrow> wf_decimal d) \<and> (\<forall>d. ctx_average_fill_price c = Some d \<longrightarrow> wf_decimal d) \<and>
     in_int64 (ctx_exchange_time_ms c)"

lemma to_string_nonempty [simp]: "wf_decimal d \<Longrightarrow> to_string d \<noteq> []"
  by (auto elim!: to_string_cases)

lemma context_price_read:
  assumes "json_laws J" "j_find J j k = map_option (decimal_to_json J) p" "\<And>d. p = Some d \<Longrightarrow> wf_decimal d"
  shows "context_price J j k = Inr p"
  using assms by (cases p) (simp_all add: context_price_def j_present_def decimal_to_json_def decimal_from_json_def
      json_lawsD parse_formatted)

lemma context_quantity_read:
  assumes "json_laws J" "j_find J j k = Some (decimal_to_json J d)" "wf_decimal d"
  shows "context_quantity J j k = Inr d"
  using assms by (simp add: context_quantity_def decimal_to_json_def decimal_from_json_def json_lawsD parse_formatted)

lemma context_read:
  assumes "json_laws J" "serializable_context c"
  shows "context_from_json J (context_to_json J c) = Inr c"
proof -
  let ?j = "context_to_json J c"
  have parts: "context_price J ?j ''price'' = Inr (ctx_price c)"
    "context_price J ?j ''averageFillPrice'' = Inr (ctx_average_fill_price c)"
    "context_quantity J ?j ''quantity'' = Inr (ctx_quantity c)"
    "context_quantity J ?j ''filledQuantity'' = Inr (ctx_filled_quantity c)"
    "j_optional J (j_get_unsigned J) ?j ''venueSequence'' = Inr (ctx_venue_sequence c)"
    using assms by (auto intro!: context_price_read context_quantity_read j_optional_found context_finds_optional
        context_finds simp: serializable_context_def json_read)
  show ?thesis
    unfolding context_from_json_def parts using assms
    by (simp add: j_found context_finds json_read serializable_context_def cong: rbind_weak_cong)
qed

lemma event_finds:
  assumes "json_laws J"
  shows
    "j_find J (event_to_json J e) ''occurredAt'' = Some (j_of_number J (ev_occurred_at_ms e))"
    "j_find J (event_to_json J e) ''severity'' = Some (j_of_string J (severity_to_string (ev_severity e)))"
    "j_find J (event_to_json J e) ''category'' = Some (j_of_string J (ev_category e))"
    "j_find J (event_to_json J e) ''code'' = Some (j_of_string J (ev_code e))"
    "j_find J (event_to_json J e) ''message'' = Some (j_of_string J (ev_message e))"
    "j_find J (event_to_json J e) ''instanceId'' = Some (j_of_string J (ev_instance_id e))"
    "j_find J (event_to_json J e) ''clientOrderId'' = Some (j_of_string J (ev_client_order_id e))"
    "j_find J (event_to_json J e) ''requestId'' = Some (j_of_string J (ev_request_id e))"
  unfolding event_to_json_def by (subst json_lawsD(1) [OF assms]; simp add: disjoint_iff map_add_Some_iff)+

lemma event_finds_optional:
  assumes "json_laws J"
  shows
    "j_find J (event_to_json J e) ''venue'' = map_option (\<lambda>v. j_of_string J (venue_to_string v)) (ev_venue e)"
    "j_find J (event_to_json J e) ''order'' = map_option (context_to_json J) (ev_order e)"
  unfolding event_to_json_def
   apply (subst json_lawsD(1) [OF assms]; cases "ev_venue e"; simp add: disjoint_iff map_add_def)
  apply (subst json_lawsD(1) [OF assms]; cases "ev_order e"; simp add: disjoint_iff map_add_def)
  done

definition serializable_event :: "operational_event \<Rightarrow> bool" where
  "serializable_event e \<longleftrightarrow> in_int64 (ev_occurred_at_ms e) \<and> (\<forall>c. ev_order e = Some c \<longrightarrow> serializable_context c)"

lemma event_read:
  assumes "json_laws J" "serializable_event e"
  shows "event_from_json J (event_to_json J e) = Inr (e\<lparr>ev_sequence := 0\<rparr>)"
proof -
  let ?j = "event_to_json J e"
  have parts: "j_optional J (\<lambda>v. rbind (j_get_string J v) venue_from_string) ?j ''venue'' = Inr (ev_venue e)"
    "j_optional J (context_from_json J) ?j ''order'' = Inr (ev_order e)"
    using assms by (auto intro!: j_optional_found event_finds_optional simp: serializable_event_def json_read context_read)
  show ?thesis
    unfolding event_from_json_def parts using assms
    by (simp add: j_found event_finds json_read serializable_event_def cong: rbind_weak_cong)
qed

section \<open>A library that satisfies the laws\<close>

datatype json_tree =
    JString string
  | JNumber int
  | JStrings "string list"
  | JStringMap "(string \<times> string) list"
  | JObject "(string \<times> json_tree) list"

definition wrong_type :: exn where "wrong_type = Json_exception ''type_error''"

definition tree_json :: "(string \<Rightarrow> json_tree result) \<Rightarrow> json_tree json_api" where
  "tree_json parser =
     \<lparr>j_parse = parser, j_dump = (\<lambda>_. []), j_object = JObject, j_of_string = JString, j_of_number = JNumber,
      j_of_strings = JStrings, j_of_string_map = JStringMap,
      j_find = (\<lambda>j k. case j of JObject kvs \<Rightarrow> map_of kvs k | _ \<Rightarrow> None),
      j_missing = Json_exception, j_is_null = (\<lambda>_. False),
      j_is_string = (\<lambda>j. case j of JString _ \<Rightarrow> True | _ \<Rightarrow> False),
      j_get_string = (\<lambda>j. case j of JString s \<Rightarrow> Inr s | _ \<Rightarrow> Inl wrong_type),
      j_get_integer = (\<lambda>j. case j of JNumber i \<Rightarrow> Inr i | _ \<Rightarrow> Inl wrong_type),
      j_get_unsigned = (\<lambda>j. case j of JNumber i \<Rightarrow> Inr (word_of_int i) | _ \<Rightarrow> Inl wrong_type),
      j_get_strings = (\<lambda>j. case j of JStrings xs \<Rightarrow> Inr xs | _ \<Rightarrow> Inl wrong_type),
      j_get_string_map = (\<lambda>j. case j of JStringMap m \<Rightarrow> Inr m | _ \<Rightarrow> Inl wrong_type)\<rparr>"

lemma tree_json_laws: "json_laws (tree_json parser)"
  by (auto simp: json_laws_def tree_json_def)

section \<open>Properties\<close>

text \<open>C40. Orders, requests and events survive their JSON form: with a JSON library that reads back what
  was put in, converting to JSON and back gives the same order (every field, set and map), the same request
  and the same event except for its sequence, for all values whose decimals and times are in their 64-bit range. The sequence
  of an event is not part of its JSON form: the record of the journal around it carries it, and reading leaves it 0.\<close>

theorem json_roundtrip:
  assumes "json_laws J" and "iterates it ord" and "serializable ord" and "serializable_event e"
    and "wf_decimal (rq_quantity r)" and "\<forall>d. rq_price r = Some d \<longrightarrow> wf_decimal d"
  shows "order_from_json J (order_to_json J it ord) = Inr ord \<and>
    request_from_json J (request_to_json J r) = Inr r \<and>
    event_from_json J (event_to_json J e) = Inr (e\<lparr>ev_sequence := 0\<rparr>)"
  using order_read [OF assms(1-3)] request_read [OF assms(1,5)] event_read [OF assms(1,4)] assms(6) by blast

definition json_sample_request :: order_request where
  "json_sample_request = \<lparr>rq_client_order_id = ''c1'', rq_venue = Okx, rq_symbol = ''BTC-USDT'', rq_side = Buy,
     rq_type = Limit, rq_price = Some (Decimal 5000000000), rq_quantity = Decimal 100000000,
     rq_time_in_force = Gtc\<rparr>"

definition json_sample_event :: operational_event where
  "json_sample_event = \<lparr>ev_sequence = 7, ev_occurred_at_ms = 1000, ev_severity = Warning, ev_category = ''ORDERS'',
     ev_code = ''PLACED'', ev_message = ''placed'', ev_instance_id = ''i1'', ev_venue = Some Okx,
     ev_client_order_id = ''c1'', ev_request_id = ''r1'', ev_order = None\<rparr>"

definition json_sample_order :: order where
  "json_sample_order = (make_order 1000 json_sample_request [] 1)\<lparr>exchange_order_id_aliases := {''x1''},
     exchange_fill_offsets := [''x1'' \<mapsto> Decimal 5], processed_requests := [''r1'' \<mapsto> ''CANCEL'']\<rparr>"

definition json_sample_iteration :: iteration where
  "json_sample_iteration = \<lparr>it_exchange_client_id_aliases = [], it_exchange_order_id_aliases = [''x1''],
     it_exchange_fill_offsets = [(''x1'', Decimal 5)], it_exchange_quote_offsets = [],
     it_processed_requests = [(''r1'', ''CANCEL'')], it_processed_request_outcomes = [], it_processed_event_ids = []\<rparr>"

lemma json_sample_iterates: "iterates json_sample_iteration json_sample_order" "serializable json_sample_order"
  by (auto simp: iterates_def json_sample_iteration_def json_sample_order_def make_order_def Let_def serializable_def
      wf_decimal_def in_int64_def int64_bounds json_sample_request_def zero_decimal_def split: if_splits)

theorem json_roundtrip_witness:
  "order_from_json (tree_json (\<lambda>_. Inl wrong_type)) (order_to_json (tree_json (\<lambda>_. Inl wrong_type)) json_sample_iteration json_sample_order) = Inr json_sample_order \<and>
   request_from_json (tree_json (\<lambda>_. Inl wrong_type)) (request_to_json (tree_json (\<lambda>_. Inl wrong_type)) json_sample_request) = Inr json_sample_request \<and>
   event_from_json (tree_json (\<lambda>_. Inl wrong_type)) (event_to_json (tree_json (\<lambda>_. Inl wrong_type)) json_sample_event) =
     Inr (json_sample_event\<lparr>ev_sequence := 0\<rparr>)"
  using json_roundtrip [OF tree_json_laws json_sample_iterates, of json_sample_event json_sample_request]
  by (simp add: json_sample_event_def json_sample_request_def serializable_event_def wf_decimal_def in_int64_def int64_bounds)

end
