(* ===== verification/Abex_Serializer.thy ===== *)
theory Abex_Serializer
  imports Abex_Json
begin

text \<open>
  The writers of journal payloads (\<open>include/abex/infrastructure/journal_serializer.hpp\<close>) and the reader of
  the key-value format (\<open>kv1_to_json\<close> in \<open>src/infrastructure/file_order_store.cpp\<close>).

  A writer that appends to a buffer is the text it appends. Sets and maps are written in the order of the
  iteration.
\<close>

section \<open>JSON text\<close>

definition quote_char :: char where "quote_char = CHR 0x22"
definition backslash :: char where "backslash = CHR 0x5C"
definition tab :: char where "tab = CHR 0x09"
definition newline :: char where "newline = CHR 0x0A"
definition carriage_return :: char where "carriage_return = CHR 0x0D"

lemmas char_defs = quote_char_def backslash_def tab_def newline_def carriage_return_def

definition hex_digit :: "nat \<Rightarrow> char" where
  "hex_digit n = ''0123456789abcdef'' ! (n mod 16)"

definition jw_char :: "char \<Rightarrow> string" where
  "jw_char c =
     (if c = quote_char then [backslash, quote_char]
      else if c = backslash then [backslash, backslash]
      else if c = newline then [backslash, CHR ''n'']
      else if c = carriage_return then [backslash, CHR ''r'']
      else if c = tab then [backslash, CHR ''t'']
      else if of_char c < (32 :: nat)
      then [backslash, CHR ''u'', CHR ''0'', CHR ''0'', hex_digit (of_char c div 16), hex_digit (of_char c)]
      else [c])"

definition jw_str :: "string \<Rightarrow> string" where
  "jw_str s = quote_char # concat (map jw_char s) @ [quote_char]"

definition jw_key :: "string \<Rightarrow> string" where
  "jw_key k = jw_str k @ '':''"

definition jw_decimal :: "decimal \<Rightarrow> string" where
  "jw_decimal d = quote_char # append_to d [] @ [quote_char]"

definition jw_u64 :: "u64 \<Rightarrow> string" where "jw_u64 w = u64_to_string w"
definition jw_i64 :: "int \<Rightarrow> string" where "jw_i64 i = int_to_string i"

definition jw_opt_decimal :: "string \<Rightarrow> decimal option \<Rightarrow> string" where
  "jw_opt_decimal k v = (case v of None \<Rightarrow> [] | Some d \<Rightarrow> '','' @ jw_key k @ jw_decimal d)"

definition jw_opt_u64 :: "string \<Rightarrow> u64 option \<Rightarrow> string" where
  "jw_opt_u64 k v = (case v of None \<Rightarrow> [] | Some w \<Rightarrow> '','' @ jw_key k @ jw_u64 w)"

text \<open>Elements separated by commas.\<close>

fun comma_separated :: "string list \<Rightarrow> string" where
  "comma_separated [] = []"
| "comma_separated [x] = x"
| "comma_separated (x # y # xs) = x @ '','' @ comma_separated (y # xs)"

definition jw_strset :: "string list \<Rightarrow> string" where
  "jw_strset xs = ''['' @ comma_separated (map jw_str xs) @ '']''"

definition jw_strmap_str :: "(string \<times> string) list \<Rightarrow> string" where
  "jw_strmap_str m = ''{'' @ comma_separated (map (\<lambda>(k, v). jw_str k @ '':'' @ jw_str v) m) @ ''}''"

definition jw_strmap_decimal :: "(string \<times> decimal) list \<Rightarrow> string" where
  "jw_strmap_decimal m = ''{'' @ comma_separated (map (\<lambda>(k, d). jw_str k @ '':'' @ jw_decimal d) m) @ ''}''"

definition json_write_order :: "iteration \<Rightarrow> order \<Rightarrow> bool \<Rightarrow> string" where
  "json_write_order it ord intent_only =
     ''{'' @
     jw_key ''clientOrderId'' @ jw_str (client_order_id ord) @ '','' @
     jw_key ''venue'' @ jw_str (venue_to_string (venue ord)) @ '','' @
     jw_key ''symbol'' @ jw_str (symbol ord) @ '','' @
     jw_key ''side'' @ jw_str (side_to_string (side ord)) @ '','' @
     jw_key ''type'' @ jw_str (order_type_to_string (type ord)) @ '','' @
     jw_key ''quantity'' @ jw_decimal (quantity ord) @ '','' @
     jw_key ''timeInForce'' @ jw_str (time_in_force_to_string (time_in_force ord)) @ '','' @
     jw_key ''status'' @ jw_str (order_status_to_string (status ord)) @ '','' @
     jw_key ''pendingAction'' @ jw_str (pending_action_to_string (pending_action ord)) @ '','' @
     jw_key ''filledQuantity'' @ jw_decimal (filled_quantity ord) @ '','' @
     jw_key ''cumulativeQuote'' @ jw_decimal (cumulative_quote ord) @ '','' @
     jw_key ''rejectionReason'' @ jw_str (rejection_reason ord) @ '','' @
     jw_key ''version'' @ jw_u64 (version ord) @ '','' @
     jw_key ''createdAt'' @ jw_i64 (created_at_ms ord) @ '','' @
     jw_key ''updatedAt'' @ jw_i64 (updated_at_ms ord) @ '','' @
     jw_key ''createFingerprint'' @ jw_str (create_fingerprint ord) @
     jw_opt_decimal ''price'' (price ord) @
     jw_opt_decimal ''averageFillPrice'' (average_fill_price ord) @
     jw_opt_decimal ''pendingAmendPrice'' (pending_amend_price ord) @
     jw_opt_decimal ''pendingAmendQuantity'' (pending_amend_quantity ord) @
     jw_opt_u64 ''lastSequence'' (last_sequence ord) @
     (if intent_only then []
      else '','' @ jw_key ''exchangeOrderId'' @ jw_str (exchange_order_id ord) @
           '','' @ jw_key ''exchangeClientIdAliases'' @ jw_strset (it_exchange_client_id_aliases it) @
           '','' @ jw_key ''exchangeOrderIdAliases'' @ jw_strset (it_exchange_order_id_aliases it) @
           '','' @ jw_key ''exchangeFillOffsets'' @ jw_strmap_decimal (it_exchange_fill_offsets it) @
           '','' @ jw_key ''exchangeQuoteOffsets'' @ jw_strmap_decimal (it_exchange_quote_offsets it) @
           '','' @ jw_key ''processedRequests'' @ jw_strmap_str (it_processed_requests it) @
           '','' @ jw_key ''processedRequestOutcomes'' @ jw_strmap_str (it_processed_request_outcomes it) @
           '','' @ jw_key ''processedEventIds'' @ jw_strset (it_processed_event_ids it)) @
     ''}''"

definition json_write_context :: "order_event_context \<Rightarrow> string" where
  "json_write_context c =
     ''{'' @
     jw_key ''exchangeOrderId'' @ jw_str (ctx_exchange_order_id c) @ '','' @
     jw_key ''symbol'' @ jw_str (ctx_symbol c) @ '','' @
     jw_key ''side'' @ jw_str (side_to_string (ctx_side c)) @ '','' @
     jw_key ''type'' @ jw_str (order_type_to_string (ctx_type c)) @ '','' @
     jw_key ''quantity'' @ jw_decimal (ctx_quantity c) @ '','' @
     jw_key ''filledQuantity'' @ jw_decimal (ctx_filled_quantity c) @ '','' @
     jw_key ''status'' @ jw_str (order_status_to_string (ctx_status c)) @ '','' @
     jw_key ''pendingAction'' @ jw_str (pending_action_to_string (ctx_pending_action c)) @ '','' @
     jw_key ''rejectionReason'' @ jw_str (ctx_rejection_reason c) @ '','' @
     jw_key ''version'' @ jw_u64 (ctx_version c) @ '','' @
     jw_key ''exchangeTime'' @ jw_i64 (ctx_exchange_time_ms c) @
     jw_opt_decimal ''price'' (ctx_price c) @
     jw_opt_decimal ''averageFillPrice'' (ctx_average_fill_price c) @
     jw_opt_u64 ''venueSequence'' (ctx_venue_sequence c) @
     ''}''"

definition json_write_event :: "operational_event \<Rightarrow> string" where
  "json_write_event e =
     ''{'' @
     jw_key ''occurredAt'' @ jw_i64 (ev_occurred_at_ms e) @ '','' @
     jw_key ''severity'' @ jw_str (severity_to_string (ev_severity e)) @ '','' @
     jw_key ''category'' @ jw_str (ev_category e) @ '','' @
     jw_key ''code'' @ jw_str (ev_code e) @ '','' @
     jw_key ''message'' @ jw_str (ev_message e) @ '','' @
     jw_key ''instanceId'' @ jw_str (ev_instance_id e) @ '','' @
     jw_key ''clientOrderId'' @ jw_str (ev_client_order_id e) @ '','' @
     jw_key ''requestId'' @ jw_str (ev_request_id e) @
     (case ev_venue e of None \<Rightarrow> [] | Some v \<Rightarrow> '','' @ jw_key ''venue'' @ jw_str (venue_to_string v)) @
     (case ev_order e of None \<Rightarrow> [] | Some c \<Rightarrow> '','' @ jw_key ''order'' @ json_write_context c) @
     ''}''"

section \<open>Key-value text\<close>

definition kv_field :: "string \<Rightarrow> string \<Rightarrow> string" where
  "kv_field k v = k @ ''='' @ nat_to_string (length v) @ '':'' @ v @ [tab]"

definition kv_decimal :: "string \<Rightarrow> decimal \<Rightarrow> string" where
  "kv_decimal k d = k @ ''='' @ append_to d [] @ [tab]"

definition kv_u64 :: "string \<Rightarrow> u64 \<Rightarrow> string" where
  "kv_u64 k w = k @ ''='' @ u64_to_string w @ [tab]"

definition kv_i64 :: "string \<Rightarrow> int \<Rightarrow> string" where
  "kv_i64 k i = k @ ''='' @ int_to_string i @ [tab]"

definition kv_opt_decimal :: "string \<Rightarrow> decimal option \<Rightarrow> string" where
  "kv_opt_decimal k v = (case v of None \<Rightarrow> [] | Some d \<Rightarrow> kv_decimal k d)"

definition kv_opt_u64 :: "string \<Rightarrow> u64 option \<Rightarrow> string" where
  "kv_opt_u64 k v = (case v of None \<Rightarrow> [] | Some w \<Rightarrow> kv_u64 k w)"

definition sized :: "string \<Rightarrow> string" where
  "sized v = nat_to_string (length v) @ '':'' @ v"

definition kv_strset :: "string \<Rightarrow> string list \<Rightarrow> string" where
  "kv_strset k xs = (if xs = [] then [] else k @ ''='' @ concat (map (\<lambda>v. sized v @ ''|'') xs) @ [tab])"

definition kv_strmap_str :: "string \<Rightarrow> (string \<times> string) list \<Rightarrow> string" where
  "kv_strmap_str k m =
     (if m = [] then [] else k @ ''='' @ concat (map (\<lambda>(a, v). sized a @ ''='' @ sized v @ ''|'') m) @ [tab])"

definition kv_strmap_decimal :: "string \<Rightarrow> (string \<times> decimal) list \<Rightarrow> string" where
  "kv_strmap_decimal k m =
     (if m = [] then [] else k @ ''='' @ concat (map (\<lambda>(a, d). sized a @ ''='' @ append_to d [] @ ''|'') m) @ [tab])"

definition kv_write_order :: "iteration \<Rightarrow> order \<Rightarrow> bool \<Rightarrow> string" where
  "kv_write_order it ord intent_only =
     kv_field ''id'' (client_order_id ord) @
     kv_field ''venue'' (venue_to_string (venue ord)) @
     kv_field ''sym'' (symbol ord) @
     kv_field ''side'' (side_to_string (side ord)) @
     kv_field ''type'' (order_type_to_string (type ord)) @
     kv_decimal ''qty'' (quantity ord) @
     kv_field ''tif'' (time_in_force_to_string (time_in_force ord)) @
     kv_field ''status'' (order_status_to_string (status ord)) @
     kv_field ''pa'' (pending_action_to_string (pending_action ord)) @
     kv_decimal ''filled'' (filled_quantity ord) @
     kv_decimal ''quote'' (cumulative_quote ord) @
     kv_field ''reason'' (rejection_reason ord) @
     kv_u64 ''ver'' (version ord) @
     kv_i64 ''cat'' (created_at_ms ord) @
     kv_i64 ''uat'' (updated_at_ms ord) @
     kv_field ''fp'' (create_fingerprint ord) @
     kv_opt_decimal ''price'' (price ord) @
     kv_opt_decimal ''afp'' (average_fill_price ord) @
     kv_opt_decimal ''pap'' (pending_amend_price ord) @
     kv_opt_decimal ''paq'' (pending_amend_quantity ord) @
     kv_opt_u64 ''lseq'' (last_sequence ord) @
     (if intent_only then []
      else kv_field ''exid'' (exchange_order_id ord) @
           kv_strset ''ecid'' (it_exchange_client_id_aliases it) @
           kv_strset ''eoid'' (it_exchange_order_id_aliases it) @
           kv_strmap_decimal ''efo'' (it_exchange_fill_offsets it) @
           kv_strmap_decimal ''eqo'' (it_exchange_quote_offsets it) @
           kv_strmap_str ''preq'' (it_processed_requests it) @
           kv_strmap_str ''prout'' (it_processed_request_outcomes it) @
           kv_strset ''evids'' (it_processed_event_ids it))"

definition kv_write_event :: "operational_event \<Rightarrow> string" where
  "kv_write_event e =
     kv_i64 ''at'' (ev_occurred_at_ms e) @
     kv_field ''sev'' (severity_to_string (ev_severity e)) @
     kv_field ''cat'' (ev_category e) @
     kv_field ''code'' (ev_code e) @
     kv_field ''msg'' (ev_message e) @
     kv_field ''inst'' (ev_instance_id e) @
     (case ev_venue e of None \<Rightarrow> [] | Some v \<Rightarrow> kv_field ''venue'' (venue_to_string v)) @
     (if ev_client_order_id e = [] then [] else kv_field ''oid'' (ev_client_order_id e)) @
     (if ev_request_id e = [] then [] else kv_field ''rid'' (ev_request_id e))"

section \<open>Reading key-value text\<close>

fun split_on :: "char \<Rightarrow> string \<Rightarrow> string list" where
  "split_on c [] = [[]]"
| "split_on c (x # xs) =
     (if x = c then [] # split_on c xs
      else case split_on c xs of [] \<Rightarrow> [[x]] | f # fs \<Rightarrow> (x # f) # fs)"

definition decode_str :: "string \<Rightarrow> string" where
  "decode_str v = (case split_first (CHR '':'') v of None \<Rightarrow> v | Some (_, bytes) \<Rightarrow> bytes)"

definition decode_strset :: "string \<Rightarrow> string list" where
  "decode_strset v = map decode_str (filter (\<lambda>x. x \<noteq> []) (split_on (CHR ''|'') v))"

definition decode_strmap :: "string \<Rightarrow> (string \<times> string) list" where
  "decode_strmap v =
     fold (\<lambda>pair m. case split_first (CHR ''='') pair of
                      None \<Rightarrow> m
                    | Some (k, x) \<Rightarrow> AList.update (decode_str k) (decode_str x) m)
       (filter (\<lambda>x. x \<noteq> []) (split_on (CHR ''|'') v)) []"

text \<open>\<open>std::stoll\<close> and \<open>std::stoull\<close>: optional white space and sign, then digits; the rest is ignored.\<close>

definition is_space :: "char \<Rightarrow> bool" where
  "is_space c \<longleftrightarrow> c = CHR '' '' \<or> (9 \<le> (of_char c :: nat) \<and> (of_char c :: nat) \<le> 13)"

definition number_prefix :: "string \<Rightarrow> int option" where
  "number_prefix s =
     (let t = dropWhile is_space s;
          neg = (t \<noteq> [] \<and> hd t = CHR ''-'');
          body = (if t \<noteq> [] \<and> (hd t = CHR ''-'' \<or> hd t = CHR ''+'') then tl t else t);
          ds = takeWhile is_digit body
      in if ds = [] then None else Some (if neg then - int (digits_value ds) else int (digits_value ds)))"

definition stoll :: "string \<Rightarrow> int result" where
  "stoll s =
     (case number_prefix s of
        None \<Rightarrow> Inl (Invalid_argument ''stoll'')
      | Some i \<Rightarrow> if in_int64 i then Inr i else Inl (Out_of_range ''stoll''))"

definition stoull :: "string \<Rightarrow> u64 result" where
  "stoull s =
     (case number_prefix s of
        None \<Rightarrow> Inl (Invalid_argument ''stoull'')
      | Some i \<Rightarrow> if \<bar>i\<bar> \<le> uint64_max then Inr (word_of_int i) else Inl (Out_of_range ''stoull''))"

definition key_map :: "(string \<times> string) list" where
  "key_map = [(''id'', ''clientOrderId''), (''venue'', ''venue''), (''sym'', ''symbol''), (''side'', ''side''),
     (''type'', ''type''), (''qty'', ''quantity''), (''tif'', ''timeInForce''), (''status'', ''status''),
     (''pa'', ''pendingAction''), (''filled'', ''filledQuantity''), (''quote'', ''cumulativeQuote''),
     (''reason'', ''rejectionReason''), (''ver'', ''version''), (''cat'', ''createdAt''), (''uat'', ''updatedAt''),
     (''fp'', ''createFingerprint''), (''price'', ''price''), (''afp'', ''averageFillPrice''),
     (''pap'', ''pendingAmendPrice''), (''paq'', ''pendingAmendQuantity''), (''lseq'', ''lastSequence''),
     (''exid'', ''exchangeOrderId'')]"

definition json_key :: "string \<Rightarrow> string" where
  "json_key k = (case map_of key_map k of None \<Rightarrow> k | Some n \<Rightarrow> n)"

definition kv_assignment :: "'j json_api \<Rightarrow> string \<Rightarrow> string \<Rightarrow> (string \<times> 'j) result" where
  "kv_assignment J k v =
     (if k = ''ecid'' then Inr (''exchangeClientIdAliases'', j_of_strings J (decode_strset v))
      else if k = ''eoid'' then Inr (''exchangeOrderIdAliases'', j_of_strings J (decode_strset v))
      else if k = ''evids'' then Inr (''processedEventIds'', j_of_strings J (decode_strset v))
      else if k = ''efo'' then Inr (''exchangeFillOffsets'', j_of_string_map J (decode_strmap v))
      else if k = ''eqo'' then Inr (''exchangeQuoteOffsets'', j_of_string_map J (decode_strmap v))
      else if k = ''preq'' then Inr (''processedRequests'', j_of_string_map J (decode_strmap v))
      else if k = ''prout'' then Inr (''processedRequestOutcomes'', j_of_string_map J (decode_strmap v))
      else if k = ''ver'' \<or> k = ''lseq''
        then rbind (stoull v) (\<lambda>w. Inr (json_key k, j_of_number J (uint w)))
      else if k = ''cat'' \<or> k = ''uat'' \<or> k = ''at''
        then rbind (stoll v) (\<lambda>i. Inr (if k = ''at'' then ''occurredAt'' else if k = ''cat'' then ''createdAt''
                                       else ''updatedAt'', j_of_number J i))
      else Inr (json_key k, j_of_string J (decode_str v)))"

fun kv_assign_all :: "'j json_api \<Rightarrow> string list \<Rightarrow> (string \<times> 'j) list \<Rightarrow> (string \<times> 'j) list result" where
  "kv_assign_all J [] obj = Inr obj"
| "kv_assign_all J (field # rest) obj =
     (case split_first (CHR ''='') field of
        None \<Rightarrow> kv_assign_all J rest obj
      | Some (k, v) \<Rightarrow>
          rbind (kv_assignment J k v) (\<lambda>(key, val). kv_assign_all J rest (AList.update key val obj)))"

definition kv1_to_json :: "'j json_api \<Rightarrow> string \<Rightarrow> 'j result" where
  "kv1_to_json J kv =
     rbind (kv_assign_all J (filter (\<lambda>f. f \<noteq> []) (split_on tab kv)) []) (\<lambda>obj. Inr (j_object J obj))"

section \<open>Escaped text\<close>

text \<open>A reader of escaped text, to state that nothing is lost.\<close>

definition hex_value :: "char \<Rightarrow> nat" where
  "hex_value c = length (takeWhile (\<lambda>d. d \<noteq> c) ''0123456789abcdef'')"

fun read_char :: "string \<Rightarrow> char \<times> string" where
  "read_char s =
     (if hd s \<noteq> backslash then (hd s, tl s)
      else let e = s ! 1 in
        if e = CHR ''n'' then (newline, drop 2 s)
        else if e = CHR ''r'' then (carriage_return, drop 2 s)
        else if e = CHR ''t'' then (tab, drop 2 s)
        else if e = CHR ''u'' then (char_of (16 * hex_value (s ! 4) + hex_value (s ! 5)), drop 6 s)
        else (e, drop 2 s))"

lemma hex_value_digit: "hex_value (hex_digit n) = n mod 16"
proof -
  have "\<forall>k < 16. hex_value (''0123456789abcdef'' ! k) = k"
    unfolding hex_value_def by (simp add: numeral_eq_Suc All_less_Suc2)
  then show ?thesis by (simp add: hex_digit_def)
qed

lemma jw_char_nonempty [simp]: "jw_char c \<noteq> []"
  by (simp add: jw_char_def)

lemma hd_jw_char: "hd (jw_char c @ x) \<noteq> quote_char"
  by (simp add: jw_char_def char_defs)

lemma read_jw_char: "read_char (jw_char c @ x) = (c, x)"
proof -
  consider "c = quote_char" | "c = backslash" | "c = newline" | "c = carriage_return" | "c = tab"
    | (control) "c \<notin> {quote_char, backslash, newline, carriage_return, tab}" "of_char c < (32 :: nat)"
    | (plain) "c \<notin> {quote_char, backslash, newline, carriage_return, tab}" "\<not> of_char c < (32 :: nat)"
    by blast
  then show ?thesis
  proof cases
    case control
    then have eq: "jw_char c = [backslash, CHR ''u'', CHR ''0'', CHR ''0'', hex_digit (of_char c div 16), hex_digit (of_char c)]"
      by (simp add: jw_char_def)
    have "(of_char c :: nat) div 16 mod 16 = of_char c div 16" using control(2) by simp
    then have "16 * hex_value (hex_digit (of_char c div 16)) + hex_value (hex_digit (of_char c)) = (of_char c :: nat)"
      by (simp add: hex_value_digit)
    then show ?thesis by (simp add: eq)
  next
    case plain
    then show ?thesis by (simp add: jw_char_def)
  qed (simp_all add: jw_char_def char_defs)
qed

lemma jw_char_unambiguous: "jw_char c @ x = jw_char d @ y \<Longrightarrow> c = d \<and> x = y"
  by (metis read_jw_char prod.inject)

lemma escaped_unambiguous:
  "concat (map jw_char s) @ quote_char # x = concat (map jw_char t) @ quote_char # y \<Longrightarrow> s = t \<and> x = y"
proof (induction s arbitrary: t)
  case Nil
  show ?case
  proof (cases t)
    case (Cons d t')
    with Nil have "quote_char # x = jw_char d @ (concat (map jw_char t') @ quote_char # y)" by simp
    then have "hd (jw_char d @ (concat (map jw_char t') @ quote_char # y)) = quote_char" by (metis list.sel(1))
    then show ?thesis using hd_jw_char by blast
  qed (use Nil in simp)
next
  case (Cons c s)
  show ?case
  proof (cases t)
    case Nil
    with Cons have "jw_char c @ (concat (map jw_char s) @ quote_char # x) = quote_char # y" by simp
    then have "hd (jw_char c @ (concat (map jw_char s) @ quote_char # x)) = quote_char" by simp
    then show ?thesis using hd_jw_char by blast
  next
    case t: (Cons d t')
    with Cons.prems have "jw_char c @ (concat (map jw_char s) @ quote_char # x) =
        jw_char d @ (concat (map jw_char t') @ quote_char # y)" by simp
    from jw_char_unambiguous [OF this] show ?thesis using Cons.IH t by auto
  qed
qed

lemma jw_str_append: "jw_str s @ x = jw_str t @ y \<longleftrightarrow> s = t \<and> x = y"
  using escaped_unambiguous [of s x t y] by (auto simp: jw_str_def)

section \<open>Printable text\<close>

definition printable :: "string \<Rightarrow> bool" where
  "printable s \<longleftrightarrow> (\<forall>c \<in> set s. 32 \<le> (of_char c :: nat))"

lemma printable_simps [simp]:
  "printable []" "printable (c # s) \<longleftrightarrow> 32 \<le> (of_char c :: nat) \<and> printable s"
  "printable (s @ t) \<longleftrightarrow> printable s \<and> printable t"
  "printable (concat ss) \<longleftrightarrow> (\<forall>s \<in> set ss. printable s)"
  by (auto simp: printable_def)

lemma printable_hex: "32 \<le> (of_char (hex_digit n) :: nat)"
proof -
  have "n mod 16 < length ''0123456789abcdef''" by simp
  then have "hex_digit n \<in> set ''0123456789abcdef''" unfolding hex_digit_def by (rule nth_mem)
  then show ?thesis by auto
qed

lemma printable_digits: "\<forall>c \<in> set s. is_digit c \<Longrightarrow> printable s"
  by (auto simp: printable_def is_digit_def)

lemma printable_jw_char: "printable (jw_char c)"
  by (auto simp: jw_char_def char_defs printable_hex)

lemma printable_jw_str [simp]: "printable (jw_str s)"
  by (auto simp: jw_str_def printable_jw_char quote_char_def)

lemma printable_numbers [simp]: "printable (nat_to_string n)" "printable (u64_to_string w)" "printable (int_to_string i)"
proof -
  show n: "printable (nat_to_string n)" for n by (rule printable_digits) auto
  show "printable (u64_to_string w)" by (simp add: u64_to_string_def n)
  show "printable (int_to_string i)" by (simp add: int_to_string_def n)
qed

lemma printable_subset: "set s \<subseteq> set t \<Longrightarrow> printable t \<Longrightarrow> printable s"
  by (auto simp: printable_def)

lemma printable_to_string [simp]: "printable (to_string d)"
proof -
  have strip: "printable s \<Longrightarrow> printable (strip_zeros s)" for s
    by (rule printable_subset [of _ s]) (auto simp: strip_zeros_def dest: set_dropWhileD)
  have "printable (format_fraction n f d)" for n f d
    by (rule printable_digits) (auto dest: format_fraction_digits)
  then show ?thesis by (auto simp: to_string_def Let_def intro!: strip)
qed

lemma printable_commas: "(\<And>s. s \<in> set ss \<Longrightarrow> printable s) \<Longrightarrow> printable (comma_separated ss)"
  by (induction ss rule: comma_separated.induct) auto

lemma printable_writers [simp]:
  "printable (jw_key k)" "printable (jw_decimal d)" "printable (jw_u64 w)" "printable (jw_i64 i)"
  "printable (jw_opt_decimal k od)" "printable (jw_opt_u64 k ow)"
  "printable (jw_strset xs)" "printable (jw_strmap_str m)" "printable (jw_strmap_decimal md)"
  by (auto simp: jw_key_def jw_decimal_def append_to_def quote_char_def jw_u64_def jw_i64_def jw_opt_decimal_def
      jw_opt_u64_def jw_strset_def jw_strmap_str_def jw_strmap_decimal_def intro!: printable_commas split: option.splits)

lemma printable_order: "printable (json_write_order it ord intent_only)"
  unfolding json_write_order_def by (cases intent_only) simp_all

lemma printable_event: "printable (json_write_event e)"
  by (simp add: json_write_event_def json_write_context_def split: option.splits)

section \<open>Key-value fields\<close>

lemma split_on_nonempty [simp]: "split_on c s \<noteq> []"
  by (induction s) (auto split: list.splits)

lemma split_on_single: "c \<notin> set s \<Longrightarrow> split_on c s = [s]"
  by (induction s) auto

lemma split_on_append: "c \<notin> set s \<Longrightarrow> split_on c (s @ c # t) = s # split_on c t"
  by (induction s) auto

lemma decode_sized: "decode_str (sized v) = v"
proof -
  have "split_first (CHR '':'') (nat_to_string (length v) @ CHR '':'' # v) = Some (nat_to_string (length v), v)"
    by (rule split_first_append) simp
  then show ?thesis by (simp add: decode_str_def sized_def)
qed

section \<open>Properties\<close>

text \<open>The escaped form of a text is unambiguous: a reader that sees two escaped texts followed by
  anything can tell both the texts and where they end, whatever bytes they contain.\<close>

theorem jw_str_unambiguous: "jw_str s @ x = jw_str t @ y \<longleftrightarrow> s = t \<and> x = y"
  by (rule jw_str_append)

text \<open>A JSON payload is one line of printable text: for every order and every event, whatever bytes
  their texts hold, the payload has no control character and so no line break of its own.\<close>

theorem json_payload_single_line:
  "newline \<notin> set (json_write_order it ord intent_only) \<and> newline \<notin> set (json_write_event e) \<and>
   printable (json_write_order it ord intent_only) \<and> printable (json_write_event e)"
proof -
  have "printable s \<Longrightarrow> newline \<notin> set s" for s by (auto simp: printable_def newline_def)
  then show ?thesis using printable_order printable_event by blast
qed

text \<open>The key-value reader gives back a field exactly when its value has no tab: a text field without
  a tab is read as written, and one with a tab is cut at the tab, although the writer recorded its length.\<close>

theorem kv_field_read_back:
  "decode_str (snd (the (split_first (CHR ''='') (hd (split_on tab (kv_field ''reason'' v)))))) = v \<longleftrightarrow> tab \<notin> set v"
proof -
  let ?head = "''reason='' @ nat_to_string (length v) @ '':''"
  let ?v = "takeWhile (\<lambda>c. c \<noteq> tab) v"
  have head: "tab \<notin> set ?head"
    using printable_numbers(1) [of "length v"] by (auto simp: tab_def printable_def)
  have field: "hd (split_on tab (kv_field ''reason'' v)) = ?head @ ?v"
  proof (cases "tab \<in> set v")
    case True
    then have "v = ?v @ tab # tl (dropWhile (\<lambda>c. c \<noteq> tab) v)"
      by (metis (mono_tags, lifting) dropWhile_eq_Nil_conv hd_dropWhile list.collapse takeWhile_dropWhile_id)
    then have "kv_field ''reason'' v = (?head @ ?v) @ tab # (tl (dropWhile (\<lambda>c. c \<noteq> tab) v) @ [tab])"
      by (simp add: kv_field_def)
    moreover have "tab \<notin> set (?head @ ?v)" using head by (auto dest: set_takeWhileD)
    ultimately show ?thesis using split_on_append by (metis list.sel(1))
  next
    case False
    then have "kv_field ''reason'' v = (?head @ v) @ tab # []" "?v = v"
      by (auto simp: kv_field_def takeWhile_eq_all_conv)
    moreover have "tab \<notin> set (?head @ v)" using head False by auto
    ultimately show ?thesis using split_on_append by (metis list.sel(1))
  qed
  have "split_first (CHR ''='') (''reason'' @ CHR ''='' # (nat_to_string (length v) @ '':'' @ ?v)) =
      Some (''reason'', nat_to_string (length v) @ '':'' @ ?v)"
    by (rule split_first_append) simp
  then have "split_first (CHR ''='') (hd (split_on tab (kv_field ''reason'' v))) =
      Some (''reason'', nat_to_string (length v) @ CHR '':'' # ?v)"
    by (simp add: field)
  moreover have "decode_str (nat_to_string (length v) @ CHR '':'' # ?v) = ?v"
    unfolding decode_str_def by (subst split_first_append) simp_all
  ultimately show ?thesis by (auto simp: takeWhile_eq_all_conv)
qed

section \<open>Findings\<close>

text \<open>An event in key-value form is not read back at all: the reader has no names for \<open>sev\<close> and \<open>msg\<close>,
  and takes \<open>cat\<close>, which the event writer uses for the category, as a creation time.\<close>

lemma kv_event_unreadable:
  "rbind (kv1_to_json (tree_json (\<lambda>_. Inl wrong_type)) (kv_write_event json_sample_event))
     (event_from_json (tree_json (\<lambda>_. Inl wrong_type))) = Inl (Json_exception ''severity'')"
  by code_simp

end
