(* ===== verification/Abex_Store.thy ===== *)
theory Abex_Store
  imports Abex_Serializer
begin

text \<open>
  The order stores: the journal file (\<open>include/abex/infrastructure/file_order_store.hpp\<close>,
  \<open>file_order_store_impl.hpp\<close>, \<open>src/infrastructure/file_order_store.cpp\<close>) and the store in memory.

  The file is its text. What the kernel answers to each \<open>write\<close> is an argument, and a call that has not
  been answered to the end has no result (\<open>None\<close>). The JSON parser is the parameter of \<open>Abex_Json\<close>.
  Opening and locking the file and creating its directory are left out; truncating and repairing the
  file succeed. The thread that calls \<open>fdatasync\<close> is in \<open>Abex_Sync\<close>.
\<close>

unbundle bit_operations_syntax

section \<open>Records\<close>

definition fnv1a :: "string \<Rightarrow> u64" where
  "fnv1a text = fold (\<lambda>c h. (h XOR of_nat (of_char c)) * 1099511628211) text 14695981039346656037"

definition fnv1a_hex :: "string \<Rightarrow> string" where
  "fnv1a_hex text = map (\<lambda>i. hex_digit (unat (drop_bit (4 * (15 - i)) (fnv1a text) AND 15))) [0..<16]"

datatype journal_format = JsonFormat | KvFormat

definition format_id :: "journal_format \<Rightarrow> string" where
  "format_id f = (case f of JsonFormat \<Rightarrow> ''json'' | KvFormat \<Rightarrow> ''kv1'')"

definition kv_escape :: "char \<Rightarrow> string" where
  "kv_escape c = (if c = quote_char then [backslash, quote_char]
                  else if c = backslash then [backslash, backslash]
                  else if c = tab then [backslash, CHR ''t''] else [c])"

definition embed :: "journal_format \<Rightarrow> string \<Rightarrow> string" where
  "embed f payload =
     (case f of JsonFormat \<Rightarrow> payload
      | KvFormat \<Rightarrow> quote_char # concat (map kv_escape payload) @ [quote_char])"

text \<open>The line of a record, without its line break.\<close>

definition record_head :: "journal_format \<Rightarrow> string \<Rightarrow> u64 \<Rightarrow> int \<Rightarrow> string" where
  "record_head f ty sequence now =
     ''{'' @ jw_key ''schemaVersion'' @ ''1,'' @
     jw_key ''recordSequence'' @ u64_to_string sequence @ '','' @
     jw_key ''format'' @ jw_str (format_id f) @ '','' @
     jw_key ''type'' @ jw_str ty @ '','' @
     jw_key ''writtenAt'' @ int_to_string now @ '',''"

definition record_line :: "journal_format \<Rightarrow> string \<Rightarrow> string \<Rightarrow> u64 \<Rightarrow> int \<Rightarrow> string" where
  "record_line f ty payload sequence now =
     record_head f ty sequence now @ jw_key ''payload'' @ embed f payload @ '','' @
     jw_key ''checksum'' @ quote_char # fnv1a_hex payload @ [quote_char] @ ''}''"

section \<open>Writing\<close>

datatype write_outcome = Wrote nat | Interrupted | Failed string

fun write_all :: "write_outcome list \<Rightarrow> string \<Rightarrow> string \<Rightarrow> (unit result \<times> string) option" where
  "write_all outs [] file = Some (Inr (), file)"
| "write_all [] (c # data) file = None"
| "write_all (Wrote n # outs) (c # data) file = write_all outs (drop n (c # data)) (file @ take n (c # data))"
| "write_all (Interrupted # outs) (c # data) file = write_all outs (c # data) file"
| "write_all (Failed message # outs) (c # data) file =
     Some (Inl (Runtime_error (''failed to append order journal: '' @ message)), file)"

definition k_max_cached_events :: nat where "k_max_cached_events = 4096"
definition k_max_cached_order_events :: nat where "k_max_cached_order_events = 2048"

definition insert_event_sorted :: "operational_event list \<Rightarrow> operational_event \<Rightarrow> nat \<Rightarrow> operational_event list" where
  "insert_event_sorted q ev max_size =
     (let q' = takeWhile (\<lambda>e. \<not> ev_sequence ev < ev_sequence e) q @ ev #
               dropWhile (\<lambda>e. \<not> ev_sequence ev < ev_sequence e) q
      in drop (length q' - max_size) q')"

record file_store =
  fs_format :: journal_format
  fs_path :: string
  fs_durable_writes :: bool
  fs_next_sequence :: u64
  fs_file :: string
  fs_latest_orders :: "(string \<times> (u64 \<times> order)) list"
  fs_recent_events :: "operational_event list"
  fs_recent_order_events :: "string \<rightharpoonup> operational_event list"
  fs_sync_generation :: u64

type_synonym 'a store_op = "file_store \<Rightarrow> ('a result \<times> file_store) option"

definition write_record :: "write_outcome list \<Rightarrow> int \<Rightarrow> string \<Rightarrow> string \<Rightarrow> u64 \<Rightarrow> unit store_op" where
  "write_record outs now ty payload sequence s =
     (case write_all outs (record_line (fs_format s) ty payload sequence now @ [newline]) (fs_file s) of
        None \<Rightarrow> None
      | Some (r, file) \<Rightarrow> Some (r, s\<lparr>fs_file := file\<rparr>))"

definition signal_sync :: "file_store \<Rightarrow> file_store" where
  "signal_sync s = (if fs_durable_writes s then s\<lparr>fs_sync_generation := fs_sync_generation s + 1\<rparr> else s)"

definition reserve_sequence :: "file_store \<Rightarrow> u64 \<times> file_store" where
  "reserve_sequence s = (fs_next_sequence s, s\<lparr>fs_next_sequence := fs_next_sequence s + 1\<rparr>)"

text \<open>\<open>auto& current = latest_orders_[id]; if (sequence >= current.first) current = {sequence, order}\<close>,
  where a new entry starts at sequence zero.\<close>

definition keep_latest :: "u64 \<Rightarrow> order \<Rightarrow> (string \<times> (u64 \<times> order)) list \<Rightarrow> (string \<times> (u64 \<times> order)) list" where
  "keep_latest sequence ord m =
     (case map_of m (client_order_id ord) of
        Some (q, _) \<Rightarrow> if sequence \<ge> q then AList.update (client_order_id ord) (sequence, ord) m else m
      | None \<Rightarrow> AList.update (client_order_id ord) (sequence, ord) m)"

definition write_order :: "journal_format \<Rightarrow> iteration \<Rightarrow> order \<Rightarrow> bool \<Rightarrow> string" where
  "write_order f = (case f of JsonFormat \<Rightarrow> json_write_order | KvFormat \<Rightarrow> kv_write_order)"

definition write_event :: "journal_format \<Rightarrow> operational_event \<Rightarrow> string" where
  "write_event f = (case f of JsonFormat \<Rightarrow> json_write_event | KvFormat \<Rightarrow> kv_write_event)"

definition append_order :: "write_outcome list \<Rightarrow> int \<Rightarrow> iteration \<Rightarrow> order \<Rightarrow> bool \<Rightarrow> unit store_op" where
  "append_order outs now it ord intent_only s =
     (case reserve_sequence s of (sequence, s1) \<Rightarrow>
        case write_record outs now ''ORDER_SNAPSHOT'' (write_order (fs_format s) it ord intent_only) sequence s1 of
          None \<Rightarrow> None
        | Some (Inl e, s2) \<Rightarrow> Some (Inl e, s2)
        | Some (Inr u, s2) \<Rightarrow>
            Some (Inr u, signal_sync (s2\<lparr>fs_latest_orders := keep_latest sequence ord (fs_latest_orders s2)\<rparr>)))"

definition append_snapshot :: "write_outcome list \<Rightarrow> int \<Rightarrow> iteration \<Rightarrow> order \<Rightarrow> unit store_op" where
  "append_snapshot outs now it ord = append_order outs now it ord False"

definition commit_order :: "write_outcome list \<Rightarrow> int \<Rightarrow> string \<Rightarrow> u64 \<Rightarrow> unit store_op" where
  "commit_order outs now payload sequence s =
     (case write_record outs now ''ORDER_SNAPSHOT'' payload sequence s of
        None \<Rightarrow> None
      | Some (Inl e, s1) \<Rightarrow> Some (Inl e, s1)
      | Some (Inr u, s1) \<Rightarrow> Some (Inr u, signal_sync s1))"

definition cache_event :: "operational_event \<Rightarrow> file_store \<Rightarrow> file_store" where
  "cache_event ev s =
     (let s1 = s\<lparr>fs_recent_events := insert_event_sorted (fs_recent_events s) ev k_max_cached_events\<rparr>
      in if ev_client_order_id ev = [] then s1
         else s1\<lparr>fs_recent_order_events := (fs_recent_order_events s1)(ev_client_order_id ev \<mapsto>
                   insert_event_sorted (case fs_recent_order_events s1 (ev_client_order_id ev) of None \<Rightarrow> [] | Some q \<Rightarrow> q)
                     ev k_max_cached_order_events)\<rparr>)"

definition append_event :: "write_outcome list \<Rightarrow> int \<Rightarrow> operational_event \<Rightarrow> operational_event store_op" where
  "append_event outs now event0 s =
     (let event = (if ev_occurred_at_ms event0 = 0 then event0\<lparr>ev_occurred_at_ms := now\<rparr> else event0) in
      case reserve_sequence s of (sequence, s1) \<Rightarrow>
        case write_record outs now ''OPERATIONAL_EVENT'' (write_event (fs_format s) event) sequence s1 of
          None \<Rightarrow> None
        | Some (Inl e, s2) \<Rightarrow> Some (Inl e, s2)
        | Some (Inr u, s2) \<Rightarrow>
            let ev = event\<lparr>ev_sequence := sequence\<rparr> in Some (Inr ev, signal_sync (cache_event ev s2)))"

definition load_latest :: "file_store \<Rightarrow> order list" where
  "load_latest s = map (\<lambda>(cid, q, ord). ord) (fs_latest_orders s)"

definition last_n :: "nat \<Rightarrow> 'a list \<Rightarrow> 'a list" where
  "last_n limit q = drop (length q - min limit (length q)) q"

definition load_events :: "nat \<Rightarrow> file_store \<Rightarrow> operational_event list" where
  "load_events limit s = last_n limit (fs_recent_events s)"

definition load_order_events :: "string \<Rightarrow> nat \<Rightarrow> file_store \<Rightarrow> operational_event list" where
  "load_order_events cid limit s =
     (case fs_recent_order_events s cid of None \<Rightarrow> [] | Some q \<Rightarrow> last_n limit q)"

record journal_status =
  js_location :: string
  js_durable_writes :: bool
  js_record_sequence :: u64

definition store_status :: "file_store \<Rightarrow> journal_status" where
  "store_status s = \<lparr>js_location = fs_path s, js_durable_writes = fs_durable_writes s,
     js_record_sequence = fs_next_sequence s - 1\<rparr>"

section \<open>Recovery\<close>

record journal_line =
  jl_text :: string
  jl_start_offset :: nat
  jl_terminated :: bool

text \<open>The segments between line breaks, with their offsets; empty lines are skipped.\<close>

fun number_lines :: "nat \<Rightarrow> string list \<Rightarrow> journal_line list" where
  "number_lines off [] = []"
| "number_lines off [t] =
     (if t = [] then [] else [\<lparr>jl_text = t, jl_start_offset = off, jl_terminated = False\<rparr>])"
| "number_lines off (t # u # us) =
     (if t = [] then [] else [\<lparr>jl_text = t, jl_start_offset = off, jl_terminated = True\<rparr>]) @
     number_lines (off + length t + 1) (u # us)"

definition journal_lines :: "string \<Rightarrow> journal_line list" where
  "journal_lines file = number_lines 0 (split_on newline file)"

text \<open>\<open>std::string::find\<close> and \<open>rfind\<close> of a text.\<close>

fun find_text :: "string \<Rightarrow> string \<Rightarrow> nat option" where
  "find_text pat [] = (if pat = [] then Some 0 else None)"
| "find_text pat (c # s) =
     (if starts_with (c # s) pat then Some 0 else map_option Suc (find_text pat s))"

fun rfind_text :: "string \<Rightarrow> string \<Rightarrow> nat option" where
  "rfind_text pat [] = (if pat = [] then Some 0 else None)"
| "rfind_text pat (c # s) =
     (case rfind_text pat s of
        Some n \<Rightarrow> Some (Suc n)
      | None \<Rightarrow> if starts_with (c # s) pat then Some 0 else None)"

definition payload_text :: "'j json_api \<Rightarrow> string \<Rightarrow> 'j \<Rightarrow> string" where
  "payload_text J line raw_payload =
     (case (find_text (jw_key ''payload'') line, rfind_text ('','' @ jw_key ''checksum'') line) of
        (Some pk, Some ck) \<Rightarrow>
          if pk < ck
          then take (ck - (pk + length (jw_key ''payload''))) (drop (pk + length (jw_key ''payload'')) line)
          else j_dump J raw_payload
      | _ \<Rightarrow> j_dump J raw_payload)"

datatype record_body = OrderSnapshot order | EventRecord operational_event

definition read_record :: "'j json_api \<Rightarrow> string \<Rightarrow> ('j \<times> record_body) result" where
  "read_record J line =
     rbind (j_parse J line) (\<lambda>rec.
     rbind (j_field J (j_get_integer J) rec ''schemaVersion'') (\<lambda>schema.
     if schema \<noteq> 1 then Inl (Runtime_error ''unsupported journal schema'')
     else
       rbind (j_field J (j_get_string J) rec ''type'') (\<lambda>ty.
       rbind (j_value J (j_get_string J) rec ''format'' ''json'') (\<lambda>fmt.
       rbind (j_at J rec ''payload'') (\<lambda>raw_payload.
       rbind (if fmt = ''kv1''
              then rbind (j_get_string J raw_payload) (\<lambda>text.
                   rbind (kv1_to_json J text) (\<lambda>obj. Inr (text, obj)))
              else Inr (payload_text J line raw_payload, raw_payload)) (\<lambda>(text, obj).
       rbind (j_field J (j_get_string J) rec ''checksum'') (\<lambda>checksum.
       if checksum \<noteq> fnv1a_hex text then Inl (Runtime_error ''journal checksum mismatch'')
       else
         rbind (if ty = ''ORDER_SNAPSHOT'' then rbind (order_from_json J obj) (\<lambda>ord. Inr (OrderSnapshot ord))
                else if ty = ''OPERATIONAL_EVENT'' then rbind (event_from_json J obj) (\<lambda>ev. Inr (EventRecord ev))
                else Inl (Runtime_error ''unsupported journal record type'')) (\<lambda>body.
         Inr (rec, body)))))))))"

fun read_loop :: "'j json_api \<Rightarrow> nat \<Rightarrow> journal_line list \<Rightarrow> string \<Rightarrow>
    (('j \<times> record_body) list \<times> string) result" where
  "read_loop J i [] file = Inr ([], file)"
| "read_loop J i (l # ls) file =
     (case read_record J (jl_text l) of
        Inr r \<Rightarrow>
          (if ls = [] \<and> \<not> jl_terminated l then Inr ([r], file @ [newline])
           else rbind (read_loop J (i + 1) ls file) (\<lambda>(rs, file'). Inr (r # rs, file')))
      | Inl e \<Rightarrow>
          if ls = [] then Inr ([], take (jl_start_offset l) file)
          else Inl (Runtime_error (''invalid order journal record '' @ nat_to_string (i + 1) @ '': '' @ what e)))"

definition read_valid_records :: "'j json_api \<Rightarrow> string \<Rightarrow> (('j \<times> record_body) list \<times> string) result" where
  "read_valid_records J file = read_loop J 0 (journal_lines file) file"

fun record_sequences :: "'j json_api \<Rightarrow> ('j \<times> record_body) list \<Rightarrow> (u64 \<times> record_body) list result" where
  "record_sequences J [] = Inr []"
| "record_sequences J ((rec, body) # rs) =
     rbind (j_value J (j_get_unsigned J) rec ''recordSequence'' 0) (\<lambda>sequence.
     rbind (record_sequences J rs) (\<lambda>more. Inr ((sequence, body) # more)))"

definition load_record :: "u64 \<times> record_body \<Rightarrow> file_store \<Rightarrow> file_store" where
  "load_record = (\<lambda>(sequence, body) s.
     case body of
       OrderSnapshot ord \<Rightarrow> s\<lparr>fs_latest_orders := keep_latest sequence ord (fs_latest_orders s)\<rparr>
     | EventRecord ev \<Rightarrow> cache_event (ev\<lparr>ev_sequence := sequence\<rparr>) s)"

definition open_store :: "'j json_api \<Rightarrow> journal_format \<Rightarrow> string \<Rightarrow> bool \<Rightarrow> string \<Rightarrow> file_store result" where
  "open_store J f path durable file0 =
     (if path = [] then Inl (Invalid_argument ''order journal path must not be empty'')
      else rbind (read_valid_records J file0) (\<lambda>(records, file).
        rbind (record_sequences J records) (\<lambda>rs.
        Inr (fold load_record rs
          \<lparr>fs_format = f, fs_path = path, fs_durable_writes = durable,
           fs_next_sequence = fold max (map fst rs) 0 + 1, fs_file = file, fs_latest_orders = [],
           fs_recent_events = [], fs_recent_order_events = Map.empty, fs_sync_generation = 0\<rparr>))))"

section \<open>The store in memory\<close>

record memory_store =
  mo_latest_orders :: "(string \<times> order) list"
  mo_events :: "operational_event list"
  mo_record_sequence :: u64

definition new_memory_store :: memory_store where
  "new_memory_store = \<lparr>mo_latest_orders = [], mo_events = [], mo_record_sequence = 0\<rparr>"

definition memory_append_order :: "order \<Rightarrow> memory_store \<Rightarrow> memory_store" where
  "memory_append_order ord s =
     s\<lparr>mo_record_sequence := mo_record_sequence s + 1,
       mo_latest_orders := AList.update (client_order_id ord) ord (mo_latest_orders s)\<rparr>"

definition memory_reserve_sequence :: "memory_store \<Rightarrow> u64 \<times> memory_store" where
  "memory_reserve_sequence s =
     (mo_record_sequence s + 1, s\<lparr>mo_record_sequence := mo_record_sequence s + 1\<rparr>)"

definition memory_commit_order :: "order \<Rightarrow> u64 \<Rightarrow> memory_store \<Rightarrow> memory_store" where
  "memory_commit_order ord sequence s =
     s\<lparr>mo_latest_orders := AList.update (client_order_id ord) ord (mo_latest_orders s)\<rparr>"

definition memory_append_event :: "int \<Rightarrow> operational_event \<Rightarrow> memory_store \<Rightarrow> operational_event \<times> memory_store" where
  "memory_append_event now event s =
     (let ev = (if ev_occurred_at_ms event = 0 then event\<lparr>ev_occurred_at_ms := now\<rparr> else event)
                 \<lparr>ev_sequence := mo_record_sequence s + 1\<rparr>
      in (ev, s\<lparr>mo_record_sequence := mo_record_sequence s + 1, mo_events := mo_events s @ [ev]\<rparr>))"

definition memory_load_latest :: "memory_store \<Rightarrow> order list" where
  "memory_load_latest s = map snd (mo_latest_orders s)"

definition memory_load_events :: "nat \<Rightarrow> memory_store \<Rightarrow> operational_event list" where
  "memory_load_events limit s =
     drop (if length (mo_events s) > limit then length (mo_events s) - limit else 0) (mo_events s)"

definition memory_load_order_events :: "string \<Rightarrow> nat \<Rightarrow> memory_store \<Rightarrow> operational_event list" where
  "memory_load_order_events cid limit s =
     (let q = filter (\<lambda>e. ev_client_order_id e = cid) (mo_events s)
      in if length q > limit then drop (length q - limit) q else q)"

definition memory_status :: "memory_store \<Rightarrow> journal_status" where
  "memory_status s = \<lparr>js_location = ''memory'', js_durable_writes = False, js_record_sequence = mo_record_sequence s\<rparr>"

section \<open>Lemmas on writing\<close>

text \<open>What a finished write leaves in the file: all of the data, or a prefix of it when it failed.\<close>

lemma write_all_cases:
  "write_all outs data f = Some (r, f') \<Longrightarrow>
    (case r of Inr u \<Rightarrow> f' = f @ data | Inl e \<Rightarrow> \<exists>n. f' = f @ take n data)"
proof (induction outs data f rule: write_all.induct)
  case (3 n outs c data f)
  then show ?case
  proof (cases r)
    case (Inl e)
    with 3 obtain k where "f' = (f @ take n (c # data)) @ take k (drop n (c # data))" by auto
    then have "f' = f @ take (n + k) (c # data)" by (simp add: take_add)
    then show ?thesis using Inl by auto
  qed auto
next
  case (5 message outs c data f)
  then show ?case by (auto intro: exI [of _ 0])
qed auto

lemma write_all_progress:
  assumes "\<forall>w \<in> set outs. w = Interrupted \<or> (\<exists>n. w = Wrote n \<and> 0 < n)"
    and "length data \<le> length (filter (\<lambda>w. w \<noteq> Interrupted) outs)"
  shows "write_all outs data f = Some (Inr (), f @ data)"
  using assms
proof (induction outs data f rule: write_all.induct)
  case (3 n outs c data f)
  then have "0 < n" by simp
  then have "length (drop n (c # data)) \<le> length (filter (\<lambda>w. w \<noteq> Interrupted) outs)" using 3 by simp
  with 3 show ?case by simp
qed auto

section \<open>Lemmas on records\<close>

fun clear_of :: "char \<Rightarrow> char \<Rightarrow> string \<Rightarrow> bool" where
  "clear_of x y [] = True"
| "clear_of x y [c] = True"
| "clear_of x y (c # d # s) \<longleftrightarrow> \<not> (c = x \<and> d = y) \<and> clear_of x y (d # s)"

lemma clear_of_Cons: "clear_of x y (c # s) \<longleftrightarrow> clear_of x y s \<and> (s \<noteq> [] \<longrightarrow> \<not> (c = x \<and> hd s = y))"
  by (cases s) auto

lemma clear_of_append:
  "clear_of x y (s @ t) \<longleftrightarrow> clear_of x y s \<and> clear_of x y t \<and>
     (s \<noteq> [] \<and> t \<noteq> [] \<longrightarrow> \<not> (last s = x \<and> hd t = y))"
  by (induction s) (auto simp: clear_of_Cons)

lemma clear_of_absent: "x \<notin> set s \<Longrightarrow> clear_of x y s"
  by (induction x y s rule: clear_of.induct) auto

lemma find_text_first:
  assumes "clear_of x y (s @ [x])"
  shows "find_text (x # y # pat) (s @ x # y # pat @ r) = Some (length s)"
  using assms
proof (induction s)
  case (Cons c s)
  have "\<not> starts_with (c # s @ x # y # pat @ r) (x # y # pat)"
  proof (cases s)
    case Nil
    with Cons.prems show ?thesis by (auto simp: starts_with_def)
  next
    case (Cons d s')
    with Cons.prems show ?thesis by (auto simp: starts_with_def)
  qed
  moreover have "clear_of x y (s @ [x])" using Cons.prems by (cases s) auto
  ultimately show ?case using Cons.IH by simp
qed (simp add: starts_with_def)

lemma rfind_text_absent: "c \<notin> set s \<Longrightarrow> rfind_text (c # pat) s = None"
  by (induction s) (auto simp: starts_with_def)

lemma rfind_text_last:
  assumes "c \<notin> set (pat @ r)"
  shows "rfind_text (c # pat) (s @ c # pat @ r) = Some (length s)"
proof (induction s)
  case Nil
  have "rfind_text (c # pat) (pat @ r) = None" using assms by (rule rfind_text_absent)
  then show ?case by (simp add: starts_with_def)
qed simp

lemma plain_key: "jw_key ''payload'' = CHR 0x22 # CHR ''p'' # ''ayload'' @ [CHR 0x22, CHR '':'']"
  and checksum_key: "jw_key ''checksum'' = CHR 0x22 # ''checksum'' @ [CHR 0x22, CHR '':'']"
  by (simp_all add: jw_key_def jw_str_def jw_char_def char_defs)

lemma head_clear:
  assumes "ty = ''ORDER_SNAPSHOT'' \<or> ty = ''OPERATIONAL_EVENT''"
  shows "clear_of (CHR 0x22) (CHR ''p'') (record_head f ty sequence now @ [CHR 0x22])"
proof -
  have q: "CHR 0x22 \<notin> set (u64_to_string sequence)" "CHR 0x22 \<notin> set (int_to_string now)"
    "u64_to_string sequence \<noteq> []" "int_to_string now \<noteq> []"
    by (auto simp: u64_to_string_def is_digit_def int_to_string_def dest!: nat_to_string_digits int_to_string_chars)
  have ends: "last (u64_to_string sequence) \<noteq> CHR 0x22" "last (int_to_string now) \<noteq> CHR 0x22"
    using q by (metis last_in_set)+
  show ?thesis
    using assms q ends clear_of_absent [OF q(1)] clear_of_absent [OF q(2)]
    by (cases f) (auto simp: record_head_def format_id_def jw_key_def jw_str_def jw_char_def char_defs clear_of_append
        clear_of_Cons simp del: clear_of.simps(3))
qed

lemma hex_not_comma: "CHR '','' \<notin> set (fnv1a_hex t)"
proof -
  have "hex_digit n \<in> set ''0123456789abcdef''" for n
    unfolding hex_digit_def by (rule nth_mem) simp
  then have "set (fnv1a_hex t) \<subseteq> set ''0123456789abcdef''"
    unfolding fnv1a_hex_def set_map by (rule image_subsetI)
  then show ?thesis by auto
qed

text \<open>The text between the two keys of a JSON record is its payload.\<close>

lemma payload_text_line:
  assumes "ty = ''ORDER_SNAPSHOT'' \<or> ty = ''OPERATIONAL_EVENT''"
  shows "payload_text J (record_line JsonFormat ty payload sequence now) v = payload"
proof -
  let ?h = "record_head JsonFormat ty sequence now"
  let ?rest = "quote_char # fnv1a_hex payload @ [quote_char] @ ''}''"
  let ?line = "record_line JsonFormat ty payload sequence now"
  have "find_text (jw_key ''payload'') ?line = Some (length ?h)"
    using find_text_first [OF head_clear [OF assms, of JsonFormat sequence now], of "''ayload'' @ [CHR 0x22, CHR '':'']"]
    by (simp add: record_line_def embed_def plain_key)
  moreover have "rfind_text ('','' @ jw_key ''checksum'') ?line = Some (length (?h @ jw_key ''payload'' @ payload))"
    using rfind_text_last [of "CHR '',''" "jw_key ''checksum''" ?rest "?h @ jw_key ''payload'' @ payload"] hex_not_comma
    by (simp add: record_line_def embed_def checksum_key quote_char_def)
  ultimately show ?thesis by (simp add: payload_text_def record_line_def embed_def jw_key_def)
qed

section \<open>Entries of a journal\<close>

text \<open>A record as it was written: its sequence and time, the payload text, and the order or event in it;
  \<open>je_value\<close> is what the JSON library makes of the payload.\<close>

record 'j journal_entry =
  je_sequence :: u64
  je_written_at :: int
  je_payload :: string
  je_value :: 'j
  je_body :: record_body

definition body_type :: "record_body \<Rightarrow> string" where
  "body_type b = (case b of OrderSnapshot _ \<Rightarrow> ''ORDER_SNAPSHOT'' | EventRecord _ \<Rightarrow> ''OPERATIONAL_EVENT'')"

definition entry_line :: "'j journal_entry \<Rightarrow> string" where
  "entry_line e = record_line JsonFormat (body_type (je_body e)) (je_payload e) (je_sequence e) (je_written_at e)"

definition envelope :: "'j json_api \<Rightarrow> 'j journal_entry \<Rightarrow> 'j" where
  "envelope J e = j_object J
     [(''schemaVersion'', j_of_number J 1), (''recordSequence'', j_of_number J (uint (je_sequence e))),
      (''format'', j_of_string J ''json''), (''type'', j_of_string J (body_type (je_body e))),
      (''writtenAt'', j_of_number J (je_written_at e)), (''payload'', je_value e),
      (''checksum'', j_of_string J (fnv1a_hex (je_payload e)))]"

text \<open>The JSON library reads the line as the object it is the text of, and the payload as the order or
  event that was written.\<close>

definition readable :: "'j json_api \<Rightarrow> 'j journal_entry \<Rightarrow> bool" where
  "readable J e \<longleftrightarrow> j_parse J (entry_line e) = Inr (envelope J e) \<and> newline \<notin> set (je_payload e) \<and>
     (case je_body e of
        OrderSnapshot ord \<Rightarrow> order_from_json J (je_value e) = Inr ord
      | EventRecord ev \<Rightarrow> event_from_json J (je_value e) = Inr ev)"

definition journal_text :: "'j journal_entry list \<Rightarrow> string" where
  "journal_text es = concat (map (\<lambda>e. entry_line e @ [newline]) es)"

lemma envelope_finds:
  assumes "json_laws J"
  shows "j_find J (envelope J e) ''schemaVersion'' = Some (j_of_number J 1)"
    "j_find J (envelope J e) ''recordSequence'' = Some (j_of_number J (uint (je_sequence e)))"
    "j_find J (envelope J e) ''format'' = Some (j_of_string J ''json'')"
    "j_find J (envelope J e) ''type'' = Some (j_of_string J (body_type (je_body e)))"
    "j_find J (envelope J e) ''payload'' = Some (je_value e)"
    "j_find J (envelope J e) ''checksum'' = Some (j_of_string J (fnv1a_hex (je_payload e)))"
  unfolding envelope_def by (subst json_lawsD(1) [OF assms]; simp)+

lemma read_entry:
  assumes "json_laws J" "readable J e"
  shows "read_record J (entry_line e) = Inr (envelope J e, je_body e)"
proof -
  have "body_type (je_body e) = ''ORDER_SNAPSHOT'' \<or> body_type (je_body e) = ''OPERATIONAL_EVENT''"
    by (simp add: body_type_def split: record_body.splits)
  then have payload: "payload_text J (entry_line e) (je_value e) = je_payload e"
    unfolding entry_line_def by (rule payload_text_line)
  have one: "j_get_integer J (j_of_number J 1) = Inr 1" by (rule json_lawsD(5) [OF assms(1)]) (simp add: in_int64_iff)
  show ?thesis
    using assms one payload
    by (cases "je_body e")
      (simp_all add: read_record_def readable_def j_found envelope_finds json_lawsD(2) j_at_def body_type_def)
qed

lemma entry_line_nonempty [simp]: "entry_line e \<noteq> []"
  by (simp add: entry_line_def record_line_def record_head_def)

lemma entry_line_no_break:
  assumes "newline \<notin> set (je_payload e)"
  shows "newline \<notin> set (entry_line e)"
proof -
  have p: "newline \<notin> set t" if "printable t" for t using that by (auto simp: printable_def newline_def)
  have "printable (record_head JsonFormat ty q now)" for ty q now by (simp add: record_head_def)
  moreover have "printable (fnv1a_hex t)" for t by (auto simp: fnv1a_hex_def printable_def printable_hex)
  ultimately show ?thesis
    using assms p [OF printable_writers(1)]
    by (auto simp: entry_line_def record_line_def embed_def dest!: p) (auto simp: quote_char_def newline_def)
qed

lemma split_journal:
  assumes "\<forall>e \<in> set es. newline \<notin> set (je_payload e)" "newline \<notin> set torn"
  shows "split_on newline (journal_text es @ torn) = map entry_line es @ [torn]"
  using assms
proof (induction es)
  case Nil
  then show ?case by (simp add: journal_text_def split_on_single)
next
  case (Cons e es)
  have "split_on newline (entry_line e @ newline # (journal_text es @ torn)) =
      entry_line e # split_on newline (journal_text es @ torn)"
    by (rule split_on_append) (use Cons.prems entry_line_no_break in auto)
  then show ?case using Cons by (simp add: journal_text_def)
qed

lemma read_loop_journal:
  assumes "json_laws J" "\<forall>e \<in> set es. readable J e" "torn \<noteq> [] \<Longrightarrow> \<exists>x. read_record J torn = Inl x"
  shows "read_loop J i (number_lines off (map entry_line es @ [torn])) f =
    Inr (map (\<lambda>e. (envelope J e, je_body e)) es, if torn = [] then f else take (off + length (journal_text es)) f)"
  using assms(2)
proof (induction es arbitrary: i off)
  case Nil
  then show ?case using assms(3) by (auto simp: journal_text_def)
next
  case (Cons e es)
  obtain u us where tail: "map entry_line es @ [torn] = u # us" by (cases "map entry_line es @ [torn]") auto
  have lines: "number_lines off (map entry_line (e # es) @ [torn]) =
      \<lparr>jl_text = entry_line e, jl_start_offset = off, jl_terminated = True\<rparr> #
      number_lines (off + length (entry_line e) + 1) (map entry_line es @ [torn])"
    by (simp add: tail)
  show ?case
    unfolding lines using Cons read_entry [OF assms(1), of e]
    by (simp add: journal_text_def add.assoc)
qed

lemma sequences_journal:
  "json_laws J \<Longrightarrow> record_sequences J (map (\<lambda>e. (envelope J e, je_body e)) es) =
     Inr (map (\<lambda>e. (je_sequence e, je_body e)) es)"
  by (induction es) (simp_all add: j_found envelope_finds json_lawsD)

section \<open>The latest snapshots\<close>

definition newest :: "(u64 \<times> record_body) list \<Rightarrow> string \<Rightarrow> (u64 \<times> order) option \<Rightarrow> bool" where
  "newest rs cid found =
     (case found of
        None \<Rightarrow> \<forall>q ord. (q, OrderSnapshot ord) \<in> set rs \<longrightarrow> client_order_id ord \<noteq> cid
      | Some (q, ord) \<Rightarrow> (q, OrderSnapshot ord) \<in> set rs \<and> client_order_id ord = cid \<and>
          (\<forall>q' ord'. (q', OrderSnapshot ord') \<in> set rs \<longrightarrow> client_order_id ord' = cid \<longrightarrow> q' \<le> q))"

lemma load_record_frame [simp]:
  "fs_file (load_record r s) = fs_file s" "fs_next_sequence (load_record r s) = fs_next_sequence s"
  by (auto simp: load_record_def cache_event_def Let_def split: prod.splits record_body.splits)

lemma fold_load_frame [simp]:
  "fs_file (fold load_record rs s) = fs_file s" "fs_next_sequence (fold load_record rs s) = fs_next_sequence s"
  by (induction rs arbitrary: s) simp_all

lemma newest_snoc:
  assumes "newest rs cid (map_of m cid)"
  shows "newest (rs @ [(q, OrderSnapshot ord)]) cid (map_of (keep_latest q ord m) cid)"
proof (cases "client_order_id ord = cid")
  case True
  then show ?thesis
    using assms by (cases "map_of m cid") (force simp: newest_def keep_latest_def)+
next
  case False
  then have "map_of (keep_latest q ord m) cid = map_of m cid"
    by (auto simp: keep_latest_def split: option.splits)
  then show ?thesis using assms False by (auto simp: newest_def split: option.splits)
qed

lemma load_newest:
  assumes "fs_latest_orders s = []"
  shows "newest rs cid (map_of (fs_latest_orders (fold load_record rs s)) cid)"
proof (induction rs rule: rev_induct)
  case Nil
  then show ?case using assms by (simp add: newest_def)
next
  case (snoc r rs)
  obtain q b where r: "r = (q, b)" by fastforce
  show ?case
  proof (cases b)
    case (OrderSnapshot ord)
    then show ?thesis using newest_snoc [OF snoc] by (simp add: r load_record_def)
  next
    case (EventRecord ev)
    have "fs_latest_orders (cache_event e st) = fs_latest_orders st" for e st
      by (simp add: cache_event_def Let_def)
    then show ?thesis using snoc EventRecord by (auto simp: r load_record_def newest_def split: option.splits)
  qed
qed

lemma fold_max_bounds:
  fixes xs :: "u64 list"
  shows "x \<in> set xs \<Longrightarrow> x \<le> fold max xs a" and "fold max xs a \<in> insert a (set xs)"
proof -
  have eq: "fold max xs a = Max (insert a (set xs))" by (simp add: Max.set_eq_fold [symmetric])
  show "x \<in> set xs \<Longrightarrow> x \<le> fold max xs a" unfolding eq by (rule Max_ge) auto
  show "fold max xs a \<in> insert a (set xs)" unfolding eq by (rule Max_in) auto
qed

section \<open>Recovery of a damaged journal\<close>

lemma read_loop_bad:
  assumes "json_laws J" "\<forall>e \<in> set es. readable J e" "bad \<noteq> []" "read_record J bad = Inl x"
    and "\<And>off. number_lines off (u # us) \<noteq> []"
  shows "read_loop J i (number_lines off (map entry_line es @ bad # u # us)) f =
    Inl (Runtime_error (''invalid order journal record '' @ nat_to_string (i + length es + 1) @ '': '' @ what x))"
  using assms(2)
proof (induction es arbitrary: i off)
  case Nil
  then show ?case using assms(3-5) by simp
next
  case (Cons e es)
  obtain v vs where tail: "map entry_line es @ bad # u # us = v # vs"
    by (cases "map entry_line es @ bad # u # us") auto
  have lines: "number_lines off (map entry_line (e # es) @ bad # u # us) =
      \<lparr>jl_text = entry_line e, jl_start_offset = off, jl_terminated = True\<rparr> #
      number_lines (off + length (entry_line e) + 1) (map entry_line es @ bad # u # us)"
    by (simp add: tail)
  show ?case
    unfolding lines using Cons read_entry [OF assms(1), of e] by simp
qed

lemma split_damaged:
  assumes "\<forall>e \<in> set es. newline \<notin> set (je_payload e)" "newline \<notin> set bad"
  shows "split_on newline (journal_text es @ bad @ newline # rest) = map entry_line es @ bad # split_on newline rest"
  using assms
proof (induction es)
  case Nil
  then show ?case by (simp add: journal_text_def split_on_append)
next
  case (Cons e es)
  have "split_on newline (entry_line e @ newline # (journal_text es @ bad @ newline # rest)) =
      entry_line e # split_on newline (journal_text es @ bad @ newline # rest)"
    by (rule split_on_append) (use Cons.prems entry_line_no_break in auto)
  then show ?case using Cons by (simp add: journal_text_def)
qed

lemma number_lines_nonempty: "t \<noteq> [] \<Longrightarrow> number_lines off (t # ts) \<noteq> []"
  by (cases ts) simp_all

lemma open_damaged:
  assumes "json_laws J" "\<forall>e \<in> set es. readable J e" "bad \<noteq> []" "newline \<notin> set bad" "read_record J bad = Inl x"
    and "newline \<notin> set next_line" "next_line \<noteq> []" "path \<noteq> []"
  shows "open_store J f path durable (journal_text es @ bad @ newline # next_line @ newline # rest) =
    Inl (Runtime_error (''invalid order journal record '' @ nat_to_string (length es + 1) @ '': '' @ what x))"
proof -
  have breaks: "\<forall>e \<in> set es. newline \<notin> set (je_payload e)" using assms(2) by (simp add: readable_def)
  have "split_on newline (next_line @ newline # rest) = next_line # split_on newline rest"
    by (rule split_on_append [OF assms(6)])
  then have "split_on newline (journal_text es @ bad @ newline # next_line @ newline # rest) =
      map entry_line es @ bad # next_line # split_on newline rest"
    using split_damaged [OF breaks assms(4), of "next_line @ newline # rest"] by simp
  then show ?thesis
    using read_loop_bad [OF assms(1,2,3,5) number_lines_nonempty [OF assms(7)], where i = 0] assms(8)
    by (simp add: open_store_def read_valid_records_def journal_lines_def)
qed

section \<open>A sample journal\<close>

definition sample_value :: json_tree where
  "sample_value = order_to_json (tree_json (\<lambda>_. Inl wrong_type)) json_sample_iteration json_sample_order"

definition sample_entry :: "json_tree journal_entry" where
  "sample_entry = \<lparr>je_sequence = 5, je_written_at = 1000,
     je_payload = json_write_order json_sample_iteration json_sample_order False, je_value = sample_value,
     je_body = OrderSnapshot json_sample_order\<rparr>"

definition sample_json :: "json_tree json_api" where
  "sample_json = tree_json (\<lambda>t. if t = entry_line sample_entry
     then Inr (envelope (tree_json (\<lambda>_. Inl wrong_type)) sample_entry) else Inl wrong_type)"

lemma sample_json_laws: "json_laws sample_json"
  unfolding sample_json_def by (rule tree_json_laws)

lemma sample_readable: "readable sample_json sample_entry"
proof -
  have "envelope (tree_json p) e = envelope (tree_json q) e" for p q e
    by (simp add: envelope_def tree_json_def)
  moreover have api: "decimal_to_json (tree_json p) = (\<lambda>d. JString (to_string d))" "j_object (tree_json p) = JObject"
    "j_of_string (tree_json p) = JString" "j_of_number (tree_json p) = JNumber"
    "j_of_strings (tree_json p) = JStrings" "j_of_string_map (tree_json p) = JStringMap" for p
    by (simp_all add: decimal_to_json_def tree_json_def fun_eq_iff)
  have "order_to_json (tree_json p) it ord = order_to_json (tree_json q) it ord" for p q it ord
    unfolding order_to_json_def decimals_to_json_def api ..
  then have "je_value sample_entry = order_to_json sample_json json_sample_iteration json_sample_order"
    unfolding sample_json_def by (simp add: sample_entry_def sample_value_def)
  then have "order_from_json sample_json (je_value sample_entry) = Inr json_sample_order"
    using order_read [OF sample_json_laws json_sample_iterates] by simp
  moreover have "j_parse sample_json (entry_line sample_entry) =
      Inr (envelope (tree_json (\<lambda>_. Inl wrong_type)) sample_entry)"
    by (simp add: sample_json_def tree_json_def)
  moreover have "newline \<notin> set (je_payload sample_entry)"
    using printable_order [of json_sample_iteration json_sample_order False]
    by (auto simp: sample_entry_def printable_def newline_def)
  ultimately show ?thesis
    unfolding readable_def by (simp add: sample_entry_def sample_json_def)
qed

lemma sample_unreadable:
  assumes "t \<noteq> entry_line sample_entry"
  shows "read_record sample_json t = Inl wrong_type"
  using assms by (simp add: read_record_def sample_json_def tree_json_def)

section \<open>Properties\<close>

text \<open>C10. Recovery after a crash: opening a journal whose complete records are readable, with or without a
  torn record at its end, succeeds; the torn record is cut off the file; for every client order id the store
  holds the snapshot with the highest sequence number, whatever the order of the records in the file; and
  the next sequence number is above all of them.\<close>

theorem recovery_restores_latest:
  assumes "json_laws J" and "\<forall>e \<in> set es. readable J e" and "newline \<notin> set torn"
    and "torn \<noteq> [] \<longrightarrow> (\<exists>x. read_record J torn = Inl x)" and "path \<noteq> []"
    and "\<forall>e \<in> set es. je_sequence e \<noteq> - 1"
  shows "\<exists>s. open_store J f path durable (journal_text es @ torn) = Inr s \<and> fs_file s = journal_text es \<and>
    newest (map (\<lambda>e. (je_sequence e, je_body e)) es) cid (map_of (fs_latest_orders s) cid) \<and>
    (\<forall>e \<in> set es. je_sequence e < fs_next_sequence s)"
proof -
  let ?rs = "map (\<lambda>e. (je_sequence e, je_body e)) es"
  let ?m = "fold max (map fst ?rs) 0 :: u64"
  define s0 where "s0 = \<lparr>fs_format = f, fs_path = path, fs_durable_writes = durable, fs_next_sequence = ?m + 1,
    fs_file = journal_text es, fs_latest_orders = [], fs_recent_events = [],
    fs_recent_order_events = Map.empty, fs_sync_generation = 0\<rparr>"
  have "split_on newline (journal_text es @ torn) = map entry_line es @ [torn]"
    by (rule split_journal) (use assms(2,3) in \<open>auto simp: readable_def\<close>)
  then have "read_valid_records J (journal_text es @ torn) =
      Inr (map (\<lambda>e. (envelope J e, je_body e)) es, journal_text es)"
    using read_loop_journal [OF assms(1,2), of torn 0 0 "journal_text es @ torn"] assms(4)
    by (auto simp: read_valid_records_def journal_lines_def)
  then have opened: "open_store J f path durable (journal_text es @ torn) = Inr (fold load_record ?rs s0)"
    using assms(5) sequences_journal [OF assms(1)] by (simp add: open_store_def s0_def)
  have latest: "newest ?rs cid (map_of (fs_latest_orders (fold load_record ?rs s0)) cid)"
    by (rule load_newest) (simp add: s0_def)
  have "?m \<noteq> - 1"
    using fold_max_bounds(2) [of "map fst ?rs" 0] assms(6) by (auto simp: comp_def)
  moreover have "je_sequence e \<le> ?m" if "e \<in> set es" for e
    using fold_max_bounds(1) [of "je_sequence e" "map fst ?rs" 0] that by (simp add: comp_def)
  ultimately have "\<forall>e \<in> set es. je_sequence e < ?m + 1"
    using u64_less_Suc order_le_less by blast
  then have "\<forall>e \<in> set es. je_sequence e < fs_next_sequence (fold load_record ?rs s0)" by (simp add: s0_def)
  moreover have "fs_file (fold load_record ?rs s0) = journal_text es" by (simp add: s0_def)
  ultimately show ?thesis using opened latest by blast
qed

theorem recovery_restores_latest_witness:
  "\<exists>s. open_store sample_json JsonFormat ''orders.journal'' True (journal_text [sample_entry] @ ''{'') = Inr s \<and>
     fs_file s = journal_text [sample_entry] \<and>
     newest [(5, OrderSnapshot json_sample_order)] ''c1'' (map_of (fs_latest_orders s) ''c1'') \<and> 5 < fs_next_sequence s"
proof -
  have "''{'' \<noteq> entry_line sample_entry" by (simp add: entry_line_def record_line_def record_head_def jw_key_def)
  then have torn: "\<exists>x. read_record sample_json ''{'' = Inl x" using sample_unreadable by blast
  have body: "je_body sample_entry = OrderSnapshot json_sample_order" "je_sequence sample_entry = 5"
    by (simp_all add: sample_entry_def)
  show ?thesis
    using recovery_restores_latest [OF sample_json_laws, of "[sample_entry]" "''{''" "''orders.journal''" JsonFormat True "''c1''"]
      torn sample_readable body by (simp add: newline_def)
qed

text \<open>The loop that writes a record ends: when every call of \<open>write\<close> is interrupted or writes at
  least one byte, as many successful calls as there are bytes suffice, and the file has grown by exactly the
  record. When it returns at all without an error the whole record is there; with an error, a prefix of it.\<close>

theorem write_all_terminates:
  assumes "\<forall>w \<in> set outs. w = Interrupted \<or> (\<exists>n. w = Wrote n \<and> 0 < n)"
    and "length data \<le> length (filter (\<lambda>w. w \<noteq> Interrupted) outs)"
  shows "write_all outs data f = Some (Inr (), f @ data) \<and>
    (\<forall>outs' r f'. write_all outs' data f = Some (r, f') \<longrightarrow>
       (case r of Inr u \<Rightarrow> f' = f @ data | Inl e \<Rightarrow> \<exists>n. f' = f @ take n data))"
  using write_all_progress [OF assms] write_all_cases by blast

theorem write_all_terminates_witness:
  "write_all [Wrote 2, Interrupted, Wrote 1, Wrote 4] ''abc'' ''x'' = Some (Inr (), ''xabc'')"
  using write_all_terminates [of "[Wrote 2, Interrupted, Wrote 1, Wrote 4]" "''abc''" "''x''"] by simp

text \<open>A failed append ruins the journal: when the device fails in the middle of a record, the store
  reports the error and leaves the fragment in the file; the next record is written behind it on the same
  line, and once a further record follows, the journal can no longer be opened.\<close>

theorem failed_append_blocks_recovery:
  assumes "json_laws J" and "\<forall>e \<in> set es. readable J e" and "readable J e1" and "readable J e2" and "readable J e3"
    and "k < length (entry_line e1)" and "read_record J (take k (entry_line e1) @ entry_line e2) = Inl x" and "path \<noteq> []"
  shows "\<exists>m f1 f2 f3.
    write_all [Wrote k, Failed ''No space left on device''] (entry_line e1 @ [newline]) (journal_text es) = Some (Inl m, f1) \<and>
    write_all [Wrote (length (entry_line e2) + 1)] (entry_line e2 @ [newline]) f1 = Some (Inr (), f2) \<and>
    write_all [Wrote (length (entry_line e3) + 1)] (entry_line e3 @ [newline]) f2 = Some (Inr (), f3) \<and>
    open_store J f path durable f3 =
      Inl (Runtime_error (''invalid order journal record '' @ nat_to_string (length es + 1) @ '': '' @ what x))"
proof -
  let ?f1 = "journal_text es @ take k (entry_line e1)"
  let ?bad = "take k (entry_line e1) @ entry_line e2"
  have no: "newline \<notin> set (entry_line e)" if "readable J e" for e
    using that entry_line_no_break by (auto simp: readable_def)
  have whole: "write_all [Wrote (length l + 1)] (l @ [newline]) g = Some (Inr (), g @ l @ [newline])" for l g
  proof -
    obtain c d where cd: "l @ [newline] = c # d" by (cases "l @ [newline]") auto
    have "length (l @ [newline]) = length (c # d)" unfolding cd ..
    then have "length d = length l" by simp
    then show ?thesis by (simp add: cd)
  qed
  obtain c l where l: "entry_line e1 @ [newline] = c # l" by (cases "entry_line e1 @ [newline]") auto
  have more: "drop k (c # l) \<noteq> []" using assms(6) unfolding l [symmetric] by simp
  have "take k (c # l) = take k (entry_line e1)" using assms(6) unfolding l [symmetric] by simp
  then have first: "write_all [Wrote k, Failed ''No space left on device''] (entry_line e1 @ [newline]) (journal_text es) =
      Some (Inl (Runtime_error (''failed to append order journal: '' @ ''No space left on device'')), ?f1)"
    unfolding l using more by (cases "drop k (c # l)") auto
  have "newline \<notin> set ?bad" using no assms(3,4) by (auto dest: in_set_takeD)
  then have "open_store J f path durable (journal_text es @ ?bad @ newline # entry_line e3 @ newline # []) =
      Inl (Runtime_error (''invalid order journal record '' @ nat_to_string (length es + 1) @ '': '' @ what x))"
    using open_damaged [OF assms(1,2) _ _ assms(7) no [OF assms(5)] _ assms(8)] by simp
  then show ?thesis using first whole [of "entry_line e2" ?f1] whole [of "entry_line e3" "?f1 @ entry_line e2 @ [newline]"]
    by (intro exI conjI) (simp_all del: write_all.simps)
qed

theorem failed_append_blocks_recovery_witness:
  "\<exists>g. open_store sample_json JsonFormat ''orders.journal'' True g =
     Inl (Runtime_error (''invalid order journal record '' @ nat_to_string 2 @ '': '' @ what wrong_type))"
proof -
  have "take 1 (entry_line sample_entry) @ entry_line sample_entry \<noteq> entry_line sample_entry"
    by (metis append_self_conv2 entry_line_nonempty take_eq_Nil zero_neq_one)
  then have bad: "read_record sample_json (take 1 (entry_line sample_entry) @ entry_line sample_entry) = Inl wrong_type"
    by (rule sample_unreadable)
  have "1 < length (entry_line sample_entry)" by (simp add: entry_line_def record_line_def record_head_def jw_key_def)
  with bad show ?thesis
    using failed_append_blocks_recovery [OF sample_json_laws _ sample_readable sample_readable sample_readable,
        of "[sample_entry]" 1 wrong_type "''orders.journal''" JsonFormat True] sample_readable
    by (auto simp: numeral_2_eq_2)
qed

end
