(* ===== verification/Abex_Audit.thy ===== *)
theory Abex_Audit
  imports Abex_Async Abex_Store Abex_Preflight
begin

text \<open>
  What the asynchronous lanes of \<open>Abex_Async\<close> carry.

  \<^item> \<open>OperationalEventWriter\<close> (\<open>operational_event_writer.hpp\<close>): entries of the audit trail, written to the
    store by the worker, which reports each outcome to \<open>OrderGateway::complete_operational_event\<close>; the window of
    recent events, the counters and the observers of the gateway (\<open>order_gateway.cpp\<close>).
  \<^item> \<open>AsyncOrderObserverQueue\<close> (\<open>async_order_observer_queue.hpp\<close>): registration and dispatch of order
    observers.
  \<^item> \<open>AsyncJournalLane\<close> (\<open>async_journal_lane.hpp\<close>): the journal write of an order.

  An observer is a function on a state of its own that may throw; what it did before it threw stays.
\<close>

section \<open>Observers\<close>

type_synonym ('b, 's) observer = "'b \<Rightarrow> 's \<Rightarrow> 's \<times> unit result"

text \<open>The loop that calls observers and swallows what they throw.\<close>

fun notify_all :: "('b, 's) observer list \<Rightarrow> 'b \<Rightarrow> 's \<Rightarrow> 's" where
  "notify_all [] x s = s"
| "notify_all (f # fs) x s = notify_all fs x (fst (f x s))"

record ('b, 's) observers =
  ob_list :: "(u64 \<times> ('b, 's) observer) list"
  ob_next_token :: u64

definition new_observers :: "('b, 's) observers" where
  "new_observers = \<lparr>ob_list = [], ob_next_token = 1\<rparr>"

definition add_observer ::
    "string \<Rightarrow> ('b, 's) observer option \<Rightarrow> ('b, 's) observers \<Rightarrow> u64 result \<times> ('b, 's) observers" where
  "add_observer complaint obs q =
     (case obs of
        None \<Rightarrow> (Inl (Invalid_argument complaint), q)
      | Some f \<Rightarrow> (Inr (ob_next_token q),
          q\<lparr>ob_list := ob_list q @ [(ob_next_token q, f)], ob_next_token := ob_next_token q + 1\<rparr>))"

definition remove_observer :: "u64 \<Rightarrow> ('b, 's) observers \<Rightarrow> ('b, 's) observers" where
  "remove_observer token q = q\<lparr>ob_list := filter (\<lambda>e. fst e \<noteq> token) (ob_list q)\<rparr>"

definition dispatch :: "('b, 's) observers \<Rightarrow> 'b \<Rightarrow> 's \<Rightarrow> 's" where
  "dispatch q x s = notify_all (map snd (ob_list q)) x s"

definition add_order_observer :: "(order, 's) observer option \<Rightarrow> (order, 's) observers \<Rightarrow> u64 result \<times> (order, 's) observers" where
  "add_order_observer = add_observer ''order observer is empty''"

text \<open>A null pointer is not posted.\<close>

definition order_entry :: "order option \<Rightarrow> order post option" where
  "order_entry sp = (case sp of None \<Rightarrow> None | Some ord \<Rightarrow> Some (PostCount ord))"

section \<open>The audit trail\<close>

record raw_entry =
  re_occurred_at_ms :: int
  re_severity :: operational_severity
  re_category :: string
  re_code :: string
  re_message :: string
  re_instance_id :: string
  re_venue :: "venue option"
  re_client_order_id :: string
  re_request_id :: string
  re_order_ctx :: "order_event_context option"

definition event_of :: "raw_entry \<Rightarrow> operational_event" where
  "event_of e =
     \<lparr>ev_sequence = 0, ev_occurred_at_ms = re_occurred_at_ms e, ev_severity = re_severity e,
      ev_category = re_category e, ev_code = re_code e, ev_message = re_message e,
      ev_instance_id = re_instance_id e, ev_venue = re_venue e, ev_client_order_id = re_client_order_id e,
      ev_request_id = re_request_id e, ev_order = re_order_ctx e\<rparr>"

text \<open>The two entries of \<open>submit2\<close>, which are pushed one after the other.\<close>

definition submit2 :: "raw_entry \<Rightarrow> operational_severity \<Rightarrow> string \<Rightarrow> string \<Rightarrow> string \<Rightarrow> raw_entry list" where
  "submit2 a sev_b cat_b code_b msg_b =
     [a, a\<lparr>re_severity := sev_b, re_category := cat_b, re_code := code_b, re_message := msg_b\<rparr>]"

record audit =
  au_events :: "operational_event list"
  au_idempotent_replays :: u64
  au_reconciliations :: u64
  au_alerts :: u64
  au_logging_failures :: u64
  au_last_logging_error :: string

text \<open>The gateway starts with the last events of the store, and with all counters at zero.\<close>

definition new_audit :: "operational_event list \<Rightarrow> audit" where
  "new_audit prior_events =
     \<lparr>au_events = prior_events, au_idempotent_replays = 0, au_reconciliations = 0, au_alerts = 0,
      au_logging_failures = 0, au_last_logging_error = []\<rparr>"

definition previous_instance_present :: "operational_event list \<Rightarrow> bool" where
  "previous_instance_present prior_events \<longleftrightarrow>
     list_ex (\<lambda>ev. ev_code ev = ''GATEWAY_STARTED'' \<or> ev_code ev = ''GATEWAY_RESTARTED'') prior_events"

definition logging_failed :: "string \<Rightarrow> audit \<Rightarrow> audit" where
  "logging_failed err a = a\<lparr>au_logging_failures := au_logging_failures a + 1, au_last_logging_error := err\<rparr>"

text \<open>\<open>record_event\<close> when the ring refuses the entry.\<close>

definition event_queue_full :: "audit \<Rightarrow> audit" where
  "event_queue_full = logging_failed ''operational event queue is full''"

definition count_if :: "bool \<Rightarrow> u64 \<Rightarrow> u64" where
  "count_if b n = (if b then n + 1 else n)"

definition complete_operational_event ::
    "operational_event option \<Rightarrow> string \<Rightarrow> (operational_event, 's) observers \<Rightarrow> audit \<times> 's \<Rightarrow> audit \<times> 's" where
  "complete_operational_event event err obs = (\<lambda>(a, w).
     case event of
       None \<Rightarrow> (logging_failed err a, w)
     | Some ev \<Rightarrow>
         let evs = au_events a @ [ev]
         in (a\<lparr>au_events := (if length evs > 200 then tl evs else evs),
               au_idempotent_replays := count_if (ev_code ev = ''IDEMPOTENT_REPLAY'') (au_idempotent_replays a),
               au_reconciliations := count_if (ev_code ev = ''RECONCILIATION_STARTED'') (au_reconciliations a),
               au_alerts := count_if (ev_severity ev \<noteq> Info) (au_alerts a)\<rparr>,
             dispatch obs ev w))"

text \<open>\<open>OperationalEventWriter::process\<close> over a store: \<open>ap\<close> is its \<open>append_event\<close>, \<open>None\<close> where it does
  not return.\<close>

type_synonym ('env, 'st) event_append =
  "'env \<Rightarrow> operational_event \<Rightarrow> 'st \<Rightarrow> (operational_event result \<times> 'st) option"

definition event_process ::
    "('env, 'st) event_append \<Rightarrow> (operational_event, 's) observers \<Rightarrow> 'env \<Rightarrow> raw_entry \<Rightarrow> 'st \<times> audit \<times> 's \<Rightarrow>
     (operational_event result \<times> 'st \<times> audit \<times> 's) option" where
  "event_process ap obs env e = (\<lambda>(st, aw).
     case ap env (event_of e) st of
       None \<Rightarrow> None
     | Some (Inr ev, st1) \<Rightarrow> Some (Inr ev, st1, complete_operational_event (Some ev) [] obs aw)
     | Some (Inl x, st1) \<Rightarrow> Some (Inl x, st1, complete_operational_event None (what x) obs aw))"

fun process_all ::
    "('env, 'st) event_append \<Rightarrow> (operational_event, 's) observers \<Rightarrow> ('env \<times> raw_entry) list \<Rightarrow> 'st \<times> audit \<times> 's \<Rightarrow>
     (operational_event result list \<times> 'st \<times> audit \<times> 's) option" where
  "process_all ap obs [] s = Some ([], s)"
| "process_all ap obs ((env, e) # es) s =
     (case event_process ap obs env e s of
        None \<Rightarrow> None
      | Some (r, s1) \<Rightarrow>
          (case process_all ap obs es s1 of
             None \<Rightarrow> None
           | Some (rs, s2) \<Rightarrow> Some (r # rs, s2)))"

definition operational_events :: "nat \<Rightarrow> audit \<Rightarrow> operational_event list" where
  "operational_events limit a = last_n limit (au_events a)"

record gateway_stability =
  gs_instance_id :: string
  gs_started_at_ms :: int
  gs_recovered_orders :: nat
  gs_idempotent_replays :: u64
  gs_reconciliations :: u64
  gs_alerts :: u64
  gs_logging_failures :: u64
  gs_last_logging_error :: string
  gs_journal :: journal_status

definition stability :: "nat \<Rightarrow> int \<Rightarrow> nat \<Rightarrow> audit \<Rightarrow> journal_status \<Rightarrow> gateway_stability" where
  "stability pid started_at_ms recovered a journal =
     \<lparr>gs_instance_id = gateway_instance_id pid started_at_ms, gs_started_at_ms = started_at_ms,
      gs_recovered_orders = recovered, gs_idempotent_replays = au_idempotent_replays a,
      gs_reconciliations = au_reconciliations a, gs_alerts = au_alerts a,
      gs_logging_failures = au_logging_failures a, gs_last_logging_error = au_last_logging_error a,
      gs_journal = journal\<rparr>"

section \<open>The journal lane\<close>

record journal_entry_post =
  jp_order :: order
  jp_intent_only :: bool
  jp_sequence :: u64

text \<open>A failed commit is dropped silently.\<close>

definition journal_process ::
    "write_outcome list \<Rightarrow> int \<Rightarrow> iteration \<Rightarrow> journal_entry_post \<Rightarrow> file_store \<Rightarrow> file_store option" where
  "journal_process outs now it e s =
     map_option snd (commit_order outs now (json_write_order it (jp_order e) (jp_intent_only e)) (jp_sequence e) s)"

section \<open>Lemmas\<close>

definition stored :: "operational_event result list \<Rightarrow> operational_event list" where
  "stored rs = concat (map (\<lambda>r. case r of Inr ev \<Rightarrow> [ev] | Inl _ \<Rightarrow> []) rs)"

lemma stored_simps [simp]:
  "stored [] = []" "stored (Inr ev # rs) = ev # stored rs" "stored (Inl x # rs) = stored rs"
  by (simp_all add: stored_def)

lemma last_n_append: "last_n n (last_n n xs @ ys) = last_n n (xs @ ys)"
proof (cases "length xs \<le> n")
  case False
  then have "last_n n xs = drop (length xs - n) xs" by (simp add: last_n_def)
  then show ?thesis using False by (auto simp: last_n_def min_def add.commute)
qed (simp add: last_n_def)

lemma window_step: "length xs \<le> 200 \<Longrightarrow> (if length (xs @ [x]) > 200 then tl (xs @ [x]) else xs @ [x]) = last_n 200 (xs @ [x])"
  by (cases "length xs = 200") (auto simp: last_n_def drop_Suc tl_append split: list.split)

lemma last_n_length: "length (last_n n xs) \<le> n"
  by (simp add: last_n_def)

lemma last_n_short: "length xs \<le> n \<Longrightarrow> last_n n xs = xs"
  by (simp add: last_n_def)

lemma complete_some:
  "fst (complete_operational_event (Some ev) err obs (a, w)) =
     a\<lparr>au_events := (if length (au_events a @ [ev]) > 200 then tl (au_events a @ [ev]) else au_events a @ [ev]),
       au_idempotent_replays := count_if (ev_code ev = ''IDEMPOTENT_REPLAY'') (au_idempotent_replays a),
       au_reconciliations := count_if (ev_code ev = ''RECONCILIATION_STARTED'') (au_reconciliations a),
       au_alerts := count_if (ev_severity ev \<noteq> Info) (au_alerts a)\<rparr>"
  "complete_operational_event None err obs (a, w) = (logging_failed err a, w)"
  by (simp_all add: complete_operational_event_def Let_def)

text \<open>The counters after a sequence of outcomes.\<close>

abbreviation occurrences :: "('a \<Rightarrow> bool) \<Rightarrow> 'a list \<Rightarrow> u64" where
  "occurrences f xs \<equiv> of_nat (length (filter f xs))"

lemma process_all_audit:
  assumes "process_all ap obs es (st, a, w) = Some (rs, st', a', w')" "length (au_events a) \<le> 200"
  shows "length rs = length es \<and> au_events a' = last_n 200 (au_events a @ stored rs) \<and>
    au_logging_failures a' = au_logging_failures a + occurrences isl rs \<and>
    au_alerts a' = au_alerts a + occurrences (\<lambda>ev. ev_severity ev \<noteq> Info) (stored rs)"
  using assms
proof (induction es arbitrary: st a w rs)
  case Nil
  then show ?case by (simp add: last_n_short)
next
  case (Cons x es)
  obtain env e where x: "x = (env, e)" by fastforce
  from Cons.prems(1) x obtain r st1 a1 w1 rs1 where
    r: "event_process ap obs env e (st, a, w) = Some (r, st1, a1, w1)" "rs = r # rs1"
      "process_all ap obs es (st1, a1, w1) = Some (rs1, st', a', w')"
    by (auto split: option.splits)
  show ?case
  proof (cases r)
    case (Inl y)
    then have "a1 = logging_failed (what y) a"
      using r(1) by (auto simp: event_process_def complete_some split: option.splits sum.splits prod.splits)
    with Cons.IH [OF r(3)] Cons.prems(2) Inl r(2) show ?thesis by (simp add: logging_failed_def algebra_simps)
  next
    case (Inr ev)
    then obtain w2 where "a1 = fst (complete_operational_event (Some ev) [] obs (a, w2))"
      using r(1) by (auto simp: event_process_def split: option.splits sum.splits prod.splits) (metis fst_conv)
    then have a1: "au_events a1 = last_n 200 (au_events a @ [ev])" "au_logging_failures a1 = au_logging_failures a"
        "au_alerts a1 = count_if (ev_severity ev \<noteq> Info) (au_alerts a)"
      using window_step [OF Cons.prems(2), of ev] by (simp_all add: complete_some)
    with Cons.IH [OF r(3)] last_n_length Inr r(2) show ?thesis
      by (auto simp: count_if_def last_n_append algebra_simps)
  qed
qed

section \<open>Stores\<close>

text \<open>What the writer relies on: a store gives an event its sequence, and its time when it has none.\<close>

definition same_event :: "operational_event \<Rightarrow> operational_event \<Rightarrow> bool" where
  "same_event ev ev' \<longleftrightarrow>
     ev' = ev\<lparr>ev_sequence := ev_sequence ev', ev_occurred_at_ms := ev_occurred_at_ms ev'\<rparr> \<and>
     (ev_occurred_at_ms ev \<noteq> 0 \<longrightarrow> ev_occurred_at_ms ev' = ev_occurred_at_ms ev)"

locale event_store =
  fixes ap :: "('env, 'st) event_append"
  assumes appended: "ap env ev st = Some (Inr ev', st') \<Longrightarrow> same_event ev ev'"
begin

lemma processed:
  assumes "process_all ap obs es s = Some (rs, s')" "i < length es" "rs ! i = Inr ev"
  shows "same_event (event_of (snd (es ! i))) ev"
  using assms
proof (induction es arbitrary: s rs i)
  case (Cons x es)
  obtain env e where x: "x = (env, e)" by fastforce
  from Cons.prems(1) x obtain r s1 rs1 where
    r: "event_process ap obs env e s = Some (r, s1)" "rs = r # rs1" "process_all ap obs es s1 = Some (rs1, s')"
    by (auto split: option.splits)
  show ?case
  proof (cases i)
    case 0
    with r(1,2) Cons.prems(3) x show ?thesis
      by (auto simp: event_process_def intro: appended split: option.splits sum.splits prod.splits)
  next
    case (Suc j)
    with Cons.IH [OF r(3), of j] Cons.prems r(2) show ?thesis by simp
  qed
qed simp

end

definition file_append :: "(write_outcome list \<times> int, file_store) event_append" where
  "file_append = (\<lambda>(outs, now). append_event outs now)"

definition memory_append :: "(int, memory_store) event_append" where
  "memory_append = (\<lambda>now ev s. case memory_append_event now ev s of (ev', s') \<Rightarrow> Some (Inr ev', s'))"

interpretation file_events: event_store file_append
  by unfold_locales
    (auto simp: file_append_def append_event_def same_event_def Let_def reserve_sequence_def
      split: option.splits sum.splits prod.splits if_splits)

interpretation memory_events: event_store memory_append
  by unfold_locales
    (auto simp: memory_append_def memory_append_event_def same_event_def Let_def split: if_splits)

text \<open>Tokens are handed out once: a new observer does not replace another one, and removing it restores the list.\<close>

lemma remove_added_observer:
  assumes "add_observer complaint (Some f) q = (Inr token, q')" "token \<notin> fst ` set (ob_list q)"
  shows "ob_list (remove_observer token q') = ob_list q"
    "dispatch q' x s = fst (f x (dispatch q x s))"
proof -
  have q': "ob_list q' = ob_list q @ [(token, f)]" using assms(1) by (auto simp: add_observer_def)
  then show "ob_list (remove_observer token q') = ob_list q"
    using assms(2) by (auto simp: remove_observer_def intro!: filter_True)
  have "notify_all (fs @ [f]) x s = fst (f x (notify_all fs x s))" for fs s
    by (induction fs arbitrary: s) simp_all
  then show "dispatch q' x s = fst (f x (dispatch q x s))" by (simp add: dispatch_def q')
qed

section \<open>Properties\<close>

definition sample_entry_raw :: raw_entry where
  "sample_entry_raw = \<lparr>re_occurred_at_ms = 4, re_severity = Warning, re_category = ''ORDER'', re_code = ''X'', re_message = ''m'',
     re_instance_id = ''g'', re_venue = None, re_client_order_id = [], re_request_id = [], re_order_ctx = None\<rparr>"

text \<open>The audit trail accounts for every entry the writer has processed: each has one outcome, the window of
  recent events is the last 200 of the events before and the events stored since, in order, each with the
  content of its entry; the failure counter counts the entries the store refused and the alert counter the
  stored events above \<open>Info\<close>.\<close>

theorem audit_trail_exact:
  assumes "process_all file_append obs es (st, new_audit prior, w) = Some (rs, st', a, w')" and "length prior \<le> 200"
  shows "length rs = length es \<and> au_events a = last_n 200 (prior @ stored rs) \<and>
    au_logging_failures a = occurrences isl rs \<and>
    au_alerts a = occurrences (\<lambda>ev. ev_severity ev \<noteq> Info) (stored rs) \<and>
    (\<forall>i < length es. \<forall>ev. rs ! i = Inr ev \<longrightarrow> same_event (event_of (snd (es ! i))) ev)"
  using process_all_audit [OF assms(1)] file_events.processed [OF assms(1)] assms(2) by (simp add: new_audit_def)

definition sample_store :: file_store where
  "sample_store = \<lparr>fs_format = JsonFormat, fs_path = ''j'', fs_durable_writes = False, fs_next_sequence = 1, fs_file = [],
     fs_latest_orders = [], fs_recent_events = [], fs_recent_order_events = Map.empty, fs_sync_generation = 0\<rparr>"

lemma sample_append_fails:
  "\<exists>st'. file_append ([Failed ''disk full''], 5) (event_of sample_entry_raw) sample_store =
     Some (Inl (Runtime_error ''failed to append order journal: disk full''), st')"
  by (simp add: file_append_def append_event_def sample_store_def reserve_sequence_def write_record_def
      record_line_def record_head_def jw_key_def Let_def)

theorem audit_trail_exact_witness:
  "\<exists>rs st' a w'. process_all file_append new_observers [(([Failed ''disk full''], 5), sample_entry_raw)]
     (sample_store, new_audit [], ()) = Some (rs, st', a, w') \<and> au_logging_failures a = 1 \<and> au_events a = []"
proof -
  let ?es = "[(([Failed ''disk full''], 5), sample_entry_raw)]"
  obtain st' where "file_append ([Failed ''disk full''], 5) (event_of sample_entry_raw) sample_store =
     Some (Inl (Runtime_error ''failed to append order journal: disk full''), st')" using sample_append_fails by blast
  then obtain a w' where run: "process_all file_append new_observers ?es (sample_store, new_audit [], ()) =
     Some ([Inl (Runtime_error ''failed to append order journal: disk full'')], st', a, w')"
    by (simp add: event_process_def complete_some)
  have "au_logging_failures a = 1 \<and> au_events a = []" using audit_trail_exact [OF run] by (simp add: last_n_def)
  with run show ?thesis by blast
qed

end
