(* ===== verification/Abex_Md_Ring.thy ===== *)
theory Abex_Md_Ring
  imports Abex_Market_Data Abex_Transitions
begin

text \<open>
  The shared-memory ring that carries quotes from the publisher process to the gateway
  (\<open>src/infrastructure/market_data_ring.cpp\<close>).

  The publisher stamps a slot with zero, stores the fields one by one, stamps it with the sequence number and
  raises the published counter; the reader accepts a slot when the stamp is the number it looks for before and
  after it copied the fields. Both sides are modelled store by store and load by load, sequentially consistent, each
  byte of the symbol on its own. Sequence numbers are natural numbers. The outcomes of system calls are arguments.
\<close>

unbundle bit_operations_syntax

section \<open>Layout\<close>

definition ring_magic :: string where "ring_magic = ''ABEXMD01''"

definition ring_version :: nat where "ring_version = 1"

definition symbol_capacity :: nat where "symbol_capacity = 16"

definition header_size :: nat where "header_size = 64"

definition record_size :: nat where "record_size = 128"

record ring_header =
  rh_magic :: string
  rh_version :: nat
  rh_capacity :: nat
  rh_record_size :: nat
  rh_generation :: u64
  rh_published_sequence :: nat

record ring_record =
  rr_committed_sequence :: nat
  rr_sequence :: nat
  rr_source_time_ms :: int
  rr_published_at_ms :: int
  rr_bid_raw :: int
  rr_ask_raw :: int
  rr_venue :: nat
  rr_symbol :: string

record md_ring =
  mr_header :: ring_header
  mr_records :: "ring_record list"

definition blank_record :: ring_record where
  "blank_record = \<lparr>rr_committed_sequence = 0, rr_sequence = 0, rr_source_time_ms = 0, rr_published_at_ms = 0,
     rr_bid_raw = 0, rr_ask_raw = 0, rr_venue = 0, rr_symbol = replicate symbol_capacity (CHR 0x00)\<rparr>"

definition mapping_size :: "nat \<Rightarrow> nat result" where
  "mapping_size capacity =
     (if capacity = 0 \<or> capacity > 2 ^ 32 - 1 then Inl (Invalid_argument ''market-data ring capacity is out of range'')
      else Inr (header_size + capacity * record_size))"

definition encode_venue :: "venue \<Rightarrow> nat" where
  "encode_venue v = (if v = Okx then 1 else 2)"

definition decode_venue :: "nat \<Rightarrow> venue result" where
  "decode_venue v =
     (if v = 1 then Inr Okx else if v = 2 then Inr Binance
      else Inl (Runtime_error ''market-data ring contains an invalid venue''))"

section \<open>The publisher\<close>

record ring_writer =
  rw_capacity :: nat
  rw_ring :: md_ring
  rw_sequence :: nat

text \<open>A system call succeeds, or leaves an error text.\<close>

definition system_error :: "string \<Rightarrow> string \<Rightarrow> string \<Rightarrow> exn" where
  "system_error operation path err = Runtime_error (operation @ '' '' @ path @ '': '' @ err)"

definition system_call :: "string \<Rightarrow> string \<Rightarrow> string option \<Rightarrow> unit result" where
  "system_call operation path outcome = (case outcome of None \<Rightarrow> Inr () | Some err \<Rightarrow> Inl (system_error operation path err))"

definition fresh_ring :: "nat \<Rightarrow> u64 \<Rightarrow> md_ring" where
  "fresh_ring capacity generation =
     \<lparr>mr_header = \<lparr>rh_magic = ring_magic, rh_version = ring_version, rh_capacity = capacity, rh_record_size = record_size,
        rh_generation = generation, rh_published_sequence = 0\<rparr>,
      mr_records = replicate capacity blank_record\<rparr>"

definition open_ring_writer ::
    "string \<Rightarrow> nat \<Rightarrow> unit result \<Rightarrow> string option \<Rightarrow> string option \<Rightarrow> string option \<Rightarrow> string option \<Rightarrow> u64 \<Rightarrow> u64 \<Rightarrow> ring_writer result" where
  "open_ring_writer path capacity directories created locked sized mapped steady_now pid =
     rbind (mapping_size capacity) (\<lambda>_. rbind directories (\<lambda>_.
     rbind (system_call ''cannot create'' path created) (\<lambda>_.
     rbind (system_call ''cannot lock'' path locked) (\<lambda>_.
     rbind (system_call ''cannot size'' path sized) (\<lambda>_.
     rbind (system_call ''cannot map'' path mapped) (\<lambda>_.
       Inr \<lparr>rw_capacity = capacity, rw_ring = fresh_ring capacity (steady_now XOR pid), rw_sequence = 0\<rparr>))))))"

text \<open>The stores of a publication, in program order.\<close>

datatype ring_store =
    Committed nat | Record_sequence nat | Source_time int | Published_at int | Bid_raw int | Ask_raw int
  | Venue_code nat | Symbol_char nat char | Published_sequence nat

fun record_store :: "ring_store \<Rightarrow> ring_record \<Rightarrow> ring_record" where
  "record_store (Committed n) r = r\<lparr>rr_committed_sequence := n\<rparr>"
| "record_store (Record_sequence n) r = r\<lparr>rr_sequence := n\<rparr>"
| "record_store (Source_time t) r = r\<lparr>rr_source_time_ms := t\<rparr>"
| "record_store (Published_at t) r = r\<lparr>rr_published_at_ms := t\<rparr>"
| "record_store (Bid_raw x) r = r\<lparr>rr_bid_raw := x\<rparr>"
| "record_store (Ask_raw x) r = r\<lparr>rr_ask_raw := x\<rparr>"
| "record_store (Venue_code v) r = r\<lparr>rr_venue := v\<rparr>"
| "record_store (Symbol_char i c) r = r\<lparr>rr_symbol := (rr_symbol r)[i := c]\<rparr>"
| "record_store (Published_sequence n) r = r"

definition slot_store :: "nat \<Rightarrow> ring_store \<Rightarrow> md_ring \<Rightarrow> md_ring" where
  "slot_store i st g =
     (case st of
        Published_sequence n \<Rightarrow> g\<lparr>mr_header := (mr_header g)\<lparr>rh_published_sequence := n\<rparr>\<rparr>
      | _ \<Rightarrow> g\<lparr>mr_records := (mr_records g)[i := record_store st (mr_records g ! i)]\<rparr>)"

definition publication_time :: "int \<Rightarrow> market_quote \<Rightarrow> int" where
  "publication_time now q = (if mq_published_at_ms q = 0 then now else mq_published_at_ms q)"

definition field_stores :: "int \<Rightarrow> nat \<Rightarrow> market_quote \<Rightarrow> ring_store list" where
  "field_stores now sequence q =
     [Record_sequence sequence, Source_time (mq_source_time_ms q), Published_at (publication_time now q),
      Bid_raw (raw (mq_bid_price q)), Ask_raw (raw (mq_ask_price q)), Venue_code (encode_venue (mq_venue q))] @
     map (\<lambda>i. Symbol_char i (CHR 0x00)) [0..<symbol_capacity] @
     map (\<lambda>i. Symbol_char i (mq_symbol q ! i)) [0..<length (mq_symbol q)]"

definition publish_check :: "market_quote \<Rightarrow> unit result" where
  "publish_check q =
     (if \<not> valid_quote q then Inl (Invalid_argument ''cannot publish invalid quote'')
      else if length (mq_symbol q) \<ge> symbol_capacity
        then Inl (Invalid_argument ''market-data symbol is too long for the ring'')
      else Inr ())"

definition record_index :: "nat \<Rightarrow> nat \<Rightarrow> nat" where
  "record_index capacity sequence = (sequence - 1) mod capacity"

definition publish_one :: "int \<Rightarrow> ring_writer \<Rightarrow> market_quote \<Rightarrow> ring_writer result" where
  "publish_one now w q =
     rbind (publish_check q) (\<lambda>_.
       let sequence = rw_sequence w + 1; i = record_index (rw_capacity w) sequence
       in Inr (w\<lparr>rw_sequence := sequence,
                 rw_ring := fold (slot_store i) (Committed 0 # field_stores now sequence q @
                                  [Committed sequence, Published_sequence sequence]) (rw_ring w)\<rparr>))"

text \<open>The loop over the quotes ends at the first one it refuses; those before it stay published.\<close>

fun ring_publish :: "ring_writer \<Rightarrow> (int \<times> market_quote) list \<Rightarrow> ring_writer \<times> exn option" where
  "ring_publish w [] = (w, None)"
| "ring_publish w ((now, q) # quotes) =
     (case publish_one now w q of Inl e \<Rightarrow> (w, Some e) | Inr w' \<Rightarrow> ring_publish w' quotes)"

section \<open>The reader\<close>

record md_cursor =
  mc_generation :: u64
  mc_sequence :: nat

text \<open>The file as the constructor of the reader finds it: its size and what is mapped.\<close>

definition existing_file_size :: "string \<Rightarrow> string + nat \<Rightarrow> nat result" where
  "existing_file_size path file_size =
     (case file_size of
        Inl err \<Rightarrow> Inl (Runtime_error (''cannot inspect '' @ path @ '': '' @ err))
      | Inr bytes \<Rightarrow>
          if bytes < header_size then Inl (Runtime_error (''market-data ring is smaller than its header: '' @ path))
          else Inr bytes)"

definition open_ring_reader ::
    "string \<Rightarrow> string + nat \<Rightarrow> string option \<Rightarrow> string option \<Rightarrow> ring_header \<Rightarrow> nat result" where
  "open_ring_reader path file_size opened mapped h =
     rbind (existing_file_size path file_size) (\<lambda>bytes.
     rbind (system_call ''cannot open'' path opened) (\<lambda>_.
     rbind (system_call ''cannot map'' path mapped) (\<lambda>_.
       if rh_magic h \<noteq> ring_magic \<or> rh_version h \<noteq> ring_version \<or> rh_record_size h \<noteq> record_size \<or> rh_capacity h = 0
       then Inl (Runtime_error (''market-data ring has an incompatible layout: '' @ path))
       else rbind (mapping_size (rh_capacity h)) (\<lambda>needed.
         if bytes < needed then Inl (Runtime_error (''market-data ring is truncated: '' @ path))
         else Inr (rh_capacity h)))))"

text \<open>Where a call of \<open>read_available\<close> is: about to load the generation, the published counter, the stamp of the
  next slot, field number \<open>k\<close> into a local copy, or the stamp again; or it has returned or thrown.\<close>

datatype read_point =
    Load_generation | Load_latest | Load_stamp | Load_field nat ring_record | Check_stamp ring_record
  | Returned | Threw exn

record ring_reader =
  rd_capacity :: nat
  rd_output_size :: nat
  rd_cursor :: md_cursor
  rd_generation :: u64
  rd_latest :: nat
  rd_next :: nat
  rd_processed :: nat
  rd_quotes :: "market_quote list"
  rd_point :: read_point

definition read_call :: "nat \<Rightarrow> nat \<Rightarrow> md_cursor \<Rightarrow> ring_reader" where
  "read_call capacity output_size cursor =
     \<lparr>rd_capacity = capacity, rd_output_size = output_size, rd_cursor = cursor, rd_generation = 0, rd_latest = 0,
      rd_next = 1, rd_processed = 0, rd_quotes = [], rd_point = Load_generation\<rparr>"

definition field_count :: nat where "field_count = 6 + symbol_capacity"

definition copy_field :: "ring_record \<Rightarrow> nat \<Rightarrow> ring_record \<Rightarrow> ring_record" where
  "copy_field src k b =
     (if k = 0 then b\<lparr>rr_sequence := rr_sequence src\<rparr>
      else if k = 1 then b\<lparr>rr_source_time_ms := rr_source_time_ms src\<rparr>
      else if k = 2 then b\<lparr>rr_published_at_ms := rr_published_at_ms src\<rparr>
      else if k = 3 then b\<lparr>rr_bid_raw := rr_bid_raw src\<rparr>
      else if k = 4 then b\<lparr>rr_ask_raw := rr_ask_raw src\<rparr>
      else if k = 5 then b\<lparr>rr_venue := rr_venue src\<rparr>
      else b\<lparr>rr_symbol := (rr_symbol b)[k - 6 := rr_symbol src ! (k - 6)]\<rparr>)"

definition record_quote :: "nat \<Rightarrow> ring_record \<Rightarrow> market_quote result" where
  "record_quote sequence b =
     rbind (decode_venue (rr_venue b)) (\<lambda>v.
       Inr \<lparr>mq_venue = v, mq_symbol = takeWhile (\<lambda>c. c \<noteq> CHR 0x00) (rr_symbol b),
            mq_bid_price = from_raw (rr_bid_raw b), mq_ask_price = from_raw (rr_ask_raw b),
            mq_source_time_ms = rr_source_time_ms b, mq_published_at_ms = rr_published_at_ms b,
            mq_sequence = of_nat sequence\<rparr>)"

text \<open>The head of the loop: it ends behind the newest sequence or with a full output; \<open>processed\<close> becomes the next
  sequence when the body is entered.\<close>

definition loop_head :: "ring_reader \<Rightarrow> ring_reader" where
  "loop_head r =
     (if rd_next r > rd_latest r \<or> length (rd_quotes r) = rd_output_size r
      then r\<lparr>rd_cursor := \<lparr>mc_generation = rd_generation r, mc_sequence = rd_processed r\<rparr>, rd_point := Returned\<rparr>
      else r\<lparr>rd_processed := rd_next r, rd_point := Load_stamp\<rparr>)"

definition skip_record :: "ring_reader \<Rightarrow> ring_reader" where
  "skip_record r = loop_head (r\<lparr>rd_next := rd_next r + 1\<rparr>)"

definition first_sequence :: "nat \<Rightarrow> nat \<Rightarrow> nat \<Rightarrow> nat" where
  "first_sequence capacity position newest =
     max (position + 1) (if newest > capacity then newest - capacity + 1 else 1)"

definition begin_scan :: "nat \<Rightarrow> ring_reader \<Rightarrow> ring_reader" where
  "begin_scan newest r =
     (if rd_generation r = 0 \<or> rd_output_size r = 0 then r\<lparr>rd_point := Returned\<rparr>
      else
        let c = (if mc_generation (rd_cursor r) \<noteq> rd_generation r \<or> mc_sequence (rd_cursor r) > newest
                 then \<lparr>mc_generation = rd_generation r, mc_sequence = 0\<rparr> else rd_cursor r);
            r1 = r\<lparr>rd_cursor := c, rd_latest := newest\<rparr>
        in if newest \<le> mc_sequence c then r1\<lparr>rd_point := Returned\<rparr>
           else loop_head (r1\<lparr>rd_next := first_sequence (rd_capacity r) (mc_sequence c) newest,
                              rd_processed := mc_sequence c\<rparr>))"

definition accept_record :: "ring_record \<Rightarrow> ring_reader \<Rightarrow> ring_reader" where
  "accept_record b r =
     (case record_quote (rd_next r) b of
        Inl e \<Rightarrow> r\<lparr>rd_point := Threw e\<rparr>
      | Inr q \<Rightarrow> skip_record (if valid_quote q then r\<lparr>rd_quotes := rd_quotes r @ [q]\<rparr> else r))"

definition read_turn :: "md_ring \<Rightarrow> ring_reader \<Rightarrow> ring_reader" where
  "read_turn g r =
     (let slot = mr_records g ! record_index (rd_capacity r) (rd_next r) in
      case rd_point r of
        Load_generation \<Rightarrow> r\<lparr>rd_generation := rh_generation (mr_header g), rd_point := Load_latest\<rparr>
      | Load_latest \<Rightarrow> begin_scan (rh_published_sequence (mr_header g)) r
      | Load_stamp \<Rightarrow>
          if rr_committed_sequence slot \<noteq> rd_next r then skip_record r else r\<lparr>rd_point := Load_field 0 blank_record\<rparr>
      | Load_field k b \<Rightarrow>
          r\<lparr>rd_point := (let b' = copy_field slot k b in if k + 1 < field_count then Load_field (k + 1) b' else Check_stamp b')\<rparr>
      | Check_stamp b \<Rightarrow>
          if rr_committed_sequence slot \<noteq> rd_next r \<or> rr_sequence b \<noteq> rd_next r then skip_record r else accept_record b r
      | Returned \<Rightarrow> r
      | Threw e \<Rightarrow> r)"

definition read_ended :: "ring_reader \<Rightarrow> bool" where
  "read_ended r \<longleftrightarrow> (case rd_point r of Returned \<Rightarrow> True | Threw e \<Rightarrow> True | _ \<Rightarrow> False)"

text \<open>A whole call against a ring that does not change; the number of turns is the bound proved below.\<close>

definition record_turns :: nat where "record_turns = field_count + 2"

definition turn_bound :: "nat \<Rightarrow> nat" where
  "turn_bound capacity = 2 + capacity * record_turns"

definition read_available :: "md_ring \<Rightarrow> nat \<Rightarrow> nat \<Rightarrow> md_cursor \<Rightarrow> ring_reader" where
  "read_available g capacity output_size cursor =
     (read_turn g ^^ turn_bound capacity) (read_call capacity output_size cursor)"

section \<open>Publisher and reader together\<close>

text \<open>The publications so far, each with its clock reading, and the quotes that earlier calls returned are ghost components. The
  steps are those of one publisher: a publisher that starts again, and with it a new generation in the ring while a reader is at
  work, is not a step of this system. What the feed does about generations is in \<open>Abex_Md_Feed\<close>, whose passes take whatever
  the ring shows.\<close>

record md_system =
  sy_ring :: md_ring
  sy_capacity :: nat
  sy_pending :: "ring_store list"
  sy_history :: "(int \<times> market_quote) list"
  sy_reader :: ring_reader
  sy_received :: "market_quote list"

definition new_system :: "nat \<Rightarrow> u64 \<Rightarrow> nat \<Rightarrow> md_cursor \<Rightarrow> md_system" where
  "new_system capacity generation output_size cursor =
     \<lparr>sy_ring = fresh_ring capacity generation, sy_capacity = capacity, sy_pending = [], sy_history = [],
      sy_reader = read_call capacity output_size cursor, sy_received = []\<rparr>"

abbreviation sy_sequence :: "md_system \<Rightarrow> nat" where
  "sy_sequence s \<equiv> length (sy_history s)"

inductive md_step :: "md_system \<Rightarrow> md_system \<Rightarrow> bool" where
  publish: "sy_pending s = [] \<Longrightarrow> publish_check q = Inr () \<Longrightarrow> sequence = sy_sequence s + 1 \<Longrightarrow>
    md_step s (s\<lparr>sy_history := sy_history s @ [(now, q)],
      sy_ring := slot_store (record_index (sy_capacity s) sequence) (Committed 0) (sy_ring s),
      sy_pending := field_stores now sequence q @ [Committed sequence, Published_sequence sequence]\<rparr>)"
| store: "sy_pending s = st # rest \<Longrightarrow>
    md_step s (s\<lparr>sy_ring := slot_store (record_index (sy_capacity s) (sy_sequence s)) st (sy_ring s), sy_pending := rest\<rparr>)"
| load: "md_step s (s\<lparr>sy_reader := read_turn (sy_ring s) (sy_reader s)\<rparr>)"
| call: "read_ended (sy_reader s) \<Longrightarrow>
    md_step s (s\<lparr>sy_reader := read_call (rd_capacity (sy_reader s)) output_size (rd_cursor (sy_reader s)),
      sy_received := sy_received s @ rd_quotes (sy_reader s)\<rparr>)"

inductive_cases md_stepE: "md_step s s'"

end
