(* ===== verification/Abex_Md_Ring_Props.thy ===== *)
theory Abex_Md_Ring_Props
  imports Abex_Md_Ring
begin

text \<open>
  The quote ring: no reader sees a mixture of two publications, every call of the reader ends after a bounded
  number of its own steps, and what was published is read back.
\<close>

section \<open>Records\<close>

text \<open>The record that a publication leaves, and the quote that is read from it.\<close>

definition published_record :: "int \<Rightarrow> nat \<Rightarrow> market_quote \<Rightarrow> ring_record" where
  "published_record now sequence q =
     \<lparr>rr_committed_sequence = sequence, rr_sequence = sequence, rr_source_time_ms = mq_source_time_ms q,
      rr_published_at_ms = publication_time now q, rr_bid_raw = raw (mq_bid_price q), rr_ask_raw = raw (mq_ask_price q),
      rr_venue = encode_venue (mq_venue q),
      rr_symbol = mq_symbol q @ replicate (symbol_capacity - length (mq_symbol q)) (CHR 0x00)\<rparr>"

definition received_quote :: "int \<Rightarrow> nat \<Rightarrow> market_quote \<Rightarrow> market_quote" where
  "received_quote now sequence q =
     q\<lparr>mq_symbol := takeWhile (\<lambda>c. c \<noteq> CHR 0x00) (mq_symbol q), mq_published_at_ms := publication_time now q,
       mq_sequence := of_nat sequence\<rparr>"

lemma fold_symbol:
  "n \<le> length (rr_symbol r) \<Longrightarrow> n \<le> length xs \<Longrightarrow>
   fold record_store (map (\<lambda>i. Symbol_char i (xs ! i)) [0..<n]) r = r\<lparr>rr_symbol := take n xs @ drop n (rr_symbol r)\<rparr>"
proof (induction n)
  case (Suc n)
  have "take n xs @ xs ! n # drop (Suc n) (rr_symbol r) = (take n xs @ drop n (rr_symbol r))[n := xs ! n]"
    using Suc.prems by (simp add: list_update_append Cons_nth_drop_Suc [symmetric])
  with Suc show ?case by (simp add: take_Suc_conv_app_nth)
qed simp

lemma fold_fields:
  assumes "length (rr_symbol r) = symbol_capacity" "length (mq_symbol q) < symbol_capacity"
  shows "fold record_store (field_stores now sequence q) r =
    (published_record now sequence q)\<lparr>rr_committed_sequence := rr_committed_sequence r\<rparr>"
proof -
  have "map (\<lambda>i. Symbol_char i (CHR 0x00)) [0..<symbol_capacity] =
      map (\<lambda>i. Symbol_char i (replicate symbol_capacity (CHR 0x00) ! i)) [0..<symbol_capacity]" by simp
  with assms fold_symbol [of symbol_capacity _ "replicate symbol_capacity (CHR 0x00)"]
    fold_symbol [of "length (mq_symbol q)" _ "mq_symbol q"]
  show ?thesis by (simp add: field_stores_def published_record_def del: map_eq_conv)
qed

lemma symbol_length [simp]: "length (rr_symbol (record_store st r)) = length (rr_symbol r)"
  by (cases st) simp_all

lemma copy_symbol: "copy_field src (6 + k) b = b\<lparr>rr_symbol := (rr_symbol b)[k := rr_symbol src ! k]\<rparr>"
  by (simp add: copy_field_def)

lemma fold_copy:
  assumes "k \<le> symbol_capacity" "length (rr_symbol src) = symbol_capacity"
  shows "fold (copy_field src) [0..<6 + k] blank_record =
    src\<lparr>rr_committed_sequence := 0, rr_symbol := take k (rr_symbol src) @ replicate (symbol_capacity - k) (CHR 0x00)\<rparr>"
  using assms(1)
proof (induction k)
  case 0
  show ?case by (simp add: upt_rec eval_nat_numeral copy_field_def blank_record_def)
next
  case (Suc k)
  have "(take k (rr_symbol src) @ replicate (symbol_capacity - k) (CHR 0x00))[k := rr_symbol src ! k] =
      take (Suc k) (rr_symbol src) @ replicate (symbol_capacity - Suc k) (CHR 0x00)"
    using Suc.prems assms(2) Suc_diff_Suc [of k symbol_capacity]
    by (simp add: list_update_append take_Suc_conv_app_nth flip: Suc_diff_Suc)
  moreover have "[0..<6 + Suc k] = [0..<6 + k] @ [6 + k]" by (metis add_Suc_right le0 upt_Suc_append)
  ultimately show ?case using Suc by (simp add: copy_symbol del: upt_Suc)
qed

lemma copied_record:
  "length (rr_symbol src) = symbol_capacity \<Longrightarrow>
   fold (copy_field src) [0..<field_count] blank_record = src\<lparr>rr_committed_sequence := 0\<rparr>"
  using fold_copy [of symbol_capacity src] by (simp add: field_count_def)

lemma takeWhile_padding: "takeWhile (\<lambda>c. c \<noteq> z) (xs @ replicate n z) = takeWhile (\<lambda>c. c \<noteq> z) xs"
  by (induction xs) (simp_all add: takeWhile_replicate)

lemma decode_encode [simp]: "decode_venue (encode_venue v) = Inr v"
  by (cases v) (simp_all add: decode_venue_def encode_venue_def)

lemma record_quote_published:
  "record_quote sequence ((published_record now sequence q)\<lparr>rr_committed_sequence := c\<rparr>) = Inr (received_quote now sequence q)"
  by (simp add: record_quote_def published_record_def received_quote_def takeWhile_padding from_raw_def)

lemma published_symbol_length:
  "length (mq_symbol q) < symbol_capacity \<Longrightarrow> length (rr_symbol (published_record now sequence q)) = symbol_capacity"
  by (simp add: published_record_def)

section \<open>The ring invariant\<close>

definition entry :: "md_system \<Rightarrow> nat \<Rightarrow> ring_record" where
  "entry s n = (case sy_history s ! (n - 1) of (now, q) \<Rightarrow> published_record now n q)"

definition slot_record :: "md_system \<Rightarrow> nat \<Rightarrow> ring_record" where
  "slot_record s n = mr_records (sy_ring s) ! record_index (sy_capacity s) n"

text \<open>A publication is complete from its stamp on, and current until its slot is taken again.\<close>

definition complete :: "md_system \<Rightarrow> nat \<Rightarrow> bool" where
  "complete s n \<longleftrightarrow> 1 \<le> n \<and> n \<le> sy_sequence s \<and>
     (n = sy_sequence s \<longrightarrow> sy_pending s = [] \<or> sy_pending s = [Published_sequence n])"

definition current :: "md_system \<Rightarrow> nat \<Rightarrow> bool" where
  "current s n \<longleftrightarrow> sy_sequence s < n + sy_capacity s"

definition all_stores :: "int \<Rightarrow> nat \<Rightarrow> market_quote \<Rightarrow> ring_store list" where
  "all_stores now n q = field_stores now n q @ [Committed n, Published_sequence n]"

definition writing :: "md_system \<Rightarrow> bool" where
  "writing s \<longleftrightarrow> sy_history s \<noteq> [] \<and>
     (case last (sy_history s) of (now, q) \<Rightarrow>
        \<exists>before r0. rr_committed_sequence r0 = 0 \<and> length (rr_symbol r0) = symbol_capacity \<and>
          all_stores now (sy_sequence s) q = before @ sy_pending s \<and>
          slot_record s (sy_sequence s) = fold record_store before r0)"

definition ring_inv :: "md_system \<Rightarrow> bool" where
  "ring_inv s \<longleftrightarrow> 0 < sy_capacity s \<and> length (mr_records (sy_ring s)) = sy_capacity s \<and>
     (\<forall>r \<in> set (mr_records (sy_ring s)). length (rr_symbol r) = symbol_capacity) \<and>
     (\<forall>(now, q) \<in> set (sy_history s). length (mq_symbol q) < symbol_capacity) \<and>
     (\<forall>n. complete s n \<and> current s n \<longrightarrow> slot_record s n = entry s n) \<and>
     (\<forall>i < sy_capacity s. sy_sequence s \<le> i \<longrightarrow> rr_committed_sequence (mr_records (sy_ring s) ! i) = 0) \<and>
     rh_published_sequence (mr_header (sy_ring s)) \<le> sy_sequence s \<and>
     (if sy_pending s = [] then rh_published_sequence (mr_header (sy_ring s)) = sy_sequence s else writing s)"

lemma md_ring_invD:
  assumes "ring_inv s"
  shows "0 < sy_capacity s" "length (mr_records (sy_ring s)) = sy_capacity s"
    "\<And>i. i < sy_capacity s \<Longrightarrow> length (rr_symbol (mr_records (sy_ring s) ! i)) = symbol_capacity"
    "\<And>now q. (now, q) \<in> set (sy_history s) \<Longrightarrow> length (mq_symbol q) < symbol_capacity"
    "\<And>n. complete s n \<Longrightarrow> current s n \<Longrightarrow> slot_record s n = entry s n"
    "\<And>i. i < sy_capacity s \<Longrightarrow> sy_sequence s \<le> i \<Longrightarrow> rr_committed_sequence (mr_records (sy_ring s) ! i) = 0"
    "rh_published_sequence (mr_header (sy_ring s)) \<le> sy_sequence s"
    "sy_pending s = [] \<Longrightarrow> rh_published_sequence (mr_header (sy_ring s)) = sy_sequence s"
    "sy_pending s \<noteq> [] \<Longrightarrow> writing s"
  using assms unfolding ring_inv_def by (auto simp del: One_nat_def split: if_splits)

lemma entry_stamp: "rr_committed_sequence (entry s n) = n" "rr_sequence (entry s n) = n"
  by (simp_all add: entry_def published_record_def split: prod.splits)

lemma record_index_less: "0 < c \<Longrightarrow> record_index c n < c"
  by (simp add: record_index_def)

text \<open>Publications less than a ring apart have different slots.\<close>

lemma record_index_inj:
  assumes "1 \<le> m" "1 \<le> n" "m < n + c" "n < m + c"
  shows "record_index c m = record_index c n \<longleftrightarrow> m = n"
proof -
  have "m - 1 = n - 1 \<longleftrightarrow> m = n" using assms(1,2) by linarith
  moreover have "(m - 1) mod c = (n - 1) mod c \<longleftrightarrow> m - 1 = n - 1"
    by (rule mod_window_inj [of "min (m - 1) (n - 1)"]) (use assms in linarith)+
  ultimately show ?thesis by (simp add: record_index_def)
qed

lemma record_store_committed: "\<forall>n. st \<noteq> Committed n \<Longrightarrow> rr_committed_sequence (record_store st r) = rr_committed_sequence r"
  by (cases st) auto

lemma fold_committed: "\<forall>st \<in> set sts. \<forall>n. st \<noteq> Committed n \<Longrightarrow>
    rr_committed_sequence (fold record_store sts r) = rr_committed_sequence r"
  by (induction sts arbitrary: r) (simp_all add: record_store_committed)

lemma field_stores_members: "st \<in> set (field_stores now n q) \<Longrightarrow> st \<noteq> Committed m \<and> st \<noteq> Published_sequence m"
  by (auto simp: field_stores_def)

lemma field_stores_split: "field_stores now n q \<noteq> xs @ Published_sequence m # ys"
  using field_stores_members [of "Published_sequence m" now n q m] by (metis in_set_conv_decomp)

text \<open>While the stores of the newest publication are pending, its slot has no stamp, until the counter is all
  that is left.\<close>

lemma writing_cases:
  assumes "ring_inv s" "sy_pending s \<noteq> []"
  shows "sy_pending s = [Published_sequence (sy_sequence s)] \<and> slot_record s (sy_sequence s) = entry s (sy_sequence s) \<or>
    Committed (sy_sequence s) \<in> set (sy_pending s) \<and> rr_committed_sequence (slot_record s (sy_sequence s)) = 0"
proof -
  obtain now q before r0 where last: "sy_history s \<noteq> []" "last (sy_history s) = (now, q)" and
    r0: "rr_committed_sequence r0 = 0" "length (rr_symbol r0) = symbol_capacity" and
    st: "field_stores now (sy_sequence s) q @ [Committed (sy_sequence s), Published_sequence (sy_sequence s)] = before @ sy_pending s" and
    slot: "slot_record s (sy_sequence s) = fold record_store before r0"
    using md_ring_invD(9) [OF assms] by (auto simp: writing_def all_stores_def split: prod.splits)
  have len: "length (mq_symbol q) < symbol_capacity"
    using md_ring_invD(4) [OF assms(1), of now q] last by (metis last_in_set)
  have e: "entry s (sy_sequence s) = published_record now (sy_sequence s) q"
    using last by (simp add: entry_def last_conv_nth)
  from st consider us where "field_stores now (sy_sequence s) q = before @ us"
      "sy_pending s = us @ [Committed (sy_sequence s), Published_sequence (sy_sequence s)]"
    | "before = field_stores now (sy_sequence s) q @ [Committed (sy_sequence s)]" "sy_pending s = [Published_sequence (sy_sequence s)]"
    using assms(2) by (auto simp: append_eq_append_conv2 append_eq_Cons_conv Cons_eq_append_conv)
  then show ?thesis
  proof cases
    case 1
    then have "rr_committed_sequence (fold record_store before r0) = 0"
      using field_stores_members [of _ now "sy_sequence s" q] r0 by (subst fold_committed) auto
    with 1 slot show ?thesis by simp
  next
    case 2
    then show ?thesis using slot e fold_fields [OF r0(2) len] by (simp add: published_record_def)
  qed
qed

text \<open>A slot that carries the stamp of a publication holds that publication.\<close>

lemma stamped:
  assumes inv: "ring_inv s" and n: "1 \<le> n" "rr_committed_sequence (slot_record s n) = n"
  shows "complete s n" "current s n" "slot_record s n = entry s n"
proof -
  let ?N = "sy_sequence s" and ?c = "sy_capacity s" and ?i = "record_index (sy_capacity s) n"
  have c: "0 < ?c" "?i < ?c" using md_ring_invD(1) [OF inv] by (simp_all add: record_index_less)
  have "?i < ?N" using md_ring_invD(6) [OF inv c(2)] n by (cases "?N \<le> ?i") (auto simp: slot_record_def)
  \<comment> \<open>the newest publication of that slot\<close>
  define m where "m = ?N - (?N - 1 - ?i) mod ?c"
  have "(?N - 1 - ?i) mod ?c \<le> ?N - 1 - ?i" "(?N - 1 - ?i) mod ?c < ?c" using c by simp_all
  then have m: "1 \<le> m" "m \<le> ?N" "?N < m + ?c" using \<open>?i < ?N\<close> unfolding m_def by linarith+
  have "m - 1 = ?i + (?N - 1 - ?i) div ?c * ?c"
    using \<open>?i < ?N\<close> div_mult_mod_eq [of "?N - 1 - ?i" ?c] unfolding m_def by linarith
  then have i: "record_index ?c m = ?i" using c(2) by (simp add: record_index_def)
  have slot: "slot_record s m = slot_record s n" by (simp add: slot_record_def i)
  have stamp: "slot_record s m = entry s m \<Longrightarrow> m = n"
    using n(2) slot entry_stamp [of s m] by simp
  show "complete s n" "current s n" "slot_record s n = entry s n"
  proof (atomize (full), cases "complete s m")
    case True
    moreover from this have "slot_record s m = entry s m" using md_ring_invD(5) [OF inv] m by (simp add: current_def)
    ultimately show "complete s n \<and> current s n \<and> slot_record s n = entry s n" using stamp m by (auto simp: current_def)
  next
    case False
    then have "m = ?N" "sy_pending s \<noteq> []" "sy_pending s \<noteq> [Published_sequence ?N]" using m by (auto simp: complete_def)
    with writing_cases [OF inv] slot n show "complete s n \<and> current s n \<and> slot_record s n = entry s n" by auto
  qed
qed

section \<open>The publisher keeps the invariant\<close>

lemma slot_store_simps [simp]:
  "slot_store i (Published_sequence n) g = g\<lparr>mr_header := (mr_header g)\<lparr>rh_published_sequence := n\<rparr>\<rparr>"
  "\<forall>n. st \<noteq> Published_sequence n \<Longrightarrow>
   slot_store i st g = g\<lparr>mr_records := (mr_records g)[i := record_store st (mr_records g ! i)]\<rparr>"
  by (simp add: slot_store_def) (cases st; simp add: slot_store_def)

text \<open>A store that leaves the publications alone only changes the slot of the newest one.\<close>

lemma other_slot:
  assumes "ring_inv s" "1 \<le> n" "n < sy_sequence s" "current s n"
  shows "record_index (sy_capacity s) n \<noteq> record_index (sy_capacity s) (sy_sequence s)"
  using assms record_index_inj [of n "sy_sequence s" "sy_capacity s"] md_ring_invD(1) [OF assms(1)]
  by (auto simp: current_def)

lemma store_inv:
  assumes inv: "ring_inv s" and pending: "sy_pending s = st # rest"
  shows "ring_inv (s\<lparr>sy_ring := slot_store (record_index (sy_capacity s) (sy_sequence s)) st (sy_ring s), sy_pending := rest\<rparr>)"
    (is "ring_inv ?s")
proof -
  note D = md_ring_invD [OF inv]
  have N: "1 \<le> sy_sequence s" using D(9) pending by (cases "sy_history s") (auto simp: writing_def)
  consider "st = Published_sequence (sy_sequence s)" "rest = []" "slot_record s (sy_sequence s) = entry s (sy_sequence s)"
    | "Committed (sy_sequence s) \<in> set (sy_pending s)" "rest \<noteq> []" "\<forall>n. st \<noteq> Published_sequence n"
  proof -
    obtain now q before where "all_stores now (sy_sequence s) q = before @ st # rest"
      using D(9) pending by (auto simp: writing_def split: prod.splits)
    then have "rest \<noteq> [] \<Longrightarrow> \<forall>n. st \<noteq> Published_sequence n"
      by (auto simp: field_stores_split all_stores_def append_eq_append_conv2 append_eq_Cons_conv Cons_eq_append_conv)
    moreover have "last (st # rest) = Published_sequence (sy_sequence s)"
      using \<open>all_stores now (sy_sequence s) q = before @ st # rest\<close> by (metis all_stores_def last_appendR last.simps list.distinct(1))
    ultimately show ?thesis using writing_cases [OF inv] pending that by (cases "rest = []") auto
  qed
  then show ?thesis
  proof cases
    case 1
    have "\<And>n. complete ?s n \<Longrightarrow> complete s n" using 1 pending by (auto simp: complete_def)
    then show ?thesis using 1 inv D(7) by (auto simp: ring_inv_def current_def slot_record_def entry_def)
  next
    case 2
    let ?i = "record_index (sy_capacity s) (sy_sequence s)" and ?r = "slot_record s (sy_sequence s)"
    have i: "?i < sy_capacity s" using D(1) by (rule record_index_less)
    have ring: "sy_ring ?s = (sy_ring s)\<lparr>mr_records := (mr_records (sy_ring s))[?i := record_store st ?r]\<rparr>"
      using 2 by (simp add: slot_record_def)
    have w: "writing ?s"
    proof -
      obtain now q before r0 where b: "sy_history s \<noteq> []" "last (sy_history s) = (now, q)" "rr_committed_sequence r0 = 0"
        "length (rr_symbol r0) = symbol_capacity" "all_stores now (sy_sequence s) q = before @ st # rest" "?r = fold record_store before r0"
        using D(9) pending by (auto simp: writing_def split: prod.splits)
      then show ?thesis using ring i D(2)
        by (auto simp: writing_def slot_record_def intro!: exI [of _ "before @ [st]"] exI [of _ r0])
    qed
    have old: "slot_record ?s n = entry ?s n" if n: "complete ?s n" "current ?s n" for n
    proof (cases "n = sy_sequence s")
      case False
      then have "complete s n" "current s n" using n by (auto simp: complete_def current_def)
      moreover from this False have "record_index (sy_capacity s) n \<noteq> ?i"
        using other_slot [OF inv] by (auto simp: complete_def)
      ultimately show ?thesis using D(5) [of n] ring by (simp add: slot_record_def entry_def)
    next
      case True
      with n have "rest = [Published_sequence (sy_sequence s)]" using \<open>rest \<noteq> []\<close> by (auto simp: complete_def)
      with w obtain now q before r0 where "sy_history s \<noteq> []" "last (sy_history s) = (now, q)"
        "length (rr_symbol r0) = symbol_capacity" "all_stores now (sy_sequence s) q = before @ [Published_sequence (sy_sequence s)]"
        "slot_record ?s (sy_sequence s) = fold record_store before r0"
        by (auto simp: writing_def slot_record_def split: prod.splits)
      then show ?thesis
        using True fold_fields [of r0 q now "sy_sequence s"] D(4) [of now q] last_in_set [of "sy_history s"]
        by (auto simp: all_stores_def entry_def last_conv_nth published_record_def)
    qed
    have "\<forall>r \<in> set (mr_records (sy_ring ?s)). length (rr_symbol r) = symbol_capacity"
      using ring D(2,3) i by (auto simp: slot_record_def in_set_conv_nth nth_list_update)
    moreover have "\<forall>j < sy_capacity s. sy_sequence s \<le> j \<longrightarrow> rr_committed_sequence (mr_records (sy_ring ?s) ! j) = 0"
    proof (intro allI impI)
      fix j
      assume j: "j < sy_capacity s" "sy_sequence s \<le> j"
      then have "?i = sy_sequence s - 1" by (simp add: record_index_def)
      with j N have "?i \<noteq> j" by linarith
      with j D(6) ring show "rr_committed_sequence (mr_records (sy_ring ?s) ! j) = 0" by simp
    qed
    ultimately show ?thesis using D(1,2,4,7) old w ring \<open>rest \<noteq> []\<close> by (auto simp: ring_inv_def)
  qed
qed

lemma publish_inv:
  assumes inv: "ring_inv s" and idle: "sy_pending s = []" and q: "publish_check q = Inr ()"
  defines "n \<equiv> sy_sequence s + 1"
  shows "ring_inv (s\<lparr>sy_history := sy_history s @ [(now, q)],
      sy_ring := slot_store (record_index (sy_capacity s) n) (Committed 0) (sy_ring s),
      sy_pending := field_stores now n q @ [Committed n, Published_sequence n]\<rparr>)" (is "ring_inv ?s")
proof -
  note D = md_ring_invD [OF inv]
  let ?i = "record_index (sy_capacity s) n"
  have i: "?i < sy_capacity s" using D(1) by (rule record_index_less)
  have len: "length (mq_symbol q) < symbol_capacity" using q by (auto simp: publish_check_def split: if_splits)
  have old: "slot_record ?s m = entry ?s m" if m: "complete ?s m" "current ?s m" for m
  proof -
    have "m \<noteq> n" using m by (auto simp: complete_def n_def)
    then have c: "complete s m" "current s m" using m idle by (auto simp: complete_def current_def n_def)
    have "record_index (sy_capacity s) m \<noteq> ?i"
      using record_index_inj [of m n "sy_capacity s"] m D(1) \<open>m \<noteq> n\<close> by (auto simp: complete_def current_def n_def)
    moreover have "m - 1 < sy_sequence s" using c(1) by (auto simp: complete_def)
    ultimately show ?thesis using D(5) [OF c] by (simp add: slot_record_def entry_def nth_append)
  qed
  have "writing ?s"
    using i D(2,3) by (auto simp: writing_def slot_record_def all_stores_def n_def
        intro!: exI [of _ "(mr_records (sy_ring s) ! ?i)\<lparr>rr_committed_sequence := 0\<rparr>"])
  moreover have "\<forall>j < sy_capacity s. n \<le> j \<longrightarrow> rr_committed_sequence (mr_records (sy_ring ?s) ! j) = 0"
  proof (intro allI impI)
    fix j
    assume "j < sy_capacity s" "n \<le> j"
    with D(2,6) show "rr_committed_sequence (mr_records (sy_ring ?s) ! j) = 0" by (cases "j = ?i") (auto simp: n_def)
  qed
  moreover have "\<forall>r \<in> set (mr_records (sy_ring ?s)). length (rr_symbol r) = symbol_capacity"
    using D(2,3) i by (auto simp: in_set_conv_nth nth_list_update)
  ultimately show ?thesis using D(1,2,4,7) old len by (auto simp: ring_inv_def n_def)
qed

lemma new_system_inv: "0 < capacity \<Longrightarrow> ring_inv (new_system capacity g out cur)"
  by (auto simp: ring_inv_def new_system_def fresh_ring_def blank_record_def complete_def)

section \<open>The reader\<close>

definition received :: "md_system \<Rightarrow> nat \<Rightarrow> market_quote" where
  "received s n = (case sy_history s ! (n - 1) of (now, q) \<Rightarrow> received_quote now n q)"

abbreviation sy_published :: "md_system \<Rightarrow> nat" where
  "sy_published s \<equiv> rh_published_sequence (mr_header (sy_ring s))"

abbreviation sy_generation :: "md_system \<Rightarrow> u64" where
  "sy_generation s \<equiv> rh_generation (mr_header (sy_ring s))"

text \<open>As long as the publication is current, the local copy has its fields.\<close>

definition copying :: "md_system \<Rightarrow> nat \<Rightarrow> nat \<Rightarrow> ring_record \<Rightarrow> bool" where
  "copying s n k b \<longleftrightarrow> n \<le> sy_sequence s \<and>
     (current s n \<longrightarrow> complete s n \<and> b = fold (copy_field (entry s n)) [0..<k] blank_record)"

text \<open>Between calls the cursor is behind everything delivered; during the scan the next sequence is.\<close>

definition resting :: "md_system \<Rightarrow> ring_reader \<Rightarrow> nat list \<Rightarrow> bool" where
  "resting s r ns \<longleftrightarrow> ns = [] \<or> mc_generation (rd_cursor r) = sy_generation s \<and>
     (\<forall>n \<in> set ns. n \<le> mc_sequence (rd_cursor r)) \<and> mc_sequence (rd_cursor r) \<le> sy_published s"

definition scanning :: "md_system \<Rightarrow> ring_reader \<Rightarrow> nat list \<Rightarrow> bool" where
  "scanning s r ns \<longleftrightarrow> rd_generation r = sy_generation s \<and> 1 \<le> rd_next r \<and> rd_next r \<le> rd_latest r \<and>
     rd_latest r \<le> sy_published s \<and> rd_processed r = rd_next r \<and> (\<forall>n \<in> set ns. n < rd_next r)"

definition at_point :: "md_system \<Rightarrow> ring_reader \<Rightarrow> nat list \<Rightarrow> bool" where
  "at_point s r ns \<longleftrightarrow>
     (case rd_point r of
        Load_generation \<Rightarrow> rd_quotes r = [] \<and> resting s r ns
      | Load_latest \<Rightarrow> rd_quotes r = [] \<and> rd_generation r = sy_generation s \<and> resting s r ns
      | Load_stamp \<Rightarrow> scanning s r ns
      | Load_field k b \<Rightarrow> scanning s r ns \<and> k < field_count \<and> copying s (rd_next r) k b
      | Check_stamp b \<Rightarrow> scanning s r ns \<and> copying s (rd_next r) field_count b
      | Returned \<Rightarrow> resting s r ns
      | Threw e \<Rightarrow> False)"

definition delivered :: "md_system \<Rightarrow> market_quote list \<Rightarrow> nat list \<Rightarrow> bool" where
  "delivered s qs ns \<longleftrightarrow> sorted_wrt (<) ns \<and> set ns \<subseteq> {1..sy_sequence s} \<and> qs = map (received s) ns"

definition reader_ok :: "md_system \<Rightarrow> ring_reader \<Rightarrow> bool" where
  "reader_ok s r \<longleftrightarrow> rd_capacity r = sy_capacity s \<and>
     (\<exists>ns. delivered s (sy_received s @ rd_quotes r) ns \<and> at_point s r ns)"

text \<open>Steps of the publisher only add publications, and never take back one that is complete.\<close>

definition extends :: "md_system \<Rightarrow> md_system \<Rightarrow> bool" where
  "extends s s' \<longleftrightarrow> sy_capacity s' = sy_capacity s \<and> sy_generation s' = sy_generation s \<and> sy_received s' = sy_received s \<and>
     sy_published s \<le> sy_published s' \<and> (\<exists>more. sy_history s' = sy_history s @ more) \<and> (\<forall>n. complete s n \<longrightarrow> complete s' n)"

lemma extends_history:
  assumes "extends s s'"
  shows "sy_sequence s \<le> sy_sequence s'" "1 \<le> n \<Longrightarrow> n \<le> sy_sequence s \<Longrightarrow> received s' n = received s n \<and> entry s' n = entry s n"
    "current s' n \<Longrightarrow> current s n"
  using assms by (auto simp: extends_def received_def entry_def current_def nth_append Suc_le_eq)

lemma extends_copying:
  assumes "extends s s'" "1 \<le> n" "copying s n k b"
  shows "copying s' n k b"
proof -
  note h = extends_history [OF assms(1)]
  have "n \<le> sy_sequence s" using assms(3) by (simp add: copying_def)
  then have "n \<le> sy_sequence s'" "entry s' n = entry s n" using h(1,2) assms(2) by (blast intro: le_trans)+
  then show ?thesis using assms h(3) [of n] by (auto simp: copying_def extends_def)
qed

lemma extends_reader:
  assumes "extends s s'" "reader_ok s r"
  shows "reader_ok s' r"
proof -
  obtain ns where ns: "delivered s (sy_received s @ rd_quotes r) ns" "at_point s r ns"
    using assms(2) by (auto simp: reader_ok_def)
  have scan: "scanning s r ns \<Longrightarrow> scanning s' r ns" and rest: "resting s r ns \<Longrightarrow> resting s' r ns"
    using assms(1) by (auto simp: scanning_def resting_def extends_def)
  have "at_point s' r ns"
    using ns(2) scan rest extends_copying [OF assms(1), of "rd_next r"] assms(1)
    by (auto simp: at_point_def scanning_def extends_def split: read_point.splits)
  moreover have "delivered s' (sy_received s' @ rd_quotes r) ns"
    using ns(1) extends_history [OF assms(1)] assms(1) by (force simp: delivered_def extends_def)
  ultimately show ?thesis using assms by (auto simp: reader_ok_def extends_def)
qed

lemma loop_head_ok:
  assumes "rd_capacity r = sy_capacity s" "delivered s (sy_received s @ rd_quotes r) ns" "rd_generation r = sy_generation s"
    "1 \<le> rd_next r" "rd_latest r \<le> sy_published s" "\<forall>n \<in> set ns. n < rd_next r"
    "rd_next r \<le> rd_latest r \<and> length (rd_quotes r) \<noteq> rd_output_size r \<or> rd_processed r = rd_next r - 1 \<and> rd_processed r \<le> rd_latest r"
  shows "reader_ok s (loop_head r)"
  using assms by (auto simp: reader_ok_def loop_head_def at_point_def scanning_def resting_def intro!: exI [of _ ns])

lemma skip_record_ok:
  assumes "rd_capacity r = sy_capacity s" "delivered s (sy_received s @ rd_quotes r) ns" "scanning s r ns"
  shows "reader_ok s (skip_record r)"
  unfolding skip_record_def by (rule loop_head_ok [of _ _ ns]) (use assms in \<open>auto simp: scanning_def\<close>)

lemma begin_scan_ok:
  assumes "0 < sy_capacity s" "rd_capacity r = sy_capacity s" "delivered s (sy_received s @ rd_quotes r) ns"
    "rd_quotes r = []" "rd_generation r = sy_generation s" "resting s r ns"
  shows "reader_ok s (begin_scan (sy_published s) r)"
proof -
  define c where "c = (if mc_generation (rd_cursor r) \<noteq> rd_generation r \<or> mc_sequence (rd_cursor r) > sy_published s
    then \<lparr>mc_generation = rd_generation r, mc_sequence = 0\<rparr> else rd_cursor r)"
  have c: "ns = [] \<or> c = rd_cursor r" "mc_generation c = sy_generation s" "mc_sequence c \<le> sy_published s"
    using assms(5,6) by (auto simp: c_def resting_def)
  have first: "mc_sequence c < sy_published s \<Longrightarrow> first_sequence (sy_capacity s) (mc_sequence c) (sy_published s) \<le> sy_published s"
    "mc_sequence c < first_sequence (sy_capacity s) (mc_sequence c) (sy_published s)"
    using assms(1) by (auto simp: first_sequence_def)
  have behind: "\<forall>n \<in> set ns. n \<le> mc_sequence c" using c(1) assms(6) by (auto simp: resting_def)
  let ?r = "r\<lparr>rd_cursor := c, rd_latest := sy_published s\<rparr>"
  have eq: "begin_scan (sy_published s) r =
      (if rd_generation r = 0 \<or> rd_output_size r = 0 then r\<lparr>rd_point := Returned\<rparr>
       else if sy_published s \<le> mc_sequence c then ?r\<lparr>rd_point := Returned\<rparr>
       else loop_head (?r\<lparr>rd_next := first_sequence (sy_capacity s) (mc_sequence c) (sy_published s), rd_processed := mc_sequence c\<rparr>))"
    using assms(2) by (simp add: begin_scan_def c_def Let_def)
  consider "rd_generation r = 0 \<or> rd_output_size r = 0"
    | "rd_generation r \<noteq> 0" "rd_output_size r \<noteq> 0" "sy_published s \<le> mc_sequence c"
    | "rd_generation r \<noteq> 0" "rd_output_size r \<noteq> 0" "mc_sequence c < sy_published s" by linarith
  then show ?thesis
  proof cases
    case 1
    then show ?thesis using assms unfolding eq by (auto simp: reader_ok_def at_point_def resting_def)
  next
    case 2
    then show ?thesis using assms c behind unfolding eq
      by (auto simp: reader_ok_def at_point_def resting_def intro!: exI [of _ ns])
  next
    case 3
    have "reader_ok s (loop_head (?r\<lparr>rd_next := first_sequence (sy_capacity s) (mc_sequence c) (sy_published s),
        rd_processed := mc_sequence c\<rparr>))"
      by (rule loop_head_ok [of _ _ ns]) (use assms 3 first behind in \<open>auto simp: less_eq_Suc_le\<close>)
    with 3 show ?thesis unfolding eq by simp
  qed
qed

text \<open>A copy that passes the second look at the stamp is the whole publication.\<close>

lemma accept_record_ok:
  assumes inv: "ring_inv s" and r: "rd_capacity r = sy_capacity s" "delivered s (sy_received s @ rd_quotes r) ns" "scanning s r ns"
    and b: "copying s (rd_next r) field_count b" and stamp: "rr_committed_sequence (slot_record s (rd_next r)) = rd_next r"
  shows "reader_ok s (accept_record b r)"
proof -
  let ?n = "rd_next r"
  have n: "1 \<le> ?n" using r(3) by (simp add: scanning_def)
  note c = stamped [OF inv n stamp]
  obtain now q where h: "sy_history s ! (?n - 1) = (now, q)" by (cases "sy_history s ! (?n - 1)")
  have mem: "(now, q) \<in> set (sy_history s)" using h c(1) by (auto simp: complete_def in_set_conv_nth intro!: exI [of _ "?n - 1"])
  have e: "entry s ?n = published_record now ?n q" and rcv: "received s ?n = received_quote now ?n q"
    using h by (simp_all add: entry_def received_def)
  have "b = (published_record now ?n q)\<lparr>rr_committed_sequence := 0\<rparr>"
    using b c(2) copied_record published_symbol_length md_ring_invD(4) [OF inv mem] by (simp add: copying_def e)
  then have q: "record_quote ?n b = Inr (received s ?n)" using record_quote_published rcv by simp
  show ?thesis
  proof (cases "valid_quote (received s ?n)")
    case True
    have "reader_ok s (loop_head (r\<lparr>rd_quotes := rd_quotes r @ [received s ?n], rd_next := ?n + 1\<rparr>))"
      by (rule loop_head_ok [of _ _ "ns @ [?n]"])
        (use r n c(1) in \<open>auto simp: scanning_def delivered_def sorted_wrt_append complete_def\<close>)
    then show ?thesis using True q by (simp add: accept_record_def skip_record_def)
  qed (use q r skip_record_ok in \<open>auto simp: accept_record_def\<close>)
qed

lemma read_turn_ok:
  assumes inv: "ring_inv s" and r: "reader_ok s r"
  shows "reader_ok s (read_turn (sy_ring s) r)"
proof -
  obtain ns where ns: "rd_capacity r = sy_capacity s" "delivered s (sy_received s @ rd_quotes r) ns" "at_point s r ns"
    using r by (auto simp: reader_ok_def)
  have slot: "mr_records (sy_ring s) ! record_index (rd_capacity r) (rd_next r) = slot_record s (rd_next r)"
    using ns(1) by (simp add: slot_record_def)
  note skip = skip_record_ok [OF ns(1,2)]
  show ?thesis
  proof (cases "rd_point r")
    case Load_generation
    then show ?thesis using ns by (auto simp: read_turn_def reader_ok_def at_point_def resting_def)
  next
    case Load_latest
    then show ?thesis using begin_scan_ok [OF md_ring_invD(1) [OF inv] ns(1,2)] ns by (simp add: read_turn_def at_point_def)
  next
    case Load_stamp
    then have scan: "scanning s r ns" using ns by (simp add: at_point_def)
    show ?thesis
    proof (cases "rr_committed_sequence (slot_record s (rd_next r)) = rd_next r")
      case True
      then have "copying s (rd_next r) 0 blank_record"
        using stamped [OF inv, of "rd_next r"] scan by (auto simp: copying_def scanning_def complete_def)
      then show ?thesis using True Load_stamp ns scan slot
        by (auto simp: read_turn_def Let_def reader_ok_def at_point_def field_count_def scanning_def intro!: exI [of _ ns])
    qed (use Load_stamp skip [OF scan] slot in \<open>simp add: read_turn_def Let_def\<close>)
  next
    case (Load_field k b)
    then have scan: "scanning s r ns" and b: "copying s (rd_next r) k b" "k < field_count" using ns by (auto simp: at_point_def)
    have "copying s (rd_next r) (k + 1) (copy_field (slot_record s (rd_next r)) k b)"
      using b md_ring_invD(5) [OF inv] by (auto simp: copying_def)
    then show ?thesis using Load_field ns scan slot b(2)
      by (auto simp: read_turn_def Let_def reader_ok_def at_point_def scanning_def intro!: exI [of _ ns] split: if_splits)
        (metis Suc_lessI)+
  next
    case (Check_stamp b)
    then have scan: "scanning s r ns" and b: "copying s (rd_next r) field_count b" using ns by (auto simp: at_point_def)
    show ?thesis
    proof (cases "rr_committed_sequence (slot_record s (rd_next r)) = rd_next r \<and> rr_sequence b = rd_next r")
      case True
      then show ?thesis using accept_record_ok [OF inv ns(1,2) scan b] Check_stamp slot by (simp add: read_turn_def Let_def)
    qed (use Check_stamp skip [OF scan] slot in \<open>auto simp: read_turn_def Let_def\<close>)
  qed (use r in \<open>simp_all add: read_turn_def\<close>)
qed

section \<open>Runs\<close>

definition md_inv :: "md_system \<Rightarrow> bool" where
  "md_inv s \<longleftrightarrow> ring_inv s \<and> reader_ok s (sy_reader s)"

lemma reader_irrelevant [simp]:
  "entry (s\<lparr>sy_reader := r\<rparr>) = entry s" "slot_record (s\<lparr>sy_reader := r\<rparr>) = slot_record s"
  "received (s\<lparr>sy_reader := r\<rparr>) = received s" "complete (s\<lparr>sy_reader := r\<rparr>) = complete s"
  "current (s\<lparr>sy_reader := r\<rparr>) = current s" "writing (s\<lparr>sy_reader := r\<rparr>) = writing s"
  by (auto simp: fun_eq_iff entry_def slot_record_def received_def complete_def current_def writing_def)

lemma received_irrelevant [simp]:
  "entry (s\<lparr>sy_received := rcv\<rparr>) = entry s" "slot_record (s\<lparr>sy_received := rcv\<rparr>) = slot_record s"
  "received (s\<lparr>sy_received := rcv\<rparr>) = received s" "complete (s\<lparr>sy_received := rcv\<rparr>) = complete s"
  "current (s\<lparr>sy_received := rcv\<rparr>) = current s" "writing (s\<lparr>sy_received := rcv\<rparr>) = writing s"
  by (auto simp: fun_eq_iff entry_def slot_record_def received_def complete_def current_def writing_def)

lemma reader_part:
  "ring_inv (s\<lparr>sy_reader := r\<rparr>) = ring_inv s" "ring_inv (s\<lparr>sy_received := rcv\<rparr>) = ring_inv s"
  "reader_ok (s\<lparr>sy_reader := r\<rparr>) r' = reader_ok s r'"
proof -
  have "copying (s\<lparr>sy_reader := r\<rparr>) = copying s" "scanning (s\<lparr>sy_reader := r\<rparr>) = scanning s"
    "resting (s\<lparr>sy_reader := r\<rparr>) = resting s" "delivered (s\<lparr>sy_reader := r\<rparr>) = delivered s"
    by (simp_all add: fun_eq_iff copying_def scanning_def resting_def delivered_def)
  then show "reader_ok (s\<lparr>sy_reader := r\<rparr>) r' = reader_ok s r'"
    by (cases "rd_point r'") (simp_all add: reader_ok_def at_point_def)
qed (simp_all add: ring_inv_def)

lemma call_ok:
  assumes "reader_ok s (sy_reader s)" "read_ended (sy_reader s)"
  shows "reader_ok (s\<lparr>sy_reader := r, sy_received := sy_received s @ rd_quotes (sy_reader s)\<rparr>)
    (read_call (rd_capacity (sy_reader s)) output_size (rd_cursor (sy_reader s)))"
  using assms by (auto simp: reader_ok_def at_point_def read_ended_def read_call_def delivered_def received_def resting_def
      split: read_point.splits)

lemma store_extends:
  assumes "ring_inv s" "sy_pending s = st # rest"
  shows "extends s (s\<lparr>sy_ring := slot_store (record_index (sy_capacity s) (sy_sequence s)) st (sy_ring s), sy_pending := rest\<rparr>)"
    (is "extends s ?s")
proof -
  have inv: "ring_inv ?s" by (rule store_inv [OF assms])
  have "sy_published s \<le> sy_published ?s \<and> sy_generation ?s = sy_generation s"
  proof (cases "\<exists>n. st = Published_sequence n")
    case True
    then have "st = Published_sequence (sy_sequence s)"
      using writing_cases [OF assms(1)] assms(2) md_ring_invD(9) [OF assms(1)]
      by (auto simp: writing_def all_stores_def field_stores_split append_eq_append_conv2 append_eq_Cons_conv Cons_eq_append_conv
          split: prod.splits)
    then show ?thesis using md_ring_invD(7) [OF assms(1)] by simp
  qed simp
  moreover have "complete s n \<Longrightarrow> complete ?s n" for n using assms(2) by (auto simp: complete_def)
  ultimately show ?thesis by (simp add: extends_def)
qed

lemma publish_extends:
  assumes "sy_pending s = []"
  shows "extends s (s\<lparr>sy_history := sy_history s @ [(now, q)], sy_ring := slot_store i (Committed 0) (sy_ring s), sy_pending := p\<rparr>)"
  by (simp add: extends_def complete_def)

lemma md_inv_step:
  assumes "md_inv s" "md_step s s'"
  shows "md_inv s'"
  using assms(2)
proof cases
  case (publish q sequence now)
  then show ?thesis
    using assms(1) publish_inv [of s q now] extends_reader [OF publish_extends]
    by (auto simp: md_inv_def)
next
  case (store st rest)
  then show ?thesis using assms(1) store_inv extends_reader [OF store_extends] by (auto simp: md_inv_def)
next
  case load
  then show ?thesis using assms(1) read_turn_ok by (auto simp: md_inv_def reader_part)
next
  case (call output_size)
  then show ?thesis using assms(1) call_ok by (auto simp: md_inv_def reader_part)
qed

interpretation md_run: invariant_system md_step md_inv
  by unfold_locales (rule md_inv_step)

lemma new_system_ok: "0 < capacity \<Longrightarrow> md_inv (new_system capacity g out cur)"
  using new_system_inv [of capacity g out cur]
  by (auto simp: md_inv_def reader_ok_def new_system_def read_call_def at_point_def resting_def delivered_def)

section \<open>Every call ends\<close>

text \<open>An upper bound of the turns a call still takes, whatever the publisher does between them.\<close>

definition turns_left :: "ring_reader \<Rightarrow> nat" where
  "turns_left r =
     (let later = (rd_latest r - rd_next r) * record_turns in
      case rd_point r of
        Load_generation \<Rightarrow> turn_bound (rd_capacity r)
      | Load_latest \<Rightarrow> turn_bound (rd_capacity r) - 1
      | Load_stamp \<Rightarrow> later + record_turns
      | Load_field k b \<Rightarrow> later + field_count + 1 - k
      | Check_stamp b \<Rightarrow> later + 1
      | Returned \<Rightarrow> 0
      | Threw e \<Rightarrow> 0)"

definition in_window :: "ring_reader \<Rightarrow> bool" where
  "in_window r \<longleftrightarrow>
     (case rd_point r of
        Load_stamp \<Rightarrow> rd_next r \<le> rd_latest r
      | Load_field k b \<Rightarrow> rd_next r \<le> rd_latest r \<and> k < field_count
      | Check_stamp b \<Rightarrow> rd_next r \<le> rd_latest r
      | _ \<Rightarrow> True)"

lemma loop_head_window: "in_window (loop_head r)" "rd_capacity (loop_head r) = rd_capacity r"
  by (simp_all add: in_window_def loop_head_def)

lemma skip_turns:
  "rd_next r \<le> rd_latest r \<Longrightarrow> turns_left (skip_record r) \<le> (rd_latest r - rd_next r) * record_turns"
proof -
  assume "rd_next r \<le> rd_latest r"
  then consider "rd_next r = rd_latest r" | m where "rd_latest r - rd_next r = Suc m" "rd_latest r - (rd_next r + 1) = m"
    by (metis Suc_diff_Suc diff_Suc_1 le_neq_implies_less Suc_eq_plus1)
  then show ?thesis by cases (auto simp: skip_record_def loop_head_def turns_left_def Let_def)
qed

lemma begin_turns:
  assumes "0 < rd_capacity r"
  shows "turns_left (begin_scan n r) \<le> rd_capacity r * record_turns"
proof -
  have "n < rd_capacity r + first_sequence (rd_capacity r) c n" for c by (auto simp: first_sequence_def)
  then have "n - first_sequence (rd_capacity r) c n + 1 \<le> rd_capacity r" for c
    using assms by (metis add.commute less_diff_conv2 Suc_eq_plus1 Suc_leI diff_is_0_eq' add_0 nat_le_linear One_nat_def)
  then have "(n - first_sequence (rd_capacity r) c n + 1) * record_turns \<le> rd_capacity r * record_turns" for c
    by (rule mult_le_mono1)
  then show ?thesis
    by (auto simp: begin_scan_def loop_head_def turns_left_def Let_def add.commute)
qed

lemma threw_turns: "turns_left (r\<lparr>rd_point := Threw e\<rparr>) = 0" "in_window (r\<lparr>rd_point := Threw e\<rparr>)"
  by (simp_all add: turns_left_def in_window_def)

lemma skip_window: "in_window (skip_record r)" "rd_capacity (skip_record r) = rd_capacity r"
  by (simp_all add: skip_record_def loop_head_window)

lemma accept_turns:
  "in_window (accept_record b r)" "rd_capacity (accept_record b r) = rd_capacity r"
  "rd_next r \<le> rd_latest r \<Longrightarrow> turns_left (accept_record b r) \<le> (rd_latest r - rd_next r) * record_turns"
  using skip_turns [of r] skip_turns [of "r\<lparr>rd_quotes := rd_quotes r @ [projr (record_quote (rd_next r) b)]\<rparr>"]
  by (auto simp: accept_record_def skip_window threw_turns split: sum.splits)

lemma begin_window: "in_window (begin_scan n r)" "rd_capacity (begin_scan n r) = rd_capacity r"
  by (auto simp: begin_scan_def Let_def loop_head_window) (simp_all add: in_window_def)

lemma read_turn_left:
  assumes "in_window r" "0 < rd_capacity r"
  shows "in_window (read_turn g r)" "rd_capacity (read_turn g r) = rd_capacity r" "turns_left (read_turn g r) \<le> turns_left r - 1"
proof (atomize (full), cases "rd_point r")
  case Load_generation
  then show "in_window (read_turn g r) \<and> rd_capacity (read_turn g r) = rd_capacity r \<and> turns_left (read_turn g r) \<le> turns_left r - 1"
    by (simp add: read_turn_def in_window_def turns_left_def)
next
  case Load_latest
  then show "in_window (read_turn g r) \<and> rd_capacity (read_turn g r) = rd_capacity r \<and> turns_left (read_turn g r) \<le> turns_left r - 1"
    using begin_turns [OF assms(2)] begin_window by (simp add: read_turn_def turns_left_def [of r] turn_bound_def)
next
  case Load_stamp
  then have left: "turns_left r = (rd_latest r - rd_next r) * record_turns + record_turns" and le: "rd_next r \<le> rd_latest r"
    using assms(1) by (simp_all add: turns_left_def in_window_def)
  have "read_turn g r = skip_record r \<or> read_turn g r = r\<lparr>rd_point := Load_field 0 blank_record\<rparr>"
    using Load_stamp by (simp add: read_turn_def Let_def)
  then show "in_window (read_turn g r) \<and> rd_capacity (read_turn g r) = rd_capacity r \<and> turns_left (read_turn g r) \<le> turns_left r - 1"
  proof
    assume "read_turn g r = skip_record r"
    then show ?thesis using skip_turns [OF le] skip_window [of r] left record_turns_def by simp
  next
    assume eq: "read_turn g r = r\<lparr>rd_point := Load_field 0 blank_record\<rparr>"
    have "turns_left (read_turn g r) = (rd_latest r - rd_next r) * record_turns + field_count + 1"
      by (simp add: eq turns_left_def)
    moreover have "turns_left r - 1 = (rd_latest r - rd_next r) * record_turns + field_count + 1"
      using left record_turns_def by presburger
    ultimately show ?thesis using le by (simp add: eq in_window_def field_count_def)
  qed
next
  case (Load_field k b)
  then show "in_window (read_turn g r) \<and> rd_capacity (read_turn g r) = rd_capacity r \<and> turns_left (read_turn g r) \<le> turns_left r - 1"
    using assms(1) by (auto simp: read_turn_def Let_def in_window_def turns_left_def)
next
  case (Check_stamp b)
  then show "in_window (read_turn g r) \<and> rd_capacity (read_turn g r) = rd_capacity r \<and> turns_left (read_turn g r) \<le> turns_left r - 1"
    using assms(1) skip_turns [of r] skip_window [of r] accept_turns(1,2) [of b r] accept_turns(3) [of r b]
    by (simp add: read_turn_def Let_def in_window_def [of r] turns_left_def [of r])
qed (use assms in \<open>simp_all add: read_turn_def turns_left_def\<close>)

lemma reads_left:
  "in_window r \<Longrightarrow> 0 < rd_capacity r \<Longrightarrow> turns_left (fold read_turn rings r) \<le> turns_left r - length rings \<and>
   in_window (fold read_turn rings r)"
proof (induction rings arbitrary: r)
  case (Cons g rings)
  from Cons.IH [of "read_turn g r"] read_turn_left [OF Cons.prems, of g] Cons.prems(2) show ?case by auto
qed simp

lemma ended_turns: "in_window r \<Longrightarrow> turns_left r = 0 \<Longrightarrow> read_ended r"
  by (auto simp: in_window_def turns_left_def read_ended_def turn_bound_def record_turns_def Let_def split: read_point.splits)

section \<open>Reading what was published\<close>

lemma stores_inv:
  "ring_inv s \<Longrightarrow> sy_pending s = sts \<Longrightarrow>
   ring_inv (s\<lparr>sy_ring := fold (slot_store (record_index (sy_capacity s) (sy_sequence s))) sts (sy_ring s), sy_pending := []\<rparr>)"
proof (induction sts arbitrary: s)
  case (Cons st sts)
  from Cons.IH [OF store_inv [OF Cons.prems]] show ?case by simp
next
  case Nil
  then have "s\<lparr>sy_ring := sy_ring s, sy_pending := []\<rparr> = s" by (cases s) simp
  with Nil(1) show ?case by (simp only: fold.simps id_apply)
qed

definition of_writer :: "ring_writer \<Rightarrow> (int \<times> market_quote) list \<Rightarrow> ring_reader \<Rightarrow> md_system" where
  "of_writer w history r = \<lparr>sy_ring = rw_ring w, sy_capacity = rw_capacity w, sy_pending = [], sy_history = history,
     sy_reader = r, sy_received = []\<rparr>"

lemma publish_one_inv:
  assumes "ring_inv (of_writer w history r)" "rw_sequence w = length history" "publish_check q = Inr ()"
  shows "\<exists>w'. publish_one now w q = Inr w' \<and> ring_inv (of_writer w' (history @ [(now, q)]) r) \<and>
    rw_sequence w' = length history + 1 \<and> rw_capacity w' = rw_capacity w \<and>
    rh_generation (mr_header (rw_ring w')) = rh_generation (mr_header (rw_ring w))"
proof -
  let ?n = "length history + 1"
  let ?i = "record_index (rw_capacity w) ?n"
  let ?w = "w\<lparr>rw_sequence := ?n, rw_ring := fold (slot_store ?i) (Committed 0 # field_stores now ?n q @
      [Committed ?n, Published_sequence ?n]) (rw_ring w)\<rparr>"
  let ?s = "(of_writer w history r)\<lparr>sy_history := history @ [(now, q)], sy_ring := slot_store ?i (Committed 0) (rw_ring w),
      sy_pending := field_stores now ?n q @ [Committed ?n, Published_sequence ?n]\<rparr>"
  have "ring_inv ?s" using publish_inv [OF assms(1) _ assms(3), of now] by (simp add: of_writer_def)
  from stores_inv [OF this refl] have "ring_inv (of_writer ?w (history @ [(now, q)]) r)"
    by (simp add: of_writer_def del: slot_store_simps)
  moreover have "rh_generation (mr_header (fold (slot_store i) sts g)) = rh_generation (mr_header g)" for i sts g
    by (induction sts arbitrary: g) (auto simp: slot_store_def split: ring_store.split)
  ultimately show ?thesis using assms(2,3) by (simp add: publish_one_def Let_def)
qed

lemma ring_publish_inv:
  assumes "ring_inv (of_writer w history r)" "rw_sequence w = length history"
    "\<forall>(now, q) \<in> set qs. publish_check q = Inr ()"
  shows "\<exists>w'. ring_publish w qs = (w', None) \<and> ring_inv (of_writer w' (history @ qs) r) \<and> rw_capacity w' = rw_capacity w \<and>
    rh_generation (mr_header (rw_ring w')) = rh_generation (mr_header (rw_ring w))"
  using assms
proof (induction qs arbitrary: w history)
  case (Cons x qs)
  obtain now q where x: "x = (now, q)" by (cases x)
  from publish_one_inv [OF Cons.prems(1,2), of q now] Cons.prems(3) x
  obtain w1 where w1: "publish_one now w q = Inr w1" "ring_inv (of_writer w1 (history @ [x]) r)"
    "rw_sequence w1 = length (history @ [x])" "rw_capacity w1 = rw_capacity w"
    "rh_generation (mr_header (rw_ring w1)) = rh_generation (mr_header (rw_ring w))" by auto
  from Cons.IH [OF w1(2,3)] Cons.prems(3) w1 x show ?case by auto
qed simp

lemma stay_ended: "read_ended r \<Longrightarrow> (read_turn g ^^ k) r = r"
  by (induction k) (auto simp: read_ended_def read_turn_def split: read_point.splits)

lemma field_turn:
  "rd_point r = Load_field k b \<Longrightarrow> read_turn g r = r\<lparr>rd_point :=
     (let b' = copy_field (mr_records g ! record_index (rd_capacity r) (rd_next r)) k b
      in if k + 1 < field_count then Load_field (k + 1) b' else Check_stamp b')\<rparr>"
  by (simp add: read_turn_def Let_def)

lemma fields_turns:
  assumes "mr_records g ! record_index (rd_capacity r) (rd_next r) = e" "k \<le> field_count"
  shows "(read_turn g ^^ k) (r\<lparr>rd_point := Load_field 0 blank_record\<rparr>) =
    r\<lparr>rd_point := if k < field_count then Load_field k (fold (copy_field e) [0..<k] blank_record)
                   else Check_stamp (fold (copy_field e) [0..<field_count] blank_record)\<rparr>"
  using assms(2)
proof (induction k)
  case (Suc k)
  let ?b = "fold (copy_field e) [0..<k] blank_record"
  have "(read_turn g ^^ k) (r\<lparr>rd_point := Load_field 0 blank_record\<rparr>) = r\<lparr>rd_point := Load_field k ?b\<rparr>"
    using Suc by simp
  then have "(read_turn g ^^ Suc k) (r\<lparr>rd_point := Load_field 0 blank_record\<rparr>) =
      r\<lparr>rd_point := (if k + 1 < field_count then Load_field (k + 1) (copy_field e k ?b) else Check_stamp (copy_field e k ?b))\<rparr>"
    using assms(1) field_turn [of "r\<lparr>rd_point := Load_field k ?b\<rparr>" k ?b g] by (simp add: Let_def)
  moreover have "\<not> Suc k < field_count \<Longrightarrow> [0..<field_count] = [0..<k] @ [k]" using Suc.prems by (metis Suc_lessI le0 le_less less_Suc_eq_le upt_Suc_append)
  ultimately show ?case by simp
qed (simp add: field_count_def)

text \<open>The turns of one publication that is in place.\<close>

lemma record_read:
  assumes inv: "ring_inv s" and n: "complete s (rd_next r)" "current s (rd_next r)" "valid_quote (received s (rd_next r))"
    and r: "rd_point r = Load_stamp" "rd_capacity r = sy_capacity s"
  shows "(read_turn (sy_ring s) ^^ record_turns) r = skip_record (r\<lparr>rd_quotes := rd_quotes r @ [received s (rd_next r)]\<rparr>)"
proof -
  let ?g = "sy_ring s" and ?n = "rd_next r"
  let ?b = "fold (copy_field (entry s ?n)) [0..<field_count] blank_record"
  have slot: "mr_records ?g ! record_index (rd_capacity r) ?n = entry s ?n"
    using md_ring_invD(5) [OF inv n(1,2)] r by (simp add: slot_record_def)
  obtain now q where h: "sy_history s ! (?n - 1) = (now, q)" by (cases "sy_history s ! (?n - 1)")
  have mem: "(now, q) \<in> set (sy_history s)" using h n(1) by (auto simp: complete_def in_set_conv_nth intro!: exI [of _ "?n - 1"])
  have e: "entry s ?n = published_record now ?n q" and rcv: "received s ?n = received_quote now ?n q"
    using h by (simp_all add: entry_def received_def)
  have b: "?b = (published_record now ?n q)\<lparr>rr_committed_sequence := 0\<rparr>"
    using copied_record published_symbol_length md_ring_invD(4) [OF inv mem] e by simp
  have one: "read_turn ?g r = r\<lparr>rd_point := Load_field 0 blank_record\<rparr>"
    using r slot by (simp add: read_turn_def entry_stamp)
  have "(read_turn ?g ^^ (field_count + 1)) r = (read_turn ?g ^^ field_count) (read_turn ?g r)"
    by (simp add: funpow_swap1)
  also have "\<dots> = r\<lparr>rd_point := Check_stamp ?b\<rparr>" using fields_turns [OF slot order_refl] one by simp
  finally have "(read_turn ?g ^^ record_turns) r = read_turn ?g (r\<lparr>rd_point := Check_stamp ?b\<rparr>)"
    by (simp add: record_turns_def)
  also have "\<dots> = accept_record ?b (r\<lparr>rd_point := Check_stamp ?b\<rparr>)"
    using slot b by (simp add: read_turn_def entry_stamp) (simp add: published_record_def)
  also have "\<dots> = skip_record (r\<lparr>rd_quotes := rd_quotes r @ [received s ?n]\<rparr>)"
    using n(3) b rcv record_quote_published by (simp add: accept_record_def skip_record_def loop_head_def)
  finally show ?thesis .
qed

lemma scan_read:
  assumes inv: "ring_inv s" and "rd_latest r - rd_next r = m"
    and "\<forall>n \<in> {rd_next r..rd_latest r}. complete s n \<and> current s n \<and> valid_quote (received s n)"
    and "rd_point r = Load_stamp" "rd_capacity r = sy_capacity s" "rd_next r \<le> rd_latest r" "rd_processed r = rd_next r"
    and "length (rd_quotes r) + m < rd_output_size r"
  shows "let r' = (read_turn (sy_ring s) ^^ ((m + 1) * record_turns)) r
    in rd_point r' = Returned \<and> rd_quotes r' = rd_quotes r @ map (received s) [rd_next r..<rd_latest r + 1] \<and>
       rd_cursor r' = \<lparr>mc_generation = rd_generation r, mc_sequence = rd_latest r\<rparr>"
  using assms(2-)
proof (induction m arbitrary: r)
  case 0
  then have n: "rd_next r = rd_latest r" by simp
  have "(read_turn (sy_ring s) ^^ record_turns) r = skip_record (r\<lparr>rd_quotes := rd_quotes r @ [received s (rd_next r)]\<rparr>)"
    by (rule record_read [OF inv]) (use 0 n in auto)
  then show ?case using n 0 by (simp add: skip_record_def loop_head_def Let_def)
next
  case (Suc m)
  let ?r = "skip_record (r\<lparr>rd_quotes := rd_quotes r @ [received s (rd_next r)]\<rparr>)"
  have one: "(read_turn (sy_ring s) ^^ record_turns) r = ?r"
    by (rule record_read [OF inv]) (use Suc in auto)
  have r': "?r = r\<lparr>rd_quotes := rd_quotes r @ [received s (rd_next r)], rd_next := rd_next r + 1, rd_processed := rd_next r + 1,
      rd_point := Load_stamp\<rparr>"
    using Suc.prems by (simp add: skip_record_def loop_head_def)
  have "(Suc m + 1) * record_turns = (m + 1) * record_turns + record_turns" by simp
  then have "(read_turn (sy_ring s) ^^ ((Suc m + 1) * record_turns)) r = (read_turn (sy_ring s) ^^ ((m + 1) * record_turns)) ?r"
    using one by (simp only: funpow_add comp_apply)
  moreover have "rd_quotes r @ map (received s) [rd_next r..<rd_latest r + 1] =
      rd_quotes ?r @ map (received s) [rd_next ?r..<rd_latest ?r + 1]"
    using Suc.prems by (simp add: r' upt_conv_Cons)
  moreover have "Suc (rd_next r) \<le> rd_latest r" using Suc.prems(1) by linarith
  ultimately show ?case using Suc.IH [of ?r] Suc.prems by (simp add: r')
qed

lemma received_valid:
  assumes "publish_check q = Inr ()" "CHR 0x00 \<notin> set (mq_symbol q)"
  shows "valid_quote (received_quote now n q)" "mq_symbol (received_quote now n q) = mq_symbol q"
proof -
  have t: "takeWhile (\<lambda>c. c \<noteq> CHR 0x00) (mq_symbol q) = mq_symbol q"
    unfolding takeWhile_eq_all_conv using assms(2) by metis
  have "valid_quote q" using assms(1) by (simp add: publish_check_def split: if_splits)
  moreover have "received_quote now n q = q\<lparr>mq_symbol := mq_symbol q, mq_published_at_ms := publication_time now q,
      mq_sequence := of_nat n\<rparr>" unfolding received_quote_def t ..
  ultimately show "valid_quote (received_quote now n q)" "mq_symbol (received_quote now n q) = mq_symbol q"
    by (simp_all add: valid_quote_def)
qed

text \<open>A call on a ring at rest, from a cursor that is not ahead of it.\<close>

lemma read_at_rest:
  assumes inv: "ring_inv s" and idle: "sy_pending s = []" and g: "sy_generation s \<noteq> 0" and out: "sy_capacity s \<le> out"
    and valid: "\<forall>n \<in> {1..sy_sequence s}. valid_quote (received s n)"
    and p: "p = (if mc_generation c = sy_generation s then mc_sequence c else 0)" "p \<le> sy_sequence s"
  shows "let r = read_available (sy_ring s) (sy_capacity s) out c
    in rd_point r = Returned \<and> rd_cursor r = \<lparr>mc_generation = sy_generation s, mc_sequence = sy_sequence s\<rparr> \<and>
       rd_quotes r = map (received s) [max (p + 1) (sy_sequence s + 1 - sy_capacity s)..<sy_sequence s + 1]"
proof -
  let ?g = "sy_ring s" and ?N = "sy_sequence s" and ?cap = "sy_capacity s"
  let ?first = "first_sequence ?cap p ?N"
  have cap: "0 < ?cap" and N: "sy_published s = ?N" using md_ring_invD(1,8) [OF inv] idle by simp_all
  have first: "?first = max (p + 1) (?N + 1 - ?cap)" by (auto simp: first_sequence_def max_def)
  define r1 where "r1 = (read_call ?cap out c)\<lparr>rd_generation := sy_generation s, rd_point := Load_latest\<rparr>"
  have "read_available ?g ?cap out c = (read_turn ?g ^^ (?cap * record_turns)) (read_turn ?g (read_turn ?g (read_call ?cap out c)))"
    by (simp add: read_available_def turn_bound_def funpow_swap1)
  also have "read_turn ?g (read_call ?cap out c) = r1" by (simp add: read_turn_def read_call_def r1_def)
  also have "read_turn ?g r1 = begin_scan ?N r1" by (simp add: read_turn_def r1_def N)
  finally have run: "read_available ?g ?cap out c = (read_turn ?g ^^ (?cap * record_turns)) (begin_scan ?N r1)" .
  define c1 where "c1 = \<lparr>mc_generation = sy_generation s, mc_sequence = p\<rparr>"
  have scan_start: "begin_scan ?N r1 = (let r2 = r1\<lparr>rd_cursor := c1, rd_latest := ?N\<rparr>
      in if ?N \<le> p then r2\<lparr>rd_point := Returned\<rparr> else loop_head (r2\<lparr>rd_next := ?first, rd_processed := p\<rparr>))"
    using g out cap p by (cases c; cases "mc_generation c = sy_generation s") (auto simp: begin_scan_def r1_def read_call_def c1_def Let_def)
  show ?thesis
  proof (cases "?N \<le> p")
    case True
    then have eq: "begin_scan ?N r1 = r1\<lparr>rd_cursor := c1, rd_latest := ?N, rd_point := Returned\<rparr>"
      by (simp add: scan_start Let_def)
    have "read_available ?g ?cap out c = r1\<lparr>rd_cursor := c1, rd_latest := ?N, rd_point := Returned\<rparr>"
      unfolding run eq by (rule stay_ended) (simp add: read_ended_def)
    then show ?thesis using True p(2) by (simp add: r1_def read_call_def c1_def)
  next
    case False
    let ?r = "r1\<lparr>rd_cursor := c1, rd_latest := ?N, rd_next := ?first, rd_processed := ?first, rd_point := Load_stamp\<rparr>"
    have le: "1 \<le> ?first" "?first \<le> ?N" "?N < ?first + ?cap" using False cap by (auto simp: first_sequence_def)
    have r: "begin_scan ?N r1 = ?r" unfolding scan_start using False le out cap by (simp add: Let_def loop_head_def r1_def read_call_def)
    define m where "m = ?N - ?first"
    have place: "\<forall>n \<in> {?first..?N}. complete s n \<and> current s n \<and> valid_quote (received s n)"
      using le idle valid by (auto simp: complete_def current_def)
    have scan: "let r' = (read_turn ?g ^^ ((m + 1) * record_turns)) ?r
      in rd_point r' = Returned \<and> rd_quotes r' = map (received s) [?first..<?N + 1] \<and>
         rd_cursor r' = \<lparr>mc_generation = sy_generation s, mc_sequence = ?N\<rparr>"
      using scan_read [OF inv, of ?r m] place le out by (simp add: m_def r1_def read_call_def Let_def)
    have "m + 1 \<le> ?cap" using le by (simp add: m_def)
    then have "(m + 1) * record_turns \<le> ?cap * record_turns" by (rule mult_le_mono1)
    then obtain k where "?cap * record_turns = k + (m + 1) * record_turns" by (metis add.commute le_Suc_ex)
    then have "read_available ?g ?cap out c = (read_turn ?g ^^ k) ((read_turn ?g ^^ ((m + 1) * record_turns)) ?r)"
      unfolding run r by (simp only: funpow_add comp_apply)
    with scan show ?thesis unfolding first [symmetric] by (simp add: Let_def stay_ended read_ended_def)
  qed
qed

text \<open>The same as runs.\<close>

lemma stores_run:
  "sy_pending s = sts \<Longrightarrow>
   md_step\<^sup>*\<^sup>* s (s\<lparr>sy_ring := fold (slot_store (record_index (sy_capacity s) (sy_sequence s))) sts (sy_ring s), sy_pending := []\<rparr>)"
proof (induction sts arbitrary: s)
  case (Cons st sts)
  have "md_step s (s\<lparr>sy_ring := slot_store (record_index (sy_capacity s) (sy_sequence s)) st (sy_ring s), sy_pending := sts\<rparr>)"
    using Cons.prems by (rule store)
  with Cons.IH [of "s\<lparr>sy_ring := slot_store (record_index (sy_capacity s) (sy_sequence s)) st (sy_ring s), sy_pending := sts\<rparr>"]
  show ?case by (simp add: converse_rtranclp_into_rtranclp)
next
  case Nil
  then have "s\<lparr>sy_ring := sy_ring s, sy_pending := []\<rparr> = s" by (cases s) simp
  then show ?case by (simp only: fold.simps id_apply rtranclp.rtrancl_refl)
qed

lemma loads_run: "md_step\<^sup>*\<^sup>* s (s\<lparr>sy_reader := (read_turn (sy_ring s) ^^ k) (sy_reader s)\<rparr>)"
proof (induction k)
  case (Suc k)
  from load [of "s\<lparr>sy_reader := (read_turn (sy_ring s) ^^ k) (sy_reader s)\<rparr>"] Suc show ?case
    by (simp add: rtranclp.rtrancl_into_rtrancl)
qed simp

definition start_cursor :: md_cursor where
  "start_cursor = \<lparr>mc_generation = 0, mc_sequence = 0\<rparr>"

lemma sample_quote_ok: "publish_check sample_quote = Inr ()" "CHR 0x00 \<notin> set (mq_symbol sample_quote)"
  by (simp_all add: publish_check_def sample_quote_def valid_quote_def is_positive_def le_decimal_iff symbol_capacity_def)

lemma sample_run:
  "\<exists>s. md_step\<^sup>*\<^sup>* (new_system 4 5 4 start_cursor) s \<and> rd_quotes (sy_reader s) = [received_quote 7 1 sample_quote]"
proof -
  let ?s0 = "new_system 4 5 4 start_cursor"
  let ?s1 = "?s0\<lparr>sy_history := [(7, sample_quote)], sy_ring := slot_store (record_index 4 1) (Committed 0) (fresh_ring 4 5),
      sy_pending := field_stores 7 1 sample_quote @ [Committed 1, Published_sequence 1]\<rparr>"
  have step: "md_step ?s0 ?s1" using publish [of ?s0 sample_quote 1 7] sample_quote_ok by (simp add: new_system_def)
  have inv1: "ring_inv ?s1"
    using publish_inv [OF new_system_inv, of 4 5 4 start_cursor sample_quote 7] sample_quote_ok by (simp add: new_system_def)
  define s2 where "s2 = ?s1\<lparr>sy_ring := fold (slot_store (record_index 4 1)) (sy_pending ?s1) (sy_ring ?s1), sy_pending := []\<rparr>"
  have run: "md_step\<^sup>*\<^sup>* ?s1 s2" and inv: "ring_inv s2"
    using stores_run [of ?s1, OF refl] stores_inv [OF inv1 refl] by (simp_all add: s2_def new_system_def)
  have gen: "rh_generation (mr_header (fold (slot_store i) sts g)) = rh_generation (mr_header g)" for i sts g
    by (induction sts arbitrary: g) (auto simp: slot_store_def split: ring_store.split)
  have s2: "sy_capacity s2 = 4" "sy_history s2 = [(7, sample_quote)]" "sy_pending s2 = []" "sy_generation s2 = 5"
    "sy_reader s2 = read_call 4 4 start_cursor"
    by (simp_all add: s2_def new_system_def gen fresh_ring_def)
  have "let r = read_available (sy_ring s2) 4 4 start_cursor
    in rd_point r = Returned \<and> rd_cursor r = \<lparr>mc_generation = 5, mc_sequence = 1\<rparr> \<and> rd_quotes r = [received s2 1]"
    using read_at_rest [OF inv, of 4 0 start_cursor] s2 received_valid(1) [OF sample_quote_ok, of 7 1]
    by (simp add: start_cursor_def received_def)
  then have "rd_quotes ((read_turn (sy_ring s2) ^^ turn_bound 4) (sy_reader s2)) = [received_quote 7 1 sample_quote]"
    using s2 by (simp add: read_available_def received_def Let_def)
  moreover have "md_step\<^sup>*\<^sup>* ?s0 (s2\<lparr>sy_reader := (read_turn (sy_ring s2) ^^ turn_bound 4) (sy_reader s2)\<rparr>)"
    using step run loads_run [of s2 "turn_bound 4"] by (meson converse_rtranclp_into_rtranclp rtranclp_trans)
  ultimately show ?thesis by (intro exI conjI) auto
qed

section \<open>Properties\<close>

text \<open>C16. No torn quotes: in every interleaving of the publisher's single stores and the reader's single loads, over any number
  of calls, the quotes a reader gets are publications as they were made, each at most once and in their order;
  and no call throws.\<close>

theorem md_ring_no_torn_read:
  assumes "md_step\<^sup>*\<^sup>* (new_system capacity generation output_size cursor) s" and "0 < capacity"
  shows "(\<exists>ns. sorted_wrt (<) ns \<and> set ns \<subseteq> {1..length (sy_history s)} \<and>
      sy_received s @ rd_quotes (sy_reader s) = map (\<lambda>n. case sy_history s ! (n - 1) of (now, q) \<Rightarrow> received_quote now n q) ns) \<and>
    (\<forall>e. rd_point (sy_reader s) \<noteq> Threw e)"
proof -
  have "md_inv s" using md_run.reachable_inv [OF assms(1) new_system_ok [OF assms(2)]] .
  then obtain ns where "delivered s (sy_received s @ rd_quotes (sy_reader s)) ns" "at_point s (sy_reader s) ns"
    by (auto simp: md_inv_def reader_ok_def)
  then show ?thesis
    by (auto simp: delivered_def at_point_def received_def intro!: exI [of _ ns])
qed

theorem md_ring_no_torn_read_witness:
  "\<exists>s. md_step\<^sup>*\<^sup>* (new_system 4 5 4 start_cursor) s \<and> rd_quotes (sy_reader s) = [received_quote 7 1 sample_quote] \<and>
     (\<forall>e. rd_point (sy_reader s) \<noteq> Threw e)"
  using sample_run md_ring_no_torn_read [where capacity = 4 and generation = 5 and output_size = 4 and cursor = start_cursor] by fastforce

text \<open>A call of the reader ends after at most two loads and 24 for each slot of the ring, whatever the publisher does in
  between: the rings that its loads see are arbitrary.\<close>

theorem md_read_bounded:
  assumes "0 < capacity" and "turn_bound capacity \<le> length rings"
  shows "read_ended (fold read_turn rings (read_call capacity output_size cursor)) \<and> turn_bound capacity = 2 + 24 * capacity"
proof -
  have "in_window (read_call capacity output_size cursor)" by (simp add: in_window_def read_call_def)
  from reads_left [OF this, of rings] assms have "turns_left (fold read_turn rings (read_call capacity output_size cursor)) = 0"
    "in_window (fold read_turn rings (read_call capacity output_size cursor))"
    by (simp_all add: read_call_def turns_left_def)
  then show ?thesis by (auto intro: ended_turns simp: turn_bound_def record_turns_def field_count_def symbol_capacity_def)
qed

theorem md_read_bounded_witness:
  "read_ended (fold read_turn (replicate 26 (fresh_ring 1 5)) (read_call 1 1 \<lparr>mc_generation = 0, mc_sequence = 0\<rparr>))"
  using md_read_bounded [of 1 "replicate 26 (fresh_ring 1 5)" 1 "\<lparr>mc_generation = 0, mc_sequence = 0\<rparr>"]
  by (simp add: turn_bound_def record_turns_def field_count_def symbol_capacity_def)

text \<open>What is published is read back: after a publisher opened the ring and published valid quotes with ordinary symbols, a
  reader whose cursor is not ahead gets every quote behind its cursor that the ring still holds, in order, with
  its sequence number and publication time, and its cursor moves to the end.\<close>

theorem md_ring_roundtrip:
  assumes "open_ring_writer path capacity dirs None None None None clock pid = Inr w0"
    and "rh_generation (mr_header (rw_ring w0)) = g" and "g \<noteq> 0"
    and "\<forall>(now, q) \<in> set qs. publish_check q = Inr () \<and> CHR 0x00 \<notin> set (mq_symbol q)"
    and "capacity \<le> output_size"
    and "p = (if mc_generation cursor = g then mc_sequence cursor else 0)" and "p \<le> length qs"
  shows "\<exists>w. ring_publish w0 qs = (w, None) \<and>
    (let r = read_available (rw_ring w) capacity output_size cursor
     in rd_point r = Returned \<and> rd_cursor r = \<lparr>mc_generation = g, mc_sequence = length qs\<rparr> \<and>
        rd_quotes r = map (\<lambda>n. case qs ! (n - 1) of (now, q) \<Rightarrow>
            q\<lparr>mq_published_at_ms := (if mq_published_at_ms q = 0 then now else mq_published_at_ms q), mq_sequence := of_nat n\<rparr>)
          [max (p + 1) (length qs + 1 - capacity)..<length qs + 1])"
proof -
  have w0: "rw_capacity w0 = capacity" "rw_sequence w0 = 0" "0 < capacity" "rw_ring w0 = fresh_ring capacity g"
    using assms(1,2)
    by (auto simp: open_ring_writer_def mapping_size_def fresh_ring_def rbind_eq_Inr_iff split: if_splits)
  let ?r = "read_call capacity output_size cursor"
  have "of_writer w0 [] ?r = new_system capacity g output_size cursor"
    using w0 by (simp add: of_writer_def new_system_def)
  then have "ring_inv (of_writer w0 [] ?r)" using new_system_inv w0(3) by simp
  from ring_publish_inv [OF this, of qs] w0(1,2) assms(2,4)
  obtain w where w: "ring_publish w0 qs = (w, None)" "ring_inv (of_writer w qs ?r)" "rw_capacity w = capacity"
    "rh_generation (mr_header (rw_ring w)) = g" by fastforce
  let ?s = "of_writer w qs ?r"
  have rcv: "valid_quote (received ?s n) \<and> received ?s n = (case qs ! (n - 1) of (now, q) \<Rightarrow>
      q\<lparr>mq_published_at_ms := (if mq_published_at_ms q = 0 then now else mq_published_at_ms q), mq_sequence := of_nat n\<rparr>)"
    if n: "n \<in> {1..length qs}" for n
  proof -
    obtain now q where q: "qs ! (n - 1) = (now, q)" by (cases "qs ! (n - 1)")
    have "n - 1 < length qs" using n by auto
    then have "(now, q) \<in> set qs" using q by (metis nth_mem)
    then have ok: "publish_check q = Inr ()" "CHR 0x00 \<notin> set (mq_symbol q)" using assms(4) by auto
    have "received_quote now n q = q\<lparr>mq_symbol := mq_symbol (received_quote now n q), mq_published_at_ms := publication_time now q,
        mq_sequence := of_nat n\<rparr>" by (simp add: received_quote_def)
    then show ?thesis using received_valid [OF ok, of now n] q
      by (simp add: received_def of_writer_def publication_time_def)
  qed
  have valid: "\<forall>n \<in> {1..length qs}. valid_quote (received ?s n)" using rcv by blast
  have s: "sy_ring ?s = rw_ring w" "sy_capacity ?s = capacity" "sy_history ?s = qs" "sy_pending ?s = []"
    using w(3,4) by (simp_all add: of_writer_def)
  have "let r = read_available (rw_ring w) capacity output_size cursor
    in rd_point r = Returned \<and> rd_cursor r = \<lparr>mc_generation = g, mc_sequence = length qs\<rparr> \<and>
       rd_quotes r = map (received ?s) [max (p + 1) (length qs + 1 - capacity)..<length qs + 1]"
    by (rule read_at_rest [OF w(2), unfolded s w(4)]) (use assms(3,5-7) valid in simp_all)
  moreover have "map (received ?s) [max (p + 1) (length qs + 1 - capacity)..<length qs + 1] =
      map (\<lambda>n. case qs ! (n - 1) of (now, q) \<Rightarrow>
        q\<lparr>mq_published_at_ms := (if mq_published_at_ms q = 0 then now else mq_published_at_ms q), mq_sequence := of_nat n\<rparr>)
      [max (p + 1) (length qs + 1 - capacity)..<length qs + 1]"
    by (rule map_cong [OF refl]) (use rcv in auto)
  ultimately show ?thesis using w(1) by (metis (no_types, lifting))
qed

theorem md_ring_roundtrip_witness:
  "\<exists>w0 w. open_ring_writer ''ring'' 4 (Inr ()) None None None None 6 2 = Inr w0 \<and> ring_publish w0 [(7, sample_quote)] = (w, None) \<and>
     rd_quotes (read_available (rw_ring w) 4 4 start_cursor) = [sample_quote\<lparr>mq_published_at_ms := 7, mq_sequence := 1\<rparr>]"
proof -
  obtain w0 where w0: "open_ring_writer ''ring'' 4 (Inr ()) None None None None 6 2 = Inr w0"
    "rh_generation (mr_header (rw_ring w0)) = 4"
    by (simp add: open_ring_writer_def mapping_size_def system_call_def fresh_ring_def)
  with md_ring_roundtrip [OF w0, of "[(7, sample_quote)]" 4 0 start_cursor] sample_quote_ok show ?thesis
    by (auto simp: start_cursor_def sample_quote_def Let_def)
qed

end
