(* ===== verification/Abex_Protocol.thy ===== *)
theory Abex_Protocol
  imports Abex_Json Abex_Serializer Abex_Preflight
begin

text \<open>
  The messages of the two venues (\<open>include/abex/infrastructure/exchange_protocols.hpp\<close>,
  \<open>src/infrastructure/exchange_protocols.cpp\<close>): requests built from orders, and acknowledgements, reports,
  balances and trading rules read from what the venues send.

  The JSON library is a parameter, as in \<open>Abex_Json\<close>, with the further operations these sources call. A
  request is built by assigning entries of an object; its entries are given as a list of distinct keys.
  \<open>None\<close> is the result where an empty optional would be dereferenced.
\<close>

unbundle bit_operations_syntax

section \<open>The JSON library\<close>

record 'j venue_json =
  vj_core :: "'j json_api"
  vj_string :: "'j \<Rightarrow> string"
  vj_is_array :: "'j \<Rightarrow> bool"
  vj_is_object :: "'j \<Rightarrow> bool"
  vj_is_integer :: "'j \<Rightarrow> bool"
  vj_is_empty :: "'j \<Rightarrow> bool"
  vj_front :: "'j \<Rightarrow> 'j"
  vj_elements :: "'j \<Rightarrow> 'j list"
  vj_get_int :: "'j \<Rightarrow> int result"
  vj_get_bool :: "'j \<Rightarrow> bool result"
  vj_of_bool :: "bool \<Rightarrow> 'j"
  vj_not_an_object :: exn

text \<open>The text of a string that was put in is what it was.\<close>

definition venue_json_laws :: "'j venue_json \<Rightarrow> bool" where
  "venue_json_laws V \<longleftrightarrow> json_laws (vj_core V) \<and> (\<forall>s. vj_string V (j_of_string (vj_core V) s) = s)"

abbreviation v_find :: "'j venue_json \<Rightarrow> 'j \<Rightarrow> string \<Rightarrow> 'j option" where
  "v_find V \<equiv> j_find (vj_core V)"

abbreviation v_text :: "'j venue_json \<Rightarrow> string \<Rightarrow> 'j" where
  "v_text V \<equiv> j_of_string (vj_core V)"

text \<open>\<open>value\<close> with a default, which throws on anything but an object.\<close>

definition v_value :: "'j venue_json \<Rightarrow> ('j \<Rightarrow> 'a result) \<Rightarrow> 'j \<Rightarrow> string \<Rightarrow> 'a \<Rightarrow> 'a result" where
  "v_value V get j k d = (if vj_is_object V j then j_value (vj_core V) get j k d else Inl (vj_not_an_object V))"

section \<open>Fields\<close>

definition decimal_field :: "'j venue_json \<Rightarrow> 'j \<Rightarrow> string \<Rightarrow> string \<Rightarrow> decimal result" where
  "decimal_field V j field fallback =
     (case v_find V j field of
        None \<Rightarrow> parse fallback
      | Some v \<Rightarrow> if j_is_null (vj_core V) v then parse fallback
                  else if j_is_string (vj_core V) v then parse (vj_string V v)
                  else parse (j_dump (vj_core V) v))"

definition string_field :: "'j venue_json \<Rightarrow> 'j \<Rightarrow> string \<Rightarrow> string \<Rightarrow> string" where
  "string_field V j field fallback =
     (case v_find V j field of
        None \<Rightarrow> fallback
      | Some v \<Rightarrow> if j_is_null (vj_core V) v then fallback
                  else if j_is_string (vj_core V) v then vj_string V v
                  else j_dump (vj_core V) v)"

definition okx_client_id_character :: "char \<Rightarrow> bool" where
  "okx_client_id_character c \<longleftrightarrow>
     (let n = of_char c :: nat in (48 \<le> n \<and> n \<le> 57) \<or> (65 \<le> n \<and> n \<le> 90) \<or> (97 \<le> n \<and> n \<le> 122))"

definition fnv1a_64 :: "string \<Rightarrow> u64" where
  "fnv1a_64 v = fold (\<lambda>c hash. (hash XOR of_nat (of_char c)) * 1099511628211) v 14695981039346656037"

definition venue_decimal :: "string \<Rightarrow> decimal result" where
  "venue_decimal txt =
     (if list_ex (\<lambda>c. c = CHR ''e'' \<or> c = CHR ''E'') txt
      then Inl (Invalid_argument ''scientific notation is not supported for venue balances'')
      else let t = truncate_fraction txt in parse (if t = [] then ''0'' else t))"

definition positive_decimal_field :: "'j venue_json \<Rightarrow> 'j \<Rightarrow> string \<Rightarrow> decimal option result" where
  "positive_decimal_field V j field =
     (let txt = string_field V j field [] in
      if txt = [] then Inr None
      else case venue_decimal txt of
             Inr v \<Rightarrow> Inr (if is_positive v then Some v else None)
           | Inl (Overflow_error _) \<Rightarrow> Inr None
           | Inl e \<Rightarrow> Inl e)"

definition keep_larger :: "decimal option \<Rightarrow> decimal option \<Rightarrow> decimal option" where
  "keep_larger target candidate =
     (case candidate of
        None \<Rightarrow> target
      | Some c \<Rightarrow> (case target of None \<Rightarrow> Some c | Some t \<Rightarrow> if c > t then Some c else Some t))"

definition keep_smaller :: "decimal option \<Rightarrow> decimal option \<Rightarrow> decimal option" where
  "keep_smaller target candidate =
     (case candidate of
        None \<Rightarrow> target
      | Some c \<Rightarrow> (case target of None \<Rightarrow> Some c | Some t \<Rightarrow> if c < t then Some c else Some t))"

section \<open>OKX requests\<close>

definition okx_order_type :: "order \<Rightarrow> string" where
  "okx_order_type ord =
     (if type ord = Market then ''market''
      else case time_in_force ord of Gtc \<Rightarrow> ''limit'' | Ioc \<Rightarrow> ''ioc'' | Fok \<Rightarrow> ''fok'')"

definition okx_status :: "string \<Rightarrow> order_status" where
  "okx_status s =
     (if s = ''live'' then Live
      else if s = ''partially_filled'' then PartiallyFilled
      else if s = ''filled'' then Filled
      else if s = ''canceled'' \<or> s = ''mmp_canceled'' then Canceled
      else if s = ''rejected'' \<or> s = ''order_failed'' then Rejected
      else Unknown)"

text \<open>\<open>std::to_chars\<close> with base 16, then right-aligned in 16 zeros.\<close>

fun hex_text :: "nat \<Rightarrow> string" where
  "hex_text n = (if n < 16 then [hex_digit n] else hex_text (n div 16) @ [hex_digit (n mod 16)])"

declare hex_text.simps [simp del]

definition client_id_to_exchange :: "string \<Rightarrow> string" where
  "client_id_to_exchange cid =
     (if cid \<noteq> [] \<and> length cid \<le> 32 \<and> list_all okx_client_id_character cid then cid
      else let encoded = hex_text (unat (fnv1a_64 cid))
           in ''abx'' @ take 13 (filter okx_client_id_character cid) @
              replicate (16 - length encoded) (CHR ''0'') @ encoded)"

definition optional_field :: "'j venue_json \<Rightarrow> string \<Rightarrow> decimal option \<Rightarrow> (string \<times> 'j) list" where
  "optional_field V k d = (case d of None \<Rightarrow> [] | Some x \<Rightarrow> [(k, v_text V (to_string x))])"

definition okx_place_request :: "'j venue_json \<Rightarrow> order \<Rightarrow> 'j" where
  "okx_place_request V ord =
     j_object (vj_core V)
       ([(''instId'', v_text V (symbol ord)), (''tdMode'', v_text V ''cash''),
         (''clOrdId'', v_text V (client_id_to_exchange (client_order_id ord))),
         (''side'', v_text V (if side ord = Buy then ''buy'' else ''sell'')),
         (''ordType'', v_text V (okx_order_type ord)), (''sz'', v_text V (to_string (quantity ord)))] @
        optional_field V ''px'' (price ord) @
        (if type ord = Market then [(''tgtCcy'', v_text V ''base_ccy''), (''banAmend'', vj_of_bool V True)] else []))"

definition okx_cancel_entries :: "'j venue_json \<Rightarrow> order \<Rightarrow> (string \<times> 'j) list" where
  "okx_cancel_entries V ord =
     [(''instId'', v_text V (symbol ord)),
      (if exchange_order_id ord \<noteq> [] then (''ordId'', v_text V (exchange_order_id ord))
       else (''clOrdId'', v_text V (client_id_to_exchange (client_order_id ord))))]"

definition okx_cancel_request :: "'j venue_json \<Rightarrow> order \<Rightarrow> 'j" where
  "okx_cancel_request V ord = j_object (vj_core V) (okx_cancel_entries V ord)"

definition okx_amend_request :: "'j venue_json \<Rightarrow> order \<Rightarrow> decimal option \<Rightarrow> decimal option \<Rightarrow> 'j" where
  "okx_amend_request V ord new_price new_quantity =
     j_object (vj_core V)
       (okx_cancel_entries V ord @
        [(''cxlOnFail'', vj_of_bool V False),
         (''reqId'', v_text V (client_id_to_exchange (client_order_id ord @ ''v'' @ u64_to_string (version ord + 1))))] @
        optional_field V ''newPx'' new_price @ optional_field V ''newSz'' new_quantity)"

section \<open>OKX answers\<close>

definition okx_parse_order_update :: "'j venue_json \<Rightarrow> 'j \<Rightarrow> execution_report result" where
  "okx_parse_order_update V data =
     (let order_id = string_field V data ''ordId'' [];
          update_time = string_field V data ''uTime'' ''0'';
          state = string_field V data ''state'' [];
          trade_id = string_field V data ''tradeId'' [];
          average_price = string_field V data ''avgPx'' [];
          parsed = (\<lambda>field. let t = string_field V data field []
                     in if t = [] then Inr None else rbind (parse t) (\<lambda>d. Inr (Some d)))
      in rbind (decimal_field V data ''accFillSz'' ''0'') (\<lambda>cumulative_filled.
         rbind (stoll update_time) (\<lambda>event_time.
         rbind (if average_price = [] then Inr None
                else rbind (parse average_price) (\<lambda>a. rbind (decimal_mult cumulative_filled a) (\<lambda>q. Inr (Some q)))) (\<lambda>quote.
         rbind (parsed ''fillPx'') (\<lambda>fill_price.
         rbind (parsed ''px'') (\<lambda>order_price.
         rbind (parsed ''sz'') (\<lambda>order_quantity.
           Inr \<lparr>rp_event_id = (if trade_id \<noteq> [] \<and> trade_id \<noteq> ''0'' then ''okx-trade-'' @ trade_id
                                else ''okx-order-'' @ order_id @ ''-'' @ update_time @ ''-'' @ state @ ''-'' @
                                     to_string cumulative_filled),
                rp_client_order_id = string_field V data ''clOrdId'' [], rp_exchange_order_id = order_id,
                rp_status = okx_status state, rp_cumulative_filled = cumulative_filled, rp_cumulative_quote = quote,
                rp_last_fill_price = fill_price, rp_order_price = order_price, rp_order_quantity = order_quantity,
                rp_sequence = None, rp_event_time_ms = event_time,
                rp_reason = string_field V data ''cancelSourceReason'' (string_field V data ''amendResult'' [])\<rparr>)))))))"

text \<open>\<open>AdapterResult\<close> with the fields it is given, the others at their defaults.\<close>

definition refused_result :: "string \<Rightarrow> string \<Rightarrow> adapter_result" where
  "refused_result code message =
     \<lparr>ar_accepted = False, ar_outcome_uncertain = False, ar_replacement = False, ar_original_order_canceled = False,
      ar_exchange_order_id = [], ar_exchange_client_order_id = [], ar_code = code, ar_message = message,
      ar_authoritative_reports = []\<rparr>"

definition accepted_result :: "string \<Rightarrow> string \<Rightarrow> adapter_result" where
  "accepted_result eid ecid = (refused_result [] [])\<lparr>ar_accepted := True, ar_exchange_order_id := eid,
     ar_exchange_client_order_id := ecid\<rparr>"

definition okx_item_rejection :: "'j venue_json \<Rightarrow> 'j \<Rightarrow> adapter_result option" where
  "okx_item_rejection V response =
     (case v_find V response ''data'' of
        None \<Rightarrow> None
      | Some d \<Rightarrow>
          if vj_is_array V d \<and> \<not> vj_is_empty V d then
            let item = vj_front V d; item_code = string_field V item ''sCode'' [];
                sub_code = string_field V item ''subCode'' []
            in if item_code \<noteq> [] \<and> item_code \<noteq> ''0''
               then Some (refused_result item_code
                      (string_field V item ''sMsg'' ''OKX rejected the order operation'' @
                       (if sub_code = [] then [] else '' (subCode '' @ sub_code @ '')'')))
               else None
          else None)"

definition okx_parse_ack :: "'j venue_json \<Rightarrow> 'j \<Rightarrow> adapter_result" where
  "okx_parse_ack V response =
     (case okx_item_rejection V response of
        Some r \<Rightarrow> r
      | None \<Rightarrow>
          if string_field V response ''code'' [] \<noteq> ''0''
          then refused_result (string_field V response ''code'' ''OKX_ERROR'') (string_field V response ''msg'' ''OKX request failed'')
          else (case v_find V response ''data'' of
                  Some d \<Rightarrow>
                    if vj_is_empty V d
                    then (refused_result ''OKX_EMPTY_ACK'' ''OKX returned no per-order acknowledgement'')\<lparr>ar_outcome_uncertain := True\<rparr>
                    else accepted_result (string_field V (vj_front V d) ''ordId'' []) (string_field V (vj_front V d) ''clOrdId'' [])
                | None \<Rightarrow>
                    (refused_result ''OKX_EMPTY_ACK'' ''OKX returned no per-order acknowledgement'')\<lparr>ar_outcome_uncertain := True\<rparr>))"

definition empty_snapshot :: "venue \<Rightarrow> account_balance_snapshot" where
  "empty_snapshot v = \<lparr>bs_venue = v, bs_account_id = [], bs_main_account_id = [], bs_observed_at_ms = 0, bs_balances = []\<rparr>"

definition balance_error :: "venue \<Rightarrow> string \<Rightarrow> string \<Rightarrow> balance_query_result" where
  "balance_error v code message =
     \<lparr>bq_ok = False, bq_code = code, bq_message = message, bq_snapshot = empty_snapshot v\<rparr>"

text \<open>An array under \<open>data\<close> that is not empty: its first element.\<close>

definition first_datum :: "'j venue_json \<Rightarrow> 'j \<Rightarrow> string \<Rightarrow> 'j option" where
  "first_datum V j k =
     (case v_find V j k of
        None \<Rightarrow> None
      | Some d \<Rightarrow> if vj_is_array V d \<and> \<not> vj_is_empty V d then Some (vj_front V d) else None)"

definition array_field :: "'j venue_json \<Rightarrow> 'j \<Rightarrow> string \<Rightarrow> 'j list" where
  "array_field V j k =
     (case v_find V j k of None \<Rightarrow> [] | Some d \<Rightarrow> if vj_is_array V d then vj_elements V d else [])"

definition okx_balance_row :: "'j venue_json \<Rightarrow> 'j \<Rightarrow> account_balance" where
  "okx_balance_row V detail =
     \<lparr>ab_currency = string_field V detail ''ccy'' [], ab_total = string_field V detail ''eq'' ''0'',
      ab_available = string_field V detail ''availBal'' ''0'', ab_frozen = string_field V detail ''frozenBal'' ''0'',
      ab_order_frozen = string_field V detail ''ordFrozen'' ''0''\<rparr>"

definition okx_parse_balances :: "'j venue_json \<Rightarrow> int \<Rightarrow> 'j \<Rightarrow> 'j \<Rightarrow> balance_query_result result" where
  "okx_parse_balances V now account_config response =
     (if string_field V response ''code'' [] \<noteq> ''0''
      then Inr (balance_error Okx (string_field V response ''code'' ''OKX_BALANCE_ERROR'')
             (string_field V response ''msg'' ''OKX balance query failed''))
      else case first_datum V response ''data'' of
             None \<Rightarrow> Inr (balance_error Okx ''OKX_EMPTY_BALANCE'' ''OKX returned no account balance snapshot'')
           | Some account \<Rightarrow>
               let identity = (if string_field V account_config ''code'' [] = ''0'' then first_datum V account_config ''data'' else None);
                   known = (\<lambda>k. case identity of None \<Rightarrow> [] | Some i \<Rightarrow> string_field V i k [])
               in rbind (if v_find V account ''uTime'' = None then Inr now
                         else stoll (string_field V account ''uTime'' (int_to_string now))) (\<lambda>observed.
                    Inr \<lparr>bq_ok = True, bq_code = [], bq_message = [],
                         bq_snapshot = \<lparr>bs_venue = Okx, bs_account_id = known ''uid'', bs_main_account_id = known ''mainUid'',
                           bs_observed_at_ms = observed,
                           bs_balances = map (okx_balance_row V) (array_field V account ''details'')\<rparr>\<rparr>))"

definition no_rules :: "venue \<Rightarrow> instrument_rules" where
  "no_rules v =
     \<lparr>ir_venue = v, ir_symbol = [], ir_status = [], ir_trading = False, ir_minimum_price = None, ir_maximum_price = None,
      ir_price_tick = None, ir_minimum_quantity = None, ir_maximum_quantity = None, ir_quantity_step = None,
      ir_market_minimum_quantity = None, ir_market_maximum_quantity = None, ir_market_quantity_step = None,
      ir_minimum_notional = None, ir_maximum_notional = None, ir_market_minimum_notional = None,
      ir_market_maximum_notional = None, ir_observed_at_ms = 0\<rparr>"

definition rules_error :: "venue \<Rightarrow> string \<Rightarrow> string \<Rightarrow> instrument_rules_query_result" where
  "rules_error v code message = \<lparr>iq_ok = False, iq_code = code, iq_message = message, iq_rules = no_rules v\<rparr>"

definition okx_parse_instrument_rules :: "'j venue_json \<Rightarrow> int \<Rightarrow> 'j \<Rightarrow> instrument_rules_query_result result" where
  "okx_parse_instrument_rules V now response =
     (if string_field V response ''code'' [] \<noteq> ''0''
      then Inr (rules_error Okx (string_field V response ''code'' ''OKX_INSTRUMENT_RULES_ERROR'')
             (string_field V response ''msg'' ''OKX instrument query failed''))
      else case first_datum V response ''data'' of
             None \<Rightarrow> Inr (rules_error Okx ''OKX_INSTRUMENT_NOT_FOUND'' ''OKX returned no rules for the requested SPOT instrument'')
           | Some item \<Rightarrow>
               let st = string_field V item ''state'' []; field = positive_decimal_field V item in
               rbind (field ''minSz'') (\<lambda>min_sz. rbind (field ''lotSz'') (\<lambda>lot_sz.
               rbind (field ''maxLmtSz'') (\<lambda>max_lmt. rbind (field ''maxMktSz'') (\<lambda>max_mkt.
               rbind (field ''tickSz'') (\<lambda>tick. rbind (field ''maxLmtAmt'') (\<lambda>max_lmt_amt.
               rbind (field ''maxMktAmt'') (\<lambda>max_mkt_amt.
                 Inr \<lparr>iq_ok = True, iq_code = [], iq_message = [],
                      iq_rules = (no_rules Okx)\<lparr>ir_symbol := string_field V item ''instId'' [], ir_status := st,
                        ir_trading := (st = ''live''), ir_minimum_quantity := min_sz, ir_quantity_step := lot_sz,
                        ir_maximum_quantity := max_lmt, ir_market_maximum_quantity := max_mkt, ir_price_tick := tick,
                        ir_maximum_notional := max_lmt_amt, ir_market_maximum_notional := max_mkt_amt,
                        ir_observed_at_ms := now\<rparr>\<rparr>))))))))"


section \<open>Binance requests\<close>

definition binance_status :: "string \<Rightarrow> order_status" where
  "binance_status s =
     (if s = ''NEW'' \<or> s = ''PENDING_NEW'' then Live
      else if s = ''PARTIALLY_FILLED'' then PartiallyFilled
      else if s = ''FILLED'' then Filled
      else if s = ''CANCELED'' \<or> s = ''EXPIRED'' \<or> s = ''EXPIRED_IN_MATCH'' then Canceled
      else if s = ''REJECTED'' then Rejected
      else Unknown)"

text \<open>\<open>std::isalnum\<close> in the C locale has the characters of an OKX client id.\<close>

definition symbol_to_exchange :: "string \<Rightarrow> string" where
  "symbol_to_exchange s = map to_upper (filter okx_client_id_character s)"

definition numeric_order_id :: "'j venue_json \<Rightarrow> string \<Rightarrow> string \<Rightarrow> (string \<times> 'j) list" where
  "numeric_order_id V key v =
     (case from_chars_u64 v of
        Some (parsed, []) \<Rightarrow> [(key, j_of_number (vj_core V) parsed)]
      | _ \<Rightarrow> [])"

text \<open>The order a request refers to: the numeric exchange id, or the client id where there is none.\<close>

definition binance_reference :: "'j venue_json \<Rightarrow> order \<Rightarrow> string \<Rightarrow> string \<Rightarrow> (string \<times> 'j) list" where
  "binance_reference V ord id_key client_key =
     (let by_client = [(client_key, v_text V (client_order_id ord))]
      in if exchange_order_id ord \<noteq> [] then
           (let numeric = numeric_order_id V id_key (exchange_order_id ord)
            in if numeric = [] then by_client else numeric)
         else by_client)"

definition binance_place_params :: "'j venue_json \<Rightarrow> order \<Rightarrow> 'j option" where
  "binance_place_params V ord =
     (let entries =
        [(''symbol'', v_text V (symbol_to_exchange (symbol ord))), (''side'', v_text V (side_to_string (side ord))),
         (''type'', v_text V (order_type_to_string (type ord))), (''quantity'', v_text V (to_string (quantity ord))),
         (''newClientOrderId'', v_text V (client_order_id ord)), (''newOrderRespType'', v_text V ''ACK'')]
      in if type ord = Limit then
           (case price ord of
              None \<Rightarrow> None
            | Some p \<Rightarrow> Some (j_object (vj_core V) (entries @
                [(''price'', v_text V (to_string p)), (''timeInForce'', v_text V (time_in_force_to_string (time_in_force ord)))])))
         else Some (j_object (vj_core V) entries))"

definition binance_cancel_params :: "'j venue_json \<Rightarrow> order \<Rightarrow> 'j" where
  "binance_cancel_params V ord =
     j_object (vj_core V) ((''symbol'', v_text V (symbol_to_exchange (symbol ord))) #
       binance_reference V ord ''orderId'' ''origClientOrderId'')"

text \<open>\<open>new_price.value_or(*order.price)\<close> dereferences the price of the order in any case.\<close>

definition binance_amend_params :: "'j venue_json \<Rightarrow> order \<Rightarrow> decimal option \<Rightarrow> decimal option \<Rightarrow> string \<Rightarrow> 'j option" where
  "binance_amend_params V ord new_price new_quantity new_exchange_client_id =
     (let entries =
        [(''symbol'', v_text V (symbol_to_exchange (symbol ord))), (''side'', v_text V (side_to_string (side ord))),
         (''type'', v_text V (order_type_to_string (type ord))), (''cancelReplaceMode'', v_text V ''STOP_ON_FAILURE''),
         (''newClientOrderId'', v_text V new_exchange_client_id), (''newOrderRespType'', v_text V ''FULL''),
         (''quantity'', v_text V (to_string (case new_quantity of None \<Rightarrow> quantity ord | Some q \<Rightarrow> q)))] @
        binance_reference V ord ''cancelOrderId'' ''cancelOrigClientOrderId''
      in if type ord = Limit then
           (case price ord of
              None \<Rightarrow> None
            | Some p \<Rightarrow> Some (j_object (vj_core V) (entries @
                [(''price'', v_text V (to_string (case new_price of None \<Rightarrow> p | Some n \<Rightarrow> n))),
                 (''timeInForce'', v_text V (time_in_force_to_string (time_in_force ord)))])))
         else Some (j_object (vj_core V) entries))"

section \<open>Binance answers\<close>

text \<open>A price field counts when it is there and positive.\<close>

definition positive_price :: "'j venue_json \<Rightarrow> 'j \<Rightarrow> string \<Rightarrow> decimal option result" where
  "positive_price V j k =
     (if v_find V j k = None then Inr None
      else rbind (decimal_field V j k ''0'') (\<lambda>p. Inr (if p > 0 then Some p else None)))"

definition present_decimal :: "'j venue_json \<Rightarrow> 'j \<Rightarrow> string \<Rightarrow> decimal option result" where
  "present_decimal V j k =
     (if v_find V j k = None then Inr None else rbind (decimal_field V j k ''0'') (\<lambda>d. Inr (Some d)))"

definition binance_order_response_report :: "'j venue_json \<Rightarrow> 'j \<Rightarrow> string \<Rightarrow> execution_report result" where
  "binance_order_response_report V r operation =
     (let order_id = string_field V r ''orderId'' [];
          event_time = string_field V r ''transactTime'' (string_field V r ''updateTime'' (string_field V r ''time'' ''0''));
          st = string_field V r ''status'' []
      in rbind (decimal_field V r ''executedQty'' ''0'') (\<lambda>cumulative.
         rbind (decimal_field V r ''cummulativeQuoteQty'' ''0'') (\<lambda>quote.
         rbind (stoll event_time) (\<lambda>event_time_ms.
         rbind (positive_price V r ''price'') (\<lambda>order_price.
         rbind (present_decimal V r ''origQty'') (\<lambda>order_quantity.
           Inr \<lparr>rp_event_id = ''binance-'' @ operation @ ''-'' @ order_id @ ''-'' @ event_time @ ''-'' @ st @ ''-'' @ to_string cumulative,
                rp_client_order_id = string_field V r ''clientOrderId'' (string_field V r ''origClientOrderId'' []),
                rp_exchange_order_id = order_id, rp_status = binance_status st, rp_cumulative_filled = cumulative,
                rp_cumulative_quote = Some quote, rp_last_fill_price = None, rp_order_price = order_price,
                rp_order_quantity = order_quantity, rp_sequence = None, rp_event_time_ms = event_time_ms,
                rp_reason = string_field V r ''rejectReason'' []\<rparr>))))))"

definition binance_parse_order_status :: "'j venue_json \<Rightarrow> 'j \<Rightarrow> execution_report result" where
  "binance_parse_order_status V r = binance_order_response_report V r ''status-query''"

definition binance_parse_execution_report :: "'j venue_json \<Rightarrow> 'j \<Rightarrow> execution_report result" where
  "binance_parse_execution_report V raw_event =
     (let event = (case v_find V raw_event ''event'' of None \<Rightarrow> raw_event | Some e \<Rightarrow> e);
          order_id = string_field V event ''i'' [];
          execution_id = string_field V event ''I'' [];
          event_time = string_field V event ''E'' (string_field V event ''T'' ''0'');
          client_id = (let c = string_field V event ''c'' [] in if c = [] then string_field V event ''C'' [] else c)
      in rbind (decimal_field V event ''z'' ''0'') (\<lambda>cumulative.
         rbind (decimal_field V event ''Z'' ''0'') (\<lambda>quote.
         rbind (stoll event_time) (\<lambda>event_time_ms.
         rbind (decimal_field V event ''L'' ''0'') (\<lambda>last_price.
         rbind (positive_price V event ''p'') (\<lambda>order_price.
         rbind (present_decimal V event ''q'') (\<lambda>order_quantity.
           Inr \<lparr>rp_event_id = (if execution_id \<noteq> [] then ''binance-execution-'' @ execution_id
                                else ''binance-order-'' @ order_id @ ''-'' @ event_time @ ''-'' @ string_field V event ''x'' [] @
                                     ''-'' @ to_string cumulative),
                rp_client_order_id = client_id, rp_exchange_order_id = order_id,
                rp_status = binance_status (string_field V event ''X'' []), rp_cumulative_filled = cumulative,
                rp_cumulative_quote = Some quote, rp_last_fill_price = (if last_price > 0 then Some last_price else None),
                rp_order_price = order_price, rp_order_quantity = order_quantity, rp_sequence = None,
                rp_event_time_ms = event_time_ms, rp_reason = string_field V event ''r'' []\<rparr>)))))))"

definition binance_nested_error :: "'j venue_json \<Rightarrow> 'j \<Rightarrow> string \<Rightarrow> string \<Rightarrow> string \<times> string" where
  "binance_nested_error V v fallback_code fallback_message =
     (if \<not> vj_is_object V v then (fallback_code, fallback_message)
      else (string_field V v ''code'' fallback_code, string_field V v ''msg'' fallback_message))"

definition object_field :: "'j venue_json \<Rightarrow> 'j \<Rightarrow> string \<Rightarrow> 'j option" where
  "object_field V j k =
     (case v_find V j k of None \<Rightarrow> None | Some d \<Rightarrow> if vj_is_object V d then Some d else None)"

text \<open>The reports of the two halves of a cancel-replace: none where the half failed or has no object.\<close>

definition half_report :: "'j venue_json \<Rightarrow> bool \<Rightarrow> 'j \<Rightarrow> string \<Rightarrow> string \<Rightarrow> execution_report list result" where
  "half_report V succeeded envelope k operation =
     (case (if succeeded then object_field V envelope k else None) of
        None \<Rightarrow> Inr []
      | Some r \<Rightarrow> rbind (binance_order_response_report V r operation) (\<lambda>rep. Inr [rep]))"

definition cancel_replace_reply ::
    "'j venue_json \<Rightarrow> 'j \<Rightarrow> bool \<Rightarrow> bool \<Rightarrow> execution_report list \<Rightarrow> adapter_result result" where
  "cancel_replace_reply V envelope cancel_succeeded replacement_succeeded reports =
     (let replacement = (if replacement_succeeded then object_field V envelope ''newOrderResponse'' else None);
          text = (\<lambda>k. case replacement of None \<Rightarrow> [] | Some r \<Rightarrow> string_field V r k []);
          parsed = (accepted_result (text ''orderId'') (text ''clientOrderId''))
                     \<lparr>ar_accepted := replacement_succeeded, ar_replacement := replacement_succeeded,
                      ar_original_order_canceled := cancel_succeeded, ar_authoritative_reports := reports\<rparr>
      in if replacement_succeeded then Inr parsed
         else rbind (v_value V Inr envelope ''newOrderResponse'' (j_object (vj_core V) [])) (\<lambda>v.
           case binance_nested_error V v ''BINANCE_REPLACEMENT_FAILED'' ''replacement order failed'' of (code, message) \<Rightarrow>
             Inr (parsed\<lparr>ar_code := code,
               ar_message := (if cancel_succeeded then ''original order canceled; replacement rejected: ''
                              else ''cancel and replacement failed: '') @ code @ '': '' @ message\<rparr>)))"

definition half_succeeded :: "'j venue_json \<Rightarrow> 'j \<Rightarrow> string \<Rightarrow> bool result" where
  "half_succeeded V envelope k =
     rbind (v_value V (j_get_string (vj_core V)) envelope k []) (\<lambda>s. Inr (s = ''SUCCESS''))"

definition cancel_replace_ack :: "'j venue_json \<Rightarrow> 'j \<Rightarrow> adapter_result result" where
  "cancel_replace_ack V envelope =
     rbind (half_succeeded V envelope ''cancelResult'') (\<lambda>cancel_succeeded.
     rbind (half_succeeded V envelope ''newOrderResult'') (\<lambda>replacement_succeeded.
     rbind (half_report V cancel_succeeded envelope ''cancelResponse'' ''cancel-replace-cancel'') (\<lambda>canceled.
     rbind (half_report V replacement_succeeded envelope ''newOrderResponse'' ''cancel-replace-new'') (\<lambda>placed.
       cancel_replace_reply V envelope cancel_succeeded replacement_succeeded (canceled @ placed)))))"

definition http_failed :: "int \<Rightarrow> bool" where
  "http_failed code \<longleftrightarrow> code < 200 \<or> code \<ge> 300"

definition error_body :: "'j venue_json \<Rightarrow> 'j \<Rightarrow> 'j" where
  "error_body V response = (case v_find V response ''error'' of None \<Rightarrow> response | Some e \<Rightarrow> e)"

definition binance_parse_ack :: "'j venue_json \<Rightarrow> 'j \<Rightarrow> adapter_result result" where
  "binance_parse_ack V response =
     rbind (v_value V (vj_get_int V) response ''status'' 0) (\<lambda>http.
       let plain =
             (if http_failed http
              then Inr (refused_result (string_field V (error_body V response) ''code'' ''BINANCE_ERROR'')
                     (string_field V (error_body V response) ''msg'' ''Binance request failed''))
              else case v_find V response ''result'' of
                     None \<Rightarrow> Inr (accepted_result [] [])
                   | Some r \<Rightarrow> if j_is_null (vj_core V) r then Inr (accepted_result [] [])
                               else Inr (accepted_result (string_field V r ''orderId'' []) (string_field V r ''clientOrderId'' [])))
       in case object_field V response ''result'' of
            Some envelope \<Rightarrow>
              if v_find V envelope ''cancelResult'' \<noteq> None \<or> v_find V envelope ''newOrderResult'' \<noteq> None
              then cancel_replace_ack V envelope else plain
          | None \<Rightarrow> plain)"

definition binance_balance_row :: "'j venue_json \<Rightarrow> 'j \<Rightarrow> account_balance result" where
  "binance_balance_row V b =
     (let available = string_field V b ''free'' ''0''; frozen = string_field V b ''locked'' ''0''
      in rbind (venue_decimal available) (\<lambda>a. rbind (venue_decimal frozen) (\<lambda>f. rbind (decimal_add a f) (\<lambda>total.
           Inr \<lparr>ab_currency = string_field V b ''asset'' [], ab_total = to_string total, ab_available = available,
                ab_frozen = frozen, ab_order_frozen = frozen\<rparr>))))"

fun binance_balance_rows :: "'j venue_json \<Rightarrow> 'j list \<Rightarrow> account_balance list result" where
  "binance_balance_rows V [] = Inr []"
| "binance_balance_rows V (b # bs) =
     rbind (binance_balance_row V b) (\<lambda>row. rbind (binance_balance_rows V bs) (\<lambda>rows. Inr (row # rows)))"

definition binance_parse_balances :: "'j venue_json \<Rightarrow> int \<Rightarrow> 'j \<Rightarrow> balance_query_result result" where
  "binance_parse_balances V now response =
     rbind (v_value V (vj_get_int V) response ''status'' 0) (\<lambda>http.
       if http_failed http
       then Inr (balance_error Binance (string_field V (error_body V response) ''code'' ''BINANCE_BALANCE_ERROR'')
              (string_field V (error_body V response) ''msg'' ''Binance balance query failed''))
       else case object_field V response ''result'' of
              None \<Rightarrow> Inr (balance_error Binance ''BINANCE_EMPTY_BALANCE'' ''Binance returned no account balance snapshot'')
            | Some account \<Rightarrow>
                rbind (v_value V (j_get_integer (vj_core V)) account ''updateTime'' now) (\<lambda>observed.
                rbind (binance_balance_rows V (array_field V account ''balances'')) (\<lambda>rows.
                  Inr \<lparr>bq_ok = True, bq_code = [], bq_message = [],
                       bq_snapshot = (empty_snapshot Binance)\<lparr>bs_observed_at_ms := observed, bs_balances := rows\<rparr>\<rparr>)))"

definition when_set :: "'j venue_json \<Rightarrow> 'j \<Rightarrow> string \<Rightarrow> (decimal option \<Rightarrow> decimal option) \<Rightarrow> decimal option \<Rightarrow> decimal option result" where
  "when_set V filter_json k f old =
     rbind (v_value V (vj_get_bool V) filter_json k False) (\<lambda>b. Inr (if b then f old else old))"

definition apply_filter :: "'j venue_json \<Rightarrow> 'j \<Rightarrow> instrument_rules \<Rightarrow> instrument_rules result" where
  "apply_filter V fl r =
     (let ty = string_field V fl ''filterType'' []; field = positive_decimal_field V fl in
      if ty = ''PRICE_FILTER'' then
        rbind (field ''minPrice'') (\<lambda>a. rbind (field ''maxPrice'') (\<lambda>b. rbind (field ''tickSize'') (\<lambda>c.
          Inr (r\<lparr>ir_minimum_price := a, ir_maximum_price := b, ir_price_tick := c\<rparr>))))
      else if ty = ''LOT_SIZE'' then
        rbind (field ''minQty'') (\<lambda>a. rbind (field ''maxQty'') (\<lambda>b. rbind (field ''stepSize'') (\<lambda>c.
          Inr (r\<lparr>ir_minimum_quantity := a, ir_maximum_quantity := b, ir_quantity_step := c\<rparr>))))
      else if ty = ''MARKET_LOT_SIZE'' then
        rbind (field ''minQty'') (\<lambda>a. rbind (field ''maxQty'') (\<lambda>b. rbind (field ''stepSize'') (\<lambda>c.
          Inr (r\<lparr>ir_market_minimum_quantity := a, ir_market_maximum_quantity := b, ir_market_quantity_step := c\<rparr>))))
      else if ty = ''MIN_NOTIONAL'' then
        rbind (field ''minNotional'') (\<lambda>minimum.
        rbind (when_set V fl ''applyToMarket'' (\<lambda>t. keep_larger t minimum) (ir_market_minimum_notional r)) (\<lambda>market.
          Inr (r\<lparr>ir_minimum_notional := keep_larger (ir_minimum_notional r) minimum, ir_market_minimum_notional := market\<rparr>)))
      else if ty = ''NOTIONAL'' then
        rbind (field ''minNotional'') (\<lambda>minimum. rbind (field ''maxNotional'') (\<lambda>maximum.
        rbind (when_set V fl ''applyMinToMarket'' (\<lambda>t. keep_larger t minimum) (ir_market_minimum_notional r)) (\<lambda>market_min.
        rbind (when_set V fl ''applyMaxToMarket'' (\<lambda>t. keep_smaller t maximum) (ir_market_maximum_notional r)) (\<lambda>market_max.
          Inr (r\<lparr>ir_minimum_notional := keep_larger (ir_minimum_notional r) minimum,
                 ir_maximum_notional := keep_smaller (ir_maximum_notional r) maximum,
                 ir_market_minimum_notional := market_min, ir_market_maximum_notional := market_max\<rparr>)))))
      else Inr r)"

fun apply_filters :: "'j venue_json \<Rightarrow> 'j list \<Rightarrow> instrument_rules \<Rightarrow> instrument_rules result" where
  "apply_filters V [] r = Inr r"
| "apply_filters V (f # fs) r = rbind (apply_filter V f r) (apply_filters V fs)"

definition binance_parse_instrument_rules :: "'j venue_json \<Rightarrow> int \<Rightarrow> 'j \<Rightarrow> instrument_rules_query_result result" where
  "binance_parse_instrument_rules V now response =
     rbind (v_value V (vj_get_int V) response ''status'' 0) (\<lambda>response_status.
       if http_failed response_status
       then Inr (rules_error Binance (string_field V (error_body V response) ''code'' ''BINANCE_INSTRUMENT_RULES_ERROR'')
              (string_field V (error_body V response) ''msg'' ''Binance exchangeInfo query failed''))
       else case (case object_field V response ''result'' of None \<Rightarrow> None | Some r \<Rightarrow> first_datum V r ''symbols'') of
              None \<Rightarrow> Inr (rules_error Binance ''BINANCE_INSTRUMENT_NOT_FOUND''
                        ''Binance returned no rules for the requested SPOT instrument'')
            | Some item \<Rightarrow>
                let base = string_field V item ''baseAsset'' []; quote = string_field V item ''quoteAsset'' [];
                    st = string_field V item ''status'' []
                in rbind (apply_filters V (array_field V item ''filters'')
                     ((no_rules Binance)\<lparr>ir_symbol := (if base \<noteq> [] \<and> quote \<noteq> [] then base @ ''-'' @ quote
                                                       else string_field V item ''symbol'' []),
                        ir_status := st, ir_trading := (st = ''TRADING'')\<rparr>)) (\<lambda>r.
                     Inr \<lparr>iq_ok = True, iq_code = [], iq_message = [], iq_rules = r\<lparr>ir_observed_at_ms := now\<rparr>\<rparr>))"


section \<open>Normal forms of adapter arguments\<close>

definition normalized_currency :: "string option \<Rightarrow> string option result" where
  "normalized_currency currency =
     (case currency of
        None \<Rightarrow> Inr None
      | Some c \<Rightarrow> if c = [] then Inr None
                  else if list_all okx_client_id_character (map to_upper c) then Inr (Some (map to_upper c))
                  else Inl (Invalid_argument ''balance currency must be alphanumeric''))"

definition normalized_symbol :: "string \<Rightarrow> string result" where
  "normalized_symbol s =
     (let t = map to_upper s
      in if t = [] \<or> \<not> list_all (\<lambda>c. okx_client_id_character c \<or> c = CHR ''-'') t
         then Inl (Invalid_argument ''instrument symbol must be canonical alphanumeric ASSET-ASSET'')
         else Inr t)"


end
