(* ===== verification/Abex_Protocol_Props.thy ===== *)
theory Abex_Protocol_Props
  imports Abex_Protocol
begin

text \<open>
  What the venue messages guarantee: identifiers the venues accept, requests that carry the terms of the order,
  acknowledgements that are read as acceptances only where the venue accepted, and reports that can be told
  apart when they are delivered again.
\<close>

section \<open>Identifiers\<close>

lemma hex_digit_character: "n < 16 \<Longrightarrow> okx_client_id_character (hex_digit n)"
proof -
  assume "n < 16"
  then have "hex_digit n \<in> set ''0123456789abcdef''" unfolding hex_digit_def by (intro nth_mem) simp
  moreover have "\<forall>c \<in> set ''0123456789abcdef''. okx_client_id_character c"
    by (simp add: okx_client_id_character_def)
  ultimately show ?thesis by blast
qed

lemma prefix_characters:
  "okx_client_id_character CHR ''a''" "okx_client_id_character CHR ''b''" "okx_client_id_character CHR ''x''"
  "okx_client_id_character CHR ''0''"
  by (simp_all add: okx_client_id_character_def)

lemma hex_text_characters: "list_all okx_client_id_character (hex_text n)"
proof (induction n rule: hex_text.induct)
  case (1 n)
  then show ?case by (subst hex_text.simps) (auto simp: hex_digit_character)
qed

lemma hex_text_length: "n < 16 ^ k \<Longrightarrow> 0 < k \<Longrightarrow> length (hex_text n) \<le> k"
proof (induction k arbitrary: n)
  case (Suc k)
  show ?case
  proof (cases "n < 16")
    case True
    then show ?thesis by (subst hex_text.simps) simp
  next
    case False
    with Suc.prems have "0 < k" by (cases k) auto
    moreover have "n div 16 < 16 ^ k" using Suc.prems by (simp add: less_mult_imp_div_less mult.commute)
    ultimately show ?thesis using Suc.IH False by (subst hex_text.simps) simp
  qed
qed simp

lemma hex_text_hash: "length (hex_text (unat (h :: u64))) \<le> 16"
proof -
  have "unat h < 16 ^ 16" using unsigned_less [of h, where ?'a = nat] by simp
  then show ?thesis using hex_text_length [of "unat h" 16] by simp
qed

section \<open>Fields of requests\<close>

lemma venue_lawsD:
  assumes "venue_json_laws V"
  shows "distinct (map fst kvs) \<Longrightarrow> v_find V (j_object (vj_core V) kvs) k = map_of kvs k"
    "j_is_string (vj_core V) (v_text V s)" "\<not> j_is_null (vj_core V) (v_text V s)" "vj_string V (v_text V s) = s"
  using assms unfolding venue_json_laws_def json_laws_def by blast+

lemma text_found:
  assumes "venue_json_laws V" "v_find V j k = Some (v_text V s)"
  shows "string_field V j k d = s" "decimal_field V j k d = parse s"
  using assms(2) venue_lawsD [OF assms(1)] by (simp_all add: string_field_def decimal_field_def)

lemma text_absent:
  assumes "v_find V j k = None"
  shows "string_field V j k d = d"
  using assms by (simp add: string_field_def)

lemma okx_place_finds:
  assumes "venue_json_laws V"
  shows "v_find V (okx_place_request V ord) ''instId'' = Some (v_text V (symbol ord))"
    "v_find V (okx_place_request V ord) ''clOrdId'' = Some (v_text V (client_id_to_exchange (client_order_id ord)))"
    "v_find V (okx_place_request V ord) ''sz'' = Some (v_text V (to_string (quantity ord)))"
    "v_find V (okx_place_request V ord) ''px'' = map_option (\<lambda>p. v_text V (to_string p)) (price ord)"
  by (cases "price ord"; cases "type ord";
      simp add: okx_place_request_def optional_field_def venue_lawsD(1) [OF assms])+

lemma okx_amend_finds:
  assumes "venue_json_laws V"
  shows "v_find V (okx_amend_request V ord p q) ''newPx'' = map_option (\<lambda>p. v_text V (to_string p)) p"
    "v_find V (okx_amend_request V ord p q) ''newSz'' = map_option (\<lambda>p. v_text V (to_string p)) q"
  by (cases p; cases q;
      simp add: okx_amend_request_def okx_cancel_entries_def optional_field_def venue_lawsD(1) [OF assms])+

lemma binance_place_finds:
  assumes "venue_json_laws V" "binance_place_params V ord = Some j"
  shows "v_find V j ''newClientOrderId'' = Some (v_text V (client_order_id ord))"
    "v_find V j ''quantity'' = Some (v_text V (to_string (quantity ord)))"
    "v_find V j ''price'' = (if type ord = Limit then map_option (\<lambda>p. v_text V (to_string p)) (price ord) else None)"
  using assms(2)
  by (cases "type ord"; auto simp: binance_place_params_def venue_lawsD(1) [OF assms(1)] Let_def split: option.splits)+

lemma numeric_order_id_shape: "numeric_order_id V k v = [] \<or> (\<exists>n. numeric_order_id V k v = [(k, n)])"
  by (auto simp: numeric_order_id_def split: option.splits list.splits)

lemma binance_reference_shape:
  "\<exists>n. binance_reference V ord id_key client_key = [(id_key, n)] \<or>
     binance_reference V ord id_key client_key = [(client_key, v_text V (client_order_id ord))]"
  using numeric_order_id_shape [of V id_key "exchange_order_id ord"]
  by (auto simp: binance_reference_def Let_def)

text \<open>The order that a request refers to: its id at the venue where it has a usable one, else the client id it was placed under.\<close>

definition okx_refers :: "'j venue_json \<Rightarrow> order \<Rightarrow> 'j \<Rightarrow> bool" where
  "okx_refers V ord j \<longleftrightarrow>
     (if exchange_order_id ord \<noteq> [] then string_field V j ''ordId'' [] = exchange_order_id ord \<and> v_find V j ''clOrdId'' = None
      else string_field V j ''clOrdId'' [] = client_id_to_exchange (client_order_id ord) \<and> v_find V j ''ordId'' = None)"

definition binance_refers :: "'j venue_json \<Rightarrow> order \<Rightarrow> string \<Rightarrow> string \<Rightarrow> 'j \<Rightarrow> bool" where
  "binance_refers V ord id_key client_key j \<longleftrightarrow>
     (case from_chars_u64 (exchange_order_id ord) of
        Some (number, []) \<Rightarrow>
          (\<exists>v. v_find V j id_key = Some v \<and> j_get_unsigned (vj_core V) v = Inr (word_of_int number)) \<and> v_find V j client_key = None
      | _ \<Rightarrow> v_find V j id_key = None \<and> string_field V j client_key [] = client_order_id ord)"

lemma okx_requests_refer:
  assumes "venue_json_laws V"
  shows "okx_refers V ord (okx_cancel_request V ord)" "okx_refers V ord (okx_amend_request V ord p q)"
  using text_found [OF assms]
  by (cases p; cases q; simp add: okx_refers_def okx_cancel_request_def okx_amend_request_def okx_cancel_entries_def optional_field_def
      venue_lawsD(1) [OF assms])+

lemma from_chars_u64_range: "from_chars_u64 t = Some (n, rest) \<Longrightarrow> uint (word_of_int n :: u64) = n"
  by (auto simp: from_chars_u64_def uint_word_of_int uint64_max_def Let_def not_less split: if_splits)

lemma reference_found:
  assumes "venue_json_laws V" "\<And>k. v_find V j k = (case map_of (binance_reference V ord id_key client_key) k of Some v \<Rightarrow> Some v | None \<Rightarrow> other k)"
    "other id_key = None" "other client_key = None" "id_key \<noteq> client_key"
  shows "binance_refers V ord id_key client_key j"
proof -
  have number: "j_get_unsigned (vj_core V) (j_of_number (vj_core V) n) = Inr (word_of_int n)" if "from_chars_u64 t = Some (n, rest)" for t n rest
    using assms(1) from_chars_u64_range [OF that] unfolding venue_json_laws_def json_laws_def by metis
  have empty: "from_chars_u64 [] = None" by (simp add: from_chars_u64_def)
  show ?thesis
    using assms(2-5) number text_found(1) [OF assms(1), of j client_key]
    by (auto simp: binance_refers_def binance_reference_def numeric_order_id_def empty Let_def split: option.splits list.splits if_splits)
qed

lemma binance_cancel_refers:
  assumes "venue_json_laws V"
  shows "binance_refers V ord ''orderId'' ''origClientOrderId'' (binance_cancel_params V ord)"
proof (rule reference_found [OF assms, where other = "\<lambda>k. if k = ''symbol'' then Some (v_text V (symbol_to_exchange (symbol ord))) else None"])
  fix k
  show "v_find V (binance_cancel_params V ord) k = (case map_of (binance_reference V ord ''orderId'' ''origClientOrderId'') k of
      Some v \<Rightarrow> Some v | None \<Rightarrow> if k = ''symbol'' then Some (v_text V (symbol_to_exchange (symbol ord))) else None)"
    using binance_reference_shape [of V ord "''orderId''" "''origClientOrderId''"]
    by (auto simp: binance_cancel_params_def venue_lawsD(1) [OF assms])
qed simp_all

lemma binance_amend_finds:
  assumes "venue_json_laws V" "binance_amend_params V ord p q alias = Some j"
  shows "v_find V j ''newClientOrderId'' = Some (v_text V alias)"
    "v_find V j ''quantity'' = Some (v_text V (to_string (case q of None \<Rightarrow> quantity ord | Some x \<Rightarrow> x)))"
    "type ord = Limit \<Longrightarrow> \<exists>old. price ord = Some old \<and> v_find V j ''price'' = Some (v_text V (to_string (case p of None \<Rightarrow> old | Some x \<Rightarrow> x)))"
    "binance_refers V ord ''cancelOrderId'' ''cancelOrigClientOrderId'' j"
proof -
  define entries where "entries =
    [(''symbol'', v_text V (symbol_to_exchange (symbol ord))), (''side'', v_text V (side_to_string (side ord))),
     (''type'', v_text V (order_type_to_string (type ord))), (''cancelReplaceMode'', v_text V ''STOP_ON_FAILURE''),
     (''newClientOrderId'', v_text V alias), (''newOrderRespType'', v_text V ''FULL''),
     (''quantity'', v_text V (to_string (case q of None \<Rightarrow> quantity ord | Some q \<Rightarrow> q)))]"
  let ?ref = "binance_reference V ord ''cancelOrderId'' ''cancelOrigClientOrderId''"
  define rest where "rest = (case (type ord, price ord) of
      (Limit, Some old) \<Rightarrow> [(''price'', v_text V (to_string (case p of None \<Rightarrow> old | Some n \<Rightarrow> n))),
        (''timeInForce'', v_text V (time_in_force_to_string (time_in_force ord)))]
    | _ \<Rightarrow> [])"
  have j: "j = j_object (vj_core V) (entries @ ?ref @ rest)" and priced: "type ord = Limit \<Longrightarrow> \<exists>old. price ord = Some old"
    using assms(2) by (cases "type ord"; cases "price ord"; simp add: binance_amend_params_def entries_def rest_def Let_def)+
  have rest: "map fst rest \<in> {[], [''price'', ''timeInForce'']}" by (auto simp: rest_def split: order_type.split option.split)
  have limit: "\<exists>old t. price ord = Some old \<and>
      rest = [(''price'', v_text V (to_string (case p of None \<Rightarrow> old | Some x \<Rightarrow> x))), (''timeInForce'', t)]" if "type ord = Limit"
    using priced [OF that] that by (auto simp: rest_def)
  have shape: "\<exists>n. ?ref = [(''cancelOrderId'', n)] \<or> ?ref = [(''cancelOrigClientOrderId'', v_text V (client_order_id ord))]"
    by (rule binance_reference_shape)
  have "distinct (map fst (entries @ ?ref @ rest))" using shape rest by (auto simp: entries_def)
  then have find: "v_find V j k = map_of (entries @ ?ref @ rest) k" for k by (simp add: j venue_lawsD(1) [OF assms(1)])
  show "v_find V j ''newClientOrderId'' = Some (v_text V alias)"
    "v_find V j ''quantity'' = Some (v_text V (to_string (case q of None \<Rightarrow> quantity ord | Some x \<Rightarrow> x)))"
    by (simp_all add: find entries_def)
  show "\<exists>old. price ord = Some old \<and> v_find V j ''price'' = Some (v_text V (to_string (case p of None \<Rightarrow> old | Some x \<Rightarrow> x)))"
    if "type ord = Limit" using limit [OF that] shape by (auto simp: find entries_def)
  show "binance_refers V ord ''cancelOrderId'' ''cancelOrigClientOrderId'' j"
  proof (rule reference_found [OF assms(1), where other = "map_of (entries @ rest)"])
    show "v_find V j k = (case map_of ?ref k of Some v \<Rightarrow> Some v | None \<Rightarrow> map_of (entries @ rest) k)" for k
    proof -
      have "k \<notin> fst ` set (?ref)" if "k \<in> fst ` set entries" using shape that by (auto simp: entries_def)
      then have "map_of entries k = None" if "map_of ?ref k \<noteq> None"
        using that by (auto simp: map_of_eq_None_iff dest: map_of_SomeD)
      then show ?thesis by (cases "map_of ?ref k") (simp_all add: find map_add_def split: option.split)
    qed
    show "map_of (entries @ rest) ''cancelOrderId'' = None" "map_of (entries @ rest) ''cancelOrigClientOrderId'' = None"
      using rest by (auto simp: map_of_eq_None_iff entries_def)
  qed simp
qed

section \<open>Acknowledgements and reports\<close>

lemma refused_fields [simp]:
  "ar_accepted (refused_result c m) = False" "ar_outcome_uncertain (refused_result c m) = False"
  "ar_replacement (refused_result c m) = False" "ar_original_order_canceled (refused_result c m) = False"
  "ar_exchange_order_id (refused_result c m) = []" "ar_authoritative_reports (refused_result c m) = []"
  by (simp_all add: refused_result_def)

lemma accepted_fields [simp]:
  "ar_accepted (accepted_result e ec) = True" "ar_outcome_uncertain (accepted_result e ec) = False"
  "ar_replacement (accepted_result e ec) = False" "ar_original_order_canceled (accepted_result e ec) = False"
  "ar_exchange_order_id (accepted_result e ec) = e" "ar_authoritative_reports (accepted_result e ec) = []"
  by (simp_all add: accepted_result_def)

text \<open>A parsed decimal is a 64-bit value.\<close>

lemma parse_wf: "parse t = Inr x \<Longrightarrow> wf_decimal x"
  by (auto simp: parse_def parse_parts_def Let_def rbind_eq_Inr_iff checked_from_wide_eq from_raw_def wf_decimal_def
      split: if_splits prod.splits)

lemma decimal_field_wf: "decimal_field V j k d = Inr x \<Longrightarrow> wf_decimal x"
  by (auto simp: decimal_field_def intro: parse_wf split: option.splits if_splits)

lemma response_report:
  assumes "binance_order_response_report V r operation = Inr rep"
  shows "rp_event_id rep \<noteq> []" "wf_decimal (rp_cumulative_filled rep)"
    "rp_exchange_order_id rep = string_field V r ''orderId'' []"
  using assms unfolding binance_order_response_report_def Let_def
  by (auto elim!: rbind_InrE intro: decimal_field_wf)

lemma okx_report:
  assumes "okx_parse_order_update V data = Inr rep"
  shows "rp_event_id rep \<noteq> []" "wf_decimal (rp_cumulative_filled rep)"
  using assms unfolding okx_parse_order_update_def Let_def
  by (auto elim!: rbind_InrE intro: decimal_field_wf split: if_splits)

lemma binance_report:
  assumes "binance_parse_execution_report V event = Inr rep"
  shows "rp_event_id rep \<noteq> []" "wf_decimal (rp_cumulative_filled rep)"
  using assms unfolding binance_parse_execution_report_def Let_def
  by (auto elim!: rbind_InrE intro: decimal_field_wf split: if_splits)

text \<open>The halves of a cancel-replace give at most one report each, the second with the id of the new order.\<close>

lemma half_report_shape:
  assumes "half_report V succeeded envelope k operation = Inr reps"
  shows "reps = [] \<and> (succeeded \<longrightarrow> object_field V envelope k = None) \<or>
    (\<exists>r rep. succeeded \<and> object_field V envelope k = Some r \<and> reps = [rep] \<and>
       binance_order_response_report V r operation = Inr rep)"
  using assms by (auto simp: half_report_def rbind_eq_Inr_iff split: option.splits if_splits)

lemma half_report_member:
  "half_report V succeeded envelope k operation = Inr reps \<Longrightarrow> rep \<in> set reps \<Longrightarrow>
   \<exists>r. binance_order_response_report V r operation = Inr rep"
  by (frule half_report_shape) auto

lemma reply_fields:
  assumes "cancel_replace_reply V envelope c n reports = Inr a"
  shows "ar_accepted a = n" "ar_replacement a = n" "ar_original_order_canceled a = c" "\<not> ar_outcome_uncertain a"
    "ar_authoritative_reports a = reports"
    "ar_exchange_order_id a = (case (if n then object_field V envelope ''newOrderResponse'' else None) of
       None \<Rightarrow> [] | Some r \<Rightarrow> string_field V r ''orderId'' [])"
  using assms unfolding cancel_replace_reply_def Let_def
  by (auto elim!: rbind_InrE split: if_splits prod.splits)

lemma cancel_replace_result:
  assumes "cancel_replace_ack V envelope = Inr a"
  shows "half_succeeded V envelope ''newOrderResult'' = Inr (ar_accepted a)" "ar_replacement a = ar_accepted a"
    "half_succeeded V envelope ''cancelResult'' = Inr (ar_original_order_canceled a)" "\<not> ar_outcome_uncertain a"
    "\<not> ar_accepted a \<Longrightarrow> ar_exchange_order_id a = []"
    "\<And>r. ar_accepted a \<Longrightarrow> object_field V envelope ''newOrderResponse'' = Some r \<Longrightarrow>
       ar_authoritative_reports a \<noteq> [] \<and> rp_exchange_order_id (last (ar_authoritative_reports a)) = ar_exchange_order_id a"
    "length (ar_authoritative_reports a) \<le> 2"
proof -
  from assms obtain c n canceled placed where
    c: "half_succeeded V envelope ''cancelResult'' = Inr c" and n: "half_succeeded V envelope ''newOrderResult'' = Inr n" and
    first: "half_report V c envelope ''cancelResponse'' ''cancel-replace-cancel'' = Inr canceled" and
    second: "half_report V n envelope ''newOrderResponse'' ''cancel-replace-new'' = Inr placed" and
    reply: "cancel_replace_reply V envelope c n (canceled @ placed) = Inr a"
    unfolding cancel_replace_ack_def by (elim rbind_InrE)
  note a = reply_fields [OF reply] and shapes = half_report_shape [OF first] half_report_shape [OF second]
  show "half_succeeded V envelope ''newOrderResult'' = Inr (ar_accepted a)" "ar_replacement a = ar_accepted a"
    "half_succeeded V envelope ''cancelResult'' = Inr (ar_original_order_canceled a)" "\<not> ar_outcome_uncertain a"
    using a(1-4) c n by simp_all
  show "\<not> ar_accepted a \<Longrightarrow> ar_exchange_order_id a = []" using a(1,6) by simp
  show "length (ar_authoritative_reports a) \<le> 2" using a(5) shapes by auto
  fix r
  assume "ar_accepted a" "object_field V envelope ''newOrderResponse'' = Some r"
  then show "ar_authoritative_reports a \<noteq> [] \<and>
      rp_exchange_order_id (last (ar_authoritative_reports a)) = ar_exchange_order_id a"
    using a(1,5,6) shapes(2) response_report(3) by fastforce
qed

lemma half_succeeded_text:
  assumes "half_succeeded V envelope k = Inr b"
  shows "b \<longleftrightarrow> (\<exists>v. v_find V envelope k = Some v \<and> j_get_string (vj_core V) v = Inr ''SUCCESS'')"
  using assms by (auto simp: half_succeeded_def v_value_def j_value_def elim!: rbind_InrE split: if_splits option.splits)

lemma ack_reports:
  assumes "binance_parse_ack V response = Inr a" "rep \<in> set (ar_authoritative_reports a)"
  shows "\<exists>r op. binance_order_response_report V r op = Inr rep"
proof -
  from assms obtain envelope where "cancel_replace_ack V envelope = Inr a"
    unfolding binance_parse_ack_def by (auto simp: Let_def elim!: rbind_InrE split: option.splits if_splits)
  then obtain c n canceled placed where
    halves: "half_report V c envelope ''cancelResponse'' ''cancel-replace-cancel'' = Inr canceled"
      "half_report V n envelope ''newOrderResponse'' ''cancel-replace-new'' = Inr placed" and
    reply: "cancel_replace_reply V envelope c n (canceled @ placed) = Inr a"
    unfolding cancel_replace_ack_def by (elim rbind_InrE)
  then have "rep \<in> set canceled \<union> set placed" using reply_fields(5) [OF reply] assms(2) by simp
  then show ?thesis using halves half_report_member by (metis UnE)
qed

section \<open>Trading rules\<close>

definition limit_ok :: "decimal option \<Rightarrow> bool" where
  "limit_ok x \<longleftrightarrow> (\<forall>d. x = Some d \<longrightarrow> is_positive d)"

definition rules_ok :: "instrument_rules \<Rightarrow> bool" where
  "rules_ok r \<longleftrightarrow> list_all limit_ok
     [ir_minimum_price r, ir_maximum_price r, ir_price_tick r, ir_minimum_quantity r, ir_maximum_quantity r,
      ir_quantity_step r, ir_market_minimum_quantity r, ir_market_maximum_quantity r, ir_market_quantity_step r,
      ir_minimum_notional r, ir_maximum_notional r, ir_market_minimum_notional r, ir_market_maximum_notional r]"

lemma limit_ok_simps [simp]: "limit_ok None" "limit_ok (Some d) = is_positive d"
  by (simp_all add: limit_ok_def)

lemma positive_field_ok: "positive_decimal_field V j k = Inr x \<Longrightarrow> limit_ok x"
  by (auto simp: positive_decimal_field_def Let_def split: if_splits sum.splits exn.splits)

lemma keep_ok: "limit_ok t \<Longrightarrow> limit_ok c \<Longrightarrow> limit_ok (keep_larger t c)" "limit_ok t \<Longrightarrow> limit_ok c \<Longrightarrow> limit_ok (keep_smaller t c)"
  by (auto simp: keep_larger_def keep_smaller_def split: option.splits)

lemma when_set_ok:
  "when_set V j k (\<lambda>t. keep_larger t c) old = Inr x \<Longrightarrow> limit_ok old \<Longrightarrow> limit_ok c \<Longrightarrow> limit_ok x"
  "when_set V j k (\<lambda>t. keep_smaller t c) old = Inr x \<Longrightarrow> limit_ok old \<Longrightarrow> limit_ok c \<Longrightarrow> limit_ok x"
  by (auto simp: when_set_def rbind_eq_Inr_iff keep_ok split: if_splits)

lemma no_rules_ok: "rules_ok (no_rules v)"
  by (simp add: rules_ok_def no_rules_def)

lemma apply_filter_ok:
  assumes "apply_filter V f r = Inr r'" "rules_ok r"
  shows "rules_ok r'"
  using assms unfolding apply_filter_def Let_def
  by (auto simp: rules_ok_def keep_ok elim!: rbind_InrE dest!: positive_field_ok dest: when_set_ok split: if_splits)

lemma apply_filters_ok: "apply_filters V fs r = Inr r' \<Longrightarrow> rules_ok r \<Longrightarrow> rules_ok r'"
  by (induction fs arbitrary: r) (auto elim!: rbind_InrE intro: apply_filter_ok)

lemma okx_rules_ok: "okx_parse_instrument_rules V now j = Inr q \<Longrightarrow> rules_ok (iq_rules q)"
  unfolding okx_parse_instrument_rules_def Let_def
  by (auto simp: rules_ok_def no_rules_def rules_error_def intro: positive_field_ok elim!: rbind_InrE
      split: if_splits option.splits)

lemma binance_rules_ok: "binance_parse_instrument_rules V now j = Inr q \<Longrightarrow> rules_ok (iq_rules q)"
  unfolding binance_parse_instrument_rules_def Let_def
  by (auto simp: rules_error_def no_rules_ok elim!: rbind_InrE split: if_splits option.splits dest!: apply_filters_ok)
    (auto simp: rules_ok_def no_rules_def)

section \<open>A library that satisfies the laws\<close>

text \<open>An array of values is represented by entries without a key.\<close>

definition tree_venue :: "json_tree venue_json" where
  "tree_venue =
     \<lparr>vj_core = tree_json (\<lambda>_. Inl wrong_type),
      vj_string = (\<lambda>j. case j of JString s \<Rightarrow> s | _ \<Rightarrow> []),
      vj_is_array = (\<lambda>j. case j of JStrings _ \<Rightarrow> True | JObject ((k, _) # _) \<Rightarrow> k = [] | _ \<Rightarrow> False),
      vj_is_object = (\<lambda>j. case j of JObject ((k, _) # _) \<Rightarrow> k \<noteq> [] | JObject [] \<Rightarrow> True | JStringMap _ \<Rightarrow> True | _ \<Rightarrow> False),
      vj_is_integer = (\<lambda>j. case j of JNumber _ \<Rightarrow> True | _ \<Rightarrow> False),
      vj_is_empty = (\<lambda>j. case j of JStrings xs \<Rightarrow> xs = [] | JObject kvs \<Rightarrow> kvs = [] | JStringMap m \<Rightarrow> m = [] | _ \<Rightarrow> False),
      vj_front = (\<lambda>j. case j of JStrings (x # _) \<Rightarrow> JString x | JObject ((_, v) # _) \<Rightarrow> v | _ \<Rightarrow> j),
      vj_elements = (\<lambda>j. case j of JStrings xs \<Rightarrow> map JString xs | JObject kvs \<Rightarrow> map snd kvs | _ \<Rightarrow> []),
      vj_get_int = (\<lambda>j. case j of JNumber i \<Rightarrow> Inr i | _ \<Rightarrow> Inl wrong_type),
      vj_get_bool = (\<lambda>j. Inl wrong_type), vj_of_bool = (\<lambda>b. JNumber (if b then 1 else 0)),
      vj_not_an_object = wrong_type\<rparr>"

lemma tree_venue_laws: "venue_json_laws tree_venue"
  using tree_json_laws by (simp add: venue_json_laws_def tree_venue_def) (simp add: tree_json_def)

text \<open>A maximum whose whole part exceeds 64 bits is not omitted: the parser throws the exception that the field reader
  does not catch.\<close>

lemma unbounded_limit_digits:
  "parse_digits ''9999999999999999999'' = Inl (Invalid_argument ''decimal contains invalid characters'')"
  by (simp add: parse_digits_def from_chars_i64_def is_digit_def digits_value_def digit_value_def in_int64_def int64_bounds Let_def)

lemma unbounded_limit_parts: "split_first CHR ''.'' ''9999999999999999999'' = None"
  by code_simp

lemma unbounded_limit_throws:
  "positive_decimal_field tree_venue (JObject [(''maxQty'', JString ''9999999999999999999'')]) ''maxQty'' =
     Inl (Invalid_argument ''decimal contains invalid characters'')"
proof -
  have "venue_decimal ''9999999999999999999'' = Inl (Invalid_argument ''decimal contains invalid characters'')"
    by (simp add: venue_decimal_def truncate_fraction_def unbounded_limit_parts parse_def decimal_parts_def parse_parts_def
        unbounded_limit_digits)
  then show ?thesis
    by (simp add: positive_decimal_field_def string_field_def tree_venue_def tree_json_def)
qed

section \<open>Properties\<close>

text \<open>C37. Every client order id becomes a client id OKX accepts: one to 32 letters and digits; an id that already has
  this form is sent as it is, any other one is replaced by an id that starts with \<open>abx\<close>.\<close>

theorem okx_client_id_valid:
  "client_id_to_exchange cid \<noteq> [] \<and> length (client_id_to_exchange cid) \<le> 32 \<and>
   list_all okx_client_id_character (client_id_to_exchange cid) \<and>
   (if cid \<noteq> [] \<and> length cid \<le> 32 \<and> list_all okx_client_id_character cid
    then client_id_to_exchange cid = cid else take 3 (client_id_to_exchange cid) = ''abx'')"
proof (cases "cid \<noteq> [] \<and> length cid \<le> 32 \<and> list_all okx_client_id_character cid")
  case False
  let ?h = "hex_text (unat (fnv1a_64 cid))"
  have eq: "client_id_to_exchange cid =
      ''abx'' @ take 13 (filter okx_client_id_character cid) @ replicate (16 - length ?h) (CHR ''0'') @ ?h"
    using False by (auto simp: client_id_to_exchange_def Let_def)
  have "length (client_id_to_exchange cid) \<le> 32" using hex_text_hash [of "fnv1a_64 cid"] by (simp add: eq)
  moreover have "list_all okx_client_id_character (client_id_to_exchange cid)"
    using hex_text_characters [of "unat (fnv1a_64 cid)"] unfolding eq
    by (auto simp: list_all_iff prefix_characters dest: in_set_takeD)
  ultimately show ?thesis using False by (auto simp: eq)
qed (simp add: client_id_to_exchange_def)

text \<open>C36. The requests carry the terms of the order: with a JSON library that reads back what was put in, the quantity and the price (where
  there is one) in the place requests of both venues are read back as the exact decimals; so are the new price and the new
  quantity of an amendment at OKX, each where it is given and absent otherwise, and at Binance, where the terms of the order stand in
  for those that are not given. The client id at OKX is \<open>client_id_to_exchange\<close> of the order's (the id itself where OKX accepts it), at
  Binance the order's own, and in a Binance amendment the new alias. A cancel and an amendment name the order by its id at the
  venue, or by its client id where it has none that can be sent.\<close>

theorem requests_carry_terms:
  assumes "venue_json_laws V" and "wf_decimal (quantity ord)" and "\<forall>p. price ord = Some p \<longrightarrow> wf_decimal p"
    and "\<forall>x. np = Some x \<longrightarrow> wf_decimal x" and "\<forall>x. nq = Some x \<longrightarrow> wf_decimal x"
  shows "decimal_field V (okx_place_request V ord) ''sz'' d = Inr (quantity ord) \<and>
    string_field V (okx_place_request V ord) ''clOrdId'' t = client_id_to_exchange (client_order_id ord) \<and>
    (\<forall>p. price ord = Some p \<longrightarrow> decimal_field V (okx_place_request V ord) ''px'' d = Inr p) \<and>
    (case np of None \<Rightarrow> v_find V (okx_amend_request V ord np nq) ''newPx'' = None
     | Some x \<Rightarrow> decimal_field V (okx_amend_request V ord np nq) ''newPx'' d = Inr x) \<and>
    (case nq of None \<Rightarrow> v_find V (okx_amend_request V ord np nq) ''newSz'' = None
     | Some x \<Rightarrow> decimal_field V (okx_amend_request V ord np nq) ''newSz'' d = Inr x) \<and>
    okx_refers V ord (okx_amend_request V ord np nq) \<and> okx_refers V ord (okx_cancel_request V ord) \<and>
    (\<forall>j. binance_place_params V ord = Some j \<longrightarrow>
       decimal_field V j ''quantity'' d = Inr (quantity ord) \<and>
       string_field V j ''newClientOrderId'' t = client_order_id ord \<and>
       (type ord = Limit \<longrightarrow> (\<exists>p. price ord = Some p \<and> decimal_field V j ''price'' d = Inr p))) \<and>
    (\<forall>j. binance_amend_params V ord np nq new_id = Some j \<longrightarrow>
       decimal_field V j ''quantity'' d = Inr (case nq of None \<Rightarrow> quantity ord | Some x \<Rightarrow> x) \<and>
       string_field V j ''newClientOrderId'' t = new_id \<and>
       (type ord = Limit \<longrightarrow>
         (\<exists>p. price ord = Some p \<and> decimal_field V j ''price'' d = Inr (case np of None \<Rightarrow> p | Some x \<Rightarrow> x))) \<and>
       binance_refers V ord ''cancelOrderId'' ''cancelOrigClientOrderId'' j) \<and>
    binance_refers V ord ''orderId'' ''origClientOrderId'' (binance_cancel_params V ord)"
proof -
  note found = text_found [OF assms(1)] and okx = okx_place_finds [OF assms(1)]
  have amended: "(case x of None \<Rightarrow> v_find V r k = None | Some y \<Rightarrow> decimal_field V r k d = Inr y)"
    if "v_find V r k = map_option (\<lambda>p. v_text V (to_string p)) x" "\<forall>y. x = Some y \<longrightarrow> wf_decimal y" for r k x
    using that found by (auto simp: parse_formatted split: option.split)
  have placed: "decimal_field V j ''quantity'' d = Inr (quantity ord) \<and> string_field V j ''newClientOrderId'' t = client_order_id ord \<and>
     (type ord = Limit \<longrightarrow> (\<exists>p. price ord = Some p \<and> decimal_field V j ''price'' d = Inr p))"
    if j: "binance_place_params V ord = Some j" for j
  proof -
    have "type ord = Limit \<longrightarrow> (\<exists>p. price ord = Some p)"
      using j by (auto simp: binance_place_params_def Let_def split: option.splits)
    then show ?thesis
      using binance_place_finds [OF assms(1) j] found assms(2,3) by (auto simp: parse_formatted)
  qed
  have replaced: "decimal_field V j ''quantity'' d = Inr (case nq of None \<Rightarrow> quantity ord | Some x \<Rightarrow> x) \<and>
      string_field V j ''newClientOrderId'' t = new_id \<and>
      (type ord = Limit \<longrightarrow> (\<exists>p. price ord = Some p \<and> decimal_field V j ''price'' d = Inr (case np of None \<Rightarrow> p | Some x \<Rightarrow> x))) \<and>
      binance_refers V ord ''cancelOrderId'' ''cancelOrigClientOrderId'' j"
    if j: "binance_amend_params V ord np nq new_id = Some j" for j
  proof -
    note finds = binance_amend_finds [OF assms(1) j]
    have "decimal_field V j ''quantity'' d = Inr (case nq of None \<Rightarrow> quantity ord | Some x \<Rightarrow> x)"
      using found(2) [OF finds(2)] assms(2,5) by (simp add: parse_formatted split: option.split)
    moreover have "\<exists>p. price ord = Some p \<and> decimal_field V j ''price'' d = Inr (case np of None \<Rightarrow> p | Some x \<Rightarrow> x)" if limit: "type ord = Limit"
    proof -
      obtain old where old: "price ord = Some old" "v_find V j ''price'' = Some (v_text V (to_string (case np of None \<Rightarrow> old | Some x \<Rightarrow> x)))"
        using finds(3) [OF limit] by blast
      then show ?thesis using found(2) [OF old(2)] assms(3,4) by (auto simp: parse_formatted split: option.split)
    qed
    ultimately show ?thesis using found(1) [OF finds(1)] finds(4) by blast
  qed
  show ?thesis
    using okx found assms(2,3) amended [OF okx_amend_finds(1) [OF assms(1)] assms(4)] amended [OF okx_amend_finds(2) [OF assms(1)] assms(5)]
      okx_requests_refer [OF assms(1)] placed replaced binance_cancel_refers [OF assms(1)]
    by (auto simp: parse_formatted)
qed

theorem requests_carry_terms_witness:
  "decimal_field tree_venue (okx_place_request tree_venue json_sample_order) ''sz'' ''0'' = Inr (Decimal 100000000) \<and>
   decimal_field tree_venue (okx_place_request tree_venue json_sample_order) ''px'' ''0'' = Inr (Decimal 5000000000) \<and>
   decimal_field tree_venue (okx_amend_request tree_venue json_sample_order (Some 0) None) ''newPx'' ''1'' = Inr 0 \<and>
   v_find tree_venue (okx_amend_request tree_venue json_sample_order (Some 0) None) ''newSz'' = None"
proof -
  have o: "quantity json_sample_order = Decimal 100000000" "price json_sample_order = Some (Decimal 5000000000)"
    by (simp_all add: json_sample_order_def make_order_def json_sample_request_def Let_def)
  then have wf: "wf_decimal (quantity json_sample_order)" "\<forall>p. price json_sample_order = Some p \<longrightarrow> wf_decimal p"
    by (simp_all add: wf_decimal_def in_int64_def int64_bounds)
  have terms: "\<forall>x. Some 0 = Some x \<longrightarrow> wf_decimal x" "\<forall>x. None = Some x \<longrightarrow> wf_decimal x" using wf_decimal_0 by auto
  show ?thesis
    using requests_carry_terms [OF tree_venue_laws wf terms, of "''0''" "[]" "[]"]
      requests_carry_terms [OF tree_venue_laws wf terms, of "''1''" "[]" "[]"] o by simp
qed

text \<open>An OKX answer counts as an acceptance exactly when its code is zero, it carries an acknowledgement and
  the item of that acknowledgement, where there is a list of them, has no error code; when the code is zero but
  the acknowledgement is missing, and only then, the outcome is uncertain.\<close>

theorem okx_ack_accepts_iff:
  "(ar_accepted (okx_parse_ack V r) \<longleftrightarrow>
     string_field V r ''code'' [] = ''0'' \<and>
     (\<exists>d. v_find V r ''data'' = Some d \<and> vj_is_empty V d = False \<and>
        (if vj_is_array V d then string_field V (vj_front V d) ''sCode'' [] \<in> {[], ''0''} else True))) \<and>
   (ar_outcome_uncertain (okx_parse_ack V r) \<longleftrightarrow>
     string_field V r ''code'' [] = ''0'' \<and> (case v_find V r ''data'' of None \<Rightarrow> True | Some d \<Rightarrow> vj_is_empty V d))"
  by (auto simp: okx_parse_ack_def okx_item_rejection_def Let_def split: option.splits)

text \<open>C35. An answer of Binance is read consistently: a cancel-replace is accepted exactly when the text of its \<open>newOrderResult\<close> is
  \<open>SUCCESS\<close>, and reports the cancellation of the old order exactly when that of its \<open>cancelResult\<close> is; a refused
  answer names no new exchange id; with an accepted one that carries the new order, the last of its at most two reports carries the exchange
  id that the answer names.\<close>

theorem binance_ack_consistent:
  assumes "binance_parse_ack V response = Inr a"
  shows "\<not> ar_outcome_uncertain a \<and> length (ar_authoritative_reports a) \<le> 2 \<and>
    (ar_accepted a \<or> ar_exchange_order_id a = []) \<and> (ar_replacement a \<longrightarrow> ar_accepted a) \<and>
    (\<forall>envelope. object_field V response ''result'' = Some envelope \<and>
        (v_find V envelope ''cancelResult'' \<noteq> None \<or> v_find V envelope ''newOrderResult'' \<noteq> None) \<longrightarrow>
      (ar_accepted a \<longleftrightarrow> (\<exists>v. v_find V envelope ''newOrderResult'' = Some v \<and> j_get_string (vj_core V) v = Inr ''SUCCESS'')) \<and>
      (ar_original_order_canceled a \<longleftrightarrow>
        (\<exists>v. v_find V envelope ''cancelResult'' = Some v \<and> j_get_string (vj_core V) v = Inr ''SUCCESS'')) \<and>
      (\<forall>r. ar_accepted a \<and> object_field V envelope ''newOrderResponse'' = Some r \<longrightarrow>
         rp_exchange_order_id (last (ar_authoritative_reports a)) = ar_exchange_order_id a))"
proof (cases "\<exists>envelope. object_field V response ''result'' = Some envelope \<and>
        (v_find V envelope ''cancelResult'' \<noteq> None \<or> v_find V envelope ''newOrderResult'' \<noteq> None)")
  case True
  then obtain envelope where e: "object_field V response ''result'' = Some envelope"
      "v_find V envelope ''cancelResult'' \<noteq> None \<or> v_find V envelope ''newOrderResult'' \<noteq> None" by blast
  then have "cancel_replace_ack V envelope = Inr a"
    using assms unfolding binance_parse_ack_def by (auto simp: Let_def elim: rbind_InrE)
  note result = cancel_replace_result [OF this]
  show ?thesis using result(2,4-7) e half_succeeded_text [OF result(1)] half_succeeded_text [OF result(3)] by auto
next
  case False
  then show ?thesis
    using assms unfolding binance_parse_ack_def
    by (auto simp: Let_def elim!: rbind_InrE split: option.splits if_splits)
qed

definition sample_replace :: json_tree where
  "sample_replace = JObject [(''status'', JNumber 200), (''result'', JObject
     [(''cancelResult'', JString ''SUCCESS''), (''newOrderResult'', JString ''SUCCESS''),
      (''newOrderResponse'', JObject [(''orderId'', JString ''77''), (''status'', JString ''NEW''), (''executedQty'', JString ''0'')])])]"

lemma sample_numbers: "parse ''0'' = Inr 0" "stoll ''0'' = Inr 0" "parse ''0.5'' = Inr (Decimal 50000000)" "stoll ''5'' = Inr 5"
  by code_simp+

lemma sample_limits:
  "venue_decimal ''0'' = Inr 0" "venue_decimal ''0.5'' = Inr (Decimal 50000000)" "is_positive (Decimal 50000000)" "\<not> is_positive 0"
  by code_simp+

lemma sample_replace_parsed:
  "\<exists>a. binance_parse_ack tree_venue sample_replace = Inr a \<and> ar_accepted a \<and> ar_exchange_order_id a = ''77''"
  by (simp add: binance_parse_ack_def sample_replace_def tree_venue_def tree_json_def v_value_def j_value_def object_field_def
      cancel_replace_ack_def half_succeeded_def half_report_def binance_order_response_report_def string_field_def
      decimal_field_def sample_numbers positive_price_def present_decimal_def cancel_replace_reply_def accepted_result_def
      refused_result_def Let_def)

lemma sample_envelope:
  "\<exists>envelope r. object_field tree_venue sample_replace ''result'' = Some envelope \<and>
     v_find tree_venue envelope ''cancelResult'' \<noteq> None \<and> object_field tree_venue envelope ''newOrderResponse'' = Some r"
  by (simp add: object_field_def tree_venue_def tree_json_def sample_replace_def)

theorem binance_ack_consistent_witness:
  "\<exists>a. binance_parse_ack tree_venue sample_replace = Inr a \<and>
     rp_exchange_order_id (last (ar_authoritative_reports a)) = ''77''"
proof -
  obtain a where a: "binance_parse_ack tree_venue sample_replace = Inr a" "ar_accepted a" "ar_exchange_order_id a = ''77''"
    using sample_replace_parsed by blast
  obtain envelope r where "object_field tree_venue sample_replace ''result'' = Some envelope"
     "v_find tree_venue envelope ''cancelResult'' \<noteq> None" "object_field tree_venue envelope ''newOrderResponse'' = Some r"
    using sample_envelope by blast
  with binance_ack_consistent [OF a(1)] a have "rp_exchange_order_id (last (ar_authoritative_reports a)) = ''77''" by metis
  with a(1) show ?thesis by blast
qed

text \<open>Every report read from a venue can be recognised when it is delivered again: its event id is not empty, for the
  order updates of OKX and the execution reports, order states and cancel-replace answers of Binance; its
  cumulative fill is a 64-bit decimal.\<close>

theorem reports_identified:
  assumes "okx_parse_order_update V j = Inr rep \<or> binance_parse_execution_report V j = Inr rep \<or>
    binance_parse_order_status V j = Inr rep \<or>
    (\<exists>a. binance_parse_ack V j = Inr a \<and> rep \<in> set (ar_authoritative_reports a))"
  shows "rp_event_id rep \<noteq> [] \<and> wf_decimal (rp_cumulative_filled rep)"
  using assms
proof (elim disjE exE conjE)
  assume "okx_parse_order_update V j = Inr rep"
  from okx_report [OF this] show ?thesis by simp
next
  assume "binance_parse_execution_report V j = Inr rep"
  from binance_report [OF this] show ?thesis by simp
next
  assume "binance_parse_order_status V j = Inr rep"
  from response_report [OF this [unfolded binance_parse_order_status_def]] show ?thesis by simp
next
  fix a
  assume "binance_parse_ack V j = Inr a" "rep \<in> set (ar_authoritative_reports a)"
  from ack_reports [OF this] obtain r op where "binance_order_response_report V r op = Inr rep" by blast
  from response_report [OF this] show ?thesis by simp
qed

definition sample_update :: json_tree where
  "sample_update = JObject [(''ordId'', JString ''9''), (''uTime'', JString ''5''), (''state'', JString ''live''), (''tradeId'', JString ''3''), (''accFillSz'', JString ''0.5'')]"

lemma sample_update_parsed:
  "\<exists>rep. okx_parse_order_update tree_venue sample_update = Inr rep"
  by (simp add: okx_parse_order_update_def sample_update_def tree_venue_def tree_json_def string_field_def decimal_field_def
      sample_numbers)

theorem reports_identified_witness:
  "\<exists>rep. okx_parse_order_update tree_venue sample_update = Inr rep \<and> rp_event_id rep \<noteq> []"
proof -
  obtain rep where rep: "okx_parse_order_update tree_venue sample_update = Inr rep" using sample_update_parsed ..
  with reports_identified [OF disjI1, OF rep] show ?thesis by blast
qed

text \<open>Every limit read from the trading rules of a venue is positive, whatever the venue sends.\<close>

theorem rules_limits_positive:
  assumes "okx_parse_instrument_rules V now j = Inr q \<or> binance_parse_instrument_rules V now j = Inr q"
  shows "rules_ok (iq_rules q)"
  using assms by (elim disjE) (erule okx_rules_ok, erule binance_rules_ok)

definition sample_symbol :: json_tree where
  "sample_symbol = JObject [(''baseAsset'', JString ''BTC''), (''quoteAsset'', JString ''USDT''), (''status'', JString ''TRADING''),
     (''filters'', JObject
        [([], JObject [(''filterType'', JString ''PRICE_FILTER''), (''minPrice'', JString ''0''), (''tickSize'', JString ''0.5'')]),
         ([], JObject [(''filterType'', JString ''MIN_NOTIONAL''), (''minNotional'', JString ''0.5'')])])]"

definition sample_rules :: json_tree where
  "sample_rules = JObject [(''status'', JNumber 200), (''result'', JObject [(''symbols'', JObject [([], sample_symbol)])])]"

lemma sample_rules_parsed:
  "\<exists>q. binance_parse_instrument_rules tree_venue 7 sample_rules = Inr q \<and>
     ir_price_tick (iq_rules q) = Some (Decimal 50000000) \<and> ir_minimum_price (iq_rules q) = None"
  by (simp add: binance_parse_instrument_rules_def sample_rules_def sample_symbol_def tree_venue_def tree_json_def v_value_def
      j_value_def http_failed_def object_field_def first_datum_def array_field_def apply_filter_def positive_decimal_field_def
      string_field_def sample_limits when_set_def no_rules_def Let_def)

theorem rules_limits_positive_witness:
  "\<exists>q. binance_parse_instrument_rules tree_venue 7 sample_rules = Inr q \<and>
     ir_price_tick (iq_rules q) = Some (Decimal 50000000) \<and> rules_ok (iq_rules q)"
  using sample_rules_parsed rules_limits_positive [of tree_venue 7 sample_rules] by blast

end
