(* ===== verification/Abex_Http.thy ===== *)
theory Abex_Http
  imports Abex_Protocol Abex_Transitions
begin

text \<open>
  The HTTP client (\<open>src/infrastructure/http_client.cpp\<close>) and the signing helpers
  (\<open>src/infrastructure/crypto.cpp\<close>).

  What libcurl and OpenSSL answer are arguments: an error text or a response, the bytes of a digest. Modelled is what the
  sources do around them: the requests, the pool of handles, the canonical text that is signed, the hexadecimal form of a
  digest and the milliseconds of a timestamp.
\<close>

section \<open>Requests\<close>

record http_request =
  hq_method :: string
  hq_url :: string
  hq_headers :: "(string \<times> string) list"
  hq_body :: string
  hq_timeout_ms :: int

record http_response =
  hr_status :: int
  hr_body :: string

definition header_line :: "string \<Rightarrow> string \<Rightarrow> string" where
  "header_line header_name v = header_name @ '': '' @ v"

definition http_perform :: "string + http_response \<Rightarrow> http_request \<Rightarrow> http_response result" where
  "http_perform transfer request =
     (if hq_url request = [] then Inl (Invalid_argument ''HTTP URL must not be empty'')
      else case transfer of
             Inl err \<Rightarrow> Inl (Runtime_error (''HTTP transport error: '' @ err))
           | Inr response \<Rightarrow> Inr response)"

section \<open>The pool of handles\<close>

definition pool_size :: nat where "pool_size = 4"

text \<open>The idle handles, the newest at the end, and those that calls of \<open>perform\<close> hold.\<close>

record handle_pool =
  hp_available :: "nat list"
  hp_held :: "nat list"

definition new_pool :: handle_pool where
  "new_pool = \<lparr>hp_available = [0..<pool_size], hp_held = []\<rparr>"

definition pool_acquire :: "handle_pool \<Rightarrow> (nat \<times> handle_pool) option" where
  "pool_acquire p =
     (if hp_available p = [] then None
      else Some (last (hp_available p),
                 p\<lparr>hp_available := butlast (hp_available p), hp_held := last (hp_available p) # hp_held p\<rparr>))"

definition pool_release :: "nat \<Rightarrow> handle_pool \<Rightarrow> handle_pool" where
  "pool_release h p = p\<lparr>hp_available := hp_available p @ [h], hp_held := remove1 h (hp_held p)\<rparr>"

inductive pool_step :: "handle_pool \<Rightarrow> handle_pool \<Rightarrow> bool" where
  acquire: "pool_acquire p = Some (h, p') \<Longrightarrow> pool_step p p'"
| release: "h \<in> set (hp_held p) \<Longrightarrow> pool_step p (pool_release h p)"

text \<open>Every handle is idle or held by exactly one call.\<close>

definition pool_ok :: "handle_pool \<Rightarrow> bool" where
  "pool_ok p \<longleftrightarrow> distinct (hp_available p @ hp_held p) \<and> set (hp_available p @ hp_held p) = {0..<pool_size}"

lemma pool_ok_step: "pool_ok p \<Longrightarrow> pool_step p p' \<Longrightarrow> pool_ok p'"
proof (erule pool_step.cases, goal_cases)
  case (1 q h q')
  then have av: "hp_available p \<noteq> []" by (auto simp: pool_acquire_def split: if_splits)
  then obtain xs x where "hp_available p = xs @ [x]" by (metis append_butlast_last_id)
  then show ?case using 1 by (auto simp: pool_acquire_def pool_ok_def)
next
  case (2 h q)
  then show ?case by (auto simp: pool_release_def pool_ok_def set_remove1_eq)
qed

interpretation pool_run: invariant_system pool_step pool_ok
  by unfold_locales (rule pool_ok_step)

lemma pool_handles_exclusive:
  assumes "pool_step\<^sup>*\<^sup>* new_pool p"
  shows "distinct (hp_held p) \<and> length (hp_held p) \<le> pool_size \<and>
    (length (hp_held p) < pool_size \<longrightarrow> pool_acquire p \<noteq> None)"
proof -
  have ok: "pool_ok p" by (rule pool_run.reachable_inv [OF assms]) (simp add: pool_ok_def new_pool_def)
  then have n: "length (hp_available p @ hp_held p) = pool_size"
    using distinct_card [of "hp_available p @ hp_held p"] by (simp add: pool_ok_def)
  then show ?thesis using ok by (auto simp: pool_ok_def pool_acquire_def)
qed

section \<open>Signatures\<close>

text \<open>\<open>hmac_sha256_hex\<close>: the digest as two hexadecimal digits per byte.\<close>

definition hex_digest :: "nat list \<Rightarrow> string" where
  "hex_digest digest = concat (map (\<lambda>b. [hex_digit (b div 16), hex_digit (b mod 16)]) digest)"

definition hmac_sha256_hex :: "(string \<Rightarrow> string \<Rightarrow> nat list result) \<Rightarrow> string \<Rightarrow> string \<Rightarrow> string result" where
  "hmac_sha256_hex hmac secret message = rbind (hmac secret message) (\<lambda>digest. Inr (hex_digest digest))"

text \<open>\<open>hmac_sha256_base64\<close> over the encoder of OpenSSL, which answers a text or fails.\<close>

definition hmac_sha256_base64 ::
    "(string \<Rightarrow> string \<Rightarrow> nat list result) \<Rightarrow> (nat list \<Rightarrow> string option) \<Rightarrow> string \<Rightarrow> string \<Rightarrow> string result" where
  "hmac_sha256_base64 hmac encode_block secret message =
     rbind (hmac secret message) (\<lambda>digest.
       case encode_block digest of
         None \<Rightarrow> Inl (Runtime_error ''OpenSSL base64 encoding failed'')
       | Some t \<Rightarrow> Inr t)"

text \<open>What signing needs of the JSON library: the entries of an object in the order of its keys, the kinds of scalars, the
  assignment of an entry.\<close>

record 'j signing_json =
  sj_venue :: "'j venue_json"
  sj_items :: "'j \<Rightarrow> (string \<times> 'j) list"
  sj_is_boolean :: "'j \<Rightarrow> bool"
  sj_is_number :: "'j \<Rightarrow> bool"
  sj_put :: "'j \<Rightarrow> string \<Rightarrow> 'j \<Rightarrow> 'j"

definition json_scalar :: "'j signing_json \<Rightarrow> 'j \<Rightarrow> string result" where
  "json_scalar S j =
     (let V = sj_venue S in
      if j_is_string (vj_core V) j then j_get_string (vj_core V) j
      else if sj_is_boolean S j then rbind (vj_get_bool V j) (\<lambda>b. Inr (if b then ''true'' else ''false''))
      else if sj_is_number S j then Inr (j_dump (vj_core V) j)
      else Inl (Invalid_argument ''signed request parameters must be scalar values''))"

fun query_from :: "'j signing_json \<Rightarrow> string \<Rightarrow> (string \<times> 'j) list \<Rightarrow> string result" where
  "query_from S acc [] = Inr acc"
| "query_from S acc ((k, j) # items) =
     (if k = ''signature'' then query_from S acc items
      else rbind (json_scalar S j) (\<lambda>t.
        query_from S (acc @ (if acc = [] then [] else ''&'') @ k @ ''='' @ t) items))"

definition canonical_query :: "'j signing_json \<Rightarrow> 'j \<Rightarrow> string result" where
  "canonical_query S parameters = query_from S [] (sj_items S parameters)"

text \<open>\<open>iso8601_utc_now\<close>: the date and time as \<open>strftime\<close> gives them, then the milliseconds.\<close>

definition iso8601_utc :: "string option \<Rightarrow> int \<Rightarrow> string result" where
  "iso8601_utc date_time unix_ms =
     (case date_time of
        None \<Rightarrow> Inl (Runtime_error ''failed to convert UTC timestamp'')
      | Some t \<Rightarrow>
          if length t \<noteq> 19 then Inl (Runtime_error ''failed to format UTC timestamp'')
          else let ms = nat (unix_ms mod 1000)
               in Inr (t @ ''.'' @ [digit_char (ms div 100 mod 10), digit_char (ms div 10 mod 10), digit_char (ms mod 10)] @ ''Z''))"

text \<open>The signed text lists the entries in the order of their keys, each once, without the signature.\<close>

fun join_with :: "string \<Rightarrow> string list \<Rightarrow> string" where
  "join_with sep [] = []"
| "join_with sep [x] = x"
| "join_with sep (x # y # xs) = x @ sep @ join_with sep (y # xs)"

definition signed_items :: "'j signing_json \<Rightarrow> 'j \<Rightarrow> (string \<times> 'j) list" where
  "signed_items S parameters = filter (\<lambda>(k, j). k \<noteq> ''signature'') (sj_items S parameters)"

lemma join_with_Cons: "join_with sep (x # xs) = x @ concat (map (\<lambda>y. sep @ y) xs)"
  by (induction xs arbitrary: x) auto

lemma query_from_text:
  assumes "query_from S acc items = Inr q"
  shows "\<exists>ts. list_all2 (\<lambda>(k, j) t. json_scalar S j = Inr t) (filter (\<lambda>(k, j). k \<noteq> ''signature'') items) ts \<and>
    q = (let parts = map2 (\<lambda>(k, j) t. k @ ''='' @ t) (filter (\<lambda>(k, j). k \<noteq> ''signature'') items) ts
         in if acc = [] then join_with ''&'' parts else acc @ concat (map (\<lambda>y. ''&'' @ y) parts))"
  using assms
proof (induction S acc items rule: query_from.induct)
  case (1 S acc)
  then show ?case by (intro exI [of _ "[]"]) simp
next
  case (2 S acc k j items)
  show ?case
  proof (cases "k = ''signature''")
    case True
    then show ?thesis using 2 by simp
  next
    case False
    then obtain t where t: "json_scalar S j = Inr t" "query_from S (acc @ (if acc = [] then [] else ''&'') @ k @ ''='' @ t) items = Inr q"
      using 2(3) by (auto elim: rbind_InrE)
    let ?its = "filter (\<lambda>(k, j). k \<noteq> ''signature'') items"
    let ?acc = "acc @ (if acc = [] then [] else ''&'') @ k @ ''='' @ t"
    obtain ts where ts: "list_all2 (\<lambda>(k, j) t. json_scalar S j = Inr t) ?its ts"
      and q: "q = (let parts = map2 (\<lambda>(k, j) t. k @ ''='' @ t) ?its ts
         in if ?acc = [] then join_with ''&'' parts else ?acc @ concat (map (\<lambda>y. ''&'' @ y) parts))"
      using 2(2) [OF False t(2)] by blast
    have "q = ?acc @ concat (map (\<lambda>y. ''&'' @ y) (map2 (\<lambda>(k, j) t. k @ ''='' @ t) ?its ts))"
      unfolding q by (simp add: Let_def comp_def)
    then show ?thesis using ts t(1) False by (intro exI [of _ "t # ts"]) (simp add: join_with_Cons comp_def)
  qed
qed

lemma canonical_query_text:
  assumes "canonical_query S parameters = Inr q"
  obtains ts where "list_all2 (\<lambda>(k, j) t. json_scalar S j = Inr t) (signed_items S parameters) ts"
    "q = join_with ''&'' (map2 (\<lambda>(k, j) t. k @ ''='' @ t) (signed_items S parameters) ts)"
  using query_from_text [OF assms [unfolded canonical_query_def]] that by (auto simp: signed_items_def Let_def)

section \<open>Shared by the adapters\<close>

text \<open>Calls of the gateway's callbacks, answers of an adapter that are not an answer of the venue, and the loop over the elements of
  an array of reports.\<close>

datatype venue_event = Connection_changed bool string | Execution execution_report

definition uncertain_result :: "string \<Rightarrow> exn \<Rightarrow> adapter_result" where
  "uncertain_result code e = (refused_result code (what e))\<lparr>ar_outcome_uncertain := True\<rparr>"

definition rate_limited :: "string \<Rightarrow> adapter_result" where
  "rate_limited message = refused_result ''LOCAL_RATE_LIMIT'' message"

definition rules_error_for :: "venue \<Rightarrow> string \<Rightarrow> string \<Rightarrow> string \<Rightarrow> instrument_rules_query_result" where
  "rules_error_for v smb code message =
     \<lparr>iq_ok = False, iq_code = code, iq_message = message, iq_rules = (no_rules v)\<lparr>ir_symbol := smb\<rparr>\<rparr>"

fun parse_updates :: "('j \<Rightarrow> execution_report result) \<Rightarrow> 'j list \<Rightarrow> execution_report list result" where
  "parse_updates f [] = Inr []"
| "parse_updates f (j # js) = rbind (f j) (\<lambda>r. rbind (parse_updates f js) (\<lambda>rs. Inr (r # rs)))"

end
