(* ===== verification/Abex_Md_Feed.thy ===== *)
theory Abex_Md_Feed
  imports Abex_Md_Ring_Props Abex_Protocol_Props Abex_Http
begin

text \<open>
  Both ends of the quote ring: the publisher process, which parses what the public endpoints send
  (\<open>include/abex/infrastructure/public_market_data.hpp\<close>, \<open>apps/abex_market_data/main.cpp\<close>), and the thread of the
  gateway that moves quotes from the ring into the book (\<open>include/abex/infrastructure/market_data_feed.hpp\<close>).

  The answer of an HTTP request is an argument, as is what each load of a read sees.
\<close>

section \<open>Public endpoints\<close>

definition canonical_symbols :: "string list" where
  "canonical_symbols = [''BTC-USDT'', ''ETH-USDT'']"

definition supported_symbol :: "string \<Rightarrow> bool" where
  "supported_symbol s \<longleftrightarrow> s \<in> set canonical_symbols"

definition binance_symbol :: "string \<Rightarrow> string" where
  "binance_symbol s = (if s = ''BTCUSDT'' then ''BTC-USDT'' else if s = ''ETHUSDT'' then ''ETH-USDT'' else [])"

definition parse_time :: "'j venue_json \<Rightarrow> 'j \<Rightarrow> string \<Rightarrow> int \<Rightarrow> int result" where
  "parse_time V j field fallback =
     (case v_find V j field of
        None \<Rightarrow> Inr fallback
      | Some v \<Rightarrow>
          if vj_is_integer V v then j_get_integer (vj_core V) v
          else if j_is_string (vj_core V) v then rbind (j_get_string (vj_core V) v) stoll
          else Inr fallback)"

definition require_success :: "http_response \<Rightarrow> string \<Rightarrow> unit result" where
  "require_success response v =
     (if hr_status response \<noteq> 200 then Inl (Runtime_error (v @ '' market-data HTTP '' @ int_to_string (hr_status response)))
      else Inr ())"

definition decimal_at :: "'j venue_json \<Rightarrow> 'j \<Rightarrow> string \<Rightarrow> decimal result" where
  "decimal_at V j k = rbind (j_field (vj_core V) (j_get_string (vj_core V)) j k) parse"

definition okx_ticker :: "'j venue_json \<Rightarrow> int \<Rightarrow> 'j \<Rightarrow> market_quote option result" where
  "okx_ticker V now item =
     rbind (v_value V (j_get_string (vj_core V)) item ''instId'' []) (\<lambda>smb.
       if \<not> supported_symbol smb then Inr None
       else rbind (decimal_at V item ''bidPx'') (\<lambda>bid. rbind (decimal_at V item ''askPx'') (\<lambda>ask.
            rbind (parse_time V item ''ts'' now) (\<lambda>ts.
              Inr (Some \<lparr>mq_venue = Okx, mq_symbol = smb, mq_bid_price = bid, mq_ask_price = ask, mq_source_time_ms = ts,
                         mq_published_at_ms = now, mq_sequence = 0\<rparr>)))))"

definition binance_ticker :: "'j venue_json \<Rightarrow> int \<Rightarrow> 'j \<Rightarrow> market_quote option result" where
  "binance_ticker V now item =
     rbind (v_value V (j_get_string (vj_core V)) item ''symbol'' []) (\<lambda>raw_symbol.
       let smb = binance_symbol raw_symbol in
       if smb = [] then Inr None
       else rbind (decimal_at V item ''bidPrice'') (\<lambda>bid. rbind (decimal_at V item ''askPrice'') (\<lambda>ask.
              Inr (Some \<lparr>mq_venue = Binance, mq_symbol = smb, mq_bid_price = bid, mq_ask_price = ask, mq_source_time_ms = now,
                         mq_published_at_ms = now, mq_sequence = 0\<rparr>))))"

text \<open>The loop over the items: those without a quote are passed over, the first exception ends it.\<close>

fun collect_quotes :: "('j \<Rightarrow> market_quote option result) \<Rightarrow> 'j list \<Rightarrow> market_quote list result" where
  "collect_quotes ticker [] = Inr []"
| "collect_quotes ticker (item # items) =
     rbind (ticker item) (\<lambda>q. rbind (collect_quotes ticker items) (\<lambda>qs.
       Inr (case q of None \<Rightarrow> qs | Some q \<Rightarrow> q # qs)))"

definition parse_okx_tickers :: "'j venue_json \<Rightarrow> int \<Rightarrow> string \<Rightarrow> market_quote list result" where
  "parse_okx_tickers V now body =
     rbind (j_parse (vj_core V) body) (\<lambda>response.
     rbind (v_value V (j_get_string (vj_core V)) response ''code'' []) (\<lambda>code.
       case (code \<noteq> ''0'', v_find V response ''data'') of
         (False, Some items) \<Rightarrow>
           rbind (collect_quotes (okx_ticker V now) (vj_elements V items)) (\<lambda>qs.
             if length qs \<noteq> length canonical_symbols
             then Inl (Runtime_error ''OKX response did not contain both configured symbols'') else Inr qs)
       | _ \<Rightarrow> Inl (Runtime_error ''OKX market-data response was rejected'')))"

definition parse_binance_tickers :: "'j venue_json \<Rightarrow> int \<Rightarrow> string \<Rightarrow> market_quote list result" where
  "parse_binance_tickers V now body =
     rbind (j_parse (vj_core V) body) (\<lambda>response.
       if \<not> vj_is_array V response then Inl (Runtime_error ''Binance market-data response is not an array'')
       else rbind (collect_quotes (binance_ticker V now) (vj_elements V response)) (\<lambda>qs.
         if length qs \<noteq> length canonical_symbols
         then Inl (Runtime_error ''Binance response did not contain both configured symbols'') else Inr qs))"

definition fetch_okx :: "'j venue_json \<Rightarrow> int \<Rightarrow> http_response result \<Rightarrow> market_quote list result" where
  "fetch_okx V now answer =
     rbind answer (\<lambda>response. rbind (require_success response ''OKX'') (\<lambda>_. parse_okx_tickers V now (hr_body response)))"

definition fetch_binance :: "'j venue_json \<Rightarrow> int \<Rightarrow> http_response result \<Rightarrow> market_quote list result" where
  "fetch_binance V now answer =
     rbind answer (\<lambda>response. rbind (require_success response ''Binance'') (\<lambda>_. parse_binance_tickers V now (hr_body response)))"

text \<open>One tick of the publisher that polls: each venue on its own, exceptions only reported.\<close>

definition publish_answer :: "int \<Rightarrow> market_quote list result \<Rightarrow> ring_writer \<Rightarrow> ring_writer \<times> nat \<times> exn option" where
  "publish_answer now answer w =
     (case answer of
        Inl e \<Rightarrow> (w, 0, Some e)
      | Inr qs \<Rightarrow> (case ring_publish w (map (\<lambda>q. (now, q)) qs) of
                     (w', None) \<Rightarrow> (w', length qs, None)
                   | (w', Some e) \<Rightarrow> (w', 0, Some e)))"

definition publisher_tick :: "int \<Rightarrow> market_quote list result \<Rightarrow> market_quote list result \<Rightarrow> ring_writer \<Rightarrow>
    ring_writer \<times> nat \<times> exn option \<times> exn option" where
  "publisher_tick now okx binance w =
     (case publish_answer now okx w of (w1, n1, e1) \<Rightarrow>
      case publish_answer now binance w1 of (w2, n2, e2) \<Rightarrow> (w2, n1 + n2, e1, e2))"

text \<open>Messages of the public streams: whatever cannot be read is no quote.\<close>

definition present_string :: "'j venue_json \<Rightarrow> 'j \<Rightarrow> string \<Rightarrow> string result" where
  "present_string V j k = v_value V (j_get_string (vj_core V)) j k []"

definition okx_ws_quote :: "'j venue_json \<Rightarrow> int \<Rightarrow> 'j \<Rightarrow> market_quote option result" where
  "okx_ws_quote V now item =
     rbind (present_string V item ''instId'') (\<lambda>smb.
       if smb \<noteq> ''BTC-USDT'' \<and> smb \<noteq> ''ETH-USDT'' then Inr None
       else rbind (present_string V item ''bidPx'') (\<lambda>bid. rbind (present_string V item ''askPx'') (\<lambda>ask.
         if bid = [] \<or> ask = [] \<or> bid = ''0'' \<or> ask = ''0'' then Inr None
         else rbind (case v_find V item ''ts'' of
                       Some v \<Rightarrow> if j_is_string (vj_core V) v then rbind (j_get_string (vj_core V) v) stoll else Inr now
                     | None \<Rightarrow> Inr now) (\<lambda>ts.
              rbind (parse bid) (\<lambda>b. rbind (parse ask) (\<lambda>a.
                Inr (Some \<lparr>mq_venue = Okx, mq_symbol = smb, mq_bid_price = b, mq_ask_price = a, mq_source_time_ms = ts,
                           mq_published_at_ms = now, mq_sequence = 0\<rparr>)))))))"

definition no_quote :: "market_quote option result \<Rightarrow> market_quote option" where
  "no_quote r = (case r of Inl e \<Rightarrow> None | Inr q \<Rightarrow> q)"

definition parse_okx_ws_message :: "'j venue_json \<Rightarrow> int \<Rightarrow> string \<Rightarrow> market_quote option" where
  "parse_okx_ws_message V now text =
     no_quote (rbind (j_parse (vj_core V) text) (\<lambda>msg.
       case first_datum V msg ''data'' of None \<Rightarrow> Inr None | Some item \<Rightarrow> okx_ws_quote V now item))"

definition binance_ws_quote :: "'j venue_json \<Rightarrow> int \<Rightarrow> 'j \<Rightarrow> market_quote option result" where
  "binance_ws_quote V now item =
     rbind (present_string V item ''s'') (\<lambda>raw_symbol.
       let smb = binance_symbol raw_symbol in
       if smb = [] then Inr None
       else rbind (present_string V item ''b'') (\<lambda>bid. rbind (present_string V item ''a'') (\<lambda>ask.
         if bid = [] \<or> ask = [] then Inr None
         else rbind (parse bid) (\<lambda>b. rbind (parse ask) (\<lambda>a.
           Inr (Some \<lparr>mq_venue = Binance, mq_symbol = smb, mq_bid_price = b, mq_ask_price = a, mq_source_time_ms = now,
                      mq_published_at_ms = now, mq_sequence = 0\<rparr>))))))"

definition parse_binance_ws_message :: "'j venue_json \<Rightarrow> int \<Rightarrow> string \<Rightarrow> market_quote option" where
  "parse_binance_ws_message V now text =
     no_quote (rbind (j_parse (vj_core V) text) (\<lambda>msg.
       case v_find V msg ''data'' of
         Some item \<Rightarrow> binance_ws_quote V now item
       | None \<Rightarrow> if v_find V msg ''s'' \<noteq> None then binance_ws_quote V now msg else Inr None))"

text \<open>The message callback of the streams: an exception of the ring leaves it.\<close>

definition publish_quote :: "int \<Rightarrow> market_quote option \<Rightarrow> ring_writer \<Rightarrow> ring_writer result" where
  "publish_quote now quote w = (case quote of None \<Rightarrow> Inr w | Some q \<Rightarrow> publish_one now w q)"

section \<open>The feed of the gateway\<close>

text \<open>Of the reader only its capacity matters between turns. The quotes handed to the book, each with the generation of the
  ring it came from, are a ghost component.\<close>

record feed =
  fd_reader :: "nat option"
  fd_cursor :: md_cursor
  fd_book :: market_data_book
  fd_transport :: string
  fd_running :: bool
  fd_handed :: "(u64 \<times> market_quote) list"

definition new_feed :: "market_data_book \<Rightarrow> int \<Rightarrow> string \<Rightarrow> feed result" where
  "new_feed book poll_interval transport =
     (if poll_interval \<le> 0 then Inl (Invalid_argument ''market-data ring poll interval must be positive'')
      else Inr \<lparr>fd_reader = None, fd_cursor = \<lparr>mc_generation = 0, mc_sequence = 0\<rparr>, fd_book = book, fd_transport = transport,
                fd_running = False, fd_handed = []\<rparr>)"

definition feed_start :: "feed \<Rightarrow> feed" where
  "feed_start f = (if fd_running f then f
     else f\<lparr>fd_running := True, fd_reader := None, fd_cursor := \<lparr>mc_generation = 0, mc_sequence = 0\<rparr>\<rparr>)"

definition feed_stop :: "int \<Rightarrow> feed \<Rightarrow> feed" where
  "feed_stop now f =
     (if \<not> fd_running f then f
      else let st = book_status now (fd_book f)
           in f\<lparr>fd_running := False,
                fd_book := set_ring_status (fd_book f) False (ms_generation st) (ms_last_sequence st)
                  ''market-data ring feed stopped'' (fd_transport f)\<rparr>)"

definition mark_ring :: "bool \<Rightarrow> string \<Rightarrow> feed \<Rightarrow> feed" where
  "mark_ring mapped err f =
     f\<lparr>fd_book := set_ring_status (fd_book f) mapped (mc_generation (fd_cursor f)) (of_nat (mc_sequence (fd_cursor f))) err
        (fd_transport f)\<rparr>"

definition feed_failed :: "exn \<Rightarrow> feed \<Rightarrow> feed" where
  "feed_failed e f = mark_ring False (what e) (f\<lparr>fd_reader := None\<rparr>)"

fun feed_publish_all :: "int \<Rightarrow> market_quote list \<Rightarrow> feed \<Rightarrow> feed \<times> exn option" where
  "feed_publish_all now [] f = (f, None)"
| "feed_publish_all now (q # qs) f =
     (case publish now (fd_book f) q of
        Inl e \<Rightarrow> (f, Some e)
      | Inr book \<Rightarrow> feed_publish_all now qs
          (f\<lparr>fd_book := book, fd_handed := fd_handed f @ [(mc_generation (fd_cursor f), q)]\<rparr>))"

definition announce_generation :: "int \<Rightarrow> feed \<Rightarrow> feed" where
  "announce_generation now f =
     (if mc_generation (fd_cursor f) \<noteq> ms_generation (book_status now (fd_book f))
      then f\<lparr>fd_book := set_ring_status (fd_book f) True (mc_generation (fd_cursor f)) 0 [] (fd_transport f)\<rparr>
      else f)"

text \<open>One pass of the loop: \<open>opened\<close> is the outcome of constructing a reader, \<open>rings\<close> what the loads of the read see.\<close>

definition feed_read :: "md_ring list \<Rightarrow> nat \<Rightarrow> md_cursor \<Rightarrow> ring_reader" where
  "feed_read rings capacity cursor = fold read_turn rings (read_call capacity capacity cursor)"

definition feed_deliver :: "int \<Rightarrow> ring_reader \<Rightarrow> feed \<Rightarrow> feed" where
  "feed_deliver now r f =
     (case rd_point r of
        Threw e \<Rightarrow> feed_failed e f
      | _ \<Rightarrow> (case feed_publish_all now (rd_quotes r) (announce_generation now f) of
                (f', Some e) \<Rightarrow> feed_failed e f'
              | (f', None) \<Rightarrow> mark_ring True [] f'))"

definition feed_turn :: "int \<Rightarrow> nat result \<Rightarrow> md_ring list \<Rightarrow> feed \<Rightarrow> feed" where
  "feed_turn now opened rings f =
     (case (case fd_reader f of None \<Rightarrow> opened | Some capacity \<Rightarrow> Inr capacity) of
        Inl e \<Rightarrow> feed_failed e f
      | Inr capacity \<Rightarrow>
          let r = feed_read rings capacity (fd_cursor f)
          in feed_deliver now r (f\<lparr>fd_reader := Some capacity, fd_cursor := rd_cursor r\<rparr>))"

end
