(* ===== verification/Abex_Md_Feed_Props.thy ===== *)
theory Abex_Md_Feed_Props
  imports Abex_Md_Feed
begin

text \<open>
  From the publisher to the book: the book of a running feed never mixes publishers, and what a publisher put into the
  ring is what lookups in the book return.
\<close>

section \<open>Lookups\<close>

lemma latest_ring_status:
  "latest (set_ring_status book mapped gen sq err tr) v smb =
     (if gen \<noteq> 0 \<and> ms_generation (bk_status book) \<noteq> 0 \<and> gen \<noteq> ms_generation (bk_status book) then None else latest book v smb)"
  if "wf_book book"
proof -
  have "length (bk_quotes book) = 4" using that by (simp add: wf_book_def)
  then show ?thesis
    by (auto simp: latest_def read_slot_def set_ring_status_def clear_slots_def Let_def dest: slot_index_bound split: option.splits)
qed

lemma status_generation [simp]:
  "ms_generation (bk_status (set_ring_status book mapped gen sq err tr)) = gen"
  "ms_generation (book_status now book) = ms_generation (bk_status book)"
  by (simp_all add: set_ring_status_def book_status_def Let_def)

lemma publish_generation: "publish now book q = Inr book' \<Longrightarrow> ms_generation (bk_status book') = ms_generation (bk_status book)"
  by (auto simp: publish_def Let_def split: if_splits option.splits)

text \<open>A lookup after a publication gives what it gave before, or the new quote.\<close>

lemma publish_lookup:
  assumes "wf_book book" "publish now book q = Inr book'" "now \<noteq> 0" "latest book' v smb = Some x"
  shows "latest book v smb = Some x \<or> (\<exists>t. x = q\<lparr>mq_published_at_ms := t\<rparr>)"
proof (cases "(v, smb) = (mq_venue q, mq_symbol q)")
  case True
  with publish_latest [OF assms(1-3), of v smb] assms(4) have
    "latest book v smb = Some x \<or> x = (if mq_published_at_ms q = 0 then q\<lparr>mq_published_at_ms := now\<rparr> else q)"
    by (auto split: option.splits if_splits)
  moreover have "q\<lparr>mq_published_at_ms := mq_published_at_ms q\<rparr> = q" by simp
  ultimately show ?thesis by metis
qed (use publish_latest [OF assms(1-3), of v smb] assms(4) in auto)

section \<open>One generation\<close>

definition of_generation :: "feed \<Rightarrow> bool" where
  "of_generation f \<longleftrightarrow> (\<forall>v smb x. latest (fd_book f) v smb = Some x \<longrightarrow> ms_generation (bk_status (fd_book f)) \<noteq> 0 \<and>
     (\<exists>q t. (ms_generation (bk_status (fd_book f)), q) \<in> set (fd_handed f) \<and> x = q\<lparr>mq_published_at_ms := t\<rparr>))"

definition feed_inv :: "feed \<Rightarrow> bool" where
  "feed_inv f \<longleftrightarrow> wf_book (fd_book f) \<and> of_generation f \<and>
     (fd_running f \<longrightarrow> mc_generation (fd_cursor f) \<in> {0, ms_generation (bk_status (fd_book f))})"

text \<open>A read moves the cursor to another generation only if that is not zero.\<close>

definition cursor_kept :: "md_cursor \<Rightarrow> ring_reader \<Rightarrow> bool" where
  "cursor_kept c r \<longleftrightarrow> mc_generation (rd_cursor r) = mc_generation c \<and> rd_quotes r = [] \<and>
       rd_point r \<in> {Load_generation, Load_latest, Returned} \<or>
     rd_generation r \<noteq> 0 \<and> mc_generation (rd_cursor r) = rd_generation r \<and> rd_point r \<notin> {Load_generation, Load_latest}"

lemma loop_head_kept: "rd_generation r \<noteq> 0 \<Longrightarrow> mc_generation (rd_cursor r) = rd_generation r \<Longrightarrow> cursor_kept c (loop_head r)"
  by (simp add: cursor_kept_def loop_head_def)

lemma read_turn_kept: "cursor_kept c r \<Longrightarrow> cursor_kept c (read_turn g r)"
proof (cases "rd_point r")
  case Load_latest
  assume "cursor_kept c r"
  then show ?thesis using Load_latest
    by (auto simp: read_turn_def begin_scan_def Let_def loop_head_kept) (auto simp: cursor_kept_def)
next
  case (Check_stamp b)
  assume "cursor_kept c r"
  then show ?thesis using Check_stamp
    by (auto simp: read_turn_def skip_record_def accept_record_def cursor_kept_def loop_head_def Let_def split: sum.splits)
qed (auto simp: read_turn_def skip_record_def cursor_kept_def loop_head_def Let_def)

lemma feed_read_kept: "cursor_kept c (feed_read rings capacity c)"
proof -
  have "cursor_kept c r \<Longrightarrow> cursor_kept c (fold read_turn rings r)" for r
    by (induction rings arbitrary: r) (auto intro: read_turn_kept)
  moreover have "cursor_kept c (read_call capacity capacity c)" by (simp add: cursor_kept_def read_call_def)
  ultimately show ?thesis by (simp add: feed_read_def)
qed

text \<open>What marking the ring with the generation of the cursor keeps, when that generation is not zero or not new.\<close>

lemma mark_inv:
  assumes "wf_book book" "of_generation (f\<lparr>fd_book := book\<rparr>)" "g = ms_generation (bk_status book) \<or> g \<noteq> 0"
  shows "wf_book (set_ring_status book mapped g sq err tr)"
    "of_generation (f\<lparr>fd_book := set_ring_status book mapped g sq err tr\<rparr>)"
  using assms latest_ring_status [OF assms(1), of mapped g sq err tr]
  by (auto simp: set_ring_status_wf of_generation_def split: if_splits)

lemma feed_publish_all_inv:
  assumes "wf_book (fd_book f)" "of_generation f" "now \<noteq> 0" "feed_publish_all now qs f = (f', e)"
    "ms_generation (bk_status (fd_book f)) = mc_generation (fd_cursor f)" "qs \<noteq> [] \<longrightarrow> mc_generation (fd_cursor f) \<noteq> 0"
  shows "wf_book (fd_book f') \<and> of_generation f' \<and> fd_cursor f' = fd_cursor f \<and> fd_running f' = fd_running f \<and>
    ms_generation (bk_status (fd_book f')) = mc_generation (fd_cursor f')"
  using assms
proof (induction qs arbitrary: f)
  case (Cons q qs)
  show ?case
  proof (cases "publish now (fd_book f) q")
    case (Inr book)
    let ?f = "f\<lparr>fd_book := book, fd_handed := fd_handed f @ [(mc_generation (fd_cursor f), q)]\<rparr>"
    have gen: "ms_generation (bk_status book) = mc_generation (fd_cursor f)"
      using publish_generation [OF Inr] Cons.prems(5) by simp
    have "of_generation ?f"
      using Cons.prems(2,5,6) publish_lookup [OF Cons.prems(1) Inr Cons.prems(3)] gen by (fastforce simp: of_generation_def)
    moreover have "wf_book book" using publish_wf [OF Cons.prems(1) Inr Cons.prems(3)] .
    ultimately show ?thesis using Cons.IH [of ?f] Cons.prems Inr gen by simp
  qed (use Cons.prems in simp)
qed simp

lemma of_generation_fields [simp]:
  "of_generation (f\<lparr>fd_reader := r\<rparr>) = of_generation f" "of_generation (f\<lparr>fd_cursor := c\<rparr>) = of_generation f"
  "of_generation (f\<lparr>fd_running := b\<rparr>) = of_generation f"
  by (simp_all add: of_generation_def)

text \<open>The end of a turn: marking the ring with the generation of the cursor.\<close>

lemma mark_ring_inv:
  assumes "wf_book (fd_book f)" "of_generation f"
    "mc_generation (fd_cursor f) = ms_generation (bk_status (fd_book f)) \<or> mc_generation (fd_cursor f) \<noteq> 0"
  shows "feed_inv (mark_ring mapped err f)"
  using mark_inv [of "fd_book f" f "mc_generation (fd_cursor f)"] assms by (simp add: feed_inv_def mark_ring_def)

lemma feed_failed_inv:
  assumes "wf_book (fd_book f)" "of_generation f"
    "mc_generation (fd_cursor f) = ms_generation (bk_status (fd_book f)) \<or> mc_generation (fd_cursor f) \<noteq> 0"
  shows "feed_inv (feed_failed e f)"
  unfolding feed_failed_def by (rule mark_ring_inv) (use assms in simp_all)

lemma announce_inv:
  assumes "wf_book (fd_book f)" "of_generation f"
    "mc_generation (fd_cursor f) = ms_generation (bk_status (fd_book f)) \<or> mc_generation (fd_cursor f) \<noteq> 0"
  shows "wf_book (fd_book (announce_generation now f))" "of_generation (announce_generation now f)"
    "ms_generation (bk_status (fd_book (announce_generation now f))) = mc_generation (fd_cursor f)"
    "fd_cursor (announce_generation now f) = fd_cursor f"
  using mark_inv [of "fd_book f" f "mc_generation (fd_cursor f)"] assms by (auto simp: announce_generation_def)

text \<open>A pass after which the book reports no generation although it reported one before: only a feed that was started again can make
  it, by a first pass that finds no ring or an empty one.\<close>

definition forgets_generation :: "feed \<Rightarrow> feed \<Rightarrow> bool" where
  "forgets_generation f f' \<longleftrightarrow> ms_generation (bk_status (fd_book f)) \<noteq> 0 \<and> ms_generation (bk_status (fd_book f')) = 0"

lemma feed_publish_all_cursor: "feed_publish_all now qs f = (f', e) \<Longrightarrow> fd_cursor f' = fd_cursor f"
  by (induction qs arbitrary: f) (auto split: sum.splits)

lemma feed_deliver_generation:
  "ms_generation (bk_status (fd_book (feed_deliver now r f))) = mc_generation (fd_cursor f)"
proof -
  obtain f' e where pub: "feed_publish_all now (rd_quotes r) (announce_generation now f) = (f', e)" by fastforce
  then have "fd_cursor f' = fd_cursor f" using feed_publish_all_cursor by (fastforce simp: announce_generation_def split: if_splits)
  then show ?thesis
    using pub by (auto simp: feed_deliver_def feed_failed_def mark_ring_def split: read_point.split option.split)
qed

lemma feed_turn_inv:
  assumes inv: "feed_inv f" and running: "fd_running f" and now: "now \<noteq> 0"
    and remembers: "\<not> forgets_generation f (feed_turn now opened rings f)"
  shows "feed_inv (feed_turn now opened rings f)"
proof (cases "case fd_reader f of None \<Rightarrow> opened | Some capacity \<Rightarrow> Inr capacity")
  case (Inl e)
  then have turn: "feed_turn now opened rings f = feed_failed e f" by (simp add: feed_turn_def)
  then have "mc_generation (fd_cursor f) = ms_generation (bk_status (fd_book f)) \<or> mc_generation (fd_cursor f) \<noteq> 0"
    using remembers by (auto simp: forgets_generation_def feed_failed_def mark_ring_def)
  then show ?thesis using inv feed_failed_inv unfolding turn by (simp add: feed_inv_def)
next
  case (Inr capacity)
  define r where "r = feed_read rings capacity (fd_cursor f)"
  let ?f = "f\<lparr>fd_reader := Some capacity, fd_cursor := rd_cursor r\<rparr>"
  have turn: "feed_turn now opened rings f = feed_deliver now r ?f" using Inr by (simp add: feed_turn_def r_def Let_def)
  have kept: "cursor_kept (fd_cursor f) r" unfolding r_def by (rule feed_read_kept)
  have "mc_generation (fd_cursor ?f) = ms_generation (bk_status (fd_book ?f)) \<or> mc_generation (fd_cursor ?f) \<noteq> 0"
    using remembers feed_deliver_generation [of now r ?f] by (auto simp: turn forgets_generation_def)
  then have ok: "wf_book (fd_book ?f)" "of_generation ?f"
    "mc_generation (fd_cursor ?f) = ms_generation (bk_status (fd_book ?f)) \<or> mc_generation (fd_cursor ?f) \<noteq> 0"
    "rd_quotes r \<noteq> [] \<longrightarrow> mc_generation (fd_cursor ?f) \<noteq> 0"
    using inv kept by (auto simp: feed_inv_def cursor_kept_def)
  obtain f' e where pub: "feed_publish_all now (rd_quotes r) (announce_generation now ?f) = (f', e)" by fastforce
  note a = announce_inv [OF ok(1-3), of now]
  have f': "wf_book (fd_book f')" "of_generation f'" "ms_generation (bk_status (fd_book f')) = mc_generation (fd_cursor f')"
    using feed_publish_all_inv [OF a(1,2) now pub] a(3,4) ok(4) by auto
  have "feed_inv (feed_deliver now r ?f)"
    using feed_failed_inv [OF ok(1-3)] feed_failed_inv [OF f'(1,2)] mark_ring_inv [OF f'(1,2)] f'(3) pub
    by (auto simp: feed_deliver_def split: read_point.split option.split)
  then show ?thesis unfolding turn .
qed

lemma feed_stop_inv: "feed_inv f \<Longrightarrow> feed_inv (feed_stop now f)"
  using mark_inv [of "fd_book f" f "ms_generation (bk_status (fd_book f))"]
  by (auto simp: feed_inv_def feed_stop_def Let_def) (auto simp: of_generation_def)

lemma feed_start_inv: "feed_inv f \<Longrightarrow> feed_inv (feed_start f)"
  by (auto simp: feed_inv_def feed_start_def)

text \<open>Starts, passes and stops in any order, with the flag that no pass forgot the generation of the quotes in the book.\<close>

inductive feed_step :: "feed \<times> bool \<Rightarrow> feed \<times> bool \<Rightarrow> bool" where
  start: "feed_step (f, c) (feed_start f, c)"
| turn: "fd_running f \<Longrightarrow> now \<noteq> 0 \<Longrightarrow> f' = feed_turn now opened rings f \<Longrightarrow> feed_step (f, c) (f', c \<and> \<not> forgets_generation f f')"
| stop: "feed_step (f, c) (feed_stop now f, c)"

lemma feed_inv_step: "(snd s \<longrightarrow> feed_inv (fst s)) \<Longrightarrow> feed_step s s' \<Longrightarrow> (snd s' \<longrightarrow> feed_inv (fst s'))"
  by (auto elim!: feed_step.cases intro: feed_turn_inv feed_stop_inv feed_start_inv)

interpretation feed_run: invariant_system feed_step "\<lambda>s. snd s \<longrightarrow> feed_inv (fst s)"
  by unfold_locales (rule feed_inv_step)

lemma new_feed_inv:
  assumes "new_book age = Inr book" "new_feed book interval transport = Inr f"
  shows "feed_inv f"
proof -
  have "latest book v smb = None" for v smb
    using assms(1) by (auto simp: new_book_def latest_def read_slot_def empty_slot_def Let_def nth_Cons' dest: slot_index_bound
        split: if_splits option.splits)
  moreover have "ms_generation (bk_status book) = 0" using assms(1) by (auto simp: new_book_def split: if_splits)
  ultimately show ?thesis using assms new_book_wf
    by (auto simp: new_feed_def feed_inv_def of_generation_def split: if_splits)
qed

lemmas started_feed_inv = feed_start_inv [OF new_feed_inv]

section \<open>From the ring to the book\<close>

definition newest_match :: "venue \<Rightarrow> string \<Rightarrow> market_quote list \<Rightarrow> market_quote option" where
  "newest_match v smb qs =
     (let xs = filter (\<lambda>q. mq_venue q = v \<and> mq_symbol q = smb) qs in if xs = [] then None else Some (last xs))"

lemma newest_match_snoc:
  "newest_match v smb (qs @ [q]) = (if mq_venue q = v \<and> mq_symbol q = smb then Some q else newest_match v smb qs)"
  by (auto simp: newest_match_def Let_def)

lemma newest_match_in: "newest_match v smb qs = Some q \<Longrightarrow> q \<in> set qs"
  using last_in_set [of "filter (\<lambda>q. mq_venue q = v \<and> mq_symbol q = smb) qs"]
  by (auto simp: newest_match_def Let_def split: if_splits)

lemma feed_publish_all_append:
  "feed_publish_all now (qs @ qs') f = (case feed_publish_all now qs f of (f', None) \<Rightarrow> feed_publish_all now qs' f' | (f', Some e) \<Rightarrow> (f', Some e))"
  by (induction qs arbitrary: f) (auto split: sum.splits)

definition bookable :: "market_quote \<Rightarrow> bool" where
  "bookable q \<longleftrightarrow> valid_quote q \<and> mq_symbol q \<in> {''BTC-USDT'', ''ETH-USDT''} \<and> mq_published_at_ms q \<noteq> 0"

lemma publish_bookable: "bookable q \<Longrightarrow> \<exists>book'. publish now book q = Inr book'"
  by (auto simp: bookable_def publish_def slot_index_def Let_def)

lemma feed_publish_all_newest:
  assumes "wf_book (fd_book f)" "\<forall>v smb. latest (fd_book f) v smb = None" "now \<noteq> 0"
    "\<forall>q \<in> set qs. bookable q" "sorted_wrt (\<lambda>p q. mq_sequence p < mq_sequence q) qs"
  shows "\<exists>f'. feed_publish_all now qs f = (f', None) \<and> wf_book (fd_book f') \<and> fd_cursor f' = fd_cursor f \<and> fd_transport f' = fd_transport f \<and>
    ms_generation (bk_status (fd_book f')) = ms_generation (bk_status (fd_book f)) \<and>
    (\<forall>v smb. latest (fd_book f') v smb = newest_match v smb qs)"
  using assms(4,5)
proof (induction qs rule: rev_induct)
  case (snoc q qs)
  then obtain f1 where f1: "feed_publish_all now qs f = (f1, None)" "wf_book (fd_book f1)" "fd_cursor f1 = fd_cursor f"
    "fd_transport f1 = fd_transport f" "ms_generation (bk_status (fd_book f1)) = ms_generation (bk_status (fd_book f))"
    "\<And>v smb. latest (fd_book f1) v smb = newest_match v smb qs"
    by (auto simp: sorted_wrt_append)
  obtain book where book: "publish now (fd_book f1) q = Inr book" using publish_bookable snoc.prems(1) by (meson in_set_conv_decomp)
  have q: "mq_published_at_ms q \<noteq> 0" using snoc.prems(1) by (simp add: bookable_def)
  have old: "\<not> mq_sequence x > mq_sequence q" if "newest_match v smb qs = Some x" for v smb x
    using newest_match_in [OF that] snoc.prems(2) by (auto simp: sorted_wrt_append)
  have "latest book v smb = newest_match v smb (qs @ [q])" for v smb
    using publish_latest [OF f1(2) book assms(3), of v smb] q f1(6) old
    by (auto simp: newest_match_snoc split: option.splits)
  then show ?case
    using f1 book publish_wf [OF f1(2) book assms(3)] publish_generation [OF book] by (simp add: feed_publish_all_append)
qed (use assms in \<open>simp add: newest_match_def\<close>)

text \<open>The layout in the header is what the publisher wrote, whatever it published.\<close>

abbreviation header_layout :: "ring_header \<Rightarrow> string \<times> nat \<times> nat \<times> nat" where
  "header_layout h \<equiv> (rh_magic h, rh_version h, rh_record_size h, rh_capacity h)"

lemma stores_layout: "header_layout (mr_header (fold (slot_store i) sts g)) = header_layout (mr_header g)"
  by (induction sts arbitrary: g) (auto simp: slot_store_def split: ring_store.split)

lemma publish_layout: "ring_publish w qs = (w', e) \<Longrightarrow> header_layout (mr_header (rw_ring w')) = header_layout (mr_header (rw_ring w))"
proof (induction qs arbitrary: w)
  case (Cons x qs)
  obtain now q where x: "x = (now, q)" by (cases x)
  have "publish_one now w q = Inr w1 \<Longrightarrow> header_layout (mr_header (rw_ring w1)) = header_layout (mr_header (rw_ring w))" for w1
    using stores_layout by (auto simp: publish_one_def rbind_eq_Inr_iff Let_def simp del: fold.simps)
  then show ?case using Cons x by (auto split: sum.splits)
qed auto

lemma word_of_nat_less: "m < n \<Longrightarrow> n < 2 ^ 64 \<Longrightarrow> (of_nat m :: u64) < of_nat n"
  by (simp add: word_less_nat_alt unat_of_nat take_bit_nat_eq_self)

lemma fold_same: "fold f (replicate n x) r = (f x ^^ n) r"
  by (induction n arbitrary: r) (simp_all add: funpow_swap1)

text \<open>The first pass of a started feed over a read that returned.\<close>

lemma feed_turn_newest:
  assumes "new_book age = Inr book" "new_feed book interval transport = Inr f0" "now \<noteq> 0"
    and r: "feed_read rings capacity start_cursor = r" "rd_point r = Returned" "mc_generation (rd_cursor r) \<noteq> 0"
    and qs: "\<forall>q \<in> set (rd_quotes r). bookable q" "sorted_wrt (\<lambda>p q. mq_sequence p < mq_sequence q) (rd_quotes r)"
  shows "fd_reader (feed_turn now (Inr capacity) rings (feed_start f0)) = Some capacity"
    "latest (fd_book (feed_turn now (Inr capacity) rings (feed_start f0))) v smb = newest_match v smb (rd_quotes r)"
proof -
  let ?f = "announce_generation now ((feed_start f0)\<lparr>fd_reader := Some capacity, fd_cursor := rd_cursor r\<rparr>)"
  have empty: "wf_book book" "\<forall>v smb. latest book v smb = None" "ms_generation (bk_status book) = 0"
    "fd_book f0 = book" "\<not> fd_running f0"
    using assms(1,2) new_book_wf started_feed_inv [OF assms(1,2)]
    by (auto simp: new_book_def new_feed_def feed_inv_def of_generation_def feed_start_def split: if_splits)
  have f: "wf_book (fd_book ?f)" "\<forall>v smb. latest (fd_book ?f) v smb = None"
      "ms_generation (bk_status (fd_book ?f)) = mc_generation (rd_cursor r)"
    using empty r(3) latest_ring_status [OF empty(1)]
    by (auto simp: announce_generation_def feed_start_def set_ring_status_wf)
  from feed_publish_all_newest [OF f(1,2) assms(3) qs] f(3) obtain f' where f': "feed_publish_all now (rd_quotes r) ?f = (f', None)"
    "wf_book (fd_book f')" "fd_cursor f' = fd_cursor ?f" "ms_generation (bk_status (fd_book f')) = mc_generation (rd_cursor r)"
    "\<forall>v smb. latest (fd_book f') v smb = newest_match v smb (rd_quotes r)" by auto
  have reader: "feed_publish_all now xs h = (h', x) \<Longrightarrow> fd_reader h' = fd_reader h" for xs h h' x
    by (induction xs arbitrary: h) (auto split: sum.splits)
  have turn: "feed_turn now (Inr capacity) rings (feed_start f0) = mark_ring True [] f'"
    using r f'(1) empty by (simp add: feed_turn_def feed_start_def feed_deliver_def Let_def start_cursor_def)
  show "fd_reader (feed_turn now (Inr capacity) rings (feed_start f0)) = Some capacity"
    unfolding turn using reader [OF f'(1)] by (simp add: mark_ring_def announce_generation_def)
  show "latest (fd_book (feed_turn now (Inr capacity) rings (feed_start f0))) v smb = newest_match v smb (rd_quotes r)"
    unfolding turn using f' latest_ring_status [OF f'(2)] by (simp add: mark_ring_def announce_generation_def)
qed

text \<open>A ring with one quote.\<close>

lemma sample_ring:
  obtains w0 w where "open_ring_writer ''ring'' 4 (Inr ()) None None None None 6 2 = Inr w0"
    "rh_generation (mr_header (rw_ring w0)) = 4" "ring_publish w0 [(7, sample_quote)] = (w, None)"
    "feed_read (replicate (turn_bound 4) (rw_ring w)) 4 start_cursor = read_available (rw_ring w) 4 4 start_cursor"
    "rd_point (read_available (rw_ring w) 4 4 start_cursor) = Returned"
    "mc_generation (rd_cursor (read_available (rw_ring w) 4 4 start_cursor)) = 4"
    "rd_quotes (read_available (rw_ring w) 4 4 start_cursor) = [sample_quote\<lparr>mq_published_at_ms := 7, mq_sequence := 1\<rparr>]"
proof -
  obtain w0 where w0: "open_ring_writer ''ring'' 4 (Inr ()) None None None None 6 2 = Inr w0"
    "rh_generation (mr_header (rw_ring w0)) = 4"
    by (simp add: open_ring_writer_def mapping_size_def system_call_def fresh_ring_def)
  with md_ring_roundtrip [OF w0, of "[(7, sample_quote)]" 4 0 start_cursor] sample_quote_ok that [OF w0] show ?thesis
    by (auto simp: start_cursor_def sample_quote_def Let_def feed_read_def read_available_def fold_same)
qed

definition sample_feed :: feed where
  "sample_feed = \<lparr>fd_reader = None, fd_cursor = start_cursor, fd_book = sample_book, fd_transport = [], fd_running = False, fd_handed = []\<rparr>"

lemma sample_feed_new: "new_book 5000 = Inr sample_book" "new_feed sample_book 50 [] = Inr sample_feed"
  by (simp_all add: new_book_def sample_book_def new_feed_def sample_feed_def start_cursor_def)

lemma sample_feed_turn:
  assumes "feed_read rings 4 start_cursor = r" "rd_point r = Returned" "mc_generation (rd_cursor r) = 4"
    "rd_quotes r = [sample_quote\<lparr>mq_published_at_ms := 7, mq_sequence := 1\<rparr>]"
  shows "latest (fd_book (feed_turn 9 (Inr 4) rings (feed_start sample_feed))) Binance ''ETH-USDT'' =
    Some (sample_quote\<lparr>mq_published_at_ms := 7, mq_sequence := 1\<rparr>)"
proof -
  have "bookable (sample_quote\<lparr>mq_published_at_ms := 7, mq_sequence := 1\<rparr>)"
    by (simp add: bookable_def valid_quote_def sample_quote_def is_positive_def le_decimal_iff)
  with feed_turn_newest(2) [OF sample_feed_new, of 9 rings 4 r] assms show ?thesis
    by (simp add: newest_match_def sample_quote_def)
qed

section \<open>Where the code falls short\<close>

text \<open>A ticker of the stream whose bid is above its ask passes the parser; the exception of the ring then leaves the message
  callback, which nothing catches.\<close>

definition crossed_message :: json_tree where
  "crossed_message = JObject [(''data'', JObject [([], JObject
     [(''instId'', JString ''BTC-USDT''), (''bidPx'', JString ''0.5''), (''askPx'', JString ''0.25'')])])]"

definition reading :: "json_tree \<Rightarrow> json_tree venue_json" where
  "reading j = tree_venue\<lparr>vj_core := tree_json (\<lambda>_. Inr j)\<rparr>"

lemma crossed_parse: "parse ''0.25'' = Inr (Decimal 25000000)"
  by code_simp

lemma crossed_ticker_escapes:
  "publish_quote 7 (parse_okx_ws_message (reading crossed_message) 7 text) w = Inl (Invalid_argument ''cannot publish invalid quote'')"
  by (simp add: parse_okx_ws_message_def reading_def crossed_message_def tree_venue_def tree_json_def first_datum_def okx_ws_quote_def
      present_string_def v_value_def j_value_def sample_numbers crossed_parse no_quote_def publish_quote_def publish_one_def
      publish_check_def valid_quote_def is_positive_def le_decimal_iff)

text \<open>The answer of an endpoint is checked by the number of quotes: one symbol twice passes.\<close>

definition doubled_answer :: json_tree where
  "doubled_answer = (let item = JObject [(''symbol'', JString ''BTCUSDT''), (''bidPrice'', JString ''0.25''), (''askPrice'', JString ''0.5'')]
     in JObject [([], item), ([], item)])"

lemma doubled_symbol_passes:
  "\<exists>qs. parse_binance_tickers (reading doubled_answer) 7 body = Inr qs \<and> map mq_symbol qs = [''BTC-USDT'', ''BTC-USDT'']"
  by (simp add: parse_binance_tickers_def reading_def doubled_answer_def tree_venue_def tree_json_def binance_ticker_def
      v_value_def j_value_def binance_symbol_def decimal_at_def j_field_def j_at_def sample_numbers crossed_parse
      canonical_symbols_def Let_def)

text \<open>A feed that is stopped, started again and finds no ring at first forgets the generation of the quotes in the book; the quotes
  of the next publisher then do not replace them.\<close>

lemma restarted_feed_keeps_quotes:
  assumes "wf_book (fd_book f)" "\<not> fd_running f"
  shows "latest (fd_book (announce_generation later ((feed_turn now (Inl e) rings (feed_start f))\<lparr>fd_cursor := c\<rparr>))) v smb =
    latest (fd_book f) v smb"
  using assms latest_ring_status [OF assms(1)] latest_ring_status [OF set_ring_status_wf [OF assms(1)]]
  by (simp add: announce_generation_def feed_turn_def feed_start_def feed_failed_def mark_ring_def)

section \<open>Properties\<close>

text \<open>C19. The book never mixes publishers: in every sequence of starts, stops and passes of the feed, whatever its loads of the ring see,
  as long as no pass of a restarted feed made the book forget its generation (its first pass found no ring, or an empty one), every
  quote the book returns was read from the ring under the generation the book reports, so no quote of an earlier publisher
  survives the start of a new one.\<close>

theorem feed_one_generation:
  assumes "new_book age = Inr book" and "new_feed book interval transport = Inr f0"
    and "feed_step\<^sup>*\<^sup>* (f0, True) (f, True)" and "latest (fd_book f) v smb = Some x"
  shows "\<exists>q t. (ms_generation (bk_status (fd_book f)), q) \<in> set (fd_handed f) \<and> x = q\<lparr>mq_published_at_ms := t\<rparr> \<and>
    ms_generation (bk_status (fd_book f)) \<noteq> 0"
  using feed_run.reachable_inv [OF assms(3)] new_feed_inv [OF assms(1,2)] assms(4)
  by (auto simp: feed_inv_def of_generation_def)

theorem feed_one_generation_witness:
  "\<exists>f q t. feed_step\<^sup>*\<^sup>* (sample_feed, True) (f, True) \<and> (ms_generation (bk_status (fd_book f)), q) \<in> set (fd_handed f) \<and>
     latest (fd_book f) Binance ''ETH-USDT'' = Some (q\<lparr>mq_published_at_ms := t\<rparr>)"
proof -
  obtain rings where x: "latest (fd_book (feed_turn 9 (Inr 4) rings (feed_start sample_feed))) Binance ''ETH-USDT'' =
      Some (sample_quote\<lparr>mq_published_at_ms := 7, mq_sequence := 1\<rparr>)"
    by (rule sample_ring) (use sample_feed_turn in blast)
  let ?f = "feed_turn 9 (Inr 4) rings (feed_start sample_feed)"
  have "feed_step (feed_start sample_feed, True) (?f, True \<and> \<not> forgets_generation (feed_start sample_feed) ?f)"
    by (rule turn [OF _ _ refl]) (simp_all add: feed_start_def sample_feed_def)
  moreover have "\<not> forgets_generation (feed_start sample_feed) ?f"
    by (simp add: forgets_generation_def feed_start_def sample_feed_def sample_book_def)
  ultimately have "feed_step\<^sup>*\<^sup>* (sample_feed, True) (?f, True)"
    using start [of sample_feed True] by (simp add: rtranclp.rtrancl_into_rtrancl r_into_rtranclp)
  with feed_one_generation [OF sample_feed_new this x] x show ?thesis by metis
qed

text \<open>C20. What the publisher puts into the ring is what the gateway trades on: after valid quotes of configured symbols were published to a newly created ring and a new
  feed made its first pass over the ring at rest, the book returns for every venue and symbol the newest quote among the last
  \<open>capacity\<close> published, which are those the ring still holds, and nothing where there is none.\<close>

theorem quotes_reach_book:
  assumes "open_ring_writer path capacity dirs None None None None clock pid = Inr w0"
    and "rh_generation (mr_header (rw_ring w0)) \<noteq> 0" and "length qs < 2 ^ 64"
    and "\<forall>(t, q) \<in> set qs. valid_quote q \<and> supported_symbol (mq_symbol q) \<and> t \<noteq> 0"
    and "new_book age = Inr book" and "new_feed book interval transport = Inr f0" and "now \<noteq> 0"
    and "ring_publish w0 qs = (w, e)"
    and "opened = open_ring_reader path (Inr (header_size + capacity * record_size)) None None (mr_header (rw_ring w))"
    and "f = feed_turn now opened (replicate (turn_bound capacity) (rw_ring w)) (feed_start f0)"
  shows "e = None \<and> fd_reader f = Some capacity \<and>
    latest (fd_book f) v smb = newest_match v smb (map (\<lambda>n. case qs ! (n - 1) of (t, q) \<Rightarrow>
        q\<lparr>mq_published_at_ms := (if mq_published_at_ms q = 0 then t else mq_published_at_ms q), mq_sequence := of_nat n\<rparr>)
      [max 1 (length qs + 1 - capacity)..<length qs + 1])"
proof -
  let ?g = "rh_generation (mr_header (rw_ring w0))" and ?c = start_cursor
  let ?sent = "\<lambda>n. case qs ! (n - 1) of (t, q) \<Rightarrow>
      q\<lparr>mq_published_at_ms := (if mq_published_at_ms q = 0 then t else mq_published_at_ms q), mq_sequence := of_nat n\<rparr>"
  let ?qs = "map ?sent [max 1 (length qs + 1 - capacity)..<length qs + 1]"
  have "publish_check q = Inr () \<and> CHR 0x00 \<notin> set (mq_symbol q)" if "(t, q) \<in> set qs" for t q
    using assms(4) that by (fastforce simp: publish_check_def supported_symbol_def canonical_symbols_def symbol_capacity_def)
  then have ok: "\<forall>(t, q) \<in> set qs. publish_check q = Inr () \<and> CHR 0x00 \<notin> set (mq_symbol q)" by blast
  define r where "r = read_available (rw_ring w) capacity capacity ?c"
  have r: "e = None" "rd_point r = Returned" "rd_cursor r = \<lparr>mc_generation = ?g, mc_sequence = length qs\<rparr>" "rd_quotes r = ?qs"
    using md_ring_roundtrip [OF assms(1) refl assms(2) ok order_refl, of 0 ?c] assms(2,8) by (auto simp: r_def Let_def start_cursor_def)
  have layout: "header_layout (mr_header (rw_ring w)) = (ring_magic, ring_version, record_size, capacity)"
      "0 < capacity" "capacity \<le> 2 ^ 32 - 1"
    using publish_layout [OF assms(8)] assms(1)
    by (auto simp: open_ring_writer_def mapping_size_def fresh_ring_def rbind_eq_Inr_iff split: if_splits)
  then have opened: "opened = Inr capacity"
    using assms(9) by (simp add: open_ring_reader_def existing_file_size_def system_call_def mapping_size_def)
  have read: "feed_read (replicate (turn_bound capacity) (rw_ring w)) capacity ?c = r"
    by (simp add: feed_read_def r_def read_available_def fold_same)
  have books: "bookable q" if mem: "q \<in> set ?qs" for q
  proof -
    from mem obtain n where n: "n \<in> {max 1 (length qs + 1 - capacity)..<length qs + 1}" "q = ?sent n"
      unfolding set_map set_upt by blast
    then have "n - 1 < length qs" by auto
    then have "qs ! (n - 1) \<in> set qs" by (rule nth_mem)
    with assms(4) n show ?thesis
      by (fastforce simp: bookable_def valid_quote_def supported_symbol_def canonical_symbols_def split: prod.splits)
  qed
  have sorted: "sorted_wrt (\<lambda>p q. mq_sequence p < mq_sequence q) ?qs"
    unfolding sorted_wrt_map by (rule sorted_wrt_mono_rel [OF _ sorted_wrt_upt])
      (use assms(3) in \<open>auto split: prod.splits intro!: word_of_nat_less\<close>)
  show ?thesis
    using feed_turn_newest [OF assms(5,6,7) read] r books sorted assms(2,10) opened by (simp add: start_cursor_def)
qed

theorem quotes_reach_book_witness:
  "\<exists>w0 w. open_ring_writer ''ring'' 4 (Inr ()) None None None None 6 2 = Inr w0 \<and> ring_publish w0 [(7, sample_quote)] = (w, None) \<and>
     latest (fd_book (feed_turn 9 (open_ring_reader ''ring'' (Inr (header_size + 4 * record_size)) None None (mr_header (rw_ring w)))
       (replicate (turn_bound 4) (rw_ring w)) (feed_start sample_feed))) Binance ''ETH-USDT'' =
     Some (sample_quote\<lparr>mq_published_at_ms := 7, mq_sequence := 1\<rparr>)"
proof -
  obtain w0 w where w: "open_ring_writer ''ring'' 4 (Inr ()) None None None None 6 2 = Inr w0"
    "rh_generation (mr_header (rw_ring w0)) = 4" "ring_publish w0 [(7, sample_quote)] = (w, None)" by (rule sample_ring)
  have ok: "\<forall>(t, q) \<in> set [(7 :: int, sample_quote)]. valid_quote q \<and> supported_symbol (mq_symbol q) \<and> t \<noteq> 0"
    by (simp add: valid_quote_def sample_quote_def is_positive_def le_decimal_iff supported_symbol_def canonical_symbols_def)
  from quotes_reach_book [OF w(1) _ _ ok sample_feed_new _ w(3) refl refl, of 9 Binance "''ETH-USDT''"] w show ?thesis
    by (simp add: newest_match_def sample_quote_def)
qed

end
