(* ===== verification/Abex_WebSocket.thy ===== *)
theory Abex_WebSocket
  imports Abex_Prelude Abex_Transitions
begin

text \<open>
  The WebSocket client that reconnects (\<open>src/infrastructure/reconnecting_websocket.cpp\<close>,
  \<open>include/abex/infrastructure/application_heartbeat.hpp\<close>).

  All handlers run on one thread; a step of the model is one handler, or one access of another thread to what is
  shared with it. Streams are numbered. Started operations are kept until they complete, with any outcome: a stream
  that was closed may still report a result. What asio promises is in the guards: posted handlers run in the order
  they were posted, none runs after \<open>stop\<close> of the context, and closing a stream completes its operations, so that
  they have run when the reconnect timer fires. Callbacks and network calls are entries of a log.
\<close>

section \<open>Addresses\<close>

record websocket_url =
  wu_host :: string
  wu_port :: string
  wu_target :: string

text \<open>\<open>rfind\<close> with the texts before and after.\<close>

fun split_last :: "char \<Rightarrow> string \<Rightarrow> (string \<times> string) option" where
  "split_last c [] = None"
| "split_last c (x # xs) =
     (case split_last c xs of
        Some (a, b) \<Rightarrow> Some (x # a, b)
      | None \<Rightarrow> if x = c then Some ([], xs) else None)"

definition websocket_authority :: "string \<Rightarrow> string \<Rightarrow> websocket_url result" where
  "websocket_authority authority target =
     (let parsed = (case split_last (CHR '':'') authority of
          Some (host, port) \<Rightarrow> \<lparr>wu_host = host, wu_port = port, wu_target = target\<rparr>
        | None \<Rightarrow> \<lparr>wu_host = authority, wu_port = ''443'', wu_target = target\<rparr>)
      in if wu_host parsed = [] \<or> wu_port parsed = [] then Inl (Invalid_argument ''invalid WebSocket URL authority'')
         else Inr parsed)"

definition parse_url :: "string \<Rightarrow> websocket_url result" where
  "parse_url url =
     (if \<not> starts_with url ''wss://'' then Inl (Invalid_argument ''only wss:// URLs are supported'')
      else let rest = drop 6 url;
               authority = takeWhile (\<lambda>c. c \<noteq> CHR ''/'') rest;
               target = (if CHR ''/'' \<in> set rest then dropWhile (\<lambda>c. c \<noteq> CHR ''/'') rest else ''/'')
           in if authority = [] then Inl (Invalid_argument ''WebSocket URL has no host'')
              else websocket_authority authority target)"

definition host_header :: "websocket_url \<Rightarrow> string" where
  "host_header u = (if wu_port u = ''443'' then wu_host u else wu_host u @ '':'' @ wu_port u)"

section \<open>State\<close>

record ws_config =
  wc_url :: string
  wc_initial_reconnect_delay :: int
  wc_maximum_reconnect_delay :: int
  wc_heartbeat_request :: string
  wc_heartbeat_response :: string
  wc_heartbeat_idle :: int
  wc_heartbeat_timeout :: int
  wc_maximum_outbound_messages :: nat

record outbound_message =
  om_payload :: string
  om_heartbeat :: bool
  om_id :: nat

text \<open>\<open>om_id\<close> is a ghost: the messages of \<open>send\<close> are numbered as they are posted.\<close>

datatype posted = Connect | Stop | Send outbound_message

datatype operation =
    Resolve
  | Tcp_connect nat
  | Tls_handshake nat
  | Ws_handshake nat
  | Read nat
  | Write nat outbound_message
  | Heartbeat_wait nat
  | Reconnect_wait int

datatype log_entry =
    Opened
  | Message string
  | Connection bool string
  | Write_started nat outbound_message

record websocket =
  ws_config :: ws_config
  ws_socket :: "nat option"
  ws_next_socket :: nat
  ws_outbound :: "outbound_message list"
  ws_outbound_count :: nat
  ws_write_in_progress :: bool
  ws_awaiting_response :: bool
  ws_reconnect_scheduled :: bool
  ws_reconnect_delay :: int
  ws_running :: bool
  ws_stopping :: bool
  ws_connected :: bool
  ws_io_stopped :: bool
  ws_posted :: "posted list"
  ws_operations :: "operation list"
  ws_reserved :: nat
  ws_next_id :: nat
  ws_log :: "log_entry list"

definition new_websocket :: "ws_config \<Rightarrow> websocket result" where
  "new_websocket c =
     rbind (parse_url (wc_url c)) (\<lambda>_.
       if wc_heartbeat_request c \<noteq> [] \<and>
          (wc_heartbeat_response c = [] \<or> wc_heartbeat_idle c \<le> 0 \<or> wc_heartbeat_timeout c \<le> 0)
       then Inl (Invalid_argument ''application heartbeat requires a response and positive idle/timeout intervals'')
       else if wc_maximum_outbound_messages c = 0
       then Inl (Invalid_argument ''WebSocket outbound capacity must be positive'')
       else Inr \<lparr>ws_config = c, ws_socket = None, ws_next_socket = 0, ws_outbound = [], ws_outbound_count = 0,
                 ws_write_in_progress = False, ws_awaiting_response = False, ws_reconnect_scheduled = False,
                 ws_reconnect_delay = wc_initial_reconnect_delay c, ws_running = False, ws_stopping = False,
                 ws_connected = False, ws_io_stopped = False, ws_posted = [], ws_operations = [], ws_reserved = 0,
                 ws_next_id = 0, ws_log = []\<rparr>)"

section \<open>Heartbeats\<close>

datatype heartbeat_timer_action = HeartbeatSend | HeartbeatTimeout

definition timer_elapsed :: "bool \<Rightarrow> heartbeat_timer_action" where
  "timer_elapsed awaiting_response = (if awaiting_response then HeartbeatTimeout else HeartbeatSend)"

text \<open>\<open>observe\<close>: whether the message is the response, and what is awaited afterwards.\<close>

definition observe_heartbeat :: "bool \<Rightarrow> string \<Rightarrow> string \<Rightarrow> bool \<times> bool" where
  "observe_heartbeat awaiting_response message expected_response =
     (if message \<noteq> expected_response then (False, awaiting_response) else (True, False))"

definition heartbeat_enabled :: "websocket \<Rightarrow> bool" where
  "heartbeat_enabled s \<longleftrightarrow> wc_heartbeat_request (ws_config s) \<noteq> []"

section \<open>Handlers\<close>

definition log_event :: "log_entry \<Rightarrow> websocket \<Rightarrow> websocket" where
  "log_event e s = s\<lparr>ws_log := ws_log s @ [e]\<rparr>"

definition begin_operation :: "operation \<Rightarrow> websocket \<Rightarrow> websocket" where
  "begin_operation x s = s\<lparr>ws_operations := ws_operations s @ [x]\<rparr>"

definition set_connected :: "bool \<Rightarrow> string \<Rightarrow> websocket \<Rightarrow> websocket" where
  "set_connected v reason s =
     (let s1 = s\<lparr>ws_connected := v\<rparr> in if ws_connected s \<noteq> v then log_event (Connection v reason) s1 else s1)"

definition ws_connect :: "websocket \<Rightarrow> websocket" where
  "ws_connect s = (if ws_stopping s then s else begin_operation Resolve (s\<lparr>ws_reconnect_scheduled := False\<rparr>))"

definition fail_message :: "(nat \<times> string) option \<Rightarrow> string \<Rightarrow> string \<Rightarrow> string" where
  "fail_message closed operation err =
     (case closed of
        Some (code, reason) \<Rightarrow>
          ''WebSocket peer closed (code='' @ nat_to_string code @ (if reason = [] then [] else '', reason='' @ reason) @
          ''); reconnecting''
      | None \<Rightarrow> operation @ '': '' @ err)"

definition ws_fail :: "nat option \<Rightarrow> string \<Rightarrow> websocket \<Rightarrow> websocket" where
  "ws_fail socket message s =
     (if ws_stopping s then s
      else if socket \<noteq> None \<and> ws_socket s \<noteq> None \<and> socket \<noteq> ws_socket s then s
      else if ws_reconnect_scheduled s then s
      else
        let s1 = s\<lparr>ws_reconnect_scheduled := True, ws_write_in_progress := False, ws_awaiting_response := False,
                   ws_outbound_count := ws_outbound_count s - length (ws_outbound s), ws_outbound := []\<rparr>;
            s2 = (set_connected False message s1)\<lparr>ws_socket := None\<rparr>
        in begin_operation (Reconnect_wait (ws_reconnect_delay s))
             (s2\<lparr>ws_reconnect_delay := min (wc_maximum_reconnect_delay (ws_config s)) (ws_reconnect_delay s * 2)\<rparr>))"

definition arm_heartbeat :: "nat \<Rightarrow> websocket \<Rightarrow> websocket" where
  "arm_heartbeat socket s =
     (if \<not> heartbeat_enabled s \<or> ws_socket s \<noteq> Some socket \<or> \<not> ws_connected s then s
      else begin_operation (Heartbeat_wait socket) s)"

definition write_next :: "websocket \<Rightarrow> websocket" where
  "write_next s =
     (case (ws_socket s, ws_outbound s) of
        (Some n, m # _) \<Rightarrow>
          if ws_connected s
          then begin_operation (Write n m) (log_event (Write_started n m) (s\<lparr>ws_write_in_progress := True\<rparr>))
          else s
      | _ \<Rightarrow> s)"

definition maybe_write :: "websocket \<Rightarrow> websocket" where
  "maybe_write s = (if ws_outbound s \<noteq> [] \<and> \<not> ws_write_in_progress s then write_next s else s)"

text \<open>The resolver's handler: an error, a stream whose server name cannot be set, or a started connect.\<close>

definition resolved :: "string option \<Rightarrow> string option \<Rightarrow> websocket \<Rightarrow> websocket" where
  "resolved err sni s =
     (case err of
        Some e \<Rightarrow> ws_fail None (fail_message None ''resolve'' e) s
      | None \<Rightarrow>
          let n = ws_next_socket s; s1 = s\<lparr>ws_socket := Some n, ws_next_socket := n + 1\<rparr>
          in case sni of
               Some e \<Rightarrow> ws_fail (Some n) (fail_message None ''SNI'' e) s1
             | None \<Rightarrow> begin_operation (Tcp_connect n) s1)"

definition tcp_connected :: "nat \<Rightarrow> string option \<Rightarrow> websocket \<Rightarrow> websocket" where
  "tcp_connected n err s =
     (case err of Some e \<Rightarrow> ws_fail (Some n) (fail_message None ''connect'' e) s | None \<Rightarrow> begin_operation (Tls_handshake n) s)"

definition tls_done :: "nat \<Rightarrow> string option \<Rightarrow> websocket \<Rightarrow> websocket" where
  "tls_done n err s =
     (case err of Some e \<Rightarrow> ws_fail (Some n) (fail_message None ''TLS handshake'' e) s | None \<Rightarrow> begin_operation (Ws_handshake n) s)"

definition handshake_done :: "nat \<Rightarrow> (nat \<times> string) option \<Rightarrow> string option \<Rightarrow> websocket \<Rightarrow> websocket" where
  "handshake_done n closed err s =
     (case err of
        Some e \<Rightarrow> ws_fail (Some n) (fail_message closed ''WebSocket handshake'' e) s
      | None \<Rightarrow>
          if ws_socket s \<noteq> Some n then s
          else let s1 = set_connected True [] (s\<lparr>ws_reconnect_delay := wc_initial_reconnect_delay (ws_config s)\<rparr>);
                   s2 = begin_operation (Read n) (log_event Opened s1)
               in arm_heartbeat n (maybe_write s2))"

definition message_read :: "nat \<Rightarrow> string \<Rightarrow> websocket \<Rightarrow> websocket" where
  "message_read n message s =
     (if ws_socket s \<noteq> Some n then s
      else let (response, awaiting) =
                 (if heartbeat_enabled s then observe_heartbeat (ws_awaiting_response s) message (wc_heartbeat_response (ws_config s))
                  else (False, ws_awaiting_response s));
               s1 = s\<lparr>ws_awaiting_response := awaiting\<rparr>;
               s2 = (if awaiting then s1 else arm_heartbeat n s1);
               s3 = (if response then s2 else log_event (Message message) s2)
           in begin_operation (Read n) s3)"

definition write_done :: "nat \<Rightarrow> outbound_message \<Rightarrow> (nat \<times> string) option \<Rightarrow> string option \<Rightarrow> websocket \<Rightarrow> websocket" where
  "write_done n m closed err s =
     (case err of
        Some e \<Rightarrow> ws_fail (Some n) (fail_message closed ''write'' e) (s\<lparr>ws_write_in_progress := False\<rparr>)
      | None \<Rightarrow>
          if ws_socket s \<noteq> Some n then s
          else let s1 = s\<lparr>ws_outbound := tl (ws_outbound s), ws_outbound_count := ws_outbound_count s - 1,
                          ws_write_in_progress := False\<rparr>;
                   s2 = (if om_heartbeat m then arm_heartbeat n (s1\<lparr>ws_awaiting_response := True\<rparr>) else s1)
               in if ws_outbound s2 = [] then s2 else write_next s2)"

definition heartbeat_fired :: "nat \<Rightarrow> websocket \<Rightarrow> websocket" where
  "heartbeat_fired n s =
     (if ws_socket s \<noteq> Some n \<or> \<not> ws_connected s \<or> ws_stopping s then s
      else if timer_elapsed (ws_awaiting_response s) = HeartbeatTimeout
      then ws_fail (Some n) (fail_message None ''application heartbeat'' ''timed out'') s
      else let s1 = s\<lparr>ws_outbound_count := ws_outbound_count s + 1,
                      ws_outbound := ws_outbound s @
                        [\<lparr>om_payload = wc_heartbeat_request (ws_config s), om_heartbeat = True, om_id = 0\<rparr>]\<rparr>
           in if ws_write_in_progress s1 then s1 else write_next s1)"

definition send_posted :: "outbound_message \<Rightarrow> websocket \<Rightarrow> websocket" where
  "send_posted m s =
     (if ws_stopping s then s\<lparr>ws_outbound_count := ws_outbound_count s - 1\<rparr>
      else let s1 = s\<lparr>ws_outbound := ws_outbound s @ [m]\<rparr>
           in if ws_connected s1 \<and> \<not> ws_write_in_progress s1 then write_next s1 else s1)"

definition stop_posted :: "websocket \<Rightarrow> websocket" where
  "stop_posted s = (set_connected False ''stopped'' (s\<lparr>ws_socket := None\<rparr>))\<lparr>ws_io_stopped := True\<rparr>"

definition run_posted :: "posted \<Rightarrow> websocket \<Rightarrow> websocket" where
  "run_posted p s = (case p of Connect \<Rightarrow> ws_connect s | Stop \<Rightarrow> stop_posted s | Send m \<Rightarrow> send_posted m s)"

section \<open>Calls of other threads\<close>

definition ws_start :: "websocket \<Rightarrow> websocket" where
  "ws_start s = (if ws_running s then s else s\<lparr>ws_running := True, ws_posted := ws_posted s @ [Connect]\<rparr>)"

definition ws_stop :: "websocket \<Rightarrow> websocket" where
  "ws_stop s = (if \<not> ws_running s then s
     else s\<lparr>ws_running := False, ws_stopping := True, ws_posted := ws_posted s @ [Stop]\<rparr>)"

text \<open>\<open>send\<close> looks at the flags, reserves a place, and posts; other threads may run in between.\<close>

definition send_allowed :: "websocket \<Rightarrow> bool" where
  "send_allowed s \<longleftrightarrow> ws_running s \<and> \<not> ws_stopping s"

definition send_reserve :: "websocket \<Rightarrow> websocket option" where
  "send_reserve s =
     (if ws_outbound_count s \<ge> wc_maximum_outbound_messages (ws_config s) then None
      else Some (s\<lparr>ws_outbound_count := ws_outbound_count s + 1, ws_reserved := ws_reserved s + 1\<rparr>))"

definition send_post :: "string \<Rightarrow> websocket \<Rightarrow> websocket" where
  "send_post message s =
     s\<lparr>ws_reserved := ws_reserved s - 1, ws_next_id := ws_next_id s + 1,
       ws_posted := ws_posted s @ [Send \<lparr>om_payload = message, om_heartbeat = False, om_id = ws_next_id s\<rparr>]\<rparr>"

text \<open>The waiter of \<open>wait_connected\<close> wakes up, or has waited long enough, in this state.\<close>

definition wait_connected :: "websocket \<Rightarrow> bool" where
  "wait_connected s \<longleftrightarrow> (ws_connected s \<or> \<not> ws_running s) \<and> ws_connected s"

section \<open>Runs\<close>

definition on_stream :: "operation \<Rightarrow> bool" where
  "on_stream x \<longleftrightarrow> (case x of Read n \<Rightarrow> True | Write n m \<Rightarrow> True | _ \<Rightarrow> False)"

definition completed :: "operation \<Rightarrow> websocket \<Rightarrow> websocket" where
  "completed x s = s\<lparr>ws_operations := remove1 x (ws_operations s)\<rparr>"

inductive ws_step :: "websocket \<Rightarrow> websocket \<Rightarrow> bool" where
  start: "ws_step s (ws_start s)"
| stop: "ws_step s (ws_stop s)"
| reserve: "ws_running s \<or> ws_stopping s \<Longrightarrow> send_reserve s = Some s' \<Longrightarrow> ws_step s s'"
| post: "0 < ws_reserved s \<Longrightarrow> ws_step s (send_post message s)"
| posted: "\<not> ws_io_stopped s \<Longrightarrow> ws_posted s = p # rest \<Longrightarrow> ws_step s (run_posted p (s\<lparr>ws_posted := rest\<rparr>))"
| resolve: "\<not> ws_io_stopped s \<Longrightarrow> Resolve \<in> set (ws_operations s) \<Longrightarrow> ws_step s (resolved err sni (completed Resolve s))"
| tcp: "\<not> ws_io_stopped s \<Longrightarrow> Tcp_connect n \<in> set (ws_operations s) \<Longrightarrow>
    ws_step s (tcp_connected n err (completed (Tcp_connect n) s))"
| tls: "\<not> ws_io_stopped s \<Longrightarrow> Tls_handshake n \<in> set (ws_operations s) \<Longrightarrow>
    ws_step s (tls_done n err (completed (Tls_handshake n) s))"
| handshake: "\<not> ws_io_stopped s \<Longrightarrow> Ws_handshake n \<in> set (ws_operations s) \<Longrightarrow>
    ws_step s (handshake_done n closed err (completed (Ws_handshake n) s))"
| message: "\<not> ws_io_stopped s \<Longrightarrow> Read n \<in> set (ws_operations s) \<Longrightarrow> ws_step s (message_read n message (completed (Read n) s))"
| read_failed: "\<not> ws_io_stopped s \<Longrightarrow> Read n \<in> set (ws_operations s) \<Longrightarrow>
    ws_step s (ws_fail (Some n) (fail_message closed ''read'' err) (completed (Read n) s))"
| written: "\<not> ws_io_stopped s \<Longrightarrow> Write n m \<in> set (ws_operations s) \<Longrightarrow>
    ws_step s (write_done n m closed err (completed (Write n m) s))"
| heartbeat: "\<not> ws_io_stopped s \<Longrightarrow> Heartbeat_wait n \<in> set (ws_operations s) \<Longrightarrow>
    ws_step s (heartbeat_fired n (completed (Heartbeat_wait n) s))"
| heartbeat_canceled: "\<not> ws_io_stopped s \<Longrightarrow> Heartbeat_wait n \<in> set (ws_operations s) \<Longrightarrow>
    ws_step s (completed (Heartbeat_wait n) s)"
| reconnect: "\<not> ws_io_stopped s \<Longrightarrow> Reconnect_wait d \<in> set (ws_operations s) \<Longrightarrow>
    \<not> list_ex on_stream (ws_operations s) \<Longrightarrow>
    ws_step s (if ws_stopping s then completed (Reconnect_wait d) s else ws_connect (completed (Reconnect_wait d) s))"

end
