(* ===== verification/Abex_WebSocket_Props.thy ===== *)
theory Abex_WebSocket_Props
  imports Abex_WebSocket
begin

text \<open>
  The reconnecting client: there is always exactly one attempt under way to get or stay connected, every message goes to
  the network at most once and in order, the count of outbound messages is exact, and delays grow within their bounds.
\<close>

section \<open>Kinds of operations\<close>

definition is_chain :: "operation \<Rightarrow> bool" where
  "is_chain x \<longleftrightarrow> (case x of Resolve \<Rightarrow> True | Tcp_connect n \<Rightarrow> True | Tls_handshake n \<Rightarrow> True | Ws_handshake n \<Rightarrow> True | _ \<Rightarrow> False)"

definition is_wait :: "operation \<Rightarrow> bool" where
  "is_wait x \<longleftrightarrow> (case x of Reconnect_wait d \<Rightarrow> True | _ \<Rightarrow> False)"

definition is_read :: "operation \<Rightarrow> bool" where
  "is_read x \<longleftrightarrow> (case x of Read n \<Rightarrow> True | _ \<Rightarrow> False)"

definition is_write :: "operation \<Rightarrow> bool" where
  "is_write x \<longleftrightarrow> (case x of Write n m \<Rightarrow> True | _ \<Rightarrow> False)"

lemma kinds [simp]:
  "is_chain Resolve" "is_chain (Tcp_connect n)" "is_chain (Tls_handshake n)" "is_chain (Ws_handshake n)"
  "\<not> is_chain (Read n)" "\<not> is_chain (Write n m)" "\<not> is_chain (Heartbeat_wait n)" "\<not> is_chain (Reconnect_wait d)"
  "\<not> is_wait Resolve" "\<not> is_wait (Tcp_connect n)" "\<not> is_wait (Tls_handshake n)" "\<not> is_wait (Ws_handshake n)"
  "\<not> is_wait (Read n)" "\<not> is_wait (Write n m)" "\<not> is_wait (Heartbeat_wait n)" "is_wait (Reconnect_wait d)"
  "\<not> is_read Resolve" "\<not> is_read (Tcp_connect n)" "\<not> is_read (Tls_handshake n)" "\<not> is_read (Ws_handshake n)"
  "is_read (Read n)" "\<not> is_read (Write n m)" "\<not> is_read (Heartbeat_wait n)" "\<not> is_read (Reconnect_wait d)"
  "\<not> is_write Resolve" "\<not> is_write (Tcp_connect n)" "\<not> is_write (Tls_handshake n)" "\<not> is_write (Ws_handshake n)"
  "\<not> is_write (Read n)" "is_write (Write n m)" "\<not> is_write (Heartbeat_wait n)" "\<not> is_write (Reconnect_wait d)"
  by (simp_all add: is_chain_def is_wait_def is_read_def is_write_def)

lemma on_stream_kinds: "on_stream x \<longleftrightarrow> is_read x \<or> is_write x"
  by (auto simp: on_stream_def is_read_def is_write_def split: operation.split)

definition ops :: "(operation \<Rightarrow> bool) \<Rightarrow> websocket \<Rightarrow> operation list" where
  "ops P s = filter P (ws_operations s)"

definition connects :: "websocket \<Rightarrow> posted list" where
  "connects s = filter (\<lambda>p. p = Connect) (ws_posted s)"

lemma ops_begin [simp]: "ops P (begin_operation x s) = ops P s @ (if P x then [x] else [])"
  by (simp add: ops_def begin_operation_def)

lemma ops_completed: "ops P (completed x s) = (if P x then remove1 x (ops P s) else ops P s)"
  by (simp add: ops_def completed_def filter_remove1)

lemma in_ops: "x \<in> set (ws_operations s) \<Longrightarrow> P x \<Longrightarrow> x \<in> set (ops P s)"
  by (simp add: ops_def)

lemma ops_update [simp]:
  "ops P (log_event e s) = ops P s" "ops P (set_connected v r s) = ops P s"
  "ops P (s\<lparr>ws_socket := so\<rparr>) = ops P s" "ops P (s\<lparr>ws_next_socket := n\<rparr>) = ops P s" "ops P (s\<lparr>ws_outbound := ob\<rparr>) = ops P s"
  "ops P (s\<lparr>ws_outbound_count := c\<rparr>) = ops P s" "ops P (s\<lparr>ws_write_in_progress := w\<rparr>) = ops P s"
  "ops P (s\<lparr>ws_awaiting_response := w\<rparr>) = ops P s" "ops P (s\<lparr>ws_reconnect_scheduled := w\<rparr>) = ops P s"
  "ops P (s\<lparr>ws_reconnect_delay := d\<rparr>) = ops P s" "ops P (s\<lparr>ws_running := w\<rparr>) = ops P s" "ops P (s\<lparr>ws_stopping := w\<rparr>) = ops P s"
  "ops P (s\<lparr>ws_connected := w\<rparr>) = ops P s" "ops P (s\<lparr>ws_io_stopped := w\<rparr>) = ops P s" "ops P (s\<lparr>ws_posted := p\<rparr>) = ops P s"
  "ops P (s\<lparr>ws_reserved := n\<rparr>) = ops P s" "ops P (s\<lparr>ws_next_id := n\<rparr>) = ops P s"
  by (simp_all add: ops_def log_event_def set_connected_def Let_def)

text \<open>What the building blocks of the handlers leave alone.\<close>

lemma frames [simp]:
  "ws_config (begin_operation x s) = ws_config s" "ws_socket (begin_operation x s) = ws_socket s"
  "ws_outbound (begin_operation x s) = ws_outbound s" "ws_outbound_count (begin_operation x s) = ws_outbound_count s"
  "ws_write_in_progress (begin_operation x s) = ws_write_in_progress s" "ws_reconnect_scheduled (begin_operation x s) = ws_reconnect_scheduled s"
  "ws_reconnect_delay (begin_operation x s) = ws_reconnect_delay s" "ws_running (begin_operation x s) = ws_running s"
  "ws_stopping (begin_operation x s) = ws_stopping s" "ws_connected (begin_operation x s) = ws_connected s"
  "ws_io_stopped (begin_operation x s) = ws_io_stopped s" "ws_posted (begin_operation x s) = ws_posted s"
  "ws_reserved (begin_operation x s) = ws_reserved s" "ws_next_id (begin_operation x s) = ws_next_id s" "ws_log (begin_operation x s) = ws_log s"
  "ws_config (log_event e s) = ws_config s" "ws_socket (log_event e s) = ws_socket s" "ws_outbound (log_event e s) = ws_outbound s"
  "ws_outbound_count (log_event e s) = ws_outbound_count s" "ws_write_in_progress (log_event e s) = ws_write_in_progress s"
  "ws_reconnect_scheduled (log_event e s) = ws_reconnect_scheduled s" "ws_reconnect_delay (log_event e s) = ws_reconnect_delay s"
  "ws_running (log_event e s) = ws_running s" "ws_stopping (log_event e s) = ws_stopping s" "ws_connected (log_event e s) = ws_connected s"
  "ws_io_stopped (log_event e s) = ws_io_stopped s" "ws_posted (log_event e s) = ws_posted s" "ws_reserved (log_event e s) = ws_reserved s"
  "ws_next_id (log_event e s) = ws_next_id s" "ws_log (log_event e s) = ws_log s @ [e]"
  by (simp_all add: begin_operation_def log_event_def)

lemma set_connected_fields [simp]:
  "ws_config (set_connected v r s) = ws_config s" "ws_socket (set_connected v r s) = ws_socket s"
  "ws_outbound (set_connected v r s) = ws_outbound s" "ws_outbound_count (set_connected v r s) = ws_outbound_count s"
  "ws_write_in_progress (set_connected v r s) = ws_write_in_progress s"
  "ws_reconnect_scheduled (set_connected v r s) = ws_reconnect_scheduled s"
  "ws_reconnect_delay (set_connected v r s) = ws_reconnect_delay s" "ws_running (set_connected v r s) = ws_running s"
  "ws_stopping (set_connected v r s) = ws_stopping s" "ws_connected (set_connected v r s) = v"
  "ws_io_stopped (set_connected v r s) = ws_io_stopped s" "ws_posted (set_connected v r s) = ws_posted s"
  "ws_reserved (set_connected v r s) = ws_reserved s" "ws_next_id (set_connected v r s) = ws_next_id s"
  by (simp_all add: set_connected_def Let_def)

lemma completed_fields [simp]:
  "ws_config (completed x s) = ws_config s" "ws_socket (completed x s) = ws_socket s" "ws_outbound (completed x s) = ws_outbound s"
  "ws_outbound_count (completed x s) = ws_outbound_count s" "ws_write_in_progress (completed x s) = ws_write_in_progress s"
  "ws_reconnect_scheduled (completed x s) = ws_reconnect_scheduled s" "ws_reconnect_delay (completed x s) = ws_reconnect_delay s"
  "ws_running (completed x s) = ws_running s" "ws_stopping (completed x s) = ws_stopping s" "ws_connected (completed x s) = ws_connected s"
  "ws_io_stopped (completed x s) = ws_io_stopped s" "ws_posted (completed x s) = ws_posted s" "ws_reserved (completed x s) = ws_reserved s"
  "ws_next_id (completed x s) = ws_next_id s" "ws_log (completed x s) = ws_log s" "ws_next_socket (completed x s) = ws_next_socket s"
  "connects (completed x s) = connects s"
  by (simp_all add: completed_def connects_def)

section \<open>Phases\<close>

abbreviation "at_work s \<equiv> ws_running s \<and> \<not> ws_reconnect_scheduled s \<and> ops is_wait s = []"

definition online :: "websocket \<Rightarrow> nat \<Rightarrow> bool" where
  "online s n \<longleftrightarrow> ws_socket s = Some n \<and> ops is_chain s = [] \<and>
     (if ws_write_in_progress s then \<exists>m rest. ws_outbound s = m # rest \<and> ops is_write s = [Write n m]
      else ops is_write s = [] \<and> (ws_stopping s \<or> ws_outbound s = [])) \<and>
     (ws_stopping s \<or> at_work s \<and> connects s = [] \<and> ops is_read s = [Read n])"

definition waiting :: "websocket \<Rightarrow> bool" where
  "waiting s \<longleftrightarrow> ops is_chain s = [] \<and> ws_socket s = None \<and>
     (ws_stopping s \<or> ws_running s \<and> ws_reconnect_scheduled s \<and> (\<exists>d. ops is_wait s = [Reconnect_wait d]) \<and> connects s = [])"

definition unconnected :: "websocket \<Rightarrow> bool" where
  "unconnected s \<longleftrightarrow> ops is_chain s = [] \<and> ops is_read s = [] \<and> ops is_write s = [] \<and>
     (ws_stopping s \<or> ws_socket s = None \<and> \<not> ws_reconnect_scheduled s \<and> ops is_wait s = [] \<and>
        connects s = (if ws_running s then [Connect] else []))"

definition attempting :: "websocket \<Rightarrow> operation \<Rightarrow> nat option \<Rightarrow> bool" where
  "attempting s x n \<longleftrightarrow> ops is_chain s = [x] \<and> ops is_read s = [] \<and> ops is_write s = [] \<and> ws_socket s = n \<and>
     (ws_stopping s \<or> at_work s \<and> connects s = [])"

definition offline :: "websocket \<Rightarrow> bool" where
  "offline s \<longleftrightarrow> \<not> ws_write_in_progress s \<and>
     (waiting s \<or> unconnected s \<or> attempting s Resolve None \<or>
      (\<exists>n. attempting s (Tcp_connect n) (Some n) \<or> attempting s (Tls_handshake n) (Some n) \<or> attempting s (Ws_handshake n) (Some n)))"

definition phase_ok :: "websocket \<Rightarrow> bool" where
  "phase_ok s \<longleftrightarrow> (if ws_connected s then \<exists>n. online s n else offline s)"

lemmas phase_defs = phase_ok_def online_def offline_def waiting_def unconnected_def attempting_def

lemma connects_update [simp]:
  "connects (begin_operation x s) = connects s" "connects (log_event e s) = connects s" "connects (set_connected v r s) = connects s"
  "connects (s\<lparr>ws_socket := so\<rparr>) = connects s" "connects (s\<lparr>ws_next_socket := n\<rparr>) = connects s"
  "connects (s\<lparr>ws_outbound := ob\<rparr>) = connects s" "connects (s\<lparr>ws_outbound_count := c\<rparr>) = connects s"
  "connects (s\<lparr>ws_write_in_progress := w\<rparr>) = connects s" "connects (s\<lparr>ws_awaiting_response := w\<rparr>) = connects s"
  "connects (s\<lparr>ws_reconnect_scheduled := w\<rparr>) = connects s" "connects (s\<lparr>ws_reconnect_delay := d\<rparr>) = connects s"
  "connects (s\<lparr>ws_running := w\<rparr>) = connects s" "connects (s\<lparr>ws_stopping := w\<rparr>) = connects s"
  "connects (s\<lparr>ws_connected := w\<rparr>) = connects s" "connects (s\<lparr>ws_io_stopped := w\<rparr>) = connects s"
  "connects (s\<lparr>ws_reserved := n\<rparr>) = connects s" "connects (s\<lparr>ws_next_id := n\<rparr>) = connects s"
  "connects (s\<lparr>ws_posted := ps\<rparr>) = filter (\<lambda>p. p = Connect) ps"
  by (simp_all add: connects_def begin_operation_def log_event_def set_connected_def Let_def)

text \<open>A failure outside of a connection attempt starts the wait for the next one.\<close>

lemma fail_phase:
  assumes "ws_stopping s \<Longrightarrow> phase_ok s" "ws_reconnect_scheduled s \<Longrightarrow> phase_ok s"
    "\<not> ws_stopping s \<Longrightarrow> \<not> ws_reconnect_scheduled s \<Longrightarrow> ops is_chain s = [] \<and> at_work s \<and> connects s = [] \<and>
       (socket = None \<or> ws_socket s = None \<or> socket = ws_socket s)"
  shows "phase_ok (ws_fail socket message s)"
  using assms by (auto simp: ws_fail_def Let_def phase_ok_def [of "begin_operation x y" for x y] offline_def waiting_def)

lemma chain_op:
  assumes "phase_ok s" "x \<in> set (ws_operations s)" "is_chain x"
  shows "\<not> ws_connected s \<and> \<not> ws_write_in_progress s \<and> ops is_chain s = [x] \<and> ops is_read s = [] \<and> ops is_write s = [] \<and>
    (ws_stopping s \<or> at_work s \<and> connects s = []) \<and>
    ws_socket s = (case x of Tcp_connect n \<Rightarrow> Some n | Tls_handshake n \<Rightarrow> Some n | Ws_handshake n \<Rightarrow> Some n | _ \<Rightarrow> None)"
  using assms in_ops [OF assms(2), of is_chain] by (auto simp: phase_defs split: if_splits)

lemma stream_op:
  assumes "phase_ok s" "x \<in> set (ws_operations s)" "is_read x \<or> is_write x"
  shows "(if ws_connected s then \<exists>n. online s n else \<not> ws_write_in_progress s \<and> waiting s)"
  using assms in_ops [OF assms(2), of is_read] in_ops [OF assms(2), of is_write] by (auto simp: phase_defs split: if_splits)

lemma resolved_phase:
  assumes "phase_ok s" "Resolve \<in> set (ws_operations s)"
  shows "phase_ok (resolved err sni (completed Resolve s))"
proof -
  note c = chain_op [OF assms, simplified]
  have f: "phase_ok (ws_fail None msg (completed Resolve s))" for msg
    by (rule fail_phase) (use c in \<open>auto simp: phase_ok_def offline_def unconnected_def ops_completed\<close>)
  have g: "phase_ok (ws_fail (Some n) msg ((completed Resolve s)\<lparr>ws_socket := Some n, ws_next_socket := k\<rparr>))" for n k msg
    by (rule fail_phase) (use c in \<open>auto simp: phase_ok_def offline_def unconnected_def ops_completed\<close>)
  show ?thesis
    using f g c by (auto simp: resolved_def Let_def phase_ok_def [of "begin_operation x y" for x y] offline_def attempting_def ops_completed
        split: option.split)
qed

lemma tcp_phase:
  assumes "phase_ok s" "Tcp_connect n \<in> set (ws_operations s)"
  shows "phase_ok (tcp_connected n err (completed (Tcp_connect n) s))"
proof -
  note c = chain_op [OF assms, simplified]
  have "phase_ok (ws_fail (Some n) msg (completed (Tcp_connect n) s))" for msg
    by (rule fail_phase) (use c in \<open>auto simp: phase_ok_def offline_def unconnected_def ops_completed\<close>)
  then show ?thesis
    using c by (auto simp: tcp_connected_def phase_ok_def [of "begin_operation x y" for x y] offline_def attempting_def ops_completed
        split: option.split)
qed

lemma tls_phase:
  assumes "phase_ok s" "Tls_handshake n \<in> set (ws_operations s)"
  shows "phase_ok (tls_done n err (completed (Tls_handshake n) s))"
proof -
  note c = chain_op [OF assms, simplified]
  have "phase_ok (ws_fail (Some n) msg (completed (Tls_handshake n) s))" for msg
    by (rule fail_phase) (use c in \<open>auto simp: phase_ok_def offline_def unconnected_def ops_completed\<close>)
  then show ?thesis
    using c by (auto simp: tls_done_def phase_ok_def [of "begin_operation x y" for x y] offline_def attempting_def ops_completed
        split: option.split)
qed

lemma arm_fields [simp]:
  "ws_config (arm_heartbeat k s) = ws_config s" "ws_socket (arm_heartbeat k s) = ws_socket s"
  "ws_outbound (arm_heartbeat k s) = ws_outbound s" "ws_outbound_count (arm_heartbeat k s) = ws_outbound_count s"
  "ws_write_in_progress (arm_heartbeat k s) = ws_write_in_progress s" "ws_reconnect_scheduled (arm_heartbeat k s) = ws_reconnect_scheduled s"
  "ws_reconnect_delay (arm_heartbeat k s) = ws_reconnect_delay s" "ws_running (arm_heartbeat k s) = ws_running s"
  "ws_stopping (arm_heartbeat k s) = ws_stopping s" "ws_connected (arm_heartbeat k s) = ws_connected s"
  "ws_io_stopped (arm_heartbeat k s) = ws_io_stopped s" "ws_posted (arm_heartbeat k s) = ws_posted s"
  "ws_reserved (arm_heartbeat k s) = ws_reserved s" "ws_next_id (arm_heartbeat k s) = ws_next_id s" "ws_log (arm_heartbeat k s) = ws_log s"
  "connects (arm_heartbeat k s) = connects s" "\<not> P (Heartbeat_wait k) \<Longrightarrow> ops P (arm_heartbeat k s) = ops P s"
  by (simp_all add: arm_heartbeat_def)

lemma online_arm [simp]: "online (arm_heartbeat k s) n = online s n"
  by (simp add: online_def)

lemma online_write:
  assumes "ws_socket s = Some n" "ws_connected s" "ws_outbound s = m # rest" "ops is_chain s = []" "ops is_write s = []"
    "ws_stopping s \<or> at_work s \<and> connects s = [] \<and> ops is_read s = [Read n]"
  shows "online (write_next s) n" "ws_connected (write_next s)"
  using assms by (simp_all add: write_next_def online_def)

lemma handshake_phase:
  assumes "phase_ok s" "Ws_handshake n \<in> set (ws_operations s)"
  shows "phase_ok (handshake_done n closed err (completed (Ws_handshake n) s))"
proof (cases err)
  case (Some e)
  note c = chain_op [OF assms, simplified]
  have "phase_ok (ws_fail (Some n) msg (completed (Ws_handshake n) s))" for msg
    by (rule fail_phase) (use c in \<open>auto simp: phase_ok_def offline_def unconnected_def ops_completed\<close>)
  then show ?thesis using Some by (simp add: handshake_done_def)
next
  case None
  note c = chain_op [OF assms, simplified]
  let ?s = "completed (Ws_handshake n) s"
  let ?s2 = "begin_operation (Read n) (log_event Opened
      (set_connected True [] (?s\<lparr>ws_reconnect_delay := wc_initial_reconnect_delay (ws_config ?s)\<rparr>)))"
  have "online (maybe_write ?s2) n \<and> ws_connected (maybe_write ?s2)"
  proof (cases "ws_outbound s")
    case Nil
    then show ?thesis using c by (auto simp: maybe_write_def online_def ops_completed)
  next
    case (Cons m rest)
    then show ?thesis using c online_write [of ?s2 n m rest] by (auto simp: maybe_write_def ops_completed)
  qed
  then show ?thesis using c None by (auto simp: handshake_done_def Let_def phase_ok_def)
qed

lemma message_read_shape:
  assumes "ws_socket s = Some n"
  obtains a f where "message_read n msg s = begin_operation (Read n) (f (s\<lparr>ws_awaiting_response := a\<rparr>))"
    "f \<in> {id, arm_heartbeat n, log_event (Message msg), \<lambda>t. log_event (Message msg) (arm_heartbeat n t)}"
proof -
  let ?o = "if heartbeat_enabled s then observe_heartbeat (ws_awaiting_response s) msg (wc_heartbeat_response (ws_config s))
      else (False, ws_awaiting_response s)"
  have "message_read n msg s = begin_operation (Read n)
      ((if fst ?o then (if snd ?o then id else arm_heartbeat n)
        else (if snd ?o then log_event (Message msg) else (\<lambda>t. log_event (Message msg) (arm_heartbeat n t))))
       (s\<lparr>ws_awaiting_response := snd ?o\<rparr>))"
    using assms by (cases ?o) (simp add: message_read_def Let_def)
  then show ?thesis by (rule that) simp
qed

lemma message_phase:
  assumes "phase_ok s" "Read n \<in> set (ws_operations s)"
  shows "phase_ok (message_read n msg (completed (Read n) s))"
proof -
  have mem: "Read n \<in> set (ops is_read s)" using assms(2) by (simp add: ops_def)
  note st = stream_op [OF assms, simplified]
  show ?thesis
  proof (cases "ws_socket s = Some n")
    case True
    then obtain k where on: "ws_connected s" "online s k" using st by (auto simp: waiting_def split: if_splits)
    with True have k: "k = n" by (simp add: online_def)
    from True obtain a f where f: "message_read n msg (completed (Read n) s) =
        begin_operation (Read n) (f ((completed (Read n) s)\<lparr>ws_awaiting_response := a\<rparr>))"
      "f \<in> {id, arm_heartbeat n, log_event (Message msg), \<lambda>t. log_event (Message msg) (arm_heartbeat n t)}"
      using message_read_shape [of "completed (Read n) s" n msg] by (metis completed_fields(2))
    have "online (begin_operation (Read n) ((completed (Read n) s)\<lparr>ws_awaiting_response := a\<rparr>)) n"
      using on k mem by (auto simp: online_def ops_completed)
    moreover have "online (begin_operation (Read n) (f u)) n = online (begin_operation (Read n) u) n \<and> ws_connected (f u) = ws_connected u" for u
      using f(2) by (elim insertE emptyE) (simp_all add: online_def)
    ultimately show ?thesis using f(1) on by (auto simp: phase_ok_def)
  next
    case False
    then have "phase_ok (completed (Read n) s)"
      using st mem by (auto simp: phase_ok_def online_def offline_def waiting_def ops_completed split: if_splits)
    with False show ?thesis by (simp add: message_read_def)
  qed
qed

lemma read_failed_phase:
  assumes "phase_ok s" "Read n \<in> set (ws_operations s)"
  shows "phase_ok (ws_fail (Some n) msg (completed (Read n) s))"
proof -
  have mem: "Read n \<in> set (ops is_read s)" using assms(2) by (simp add: ops_def)
  note st = stream_op [OF assms, simplified]
  show ?thesis
    by (rule fail_phase)
      (use st mem in \<open>auto simp: phase_ok_def online_def offline_def waiting_def ops_completed split: if_splits\<close>)
qed

lemma write_phase:
  assumes "phase_ok s" "Write n m \<in> set (ws_operations s)"
  shows "phase_ok (write_done n m closed err (completed (Write n m) s))"
proof -
  have mem: "Write n m \<in> set (ops is_write s)" using assms(2) by (simp add: ops_def)
  note st = stream_op [OF assms, simplified]
  show ?thesis
  proof (cases err)
    case (Some e)
    have "phase_ok (ws_fail (Some n) msg ((completed (Write n m) s)\<lparr>ws_write_in_progress := False\<rparr>))" for msg
      by (rule fail_phase)
        (use st mem in \<open>auto simp: phase_ok_def online_def offline_def waiting_def ops_completed split: if_splits\<close>)
    then show ?thesis using Some by (simp add: write_done_def)
  next
    case None
    show ?thesis
    proof (cases "ws_socket s = Some n")
      case False
      then have "phase_ok (completed (Write n m) s)"
        using st mem by (auto simp: phase_ok_def online_def offline_def waiting_def ops_completed split: if_splits)
      with False None show ?thesis by (simp add: write_done_def)
    next
      case True
      then obtain rest where on: "ws_connected s" "online s n" "ws_write_in_progress s" "ws_outbound s = m # rest" "ops is_write s = [Write n m]"
        using st mem by (auto simp: online_def waiting_def split: if_splits)
      let ?s1 = "(completed (Write n m) s)\<lparr>ws_outbound := rest, ws_outbound_count := ws_outbound_count s - 1, ws_write_in_progress := False\<rparr>"
      let ?s2 = "if om_heartbeat m then arm_heartbeat n (?s1\<lparr>ws_awaiting_response := True\<rparr>) else ?s1"
      have eq: "write_done n m closed err (completed (Write n m) s) = (if rest = [] then ?s2 else write_next ?s2)"
        using None True on by (auto simp: write_done_def Let_def)
      have "online ?s2 n \<and> ws_connected ?s2" if "rest = []"
        using on that by (auto simp: online_def ops_completed)
      moreover have "online (write_next ?s2) n \<and> ws_connected (write_next ?s2)" if "rest \<noteq> []"
      proof -
        obtain m' rest' where "rest = m' # rest'" using \<open>rest \<noteq> []\<close> by (cases rest) auto
        then show ?thesis using on online_write [of ?s2 n m' rest'] by (auto simp: online_def ops_completed)
      qed
      ultimately show ?thesis unfolding eq by (auto simp: phase_ok_def)
    qed
  qed
qed

lemma phase_same:
  assumes "ws_socket t = ws_socket s" "ws_outbound t = ws_outbound s" "ws_write_in_progress t = ws_write_in_progress s"
    "ws_reconnect_scheduled t = ws_reconnect_scheduled s" "ws_running t = ws_running s" "ws_stopping t = ws_stopping s"
    "ws_connected t = ws_connected s" "connects t = connects s" "ops is_chain t = ops is_chain s" "ops is_read t = ops is_read s"
    "ops is_write t = ops is_write s" "ops is_wait t = ops is_wait s"
  shows "phase_ok t = phase_ok s"
proof -
  have "online t = online s" "offline t = offline s"
    using assms by (auto simp: fun_eq_iff online_def offline_def waiting_def unconnected_def attempting_def)
  then show ?thesis using assms by (simp add: phase_ok_def)
qed

text \<open>While the client is stopping, less is required.\<close>

lemma phase_stopping:
  assumes "phase_ok s" "ws_stopping t" "ws_socket t = ws_socket s" "ws_outbound t = ws_outbound s"
    "ws_write_in_progress t = ws_write_in_progress s" "ws_connected t = ws_connected s" "ops is_chain t = ops is_chain s"
    "ops is_read t = ops is_read s" "ops is_write t = ops is_write s"
  shows "phase_ok t"
proof (cases "ws_connected s")
  case True
  then obtain n where "online s n" using assms(1) by (auto simp: phase_ok_def)
  then have "online t n" using assms by (auto simp: online_def)
  then show ?thesis using True assms by (auto simp: phase_ok_def)
qed (use assms in \<open>auto simp: phase_defs\<close>)

lemma heartbeat_op: "phase_ok s \<Longrightarrow> phase_ok (completed (Heartbeat_wait n) s)"
  by (subst phase_same) (simp_all add: ops_completed)

text \<open>A new message at the end of the queue of an open connection; the line is free only when nothing else waits.\<close>

lemma push_phase:
  assumes "phase_ok s" "\<not> ws_stopping s" and t_def: "t = s\<lparr>ws_outbound := ws_outbound s @ [m], ws_outbound_count := c\<rparr>"
  shows "phase_ok (if ws_connected s \<and> \<not> ws_write_in_progress s then write_next t else t)"
proof (cases "ws_connected s")
  case True
  then obtain n where on: "online s n" using assms(1) by (auto simp: phase_ok_def)
  show ?thesis
  proof (cases "ws_write_in_progress s")
    case True
    then show ?thesis using on \<open>ws_connected s\<close> by (auto simp: phase_ok_def online_def t_def)
  next
    case False
    then have "online (write_next t) n" "ws_connected (write_next t)"
      using on \<open>ws_connected s\<close> assms(2) online_write [of t n m "[]"] by (auto simp: online_def t_def)
    then show ?thesis using False \<open>ws_connected s\<close> by (auto simp: phase_ok_def)
  qed
qed (use assms in \<open>auto simp: phase_defs\<close>)

lemma heartbeat_fired_phase:
  assumes "phase_ok s"
  shows "phase_ok (heartbeat_fired n s)"
proof (cases "ws_socket s = Some n \<and> ws_connected s \<and> \<not> ws_stopping s")
  case True
  then have on: "online s n" using assms by (auto simp: phase_ok_def online_def)
  have "phase_ok (ws_fail (Some n) msg s)" for msg
    by (rule fail_phase) (use assms on True in \<open>auto simp: online_def\<close>)
  moreover have "phase_ok (if ws_write_in_progress s then s\<lparr>ws_outbound_count := c, ws_outbound := ws_outbound s @ [m]\<rparr>
      else write_next (s\<lparr>ws_outbound_count := c, ws_outbound := ws_outbound s @ [m]\<rparr>))" for m c
    using push_phase [OF assms, where t = "s\<lparr>ws_outbound_count := c, ws_outbound := ws_outbound s @ [m]\<rparr>" and m = m and c = c] True by auto
  ultimately show ?thesis using True by (simp add: heartbeat_fired_def Let_def)
qed (use assms in \<open>auto simp: heartbeat_fired_def\<close>)

lemma posted_phase:
  assumes "phase_ok s" "ws_posted s = p # rest" "p \<noteq> Stop"
  shows "phase_ok (run_posted p (s\<lparr>ws_posted := rest\<rparr>))"
proof (cases p)
  case (Send m)
  let ?s = "s\<lparr>ws_posted := rest\<rparr>"
  have ok: "phase_ok ?s" using assms Send phase_same [of ?s s] by (simp add: connects_def)
  have "phase_ok (?s\<lparr>ws_outbound_count := c\<rparr>)" for c using ok phase_same [of "?s\<lparr>ws_outbound_count := c\<rparr>" ?s] by simp
  moreover have "phase_ok (if ws_connected ?s \<and> \<not> ws_write_in_progress ?s then write_next (?s\<lparr>ws_outbound := ws_outbound s @ [m]\<rparr>)
      else ?s\<lparr>ws_outbound := ws_outbound s @ [m]\<rparr>)" if "\<not> ws_stopping s"
    using push_phase [OF ok, where t = "?s\<lparr>ws_outbound := ws_outbound s @ [m]\<rparr>" and m = m and c = "ws_outbound_count s"] that by simp
  ultimately show ?thesis using Send by (auto simp: run_posted_def send_posted_def Let_def)
next
  case Connect
  then have c: "connects s = Connect # filter (\<lambda>p. p = Connect) rest" using assms(2) by (simp add: connects_def)
  show ?thesis
  proof (cases "ws_stopping s")
    case True
    then show ?thesis using phase_stopping [OF assms(1), of "s\<lparr>ws_posted := rest\<rparr>"] Connect by (simp add: run_posted_def ws_connect_def)
  next
    case False
    then show ?thesis using assms(1) Connect c by (auto simp: run_posted_def ws_connect_def phase_defs split: if_splits)
  qed
qed (use assms in simp)

lemma reconnect_phase:
  assumes "phase_ok s" "Reconnect_wait d \<in> set (ws_operations s)" "\<not> list_ex on_stream (ws_operations s)"
  shows "phase_ok (if ws_stopping s then completed (Reconnect_wait d) s else ws_connect (completed (Reconnect_wait d) s))"
proof -
  have mem: "Reconnect_wait d \<in> set (ops is_wait s)" using assms(2) by (simp add: ops_def)
  have streams: "ops is_read s = []" "ops is_write s = []"
    using assms(3) by (auto simp: ops_def list_ex_iff on_stream_kinds filter_empty_conv)
  show ?thesis
  proof (cases "ws_stopping s")
    case True
    then show ?thesis using phase_stopping [OF assms(1), of "completed (Reconnect_wait d) s"] by (simp add: ops_completed)
  next
    case False
    then have "\<not> ws_connected s \<and> \<not> ws_write_in_progress s \<and> waiting s" using assms(1) mem by (auto simp: phase_defs split: if_splits)
    then show ?thesis using False mem streams
      by (auto simp: ws_connect_def phase_ok_def offline_def attempting_def waiting_def ops_completed)
  qed
qed

lemma phase_step:
  assumes "ws_step s s'" "\<not> ws_io_stopped s \<longrightarrow> phase_ok s"
  shows "\<not> ws_io_stopped s' \<longrightarrow> phase_ok s'"
  using assms(1)
proof cases
  case start
  show ?thesis
  proof (cases "ws_stopping s \<or> ws_running s")
    case True
    then show ?thesis using start assms(2) phase_stopping [of s s'] by (auto simp: ws_start_def)
  next
    case False
    then show ?thesis using start assms(2) by (auto simp: ws_start_def phase_defs connects_def split: if_splits)
  qed
next
  case stop
  then show ?thesis using assms(2) phase_stopping [of s s'] by (auto simp: ws_stop_def)
next
  case reserve
  then show ?thesis using assms(2) phase_same [of s' s] by (auto simp: send_reserve_def split: if_splits)
next
  case (post message)
  then show ?thesis using assms(2) phase_same [of s' s] by (auto simp: send_post_def connects_def)
next
  case (posted p rest)
  then show ?thesis using assms(2) posted_phase [of s p rest] by (cases "p = Stop") (auto simp: run_posted_def stop_posted_def)
next
  case (heartbeat n)
  then show ?thesis using assms(2) heartbeat_fired_phase heartbeat_op by auto
next
  case (heartbeat_canceled n)
  then show ?thesis using assms(2) heartbeat_op by auto
next
  case (reconnect d)
  then show ?thesis using assms(2) reconnect_phase by auto
qed (use assms(2) resolved_phase tcp_phase tls_phase handshake_phase message_phase read_failed_phase write_phase in auto)

section \<open>Messages\<close>

definition sends :: "posted list \<Rightarrow> outbound_message list" where
  "sends ps = concat (map (\<lambda>p. case p of Send m \<Rightarrow> [m] | _ \<Rightarrow> []) ps)"

definition started :: "log_entry list \<Rightarrow> outbound_message list" where
  "started es = concat (map (\<lambda>e. case e of Write_started n m \<Rightarrow> [m] | _ \<Rightarrow> []) es)"

lemma sends_simps [simp]: "sends [] = []" "sends (Send m # ps) = m # sends ps" "sends (Connect # ps) = sends ps" "sends (Stop # ps) = sends ps"
  "sends (ps @ qs) = sends ps @ sends qs"
  by (simp_all add: sends_def)

lemma started_simps [simp]: "started [] = []" "started (es @ fs) = started es @ started fs" "started [Write_started n m] = [m]"
  "started [Opened] = []" "started [Message t] = []" "started [Connection v r] = []"
  by (simp_all add: started_def)

abbreviation users :: "outbound_message list \<Rightarrow> outbound_message list" where
  "users \<equiv> filter (\<lambda>m. \<not> om_heartbeat m)"

text \<open>The messages of an open connection that are still to be written: the first of the queue is with the network.\<close>

definition unsent :: "websocket \<Rightarrow> outbound_message list" where
  "unsent s = (if ws_connected s then tl (ws_outbound s) else ws_outbound s)"

definition line :: "websocket \<Rightarrow> outbound_message list" where
  "line s = users (started (ws_log s) @ unsent s @ sends (ws_posted s))"

definition ids_ok :: "websocket \<Rightarrow> bool" where
  "ids_ok s \<longleftrightarrow> sorted_wrt (<) (map om_id (line s)) \<and> (\<forall>m \<in> set (line s). om_id m < ws_next_id s)"

definition count_ok :: "websocket \<Rightarrow> bool" where
  "count_ok s \<longleftrightarrow> ws_outbound_count s = length (ws_outbound s) + length (sends (ws_posted s)) + ws_reserved s"

lemma ids_same: "line t = line s \<Longrightarrow> ws_next_id t = ws_next_id s \<Longrightarrow> ids_ok t = ids_ok s"
  by (simp add: ids_ok_def)

lemma set_connected_log [simp]: "started (ws_log (set_connected v r s)) = started (ws_log s)"
  by (simp add: set_connected_def Let_def)

text \<open>A failure drops what waits to be written; nothing else changes in the line.\<close>

lemma fail_ids:
  assumes "ids_ok s"
  shows "ids_ok (ws_fail socket msg s)"
  using assms by (auto simp: ws_fail_def Let_def ids_ok_def line_def unsent_def sorted_wrt_append)

lemma fail_count: "count_ok s \<Longrightarrow> count_ok (ws_fail socket msg s)"
  by (auto simp: ws_fail_def Let_def count_ok_def)

lemma write_next_fields [simp]:
  "ws_outbound (write_next s) = ws_outbound s" "ws_outbound_count (write_next s) = ws_outbound_count s"
  "ws_posted (write_next s) = ws_posted s" "ws_reserved (write_next s) = ws_reserved s" "ws_next_id (write_next s) = ws_next_id s"
  "ws_connected (write_next s) = ws_connected s" "ws_config (write_next s) = ws_config s"
  "ws_reconnect_delay (write_next s) = ws_reconnect_delay s" "ws_stopping (write_next s) = ws_stopping s"
  "\<not> P (Write (the (ws_socket s)) (hd (ws_outbound s))) \<Longrightarrow> ops P (write_next s) = ops P s"
  by (auto simp: write_next_def split: option.split list.split)

lemma write_next_log:
  "ws_socket s = Some n \<Longrightarrow> ws_connected s \<Longrightarrow> ws_outbound s \<noteq> [] \<Longrightarrow> started (ws_log (write_next s)) = started (ws_log s) @ [hd (ws_outbound s)]"
  by (auto simp: write_next_def split: list.split)

text \<open>A new message at the end of the queue.\<close>

lemma push_line:
  assumes "phase_ok s" "\<not> ws_stopping s"
  shows "started (ws_log (if ws_connected s \<and> \<not> ws_write_in_progress s then write_next (s\<lparr>ws_outbound := ws_outbound s @ [m]\<rparr>) else s)) @
      (if ws_connected s then tl (ws_outbound s @ [m]) else ws_outbound s @ [m]) = started (ws_log s) @ unsent s @ [m]"
proof (cases "ws_connected s")
  case True
  then obtain n where on: "online s n" using assms(1) by (auto simp: phase_ok_def)
  show ?thesis
  proof (cases "ws_write_in_progress s")
    case True
    with on \<open>ws_connected s\<close> show ?thesis by (auto simp: unsent_def online_def)
  next
    case False
    with on \<open>ws_connected s\<close> assms(2) write_next_log [of "s\<lparr>ws_outbound := [m]\<rparr>" n] show ?thesis by (auto simp: unsent_def online_def)
  qed
qed (simp add: unsent_def)

lemma unsent_update [simp]:
  "unsent (begin_operation x s) = unsent s" "unsent (log_event e s) = unsent s" "unsent (arm_heartbeat k s) = unsent s"
  "unsent (completed x s) = unsent s" "unsent (s\<lparr>ws_socket := so\<rparr>) = unsent s" "unsent (s\<lparr>ws_next_socket := k\<rparr>) = unsent s"
  "unsent (s\<lparr>ws_posted := p\<rparr>) = unsent s" "unsent (s\<lparr>ws_reconnect_scheduled := b\<rparr>) = unsent s"
  "unsent (s\<lparr>ws_awaiting_response := b\<rparr>) = unsent s" "unsent (s\<lparr>ws_outbound_count := c\<rparr>) = unsent s"
  "unsent (s\<lparr>ws_write_in_progress := b\<rparr>) = unsent s" "unsent (s\<lparr>ws_running := b\<rparr>) = unsent s" "unsent (s\<lparr>ws_stopping := b\<rparr>) = unsent s"
  "unsent (s\<lparr>ws_reserved := k\<rparr>) = unsent s" "unsent (s\<lparr>ws_next_id := k\<rparr>) = unsent s" "unsent (s\<lparr>ws_reconnect_delay := d\<rparr>) = unsent s"
  by (simp_all add: unsent_def)

lemma line_split: "users (started (ws_log t) @ unsent t) = users xs \<Longrightarrow> line t = users (xs @ sends (ws_posted t))"
  by (simp add: line_def)

lemma completed_line [simp]: "line (completed x s) = line s" "ids_ok (completed x s) = ids_ok s" "count_ok (completed x s) = count_ok s"
  by (simp_all add: line_def ids_ok_def count_ok_def)

lemma send_posted_ok:
  assumes "phase_ok s" "ids_ok s" "count_ok s" "ws_posted s = Send m # rest"
  shows "ids_ok (send_posted m (s\<lparr>ws_posted := rest\<rparr>)) \<and> count_ok (send_posted m (s\<lparr>ws_posted := rest\<rparr>))"
proof (cases "ws_stopping s")
  case True
  then show ?thesis using assms(2-4)
    by (auto simp: send_posted_def ids_ok_def count_ok_def line_def unsent_def sorted_wrt_append split: if_splits)
next
  case False
  let ?s = "s\<lparr>ws_posted := rest\<rparr>"
  let ?t = "send_posted m ?s"
  have t: "?t = (if ws_connected s \<and> \<not> ws_write_in_progress s then write_next (?s\<lparr>ws_outbound := ws_outbound s @ [m]\<rparr>)
      else ?s\<lparr>ws_outbound := ws_outbound s @ [m]\<rparr>)"
    using False by (simp add: send_posted_def Let_def)
  have "phase_ok ?s" using assms(1,4) phase_same [of ?s s] by (simp add: connects_def)
  from push_line [OF this, of m] False
  have "started (ws_log ?t) @ unsent ?t = started (ws_log s) @ unsent s @ [m]"
    by (auto simp: t unsent_def)
  then have "line ?t = users ((started (ws_log s) @ unsent s @ [m]) @ sends (ws_posted ?t))" by (intro line_split) (rule arg_cong)
  moreover have "ws_posted ?t = rest" by (simp add: t)
  ultimately have "line ?t = line s" using assms(4) by (simp add: line_def [of s])
  moreover have "ws_next_id ?t = ws_next_id s" by (simp add: t)
  ultimately have "ids_ok ?t" using assms(2) ids_same by blast
  then show ?thesis using assms(3,4) by (simp add: count_ok_def t)
qed

lemma heartbeat_fired_ok:
  assumes "phase_ok s" "ids_ok s" "count_ok s"
  shows "ids_ok (heartbeat_fired n s) \<and> count_ok (heartbeat_fired n s)"
proof (cases "ws_socket s = Some n \<and> ws_connected s \<and> \<not> ws_stopping s \<and> timer_elapsed (ws_awaiting_response s) = HeartbeatSend")
  case True
  let ?m = "\<lparr>om_payload = wc_heartbeat_request (ws_config s), om_heartbeat = True, om_id = 0\<rparr>"
  let ?s = "s\<lparr>ws_outbound_count := ws_outbound_count s + 1\<rparr>"
  let ?t = "heartbeat_fired n s"
  have t: "?t = (if ws_connected s \<and> \<not> ws_write_in_progress s then write_next (?s\<lparr>ws_outbound := ws_outbound s @ [?m]\<rparr>)
      else ?s\<lparr>ws_outbound := ws_outbound s @ [?m]\<rparr>)"
    using True by (simp add: heartbeat_fired_def Let_def)
  have "phase_ok ?s" using assms(1) phase_same [of ?s s] by simp
  from push_line [OF this, of ?m] True
  have "started (ws_log ?t) @ unsent ?t = started (ws_log s) @ unsent s @ [?m]"
    by (auto simp: t unsent_def)
  then have "line ?t = users ((started (ws_log s) @ unsent s @ [?m]) @ sends (ws_posted ?t))" by (intro line_split) (rule arg_cong)
  moreover have "ws_posted ?t = ws_posted s" by (simp add: t)
  ultimately have "line ?t = line s" by (simp add: line_def [of s])
  moreover have "ws_next_id ?t = ws_next_id s" by (simp add: t)
  ultimately have "ids_ok ?t" using assms(2) ids_same by blast
  then show ?thesis using assms(3) by (simp add: count_ok_def t)
next
  case False
  then have "heartbeat_fired n s = s \<or> (\<exists>msg. heartbeat_fired n s = ws_fail (Some n) msg s)"
    by (auto simp: heartbeat_fired_def timer_elapsed_def)
  then show ?thesis using assms fail_ids fail_count by metis
qed

lemma write_done_ok:
  assumes "phase_ok s" "ids_ok s" "count_ok s" "Write n m \<in> set (ws_operations s)"
  shows "ids_ok (write_done n m closed err (completed (Write n m) s)) \<and> count_ok (write_done n m closed err (completed (Write n m) s))"
proof (cases "err = None \<and> ws_socket s = Some n")
  case True
  have mem: "Write n m \<in> set (ops is_write s)" using assms(4) by (simp add: ops_def)
  obtain rest where on: "ws_connected s" "ws_outbound s = m # rest"
    using stream_op [OF assms(1,4)] mem True by (auto simp: online_def waiting_def split: if_splits)
  let ?s1 = "(completed (Write n m) s)\<lparr>ws_outbound := rest, ws_outbound_count := ws_outbound_count s - 1, ws_write_in_progress := False\<rparr>"
  let ?s2 = "if om_heartbeat m then arm_heartbeat n (?s1\<lparr>ws_awaiting_response := True\<rparr>) else ?s1"
  have eq: "write_done n m closed err (completed (Write n m) s) = (if rest = [] then ?s2 else write_next ?s2)"
    using True on by (auto simp: write_done_def Let_def)
  have "started (ws_log (write_next ?s2)) = started (ws_log s) @ [hd rest]" if "rest \<noteq> []"
    using that True on write_next_log [of ?s2 n] by simp
  then have "line (if rest = [] then ?s2 else write_next ?s2) = line s"
    using on by (cases rest) (auto simp: line_def unsent_def)
  moreover have "ws_next_id (if rest = [] then ?s2 else write_next ?s2) = ws_next_id s" by simp
  ultimately have "ids_ok (if rest = [] then ?s2 else write_next ?s2)" using assms(2) ids_same by blast
  then show ?thesis using assms(3) on unfolding eq by (simp add: count_ok_def)
next
  case False
  have "ids_ok ((completed (Write n m) s)\<lparr>ws_write_in_progress := False\<rparr>)" "count_ok ((completed (Write n m) s)\<lparr>ws_write_in_progress := False\<rparr>)"
    using assms(2,3) by (simp_all add: ids_ok_def line_def count_ok_def)
  then show ?thesis using False assms(2,3) fail_ids fail_count by (auto simp: write_done_def split: option.splits)
qed

lemma handshake_ok:
  assumes "phase_ok s" "ids_ok s" "count_ok s" "Ws_handshake n \<in> set (ws_operations s)"
  shows "ids_ok (handshake_done n closed err (completed (Ws_handshake n) s)) \<and>
    count_ok (handshake_done n closed err (completed (Ws_handshake n) s))"
proof (cases err)
  case (Some e)
  then show ?thesis using assms(2,3) fail_ids fail_count by (simp add: handshake_done_def)
next
  case None
  note c = chain_op [OF assms(1,4), simplified]
  let ?s = "completed (Ws_handshake n) s"
  let ?s2 = "begin_operation (Read n) (log_event Opened
      (set_connected True [] (?s\<lparr>ws_reconnect_delay := wc_initial_reconnect_delay (ws_config ?s)\<rparr>)))"
  have eq: "handshake_done n closed err ?s = arm_heartbeat n (maybe_write ?s2)"
    using c None by (simp add: handshake_done_def Let_def)
  have "line (maybe_write ?s2) = line s"
    using c write_next_log [of ?s2 n] by (cases "ws_outbound s") (auto simp: maybe_write_def line_def unsent_def)
  moreover have "line (arm_heartbeat n t) = line t" for t by (simp add: line_def)
  moreover have "ws_next_id (arm_heartbeat n (maybe_write ?s2)) = ws_next_id s" by (simp add: maybe_write_def)
  ultimately show ?thesis unfolding eq using assms(2,3) ids_same [of "arm_heartbeat n (maybe_write ?s2)" s]
    by (auto simp: count_ok_def maybe_write_def)
qed

lemma message_ok:
  assumes "ids_ok s" "count_ok s"
  shows "ids_ok (message_read n msg s) \<and> count_ok (message_read n msg s)"
proof (cases "ws_socket s = Some n")
  case True
  obtain a f where
    f: "message_read n msg s = begin_operation (Read n) (f (s\<lparr>ws_awaiting_response := a\<rparr>))"
      "f \<in> {id, arm_heartbeat n, log_event (Message msg), \<lambda>t. log_event (Message msg) (arm_heartbeat n t)}" by (rule message_read_shape [OF True])
  then have "line (message_read n msg s) = line s" "ws_next_id (message_read n msg s) = ws_next_id s"
    "count_ok (message_read n msg s) = count_ok s" by (auto simp: line_def count_ok_def)
  then show ?thesis using assms ids_same by blast
qed (use assms in \<open>simp add: message_read_def\<close>)

lemma connect_ok: "ids_ok s \<Longrightarrow> count_ok s \<Longrightarrow> ids_ok (ws_connect s) \<and> count_ok (ws_connect s)"
  by (auto simp: ws_connect_def ids_ok_def line_def count_ok_def)

lemma chain_ok:
  assumes "ids_ok s" "count_ok s"
  shows "ids_ok (resolved err sni s) \<and> count_ok (resolved err sni s)" "ids_ok (tcp_connected n err s) \<and> count_ok (tcp_connected n err s)"
    "ids_ok (tls_done n err s) \<and> count_ok (tls_done n err s)"
proof -
  have new: "ids_ok (begin_operation x s)" "count_ok (begin_operation x s)" "ids_ok (s\<lparr>ws_socket := so, ws_next_socket := k\<rparr>)"
    "count_ok (s\<lparr>ws_socket := so, ws_next_socket := k\<rparr>)" "ids_ok (begin_operation x (s\<lparr>ws_socket := so, ws_next_socket := k\<rparr>))"
    "count_ok (begin_operation x (s\<lparr>ws_socket := so, ws_next_socket := k\<rparr>))" for x so k
    using assms by (simp_all add: ids_ok_def line_def count_ok_def)
  show "ids_ok (resolved err sni s) \<and> count_ok (resolved err sni s)" "ids_ok (tcp_connected n err s) \<and> count_ok (tcp_connected n err s)"
    "ids_ok (tls_done n err s) \<and> count_ok (tls_done n err s)"
    using new fail_ids fail_count assms by (auto simp: resolved_def tcp_connected_def tls_done_def Let_def split: option.split)
qed

section \<open>Delays and bounds\<close>

definition delay_in :: "ws_config \<Rightarrow> int \<Rightarrow> bool" where
  "delay_in c d \<longleftrightarrow> (0 \<le> wc_initial_reconnect_delay c \<and> wc_initial_reconnect_delay c \<le> wc_maximum_reconnect_delay c \<longrightarrow>
     wc_initial_reconnect_delay c \<le> d \<and> d \<le> wc_maximum_reconnect_delay c)"

definition delay_ok :: "websocket \<Rightarrow> bool" where
  "delay_ok s \<longleftrightarrow> delay_in (ws_config s) (ws_reconnect_delay s) \<and>
     (\<forall>d. Reconnect_wait d \<in> set (ops is_wait s) \<longrightarrow> delay_in (ws_config s) d)"

definition bound_ok :: "websocket \<Rightarrow> bool" where
  "bound_ok s \<longleftrightarrow> ws_outbound_count s \<le> wc_maximum_outbound_messages (ws_config s) + length (filter om_heartbeat (ws_outbound s))"

lemma delay_same:
  assumes "ws_config t = ws_config s" "ws_reconnect_delay t \<in> {ws_reconnect_delay s, wc_initial_reconnect_delay (ws_config s)}"
    "set (ops is_wait t) \<subseteq> set (ops is_wait s)" "delay_ok s"
  shows "delay_ok t"
  using assms by (auto simp: delay_ok_def delay_in_def)

lemma fail_delay: "delay_ok s \<Longrightarrow> delay_ok (ws_fail socket msg s)"
  by (auto simp: ws_fail_def Let_def delay_ok_def delay_in_def)

lemma fail_bound: "bound_ok s \<Longrightarrow> bound_ok (ws_fail socket msg s)"
proof -
  assume b: "bound_ok s"
  have "length (filter om_heartbeat (ws_outbound s)) \<le> length (ws_outbound s)" by (rule length_filter_le)
  with b have "ws_outbound_count s - length (ws_outbound s) \<le> wc_maximum_outbound_messages (ws_config s)"
    unfolding bound_ok_def by linarith
  with b show ?thesis by (auto simp: ws_fail_def Let_def bound_ok_def)
qed

lemma fail_fields [simp]: "ws_config (ws_fail socket msg s) = ws_config s" "ws_stopping (ws_fail socket msg s) = ws_stopping s"
    "ws_io_stopped (ws_fail socket msg s) = ws_io_stopped s" "ws_posted (ws_fail socket msg s) = ws_posted s"
    "started (ws_log (ws_fail socket msg s)) = started (ws_log s)"
  by (simp_all add: ws_fail_def Let_def)

text \<open>Handlers neither post nor stop.\<close>

definition limits_ok :: "websocket \<Rightarrow> websocket \<Rightarrow> bool" where
  "limits_ok s t \<longleftrightarrow> delay_ok t \<and> bound_ok t \<and> ws_stopping t = ws_stopping s \<and> ws_io_stopped t = ws_io_stopped s \<and> ws_posted t = ws_posted s"

lemma limits_fail: "delay_ok s \<Longrightarrow> bound_ok s \<Longrightarrow> limits_ok s (ws_fail socket msg s)"
  using fail_delay fail_bound by (simp add: limits_ok_def)

lemma write_next_stopped [simp]: "ws_io_stopped (write_next s) = ws_io_stopped s"
  by (auto simp: write_next_def split: option.split list.split)

lemma limits_completed:
  assumes "delay_ok s" "bound_ok s"
  shows "delay_ok (completed x s) \<and> bound_ok (completed x s)"
proof
  show "delay_ok (completed x s)"
    by (rule delay_same [OF _ _ _ assms(1)]) (auto simp: ops_completed dest: notin_set_remove1 in_set_remove1 set_remove1_subset [THEN subsetD])
qed (use assms(2) in \<open>simp add: bound_ok_def\<close>)

lemma limits_chain:
  assumes "delay_ok s" "bound_ok s"
  shows "limits_ok s (resolved err sni s)" "limits_ok s (tcp_connected n err s)" "limits_ok s (tls_done n err s)"
proof -
  have f: "limits_ok s (ws_fail so msg s)" for so msg using limits_fail [OF assms] .
  have new: "limits_ok s (begin_operation x s)" "limits_ok s (begin_operation x (s\<lparr>ws_socket := so, ws_next_socket := k\<rparr>))" if "\<not> is_wait x" for x so k
    using assms that by (auto simp: limits_ok_def bound_ok_def delay_ok_def)
  have "delay_ok (s\<lparr>ws_socket := so, ws_next_socket := k\<rparr>)" "bound_ok (s\<lparr>ws_socket := so, ws_next_socket := k\<rparr>)"
    for so k using assms by (simp_all add: delay_ok_def bound_ok_def)
  from limits_fail [OF this] have "limits_ok s (ws_fail so' msg (s\<lparr>ws_socket := so, ws_next_socket := k\<rparr>))" for so so' k msg
    by (simp add: limits_ok_def)
  with f new show "limits_ok s (resolved err sni s)" "limits_ok s (tcp_connected n err s)" "limits_ok s (tls_done n err s)"
    by (auto simp: resolved_def tcp_connected_def tls_done_def Let_def split: option.split)
qed

lemma limits_handshake:
  assumes "delay_ok s" "bound_ok s"
  shows "limits_ok s (handshake_done n closed err s)"
proof (cases "err = None \<and> ws_socket s = Some n")
  case True
  let ?s2 = "begin_operation (Read n) (log_event Opened
      (set_connected True [] (s\<lparr>ws_reconnect_delay := wc_initial_reconnect_delay (ws_config s)\<rparr>)))"
  let ?t = "arm_heartbeat n (maybe_write ?s2)"
  have eq: "handshake_done n closed err s = ?t" using True by (simp add: handshake_done_def Let_def)
  have "delay_ok ?t" by (rule delay_same [OF _ _ _ assms(1)]) (auto simp: maybe_write_def)
  then show ?thesis unfolding eq using assms(2) by (simp add: limits_ok_def bound_ok_def maybe_write_def)
qed (use assms limits_fail in \<open>auto simp: handshake_done_def limits_ok_def split: option.splits\<close>)

lemma limits_message:
  assumes "delay_ok s" "bound_ok s"
  shows "limits_ok s (message_read n msg s)"
proof (cases "ws_socket s = Some n")
  case True
  obtain a f where f: "message_read n msg s = begin_operation (Read n) (f (s\<lparr>ws_awaiting_response := a\<rparr>))"
      "f \<in> {id, arm_heartbeat n, log_event (Message msg), \<lambda>t. log_event (Message msg) (arm_heartbeat n t)}" by (rule message_read_shape [OF True])
  then have "delay_ok (message_read n msg s)" by (intro delay_same [OF _ _ _ assms(1)]) (auto simp del: split_paired_Ex)
  with f assms(2) show ?thesis by (auto simp: limits_ok_def bound_ok_def)
qed (use assms in \<open>simp add: message_read_def limits_ok_def\<close>)

lemma limits_heartbeat:
  assumes "delay_ok s" "bound_ok s"
  shows "limits_ok s (heartbeat_fired n s)"
proof -
  let ?s = "s\<lparr>ws_outbound_count := ws_outbound_count s + 1, ws_outbound := ws_outbound s @
      [\<lparr>om_payload = wc_heartbeat_request (ws_config s), om_heartbeat = True, om_id = 0\<rparr>]\<rparr>"
  have "delay_ok ?s" "delay_ok (write_next ?s)" by (rule delay_same [OF _ _ _ assms(1)]; auto)+
  then have "limits_ok s ?s" "limits_ok s (write_next ?s)" using assms(2) by (simp_all add: limits_ok_def bound_ok_def)
  with limits_fail [OF assms] assms(1,2) show ?thesis by (auto simp: heartbeat_fired_def Let_def limits_ok_def)
qed

lemma limits_write:
  assumes "delay_ok s" "bound_ok s" "ws_socket s = Some n \<Longrightarrow> \<exists>rest. ws_outbound s = m # rest"
  shows "limits_ok s (write_done n m closed err s)"
proof (cases "err = None \<and> ws_socket s = Some n")
  case True
  then obtain rest where ob: "ws_outbound s = m # rest" using assms(3) by blast
  let ?s1 = "s\<lparr>ws_outbound := rest, ws_outbound_count := ws_outbound_count s - 1, ws_write_in_progress := False\<rparr>"
  let ?s2 = "if om_heartbeat m then arm_heartbeat n (?s1\<lparr>ws_awaiting_response := True\<rparr>) else ?s1"
  have eq: "write_done n m closed err s = (if rest = [] then ?s2 else write_next ?s2)"
    using True ob by (auto simp: write_done_def Let_def)
  have "delay_ok ?s2" "delay_ok (write_next ?s2)" by (rule delay_same [OF _ _ _ assms(1)]; auto)+
  then show ?thesis unfolding eq using assms(2) ob by (cases "om_heartbeat m") (auto simp: limits_ok_def bound_ok_def)
next
  case False
  have "delay_ok (s\<lparr>ws_write_in_progress := False\<rparr>)" "bound_ok (s\<lparr>ws_write_in_progress := False\<rparr>)"
    using assms(1,2) by (simp_all add: delay_ok_def bound_ok_def)
  from limits_fail [OF this] False assms(1,2) show ?thesis by (auto simp: write_done_def limits_ok_def split: option.splits)
qed

section \<open>The invariant\<close>

definition ws_inv :: "websocket \<Rightarrow> bool" where
  "ws_inv s \<longleftrightarrow> (\<not> ws_io_stopped s \<longrightarrow> phase_ok s \<and> ids_ok s) \<and> count_ok s \<and> delay_ok s \<and> bound_ok s \<and>
     sorted_wrt (<) (map om_id (users (started (ws_log s)))) \<and> (ws_io_stopped s \<or> Stop \<in> set (ws_posted s) \<longrightarrow> ws_stopping s)"

lemma ids_started: "ids_ok s \<Longrightarrow> sorted_wrt (<) (map om_id (users (started (ws_log s))))"
  by (simp add: ids_ok_def line_def sorted_wrt_append)

text \<open>A handler of the loop that keeps the parts keeps the whole.\<close>

lemma handler_inv:
  assumes "ws_inv s" "\<not> ws_io_stopped s" "phase_ok t" "ids_ok t \<and> count_ok t" "limits_ok s t"
  shows "ws_inv t"
  using assms ids_started [of t] by (simp add: ws_inv_def limits_ok_def)

lemma posted_inv:
  assumes inv: "ws_inv s" "\<not> ws_io_stopped s" and p: "ws_posted s = p # rest"
  shows "ws_inv (run_posted p (s\<lparr>ws_posted := rest\<rparr>))"
proof (cases p)
  case Stop
  have "delay_ok (run_posted Stop (s\<lparr>ws_posted := rest\<rparr>))"
    by (rule delay_same [of _ s]) (use inv(1) in \<open>auto simp: ws_inv_def run_posted_def stop_posted_def\<close>)
  with inv p Stop show ?thesis
    by (auto simp: ws_inv_def run_posted_def stop_posted_def count_ok_def bound_ok_def ids_ok_def line_def)
next
  case Connect
  let ?s = "s\<lparr>ws_posted := rest\<rparr>"
  have "ids_ok ?s" "count_ok ?s" using inv p Connect by (simp_all add: ws_inv_def ids_ok_def line_def count_ok_def)
  then have ok: "ids_ok (ws_connect ?s)" "count_ok (ws_connect ?s)" using connect_ok by blast+
  have "delay_ok (ws_connect ?s)" by (rule delay_same [of _ s]) (use inv(1) in \<open>auto simp: ws_inv_def ws_connect_def\<close>)
  moreover have "phase_ok (ws_connect ?s)" using posted_phase [of s p rest] inv p Connect by (simp add: ws_inv_def run_posted_def)
  ultimately show ?thesis using ok inv p Connect ids_started [OF ok(1)]
    by (auto simp: ws_inv_def run_posted_def bound_ok_def ws_connect_def)
next
  case (Send m)
  let ?t = "send_posted m (s\<lparr>ws_posted := rest\<rparr>)"
  have ok: "ids_ok ?t" "count_ok ?t" using send_posted_ok [of s m rest] inv p Send by (simp_all add: ws_inv_def)
  have "delay_ok ?t" by (rule delay_same [of _ s]) (use inv(1) in \<open>auto simp: ws_inv_def send_posted_def Let_def\<close>)
  moreover have "phase_ok ?t" using posted_phase [of s p rest] inv p Send by (simp add: ws_inv_def run_posted_def)
  moreover have "bound_ok ?t" using inv(1) by (auto simp: ws_inv_def bound_ok_def send_posted_def Let_def)
  moreover have "ws_io_stopped ?t = ws_io_stopped s" "ws_stopping ?t = ws_stopping s" "ws_posted ?t = rest"
    by (simp_all add: send_posted_def Let_def)
  ultimately show ?thesis using ok inv p Send ids_started [OF ok(1)] by (auto simp: ws_inv_def run_posted_def)
qed

lemma call_inv:
  assumes inv: "ws_inv s"
  shows "ws_inv (ws_start s)" "ws_inv (ws_stop s)" "send_reserve s = Some s' \<Longrightarrow> ws_inv s'" "0 < ws_reserved s \<Longrightarrow> ws_inv (send_post message s)"
proof -
  have ph: "ws_step s t \<Longrightarrow> \<not> ws_io_stopped t \<longrightarrow> phase_ok t" for t using phase_step inv by (auto simp: ws_inv_def)
  have d: "delay_ok t" if "ws_config t = ws_config s" "ws_reconnect_delay t = ws_reconnect_delay s" "ops is_wait t = ops is_wait s" for t
    by (rule delay_same [of t s]) (use that inv in \<open>auto simp: ws_inv_def\<close>)
  have "delay_ok (ws_start s)" "delay_ok (ws_stop s)" by (auto simp: ws_start_def ws_stop_def intro!: d)
  then show "ws_inv (ws_start s)" "ws_inv (ws_stop s)"
    using ph [OF start] ph [OF stop] inv
    by (auto simp: ws_inv_def ws_start_def ws_stop_def ids_ok_def line_def count_ok_def bound_ok_def)
  show "send_reserve s = Some s' \<Longrightarrow> ws_inv s'"
  proof -
    assume r: "send_reserve s = Some s'"
    then have "phase_ok s' = phase_ok s" by (simp add: send_reserve_def split: if_splits) (rule phase_same; auto)
    moreover have "delay_ok s'" by (rule d) (use r in \<open>auto simp: send_reserve_def split: if_splits\<close>)
    moreover have "s' = s\<lparr>ws_outbound_count := ws_outbound_count s + 1, ws_reserved := ws_reserved s + 1\<rparr>"
        "ws_outbound_count s < wc_maximum_outbound_messages (ws_config s)" using r by (auto simp: send_reserve_def split: if_splits)
    ultimately show ?thesis using inv by (simp add: ws_inv_def ids_ok_def line_def count_ok_def bound_ok_def)
  qed
  assume "0 < ws_reserved s"
  moreover have "delay_ok (send_post message s)" by (rule d) (simp_all add: send_post_def)
  moreover have "line (send_post message s) = line s @ [\<lparr>om_payload = message, om_heartbeat = False, om_id = ws_next_id s\<rparr>]"
    by (simp add: send_post_def line_def)
  then have "ids_ok (send_post message s)" if "ids_ok s"
    using that by (auto simp: ids_ok_def sorted_wrt_append less_SucI) (simp_all add: send_post_def less_SucI)
  ultimately show "ws_inv (send_post message s)"
    using ph [OF post] inv by (simp add: ws_inv_def count_ok_def bound_ok_def) (simp add: send_post_def)
qed

lemma ws_inv_step:
  assumes inv: "ws_inv s" and step: "ws_step s s'"
  shows "ws_inv s'"
proof (cases "ws_io_stopped s")
  case True
  then show ?thesis using step call_inv [OF inv] by (auto elim: ws_step.cases)
next
  case False
  note parts = inv [unfolded ws_inv_def] and c = limits_completed
  have ph: "phase_ok s'" if "\<not> ws_io_stopped s'" using phase_step [OF step] parts False that by simp
  have lim: "limits_ok (completed x s) t \<Longrightarrow> limits_ok s t" for x t by (simp add: limits_ok_def)
  have ok: "delay_ok (completed x s)" "bound_ok (completed x s)" "ids_ok (completed x s)" "count_ok (completed x s)" for x
    using parts False c by auto
  have fin: "ids_ok t \<and> count_ok t \<Longrightarrow> limits_ok (completed x s) t \<Longrightarrow> s' = t \<Longrightarrow> ws_inv s'" for x t
    using handler_inv [OF inv False] lim ph False by (auto simp: limits_ok_def)
  show ?thesis using step
  proof cases
    case (posted p rest)
    then show ?thesis using posted_inv [OF inv False] by simp
  next
    case (resolve err sni)
    then show ?thesis using fin [OF chain_ok(1) [OF ok(3,4)] limits_chain(1) [OF ok(1,2)]] by blast
  next
    case (tcp n err)
    then show ?thesis using fin [OF chain_ok(2) [OF ok(3,4)] limits_chain(2) [OF ok(1,2)]] by blast
  next
    case (tls n err)
    then show ?thesis using fin [OF chain_ok(3) [OF ok(3,4)] limits_chain(3) [OF ok(1,2)]] by blast
  next
    case (handshake n closed err)
    then show ?thesis using fin [OF handshake_ok limits_handshake [OF ok(1,2)]] parts False by blast
  next
    case (message n msg)
    then show ?thesis using fin [OF message_ok [OF ok(3,4)] limits_message [OF ok(1,2)]] by blast
  next
    case (read_failed n closed err)
    then show ?thesis using fin [OF conjI [OF fail_ids [OF ok(3)] fail_count [OF ok(4)]] limits_fail [OF ok(1,2)]] by blast
  next
    case (written n m closed err)
    have "\<exists>rest. ws_outbound s = m # rest" if "ws_socket s = Some n"
      using stream_op [of s "Write n m"] parts False written in_ops [of "Write n m" s is_write] that
      by (auto simp: online_def waiting_def split: if_splits)
    then show ?thesis using fin [OF write_done_ok limits_write [OF ok(1,2)]] parts False written by auto
  next
    case (heartbeat n)
    have "phase_ok (completed (Heartbeat_wait n) s)" using heartbeat_op parts False by blast
    then show ?thesis using fin [OF heartbeat_fired_ok limits_heartbeat [OF ok(1,2)]] ok heartbeat by blast
  next
    case (heartbeat_canceled n)
    then show ?thesis using fin [of "completed (Heartbeat_wait n) s"] ok by (simp add: limits_ok_def)
  next
    case (reconnect d)
    let ?t = "ws_connect (completed (Reconnect_wait d) s)"
    have "delay_ok ?t" by (rule delay_same [of _ "completed (Reconnect_wait d) s"]) (use ok(1) in \<open>auto simp: ws_connect_def\<close>)
    then have "limits_ok (completed (Reconnect_wait d) s) ?t" using ok(2) by (auto simp: limits_ok_def bound_ok_def ws_connect_def)
    moreover have "limits_ok (completed (Reconnect_wait d) s) (completed (Reconnect_wait d) s)" using ok by (simp add: limits_ok_def)
    ultimately show ?thesis using fin connect_ok [OF ok(3,4)] ok reconnect by metis
  qed (use call_inv [OF inv] in auto)
qed

interpretation ws_run: invariant_system ws_step ws_inv
  by unfold_locales (rule ws_inv_step)

lemma new_websocket_inv: "new_websocket c = Inr s \<Longrightarrow> ws_inv s"
  by (auto simp: new_websocket_def rbind_eq_Inr_iff ws_inv_def phase_ok_def offline_def unconnected_def connects_def ops_def
      ids_ok_def line_def unsent_def count_ok_def delay_ok_def delay_in_def bound_ok_def split: if_splits)

text \<open>The configuration never changes.\<close>

lemma message_read_config: "ws_config (message_read n msg s) = ws_config s"
proof (cases "ws_socket s = Some n")
  case True
  obtain a f where f: "message_read n msg s = begin_operation (Read n) (f (s\<lparr>ws_awaiting_response := a\<rparr>))"
      "f \<in> {id, arm_heartbeat n, log_event (Message msg), \<lambda>t. log_event (Message msg) (arm_heartbeat n t)}" by (rule message_read_shape [OF True])
  then show ?thesis by auto
qed (simp add: message_read_def)

lemma config_step: "ws_step s s' \<Longrightarrow> ws_config s' = ws_config s"
proof (induction rule: ws_step.induct)
  case (posted s p rest)
  then show ?case by (cases p) (simp_all add: run_posted_def ws_connect_def stop_posted_def send_posted_def Let_def)
next
  case (written s n m closed err)
  then show ?case by (cases err) (simp_all add: write_done_def Let_def)
next
  case (handshake s n closed err)
  then show ?case by (cases err) (simp_all add: handshake_done_def maybe_write_def Let_def)
next
  case (resolve s err sni)
  then show ?case by (cases err; cases sni) (simp_all add: resolved_def Let_def)
qed (auto simp: ws_start_def ws_stop_def send_reserve_def send_post_def tcp_connected_def tls_done_def message_read_config
    heartbeat_fired_def ws_connect_def Let_def split: option.splits if_splits)

lemma config_run: "ws_step\<^sup>*\<^sup>* s s' \<Longrightarrow> ws_config s' = ws_config s"
  by (induction rule: rtranclp_induct) (simp_all add: config_step)

text \<open>A heartbeat that falls due behind a write in progress leaves no timer behind: only the end of that write, or a message
  of the peer, arms one again, so a stalled write is never noticed.\<close>

lemma stalled_write_unwatched:
  assumes "ws_socket s = Some n" "ws_connected s" "\<not> ws_stopping s" "ws_write_in_progress s" "\<not> ws_awaiting_response s"
    "filter (\<lambda>x. x = Heartbeat_wait n) (ws_operations s) = [Heartbeat_wait n]"
  shows "Heartbeat_wait n \<notin> set (ws_operations (heartbeat_fired n (completed (Heartbeat_wait n) s)))"
proof -
  have "filter (\<lambda>x. x = Heartbeat_wait n) (remove1 (Heartbeat_wait n) (ws_operations s)) = []"
    using assms(6) by (simp add: filter_remove1)
  then show ?thesis
    using assms by (simp add: heartbeat_fired_def timer_elapsed_def Let_def completed_def filter_empty_conv) blast
qed

section \<open>A run\<close>

definition sample_config :: ws_config where
  "sample_config = \<lparr>wc_url = ''wss://h/p'', wc_initial_reconnect_delay = 250, wc_maximum_reconnect_delay = 10000,
     wc_heartbeat_request = [], wc_heartbeat_response = [], wc_heartbeat_idle = 0, wc_heartbeat_timeout = 0,
     wc_maximum_outbound_messages = 4\<rparr>"

definition sample_socket :: websocket where
  "sample_socket = \<lparr>ws_config = sample_config, ws_socket = None, ws_next_socket = 0, ws_outbound = [], ws_outbound_count = 0,
     ws_write_in_progress = False, ws_awaiting_response = False, ws_reconnect_scheduled = False, ws_reconnect_delay = 250,
     ws_running = False, ws_stopping = False, ws_connected = False, ws_io_stopped = False, ws_posted = [], ws_operations = [],
     ws_reserved = 0, ws_next_id = 0, ws_log = []\<rparr>"

lemma sample_socket_new: "new_websocket sample_config = Inr sample_socket"
  by (simp add: new_websocket_def sample_config_def sample_socket_def parse_url_def websocket_authority_def starts_with_def)

lemmas handler_defs = run_posted_def ws_connect_def begin_operation_def completed_def resolved_def tcp_connected_def tls_done_def
  handshake_done_def set_connected_def log_event_def maybe_write_def arm_heartbeat_def heartbeat_enabled_def send_post_def
  send_posted_def write_next_def Let_def

text \<open>Start, a connection, one message on its way.\<close>

lemma sample_connected:
  obtains s where "ws_step\<^sup>*\<^sup>* sample_socket s" "ws_connected s" "ws_running s" "\<not> ws_stopping s" "ws_posted s = []" "\<not> ws_io_stopped s"
    "ws_outbound s = []" "ws_outbound_count s = 0" "ws_config s = sample_config" "\<not> ws_write_in_progress s" "ws_socket s = Some 0"
    "started (ws_log s) = []" "ws_next_id s = 0" "ws_reserved s = 0"
proof -
  let ?s1 = "sample_socket\<lparr>ws_running := True, ws_posted := [Connect]\<rparr>"
  let ?s2 = "sample_socket\<lparr>ws_running := True, ws_operations := [Resolve]\<rparr>"
  let ?s3 = "sample_socket\<lparr>ws_running := True, ws_socket := Some 0, ws_next_socket := 1, ws_operations := [Tcp_connect 0]\<rparr>"
  let ?s4 = "?s3\<lparr>ws_operations := [Tls_handshake 0]\<rparr>"
  let ?s5 = "?s3\<lparr>ws_operations := [Ws_handshake 0]\<rparr>"
  let ?s6 = "?s3\<lparr>ws_operations := [Read 0], ws_connected := True, ws_log := [Connection True [], Opened]\<rparr>"
  have "ws_step sample_socket ?s1" using start [of sample_socket] by (simp add: ws_start_def sample_socket_def)
  moreover have "ws_step ?s1 ?s2" using posted [of ?s1 Connect "[]"] by (simp add: handler_defs sample_socket_def)
  moreover have "ws_step ?s2 ?s3" using resolve [of ?s2 None None] by (simp add: handler_defs sample_socket_def)
  moreover have "ws_step ?s3 ?s4" using tcp [of ?s3 0 None] by (simp add: handler_defs sample_socket_def)
  moreover have "ws_step ?s4 ?s5" using tls [of ?s4 0 None] by (simp add: handler_defs sample_socket_def)
  moreover have "ws_step ?s5 ?s6" using handshake [of ?s5 0 None None] by (simp add: handler_defs sample_socket_def sample_config_def)
  ultimately have "ws_step\<^sup>*\<^sup>* sample_socket ?s6" by (meson converse_rtranclp_into_rtranclp rtranclp.rtrancl_refl)
  then show ?thesis by (rule that) (simp_all add: sample_socket_def started_def)
qed

lemma ws_sample_sent:
  obtains s where "ws_step\<^sup>*\<^sup>* sample_socket s" "ws_connected s" "ws_running s" "\<not> ws_stopping s"
    "map om_payload (started (ws_log s)) = [''hi'']" "ws_config s = sample_config"
proof -
  obtain s where s: "ws_step\<^sup>*\<^sup>* sample_socket s" "ws_connected s" "ws_running s" "\<not> ws_stopping s" "ws_posted s = []" "\<not> ws_io_stopped s"
    "ws_outbound s = []" "ws_outbound_count s = 0" "ws_config s = sample_config" "\<not> ws_write_in_progress s" "ws_socket s = Some 0"
    "started (ws_log s) = []" "ws_next_id s = 0" "ws_reserved s = 0" by (rule sample_connected)
  let ?m = "\<lparr>om_payload = ''hi'', om_heartbeat = False, om_id = 0\<rparr>"
  let ?s1 = "s\<lparr>ws_outbound_count := 1, ws_reserved := 1\<rparr>"
  let ?s2 = "s\<lparr>ws_outbound_count := 1, ws_reserved := 0, ws_next_id := 1, ws_posted := [Send ?m]\<rparr>"
  let ?s3 = "run_posted (Send ?m) (?s2\<lparr>ws_posted := []\<rparr>)"
  have "ws_step s ?s1" using s by (intro reserve) (simp_all add: send_reserve_def sample_config_def)
  moreover have "ws_step ?s1 ?s2" using post [of ?s1 "''hi''"] s by (simp add: send_post_def)
  moreover have "ws_step ?s2 ?s3" using posted [of ?s2 "Send ?m" "[]"] s by simp
  ultimately have run: "ws_step\<^sup>*\<^sup>* sample_socket ?s3" using s(1) by (meson rtranclp.rtrancl_into_rtrancl)
  have "started (ws_log ?s3) = [?m]" "ws_connected ?s3" "ws_running ?s3" "\<not> ws_stopping ?s3" "ws_config ?s3 = sample_config"
    using s by (simp_all add: run_posted_def send_posted_def write_next_def)
  with run show ?thesis using that [of ?s3] by simp
qed

section \<open>Properties\<close>

text \<open>C17. Messages are never replayed: over all connections, failures and interleavings with sending threads, the messages that are
  handed to the network are handed over once each and in the order in which \<open>send\<close> accepted them; what a failure
  drops is not sent later.\<close>

theorem ws_never_replays:
  assumes "new_websocket c = Inr s0" and "ws_step\<^sup>*\<^sup>* s0 s"
  shows "sorted_wrt (<) (map om_id (filter (\<lambda>m. \<not> om_heartbeat m) (started (ws_log s))))"
  using ws_run.reachable_inv [OF assms(2) new_websocket_inv [OF assms(1)]] by (simp add: ws_inv_def)

theorem ws_never_replays_witness:
  "\<exists>s. ws_step\<^sup>*\<^sup>* sample_socket s \<and> map om_payload (started (ws_log s)) = [''hi''] \<and>
     sorted_wrt (<) (map om_id (filter (\<lambda>m. \<not> om_heartbeat m) (started (ws_log s))))"
proof -
  obtain s where s: "ws_step\<^sup>*\<^sup>* sample_socket s" "map om_payload (started (ws_log s)) = [''hi'']" by (rule ws_sample_sent)
  show ?thesis using s ws_never_replays [OF sample_socket_new s(1)] by (intro exI [of _ s] conjI)
qed

text \<open>C18. A client that was started and not stopped always recovers: it is connected with one read under way and writes whenever a
  message waits, or exactly one step towards a connection is under way, be it a posted connect, a step of an attempt or
  the reconnect timer.\<close>

theorem ws_always_recovering:
  assumes "new_websocket c = Inr s0" and "ws_step\<^sup>*\<^sup>* s0 s" and "ws_running s" and "\<not> ws_stopping s"
  shows "if ws_connected s
    then (\<exists>n. ws_socket s = Some n \<and> ops is_read s = [Read n] \<and> ops is_chain s = [] \<and> ops is_wait s = [] \<and> connects s = [] \<and>
      (if ws_outbound s = [] then ops is_write s = [] else ops is_write s = [Write n (hd (ws_outbound s))]))
    else length (ops is_chain s) + length (ops is_wait s) + length (connects s) = 1"
proof -
  have "ws_inv s" using ws_run.reachable_inv [OF assms(2) new_websocket_inv [OF assms(1)]] .
  then have ph: "phase_ok s" using assms(4) by (simp add: ws_inv_def)
  show ?thesis
  proof (cases "ws_connected s")
    case True
    then obtain n where "online s n" using ph by (auto simp: phase_ok_def)
    then show ?thesis using True assms(4) by (auto simp: online_def split: if_splits)
  next
    case False
    then show ?thesis using ph assms(3,4) by (auto simp: phase_ok_def offline_def waiting_def unconnected_def attempting_def)
  qed
qed

theorem ws_always_recovering_witness:
  "\<exists>s n. ws_step\<^sup>*\<^sup>* sample_socket s \<and> ws_connected s \<and> ops is_read s = [Read n]"
proof -
  obtain s where s: "ws_step\<^sup>*\<^sup>* sample_socket s" "ws_connected s" "ws_running s" "\<not> ws_stopping s" by (rule ws_sample_sent)
  from ws_always_recovering [OF sample_socket_new this(1,3,4)] s(2) obtain n where "ops is_read s = [Read n]" by auto
  with s show ?thesis by blast
qed

text \<open>The queue is accounted for and bounded: the atomic count is the number of messages queued, posted or about to be posted, it
  exceeds the configured capacity at most by queued heartbeats, and, with sensible settings, every delay before a new
  attempt lies between the initial and the maximum one.\<close>

theorem ws_bounds:
  assumes "new_websocket c = Inr s0" and "ws_step\<^sup>*\<^sup>* s0 s"
    and "0 \<le> wc_initial_reconnect_delay c" and "wc_initial_reconnect_delay c \<le> wc_maximum_reconnect_delay c"
  shows "ws_outbound_count s = length (ws_outbound s) + length (sends (ws_posted s)) + ws_reserved s \<and>
    ws_outbound_count s \<le> wc_maximum_outbound_messages c + length (filter om_heartbeat (ws_outbound s)) \<and>
    (\<forall>d. Reconnect_wait d \<in> set (ws_operations s) \<longrightarrow>
      wc_initial_reconnect_delay c \<le> d \<and> d \<le> wc_maximum_reconnect_delay c)"
proof -
  have "ws_config s0 = c" using assms(1) by (auto simp: new_websocket_def rbind_eq_Inr_iff split: if_splits)
  then have "ws_config s = c" using config_run [OF assms(2)] by simp
  with ws_run.reachable_inv [OF assms(2) new_websocket_inv [OF assms(1)]] assms(3,4) show ?thesis
    by (auto simp: ws_inv_def count_ok_def bound_ok_def delay_ok_def delay_in_def ops_def)
qed

theorem ws_bounds_witness:
  "\<exists>s. ws_step\<^sup>*\<^sup>* sample_socket s \<and> ws_connected s \<and>
     ws_outbound_count s = length (ws_outbound s) + length (sends (ws_posted s)) + ws_reserved s"
proof -
  obtain s where s: "ws_step\<^sup>*\<^sup>* sample_socket s" "ws_connected s" "ws_config s = sample_config" by (rule ws_sample_sent)
  from ws_bounds [OF sample_socket_new s(1)] s show ?thesis by (auto simp: sample_config_def)
qed

end
