(* ===== verification/Abex_Okx_Adapter.thy ===== *)
theory Abex_Okx_Adapter
  imports Abex_Http Abex_Rate_Limiter
begin

text \<open>
  The OKX adapter (\<open>src/infrastructure/okx_adapter.cpp\<close>): signed REST requests for commands and queries, and the private
  stream that reports executions.

  The world outside is an argument of the operations: what a transfer answers, given all requests so far, the clocks, and
  OpenSSL. Texts handed to the WebSocket client and calls of the two callbacks of the gateway are lists in the state.

  A command or a query of the gateway is one step of a run. A change of the session is two: the thread of the WebSocket client stores
  \<open>authenticated_\<close> first and calls \<open>connection_callback_\<close> afterwards (\<open>ok_telling\<close> holds the call that
  is to come), and other threads may place orders in between.
\<close>

section \<open>State\<close>

record okx_config =
  oc_rest_url :: string
  oc_api_key :: string
  oc_secret_key :: string
  oc_passphrase :: string
  oc_demo :: bool
  oc_instrument_cache_ttl :: int

record okx_adapter =
  ok_config :: okx_config
  ok_limiter :: token_bucket
  ok_instrument_cache :: "string \<rightharpoonup> int \<times> instrument_rules_query_result"
  ok_alias_to_client :: "string \<rightharpoonup> string"
  ok_attached :: bool
  ok_authenticated :: bool
  ok_telling :: "venue_event option"
  ok_requests :: "http_request list"
  ok_sent :: "string list"
  ok_events :: "venue_event list"

record okx_world =
  ow_transfer :: "http_request list \<Rightarrow> string + http_response"
  ow_date_time :: "http_request list \<Rightarrow> string option"
  ow_unix_ms :: "http_request list \<Rightarrow> int"
  ow_steady_ns :: "http_request list \<Rightarrow> int"
  ow_hmac :: "string \<Rightarrow> string \<Rightarrow> nat list result"
  ow_encode_block :: "nat list \<Rightarrow> string option"

definition new_okx_adapter :: "okx_config \<Rightarrow> token_bucket \<Rightarrow> okx_adapter" where
  "new_okx_adapter c limiter =
     \<lparr>ok_config = c, ok_limiter = limiter, ok_instrument_cache = Map.empty, ok_alias_to_client = Map.empty, ok_attached = False,
      ok_authenticated = False, ok_telling = None, ok_requests = [], ok_sent = [], ok_events = []\<rparr>"

definition okx_start :: "okx_adapter \<Rightarrow> okx_adapter" where
  "okx_start s = s\<lparr>ok_attached := True\<rparr>"

definition okx_stop :: "okx_adapter \<Rightarrow> okx_adapter" where
  "okx_stop s = s\<lparr>ok_authenticated := False\<rparr>"

definition add_alias :: "string \<Rightarrow> string \<Rightarrow> okx_adapter \<Rightarrow> okx_adapter" where
  "add_alias alias cid s = s\<lparr>ok_alias_to_client := (ok_alias_to_client s)(alias \<mapsto> cid)\<rparr>"

definition notify :: "venue_event \<Rightarrow> okx_adapter \<Rightarrow> okx_adapter" where
  "notify e s = (if ok_attached s then s\<lparr>ok_events := ok_events s @ [e]\<rparr> else s)"

text \<open>A call of \<open>connection_callback_\<close> that follows what the thread has stored, and the call itself.\<close>

definition announce :: "venue_event \<Rightarrow> okx_adapter \<Rightarrow> okx_adapter" where
  "announce e s = (if ok_attached s then s\<lparr>ok_telling := Some e\<rparr> else s)"

definition tell :: "okx_adapter \<Rightarrow> okx_adapter" where
  "tell s = (case ok_telling s of None \<Rightarrow> s | Some e \<Rightarrow> notify e (s\<lparr>ok_telling := None\<rparr>))"

text \<open>\<open>restore\<close>: the iteration order of an order's aliases does not matter, since they all lead to the same id.\<close>

definition restore_aliases :: "order \<Rightarrow> okx_adapter \<Rightarrow> okx_adapter" where
  "restore_aliases ord s =
     (if venue ord \<noteq> Okx then s
      else let s1 = add_alias (client_id_to_exchange (client_order_id ord)) (client_order_id ord)
                      (add_alias (client_order_id ord) (client_order_id ord) s)
           in s1\<lparr>ok_alias_to_client := (\<lambda>k. if k \<in> exchange_client_id_aliases ord then Some (client_order_id ord)
                                            else ok_alias_to_client s1 k)\<rparr>)"

definition okx_restore :: "order list \<Rightarrow> okx_adapter \<Rightarrow> okx_adapter" where
  "okx_restore recovered s = fold restore_aliases recovered s"

section \<open>Requests\<close>

definition okx_acquire :: "okx_world \<Rightarrow> int \<Rightarrow> okx_adapter \<Rightarrow> bool \<times> okx_adapter" where
  "okx_acquire w tokens s =
     (case acquire (ow_steady_ns w (ok_requests s)) (tokens * units_per_token) (ok_limiter s) of
        (granted, b) \<Rightarrow> (granted, s\<lparr>ok_limiter := b\<rparr>))"

definition signed_http_request :: "okx_config \<Rightarrow> string \<Rightarrow> string \<Rightarrow> string \<Rightarrow> string \<Rightarrow> string \<Rightarrow> http_request" where
  "signed_http_request c timestamp signature verb request_path body =
     \<lparr>hq_method = verb, hq_url = oc_rest_url c @ request_path,
      hq_headers = [(''Accept'', ''application/json''), (''Content-Type'', ''application/json''),
                    (''OK-ACCESS-KEY'', oc_api_key c), (''OK-ACCESS-SIGN'', signature), (''OK-ACCESS-TIMESTAMP'', timestamp),
                    (''OK-ACCESS-PASSPHRASE'', oc_passphrase c)] @
                   (if oc_demo c then [(''x-simulated-trading'', ''1'')] else []),
      hq_body = body, hq_timeout_ms = 5000\<rparr>"

definition okx_response :: "'j venue_json \<Rightarrow> http_response \<Rightarrow> 'j result" where
  "okx_response V response =
     (if hr_status response = 429 then Inl (Runtime_error ''OKX HTTP rate limit exceeded'')
      else if hr_status response \<ge> 500
      then Inl (Runtime_error (''OKX server error HTTP '' @ int_to_string (hr_status response)))
      else if hr_body response = [] then Inl (Runtime_error ''OKX returned an empty response'')
      else j_parse (vj_core V) (hr_body response))"

definition okx_rest_request ::
    "okx_world \<Rightarrow> 'j venue_json \<Rightarrow> string \<Rightarrow> string \<Rightarrow> string \<Rightarrow> okx_adapter \<Rightarrow> 'j result \<times> okx_adapter" where
  "okx_rest_request w V verb request_path body s =
     (case rbind (iso8601_utc (ow_date_time w (ok_requests s)) (ow_unix_ms w (ok_requests s))) (\<lambda>timestamp.
             rbind (hmac_sha256_base64 (ow_hmac w) (ow_encode_block w) (oc_secret_key (ok_config s))
                     (timestamp @ verb @ request_path @ body)) (\<lambda>signature.
               Inr (signed_http_request (ok_config s) timestamp signature verb request_path body))) of
        Inl e \<Rightarrow> (Inl e, s)
      | Inr request \<Rightarrow>
          let requests = ok_requests s @ [request]
          in (rbind (http_perform (ow_transfer w requests) request) (okx_response V), s\<lparr>ok_requests := requests\<rparr>))"

definition okx_write_operation :: "okx_world \<Rightarrow> 'j venue_json \<Rightarrow> string \<Rightarrow> 'j \<Rightarrow> okx_adapter \<Rightarrow> adapter_result \<times> okx_adapter" where
  "okx_write_operation w V path body s =
     (case okx_rest_request w V ''POST'' path (j_dump (vj_core V) body) s of
        (Inl e, s1) \<Rightarrow> (uncertain_result ''OKX_TRANSPORT_ERROR'' e, s1)
      | (Inr response, s1) \<Rightarrow> (okx_parse_ack V response, s1))"

section \<open>Queries\<close>

definition okx_query_path :: "order \<Rightarrow> string" where
  "okx_query_path ord =
     ''/api/v5/trade/order?instId='' @ symbol ord @
     (if exchange_order_id ord \<noteq> [] then ''&ordId='' @ exchange_order_id ord
      else ''&clOrdId='' @ client_id_to_exchange (client_order_id ord))"

text \<open>A market order that OKX reports as filled below the requested quantity was reduced by the venue.\<close>

definition reduced_market_report :: "order \<Rightarrow> execution_report \<Rightarrow> execution_report" where
  "reduced_market_report ord rep =
     (if type ord = Market \<and> rp_status rep = Filled \<and> rp_cumulative_filled rep < quantity ord
      then rep\<lparr>rp_status := Canceled,
               rp_reason := ''OKX completed an automatically reduced market order: filled '' @
                 to_string (rp_cumulative_filled rep) @ '' of requested '' @ to_string (quantity ord)\<rparr>
      else rep)"

definition okx_query_answer :: "'j venue_json \<Rightarrow> order \<Rightarrow> 'j \<Rightarrow> execution_report option result" where
  "okx_query_answer V ord response =
     rbind (v_value V (j_get_string (vj_core V)) response ''code'' []) (\<lambda>code.
       if code \<noteq> ''0'' then Inr None
       else case v_find V response ''data'' of
              None \<Rightarrow> Inr None
            | Some d \<Rightarrow>
                if vj_is_empty V d then Inr None
                else rbind (okx_parse_order_update V (vj_front V d)) (\<lambda>rep.
                       Inr (Some (reduced_market_report ord (rep\<lparr>rp_client_order_id := client_order_id ord\<rparr>)))))"

definition okx_query :: "okx_world \<Rightarrow> 'j venue_json \<Rightarrow> order \<Rightarrow> okx_adapter \<Rightarrow> execution_report option result \<times> okx_adapter" where
  "okx_query w V ord s =
     (case okx_acquire w 1 s of
        (False, s1) \<Rightarrow> (Inr None, s1)
      | (True, s1) \<Rightarrow>
          (case okx_rest_request w V ''GET'' (okx_query_path ord) [] s1 of
             (response, s2) \<Rightarrow> (rbind response (okx_query_answer V ord), s2)))"

definition okx_query_balances ::
    "okx_world \<Rightarrow> 'j venue_json \<Rightarrow> string option \<Rightarrow> okx_adapter \<Rightarrow> balance_query_result \<times> okx_adapter" where
  "okx_query_balances w V currency s =
     (let failed = (\<lambda>e. balance_error Okx ''OKX_BALANCE_TRANSPORT_ERROR'' (what e)) in
      case normalized_currency currency of
        Inl e \<Rightarrow> (failed e, s)
      | Inr ccy \<Rightarrow>
          (case okx_acquire w 2 s of
             (False, s1) \<Rightarrow> (balance_error Okx ''LOCAL_RATE_LIMIT'' ''OKX balance-query budget exhausted'', s1)
           | (True, s1) \<Rightarrow>
               (case okx_rest_request w V ''GET'' ''/api/v5/account/config'' [] s1 of
                  (Inl e, s2) \<Rightarrow> (failed e, s2)
                | (Inr account_config, s2) \<Rightarrow>
                    (case okx_rest_request w V ''GET''
                            (''/api/v5/account/balance'' @ (case ccy of None \<Rightarrow> [] | Some c \<Rightarrow> ''?ccy='' @ c)) [] s2 of
                       (response, s3) \<Rightarrow>
                         (case rbind response (okx_parse_balances V (ow_unix_ms w (ok_requests s3)) account_config) of
                            Inl e \<Rightarrow> (failed e, s3)
                          | Inr r \<Rightarrow> (r, s3))))))"

definition okx_cached_rules :: "int \<Rightarrow> string \<Rightarrow> okx_adapter \<Rightarrow> instrument_rules_query_result option" where
  "okx_cached_rules now smb s =
     (case ok_instrument_cache s smb of
        None \<Rightarrow> None
      | Some (t, r) \<Rightarrow> if now - t < oc_instrument_cache_ttl (ok_config s) then Some r else None)"

text \<open>In the handler of an exception the symbol was moved into \<open>normalized_symbol\<close> and, when that threw, not assigned back: it
  is then empty.\<close>

definition okx_query_instrument_rules ::
    "okx_world \<Rightarrow> 'j venue_json \<Rightarrow> string \<Rightarrow> okx_adapter \<Rightarrow> instrument_rules_query_result \<times> okx_adapter" where
  "okx_query_instrument_rules w V requested s =
     (let failed = (\<lambda>smb e. rules_error_for Okx smb ''OKX_INSTRUMENT_RULES_TRANSPORT_ERROR'' (what e)) in
      case normalized_symbol requested of
        Inl e \<Rightarrow> (failed [] e, s)
      | Inr smb \<Rightarrow>
          (case okx_cached_rules (ow_steady_ns w (ok_requests s)) smb s of
             Some r \<Rightarrow> (r, s)
           | None \<Rightarrow>
               (case okx_acquire w 1 s of
                  (False, s1) \<Rightarrow>
                    (rules_error_for Okx smb ''LOCAL_RATE_LIMIT'' ''OKX instrument-rule query budget exhausted'', s1)
                | (True, s1) \<Rightarrow>
                    (case okx_rest_request w V ''GET'' (''/api/v5/account/instruments?instType=SPOT&instId='' @ smb) [] s1 of
                       (response, s2) \<Rightarrow>
                         (case rbind response (okx_parse_instrument_rules V (ow_unix_ms w (ok_requests s2))) of
                            Inl e \<Rightarrow> (failed smb e, s2)
                          | Inr r \<Rightarrow>
                              (r, if iq_ok r
                                  then s2\<lparr>ok_instrument_cache :=
                                         (ok_instrument_cache s2)(smb \<mapsto> (ow_steady_ns w (ok_requests s2), r))\<rparr>
                                  else s2))))))"

definition okx_open_orders_answer :: "'j venue_json \<Rightarrow> 'j \<Rightarrow> execution_report list option result" where
  "okx_open_orders_answer V response =
     rbind (v_value V (j_get_string (vj_core V)) response ''code'' []) (\<lambda>code.
       case v_find V response ''data'' of
         Some d \<Rightarrow>
           if code \<noteq> ''0'' \<or> \<not> vj_is_array V d then Inr None
           else rbind (parse_updates (okx_parse_order_update V) (vj_elements V d)) (\<lambda>rs. Inr (Some rs))
       | None \<Rightarrow> Inr None)"

definition okx_query_open_orders :: "okx_world \<Rightarrow> 'j venue_json \<Rightarrow> okx_adapter \<Rightarrow> execution_report list option \<times> okx_adapter" where
  "okx_query_open_orders w V s =
     (case okx_acquire w 1 s of
        (False, s1) \<Rightarrow> (None, s1)
      | (True, s1) \<Rightarrow>
          (case okx_rest_request w V ''GET'' ''/api/v5/trade/orders-pending?instType=SPOT'' [] s1 of
             (response, s2) \<Rightarrow>
               (case rbind response (okx_open_orders_answer V) of Inl e \<Rightarrow> (None, s2) | Inr rs \<Rightarrow> (rs, s2))))"

section \<open>Commands\<close>

definition add_report :: "execution_report \<Rightarrow> adapter_result \<Rightarrow> adapter_result" where
  "add_report rep r = r\<lparr>ar_authoritative_reports := ar_authoritative_reports r @ [rep]\<rparr>"

definition okx_place :: "okx_world \<Rightarrow> 'j venue_json \<Rightarrow> order \<Rightarrow> okx_adapter \<Rightarrow> adapter_result \<times> okx_adapter" where
  "okx_place w V ord s =
     (if \<not> ok_authenticated s then (refused_result ''OKX_NOT_READY'' ''OKX private order stream is not subscribed'', s)
      else case okx_acquire w 1 s of
             (False, s1) \<Rightarrow> (rate_limited ''OKX place-order budget exhausted'', s1)
           | (True, s1) \<Rightarrow>
               (case okx_write_operation w V ''/api/v5/trade/order'' (okx_place_request V ord)
                       (add_alias (client_id_to_exchange (client_order_id ord)) (client_order_id ord) s1) of
                  (r, s2) \<Rightarrow>
                    if ar_accepted r \<and> type ord = Market \<and> ar_exchange_order_id r \<noteq> []
                    then (case okx_query w V (ord\<lparr>exchange_order_id := ar_exchange_order_id r\<rparr>) s2 of
                            (Inr (Some rep), s3) \<Rightarrow> (add_report rep r, s3)
                          | (_, s3) \<Rightarrow> (r, s3))
                    else (r, s2)))"

definition okx_cancel :: "okx_world \<Rightarrow> 'j venue_json \<Rightarrow> order \<Rightarrow> okx_adapter \<Rightarrow> adapter_result \<times> okx_adapter" where
  "okx_cancel w V ord s =
     (case okx_acquire w 1 s of
        (False, s1) \<Rightarrow> (rate_limited ''OKX cancel-order budget exhausted'', s1)
      | (True, s1) \<Rightarrow> okx_write_operation w V ''/api/v5/trade/cancel-order'' (okx_cancel_request V ord) s1)"

text \<open>Unlike placing, amending does not catch an exception of the query that follows the acknowledgement.\<close>

definition okx_amend ::
    "okx_world \<Rightarrow> 'j venue_json \<Rightarrow> order \<Rightarrow> decimal option \<Rightarrow> decimal option \<Rightarrow> okx_adapter \<Rightarrow>
     adapter_result result \<times> okx_adapter" where
  "okx_amend w V ord new_price new_quantity s =
     (case okx_acquire w 1 s of
        (False, s1) \<Rightarrow> (Inr (rate_limited ''OKX amend-order budget exhausted''), s1)
      | (True, s1) \<Rightarrow>
          (case okx_write_operation w V ''/api/v5/trade/amend-order'' (okx_amend_request V ord new_price new_quantity) s1 of
             (r, s2) \<Rightarrow>
               if ar_accepted r
               then (case okx_query w V ord s2 of
                       (Inl e, s3) \<Rightarrow> (Inl e, s3)
                     | (Inr None, s3) \<Rightarrow> (Inr r, s3)
                     | (Inr (Some rep), s3) \<Rightarrow> (Inr (add_report rep r), s3))
               else (Inr r, s2)))"

section \<open>The private stream\<close>

definition okx_websocket_opened :: "okx_world \<Rightarrow> 'j venue_json \<Rightarrow> ('j list \<Rightarrow> 'j) \<Rightarrow> int \<Rightarrow> okx_adapter \<Rightarrow> okx_adapter result" where
  "okx_websocket_opened w V array unix_s s =
     (let c = ok_config s; timestamp = int_to_string unix_s; object = j_object (vj_core V); txt = j_of_string (vj_core V) in
      rbind (hmac_sha256_base64 (ow_hmac w) (ow_encode_block w) (oc_secret_key c) (timestamp @ ''GET/users/self/verify'')) (\<lambda>signature.
        Inr (s\<lparr>ok_sent := ok_sent s @
          [j_dump (vj_core V) (object
            [(''op'', txt ''login''),
             (''args'', array [object [(''apiKey'', txt (oc_api_key c)), (''passphrase'', txt (oc_passphrase c)),
                                       (''timestamp'', txt timestamp), (''sign'', txt signature)]])])]\<rparr>)))"

definition okx_websocket_connection :: "bool \<Rightarrow> string \<Rightarrow> okx_adapter \<Rightarrow> okx_adapter" where
  "okx_websocket_connection connected why s =
     (if connected then s else announce (Connection_changed False why) (s\<lparr>ok_authenticated := False\<rparr>))"

definition okx_subscription :: "'j venue_json \<Rightarrow> ('j list \<Rightarrow> 'j) \<Rightarrow> string" where
  "okx_subscription V array =
     (let object = j_object (vj_core V); txt = j_of_string (vj_core V) in
      j_dump (vj_core V) (object [(''id'', txt ''abexorders''), (''op'', txt ''subscribe''),
        (''args'', array [object [(''channel'', txt ''orders''), (''instType'', txt ''ANY'')]])]))"

text \<open>The channel a message names, when it has an \<open>arg\<close>.\<close>

definition orders_channel :: "'j venue_json \<Rightarrow> 'j \<Rightarrow> bool result" where
  "orders_channel V j =
     (case v_find V j ''arg'' of
        None \<Rightarrow> Inr False
      | Some a \<Rightarrow> rbind (v_value V (j_get_string (vj_core V)) a ''channel'' []) (\<lambda>ch. Inr (ch = ''orders'')))"

definition resolve_alias :: "okx_adapter \<Rightarrow> execution_report \<Rightarrow> execution_report" where
  "resolve_alias s rep =
     (case ok_alias_to_client s (rp_client_order_id rep) of
        None \<Rightarrow> rep
      | Some cid \<Rightarrow> rep\<lparr>rp_client_order_id := cid\<rparr>)"

text \<open>The reports of a frame are handed on one by one; the first that cannot be read ends the frame.\<close>

fun okx_deliver :: "'j venue_json \<Rightarrow> 'j list \<Rightarrow> okx_adapter \<Rightarrow> okx_adapter" where
  "okx_deliver V [] s = s"
| "okx_deliver V (item # items) s =
     (case okx_parse_order_update V item of
        Inl e \<Rightarrow> s
      | Inr rep \<Rightarrow> okx_deliver V items (notify (Execution (resolve_alias s rep)) s))"

definition okx_login_answer :: "'j venue_json \<Rightarrow> ('j list \<Rightarrow> 'j) \<Rightarrow> 'j \<Rightarrow> okx_adapter \<Rightarrow> okx_adapter result" where
  "okx_login_answer V array j s =
     rbind (v_value V (j_get_string (vj_core V)) j ''code'' []) (\<lambda>code.
       if code \<noteq> ''0''
       then rbind (v_value V (j_get_string (vj_core V)) j ''msg'' ''OKX login rejected'') (\<lambda>msg.
              Inr (okx_websocket_connection False msg s))
       else Inr (s\<lparr>ok_authenticated := False, ok_sent := ok_sent s @ [okx_subscription V array]\<rparr>))"

definition okx_error_reason :: "string \<Rightarrow> string \<Rightarrow> string" where
  "okx_error_reason code detail =
     ''OKX private order subscription rejected'' @ (if code = [] then [] else '' ('' @ code @ '')'') @
     (if detail = [] then [] else '': '' @ detail)"

text \<open>An exception in the handler of a message leaves what was done before it: storing \<open>authenticated_\<close> precedes reading the
  texts of an error.\<close>

definition okx_error_answer :: "'j venue_json \<Rightarrow> 'j \<Rightarrow> okx_adapter \<Rightarrow> okx_adapter" where
  "okx_error_answer V j s =
     (let s1 = s\<lparr>ok_authenticated := False\<rparr> in
      case rbind (v_value V (j_get_string (vj_core V)) j ''code'' []) (\<lambda>code.
             rbind (v_value V (j_get_string (vj_core V)) j ''msg'' []) (\<lambda>detail. Inr (okx_error_reason code detail))) of
        Inl e \<Rightarrow> s1
      | Inr why \<Rightarrow> announce (Connection_changed False why) s1)"

definition okx_stream_message :: "'j venue_json \<Rightarrow> ('j list \<Rightarrow> 'j) \<Rightarrow> 'j \<Rightarrow> okx_adapter \<Rightarrow> okx_adapter" where
  "okx_stream_message V array j s =
     (case v_value V (j_get_string (vj_core V)) j ''event'' [] of
        Inl e \<Rightarrow> s
      | Inr ev \<Rightarrow>
          if ev = ''login'' then (case okx_login_answer V array j s of Inl e \<Rightarrow> s | Inr s1 \<Rightarrow> s1)
          else (case orders_channel V j of
                  Inl e \<Rightarrow> s
                | Inr on_orders \<Rightarrow>
                    if ev = ''subscribe'' \<and> on_orders then announce (Connection_changed True []) (s\<lparr>ok_authenticated := True\<rparr>)
                    else if ev = ''error'' \<or> ev = ''channel-conn-count-error'' then okx_error_answer V j s
                    else if \<not> on_orders then s
                    else (case v_find V j ''data'' of
                            None \<Rightarrow> s
                          | Some d \<Rightarrow> if ok_attached s then okx_deliver V (vj_elements V d) s else s)))"

definition okx_websocket_message :: "'j venue_json \<Rightarrow> ('j list \<Rightarrow> 'j) \<Rightarrow> string \<Rightarrow> okx_adapter \<Rightarrow> okx_adapter" where
  "okx_websocket_message V array message s =
     (case j_parse (vj_core V) message of Inl e \<Rightarrow> s | Inr j \<Rightarrow> okx_stream_message V array j s)"

section \<open>Runs\<close>

text \<open>The calls of the gateway and the callbacks of the WebSocket client, in any order; the client makes one callback at a time, so that
  the next one waits until the gateway was told about a change of the session. \<open>owner\<close> names the order behind an id on
  the side of the venue; orders that are placed or restored agree with it.\<close>

definition named_by :: "(string \<rightharpoonup> string) \<Rightarrow> order \<Rightarrow> bool" where
  "named_by owner ord \<longleftrightarrow>
     owner (client_order_id ord) = Some (client_order_id ord) \<and>
     owner (client_id_to_exchange (client_order_id ord)) = Some (client_order_id ord) \<and>
     (\<forall>k \<in> exchange_client_id_aliases ord. owner k = Some (client_order_id ord))"

inductive okx_step ::
    "(string \<rightharpoonup> string) \<Rightarrow> okx_world \<Rightarrow> 'j venue_json \<Rightarrow> ('j list \<Rightarrow> 'j) \<Rightarrow> okx_adapter \<Rightarrow> okx_adapter \<Rightarrow> bool"
  for owner w V array where
  start: "okx_step owner w V array s (okx_start s)"
| stop: "okx_step owner w V array s (okx_stop s)"
| restore: "list_all (named_by owner) ords \<Longrightarrow> okx_step owner w V array s (okx_restore ords s)"
| place: "named_by owner ord \<Longrightarrow> okx_place w V ord s = (r, s') \<Longrightarrow> okx_step owner w V array s s'"
| cancel: "okx_cancel w V ord s = (r, s') \<Longrightarrow> okx_step owner w V array s s'"
| amend: "okx_amend w V ord p q s = (r', s') \<Longrightarrow> okx_step owner w V array s s'"
| query: "okx_query w V ord s = (rep, s') \<Longrightarrow> okx_step owner w V array s s'"
| balances: "okx_query_balances w V ccy s = (b, s') \<Longrightarrow> okx_step owner w V array s s'"
| rules: "okx_query_instrument_rules w V smb s = (i, s') \<Longrightarrow> okx_step owner w V array s s'"
| open_orders: "okx_query_open_orders w V s = (os, s') \<Longrightarrow> okx_step owner w V array s s'"
| opened: "ok_attached s \<Longrightarrow> ok_telling s = None \<Longrightarrow> okx_websocket_opened w V array unix_s s = Inr s' \<Longrightarrow>
    okx_step owner w V array s s'"
| message: "ok_attached s \<Longrightarrow> ok_telling s = None \<Longrightarrow> okx_step owner w V array s (okx_websocket_message V array msg s)"
| connection: "ok_attached s \<Longrightarrow> ok_telling s = None \<Longrightarrow>
    okx_step owner w V array s (okx_websocket_connection connected why s)"
| told: "ok_telling s = Some e \<Longrightarrow> okx_step owner w V array s (tell s)"

end
