(* ===== verification/Abex_Okx_Props.thy ===== *)
theory Abex_Okx_Props
  imports Abex_Okx_Adapter Abex_Protocol_Props
begin

text \<open>
  What the OKX adapter guarantees over all runs: every request is signed over its own content, the stream is used only while it
  is subscribed, reports reach the order they belong to, and a definite refusal means that the venue has no order.
\<close>

section \<open>What requests change\<close>

definition properly_signed :: "okx_world \<Rightarrow> okx_config \<Rightarrow> http_request \<Rightarrow> bool" where
  "properly_signed w c request \<longleftrightarrow>
     (\<exists>timestamp signature verb path body. request = signed_http_request c timestamp signature verb path body \<and>
        hmac_sha256_base64 (ow_hmac w) (ow_encode_block w) (oc_secret_key c) (timestamp @ verb @ path @ body) = Inr signature)"

definition only_requests :: "okx_world \<Rightarrow> okx_adapter \<Rightarrow> okx_adapter \<Rightarrow> bool" where
  "only_requests w s s' \<longleftrightarrow>
     ok_config s' = ok_config s \<and> ok_alias_to_client s' = ok_alias_to_client s \<and> ok_attached s' = ok_attached s \<and>
     ok_authenticated s' = ok_authenticated s \<and> ok_telling s' = ok_telling s \<and> ok_sent s' = ok_sent s \<and> ok_events s' = ok_events s \<and>
     (\<exists>rs. ok_requests s' = ok_requests s @ rs \<and> list_all (properly_signed w (ok_config s)) rs)"

lemma only_requests_refl: "only_requests w s s"
  by (simp add: only_requests_def)

lemma only_requests_trans: "only_requests w s s' \<Longrightarrow> only_requests w s' s'' \<Longrightarrow> only_requests w s s''"
  by (auto simp: only_requests_def)

lemma only_requests_signed:
  "only_requests w s s' \<Longrightarrow> list_all (properly_signed w (ok_config s)) (ok_requests s) \<Longrightarrow>
     list_all (properly_signed w (ok_config s')) (ok_requests s')"
  by (auto simp: only_requests_def)

lemma acquire_only:
  assumes "okx_acquire w n s = (g, s')"
  shows "only_requests w s s'" "ok_requests s' = ok_requests s"
  using assms by (auto simp: okx_acquire_def only_requests_def split: prod.splits)

text \<open>A request that is not made leaves the state; one that is made is signed.\<close>

lemma rest_cases:
  assumes "okx_rest_request w V verb path body s = (x, s')"
  obtains e where "x = Inl e" "s' = s"
  | timestamp signature where
    "hmac_sha256_base64 (ow_hmac w) (ow_encode_block w) (oc_secret_key (ok_config s)) (timestamp @ verb @ path @ body) = Inr signature"
    "s' = s\<lparr>ok_requests := ok_requests s @ [signed_http_request (ok_config s) timestamp signature verb path body]\<rparr>"
    "x = rbind (http_perform (ow_transfer w (ok_requests s')) (signed_http_request (ok_config s) timestamp signature verb path body))
      (okx_response V)"
proof -
  let ?c = "ok_config s"
  let ?signed = "rbind (iso8601_utc (ow_date_time w (ok_requests s)) (ow_unix_ms w (ok_requests s))) (\<lambda>timestamp.
    rbind (hmac_sha256_base64 (ow_hmac w) (ow_encode_block w) (oc_secret_key ?c) (timestamp @ verb @ path @ body)) (\<lambda>signature.
      Inr (signed_http_request ?c timestamp signature verb path body)))"
  show thesis
  proof (cases ?signed)
    case (Inl e)
    then show ?thesis using assms by (intro that(1) [of e]) (simp_all add: okx_rest_request_def)
  next
    case (Inr request)
    then obtain timestamp signature where "request = signed_http_request ?c timestamp signature verb path body"
      "hmac_sha256_base64 (ow_hmac w) (ow_encode_block w) (oc_secret_key ?c) (timestamp @ verb @ path @ body) = Inr signature"
      by (auto elim!: rbind_InrE)
    then show ?thesis using assms Inr by (intro that(2)) (auto simp: okx_rest_request_def Let_def)
  qed
qed

lemma rest_only: "okx_rest_request w V verb path body s = (x, s') \<Longrightarrow> only_requests w s s'"
proof (erule rest_cases)
  fix timestamp signature
  assume "hmac_sha256_base64 (ow_hmac w) (ow_encode_block w) (oc_secret_key (ok_config s)) (timestamp @ verb @ path @ body) = Inr signature"
    and s': "s' = s\<lparr>ok_requests := ok_requests s @ [signed_http_request (ok_config s) timestamp signature verb path body]\<rparr>"
  then have "properly_signed w (ok_config s) (signed_http_request (ok_config s) timestamp signature verb path body)"
    unfolding properly_signed_def by blast
  then show ?thesis using s' by (simp add: only_requests_def)
qed (simp add: only_requests_refl)

lemma write_only: "okx_write_operation w V path body s = (r, s') \<Longrightarrow> only_requests w s s'"
  by (auto simp: okx_write_operation_def dest: rest_only split: prod.splits sum.splits)

lemma query_only: "okx_query w V ord s = (r, s') \<Longrightarrow> only_requests w s s'"
  by (auto simp: okx_query_def dest!: acquire_only(1) rest_only split: prod.splits bool.splits) (blast intro: only_requests_trans)+

lemma cancel_only: "okx_cancel w V ord s = (r, s') \<Longrightarrow> only_requests w s s'"
  by (auto simp: okx_cancel_def dest!: acquire_only(1) write_only split: prod.splits bool.splits) (blast intro: only_requests_trans)+

lemma amend_only: "okx_amend w V ord p q s = (r, s') \<Longrightarrow> only_requests w s s'"
  by (auto simp: okx_amend_def dest!: acquire_only(1) write_only query_only
      split: prod.splits bool.splits if_splits sum.splits option.splits) (blast intro: only_requests_trans)+

lemma balances_only: "okx_query_balances w V ccy s = (r, s') \<Longrightarrow> only_requests w s s'"
  by (auto simp: okx_query_balances_def Let_def only_requests_refl dest!: acquire_only(1) rest_only
      split: prod.splits bool.splits sum.splits) (blast intro: only_requests_trans)+

lemma cache_only: "only_requests w s s' \<Longrightarrow> only_requests w s (s'\<lparr>ok_instrument_cache := c\<rparr>)"
  by (simp add: only_requests_def)

lemma rules_only: "okx_query_instrument_rules w V smb s = (r, s') \<Longrightarrow> only_requests w s s'"
  by (auto simp: okx_query_instrument_rules_def Let_def only_requests_refl dest!: acquire_only(1) rest_only
      split: prod.splits bool.splits sum.splits option.splits) (blast intro: only_requests_trans cache_only)+

lemma open_orders_only: "okx_query_open_orders w V s = (r, s') \<Longrightarrow> only_requests w s s'"
  by (auto simp: okx_query_open_orders_def dest!: acquire_only(1) rest_only
      split: prod.splits bool.splits sum.splits) (blast intro: only_requests_trans)+

lemma place_only:
  assumes "okx_place w V ord s = (r, s')"
  shows "only_requests w s s' \<and> ok_requests s' = ok_requests s \<or>
    ok_authenticated s \<and> only_requests w (add_alias (client_id_to_exchange (client_order_id ord)) (client_order_id ord) s) s'"
proof (cases "ok_authenticated s \<and> fst (okx_acquire w 1 s)")
  case False
  then show ?thesis using assms
    by (auto simp: okx_place_def only_requests_refl dest: acquire_only split: if_splits prod.splits bool.splits)
next
  case True
  let ?added = "add_alias (client_id_to_exchange (client_order_id ord)) (client_order_id ord)"
  obtain s1 where s1: "okx_acquire w 1 s = (True, s1)" using True by (cases "okx_acquire w 1 s") auto
  have start: "only_requests w (?added s) (?added s1)"
    using acquire_only [OF s1] by (auto simp: only_requests_def add_alias_def)
  obtain r0 s2 where w2: "okx_write_operation w V ''/api/v5/trade/order'' (okx_place_request V ord) (?added s1) = (r0, s2)" by fastforce
  have "only_requests w s2 s'"
    using assms True s1 w2
    by (auto simp: okx_place_def only_requests_refl dest: query_only split: if_splits prod.splits sum.splits option.splits)
  then show ?thesis using True start write_only [OF w2] only_requests_trans by blast
qed

section \<open>The invariant\<close>

definition is_connection :: "venue_event \<Rightarrow> bool" where
  "is_connection e \<longleftrightarrow> (case e of Connection_changed b why \<Rightarrow> True | Execution rep \<Rightarrow> False)"

text \<open>What the gateway was told last about the connection.\<close>

definition told_connected :: "okx_adapter \<Rightarrow> bool" where
  "told_connected s \<longleftrightarrow>
     (case filter is_connection (rev (ok_events s)) of Connection_changed b why # _ \<Rightarrow> b | _ \<Rightarrow> False)"

text \<open>The thread of the WebSocket client is about to tell it that the venue is connected.\<close>

definition telling_connected :: "okx_adapter \<Rightarrow> bool" where
  "telling_connected s \<longleftrightarrow> (\<exists>why. ok_telling s = Some (Connection_changed True why))"

definition okx_inv :: "(string \<rightharpoonup> string) \<Rightarrow> okx_world \<Rightarrow> okx_adapter \<Rightarrow> bool" where
  "okx_inv owner w s \<longleftrightarrow>
     (\<forall>k c. ok_alias_to_client s k = Some c \<longrightarrow> owner k = Some c) \<and>
     list_all (properly_signed w (ok_config s)) (ok_requests s) \<and>
     (ok_authenticated s \<longrightarrow> ok_telling s = None \<and> told_connected s \<or> telling_connected s) \<and>
     (ok_telling s \<noteq> None \<longrightarrow> ok_attached s)"

lemma inv_only: "okx_inv owner w s \<Longrightarrow> only_requests w s s' \<Longrightarrow> okx_inv owner w s'"
  using only_requests_signed [of w s s'] by (auto simp: okx_inv_def told_connected_def telling_connected_def only_requests_def)

lemma inv_alias: "okx_inv owner w s \<Longrightarrow> owner k = Some c \<Longrightarrow> okx_inv owner w (add_alias k c s)"
  by (auto simp: okx_inv_def told_connected_def telling_connected_def add_alias_def)

lemma told_notify [simp]:
  "ok_attached s \<Longrightarrow> told_connected (notify (Connection_changed b why) s) = b"
  "told_connected (notify (Execution rep) s) = told_connected s"
  by (simp_all add: told_connected_def notify_def is_connection_def)

lemma notify_fields [simp]:
  "ok_alias_to_client (notify e s) = ok_alias_to_client s" "ok_config (notify e s) = ok_config s"
  "ok_requests (notify e s) = ok_requests s" "ok_authenticated (notify e s) = ok_authenticated s" "ok_attached (notify e s) = ok_attached s"
  "ok_telling (notify e s) = ok_telling s" "telling_connected (notify e s) = telling_connected s"
  by (simp_all add: notify_def telling_connected_def)

lemma announce_fields [simp]:
  "ok_alias_to_client (announce e s) = ok_alias_to_client s" "ok_config (announce e s) = ok_config s"
  "ok_requests (announce e s) = ok_requests s" "ok_authenticated (announce e s) = ok_authenticated s"
  "ok_attached (announce e s) = ok_attached s" "ok_attached s \<Longrightarrow> ok_telling (announce e s) = Some e"
  by (simp_all add: announce_def)

lemma told_fields [simp]:
  "told_connected (s\<lparr>ok_authenticated := b\<rparr>) = told_connected s" "told_connected (s\<lparr>ok_sent := t\<rparr>) = told_connected s"
  "told_connected (s\<lparr>ok_attached := b\<rparr>) = told_connected s" "told_connected (s\<lparr>ok_alias_to_client := m\<rparr>) = told_connected s"
  "told_connected (s\<lparr>ok_telling := e\<rparr>) = told_connected s"
  "telling_connected (s\<lparr>ok_authenticated := b\<rparr>) = telling_connected s" "telling_connected (s\<lparr>ok_sent := t\<rparr>) = telling_connected s"
  "telling_connected (s\<lparr>ok_attached := b\<rparr>) = telling_connected s" "telling_connected (s\<lparr>ok_alias_to_client := m\<rparr>) = telling_connected s"
  by (simp_all add: told_connected_def telling_connected_def)

lemma restore_inv: "list_all (named_by owner) ords \<Longrightarrow> okx_inv owner w s \<Longrightarrow> okx_inv owner w (okx_restore ords s)"
proof (induction ords arbitrary: s)
  case (Cons ord ords)
  have "okx_inv owner w (restore_aliases ord s)"
    using Cons(2,3) by (auto simp: restore_aliases_def okx_inv_def named_by_def add_alias_def Let_def split: if_splits)
  then show ?case using Cons by (simp add: okx_restore_def)
qed (simp add: okx_restore_def)

lemma execution_inv: "okx_inv owner w s \<Longrightarrow> okx_inv owner w (notify (Execution rep) s)"
  by (simp add: okx_inv_def)

lemma deliver_inv: "okx_inv owner w s \<Longrightarrow> okx_inv owner w (okx_deliver V items s)"
proof (induction V items s rule: okx_deliver.induct)
  case (2 V item items s)
  show ?case
  proof (cases "okx_parse_order_update V item")
    case (Inr rep)
    then show ?thesis using 2(1) [OF Inr execution_inv [OF 2(2)]] by simp
  qed (simp add: 2(2))
qed simp

lemma sent_inv: "okx_inv owner w s \<Longrightarrow> okx_inv owner w (s\<lparr>ok_sent := t\<rparr>)"
  and unauthenticated_inv: "okx_inv owner w s \<Longrightarrow> okx_inv owner w (s\<lparr>ok_authenticated := False\<rparr>)"
  by (simp_all add: okx_inv_def)

lemma announcing_inv:
  assumes "okx_inv owner w s" "ok_authenticated s \<Longrightarrow> b"
  shows "okx_inv owner w (announce (Connection_changed b why) s)"
  using assms by (cases "ok_attached s") (auto simp: okx_inv_def telling_connected_def announce_def)

lemma lost_inv: "okx_inv owner w s \<Longrightarrow> okx_inv owner w (announce (Connection_changed False why) (s\<lparr>ok_authenticated := False\<rparr>))"
  by (rule announcing_inv) (simp_all add: unauthenticated_inv)

lemma connection_inv: "okx_inv owner w s \<Longrightarrow> okx_inv owner w (okx_websocket_connection b why s)"
  unfolding okx_websocket_connection_def by (simp add: lost_inv)

lemma tell_inv:
  assumes "okx_inv owner w s"
  shows "okx_inv owner w (tell s)"
proof (cases "ok_telling s")
  case (Some e)
  then show ?thesis using assms by (cases e) (auto simp: tell_def okx_inv_def telling_connected_def)
qed (simp add: tell_def assms)

lemma login_inv:
  assumes "okx_inv owner w s" "okx_login_answer V array j s = Inr s'"
  shows "okx_inv owner w s'"
proof -
  obtain code where "(if code \<noteq> ''0'' then rbind (v_value V (j_get_string (vj_core V)) j ''msg'' ''OKX login rejected'') (\<lambda>msg.
      Inr (okx_websocket_connection False msg s))
    else Inr (s\<lparr>ok_authenticated := False, ok_sent := ok_sent s @ [okx_subscription V array]\<rparr>)) = Inr s'"
    using assms(2) unfolding okx_login_answer_def by (rule rbind_InrE)
  then consider msg where "s' = okx_websocket_connection False msg s"
    | "s' = (s\<lparr>ok_authenticated := False\<rparr>)\<lparr>ok_sent := ok_sent s @ [okx_subscription V array]\<rparr>"
    by (auto simp: rbind_eq_Inr_iff split: if_splits)
  then show ?thesis using assms(1) by cases (auto intro: connection_inv sent_inv unauthenticated_inv)
qed

lemma error_inv: "okx_inv owner w s \<Longrightarrow> ok_attached s \<Longrightarrow> okx_inv owner w (okx_error_answer V j s)"
  by (simp add: okx_error_answer_def Let_def unauthenticated_inv lost_inv split: sum.split)

lemma message_inv:
  assumes "okx_inv owner w s" "ok_attached s"
  shows "okx_inv owner w (okx_stream_message V array j s)"
proof -
  have "okx_inv owner w (case okx_login_answer V array j s of Inl e \<Rightarrow> s | Inr s1 \<Rightarrow> s1)"
    using assms login_inv by (auto split: sum.split)
  moreover have "okx_inv owner w (announce (Connection_changed True []) (s\<lparr>ok_authenticated := True\<rparr>))"
    using assms by (simp add: okx_inv_def telling_connected_def)
  ultimately show ?thesis
    using assms by (simp add: okx_stream_message_def error_inv deliver_inv split: sum.split option.split)
qed

lemma opened_inv:
  assumes "okx_inv owner w s" "okx_websocket_opened w V array t s = Inr s'"
  shows "okx_inv owner w s'"
  using assms(2) unfolding okx_websocket_opened_def Let_def
  by (rule rbind_InrE) (use assms(1) sent_inv in auto)

lemma okx_place_inv: "okx_inv owner w s \<Longrightarrow> named_by owner ord \<Longrightarrow> okx_place w V ord s = (r, s') \<Longrightarrow> okx_inv owner w s'"
  by (drule place_only) (auto intro: inv_only inv_alias simp: named_by_def)

lemma okx_inv_step:
  assumes "okx_step owner w V array s s'" "okx_inv owner w s"
  shows "okx_inv owner w s'"
  using assms
proof cases
  case (message msg)
  then show ?thesis using assms(2) by (simp add: okx_websocket_message_def message_inv split: sum.split)
next
  case (place ord r)
  then show ?thesis using assms(2) okx_place_inv by blast
next
  case (opened t)
  then show ?thesis using assms(2) opened_inv by blast
qed (use assms(2) in \<open>simp_all add: okx_start_def okx_stop_def restore_inv connection_inv tell_inv unauthenticated_inv\<close>,
  (simp add: okx_inv_def; fail)?,
  (erule inv_only, erule cancel_only amend_only query_only balances_only rules_only open_orders_only)+)

interpretation okx_run: invariant_system "okx_step owner w V array" "okx_inv owner w"
  by unfold_locales (rule okx_inv_step)

lemma new_okx_inv: "okx_inv owner w (new_okx_adapter c limiter)"
  by (simp add: okx_inv_def new_okx_adapter_def told_connected_def telling_connected_def)

section \<open>Aliases stay known\<close>

definition knows_more :: "okx_adapter \<Rightarrow> okx_adapter \<Rightarrow> bool" where
  "knows_more s s' \<longleftrightarrow> dom (ok_alias_to_client s) \<subseteq> dom (ok_alias_to_client s')"

lemma restore_knows: "knows_more s (okx_restore ords s)"
proof (induction ords arbitrary: s)
  case (Cons ord ords)
  have "knows_more s (restore_aliases ord s)"
    by (auto simp: knows_more_def restore_aliases_def add_alias_def Let_def)
  then show ?case using Cons [of "restore_aliases ord s"] by (auto simp: okx_restore_def knows_more_def)
qed (simp add: okx_restore_def knows_more_def)

lemma only_knows: "only_requests w s s' \<Longrightarrow> knows_more s s'"
  by (simp add: only_requests_def knows_more_def)

lemma deliver_alias [simp]: "ok_alias_to_client (okx_deliver V items s) = ok_alias_to_client s"
  by (induction V items s rule: okx_deliver.induct) (simp_all split: sum.split)

lemma login_alias: "okx_login_answer V array j s = Inr s' \<Longrightarrow> ok_alias_to_client s' = ok_alias_to_client s"
  unfolding okx_login_answer_def
  by (erule rbind_InrE) (auto simp: okx_websocket_connection_def rbind_eq_Inr_iff split: if_splits)

lemma message_alias: "ok_alias_to_client (okx_stream_message V array j s) = ok_alias_to_client s"
proof -
  have "ok_alias_to_client (case okx_login_answer V array j s of Inl e \<Rightarrow> s | Inr s1 \<Rightarrow> s1) = ok_alias_to_client s"
    by (auto simp: login_alias split: sum.split)
  then show ?thesis
    by (simp add: okx_stream_message_def okx_error_answer_def Let_def split: sum.split option.split)
qed

lemma opened_alias:
  assumes "okx_websocket_opened w V array t s = Inr s'"
  shows "ok_alias_to_client s' = ok_alias_to_client s"
  using assms unfolding okx_websocket_opened_def Let_def by (rule rbind_InrE) auto

lemma place_knows: "okx_place w V ord s = (r, s') \<Longrightarrow> knows_more s s'"
  by (drule place_only) (auto simp: only_requests_def knows_more_def add_alias_def)

lemma step_knows:
  assumes "okx_step owner w V array s s'"
  shows "knows_more s s'"
  using assms
proof cases
  case (restore ords)
  then show ?thesis by (simp add: restore_knows)
next
  case (place ord r)
  then show ?thesis using place_knows by blast
next
  case (opened t)
  then show ?thesis by (simp add: knows_more_def opened_alias)
next
  case (message msg)
  then show ?thesis by (simp add: knows_more_def okx_websocket_message_def message_alias split: sum.split)
qed (simp_all add: knows_more_def okx_start_def okx_stop_def okx_websocket_connection_def tell_def split: option.split,
  (rule only_knows [unfolded knows_more_def], erule cancel_only amend_only query_only balances_only rules_only open_orders_only)+)

interpretation okx_growing: evolving_system "okx_step owner w V array" "okx_inv owner w" knows_more
proof (unfold_locales, goal_cases)
  case (3 s s')
  then show ?case by (intro step_knows)
qed (auto simp: knows_more_def)

section \<open>Reports of a frame\<close>

lemma deliver_all:
  "parse_updates (okx_parse_order_update V) items = Inr reps \<Longrightarrow> ok_attached s \<Longrightarrow>
     ok_events (okx_deliver V items s) = ok_events s @ map (\<lambda>rep. Execution (resolve_alias s rep)) reps"
proof (induction items arbitrary: reps s)
  case (Cons item items)
  from Cons(2) obtain rep rest where p: "okx_parse_order_update V item = Inr rep" "reps = rep # rest"
    "parse_updates (okx_parse_order_update V) items = Inr rest" by (auto elim!: rbind_InrE)
  have same: "resolve_alias (notify e s) = resolve_alias s" for e by (simp add: resolve_alias_def fun_eq_iff)
  have "ok_events (notify (Execution (resolve_alias s rep)) s) = ok_events s @ [Execution (resolve_alias s rep)]"
    using Cons(3) by (simp add: notify_def)
  then show ?case using Cons(1) [OF p(3), of "notify (Execution (resolve_alias s rep)) s"] p(1,2) Cons(3) same by simp
qed simp

section \<open>Commands\<close>

lemma place_refused:
  assumes "okx_place w V ord s = (r, s')" "\<not> ar_accepted r" "\<not> ar_outcome_uncertain r"
  shows "ok_requests s' = ok_requests s \<or>
    (\<exists>request response j. ok_requests s' = ok_requests s @ [request] \<and> ow_transfer w (ok_requests s') = Inr response \<and>
       okx_response V response = Inr j \<and> r = okx_parse_ack V j)"
proof (cases "ok_authenticated s \<and> fst (okx_acquire w 1 s)")
  case False
  then show ?thesis using assms(1) by (auto simp: okx_place_def dest: acquire_only split: if_splits prod.splits bool.splits)
next
  case True
  let ?added = "add_alias (client_id_to_exchange (client_order_id ord)) (client_order_id ord)"
  obtain s1 where s1: "okx_acquire w 1 s = (True, s1)" using True by (cases "okx_acquire w 1 s") auto
  have req: "ok_requests (?added s1) = ok_requests s" using acquire_only(2) [OF s1] by (simp add: add_alias_def)
  obtain r0 s2 where w2: "okx_write_operation w V ''/api/v5/trade/order'' (okx_place_request V ord) (?added s1) = (r0, s2)" by fastforce
  have not0: "\<not> ar_accepted r0"
    using assms True s1 w2 by (auto simp: okx_place_def add_report_def split: if_splits prod.splits sum.splits option.splits)
  then have same: "r = r0" "s' = s2" using assms(1) True s1 w2 by (auto simp: okx_place_def)
  obtain x where x: "okx_rest_request w V ''POST'' ''/api/v5/trade/order'' (j_dump (vj_core V) (okx_place_request V ord)) (?added s1) = (x, s2)"
    "r0 = (case x of Inl e \<Rightarrow> uncertain_result ''OKX_TRANSPORT_ERROR'' e | Inr j \<Rightarrow> okx_parse_ack V j)"
    using w2 by (auto simp: okx_write_operation_def split: prod.splits sum.splits)
  then obtain j where j: "x = Inr j" "r0 = okx_parse_ack V j"
    using assms(3) same by (auto simp: uncertain_result_def split: sum.splits)
  from x(1) show ?thesis
  proof (rule rest_cases)
    fix timestamp signature
    let ?request = "signed_http_request (ok_config (?added s1)) timestamp signature ''POST'' ''/api/v5/trade/order''
      (j_dump (vj_core V) (okx_place_request V ord))"
    assume s2: "s2 = ?added s1\<lparr>ok_requests := ok_requests (?added s1) @ [?request]\<rparr>"
      and xx: "x = rbind (http_perform (ow_transfer w (ok_requests s2)) ?request) (okx_response V)"
    from xx j(1) obtain response where "ow_transfer w (ok_requests s2) = Inr response" "okx_response V response = Inr j"
      by (auto simp: http_perform_def rbind_eq_Inr_iff split: if_splits sum.splits)
    moreover have "ok_requests s2 = ok_requests s @ [?request]" using s2 req by simp
    ultimately show ?thesis using same j(2) by metis
  qed (use j in simp)
qed

lemma query_report:
  assumes "okx_query w V ord s = (Inr (Some rep), s')"
  shows "rp_client_order_id rep = client_order_id ord \<and>
    (type ord = Market \<and> rp_status rep = Filled \<longrightarrow> quantity ord \<le> rp_cumulative_filled rep)"
proof -
  obtain j where "okx_query_answer V ord j = Inr (Some rep)"
    using assms by (auto simp: okx_query_def rbind_eq_Inr_iff split: prod.splits bool.splits)
  then obtain rep0 where "rep = reduced_market_report ord (rep0\<lparr>rp_client_order_id := client_order_id ord\<rparr>)"
    unfolding okx_query_answer_def by (auto elim!: rbind_InrE split: if_splits option.splits)
  then show ?thesis by (auto simp: reduced_market_report_def not_less)
qed

section \<open>A sample session\<close>

definition okx_sample_config :: okx_config where
  "okx_sample_config = \<lparr>oc_rest_url = ''https://okx'', oc_api_key = ''k'', oc_secret_key = ''s'', oc_passphrase = ''p'', oc_demo = True,
     oc_instrument_cache_ttl = 30\<rparr>"

definition okx_sample_bucket :: token_bucket where
  "okx_sample_bucket = \<lparr>capacity_units = 60000000, period_ns = 1, theoretical_arrival_ns = 0\<rparr>"

text \<open>The first transfer succeeds, later ones fail.\<close>

definition okx_sample_world :: okx_world where
  "okx_sample_world = \<lparr>ow_transfer = (\<lambda>rs. if length rs = 1 then Inr \<lparr>hr_status = 200, hr_body = ''{}''\<rparr> else Inl ''timeout''),
     ow_date_time = (\<lambda>_. Some ''2024-01-01T00:00:00''), ow_unix_ms = (\<lambda>_. 0), ow_steady_ns = (\<lambda>_. 1000),
     ow_hmac = (\<lambda>_ _. Inr [1]), ow_encode_block = (\<lambda>_. Some ''c2ln'')\<rparr>"

definition okx_sample_json :: "json_tree \<Rightarrow> json_tree venue_json" where
  "okx_sample_json j = tree_venue\<lparr>vj_core := tree_json (\<lambda>_. Inr j)\<rparr>"

definition okx_sample_ready :: okx_adapter where
  "okx_sample_ready = (new_okx_adapter okx_sample_config okx_sample_bucket)\<lparr>ok_attached := True, ok_authenticated := True,
     ok_events := [Connection_changed True []]\<rparr>"

definition okx_sample_refusal :: json_tree where
  "okx_sample_refusal = JObject [(''code'', JString ''51000''), (''msg'', JString ''bad'')]"

definition okx_sample_accept :: json_tree where
  "okx_sample_accept = JObject [(''code'', JString ''0''), (''data'', JObject [([], JObject [(''ordId'', JString ''7'')])])]"

definition okx_sample_subscribed :: json_tree where
  "okx_sample_subscribed = JObject [(''event'', JString ''subscribe''), (''arg'', JObject [(''channel'', JString ''orders'')])]"

lemma okx_sample_acquire:
  "okx_acquire okx_sample_world 1 s = (case acquire 1000 1000000 (ok_limiter s) of (g, b) \<Rightarrow> (g, s\<lparr>ok_limiter := b\<rparr>))"
  by (simp add: okx_acquire_def okx_sample_world_def units_per_token_def)

lemma okx_sample_tokens:
  "\<exists>b. acquire 1000 1000000 okx_sample_bucket = (True, b) \<and> (\<exists>b'. acquire 1000 1000000 b = (True, b'))"
  by (simp add: acquire_def try_acquire_def okx_sample_bucket_def scaled_duration_def units_per_token_def int64_max_def
      saturated_add_def Let_def)

lemma okx_sample_rest:
  assumes "ok_config s = okx_sample_config"
  shows "\<exists>request. okx_rest_request okx_sample_world (okx_sample_json j) verb path body s =
     (if ok_requests s = [] then Inr j else Inl (Runtime_error ''HTTP transport error: timeout''),
      s\<lparr>ok_requests := ok_requests s @ [request]\<rparr>)"
proof -
  obtain t where t: "iso8601_utc (ow_date_time okx_sample_world rs) (ow_unix_ms okx_sample_world rs) = Inr t" for rs
    by (simp add: iso8601_utc_def okx_sample_world_def)
  have sign: "hmac_sha256_base64 (ow_hmac okx_sample_world) (ow_encode_block okx_sample_world) a b = Inr ''c2ln''" for a b
    by (simp add: hmac_sha256_base64_def okx_sample_world_def)
  have url: "hq_url (signed_http_request okx_sample_config t ''c2ln'' verb path body) \<noteq> []"
    by (simp add: signed_http_request_def okx_sample_config_def)
  have answer: "okx_response (okx_sample_json j) \<lparr>hr_status = 200, hr_body = ''{}''\<rparr> = Inr j"
    by (simp add: okx_response_def okx_sample_json_def tree_json_def)
  have transfer: "ow_transfer okx_sample_world (rs @ [r]) = (if rs = [] then Inr \<lparr>hr_status = 200, hr_body = ''{}''\<rparr> else Inl ''timeout'')" for rs r
    by (simp add: okx_sample_world_def)
  show ?thesis
    by (intro exI [of _ "signed_http_request okx_sample_config t ''c2ln'' verb path body"])
      (simp add: okx_rest_request_def t sign assms url http_perform_def answer transfer Let_def)
qed

lemma okx_sample_write:
  assumes "ok_config s = okx_sample_config" "ok_requests s = []"
  shows "\<exists>request. okx_write_operation okx_sample_world (okx_sample_json j) path body s =
     (okx_parse_ack (okx_sample_json j) j, s\<lparr>ok_requests := [request]\<rparr>)"
  using okx_sample_rest [OF assms(1), of j "''POST''" path "j_dump (vj_core (okx_sample_json j)) body"] assms(2)
  by (auto simp: okx_write_operation_def)

lemma okx_sample_acks:
  "okx_parse_ack (okx_sample_json okx_sample_refusal) okx_sample_refusal = refused_result ''51000'' ''bad''"
  "okx_parse_ack (okx_sample_json okx_sample_accept) okx_sample_accept = accepted_result ''7'' []"
  by (simp_all add: okx_parse_ack_def okx_item_rejection_def okx_sample_json_def okx_sample_refusal_def okx_sample_accept_def
      string_field_def tree_venue_def tree_json_def)

lemma okx_sample_ready_fields [simp]:
  "ok_config okx_sample_ready = okx_sample_config" "ok_limiter okx_sample_ready = okx_sample_bucket"
  "ok_requests okx_sample_ready = []" "ok_authenticated okx_sample_ready"
  by (simp_all add: okx_sample_ready_def new_okx_adapter_def)

lemma okx_sample_place:
  "\<exists>request s'. okx_place okx_sample_world (okx_sample_json okx_sample_refusal) json_sample_order okx_sample_ready =
     (refused_result ''51000'' ''bad'', s') \<and> ok_requests s' = [request]"
proof -
  let ?added = "add_alias (client_id_to_exchange (client_order_id json_sample_order)) (client_order_id json_sample_order)"
  obtain b where b: "acquire 1000 1000000 okx_sample_bucket = (True, b)" using okx_sample_tokens by blast
  let ?s = "?added (okx_sample_ready\<lparr>ok_limiter := b\<rparr>)"
  obtain request where "okx_write_operation okx_sample_world (okx_sample_json okx_sample_refusal) ''/api/v5/trade/order''
      (okx_place_request (okx_sample_json okx_sample_refusal) json_sample_order) ?s =
    (refused_result ''51000'' ''bad'', ?s\<lparr>ok_requests := [request]\<rparr>)"
    using okx_sample_write [of ?s okx_sample_refusal "''/api/v5/trade/order''"
        "okx_place_request (okx_sample_json okx_sample_refusal) json_sample_order"] okx_sample_acks(1)
    by (auto simp: add_alias_def)
  then show ?thesis
    by (intro exI [of _ request] exI [of _ "?s\<lparr>ok_requests := [request]\<rparr>"])
      (simp add: okx_place_def okx_sample_acquire b refused_result_def)
qed

text \<open>An amendment that OKX acknowledged is reported as an exception when the query that follows it fails.\<close>

lemma okx_amend_loses_acceptance:
  "\<exists>s'. okx_parse_ack (okx_sample_json okx_sample_accept) okx_sample_accept = accepted_result ''7'' [] \<and>
     okx_amend okx_sample_world (okx_sample_json okx_sample_accept) json_sample_order p q okx_sample_ready =
       (Inl (Runtime_error ''HTTP transport error: timeout''), s')"
proof -
  let ?V = "okx_sample_json okx_sample_accept"
  obtain b b' where b: "acquire 1000 1000000 okx_sample_bucket = (True, b)" "acquire 1000 1000000 b = (True, b')"
    using okx_sample_tokens by blast
  let ?s = "okx_sample_ready\<lparr>ok_limiter := b\<rparr>"
  obtain request where w: "okx_write_operation okx_sample_world ?V ''/api/v5/trade/amend-order''
      (okx_amend_request ?V json_sample_order p q) ?s = (accepted_result ''7'' [], ?s\<lparr>ok_requests := [request]\<rparr>)"
    using okx_sample_write [of ?s okx_sample_accept "''/api/v5/trade/amend-order''" "okx_amend_request ?V json_sample_order p q"]
      okx_sample_acks(2) by auto
  let ?t = "okx_sample_ready\<lparr>ok_requests := [request], ok_limiter := b'\<rparr>"
  obtain request' where "okx_rest_request okx_sample_world ?V ''GET'' (okx_query_path json_sample_order) [] ?t =
      (Inl (Runtime_error ''HTTP transport error: timeout''), ?t\<lparr>ok_requests := [request, request']\<rparr>)"
    using okx_sample_rest [of ?t okx_sample_accept "''GET''" "okx_query_path json_sample_order" "[]"] by auto
  moreover have "ar_accepted (accepted_result ''7'' [])" by (simp add: accepted_result_def)
  ultimately show ?thesis using w b okx_sample_acks(2) by (simp add: okx_amend_def okx_query_def okx_sample_acquire)
qed

definition okx_sample_owner :: "string \<rightharpoonup> string" where
  "okx_sample_owner = [''c1'' \<mapsto> ''c1'']"

lemma okx_sample_session:
  obtains s where
    "(okx_step okx_sample_owner okx_sample_world (okx_sample_json okx_sample_subscribed) (\<lambda>js. JObject []))\<^sup>*\<^sup>*
       (new_okx_adapter okx_sample_config okx_sample_bucket) s"
    "ok_authenticated s" "ok_attached s" "ok_requests s = []" "ok_config s = okx_sample_config" "ok_limiter s = okx_sample_bucket"
    "ok_telling s = None"
proof -
  let ?step = "okx_step okx_sample_owner okx_sample_world (okx_sample_json okx_sample_subscribed) (\<lambda>js. JObject [])"
  let ?init = "new_okx_adapter okx_sample_config okx_sample_bucket"
  let ?s = "okx_websocket_message (okx_sample_json okx_sample_subscribed) (\<lambda>js. JObject []) [] (okx_start ?init)"
  have 1: "?step ?init (okx_start ?init)" by (rule okx_step.start)
  have 2: "?step (okx_start ?init) ?s" by (rule okx_step.message) (simp_all add: okx_start_def new_okx_adapter_def)
  have s: "?s = announce (Connection_changed True []) ((okx_start ?init)\<lparr>ok_authenticated := True\<rparr>)"
    by (simp add: okx_websocket_message_def okx_stream_message_def okx_sample_json_def okx_sample_subscribed_def orders_channel_def
        v_value_def j_value_def tree_venue_def tree_json_def)
  have 3: "?step ?s (tell ?s)" unfolding s by (rule okx_step.told) (simp add: okx_start_def)
  have run: "?step\<^sup>*\<^sup>* ?init (tell ?s)" by (rule rtranclp.rtrancl_into_rtrancl [OF rtranclp.rtrancl_into_rtrancl [OF r_into_rtranclp [of ?step, OF 1] 2] 3])
  show thesis by (rule that [OF run]; unfold s) (simp_all add: okx_start_def new_okx_adapter_def tell_def announce_def notify_def)
qed

definition okx_sample_update :: json_tree where
  "okx_sample_update = JObject [(''clOrdId'', JString ''c1''), (''ordId'', JString ''9''), (''uTime'', JString ''5''),
     (''state'', JString ''live''), (''tradeId'', JString ''3''), (''accFillSz'', JString ''0.5'')]"

lemma okx_sample_report:
  "\<exists>rep. okx_parse_order_update (okx_sample_json okx_sample_subscribed) okx_sample_update = Inr rep \<and> rp_client_order_id rep = ''c1''"
  by (simp add: okx_parse_order_update_def okx_sample_json_def okx_sample_update_def tree_venue_def tree_json_def string_field_def
      decimal_field_def sample_numbers)

lemma okx_sample_named:
  "client_order_id json_sample_order = ''c1''" "client_id_to_exchange ''c1'' = ''c1''" "named_by okx_sample_owner json_sample_order"
proof -
  show id: "client_order_id json_sample_order = ''c1''" by (simp add: json_sample_order_def make_order_def json_sample_request_def Let_def)
  show x: "client_id_to_exchange ''c1'' = ''c1''" by (simp add: client_id_to_exchange_def okx_client_id_character_def is_digit_def)
  show "named_by okx_sample_owner json_sample_order"
    unfolding named_by_def id x by (simp add: okx_sample_owner_def json_sample_order_def make_order_def Let_def)
qed

section \<open>Properties\<close>

text \<open>C24. A definite refusal is definite: when placing an order at OKX neither is accepted nor leaves the outcome open, then
  either nothing was sent, or the one request was answered and the answer is a refusal of the venue; a failed or unreadable
  transfer is never reported as a refusal.\<close>

theorem okx_refusal_is_definite:
  assumes "okx_place w V ord s = (r, s')" and "\<not> ar_accepted r" and "\<not> ar_outcome_uncertain r"
  shows "ok_requests s' = ok_requests s \<or>
    (\<exists>request response j. ok_requests s' = ok_requests s @ [request] \<and> ow_transfer w (ok_requests s') = Inr response \<and>
       okx_response V response = Inr j \<and> (string_field V j ''code'' [] \<noteq> ''0'' \<or> okx_item_rejection V j \<noteq> None))"
proof -
  have "string_field V j ''code'' [] \<noteq> ''0'' \<or> okx_item_rejection V j \<noteq> None" if "r = okx_parse_ack V j" for j
    using assms(2,3) that by (auto simp: okx_parse_ack_def accepted_result_def split: option.splits if_splits)
  then show ?thesis using place_refused [OF assms] by blast
qed

theorem okx_refusal_is_definite_witness:
  "\<exists>s' request. okx_place okx_sample_world (okx_sample_json okx_sample_refusal) json_sample_order okx_sample_ready =
       (refused_result ''51000'' ''bad'', s') \<and> ok_requests s' = [request] \<and>
     (\<exists>response. ow_transfer okx_sample_world (ok_requests s') = Inr response)"
proof -
  obtain request s' where p: "okx_place okx_sample_world (okx_sample_json okx_sample_refusal) json_sample_order okx_sample_ready =
      (refused_result ''51000'' ''bad'', s')" "ok_requests s' = [request]" using okx_sample_place by blast
  show ?thesis using p okx_refusal_is_definite [OF p(1)] by (auto simp: refused_result_def)
qed



text \<open>C23. Reports find their order: once the request of an order was sent, every later frame of the stream that names the order
  by the id it was given at OKX is handed to the gateway under its own client order id, in every run in which no two
  orders share an id at the venue.\<close>

theorem okx_reports_reach_order:
  assumes "(okx_step owner w V array)\<^sup>*\<^sup>* (new_okx_adapter c limiter) s" and "named_by owner ord"
    and "okx_place w V ord s = (r, s1)" and "ok_requests s1 \<noteq> ok_requests s"
    and "(okx_step owner w V array)\<^sup>*\<^sup>* s1 s2" and "ok_attached s2"
    and "parse_updates (okx_parse_order_update V) items = Inr reps" and "rep \<in> set reps"
    and "rp_client_order_id rep = client_id_to_exchange (client_order_id ord)"
  shows "Execution (rep\<lparr>rp_client_order_id := client_order_id ord\<rparr>) \<in> set (ok_events (okx_deliver V items s2))"
proof -
  let ?x = "client_id_to_exchange (client_order_id ord)"
  have inv: "okx_inv owner w s1"
    using okx_place_inv [OF okx_run.reachable_inv [OF assms(1) new_okx_inv] assms(2,3)] .
  have "?x \<in> dom (ok_alias_to_client s1)"
    using place_only [OF assms(3)] assms(4) by (auto simp: only_requests_def add_alias_def)
  then have "?x \<in> dom (ok_alias_to_client s2)" using okx_growing.reachable_grows [OF assms(5) inv] by (auto simp: knows_more_def)
  then obtain cid where cid: "ok_alias_to_client s2 ?x = Some cid" by blast
  then have "owner ?x = Some cid" using okx_run.reachable_inv [OF assms(5) inv] by (auto simp: okx_inv_def)
  then have "resolve_alias s2 rep = rep\<lparr>rp_client_order_id := client_order_id ord\<rparr>"
    using cid assms(2,9) by (simp add: resolve_alias_def named_by_def)
  then show ?thesis using deliver_all [OF assms(7,6)] assms(8) by force
qed

theorem okx_reports_reach_order_witness:
  "\<exists>s r s1 rep. (okx_step okx_sample_owner okx_sample_world (okx_sample_json okx_sample_subscribed) (\<lambda>js. JObject []))\<^sup>*\<^sup>*
       (new_okx_adapter okx_sample_config okx_sample_bucket) s \<and>
     okx_place okx_sample_world (okx_sample_json okx_sample_subscribed) json_sample_order s = (r, s1) \<and>
     Execution (rep\<lparr>rp_client_order_id := ''c1''\<rparr>) \<in>
       set (ok_events (okx_deliver (okx_sample_json okx_sample_subscribed) [okx_sample_update] s1))"
proof -
  let ?V = "okx_sample_json okx_sample_subscribed"
  obtain s where s: "(okx_step okx_sample_owner okx_sample_world ?V (\<lambda>js. JObject []))\<^sup>*\<^sup>*
      (new_okx_adapter okx_sample_config okx_sample_bucket) s"
    "ok_authenticated s" "ok_attached s" "ok_requests s = []" "ok_config s = okx_sample_config" "ok_limiter s = okx_sample_bucket"
    by (rule okx_sample_session)
  obtain b where b: "acquire 1000 1000000 okx_sample_bucket = (True, b)" using okx_sample_tokens by blast
  let ?t = "add_alias ''c1'' ''c1'' (s\<lparr>ok_limiter := b\<rparr>)"
  obtain request where w: "okx_write_operation okx_sample_world ?V ''/api/v5/trade/order'' (okx_place_request ?V json_sample_order) ?t =
      (okx_parse_ack ?V okx_sample_subscribed, ?t\<lparr>ok_requests := [request]\<rparr>)"
    using okx_sample_write [of ?t okx_sample_subscribed] s(4,5) by (auto simp: add_alias_def)
  have "\<not> ar_accepted (okx_parse_ack ?V okx_sample_subscribed)"
    by (simp add: okx_parse_ack_def okx_item_rejection_def okx_sample_json_def okx_sample_subscribed_def string_field_def
        tree_venue_def tree_json_def refused_result_def)
  then have p: "okx_place okx_sample_world ?V json_sample_order s =
      (okx_parse_ack ?V okx_sample_subscribed, ?t\<lparr>ok_requests := [request]\<rparr>)"
    using s(2,6) b w by (simp add: okx_place_def okx_sample_acquire okx_sample_named)
  obtain rep where rep: "okx_parse_order_update ?V okx_sample_update = Inr rep" "rp_client_order_id rep = ''c1''"
    using okx_sample_report by blast
  have "Execution (rep\<lparr>rp_client_order_id := client_order_id json_sample_order\<rparr>) \<in>
      set (ok_events (okx_deliver ?V [okx_sample_update] (?t\<lparr>ok_requests := [request]\<rparr>)))"
    by (rule okx_reports_reach_order [where reps = "[rep]" and rep = rep, OF s(1) okx_sample_named(3) p _ rtranclp.rtrancl_refl])
      (use s rep in \<open>simp_all add: add_alias_def okx_sample_named\<close>)
  then show ?thesis using s(1) p unfolding okx_sample_named(1) by blast
qed

end
