(* ===== verification/Abex_Binance_Adapter.thy ===== *)
theory Abex_Binance_Adapter
  imports Abex_Http Abex_Rate_Limiter
begin

text \<open>
  The Binance adapter (\<open>src/infrastructure/binance_adapter.cpp\<close>): one WebSocket session that carries signed requests, their
  answers and the execution reports.

  A call of the gateway is cut into the sections of the code between which other threads may run: the checks of the command, the
  wait for a ready session, the signature under the clock's lock, the wait of the request and its id, the registration of the
  promise under that id, the sending, and the end with what the promise holds or with a timeout. The reader of the session
  fulfils promises and a disconnection fails them, between any two of these sections. Each callback of the session is one step. The clocks, the answer of \<open>send\<close>, the state of the connection and OpenSSL are arguments. The conversion of the
  venue's rate limits from floating point is an argument too (\<open>bw_limit_reading\<close>: capacity, available tokens and period
  where capacity and interval are positive).
\<close>

section \<open>State\<close>

record binance_config =
  bc_api_key :: string
  bc_secret_key :: string
  bc_server_time_resync_interval :: int
  bc_timestamp_safety_margin :: int
  bc_recv_window :: int
  bc_instrument_cache_ttl :: int

record 'j binance_adapter =
  bn_config :: binance_config
  bn_limiter :: token_bucket
  bn_instrument_cache :: "string \<rightharpoonup> int \<times> instrument_rules_query_result"
  bn_next_id :: nat
  bn_subscribed :: bool
  bn_pending :: "string list"
  bn_promises :: "string \<rightharpoonup> 'j result"
  bn_alias_to_client :: "string \<rightharpoonup> string"
  bn_readiness_error :: string
  bn_time_request_id :: string
  bn_time_request_sent_at :: int
  bn_subscription_request_id :: string
  bn_clock_synchronized_at :: int
  bn_server_time_at_sync_ms :: int
  bn_clock_uncertainty_ms :: int
  bn_clock_synchronized :: bool
  bn_attached :: bool
  bn_sent :: "'j list"
  bn_events :: "venue_event list"

record 'j binance_world =
  bw_steady_ns :: int
  bw_unix_ms :: int
  bw_connected :: bool
  bw_send_accepted :: bool
  bw_hmac :: "string \<Rightarrow> string \<Rightarrow> nat list result"
  bw_limit_reading :: "'j \<Rightarrow> (int \<times> int \<times> int) option result"

definition new_binance_adapter :: "binance_config \<Rightarrow> token_bucket \<Rightarrow> 'j binance_adapter result" where
  "new_binance_adapter c limiter =
     (if bc_server_time_resync_interval c \<le> 0
      then Inl (Invalid_argument ''Binance server-time resync interval must be positive'')
      else if bc_timestamp_safety_margin c < 0
      then Inl (Invalid_argument ''Binance timestamp safety margin cannot be negative'')
      else Inr \<lparr>bn_config = c, bn_limiter = limiter, bn_instrument_cache = Map.empty, bn_next_id = 1, bn_subscribed = False,
                bn_pending = [], bn_promises = Map.empty, bn_alias_to_client = Map.empty, bn_readiness_error = [],
                bn_time_request_id = [], bn_time_request_sent_at = 0, bn_subscription_request_id = [],
                bn_clock_synchronized_at = 0, bn_server_time_at_sync_ms = 0, bn_clock_uncertainty_ms = 0,
                bn_clock_synchronized = False, bn_attached = False, bn_sent = [], bn_events = []\<rparr>)"

definition binance_start :: "'j binance_adapter \<Rightarrow> 'j binance_adapter" where
  "binance_start s = s\<lparr>bn_attached := True\<rparr>"

definition notify_gateway :: "venue_event \<Rightarrow> 'j binance_adapter \<Rightarrow> 'j binance_adapter" where
  "notify_gateway e s = (if bn_attached s then s\<lparr>bn_events := bn_events s @ [e]\<rparr> else s)"

text \<open>The promises that wait all get the exception.\<close>

definition fail_pending :: "string \<Rightarrow> 'j binance_adapter \<Rightarrow> 'j binance_adapter" where
  "fail_pending why s =
     s\<lparr>bn_pending := [],
       bn_promises := (\<lambda>rid. if rid \<in> set (bn_pending s) then Some (Inl (Runtime_error why)) else bn_promises s rid)\<rparr>"

definition binance_stop :: "'j binance_adapter \<Rightarrow> 'j binance_adapter" where
  "binance_stop s = fail_pending ''Binance adapter stopped'' (s\<lparr>bn_subscribed := False\<rparr>)"

definition binance_restore_aliases :: "order \<Rightarrow> 'j binance_adapter \<Rightarrow> 'j binance_adapter" where
  "binance_restore_aliases ord s =
     (if venue ord \<noteq> Binance then s
      else s\<lparr>bn_alias_to_client := (\<lambda>k. if k \<in> exchange_client_id_aliases ord \<or> k = client_order_id ord
                                      then Some (client_order_id ord) else bn_alias_to_client s k)\<rparr>)"

definition binance_restore :: "order list \<Rightarrow> 'j binance_adapter \<Rightarrow> 'j binance_adapter" where
  "binance_restore recovered s = fold binance_restore_aliases recovered s"

definition binance_alias :: "string \<Rightarrow> string \<Rightarrow> 'j binance_adapter \<Rightarrow> 'j binance_adapter" where
  "binance_alias alias cid s = s\<lparr>bn_alias_to_client := (bn_alias_to_client s)(alias \<mapsto> cid)\<rparr>"

definition binance_acquire :: "'j binance_world \<Rightarrow> int \<Rightarrow> 'j binance_adapter \<Rightarrow> bool \<times> 'j binance_adapter" where
  "binance_acquire w tokens s =
     (case acquire (bw_steady_ns w) (tokens * units_per_token) (bn_limiter s) of
        (granted, b) \<Rightarrow> (granted, s\<lparr>bn_limiter := b\<rparr>))"

section \<open>Signing\<close>

text \<open>Durations are nanoseconds; \<open>duration_cast\<close> to milliseconds truncates.\<close>

definition signed_timestamp :: "int \<Rightarrow> 'j binance_adapter \<Rightarrow> int result" where
  "signed_timestamp now s =
     (if \<not> bn_clock_synchronized s then Inl (Runtime_error ''Binance server time is not synchronized'')
      else let elapsed = (now - bn_clock_synchronized_at s) sdiv 1000000;
               backward_margin = max (bc_timestamp_safety_margin (bn_config s)) (bn_clock_uncertainty_ms s + 25)
           in Inr (bn_server_time_at_sync_ms s + elapsed - backward_margin))"

definition sign_parameters :: "'j binance_world \<Rightarrow> 'j signing_json \<Rightarrow> 'j \<Rightarrow> 'j binance_adapter \<Rightarrow> 'j result" where
  "sign_parameters w S parameters s =
     (let J = vj_core (sj_venue S); c = bn_config s;
          p = sj_put S (sj_put S parameters ''apiKey'' (j_of_string J (bc_api_key c)))
                ''recvWindow'' (j_of_number J (bc_recv_window c))
      in rbind (signed_timestamp (bw_steady_ns w) s) (\<lambda>timestamp.
           let p' = sj_put S p ''timestamp'' (j_of_number J timestamp)
           in rbind (canonical_query S p') (\<lambda>q.
              rbind (hmac_sha256_hex (bw_hmac w) (bc_secret_key c) q) (\<lambda>signature.
                Inr (sj_put S p' ''signature'' (j_of_string J signature))))))"

definition next_request_id :: "string \<Rightarrow> 'j binance_adapter \<Rightarrow> string \<times> 'j binance_adapter" where
  "next_request_id prefix s =
     (''abex-'' @ prefix @ ''-'' @ nat_to_string (bn_next_id s), s\<lparr>bn_next_id := bn_next_id s + 1\<rparr>)"

section \<open>Requests\<close>

text \<open>The state in which the waiter of \<open>wait_until_ready\<close> wakes up, or gives up.\<close>

definition wait_until_ready :: "'j binance_adapter \<Rightarrow> unit result" where
  "wait_until_ready s =
     (if \<not> (bn_subscribed s \<or> bn_readiness_error s \<noteq> [])
      then Inl (Runtime_error
        ''Binance WebSocket did not complete server-time synchronization and user-data subscription before the request timeout'')
      else if \<not> bn_subscribed s then Inl (Runtime_error (bn_readiness_error s))
      else Inr ())"

definition send_message :: "'j binance_world \<Rightarrow> 'j \<Rightarrow> 'j binance_adapter \<Rightarrow> 'j binance_adapter" where
  "send_message w j s = (if bw_send_accepted w then s\<lparr>bn_sent := bn_sent s @ [j]\<rparr> else s)"

text \<open>The phases of a call, named after what the thread does next: \<open>signed_request\<close> waits until the session is ready and signs;
  \<open>request\<close> waits again and draws an id, registers a promise under it, sends, and waits for the promise.\<close>

datatype 'j call_phase =
    Wait_to_sign string 'j
  | Sign string 'j
  | Prepare string 'j
  | Register string 'j
  | Transmit string 'j
  | Await string

definition request_message :: "'j signing_json \<Rightarrow> string \<Rightarrow> string \<Rightarrow> 'j \<Rightarrow> 'j" where
  "request_message S rid verb parameters =
     (let J = vj_core (sj_venue S)
      in j_object J [(''id'', j_of_string J rid), (''method'', j_of_string J verb), (''params'', parameters)])"

definition request_prepare :: "'j signing_json \<Rightarrow> string \<Rightarrow> 'j \<Rightarrow> 'j binance_adapter \<Rightarrow> 'j call_phase result \<times> 'j binance_adapter" where
  "request_prepare S verb parameters s =
     (case wait_until_ready s of
        Inl e \<Rightarrow> (Inl e, s)
      | Inr _ \<Rightarrow> (case next_request_id ''request'' s of (rid, s1) \<Rightarrow> (Inr (Register rid (request_message S rid verb parameters)), s1)))"

definition request_register :: "string \<Rightarrow> 'j \<Rightarrow> 'j binance_adapter \<Rightarrow> 'j call_phase result \<times> 'j binance_adapter" where
  "request_register rid j s = (Inr (Transmit rid j), s\<lparr>bn_pending := bn_pending s @ [rid]\<rparr>)"

definition request_send :: "'j binance_world \<Rightarrow> string \<Rightarrow> 'j \<Rightarrow> 'j binance_adapter \<Rightarrow> 'j call_phase result \<times> 'j binance_adapter" where
  "request_send w rid j s =
     (if bw_send_accepted w then (Inr (Await rid), send_message w j s)
      else (Inl (Runtime_error ''Binance WebSocket is disconnected''), s\<lparr>bn_pending := removeAll rid (bn_pending s)\<rparr>))"

text \<open>The next section of a call; an exception ends it.\<close>

fun call_turn :: "'j binance_world \<Rightarrow> 'j signing_json \<Rightarrow> 'j call_phase \<Rightarrow> 'j binance_adapter \<Rightarrow> 'j call_phase result \<times> 'j binance_adapter" where
  "call_turn w S (Wait_to_sign verb p) s = (rbind (wait_until_ready s) (\<lambda>_. Inr (Sign verb p)), s)"
| "call_turn w S (Sign verb p) s = (rbind (sign_parameters w S p s) (\<lambda>q. Inr (Prepare verb q)), s)"
| "call_turn w S (Prepare verb p) s = request_prepare S verb p s"
| "call_turn w S (Register rid j) s = request_register rid j s"
| "call_turn w S (Transmit rid j) s = request_send w rid j s"
| "call_turn w S (Await rid) s = (Inr (Await rid), s)"

text \<open>The first limit on request weight that can be read sets the token bucket.\<close>

fun observe_limits :: "'j binance_world \<Rightarrow> 'j venue_json \<Rightarrow> 'j list \<Rightarrow> token_bucket \<Rightarrow> token_bucket result" where
  "observe_limits w V [] b = Inr b"
| "observe_limits w V (limit # limits) b =
     rbind (v_value V (j_get_string (vj_core V)) limit ''rateLimitType'' []) (\<lambda>kind.
       if kind \<noteq> ''REQUEST_WEIGHT'' then observe_limits w V limits b
       else rbind (bw_limit_reading w limit) (\<lambda>reading.
              case reading of
                None \<Rightarrow> observe_limits w V limits b
              | Some (capacity, available, period) \<Rightarrow> Inr (synchronize True (bw_steady_ns w) capacity available period b)))"

definition observe_rate_limits :: "'j binance_world \<Rightarrow> 'j venue_json \<Rightarrow> 'j \<Rightarrow> token_bucket \<Rightarrow> token_bucket result" where
  "observe_rate_limits w V response b = observe_limits w V (array_field V response ''rateLimits'') b"

text \<open>The call ends: its promise holds an answer or an exception, or the time is over. An answer that arrives between the timeout and
  the removal of the promise is lost. \<open>None\<close> while the call has to wait.\<close>

definition request_end ::
    "'j binance_world \<Rightarrow> 'j venue_json \<Rightarrow> string \<Rightarrow> bool \<Rightarrow> 'j binance_adapter \<Rightarrow> ('j result \<times> 'j binance_adapter) option" where
  "request_end w V rid timed_out s =
     (if timed_out
      then Some (Inl (Runtime_error ''Binance request acknowledgement timed out; outcome unknown''),
                 s\<lparr>bn_pending := removeAll rid (bn_pending s)\<rparr>)
      else (case bn_promises s rid of
              None \<Rightarrow> None
            | Some (Inl e) \<Rightarrow> Some (Inl e, s)
            | Some (Inr response) \<Rightarrow>
                (case observe_rate_limits w V response (bn_limiter s) of
                   Inl e \<Rightarrow> Some (Inl e, s)
                 | Inr b \<Rightarrow> Some (Inr response, s\<lparr>bn_limiter := b\<rparr>))))"

section \<open>Commands\<close>

text \<open>A command that is not answered at once makes a signed request. \<open>None\<close>: a limit order without a price, whose parameters cannot
  be built.\<close>

type_synonym 'j started = "adapter_result + 'j call_phase"

definition command_end :: "'j venue_json \<Rightarrow> 'j result \<Rightarrow> adapter_result" where
  "command_end V answer =
     (case rbind answer (binance_parse_ack V) of
        Inl e \<Rightarrow> uncertain_result ''BINANCE_TRANSPORT_ERROR'' e
      | Inr r \<Rightarrow> r)"

definition binance_place_begin ::
    "'j binance_world \<Rightarrow> 'j signing_json \<Rightarrow> order \<Rightarrow> 'j binance_adapter \<Rightarrow> ('j started \<times> 'j binance_adapter) option" where
  "binance_place_begin w S ord s =
     (case binance_acquire w 1 s of
        (False, s1) \<Rightarrow> Some (Inl (rate_limited ''Binance order request budget exhausted''), s1)
      | (True, s1) \<Rightarrow>
          map_option (\<lambda>p. (Inr (Wait_to_sign ''order.place'' p), binance_alias (client_order_id ord) (client_order_id ord) s1))
            (binance_place_params (sj_venue S) ord))"

definition binance_cancel_begin :: "'j binance_world \<Rightarrow> 'j signing_json \<Rightarrow> order \<Rightarrow> 'j binance_adapter \<Rightarrow> 'j started \<times> 'j binance_adapter" where
  "binance_cancel_begin w S ord s =
     (case binance_acquire w 1 s of
        (False, s1) \<Rightarrow> (Inl (rate_limited ''Binance cancel request budget exhausted''), s1)
      | (True, s1) \<Rightarrow> (Inr (Wait_to_sign ''order.cancel'' (binance_cancel_params (sj_venue S) ord)), s1))"

definition replacement_alias :: "order \<Rightarrow> string" where
  "replacement_alias ord = client_id_to_exchange (client_order_id ord @ ''v'' @ u64_to_string (version ord + 1))"

definition binance_amend_begin ::
    "'j binance_world \<Rightarrow> 'j signing_json \<Rightarrow> order \<Rightarrow> decimal option \<Rightarrow> decimal option \<Rightarrow> 'j binance_adapter \<Rightarrow>
     ('j started result \<times> 'j binance_adapter) option" where
  "binance_amend_begin w S ord new_price new_quantity s =
     (case binance_acquire w 1 s of
        (False, s1) \<Rightarrow> Some (Inr (Inl (rate_limited ''Binance cancel-replace request budget exhausted'')), s1)
      | (True, s1) \<Rightarrow>
          (case decimal_sub (case new_quantity of None \<Rightarrow> quantity ord | Some q \<Rightarrow> q) (filled_quantity ord) of
             Inl e \<Rightarrow> Some (Inl e, s1)
           | Inr remaining \<Rightarrow>
               if remaining \<le> 0
               then Some (Inr (Inl (refused_result ''INVALID_REPLACEMENT_QUANTITY''
                      ''replacement quantity must exceed the already-filled quantity'')), s1)
               else map_option (\<lambda>p. (Inr (Inr (Wait_to_sign ''order.cancelReplace'' p)),
                                      binance_alias (replacement_alias ord) (client_order_id ord) s1))
                      (binance_amend_params (sj_venue S) ord new_price (Some remaining) (replacement_alias ord))))"

definition binance_amend_end :: "'j venue_json \<Rightarrow> order \<Rightarrow> 'j result \<Rightarrow> adapter_result" where
  "binance_amend_end V ord answer =
     (let r = command_end V answer
      in if ar_accepted r \<and> ar_exchange_client_order_id r = [] then r\<lparr>ar_exchange_client_order_id := replacement_alias ord\<rparr> else r)"

section \<open>Queries\<close>

text \<open>Each query begins with its budget; \<open>None\<close> from a query of reports is the answer without a report. A query that throws on its
  way ends with the exception.\<close>

definition query_begin ::
    "int \<Rightarrow> string \<Rightarrow> 'j binance_world \<Rightarrow> 'j \<Rightarrow> 'j binance_adapter \<Rightarrow> 'j call_phase option \<times> 'j binance_adapter" where
  "query_begin cost verb w parameters s =
     (case binance_acquire w cost s of
        (False, s1) \<Rightarrow> (None, s1)
      | (True, s1) \<Rightarrow> (Some (Wait_to_sign verb parameters), s1))"

definition binance_query_begin ::
    "'j binance_world \<Rightarrow> 'j signing_json \<Rightarrow> order \<Rightarrow> 'j binance_adapter \<Rightarrow> 'j call_phase option \<times> 'j binance_adapter" where
  "binance_query_begin w S ord s = query_begin 4 ''order.status'' w (binance_cancel_params (sj_venue S) ord) s"

definition binance_query_end :: "'j venue_json \<Rightarrow> order \<Rightarrow> 'j result \<Rightarrow> execution_report option" where
  "binance_query_end V ord answer =
     (case rbind answer (\<lambda>response.
             rbind (v_value V (vj_get_int V) response ''status'' 0) (\<lambda>st.
               case v_find V response ''result'' of
                 None \<Rightarrow> Inr None
               | Some r \<Rightarrow> if st \<noteq> 200 then Inr None
                           else rbind (binance_parse_order_status V r) (\<lambda>rep. Inr (Some rep)))) of
        Inr (Some rep) \<Rightarrow>
          Some (rep\<lparr>rp_client_order_id := (if rp_client_order_id rep = [] then client_order_id ord else rp_client_order_id rep),
                    rp_order_quantity := (case rp_order_quantity rep of None \<Rightarrow> Some (quantity ord) | Some q \<Rightarrow> Some q)\<rparr>)
      | _ \<Rightarrow> None)"

definition binance_open_orders_begin :: "'j binance_world \<Rightarrow> 'j signing_json \<Rightarrow> 'j binance_adapter \<Rightarrow> 'j call_phase option \<times> 'j binance_adapter" where
  "binance_open_orders_begin w S s = query_begin 40 ''openOrders.status'' w (j_object (vj_core (sj_venue S)) []) s"

definition binance_open_orders_end :: "'j venue_json \<Rightarrow> 'j result \<Rightarrow> execution_report list option" where
  "binance_open_orders_end V answer =
     (case rbind answer (\<lambda>response.
             rbind (v_value V (vj_get_int V) response ''status'' 0) (\<lambda>st.
               case v_find V response ''result'' of
                 None \<Rightarrow> Inr None
               | Some r \<Rightarrow> if st \<noteq> 200 \<or> \<not> vj_is_array V r then Inr None
                           else rbind (parse_updates (binance_parse_order_status V) (vj_elements V r)) (\<lambda>rs. Inr (Some rs)))) of
        Inl e \<Rightarrow> None
      | Inr rs \<Rightarrow> rs)"

definition binance_balances_begin ::
    "'j binance_world \<Rightarrow> 'j signing_json \<Rightarrow> string option \<Rightarrow> 'j binance_adapter \<Rightarrow>
     (balance_query_result + 'j call_phase \<times> string option) \<times> 'j binance_adapter" where
  "binance_balances_begin w S currency s =
     (case normalized_currency currency of
        Inl e \<Rightarrow> (Inl (balance_error Binance ''BINANCE_BALANCE_TRANSPORT_ERROR'' (what e)), s)
      | Inr ccy \<Rightarrow>
          (case binance_acquire w 20 s of
             (False, s1) \<Rightarrow> (Inl (balance_error Binance ''LOCAL_RATE_LIMIT'' ''Binance account-status budget exhausted''), s1)
           | (True, s1) \<Rightarrow>
               (Inr (Wait_to_sign ''account.status''
                       (j_object (vj_core (sj_venue S)) [(''omitZeroBalances'', vj_of_bool (sj_venue S) False)]), ccy), s1)))"

definition binance_balances_end :: "'j binance_world \<Rightarrow> 'j venue_json \<Rightarrow> string option \<Rightarrow> 'j result \<Rightarrow> balance_query_result" where
  "binance_balances_end w V ccy answer =
     (case rbind answer (binance_parse_balances V (bw_unix_ms w)) of
        Inl e \<Rightarrow> balance_error Binance ''BINANCE_BALANCE_TRANSPORT_ERROR'' (what e)
      | Inr r \<Rightarrow>
          (case ccy of
             None \<Rightarrow> r
           | Some c \<Rightarrow>
               if bq_ok r
               then r\<lparr>bq_snapshot := (bq_snapshot r)\<lparr>bs_balances := filter (\<lambda>b. ab_currency b = c) (bs_balances (bq_snapshot r))\<rparr>\<rparr>
               else r))"

definition binance_rules_begin ::
    "'j binance_world \<Rightarrow> 'j signing_json \<Rightarrow> string \<Rightarrow> 'j binance_adapter \<Rightarrow>
     (instrument_rules_query_result + 'j call_phase \<times> string) \<times> 'j binance_adapter" where
  "binance_rules_begin w S requested s =
     (let smb = map to_upper requested; V = sj_venue S;
          cached = (case bn_instrument_cache s smb of
                      None \<Rightarrow> None
                    | Some (t, r) \<Rightarrow> if bw_steady_ns w - t < bc_instrument_cache_ttl (bn_config s) then Some r else None)
      in case cached of
           Some r \<Rightarrow> (Inl r, s)
         | None \<Rightarrow>
             (case binance_acquire w 20 s of
                (False, s1) \<Rightarrow>
                  (Inl (rules_error_for Binance smb ''LOCAL_RATE_LIMIT'' ''Binance exchangeInfo query budget exhausted''), s1)
              | (True, s1) \<Rightarrow>
                  (Inr (Prepare ''exchangeInfo''
                          (j_object (vj_core V) [(''symbol'', v_text V (symbol_to_exchange smb)), (''showPermissionSets'', vj_of_bool V False)]), smb), s1)))"

definition binance_rules_end ::
    "'j binance_world \<Rightarrow> 'j venue_json \<Rightarrow> string \<Rightarrow> 'j result \<Rightarrow> 'j binance_adapter \<Rightarrow> instrument_rules_query_result \<times> 'j binance_adapter" where
  "binance_rules_end w V smb answer s =
     (case rbind answer (binance_parse_instrument_rules V (bw_unix_ms w)) of
        Inl e \<Rightarrow> (rules_error_for Binance smb ''BINANCE_INSTRUMENT_RULES_TRANSPORT_ERROR'' (what e), s)
      | Inr r \<Rightarrow>
          (r, if iq_ok r then s\<lparr>bn_instrument_cache := (bn_instrument_cache s)(smb \<mapsto> (bw_steady_ns w, r))\<rparr> else s))"

section \<open>The session\<close>

definition request_server_time :: "'j binance_world \<Rightarrow> 'j signing_json \<Rightarrow> 'j binance_adapter \<Rightarrow> 'j binance_adapter" where
  "request_server_time w S s =
     (if \<not> bw_connected w then s
      else case next_request_id ''time'' s of
             (rid, s1) \<Rightarrow>
               let J = vj_core (sj_venue S)
               in send_message w (j_object J [(''id'', j_of_string J rid), (''method'', j_of_string J ''time'')])
                    (s1\<lparr>bn_time_request_id := rid, bn_time_request_sent_at := bw_steady_ns w\<rparr>))"

definition binance_websocket_opened :: "'j binance_world \<Rightarrow> 'j signing_json \<Rightarrow> 'j binance_adapter \<Rightarrow> 'j binance_adapter" where
  "binance_websocket_opened w S s =
     request_server_time w S
       (s\<lparr>bn_subscribed := False, bn_subscription_request_id := [], bn_readiness_error := [], bn_clock_synchronized := False\<rparr>)"

text \<open>The id is stored before the parameters are signed, and stays when signing throws.\<close>

definition subscribe_user_data :: "'j binance_world \<Rightarrow> 'j signing_json \<Rightarrow> 'j binance_adapter \<Rightarrow> 'j binance_adapter" where
  "subscribe_user_data w S s =
     (case next_request_id ''subscribe'' s of
        (rid, s1) \<Rightarrow>
          let J = vj_core (sj_venue S); s2 = s1\<lparr>bn_subscription_request_id := rid\<rparr>
          in case sign_parameters w S (j_object J []) s2 of
               Inl e \<Rightarrow> s2
             | Inr p \<Rightarrow>
                 send_message w (j_object J [(''id'', j_of_string J rid),
                   (''method'', j_of_string J ''userDataStream.subscribe.signature''), (''params'', p)]) s2)"

definition json_id :: "'j venue_json \<Rightarrow> 'j \<Rightarrow> string result" where
  "json_id V j =
     (case v_find V j ''id'' of
        None \<Rightarrow> Inr []
      | Some v \<Rightarrow> if j_is_string (vj_core V) v then j_get_string (vj_core V) v else Inr (j_dump (vj_core V) v))"

definition server_time_of :: "'j venue_json \<Rightarrow> 'j \<Rightarrow> 'j option result" where
  "server_time_of V j =
     rbind (v_value V (vj_get_int V) j ''status'' 0) (\<lambda>st.
       Inr (if st \<noteq> 200 then None
            else case v_find V j ''result'' of None \<Rightarrow> None | Some r \<Rightarrow> v_find V r ''serverTime''))"

definition synchronize_clock :: "int \<Rightarrow> int \<Rightarrow> int \<Rightarrow> 'j binance_adapter \<Rightarrow> 'j binance_adapter" where
  "synchronize_clock server_time sent_at received_at s =
     s\<lparr>bn_server_time_at_sync_ms := server_time,
       bn_clock_synchronized_at := (if sent_at \<le> received_at then sent_at + (received_at - sent_at) sdiv 2 else received_at),
       bn_clock_uncertainty_ms := ((received_at - sent_at) sdiv 1000000) sdiv 2,
       bn_clock_synchronized := True\<rparr>"

definition time_answer :: "'j binance_world \<Rightarrow> 'j signing_json \<Rightarrow> int \<Rightarrow> int \<Rightarrow> bool \<Rightarrow> 'j \<Rightarrow> 'j binance_adapter \<Rightarrow> 'j binance_adapter" where
  "time_answer w S received_at sent_at subscription_requested j s =
     (case server_time_of (sj_venue S) j of
        Inl e \<Rightarrow> s
      | Inr None \<Rightarrow>
          notify_gateway (Connection_changed False ''Binance server-time synchronization was rejected'')
            (s\<lparr>bn_readiness_error := ''Binance server-time synchronization was rejected''\<rparr>)
      | Inr (Some v) \<Rightarrow>
          (case j_get_integer (vj_core (sj_venue S)) v of
             Inl e \<Rightarrow> s
           | Inr server_time \<Rightarrow>
               let s1 = synchronize_clock server_time sent_at received_at s
               in if \<not> bn_subscribed s1 \<and> \<not> subscription_requested then subscribe_user_data w S s1 else s1))"

definition subscription_reason :: "'j venue_json \<Rightarrow> 'j \<Rightarrow> string result" where
  "subscription_reason V j =
     (let base = ''Binance user-data subscription rejected'' in
      case v_find V j ''error'' of
        None \<Rightarrow> Inr base
      | Some err \<Rightarrow>
          let coded = base @ (case v_find V err ''code'' of None \<Rightarrow> [] | Some c \<Rightarrow> '' ('' @ j_dump (vj_core V) c @ '')'')
          in case v_find V err ''msg'' of
               None \<Rightarrow> Inr coded
             | Some m \<Rightarrow>
                 if j_is_string (vj_core V) m then rbind (j_get_string (vj_core V) m) (\<lambda>t. Inr (coded @ '': '' @ t)) else Inr coded)"

definition subscription_answer :: "'j venue_json \<Rightarrow> 'j \<Rightarrow> 'j binance_adapter \<Rightarrow> 'j binance_adapter result" where
  "subscription_answer V j s =
     rbind (v_value V (vj_get_int V) j ''status'' 0) (\<lambda>st.
     rbind (if st = 200 then Inr [] else subscription_reason V j) (\<lambda>why.
       Inr (notify_gateway (Connection_changed (st = 200) why)
              (s\<lparr>bn_subscription_request_id := [], bn_readiness_error := why, bn_subscribed := (st = 200)\<rparr>))))"

text \<open>A promise is taken out of the waiting ones under the lock, and fulfilled at the end. An exception on the way loses it; the
  call then ends with its timeout.\<close>

definition fulfil :: "bool \<Rightarrow> string \<Rightarrow> 'j \<Rightarrow> 'j binance_adapter \<Rightarrow> 'j binance_adapter" where
  "fulfil waiting rid j s = (if waiting then s\<lparr>bn_promises := (bn_promises s)(rid \<mapsto> Inr j)\<rparr> else s)"

definition identified_message ::
    "'j binance_world \<Rightarrow> 'j signing_json \<Rightarrow> string \<Rightarrow> 'j \<Rightarrow> 'j binance_adapter \<Rightarrow> 'j binance_adapter" where
  "identified_message w S rid j s =
     (let waiting = (rid \<in> set (bn_pending s)); s1 = s\<lparr>bn_pending := removeAll rid (bn_pending s)\<rparr>
      in if rid = bn_time_request_id s
         then time_answer w S (bw_steady_ns w) (bn_time_request_sent_at s) (bn_subscription_request_id s \<noteq> []) j s1
         else if rid = bn_subscription_request_id s
         then (case subscription_answer (sj_venue S) j s1 of Inl e \<Rightarrow> s1 | Inr s2 \<Rightarrow> fulfil waiting rid j s2)
         else fulfil waiting rid j s1)"

definition binance_resolve_alias :: "'j binance_adapter \<Rightarrow> execution_report \<Rightarrow> execution_report" where
  "binance_resolve_alias s rep =
     (case bn_alias_to_client s (rp_client_order_id rep) of
        None \<Rightarrow> rep
      | Some cid \<Rightarrow> rep\<lparr>rp_client_order_id := cid\<rparr>)"

definition event_message :: "'j venue_json \<Rightarrow> 'j \<Rightarrow> 'j binance_adapter \<Rightarrow> 'j binance_adapter" where
  "event_message V j s =
     (case rbind (v_value V (j_get_string (vj_core V)) (case v_find V j ''event'' of None \<Rightarrow> j | Some ev \<Rightarrow> ev) ''e'' []) (\<lambda>kind.
             if kind \<noteq> ''executionReport'' then Inr None
             else rbind (binance_parse_execution_report V j) (\<lambda>rep. Inr (Some rep))) of
        Inr (Some rep) \<Rightarrow> notify_gateway (Execution (binance_resolve_alias s rep)) s
      | _ \<Rightarrow> s)"

definition binance_websocket_message :: "'j binance_world \<Rightarrow> 'j signing_json \<Rightarrow> string \<Rightarrow> 'j binance_adapter \<Rightarrow> 'j binance_adapter" where
  "binance_websocket_message w S message s =
     (let V = sj_venue S in
      case rbind (j_parse (vj_core V) message) (\<lambda>j. rbind (json_id V j) (\<lambda>rid. Inr (j, rid))) of
        Inl e \<Rightarrow> s
      | Inr (j, rid) \<Rightarrow> if rid \<noteq> [] then identified_message w S rid j s else event_message V j s)"

definition binance_websocket_connection :: "bool \<Rightarrow> string \<Rightarrow> 'j binance_adapter \<Rightarrow> 'j binance_adapter" where
  "binance_websocket_connection connected why s =
     (if connected then s
      else let told = (if why = [] then ''Binance WebSocket disconnected'' else why)
           in notify_gateway (Connection_changed False why)
                (fail_pending told (s\<lparr>bn_subscribed := False, bn_readiness_error := told, bn_clock_synchronized := False\<rparr>)))"

section \<open>Runs\<close>

text \<open>The threads of the gateway run calls, one each at a time, section by section; the callbacks of the WebSocket client and the turns
  of the clock thread run between them, in any order. A session of the client opens, carries messages and closes;
  \<open>bs_online\<close> says whether one is open. \<open>bs_calls\<close> says what each thread that runs a call does next, and
  \<open>bs_answers\<close>, a ghost, lists the answers that calls ended with.\<close>

record 'j binance_system =
  bs_adapter :: "'j binance_adapter"
  bs_online :: bool
  bs_calls :: "nat \<rightharpoonup> 'j call_phase"
  bs_answers :: "(string \<times> 'j) list"

definition begun :: "nat \<Rightarrow> 'j call_phase option \<Rightarrow> 'j binance_adapter \<Rightarrow> 'j binance_system \<Rightarrow> 'j binance_system" where
  "begun t p a s = s\<lparr>bs_adapter := a, bs_calls := (bs_calls s)(t := p)\<rparr>"

definition phase_of :: "'a + 'j call_phase \<Rightarrow> 'j call_phase option" where
  "phase_of r = (case r of Inl _ \<Rightarrow> None | Inr p \<Rightarrow> Some p)"

inductive binance_step :: "'j signing_json \<Rightarrow> 'j binance_system \<Rightarrow> 'j binance_system \<Rightarrow> bool" for S where
  start: "binance_step S s (s\<lparr>bs_adapter := binance_start (bs_adapter s)\<rparr>)"
| stop: "binance_step S s (s\<lparr>bs_adapter := binance_stop (bs_adapter s), bs_online := False\<rparr>)"
| restore: "binance_step S s (s\<lparr>bs_adapter := binance_restore ords (bs_adapter s)\<rparr>)"
| place: "bs_calls s t = None \<Longrightarrow> binance_place_begin w S ord (bs_adapter s) = Some (r, a) \<Longrightarrow>
    binance_step S s (begun t (phase_of r) a s)"
| cancel: "bs_calls s t = None \<Longrightarrow> binance_cancel_begin w S ord (bs_adapter s) = (r, a) \<Longrightarrow>
    binance_step S s (begun t (phase_of r) a s)"
| amend: "bs_calls s t = None \<Longrightarrow> binance_amend_begin w S ord p q (bs_adapter s) = Some (r', a) \<Longrightarrow>
    binance_step S s (begun t (case r' of Inl e \<Rightarrow> None | Inr r \<Rightarrow> phase_of r) a s)"
| query: "bs_calls s t = None \<Longrightarrow> binance_query_begin w S ord (bs_adapter s) = (x, a) \<Longrightarrow> binance_step S s (begun t x a s)"
| open_orders: "bs_calls s t = None \<Longrightarrow> binance_open_orders_begin w S (bs_adapter s) = (x, a) \<Longrightarrow>
    binance_step S s (begun t x a s)"
| balances: "bs_calls s t = None \<Longrightarrow> binance_balances_begin w S ccy (bs_adapter s) = (b, a) \<Longrightarrow>
    binance_step S s (begun t (case b of Inl _ \<Rightarrow> None | Inr (p, _) \<Rightarrow> Some p) a s)"
| rules: "bs_calls s t = None \<Longrightarrow> binance_rules_begin w S smb (bs_adapter s) = (i, a) \<Longrightarrow>
    binance_step S s (begun t (case i of Inl _ \<Rightarrow> None | Inr (p, _) \<Rightarrow> Some p) a s)"
| turn: "bs_calls s t = Some p \<Longrightarrow> call_turn w S p (bs_adapter s) = (r, a) \<Longrightarrow> binance_step S s (begun t (phase_of r) a s)"
| ended: "bs_calls s t = Some (Await rid) \<Longrightarrow> request_end w (sj_venue S) rid timed_out (bs_adapter s) = Some (answer, a) \<Longrightarrow>
    binance_step S s (s\<lparr>bs_adapter := a, bs_calls := (bs_calls s)(t := None),
      bs_answers := bs_answers s @ (case answer of Inl e \<Rightarrow> [] | Inr j \<Rightarrow> [(rid, j)])\<rparr>)"
| rules_read: "binance_rules_end w (sj_venue S) smb answer (bs_adapter s) = (i, a) \<Longrightarrow> binance_step S s (s\<lparr>bs_adapter := a\<rparr>)"
| clock: "binance_step S s (s\<lparr>bs_adapter := request_server_time w S (bs_adapter s)\<rparr>)"
| opened: "\<not> bs_online s \<Longrightarrow> bw_connected w \<Longrightarrow>
    binance_step S s (s\<lparr>bs_adapter := binance_websocket_opened w S (bs_adapter s), bs_online := True\<rparr>)"
| message: "bs_online s \<Longrightarrow> binance_step S s (s\<lparr>bs_adapter := binance_websocket_message w S msg (bs_adapter s)\<rparr>)"
| closed: "binance_step S s (s\<lparr>bs_adapter := binance_websocket_connection False why (bs_adapter s), bs_online := False\<rparr>)"

end
