(* ===== verification/Abex_Binance_Props.thy ===== *)
theory Abex_Binance_Props
  imports Abex_Binance_Adapter Abex_Protocol_Props
begin

text \<open>
  What the Binance session guarantees over all runs: a call ends only with the answer to its own request, a call that waits is
  registered or has its outcome, a disconnection gives every call that waits then an outcome, a session that is ready can sign,
  and the timestamps it signs are neither ahead of the venue nor far behind.
\<close>

section \<open>Names of requests\<close>

definition request_name :: "nat \<Rightarrow> string" where
  "request_name k = ''abex-request-'' @ nat_to_string k"

lemma request_name_inj [simp]: "request_name k = request_name m \<longleftrightarrow> k = m"
  by (simp add: request_name_def)

section \<open>What the parts of a call change\<close>

text \<open>The fields on which the matching of answers rests.\<close>

definition same_session :: "'j binance_adapter \<Rightarrow> 'j binance_adapter \<Rightarrow> bool" where
  "same_session a a' \<longleftrightarrow>
     bn_next_id a' = bn_next_id a \<and> bn_pending a' = bn_pending a \<and> bn_promises a' = bn_promises a \<and>
     bn_subscribed a' = bn_subscribed a \<and> bn_clock_synchronized a' = bn_clock_synchronized a \<and>
     bn_subscription_request_id a' = bn_subscription_request_id a \<and> bn_time_request_id a' = bn_time_request_id a"

lemma acquire_same: "binance_acquire w n a = (g, a') \<Longrightarrow> same_session a a'"
  by (auto simp: binance_acquire_def same_session_def split: prod.splits)

lemma alias_same: "same_session a (binance_alias k c a)"
  by (simp add: same_session_def binance_alias_def)

lemma same_refl [simp]: "same_session a a" and same_trans: "same_session a b \<Longrightarrow> same_session b c \<Longrightarrow> same_session a c"
  by (simp_all add: same_session_def)

text \<open>The request of a call in its later phases, and whether its promise was registered.\<close>

fun phase_id :: "'j call_phase \<Rightarrow> string option" where
  "phase_id (Register rid j) = Some rid"
| "phase_id (Transmit rid j) = Some rid"
| "phase_id (Await rid) = Some rid"
| "phase_id _ = None"

text \<open>What a call of the gateway does to the session until its first wait: it draws no id and touches no promise.\<close>

definition call_begins :: "'j call_phase option \<Rightarrow> 'j binance_adapter \<Rightarrow> 'j binance_adapter \<Rightarrow> bool" where
  "call_begins p a a' \<longleftrightarrow> same_session a a' \<and> (\<forall>x. p = Some x \<longrightarrow> phase_id x = None)"

lemma phase_of_simps [simp]: "phase_of (Inl x) = None" "phase_of (Inr p) = Some p"
  by (simp_all add: phase_of_def)

lemma place_begins: "binance_place_begin w S ord a = Some (r, a') \<Longrightarrow> call_begins (phase_of r) a a'"
  unfolding binance_place_begin_def call_begins_def
  by (auto split: prod.splits bool.splits dest: acquire_same intro: same_trans alias_same)

lemma cancel_begins: "binance_cancel_begin w S ord a = (r, a') \<Longrightarrow> call_begins (phase_of r) a a'"
  unfolding binance_cancel_begin_def call_begins_def by (auto split: prod.splits bool.splits dest: acquire_same)

lemma amend_begins:
  "binance_amend_begin w S ord p q a = Some (r', a') \<Longrightarrow> call_begins (case r' of Inl e \<Rightarrow> None | Inr r \<Rightarrow> phase_of r) a a'"
  unfolding binance_amend_begin_def call_begins_def
  by (auto split: prod.splits bool.splits sum.splits if_splits dest: acquire_same intro: same_trans alias_same)

lemma query_begins: "query_begin cost verb w p a = (x, a') \<Longrightarrow> call_begins x a a'"
  unfolding query_begin_def call_begins_def by (auto split: prod.splits bool.splits dest: acquire_same)

lemma balances_begins:
  "binance_balances_begin w S ccy a = (x, a') \<Longrightarrow> call_begins (case x of Inl _ \<Rightarrow> None | Inr (p, _) \<Rightarrow> Some p) a a'"
  unfolding binance_balances_begin_def call_begins_def
  by (auto split: prod.splits bool.splits sum.splits dest: acquire_same)

lemma rules_begins:
  "binance_rules_begin w S smb a = (x, a') \<Longrightarrow> call_begins (case x of Inl _ \<Rightarrow> None | Inr (p, _) \<Rightarrow> Some p) a a'"
  unfolding binance_rules_begin_def call_begins_def Let_def
  by (auto split: prod.splits bool.splits option.splits if_splits dest: acquire_same)

section \<open>The calls in progress\<close>

fun registered_id :: "'j call_phase \<Rightarrow> string option" where
  "registered_id (Transmit rid j) = Some rid"
| "registered_id (Await rid) = Some rid"
| "registered_id _ = None"

fun unregistered_id :: "'j call_phase \<Rightarrow> string option" where
  "unregistered_id (Register rid j) = Some rid"
| "unregistered_id _ = None"

text \<open>The ids of the calls in progress; those whose promise was registered, and those that are still to be registered. No two
  calls have the same.\<close>

definition ids_with :: "('j call_phase \<Rightarrow> string option) \<Rightarrow> (nat \<rightharpoonup> 'j call_phase) \<Rightarrow> string set" where
  "ids_with f C = {rid. \<exists>t p. C t = Some p \<and> f p = Some rid}"

abbreviation registered :: "(nat \<rightharpoonup> 'j call_phase) \<Rightarrow> string set" where
  "registered \<equiv> ids_with registered_id"

abbreviation unregistered :: "(nat \<rightharpoonup> 'j call_phase) \<Rightarrow> string set" where
  "unregistered \<equiv> ids_with unregistered_id"

definition own_ids :: "(nat \<rightharpoonup> 'j call_phase) \<Rightarrow> bool" where
  "own_ids C \<longleftrightarrow> (\<forall>t u p q rid. C t = Some p \<and> C u = Some q \<and> phase_id p = Some rid \<and> phase_id q = Some rid \<longrightarrow> t = u)"

lemma phase_id_split: "phase_id p = Some rid \<longleftrightarrow> registered_id p = Some rid \<or> unregistered_id p = Some rid"
  by (cases p) auto

lemma call_ids_split: "ids_with phase_id C = registered C \<union> unregistered C"
  by (auto simp: ids_with_def phase_id_split)

lemma registered_ids: "rid \<in> registered C \<longleftrightarrow> (\<exists>t. (\<exists>j. C t = Some (Transmit rid j)) \<or> C t = Some (Await rid))"
proof -
  have "registered_id p = Some rid \<longleftrightarrow> (\<exists>j. p = Transmit rid j) \<or> p = Await rid" for p :: "'a call_phase" by (cases p) auto
  then show ?thesis by (auto simp: ids_with_def)
qed

text \<open>How the sets follow a thread from phase to phase.\<close>

lemma ids_upd: "ids_with f (C(t \<mapsto> p)) = ids_with f (C(t := None)) \<union> set_option (f p)"
  by (auto simp: ids_with_def split: if_splits)

lemma ids_over:
  assumes "own_ids C" "C t = Some p" "\<And>x rid. f x = Some rid \<Longrightarrow> phase_id x = Some rid"
  shows "ids_with f (C(t := None)) = ids_with f C - set_option (phase_id p)"
proof (rule set_eqI)
  fix rid
  have "u \<noteq> t \<longleftrightarrow> phase_id p \<noteq> Some rid" if "C u = Some q" "f q = Some rid" for u q
    using assms that unfolding own_ids_def by (metis option.inject)
  then show "rid \<in> ids_with f (C(t := None)) \<longleftrightarrow> rid \<in> ids_with f C - set_option (phase_id p)"
    by (auto simp: ids_with_def)
qed

lemmas registered_over = ids_over [where f = registered_id, unfolded phase_id_split, simplified]
lemmas unregistered_over = ids_over [where f = unregistered_id, unfolded phase_id_split, simplified]

lemma own_over: "own_ids C \<Longrightarrow> own_ids (C(t := None))"
  unfolding own_ids_def by (metis fun_upd_apply option.distinct(1))

lemma own_upd:
  assumes "own_ids C" "set_option (phase_id p) \<inter> ids_with phase_id (C(t := None)) = {}"
  shows "own_ids (C(t \<mapsto> p))"
proof -
  have "rid \<notin> set_option (phase_id p)" if "C u = Some q" "u \<noteq> t" "phase_id q = Some rid" for u q rid
    using assms(2) that by (fastforce simp: ids_with_def)
  then show ?thesis using assms(1) unfolding own_ids_def by (fastforce split: if_splits)
qed

section \<open>The invariant\<close>

definition names_below :: "nat \<Rightarrow> string set" where
  "names_below n = request_name ` {0..<n}"

lemma names_mono: "m \<le> n \<Longrightarrow> names_below m \<subseteq> names_below n"
  by (auto simp: names_below_def)

lemma name_fresh [simp]: "request_name n \<notin> names_below n" and name_next: "request_name n \<in> names_below (Suc n)"
  by (auto simp: names_below_def)

lemma request_named [simp]: "[] \<notin> range request_name"
  by (auto simp: request_name_def)

lemma names_request: "rid \<in> names_below n \<Longrightarrow> rid \<in> range request_name"
  by (auto simp: names_below_def)

text \<open>The promises, for the ids \<open>R\<close> that were registered by calls in progress and the ids \<open>U\<close> that are still to be: those that
  wait belong to calls in progress, every registered one waits or has its outcome, and an answer in a promise has its name.\<close>

definition promises_ok :: "'j venue_json \<Rightarrow> string set \<Rightarrow> string set \<Rightarrow> 'j binance_adapter \<Rightarrow> bool" where
  "promises_ok V R U a \<longleftrightarrow>
     distinct (bn_pending a) \<and> set (bn_pending a) \<subseteq> R \<and> R \<subseteq> set (bn_pending a) \<union> dom (bn_promises a) \<and>
     set (bn_pending a) \<inter> dom (bn_promises a) = {} \<and> U \<inter> (set (bn_pending a) \<union> dom (bn_promises a)) = {} \<and>
     dom (bn_promises a) \<subseteq> names_below (bn_next_id a) \<and>
     (\<forall>rid j. bn_promises a rid = Some (Inr j) \<longrightarrow> json_id V j = Inr rid)"

text \<open>The requests of the session itself have names of their own.\<close>

definition session_ok :: "bool \<Rightarrow> 'j binance_adapter \<Rightarrow> bool" where
  "session_ok online a \<longleftrightarrow>
     (\<not> online \<longrightarrow> \<not> bn_subscribed a) \<and> (bn_subscribed a \<longrightarrow> bn_clock_synchronized a) \<and>
     (online \<and> bn_subscription_request_id a \<noteq> [] \<longrightarrow> bn_clock_synchronized a) \<and>
     bn_time_request_id a \<notin> range request_name \<and> bn_subscription_request_id a \<notin> range request_name"

definition calls_ok :: "'j signing_json \<Rightarrow> 'j binance_system \<Rightarrow> bool" where
  "calls_ok S s \<longleftrightarrow>
     own_ids (bs_calls s) \<and> distinct (map fst (bs_answers s)) \<and> set (map fst (bs_answers s)) \<inter> ids_with phase_id (bs_calls s) = {} \<and>
     set (map fst (bs_answers s)) \<union> ids_with phase_id (bs_calls s) \<subseteq> names_below (bn_next_id (bs_adapter s)) \<and>
     (\<forall>(rid, j) \<in> set (bs_answers s). json_id (sj_venue S) j = Inr rid)"

definition binance_inv :: "'j signing_json \<Rightarrow> 'j binance_system \<Rightarrow> bool" where
  "binance_inv S s \<longleftrightarrow>
     calls_ok S s \<and> promises_ok (sj_venue S) (registered (bs_calls s)) (unregistered (bs_calls s)) (bs_adapter s) \<and>
     session_ok (bs_online s) (bs_adapter s)"

text \<open>Steps of the session leave the calls; what they may do to the adapter.\<close>

definition session_step :: "'j signing_json \<Rightarrow> 'j binance_adapter \<Rightarrow> 'j binance_adapter \<Rightarrow> bool" where
  "session_step S a a' \<longleftrightarrow> bn_next_id a \<le> bn_next_id a' \<and>
     (\<forall>R U. R \<union> U \<subseteq> names_below (bn_next_id a) \<longrightarrow> promises_ok (sj_venue S) R U a \<longrightarrow> promises_ok (sj_venue S) R U a')"

lemma session_step_inv:
  assumes "session_step S (bs_adapter s) a" "session_ok online a" "binance_inv S s"
  shows "binance_inv S (s\<lparr>bs_adapter := a, bs_online := online\<rparr>)"
proof -
  have "names_below (bn_next_id (bs_adapter s)) \<subseteq> names_below (bn_next_id a)"
    using assms(1) by (intro names_mono) (simp add: session_step_def)
  then show ?thesis using assms by (auto simp: binance_inv_def calls_ok_def session_step_def call_ids_split)
qed

lemma session_stepI:
  assumes "bn_next_id a \<le> bn_next_id a'" "bn_pending a' = bn_pending a" "bn_promises a' = bn_promises a"
  shows "session_step S a a'"
  using assms names_mono [OF assms(1)] by (auto simp: session_step_def promises_ok_def)

lemma session_step_trans: "session_step S a b \<Longrightarrow> session_step S b c \<Longrightarrow> session_step S a c"
  unfolding session_step_def using names_mono by (meson order_trans)

lemma fail_pending_fields:
  "bn_pending (fail_pending why a) = []" "bn_next_id (fail_pending why a) = bn_next_id a"
  "bn_promises (fail_pending why a) = (\<lambda>rid. if rid \<in> set (bn_pending a) then Some (Inl (Runtime_error why)) else bn_promises a rid)"
  by (simp_all add: fail_pending_def)

lemma fail_pending_promises:
  "dom (bn_promises (fail_pending why a)) = set (bn_pending a) \<union> dom (bn_promises a)"
  "bn_promises (fail_pending why a) rid = Some (Inr j) \<Longrightarrow> bn_promises a rid = Some (Inr j)"
  unfolding fail_pending_fields by (auto split: if_split_asm)

lemma fail_pending_step: "session_step S a (fail_pending why a)"
proof -
  have "promises_ok (sj_venue S) R U (fail_pending why a)"
    if n: "R \<union> U \<subseteq> names_below (bn_next_id a)" and p: "promises_ok (sj_venue S) R U a" for R U
  proof -
    have "set (bn_pending a) \<subseteq> names_below (bn_next_id a)" using n p unfolding promises_ok_def by blast
    then show ?thesis using p fail_pending_promises(2) [of why a] unfolding promises_ok_def fail_pending_promises(1) fail_pending_fields(1,2) by simp
  qed
  then show ?thesis by (simp add: session_step_def fail_pending_fields)
qed

lemma notify_gateway_fields [simp]:
  "bn_next_id (notify_gateway e a) = bn_next_id a" "bn_pending (notify_gateway e a) = bn_pending a"
  "bn_promises (notify_gateway e a) = bn_promises a" "bn_subscribed (notify_gateway e a) = bn_subscribed a"
  "bn_clock_synchronized (notify_gateway e a) = bn_clock_synchronized a"
  "bn_subscription_request_id (notify_gateway e a) = bn_subscription_request_id a"
  "bn_time_request_id (notify_gateway e a) = bn_time_request_id a"
  by (simp_all add: notify_gateway_def)

lemma send_message_fields [simp]:
  "bn_next_id (send_message w j a) = bn_next_id a" "bn_pending (send_message w j a) = bn_pending a"
  "bn_promises (send_message w j a) = bn_promises a" "bn_subscribed (send_message w j a) = bn_subscribed a"
  "bn_clock_synchronized (send_message w j a) = bn_clock_synchronized a"
  "bn_subscription_request_id (send_message w j a) = bn_subscription_request_id a"
  "bn_time_request_id (send_message w j a) = bn_time_request_id a"
  by (simp_all add: send_message_def)

lemma server_time_fields:
  "bn_next_id a \<le> bn_next_id (request_server_time w S a)" "bn_pending (request_server_time w S a) = bn_pending a"
  "bn_promises (request_server_time w S a) = bn_promises a" "bn_subscribed (request_server_time w S a) = bn_subscribed a"
  "bn_clock_synchronized (request_server_time w S a) = bn_clock_synchronized a"
  "bn_subscription_request_id (request_server_time w S a) = bn_subscription_request_id a"
  "bn_time_request_id a \<notin> range request_name \<Longrightarrow> bn_time_request_id (request_server_time w S a) \<notin> range request_name"
  by (auto simp: request_server_time_def next_request_id_def Let_def request_name_def)

lemma subscribe_fields:
  "bn_next_id a \<le> bn_next_id (subscribe_user_data w S a)" "bn_pending (subscribe_user_data w S a) = bn_pending a"
  "bn_promises (subscribe_user_data w S a) = bn_promises a" "bn_subscribed (subscribe_user_data w S a) = bn_subscribed a"
  "bn_clock_synchronized (subscribe_user_data w S a) = bn_clock_synchronized a"
  "bn_time_request_id (subscribe_user_data w S a) = bn_time_request_id a"
  "bn_subscription_request_id (subscribe_user_data w S a) \<notin> range request_name"
  by (auto simp: subscribe_user_data_def next_request_id_def Let_def request_name_def split: sum.split)

lemma synchronize_fields [simp]:
  "bn_next_id (synchronize_clock t x y a) = bn_next_id a" "bn_pending (synchronize_clock t x y a) = bn_pending a"
  "bn_promises (synchronize_clock t x y a) = bn_promises a" "bn_subscribed (synchronize_clock t x y a) = bn_subscribed a"
  "bn_clock_synchronized (synchronize_clock t x y a)"
  "bn_subscription_request_id (synchronize_clock t x y a) = bn_subscription_request_id a"
  "bn_time_request_id (synchronize_clock t x y a) = bn_time_request_id a"
  by (simp_all add: synchronize_clock_def)

lemma time_answer_step: "session_step S a (time_answer w S r t b j a)"
  and time_answer_session: "session_ok True a \<Longrightarrow> session_ok True (time_answer w S r t b j a)"
  by (auto simp: time_answer_def Let_def subscribe_fields session_ok_def split: sum.split option.split
      intro!: session_stepI order_trans [OF _ subscribe_fields(1)])

lemma subscription_step:
  assumes "subscription_answer V j a = Inr a'"
  shows "session_step S a a'" "session_ok True a \<Longrightarrow> bn_subscription_request_id a \<noteq> [] \<Longrightarrow> session_ok True a'"
proof -
  obtain b why where "a' = notify_gateway (Connection_changed b why)
      (a\<lparr>bn_subscription_request_id := [], bn_readiness_error := why, bn_subscribed := b\<rparr>)"
    using assms unfolding subscription_answer_def by (auto elim!: rbind_InrE)
  then show "session_step S a a'" "session_ok True a \<Longrightarrow> bn_subscription_request_id a \<noteq> [] \<Longrightarrow> session_ok True a'"
    by (auto intro!: session_stepI simp: session_ok_def)
qed

lemma fulfil_fields [simp]:
  "bn_next_id (fulfil b rid j a) = bn_next_id a" "bn_pending (fulfil b rid j a) = bn_pending a"
  "bn_subscribed (fulfil b rid j a) = bn_subscribed a" "bn_clock_synchronized (fulfil b rid j a) = bn_clock_synchronized a"
  "bn_subscription_request_id (fulfil b rid j a) = bn_subscription_request_id a" "bn_time_request_id (fulfil b rid j a) = bn_time_request_id a"
  by (simp_all add: fulfil_def)

lemma answered_step:
  assumes "json_id (sj_venue S) j = Inr rid" "bn_pending b = removeAll rid (bn_pending a)" "bn_promises b = bn_promises a"
    "bn_next_id b = bn_next_id a"
  shows "session_step S a (fulfil (rid \<in> set (bn_pending a)) rid j b)"
proof -
  let ?w = "rid \<in> set (bn_pending a)"
  have f: "dom (bn_promises (fulfil ?w rid j b)) = (if ?w then insert rid (dom (bn_promises a)) else dom (bn_promises a))"
    "\<And>r k. bn_promises (fulfil ?w rid j b) r = Some (Inr k) \<Longrightarrow> bn_promises a r = Some (Inr k) \<or> r = rid \<and> k = j"
    using assms(3) by (simp_all add: fulfil_def split: if_split_asm)
  have "promises_ok (sj_venue S) R U (fulfil ?w rid j b)"
    if n: "R \<union> U \<subseteq> names_below (bn_next_id a)" and p: "promises_ok (sj_venue S) R U a" for R U
  proof -
    have "set (bn_pending a) \<subseteq> names_below (bn_next_id a)" "\<And>r k. bn_promises a r = Some (Inr k) \<Longrightarrow> json_id (sj_venue S) k = Inr r"
      using n p unfolding promises_ok_def by blast+
    then have "json_id (sj_venue S) k = Inr r" if "bn_promises (fulfil ?w rid j b) r = Some (Inr k)" for r k
      using f(2) [OF that] assms(1) by blast
    then show ?thesis using p n \<open>set (bn_pending a) \<subseteq> _\<close> unfolding promises_ok_def f(1) fulfil_fields assms(2,4)
      by (auto simp: distinct_removeAll split: if_splits)
  qed
  then show ?thesis using assms(4) by (simp add: session_step_def)
qed

lemma subscription_fields:
  assumes "subscription_answer V j a = Inr a'"
  shows "bn_pending a' = bn_pending a" "bn_promises a' = bn_promises a" "bn_next_id a' = bn_next_id a"
  using assms unfolding subscription_answer_def by (auto elim!: rbind_InrE)

lemma removed_step:
  assumes "rid \<notin> range request_name"
  shows "session_step S a (a\<lparr>bn_pending := removeAll rid (bn_pending a)\<rparr>)"
proof -
  have absent: "rid \<notin> set (bn_pending a)" if "R \<subseteq> names_below (bn_next_id a)" "set (bn_pending a) \<subseteq> R" for R
    using that assms names_request by blast
  have "promises_ok (sj_venue S) R U (a\<lparr>bn_pending := removeAll rid (bn_pending a)\<rparr>)"
    if "R \<union> U \<subseteq> names_below (bn_next_id a)" "promises_ok (sj_venue S) R U a" for R U
  proof -
    have "set (bn_pending a) \<subseteq> R" using that(2) by (simp add: promises_ok_def)
    then have "rid \<notin> set (bn_pending a)" using that(1) absent [of R] by simp
    then show ?thesis using that(2) by (simp add: promises_ok_def)
  qed
  then show ?thesis by (simp add: session_step_def)
qed

lemma removed_session: "session_ok True a \<Longrightarrow> session_ok True (a\<lparr>bn_pending := p\<rparr>)"
  by (simp add: session_ok_def)

lemma fulfil_session: "session_ok True (fulfil b rid j a) = session_ok True a"
  by (simp add: session_ok_def)

lemma identified_step:
  assumes "json_id (sj_venue S) j = Inr rid" "rid \<noteq> []" "session_ok True a"
  shows "session_step S a (identified_message w S rid j a) \<and> session_ok True (identified_message w S rid j a)"
proof -
  let ?b = "a\<lparr>bn_pending := removeAll rid (bn_pending a)\<rparr>" and ?w = "rid \<in> set (bn_pending a)"
  let ?time = "time_answer w S (bw_steady_ns w) (bn_time_request_sent_at a) (bn_subscription_request_id a \<noteq> []) j ?b"
  have own: "bn_time_request_id a \<notin> range request_name" "bn_subscription_request_id a \<notin> range request_name" and b: "session_ok True ?b"
    using assms(3) by (simp_all add: session_ok_def)
  consider "rid = bn_time_request_id a" | (failed) e where "rid \<noteq> bn_time_request_id a" "rid = bn_subscription_request_id a"
      "subscription_answer (sj_venue S) j ?b = Inl e"
    | (subscribed) c where "rid \<noteq> bn_time_request_id a" "rid = bn_subscription_request_id a" "subscription_answer (sj_venue S) j ?b = Inr c"
    | (plain) "rid \<noteq> bn_time_request_id a" "rid \<noteq> bn_subscription_request_id a"
    by (cases "subscription_answer (sj_venue S) j ?b") blast+
  then show ?thesis
  proof cases
    case 1
    then have "identified_message w S rid j a = ?time" by (simp add: identified_message_def Let_def)
    moreover have "session_step S a ?time" using own(1) 1 by (intro session_step_trans [OF removed_step time_answer_step]) simp
    ultimately show ?thesis using time_answer_session [OF b] by simp
  next
    case failed
    then have "identified_message w S rid j a = ?b" by (simp add: identified_message_def Let_def)
    then show ?thesis using removed_step [of rid S a] own(2) failed(2) b by simp
  next
    case subscribed
    then have m: "identified_message w S rid j a = fulfil ?w rid j c" by (simp add: identified_message_def Let_def)
    have "session_ok True c" using subscription_step(2) [OF subscribed(3) b] subscribed(2) assms(2) by simp
    then show ?thesis using answered_step [OF assms(1), of c a] subscription_fields [OF subscribed(3)] m by (simp add: fulfil_session)
  next
    case plain
    then have "identified_message w S rid j a = fulfil ?w rid j ?b" by (simp add: identified_message_def Let_def)
    then show ?thesis using answered_step [OF assms(1), of ?b a] b by (simp add: fulfil_session)
  qed
qed

lemma message_step:
  assumes "session_ok True a"
  shows "session_step S a (binance_websocket_message w S msg a) \<and> session_ok True (binance_websocket_message w S msg a)"
proof -
  have event: "session_step S a (event_message (sj_venue S) j a)" "session_ok True (event_message (sj_venue S) j a)" for j
    using assms by (auto simp: event_message_def session_ok_def intro!: session_stepI split: sum.split option.split)
  let ?r = "rbind (j_parse (vj_core (sj_venue S)) msg) (\<lambda>j. rbind (json_id (sj_venue S) j) (\<lambda>rid. Inr (j, rid)))"
  show ?thesis
  proof (cases ?r)
    case (Inl e)
    then show ?thesis using assms by (simp add: binance_websocket_message_def Let_def session_stepI)
  next
    case (Inr x)
    then obtain j rid where x: "x = (j, rid)" "json_id (sj_venue S) j = Inr rid" by (auto elim!: rbind_InrE)
    then show ?thesis using Inr event [of j] identified_step [OF x(2) _ assms]
      by (cases "rid = []") (simp_all add: binance_websocket_message_def Let_def)
  qed
qed

lemma closed_step:
  "session_step S a (binance_websocket_connection False why a)"
  "session_ok online a \<Longrightarrow> session_ok False (binance_websocket_connection False why a)"
proof -
  let ?why = "if why = [] then ''Binance WebSocket disconnected'' else why"
  let ?b = "a\<lparr>bn_subscribed := False, bn_readiness_error := ?why, bn_clock_synchronized := False\<rparr>"
  have "session_step S a ?b" by (rule session_stepI) simp_all
  moreover have "session_step S (fail_pending ?why ?b) (notify_gateway e (fail_pending ?why ?b))" for e by (rule session_stepI) simp_all
  ultimately have "session_step S a (notify_gateway (Connection_changed False why) (fail_pending ?why ?b))"
    by (rule session_step_trans [OF session_step_trans [OF _ fail_pending_step]])
  then show "session_step S a (binance_websocket_connection False why a)"
    by (simp only: binance_websocket_connection_def Let_def if_False)
  show "session_ok online a \<Longrightarrow> session_ok False (binance_websocket_connection False why a)"
    by (simp add: binance_websocket_connection_def session_ok_def fail_pending_def Let_def)
qed

lemma restore_same: "same_session a (binance_restore ords a)"
proof (induction ords arbitrary: a)
  case (Cons ord ords)
  have "same_session a (binance_restore_aliases ord a)" by (simp add: same_session_def binance_restore_aliases_def)
  then show ?case using Cons [of "binance_restore_aliases ord a"] same_trans by (auto simp: binance_restore_def)
qed (simp add: binance_restore_def same_session_def)

lemma same_step:
  assumes "same_session a a'"
  shows "session_step S a a'" "session_ok online a \<Longrightarrow> session_ok online a'"
  using assms by (auto simp: same_session_def session_ok_def intro!: session_stepI)

lemma ended_request:
  assumes "request_end w V rid timed_out a = Some (answer, a')" "promises_ok V R U a" "rid \<in> R"
  shows "promises_ok V (R - {rid}) U a'" "same_session (a\<lparr>bn_pending := bn_pending a'\<rparr>) a'" "answer = Inr j \<Longrightarrow> json_id V j = Inr rid"
proof -
  have "promises_ok V (R - {rid}) U a' \<and> same_session (a\<lparr>bn_pending := bn_pending a'\<rparr>) a' \<and> (answer = Inr j \<longrightarrow> json_id V j = Inr rid)"
  proof (cases timed_out)
    case True
    then have "answer = Inl (Runtime_error ''Binance request acknowledgement timed out; outcome unknown'')"
      "a' = a\<lparr>bn_pending := removeAll rid (bn_pending a)\<rparr>" using assms(1) by (auto simp: request_end_def)
    moreover have "promises_ok V (R - {rid}) U (a\<lparr>bn_pending := removeAll rid (bn_pending a)\<rparr>)"
      using assms(2) unfolding promises_ok_def by (simp add: distinct_removeAll) blast
    ultimately show ?thesis by (simp add: same_session_def)
  next
    case False
    then obtain y where y: "bn_promises a rid = Some y" using assms(1) by (auto simp: request_end_def split: option.splits)
    then have "rid \<notin> set (bn_pending a)" using assms(2) by (auto simp: promises_ok_def)
    then have "promises_ok V (R - {rid}) U a" using assms(2) by (auto simp: promises_ok_def)
    then have "promises_ok V (R - {rid}) U (a\<lparr>bn_limiter := l\<rparr>)" for l by (simp add: promises_ok_def)
    moreover have "\<And>k. y = Inr k \<Longrightarrow> json_id V k = Inr rid" using y assms(2) by (simp add: promises_ok_def)
    ultimately show ?thesis using assms(1) False y \<open>promises_ok V (R - {rid}) U a\<close>
      by (cases y) (auto simp: request_end_def same_session_def split: sum.splits)
  qed
  then show "promises_ok V (R - {rid}) U a'" "same_session (a\<lparr>bn_pending := bn_pending a'\<rparr>) a'" "answer = Inr j \<Longrightarrow> json_id V j = Inr rid"
    by blast+
qed

lemma ended_inv:
  assumes "bs_calls s t = Some (Await rid)" "request_end w (sj_venue S) rid timed_out (bs_adapter s) = Some (answer, a)" "binance_inv S s"
  shows "binance_inv S (s\<lparr>bs_adapter := a, bs_calls := (bs_calls s)(t := None),
    bs_answers := bs_answers s @ (case answer of Inl e \<Rightarrow> [] | Inr j \<Rightarrow> [(rid, j)])\<rparr>)"
proof -
  let ?C = "bs_calls s" and ?a = "bs_adapter s"
  have inv: "calls_ok S s" "promises_ok (sj_venue S) (registered ?C) (unregistered ?C) ?a" "session_ok (bs_online s) ?a"
    using assms(3) by (simp_all add: binance_inv_def)
  have R: "rid \<in> registered ?C" using assms(1) by (force simp: ids_with_def)
  note e = ended_request [OF assms(2) inv(2) R]
  have own: "own_ids ?C" using inv(1) by (simp add: calls_ok_def)
  have C: "registered (?C(t := None)) = registered ?C - {rid}" "unregistered (?C(t := None)) = unregistered ?C - {rid}"
    "ids_with phase_id (?C(t := None)) = ids_with phase_id ?C - {rid}"
    using ids_over [OF own assms(1), of registered_id] ids_over [OF own assms(1), of unregistered_id]
      ids_over [OF own assms(1), of phase_id] by (simp_all add: phase_id_split)
  have "promises_ok (sj_venue S) (registered (?C(t := None))) (unregistered (?C(t := None))) a"
    using e(1) unfolding C by (auto simp: promises_ok_def)
  moreover have "session_ok (bs_online s) a" using e(2) inv(3) by (auto simp: session_ok_def same_session_def)
  moreover have "bn_next_id a = bn_next_id ?a" using e(2) by (simp add: same_session_def)
  moreover have "rid \<in> ids_with phase_id ?C" using R by (simp add: call_ids_split)
  ultimately show ?thesis using inv(1) own_over [OF own] e(3) C(3)
    by (cases answer) (auto simp: binance_inv_def calls_ok_def)
qed

lemma rules_end_same: "binance_rules_end w V smb answer a = (i, a') \<Longrightarrow> same_session a a'"
  by (auto simp: binance_rules_end_def same_session_def split: sum.splits if_splits)

lemma start_same: "same_session a (binance_start a)"
  by (simp add: binance_start_def same_session_def)

lemma clock_step: "session_step S a (request_server_time w S a)"
  and clock_session: "session_ok online a \<Longrightarrow> session_ok online (request_server_time w S a)"
  using server_time_fields [where a = a and w = w and S = S] by (auto simp: session_ok_def intro: session_stepI)

lemma opened_step: "session_step S a (binance_websocket_opened w S a)"
  and opened_session: "session_ok online a \<Longrightarrow> session_ok True (binance_websocket_opened w S a)"
  unfolding binance_websocket_opened_def
  by (rule session_step_trans [OF session_stepI clock_step]; simp) (rule clock_session, simp add: session_ok_def)

lemma stop_step: "session_step S a (binance_stop a)"
  and stop_session: "session_ok online a \<Longrightarrow> session_ok False (binance_stop a)"
  unfolding binance_stop_def
  by (rule session_step_trans [OF session_stepI fail_pending_step]; simp) (auto simp: session_ok_def fail_pending_def)

lemma session_step_inv_same:
  assumes "session_step S (bs_adapter s) a" "session_ok (bs_online s) a" "binance_inv S s"
  shows "binance_inv S (s\<lparr>bs_adapter := a\<rparr>)"
  using session_step_inv [OF assms] by simp

text \<open>The sections of a call.\<close>

lemma begins_inv:
  assumes "bs_calls s t = None" "call_begins p (bs_adapter s) a" "binance_inv S s"
  shows "binance_inv S (begun t p a s)"
proof -
  let ?C = "bs_calls s"
  have p: "same_session (bs_adapter s) a" "\<And>x. p = Some x \<Longrightarrow> phase_id x = None" using assms(2) by (auto simp: call_begins_def)
  have idle: "?C(t := None) = ?C" using assms(1) by auto
  have "ids_with f (?C(t := p)) = ids_with f ?C" if "\<And>x. p = Some x \<Longrightarrow> f x = None" for f
    using that ids_upd [of f ?C t] idle by (cases p) auto
  moreover have "registered_id x = None" "unregistered_id x = None" if "p = Some x" for x
    using p(2) [OF that] by (cases x; simp)+
  ultimately have C: "registered (?C(t := p)) = registered ?C" "unregistered (?C(t := p)) = unregistered ?C"
    "ids_with phase_id (?C(t := p)) = ids_with phase_id ?C" using p(2) by blast+
  have "own_ids (?C(t := p))" if "own_ids ?C" using that own_upd [OF that, of _ t] p(2) idle by (cases p) auto
  then show ?thesis using assms(3) p(1) C by (auto simp: binance_inv_def calls_ok_def promises_ok_def session_ok_def same_session_def begun_def)
qed

text \<open>A thread goes from one phase to the next: the id of the old phase leaves the sets and the id of the new one enters them.\<close>

definition with_phase :: "('j call_phase \<Rightarrow> string option) \<Rightarrow> 'j call_phase \<Rightarrow> 'j call_phase option \<Rightarrow> string set \<Rightarrow> string set" where
  "with_phase f p q X = X - set_option (phase_id p) \<union> (case q of None \<Rightarrow> {} | Some y \<Rightarrow> set_option (f y))"

lemma ids_with_phase:
  assumes "own_ids C" "C t = Some p" "\<And>x rid. f x = Some rid \<Longrightarrow> phase_id x = Some rid"
  shows "ids_with f (C(t := q)) = with_phase f p q (ids_with f C)"
  using ids_over [OF assms] ids_upd [of f C t] by (cases q) (auto simp: with_phase_def)

lemma with_phase_ids: "with_phase phase_id p q (R \<union> U) = with_phase registered_id p q R \<union> with_phase unregistered_id p q U"
  by (auto simp: with_phase_def phase_id_split split: option.splits)

lemma phase_inv:
  assumes t: "bs_calls s t = Some p" and inv: "binance_inv S s" and "bn_next_id (bs_adapter s) \<le> bn_next_id a"
    and P: "\<And>R U. promises_ok (sj_venue S) R U (bs_adapter s) \<Longrightarrow> set_option (registered_id p) \<subseteq> R \<Longrightarrow> set_option (unregistered_id p) \<subseteq> U \<Longrightarrow>
      R \<union> U \<subseteq> names_below (bn_next_id (bs_adapter s)) \<Longrightarrow> promises_ok (sj_venue S) (with_phase registered_id p q R) (with_phase unregistered_id p q U) a"
    and ses: "session_ok (bs_online s) (bs_adapter s) \<Longrightarrow> session_ok (bs_online s) a"
    and new: "\<And>x rid. q = Some x \<Longrightarrow> phase_id x = Some rid \<Longrightarrow> phase_id p = Some rid \<or>
      rid \<in> names_below (bn_next_id a) - names_below (bn_next_id (bs_adapter s))"
  shows "binance_inv S (begun t q a s)"
proof -
  let ?C = "bs_calls s" and ?a = "bs_adapter s" and ?A = "fst ` set (bs_answers s)"
  let ?ids = "ids_with phase_id ?C" and ?ids' = "ids_with phase_id (?C(t := q))"
  have own: "own_ids ?C" and A: "?A \<inter> ?ids = {}" "?A \<subseteq> names_below (bn_next_id ?a)" "?ids \<subseteq> names_below (bn_next_id ?a)"
    using inv by (auto simp: binance_inv_def calls_ok_def)
  note C = ids_with_phase [OF own t]
  have C': "registered (?C(t := q)) = with_phase registered_id p q (registered ?C)"
    "unregistered (?C(t := q)) = with_phase unregistered_id p q (unregistered ?C)" "?ids' = with_phase phase_id p q ?ids"
    by (rule C, simp add: phase_id_split)+
  have p: "set_option (phase_id p) \<subseteq> ?ids" using t by (force simp: ids_with_def)
  have q: "set_option (phase_id x) \<subseteq> set_option (phase_id p) \<union> (names_below (bn_next_id a) - names_below (bn_next_id ?a))" if "q = Some x" for x
    using new [OF that] by (cases "phase_id x") auto
  have "own_ids (?C(t := q))"
  proof (cases q)
    case (Some x)
    have "set_option (phase_id x) \<inter> ids_with phase_id (?C(t := None)) = {}"
      using q [OF Some] A(3) unfolding C [where f = phase_id and q = None, simplified] with_phase_def by auto
    then show ?thesis using own_upd [OF own] Some by simp
  qed (simp add: own_over [OF own])
  moreover have "?ids' \<subseteq> ?ids \<union> (names_below (bn_next_id a) - names_below (bn_next_id ?a))"
    using p q unfolding C'(3) with_phase_def by (cases q) auto
  then have "?ids' \<subseteq> names_below (bn_next_id a)" "?A \<inter> ?ids' = {}" "?A \<subseteq> names_below (bn_next_id a)"
    using A names_mono [OF assms(3)] by blast+
  moreover have "promises_ok (sj_venue S) (registered (?C(t := q))) (unregistered (?C(t := q))) a"
  proof -
    have "set_option (registered_id p) \<subseteq> registered ?C" "set_option (unregistered_id p) \<subseteq> unregistered ?C"
      using t by (force simp: ids_with_def)+
    then show ?thesis unfolding C' using P inv A(3) by (simp add: binance_inv_def call_ids_split)
  qed
  ultimately show ?thesis using inv ses by (simp add: binance_inv_def calls_ok_def begun_def)
qed

lemma unnamed_inv:
  assumes "bs_calls s t = Some p" "binance_inv S s" "phase_id p = None" "\<And>x. q = Some x \<Longrightarrow> phase_id x = None"
  shows "binance_inv S (begun t q (bs_adapter s) s)"
proof (rule phase_inv [OF assms(1,2)])
  have "with_phase f p q X = X" if "\<And>x rid. f x = Some rid \<Longrightarrow> phase_id x = Some rid" for f X
    using assms(3) assms(4) that by (cases q; cases "f (the q)") (auto simp: with_phase_def)
  then have "with_phase registered_id p q R = R" "with_phase unregistered_id p q U = U" for R U by (simp_all add: phase_id_split)
  then show "promises_ok (sj_venue S) (with_phase registered_id p q R) (with_phase unregistered_id p q U) (bs_adapter s)"
    if "promises_ok (sj_venue S) R U (bs_adapter s)" for R U using that by simp
qed (use assms(4) in auto)

lemma prepare_inv:
  assumes "bs_calls s t = Some (Prepare verb p)" "request_prepare S verb p (bs_adapter s) = (r, a)" "binance_inv S s"
  shows "binance_inv S (begun t (phase_of r) a s)"
proof (cases "wait_until_ready (bs_adapter s)")
  case (Inl e)
  then show ?thesis using assms(2) unnamed_inv [OF assms(1,3), of None] by (auto simp: request_prepare_def)
next
  case (Inr u)
  let ?n = "bn_next_id (bs_adapter s)"
  obtain j where r: "r = Inr (Register (request_name ?n) j)" "a = (bs_adapter s)\<lparr>bn_next_id := Suc ?n\<rparr>"
    using assms(2) Inr by (auto simp: request_prepare_def next_request_id_def request_name_def)
  show ?thesis
  proof (rule phase_inv [OF assms(1,3)])
    fix R U
    assume "promises_ok (sj_venue S) R U (bs_adapter s)" "R \<union> U \<subseteq> names_below ?n"
    then show "promises_ok (sj_venue S) (with_phase registered_id (Prepare verb p) (phase_of r) R)
        (with_phase unregistered_id (Prepare verb p) (phase_of r) U) a"
      using name_fresh [of ?n] names_mono [of ?n "Suc ?n"] unfolding r promises_ok_def with_phase_def by (auto iff del: domIff)
  qed (use r name_next in \<open>auto simp: session_ok_def\<close>)
qed

lemma register_inv:
  assumes "bs_calls s t = Some (Register rid j)" "request_register rid j (bs_adapter s) = (r, a)" "binance_inv S s"
  shows "binance_inv S (begun t (phase_of r) a s)"
proof (rule phase_inv [OF assms(1,3)])
  fix R U
  assume "promises_ok (sj_venue S) R U (bs_adapter s)" "set_option (unregistered_id (Register rid j)) \<subseteq> U"
  then show "promises_ok (sj_venue S) (with_phase registered_id (Register rid j) (phase_of r) R)
      (with_phase unregistered_id (Register rid j) (phase_of r) U) a"
    using assms(2) unfolding promises_ok_def with_phase_def request_register_def by (auto iff del: domIff)
qed (use assms(2) in \<open>auto simp: session_ok_def request_register_def\<close>)

lemma transmit_inv:
  assumes "bs_calls s t = Some (Transmit rid j)" "request_send w rid j (bs_adapter s) = (r, a)" "binance_inv S s"
  shows "binance_inv S (begun t (phase_of r) a s)"
proof (rule phase_inv [OF assms(1,3)])
  fix R U
  assume p: "promises_ok (sj_venue S) R U (bs_adapter s)" "set_option (registered_id (Transmit rid j)) \<subseteq> R"
  show "promises_ok (sj_venue S) (with_phase registered_id (Transmit rid j) (phase_of r) R)
      (with_phase unregistered_id (Transmit rid j) (phase_of r) U) a"
  proof (cases "bw_send_accepted w")
    case True
    have "rid \<notin> U" using p unfolding promises_ok_def by (auto iff del: domIff)
    then have "with_phase registered_id (Transmit rid j) (phase_of r) R = R" "with_phase unregistered_id (Transmit rid j) (phase_of r) U = U"
      using p(2) assms(2) True by (auto simp: with_phase_def request_send_def)
    then show ?thesis using p(1) assms(2) True by (auto simp: request_send_def promises_ok_def iff del: domIff)
  next
    case False
    then have "r = Inl (Runtime_error ''Binance WebSocket is disconnected'')"
      "a = (bs_adapter s)\<lparr>bn_pending := removeAll rid (bn_pending (bs_adapter s))\<rparr>"
      using assms(2) by (auto simp: request_send_def)
    then show ?thesis using p(1) unfolding promises_ok_def with_phase_def by (simp add: distinct_removeAll) blast
  qed
qed (use assms(2) in \<open>auto simp: session_ok_def request_send_def split: if_splits\<close>)

lemma turn_inv:
  assumes t: "bs_calls s t = Some p" and turn: "call_turn w S p (bs_adapter s) = (r, a)" and inv: "binance_inv S s"
  shows "binance_inv S (begun t (phase_of r) a s)"
proof (cases p)
  case (Await rid)
  then have "begun t (phase_of r) a s = s" using t turn by (auto simp: begun_def fun_upd_idem)
  then show ?thesis using inv by simp
next
  case (Wait_to_sign verb q)
  then show ?thesis using turn unnamed_inv [OF t inv, of "phase_of r"] by (cases "wait_until_ready (bs_adapter s)") auto
next
  case (Sign verb q)
  then show ?thesis using turn unnamed_inv [OF t inv, of "phase_of r"] by (cases "sign_parameters w S q (bs_adapter s)") auto
qed (use t turn inv prepare_inv register_inv transmit_inv in auto)

lemma same_inv: "same_session (bs_adapter s) a \<Longrightarrow> binance_inv S s \<Longrightarrow> binance_inv S (s\<lparr>bs_adapter := a\<rparr>)"
  by (rule session_step_inv_same, erule same_step(1), erule same_step(2)) (simp_all add: binance_inv_def)

lemma binance_inv_step:
  assumes inv: "binance_inv S s" and "binance_step S s s'"
  shows "binance_inv S s'"
  using assms(2)
proof cases
  case start then show ?thesis using inv same_inv start_same by blast
next
  case stop then show ?thesis using inv session_step_inv stop_step stop_session unfolding binance_inv_def by blast
next
  case restore then show ?thesis using inv same_inv restore_same by blast
next
  case place then show ?thesis using begins_inv [OF _ place_begins inv] by metis
next
  case cancel then show ?thesis using begins_inv [OF _ cancel_begins inv] by metis
next
  case amend then show ?thesis using begins_inv [OF _ amend_begins inv] by metis
next
  case query then show ?thesis using begins_inv [OF _ query_begins inv] unfolding binance_query_begin_def by metis
next
  case open_orders then show ?thesis using begins_inv [OF _ query_begins inv] unfolding binance_open_orders_begin_def by metis
next
  case balances then show ?thesis using begins_inv [OF _ balances_begins inv] by metis
next
  case rules then show ?thesis using begins_inv [OF _ rules_begins inv] by metis
next
  case turn then show ?thesis using turn_inv [OF _ _ inv] by metis
next
  case ended then show ?thesis using inv ended_inv by blast
next
  case rules_read then show ?thesis using inv same_inv rules_end_same by blast
next
  case (clock w)
  then show ?thesis using session_step_inv_same [OF clock_step clock_session inv] inv by (simp add: binance_inv_def)
next
  case opened then show ?thesis using inv session_step_inv opened_step opened_session unfolding binance_inv_def by blast
next
  case (message w msg)
  then show ?thesis using inv session_step_inv_same message_step by (metis binance_inv_def)
next
  case closed then show ?thesis using inv session_step_inv closed_step unfolding binance_inv_def by blast
qed

interpretation binance_run: invariant_system "binance_step S" "binance_inv S"
  by unfold_locales (rule binance_inv_step)

definition new_binance_system :: "'j binance_adapter \<Rightarrow> 'j binance_system" where
  "new_binance_system a = \<lparr>bs_adapter = a, bs_online = False, bs_calls = Map.empty, bs_answers = []\<rparr>"

lemma new_binance_inv: "new_binance_adapter c limiter = Inr a \<Longrightarrow> binance_inv S (new_binance_system a)"
  by (auto simp: new_binance_adapter_def new_binance_system_def binance_inv_def calls_ok_def promises_ok_def session_ok_def
      ids_with_def own_ids_def request_name_def split: if_splits)

section \<open>The signed clock\<close>

text \<open>The clock of the venue in milliseconds, as a function of the local steady clock in nanoseconds. The two run at the same
  rate: \<open>off\<close> is their distance.\<close>

definition venue_clock :: "int \<Rightarrow> int \<Rightarrow> int" where
  "venue_clock off t = (t + off) div 1000000"

lemma div_bounds: "0 < k \<Longrightarrow> k * (x div k) \<le> x \<and> x < k * (x div k) + k" for k x :: int
  using mult_div_mod_eq [of k x] pos_mod_bound [of k x] pos_mod_sign [of k x] by linarith

lemma signed_clock_bounds:
  assumes "synced = synchronize_clock (venue_clock off answered) sent received a"
    and "sent \<le> answered" "answered \<le> received" "received \<le> now" "signed_timestamp now synced = Inr stamp"
  shows "stamp \<le> venue_clock off now"
    "venue_clock off now - stamp \<le> max (bc_timestamp_safety_margin (bn_config a)) ((received - sent) div 2000000 + 25) + (received - sent) div 2000000 + 3"
proof -
  let ?rtt = "received - sent" and ?mid = "sent + (received - sent) div 2"
  let ?margin = "max (bc_timestamp_safety_margin (bn_config a)) (?rtt div 2000000 + 25)"
  have half: "?rtt div 1000000 div 2 = ?rtt div 2000000" by (simp add: zdiv_zmult2_eq [symmetric])
  have mid: "2 * (?rtt div 2) \<le> ?rtt \<and> ?rtt < 2 * (?rtt div 2) + 2" using div_bounds [of 2 ?rtt] by simp
  then have signs: "0 \<le> ?rtt" "0 \<le> now - ?mid" "0 \<le> ?rtt div 1000000" using assms(2-4) by (linarith, linarith, simp)
  have stamp: "stamp = venue_clock off answered + (now - ?mid) div 1000000 - ?margin"
    using assms signs by (simp add: synchronize_clock_def signed_timestamp_def Let_def sdiv_trunc(3) half)
  have bounds: "2000000 * (?rtt div 2000000) \<le> ?rtt \<and> ?rtt < 2000000 * (?rtt div 2000000) + 2000000"
    "1000000 * ((now - ?mid) div 1000000) \<le> now - ?mid \<and> now - ?mid < 1000000 * ((now - ?mid) div 1000000) + 1000000"
    "1000000 * venue_clock off answered \<le> answered + off \<and> answered + off < 1000000 * venue_clock off answered + 1000000"
    "1000000 * venue_clock off now \<le> now + off \<and> now + off < 1000000 * venue_clock off now + 1000000"
    unfolding venue_clock_def by (rule div_bounds, simp)+
  have "?rtt div 2000000 + 25 \<le> ?margin" by simp
  then show "stamp \<le> venue_clock off now" unfolding stamp using assms(2-4) bounds mid by linarith
  show "venue_clock off now - stamp \<le> ?margin + ?rtt div 2000000 + 3" unfolding stamp using assms(2-4) bounds mid by linarith
qed

lemma timestamp_fields:
  "bn_clock_synchronized b = bn_clock_synchronized a \<Longrightarrow> bn_clock_synchronized_at b = bn_clock_synchronized_at a \<Longrightarrow>
   bn_clock_uncertainty_ms b = bn_clock_uncertainty_ms a \<Longrightarrow> bn_server_time_at_sync_ms b = bn_server_time_at_sync_ms a \<Longrightarrow>
   bn_config b = bn_config a \<Longrightarrow> signed_timestamp now b = signed_timestamp now a"
  by (simp add: signed_timestamp_def)

lemma subscribe_timestamp: "signed_timestamp now (subscribe_user_data w S a) = signed_timestamp now a"
  by (rule timestamp_fields)
    (simp_all add: subscribe_user_data_def next_request_id_def send_message_def Let_def split: sum.split)

section \<open>A session\<close>

definition binance_sample_config :: binance_config where
  "binance_sample_config = \<lparr>bc_api_key = ''key'', bc_secret_key = ''secret'', bc_server_time_resync_interval = 1,
     bc_timestamp_safety_margin = 100, bc_recv_window = 5000, bc_instrument_cache_ttl = 1\<rparr>"

definition binance_sample_bucket :: token_bucket where
  "binance_sample_bucket = \<lparr>capacity_units = 60000000, period_ns = 1, theoretical_arrival_ns = 0\<rparr>"

definition binance_sample_world :: "json_tree binance_world" where
  "binance_sample_world = \<lparr>bw_steady_ns = 2000000, bw_unix_ms = 7, bw_connected = True, bw_send_accepted = True,
     bw_hmac = (\<lambda>key text. Inr [171]), bw_limit_reading = (\<lambda>j. Inr None)\<rparr>"

definition binance_sample_time :: json_tree where
  "binance_sample_time = JObject [(''id'', JString ''abex-time-1''), (''status'', JNumber 200),
     (''result'', JObject [(''serverTime'', JNumber 1000)])]"

definition binance_sample_subscribed :: json_tree where
  "binance_sample_subscribed = JObject [(''id'', JString ''abex-subscribe-2''), (''status'', JNumber 200)]"

definition binance_sample_answer :: json_tree where
  "binance_sample_answer = JObject [(''id'', JString ''abex-request-3''), (''status'', JNumber 200)]"

definition binance_sample_json :: "json_tree signing_json" where
  "binance_sample_json =
     \<lparr>sj_venue = tree_venue\<lparr>vj_core := tree_json (\<lambda>t. if t = ''t'' then Inr binance_sample_time
        else if t = ''s'' then Inr binance_sample_subscribed else Inr binance_sample_answer)\<rparr>,
      sj_items = (\<lambda>j. case j of JObject kvs \<Rightarrow> kvs | _ \<Rightarrow> []), sj_is_boolean = (\<lambda>j. False),
      sj_is_number = (\<lambda>j. case j of JNumber i \<Rightarrow> True | _ \<Rightarrow> False),
      sj_put = (\<lambda>j k v. case j of JObject kvs \<Rightarrow> JObject (kvs @ [(k, v)]) | _ \<Rightarrow> j)\<rparr>"

definition binance_sample_adapter :: "json_tree binance_adapter" where
  "binance_sample_adapter = (case new_binance_adapter binance_sample_config binance_sample_bucket of Inr a \<Rightarrow> a)"

definition binance_sample_ready :: "json_tree binance_adapter" where
  "binance_sample_ready =
     binance_websocket_message binance_sample_world binance_sample_json ''s''
       (binance_websocket_message binance_sample_world binance_sample_json ''t''
         (binance_websocket_opened binance_sample_world binance_sample_json binance_sample_adapter))"

lemma binance_sample_ready_ok:
  "wait_until_ready binance_sample_ready = Inr ()" "signed_timestamp 2000000 binance_sample_ready = Inr 900"
  by code_simp+

text \<open>A query of the open orders, section by section, and the answer to it.\<close>

definition binance_sample_turn :: "json_tree call_phase \<times> json_tree binance_adapter \<Rightarrow> json_tree call_phase \<times> json_tree binance_adapter" where
  "binance_sample_turn x =
     (case call_turn binance_sample_world binance_sample_json (fst x) (snd x) of
        (Inl e, a) \<Rightarrow> (fst x, a)
      | (Inr p, a) \<Rightarrow> (p, a))"

definition binance_sample_query :: "json_tree call_phase \<times> json_tree binance_adapter" where
  "binance_sample_query =
     (case binance_open_orders_begin binance_sample_world binance_sample_json binance_sample_ready of
        (None, a) \<Rightarrow> (Await [], a)
      | (Some p, a) \<Rightarrow> (p, a))"

definition binance_sample_answered :: "json_tree binance_adapter" where
  "binance_sample_answered =
     binance_websocket_message binance_sample_world binance_sample_json ''o'' (snd ((binance_sample_turn ^^ 5) binance_sample_query))"

lemma binance_sample_call:
  "fst (binance_open_orders_begin binance_sample_world binance_sample_json binance_sample_ready) \<noteq> None"
  "\<forall>k \<in> set [0..<5]. fst (call_turn binance_sample_world binance_sample_json (fst ((binance_sample_turn ^^ k) binance_sample_query))
     (snd ((binance_sample_turn ^^ k) binance_sample_query))) = Inr (fst ((binance_sample_turn ^^ Suc k) binance_sample_query))"
  "fst ((binance_sample_turn ^^ 5) binance_sample_query) = Await ''abex-request-3''"
  "map_option fst (request_end binance_sample_world (sj_venue binance_sample_json) ''abex-request-3'' False binance_sample_answered) =
   Some (Inr binance_sample_answer)"
  "map_option (\<lambda>r. wait_until_ready (snd r)) (request_end binance_sample_world (sj_venue binance_sample_json) ''abex-request-3'' False
     binance_sample_answered) = Some (Inr ())"
  by code_simp+

lemma binance_sample_sections:
  "(binance_step binance_sample_json)\<^sup>*\<^sup>*
     \<lparr>bs_adapter = binance_sample_ready, bs_online = True, bs_calls = Map.empty, bs_answers = []\<rparr>
     \<lparr>bs_adapter = snd ((binance_sample_turn ^^ k) binance_sample_query), bs_online = True,
       bs_calls = [0 \<mapsto> fst ((binance_sample_turn ^^ k) binance_sample_query)], bs_answers = []\<rparr>"
  (is "?step\<^sup>*\<^sup>* ?start (?at k)") if "k \<le> 5"
  using that
proof (induction k)
  case 0
  obtain p a where q: "binance_open_orders_begin binance_sample_world binance_sample_json binance_sample_ready = (Some p, a)"
    using binance_sample_call(1) by (metis not_Some_eq prod.collapse)
  then have "fst binance_sample_query = p" "snd binance_sample_query = a" by (simp_all add: binance_sample_query_def)
  then have "?at 0 = begun 0 (Some p) a ?start" by (simp add: begun_def fun_upd_def)
  then have "?step ?start (?at 0)"
    using binance_step.open_orders [of ?start 0 binance_sample_world binance_sample_json "Some p" a] q by simp
  then show ?case by blast
next
  case (Suc k)
  let ?x = "(binance_sample_turn ^^ k) binance_sample_query"
  have "k \<in> set [0..<5]" using Suc.prems by simp
  then have "fst (call_turn binance_sample_world binance_sample_json (fst ?x) (snd ?x)) = Inr (fst (binance_sample_turn ?x))"
    using binance_sample_call(2) by (metis comp_apply funpow.simps(2))
  then obtain a where a: "call_turn binance_sample_world binance_sample_json (fst ?x) (snd ?x) = (Inr (fst (binance_sample_turn ?x)), a)"
    by (metis prod.collapse)
  then have "snd (binance_sample_turn ?x) = a" by (subst binance_sample_turn_def) simp
  then have "?at (Suc k) = begun 0 (phase_of (Inr (fst (binance_sample_turn ?x)))) a (?at k)" by (auto simp: begun_def fun_eq_iff)
  moreover have "?step (?at k) (begun 0 (phase_of (Inr (fst (binance_sample_turn ?x)))) a (?at k))"
    using binance_step.turn [of "?at k" 0 "fst ?x" binance_sample_world binance_sample_json] a by simp
  ultimately have "?step (?at k) (?at (Suc k))" by simp
  then show ?case using Suc by (meson Suc_leD rtranclp.rtrancl_into_rtrancl)
qed

lemma binance_sample_run:
  obtains s where "(binance_step binance_sample_json)\<^sup>*\<^sup>* (new_binance_system binance_sample_adapter) s"
    "bs_answers s = [(''abex-request-3'', binance_sample_answer)]" "wait_until_ready (bs_adapter s) = Inr ()"
proof -
  let ?step = "binance_step binance_sample_json" and ?w = "binance_sample_world" and ?S = "binance_sample_json"
  let ?o = "binance_websocket_opened ?w ?S binance_sample_adapter"
  let ?t = "binance_websocket_message ?w ?S ''t'' ?o" and ?m = binance_sample_answered
  let ?at = "\<lambda>a online calls answers. \<lparr>bs_adapter = a, bs_online = online, bs_calls = calls, bs_answers = answers\<rparr>"
  let ?wait = "[0 \<mapsto> Await ''abex-request-3'']" and ?a = "snd ((binance_sample_turn ^^ 5) binance_sample_query)"
  obtain z where z: "request_end ?w (sj_venue ?S) ''abex-request-3'' False ?m = Some (Inr binance_sample_answer, z)"
    using binance_sample_call(4) by (cases "request_end ?w (sj_venue ?S) ''abex-request-3'' False ?m") auto
  have ready: "wait_until_ready z = Inr ()"
    using arg_cong [OF z, of "map_option (wait_until_ready \<circ> snd)"] binance_sample_call(5) by (simp add: comp_def)
  have 1: "?step (new_binance_system binance_sample_adapter) (?at ?o True Map.empty [])"
    using binance_step.opened [of "new_binance_system binance_sample_adapter" ?w ?S]
    by (simp add: new_binance_system_def binance_sample_world_def)
  have 2: "?step (?at ?o True Map.empty []) (?at ?t True Map.empty [])"
    using binance_step.message [of "?at ?o True Map.empty []" ?S ?w "''t''"] by simp
  have 3: "?step (?at ?t True Map.empty []) (?at binance_sample_ready True Map.empty [])"
    using binance_step.message [of "?at ?t True Map.empty []" ?S ?w "''s''"] by (simp add: binance_sample_ready_def)
  have 4: "?step\<^sup>*\<^sup>* (?at binance_sample_ready True Map.empty []) (?at ?a True ?wait [])"
    using binance_sample_sections [of 5] unfolding binance_sample_call(3) by simp
  have 5: "?step (?at ?a True ?wait []) (?at ?m True ?wait [])"
    using binance_step.message [of "?at ?a True ?wait []" ?S ?w "''o''"] by (simp add: binance_sample_answered_def)
  have 6: "?step (?at ?m True ?wait []) (?at z True Map.empty [(''abex-request-3'', binance_sample_answer)])"
    using binance_step.ended [of "?at ?m True ?wait []" 0 "''abex-request-3''" ?w ?S False, simplified, OF z] by simp
  have "?step\<^sup>*\<^sup>* (new_binance_system binance_sample_adapter) (?at ?a True ?wait [])"
    using 1 2 3 4 by (meson converse_rtranclp_into_rtranclp)
  then have "?step\<^sup>*\<^sup>* (new_binance_system binance_sample_adapter) (?at z True Map.empty [(''abex-request-3'', binance_sample_answer)])"
    using 5 6 by (meson rtranclp.rtrancl_into_rtrancl)
  then show thesis by (rule that) (simp_all add: ready)
qed

lemma binance_sample_new: "new_binance_adapter binance_sample_config binance_sample_bucket = Inr binance_sample_adapter"
  by (simp add: binance_sample_adapter_def new_binance_adapter_def binance_sample_config_def)

section \<open>Properties\<close>

text \<open>C21. Answers are matched in every run of the Binance session, with the calls of any number of threads interleaved section by
  section (the wait for a ready session, the signature, the id of the request, the registration, the sending, the wait for the
  answer) with the callbacks of the session and the turns of the clock thread. Between two such steps: the answers that calls ended with
  carry the ids of their own requests, and no answer ended two calls; every promise that waits belongs to a call in
  progress; a call that waits for its answer is registered or has its outcome already, and a disconnection gives every
  call that waits at that moment an outcome (a call that registers later waits for its timeout); while the adapter
  says that it is ready its clock is synchronized, so that requests can be signed.\<close>

theorem binance_answers_matched:
  assumes "new_binance_adapter c limiter = Inr a" and "(binance_step S)\<^sup>*\<^sup>* (new_binance_system a) s"
  shows "(\<forall>(rid, j) \<in> set (bs_answers s). json_id (sj_venue S) j = Inr rid) \<and> distinct (map fst (bs_answers s)) \<and>
    (\<forall>rid \<in> set (bn_pending (bs_adapter s)). \<exists>t. (\<exists>j. bs_calls s t = Some (Transmit rid j)) \<or> bs_calls s t = Some (Await rid)) \<and>
    (\<forall>t rid. bs_calls s t = Some (Await rid) \<longrightarrow>
       (rid \<in> set (bn_pending (bs_adapter s)) \<or> (\<exists>outcome. bn_promises (bs_adapter s) rid = Some outcome)) \<and>
       (\<exists>outcome. bn_promises (binance_websocket_connection False why (bs_adapter s)) rid = Some outcome)) \<and>
    (wait_until_ready (bs_adapter s) = Inr () \<longrightarrow> (\<exists>stamp. signed_timestamp now (bs_adapter s) = Inr stamp))"
proof -
  let ?a = "bs_adapter s" and ?C = "bs_calls s"
  have inv: "calls_ok S s" "promises_ok (sj_venue S) (registered ?C) (unregistered ?C) ?a" "session_ok (bs_online s) ?a"
    using binance_run.reachable_inv [OF assms(2) new_binance_inv [OF assms(1)]] by (simp_all add: binance_inv_def)
  have "bn_clock_synchronized ?a" if "wait_until_ready ?a = Inr ()"
    using that inv(3) by (auto simp: wait_until_ready_def session_ok_def split: if_splits)
  then have *: "\<exists>stamp. signed_timestamp now ?a = Inr stamp" if "wait_until_ready ?a = Inr ()"
    using that by (simp add: signed_timestamp_def Let_def)
  have pending: "\<exists>t. (\<exists>j. ?C t = Some (Transmit rid j)) \<or> ?C t = Some (Await rid)" if "rid \<in> set (bn_pending ?a)" for rid
    using that inv(2) registered_ids [of rid ?C] by (auto simp: promises_ok_def)
  have waits: "rid \<in> set (bn_pending ?a) \<union> dom (bn_promises ?a)" if "?C t = Some (Await rid)" for t rid
    using that inv(2) registered_ids [of rid ?C] by (auto simp: promises_ok_def)
  have "dom (bn_promises (binance_websocket_connection False why ?a)) = set (bn_pending ?a) \<union> dom (bn_promises ?a)"
    by (simp add: binance_websocket_connection_def Let_def fail_pending_promises)
  then have "\<exists>outcome. bn_promises (binance_websocket_connection False why ?a) rid = Some outcome" if "?C t = Some (Await rid)" for t rid
    using waits [OF that] by (metis domD)
  with * pending show ?thesis using inv(1) waits by (auto simp: calls_ok_def dest!: waits)
qed

theorem binance_answers_matched_witness:
  "\<exists>s. (binance_step binance_sample_json)\<^sup>*\<^sup>* (new_binance_system binance_sample_adapter) s \<and>
     bs_answers s = [(''abex-request-3'', binance_sample_answer)] \<and>
     json_id (sj_venue binance_sample_json) binance_sample_answer = Inr ''abex-request-3'' \<and>
     (\<exists>stamp. signed_timestamp 2000000 (bs_adapter s) = Inr stamp)"
proof -
  obtain s where s: "(binance_step binance_sample_json)\<^sup>*\<^sup>* (new_binance_system binance_sample_adapter) s"
    "bs_answers s = [(''abex-request-3'', binance_sample_answer)]" "wait_until_ready (bs_adapter s) = Inr ()"
    by (rule binance_sample_run)
  show ?thesis using s binance_answers_matched [OF binance_sample_new s(1), where now = 2000000] by auto
qed

text \<open>C25. Signed timestamps are never ahead of the venue and boundedly behind: if the clock of the venue runs at the rate of the
  local steady clock and the answer to a time request was computed by the venue between its sending and its arrival, then
  every timestamp signed after it (until the next synchronization) is at most the time of the venue at that moment, and behind it by at
  most the larger of the safety margin and half of the round trip plus 25 ms, plus half of the round trip plus 3 ms.\<close>

theorem binance_timestamp_bounds:
  assumes "server_time_of (sj_venue S) j = Inr (Some v)"
    and "j_get_integer (vj_core (sj_venue S)) v = Inr (venue_clock off answered)"
    and "sent \<le> answered" and "answered \<le> received" and "received \<le> now"
    and "signed_timestamp now (time_answer w S received sent requested j a) = Inr stamp"
  shows "stamp \<le> venue_clock off now \<and>
    venue_clock off now - stamp \<le> max (bc_timestamp_safety_margin (bn_config a)) ((received - sent) div 2000000 + 25)
      + (received - sent) div 2000000 + 3"
proof -
  have "signed_timestamp now (synchronize_clock (venue_clock off answered) sent received a) = Inr stamp"
    using assms(1,2,6) by (auto simp: time_answer_def Let_def subscribe_timestamp split: if_splits)
  from signed_clock_bounds [OF refl assms(3-5) this] show ?thesis by blast
qed

theorem binance_timestamp_bounds_witness:
  "\<exists>stamp. signed_timestamp 9000000 (time_answer binance_sample_world binance_sample_json 4000000 2000000 True binance_sample_time
       binance_sample_adapter) = Inr stamp \<and> stamp \<le> venue_clock 997000000 9000000 \<and> venue_clock 997000000 9000000 - stamp \<le> 104"
proof -
  have v: "server_time_of (sj_venue binance_sample_json) binance_sample_time = Inr (Some (JNumber 1000))"
    "j_get_integer (vj_core (sj_venue binance_sample_json)) (JNumber 1000) = Inr (venue_clock 997000000 3000000)"
    by code_simp+
  have s: "signed_timestamp 9000000 (time_answer binance_sample_world binance_sample_json 4000000 2000000 True binance_sample_time
      binance_sample_adapter) = Inr 906" by code_simp
  show ?thesis using s binance_timestamp_bounds [OF v _ _ _ s]
    by (simp add: binance_sample_adapter_def new_binance_adapter_def binance_sample_config_def)
qed

text \<open>A refused command is the venue's word: without an answer, or with one that cannot be read, the outcome is left open.\<close>

lemma binance_refusal_answered:
  assumes "\<not> ar_accepted (command_end V answer)" "\<not> ar_outcome_uncertain (command_end V answer)"
  shows "\<exists>j. answer = Inr j \<and> binance_parse_ack V j = Inr (command_end V answer)"
  using assms by (cases answer) (auto simp: command_end_def uncertain_result_def split: sum.splits)

text \<open>A rejected time request tells the gateway that the venue is gone; the session stays subscribed, and the next accepted time
  answer does not tell it that the venue is back.\<close>

lemma binance_stays_disconnected:
  "\<exists>rejected. bn_subscribed (binance_start binance_sample_ready) \<and>
     (let a = time_answer binance_sample_world binance_sample_json 0 0 False rejected (binance_start binance_sample_ready);
          b = time_answer binance_sample_world binance_sample_json 0 0 False binance_sample_time a
      in bn_subscribed b \<and> bn_events b = bn_events (binance_start binance_sample_ready) @
           [Connection_changed False ''Binance server-time synchronization was rejected''])"
  by (rule exI [of _ "JObject [(''status'', JNumber 400)]"]) code_simp

end
