(* ===== verification/Abex_Views.thy ===== *)
theory Abex_Views
  imports Abex_Gateway_Admin Abex_Audit Abex_Http Abex_Sim_Exchange
begin

text \<open>
  The JSON views of the gateway (\<open>src/presentation/json_views.cpp\<close>) that the REST interface and the terminal show.

  An object of the JSON library is ordered by its keys, so an entry that is assigned later is one more pair here, and the
  iteration order of a hash map that becomes an object does not show. Reads of the clock are arguments.
\<close>

section \<open>The library\<close>

text \<open>What the views and the REST interface use beyond the parsers: arrays, the keys of an object, and printing, which throws on
  a text that is not UTF-8.\<close>

record 'j view_json =
  vw_venue :: "'j venue_json"
  vw_array :: "'j list \<Rightarrow> 'j"
  vw_keys :: "'j \<Rightarrow> string list"
  vw_dump :: "'j \<Rightarrow> string result"

abbreviation vw_core :: "'j view_json \<Rightarrow> 'j json_api" where
  "vw_core W \<equiv> vj_core (vw_venue W)"

definition w_text :: "'j view_json \<Rightarrow> string \<Rightarrow> 'j" where
  "w_text W t = j_of_string (vw_core W) t"

definition w_number :: "'j view_json \<Rightarrow> int \<Rightarrow> 'j" where
  "w_number W i = j_of_number (vw_core W) i"

definition w_unsigned :: "'j view_json \<Rightarrow> u64 \<Rightarrow> 'j" where
  "w_unsigned W i = w_number W (uint i)"

definition w_bool :: "'j view_json \<Rightarrow> bool \<Rightarrow> 'j" where
  "w_bool W b = vj_of_bool (vw_venue W) b"

definition w_object :: "'j view_json \<Rightarrow> (string \<times> 'j) list \<Rightarrow> 'j" where
  "w_object W kvs = j_object (vw_core W) kvs"

definition w_decimal :: "'j view_json \<Rightarrow> decimal \<Rightarrow> 'j" where
  "w_decimal W d = w_text W (to_string d)"

text \<open>An object all of whose entries are texts.\<close>

definition w_texts :: "'j view_json \<Rightarrow> (string \<times> string) list \<Rightarrow> 'j" where
  "w_texts W kvs = w_object W (map (\<lambda>(k, t). (k, w_text W t)) kvs)"

definition nonempty_entry :: "'j view_json \<Rightarrow> string \<Rightarrow> string \<Rightarrow> (string \<times> 'j) list" where
  "nonempty_entry W k t = (if t = [] then [] else [(k, w_text W t)])"

section \<open>Orders\<close>

text \<open>\<open>order_view_impl\<close> is a template over orders and snapshots, which have the fields it reads in common.\<close>

definition order_view :: "'j view_json \<Rightarrow> order_snapshot \<Rightarrow> 'j" where
  "order_view W ord = w_object W (
     [(''clientOrderId'', w_text W (os_client_order_id ord)), (''exchangeOrderId'', w_text W (os_exchange_order_id ord)),
      (''venue'', w_text W (venue_to_string (os_venue ord))), (''symbol'', w_text W (os_symbol ord)),
      (''side'', w_text W (side_to_string (os_side ord))), (''type'', w_text W (order_type_to_string (os_type ord))),
      (''quantity'', w_decimal W (os_quantity ord)),
      (''timeInForce'', w_text W (time_in_force_to_string (os_time_in_force ord))),
      (''status'', w_text W (order_status_to_string (os_status ord))),
      (''pendingAction'', w_text W (pending_action_to_string (os_pending_action ord))),
      (''filledQuantity'', w_decimal W (os_filled_quantity ord)),
      (''rejectionReason'', w_text W (os_rejection_reason ord)), (''version'', w_unsigned W (os_version ord)),
      (''createdAt'', w_number W (os_created_at_ms ord)), (''updatedAt'', w_number W (os_updated_at_ms ord))] @
     optional_entry ''price'' (w_decimal W) (os_price ord) @
     optional_entry ''pendingAmendPrice'' (w_decimal W) (os_pending_amend_price ord) @
     optional_entry ''pendingAmendQuantity'' (w_decimal W) (os_pending_amend_quantity ord) @
     optional_entry ''averageFillPrice'' (w_decimal W) (os_average_fill_price ord) @
     optional_entry ''lastSequence'' (w_unsigned W) (os_last_sequence ord))"

definition operation_view :: "'j view_json \<Rightarrow> operation_result \<Rightarrow> 'j" where
  "operation_view W r = w_object W (
     [(''ok'', w_bool W (op_ok r)), (''idempotentReplay'', w_bool W (op_idempotent_replay r))] @
     nonempty_entry W ''code'' (op_code r) @ nonempty_entry W ''message'' (op_message r) @
     optional_entry ''order'' (\<lambda>ord. order_view W (snapshot_of ord)) (op_order r))"

definition positions_view :: "'j view_json \<Rightarrow> decimal list \<Rightarrow> 'j" where
  "positions_view W positions = w_object W (zip kSymbolNames (map (w_decimal W) positions))"

section \<open>Venues\<close>

definition venue_state_view :: "'j view_json \<Rightarrow> venue_health_view \<Rightarrow> 'j" where
  "venue_state_view W h = w_object W
     [(''connected'', w_bool W (vh_connected (hv_health h))), (''everConnected'', w_bool W (vh_ever_connected (hv_health h))),
      (''reconciliationRequired'', w_bool W (vh_reconciliation_required (hv_health h))),
      (''sequenceGaps'', w_unsigned W (vh_sequence_gaps (hv_health h))),
      (''droppedEvents'', w_unsigned W (vh_dropped_events (hv_health h))), (''lastError'', w_text W (hv_last_error h))]"

definition venues_view :: "'j view_json \<Rightarrow> (venue \<times> venue_health_view) list \<Rightarrow> 'j" where
  "venues_view W healths = w_object W (map (\<lambda>(v, h). (venue_to_string v, venue_state_view W h)) healths)"

definition account_balance_view :: "'j view_json \<Rightarrow> account_balance \<Rightarrow> 'j" where
  "account_balance_view W b = w_texts W
     [(''currency'', ab_currency b), (''total'', ab_total b), (''available'', ab_available b), (''frozen'', ab_frozen b),
      (''orderFrozen'', ab_order_frozen b)]"

definition balance_view :: "'j view_json \<Rightarrow> balance_query_result \<Rightarrow> 'j" where
  "balance_view W r = w_object W (
     [(''ok'', w_bool W (bq_ok r)), (''venue'', w_text W (venue_to_string (bs_venue (bq_snapshot r)))),
      (''accountId'', w_text W (bs_account_id (bq_snapshot r))), (''mainAccountId'', w_text W (bs_main_account_id (bq_snapshot r))),
      (''observedAt'', w_number W (bs_observed_at_ms (bq_snapshot r))),
      (''balances'', vw_array W (map (account_balance_view W) (bs_balances (bq_snapshot r))))] @
     nonempty_entry W ''code'' (bq_code r) @ nonempty_entry W ''message'' (bq_message r))"

definition instrument_rules_view :: "'j view_json \<Rightarrow> instrument_rules_query_result \<Rightarrow> 'j" where
  "instrument_rules_view W r =
     (let rules = iq_rules r; add = (\<lambda>k. optional_entry k (w_decimal W)) in
      w_object W (
        [(''ok'', w_bool W (iq_ok r)), (''venue'', w_text W (venue_to_string (ir_venue rules))),
         (''symbol'', w_text W (ir_symbol rules)), (''status'', w_text W (ir_status rules)),
         (''trading'', w_bool W (ir_trading rules)), (''observedAt'', w_number W (ir_observed_at_ms rules))] @
        add ''minimumPrice'' (ir_minimum_price rules) @ add ''maximumPrice'' (ir_maximum_price rules) @
        add ''priceTick'' (ir_price_tick rules) @ add ''minimumQuantity'' (ir_minimum_quantity rules) @
        add ''maximumQuantity'' (ir_maximum_quantity rules) @ add ''quantityStep'' (ir_quantity_step rules) @
        add ''marketMinimumQuantity'' (ir_market_minimum_quantity rules) @
        add ''marketMaximumQuantity'' (ir_market_maximum_quantity rules) @
        add ''marketQuantityStep'' (ir_market_quantity_step rules) @
        add ''minimumNotional'' (ir_minimum_notional rules) @ add ''maximumNotional'' (ir_maximum_notional rules) @
        add ''marketMinimumNotional'' (ir_market_minimum_notional rules) @
        add ''marketMaximumNotional'' (ir_market_maximum_notional rules) @
        nonempty_entry W ''code'' (iq_code r) @ nonempty_entry W ''message'' (iq_message r)))"

section \<open>The system\<close>

definition operational_event_view :: "'j view_json \<Rightarrow> operational_event \<Rightarrow> 'j" where
  "operational_event_view W e = w_object W (
     [(''sequence'', w_unsigned W (ev_sequence e)), (''occurredAt'', w_number W (ev_occurred_at_ms e)),
      (''severity'', w_text W (severity_to_string (ev_severity e))), (''category'', w_text W (ev_category e)),
      (''code'', w_text W (ev_code e)), (''message'', w_text W (ev_message e)), (''instanceId'', w_text W (ev_instance_id e)),
      (''clientOrderId'', w_text W (ev_client_order_id e)), (''requestId'', w_text W (ev_request_id e))] @
     optional_entry ''venue'' (\<lambda>v. w_text W (venue_to_string v)) (ev_venue e) @
     optional_entry ''order'' (context_to_json (vw_core W)) (ev_order e))"

text \<open>The separator in some texts is the UTF-8 form of a middle dot.\<close>

definition middle_dot :: string where
  "middle_dot = '' '' @ [char_of (194::nat), char_of (183::nat)] @ '' ''"

definition connectivity_view :: "'j view_json \<Rightarrow> 'j" where
  "connectivity_view W = w_object W
     [(''orderGatewayIsolation'', w_bool W False), (''processModel'', w_text W ''IN_PROCESS''),
      (''restartDomain'', w_text W ''abex_server (OMS and both order adapters)''),
      (''isolationDetail'', w_text W ''Market data is process-isolated; OKX and Binance order adapters currently are not''),
      (''venues'', w_object W
        [(''OKX'', w_texts W
           [(''commands'', ''Authenticated REST API''),
            (''commandOperations'', ''place'' @ middle_dot @ ''amend'' @ middle_dot @ ''cancel'' @ middle_dot @ ''query''),
            (''updates'', ''Private WebSocket''), (''updateDetail'', ''Authenticated orders channel''),
            (''heartbeat'', ''Application ping/pong'' @ middle_dot @ ''20 s idle'' @ middle_dot @ ''8 s timeout''),
            (''reconnect'', ''Exponential backoff'' @ middle_dot @ ''250 ms to 10 s'')]),
         (''BINANCE'', w_texts W
           [(''commands'', ''Signed WebSocket API''),
            (''commandOperations'',
             ''order.place'' @ middle_dot @ ''order.cancel'' @ middle_dot @ ''order.cancelReplace'' @ middle_dot @ ''order.status''),
            (''updates'', ''Signed user-data WebSocket''),
            (''updateDetail'', ''Execution reports after server-time synchronization''),
            (''heartbeat'', ''WebSocket control ping/pong''),
            (''reconnect'', ''Exponential backoff'' @ middle_dot @ ''250 ms to 10 s'')])])]"

definition system_view :: "'j view_json \<Rightarrow> int \<Rightarrow> gateway_stability \<Rightarrow> operational_event list \<Rightarrow> 'j" where
  "system_view W now st events = w_object W
     [(''ok'', w_bool W True),
      (''transport'', w_texts W
        [(''commands'', ''REST API''), (''commandsDetail'', ''POST/PATCH/DELETE /api/v1/orders''), (''snapshots'', ''REST API''),
         (''snapshotsDetail'', ''Authoritative recovery and 15-second UI fallback''), (''updates'', ''WebSocket''),
         (''updatesDetail'', ''/ws/v1/orders streams order, market, and system events''),
         (''marketIngress'', ''Memory-mapped ring''),
         (''marketIngressDetail'', ''abex_market_data -> state/market-data.ring -> gateway'')]),
      (''exchangeConnectivity'', connectivity_view W),
      (''recoveryPolicy'', w_texts W
        [(''intentPersistence'', ''Intent and requestId are durable before exchange I/O''),
         (''requestReplay'', ''Duplicate client/request IDs replay the persisted result''),
         (''transportFailure'', ''Unknown outcomes are not blindly resent; the order is marked UNKNOWN''),
         (''reconnectRecovery'', ''Authenticated reconnect schedules automatic reconciliation''),
         (''startupRecovery'',
          ''Journal reload plus venue open-order enumeration and point queries restore authoritative state''),
         (''periodicRecovery'', ''Venue reconciliation repeats on the configured interval''),
         (''marketOrderFinality'', ''Placement ACK may be LIVE; only execution/query evidence is terminal'')]),
      (''persistence'', w_object W
        [(''model'', w_text W ''Checksummed append-only JSONL''), (''location'', w_text W (js_location (gs_journal st))),
         (''durableWrites'', w_bool W (js_durable_writes (gs_journal st))),
         (''recordSequence'', w_unsigned W (js_record_sequence (gs_journal st))), (''singleWriterLock'', w_bool W True),
         (''writeOrdering'', w_text W ''Intent and requestId are persisted before exchange I/O''),
         (''recovery'', w_text W ''Latest order snapshots and request outcomes reload on startup'')]),
      (''stability'', w_object W
        [(''instanceId'', w_text W (gs_instance_id st)), (''startedAt'', w_number W (gs_started_at_ms st)),
         (''recoveredOrders'', w_number W (int (gs_recovered_orders st))),
         (''idempotentReplays'', w_unsigned W (gs_idempotent_replays st)),
         (''reconciliations'', w_unsigned W (gs_reconciliations st)), (''alerts'', w_unsigned W (gs_alerts st)),
         (''loggingFailures'', w_unsigned W (gs_logging_failures st)),
         (''lastLoggingError'', w_text W (gs_last_logging_error st))]),
      (''events'', vw_array W (map (operational_event_view W) events)), (''serverTime'', w_number W now)]"

section \<open>Market data\<close>

definition market_quote_view :: "'j view_json \<Rightarrow> int \<Rightarrow> market_data_book \<Rightarrow> market_quote \<Rightarrow> 'j" where
  "market_quote_view W now book q = w_object W
     [(''venue'', w_text W (venue_to_string (mq_venue q))), (''symbol'', w_text W (mq_symbol q)),
      (''bid'', w_decimal W (mq_bid_price q)), (''ask'', w_decimal W (mq_ask_price q)),
      (''sourceTime'', w_number W (mq_source_time_ms q)), (''publishedAt'', w_number W (mq_published_at_ms q)),
      (''sequence'', w_unsigned W (mq_sequence q)), (''ageMs'', w_number W (max 0 (now - mq_published_at_ms q))),
      (''fresh'', w_bool W (fresh book q now))]"

record source_health =
  sh_fresh_symbols :: nat
  sh_last_update_ms :: int

text \<open>The best prices of a symbol: the quote to buy at, and the quote to sell at.\<close>

type_synonym best_prices = "market_quote option \<times> market_quote option"

record market_summary =
  sm_best :: "string \<rightharpoonup> best_prices"
  sm_sources :: "venue \<Rightarrow> source_health"

definition better_prices :: "market_quote \<Rightarrow> best_prices option \<Rightarrow> best_prices" where
  "better_prices q known =
     (let (buy, sell) = (case known of None \<Rightarrow> (None, None) | Some p \<Rightarrow> p)
      in (case buy of None \<Rightarrow> Some q | Some b \<Rightarrow> if mq_ask_price q < mq_ask_price b then Some q else Some b,
          case sell of None \<Rightarrow> Some q | Some b \<Rightarrow> if mq_bid_price q > mq_bid_price b then Some q else Some b))"

definition summarize_quote :: "int \<Rightarrow> market_data_book \<Rightarrow> market_quote \<Rightarrow> market_summary \<Rightarrow> market_summary" where
  "summarize_quote now book q m =
     (let src = sm_sources m (mq_venue q);
          updated = src\<lparr>sh_last_update_ms := max (sh_last_update_ms src) (mq_published_at_ms q)\<rparr>
      in if \<not> fresh book q now then m\<lparr>sm_sources := (sm_sources m)(mq_venue q := updated)\<rparr>
         else \<lparr>sm_best = (sm_best m)(mq_symbol q \<mapsto> better_prices q (sm_best m (mq_symbol q))),
               sm_sources = (sm_sources m)(mq_venue q := updated\<lparr>sh_fresh_symbols := sh_fresh_symbols updated + 1\<rparr>)\<rparr>)"

definition market_summary_of :: "int \<Rightarrow> market_data_book \<Rightarrow> market_quote list \<Rightarrow> market_summary" where
  "market_summary_of now book qs =
     fold (summarize_quote now book) qs \<lparr>sm_best = Map.empty, sm_sources = (\<lambda>v. \<lparr>sh_fresh_symbols = 0, sh_last_update_ms = 0\<rparr>)\<rparr>"

definition best_view :: "'j view_json \<Rightarrow> best_prices \<Rightarrow> 'j" where
  "best_view W p =
     (let item = (\<lambda>q pr. w_texts W [(''venue'', venue_to_string (mq_venue q)), (''price'', to_string pr)])
      in w_object W (optional_entry ''buy'' (\<lambda>q. item q (mq_ask_price q)) (fst p) @
                     optional_entry ''sell'' (\<lambda>q. item q (mq_bid_price q)) (snd p)))"

definition age_since :: "int \<Rightarrow> int \<Rightarrow> int" where
  "age_since now t = max 0 (if t = 0 then 0 else now - t)"

definition source_view :: "'j view_json \<Rightarrow> int \<Rightarrow> string \<Rightarrow> source_health \<Rightarrow> 'j" where
  "source_view W now transport src = w_object W
     [(''connected'', w_bool W (sh_fresh_symbols src = 2)), (''transport'', w_text W transport),
      (''freshSymbols'', w_number W (int (sh_fresh_symbols src))), (''expectedSymbols'', w_number W 2),
      (''lastUpdate'', w_number W (sh_last_update_ms src)), (''ageMs'', w_number W (age_since now (sh_last_update_ms src)))]"

definition market_healthy :: "market_data_status \<Rightarrow> market_summary \<Rightarrow> bool" where
  "market_healthy st m \<longleftrightarrow>
     ms_ring_connected st \<and> sh_fresh_symbols (sm_sources m Okx) = 2 \<and> sh_fresh_symbols (sm_sources m Binance) = 2"

definition ring_view :: "'j view_json \<Rightarrow> int \<Rightarrow> market_data_status \<Rightarrow> 'j" where
  "ring_view W now st = w_object W
     [(''mapped'', w_bool W (ms_ring_mapped st)), (''connected'', w_bool W (ms_ring_connected st)),
      (''status'', w_text W (if ms_ring_connected st then ''LIVE'' else if ms_ring_mapped st then ''STALE'' else ''UNAVAILABLE'')),
      (''generation'', w_unsigned W (ms_generation st)), (''lastSequence'', w_unsigned W (ms_last_sequence st)),
      (''lastUpdate'', w_number W (ms_last_update_ms st)), (''ageMs'', w_number W (age_since now (ms_last_update_ms st))),
      (''lastError'', w_text W (ms_last_error st))]"

text \<open>The clock is read first for the whole view, then for each quote, then by the status of the book: \<open>clock k\<close> is its
  \<open>k\<close>-th reading. Only the registered symbols can have a quote, so that the best prices are listed for these.\<close>

definition market_data_view :: "'j view_json \<Rightarrow> (nat \<Rightarrow> int) \<Rightarrow> market_data_book \<Rightarrow> 'j" where
  "market_data_view W clock book =
     (let now = clock 0; qs = book_snapshot book; m = market_summary_of now book qs;
          st = book_status (clock (length qs + 1)) book
      in w_object W
           [(''ok'', w_bool W True), (''healthy'', w_bool W (market_healthy st m)), (''ring'', ring_view W now st),
            (''maximumAgeMs'', w_number W (bk_maximum_age book)),
            (''sources'', w_object W
              (map (\<lambda>v. (venue_to_string v, source_view W now (ms_transport st) (sm_sources m v))) [Okx, Binance])),
            (''quotes'', vw_array W (map (\<lambda>(k, q). market_quote_view W (clock (k + 1)) book q) (enumerate 0 qs))),
            (''best'', w_object W
              (concat (map (\<lambda>smb. optional_entry smb (best_view W) (sm_best m smb)) kSymbolNames))),
            (''serverTime'', w_number W now)])"

end
