(* ===== verification/Abex_Api.thy ===== *)
theory Abex_Api
  imports Abex_Views
begin

text \<open>
  The REST interface (\<open>src/server/gateway_api.cpp\<close>): URIs, routes, answers and the translation of exceptions, over the operations
  of the gateway.

  A request is one function from the gateway to an answer and the gateway after it. What a command learns from outside is its
  \<open>command_input\<close>; what the threads behind \<open>flush_events\<close> do to the gateway while the request waits for them is an argument.
  \<open>handle\<close> itself can throw, when printing the answer fails.
\<close>

section \<open>Requests and answers\<close>

record api_request =
  aq_method :: string
  aq_target :: string
  aq_body :: string
  aq_headers :: "string \<rightharpoonup> string"

record api_response =
  as_status :: nat
  as_content_type :: string
  as_body :: string
  as_headers :: "(string \<times> string) list"

record api_config =
  ac_gateway :: gateway_config
  ac_venues :: "venue list"
  ac_runtime_mode :: string

record api_world =
  aw_command :: command_input
  aw_reconcile_now :: int
  aw_reconcile_store :: "exn option"
  aw_open_orders :: "execution_report list option result"
  aw_query :: "order \<Rightarrow> execution_report option result"
  aw_balances :: "venue \<Rightarrow> string \<Rightarrow> balance_query_result result"
  aw_rules :: "venue \<Rightarrow> string \<Rightarrow> instrument_rules_query_result result"
  aw_order_events :: "string \<Rightarrow> operational_event list"
  aw_stability :: gateway_stability
  aw_events :: "operational_event list"
  aw_book :: "market_data_book option"
  aw_flushed :: "gateway \<Rightarrow> gateway"
  aw_clock :: "nat \<Rightarrow> int"

section \<open>URIs\<close>

definition hex_char_value :: "char \<Rightarrow> nat option" where
  "hex_char_value c =
     (let n = (of_char c :: nat)
      in if 48 \<le> n \<and> n \<le> 57 then Some (n - 48)
         else if 97 \<le> n \<and> n \<le> 102 then Some (n - 87)
         else if 65 \<le> n \<and> n \<le> 70 then Some (n - 55) else None)"

text \<open>An escape needs two more characters; a shorter one at the end stays as it is.\<close>

fun decode_uri_component :: "string \<Rightarrow> string result" where
  "decode_uri_component [] = Inr []"
| "decode_uri_component (c # s) =
     (if c = CHR ''+'' then rbind (decode_uri_component s) (\<lambda>t. Inr (CHR '' '' # t))
      else case s of
             h # l # rest \<Rightarrow>
               if c = CHR ''%''
               then (case (hex_char_value h, hex_char_value l) of
                       (Some a, Some b) \<Rightarrow> rbind (decode_uri_component rest) (\<lambda>t. Inr (char_of (16 * a + b) # t))
                     | _ \<Rightarrow> Inl (Invalid_argument ''invalid percent encoding in URI''))
               else rbind (decode_uri_component s) (\<lambda>t. Inr (c # t))
           | _ \<Rightarrow> rbind (decode_uri_component s) (\<lambda>t. Inr (c # t)))"

record parsed_target =
  pg_raw_path :: string
  pg_decoded_path :: string
  pg_query :: "string \<rightharpoonup> string"

definition target_path :: "parsed_target \<Rightarrow> string" where
  "target_path p = (if pg_decoded_path p = [] then pg_raw_path p else pg_decoded_path p)"

definition parse_pair :: "string \<Rightarrow> (string \<times> string) result" where
  "parse_pair pair =
     (case split_first CHR ''='' pair of
        None \<Rightarrow> rbind (decode_uri_component pair) (\<lambda>k. Inr (k, []))
      | Some (k, v) \<Rightarrow> rbind (decode_uri_component k) (\<lambda>k'. rbind (decode_uri_component v) (\<lambda>v'. Inr (k', v'))))"

function parse_query :: "string \<Rightarrow> (string \<rightharpoonup> string) \<Rightarrow> (string \<rightharpoonup> string) result" where
  "parse_query q m =
     (if q = [] then Inr m
      else case split_first CHR ''&'' q of
             None \<Rightarrow> rbind (parse_pair q) (\<lambda>(k, v). Inr (m(k \<mapsto> v)))
           | Some (pair, rest) \<Rightarrow>
               (case parse_pair pair of Inl e \<Rightarrow> Inl e | Inr (k, v) \<Rightarrow> parse_query rest (m(k \<mapsto> v))))"
  by pat_completeness auto
termination
proof (relation "measure (\<lambda>(q, m). length q)")
  fix q :: string and x2 pair rest
  assume "q \<noteq> []" "split_first CHR ''&'' q = Some x2" "(pair, rest) = x2"
  then have "rest = tl (dropWhile (\<lambda>x. x \<noteq> CHR ''&'') q)" by (auto simp: split_first_def split: if_splits)
  then have "length rest < length q"
    using \<open>q \<noteq> []\<close> length_dropWhile_le [of "\<lambda>x. x \<noteq> CHR ''&''" q] by (cases q) (auto simp: less_Suc_eq_le split: if_splits)
  then show "((rest, m'), (q, m)) \<in> measure (\<lambda>(q, m). length q)" for m' m :: "string \<rightharpoonup> string" by simp
qed simp

definition parse_target :: "string \<Rightarrow> parsed_target result" where
  "parse_target target =
     (let (path, query) = (case split_first CHR ''?'' target of None \<Rightarrow> (target, []) | Some (p, q) \<Rightarrow> (p, q))
      in rbind (if CHR ''%'' \<in> set path \<or> CHR ''+'' \<in> set path then decode_uri_component path else Inr []) (\<lambda>decoded.
         rbind (parse_query query Map.empty) (\<lambda>m.
           Inr \<lparr>pg_raw_path = path, pg_decoded_path = decoded, pg_query = m\<rparr>)))"

section \<open>Answers\<close>

definition cors_headers :: "(string \<times> string) list" where
  "cors_headers =
     [(''Cache-Control'', ''no-store''), (''Access-Control-Allow-Origin'', ''*''),
      (''Access-Control-Allow-Headers'', ''Content-Type, Idempotency-Key, Prefer''),
      (''Access-Control-Allow-Methods'', ''GET, POST, PATCH, DELETE, OPTIONS'')]"

definition json_response :: "'j view_json \<Rightarrow> nat \<Rightarrow> 'j \<Rightarrow> api_response result" where
  "json_response W st body =
     rbind (vw_dump W body) (\<lambda>t.
       Inr \<lparr>as_status = st, as_content_type = ''application/json'', as_body = t, as_headers = cors_headers\<rparr>)"

definition error_response :: "'j view_json \<Rightarrow> nat \<Rightarrow> string \<Rightarrow> string \<Rightarrow> api_response result" where
  "error_response W st code message =
     json_response W st (w_object W [(''ok'', w_bool W False), (''code'', w_text W code), (''message'', w_text W message)])"

definition contains_text :: "string \<Rightarrow> string \<Rightarrow> bool" where
  "contains_text s sub \<longleftrightarrow> list_ex (\<lambda>k. starts_with (drop k s) sub) [0..<length s + 1]"

definition status_mappings :: "(string \<times> nat) list" where
  "status_mappings =
     [(''ORDER_NOT_FOUND'', 404), (''IDEMPOTENCY_CONFLICT'', 409), (''ORDER_TERMINAL'', 409), (''OPERATION_PENDING'', 409),
      (''ORDER_STATE_UNKNOWN'', 409), (''LOCAL_RATE_LIMIT'', 429), (''RATE_LIMITED'', 429), (''MAX_ORDER_SIZE'', 422),
      (''MAX_NOTIONAL'', 422), (''POSITION_LIMIT'', 422), (''RISK_CONFIG_MISSING'', 422), (''REFERENCE_PRICE_MISSING'', 422),
      (''INSUFFICIENT_AVAILABLE_BALANCE'', 422), (''MIN_ORDER_QUANTITY'', 422), (''MAX_VENUE_ORDER_QUANTITY'', 422),
      (''INVALID_QUANTITY_STEP'', 422), (''MIN_ORDER_NOTIONAL'', 422), (''MAX_VENUE_ORDER_NOTIONAL'', 422),
      (''INVALID_PRICE_TICK'', 422), (''PRICE_OUT_OF_RANGE'', 422), (''INSTRUMENT_NOT_TRADING'', 422), (''ORDER_REJECTED'', 422)]"

definition error_status :: "string \<Rightarrow> nat" where
  "error_status code =
     (case map_of status_mappings code of
        Some st \<Rightarrow> st
      | None \<Rightarrow>
          if code \<in> {''OUTCOME_UNKNOWN'', ''DISCONNECTED'', ''MARKET_DATA_UNAVAILABLE'', ''BALANCE_UNAVAILABLE'',
                     ''INSTRUMENT_RULES_UNAVAILABLE'', ''RECONCILIATION_INCOMPLETE'', ''ADAPTER_EXCEPTION''} \<or>
             contains_text code ''TRANSPORT'' \<or> contains_text code ''BALANCE_ERROR'' \<or> contains_text code ''EMPTY_BALANCE''
          then 503 else 400)"

definition operation_response :: "'j view_json \<Rightarrow> operation_result \<Rightarrow> nat \<Rightarrow> api_response result" where
  "operation_response W r success_status =
     json_response W (if op_ok r then success_status else error_status (op_code r)) (operation_view W r)"

definition is_upper_char :: "char \<Rightarrow> bool" where
  "is_upper_char c \<longleftrightarrow> 65 \<le> (of_char c :: nat) \<and> (of_char c :: nat) \<le> 90"

definition to_lower_char :: "char \<Rightarrow> char" where
  "to_lower_char c = (if is_upper_char c then char_of ((of_char c :: nat) + 32) else c)"

definition header_value :: "api_request \<Rightarrow> string \<Rightarrow> string" where
  "header_value request key =
     (let normalized = (if list_all (\<lambda>c. \<not> is_upper_char c) key then key else map to_lower_char key)
      in case aq_headers request normalized of None \<Rightarrow> [] | Some v \<Rightarrow> v)"

definition parse_optional_body :: "'j view_json \<Rightarrow> api_request \<Rightarrow> 'j result" where
  "parse_optional_body W request =
     (if aq_body request = [] then Inr (w_object W []) else j_parse (vw_core W) (aq_body request))"

definition require_only_fields :: "'j view_json \<Rightarrow> 'j \<Rightarrow> string list \<Rightarrow> unit result" where
  "require_only_fields W body allowed =
     (if \<not> vj_is_object (vw_venue W) body then Inl (Invalid_argument ''request body must be a JSON object'')
      else case find (\<lambda>k. k \<notin> set allowed) (vw_keys W body) of
             None \<Rightarrow> Inr ()
           | Some k \<Rightarrow> Inl (Invalid_argument (''unsupported field in common schema: '' @ k)))"

section \<open>The document of the interface\<close>

definition d_kind :: "'j view_json \<Rightarrow> string \<Rightarrow> (string \<times> 'j) list \<Rightarrow> 'j" where
  "d_kind W kind extra = w_object W ((''type'', w_text W kind) # extra)"

definition d_choice :: "'j view_json \<Rightarrow> string list \<Rightarrow> 'j" where
  "d_choice W ts = d_kind W ''string'' [(''enum'', vw_array W (map (w_text W) ts))]"

definition d_summary :: "'j view_json \<Rightarrow> string \<Rightarrow> string \<Rightarrow> string \<times> 'j" where
  "d_summary W verb t = (verb, w_texts W [(''summary'', t)])"

definition d_parameter :: "'j view_json \<Rightarrow> string \<Rightarrow> string \<Rightarrow> bool \<Rightarrow> (string \<times> 'j) list \<Rightarrow> 'j" where
  "d_parameter W pname location required extra =
     w_object W ([(''name'', w_text W pname), (''in'', w_text W location), (''required'', w_bool W required)] @ extra)"

definition order_schema :: "'j view_json \<Rightarrow> 'j" where
  "order_schema W = d_kind W ''object''
     [(''required'', vw_array W (map (w_text W) [''clientOrderId'', ''venue'', ''symbol'', ''side'', ''type'', ''quantity''])),
      (''properties'', w_object W
        [(''clientOrderId'', d_kind W ''string'' []), (''venue'', d_choice W [''OKX'', ''BINANCE'']),
         (''symbol'', d_kind W ''string'' [(''example'', w_text W ''BTC-USDT'')]), (''side'', d_choice W [''BUY'', ''SELL'']),
         (''type'', d_choice W [''MARKET'', ''LIMIT'']),
         (''price'', d_kind W ''string'' [(''description'', w_text W ''Required for LIMIT'')]),
         (''quantity'', d_kind W ''string'' []), (''timeInForce'', d_choice W [''GTC'', ''IOC'', ''FOK''])]),
      (''additionalProperties'', w_bool W False)]"

definition openapi_document :: "'j view_json \<Rightarrow> 'j" where
  "openapi_document W = w_object W
     [(''openapi'', w_text W ''3.1.0''),
      (''info'', w_texts W [(''title'', ''ABEX Exchange Gateway''), (''version'', ''1.0.0'')]),
      (''servers'', vw_array W [w_texts W [(''url'', ''/'')]]),
      (''paths'', w_object W
        [(''/api/v1/orders'', w_object W
           [d_summary W ''get'' ''List normalized orders'',
            (''post'', w_object W
              [(''summary'', w_text W ''Place an exchange-neutral order''),
               (''description'', w_text W (''Returns 201 on acceptance, 200 on idempotent replay. '' @
                 ''Send Prefer: respond-async to receive 202 and poll '' @
                 ''GET /api/v1/orders/{clientOrderId} for the final state.'')),
               (''parameters'', vw_array W
                 [d_parameter W ''Prefer'' ''header'' False
                    [(''schema'', d_choice W [''respond-async'']),
                     (''description'', w_text W ''respond-async: return 202; poll for final state'')]]),
               (''requestBody'', w_object W
                 [(''required'', w_bool W True),
                  (''content'', w_object W [(''application/json'', w_object W [(''schema'', order_schema W)])])])])]),
         (''/api/v1/orders/{clientOrderId}'', w_object W
           [d_summary W ''get'' ''Get an order'', d_summary W ''patch'' ''Amend or replace an order'',
            d_summary W ''delete'' ''Cancel an order'']),
         (''/api/v1/orders/{clientOrderId}/pipeline'', w_object W
           [d_summary W ''get'' ''Get the durable sequenced order pipeline'']),
         (''/api/v1/health'', w_object W [d_summary W ''get'' ''Get venue health'']),
         (''/api/v1/positions'', w_object W [d_summary W ''get'' ''Get conservative positions'']),
         (''/api/v1/balances'', w_object W
           [(''get'', w_object W
              [(''summary'', w_text W ''Get the selected order-currency venue balance''),
               (''parameters'', vw_array W
                 [d_parameter W ''venue'' ''query'' True [(''schema'', d_choice W [''OKX'', ''BINANCE''])],
                  d_parameter W ''currency'' ''query'' True [(''schema'', d_choice W [''BTC'', ''ETH'', ''USDT''])]])])]),
         (''/api/v1/instruments'', w_object W [d_summary W ''get'' ''Get authoritative venue rules for an ABEX instrument'']),
         (''/api/v1/system'', w_object W [d_summary W ''get'' ''Get OMS stability and audit log'']),
         (''/api/v1/market-data'', w_object W [d_summary W ''get'' ''Get mapped market quotes'']),
         (''/api/v1/reconcile/{venue}'', w_object W [d_summary W ''post'' ''Reconcile non-terminal venue orders''])]),
      (''components'', w_object W [(''schemas'', w_object W [(''OrderRequest'', order_schema W)])])]"

section \<open>Reading routes\<close>

definition query_value :: "parsed_target \<Rightarrow> string \<Rightarrow> string" where
  "query_value target key = (case pg_query target key of None \<Rightarrow> [] | Some v \<Rightarrow> v)"

definition api_health :: "'j view_json \<Rightarrow> api_config \<Rightarrow> api_world \<Rightarrow> gateway \<Rightarrow> api_response result" where
  "api_health W c w g = json_response W 200 (w_object W
     [(''ok'', w_bool W True), (''mode'', w_text W (ac_runtime_mode c)),
      (''venues'', venues_view W (map (\<lambda>v. (v, health_view g v)) (ac_venues c))), (''serverTime'', w_number W (aw_clock w 0))])"

definition api_positions :: "'j view_json \<Rightarrow> gateway \<Rightarrow> api_response result" where
  "api_positions W g =
     json_response W 200 (w_object W [(''ok'', w_bool W True), (''positions'', positions_view W (positions_snapshot g))])"

definition api_balances :: "'j view_json \<Rightarrow> api_world \<Rightarrow> parsed_target \<Rightarrow> api_response result" where
  "api_balances W w target =
     (let v = query_value target ''venue''; currency = query_value target ''currency'';
          normalized = map to_upper currency
      in if v = [] then error_response W 400 ''VENUE_REQUIRED'' ''balance query requires venue=OKX or venue=BINANCE''
         else if currency = []
         then error_response W 400 ''CURRENCY_REQUIRED''
                ''balance query requires the selected order currency: BTC, ETH, or USDT''
         else if normalized \<noteq> ''BTC'' \<and> normalized \<noteq> ''ETH'' \<and> normalized \<noteq> ''USDT''
         then error_response W 400 ''UNSUPPORTED_CURRENCY''
                ''ABEX supports balances only for BTC-USDT and ETH-USDT order routes''
         else rbind (venue_from_string v) (\<lambda>vn. rbind (aw_balances w vn normalized) (\<lambda>r.
                json_response W (if bq_ok r then 200 else error_status (bq_code r)) (balance_view W r))))"

definition api_instruments :: "'j view_json \<Rightarrow> api_world \<Rightarrow> parsed_target \<Rightarrow> api_response result" where
  "api_instruments W w target =
     (let v = query_value target ''venue''; smb = query_value target ''symbol''; normalized = map to_upper smb
      in if v = [] then error_response W 400 ''VENUE_REQUIRED'' ''instrument query requires venue=OKX or venue=BINANCE''
         else if smb = []
         then error_response W 400 ''SYMBOL_REQUIRED'' ''instrument query requires symbol=BTC-USDT or ETH-USDT''
         else if normalized \<noteq> ''BTC-USDT'' \<and> normalized \<noteq> ''ETH-USDT''
         then error_response W 400 ''UNSUPPORTED_INSTRUMENT'' ''ABEX supports BTC-USDT and ETH-USDT order routes''
         else rbind (venue_from_string v) (\<lambda>vn. rbind (aw_rules w vn normalized) (\<lambda>r.
                json_response W (if iq_ok r then 200 else error_status (iq_code r)) (instrument_rules_view W r))))"

definition api_market_data :: "'j view_json \<Rightarrow> api_world \<Rightarrow> api_response result" where
  "api_market_data W w =
     (case aw_book w of
        None \<Rightarrow> error_response W 503 ''MARKET_DATA_UNAVAILABLE'' ''market-data ring consumer is not configured''
      | Some book \<Rightarrow> json_response W 200 (market_data_view W (aw_clock w) book))"

definition optional_query :: "(string \<Rightarrow> 'a result) \<Rightarrow> parsed_target \<Rightarrow> string \<Rightarrow> 'a option result" where
  "optional_query read target key =
     (case pg_query target key of None \<Rightarrow> Inr None | Some t \<Rightarrow> rbind (read t) (\<lambda>x. Inr (Some x)))"

definition api_list :: "'j view_json \<Rightarrow> parsed_target \<Rightarrow> gateway \<Rightarrow> api_response result" where
  "api_list W target g =
     rbind (optional_query venue_from_string target ''venue'') (\<lambda>v.
     rbind (optional_query order_status_from_string target ''status'') (\<lambda>st.
       json_response W 200 (w_object W
         [(''ok'', w_bool W True), (''orders'', vw_array W (map (order_view W) (list_snapshots g v st)))])))"

definition api_get :: "'j view_json \<Rightarrow> string \<Rightarrow> gateway \<Rightarrow> api_response result" where
  "api_get W cid g =
     (case get_snapshot g cid of
        None \<Rightarrow> error_response W 404 ''ORDER_NOT_FOUND'' ''order does not exist''
      | Some ord \<Rightarrow> json_response W 200 (w_object W [(''ok'', w_bool W True), (''order'', order_view W ord)]))"

definition api_pipeline :: "'j view_json \<Rightarrow> api_world \<Rightarrow> string \<Rightarrow> gateway \<Rightarrow> api_response result" where
  "api_pipeline W w cid g =
     (case get_snapshot g cid of
        None \<Rightarrow> error_response W 404 ''ORDER_NOT_FOUND'' ''order does not exist''
      | Some ord \<Rightarrow> json_response W 200 (w_object W
          [(''ok'', w_bool W True), (''clientOrderId'', w_text W cid), (''order'', order_view W ord),
           (''events'', vw_array W (map (operational_event_view W) (aw_order_events w cid))),
           (''serverTime'', w_number W (aw_clock w 0))]))"

section \<open>Commands\<close>

definition posted_order :: "'j view_json \<Rightarrow> api_request \<Rightarrow> order_request result" where
  "posted_order W request =
     rbind (j_parse (vw_core W) (aq_body request)) (\<lambda>body.
     rbind (require_only_fields W body [''clientOrderId'', ''venue'', ''symbol'', ''side'', ''type'', ''price'', ''quantity'',
       ''timeInForce'']) (\<lambda>_. request_from_json (vw_core W) body))"

definition api_place :: "'j view_json \<Rightarrow> api_config \<Rightarrow> api_world \<Rightarrow> api_request \<Rightarrow> gateway \<Rightarrow> gateway \<times> api_response result" where
  "api_place W c w request g =
     (case posted_order W request of
        Inl e \<Rightarrow> (g, Inl e)
      | Inr order_request \<Rightarrow>
          (case place (ac_gateway c) (aw_command w) order_request g of
             (g1, Inl e) \<Rightarrow> (g1, Inl e)
           | (g1, Inr r) \<Rightarrow>
               (g1, operation_response W r
                      (if op_idempotent_replay r then 200
                       else if header_value request ''prefer'' = ''respond-async'' then 202 else 201))))"

text \<open>After a cancel or an amendment the request waits for the reports that are under way and shows the order as it is then.\<close>

definition settled_response :: "'j view_json \<Rightarrow> api_world \<Rightarrow> gateway \<times> operation_result result \<Rightarrow> gateway \<times> api_response result" where
  "settled_response W w outcome =
     (case outcome of
        (g1, Inl e) \<Rightarrow> (g1, Inl e)
      | (g1, Inr r) \<Rightarrow>
          let g2 = aw_flushed w g1;
              r' = (case op_order r of None \<Rightarrow> r | Some ord \<Rightarrow> r\<lparr>op_order := get_order g2 (client_order_id ord)\<rparr>)
          in (g2, operation_response W r' 200))"

definition request_id_of :: "'j view_json \<Rightarrow> api_request \<Rightarrow> 'j \<Rightarrow> string result" where
  "request_id_of W request body =
     rbind (v_value (vw_venue W) (j_get_string (vw_core W)) body ''requestId'' []) (\<lambda>rid.
       Inr (if rid = [] then header_value request ''idempotency-key'' else rid))"

definition api_cancel :: "'j view_json \<Rightarrow> api_world \<Rightarrow> api_request \<Rightarrow> string \<Rightarrow> gateway \<Rightarrow> gateway \<times> api_response result" where
  "api_cancel W w request cid g =
     (case rbind (parse_optional_body W request) (\<lambda>body.
             rbind (require_only_fields W body [''requestId'']) (\<lambda>_. request_id_of W request body)) of
        Inl e \<Rightarrow> (g, Inl e)
      | Inr rid \<Rightarrow>
          settled_response W w (cancel (aw_command w) \<lparr>cx_client_order_id = cid, cx_request_id = rid\<rparr> g))"

definition optional_decimal :: "'j view_json \<Rightarrow> 'j \<Rightarrow> string \<Rightarrow> decimal option result" where
  "optional_decimal W body key =
     (case j_find (vw_core W) body key of
        None \<Rightarrow> Inr None
      | Some v \<Rightarrow>
          if j_is_null (vw_core W) v then Inr None
          else rbind (j_get_string (vw_core W) v) (\<lambda>t. rbind (parse t) (\<lambda>d. Inr (Some d))))"

definition api_amend :: "'j view_json \<Rightarrow> api_config \<Rightarrow> api_world \<Rightarrow> api_request \<Rightarrow> string \<Rightarrow> gateway \<Rightarrow> gateway \<times> api_response result" where
  "api_amend W c w request cid g =
     (case rbind (j_parse (vw_core W) (aq_body request)) (\<lambda>body.
             rbind (require_only_fields W body [''requestId'', ''newPrice'', ''newQuantity'']) (\<lambda>_.
             rbind (request_id_of W request body) (\<lambda>rid.
             rbind (optional_decimal W body ''newPrice'') (\<lambda>p.
             rbind (optional_decimal W body ''newQuantity'') (\<lambda>q.
               Inr \<lparr>am_client_order_id = cid, am_request_id = rid, am_new_price = p, am_new_quantity = q\<rparr>))))) of
        Inl e \<Rightarrow> (g, Inl e)
      | Inr amendment \<Rightarrow> settled_response W w (amend (ac_gateway c) (aw_command w) amendment g))"

definition api_reconcile :: "'j view_json \<Rightarrow> api_world \<Rightarrow> string \<Rightarrow> gateway \<Rightarrow> gateway \<times> api_response result" where
  "api_reconcile W w text_of_venue g =
     (case venue_from_string text_of_venue of
        Inl e \<Rightarrow> (g, Inl e)
      | Inr v \<Rightarrow>
          (case reconcile (aw_reconcile_now w) (aw_reconcile_store w) v (aw_open_orders w) (aw_query w) g of
             (g1, r) \<Rightarrow> (g1, operation_response W r 200)))"

section \<open>Routes\<close>

definition order_prefix :: string where "order_prefix = ''/api/v1/orders/''"

definition pipeline_suffix :: string where "pipeline_suffix = ''/pipeline''"

definition ends_with :: "string \<Rightarrow> string \<Rightarrow> bool" where
  "ends_with s p \<longleftrightarrow> length p \<le> length s \<and> drop (length s - length p) s = p"

text \<open>The length of the id is computed in unsigned arithmetic: for \<open>/api/v1/orders/pipeline\<close> the difference wraps around, and
  \<open>substr\<close> takes all that is left.\<close>

definition order_route_id :: "string \<Rightarrow> string" where
  "order_route_id path =
     (let n = length order_prefix;
          id_end = (if ends_with path pipeline_suffix then length path - length pipeline_suffix else length path)
      in if n \<le> id_end then take (id_end - n) (drop n path) else drop n path)"

definition no_route :: "'j view_json \<Rightarrow> api_response result" where
  "no_route W = error_response W 404 ''ROUTE_NOT_FOUND'' ''API route does not exist''"

definition final_routes :: "'j view_json \<Rightarrow> api_world \<Rightarrow> api_request \<Rightarrow> string \<Rightarrow> gateway \<Rightarrow> gateway \<times> api_response result" where
  "final_routes W w request path g =
     (let prefix = ''/api/v1/reconcile/''
      in if aq_method request = ''POST'' \<and> starts_with path prefix \<and> length path > length prefix
         then api_reconcile W w (drop (length prefix) path) g
         else (g, no_route W))"

definition order_routes ::
    "'j view_json \<Rightarrow> api_config \<Rightarrow> api_world \<Rightarrow> api_request \<Rightarrow> string \<Rightarrow> gateway \<Rightarrow> gateway \<times> api_response result" where
  "order_routes W c w request path g =
     (let cid = order_route_id path; verb = aq_method request
      in if CHR ''/'' \<in> set cid then (g, no_route W)
         else if ends_with path pipeline_suffix
         then (if verb \<noteq> ''GET'' then (g, error_response W 405 ''METHOD_NOT_ALLOWED'' ''order pipeline is read-only'')
               else (g, api_pipeline W w cid g))
         else if verb = ''GET'' then (g, api_get W cid g)
         else if verb = ''DELETE'' then api_cancel W w request cid g
         else if verb = ''PATCH'' then api_amend W c w request cid g
         else final_routes W w request path g)"

definition route ::
    "'j view_json \<Rightarrow> api_config \<Rightarrow> api_world \<Rightarrow> api_request \<Rightarrow> parsed_target \<Rightarrow> gateway \<Rightarrow> gateway \<times> api_response result" where
  "route W c w request target g =
     (let path = target_path target; get = (\<lambda>p. aq_method request = ''GET'' \<and> path = p)
      in if get ''/api/v1/openapi.json'' then (g, json_response W 200 (openapi_document W))
         else if get ''/api/v1/health'' then (g, api_health W c w g)
         else if get ''/api/v1/positions'' then (g, api_positions W g)
         else if get ''/api/v1/balances'' then (g, api_balances W w target)
         else if get ''/api/v1/instruments'' then (g, api_instruments W w target)
         else if get ''/api/v1/system''
         then (g, json_response W 200 (system_view W (aw_clock w 0) (aw_stability w) (aw_events w)))
         else if get ''/api/v1/market-data'' then (g, api_market_data W w)
         else if get ''/api/v1/orders'' then (g, api_list W target g)
         else if aq_method request = ''POST'' \<and> path = ''/api/v1/orders'' then api_place W c w request g
         else if starts_with path order_prefix \<and> length path > length order_prefix then order_routes W c w request path g
         else final_routes W w request path g)"

text \<open>The handlers of exceptions print the text of the exception; what they throw themselves leaves \<open>handle\<close>.\<close>

definition exception_response :: "'j view_json \<Rightarrow> exn \<Rightarrow> api_response result" where
  "exception_response W e =
     (case e of
        Json_exception t \<Rightarrow> error_response W 400 ''INVALID_JSON'' t
      | Invalid_argument t \<Rightarrow> error_response W 400 ''INVALID_REQUEST'' t
      | _ \<Rightarrow> error_response W 500 ''INTERNAL_ERROR'' (what e))"

definition handle :: "'j view_json \<Rightarrow> api_config \<Rightarrow> api_world \<Rightarrow> api_request \<Rightarrow> gateway \<Rightarrow> gateway \<times> api_response result" where
  "handle W c w request g =
     (case (if aq_method request = ''OPTIONS'' then (g, json_response W 204 (w_object W []))
            else case parse_target (aq_target request) of
                   Inl e \<Rightarrow> (g, Inl e)
                 | Inr target \<Rightarrow> route W c w request target g) of
        (g1, Inr r) \<Rightarrow> (g1, Inr r)
      | (g1, Inl e) \<Rightarrow> (g1, exception_response W e))"

end
