(* ===== verification/Abex_Server.thy ===== *)
theory Abex_Server
  imports Abex_Api Abex_Transitions "HOL-Library.Sublist"
begin

text \<open>
  The HTTP server (\<open>src/server/http_server.cpp\<close>): static files, the answer to a request, and the sessions of the WebSocket clients
  with their bounded queues.

  Sockets, TLS and the event loop of Boost are not modelled: a handler is a function, called when its operation completed. What
  \<open>asio::post\<close> hands to the strand of a session is a list in the session, run from its front. Whether a message in the queue is the
  instruction to resynchronize is a tag, and what was put into the queue and what was written are kept: these are ghosts.
\<close>

section \<open>Static files\<close>

definition static_routes :: "(string \<times> string) list" where
  "static_routes =
     [(''/'', ''index.html''), (''/index.html'', ''index.html''), (''/styles.css'', ''styles.css''), (''/app.js'', ''app.js'')]"

definition load_static_files :: "(string \<rightharpoonup> string) \<Rightarrow> string \<rightharpoonup> string" where
  "load_static_files disk = map_of (List.map_filter (\<lambda>(target, file_name). map_option (Pair target) (disk file_name)) static_routes)"

definition content_type :: "string \<Rightarrow> string" where
  "content_type path =
     (if ends_with path ''.html'' then ''text/html; charset=utf-8''
      else if ends_with path ''.css'' then ''text/css; charset=utf-8''
      else if ends_with path ''.js'' then ''text/javascript; charset=utf-8''
      else if ends_with path ''.json'' then ''application/json''
      else if ends_with path ''.svg'' then ''image/svg+xml''
      else ''application/octet-stream'')"

section \<open>Requests\<close>

record server_request =
  sq_method :: string
  sq_target :: string
  sq_fields :: "(string \<times> string) list"
  sq_body :: string
  sq_keep_alive :: bool
  sq_upgrade :: bool

record server_reply =
  sp_status :: nat
  sp_fields :: "(string \<times> string) list"
  sp_body :: string
  sp_keep_alive :: bool

text \<open>The fields of a request are found whatever the case of their name.\<close>

definition find_field :: "server_request \<Rightarrow> string \<Rightarrow> string option" where
  "find_field request field_name = map_option snd (find (\<lambda>(k, v). ascii_iequals k field_name) (sq_fields request))"

definition request_headers :: "server_request \<Rightarrow> string \<rightharpoonup> string" where
  "request_headers request =
     map_of (List.map_filter (\<lambda>(key, field_name). map_option (Pair key) (find_field request field_name))
       [(''content-type'', ''Content-Type''), (''idempotency-key'', ''Idempotency-Key''), (''prefer'', ''Prefer'')])"

definition quoted_self :: string where
  "quoted_self = CHR 0x27 # ''self'' @ [CHR 0x27]"

definition static_fields :: "string \<Rightarrow> (string \<times> string) list" where
  "static_fields file_target =
     [(''Content-Type'', content_type (if file_target = ''/'' then ''index.html'' else file_target)), (''Cache-Control'', ''no-cache''),
      (''Content-Security-Policy'',
       ''default-src '' @ quoted_self @ ''; connect-src '' @ quoted_self @ '' ws: wss:; '' @ ''script-src '' @ quoted_self @
       ''; style-src '' @ quoted_self @ ''; img-src '' @ quoted_self @ '' data:''),
      (''X-Content-Type-Options'', ''nosniff''), (''X-Frame-Options'', ''DENY'')]"

definition error_reply :: "'j view_json \<Rightarrow> bool \<Rightarrow> nat \<Rightarrow> string \<Rightarrow> string \<Rightarrow> server_reply result" where
  "error_reply W keep_alive st code message =
     rbind (vw_dump W (w_object W [(''ok'', w_bool W False), (''code'', w_text W code), (''message'', w_text W message)])) (\<lambda>t.
       Inr \<lparr>sp_status = st, sp_fields = [(''Server'', ''abex-gateway/1.0''), (''Content-Type'', ''application/json'')], sp_body = t,
            sp_keep_alive = keep_alive\<rparr>)"

definition api_request_of :: "server_request \<Rightarrow> api_request" where
  "api_request_of request =
     \<lparr>aq_method = sq_method request, aq_target = sq_target request, aq_body = sq_body request, aq_headers = request_headers request\<rparr>"

definition static_reply :: "'j view_json \<Rightarrow> (string \<rightharpoonup> string) \<Rightarrow> server_request \<Rightarrow> server_reply result" where
  "static_reply W files request =
     (let file_target = takeWhile (\<lambda>c. c \<noteq> CHR ''?'') (sq_target request); keep_alive = sq_keep_alive request
      in case files file_target of
           None \<Rightarrow> error_reply W keep_alive 404 ''RESOURCE_NOT_FOUND'' ''resource does not exist''
         | Some body \<Rightarrow>
             Inr \<lparr>sp_status = 200, sp_fields = (''Server'', ''abex-gateway/1.0'') # static_fields file_target,
                  sp_body = (if sq_method request \<noteq> ''HEAD'' then body else []), sp_keep_alive = keep_alive\<rparr>)"

definition respond ::
    "'j view_json \<Rightarrow> api_config \<Rightarrow> api_world \<Rightarrow> (string \<rightharpoonup> string) \<Rightarrow> server_request \<Rightarrow> gateway \<Rightarrow> gateway \<times> server_reply result" where
  "respond W c w files request g =
     (if starts_with (sq_target request) ''/api/''
      then (case handle W c w (api_request_of request) g of
              (g1, Inl e) \<Rightarrow> (g1, Inl e)
            | (g1, Inr r) \<Rightarrow>
                (g1, Inr \<lparr>sp_status = as_status r,
                          sp_fields = [(''Server'', ''abex-gateway/1.0''), (''Content-Type'', as_content_type r)] @ as_headers r,
                          sp_body = as_body r, sp_keep_alive = sq_keep_alive request\<rparr>))
      else if sq_method request \<noteq> ''GET'' \<and> sq_method request \<noteq> ''HEAD''
      then (g, error_reply W (sq_keep_alive request) 405 ''METHOD_NOT_ALLOWED'' ''static resources support GET and HEAD only'')
      else (g, static_reply W files request))"

text \<open>What a connection does with a request: it becomes a WebSocket session, or it is answered and then read again or closed. An
  exception leaves the handler and ends the thread of the event loop, and with it the process.\<close>

datatype connection_action = Upgrade | Reply server_reply bool | Terminate exn

definition http_read ::
    "'j view_json \<Rightarrow> api_config \<Rightarrow> api_world \<Rightarrow> (string \<rightharpoonup> string) \<Rightarrow> server_request \<Rightarrow> gateway \<Rightarrow> gateway \<times> connection_action" where
  "http_read W c w files request g =
     (if sq_upgrade request \<and> sq_target request = ''/ws/v1/orders'' then (g, Upgrade)
      else case respond W c w files request g of
             (g1, Inl e) \<Rightarrow> (g1, Terminate e)
           | (g1, Inr r) \<Rightarrow> (g1, Reply r (sp_keep_alive r)))"

section \<open>Sessions\<close>

datatype outbound = Message string | Resync string

definition maximum_pending_messages :: nat where "maximum_pending_messages = 256"

record session =
  ss_outbound :: "outbound list"
  ss_writing :: bool
  ss_resync_pending :: bool
  ss_posts :: "string list"
  ss_enqueued :: "string list"
  ss_written :: "outbound list"
  ss_joined_at :: nat

definition new_session :: "nat \<Rightarrow> session" where
  "new_session joined_at =
     \<lparr>ss_outbound = [], ss_writing = False, ss_resync_pending = False, ss_posts = [], ss_enqueued = [], ss_written = [],
      ss_joined_at = joined_at\<rparr>"

definition session_send :: "string \<Rightarrow> session \<Rightarrow> session" where
  "session_send m s = s\<lparr>ss_posts := ss_posts s @ [m]\<rparr>"

definition session_write_next :: "session \<Rightarrow> session" where
  "session_write_next s = s\<lparr>ss_writing := (ss_outbound s \<noteq> [])\<rparr>"

text \<open>The function that \<open>send\<close> posts.\<close>

definition run_send :: "session \<Rightarrow> session" where
  "run_send s =
     (case ss_posts s of
        [] \<Rightarrow> s
      | m # ms \<Rightarrow>
          let s1 = s\<lparr>ss_posts := ms, ss_enqueued := ss_enqueued s @ [m]\<rparr>
          in if length (ss_outbound s1) \<ge> maximum_pending_messages then s1\<lparr>ss_resync_pending := True\<rparr>
             else let s2 = s1\<lparr>ss_outbound := ss_outbound s1 @ [Message m]\<rparr>
                  in if \<not> ss_writing s2 then session_write_next s2 else s2)"

text \<open>\<open>written\<close> without an error; after an error the session is left as it is.\<close>

definition session_written :: "string \<Rightarrow> session \<Rightarrow> session" where
  "session_written resync_text s =
     (let s1 = s\<lparr>ss_outbound := tl (ss_outbound s), ss_written := ss_written s @ take 1 (ss_outbound s)\<rparr>;
          s2 = (if ss_resync_pending s1 then s1\<lparr>ss_outbound := [Resync resync_text], ss_resync_pending := False\<rparr> else s1)
      in session_write_next s2)"

definition resync_message :: "'j view_json \<Rightarrow> int \<Rightarrow> string" where
  "resync_message W now =
     j_dump (vw_core W) (w_object W [(''type'', w_text W ''resync.required''), (''serverTime'', w_number W now)])"

definition session_read :: "'j view_json \<Rightarrow> int \<Rightarrow> string \<Rightarrow> session \<Rightarrow> session" where
  "session_read W now message s =
     (let V = vw_venue W; J = vw_core W in
      case rbind (j_parse J message) (\<lambda>j. v_value V (j_get_string J) j ''type'' []) of
        Inl e \<Rightarrow>
          session_send (j_dump J (w_texts W [(''type'', ''error''), (''code'', ''INVALID_MESSAGE''),
            (''message'', ''WebSocket messages must be JSON'')])) s
      | Inr kind \<Rightarrow>
          if kind = ''ping''
          then session_send (j_dump J (w_object W [(''type'', w_text W ''pong''), (''serverTime'', w_number W now)])) s
          else s)"

section \<open>The server\<close>

record server =
  sv_sessions :: "(nat \<times> session) list"
  sv_published :: "string list"

definition new_server :: server where
  "new_server = \<lparr>sv_sessions = [], sv_published = []\<rparr>"

definition update_session :: "nat \<Rightarrow> (session \<Rightarrow> session) \<Rightarrow> server \<Rightarrow> server" where
  "update_session n f s = s\<lparr>sv_sessions := map (\<lambda>(k, x). (k, if k = n then f x else x)) (sv_sessions s)\<rparr>"

definition join_session :: "nat \<Rightarrow> server \<Rightarrow> server" where
  "join_session n s = s\<lparr>sv_sessions := sv_sessions s @ [(n, new_session (length (sv_published s)))]\<rparr>"

definition broadcast :: "string \<Rightarrow> server \<Rightarrow> server" where
  "broadcast m s = \<lparr>sv_sessions = map (\<lambda>(k, x). (k, session_send m x)) (sv_sessions s), sv_published = sv_published s @ [m]\<rparr>"

text \<open>The messages: what a new session is sent after it joined, and what is published. \<open>typed\<close> assigns the entry \<open>type\<close> of an
  object; \<open>now\<close>, \<open>clock\<close> and \<open>later\<close> are readings of the clock.\<close>

definition snapshot_messages ::
    "'j view_json \<Rightarrow> int \<Rightarrow> (nat \<Rightarrow> int) \<Rightarrow> int \<Rightarrow> gateway \<Rightarrow> market_data_book option \<Rightarrow> gateway_stability \<Rightarrow>
     operational_event list \<Rightarrow> ('j \<Rightarrow> string \<Rightarrow> 'j) \<Rightarrow> string list" where
  "snapshot_messages W now clock later g book st events typed =
     [j_dump (vw_core W) (w_object W
        [(''type'', w_text W ''orders.snapshot''), (''orders'', vw_array W (map (order_view W) (list_snapshots g None None))),
         (''serverTime'', w_number W now)])] @
     (case book of
        None \<Rightarrow> []
      | Some b \<Rightarrow> [j_dump (vw_core W) (typed (market_data_view W clock b) ''market.snapshot'')]) @
     [j_dump (vw_core W) (typed (system_view W later st events) ''system.snapshot'')]"

definition update_message :: "'j view_json \<Rightarrow> string \<Rightarrow> string \<Rightarrow> 'j \<Rightarrow> int \<Rightarrow> string" where
  "update_message W kind key j now =
     j_dump (vw_core W) (w_object W [(''type'', w_text W kind), (key, j), (''serverTime'', w_number W now)])"

definition publish_order :: "'j view_json \<Rightarrow> int \<Rightarrow> order \<Rightarrow> server \<Rightarrow> server" where
  "publish_order W now ord s = broadcast (update_message W ''order.updated'' ''order'' (order_view W (snapshot_of ord)) now) s"

definition publish_market_quote :: "'j view_json \<Rightarrow> (nat \<Rightarrow> int) \<Rightarrow> market_data_book option \<Rightarrow> market_quote \<Rightarrow> server \<Rightarrow> server" where
  "publish_market_quote W clock book q s =
     (case book of
        None \<Rightarrow> s
      | Some b \<Rightarrow> broadcast (update_message W ''market.updated'' ''quote'' (market_quote_view W (clock 0) b q) (clock 1)) s)"

definition publish_operational :: "'j view_json \<Rightarrow> int \<Rightarrow> operational_event \<Rightarrow> server \<Rightarrow> server" where
  "publish_operational W now e s = broadcast (update_message W ''system.event'' ''event'' (operational_event_view W e) now) s"

text \<open>The observers of the gateway and of the quote book publish, the strands of the sessions run what was posted to them and the
  completions of their writes and reads, in any order. A session joins before it is sent its snapshot, so that an update can
  come between. A session that is closed expires.\<close>

inductive server_step :: "'j view_json \<Rightarrow> server \<Rightarrow> server \<Rightarrow> bool" for W where
  join: "n \<notin> fst ` set (sv_sessions s) \<Longrightarrow> server_step W s (join_session n s)"
| snapshot: "server_step W s (update_session n (\<lambda>x. fold session_send (snapshot_messages W now clock later g book st events typed) x) s)"
| order_updated: "server_step W s (publish_order W now ord s)"
| quote_updated: "server_step W s (publish_market_quote W clock book q s)"
| event_recorded: "server_step W s (publish_operational W now e s)"
| run: "server_step W s (update_session n run_send s)"
| wrote: "(n, x) \<in> set (sv_sessions s) \<Longrightarrow> ss_writing x \<Longrightarrow> server_step W s (update_session n (session_written (resync_message W now)) s)"
| read: "server_step W s (update_session n (session_read W now message) s)"
| expired: "server_step W s (s\<lparr>sv_sessions := filter (\<lambda>(k, x). k \<noteq> n) (sv_sessions s)\<rparr>)"

end
