(* ===== verification/Abex_Api_Props.thy ===== *)
theory Abex_Api_Props
  imports Abex_Api Abex_Gateway_Retry Abex_Protocol_Props
begin

text \<open>
  What the REST interface guarantees: reading changes nothing, every order can be addressed, a repeated creation is safe, and
  every request gets an answer or ends with an exception that the JSON printer threw.
\<close>

section \<open>Escapes\<close>

definition percent_encode :: "string \<Rightarrow> string" where
  "percent_encode s =
     concat (map (\<lambda>c. [CHR ''%'', hex_digit (of_char c div 16), hex_digit (of_char c mod 16)]) s)"

lemma hex_char_value_digit: "n < 16 \<Longrightarrow> hex_char_value (hex_digit n) = Some n"
proof -
  assume "n < 16"
  then have "n \<in> set [0..<16]" by simp
  moreover have "list_all (\<lambda>n. hex_char_value (hex_digit n) = Some n) [0..<16]" by code_simp
  ultimately show ?thesis by (simp only: list_all_iff)
qed

lemma of_char_less: "(of_char c :: nat) < 256"
  by (metis of_char_mod_256 mod_less_divisor zero_less_numeral)

lemma decode_other: "\<lbrakk>c \<noteq> CHR ''%''; c \<noteq> CHR ''+''\<rbrakk> \<Longrightarrow> decode_uri_component (c # s) = rbind (decode_uri_component s) (\<lambda>t. Inr (c # t))"
  by (subst decode_uri_component.simps(2)) (simp split: list.split del: decode_uri_component.simps)

lemma decode_escape:
  "\<lbrakk>hex_char_value h = Some a; hex_char_value l = Some b\<rbrakk> \<Longrightarrow>
     decode_uri_component (CHR ''%'' # h # l # s) = rbind (decode_uri_component s) (\<lambda>t. Inr (char_of (16 * a + b) # t))"
  by simp

declare decode_uri_component.simps(2) [simp del]

lemma decode_encoded: "decode_uri_component (percent_encode s @ t) = rbind (decode_uri_component t) (\<lambda>r. Inr (s @ r))"
proof (induction s)
  case Nil
  then show ?case by (cases "decode_uri_component t") (simp_all add: percent_encode_def)
next
  case (Cons c s)
  have "(of_char c :: nat) div 16 < 16" using less_mult_imp_div_less [of "of_char c" 16 16] of_char_less [of c] by simp
  then show ?case using Cons
    by (cases "decode_uri_component t") (simp_all add: percent_encode_def decode_escape hex_char_value_digit)
qed

lemma decode_plain:
  "\<lbrakk>CHR ''%'' \<notin> set s; CHR ''+'' \<notin> set s\<rbrakk> \<Longrightarrow>
     decode_uri_component (s @ t) = rbind (decode_uri_component t) (\<lambda>r. Inr (s @ r))"
proof (induction s)
  case Nil
  then show ?case by (cases "decode_uri_component t") simp_all
next
  case (Cons c s)
  then show ?case by (cases "decode_uri_component t") (auto simp: decode_other)
qed

lemma percent_encode_chars:
  assumes "c \<notin> set ''0123456789abcdef''" "c \<noteq> CHR ''%''"
  shows "c \<notin> set (percent_encode s)"
proof -
  have "hex_digit n \<noteq> c" for n
  proof -
    have "hex_digit n \<in> set ''0123456789abcdef''" unfolding hex_digit_def by (rule nth_mem) simp
    then show ?thesis using assms(1) by blast
  qed
  then show ?thesis using assms(2) by (auto simp: percent_encode_def)
qed

section \<open>Addressing an order\<close>

definition addressable :: "string \<Rightarrow> bool" where
  "addressable cid \<longleftrightarrow> cid \<noteq> [] \<and> CHR ''/'' \<notin> set cid \<and> cid \<noteq> ''pipeline''"

definition order_target :: "string \<Rightarrow> string" where
  "order_target cid = order_prefix @ percent_encode cid"

lemma order_target_parsed:
  assumes "cid \<noteq> []"
  shows "\<exists>target. parse_target (order_target cid) = Inr target \<and> target_path target = order_prefix @ cid"
proof -
  have plain: "CHR ''?'' \<notin> set (order_target cid)"
    using percent_encode_chars [of "CHR ''?''" cid] by (simp add: order_target_def order_prefix_def)
  have "CHR ''%'' \<in> set (order_target cid)" using assms by (cases cid) (simp_all add: order_target_def percent_encode_def)
  moreover have "decode_uri_component (order_target cid) = Inr (order_prefix @ cid)"
    using decode_plain [of order_prefix "percent_encode cid"] decode_encoded [of cid "[]"]
    by (simp add: order_target_def order_prefix_def)
  ultimately show ?thesis using plain by (simp add: parse_target_def split_first_None target_path_def order_prefix_def)
qed

lemma not_pipeline:
  assumes "addressable cid"
  shows "\<not> ends_with (order_prefix @ cid) pipeline_suffix"
proof
  let ?y = "''/api/v1/orders''" and ?x = "take (length (order_prefix @ cid) - length pipeline_suffix) (order_prefix @ cid)"
  assume "ends_with (order_prefix @ cid) pipeline_suffix"
  then have "order_prefix @ cid = ?x @ pipeline_suffix" unfolding ends_with_def by (metis append_take_drop_id)
  then have "rev (order_prefix @ cid) = rev (?x @ pipeline_suffix)" by (rule arg_cong)
  then have "rev cid @ CHR ''/'' # rev ?y = rev ''pipeline'' @ CHR ''/'' # rev ?x"
    unfolding rev_append by (simp add: order_prefix_def pipeline_suffix_def)
  then have "rev cid = rev ''pipeline''"
    using delimited_unique [of "CHR ''/''" "rev cid" "rev ''pipeline''"] assms by (simp add: addressable_def)
  then show False using assms unfolding addressable_def by (metis rev_rev_ident)
qed

lemma order_route_address:
  assumes "addressable cid"
  shows "order_route_id (order_prefix @ cid) = cid"
  using not_pipeline [OF assms] by (simp add: order_route_id_def Let_def)

lemma order_route:
  assumes "parse_target (aq_target request) = Inr target" "target_path target = order_prefix @ cid" "addressable cid"
    "aq_method request \<in> {''GET'', ''DELETE'', ''PATCH''}"
  shows "route W c w request target g = order_routes W c w request (order_prefix @ cid) g"
proof -
  let ?path = "order_prefix @ cid"
  have "?path \<notin> {''/api/v1/openapi.json'', ''/api/v1/health'', ''/api/v1/positions'', ''/api/v1/balances'', ''/api/v1/instruments'',
      ''/api/v1/system'', ''/api/v1/market-data'', ''/api/v1/orders''}"
    by (simp add: order_prefix_def)
  moreover have "starts_with ?path order_prefix" "length ?path > length order_prefix"
    using assms(3) by (simp_all add: starts_with_def addressable_def)
  ultimately show ?thesis using assms(2) by (simp add: route_def Let_def)
qed

definition answered_with :: "'j view_json \<Rightarrow> gateway \<times> api_response result \<Rightarrow> gateway \<times> api_response result" where
  "answered_with W outcome = (case outcome of (g, Inr r) \<Rightarrow> (g, Inr r) | (g, Inl e) \<Rightarrow> (g, exception_response W e))"

lemma handle_routed:
  "handle W c w request g =
     answered_with W (if aq_method request = ''OPTIONS'' then (g, json_response W 204 (w_object W []))
       else case parse_target (aq_target request) of Inl e \<Rightarrow> (g, Inl e) | Inr target \<Rightarrow> route W c w request target g)"
  by (simp add: handle_def answered_with_def)

lemma answered_fst [simp]: "fst (answered_with W x) = fst x"
  by (simp add: answered_with_def split: prod.split sum.split)

section \<open>Reading\<close>

lemma reading_route:
  assumes "aq_method request \<notin> {''POST'', ''PATCH'', ''DELETE''}"
  shows "fst (route W c w request target g) = g"
proof -
  have "fst (final_routes W w request path g) = g" for path using assms by (simp add: final_routes_def Let_def)
  moreover from this have "fst (order_routes W c w request path g) = g" for path
    using assms by (simp add: order_routes_def Let_def)
  ultimately show ?thesis using assms by (simp add: route_def Let_def)
qed

section \<open>Answers\<close>

text \<open>The printer of the JSON library throws on texts that are not UTF-8; \<open>unprintable W e\<close> says that it throws \<open>e\<close> on some value.\<close>

definition unprintable :: "'j view_json \<Rightarrow> exn \<Rightarrow> bool" where
  "unprintable W e \<longleftrightarrow> (\<exists>j. vw_dump W j = Inl e)"

definition api_statuses :: "nat set" where
  "api_statuses = {200, 201, 202, 204, 400, 404, 405, 409, 422, 429, 500, 503}"

definition api_answer :: "'j view_json \<Rightarrow> api_response result \<Rightarrow> bool" where
  "api_answer W x \<longleftrightarrow> (case x of Inl e \<Rightarrow> unprintable W e | Inr r \<Rightarrow> as_status r \<in> api_statuses)"

lemma json_answered: "st \<in> api_statuses \<Longrightarrow> api_answer W (json_response W st j)"
  by (cases "vw_dump W j") (auto simp: json_response_def api_answer_def unprintable_def)

lemma error_answered: "st \<in> api_statuses \<Longrightarrow> api_answer W (error_response W st code message)"
  by (simp add: error_response_def json_answered)

lemma exception_answered: "api_answer W (exception_response W e)"
  by (cases e) (simp_all add: exception_response_def error_answered api_statuses_def)

lemma error_status_known: "error_status code \<in> api_statuses"
proof (cases "map_of status_mappings code")
  case (Some st)
  then have "st \<in> snd ` set status_mappings" by (force dest: map_of_SomeD)
  moreover have "snd ` set status_mappings \<subseteq> api_statuses" by (simp add: status_mappings_def api_statuses_def)
  ultimately show ?thesis using Some by (auto simp: error_status_def)
qed (simp add: error_status_def api_statuses_def)

text \<open>A route ends with an answer or with an exception.\<close>

definition api_outcome :: "api_response result \<Rightarrow> bool" where
  "api_outcome x \<longleftrightarrow> (\<forall>r. x = Inr r \<longrightarrow> as_status r \<in> api_statuses)"

lemma outcome_rbind: "(\<And>x. m = Inr x \<Longrightarrow> api_outcome (f x)) \<Longrightarrow> api_outcome (rbind m f)"
  by (cases m) (auto simp: api_outcome_def)

lemma outcome_Inl [simp]: "api_outcome (Inl e)"
  by (simp add: api_outcome_def)

lemma outcome_answer: "api_answer W x \<Longrightarrow> api_outcome x"
  by (auto simp: api_outcome_def api_answer_def)

lemmas api_answers = outcome_answer [OF json_answered] outcome_answer [OF error_answered] error_status_known

lemma statuses [simp]:
  "200 \<in> api_statuses" "201 \<in> api_statuses" "202 \<in> api_statuses" "204 \<in> api_statuses" "400 \<in> api_statuses" "404 \<in> api_statuses"
  "405 \<in> api_statuses" "503 \<in> api_statuses"
  by (simp_all add: api_statuses_def)

lemma operation_answered: "st \<in> api_statuses \<Longrightarrow> api_outcome (operation_response W r st)"
  by (simp add: operation_response_def api_answers)

lemma settled_answered: "api_outcome (snd (settled_response W w x))"
  by (simp add: settled_response_def operation_answered Let_def split: prod.split sum.split)

lemma command_answered:
  "api_outcome (snd (api_place W c w request g))" "api_outcome (snd (api_cancel W w request cid g))"
  "api_outcome (snd (api_amend W c w request cid g))" "api_outcome (snd (api_reconcile W w t g))"
  by (simp_all add: api_place_def api_cancel_def api_amend_def api_reconcile_def settled_answered operation_answered
      split: prod.split sum.split)

lemma reading_answered:
  "api_outcome (api_health W c w g)" "api_outcome (api_positions W g)" "api_outcome (api_balances W w target)"
  "api_outcome (api_instruments W w target)" "api_outcome (api_market_data W w)" "api_outcome (api_list W target g)"
  "api_outcome (api_get W cid g)" "api_outcome (api_pipeline W w cid g)" "api_outcome (no_route W)"
  by (simp_all add: api_health_def api_positions_def api_balances_def api_instruments_def api_market_data_def api_list_def
      api_get_def api_pipeline_def no_route_def Let_def api_answers outcome_rbind split: option.split)

lemma route_answered: "api_outcome (snd (route W c w request target g))"
  by (simp add: route_def order_routes_def final_routes_def Let_def reading_answered command_answered api_answers)

section \<open>Repeated creation\<close>

definition replay_status :: "gateway_config \<Rightarrow> order_request \<Rightarrow> order \<Rightarrow> nat" where
  "replay_status cf r ord =
     (if create_fingerprint ord = fingerprint r \<or> fingerprint_matches (cf_dump cf) (create_fingerprint ord) r
      then if status ord = Rejected then 422
           else if status ord = Unknown \<and> pending_action ord = ReconcileAction then 503 else 200
      else 409)"

lemma error_status_values:
  "error_status ''ORDER_REJECTED'' = 422" "error_status ''OUTCOME_UNKNOWN'' = 503" "error_status ''IDEMPOTENCY_CONFLICT'' = 409"
  by (simp_all add: error_status_def status_mappings_def)

text \<open>The event that a repeated creation records.\<close>

definition replay_event :: "gateway_config \<Rightarrow> order_request \<Rightarrow> order \<Rightarrow> effect \<Rightarrow> bool" where
  "replay_event cf r ord e \<longleftrightarrow>
     (\<exists>severity message. e = Recorded severity ''RETRY''
        (if replay_status cf r ord = 409 then ''IDEMPOTENCY_CONFLICT'' else ''IDEMPOTENT_REPLAY'') message
        (Some (rq_venue r)) (rq_client_order_id r) [] (context_of ord))"

lemma place_replayed:
  assumes "order_at g (rq_client_order_id r) = Some ord"
  obtains g' answer e where "place cf ci r g = (g', Inr answer)" "gw_orders g' = gw_orders g" "gw_trace g' = gw_trace g @ [e]"
    "replay_event cf r ord e" "op_order answer = Some ord"
    "(if op_ok answer then if op_idempotent_replay answer then 200 else n else error_status (op_code answer)) = replay_status cf r ord"
proof -
  obtain g' answer where a: "replay_if_present cf r g = Some (g', answer)"
    using replay_if_present_None_iff [of cf r g] assms by (cases "replay_if_present cf r g") auto
  have "\<exists>e. gw_trace g' = gw_trace g @ [e] \<and> replay_event cf r ord e"
    using a assms by (auto simp: replay_if_present_def Let_def record_event_def emit_def replay_event_def replay_status_def
        split: if_splits)
  then obtain e where e: "gw_trace g' = gw_trace g @ [e]" "replay_event cf r ord e" by blast
  show thesis
  proof (rule that [OF _ _ e])
    show "place cf ci r g = (g', Inr answer)" by (simp add: place_def a)
    show "gw_orders g' = gw_orders g" "op_order answer = Some ord"
      using replay_if_present_frame [OF a] assms by (auto simp: core_same_def)
    show "(if op_ok answer then if op_idempotent_replay answer then 200 else n else error_status (op_code answer)) = replay_status cf r ord"
      using a assms by (auto simp: replay_if_present_def Let_def op_success_def op_failure_def replay_status_def error_status_values
          split: if_splits)
  qed
qed

lemma post_order_routed:
  assumes "aq_method request = ''POST''" "aq_target request = ''/api/v1/orders''"
  shows "handle W c w request g = answered_with W (api_place W c w request g)"
proof -
  let ?target = "\<lparr>pg_raw_path = ''/api/v1/orders'', pg_decoded_path = [], pg_query = Map.empty\<rparr>"
  have "parse_target ''/api/v1/orders'' = Inr ?target" by (simp add: parse_target_def split_first_def)
  moreover have "route W c w request ?target g = api_place W c w request g" using assms(1) by (simp add: route_def target_path_def)
  ultimately show ?thesis using assms by (simp add: handle_routed)
qed

section \<open>A library\<close>

fun tree_printable :: "json_tree \<Rightarrow> bool" where
  "tree_printable (JString s) = list_all (\<lambda>c. (of_char c :: nat) < 128) s"
| "tree_printable (JObject kvs) = list_all (\<lambda>(k, v). tree_printable v) kvs"
| "tree_printable _ = True"

text \<open>The printer refuses texts with bytes above 127, or prints everything.\<close>

definition sample_views :: "bool \<Rightarrow> json_tree \<Rightarrow> json_tree view_json" where
  "sample_views strict body =
     \<lparr>vw_venue = tree_venue\<lparr>vj_core := tree_json (\<lambda>_. Inr body)\<rparr>,
      vw_array = (\<lambda>js. JObject (map (\<lambda>j. ([], j)) js)),
      vw_keys = (\<lambda>j. case j of JObject kvs \<Rightarrow> map fst kvs | _ \<Rightarrow> []),
      vw_dump = (\<lambda>j. if strict \<and> \<not> tree_printable j then Inl (Json_exception ''invalid UTF-8 byte'') else Inr ''{}'')\<rparr>"

definition sample_api :: api_config where
  "sample_api = \<lparr>ac_gateway = sample_config, ac_venues = [Okx, Binance], ac_runtime_mode = ''simulated''\<rparr>"

definition sample_request_for :: "string \<Rightarrow> string \<Rightarrow> api_request" where
  "sample_request_for verb target = \<lparr>aq_method = verb, aq_target = target, aq_body = ''{}'', aq_headers = Map.empty\<rparr>"

lemma handle_answered: "api_answer W (snd (handle W c w request g))"
proof -
  let ?x = "if aq_method request = ''OPTIONS'' then (g, json_response W 204 (w_object W []))
    else case parse_target (aq_target request) of Inl e \<Rightarrow> (g, Inl e) | Inr target \<Rightarrow> route W c w request target g"
  obtain g' y where x: "?x = (g', y)" by fastforce
  have "api_outcome (snd ?x)" by (auto simp: api_answers route_answered split: sum.split)
  then have "api_outcome y" unfolding x by simp
  then show ?thesis unfolding handle_routed x
    using exception_answered by (cases y) (auto simp: answered_with_def api_outcome_def api_answer_def)
qed

lemma reading_handled:
  "aq_method request \<notin> {''POST'', ''PATCH'', ''DELETE''} \<Longrightarrow> fst (handle W c w request g) = g"
  unfolding handle_routed answered_fst by (simp add: reading_route split: sum.split)

section \<open>Properties\<close>

text \<open>C30. Every request is answered unless its answer cannot be printed: for every method, target, body and state of the gateway, and
  whatever the operations behind it throw, \<open>handle\<close> returns a response with one of the documented status codes, or it ends
  with an exception that the JSON printer itself threw (the library throws on texts that are not UTF-8); and only requests with the
  methods POST, PATCH and DELETE change the gateway.\<close>

theorem api_request_outcome:
  shows "(case snd (handle W c w request g) of
      Inr r \<Rightarrow> as_status r \<in> api_statuses
    | Inl e \<Rightarrow> \<exists>j. vw_dump W j = Inl e) \<and>
    (fst (handle W c w request g) \<noteq> g \<longrightarrow> aq_method request \<in> {''POST'', ''PATCH'', ''DELETE''})"
  using handle_answered [of W c w request g] reading_handled [of request W c w g]
  by (auto simp: api_answer_def unprintable_def split: sum.splits)

theorem api_request_outcome_witness:
  "\<forall>w. \<exists>r. snd (handle (sample_views False (JObject [])) sample_api w (sample_request_for ''GET'' ''/api/v1/orders?venue=%zz'') sample_gateway) =
     Inr r \<and> as_status r \<in> api_statuses"
proof
  fix w
  let ?x = "snd (handle (sample_views False (JObject [])) sample_api w (sample_request_for ''GET'' ''/api/v1/orders?venue=%zz'') sample_gateway)"
  have "case ?x of Inr r \<Rightarrow> as_status r \<in> api_statuses | Inl e \<Rightarrow> \<exists>j. vw_dump (sample_views False (JObject [])) j = Inl e"
    using api_request_outcome by blast
  then show "\<exists>r. ?x = Inr r \<and> as_status r \<in> api_statuses" by (cases ?x) (auto simp: sample_views_def)
qed

text \<open>C31. Every order whose id is not empty, has no slash and is not the word \<open>pipeline\<close> can be addressed: with the id percent-encoded
  in the path, a GET shows exactly this order, a DELETE cancels it and a PATCH amends it, whatever bytes the id has.\<close>

theorem api_orders_addressable:
  assumes "addressable cid" and "aq_target request = order_target cid"
  shows "handle W c w (request\<lparr>aq_method := ''GET''\<rparr>) g = answered_with W (g, api_get W cid g) \<and>
    handle W c w (request\<lparr>aq_method := ''DELETE''\<rparr>) g = answered_with W (api_cancel W w (request\<lparr>aq_method := ''DELETE''\<rparr>) cid g) \<and>
    handle W c w (request\<lparr>aq_method := ''PATCH''\<rparr>) g = answered_with W (api_amend W c w (request\<lparr>aq_method := ''PATCH''\<rparr>) cid g)"
proof -
  obtain target where target: "parse_target (aq_target request) = Inr target" "target_path target = order_prefix @ cid"
    using order_target_parsed [of cid] assms by (auto simp: addressable_def)
  have "handle W c w (request\<lparr>aq_method := verb\<rparr>) g = answered_with W (order_routes W c w (request\<lparr>aq_method := verb\<rparr>) (order_prefix @ cid) g)"
    if "verb \<in> {''GET'', ''DELETE'', ''PATCH''}" for verb
  proof -
    let ?r = "request\<lparr>aq_method := verb\<rparr>"
    have "verb \<noteq> ''OPTIONS''" using that by auto
    moreover have "route W c w ?r target g = order_routes W c w ?r (order_prefix @ cid) g"
      by (rule order_route) (use that target assms(1) in simp_all)
    ultimately show ?thesis using target(1) by (simp add: handle_routed)
  qed
  then show ?thesis
    using assms(1) not_pipeline [OF assms(1)] order_route_address [OF assms(1)] by (simp add: order_routes_def addressable_def)
qed

theorem api_orders_addressable_witness:
  "\<forall>w. handle (sample_views False (JObject [])) sample_api w (sample_request_for ''GET'' (order_target ''c0'')) sample_gateway =
     answered_with (sample_views False (JObject [])) (sample_gateway, api_get (sample_views False (JObject [])) ''c0'' sample_gateway)"
proof
  fix w
  have "addressable ''c0''" by (simp add: addressable_def)
  from api_orders_addressable [OF this, of "sample_request_for ''GET'' (order_target ''c0'')" "sample_views False (JObject [])"
      sample_api w sample_gateway]
  show "handle (sample_views False (JObject [])) sample_api w (sample_request_for ''GET'' (order_target ''c0'')) sample_gateway =
     answered_with (sample_views False (JObject [])) (sample_gateway, api_get (sample_views False (JObject [])) ''c0'' sample_gateway)"
    by (simp add: sample_request_for_def)
qed

text \<open>C26. Repeating a creation over HTTP is safe: a POST of an order whose client id exists sends no command to a venue, writes no
  order to the journal and leaves all orders as they are; all it records is one operational event,
  \<open>IDEMPOTENT_REPLAY\<close> or \<open>IDEMPOTENCY_CONFLICT\<close>. Its answer shows the stored order: with the same payload 200, or 422 if
  the order was rejected, or 503 while its outcome is unknown; with another payload 409. Only when the JSON printer throws on that answer (a
  text that is not UTF-8) the answer is the one of the handler of exceptions instead.\<close>

theorem api_retry_safe:
  assumes "aq_method request = ''POST''" and "aq_target request = ''/api/v1/orders''"
    and "posted_order W request = Inr r" and "order_at g (rq_client_order_id r) = Some ord"
  shows "\<exists>g' x answer e. handle W c w request g = (g', x) \<and> gw_orders g' = gw_orders g \<and>
    gw_trace g' = gw_trace g @ [e] \<and> replay_event (ac_gateway c) r ord e \<and> op_order answer = Some ord \<and>
    (case vw_dump W (operation_view W answer) of
       Inr t \<Rightarrow> \<exists>response. x = Inr response \<and> as_body response = t \<and> as_status response = replay_status (ac_gateway c) r ord
     | Inl thrown \<Rightarrow> x = exception_response W thrown)"
proof -
  let ?n = "if header_value request ''prefer'' = ''respond-async'' then 202 else 201"
  obtain g' answer e where a: "place (ac_gateway c) (aw_command w) r g = (g', Inr answer)" "gw_orders g' = gw_orders g"
    "gw_trace g' = gw_trace g @ [e]" "replay_event (ac_gateway c) r ord e" "op_order answer = Some ord"
    "(if op_ok answer then if op_idempotent_replay answer then 200 else ?n else error_status (op_code answer)) =
      replay_status (ac_gateway c) r ord"
    by (rule place_replayed [OF assms(4)])
  have "api_place W c w request g = (g', operation_response W answer (if op_idempotent_replay answer then 200 else ?n))"
    using a(1) assms(3) by (simp add: api_place_def)
  then have h: "handle W c w request g =
      answered_with W (g', operation_response W answer (if op_idempotent_replay answer then 200 else ?n))"
    using post_order_routed [OF assms(1,2), of W c w g] by simp
  obtain x where x: "handle W c w request g = (g', x)" using h by (simp add: answered_with_def split: sum.splits)
  have "case vw_dump W (operation_view W answer) of
       Inr t \<Rightarrow> \<exists>response. x = Inr response \<and> as_body response = t \<and> as_status response = replay_status (ac_gateway c) r ord
     | Inl thrown \<Rightarrow> x = exception_response W thrown"
    using h x a(6) by (cases "vw_dump W (operation_view W answer)")
      (auto simp: answered_with_def operation_response_def json_response_def)
  then show ?thesis using x a(2-5) by blast
qed

definition sample_posted :: json_tree where
  "sample_posted = request_to_json (tree_json (\<lambda>_. Inl wrong_type)) (json_sample_request\<lparr>rq_client_order_id := ''c0''\<rparr>)"

lemma sample_posted_order:
  "posted_order (sample_views False sample_posted) (sample_request_for ''POST'' ''/api/v1/orders'') =
     Inr (json_sample_request\<lparr>rq_client_order_id := ''c0''\<rparr>)"
proof -
  let ?r = "json_sample_request\<lparr>rq_client_order_id := ''c0''\<rparr>" and ?J = "tree_json (\<lambda>_. Inr sample_posted)"
  have same: "request_to_json ?J ?r = sample_posted" unfolding sample_posted_def request_to_json_def decimal_to_json_def by (simp add: tree_json_def)
  have "request_from_json ?J (request_to_json ?J ?r) = Inr ?r"
    by (rule request_read [OF tree_json_laws]) (simp_all add: json_sample_request_def wf_decimal_def in_int64_def int64_bounds)
  then have "request_from_json ?J sample_posted = Inr ?r" unfolding same .
  moreover have "require_only_fields (sample_views False sample_posted) sample_posted [''clientOrderId'', ''venue'', ''symbol'', ''side'',
      ''type'', ''price'', ''quantity'', ''timeInForce''] = Inr ()"
    by (simp add: require_only_fields_def sample_views_def sample_posted_def request_to_json_def json_sample_request_def tree_venue_def
        optional_entry_def tree_json_def)
  ultimately show ?thesis by (simp add: posted_order_def sample_request_for_def) (simp add: sample_views_def tree_json_def)
qed

theorem api_retry_safe_witness:
  "\<forall>w. \<exists>g' response e. handle (sample_views False sample_posted) sample_api w (sample_request_for ''POST'' ''/api/v1/orders'') sample_gateway =
     (g', Inr response) \<and> gw_trace g' = gw_trace sample_gateway @ [e] \<and> as_status response \<in> {200, 409, 422, 503}"
proof
  fix w
  let ?request = "sample_request_for ''POST'' ''/api/v1/orders''" and ?W = "sample_views False sample_posted"
  have "aq_method ?request = ''POST''" "aq_target ?request = ''/api/v1/orders''" by (simp_all add: sample_request_for_def)
  moreover have "order_at sample_gateway (rq_client_order_id (json_sample_request\<lparr>rq_client_order_id := ''c0''\<rparr>)) =
      Some (sample_order\<lparr>client_order_id := ''c0''\<rparr>)" by (simp add: sample_order_at)
  ultimately obtain g' x answer e where x: "handle ?W sample_api w ?request sample_gateway = (g', x)"
    "gw_trace g' = gw_trace sample_gateway @ [e]"
    "case vw_dump ?W (operation_view ?W answer) of
       Inr t \<Rightarrow> \<exists>response. x = Inr response \<and> as_body response = t \<and>
         as_status response = replay_status (ac_gateway sample_api) (json_sample_request\<lparr>rq_client_order_id := ''c0''\<rparr>)
           (sample_order\<lparr>client_order_id := ''c0''\<rparr>)
     | Inl thrown \<Rightarrow> x = exception_response ?W thrown"
    using api_retry_safe [OF _ _ sample_posted_order, where g = sample_gateway] by blast
  have "vw_dump ?W j = Inr ''{}''" for j by (simp add: sample_views_def)
  then show "\<exists>g' response e. handle ?W sample_api w ?request sample_gateway =
     (g', Inr response) \<and> gw_trace g' = gw_trace sample_gateway @ [e] \<and> as_status response \<in> {200, 409, 422, 503}"
    using x by (auto simp: replay_status_def)
qed

section \<open>What goes wrong\<close>

text \<open>A text that is not UTF-8 in the query: reading it throws, the handler of the exception prints the text, and printing throws out of
  \<open>handle\<close>.\<close>

lemma api_exception_escapes:
  "snd (handle (sample_views True (JObject [])) sample_api w (sample_request_for ''GET'' ''/api/v1/orders?venue=%ff'') g) =
     Inl (Json_exception ''invalid UTF-8 byte'')"
proof -
  have p: "parse_target ''/api/v1/orders?venue=%ff'' =
      Inr \<lparr>pg_raw_path = ''/api/v1/orders'', pg_decoded_path = [], pg_query = [''venue'' \<mapsto> [char_of (255::nat)]]\<rparr>"
  proof -
    have s: "split_first CHR ''?'' ''/api/v1/orders?venue=%ff'' = Some (''/api/v1/orders'', ''venue=%ff'')"
      "split_first CHR ''&'' ''venue=%ff'' = None" "parse_pair ''venue=%ff'' = Inr (''venue'', [char_of (255::nat)])" by code_simp+
    then have "parse_query ''venue=%ff'' Map.empty = Inr [''venue'' \<mapsto> [char_of (255::nat)]]" by simp
    then show ?thesis using s(1) by (simp add: parse_target_def)
  qed
  have v: "venue_from_string [char_of (255::nat)] = Inl (Invalid_argument (''invalid venue: '' @ [char_of (255::nat)]))" by code_simp
  show ?thesis
    by (simp add: handle_def sample_request_for_def p route_def target_path_def api_list_def optional_query_def v exception_response_def
        error_response_def json_response_def sample_views_def w_object_def w_text_def w_bool_def tree_json_def tree_venue_def)
qed

text \<open>An order with a slash in its id can be created, but neither shown nor canceled nor amended.\<close>

lemma api_slash_unreachable:
  assumes "aq_target request = order_target ''a/b''" "aq_method request \<in> {''GET'', ''DELETE'', ''PATCH''}"
  shows "handle W c w request g = answered_with W (g, no_route W)"
proof -
  obtain target where target: "parse_target (aq_target request) = Inr target" "target_path target = order_prefix @ ''a/b''"
    using order_target_parsed [of "''a/b''"] assms by auto
  have "route W c w request target g = (g, no_route W)"
    using assms(2) target(2)
    by (simp add: route_def order_routes_def order_route_id_def order_prefix_def pipeline_suffix_def ends_with_def starts_with_def Let_def)
  then show ?thesis using target(1) assms(2) by (auto simp: handle_routed)
qed

end
