(* ===== verification/Abex_Server_Props.thy ===== *)
theory Abex_Server_Props
  imports Abex_Server Abex_Api_Props
begin

text \<open>
  What the server guarantees: its queues are bounded, a client that loses messages is told so, and what is published after a
  session joined reaches it; static answers come from the four known files.
\<close>

section \<open>No silent loss\<close>

text \<open>What a client has to go by: the messages after the last instruction to resynchronize.\<close>

definition since_resync :: "outbound list \<Rightarrow> string list" where
  "since_resync xs = fold (\<lambda>x acc. case x of Message m \<Rightarrow> acc @ [m] | Resync t \<Rightarrow> []) xs []"

definition has_resync :: "outbound list \<Rightarrow> bool" where
  "has_resync xs \<longleftrightarrow> list_ex (\<lambda>x. case x of Message m \<Rightarrow> False | Resync t \<Rightarrow> True) xs"

text \<open>The stream of a session, written or waiting, from its last resynchronization on is without gaps up to the messages that
  were dropped since the queue was full; those are followed by another resynchronization. \<open>published\<close> is what was published.\<close>

definition session_sound :: "string list \<Rightarrow> session \<Rightarrow> bool" where
  "session_sound published s \<longleftrightarrow>
     length (ss_outbound s) \<le> maximum_pending_messages \<and>
     (ss_writing s \<longleftrightarrow> ss_outbound s \<noteq> []) \<and>
     (ss_resync_pending s \<longrightarrow> length (ss_outbound s) = maximum_pending_messages) \<and>
     (\<exists>before dropped. ss_enqueued s = before @ since_resync (ss_written s @ ss_outbound s) @ dropped \<and>
        (\<not> ss_resync_pending s \<longrightarrow> dropped = []) \<and> (\<not> has_resync (ss_written s @ ss_outbound s) \<longrightarrow> before = [])) \<and>
     subseq (drop (ss_joined_at s) published) (ss_enqueued s @ ss_posts s)"

definition server_inv :: "server \<Rightarrow> bool" where
  "server_inv s \<longleftrightarrow> (\<forall>(n, x) \<in> set (sv_sessions s). session_sound (sv_published s) x \<and> ss_joined_at x \<le> length (sv_published s)) \<and>
     distinct (map fst (sv_sessions s))"

lemma since_resync_snoc [simp]:
  "since_resync (xs @ [Message m]) = since_resync xs @ [m]" "since_resync (xs @ [Resync t]) = []" "since_resync [] = []"
  by (simp_all add: since_resync_def)

lemma has_resync_append [simp]: "has_resync (xs @ ys) \<longleftrightarrow> has_resync xs \<or> has_resync ys"
  and has_resync_Cons [simp]: "has_resync (x # xs) \<longleftrightarrow> (\<exists>t. x = Resync t) \<or> has_resync xs"
  and has_resync_Nil [simp]: "\<not> has_resync []"
  by (auto simp: has_resync_def split: outbound.splits)

lemma send_sound:
  assumes "session_sound published s"
  shows "session_sound published (session_send m s)"
proof -
  have "subseq (drop (ss_joined_at s) published @ []) ((ss_enqueued s @ ss_posts s) @ [m])"
    using assms by (intro list_emb_append_mono) (simp_all add: session_sound_def)
  then show ?thesis using assms by (simp add: session_sound_def session_send_def)
qed

lemma publish_sound:
  assumes "session_sound published s" "ss_joined_at s \<le> length published"
  shows "session_sound (published @ [m]) (session_send m s)"
proof -
  have "subseq (drop (ss_joined_at s) published @ [m]) ((ss_enqueued s @ ss_posts s) @ [m])"
    using assms(1) by (intro list_emb_append_mono) (simp_all add: session_sound_def)
  then show ?thesis using assms by (simp add: session_sound_def session_send_def)
qed

lemma run_sound:
  assumes "session_sound published s"
  shows "session_sound published (run_send s)"
proof (cases "ss_posts s")
  case Nil
  then show ?thesis using assms by (simp add: run_send_def)
next
  case (Cons m ms)
  obtain before dropped where b: "ss_enqueued s = before @ since_resync (ss_written s @ ss_outbound s) @ dropped"
    "\<not> ss_resync_pending s \<longrightarrow> dropped = []" "\<not> has_resync (ss_written s @ ss_outbound s) \<longrightarrow> before = []"
    using assms by (auto simp: session_sound_def)
  let ?t = "run_send s"
  have posts: "ss_enqueued ?t @ ss_posts ?t = ss_enqueued s @ ss_posts s" "ss_joined_at ?t = ss_joined_at s" "ss_written ?t = ss_written s"
    using Cons by (simp_all add: run_send_def session_write_next_def Let_def)
  show ?thesis
  proof (cases "length (ss_outbound s) \<ge> maximum_pending_messages")
    case True
    then have t: "ss_outbound ?t = ss_outbound s" "ss_writing ?t = ss_writing s" "ss_resync_pending ?t" "ss_enqueued ?t = ss_enqueued s @ [m]"
      using Cons by (simp_all add: run_send_def)
    have "ss_enqueued ?t = before @ since_resync (ss_written s @ ss_outbound s) @ (dropped @ [m])" using t(4) b(1) by simp
    then show ?thesis using assms posts t b(3) True unfolding session_sound_def by (metis le_antisym)
  next
    case False
    then have clean: "\<not> ss_resync_pending s" using assms by (auto simp: session_sound_def)
    have t: "ss_outbound ?t = ss_outbound s @ [Message m]" "\<not> ss_resync_pending ?t" "ss_enqueued ?t = ss_enqueued s @ [m]" "ss_writing ?t"
      using False Cons clean by (simp_all add: run_send_def session_write_next_def Let_def)
    have "ss_enqueued ?t = before @ since_resync (ss_written ?t @ ss_outbound ?t) @ []"
      using b clean t since_resync_snoc(1) [of "ss_written s @ ss_outbound s" m] posts(3) by simp
    moreover have "\<not> has_resync (ss_written ?t @ ss_outbound ?t) \<longrightarrow> before = []" using b(3) t posts by simp
    ultimately show ?thesis using assms False posts t unfolding session_sound_def by auto
  qed
qed

lemma written_sound:
  assumes "session_sound published s" "ss_writing s"
  shows "session_sound published (session_written text_of s)"
proof -
  obtain x xs where out: "ss_outbound s = x # xs" using assms by (cases "ss_outbound s") (auto simp: session_sound_def)
  obtain before dropped where b: "ss_enqueued s = before @ since_resync (ss_written s @ ss_outbound s) @ dropped"
    "\<not> ss_resync_pending s \<longrightarrow> dropped = []" "\<not> has_resync (ss_written s @ ss_outbound s) \<longrightarrow> before = []"
    using assms by (auto simp: session_sound_def)
  let ?t = "session_written text_of s"
  have same: "ss_enqueued ?t = ss_enqueued s" "ss_posts ?t = ss_posts s" "ss_joined_at ?t = ss_joined_at s" "\<not> ss_resync_pending ?t"
    "ss_written ?t = ss_written s @ [x]" "ss_writing ?t \<longleftrightarrow> ss_outbound ?t \<noteq> []"
    using out by (simp_all add: session_written_def session_write_next_def Let_def)
  show ?thesis
  proof (cases "ss_resync_pending s")
    case True
    then have o: "ss_outbound ?t = [Resync text_of]" by (simp add: session_written_def session_write_next_def Let_def)
    have "since_resync (ss_written ?t @ ss_outbound ?t) = []" using o by simp
    then have "ss_enqueued ?t = ss_enqueued s @ since_resync (ss_written ?t @ ss_outbound ?t) @ []" using same by simp
    moreover have "has_resync (ss_written ?t @ ss_outbound ?t)" using o by simp
    moreover have "length (ss_outbound ?t) \<le> maximum_pending_messages" using o by (simp add: maximum_pending_messages_def)
    ultimately show ?thesis using assms same unfolding session_sound_def by metis
  next
    case False
    then have o: "ss_outbound ?t = xs" using out by (simp add: session_written_def session_write_next_def Let_def)
    then have "ss_written ?t @ ss_outbound ?t = ss_written s @ ss_outbound s" using same out by simp
    moreover have "length (ss_outbound ?t) \<le> maximum_pending_messages" using o out assms by (simp add: session_sound_def)
    ultimately show ?thesis using assms same b False unfolding session_sound_def by metis
  qed
qed

lemma read_sound: "session_sound published s \<Longrightarrow> session_sound published (session_read W now message s)"
  by (simp add: session_read_def Let_def send_sound split: sum.split)

lemma sends_sound: "session_sound published s \<Longrightarrow> session_sound published (fold session_send ms s)"
  by (induction ms arbitrary: s) (simp_all add: send_sound)

lemma session_frame [simp]:
  "ss_joined_at (session_send m s) = ss_joined_at s" "ss_joined_at (run_send s) = ss_joined_at s"
  "ss_joined_at (session_written t s) = ss_joined_at s" "ss_joined_at (session_read W now message s) = ss_joined_at s"
  "ss_joined_at (fold session_send ms s) = ss_joined_at s"
proof -
  show send: "ss_joined_at (session_send m s) = ss_joined_at s" for m s by (simp add: session_send_def)
  show "ss_joined_at (fold session_send ms s) = ss_joined_at s" by (induction ms arbitrary: s) (simp_all add: send)
  show "ss_joined_at (session_read W now message s) = ss_joined_at s" by (simp add: session_read_def Let_def send split: sum.split)
qed (simp_all add: run_send_def session_written_def session_write_next_def Let_def split: list.split)

lemma server_invD:
  assumes "server_inv s" "(n, x) \<in> set (sv_sessions s)"
  shows "session_sound (sv_published s) x" "ss_joined_at x \<le> length (sv_published s)"
  using assms by (auto simp: server_inv_def)

lemma update_session_inv:
  assumes "server_inv s"
    "\<And>x. (n, x) \<in> set (sv_sessions s) \<Longrightarrow> session_sound (sv_published s) x \<Longrightarrow>
       session_sound (sv_published s) (f x) \<and> ss_joined_at (f x) = ss_joined_at x"
  shows "server_inv (update_session n f s)"
proof -
  have "map fst (sv_sessions (update_session n f s)) = map fst (sv_sessions s)" by (simp add: update_session_def split_beta)
  moreover have "session_sound (sv_published s) y \<and> ss_joined_at y \<le> length (sv_published s)"
    if y: "(k, y) \<in> set (sv_sessions (update_session n f s))" for k y
  proof -
    obtain x where x: "(k, x) \<in> set (sv_sessions s)" "y = (if k = n then f x else x)" using y by (auto simp: update_session_def)
    then have "session_sound (sv_published s) x" "ss_joined_at x \<le> length (sv_published s)" using server_invD [OF assms(1)] by blast+
    then show ?thesis using x assms(2) [of x] by (cases "k = n") auto
  qed
  moreover have "sv_published (update_session n f s) = sv_published s" by (simp add: update_session_def)
  ultimately show ?thesis using assms(1) by (auto simp: server_inv_def)
qed

lemma broadcast_inv:
  assumes "server_inv s"
  shows "server_inv (broadcast m s)"
proof -
  have "map fst (sv_sessions (broadcast m s)) = map fst (sv_sessions s)" by (simp add: broadcast_def split_beta)
  moreover have "session_sound (sv_published s @ [m]) y \<and> ss_joined_at y \<le> length (sv_published s @ [m])"
    if y: "(k, y) \<in> set (sv_sessions (broadcast m s))" for k y
  proof -
    obtain x where x: "(k, x) \<in> set (sv_sessions s)" "y = session_send m x" using y by (auto simp: broadcast_def)
    then show ?thesis using publish_sound server_invD [OF assms x(1)] by simp
  qed
  moreover have "sv_published (broadcast m s) = sv_published s @ [m]" by (simp add: broadcast_def)
  ultimately show ?thesis using assms by (auto simp: server_inv_def)
qed

lemma joined_sound: "session_sound published (new_session (length published))"
  by (simp add: session_sound_def new_session_def maximum_pending_messages_def)

lemma server_inv_step:
  assumes inv: "server_inv s" and "server_step W s s'"
  shows "server_inv s'"
  using assms(2)
proof cases
  case (join n)
  then show ?thesis using inv joined_sound by (auto simp: server_inv_def join_session_def new_session_def)
next
  case (snapshot n)
  then show ?thesis unfolding snapshot by (intro update_session_inv [OF inv] conjI sends_sound) simp_all
next
  case order_updated then show ?thesis using broadcast_inv [OF inv] by (simp add: publish_order_def)
next
  case quote_updated then show ?thesis using broadcast_inv [OF inv] inv by (simp add: publish_market_quote_def split: option.split)
next
  case event_recorded then show ?thesis using broadcast_inv [OF inv] by (simp add: publish_operational_def)
next
  case (run n)
  then show ?thesis unfolding run by (intro update_session_inv [OF inv] conjI run_sound) simp_all
next
  case (wrote n x now)
  have "y = x" if "(n, y) \<in> set (sv_sessions s)" for y
    using that wrote(2) inv by (auto simp: server_inv_def dest: eq_key_imp_eq_value)
  then show ?thesis unfolding wrote(1) using wrote(3) by (intro update_session_inv [OF inv]) (auto intro: written_sound)
next
  case (read n now message)
  show ?thesis unfolding read by (intro update_session_inv [OF inv] conjI read_sound) simp_all
next
  case (expired n)
  have "distinct (map fst (filter (\<lambda>(k, x). k \<noteq> n) (sv_sessions s)))" using inv by (simp add: server_inv_def distinct_map_filter)
  then show ?thesis using expired inv by (auto simp: server_inv_def)
qed

interpretation server_run: invariant_system "server_step W" server_inv
  by unfold_locales (rule server_inv_step)

section \<open>Answers\<close>

text \<open>Outside of the API a successful answer is one of the four files, whatever the target says.\<close>

lemma static_answer_known:
  assumes "respond W c w (load_static_files disk) request g = (g', Inr r)" "\<not> starts_with (sq_target request) ''/api/''"
    "sp_status r = 200"
  shows "g' = g \<and> (\<exists>target file_name. (target, file_name) \<in> set static_routes \<and>
    takeWhile (\<lambda>c. c \<noteq> CHR ''?'') (sq_target request) = target \<and> disk file_name \<noteq> None)"
proof -
  let ?target = "takeWhile (\<lambda>c. c \<noteq> CHR ''?'') (sq_target request)"
  have other: "as \<noteq> 200 \<Longrightarrow> error_reply W k as code message \<noteq> Inr r" for k as code message
    using assms(3) by (auto simp: error_reply_def elim!: rbind_InrE)
  have "load_static_files disk ?target \<noteq> None"
  proof
    assume "load_static_files disk ?target = None"
    then have "snd (respond W c w (load_static_files disk) request g) \<noteq> Inr r"
      using assms(2) other by (simp add: respond_def static_reply_def Let_def)
    then show False using assms(1) by simp
  qed
  then obtain body where "(?target, body) \<in> set (List.map_filter (\<lambda>(target, file_name). map_option (Pair target) (disk file_name)) static_routes)"
    unfolding load_static_files_def by (meson map_of_SomeD not_None_eq)
  then obtain file_name where "(?target, file_name) \<in> set static_routes" "disk file_name \<noteq> None"
    by (auto simp: List.map_filter_def split: if_splits)
  moreover have "g' = g" using assms(1,2) by (simp add: respond_def split: if_splits)
  ultimately show ?thesis by blast
qed

text \<open>Only an exception of the JSON printer ends the process.\<close>

lemma read_terminates:
  assumes "snd (http_read W c w files request g) = Terminate e"
  shows "\<exists>j. vw_dump W j = Inl e"
proof -
  obtain g' where r: "respond W c w files request g = (g', Inl e)"
    using assms by (auto simp: http_read_def split: if_splits prod.splits sum.splits)
  show ?thesis
  proof (cases "starts_with (sq_target request) ''/api/''")
    case True
    then have "snd (handle W c w (api_request_of request) g) = Inl e"
      using r by (auto simp: respond_def split: prod.splits sum.splits)
    then show ?thesis using handle_answered [of W c w "api_request_of request" g] by (simp add: api_answer_def unprintable_def)
  next
    case False
    have "\<exists>j. vw_dump W j = Inl e" if "error_reply W k st code message = Inl e" for k st code message
      using that unfolding error_reply_def by (cases "vw_dump W (w_object W [(''ok'', w_bool W False), (''code'', w_text W code), (''message'', w_text W message)])") auto
    then show ?thesis using False r by (auto simp: respond_def static_reply_def Let_def split: if_splits option.splits)
  qed
qed

section \<open>Properties\<close>

text \<open>C27. Clients are never silently behind. In every run of the server, for every WebSocket session: at most 256 messages wait; the
  messages written or waiting since the last instruction to resynchronize are exactly the newest of those enqueued, in order and
  without a gap, except those dropped while the queue was full, and then an instruction to resynchronize is due with the next
  completed write; without such an instruction nothing is missing at all; and everything that was published since the session joined was handed to it,
  in order.\<close>

theorem clients_never_silently_behind:
  assumes "(server_step W)\<^sup>*\<^sup>* new_server s" and "(n, x) \<in> set (sv_sessions s)"
  shows "length (ss_outbound x) \<le> 256 \<and>
    (ss_resync_pending x \<longrightarrow> ss_writing x) \<and>
    (\<exists>before dropped. ss_enqueued x = before @ since_resync (ss_written x @ ss_outbound x) @ dropped \<and>
       (\<not> ss_resync_pending x \<longrightarrow> dropped = []) \<and> (\<not> has_resync (ss_written x @ ss_outbound x) \<longrightarrow> before = [])) \<and>
    subseq (drop (ss_joined_at x) (sv_published s)) (ss_enqueued x @ ss_posts x)"
proof -
  have "server_inv new_server" by (simp add: server_inv_def new_server_def)
  from server_invD(1) [OF server_run.reachable_inv [OF assms(1) this] assms(2)]
  show ?thesis unfolding session_sound_def maximum_pending_messages_def by fastforce
qed

theorem clients_never_silently_behind_witness:
  "\<exists>s x. (server_step (sample_views False (JObject [])))\<^sup>*\<^sup>* new_server s \<and> (0, x) \<in> set (sv_sessions s) \<and> ss_writing x \<and>
     length (ss_outbound x) \<le> 256 \<and> subseq (sv_published s) (ss_enqueued x @ ss_posts x) \<and> sv_published s \<noteq> []"
proof -
  let ?W = "sample_views False (JObject [])"
  let ?join = "join_session 0 new_server" and ?update = "publish_order ?W 0 sample_order (join_session 0 new_server)"
  let ?run = "update_session 0 run_send (publish_order ?W 0 sample_order (join_session 0 new_server))"
  have 1: "server_step ?W new_server ?join" by (rule server_step.join) (simp add: new_server_def)
  have 2: "server_step ?W ?join ?update" by (rule server_step.order_updated)
  have 3: "server_step ?W ?update ?run" by (rule server_step.run)
  note into = converse_rtranclp_into_rtranclp [where r = "server_step ?W"]
  have run: "(server_step ?W)\<^sup>*\<^sup>* new_server ?run" by (rule into [OF 1 into [OF 2 into [OF 3 rtranclp.rtrancl_refl]]])
  obtain m where m: "?update = broadcast m ?join" by (simp add: publish_order_def)
  have x: "sv_sessions ?run = [(0, run_send (session_send m (new_session 0)))]" "sv_published ?run = [m]"
    unfolding m by (simp_all add: update_session_def broadcast_def join_session_def new_server_def)
  have "ss_writing (run_send (session_send m (new_session 0)))" "ss_joined_at (run_send (session_send m (new_session 0))) = 0"
    by (simp_all add: run_send_def session_send_def new_session_def session_write_next_def maximum_pending_messages_def Let_def)
  then show ?thesis
    using clients_never_silently_behind [OF run, of 0 "run_send (session_send m (new_session 0))"] x run by fastforce
qed

text \<open>A text that is not UTF-8 in the query of one request ends the process.\<close>

lemma request_terminates_server:
  "\<exists>g'. http_read (sample_views True (JObject [])) sample_api w files
     \<lparr>sq_method = ''GET'', sq_target = ''/api/v1/orders?venue=%ff'', sq_fields = [], sq_body = ''{}'', sq_keep_alive = True, sq_upgrade = False\<rparr> g =
     (g', Terminate (Json_exception ''invalid UTF-8 byte''))"
proof -
  let ?request = "\<lparr>sq_method = ''GET'', sq_target = ''/api/v1/orders?venue=%ff'', sq_fields = [], sq_body = ''{}'', sq_keep_alive = True,
    sq_upgrade = False\<rparr>"
  have "request_headers ?request = Map.empty" by (simp add: request_headers_def find_field_def List.map_filter_def)
  then have r: "api_request_of ?request = sample_request_for ''GET'' ''/api/v1/orders?venue=%ff''"
    by (simp add: api_request_of_def sample_request_for_def)
  obtain g1 where "handle (sample_views True (JObject [])) sample_api w (api_request_of ?request) g = (g1, Inl (Json_exception ''invalid UTF-8 byte''))"
    unfolding r using api_exception_escapes [of w g] by (metis prod.collapse)
  then show ?thesis by (simp add: http_read_def respond_def)
qed

end
