(* ===== verification/Abex_Cli.thy ===== *)
theory Abex_Cli
  imports Abex_Api
begin

text \<open>
  The terminal (\<open>src/cli/command_processor.cpp\<close>): words and options of a line, the commands over the gateway and the simulated venues,
  and the guidance on order sizes. What the commands learn from outside is the \<open>api_world\<close> of the REST interface.
\<close>

section \<open>Words\<close>

record tokenizer =
  tk_tokens :: "string list"
  tk_current :: "string option"
  tk_quote :: "char option"
  tk_escaped :: bool

definition tk_finish :: "tokenizer \<Rightarrow> tokenizer" where
  "tk_finish s = (case tk_current s of None \<Rightarrow> s | Some t \<Rightarrow> s\<lparr>tk_tokens := tk_tokens s @ [t], tk_current := None\<rparr>)"

definition tk_begin :: "tokenizer \<Rightarrow> tokenizer" where
  "tk_begin s = (case tk_current s of None \<Rightarrow> s\<lparr>tk_current := Some []\<rparr> | Some t \<Rightarrow> s)"

definition tk_push :: "char \<Rightarrow> tokenizer \<Rightarrow> tokenizer" where
  "tk_push c s = s\<lparr>tk_current := map_option (\<lambda>t. t @ [c]) (tk_current s)\<rparr>"

definition apostrophe :: char where "apostrophe = CHR 0x27"

definition quotation :: char where "quotation = CHR 0x22"

text \<open>Characters are stored only while a word is open, so that the stored text from its start on is the word.\<close>

definition tk_step :: "char \<Rightarrow> tokenizer \<Rightarrow> tokenizer" where
  "tk_step c s =
     (if tk_escaped s then (tk_push c (tk_begin s))\<lparr>tk_escaped := False\<rparr>
      else if c = CHR 0x5C then (tk_begin s)\<lparr>tk_escaped := True\<rparr>
      else case tk_quote s of
             Some q \<Rightarrow> if c = q then s\<lparr>tk_quote := None\<rparr> else tk_push c s
           | None \<Rightarrow>
               if c = apostrophe \<or> c = quotation then (tk_begin s)\<lparr>tk_quote := Some c\<rparr>
               else if is_space c then tk_finish s
               else tk_push c (tk_begin s))"

definition tokenize :: "string \<Rightarrow> string list result" where
  "tokenize line =
     (let s = fold tk_step line \<lparr>tk_tokens = [], tk_current = None, tk_quote = None, tk_escaped = False\<rparr>
      in if tk_escaped s \<or> tk_quote s \<noteq> None then Inl (Invalid_argument ''unterminated quote or escape'')
         else Inr (tk_tokens (tk_finish s)))"

section \<open>Options\<close>

type_synonym options = "(string \<times> string) list"

fun parse_options :: "string list \<Rightarrow> options \<Rightarrow> options result" where
  "parse_options [] opts = Inr opts"
| "parse_options (t # ts) opts =
     (if \<not> starts_with t ''--'' then Inl (Invalid_argument (''expected option, found: '' @ t))
      else let key = drop 2 t in
        if key = [] then Inl (Invalid_argument ''empty option name'')
        else case ts of
               [] \<Rightarrow> Inl (Invalid_argument (''missing value for --'' @ key))
             | v # rest \<Rightarrow>
                 if starts_with v ''--'' then Inl (Invalid_argument (''missing value for --'' @ key))
                 else if key \<in> fst ` set opts then Inl (Invalid_argument ''duplicate option'')
                 else parse_options rest (opts @ [(key, v)]))"

definition optional_option :: "options \<Rightarrow> string \<Rightarrow> string \<Rightarrow> string option" where
  "optional_option opts long_name short_name =
     (case map_of opts long_name of
        Some v \<Rightarrow> Some v
      | None \<Rightarrow> if short_name = [] then None else map_of opts short_name)"

definition required_option :: "options \<Rightarrow> string \<Rightarrow> string \<Rightarrow> string result" where
  "required_option opts long_name short_name =
     (case optional_option opts long_name short_name of
        Some v \<Rightarrow> Inr v
      | None \<Rightarrow> Inl (Invalid_argument (''missing required option --'' @ long_name)))"

definition option_or :: "options \<Rightarrow> string \<Rightarrow> string \<Rightarrow> string \<Rightarrow> string" where
  "option_or opts long_name short_name d = (case optional_option opts long_name short_name of None \<Rightarrow> d | Some v \<Rightarrow> v)"

definition option_with :: "(string \<Rightarrow> 'a result) \<Rightarrow> options \<Rightarrow> string \<Rightarrow> string \<Rightarrow> 'a option result" where
  "option_with read opts long_name short_name =
     (case optional_option opts long_name short_name of None \<Rightarrow> Inr None | Some t \<Rightarrow> rbind (read t) (\<lambda>x. Inr (Some x)))"

section \<open>Answers\<close>

record command_response =
  cr_output :: string
  cr_exit_requested :: bool

definition shown :: "'j view_json \<Rightarrow> 'j \<Rightarrow> command_response result" where
  "shown W j = rbind (vw_dump W j) (\<lambda>t. Inr \<lparr>cr_output = t, cr_exit_requested = False\<rparr>)"

definition cli_error :: "'j view_json \<Rightarrow> string \<Rightarrow> string \<Rightarrow> command_response result" where
  "cli_error W code message =
     shown W (w_object W [(''ok'', w_bool W False), (''code'', w_text W code), (''message'', w_text W message)])"

section \<open>Guidance on quantities\<close>

text \<open>The assets of an instrument: base and quote.\<close>

definition supported_instrument :: "string \<Rightarrow> (string \<times> string) result" where
  "supported_instrument smb =
     (let s = map to_upper smb
      in if s = ''BTC-USDT'' then Inr (''BTC'', ''USDT'')
         else if s = ''ETH-USDT'' then Inr (''ETH'', ''USDT'')
         else Inl (Invalid_argument ''unsupported instrument; balance guidance supports BTC-USDT and ETH-USDT''))"

definition cli_balance_floor :: "string \<Rightarrow> decimal result" where
  "cli_balance_floor t =
     (if CHR ''e'' \<in> set t \<or> CHR ''E'' \<in> set t
      then Inl (Invalid_argument ''venue balance uses unsupported scientific notation'')
      else let t' = (case split_first CHR ''.'' t of
                       None \<Rightarrow> t
                     | Some (whole, _) \<Rightarrow> take (length whole + 1 + precision) t)
           in parse (if t' = [] then ''0'' else t'))"

definition floor_to_step :: "decimal \<Rightarrow> decimal option \<Rightarrow> decimal" where
  "floor_to_step d step =
     (case step of
        None \<Rightarrow> d
      | Some s \<Rightarrow> if \<not> is_positive s then d else from_raw ((raw d sdiv raw s) * raw s))"

text \<open>\<open>None\<close>: the product leaves 64 bits, which is undefined in the code. So does what rests on it.\<close>

definition ceil_to_step :: "decimal \<Rightarrow> decimal option \<Rightarrow> decimal option" where
  "ceil_to_step d step =
     (case step of
        None \<Rightarrow> Some d
      | Some s \<Rightarrow>
          if \<not> is_positive s then Some d
          else let product = (raw d sdiv raw s + (if raw d smod raw s = 0 then 0 else 1)) * raw s
               in if in_int64 product then Some (from_raw product) else None)"

definition at_most :: "decimal option \<Rightarrow> decimal \<Rightarrow> decimal" where
  "at_most limit d = (case limit of None \<Rightarrow> d | Some x \<Rightarrow> if d > x then x else d)"

definition at_least :: "decimal option \<Rightarrow> decimal \<Rightarrow> decimal" where
  "at_least limit d = (case limit of None \<Rightarrow> d | Some x \<Rightarrow> if d < x then x else d)"

text \<open>The price is present unless the order sells.\<close>

definition guidance_maximum :: "side \<Rightarrow> order_type \<Rightarrow> decimal \<Rightarrow> decimal option \<Rightarrow> instrument_rules \<Rightarrow> decimal result" where
  "guidance_maximum sd ty usable prc rules =
     rbind (case (sd, prc) of (Buy, Some p) \<Rightarrow> decimal_div usable p | _ \<Rightarrow> Inr usable) (\<lambda>funded.
       let m1 = at_most (ir_maximum_quantity rules) funded;
           m2 = (if ty = Market then at_most (ir_market_maximum_quantity rules) m1 else m1);
           maximum_notional = (if ty = Market then ir_market_maximum_notional rules else ir_maximum_notional rules)
       in rbind (case (prc, maximum_notional) of
                   (Some p, Some n) \<Rightarrow> rbind (decimal_div n p) (\<lambda>q. Inr (at_most (Some q) m2))
                 | _ \<Rightarrow> Inr m2) (\<lambda>m3.
            let m4 = floor_to_step m3 (ir_quantity_step rules)
            in Inr (if ty = Market then floor_to_step m4 (ir_market_quantity_step rules) else m4)))"

definition notional_quantity :: "decimal \<Rightarrow> decimal \<Rightarrow> decimal result" where
  "notional_quantity n p =
     rbind (decimal_div n p) (\<lambda>q. rbind (decimal_mult q p) (\<lambda>back.
       if back < n then decimal_add q (from_raw 1) else Inr q))"

definition guidance_minimum :: "order_type \<Rightarrow> decimal option \<Rightarrow> instrument_rules \<Rightarrow> decimal result option" where
  "guidance_minimum ty prc rules =
     (let m1 = (case ir_minimum_quantity rules of None \<Rightarrow> 0 | Some q \<Rightarrow> q);
          m2 = (if ty = Market then at_least (ir_market_minimum_quantity rules) m1 else m1);
          minimum_notional = (if ty = Market then ir_market_minimum_notional rules else ir_minimum_notional rules)
      in case (case (prc, minimum_notional) of
                 (Some p, Some n) \<Rightarrow> rbind (notional_quantity n p) (\<lambda>q. Inr (at_least (Some q) m2))
               | _ \<Rightarrow> Inr m2) of
           Inl e \<Rightarrow> Some (Inl e)
         | Inr m3 \<Rightarrow>
             (case ceil_to_step m3 (ir_quantity_step rules) of
                None \<Rightarrow> None
              | Some m4 \<Rightarrow> map_option Inr (if ty = Market then ceil_to_step m4 (ir_market_quantity_step rules) else Some m4)))"

definition routeable :: "decimal \<Rightarrow> decimal \<Rightarrow> bool" where
  "routeable minimum maximum \<longleftrightarrow> maximum \<ge> minimum \<and> is_positive maximum"

definition guidance_price :: "options \<Rightarrow> decimal option result" where
  "guidance_price opts =
     rbind (option_with parse opts ''price'' []) (\<lambda>prc.
       case prc of
         Some p \<Rightarrow> if \<not> is_positive p then Inl (Invalid_argument ''--price must be positive'') else Inr prc
       | None \<Rightarrow> Inr None)"

definition guidance_inputs :: "options \<Rightarrow> string \<Rightarrow> balance_query_result \<Rightarrow> (decimal \<times> decimal \<times> decimal option) result" where
  "guidance_inputs opts currency balances =
     rbind (case find (\<lambda>b. ab_currency b = currency) (bs_balances (bq_snapshot balances)) of
              None \<Rightarrow> Inr 0 | Some b \<Rightarrow> cli_balance_floor (ab_available b)) (\<lambda>available.
     rbind (parse ''0.995'') (\<lambda>reserve.
     rbind (decimal_mult available reserve) (\<lambda>usable.
     rbind (guidance_price opts) (\<lambda>prc. Inr (available, usable, prc)))))"

definition guidance_range :: "'j view_json \<Rightarrow> decimal \<Rightarrow> decimal \<Rightarrow> (string \<times> 'j) list" where
  "guidance_range W minimum maximum =
     [(''minimumRouteableQuantity'', w_decimal W minimum), (''suggestedMaxQuantity'', w_decimal W maximum),
      (''routeable'', w_bool W (routeable minimum maximum)),
      (''message'', w_text W (if routeable minimum maximum
         then ''range satisfies current venue rules and keeps a 0.5% balance reserve''
         else ''available balance cannot meet the venue minimum order''))]"

definition quantity_guidance ::
    "'j view_json \<Rightarrow> options \<Rightarrow> side \<Rightarrow> order_type \<Rightarrow> string \<Rightarrow> balance_query_result \<Rightarrow> instrument_rules \<Rightarrow> 'j result option" where
  "quantity_guidance W opts sd ty currency balances rules =
     (case guidance_inputs opts currency balances of
        Inl e \<Rightarrow> Some (Inl e)
      | Inr (available, usable, prc) \<Rightarrow>
          let shared = [(''available'', w_decimal W available), (''reservePercent'', w_text W ''0.5'')] @
                       optional_entry ''referencePrice'' (w_decimal W) prc
          in if sd = Buy \<and> prc = None
             then Some (Inr (w_object W (shared @
               [(''message'', w_text W ''add --price PRICE to calculate the routeable buy quantity range'')])))
             else (case guidance_maximum sd ty usable prc rules of
                     Inl e \<Rightarrow> Some (Inl e)
                   | Inr maximum \<Rightarrow>
                       map_option (\<lambda>m. rbind m (\<lambda>minimum. Inr (w_object W (shared @ guidance_range W minimum maximum))))
                         (guidance_minimum ty prc rules)))"

section \<open>Commands\<close>

record cli_state =
  cl_gateway :: gateway
  cl_simulated :: "venue \<rightharpoonup> sim"

definition cli_place :: "'j view_json \<Rightarrow> api_config \<Rightarrow> api_world \<Rightarrow> options \<Rightarrow> gateway \<Rightarrow> gateway \<times> command_response result" where
  "cli_place W c w opts g =
     (case rbind (required_option opts ''client-order-id'' ''id'') (\<lambda>cid.
           rbind (rbind (required_option opts ''venue'' []) venue_from_string) (\<lambda>v.
           rbind (required_option opts ''symbol'' []) (\<lambda>smb.
           rbind (rbind (required_option opts ''side'' []) side_from_string) (\<lambda>sd.
           rbind (order_type_from_string (option_or opts ''type'' [] ''LIMIT'')) (\<lambda>ty.
           rbind (rbind (required_option opts ''quantity'' ''qty'') parse) (\<lambda>qty.
           rbind (time_in_force_from_string (option_or opts ''time-in-force'' ''tif'' ''GTC'')) (\<lambda>tif.
           rbind (option_with parse opts ''price'' []) (\<lambda>p.
             Inr \<lparr>rq_client_order_id = cid, rq_venue = v, rq_symbol = smb, rq_side = sd, rq_type = ty, rq_price = p,
                  rq_quantity = qty, rq_time_in_force = tif\<rparr>)))))))) of
        Inl e \<Rightarrow> (g, Inl e)
      | Inr request \<Rightarrow>
          (case place (ac_gateway c) (aw_command w) request g of
             (g1, Inl e) \<Rightarrow> (g1, Inl e)
           | (g1, Inr r) \<Rightarrow> (g1, shown W (operation_view W r))))"

definition cli_settled :: "'j view_json \<Rightarrow> api_world \<Rightarrow> gateway \<times> operation_result result \<Rightarrow> gateway \<times> command_response result" where
  "cli_settled W w outcome =
     (case outcome of
        (g1, Inl e) \<Rightarrow> (g1, Inl e)
      | (g1, Inr r) \<Rightarrow>
          let g2 = aw_flushed w g1;
              r' = (case op_order r of None \<Rightarrow> r | Some ord \<Rightarrow> r\<lparr>op_order := get_order g2 (client_order_id ord)\<rparr>)
          in (g2, shown W (operation_view W r')))"

definition cli_cancel :: "'j view_json \<Rightarrow> api_world \<Rightarrow> options \<Rightarrow> gateway \<Rightarrow> gateway \<times> command_response result" where
  "cli_cancel W w opts g =
     (case required_option opts ''client-order-id'' ''id'' of
        Inl e \<Rightarrow> (g, Inl e)
      | Inr cid \<Rightarrow>
          cli_settled W w (cancel (aw_command w)
            \<lparr>cx_client_order_id = cid, cx_request_id = option_or opts ''request-id'' [] []\<rparr> g))"

definition cli_amend :: "'j view_json \<Rightarrow> api_config \<Rightarrow> api_world \<Rightarrow> options \<Rightarrow> gateway \<Rightarrow> gateway \<times> command_response result" where
  "cli_amend W c w opts g =
     (case rbind (required_option opts ''client-order-id'' ''id'') (\<lambda>cid.
           rbind (option_with parse opts ''new-price'' ''price'') (\<lambda>p.
           rbind (option_with parse opts ''new-quantity'' ''qty'') (\<lambda>q.
             Inr \<lparr>am_client_order_id = cid, am_request_id = option_or opts ''request-id'' [] [], am_new_price = p,
                  am_new_quantity = q\<rparr>))) of
        Inl e \<Rightarrow> (g, Inl e)
      | Inr request \<Rightarrow> cli_settled W w (amend (ac_gateway c) (aw_command w) request g))"

definition cli_get :: "'j view_json \<Rightarrow> options \<Rightarrow> gateway \<Rightarrow> command_response result" where
  "cli_get W opts g =
     rbind (required_option opts ''client-order-id'' ''id'') (\<lambda>cid.
       case get_snapshot g cid of
         None \<Rightarrow> cli_error W ''ORDER_NOT_FOUND'' ''order does not exist''
       | Some ord \<Rightarrow> shown W (w_object W [(''ok'', w_bool W True), (''order'', order_view W ord)]))"

definition cli_list :: "'j view_json \<Rightarrow> options \<Rightarrow> gateway \<Rightarrow> command_response result" where
  "cli_list W opts g =
     rbind (option_with venue_from_string opts ''venue'' []) (\<lambda>v.
     rbind (option_with order_status_from_string opts ''status'' []) (\<lambda>st.
       shown W (w_object W
         [(''ok'', w_bool W True), (''orders'', vw_array W (map (order_view W) (list_snapshots g v st)))])))"

definition cli_balance_query ::
    "api_world \<Rightarrow> options \<Rightarrow>
     (string \<times> side \<times> order_type \<times> string \<times> balance_query_result \<times> instrument_rules_query_result) result" where
  "cli_balance_query w opts =
     rbind (rbind (required_option opts ''venue'' []) venue_from_string) (\<lambda>v.
     if optional_option opts ''currency'' ''ccy'' \<noteq> None
     then Inl (Invalid_argument ''select --symbol and --side; direct all-currency balance queries are disabled'')
     else
       rbind (required_option opts ''symbol'' []) (\<lambda>requested.
       let smb = map to_upper requested in
       rbind (supported_instrument smb) (\<lambda>(base, quote_asset).
       rbind (rbind (required_option opts ''side'' []) side_from_string) (\<lambda>sd.
       rbind (order_type_from_string (option_or opts ''type'' [] ''MARKET'')) (\<lambda>ty.
       let currency = (if sd = Buy then quote_asset else base) in
       rbind (aw_balances w v currency) (\<lambda>r.
       rbind (aw_rules w v smb) (\<lambda>rules_result. Inr (smb, sd, ty, currency, r, rules_result))))))))"

definition cli_balances ::
    "'j view_json \<Rightarrow> api_world \<Rightarrow> ('j \<Rightarrow> (string \<times> 'j) list \<Rightarrow> 'j) \<Rightarrow> options \<Rightarrow> command_response result option" where
  "cli_balances W w assign opts =
     (case cli_balance_query w opts of
        Inl e \<Rightarrow> Some (Inl e)
      | Inr (smb, sd, ty, currency, r, rules_result) \<Rightarrow>
          let shown_with = (\<lambda>guidance. shown W (assign (balance_view W r)
                ([(''symbol'', w_text W smb), (''side'', w_text W (side_to_string sd)), (''type'', w_text W (order_type_to_string ty)),
                  (''fundingCurrency'', w_text W currency), (''instrumentRules'', instrument_rules_view W rules_result)] @ guidance)))
          in if bq_ok r \<and> iq_ok rules_result
             then map_option (\<lambda>g. rbind g (\<lambda>j. shown_with [(''quantityGuidance'', j)]))
                    (quantity_guidance W opts sd ty currency r (iq_rules rules_result))
             else Some (shown_with []))"

definition cli_rules :: "'j view_json \<Rightarrow> api_world \<Rightarrow> options \<Rightarrow> command_response result" where
  "cli_rules W w opts =
     rbind (rbind (required_option opts ''venue'' []) venue_from_string) (\<lambda>v.
     rbind (required_option opts ''symbol'' []) (\<lambda>requested.
     rbind (supported_instrument (map to_upper requested)) (\<lambda>_.
     rbind (aw_rules w v (map to_upper requested)) (\<lambda>r. shown W (instrument_rules_view W r)))))"

definition cli_reconcile :: "'j view_json \<Rightarrow> api_world \<Rightarrow> options \<Rightarrow> gateway \<Rightarrow> gateway \<times> command_response result" where
  "cli_reconcile W w opts g =
     (case rbind (required_option opts ''venue'' []) venue_from_string of
        Inl e \<Rightarrow> (g, Inl e)
      | Inr v \<Rightarrow>
          (case reconcile (aw_reconcile_now w) (aw_reconcile_store w) v (aw_open_orders w) (aw_query w) g of
             (g1, r) \<Rightarrow> (g1, shown W (operation_view W r))))"

section \<open>Simulated venues\<close>

text \<open>\<open>None\<close>: the venue knows the order and the gateway does not, and an empty optional is read, which is undefined.\<close>

definition cli_simulate ::
    "'j view_json \<Rightarrow> api_world \<Rightarrow> sim_env \<Rightarrow> options \<Rightarrow> cli_state \<Rightarrow> cli_state \<times> command_response result option" where
  "cli_simulate W w env opts s =
     (case rbind (required_option opts ''venue'' []) venue_from_string of
        Inl e \<Rightarrow> (s, Some (Inl e))
      | Inr v \<Rightarrow>
          (case cl_simulated s v of
             None \<Rightarrow> (s, Some (cli_error W ''NOT_SIMULATED'' ''venue is using a live adapter''))
           | Some adapter \<Rightarrow>
               (case rbind (required_option opts ''client-order-id'' ''id'') (\<lambda>cid.
                     rbind (rbind (required_option opts ''status'' []) order_status_from_string) (\<lambda>st.
                     rbind (rbind (required_option opts ''filled'' []) parse) (\<lambda>filled.
                     rbind (option_with parse opts ''last-price'' ''price'') (\<lambda>last_price.
                     rbind (option_with stoull opts ''sequence'' ''seq'') (\<lambda>sequence.
                       Inr (cid, st, filled, last_price, sequence)))))) of
                  Inl e \<Rightarrow> (s, Some (Inl e))
                | Inr (cid, st, filled, last_price, sequence) \<Rightarrow>
                    (case sim_emit env cid st filled last_price (option_or opts ''event-id'' [] []) sequence adapter of
                       (Inl e, adapter1) \<Rightarrow> (s\<lparr>cl_simulated := (cl_simulated s)(v \<mapsto> adapter1)\<rparr>, Some (Inl e))
                     | (Inr emitted, adapter1) \<Rightarrow>
                         let s1 = s\<lparr>cl_simulated := (cl_simulated s)(v \<mapsto> adapter1)\<rparr>
                         in if \<not> emitted then (s1, Some (cli_error W ''ORDER_NOT_FOUND'' ''simulated order does not exist''))
                            else let s2 = s1\<lparr>cl_gateway := aw_flushed w (cl_gateway s1)\<rparr>
                                 in (s2, map_option (\<lambda>ord. shown W (w_object W
                                      [(''ok'', w_bool W True), (''order'', order_view W ord)])) (get_snapshot (cl_gateway s2) cid))))))"

definition cli_connection :: "'j view_json \<Rightarrow> string \<Rightarrow> options \<Rightarrow> cli_state \<Rightarrow> cli_state \<times> command_response result" where
  "cli_connection W command opts s =
     (case rbind (required_option opts ''venue'' []) venue_from_string of
        Inl e \<Rightarrow> (s, Inl e)
      | Inr v \<Rightarrow>
          (case cl_simulated s v of
             None \<Rightarrow> (s, cli_error W ''NOT_SIMULATED'' ''venue is using a live adapter'')
           | Some adapter \<Rightarrow>
               let adapter1 = (if command = ''disconnect'' then sim_disconnect adapter else sim_reconnect adapter)
               in (s\<lparr>cl_simulated := (cl_simulated s)(v \<mapsto> adapter1)\<rparr>,
                   shown W (w_object W [(''ok'', w_bool W True), (''venue'', w_text W (venue_to_string v)),
                     (''connected'', w_bool W (sim_connected adapter1))]))))"

section \<open>Lines\<close>

definition help_text :: string where
  "help_text = concat (map (\<lambda>l. l @ [CHR 0x0A])
     [''ABEX exchange gateway CLI'',
      '''',
      ''Commands:'',
      ''  place --id ID --venue OKX|BINANCE --symbol BTC-USDT --side BUY|SELL'',
      ''        --type LIMIT|MARKET [--price PRICE] --qty QUANTITY [--tif GTC|IOC|FOK]'',
      ''  cancel --id ID [--request-id ID]'',
      ''  amend --id ID [--request-id ID] [--new-price PRICE] [--new-quantity QUANTITY]'',
      ''  get --id ID'',
      ''  list [--venue VENUE] [--status STATUS]'',
      ''  positions'',
      ''  balances --venue OKX|BINANCE --symbol BTC-USDT|ETH-USDT --side BUY|SELL'',
      ''           [--type LIMIT|MARKET] [--price PRICE]'',
      ''  rules --venue OKX|BINANCE --symbol BTC-USDT|ETH-USDT'',
      ''  health'',
      ''  reconcile --venue VENUE'',
      '''',
      ''Simulation-only operations:'',
      ''  simulate --venue VENUE --id ID --status STATUS --filled QUANTITY'',
      ''           [--last-price PRICE] [--event-id ID] [--sequence N]'',
      ''  disconnect --venue VENUE'',
      ''  reconnect --venue VENUE'',
      '''',
      ''  help'',
      ''  exit''])"

definition on_gateway :: "(gateway \<Rightarrow> gateway \<times> command_response result) \<Rightarrow> cli_state \<Rightarrow> cli_state \<times> command_response result option" where
  "on_gateway f s = (case f (cl_gateway s) of (g, r) \<Rightarrow> (s\<lparr>cl_gateway := g\<rparr>, Some r))"

definition run_command ::
    "'j view_json \<Rightarrow> api_config \<Rightarrow> api_world \<Rightarrow> sim_env \<Rightarrow> ('j \<Rightarrow> (string \<times> 'j) list \<Rightarrow> 'j) \<Rightarrow> string \<Rightarrow> options \<Rightarrow> cli_state \<Rightarrow>
     cli_state \<times> command_response result option" where
  "run_command W c w env assign command opts s =
     (let g = cl_gateway s in
      if command = ''place'' then on_gateway (cli_place W c w opts) s
      else if command = ''cancel'' then on_gateway (cli_cancel W w opts) s
      else if command = ''amend'' then on_gateway (cli_amend W c w opts) s
      else if command = ''get'' then (s, Some (cli_get W opts g))
      else if command = ''list'' then (s, Some (cli_list W opts g))
      else if command = ''positions''
      then (s, Some (shown W (w_object W [(''ok'', w_bool W True), (''positions'', positions_view W (positions_snapshot g))])))
      else if command = ''balance'' \<or> command = ''balances'' then (s, cli_balances W w assign opts)
      else if command = ''rules'' \<or> command = ''instrument'' then (s, Some (cli_rules W w opts))
      else if command = ''health''
      then (s, Some (shown W (w_object W
             [(''ok'', w_bool W True), (''venues'', venues_view W (map (\<lambda>v. (v, health_view g v)) (ac_venues c)))])))
      else if command = ''reconcile'' then on_gateway (cli_reconcile W w opts) s
      else if command = ''simulate'' then cli_simulate W w env opts s
      else if command = ''disconnect'' \<or> command = ''reconnect''
      then (case cli_connection W command opts s of (s1, r) \<Rightarrow> (s1, Some r))
      else (s, Some (cli_error W ''UNKNOWN_COMMAND'' (''unknown command: '' @ command))))"

definition execute ::
    "'j view_json \<Rightarrow> api_config \<Rightarrow> api_world \<Rightarrow> sim_env \<Rightarrow> ('j \<Rightarrow> (string \<times> 'j) list \<Rightarrow> 'j) \<Rightarrow> string \<Rightarrow> cli_state \<Rightarrow>
     cli_state \<times> command_response result option" where
  "execute W c w env assign line s =
     (case (case tokenize line of
              Inl e \<Rightarrow> (s, Some (Inl e))
            | Inr [] \<Rightarrow> (s, Some (Inr \<lparr>cr_output = [], cr_exit_requested = False\<rparr>))
            | Inr (command # rest) \<Rightarrow>
                if command = ''exit'' \<or> command = ''quit'' then (s, Some (Inr \<lparr>cr_output = [], cr_exit_requested = True\<rparr>))
                else if command = ''help'' then (s, Some (Inr \<lparr>cr_output = help_text, cr_exit_requested = False\<rparr>))
                else (case parse_options rest [] of
                        Inl e \<Rightarrow> (s, Some (Inl e))
                      | Inr opts \<Rightarrow> run_command W c w env assign command opts s)) of
        (s1, Some (Inl e)) \<Rightarrow> (s1, Some (cli_error W ''INVALID_COMMAND'' (what e)))
      | (s1, r) \<Rightarrow> (s1, r))"

end
