(* ===== verification/Abex_Cli_Props.thy ===== *)
theory Abex_Cli_Props
  imports Abex_Cli Abex_Protocol_Props
begin

text \<open>
  What the terminal promises: every command can be written as a line that is read back exactly, and the range of quantities
  that the guidance suggests passes the rules of the venue.
\<close>

section \<open>Lines\<close>

definition protect_char :: "char \<Rightarrow> string" where
  "protect_char c = (if c = apostrophe \<or> c = CHR 0x5C then [CHR 0x5C, c] else [c])"

definition quote_word :: "string \<Rightarrow> string" where
  "quote_word w = [apostrophe] @ concat (map protect_char w) @ [apostrophe]"

definition quote_line :: "string list \<Rightarrow> string" where
  "quote_line ws = concat (map (\<lambda>w. quote_word w @ '' '') ws)"

definition token_state :: "string list \<Rightarrow> string option \<Rightarrow> char option \<Rightarrow> tokenizer" where
  "token_state ws cur q = \<lparr>tk_tokens = ws, tk_current = cur, tk_quote = q, tk_escaped = False\<rparr>"

lemmas tk_defs = tk_step_def tk_begin_def tk_push_def tk_finish_def apostrophe_def quotation_def token_state_def

lemma quoted_char_read:
  "fold tk_step (protect_char c) (token_state ws (Some t) (Some apostrophe)) = token_state ws (Some (t @ [c])) (Some apostrophe)"
  by (simp add: protect_char_def tk_defs)

lemma quoted_chars_read:
  "fold tk_step (concat (map protect_char w)) (token_state ws (Some t) (Some apostrophe)) = token_state ws (Some (t @ w)) (Some apostrophe)"
  by (induction w arbitrary: t) (simp_all add: quoted_char_read)

lemma quoted_word_read: "fold tk_step (quote_word w @ '' '') (token_state ws None None) = token_state (ws @ [w]) None None"
proof -
  have "tk_step apostrophe (token_state ws None None) = token_state ws (Some []) (Some apostrophe)"
    "tk_step apostrophe (token_state ws (Some w) (Some apostrophe)) = token_state ws (Some w) None"
    "tk_step CHR '' '' (token_state ws (Some w) None) = token_state (ws @ [w]) None None"
    by (simp_all add: tk_defs is_space_def)
  then show ?thesis by (simp add: quote_word_def quoted_chars_read)
qed

lemma quoted_line_read: "fold tk_step (quote_line ws) (token_state us None None) = token_state (us @ ws) None None"
proof (induction ws arbitrary: us)
  case (Cons w ws)
  have "quote_line (w # ws) = quote_word w @ '' '' @ quote_line ws" by (simp add: quote_line_def)
  then show ?case using quoted_word_read [of w us] by (simp add: Cons)
qed (simp add: quote_line_def)

lemma tokenize_quoted: "tokenize (quote_line ws) = Inr ws"
  using quoted_line_read [of ws "[]"] by (simp add: tokenize_def token_state_def tk_finish_def)

definition option_words :: "options \<Rightarrow> string list" where
  "option_words opts = concat (map (\<lambda>(k, v). [''--'' @ k, v]) opts)"

definition options_valid :: "options \<Rightarrow> bool" where
  "options_valid opts \<longleftrightarrow> distinct (map fst opts) \<and> (\<forall>(k, v) \<in> set opts. k \<noteq> [] \<and> \<not> starts_with v ''--'')"

lemma options_read:
  assumes "options_valid opts" "set (map fst opts) \<inter> fst ` set before = {}"
  shows "parse_options (option_words opts) before = Inr (before @ opts)"
  using assms
proof (induction opts arbitrary: before)
  case (Cons kv opts)
  obtain k v where kv: "kv = (k, v)" by fastforce
  have "options_valid opts" using Cons.prems(1) by (auto simp: options_valid_def)
  moreover have "set (map fst opts) \<inter> fst ` set (before @ [(k, v)]) = {}"
    using Cons.prems by (auto simp: options_valid_def kv)
  ultimately have "parse_options (option_words opts) (before @ [(k, v)]) = Inr ((before @ [(k, v)]) @ opts)"
    by (rule Cons.IH)
  then show ?case using Cons.prems by (auto simp: option_words_def kv options_valid_def starts_with_def)
qed (simp add: option_words_def)

text \<open>C33. A command and its options can be given to the terminal whatever characters they contain: the line that quotes every
  word, with a backslash before apostrophes and backslashes, is read back as exactly these words, and the command runs on exactly
  these options, in this order. So no venue id or client order id is cut, joined with its neighbour or taken for another option,
  and the answer is that of the command, or the message of its exception.\<close>

theorem cli_line_roundtrip:
  assumes "options_valid opts" "command \<notin> {''exit'', ''quit'', ''help''}"
  shows "execute W c w env assign (quote_line (command # option_words opts)) s =
           (case run_command W c w env assign command opts s of
              (s1, Some (Inl e)) \<Rightarrow> (s1, Some (cli_error W ''INVALID_COMMAND'' (what e)))
            | r \<Rightarrow> r)"
  using options_read [OF assms(1), of "[]"] assms(2)
  by (simp add: execute_def tokenize_quoted split: prod.split option.split sum.split)

theorem cli_line_roundtrip_witness:
  "\<forall>W c w env assign s. execute W c w env assign (quote_line [''get'', ''--id'', ''it'' @ [apostrophe] @ ''s a --test'']) s =
     (case run_command W c w env assign ''get'' [(''id'', ''it'' @ [apostrophe] @ ''s a --test'')] s of
        (s1, Some (Inl e)) \<Rightarrow> (s1, Some (cli_error W ''INVALID_COMMAND'' (what e)))
      | r \<Rightarrow> r)"
proof -
  let ?opts = "[(''id'', ''it'' @ [apostrophe] @ ''s a --test'')]"
  have valid: "options_valid ?opts" and line: "''get'' # option_words ?opts = [''get'', ''--id'', ''it'' @ [apostrophe] @ ''s a --test'']"
    by (simp_all add: options_valid_def starts_with_def option_words_def)
  show ?thesis unfolding line [symmetric] by (intro allI, rule cli_line_roundtrip [OF valid]) simp
qed

section \<open>Suggested quantities\<close>

lemma sdiv_nonneg: "0 \<le> a \<Longrightarrow> 0 < b \<Longrightarrow> a sdiv b = a div b" for a b :: int
  by (simp add: signed_divide_int_def sgn_if abs_of_nonneg)

lemma smod_nonneg: "0 \<le> a \<Longrightarrow> 0 < b \<Longrightarrow> a smod b = a mod b" for a b :: int
  by (simp add: smod_int_alt_def sgn_if)

lemma at_most_bounds:
  "at_most limit d \<le> d" "d' \<le> at_most limit d \<Longrightarrow> \<not> above d' limit"
  by (auto simp: at_most_def above_def le_decimal_iff less_decimal_iff split: option.splits if_splits)

lemma floor_to_step_bounds:
  assumes "0 \<le> raw d"
  shows "floor_to_step d step \<le> d" "0 \<le> raw (floor_to_step d step)" "\<not> violates_step (floor_to_step d step) step"
proof -
  have "0 \<le> raw d div k" "k * (raw d div k) \<le> raw d" if "0 < k" for k
    using assms that mult_div_mod_eq [of k "raw d"] pos_mod_sign [of k "raw d"] by (simp add: pos_imp_zdiv_nonneg_iff, linarith)
  then show "floor_to_step d step \<le> d" "0 \<le> raw (floor_to_step d step)" "\<not> violates_step (floor_to_step d step) step"
    using assms
    by (auto simp: floor_to_step_def violates_step_def is_positive_def from_raw_def le_decimal_iff sdiv_nonneg smod_nonneg
        minus_mult_div_eq_mod algebra_simps split: option.splits)
qed

lemma ceil_to_step_bounds:
  assumes "0 \<le> raw d" "ceil_to_step d step = Some c"
  shows "d \<le> c" "0 \<le> raw c" "\<not> violates_step c step"
proof -
  have up: "raw d \<le> (raw d div k + (if raw d mod k = 0 then 0 else 1)) * k" if "0 < k" for k
  proof -
    have "raw d \<le> raw d div k * k + (if raw d mod k = 0 then 0 else k)"
      using pos_mod_bound [OF that, of "raw d"] div_mult_mod_eq [of "raw d" k] by (simp, linarith)
    then show ?thesis by (simp add: distrib_right split: if_splits)
  qed
  have c: "c = (case step of None \<Rightarrow> d | Some s \<Rightarrow> if \<not> is_positive s then d
      else from_raw ((raw d sdiv raw s + (if raw d smod raw s = 0 then 0 else 1)) * raw s))"
    using assms(2) by (auto simp: ceil_to_step_def Let_def split: option.splits if_splits)
  show le: "d \<le> c"
    using assms(1) up
    by (auto simp: c is_positive_def from_raw_def le_decimal_iff sdiv_nonneg smod_nonneg split: option.splits)
  show "0 \<le> raw c" using le assms(1) by (simp add: le_decimal_iff)
  then show "\<not> violates_step c step"
    by (auto simp: c violates_step_def is_positive_def from_raw_def smod_nonneg split: option.splits if_splits)
qed

text \<open>Truncated division by a positive price is the largest quantity whose value does not exceed the amount.\<close>

lemma quantity_for_amount:
  assumes "decimal_div amount p = Inr q" "0 \<le> raw amount" "0 < raw p"
  shows "0 \<le> raw q" "raw x \<le> raw q \<Longrightarrow> raw x * raw p \<le> raw amount * scale" "raw q < raw x \<Longrightarrow> raw amount * scale < raw x * raw p"
proof -
  have wide: "0 \<le> raw amount * scale" using assms(2) by (simp add: scale_def)
  then have q: "raw q = raw amount * scale div raw p"
    using assms sdiv_nonneg [OF wide, of "raw p"] by (simp add: decimal_div_eq_Inr_iff)
  show "0 \<le> raw q" using wide assms(3) by (simp add: q pos_imp_zdiv_nonneg_iff)
  show "raw x * raw p \<le> raw amount * scale" if "raw x \<le> raw q"
  proof -
    have "raw x * raw p \<le> raw q * raw p" using that assms(3) by (simp add: mult_right_mono)
    also have "\<dots> \<le> raw amount * scale"
      using div_mult_mod_eq [of "raw amount * scale" "raw p"] pos_mod_sign [OF assms(3), of "raw amount * scale"] unfolding q by linarith
    finally show ?thesis .
  qed
  show "raw amount * scale < raw x * raw p" if "raw q < raw x"
  proof -
    have "raw amount * scale < (raw q + 1) * raw p"
      using pos_mod_bound [OF assms(3), of "raw amount * scale"] div_mult_mod_eq [of "raw amount * scale" "raw p"]
      unfolding q distrib_right by linarith
    also have "\<dots> \<le> raw x * raw p" using that assms(3) by (simp add: mult_right_mono)
    finally show ?thesis .
  qed
qed

lemma notional_quantity_enough:
  assumes "notional_quantity amount p = Inr q" "0 \<le> raw amount" "0 < raw p" "q \<le> x"
  shows "0 \<le> raw q" "raw amount * scale \<le> raw x * raw p \<or> raw amount \<le> raw x * raw p div scale"
proof -
  obtain q0 worth where q0: "decimal_div amount p = Inr q0" and worth: "decimal_mult q0 p = Inr worth"
    and q: "(if worth < amount then decimal_add q0 (from_raw 1) else Inr q0) = Inr q"
    using assms(1) unfolding notional_quantity_def by (elim rbind_InrE)
  note bound = quantity_for_amount [OF q0 assms(2,3)]
  have "0 \<le> raw q0 * raw p" using bound(1) assms(3) by simp
  then have worth': "raw worth = raw q0 * raw p div scale"
    using worth sdiv_nonneg [of "raw q0 * raw p" scale] by (simp add: decimal_mult_eq_Inr_iff)
  show "0 \<le> raw q" using q bound(1) by (auto simp: decimal_add_eq_Inr_iff from_raw_def split: if_splits)
  show "raw amount * scale \<le> raw x * raw p \<or> raw amount \<le> raw x * raw p div scale"
  proof (cases "worth < amount")
    case True
    then have "raw q0 < raw x" using q assms(4) by (auto simp: decimal_add_eq_Inr_iff from_raw_def le_decimal_iff)
    then show ?thesis using bound(3) [of x] by simp
  next
    case False
    then have "raw q0 * raw p \<le> raw x * raw p" "raw amount \<le> raw worth"
      using q assms(3,4) by (auto simp: le_decimal_iff less_decimal_iff mult_right_mono)
    then show ?thesis using zdiv_mono1 [of "raw q0 * raw p" "raw x * raw p" scale] by (simp add: worth')
  qed
qed

text \<open>The quantities up to the suggested maximum, for a limit order at a positive price.\<close>

lemma suggested_maximum:
  assumes "guidance_maximum sd Limit usable (Some p) r = Inr mx" "rules_ok r" "0 < raw p" "0 \<le> raw usable" "x \<le> mx"
  shows "0 \<le> raw mx" "\<not> violates_step mx (ir_quantity_step r)" "\<not> above x (ir_maximum_quantity r)"
    "ir_maximum_notional r = Some n \<Longrightarrow> raw x * raw p \<le> raw n * scale"
    "sd = Buy \<Longrightarrow> raw x * raw p \<le> raw usable * scale" "sd = Sell \<Longrightarrow> x \<le> usable"
proof -
  let ?funded = "case sd of Buy \<Rightarrow> decimal_div usable p | Sell \<Rightarrow> Inr usable"
  obtain funded m3 where funded: "?funded = Inr funded"
    and m3: "(case ir_maximum_notional r of None \<Rightarrow> Inr (at_most (ir_maximum_quantity r) funded)
              | Some n \<Rightarrow> rbind (decimal_div n p) (\<lambda>q. Inr (at_most (Some q) (at_most (ir_maximum_quantity r) funded)))) = Inr m3"
    and mx: "mx = floor_to_step m3 (ir_quantity_step r)"
    using assms(1) unfolding guidance_maximum_def Let_def
    by (cases sd) (auto elim!: rbind_InrE split: option.splits)
  have pos: "limit_ok (ir_maximum_quantity r)" "limit_ok (ir_maximum_notional r)" using assms(2) by (simp_all add: rules_ok_def)
  have funded_nonneg: "0 \<le> raw funded"
    using funded quantity_for_amount(1) [of usable p] assms(3,4) by (cases sd) auto
  have m3_nonneg: "0 \<le> raw m3"
    using m3 funded_nonneg pos quantity_for_amount(1) [of _ p] assms(3)
    by (auto simp: at_most_def is_positive_def elim!: rbind_InrE split: option.splits if_splits)
  note floor = floor_to_step_bounds [OF m3_nonneg, of "ir_quantity_step r"]
  show "0 \<le> raw mx" "\<not> violates_step mx (ir_quantity_step r)" using floor mx by simp_all
  have x: "x \<le> m3" using assms(5) floor(1) mx by simp
  have m3_le: "m3 \<le> at_most (ir_maximum_quantity r) funded"
    using m3 by (auto simp: at_most_def elim!: rbind_InrE split: option.splits if_splits)
  then have x_le: "x \<le> at_most (ir_maximum_quantity r) funded" using x by (rule order_trans [rotated])
  then show "\<not> above x (ir_maximum_quantity r)" by (rule at_most_bounds)
  show "raw x * raw p \<le> raw n * scale" if n: "ir_maximum_notional r = Some n"
  proof -
    obtain q where q: "decimal_div n p = Inr q" "m3 \<le> q"
      using m3 n by (auto simp: at_most_def elim!: rbind_InrE split: if_splits)
    then show ?thesis using quantity_for_amount(2) [of n p q x] x n pos assms(3) by (simp add: is_positive_def le_decimal_iff)
  qed
  have "x \<le> funded" using x_le at_most_bounds(1) by (rule order_trans)
  then show "sd = Buy \<Longrightarrow> raw x * raw p \<le> raw usable * scale" "sd = Sell \<Longrightarrow> x \<le> usable"
    using funded quantity_for_amount(2) [of usable p funded x] assms(3,4) by (auto simp: le_decimal_iff)
qed

text \<open>The quantities from the suggested minimum on.\<close>

lemma suggested_minimum:
  assumes "guidance_minimum Limit (Some p) r = Some (Inr mn)" "rules_ok r" "0 < raw p" "mn \<le> x"
  shows "0 \<le> raw mn" "\<not> violates_step mn (ir_quantity_step r)" "\<not> below x (ir_minimum_quantity r)"
    "ir_minimum_notional r = Some n \<Longrightarrow> raw n \<le> raw x * raw p div scale"
proof -
  let ?m1 = "case ir_minimum_quantity r of None \<Rightarrow> 0 | Some q \<Rightarrow> q"
  obtain m3 where m3: "(case ir_minimum_notional r of None \<Rightarrow> Inr ?m1
      | Some n \<Rightarrow> rbind (notional_quantity n p) (\<lambda>q. Inr (at_least (Some q) ?m1))) = Inr m3"
    and mn: "ceil_to_step m3 (ir_quantity_step r) = Some mn"
    using assms(1) unfolding guidance_minimum_def Let_def by (auto split: option.splits sum.splits)
  have pos: "limit_ok (ir_minimum_quantity r)" "limit_ok (ir_minimum_notional r)" using assms(2) by (simp_all add: rules_ok_def)
  have m1_nonneg: "0 \<le> raw ?m1" using pos(1) by (auto simp: is_positive_def split: option.splits)
  have m1_le: "?m1 \<le> m3" using m3 by (auto simp: at_least_def elim!: rbind_InrE split: option.splits if_splits)
  then have m3_nonneg: "0 \<le> raw m3" using m1_nonneg by (simp add: le_decimal_iff)
  note ceil = ceil_to_step_bounds [OF m3_nonneg mn]
  show "0 \<le> raw mn" "\<not> violates_step mn (ir_quantity_step r)" using ceil by simp_all
  have x: "m3 \<le> x" using ceil(1) assms(4) by simp
  then have "?m1 \<le> x" using m1_le by simp
  then show "\<not> below x (ir_minimum_quantity r)" by (auto simp: below_def split: option.splits)
  show "raw n \<le> raw x * raw p div scale" if n: "ir_minimum_notional r = Some n"
  proof -
    obtain q where q: "notional_quantity n p = Inr q" "q \<le> m3"
      using m3 n by (auto simp: at_least_def elim!: rbind_InrE split: if_splits)
    then have "raw n * scale \<le> raw x * raw p \<or> raw n \<le> raw x * raw p div scale"
      using notional_quantity_enough(2) [of n p q x] x n pos(2) assms(3) by (simp add: is_positive_def)
    then show ?thesis using zdiv_mono1 [of "raw n * scale" "raw x * raw p" scale] by auto
  qed
qed

text \<open>C32. The guidance on quantities keeps its word for limit orders whose price is given. Let it answer, without leaving 64 bits, with a
  routeable range for a positive \<open>--price\<close> and rules as the venues give them (positive limits, the instrument is trading). Then the suggested maximum is a multiple of the
  quantity step, and every multiple of the step in the range, sent as a limit order at this price, passes the rules of the venue
  when the price itself passes their price range and tick and the value of the order can be represented; a purchase in the range never
  costs more than the usable balance, and its value can be represented; a sale never exceeds the usable balance. (Without a
  price a sale is not checked against the minimum value, see \<open>sale_guidance_ignores_minimum_value\<close>.)\<close>

theorem guidance_passes_rules:
  assumes "guidance_maximum sd Limit usable (Some p) (iq_rules query) = Inr mx"
    and "guidance_minimum Limit (Some p) (iq_rules query) = Some (Inr mn)" "routeable mn mx"
    and "rules_ok (iq_rules query)" "is_positive p" "0 \<le> usable" "in_int64 (raw usable)"
    and "iq_ok query" "ir_symbol (iq_rules query) = rq_symbol request" "ir_trading (iq_rules query)"
    and "rq_type request = Limit" "rq_price request = Some p" "check_price_range request (iq_rules query) = None"
    and "mn \<le> rq_quantity request" "rq_quantity request \<le> mx"
    and "\<not> violates_step (rq_quantity request) (ir_quantity_step (iq_rules query))"
  shows "\<not> violates_step mx (ir_quantity_step (iq_rules query)) \<and>
    (\<forall>worth. decimal_mult (rq_quantity request) p = Inr worth \<longrightarrow> instrument_rules_decision request eprice query = Inr risk_accept) \<and>
    (sd = Buy \<longrightarrow> (\<exists>cost. decimal_mult (rq_quantity request) p = Inr cost \<and> cost \<le> usable)) \<and>
    (sd = Sell \<longrightarrow> rq_quantity request \<le> usable)"
proof (intro conjI allI impI)
  let ?r = "iq_rules query" and ?q = "rq_quantity request"
  have p: "0 < raw p" and u: "0 \<le> raw usable" using assms(5,6) by (simp_all add: is_positive_def le_decimal_iff)
  note top = suggested_maximum [OF assms(1,4) p u assms(15)] and bottom = suggested_minimum [OF assms(2,4) p assms(14)]
  show "\<not> violates_step mx (ir_quantity_step ?r)" by (rule top)
  have "0 \<le> raw ?q" using bottom(1) assms(14) by (simp add: le_decimal_iff)
  then have product: "(raw ?q * raw p) sdiv scale = raw ?q * raw p div scale" "0 \<le> raw ?q * raw p div scale"
    using p by (simp_all add: sdiv_nonneg pos_imp_zdiv_nonneg_iff)
  have limit: "raw ?q * raw p div scale \<le> raw n" if "raw ?q * raw p \<le> raw n * scale" for n
    using zdiv_mono1 [OF that, of scale] by simp
  show "instrument_rules_decision request eprice query = Inr risk_accept" if worth: "decimal_mult ?q p = Inr worth" for worth
  proof -
    have w: "raw worth = raw ?q * raw p div scale" using worth product by (simp add: decimal_mult_eq_Inr_iff)
    have "\<not> below worth (ir_minimum_notional ?r)"
      using bottom(4) by (fastforce simp: below_def less_decimal_iff w split: option.splits)
    moreover have "\<not> above worth (ir_maximum_notional ?r)"
      using top(4) limit by (fastforce simp: above_def less_decimal_iff w split: option.splits)
    ultimately have "check_notional_range request eprice ?r = Inr risk_accept"
      using assms(11,12) worth by (simp add: check_notional_range_def)
    moreover have "check_quantity_range request (ir_minimum_quantity ?r) (ir_maximum_quantity ?r) (ir_quantity_step ?r) scope = None" for scope
      using top(3) bottom(3) assms(16) by (simp add: check_quantity_range_def)
    ultimately show ?thesis using assms(8-11,13) by (simp add: instrument_rules_decision_def)
  qed
  show "\<exists>cost. decimal_mult ?q p = Inr cost \<and> cost \<le> usable" if "sd = Buy"
  proof -
    have "raw ?q * raw p div scale \<le> raw usable" using top(5) [OF that] by (rule limit)
    then show ?thesis using product assms(7)
      by (intro exI [of _ "Decimal (raw ?q * raw p div scale)"])
        (simp add: decimal_mult_eq_Inr_iff le_decimal_iff in_int64_def int64_bounds)
  qed
  show "?q \<le> usable" if "sd = Sell" using top(6) [OF that] .
qed

definition guidance_rules :: instrument_rules where
  "guidance_rules = (no_rules Okx)\<lparr>ir_symbol := ''BTC-USDT'', ir_trading := True, ir_quantity_step := Some (Decimal 1000),
     ir_minimum_notional := Some (Decimal 1000000000)\<rparr>"

definition limit_purchase :: "decimal \<Rightarrow> order_request" where
  "limit_purchase q = \<lparr>rq_client_order_id = ''a'', rq_venue = Okx, rq_symbol = ''BTC-USDT'', rq_side = Buy, rq_type = Limit,
     rq_price = Some (Decimal 6000000000000), rq_quantity = q, rq_time_in_force = Gtc\<rparr>"

text \<open>One hundred dollars at a price of 60000, steps of 0.00001 and at least ten dollars: from 0.00017 to 0.00166.\<close>

theorem guidance_passes_rules_witness:
  "guidance_maximum Buy Limit (Decimal 10000000000) (Some (Decimal 6000000000000)) guidance_rules = Inr (Decimal 166000) \<and>
   guidance_minimum Limit (Some (Decimal 6000000000000)) guidance_rules = Some (Inr (Decimal 17000)) \<and>
   instrument_rules_decision (limit_purchase (Decimal 166000)) None
     \<lparr>iq_ok = True, iq_code = [], iq_message = [], iq_rules = guidance_rules\<rparr> = Inr risk_accept"
proof -
  let ?p = "Decimal 6000000000000" and ?u = "Decimal 10000000000" and ?q = "limit_purchase (Decimal 166000)"
  let ?query = "\<lparr>iq_ok = True, iq_code = [], iq_message = [], iq_rules = guidance_rules\<rparr>"
  note arithmetic = decimal_div_def decimal_mult_def decimal_add_def checked_from_wide_def int64_bounds scale_def sdiv_nonneg smod_nonneg
    from_raw_def is_positive_def zero_decimal_def less_decimal_iff le_decimal_iff guidance_rules_def no_rules_def limit_purchase_def
  have mx: "guidance_maximum Buy Limit ?u (Some ?p) (iq_rules ?query) = Inr (Decimal 166000)"
    by (simp add: guidance_maximum_def floor_to_step_def at_most_def arithmetic)
  have mn: "guidance_minimum Limit (Some ?p) (iq_rules ?query) = Some (Inr (Decimal 17000))"
    by (simp add: guidance_minimum_def notional_quantity_def ceil_to_step_def at_least_def in_int64_def Let_def arithmetic)
  have "rules_ok (iq_rules ?query)" "check_price_range ?q (iq_rules ?query) = None" "in_int64 (raw ?u)"
    "routeable (Decimal 17000) (Decimal 166000)" "\<not> violates_step (rq_quantity ?q) (ir_quantity_step (iq_rules ?query))"
    by (simp_all add: rules_ok_def check_price_range_def below_def above_def violates_step_def routeable_def in_int64_def arithmetic)
  moreover have "decimal_mult (rq_quantity ?q) ?p = Inr (Decimal 9960000000)" by (simp add: arithmetic)
  ultimately have "instrument_rules_decision ?q None ?query = Inr risk_accept"
    using guidance_passes_rules [OF mx mn, of ?q None] by (simp add: arithmetic)
  then show ?thesis using mx mn by simp
qed

text \<open>The range for market orders can break the rules it is said to satisfy: rounding down to the step of market orders undoes the
  rounding to the general step, and the preflight check of the gateway refuses the suggested quantity.\<close>

definition two_step_rules :: instrument_rules where
  "two_step_rules = (no_rules Okx)\<lparr>ir_symbol := ''BTC-USDT'', ir_trading := True, ir_quantity_step := Some (Decimal 3),
     ir_market_quantity_step := Some (Decimal 2)\<rparr>"

definition market_sale :: "decimal \<Rightarrow> order_request" where
  "market_sale q = \<lparr>rq_client_order_id = ''a'', rq_venue = Okx, rq_symbol = ''BTC-USDT'', rq_side = Sell, rq_type = Market,
     rq_price = None, rq_quantity = q, rq_time_in_force = Gtc\<rparr>"

lemma market_guidance_breaks_rules:
  "rules_ok two_step_rules \<and> guidance_maximum Sell Market (Decimal 10) None two_step_rules = Inr (Decimal 8) \<and>
   guidance_minimum Market None two_step_rules = Some (Inr 0) \<and> routeable 0 (Decimal 8) \<and>
   (\<exists>m. instrument_rules_decision (market_sale (Decimal 8)) None \<lparr>iq_ok = True, iq_code = [], iq_message = [], iq_rules = two_step_rules\<rparr>
          = Inr (risk_reject ''INVALID_QUANTITY_STEP'' m))"
  by (simp add: two_step_rules_def market_sale_def no_rules_def rules_ok_def guidance_maximum_def guidance_minimum_def routeable_def
      floor_to_step_def ceil_to_step_def in_int64_def int64_bounds Let_def at_most_def at_least_def is_positive_def from_raw_def sdiv_nonneg smod_nonneg
      instrument_rules_decision_def check_quantity_range_def violates_step_def below_def above_def le_decimal_iff zero_decimal_def) blast

text \<open>Without a price the minimum value of an order plays no part: the range for this sale is called routeable, and its maximum of 0.0001,
  sent at a price of 60000, is refused by the rules of the venue, which ask for ten dollars.\<close>

definition limit_sale :: "decimal \<Rightarrow> order_request" where
  "limit_sale q = \<lparr>rq_client_order_id = ''a'', rq_venue = Okx, rq_symbol = ''BTC-USDT'', rq_side = Sell, rq_type = Limit,
     rq_price = Some (Decimal 6000000000000), rq_quantity = q, rq_time_in_force = Gtc\<rparr>"

lemma sale_guidance_ignores_minimum_value:
  "rules_ok guidance_rules \<and> guidance_maximum Sell Limit (Decimal 10000) None guidance_rules = Inr (Decimal 10000) \<and>
   guidance_minimum Limit None guidance_rules = Some (Inr 0) \<and> routeable 0 (Decimal 10000) \<and>
   (\<exists>m. instrument_rules_decision (limit_sale (Decimal 10000)) None \<lparr>iq_ok = True, iq_code = [], iq_message = [], iq_rules = guidance_rules\<rparr>
          = Inr (risk_reject ''MIN_ORDER_NOTIONAL'' m))"
  by (simp add: guidance_rules_def limit_sale_def no_rules_def rules_ok_def guidance_maximum_def guidance_minimum_def routeable_def
      floor_to_step_def ceil_to_step_def in_int64_def int64_bounds Let_def at_most_def at_least_def is_positive_def from_raw_def sdiv_nonneg
      smod_nonneg instrument_rules_decision_def check_quantity_range_def check_price_range_def check_notional_range_def violates_step_def
      below_def above_def le_decimal_iff less_decimal_iff zero_decimal_def decimal_mult_def checked_from_wide_def scale_def) blast

end
