(* ===== verification/Abex_Bootstrap.thy ===== *)
theory Abex_Bootstrap
  imports Abex_Cli "HOL-Library.AList"
begin

text \<open>
  How a process is set up: environment files (\<open>src/bootstrap/environment.cpp\<close>), configuration files
  (\<open>bootstrap/config_loader.hpp\<close>), the risk limits in them (\<open>RiskManager::from_json\<close>), the mode of the runtime
  (\<open>bootstrap/gateway_runtime.hpp\<close>), and the arguments and the supervised publisher of \<open>apps/abex_server/main.cpp\<close>. Files, the
  YAML library and the operating system are arguments.
\<close>

section \<open>Environment files\<close>

type_synonym environment = "string \<rightharpoonup> string"

definition trim :: "string \<Rightarrow> string" where
  "trim t = rev (dropWhile is_space (rev (dropWhile is_space t)))"

definition is_alpha :: "char \<Rightarrow> bool" where
  "is_alpha c \<longleftrightarrow> (let n = of_char c :: nat in (65 \<le> n \<and> n \<le> 90) \<or> (97 \<le> n \<and> n \<le> 122))"

definition name_character :: "char \<Rightarrow> bool" where
  "name_character c \<longleftrightarrow> is_alpha c \<or> is_digit c \<or> c = CHR ''_''"

definition valid_name :: "string \<Rightarrow> bool" where
  "valid_name name \<longleftrightarrow> name \<noteq> [] \<and> (is_alpha (hd name) \<or> hd name = CHR ''_'') \<and> list_all name_character (tl name)"

definition parse_error :: "string \<Rightarrow> nat \<Rightarrow> string \<Rightarrow> exn" where
  "parse_error path line fault =
     Runtime_error (''invalid environment file '' @ path @ '' at line '' @ nat_to_string line @ '': '' @ fault)"

definition unescaped :: "char \<Rightarrow> string" where
  "unescaped c =
     (if c = CHR ''n'' then [CHR 0x0A] else if c = CHR ''r'' then [CHR 0x0D] else if c = CHR ''t'' then [CHR 0x09]
      else if c = CHR 0x5C then [CHR 0x5C] else if c = quotation then [quotation] else [CHR 0x5C, c])"

text \<open>The loop behind the opening quote: the value and what follows the closing quote, or \<open>None\<close> when the text ends before it.\<close>

fun quoted_loop :: "char \<Rightarrow> string \<Rightarrow> string \<Rightarrow> bool \<Rightarrow> (string \<times> string) option" where
  "quoted_loop q [] value escaped = None"
| "quoted_loop q (c # cs) value escaped =
     (if q = quotation \<and> escaped then quoted_loop q cs (value @ unescaped c) False
      else if q = quotation \<and> c = CHR 0x5C then quoted_loop q cs value True
      else if c = q then Some (value, cs)
      else quoted_loop q cs (value @ [c]) escaped)"

definition parse_quoted_value :: "string \<Rightarrow> char \<Rightarrow> string \<Rightarrow> nat \<Rightarrow> string result" where
  "parse_quoted_value input q path line =
     (case quoted_loop q (tl input) [] False of
        None \<Rightarrow> Inl (parse_error path line ''unterminated quoted value'')
      | Some (value, rest) \<Rightarrow>
          let remainder = trim rest
          in if remainder \<noteq> [] \<and> hd remainder \<noteq> CHR ''#''
             then Inl (parse_error path line ''unexpected characters after quoted value'')
             else Inr value)"

text \<open>A comment starts at a number sign after a blank, not at the first character.\<close>

fun cut_comment :: "string \<Rightarrow> string" where
  "cut_comment (a # c # cs) = (if c = CHR ''#'' \<and> is_space a then [a] else a # cut_comment (c # cs))"
| "cut_comment t = t"

definition parse_value :: "string \<Rightarrow> string \<Rightarrow> nat \<Rightarrow> string result" where
  "parse_value t path line =
     (let input = trim t
      in if input = [] then Inr []
         else if hd input = apostrophe \<or> hd input = quotation then parse_quoted_value input (hd input) path line
         else Inr (trim (cut_comment input)))"

text \<open>The C library takes a value up to its first null character. \<open>denied\<close>: the names for which \<open>setenv\<close> fails.\<close>

definition c_text :: "string \<Rightarrow> string" where
  "c_text t = takeWhile (\<lambda>c. c \<noteq> CHR 0x00) t"

definition set_environment :: "(string \<Rightarrow> bool) \<Rightarrow> string \<Rightarrow> string \<Rightarrow> environment \<Rightarrow> environment result" where
  "set_environment denied name value env =
     (if denied name then Inl (Runtime_error (''failed to set environment variable '' @ name)) else Inr (env(name \<mapsto> c_text value)))"

definition utf8_bom :: string where
  "utf8_bom = [CHR 0xEF, CHR 0xBB, CHR 0xBF]"

definition entry_of :: "nat \<Rightarrow> string \<Rightarrow> string" where
  "entry_of line_number line =
     trim (if line_number = 1 \<and> starts_with line utf8_bom then drop 3 line else line)"

definition without_export :: "string \<Rightarrow> string" where
  "without_export item =
     (if starts_with item ''export'' \<and> length item > 6 \<and> is_space (item ! 6) then trim (drop 7 item) else item)"

text \<open>A line: nothing, or a name and its value.\<close>

definition environment_line :: "string \<Rightarrow> nat \<Rightarrow> string \<Rightarrow> (string \<times> string) option result" where
  "environment_line path line_number line =
     (let item = entry_of line_number line
      in if item = [] \<or> hd item = CHR ''#'' then Inr None
         else case split_first CHR ''='' (without_export item) of
                None \<Rightarrow> Inl (parse_error path line_number ''expected NAME=VALUE'')
              | Some (before, after) \<Rightarrow>
                  if \<not> valid_name (trim before) then Inl (parse_error path line_number ''invalid variable name'')
                  else rbind (parse_value after path line_number) (\<lambda>v. Inr (Some (trim before, v))))"

text \<open>What was set before an error stays set.\<close>

fun load_lines ::
    "(string \<Rightarrow> bool) \<Rightarrow> string \<Rightarrow> bool \<Rightarrow> nat \<Rightarrow> string list \<Rightarrow> environment \<Rightarrow> nat \<Rightarrow> environment \<times> nat result" where
  "load_lines denied path override_existing n [] env loaded = (env, Inr loaded)"
| "load_lines denied path override_existing n (line # ls) env loaded =
     (case environment_line path n line of
        Inl e \<Rightarrow> (env, Inl e)
      | Inr None \<Rightarrow> load_lines denied path override_existing (n + 1) ls env loaded
      | Inr (Some (name, v)) \<Rightarrow>
          if \<not> override_existing \<and> env name \<noteq> None then load_lines denied path override_existing (n + 1) ls env loaded
          else (case set_environment denied name v env of
                  Inl e \<Rightarrow> (env, Inl e)
                | Inr env' \<Rightarrow> load_lines denied path override_existing (n + 1) ls env' (loaded + 1)))"

text \<open>\<open>std::getline\<close> until it fails: a last line without line feed counts when it is not empty.\<close>

fun getlines :: "string \<Rightarrow> string \<Rightarrow> string list" where
  "getlines line [] = (if line = [] then [] else [line])"
| "getlines line (c # cs) = (if c = CHR 0x0A then line # getlines [] cs else getlines (line @ [c]) cs)"

text \<open>What the operating system answers about the file: its text, and whether reading failed at its end.\<close>

datatype environment_file =
    Missing_file
  | Status_failed string
  | Irregular_file
  | Unreadable_file
  | Readable_file string bool

record environment_load_result =
  el_file_found :: bool
  el_variables_loaded :: nat

definition load_environment_file ::
    "(string \<Rightarrow> bool) \<Rightarrow> string \<Rightarrow> environment_file \<Rightarrow> bool \<Rightarrow> environment \<Rightarrow> environment \<times> environment_load_result result" where
  "load_environment_file denied path file override_existing env =
     (case file of
        Missing_file \<Rightarrow> (env, Inr \<lparr>el_file_found = False, el_variables_loaded = 0\<rparr>)
      | Status_failed m \<Rightarrow> (env, Inl (Runtime_error (''cannot inspect environment file '' @ path @ '': '' @ m)))
      | Irregular_file \<Rightarrow> (env, Inl (Runtime_error (''environment file is not a regular file: '' @ path)))
      | Unreadable_file \<Rightarrow> (env, Inl (Runtime_error (''cannot open environment file: '' @ path)))
      | Readable_file contents bad \<Rightarrow>
          (case load_lines denied path override_existing 1 (getlines [] contents) env 0 of
             (env', Inl e) \<Rightarrow> (env', Inl e)
           | (env', Inr n) \<Rightarrow>
               (env', if bad then Inl (Runtime_error (''failed while reading environment file: '' @ path))
                      else Inr \<lparr>el_file_found = True, el_variables_loaded = n\<rparr>)))"

definition environment_required :: "environment \<Rightarrow> string \<Rightarrow> string result" where
  "environment_required env name =
     (case env name of
        None \<Rightarrow> Inl (Runtime_error (''missing required environment variable '' @ name))
      | Some v \<Rightarrow> if v = [] then Inl (Runtime_error (''missing required environment variable '' @ name)) else Inr v)"

section \<open>Configuration files\<close>

text \<open>A node of the YAML library: undefined nodes are read as null. The text of a scalar does not tell whether it was quoted.\<close>

datatype yaml_node =
    Yaml_map "(yaml_node \<times> yaml_node) list"
  | Yaml_sequence "yaml_node list"
  | Yaml_scalar string
  | Yaml_null

text \<open>The library: a null value, a floating-point number (\<open>std::stod\<close>, \<open>None\<close> where it throws), and the text of a key.\<close>

record 'j yaml_api =
  ya_null :: 'j
  ya_real :: "string \<Rightarrow> 'j option"
  ya_key :: "yaml_node \<Rightarrow> string result"

definition yaml_scalar :: "'j view_json \<Rightarrow> 'j yaml_api \<Rightarrow> string \<Rightarrow> 'j" where
  "yaml_scalar W Y t =
     (if t \<in> {''true'', ''True'', ''TRUE''} then w_bool W True
      else if t \<in> {''false'', ''False'', ''FALSE''} then w_bool W False
      else if t = ''null'' \<or> t = ''~'' then ya_null Y
      else case stoll t of
             Inr i \<Rightarrow> w_number W i
           | Inl _ \<Rightarrow> (case ya_real Y t of Some j \<Rightarrow> j | None \<Rightarrow> w_text W t))"

fun yaml_convert :: "'j view_json \<Rightarrow> 'j yaml_api \<Rightarrow> yaml_node \<Rightarrow> 'j result"
  and yaml_entries :: "'j view_json \<Rightarrow> 'j yaml_api \<Rightarrow> (yaml_node \<times> yaml_node) list \<Rightarrow> (string \<times> 'j) list \<Rightarrow> (string \<times> 'j) list result"
  and yaml_items :: "'j view_json \<Rightarrow> 'j yaml_api \<Rightarrow> yaml_node list \<Rightarrow> 'j list result" where
  "yaml_convert W Y (Yaml_map kvs) = rbind (yaml_entries W Y kvs []) (\<lambda>entries. Inr (w_object W entries))"
| "yaml_convert W Y (Yaml_sequence xs) = rbind (yaml_items W Y xs) (\<lambda>js. Inr (vw_array W js))"
| "yaml_convert W Y (Yaml_scalar t) = Inr (yaml_scalar W Y t)"
| "yaml_convert W Y Yaml_null = Inr (ya_null Y)"
| "yaml_entries W Y [] entries = Inr entries"
| "yaml_entries W Y ((k, v) # kvs) entries =
     rbind (yaml_convert W Y v) (\<lambda>j. rbind (ya_key Y k) (\<lambda>key. yaml_entries W Y kvs (AList.update key j entries)))"
| "yaml_items W Y [] = Inr []"
| "yaml_items W Y (x # xs) = rbind (yaml_convert W Y x) (\<lambda>j. rbind (yaml_items W Y xs) (\<lambda>js. Inr (j # js)))"

text \<open>The extension decides; the YAML library reads and opens its file itself.\<close>

definition load_config :: "'j view_json \<Rightarrow> 'j yaml_api \<Rightarrow> string \<Rightarrow> string \<Rightarrow> yaml_node result \<Rightarrow> string option \<Rightarrow> 'j result" where
  "load_config W Y path extension root contents =
     (if extension = ''.yaml'' \<or> extension = ''.yml'' then rbind root (yaml_convert W Y)
      else case contents of
             None \<Rightarrow> Inl (Runtime_error (''cannot open config file: '' @ path))
           | Some t \<Rightarrow> j_parse (vw_core W) t)"

section \<open>Risk limits\<close>

definition risk_entry :: "'j json_api \<Rightarrow> 'j \<Rightarrow> instrument_risk_limits result" where
  "risk_entry J item =
     rbind (j_field J (decimal_from_json J) item ''maxOrderSize'') (\<lambda>size.
     rbind (j_field J (decimal_from_json J) item ''maxNotional'') (\<lambda>notional.
     rbind (j_field J (decimal_from_json J) item ''positionLimit'') (\<lambda>position.
     rbind (j_optional J (decimal_from_json J) item ''marketReferencePrice'') (\<lambda>reference.
       Inr \<lparr>max_order_size = size, max_notional = notional, position_limit = position, market_reference_price = reference\<rparr>))))"

fun risk_entries :: "'j json_api \<Rightarrow> (string \<times> 'j) list \<Rightarrow> (string \<times> instrument_risk_limits) list result" where
  "risk_entries J [] = Inr []"
| "risk_entries J ((k, item) # rest) =
     rbind (risk_entry J item) (\<lambda>limits. rbind (risk_entries J rest) (\<lambda>ls. Inr ((k, limits) # ls)))"

text \<open>The members of an object, in the order of its keys.\<close>

definition json_members :: "'j view_json \<Rightarrow> 'j \<Rightarrow> (string \<times> 'j) list" where
  "json_members W j = concat (map (\<lambda>k. case j_find (vw_core W) j k of None \<Rightarrow> [] | Some v \<Rightarrow> [(k, v)]) (vw_keys W j))"

definition risk_from_json :: "'j view_json \<Rightarrow> 'j \<Rightarrow> risk_limits result" where
  "risk_from_json W j = rbind (risk_entries (vw_core W) (json_members W j)) (\<lambda>ls. Inr (map_of ls))"

section \<open>Modes and venues\<close>

datatype runtime_mode = Live | Simulation

definition runtime_mode_from_string :: "string \<Rightarrow> runtime_mode result" where
  "runtime_mode_from_string t =
     (let normalized = map to_lower_char t
      in if normalized = ''live'' then Inr Live
         else if normalized = ''simulation'' \<or> normalized = ''simulated'' then Inr Simulation
         else Inl (Invalid_argument ''mode must be live or simulation''))"

fun runtime_mode_to_string :: "runtime_mode \<Rightarrow> string" where
  "runtime_mode_to_string Live = ''live''"
| "runtime_mode_to_string Simulation = ''simulation''"

section \<open>Arguments of the server\<close>

record server_arguments =
  sa_config :: "string option"
  sa_state :: "string option"
  sa_web_root :: "string option"
  sa_address :: "string option"
  sa_port :: "nat option"
  sa_environment :: string
  sa_mode :: runtime_mode
  sa_spawn_market_data :: bool

datatype parsed_arguments = Run_with server_arguments | Show_usage

definition parse_port :: "string \<Rightarrow> nat result" where
  "parse_port t =
     rbind (stoull t) (\<lambda>n. if unat n > 65535 then Inl (Invalid_argument ''port must be between 0 and 65535'') else Inr (unat n))"

fun parse_server_arguments :: "string list \<Rightarrow> server_arguments \<Rightarrow> parsed_arguments result" where
  "parse_server_arguments [] a = Inr (Run_with a)"
| "parse_server_arguments (arg # args) a =
     (if arg = ''--no-market-data'' then parse_server_arguments args (a\<lparr>sa_spawn_market_data := False\<rparr>)
      else if arg = ''--help'' \<or> arg = ''-h'' then Inr Show_usage
      else if arg \<notin> {''--config'', ''--state'', ''--env-file'', ''--web-root'', ''--address'', ''--port'', ''--mode''}
      then Inl (Invalid_argument (''unknown argument: '' @ arg))
      else case args of
             [] \<Rightarrow> Inl (Invalid_argument (''missing value for '' @ arg))
           | v # rest \<Rightarrow>
               if arg = ''--config'' then parse_server_arguments rest (a\<lparr>sa_config := Some v\<rparr>)
               else if arg = ''--state'' then parse_server_arguments rest (a\<lparr>sa_state := Some v\<rparr>)
               else if arg = ''--env-file'' then parse_server_arguments rest (a\<lparr>sa_environment := v\<rparr>)
               else if arg = ''--web-root'' then parse_server_arguments rest (a\<lparr>sa_web_root := Some v\<rparr>)
               else if arg = ''--address'' then parse_server_arguments rest (a\<lparr>sa_address := Some v\<rparr>)
               else if arg = ''--port''
               then (case parse_port v of
                       Inl e \<Rightarrow> Inl e
                     | Inr p \<Rightarrow> parse_server_arguments rest (a\<lparr>sa_port := Some p\<rparr>))
               else (case runtime_mode_from_string v of
                       Inl e \<Rightarrow> Inl e
                     | Inr m \<Rightarrow> parse_server_arguments rest (a\<lparr>sa_mode := m\<rparr>)))"

section \<open>Arguments of the terminal program\<close>

record cli_arguments =
  ca_config :: "string option"
  ca_environment :: string
  ca_state :: "string option"
  ca_command :: "string option"
  ca_mode :: runtime_mode

text \<open>\<open>None\<close>: the usage is shown and the process exits.\<close>

fun parse_cli_arguments :: "string list \<Rightarrow> cli_arguments \<Rightarrow> cli_arguments option result" where
  "parse_cli_arguments [] a = Inr (Some a)"
| "parse_cli_arguments (arg # args) a =
     (if arg = ''--help'' \<or> arg = ''-h'' then Inr None
      else if arg \<notin> {''--config'', ''--env-file'', ''--state'', ''--command'', ''--mode''}
      then Inl (Invalid_argument (''unknown argument: '' @ arg))
      else case args of
             [] \<Rightarrow> Inl (Invalid_argument (''missing value for '' @ arg))
           | v # rest \<Rightarrow>
               if arg = ''--config'' then parse_cli_arguments rest (a\<lparr>ca_config := Some v\<rparr>)
               else if arg = ''--env-file'' then parse_cli_arguments rest (a\<lparr>ca_environment := v\<rparr>)
               else if arg = ''--state'' then parse_cli_arguments rest (a\<lparr>ca_state := Some v\<rparr>)
               else if arg = ''--command'' then parse_cli_arguments rest (a\<lparr>ca_command := Some v\<rparr>)
               else (case runtime_mode_from_string v of
                       Inl e \<Rightarrow> Inl e
                     | Inr m \<Rightarrow> parse_cli_arguments rest (a\<lparr>ca_mode := m\<rparr>)))"

text \<open>The exit code of a single command: its answer is searched for the mark of a failure.\<close>

definition failure_mark :: string where
  "failure_mark = [quotation] @ ''ok'' @ [quotation] @ '': false''"

definition command_exit_code :: "string \<Rightarrow> nat" where
  "command_exit_code output = (if contains_text output failure_mark then 2 else 0)"

section \<open>Arguments of the publisher\<close>

record publisher_arguments =
  pa_config :: "string option"
  pa_ring_path :: "string option"
  pa_interval :: "int option"
  pa_capacity :: "u64 option"
  pa_ready_fd :: "nat option"
  pa_once :: bool

definition parse_descriptor :: "string \<Rightarrow> nat result" where
  "parse_descriptor t =
     rbind (stoull t) (\<lambda>n.
       if unat n > 2147483647 then Inl (Invalid_argument ''ready file descriptor is out of range'') else Inr (unat n))"

fun parse_publisher_arguments :: "string list \<Rightarrow> publisher_arguments \<Rightarrow> publisher_arguments option result" where
  "parse_publisher_arguments [] a = Inr (Some a)"
| "parse_publisher_arguments (arg # args) a =
     (if arg = ''--no-ui'' then parse_publisher_arguments args a
      else if arg = ''--once'' then parse_publisher_arguments args (a\<lparr>pa_once := True\<rparr>)
      else if arg = ''--help'' \<or> arg = ''-h'' then Inr None
      else if arg \<notin> {''--config'', ''--ring-file'', ''--interval-ms'', ''--capacity'', ''--ready-fd''}
      then Inl (Invalid_argument (''unknown argument: '' @ arg))
      else case args of
             [] \<Rightarrow> Inl (Invalid_argument (''missing value for '' @ arg))
           | v # rest \<Rightarrow>
               if arg = ''--config'' then parse_publisher_arguments rest (a\<lparr>pa_config := Some v\<rparr>)
               else if arg = ''--ring-file'' then parse_publisher_arguments rest (a\<lparr>pa_ring_path := Some v\<rparr>)
               else if arg = ''--interval-ms''
               then (case stoll v of Inl e \<Rightarrow> Inl e | Inr i \<Rightarrow> parse_publisher_arguments rest (a\<lparr>pa_interval := Some i\<rparr>))
               else if arg = ''--capacity''
               then (case stoull v of Inl e \<Rightarrow> Inl e | Inr n \<Rightarrow> parse_publisher_arguments rest (a\<lparr>pa_capacity := Some n\<rparr>))
               else (case parse_descriptor v of
                       Inl e \<Rightarrow> Inl e
                     | Inr n \<Rightarrow> parse_publisher_arguments rest (a\<lparr>pa_ready_fd := Some n\<rparr>)))"

section \<open>The supervised publisher\<close>

datatype child_outcome = Exited nat | Signaled nat | Other_outcome

fun child_status :: "child_outcome \<Rightarrow> string" where
  "child_status (Exited n) = ''exit code '' @ nat_to_string n"
| "child_status (Signaled n) = ''signal '' @ nat_to_string n"
| "child_status Other_outcome = ''unknown status''"

text \<open>Answers of \<open>waitpid\<close> without waiting.\<close>

datatype wait_answer = Still_running | Reaped child_outcome | No_child | Wait_interrupted | Wait_failed string

datatype child_signal = Sigterm | Sigkill

record publisher =
  pb_pid :: "nat option"
  pb_signals :: "(nat \<times> child_signal) list"

text \<open>The attempts of \<open>stop\<close> until the child is gone, then the kill, after which \<open>waitpid\<close> waits for its end.\<close>

definition publisher_stop :: "wait_answer list \<Rightarrow> publisher \<Rightarrow> publisher" where
  "publisher_stop answers p =
     (case pb_pid p of
        None \<Rightarrow> p
      | Some pid \<Rightarrow>
          let gone = list_ex (\<lambda>a. case a of Reaped _ \<Rightarrow> True | No_child \<Rightarrow> True | _ \<Rightarrow> False) (take 100 answers)
          in p\<lparr>pb_pid := None, pb_signals := pb_signals p @ (pid, Sigterm) # (if gone then [] else [(pid, Sigkill)])\<rparr>)"

definition ensure_running :: "wait_answer \<Rightarrow> publisher \<Rightarrow> publisher \<times> unit result" where
  "ensure_running answer p =
     (case pb_pid p of
        None \<Rightarrow> (p, Inr ())
      | Some pid \<Rightarrow>
          (case answer of
             Still_running \<Rightarrow> (p, Inr ())
           | Wait_interrupted \<Rightarrow> (p, Inr ())
           | Reaped o1 \<Rightarrow>
               (p\<lparr>pb_pid := None\<rparr>, Inl (Runtime_error (''market-data publisher stopped unexpectedly with '' @ child_status o1)))
           | No_child \<Rightarrow> (p, Inl (Runtime_error (''failed to monitor market-data publisher: No child processes'')))
           | Wait_failed m \<Rightarrow> (p, Inl (Runtime_error (''failed to monitor market-data publisher: '' @ m)))))"

text \<open>A turn of the readiness loop before its deadline: the stop flag, the answer of \<open>poll\<close> and the child.\<close>

datatype poll_answer = Poll_interrupted | Poll_failed string | Polled bool "char option" bool

record ready_turn =
  rt_stop :: bool
  rt_poll :: poll_answer
  rt_child :: wait_answer

fun wait_for_quote :: "ready_turn list \<Rightarrow> publisher \<Rightarrow> publisher \<times> unit result" where
  "wait_for_quote [] p = (p, Inl (Runtime_error ''timed out after 30 seconds waiting for the first market-data quote''))"
| "wait_for_quote (t # ts) p =
     (if rt_stop t then (p, Inl (Runtime_error ''market-data startup interrupted''))
      else case rt_poll t of
             Poll_interrupted \<Rightarrow> wait_for_quote ts p
           | Poll_failed m \<Rightarrow> (p, Inl (Runtime_error (''failed while waiting for market data: '' @ m)))
           | Polled ready marker closed \<Rightarrow>
               if ready \<and> marker = Some CHR ''R'' then (p, Inr ())
               else (case rt_child t of
                       Reaped o1 \<Rightarrow>
                         (p\<lparr>pb_pid := None\<rparr>, Inl (Runtime_error (''market-data publisher failed to start with '' @ child_status o1)))
                     | _ \<Rightarrow>
                         if closed then (p, Inl (Runtime_error
                           ''market-data publisher closed its readiness channel before the first quote''))
                         else wait_for_quote ts p))"

text \<open>What starting a process meets: the executable, the pipe, the fork, the turns of the loop and the attempts of a stop.\<close>

record launch =
  la_directory :: string
  la_executable_exists :: bool
  la_pipe_error :: "string option"
  la_fork :: "nat result"
  la_turns :: "ready_turn list"
  la_stops :: "wait_answer list"

definition publisher_start :: "launch \<Rightarrow> publisher \<Rightarrow> publisher \<times> unit result" where
  "publisher_start l p =
     (if pb_pid p \<noteq> None then (p, Inl (Logic_error ''market-data process is already running''))
      else if \<not> la_executable_exists l
      then (p, Inl (Runtime_error (''cannot start complete setup because abex_market_data is missing beside '' @ la_directory l @
             ''; build it or use --no-market-data'')))
      else case la_pipe_error l of
             Some m \<Rightarrow> (p, Inl (Runtime_error (''failed to create market-data readiness pipe: '' @ m)))
           | None \<Rightarrow>
               (case la_fork l of
                  Inl e \<Rightarrow> (p, Inl (Runtime_error (''failed to spawn market-data process: '' @ what e)))
                | Inr pid \<Rightarrow>
                    (case wait_for_quote (la_turns l) (p\<lparr>pb_pid := Some pid\<rparr>) of
                       (p1, Inr u) \<Rightarrow> (p1, Inr u)
                     | (p1, Inl e) \<Rightarrow> (publisher_stop (la_stops l) p1, Inl e))))"

end
