(* ===== verification/Abex_Bootstrap_Props.thy ===== *)
theory Abex_Bootstrap_Props
  imports Abex_Bootstrap
begin

text \<open>
  What setting up a process promises: an environment file is read back as it was written and never overrides what is set, the
  publisher is never left behind, and a limit written in YAML cannot be read.
\<close>

section \<open>Environment files\<close>

definition escape_char :: "char \<Rightarrow> string" where
  "escape_char c =
     (if c = CHR 0x0A then [CHR 0x5C, CHR ''n''] else if c = CHR 0x5C \<or> c = quotation then [CHR 0x5C, c] else [c])"

definition variable_line :: "string \<times> string \<Rightarrow> string" where
  "variable_line e = fst e @ ''='' @ [quotation] @ concat (map escape_char (snd e)) @ [quotation]"

definition environment_text :: "(string \<times> string) list \<Rightarrow> string" where
  "environment_text es = concat (map (\<lambda>e. variable_line e @ [CHR 0x0A]) es)"

lemma escaped_loop:
  "quoted_loop quotation (concat (map escape_char v) @ quotation # rest) got False = Some (got @ v, rest)"
  by (induction v arbitrary: got) (auto simp: escape_char_def unescaped_def quotation_def)

lemma trim_bounded: "t \<noteq> [] \<Longrightarrow> \<not> is_space (hd t) \<Longrightarrow> \<not> is_space (last t) \<Longrightarrow> trim t = t"
proof -
  assume t: "t \<noteq> []" "\<not> is_space (hd t)" "\<not> is_space (last t)"
  then have "dropWhile is_space t = t" by (cases t) simp_all
  moreover have "dropWhile is_space (rev t) = rev t" using t by (simp add: dropWhile_eq_self_iff hd_rev)
  ultimately show ?thesis by (simp add: trim_def)
qed

lemma name_character_plain:
  "name_character c \<Longrightarrow> \<not> is_space c \<and> c \<noteq> CHR ''='' \<and> c \<noteq> CHR 0x0A \<and> c \<noteq> CHR ''#'' \<and> c \<noteq> CHR 0xEF"
  by (auto simp: name_character_def is_alpha_def is_digit_def is_space_def Let_def)

lemma valid_name_characters:
  assumes "valid_name n"
  shows "n \<noteq> []" "\<forall>c\<in>set n. name_character c"
  using assms by (cases n, auto simp: valid_name_def name_character_def list_all_iff)+

lemma valid_name_trim: "valid_name n \<Longrightarrow> trim n = n"
  using valid_name_characters [of n] name_character_plain by (intro trim_bounded) auto

lemma line_not_exported:
  assumes "valid_name n"
  shows "without_export (n @ CHR ''='' # rest) = n @ CHR ''='' # rest"
proof (cases "starts_with (n @ CHR ''='' # rest) ''export''")
  case True
  have "6 \<le> length n"
  proof (rule ccontr)
    assume "\<not> 6 \<le> length n"
    then have "(take 6 (n @ CHR ''='' # rest)) ! length n = CHR ''=''" by (simp add: nth_append take_Cons')
    moreover have "take 6 (n @ CHR ''='' # rest) = ''export''" using True by (simp add: starts_with_def numeral_eq_Suc)
    ultimately have "CHR ''='' \<in> set ''export''" using \<open>\<not> 6 \<le> length n\<close> nth_mem [of "length n" "''export''"] by simp
    then show False by simp
  qed
  then have "(n @ CHR ''='' # rest) ! 6 \<in> insert CHR ''='' (set n)"
    by (cases "length n = 6") (simp_all add: nth_append)
  moreover have "\<not> is_space c" if "c \<in> insert CHR ''='' (set n)" for c
    using that valid_name_characters(2) [OF assms] name_character_plain [of c] by (cases "c = CHR ''=''") (simp_all add: is_space_def)
  ultimately have "\<not> is_space ((n @ CHR ''='' # rest) ! 6)" by blast
  then show ?thesis by (simp add: without_export_def)
qed (simp add: without_export_def)

lemma split_at_name: "valid_name n \<Longrightarrow> split_first CHR ''='' (n @ CHR ''='' # rest) = Some (n, rest)"
  using valid_name_characters name_character_plain
  by (auto simp: split_first_def takeWhile_append2 dropWhile_append2)

lemma quotation_plain: "\<not> is_space quotation" "quotation \<noteq> apostrophe" "quotation \<noteq> CHR 0x0A"
  by (simp_all add: quotation_def apostrophe_def is_space_def)

lemma quoted_value_read: "parse_value (quotation # concat (map escape_char v) @ [quotation]) path n = Inr v"
proof -
  let ?t = "quotation # concat (map escape_char v) @ [quotation]"
  have "trim ?t = ?t" by (rule trim_bounded) (simp_all add: quotation_plain)
  then show ?thesis
    using escaped_loop [of v "[]" "[]"] by (simp add: parse_value_def parse_quoted_value_def quotation_plain trim_def)
qed

lemma variable_line_read:
  assumes "valid_name (fst e)"
  shows "environment_line path n (variable_line e) = Inr (Some e)"
proof -
  let ?n = "fst e" and ?line = "variable_line e"
  have line: "?line = ?n @ CHR ''='' # quotation # concat (map escape_char (snd e)) @ [quotation]" by (simp add: variable_line_def)
  note chars = valid_name_characters [OF assms]
  have hd: "hd ?line = hd ?n" "hd ?n \<in> set ?n" "?line \<noteq> []" "last ?line = quotation" using chars(1) by (simp_all add: line)
  then have plain: "\<not> is_space (hd ?line)" "hd ?line \<noteq> CHR ''#''" "hd ?line \<noteq> CHR 0xEF"
    using chars(2) name_character_plain by auto
  then have "\<not> starts_with ?line utf8_bom" using hd(3) by (cases ?line) (simp_all add: starts_with_def utf8_bom_def)
  then have "entry_of n ?line = ?line"
    using plain(1) hd(3,4) by (simp add: entry_of_def trim_bounded quotation_plain)
  then show ?thesis
    using hd(3) plain(2) assms unfolding environment_line_def Let_def
    by (simp add: line line_not_exported split_at_name valid_name_trim quoted_value_read)
qed

lemma getlines_line: "CHR 0x0A \<notin> set t \<Longrightarrow> getlines got (t @ CHR 0x0A # rest) = (got @ t) # getlines [] rest"
  by (induction t arbitrary: got) auto

lemma line_has_no_feed: "valid_name (fst e) \<Longrightarrow> CHR 0x0A \<notin> set (variable_line e)"
  using valid_name_characters [of "fst e"] name_character_plain
  by (auto simp: variable_line_def quotation_def escape_char_def split: if_splits)

lemma environment_text_lines: "\<forall>e\<in>set es. valid_name (fst e) \<Longrightarrow> getlines [] (environment_text es) = map variable_line es"
  by (induction es) (simp_all add: environment_text_def getlines_line line_has_no_feed)

text \<open>The environment after variables were set where they are free, and how many were set.\<close>

definition overlaid :: "bool \<Rightarrow> environment \<Rightarrow> (string \<times> string) list \<Rightarrow> environment" where
  "overlaid override_existing env es =
     (\<lambda>k. case map_of es k of None \<Rightarrow> env k | Some v \<Rightarrow> if override_existing \<or> env k = None then Some v else env k)"

lemma written_lines_loaded:
  assumes "\<forall>e\<in>set es. valid_name (fst e) \<and> CHR 0x00 \<notin> set (snd e) \<and> \<not> denied (fst e)" "distinct (map fst es)"
  shows "load_lines denied path override_existing n (map variable_line es) env m =
    (overlaid override_existing env es, Inr (m + length (filter (\<lambda>e. override_existing \<or> env (fst e) = None) es)))"
  using assms
proof (induction es arbitrary: n env m)
  case (Cons e es)
  obtain k v where e: "e = (k, v)" by fastforce
  have v: "c_text v = v" using Cons.prems(1) by (auto simp: e c_text_def takeWhile_eq_all_conv)
  have read: "environment_line path n (variable_line (k, v)) = Inr (Some (k, v))"
    using variable_line_read [of "(k, v)"] Cons.prems(1) by (simp add: e)
  have k: "k \<notin> fst ` set es" using Cons.prems(2) by (simp add: e)
  then have free: "map_of es k = None" by (simp add: map_of_eq_None_iff)
  have rest: "load_lines denied path override_existing n' (map variable_line es) env' m' =
      (overlaid override_existing env' es, Inr (m' + length (filter (\<lambda>e. override_existing \<or> env' (fst e) = None) es)))" for n' env' m'
    using Cons by simp
  have "overlaid override_existing (env(k \<mapsto> v)) es = overlaid override_existing env (e # es)"
    "filter (\<lambda>e. override_existing \<or> (env(k \<mapsto> v)) (fst e) = None) es = filter (\<lambda>e. override_existing \<or> env (fst e) = None) es"
    if "override_existing \<or> env k = None"
    using that free k by (auto simp: overlaid_def e fun_eq_iff split: option.split intro!: filter_cong)
  moreover have "overlaid override_existing env es = overlaid override_existing env (e # es)" if "\<not> (override_existing \<or> env k = None)"
    using that free by (auto simp: overlaid_def e fun_eq_iff split: option.split)
  ultimately show ?case using Cons.prems(1) rest [of "Suc n" env m] rest [of "Suc n" "env(k \<mapsto> v)" "m + 1"]
    by (cases "override_existing \<or> env k = None") (auto simp: e read set_environment_def v)
qed (simp add: overlaid_def fun_eq_iff)

lemma valid_names_set:
  "environment_line path n line = Inr (Some (name, v)) \<Longrightarrow> valid_name name"
  by (auto simp: environment_line_def Let_def elim!: rbind_InrE split: if_splits option.splits prod.splits)

lemma load_lines_respect:
  assumes "load_lines denied path override_existing n ls env m = (env', r)"
  shows "(\<not> override_existing \<longrightarrow> env k = Some v \<longrightarrow> env' k = Some v) \<and> (env' k \<noteq> env k \<longrightarrow> valid_name k \<and> \<not> denied k)"
  using assms
proof (induction ls arbitrary: n env m)
  case (Cons line ls)
  show ?case
  proof (cases "environment_line path n line")
    case (Inr x)
    show ?thesis
    proof (cases x)
      case None
      then have "load_lines denied path override_existing (n + 1) ls env m = (env', r)" using Cons.prems Inr by simp
      then show ?thesis by (rule Cons.IH)
    next
      case (Some e)
      obtain name w where e: "e = (name, w)" by fastforce
      have name: "valid_name name" using Inr by (auto simp: Some e intro: valid_names_set)
      show ?thesis
      proof (cases "(\<not> override_existing \<and> env name \<noteq> None) \<or> denied name")
        case True
        then show ?thesis using Cons.prems Cons.IH [of _ env] Inr by (auto simp: Some e set_environment_def split: if_splits)
      next
        case False
        then have "load_lines denied path override_existing (n + 1) ls (env(name \<mapsto> c_text w)) (m + 1) = (env', r)"
          using Cons.prems Inr by (auto simp: Some e set_environment_def)
        then show ?thesis using Cons.IH False name by (fastforce split: if_splits)
      qed
    qed
  qed (use Cons.prems in simp)
qed simp

lemma loaded_file_respects:
  assumes "load_environment_file denied path source override_existing env = (env', r)"
  shows "(\<not> override_existing \<longrightarrow> env k = Some v \<longrightarrow> env' k = Some v) \<and> (env' k \<noteq> env k \<longrightarrow> valid_name k \<and> \<not> denied k)"
proof (cases source)
  case (Readable_file contents bad)
  obtain env1 r1 where lines: "load_lines denied path override_existing 1 (getlines [] contents) env 0 = (env1, r1)" by fastforce
  then have "env' = env1" using assms by (cases r1) (simp_all add: load_environment_file_def Readable_file)
  then show ?thesis using load_lines_respect [OF lines] by simp
qed (use assms in \<open>auto simp: load_environment_file_def\<close>)

text \<open>C34. A file of variables is read as it was written: names and values, written as quoted and escaped lines, come back exactly, whatever
  characters other than null the values contain (line feeds, quotes and backslashes included); each variable is set unless it is set already or
  overriding was asked for, and the answer counts those that were set. Whatever a file contains and however loading ends, without
  overriding no variable that is set changes, and only valid names are ever set.\<close>

theorem environment_loaded:
  assumes "\<forall>e\<in>set es. valid_name (fst e) \<and> CHR 0x00 \<notin> set (snd e) \<and> \<not> denied (fst e)" "distinct (map fst es)"
    and "load_environment_file denied path' source override_existing env = (env', r)"
  shows "load_environment_file denied path (Readable_file (environment_text es) False) override_existing env =
      (overlaid override_existing env es,
       Inr \<lparr>el_file_found = True, el_variables_loaded = length (filter (\<lambda>e. override_existing \<or> env (fst e) = None) es)\<rparr>) \<and>
    (\<not> override_existing \<longrightarrow> env k = Some v \<longrightarrow> env' k = Some v) \<and> (env' k \<noteq> env k \<longrightarrow> valid_name k \<and> \<not> denied k)"
proof -
  have "\<forall>e\<in>set es. valid_name (fst e)" using assms(1) by blast
  then show ?thesis using written_lines_loaded [OF assms(1,2), of path override_existing 1 env 0] loaded_file_respects [OF assms(3)]
    by (simp add: load_environment_file_def environment_text_lines)
qed

theorem environment_loaded_witness:
  "load_environment_file (\<lambda>_. False) ''.env'' (Readable_file (environment_text [(''KEY'', ''a'' @ [quotation] @ '' #b''), (''HOME'', ''/x'')]) False)
     False [''HOME'' \<mapsto> ''/root''] =
   ([''HOME'' \<mapsto> ''/root'', ''KEY'' \<mapsto> ''a'' @ [quotation] @ '' #b''], Inr \<lparr>el_file_found = True, el_variables_loaded = 1\<rparr>)"
proof -
  let ?es = "[(''KEY'', ''a'' @ [quotation] @ '' #b''), (''HOME'', ''/x'')]" and ?env = "[''HOME'' \<mapsto> ''/root'']"
  have names: "\<forall>e\<in>set ?es. valid_name (fst e) \<and> CHR 0x00 \<notin> set (snd e) \<and> \<not> (\<lambda>_. False) (fst e)" "distinct (map fst ?es)"
    by (simp_all add: valid_name_def name_character_def is_alpha_def quotation_def)
  have missing: "load_environment_file (\<lambda>_. False) ''.env'' Missing_file False ?env = (?env, Inr \<lparr>el_file_found = False, el_variables_loaded = 0\<rparr>)"
    by (simp add: load_environment_file_def)
  have "overlaid False ?env ?es = [''HOME'' \<mapsto> ''/root'', ''KEY'' \<mapsto> ''a'' @ [quotation] @ '' #b'']"
    by (auto simp: overlaid_def fun_eq_iff)
  then show ?thesis using environment_loaded [OF names missing, of "''.env''"] by simp
qed

section \<open>Limits in YAML\<close>

text \<open>A scalar that begins with a number becomes a number, quoted or not, and limits are read as texts: limits in a YAML file, such as
  those of the example configuration, are refused.\<close>

lemma numeral_scalar:
  assumes "stoll t = Inr i"
  shows "yaml_scalar W Y t = w_number W i"
proof -
  have "\<nexists>i. stoll ''true'' = Inr i" "\<nexists>i. stoll ''True'' = Inr i" "\<nexists>i. stoll ''TRUE'' = Inr i" "\<nexists>i. stoll ''false'' = Inr i" "\<nexists>i. stoll ''False'' = Inr i"
    "\<nexists>i. stoll ''FALSE'' = Inr i" "\<nexists>i. stoll ''null'' = Inr i" "\<nexists>i. stoll ''~'' = Inr i"
    by (simp_all add: stoll_def number_prefix_def is_space_def is_digit_def)
  then have "t \<notin> {''true'', ''True'', ''TRUE''}" "t \<notin> {''false'', ''False'', ''FALSE''}" "t \<noteq> ''null''" "t \<noteq> ''~''"
    using assms by (metis insertE empty_iff)+
  then show ?thesis using assms by (simp add: yaml_scalar_def)
qed

lemma yaml_limit_refused:
  assumes "json_laws (vw_core W)" "\<forall>i. \<exists>e. j_get_string (vw_core W) (w_number W i) = Inl e" "\<forall>t. ya_key Y (Yaml_scalar t) = Inr t"
    and "stoll limit = Inr i"
  shows "\<exists>j e. yaml_convert W Y (Yaml_map [(Yaml_scalar ''maxOrderSize'', Yaml_scalar limit),
      (Yaml_scalar ''maxNotional'', Yaml_scalar notional), (Yaml_scalar ''positionLimit'', Yaml_scalar other)]) = Inr j \<and>
    risk_entry (vw_core W) j = Inl e"
proof -
  have "j_find (vw_core W) (w_object W kvs) ''maxOrderSize'' = map_of kvs ''maxOrderSize''" if "distinct (map fst kvs)" for kvs
    using assms(1) that by (simp add: json_laws_def w_object_def)
  moreover obtain e where "j_get_string (vw_core W) (w_number W i) = Inl e" using assms(2) by blast
  ultimately show ?thesis using assms(3)
    by (simp add: risk_entry_def j_field_def j_at_def decimal_from_json_def numeral_scalar [OF assms(4)])
qed

lemma example_scalars: "stoll ''2'' = Inr 2" "stoll ''127.0.0.1'' = Inr 127" "stoll ''0.5'' = Inr 0"
  by (simp_all add: stoll_def number_prefix_def is_space_def is_digit_def digits_value_def digit_value_def in_int64_iff)

section \<open>The supervised publisher\<close>

text \<open>A start that fails leaves no child: either it was never there, or it has ended, or it was told to stop and, when it did not
  end within a hundred attempts, killed.\<close>

lemma wait_for_quote_pid:
  "wait_for_quote ts p = (p', r) \<Longrightarrow> pb_signals p' = pb_signals p \<and> (pb_pid p' = pb_pid p \<or> pb_pid p' = None)"
proof (induction ts arbitrary: p)
  case (Cons t ts)
  then show ?case by (auto split: if_splits poll_answer.splits wait_answer.splits)
qed auto

lemma failed_start_leaves_no_child:
  assumes "publisher_start l p = (p', Inl e)" "pb_pid p = None"
  shows "pb_pid p' = None"
  using assms by (auto simp: publisher_start_def publisher_stop_def Let_def split: if_splits option.splits sum.splits prod.splits)

end
