(* ===== verification/Abex_Sync.thy ===== *)
theory Abex_Sync
  imports Abex_Store Abex_Transitions
begin

text \<open>
  The thread that brings the journal to disk (\<open>run_sync_worker\<close>, \<open>signal_sync\<close> and the destructor in
  \<open>file_order_store_impl.hpp\<close> and \<open>file_order_store.cpp\<close>), interleaved with the threads that append records: one access of the shared
  generation, one blocking call or one system call per step. Records are numbered in the order in which they reach the file; what
  \<open>fdatasync\<close> brings to disk are the records that were in the file when it was called.
\<close>

section \<open>State and steps\<close>

text \<open>The control points of the worker: before the predicate of the wait is evaluated, after it was true, between its evaluation
  and blocking (the mutex is held at these three), blocked, in \<open>fdatasync\<close> with the generation it will store, in the last \<open>fdatasync\<close>, and at the end.\<close>

datatype sync_point = Sync_check | Sync_proceeding | Sync_falling_asleep | Sync_waiting | Syncing nat | Last_sync | Sync_ended

text \<open>\<open>sy_signalled\<close> lists the records in the order in which their writers raised \<open>sync_generation_\<close>, which is its length; the rest of a
  call of \<open>signal_sync\<close> is the notification. \<open>sy_unsignalled\<close>, \<open>sy_written\<close>, \<open>sy_covered\<close> (records in the file when the running
  \<open>fdatasync\<close> was called) and \<open>sy_durable\<close> (records on disk) describe the environment.\<close>

record sync_state =
  sy_written :: nat
  sy_unsignalled :: "nat set"
  sy_signalled :: "nat list"
  sy_notifiers :: nat
  sy_synced_generation :: nat
  sy_stop :: bool
  sy_worker :: sync_point
  sy_covered :: nat
  sy_durable :: nat
  sy_failed :: bool

definition new_sync :: sync_state where
  "new_sync = \<lparr>sy_written = 0, sy_unsignalled = {}, sy_signalled = [], sy_notifiers = 0, sy_synced_generation = 0, sy_stop = False,
     sy_worker = Sync_check, sy_covered = 0, sy_durable = 0, sy_failed = False\<rparr>"

definition sync_generation :: "sync_state \<Rightarrow> nat" where
  "sync_generation s = length (sy_signalled s)"

definition record_written :: "sync_state \<Rightarrow> sync_state" where
  "record_written s = s\<lparr>sy_written := sy_written s + 1, sy_unsignalled := insert (sy_written s) (sy_unsignalled s)\<rparr>"

definition raise_generation :: "nat \<Rightarrow> sync_state \<Rightarrow> sync_state" where
  "raise_generation r s =
     s\<lparr>sy_unsignalled := sy_unsignalled s - {r}, sy_signalled := sy_signalled s @ [r], sy_notifiers := sy_notifiers s + 1\<rparr>"

definition wake :: "sync_state \<Rightarrow> sync_state" where
  "wake s = (if sy_worker s = Sync_waiting then s\<lparr>sy_worker := Sync_check\<rparr> else s)"

definition notify_worker :: "sync_state \<Rightarrow> sync_state" where
  "notify_worker s = wake (s\<lparr>sy_notifiers := sy_notifiers s - 1\<rparr>)"

text \<open>The predicate of the wait, and the branch behind it. The load of the target and the call of \<open>fdatasync\<close> are one step; records that
  are written in between are covered in addition.\<close>

definition sync_turn :: "sync_state \<Rightarrow> sync_state" where
  "sync_turn s =
     (case sy_worker s of
        Sync_check \<Rightarrow>
          if sy_stop s \<or> sync_generation s \<noteq> sy_synced_generation s then s\<lparr>sy_worker := Sync_proceeding\<rparr>
          else s\<lparr>sy_worker := Sync_falling_asleep\<rparr>
      | Sync_proceeding \<Rightarrow>
          if sy_stop s
          then if sync_generation s \<noteq> sy_synced_generation s then s\<lparr>sy_worker := Last_sync, sy_covered := sy_written s\<rparr>
               else s\<lparr>sy_worker := Sync_ended\<rparr>
          else s\<lparr>sy_worker := Syncing (sync_generation s), sy_covered := sy_written s\<rparr>
      | Sync_falling_asleep \<Rightarrow> s\<lparr>sy_worker := Sync_waiting\<rparr>
      | _ \<Rightarrow> s)"

text \<open>\<open>fdatasync\<close> returns; its result is ignored.\<close>

definition sync_returned :: "bool \<Rightarrow> sync_state \<Rightarrow> sync_state" where
  "sync_returned ok s =
     (let s1 = (if ok then s\<lparr>sy_durable := max (sy_durable s) (sy_covered s)\<rparr> else s\<lparr>sy_failed := True\<rparr>)
      in case sy_worker s of
           Syncing target \<Rightarrow> s1\<lparr>sy_synced_generation := target, sy_worker := Sync_check\<rparr>
         | Last_sync \<Rightarrow> s1\<lparr>sy_worker := Sync_ended\<rparr>
         | _ \<Rightarrow> s)"

text \<open>The destructor takes the mutex, raises the flag and notifies. It runs when no other call of the store is under way.\<close>

definition sync_stop :: "sync_state \<Rightarrow> sync_state" where
  "sync_stop s = wake (s\<lparr>sy_stop := True\<rparr>)"

inductive sync_step :: "sync_state \<Rightarrow> sync_state \<Rightarrow> bool" where
  written: "\<not> sy_stop s \<Longrightarrow> sync_step s (record_written s)"
| raised: "r \<in> sy_unsignalled s \<Longrightarrow> sync_step s (raise_generation r s)"
| notified: "0 < sy_notifiers s \<Longrightarrow> sync_step s (notify_worker s)"
| spurious: "sync_step s (wake s)"
| worked: "sync_step s (sync_turn s)"
| returned: "sync_step s (sync_returned ok s)"
| stopped: "sy_unsignalled s = {} \<Longrightarrow> sy_notifiers s = 0 \<Longrightarrow> sy_worker s \<notin> {Sync_check, Sync_proceeding, Sync_falling_asleep} \<Longrightarrow> \<not> sy_stop s \<Longrightarrow>
    sync_step s (sync_stop s)"

inductive_cases sync_stepE: "sync_step s s'"

lemmas sync_defs = record_written_def raise_generation_def wake_def notify_worker_def sync_turn_def sync_returned_def sync_stop_def
  sync_generation_def

section \<open>The invariant\<close>

text \<open>Records are signalled after they were written, each once; without a failed \<open>fdatasync\<close> those up to the stored generation are on disk,
  and a running \<open>fdatasync\<close> covers those up to the generation that it will store.\<close>

definition sync_inv :: "sync_state \<Rightarrow> bool" where
  "sync_inv s \<longleftrightarrow>
     set (sy_signalled s) \<union> sy_unsignalled s = {..< sy_written s} \<and>
     sy_durable s \<le> sy_written s \<and> sy_covered s \<le> sy_written s \<and>
     sy_synced_generation s \<le> sync_generation s \<and>
     (sy_stop s \<longrightarrow> sy_unsignalled s = {}) \<and>
     (\<not> sy_failed s \<longrightarrow> set (take (sy_synced_generation s) (sy_signalled s)) \<subseteq> {..< sy_durable s}) \<and>
     (case sy_worker s of
        Syncing target \<Rightarrow> target \<le> sync_generation s \<and> set (take target (sy_signalled s)) \<subseteq> {..< sy_covered s}
      | Last_sync \<Rightarrow> sy_stop s \<and> sy_covered s = sy_written s
      | Sync_ended \<Rightarrow> sy_stop s \<and> (\<not> sy_failed s \<longrightarrow> set (sy_signalled s) \<subseteq> {..< sy_durable s})
      | _ \<Rightarrow> True)"

lemma sync_inv_start: "sync_inv new_sync"
  by (simp add: sync_inv_def new_sync_def sync_generation_def)

lemma take_snoc_subset: "n \<le> length xs \<Longrightarrow> take n (xs @ [x]) = take n xs"
  by simp

lemma below_max: "A \<subseteq> {..< (m :: nat)} \<Longrightarrow> A \<subseteq> {..< max m n}" "A \<subseteq> {..< n} \<Longrightarrow> A \<subseteq> {..< max m n}"
  by auto

lemma sync_inv_raise: "sync_inv s \<Longrightarrow> r \<in> sy_unsignalled s \<Longrightarrow> sync_inv (raise_generation r s)"
  by (auto simp: sync_inv_def raise_generation_def sync_generation_def split: sync_point.splits)

lemma sync_inv_turn: "sync_inv s \<Longrightarrow> sync_inv (sync_turn s)"
  by (cases "sy_worker s") (auto simp: sync_inv_def sync_turn_def sync_generation_def)

lemma sync_inv_returned: "sync_inv s \<Longrightarrow> sync_inv (sync_returned ok s)"
  by (cases "sy_worker s") (auto simp: sync_inv_def sync_returned_def sync_generation_def max_def)

lemma sync_inv_written: "sync_inv s \<Longrightarrow> \<not> sy_stop s \<Longrightarrow> sync_inv (record_written s)"
  by (cases "sy_worker s") (simp_all add: sync_inv_def record_written_def sync_generation_def lessThan_Suc)

lemma sync_inv_wake: "sync_inv s \<Longrightarrow> sync_inv (wake s)"
  by (simp add: wake_def) (simp add: sync_inv_def sync_generation_def)

lemma sync_inv_notifiers: "sync_inv (s\<lparr>sy_notifiers := n\<rparr>) = sync_inv s"
  by (simp add: sync_inv_def sync_generation_def cong: sync_point.case_cong)

lemma sync_inv_notified: "sync_inv s \<Longrightarrow> sync_inv (notify_worker s)"
  unfolding notify_worker_def by (rule sync_inv_wake) (simp add: sync_inv_notifiers)

lemma sync_inv_stopped:
  assumes "sync_inv s" "sy_unsignalled s = {}"
  shows "sync_inv (sync_stop s)"
proof -
  have "sync_inv (s\<lparr>sy_stop := True\<rparr>)"
    using assms unfolding sync_inv_def sync_generation_def by (cases "sy_worker s") auto
  then show ?thesis unfolding sync_stop_def by (rule sync_inv_wake)
qed

lemmas sync_inv_steps = sync_inv_written sync_inv_raise sync_inv_notified sync_inv_wake sync_inv_turn sync_inv_returned sync_inv_stopped

lemma sync_inv_step: "sync_inv s \<Longrightarrow> sync_step s s' \<Longrightarrow> sync_inv s'"
  by (erule sync_stepE) (simp_all add: sync_inv_steps)

interpretation sync_run: invariant_system sync_step sync_inv
  by unfold_locales (rule sync_inv_step)

section \<open>Properties\<close>

text \<open>C28. The journal reaches the disk. In every interleaving of appending threads and the sync worker in which no \<open>fdatasync\<close> fails:
  the records whose writers raised the generation up to the stored one are on disk, a worker that has ended after the destructor left every
  record of the file on disk, and no record is ever signalled before it is in the file.\<close>

theorem journal_reaches_disk:
  assumes "sync_step\<^sup>*\<^sup>* new_sync s" "\<not> sy_failed s"
  shows "set (take (sy_synced_generation s) (sy_signalled s)) \<subseteq> {..< sy_durable s} \<and> sy_synced_generation s \<le> sync_generation s \<and>
    (sy_worker s = Sync_ended \<longrightarrow> sy_durable s = sy_written s) \<and> set (sy_signalled s) \<subseteq> {..< sy_written s}"
proof -
  have inv: "sync_inv s" using sync_run.reachable_inv [OF assms(1) sync_inv_start] .
  note facts = this [unfolded sync_inv_def]
  have "sy_durable s = sy_written s" if "sy_worker s = Sync_ended"
  proof -
    have "set (sy_signalled s) = {..< sy_written s}" "set (sy_signalled s) \<subseteq> {..< sy_durable s}" "sy_durable s \<le> sy_written s"
      using facts that assms(2) by auto
    then show ?thesis by (metis lessThan_subset_iff le_antisym)
  qed
  then show ?thesis using facts assms(2) by blast
qed

section \<open>Sample runs\<close>

datatype sync_action = Write | Raise nat | Notify | Turn | Return bool | Stop

fun perform :: "sync_action \<Rightarrow> sync_state \<Rightarrow> sync_state option" where
  "perform Write s = (if sy_stop s then None else Some (record_written s))"
| "perform (Raise r) s = (if r \<in> sy_unsignalled s then Some (raise_generation r s) else None)"
| "perform Notify s = (if 0 < sy_notifiers s then Some (notify_worker s) else None)"
| "perform Turn s = Some (sync_turn s)"
| "perform (Return ok) s = Some (sync_returned ok s)"
| "perform Stop s =
     (if sy_unsignalled s = {} \<and> sy_notifiers s = 0 \<and> sy_worker s \<notin> {Sync_check, Sync_proceeding, Sync_falling_asleep} \<and> \<not> sy_stop s
      then Some (sync_stop s) else None)"

fun perform_all :: "sync_action list \<Rightarrow> sync_state \<Rightarrow> sync_state option" where
  "perform_all [] s = Some s"
| "perform_all (a # as) s = (case perform a s of None \<Rightarrow> None | Some s' \<Rightarrow> perform_all as s')"

lemma perform_step: "perform a s = Some s' \<Longrightarrow> sync_step s s'"
  by (cases a) (auto intro: sync_step.intros split: if_splits)

lemma perform_all_reachable: "perform_all as s = Some s' \<Longrightarrow> sync_step\<^sup>*\<^sup>* s s'"
  by (induction as arbitrary: s)
    (auto intro: converse_rtranclp_into_rtranclp dest: perform_step split: option.splits)

lemmas sync_run_defs = sync_defs new_sync_def

text \<open>Two records, one \<open>fdatasync\<close> after the first, another by the destructor.\<close>

theorem journal_reaches_disk_witness:
  "\<exists>s. sync_step\<^sup>*\<^sup>* new_sync s \<and> sy_worker s = Sync_ended \<and> sy_written s = 2 \<and> sy_durable s = 2"
proof -
  obtain s where s: "perform_all [Write, Raise 0, Notify, Turn, Turn, Write, Raise 1, Notify, Stop, Return True, Turn, Turn, Return True] new_sync = Some s"
      "sy_worker s = Sync_ended" "\<not> sy_failed s" "sy_written s = 2"
    by (simp add: sync_run_defs)
  have run: "sync_step\<^sup>*\<^sup>* new_sync s" using s(1) by (rule perform_all_reachable)
  then have "sy_durable s = 2" using journal_reaches_disk [OF run s(3)] s(2,4) by simp
  then show ?thesis using run s by blast
qed

text \<open>A notification that falls between the predicate and blocking is lost: the worker sleeps although a record is not on disk, nobody is
  about to notify it, and it stays so until the next record.\<close>

lemma sync_notification_lost:
  "\<exists>s. sync_step\<^sup>*\<^sup>* new_sync s \<and> sy_worker s = Sync_waiting \<and> sy_notifiers s = 0 \<and> sy_unsignalled s = {} \<and> sy_written s = 1 \<and> sy_durable s = 0"
proof -
  obtain s where s: "perform_all [Turn, Write, Raise 0, Notify, Turn] new_sync = Some s" "sy_worker s = Sync_waiting" "sy_notifiers s = 0"
      "sy_unsignalled s = {}" "sy_written s = 1" "sy_durable s = 0"
    by (simp add: sync_run_defs)
  then show ?thesis using perform_all_reachable [OF s(1)] by blast
qed

text \<open>The result of \<open>fdatasync\<close> is ignored: after a failure the generation counts as synced and the record is not on disk.\<close>

lemma failed_sync_counts:
  "\<exists>s. sync_step\<^sup>*\<^sup>* new_sync s \<and> sy_synced_generation s = 1 \<and> sync_generation s = 1 \<and> sy_durable s = 0"
proof -
  obtain s where s: "perform_all [Write, Raise 0, Turn, Turn, Return False] new_sync = Some s" "sy_synced_generation s = 1" "sync_generation s = 1"
      "sy_durable s = 0"
    by (simp add: sync_run_defs)
  then show ?thesis using perform_all_reachable [OF s(1)] by blast
qed

end
