(* ===== verification/Abex_Lifecycle.thy ===== *)
theory Abex_Lifecycle
  imports Abex_Audit Abex_Gateway_Admin Abex_Market_Data
begin

text \<open>
  Starting and stopping the gateway (\<open>order_gateway.cpp\<close>): the checks of the constructor, the order in which \<open>start\<close> and \<open>stop\<close> bring
  threads and adapters up and down, a turn of the reconciliation thread with what it does about exceptions, and the registration of
  observers. Threads and adapters are represented by whether they run, and what is done to them by a list of effects.
\<close>

section \<open>Construction\<close>

text \<open>The loop over the adapters: \<open>None\<close> is a null pointer, otherwise the venue of the adapter.\<close>

fun collect_adapters :: "venue option list \<Rightarrow> venue list \<Rightarrow> venue list result" where
  "collect_adapters [] known = Inr known"
| "collect_adapters (None # as) known = Inl (Invalid_argument ''exchange adapter is null'')"
| "collect_adapters (Some v # as) known =
     (if v \<in> set known then Inl (Invalid_argument (''duplicate adapter for '' @ venue_to_string v))
      else collect_adapters as (known @ [v]))"

definition check_adapters :: "bool \<Rightarrow> venue option list \<Rightarrow> venue list result" where
  "check_adapters has_store adapters =
     (if \<not> has_store then Inl (Invalid_argument ''order store is required'')
      else rbind (collect_adapters adapters []) (\<lambda>vs.
        if Okx \<notin> set vs \<or> Binance \<notin> set vs then Inl (Invalid_argument ''both OKX and Binance adapters are required'') else Inr vs))"

section \<open>Start and stop\<close>

datatype life_effect =
    Worker_started
  | Worker_stopped
  | Adapter_restored venue
  | Adapter_started venue
  | Adapter_stopped venue
  | Venue_reconciled venue
  | Lanes_flushed
  | Observers_flushed
  | Events_flushed
  | Lifecycle_event operational_severity string string

record lifecycle =
  lc_started :: bool
  lc_worker :: bool
  lc_running :: "venue set"
  lc_effects :: "life_effect list"

definition life_effects :: "life_effect list \<Rightarrow> lifecycle \<Rightarrow> lifecycle" where
  "life_effects es l = l\<lparr>lc_effects := lc_effects l @ es\<rparr>"

text \<open>What starting meets: the adapters in the order of their map, the exceptions of \<open>restore\<close>, \<open>start\<close> and \<open>reconcile\<close>, the option,
  whether the journal knows an earlier instance, and the number of recovered orders.\<close>

record start_world =
  sw_adapters :: "venue list"
  sw_restore :: "venue \<Rightarrow> exn option"
  sw_start :: "venue \<Rightarrow> exn option"
  sw_reconcile :: "venue \<Rightarrow> exn option"
  sw_reconcile_on_start :: bool
  sw_previous_instance :: bool
  sw_recovered :: nat

definition start_worker :: "lifecycle \<Rightarrow> lifecycle" where
  "start_worker l = (if lc_worker l then l else life_effects [Worker_started] (l\<lparr>lc_worker := True\<rparr>))"

definition stop_worker :: "lifecycle \<Rightarrow> lifecycle" where
  "stop_worker l = (if lc_worker l then life_effects [Worker_stopped] (l\<lparr>lc_worker := False\<rparr>) else l)"

definition stop_gateway :: "venue list \<Rightarrow> lifecycle \<Rightarrow> lifecycle" where
  "stop_gateway adapters l =
     (if \<not> lc_started l then l
      else let l1 = stop_worker (l\<lparr>lc_started := False\<rparr>)
           in life_effects (map Adapter_stopped adapters @
                [Lanes_flushed, Observers_flushed, Lifecycle_event Info ''GATEWAY_STOPPED'' ''Gateway stopped cleanly'', Events_flushed])
                (l1\<lparr>lc_running := lc_running l1 - set adapters\<rparr>))"

fun start_adapters :: "start_world \<Rightarrow> venue list \<Rightarrow> lifecycle \<Rightarrow> lifecycle \<times> unit result" where
  "start_adapters w [] l = (l, Inr ())"
| "start_adapters w (v # vs) l =
     (case sw_restore w v of
        Some e \<Rightarrow> (l, Inl e)
      | None \<Rightarrow>
          let l1 = life_effects [Adapter_restored v] l
          in (case sw_start w v of
                Some e \<Rightarrow> (l1, Inl e)
              | None \<Rightarrow> start_adapters w vs (life_effects [Adapter_started v] (l1\<lparr>lc_running := insert v (lc_running l1)\<rparr>))))"

fun reconcile_all :: "start_world \<Rightarrow> venue list \<Rightarrow> lifecycle \<Rightarrow> lifecycle \<times> unit result" where
  "reconcile_all w [] l = (l, Inr ())"
| "reconcile_all w (v # vs) l =
     (case sw_reconcile w v of
        Some e \<Rightarrow> (l, Inl e)
      | None \<Rightarrow> reconcile_all w vs (life_effects [Venue_reconciled v] l))"

definition started_event :: "start_world \<Rightarrow> life_effect" where
  "started_event w =
     (if sw_previous_instance w
      then Lifecycle_event Info ''GATEWAY_RESTARTED'' (''Gateway restarted and recovered '' @ nat_to_string (sw_recovered w) @ '' order snapshots'')
      else Lifecycle_event Info ''GATEWAY_STARTED'' (''Gateway started with '' @ nat_to_string (sw_recovered w) @ '' recovered order snapshots''))"

definition start_gateway :: "start_world \<Rightarrow> lifecycle \<Rightarrow> lifecycle \<times> unit result" where
  "start_gateway w l =
     (if lc_started l then (l, Inr ())
      else let l1 = life_effects [started_event w] (start_worker (l\<lparr>lc_started := True\<rparr>))
           in case (case start_adapters w (sw_adapters w) l1 of
                      (l2, Inl e) \<Rightarrow> (l2, Inl e)
                    | (l2, Inr u) \<Rightarrow> if sw_reconcile_on_start w then reconcile_all w (sw_adapters w) l2 else (l2, Inr u)) of
                (l3, Inr u) \<Rightarrow> (l3, Inr u)
              | (l3, Inl e) \<Rightarrow>
                  (stop_gateway (sw_adapters w) (life_effects
                     [Lifecycle_event Critical ''GATEWAY_START_FAILED'' ''Gateway startup failed while initializing venue adapters''] l3), Inl e))"

section \<open>The reconciliation thread\<close>

text \<open>A turn that took a venue: an exception of \<open>reconcile\<close> becomes an event, and the thread goes on.\<close>

definition reconciliation_outcome :: "exn option \<Rightarrow> venue \<Rightarrow> life_effect" where
  "reconciliation_outcome failure v =
     (case failure of None \<Rightarrow> Venue_reconciled v | Some e \<Rightarrow> Lifecycle_event Critical ''RECONCILIATION_FAILED'' (what e))"

section \<open>Observers\<close>

definition add_operational_observer ::
    "(operational_event, 's) observer option \<Rightarrow> (operational_event, 's) observers \<Rightarrow> u64 result \<times> (operational_event, 's) observers" where
  "add_operational_observer = add_observer ''operational observer is empty''"

definition add_quote_observer ::
    "(market_quote, 's) observer option \<Rightarrow> (market_quote, 's) observers \<Rightarrow> u64 result \<times> (market_quote, 's) observers" where
  "add_quote_observer = add_observer ''market-data observer is required''"

text \<open>The observers of quotes are called by \<open>publish\<close> without a guard: the first exception ends it.\<close>

fun notify_quote :: "(market_quote, 's) observer list \<Rightarrow> market_quote \<Rightarrow> 's \<Rightarrow> 's \<times> unit result" where
  "notify_quote [] q s = (s, Inr ())"
| "notify_quote (f # fs) q s = (case f q s of (s1, Inl e) \<Rightarrow> (s1, Inl e) | (s1, Inr u) \<Rightarrow> notify_quote fs q s1)"

section \<open>What they guarantee\<close>

lemma life_effects_fields [simp]:
  "lc_started (life_effects es l) = lc_started l" "lc_worker (life_effects es l) = lc_worker l" "lc_running (life_effects es l) = lc_running l"
  "lc_effects (life_effects es l) = lc_effects l @ es"
  by (simp_all add: life_effects_def)

lemma check_adapters_venues: "check_adapters st as = Inr vs \<Longrightarrow> st \<and> distinct vs \<and> set vs = {Okx, Binance}"
proof -
  have "collect_adapters as known = Inr vs \<Longrightarrow> distinct known \<Longrightarrow> distinct vs" for known
    by (induction as known rule: collect_adapters.induct) (auto split: if_splits)
  then show "check_adapters st as = Inr vs \<Longrightarrow> st \<and> distinct vs \<and> set vs = {Okx, Binance}"
    by (auto simp: check_adapters_def elim!: rbind_InrE split: if_splits) (metis venue.exhaust)
qed

lemma start_adapters_ok:
  "start_adapters w vs l = (l', r) \<Longrightarrow> lc_started l' = lc_started l \<and> lc_worker l' = lc_worker l \<and>
     lc_running l' \<subseteq> lc_running l \<union> set vs \<and>
     (r = Inr () \<longrightarrow> lc_running l' = lc_running l \<union> set vs \<and>
        lc_effects l' = lc_effects l @ concat (map (\<lambda>v. [Adapter_restored v, Adapter_started v]) vs))"
  by (induction vs arbitrary: l) (force simp: Let_def split: option.splits)+

lemma reconcile_all_ok:
  "reconcile_all w vs l = (l', r) \<Longrightarrow> lc_started l' = lc_started l \<and> lc_worker l' = lc_worker l \<and> lc_running l' = lc_running l \<and>
     (r = Inr () \<longrightarrow> lc_effects l' = lc_effects l @ map Venue_reconciled vs)"
  by (induction vs arbitrary: l) (force split: option.splits)+

lemma stop_gateway_stops:
  "lc_started l \<Longrightarrow> lc_running l \<subseteq> set vs \<Longrightarrow>
   \<not> lc_started (stop_gateway vs l) \<and> \<not> lc_worker (stop_gateway vs l) \<and> lc_running (stop_gateway vs l) = {}"
  by (auto simp: stop_gateway_def stop_worker_def Let_def)

text \<open>C29. Starting is all or nothing. A start that succeeds leaves the thread and every adapter running, each adapter got the recovered
  orders before it was started, and venues are reconciled only after all adapters run. A start that fails leaves nothing running: every
  adapter was told to stop and the thread has ended, so the start can be repeated.\<close>

theorem start_all_or_nothing:
  assumes "start_gateway w l = (l', r)" "\<not> lc_started l" "\<not> lc_worker l" "lc_running l = {}"
  shows "(r = Inr () \<longrightarrow> lc_started l' \<and> lc_worker l' \<and> lc_running l' = set (sw_adapters w) \<and>
      lc_effects l' = lc_effects l @ [Worker_started, started_event w] @
        concat (map (\<lambda>v. [Adapter_restored v, Adapter_started v]) (sw_adapters w)) @
        (if sw_reconcile_on_start w then map Venue_reconciled (sw_adapters w) else [])) \<and>
    (\<forall>e. r = Inl e \<longrightarrow> \<not> lc_started l' \<and> \<not> lc_worker l' \<and> lc_running l' = {})"
proof -
  let ?l1 = "life_effects [started_event w] (start_worker (l\<lparr>lc_started := True\<rparr>))" and ?vs = "sw_adapters w"
  have l1: "lc_started ?l1" "lc_worker ?l1" "lc_running ?l1 = {}" "lc_effects ?l1 = lc_effects l @ [Worker_started, started_event w]"
    using assms(3,4) by (simp_all add: start_worker_def)
  obtain l2 r2 where adapters: "start_adapters w ?vs ?l1 = (l2, r2)" by fastforce
  obtain l3 r3 where rec: "reconcile_all w ?vs l2 = (l3, r3)" by fastforce
  have "lc_started l'' \<and> lc_running l'' \<subseteq> set ?vs \<Longrightarrow>
      \<not> lc_started (stop_gateway ?vs (life_effects es l'')) \<and> \<not> lc_worker (stop_gateway ?vs (life_effects es l'')) \<and>
      lc_running (stop_gateway ?vs (life_effects es l'')) = {}" for l'' es
    using stop_gateway_stops [of "life_effects es l''" ?vs] by simp
  then show ?thesis
    using start_adapters_ok [OF adapters] reconcile_all_ok [OF rec] l1 assms(1,2)
    by (cases r2; cases r3) (auto simp: start_gateway_def Let_def adapters rec split: if_splits)
qed

definition sample_start :: "exn option \<Rightarrow> start_world" where
  "sample_start failure = \<lparr>sw_adapters = [Okx, Binance], sw_restore = (\<lambda>_. None), sw_start = (\<lambda>v. if v = Binance then failure else None),
     sw_reconcile = (\<lambda>_. None), sw_reconcile_on_start = True, sw_previous_instance = False, sw_recovered = 0\<rparr>"

definition stopped_lifecycle :: lifecycle where
  "stopped_lifecycle = \<lparr>lc_started = False, lc_worker = False, lc_running = {}, lc_effects = []\<rparr>"

theorem start_all_or_nothing_witness:
  "\<exists>l'. start_gateway (sample_start (Some (Runtime_error ''no key''))) stopped_lifecycle = (l', Inl (Runtime_error ''no key'')) \<and>
     \<not> lc_worker l' \<and> lc_running l' = {}"
proof -
  obtain l' r where run: "start_gateway (sample_start (Some (Runtime_error ''no key''))) stopped_lifecycle = (l', r)" by fastforce
  have "snd (start_gateway (sample_start (Some (Runtime_error ''no key''))) stopped_lifecycle) = Inl (Runtime_error ''no key'')"
    by (simp add: start_gateway_def sample_start_def stopped_lifecycle_def)
  then have "r = Inl (Runtime_error ''no key'')" using run by simp
  then show ?thesis using start_all_or_nothing [OF run] run by (simp add: stopped_lifecycle_def)
qed

end
