(* ===== verification/Spec2Isabelle.thy ===== *)
theory Spec2Isabelle
  imports Abex_Gateway_Retry Abex_Lane Abex_Sim_Props Abex_Venue_Cache Abex_Audit Abex_Md_Feed_Props Abex_WebSocket_Props
    Abex_Okx_Props Abex_Binance_Props Abex_Server_Props Abex_Cli_Props Abex_Bootstrap_Props Abex_Sync Abex_Lifecycle
begin

text \<open>
  ABEX is an exchange gateway in C++20: clients place, cancel and amend orders at two venues through one
  process, which checks risk, journals every intent before it acts, follows the venues' execution
  reports, and reconciles after a restart or a lost connection. This development models its core and
  proves what the process relies on. All theories import \<open>Abex_Prelude\<close>, which holds the C++ exceptions as
  values of a sum type, 64-bit integers, the text functions of the standard library and the lemmas that
  the components share. \<open>Abex_Transitions\<close> states the contracts of step relations as locales (an invariant, a
  preorder that every step follows, a simulation); the runs of the gateway, of the simulated venue, of the
  cache and of the queues interpret them.

  \<^bold>\<open>Domain\<close> (\<open>include/abex/domain\<close>, \<open>src/domain\<close>).

  \<^item> \<open>Abex_Decimal\<close>: \<open>Decimal\<close>, a 64-bit integer scaled by $10^8$, with its checked arithmetic, parser and
    printer. Arithmetic is exact or truncated, or throws; what is printed is parsed back.
  \<^item> \<open>Abex_Order\<close>: orders, requests, reports, the text of every enumeration and the request fingerprints,
    which decide the equality of requests.
  \<^item> \<open>Abex_State_Machine\<close>: \<open>OrderStateMachine::apply\<close> in full. Fills grow and stay within the quantity,
    terminal states stay, redelivered, stale and superseded reports are harmless, the order of delivery does
    not matter for the fill.
  \<^item> \<open>Abex_Json\<close>: \<open>to_json\<close> and \<open>from_json\<close> of orders, requests and events. The JSON library is the record
    \<open>json_api\<close> with the laws \<open>json_laws\<close>; a tree of values satisfies them.

  \<^bold>\<open>Decisions\<close> (\<open>src/application\<close>).

  \<^item> \<open>Abex_Risk\<close>: \<open>RiskManager\<close>. \<open>Abex_Sequencing\<close>: the sequence tracker and the symbol registry.
    \<open>Abex_Preflight\<close>: the data of the adapter port, and the checks of the gateway on trading rules and
    balances.
  \<^item> \<open>Abex_Market_Data\<close>: the quote book, with the seqlock of one slot at the level of single word accesses.

  \<^bold>\<open>Gateway\<close> (\<open>order_gateway.cpp\<close>). \<open>Abex_Gateway\<close> has the state and the shared critical sections,
  \<open>Abex_Gateway_Commands\<close> the three commands, each cut at its locks and venue calls, \<open>Abex_Gateway_Admin\<close>
  construction, recovery, reconciliation and queries. \<open>Abex_Gateway_Inv\<close> and \<open>Abex_Gateway_Sections\<close> hold the
  invariants and what each section does to them. \<open>Abex_Gateway_Runs\<close> interleaves any number of commands,
  reports and reconciliations, section by section; \<open>Abex_Gateway_Props\<close> and \<open>Abex_Gateway_Retry\<close> prove over all
  runs that a client id is placed once, nothing goes to a venue before it is in the journal, and retries answer from
  the stored outcome, and over all runs in which nothing throws and no terminal order is marked unknown that positions are exact
  and admissions respect the limit. \<open>Abex_Lifecycle\<close> has the checks of the
  constructor, start and stop, which are all or nothing.

  \<^bold>\<open>Infrastructure\<close>.

  \<^item> \<open>Abex_Lane\<close> (\<open>spsc_execution_lane.hpp\<close>): the queue of reports, one atomic operation per step; it refines
    a bounded FIFO queue.
  \<^item> \<open>Abex_Ring\<close>, \<open>Abex_Async\<close> (\<open>mpsc_ring.hpp\<close>, \<open>async_order_observer_queue.hpp\<close>,
    \<open>operational_event_writer.hpp\<close>, \<open>async_journal_lane.hpp\<close>): the lock-free ring and the post, worker, flush and
    destructor protocol the three queues share, for any number of posting threads; they refine the same
    queue, posting never waits, the worker drains. \<open>Abex_Audit\<close>: what the queues carry; the audit trail of the
    gateway accounts for every event.
  \<^item> \<open>Abex_Protocol\<close>, \<open>Abex_Protocol_Props\<close> (\<open>exchange_protocols.cpp\<close>): the messages of OKX and Binance. Client ids are
    valid at the venue, requests carry the terms, answers are read as acceptances only where the venue accepted,
    every report has an identity, limits of trading rules are positive.
  \<^item> \<open>Abex_Md_Ring\<close>, \<open>Abex_Md_Ring_Props\<close> (\<open>market_data_ring.cpp\<close>): the shared memory ring between the publisher process and
    the gateway, one store and one load per step. No quote is torn, a read ends within a bound, what is published
    is read back. \<open>Abex_Md_Feed\<close>, \<open>Abex_Md_Feed_Props\<close> (\<open>public_market_data.hpp\<close>, \<open>apps/abex_market_data\<close>,
    \<open>market_data_feed.hpp\<close>): the parsers of the public endpoints and the feed into the quote book, from the ring to the
    price the gateway trades on.
  \<^item> \<open>Abex_WebSocket\<close>, \<open>Abex_WebSocket_Props\<close> (\<open>reconnecting_websocket.cpp\<close>, \<open>application_heartbeat.hpp\<close>): the client of
    the streams, all handlers and calls as interleaved steps. Messages are not replayed, a running client always
    recovers, queue and delays are bounded.
  \<^item> \<open>Abex_Http\<close> (\<open>http_client.cpp\<close>, \<open>crypto.cpp\<close>): requests, the pool of handles, the texts that are signed.
    \<open>Abex_Okx_Adapter\<close>, \<open>Abex_Okx_Props\<close> (\<open>okx_adapter.cpp\<close>): all operations and callbacks over an arbitrary HTTP transfer; a change
    of the session is stored in one step and told to the gateway in another.
    Requests are signed over their content, refusals are definite, reports find their order.
    \<open>Abex_Binance_Adapter\<close>, \<open>Abex_Binance_Props\<close> (\<open>binance_adapter.cpp\<close>): calls of any number of threads, cut into the
    sections between which the callbacks of the session and the clock thread can run. Answers are matched to their requests, signed timestamps are close to the clock of the venue.
  \<^item> \<open>Abex_Venue_Cache\<close> (\<open>venue_cache.hpp\<close>): answers are fresh answers of the venue.
  \<^item> \<open>Abex_Rate_Limiter\<close> (\<open>rate_limiter.hpp\<close>): at most the burst plus the rate is granted.
  \<^item> \<open>Abex_Sim_Exchange\<close>, \<open>Abex_Sim_Props\<close> (\<open>simulated_exchange_adapter.cpp\<close>): the in-process venue, all its
    operations, with unique ids, limit prices respected and repeatable placement.
  \<^item> \<open>Abex_Serializer\<close>, \<open>Abex_Store\<close> (\<open>journal_serializer.hpp\<close>, \<open>file_order_store.cpp\<close>,
    \<open>file_order_store_impl.hpp\<close>): payloads in both formats, records with checksums, the write loop, reading and
    repairing a journal. Opening a journal gives the latest order of every id. \<open>Abex_Sync\<close>: the thread that syncs the journal to
    disk, interleaved with the writers; what it counts as synced is on disk.

  \<^bold>\<open>Outside\<close>.

  \<^item> \<open>Abex_Views\<close> (\<open>json_views.cpp\<close>): what clients see of orders, venues, balances, rules, events and market data.
  \<^item> \<open>Abex_Api\<close>, \<open>Abex_Api_Props\<close> (\<open>gateway_api.cpp\<close>): targets, queries, every route and the handling of exceptions. A request is
    answered unless the JSON printer throws on its answer, orders are addressable by their ids, repeating a creation is safe.
  \<^item> \<open>Abex_Server\<close>, \<open>Abex_Server_Props\<close> (\<open>http_server.cpp\<close>): answers to HTTP requests, and the WebSocket sessions with their queues
    as interleaved steps. A client that misses an update is told to resynchronize.
  \<^item> \<open>Abex_Cli\<close>, \<open>Abex_Cli_Props\<close> (\<open>command_processor.cpp\<close>): the terminal. Quoted lines are read back exactly, the suggested
    quantities of limit orders with a price pass the rules of the venue.
  \<^item> \<open>Abex_Bootstrap\<close>, \<open>Abex_Bootstrap_Props\<close> (\<open>environment.cpp\<close>, \<open>config_loader.hpp\<close>, \<open>RiskManager::from_json\<close>,
    \<open>apps/abex_server\<close>): files of variables and configurations, arguments, and the supervision of the publisher process.

  \<^bold>\<open>Choices.\<close> The clock, the answers of venues, the outcomes of system calls and the interference of other
  threads in a compare-and-swap loop are arguments of the definitions. Hash maps whose iteration order shows
  in a text take that order as an argument. Positions in the rings and the version of a quote slot are
  natural numbers, since a wrap-around needs $2^{63}$ operations; the memory is sequentially consistent. A step of the
  WebSocket client completes any operation that is in flight; the reconnect timer is completed after the reads and
  writes of the stream that was closed when it was set. A run of the gateway carries a flag that turns
  false when a critical section throws or reconciliation marks a terminal order unknown; where a property needs it to be true,
  the statement says so. No loop of
  the model has fuel: the write loop consumes a list of outcomes of \<open>write\<close>, and it is proved which lists end it.

  \<^bold>\<open>Not modelled.\<close> Third-party code (libcurl, OpenSSL, Boost sockets and TLS, the JSON and YAML libraries), which the definitions take
  as arguments; the mechanics of starting, waiting and joining of the other threads; the watcher that reloads static files; opening
  and locking the journal file; the constructor of \<open>GatewayRuntime\<close>, which connects the parts; the
  floating-point rates of the rate limiter; signals and printing of the three programs; tests and benchmarks.
\<close>

end
